(* ===== verification/Go_Prelude.thy ===== *)
theory Go_Prelude
  imports Main "HOL-Library.Word"
begin

unbundle bit_operations_syntax

text \<open>
  Shared vocabulary of the development: Go's integer types as words, Go's two ways
  of not returning a value (an \<open>error\<close> result and a run-time panic) as the left
  summand of a sum, checked slice and index expressions, \<open>make\<close> / \<open>copy\<close> on byte
  buffers, and the big-endian conversions of \<open>encoding/binary\<close> with their laws.
  Everything here models the language and its standard library, not the repository.
\<close>

section \<open>Integer types\<close>

type_synonym u8 = "8 word"
type_synonym u16 = "16 word"
type_synonym u32 = "32 word"
type_synonym u64 = "64 word"
type_synonym bytes = "u8 list"

section \<open>Errors and panics\<close>

text \<open>
  \<open>Errorf s args\<close> is an \<open>errors.New\<close> / \<open>fmt.Errorf\<close> value: its message without the
  formatting verbs, and the integer arguments that were formatted into it.
  \<open>Wrap s e\<close> is \<open>fmt.Errorf("s: %w", e)\<close>.
\<close>

datatype goerror =
    Errorf string "int list"
  | Wrap string goerror

datatype failure = Err goerror | Panic

type_synonym 'a result = "failure + 'a"

abbreviation errorf :: "string \<Rightarrow> int list \<Rightarrow> 'a result" where
  "errorf s args \<equiv> Inl (Err (Errorf s args))"

abbreviation panic :: "'a result" where
  "panic \<equiv> Inl Panic"

named_theorems go_simps \<open>evaluation of the checked Go primitives\<close>
named_theorems wire_len \<open>lengths of encoded data\<close>

definition bindE :: "'a result \<Rightarrow> ('a \<Rightarrow> 'b result) \<Rightarrow> 'b result" where
  "bindE m f = (case m of Inl e \<Rightarrow> Inl e | Inr x \<Rightarrow> f x)"

definition wrapE :: "string \<Rightarrow> 'a result \<Rightarrow> 'a result" where
  "wrapE s m = (case m of Inl (Err e) \<Rightarrow> Inl (Err (Wrap s e)) | Inl Panic \<Rightarrow> Inl Panic | Inr x \<Rightarrow> Inr x)"

lemma bindE_simps [simp, go_simps]:
  "bindE (Inr x) f = f x"
  "bindE (Inl e) f = Inl e"
  by (simp_all add: bindE_def)

lemma bindE_cong [fundef_cong]:
  "m = m' \<Longrightarrow> (\<And>x. m' = Inr x \<Longrightarrow> f x = g x) \<Longrightarrow> bindE m f = bindE m' g"
  by (cases m') auto

lemma bindE_assoc: "bindE (bindE m f) g = bindE m (\<lambda>x. bindE (f x) g)"
  by (cases m) auto

lemma bindE_eq_Inr: "bindE m f = Inr y \<longleftrightarrow> (\<exists>x. m = Inr x \<and> f x = Inr y)"
  by (cases m) auto

lemma bindE_eq_Inl: "bindE m f = Inl e \<longleftrightarrow> m = Inl e \<or> (\<exists>x. m = Inr x \<and> f x = Inl e)"
  by (cases m) auto

lemma bindE_split:
  "P (bindE m f) \<longleftrightarrow> (\<forall>e. m = Inl e \<longrightarrow> P (Inl e)) \<and> (\<forall>x. m = Inr x \<longrightarrow> P (f x))"
  by (cases m) auto

lemma bindE_no_panic:
  "m \<noteq> panic \<Longrightarrow> (\<And>x. m = Inr x \<Longrightarrow> f x \<noteq> panic) \<Longrightarrow> bindE m f \<noteq> panic"
  by (cases m) auto

lemma wrapE_simps [simp, go_simps]:
  "wrapE s (Inr x) = Inr x"
  "wrapE s (Inl (Err e)) = Inl (Err (Wrap s e))"
  "wrapE s panic = panic"
  by (simp_all add: wrapE_def)

lemma wrapE_eq_Inr [simp]: "wrapE s m = Inr y \<longleftrightarrow> m = Inr y"
  by (auto simp: wrapE_def split: sum.splits failure.splits)

lemma wrapE_eq_panic [simp]: "wrapE s m = panic \<longleftrightarrow> m = panic"
  by (auto simp: wrapE_def split: sum.splits failure.splits)

text \<open>A loop that appends the results of a fallible body, stopping at the first failure.\<close>

fun mapE :: "('a \<Rightarrow> 'b result) \<Rightarrow> 'a list \<Rightarrow> 'b list result" where
  "mapE f [] = Inr []"
| "mapE f (x # xs) = bindE (f x) (\<lambda>y. bindE (mapE f xs) (\<lambda>ys. Inr (y # ys)))"

lemma mapE_cong [fundef_cong]:
  "xs = ys \<Longrightarrow> (\<And>x. x \<in> set ys \<Longrightarrow> f x = g x) \<Longrightarrow> mapE f xs = mapE g ys"
proof (induction ys arbitrary: xs)
  case (Cons y ys)
  then show ?case by simp
qed simp

lemma mapE_Inr_iff: "mapE f xs = Inr ys \<longleftrightarrow> list_all2 (\<lambda>x y. f x = Inr y) xs ys"
proof (induction xs arbitrary: ys)
  case (Cons x xs)
  then show ?case by (cases ys) (auto simp: bindE_eq_Inr)
qed auto

lemma mapE_all_Inr: "(\<And>x. x \<in> set xs \<Longrightarrow> f x = Inr (g x)) \<Longrightarrow> mapE f xs = Inr (map g xs)"
  by (induction xs) auto

lemma mapE_append:
  "mapE f (xs @ ys) = bindE (mapE f xs) (\<lambda>as. bindE (mapE f ys) (\<lambda>bs. Inr (as @ bs)))"
  by (induction xs) (auto simp: bindE_assoc split: bindE_split)

lemma mapE_no_panic: "(\<And>x. x \<in> set xs \<Longrightarrow> f x \<noteq> panic) \<Longrightarrow> mapE f xs \<noteq> panic"
  by (induction xs) (auto simp: bindE_eq_Inl)

section \<open>Slices and buffers\<close>

text \<open>
  \<open>xs[i]\<close> and \<open>xs[lo:hi]\<close> with Go's bounds checks. Go lets a slice expression reach up
  to the capacity of its operand; \<open>sliceE\<close> bounds it by the length, which is stricter.
  Where a length and a capacity can differ and the code may read in between, the
  model uses the two-part slices of theory Objects instead.
\<close>

definition indexE :: "'a list \<Rightarrow> nat \<Rightarrow> 'a result" where
  "indexE xs i = (if i < length xs then Inr (xs ! i) else panic)"

definition sliceE :: "'a list \<Rightarrow> nat \<Rightarrow> nat \<Rightarrow> 'a list result" where
  "sliceE xs lo hi =
     (if lo \<le> hi \<and> hi \<le> length xs then Inr (take (hi - lo) (drop lo xs)) else panic)"

lemma indexE_in [simp, go_simps]: "i < length xs \<Longrightarrow> indexE xs i = Inr (xs ! i)"
  by (simp add: indexE_def)

lemma sliceE_in [simp, go_simps]:
  "lo \<le> hi \<Longrightarrow> hi \<le> length xs \<Longrightarrow> sliceE xs lo hi = Inr (take (hi - lo) (drop lo xs))"
  by (simp add: sliceE_def)

lemma sliceE_Inr_length: "sliceE xs lo hi = Inr ys \<Longrightarrow> length ys = hi - lo"
  by (auto simp: sliceE_def split: if_splits)

definition makeBytes :: "nat \<Rightarrow> bytes" where
  "makeBytes n = replicate n 0"

lemma length_makeBytes [simp, wire_len]: "length (makeBytes n) = n"
  by (simp add: makeBytes_def)

lemma makeBytes_0 [simp]: "makeBytes 0 = []"
  by (simp add: makeBytes_def)

lemma take_makeBytes [simp]: "take k (makeBytes n) = makeBytes (min k n)"
  by (simp add: makeBytes_def)

lemma drop_makeBytes [simp]: "drop k (makeBytes n) = makeBytes (n - k)"
  by (simp add: makeBytes_def)

lemma set_makeBytes: "set (makeBytes n) \<subseteq> {0}"
  by (auto simp: makeBytes_def)

lemma makeBytes_add: "makeBytes (m + n) = makeBytes m @ makeBytes n"
  by (simp add: makeBytes_def replicate_add)

text \<open>\<open>copy(buf[lo:hi], src)\<close>: the shorter of the two lengths is copied.\<close>

definition copyE :: "bytes \<Rightarrow> nat \<Rightarrow> nat \<Rightarrow> bytes \<Rightarrow> bytes result" where
  "copyE buf lo hi src =
     (if lo \<le> hi \<and> hi \<le> length buf then
        (let n = min (hi - lo) (length src) in
         Inr (take lo buf @ take n src @ drop (lo + n) buf))
      else panic)"

text \<open>\<open>binary.BigEndian.PutUintXX(buf[lo:hi], v)\<close>: panics when the target is too short.\<close>

definition putE :: "bytes \<Rightarrow> nat \<Rightarrow> nat \<Rightarrow> bytes \<Rightarrow> bytes result" where
  "putE buf lo hi bs =
     (if lo \<le> hi \<and> hi \<le> length buf \<and> length bs \<le> hi - lo
      then Inr (take lo buf @ bs @ drop (lo + length bs) buf) else panic)"

text \<open>\<open>buf[i] = b\<close>.\<close>

definition setE :: "bytes \<Rightarrow> nat \<Rightarrow> u8 \<Rightarrow> bytes result" where
  "setE buf i b = (if i < length buf then Inr (buf[i := b]) else panic)"

lemma copyE_length: "copyE buf lo hi src = Inr buf' \<Longrightarrow> length buf' = length buf"
  by (auto simp: copyE_def Let_def split: if_splits)

lemma putE_length: "putE buf lo hi bs = Inr buf' \<Longrightarrow> length buf' = length buf"
  by (auto simp: putE_def split: if_splits)

lemma copyE_exact [simp, go_simps]:
  "lo \<le> hi \<Longrightarrow> hi \<le> length buf \<Longrightarrow> length src = hi - lo \<Longrightarrow>
   copyE buf lo hi src = Inr (take lo buf @ src @ drop hi buf)"
  by (simp add: copyE_def)

lemma copyE_nil [simp]:
  "lo \<le> hi \<Longrightarrow> hi \<le> length buf \<Longrightarrow> copyE buf lo hi [] = Inr buf"
  by (simp add: copyE_def)

lemma putE_exact [simp, go_simps]:
  "lo \<le> hi \<Longrightarrow> hi \<le> length buf \<Longrightarrow> length bs = hi - lo \<Longrightarrow>
   putE buf lo hi bs = Inr (take lo buf @ bs @ drop hi buf)"
  by (simp add: putE_def)

lemma setE_in [simp, go_simps]: "i < length buf \<Longrightarrow> setE buf i b = Inr (buf[i := b])"
  by (simp add: setE_def)

section \<open>Big-endian integers\<close>

fun be_bytes :: "nat \<Rightarrow> nat \<Rightarrow> bytes" where
  "be_bytes 0 v = []"
| "be_bytes (Suc n) v = word_of_nat (v div 256 ^ n) # be_bytes n v"

fun be_nat :: "bytes \<Rightarrow> nat" where
  "be_nat [] = 0"
| "be_nat (b # bs) = unat b * 256 ^ length bs + be_nat bs"

lemma length_be_bytes [simp, wire_len]: "length (be_bytes n v) = n"
  by (induction n) auto

lemma unat_u8_less: "unat (b :: u8) < 256"
  using unsigned_less [where ?'a = nat, of b] by simp

lemma unat_u16_less: "unat (v :: u16) < 65536"
  using unsigned_less [where ?'a = nat, of v] by simp

lemma unat_u32_less: "unat (v :: u32) < 4294967296"
  using unsigned_less [where ?'a = nat, of v] by simp

lemma unat_u64_less: "unat (v :: u64) < 18446744073709551616"
  using unsigned_less [where ?'a = nat, of v] by simp

lemma unat_u16_id: "n < 65536 \<Longrightarrow> unat (word_of_nat n :: u16) = n"
  by (simp add: unat_of_nat)

lemma word_of_nat_inverse_u16: "unat (w :: u16) = n \<Longrightarrow> w = word_of_nat n"
  by (metis of_nat_unat ucast_id)

lemma unat_u8_of_nat: "unat (word_of_nat n :: u8) = n mod 256"
  by (simp add: unat_of_nat)

lemma be_nat_be_bytes: "be_nat (be_bytes n v) = v mod 256 ^ n"
proof (induction n)
  case (Suc n)
  have "v mod (256 ^ n * 256) = 256 ^ n * (v div 256 ^ n mod 256) + v mod 256 ^ n"
    by (rule mod_mult2_eq)
  with Suc show ?case
    by (simp add: unat_u8_of_nat mult.commute)
qed simp

lemma be_nat_less: "be_nat bs < 256 ^ length bs"
proof (induction bs)
  case (Cons b bs)
  have "unat b < 256" by (rule unat_u8_less)
  then have "(unat b + 1) * 256 ^ length bs \<le> 256 * 256 ^ length bs"
    by (intro mult_right_mono) simp_all
  moreover have "(unat b + 1) * 256 ^ length bs = unat b * 256 ^ length bs + 256 ^ length bs"
    by (simp only: add_mult_distrib mult_1)
  ultimately show ?case using Cons.IH by (simp only: be_nat.simps length_Cons power_Suc)
qed simp

lemma be_bytes_mod: "be_bytes n (v mod 256 ^ n) = be_bytes n v"
proof -
  have "be_bytes n (v mod 256 ^ m) = be_bytes n v" if "n \<le> m" for m
    using that
  proof (induction n)
    case (Suc n)
    have "(v mod 256 ^ m) div 256 ^ n mod 256 = v div 256 ^ n mod 256"
    proof -
      obtain k where m: "m = Suc (n + k)" using Suc.prems by (metis Suc_le_D add_Suc le_Suc_ex)
      have "256 ^ m = 256 ^ n * (256 ^ Suc k :: nat)"
        by (simp add: m power_add)
      then have "v mod 256 ^ m = 256 ^ n * (v div 256 ^ n mod 256 ^ Suc k) + v mod 256 ^ n"
        by (simp only: mod_mult2_eq)
      then have "(v mod 256 ^ m) div 256 ^ n = v div 256 ^ n mod 256 ^ Suc k"
        by simp
      then show ?thesis by (simp add: mod_mod_cancel)
    qed
    then have "(word_of_nat ((v mod 256 ^ m) div 256 ^ n) :: u8) = word_of_nat (v div 256 ^ n)"
      by (metis unat_u8_of_nat unsigned_word_eqI)
    with Suc show ?case by simp
  qed simp
  then show ?thesis by simp
qed

lemma be_bytes_be_nat: "be_bytes (length bs) (be_nat bs) = bs"
proof (induction bs)
  case (Cons b bs)
  have l: "be_nat bs < 256 ^ length bs" by (rule be_nat_less)
  have "(unat b * 256 ^ length bs + be_nat bs) div 256 ^ length bs = unat b"
    using l by simp
  moreover have "be_bytes (length bs) (unat b * 256 ^ length bs + be_nat bs) = bs"
    using be_bytes_mod [of "length bs" "unat b * 256 ^ length bs + be_nat bs"] l Cons by simp
  ultimately show ?case by simp
qed simp

lemma be_bytes_be_nat' : "n = length bs \<Longrightarrow> be_bytes n (be_nat bs) = bs"
  by (simp add: be_bytes_be_nat)

definition beUint16 :: "bytes \<Rightarrow> u16 result" where
  "beUint16 bs = (if length bs < 2 then panic else Inr (word_of_nat (be_nat (take 2 bs))))"

definition beUint32 :: "bytes \<Rightarrow> u32 result" where
  "beUint32 bs = (if length bs < 4 then panic else Inr (word_of_nat (be_nat (take 4 bs))))"

definition beUint64 :: "bytes \<Rightarrow> u64 result" where
  "beUint64 bs = (if length bs < 8 then panic else Inr (word_of_nat (be_nat (take 8 bs))))"

definition be16 :: "u16 \<Rightarrow> bytes" where "be16 v = be_bytes 2 (unat v)"
definition be32 :: "u32 \<Rightarrow> bytes" where "be32 v = be_bytes 4 (unat v)"
definition be64 :: "u64 \<Rightarrow> bytes" where "be64 v = be_bytes 8 (unat v)"

lemma length_be [simp, wire_len]:
  "length (be16 v) = 2" "length (be32 w) = 4" "length (be64 x) = 8"
  by (simp_all add: be16_def be32_def be64_def)

lemma beUint16_be16 [simp]: "beUint16 (be16 v) = Inr v"
  using unat_u16_less [of v] by (simp add: beUint16_def be16_def be_nat_be_bytes)

lemma beUint32_be32 [simp]: "beUint32 (be32 v) = Inr v"
  using unat_u32_less [of v] by (simp add: beUint32_def be32_def be_nat_be_bytes)

lemma beUint64_be64 [simp]: "beUint64 (be64 v) = Inr v"
  using unat_u64_less [of v] by (simp add: beUint64_def be64_def be_nat_be_bytes)

lemma be_nat_be16 [simp]: "be_nat (be16 v) = unat v"
  using unat_u16_less [of v] by (simp add: be16_def be_nat_be_bytes)

lemma be_nat_be32 [simp]: "be_nat (be32 v) = unat v"
  using unat_u32_less [of v] by (simp add: be32_def be_nat_be_bytes)

lemma beUint16_Inr_iff: "beUint16 bs = Inr v \<longleftrightarrow> 2 \<le> length bs \<and> be16 v = take 2 bs"
proof
  assume a: "beUint16 bs = Inr v"
  then have l: "2 \<le> length bs" and v: "v = word_of_nat (be_nat (take 2 bs))"
    by (auto simp: beUint16_def split: if_splits)
  have "be_nat (take 2 bs) < 256 ^ 2" using be_nat_less [of "take 2 bs"] l by simp
  then have "unat v = be_nat (take 2 bs)" by (simp add: v unat_of_nat)
  then show "2 \<le> length bs \<and> be16 v = take 2 bs"
    using l by (simp add: be16_def be_bytes_be_nat')
next
  assume a: "2 \<le> length bs \<and> be16 v = take 2 bs"
  then have "be_nat (take 2 bs) = unat v"
    using be_nat_be_bytes [of 2 "unat v"] unat_u16_less [of v] by (simp add: be16_def)
  with a show "beUint16 bs = Inr v" by (simp add: beUint16_def)
qed

lemma beUint32_Inr_iff: "beUint32 bs = Inr v \<longleftrightarrow> 4 \<le> length bs \<and> be32 v = take 4 bs"
proof
  assume a: "beUint32 bs = Inr v"
  then have l: "4 \<le> length bs" and v: "v = word_of_nat (be_nat (take 4 bs))"
    by (auto simp: beUint32_def split: if_splits)
  have "be_nat (take 4 bs) < 256 ^ 4" using be_nat_less [of "take 4 bs"] l by simp
  then have "unat v = be_nat (take 4 bs)" by (simp add: v unat_of_nat)
  then show "4 \<le> length bs \<and> be32 v = take 4 bs"
    using l by (simp add: be32_def be_bytes_be_nat')
next
  assume a: "4 \<le> length bs \<and> be32 v = take 4 bs"
  then have "be_nat (take 4 bs) = unat v"
    using be_nat_be_bytes [of 4 "unat v"] unat_u32_less [of v] by (simp add: be32_def)
  with a show "beUint32 bs = Inr v" by (simp add: beUint32_def)
qed

lemma beUint_total:
  "2 \<le> length bs \<Longrightarrow> \<exists>v. beUint16 bs = Inr v"
  "4 \<le> length bs \<Longrightarrow> \<exists>w. beUint32 bs = Inr w"
  "8 \<le> length bs \<Longrightarrow> \<exists>x. beUint64 bs = Inr x"
  by (auto simp: beUint16_def beUint32_def beUint64_def)

lemma be_read:
  "2 \<le> length bs \<Longrightarrow> beUint16 bs = Inr (word_of_nat (be_nat (take 2 bs)))"
  "4 \<le> length bs \<Longrightarrow> beUint32 bs = Inr (word_of_nat (be_nat (take 4 bs)))"
  "8 \<le> length bs \<Longrightarrow> beUint64 bs = Inr (word_of_nat (be_nat (take 8 bs)))"
  by (simp_all add: beUint16_def beUint32_def beUint64_def)

end
