(* ===== verification/Wire.thy ===== *)
theory Wire
  imports Go_Prelude
begin

text \<open>
  The byte-level helpers of \<open>src/pkg/packet/pcep/pcep_util.go\<close> and
  \<open>src/pkg/packet/pcep/tlv_common.go\<close>: byte slice concatenation, integer to byte
  conversions, flag bits, padding, and the length validation every TLV decoder starts with.
\<close>

section \<open>pcep_util.go\<close>

definition AppendByteSlices :: "bytes list \<Rightarrow> bytes" where
  "AppendByteSlices slices = concat slices"

definition Uint16ToByteSlice :: "u16 \<Rightarrow> bytes" where
  "Uint16ToByteSlice v = be16 v"

definition Uint32ToByteSlice :: "u32 \<Rightarrow> bytes" where
  "Uint32ToByteSlice v = be32 v"

definition IsBitSet :: "'a::len word \<Rightarrow> 'a word \<Rightarrow> bool" where
  "IsBitSet value flag \<longleftrightarrow> value AND flag \<noteq> 0"

definition SetBit :: "'a::len word \<Rightarrow> 'a word \<Rightarrow> bool \<Rightarrow> 'a word" where
  "SetBit value b condition = (if condition then value OR b else value)"

section \<open>tlv_common.go\<close>

definition TLVTypeOffset :: nat where "TLVTypeOffset = 0"
definition TLVLengthOffset :: nat where "TLVLengthOffset = 2"
definition TLVValueOffset :: nat where "TLVValueOffset = 4"
definition TLVAlignment :: nat where "TLVAlignment = 4"
definition IPv4AddrLen :: nat where "IPv4AddrLen = 4"
definition IPv6AddrLen :: nat where "IPv6AddrLen = 16"
definition IPv4InIPv6Offset :: nat where "IPv4InIPv6Offset = 12"

lemmas tlv_consts [go_simps] =
  TLVTypeOffset_def TLVLengthOffset_def TLVValueOffset_def TLVAlignment_def
  IPv4AddrLen_def IPv6AddrLen_def IPv4InIPv6Offset_def

definition paddedLength :: "nat \<Rightarrow> nat \<Rightarrow> nat" where
  "paddedLength n align = (if n mod align = 0 then n else n + (align - n mod align))"

definition decodeTLVLength :: "bytes \<Rightarrow> bool \<Rightarrow> nat result" where
  "decodeTLVLength data allowPadding =
     (if length data < TLVValueOffset
      then errorf ''tlv: too short'' [int (length data), int TLVValueOffset]
      else
        bindE (sliceE data TLVLengthOffset TLVValueOffset) (\<lambda>lenBytes.
        bindE (beUint16 lenBytes) (\<lambda>len16.
        let len = unat len16; expected = TLVValueOffset + len in
        if length data < expected
        then errorf ''tlv: invalid length (expected at least)'' [int expected, int (length data)]
        else if length data = expected then Inr len
        else if \<not> allowPadding \<or> TLVAlignment \<le> 0
        then errorf ''tlv: invalid length (expected)'' [int expected, int (length data)]
        else
          let paddedExpected = paddedLength expected TLVAlignment in
          if length data \<noteq> paddedExpected
          then errorf ''tlv: invalid length (expected, or with padding)''
                 [int expected, int paddedExpected, int (length data)]
          else if list_ex (\<lambda>b. b \<noteq> 0) (drop expected data)
          then errorf ''tlv: invalid padding'' [int expected]
          else Inr len)))"

definition isIPv4Bytes :: "bytes \<Rightarrow> bool" where
  "isIPv4Bytes b =
     (if length b \<noteq> IPv6AddrLen then False
      else list_all (\<lambda>i. b ! i = 0) [0..<IPv4InIPv6Offset])"

section \<open>Laws\<close>

lemma length_Uint_bytes [simp, wire_len]:
  "length (Uint16ToByteSlice v) = 2" "length (Uint32ToByteSlice w) = 4"
  by (simp_all add: Uint16ToByteSlice_def Uint32ToByteSlice_def)

lemma AppendByteSlices_simps [simp]:
  "AppendByteSlices [] = []"
  "AppendByteSlices (x # xs) = x @ AppendByteSlices xs"
  by (simp_all add: AppendByteSlices_def)

lemma paddedLength_4: "paddedLength n 4 = 4 * ((n + 3) div 4)"
  unfolding paddedLength_def by presburger

lemma paddedLength_ge:
  assumes "0 < a" shows "n \<le> paddedLength n a"
proof -
  have "n mod a < a" using assms by (rule mod_less_divisor)
  then have "n \<le> n + (a - n mod a)" by linarith
  then show ?thesis by (simp add: paddedLength_def)
qed

lemma paddedLength_dvd: "0 < a \<Longrightarrow> a dvd paddedLength n a"
proof -
  assume a: "0 < a"
  have "n + (a - n mod a) = n div a * a + a"
    using a mod_less_divisor [OF a, of n] div_mult_mod_eq [of n a] by linarith
  then show ?thesis by (auto simp: paddedLength_def)
qed

lemma paddedLength_less:
  assumes "0 < a" shows "paddedLength n a < n + a"
proof -
  have "n mod a < a" using assms by (rule mod_less_divisor)
  then show ?thesis using assms by (simp add: paddedLength_def)
qed

lemma SetBit_simps [simp]: "SetBit v b True = v OR b" "SetBit v b False = v"
  by (simp_all add: SetBit_def)

text \<open>The value length a TLV header declares.\<close>

definition declared_len :: "bytes \<Rightarrow> nat" where
  "declared_len data = be_nat (take 2 (drop 2 data))"

lemma declared_len_less: "declared_len data < 65536"
proof -
  have "declared_len data < 256 ^ length (take 2 (drop 2 data))"
    unfolding declared_len_def by (rule be_nat_less)
  also have "\<dots> \<le> 256 ^ 2" by (rule power_increasing) auto
  finally show ?thesis by simp
qed

lemma read_declared_len:
  "4 \<le> length data \<Longrightarrow>
   bindE (sliceE data TLVLengthOffset TLVValueOffset) (\<lambda>b. bindE (beUint16 b) f)
     = f (word_of_nat (declared_len data))"
  by (simp add: tlv_consts beUint16_def declared_len_def)

lemma unat_declared_len: "unat (word_of_nat (declared_len data) :: u16) = declared_len data"
  using declared_len_less [of data] by (simp add: unat_of_nat)

lemma decodeTLVLength_cases:
  "4 \<le> length data \<Longrightarrow> decodeTLVLength data p =
     (let len = declared_len data; expected = 4 + len in
      if length data < expected
      then errorf ''tlv: invalid length (expected at least)'' [int expected, int (length data)]
      else if length data = expected then Inr len
      else if \<not> p then errorf ''tlv: invalid length (expected)'' [int expected, int (length data)]
      else if length data \<noteq> paddedLength expected 4
      then errorf ''tlv: invalid length (expected, or with padding)''
             [int expected, int (paddedLength expected 4), int (length data)]
      else if list_ex (\<lambda>b. b \<noteq> 0) (drop expected data)
      then errorf ''tlv: invalid padding'' [int expected]
      else Inr len)"
  by (simp only: decodeTLVLength_def read_declared_len unat_declared_len Let_def)
    (simp add: tlv_consts)

lemma decodeTLVLength_no_panic [simp]: "decodeTLVLength data p \<noteq> panic"
proof (cases "4 \<le> length data")
  case True
  then show ?thesis by (simp add: decodeTLVLength_cases Let_def)
next
  case False
  then show ?thesis by (simp add: decodeTLVLength_def tlv_consts)
qed

text \<open>The header of a TLV as the encoders write it.\<close>

definition tlv_header :: "u16 \<Rightarrow> u16 \<Rightarrow> bytes" where
  "tlv_header ty len = Uint16ToByteSlice ty @ Uint16ToByteSlice len"

lemma length_tlv_header [simp, wire_len]: "length (tlv_header t l) = 4"
  by (simp add: tlv_header_def)

lemma take_tlv_header [simp]: "take 2 (tlv_header t l) = be16 t"
  by (simp add: tlv_header_def Uint16ToByteSlice_def)

lemma drop_tlv_header [simp]: "drop 2 (tlv_header t l) = be16 l"
  by (simp add: tlv_header_def Uint16ToByteSlice_def)

lemma declared_len_header [simp]: "declared_len (tlv_header ty len @ value) = unat len"
  using unat_u16_less [of len]
  by (simp add: declared_len_def be16_def be_nat_be_bytes)

lemma decodeTLVLength_exact [simp]:
  "length value = unat len \<Longrightarrow> decodeTLVLength (tlv_header ty len @ value) p = Inr (unat len)"
  by (simp add: decodeTLVLength_cases)

lemma decodeTLVLength_InrD:
  assumes "decodeTLVLength data p = Inr n"
  shows "4 + n \<le> length data" "\<not> p \<Longrightarrow> length data = 4 + n" "n = declared_len data"
    "n < 65536" "list_all (\<lambda>b. b = 0) (drop (4 + n) data)"
    "length data = 4 + n \<or> length data = paddedLength (4 + n) 4"
proof -
  have l: "4 \<le> length data"
    using assms by (cases "4 \<le> length data") (auto simp: decodeTLVLength_def tlv_consts)
  note c = assms [unfolded decodeTLVLength_cases [OF l] Let_def]
  show n: "n = declared_len data" using c by (auto split: if_splits)
  show "4 + n \<le> length data" "\<not> p \<Longrightarrow> length data = 4 + n"
    "length data = 4 + n \<or> length data = paddedLength (4 + n) 4"
    using c by (auto split: if_splits)
  show "n < 65536" using n declared_len_less by simp
  show "list_all (\<lambda>b. b = 0) (drop (4 + n) data)"
    using c by (auto simp: list_all_iff list_ex_iff split: if_splits)
qed

end
