(* ===== verification/Tlv_Codec.thy ===== *)
theory Tlv_Codec
  imports Wire
begin

text \<open>
  The interface every TLV type of \<open>src/pkg/packet/pcep/tlv.go\<close> offers to its users
  (\<open>TLVInterface\<close>: \<open>DecodeFromBytes\<close>, \<open>Serialize\<close>, \<open>Type\<close>, \<open>Len\<close>), as a locale
  whose assumptions are the laws a TLV type promises. The theories of the TLV types
  interpret it, and theory Tlv_Seq relies on it for whole TLV sequences.
\<close>

section \<open>Frames\<close>

text \<open>The bytes of one TLV on the wire: header, value, zero padding to four bytes.\<close>

definition pad4 :: "nat \<Rightarrow> nat" where
  "pad4 n = paddedLength n 4 - n"

definition tlv_frame :: "u16 \<Rightarrow> bytes \<Rightarrow> bytes" where
  "tlv_frame ty value = tlv_header ty (word_of_nat (length value)) @ value @ makeBytes (pad4 (length value))"

definition max_value :: nat where "max_value = 65528"

lemma pad4_add: "n + pad4 n = paddedLength n 4"
  using paddedLength_ge [of 4 n] by (simp add: pad4_def)

lemma pad4_zero [simp]: "n mod 4 = 0 \<Longrightarrow> pad4 n = 0"
  by (simp add: pad4_def paddedLength_def)

lemma pad4_mod: "pad4 n = (4 - n mod 4) mod 4"
proof (cases "n mod 4 = 0")
  case True
  then show ?thesis by simp
next
  case False
  then have "(4 - n mod 4) mod 4 = 4 - n mod 4" by (intro mod_less) linarith
  with False show ?thesis by (simp add: pad4_def paddedLength_def)
qed

lemma pad4_less: "pad4 n < 4"
  unfolding pad4_mod by simp

lemma paddedLength_mono_max: "n \<le> max_value \<Longrightarrow> paddedLength n 4 \<le> max_value"
proof -
  assume "n \<le> max_value"
  then have "(n + 3) div 4 \<le> (max_value + 3) div 4" by (intro div_le_mono) simp
  then show ?thesis by (simp add: paddedLength_4 max_value_def)
qed

lemma length_tlv_frame [simp]: "length (tlv_frame ty v) = 4 + paddedLength (length v) 4"
  using pad4_add [of "length v"] by (simp add: tlv_frame_def)

lemma tlv_frame_dvd: "4 dvd length (tlv_frame ty v)"
  using paddedLength_dvd [of 4 "length v"] by simp

lemma tlv_frame_neq_Nil [simp]: "tlv_frame ty v \<noteq> []"
proof
  assume "tlv_frame ty v = []"
  then have "length (tlv_frame ty v) = 0" by simp
  then show False by simp
qed

lemma tlv_frame_parts:
  assumes "length v < 65536"
  shows "declared_len (tlv_frame ty v @ rest) = length v"
    and "take 2 (tlv_frame ty v @ rest) = be16 ty"
    and "take (4 + length v) (tlv_frame ty v @ rest) = tlv_header ty (word_of_nat (length v)) @ v"
    and "drop (4 + paddedLength (length v) 4) (tlv_frame ty v @ rest) = rest"
proof -
  have u: "unat (word_of_nat (length v) :: u16) = length v"
    using assms by (simp add: unat_of_nat)
  show "declared_len (tlv_frame ty v @ rest) = length v"
    by (simp add: tlv_frame_def u)
  show "take 2 (tlv_frame ty v @ rest) = be16 ty"
    by (simp add: tlv_frame_def)
  show "take (4 + length v) (tlv_frame ty v @ rest) = tlv_header ty (word_of_nat (length v)) @ v"
    by (simp add: tlv_frame_def)
  show "drop (4 + paddedLength (length v) 4) (tlv_frame ty v @ rest) = rest"
    using length_tlv_frame [of ty v] by (metis append_eq_conv_conj)
qed

lemma tlv_frame_aligned:
  "length v mod 4 = 0 \<Longrightarrow> length v < 65536 \<Longrightarrow> len = word_of_nat (length v) \<Longrightarrow>
   tlv_header ty len @ v = tlv_frame ty v"
  by (simp add: tlv_frame_def)

section \<open>The contract of a TLV type\<close>

locale tlv_codec =
  fixes decode :: "bytes \<Rightarrow> 'a result"
    and serialize :: "'a \<Rightarrow> bytes result"
    and ty :: "'a \<Rightarrow> u16"
    and len :: "'a \<Rightarrow> u16"
    and ok :: "'a \<Rightarrow> bool"
  assumes roundtrip: "ok x \<Longrightarrow>
      \<exists>v. length v \<le> max_value \<and> serialize x = Inr (tlv_frame (ty x) v) \<and>
          unat (len x) = 4 + paddedLength (length v) 4 \<and>
          decode (tlv_header (ty x) (word_of_nat (length v)) @ v) = Inr x"
    and decode_no_panic: "decode data \<noteq> panic"
    and decode_ok: "decode data = Inr x \<Longrightarrow> length data \<le> 4 + max_value \<Longrightarrow> ok x"
begin

lemma serialize_length:
  assumes "ok x"
  obtains bs where "serialize x = Inr bs" "length bs = unat (len x)" "4 dvd length bs"
    "4 \<le> length bs" "length bs \<le> 4 + max_value"
proof -
  obtain v where v: "length v \<le> max_value" "serialize x = Inr (tlv_frame (ty x) v)"
      "unat (len x) = 4 + paddedLength (length v) 4"
    using roundtrip [OF assms] by blast
  show ?thesis
  proof (rule that [OF v(2)])
    show "length (tlv_frame (ty x) v) = unat (len x)" using v(3) by simp
    show "4 dvd length (tlv_frame (ty x) v)" by (rule tlv_frame_dvd)
    show "4 \<le> length (tlv_frame (ty x) v)" by simp
    show "length (tlv_frame (ty x) v) \<le> 4 + max_value"
      using paddedLength_mono_max [OF v(1)] by simp
  qed
qed

lemma serialize_no_panic: "ok x \<Longrightarrow> serialize x \<noteq> panic"
  using roundtrip by fastforce

text \<open>What the decoder accepts is encoded again to something it decodes to the same value.\<close>

lemma reencode:
  assumes "decode data = Inr x" "length data \<le> 4 + max_value"
  shows "\<exists>v. serialize x = Inr (tlv_frame (ty x) v) \<and>
             decode (tlv_header (ty x) (word_of_nat (length v)) @ v) = Inr x"
  using roundtrip [OF decode_ok [OF assms]] by blast

end

text \<open>A TLV type whose value is always the same multiple of four bytes.\<close>

lemma fixed_codecI:
  assumes n: "n mod 4 = 0" "n \<le> max_value"
    and val: "\<And>x. ok x \<Longrightarrow> length (val x) = n"
    and ser: "\<And>x. ok x \<Longrightarrow> serialize x = Inr (tlv_header (ty x) (word_of_nat n) @ val x)"
    and len: "\<And>x. ok x \<Longrightarrow> unat (len x) = 4 + n"
    and dec: "\<And>x. ok x \<Longrightarrow> decode (tlv_header (ty x) (word_of_nat n) @ val x) = Inr x"
    and nop: "\<And>data. decode data \<noteq> panic"
    and okd: "\<And>data x. decode data = Inr x \<Longrightarrow> ok x"
  shows "tlv_codec decode serialize ty len ok"
proof
  fix x assume x: "ok x"
  have "tlv_header (ty x) (word_of_nat n) @ val x = tlv_frame (ty x) (val x)"
    by (rule tlv_frame_aligned) (use n val [OF x] in \<open>simp_all add: max_value_def\<close>)
  moreover have "paddedLength n 4 = n" using n(1) by (simp add: paddedLength_def)
  ultimately show "\<exists>v. length v \<le> max_value \<and> serialize x = Inr (tlv_frame (ty x) v) \<and>
          unat (len x) = 4 + paddedLength (length v) 4 \<and>
          decode (tlv_header (ty x) (word_of_nat (length v)) @ v) = Inr x"
    using n val [OF x] ser [OF x] len [OF x] dec [OF x] by (intro exI [of _ "val x"]) simp
qed (use nop okd in auto)

end
