(* ===== verification/Tlv_Capability.thy ===== *)
theory Tlv_Capability
  imports Tlv_Codec
begin

text \<open>
  The capability TLVs of \<open>src/pkg/packet/pcep/tlv.go\<close> and \<open>vendor.go\<close>: VENDOR-INFORMATION,
  STATEFUL-PCE-CAPABILITY, LSP-DB-VERSION, SR-PCE-CAPABILITY, SRv6-PCE-CAPABILITY,
  MULTIPATH-CAP, PATH-SETUP-TYPE and ASSOC-TYPE-LIST. Each type is a record with the
  code's fields, its decoder (taking the receiver it fills), encoder, length and
  constructor, followed by its interpretation of the \<open>tlv_codec\<close> contract.
\<close>

section \<open>TLV types and value lengths\<close>

abbreviation (input) TLVVendorInformation :: u16 where "TLVVendorInformation \<equiv> 0x07"
abbreviation (input) TLVStatefulPCECapability :: u16 where "TLVStatefulPCECapability \<equiv> 0x10"
abbreviation (input) TLVLSPDBVersion :: u16 where "TLVLSPDBVersion \<equiv> 0x17"
abbreviation (input) TLVSRPCECapability :: u16 where "TLVSRPCECapability \<equiv> 0x1a"
abbreviation (input) TLVSRv6PCECapability :: u16 where "TLVSRv6PCECapability \<equiv> 0x1b"
abbreviation (input) TLVPathSetupType :: u16 where "TLVPathSetupType \<equiv> 0x1c"
abbreviation (input) TLVAssocTypeList :: u16 where "TLVAssocTypeList \<equiv> 0x23"
abbreviation (input) TLVMultipathCap :: u16 where "TLVMultipathCap \<equiv> 0x3c"

abbreviation (input) TLVVendorInformationMinValueLength :: u16 where
  "TLVVendorInformationMinValueLength \<equiv> 4"
abbreviation (input) TLVStatefulPCECapabilityValueLength :: u16 where
  "TLVStatefulPCECapabilityValueLength \<equiv> 4"
abbreviation (input) TLVLSPDBVersionValueLength :: u16 where "TLVLSPDBVersionValueLength \<equiv> 8"
abbreviation (input) TLVSRPCECapabilityValueLength :: u16 where "TLVSRPCECapabilityValueLength \<equiv> 4"
abbreviation (input) TLVSRv6PCECapabilityValueLength :: u16 where "TLVSRv6PCECapabilityValueLength \<equiv> 4"
abbreviation (input) TLVMultipathCapValueLength :: u16 where "TLVMultipathCapValueLength \<equiv> 4"
abbreviation (input) TLVPathSetupTypeValueLength :: u16 where "TLVPathSetupTypeValueLength \<equiv> 4"

text \<open>The value bytes of a TLV whose length has been checked.\<close>

definition tlv_value :: "bytes \<Rightarrow> nat \<Rightarrow> bytes result" where
  "tlv_value data valueLen = sliceE data TLVValueOffset (TLVValueOffset + valueLen)"

lemma tlv_value_frame [simp]:
  "n = length v \<Longrightarrow> tlv_value (tlv_header t l @ v) n = Inr v"
  by (simp add: tlv_value_def tlv_consts)

lemma decoded_valueE:
  assumes "decodeTLVLength data p = Inr n"
  obtains val where "tlv_value data n = Inr val" "length val = n" "n < 65536"
    "val = take n (drop 4 data)"
  using that [of "take n (drop 4 data)"] decodeTLVLength_InrD(1,4) [OF assms]
  by (simp add: tlv_value_def tlv_consts)

text \<open>Two rules for the common head of the decoders: no panic, and inversion of success.\<close>

lemma decode_no_panicI:
  assumes "\<And>n val. decodeTLVLength data p = Inr n \<Longrightarrow> tlv_value data n = Inr val \<Longrightarrow>
    length val = n \<Longrightarrow> f n \<noteq> panic"
  shows "bindE (wrapE s (decodeTLVLength data p)) f \<noteq> panic"
proof (rule bindE_no_panic)
  fix n assume "wrapE s (decodeTLVLength data p) = Inr n"
  then have n: "decodeTLVLength data p = Inr n" by simp
  then obtain val where "tlv_value data n = Inr val" "length val = n"
    by (rule decoded_valueE)
  with n show "f n \<noteq> panic" by (rule assms)
qed simp

lemma decode_InrE:
  assumes "bindE (wrapE s (decodeTLVLength data p)) f = Inr x"
  obtains n val where "decodeTLVLength data p = Inr n" "tlv_value data n = Inr val"
    "length val = n" "n < 65536" "4 + n \<le> length data" "f n = Inr x"
proof -
  from assms obtain n where n: "decodeTLVLength data p = Inr n" "f n = Inr x"
    by (auto simp: bindE_eq_Inr)
  from n(1) obtain val where "tlv_value data n = Inr val" "length val = n" "n < 65536"
    by (rule decoded_valueE)
  with n decodeTLVLength_InrD(1) [OF n(1)] show ?thesis by (intro that)
qed

section \<open>VENDOR-INFORMATION\<close>

record VendorInformation =
  vi_EnterpriseNumber :: u32
  vi_EnterpriseSpecificInformation :: bytes

definition VendorInformation_zero :: VendorInformation where
  "VendorInformation_zero = \<lparr>vi_EnterpriseNumber = 0, vi_EnterpriseSpecificInformation = []\<rparr>"

definition VendorInformation_DecodeFromBytes :: "VendorInformation \<Rightarrow> bytes \<Rightarrow> VendorInformation result" where
  "VendorInformation_DecodeFromBytes tlv data =
     bindE (wrapE ''VendorInformation'' (decodeTLVLength data True)) (\<lambda>valueLen.
     if valueLen < unat TLVVendorInformationMinValueLength
     then errorf ''VendorInformation: invalid value length'' [int valueLen]
     else
       bindE (tlv_value data valueLen) (\<lambda>value.
       bindE (sliceE value 0 (unat TLVVendorInformationMinValueLength)) (\<lambda>en.
       bindE (beUint32 en) (\<lambda>number.
       bindE (sliceE value (unat TLVVendorInformationMinValueLength) (length value)) (\<lambda>info.
       Inr (tlv\<lparr>vi_EnterpriseNumber := number,
                vi_EnterpriseSpecificInformation := (if length info > 0 then info else [])\<rparr>))))))"

definition VendorInformation_valueLength :: "VendorInformation \<Rightarrow> u16" where
  "VendorInformation_valueLength tlv =
     TLVVendorInformationMinValueLength + word_of_nat (length (vi_EnterpriseSpecificInformation tlv))"

definition VendorInformation_paddedValueLength :: "VendorInformation \<Rightarrow> u16" where
  "VendorInformation_paddedValueLength tlv =
     word_of_nat (paddedLength (unat (VendorInformation_valueLength tlv)) TLVAlignment)"

definition VendorInformation_Serialize :: "VendorInformation \<Rightarrow> bytes result" where
  "VendorInformation_Serialize tlv =
     (let value = makeBytes (unat (VendorInformation_paddedValueLength tlv));
          n = unat TLVVendorInformationMinValueLength in
      bindE (putE value 0 n (be32 (vi_EnterpriseNumber tlv))) (\<lambda>value.
      bindE (copyE value n (length value) (vi_EnterpriseSpecificInformation tlv)) (\<lambda>value.
      Inr (AppendByteSlices
        [Uint16ToByteSlice TLVVendorInformation,
         Uint16ToByteSlice (VendorInformation_valueLength tlv), value]))))"

definition VendorInformation_Len :: "VendorInformation \<Rightarrow> u16" where
  "VendorInformation_Len tlv = word_of_nat TLVValueOffset + VendorInformation_paddedValueLength tlv"

definition NewVendorInformation :: "u32 \<Rightarrow> bytes \<Rightarrow> VendorInformation" where
  "NewVendorInformation en info =
     \<lparr>vi_EnterpriseNumber = en, vi_EnterpriseSpecificInformation = info\<rparr>"

definition VendorInformation_ok :: "VendorInformation \<Rightarrow> bool" where
  "VendorInformation_ok tlv \<longleftrightarrow> 4 + length (vi_EnterpriseSpecificInformation tlv) \<le> max_value"

text \<open>A helper for the encoders: copying a short source leaves the zeros behind it.\<close>

lemma copyE_pad:
  "lo \<le> length pre \<Longrightarrow> length pre = lo \<Longrightarrow> length src \<le> n \<Longrightarrow>
   copyE (pre @ makeBytes n) lo (lo + n) src = Inr (pre @ src @ makeBytes (n - length src))"
  by (simp add: copyE_def Let_def)

lemma VendorInformation_lengths:
  assumes "VendorInformation_ok tlv"
  defines "n \<equiv> 4 + length (vi_EnterpriseSpecificInformation tlv)"
  shows "VendorInformation_valueLength tlv = word_of_nat n"
    and "unat (VendorInformation_valueLength tlv) = n"
    and "unat (VendorInformation_paddedValueLength tlv) = paddedLength n 4"
proof -
  have n: "n \<le> max_value" using assms by (simp add: VendorInformation_ok_def)
  show v: "VendorInformation_valueLength tlv = word_of_nat n"
    by (simp add: VendorInformation_valueLength_def n_def)
  show u: "unat (VendorInformation_valueLength tlv) = n"
    unfolding v using n by (simp add: unat_of_nat max_value_def)
  show "unat (VendorInformation_paddedValueLength tlv) = paddedLength n 4"
    using paddedLength_mono_max [OF n]
    by (simp add: VendorInformation_paddedValueLength_def u unat_of_nat max_value_def TLVAlignment_def)
qed

lemma VendorInformation_Serialize_ok:
  assumes ok: "VendorInformation_ok tlv"
  shows "VendorInformation_Serialize tlv =
    Inr (tlv_frame TLVVendorInformation
      (be32 (vi_EnterpriseNumber tlv) @ vi_EnterpriseSpecificInformation tlv))"
proof -
  let ?info = "vi_EnterpriseSpecificInformation tlv"
  let ?n = "4 + length ?info"
  have p: "paddedLength ?n 4 = 4 + (paddedLength ?n 4 - 4)"
    and le: "length ?info \<le> paddedLength ?n 4 - 4"
    using paddedLength_ge [of 4 ?n] by simp_all
  have c: "copyE (be32 (vi_EnterpriseNumber tlv) @ makeBytes (paddedLength ?n 4 - 4)) 4
      (4 + (paddedLength ?n 4 - 4)) ?info
    = Inr (be32 (vi_EnterpriseNumber tlv) @ ?info @ makeBytes (paddedLength ?n 4 - 4 - length ?info))"
    by (rule copyE_pad) (use le in auto)
  show ?thesis
    using c p
    by (simp add: VendorInformation_Serialize_def VendorInformation_lengths [OF ok] Let_def
        tlv_frame_def tlv_header_def pad4_def)
qed

interpretation vendor_information: tlv_codec
  "VendorInformation_DecodeFromBytes VendorInformation_zero" VendorInformation_Serialize
  "\<lambda>_. TLVVendorInformation" VendorInformation_Len VendorInformation_ok
proof unfold_locales
  fix x assume ok: "VendorInformation_ok x"
  let ?v = "be32 (vi_EnterpriseNumber x) @ vi_EnterpriseSpecificInformation x"
  have l: "length ?v \<le> max_value" using ok by (simp add: VendorInformation_ok_def)
  have u: "unat (word_of_nat (length ?v) :: u16) = length ?v"
    by (rule unat_u16_id) (use l in \<open>simp add: max_value_def\<close>)
  have "VendorInformation_DecodeFromBytes VendorInformation_zero
      (tlv_header TLVVendorInformation (word_of_nat (length ?v)) @ ?v) = Inr x"
    using u by (simp add: VendorInformation_DecodeFromBytes_def VendorInformation_zero_def)
  moreover have "unat (VendorInformation_Len x) = 4 + paddedLength (length ?v) 4"
    using VendorInformation_lengths(3) [OF ok] paddedLength_mono_max [OF l]
    by (simp add: VendorInformation_Len_def TLVValueOffset_def unat_word_ariths max_value_def)
  ultimately show "\<exists>v. length v \<le> max_value \<and>
      VendorInformation_Serialize x = Inr (tlv_frame TLVVendorInformation v) \<and>
      unat (VendorInformation_Len x) = 4 + paddedLength (length v) 4 \<and>
      VendorInformation_DecodeFromBytes VendorInformation_zero
        (tlv_header TLVVendorInformation (word_of_nat (length v)) @ v) = Inr x"
    using l VendorInformation_Serialize_ok [OF ok] by blast
next
  fix data
  show "VendorInformation_DecodeFromBytes VendorInformation_zero data \<noteq> panic"
    unfolding VendorInformation_DecodeFromBytes_def
    by (rule decode_no_panicI) (simp add: be_read)
next
  fix data x
  assume d: "VendorInformation_DecodeFromBytes VendorInformation_zero data = Inr x"
    and l: "length data \<le> 4 + max_value"
  from d show "VendorInformation_ok x"
    unfolding VendorInformation_DecodeFromBytes_def
    by (rule decode_InrE) (use l in \<open>auto simp: VendorInformation_ok_def be_read split: if_splits\<close>)
qed

section \<open>STATEFUL-PCE-CAPABILITY\<close>

record StatefulPCECapability =
  sc_LSPUpdateCapability :: bool
  sc_IncludeDBVersion :: bool
  sc_LSPInstantiationCapability :: bool
  sc_TriggeredResync :: bool
  sc_DeltaLSPSyncCapability :: bool
  sc_TriggeredInitialSync :: bool
  sc_P2mpCapability :: bool
  sc_P2mpLSPUpdateCapability :: bool
  sc_P2mpLSPInstantiationCapability :: bool
  sc_LSPSchedulingCapability :: bool
  sc_PdLSPCapability :: bool
  sc_ColorCapability :: bool
  sc_PathRecomputationCapability :: bool
  sc_StrictPathCapability :: bool
  sc_Relax :: bool

definition StatefulPCECapability_zero :: StatefulPCECapability where
  "StatefulPCECapability_zero =
     \<lparr>sc_LSPUpdateCapability = False, sc_IncludeDBVersion = False,
      sc_LSPInstantiationCapability = False, sc_TriggeredResync = False,
      sc_DeltaLSPSyncCapability = False, sc_TriggeredInitialSync = False,
      sc_P2mpCapability = False, sc_P2mpLSPUpdateCapability = False,
      sc_P2mpLSPInstantiationCapability = False, sc_LSPSchedulingCapability = False,
      sc_PdLSPCapability = False, sc_ColorCapability = False,
      sc_PathRecomputationCapability = False, sc_StrictPathCapability = False, sc_Relax = False\<rparr>"

abbreviation (input) LSPUpdateCapabilityBit :: u32 where "LSPUpdateCapabilityBit \<equiv> 0x0001"
abbreviation (input) IncludeDBVersionCapabilityBit :: u32 where "IncludeDBVersionCapabilityBit \<equiv> 0x0002"
abbreviation (input) LSPInstantiationCapabilityBit :: u32 where "LSPInstantiationCapabilityBit \<equiv> 0x0004"
abbreviation (input) TriggeredResyncCapabilityBit :: u32 where "TriggeredResyncCapabilityBit \<equiv> 0x0008"
abbreviation (input) DeltaLSPSyncCapabilityBit :: u32 where "DeltaLSPSyncCapabilityBit \<equiv> 0x0010"
abbreviation (input) TriggeredInitialSyncBit :: u32 where "TriggeredInitialSyncBit \<equiv> 0x0020"
abbreviation (input) ColorCapabilityBit :: u32 where "ColorCapabilityBit \<equiv> 0x0800"

definition definedStatefulPCEFlagsMask :: u32 where
  "definedStatefulPCEFlagsMask =
     LSPUpdateCapabilityBit OR IncludeDBVersionCapabilityBit OR LSPInstantiationCapabilityBit OR
     TriggeredResyncCapabilityBit OR DeltaLSPSyncCapabilityBit OR TriggeredInitialSyncBit OR
     ColorCapabilityBit"

definition ExtractCapabilities :: "StatefulPCECapability \<Rightarrow> u32 \<Rightarrow> StatefulPCECapability" where
  "ExtractCapabilities tlv flags = tlv\<lparr>
     sc_LSPUpdateCapability := flags AND LSPUpdateCapabilityBit \<noteq> 0,
     sc_IncludeDBVersion := flags AND IncludeDBVersionCapabilityBit \<noteq> 0,
     sc_LSPInstantiationCapability := flags AND LSPInstantiationCapabilityBit \<noteq> 0,
     sc_TriggeredResync := flags AND TriggeredResyncCapabilityBit \<noteq> 0,
     sc_DeltaLSPSyncCapability := flags AND DeltaLSPSyncCapabilityBit \<noteq> 0,
     sc_TriggeredInitialSync := flags AND TriggeredInitialSyncBit \<noteq> 0,
     sc_ColorCapability := flags AND ColorCapabilityBit \<noteq> 0\<rparr>"

definition SetFlags :: "StatefulPCECapability \<Rightarrow> u32" where
  "SetFlags tlv =
     (let flags = 0;
          flags = SetBit flags LSPUpdateCapabilityBit (sc_LSPUpdateCapability tlv);
          flags = SetBit flags IncludeDBVersionCapabilityBit (sc_IncludeDBVersion tlv);
          flags = SetBit flags LSPInstantiationCapabilityBit (sc_LSPInstantiationCapability tlv);
          flags = SetBit flags TriggeredResyncCapabilityBit (sc_TriggeredResync tlv);
          flags = SetBit flags DeltaLSPSyncCapabilityBit (sc_DeltaLSPSyncCapability tlv);
          flags = SetBit flags TriggeredInitialSyncBit (sc_TriggeredInitialSync tlv);
          flags = SetBit flags ColorCapabilityBit (sc_ColorCapability tlv)
      in flags)"

definition StatefulPCECapability_DecodeFromBytes ::
    "StatefulPCECapability \<Rightarrow> bytes \<Rightarrow> StatefulPCECapability result" where
  "StatefulPCECapability_DecodeFromBytes tlv data =
     bindE (wrapE ''StatefulPCECapability'' (decodeTLVLength data False)) (\<lambda>valueLen.
     if valueLen \<noteq> unat TLVStatefulPCECapabilityValueLength
     then errorf ''StatefulPCECapability: invalid value length'' [int valueLen]
     else
       bindE (tlv_value data valueLen) (\<lambda>value.
       bindE (sliceE value 0 (unat TLVStatefulPCECapabilityValueLength)) (\<lambda>fb.
       bindE (beUint32 fb) (\<lambda>flags.
       Inr (ExtractCapabilities tlv flags)))))"

definition StatefulPCECapability_Serialize :: "StatefulPCECapability \<Rightarrow> bytes result" where
  "StatefulPCECapability_Serialize tlv =
     (let flags = SetFlags tlv AND definedStatefulPCEFlagsMask in
      Inr (AppendByteSlices
        [Uint16ToByteSlice TLVStatefulPCECapability,
         Uint16ToByteSlice TLVStatefulPCECapabilityValueLength,
         Uint32ToByteSlice flags]))"

definition StatefulPCECapability_Len :: "StatefulPCECapability \<Rightarrow> u16" where
  "StatefulPCECapability_Len tlv =
     word_of_nat TLVValueOffset + TLVStatefulPCECapabilityValueLength"

definition NewStatefulPCECapability :: "u32 \<Rightarrow> StatefulPCECapability" where
  "NewStatefulPCECapability flags = ExtractCapabilities StatefulPCECapability_zero flags"

text \<open>The capability bits the code has fields for but neither reads nor writes.\<close>

definition StatefulPCECapability_ok :: "StatefulPCECapability \<Rightarrow> bool" where
  "StatefulPCECapability_ok tlv \<longleftrightarrow>
     \<not> sc_P2mpCapability tlv \<and> \<not> sc_P2mpLSPUpdateCapability tlv \<and>
     \<not> sc_P2mpLSPInstantiationCapability tlv \<and> \<not> sc_LSPSchedulingCapability tlv \<and>
     \<not> sc_PdLSPCapability tlv \<and> \<not> sc_PathRecomputationCapability tlv \<and>
     \<not> sc_StrictPathCapability tlv \<and> \<not> sc_Relax tlv"

lemma SetFlags_masked: "SetFlags tlv AND definedStatefulPCEFlagsMask = SetFlags tlv"
  by (simp add: SetFlags_def definedStatefulPCEFlagsMask_def SetBit_def Let_def bit.conj_disj_distrib2)

lemma ExtractCapabilities_SetFlags:
  "StatefulPCECapability_ok tlv \<Longrightarrow> ExtractCapabilities StatefulPCECapability_zero (SetFlags tlv) = tlv"
  by (cases tlv)
    (simp add: ExtractCapabilities_def SetFlags_def SetBit_def Let_def
      StatefulPCECapability_ok_def StatefulPCECapability_zero_def bit.conj_disj_distrib2)

interpretation stateful_pce_capability: tlv_codec
  "StatefulPCECapability_DecodeFromBytes StatefulPCECapability_zero" StatefulPCECapability_Serialize
  "\<lambda>_. TLVStatefulPCECapability" StatefulPCECapability_Len StatefulPCECapability_ok
proof (rule fixed_codecI [where n = 4 and val = "\<lambda>x. be32 (SetFlags x)"])
  fix x assume ok: "StatefulPCECapability_ok x"
  show "StatefulPCECapability_Serialize x =
      Inr (tlv_header TLVStatefulPCECapability (word_of_nat 4) @ be32 (SetFlags x))"
    by (simp add: StatefulPCECapability_Serialize_def SetFlags_masked tlv_header_def Uint32ToByteSlice_def)
  show "StatefulPCECapability_DecodeFromBytes StatefulPCECapability_zero
      (tlv_header TLVStatefulPCECapability (word_of_nat 4) @ be32 (SetFlags x)) = Inr x"
    by (simp add: StatefulPCECapability_DecodeFromBytes_def ExtractCapabilities_SetFlags [OF ok])
next
  fix data
  show "StatefulPCECapability_DecodeFromBytes StatefulPCECapability_zero data \<noteq> panic"
    unfolding StatefulPCECapability_DecodeFromBytes_def
    by (rule decode_no_panicI) (auto simp: be_read)
next
  fix data x
  assume "StatefulPCECapability_DecodeFromBytes StatefulPCECapability_zero data = Inr x"
  then show "StatefulPCECapability_ok x"
    unfolding StatefulPCECapability_DecodeFromBytes_def
    by (rule decode_InrE)
      (auto simp: StatefulPCECapability_ok_def ExtractCapabilities_def
        StatefulPCECapability_zero_def be_read split: if_splits)
qed (simp_all add: max_value_def StatefulPCECapability_Len_def tlv_consts)

section \<open>LSP-DB-VERSION\<close>

record LSPDBVersion =
  dbv_VersionNumber :: u64

definition LSPDBVersion_zero :: LSPDBVersion where
  "LSPDBVersion_zero = \<lparr>dbv_VersionNumber = 0\<rparr>"

definition LSPDBVersion_DecodeFromBytes :: "LSPDBVersion \<Rightarrow> bytes \<Rightarrow> LSPDBVersion result" where
  "LSPDBVersion_DecodeFromBytes tlv data =
     bindE (wrapE ''LSPDBVersion'' (decodeTLVLength data False)) (\<lambda>valueLen.
     if valueLen \<noteq> unat TLVLSPDBVersionValueLength
     then errorf ''LSPDBVersion: invalid value length'' [int valueLen]
     else
       bindE (tlv_value data valueLen) (\<lambda>value.
       bindE (beUint64 value) (\<lambda>v.
       Inr (tlv\<lparr>dbv_VersionNumber := v\<rparr>))))"

definition LSPDBVersion_Serialize :: "LSPDBVersion \<Rightarrow> bytes result" where
  "LSPDBVersion_Serialize tlv =
     bindE (putE (makeBytes (unat TLVLSPDBVersionValueLength)) 0 (unat TLVLSPDBVersionValueLength)
       (be64 (dbv_VersionNumber tlv))) (\<lambda>value.
     Inr (AppendByteSlices
       [Uint16ToByteSlice TLVLSPDBVersion, Uint16ToByteSlice TLVLSPDBVersionValueLength, value]))"

definition LSPDBVersion_Len :: "LSPDBVersion \<Rightarrow> u16" where
  "LSPDBVersion_Len tlv = word_of_nat TLVValueOffset + TLVLSPDBVersionValueLength"

definition NewLSPDBVersion :: "u64 \<Rightarrow> LSPDBVersion" where
  "NewLSPDBVersion version = \<lparr>dbv_VersionNumber = version\<rparr>"

interpretation lsp_db_version: tlv_codec
  "LSPDBVersion_DecodeFromBytes LSPDBVersion_zero" LSPDBVersion_Serialize
  "\<lambda>_. TLVLSPDBVersion" LSPDBVersion_Len "\<lambda>_. True"
proof (rule fixed_codecI [where n = 8 and val = "\<lambda>x. be64 (dbv_VersionNumber x)"])
  fix x
  show "LSPDBVersion_Serialize x =
      Inr (tlv_header TLVLSPDBVersion (word_of_nat 8) @ be64 (dbv_VersionNumber x))"
    by (simp add: LSPDBVersion_Serialize_def tlv_header_def)
  show "LSPDBVersion_DecodeFromBytes LSPDBVersion_zero
      (tlv_header TLVLSPDBVersion (word_of_nat 8) @ be64 (dbv_VersionNumber x)) = Inr x"
    by (simp add: LSPDBVersion_DecodeFromBytes_def LSPDBVersion_zero_def)
next
  fix data
  show "LSPDBVersion_DecodeFromBytes LSPDBVersion_zero data \<noteq> panic"
    unfolding LSPDBVersion_DecodeFromBytes_def
    by (rule decode_no_panicI) (auto simp: be_read)
qed (simp_all add: max_value_def LSPDBVersion_Len_def tlv_consts)

section \<open>SR-PCE-CAPABILITY\<close>

record SRPCECapability =
  srp_HasUnlimitedMaxSIDDepth :: bool
  srp_IsNAISupported :: bool
  srp_MaximumSidDepth :: u8

definition SRPCECapability_zero :: SRPCECapability where
  "SRPCECapability_zero =
     \<lparr>srp_HasUnlimitedMaxSIDDepth = False, srp_IsNAISupported = False, srp_MaximumSidDepth = 0\<rparr>"

abbreviation (input) UnlimitedMaximumSIDDepthFlag :: u8 where "UnlimitedMaximumSIDDepthFlag \<equiv> 0x01"
abbreviation (input) NAISupportedFlag :: u8 where "NAISupportedFlag \<equiv> 0x02"
abbreviation (input) SRPCECapabilityFlagsOffset :: nat where "SRPCECapabilityFlagsOffset \<equiv> 0"
abbreviation (input) SRPCECapabilityMSDOffset :: nat where "SRPCECapabilityMSDOffset \<equiv> 1"

definition SRPCECapability_DecodeFromBytes :: "SRPCECapability \<Rightarrow> bytes \<Rightarrow> SRPCECapability result" where
  "SRPCECapability_DecodeFromBytes tlv data =
     bindE (wrapE ''SRPCECapability'' (decodeTLVLength data False)) (\<lambda>valueLen.
     if valueLen \<noteq> unat TLVSRPCECapabilityValueLength
     then errorf ''SRPCECapability: invalid value length'' [int valueLen]
     else
       bindE (tlv_value data valueLen) (\<lambda>val.
       bindE (indexE val SRPCECapabilityFlagsOffset) (\<lambda>flags.
       bindE (indexE val SRPCECapabilityMSDOffset) (\<lambda>msd.
       Inr (tlv\<lparr>srp_HasUnlimitedMaxSIDDepth := IsBitSet flags UnlimitedMaximumSIDDepthFlag,
                srp_IsNAISupported := IsBitSet flags NAISupportedFlag,
                srp_MaximumSidDepth := msd\<rparr>)))))"

definition SRPCECapability_Serialize :: "SRPCECapability \<Rightarrow> bytes result" where
  "SRPCECapability_Serialize tlv =
     (let value = makeBytes (unat TLVSRPCECapabilityValueLength) in
      bindE (indexE value SRPCECapabilityFlagsOffset) (\<lambda>b.
      bindE (setE value SRPCECapabilityFlagsOffset
        (SetBit b UnlimitedMaximumSIDDepthFlag (srp_HasUnlimitedMaxSIDDepth tlv))) (\<lambda>value.
      bindE (indexE value SRPCECapabilityFlagsOffset) (\<lambda>b.
      bindE (setE value SRPCECapabilityFlagsOffset
        (SetBit b NAISupportedFlag (srp_IsNAISupported tlv))) (\<lambda>value.
      bindE (setE value SRPCECapabilityMSDOffset (srp_MaximumSidDepth tlv)) (\<lambda>value.
      Inr (AppendByteSlices
        [Uint16ToByteSlice TLVSRPCECapability, Uint16ToByteSlice TLVSRPCECapabilityValueLength,
         value])))))))"

definition SRPCECapability_Len :: "SRPCECapability \<Rightarrow> u16" where
  "SRPCECapability_Len tlv = word_of_nat TLVValueOffset + TLVSRPCECapabilityValueLength"

definition NewSRPCECapability :: "bool \<Rightarrow> bool \<Rightarrow> u8 \<Rightarrow> SRPCECapability" where
  "NewSRPCECapability unlimited nai msd =
     \<lparr>srp_HasUnlimitedMaxSIDDepth = unlimited, srp_IsNAISupported = nai, srp_MaximumSidDepth = msd\<rparr>"

definition SRPCECapability_flags :: "SRPCECapability \<Rightarrow> u8" where
  "SRPCECapability_flags x =
     SetBit (SetBit 0 UnlimitedMaximumSIDDepthFlag (srp_HasUnlimitedMaxSIDDepth x))
       NAISupportedFlag (srp_IsNAISupported x)"

lemma makeBytes_4: "makeBytes 4 = [0, 0, 0, 0]"
  by (simp add: makeBytes_def numeral_eq_Suc)

interpretation sr_pce_capability: tlv_codec
  "SRPCECapability_DecodeFromBytes SRPCECapability_zero" SRPCECapability_Serialize
  "\<lambda>_. TLVSRPCECapability" SRPCECapability_Len "\<lambda>_. True"
proof (rule fixed_codecI [where n = 4
      and val = "\<lambda>x. [SRPCECapability_flags x, srp_MaximumSidDepth x, 0, 0]"])
  fix x
  show "SRPCECapability_Serialize x = Inr (tlv_header TLVSRPCECapability (word_of_nat 4) @
      [SRPCECapability_flags x, srp_MaximumSidDepth x, 0, 0])"
    by (simp add: SRPCECapability_Serialize_def tlv_header_def makeBytes_4 SRPCECapability_flags_def)
  have "IsBitSet (SRPCECapability_flags x) UnlimitedMaximumSIDDepthFlag = srp_HasUnlimitedMaxSIDDepth x"
    "IsBitSet (SRPCECapability_flags x) NAISupportedFlag = srp_IsNAISupported x"
    by (simp_all add: IsBitSet_def SRPCECapability_flags_def SetBit_def)
  then show "SRPCECapability_DecodeFromBytes SRPCECapability_zero
      (tlv_header TLVSRPCECapability (word_of_nat 4) @
        [SRPCECapability_flags x, srp_MaximumSidDepth x, 0, 0]) = Inr x"
    by (simp add: SRPCECapability_DecodeFromBytes_def SRPCECapability_zero_def)
next
  fix data
  show "SRPCECapability_DecodeFromBytes SRPCECapability_zero data \<noteq> panic"
    unfolding SRPCECapability_DecodeFromBytes_def
    by (rule decode_no_panicI) auto
qed (simp_all add: max_value_def SRPCECapability_Len_def tlv_consts)

section \<open>SRv6-PCE-CAPABILITY\<close>

record SRv6PCECapability =
  srv6p_IsNAISupported :: bool

definition SRv6PCECapability_zero :: SRv6PCECapability where
  "SRv6PCECapability_zero = \<lparr>srv6p_IsNAISupported = False\<rparr>"

abbreviation (input) SRv6NAISupportedFlag :: u16 where "SRv6NAISupportedFlag \<equiv> 0x0002"
abbreviation (input) SRv6PCECapabilityFlagsOffset :: nat where "SRv6PCECapabilityFlagsOffset \<equiv> 2"

definition SRv6PCECapability_DecodeFromBytes ::
    "SRv6PCECapability \<Rightarrow> bytes \<Rightarrow> SRv6PCECapability result" where
  "SRv6PCECapability_DecodeFromBytes tlv data =
     bindE (wrapE ''SRv6PCECapability'' (decodeTLVLength data False)) (\<lambda>valueLen.
     if valueLen < unat TLVSRv6PCECapabilityValueLength
     then errorf ''SRv6PCECapability: invalid value length'' [int valueLen]
     else
       bindE (tlv_value data valueLen) (\<lambda>value.
       bindE (sliceE value SRv6PCECapabilityFlagsOffset (SRv6PCECapabilityFlagsOffset + 2)) (\<lambda>fb.
       bindE (beUint16 fb) (\<lambda>flags.
       Inr (tlv\<lparr>srv6p_IsNAISupported := flags AND SRv6NAISupportedFlag \<noteq> 0\<rparr>)))))"

definition SRv6PCECapability_flags :: "SRv6PCECapability \<Rightarrow> u16" where
  "SRv6PCECapability_flags tlv =
     (let flags = 0 in
      if srv6p_IsNAISupported tlv then flags OR SRv6NAISupportedFlag else flags)"

definition SRv6PCECapability_Serialize :: "SRv6PCECapability \<Rightarrow> bytes result" where
  "SRv6PCECapability_Serialize tlv =
     bindE (putE (makeBytes (unat TLVSRv6PCECapabilityValueLength))
       SRv6PCECapabilityFlagsOffset (SRv6PCECapabilityFlagsOffset + 2)
       (be16 (SRv6PCECapability_flags tlv))) (\<lambda>value.
     Inr (AppendByteSlices
       [Uint16ToByteSlice TLVSRv6PCECapability, Uint16ToByteSlice TLVSRv6PCECapabilityValueLength,
        value]))"

definition SRv6PCECapability_Len :: "SRv6PCECapability \<Rightarrow> u16" where
  "SRv6PCECapability_Len tlv = word_of_nat TLVValueOffset + TLVSRv6PCECapabilityValueLength"

definition NewSRv6PCECapability :: "bool \<Rightarrow> SRv6PCECapability" where
  "NewSRv6PCECapability nai = \<lparr>srv6p_IsNAISupported = nai\<rparr>"

interpretation srv6_pce_capability: tlv_codec
  "SRv6PCECapability_DecodeFromBytes SRv6PCECapability_zero" SRv6PCECapability_Serialize
  "\<lambda>_. TLVSRv6PCECapability" SRv6PCECapability_Len "\<lambda>_. True"
proof (rule fixed_codecI [where n = 4
      and val = "\<lambda>x. makeBytes 2 @ be16 (SRv6PCECapability_flags x)"])
  fix x
  show "SRv6PCECapability_Serialize x =
      Inr (tlv_header TLVSRv6PCECapability (word_of_nat 4) @
        makeBytes 2 @ be16 (SRv6PCECapability_flags x))"
    by (simp add: SRv6PCECapability_Serialize_def tlv_header_def)
  show "SRv6PCECapability_DecodeFromBytes SRv6PCECapability_zero
      (tlv_header TLVSRv6PCECapability (word_of_nat 4) @
        makeBytes 2 @ be16 (SRv6PCECapability_flags x)) = Inr x"
    by (cases x)
      (simp add: SRv6PCECapability_DecodeFromBytes_def SRv6PCECapability_zero_def
        SRv6PCECapability_flags_def)
next
  fix data
  show "SRv6PCECapability_DecodeFromBytes SRv6PCECapability_zero data \<noteq> panic"
    unfolding SRv6PCECapability_DecodeFromBytes_def
    by (rule decode_no_panicI) (auto simp: be_read)
qed (simp_all add: max_value_def SRv6PCECapability_Len_def tlv_consts)

section \<open>MULTIPATH-CAP\<close>

record MultipathCapability =
  mp_MaxMultipaths :: u16
  mp_IsWeightedSupported :: bool
  mp_IsOppositeDirSupported :: bool
  mp_IsForwardClassSupported :: bool
  mp_IsCompositePathSupported :: bool

definition MultipathCapability_zero :: MultipathCapability where
  "MultipathCapability_zero =
     \<lparr>mp_MaxMultipaths = 0, mp_IsWeightedSupported = False, mp_IsOppositeDirSupported = False,
      mp_IsForwardClassSupported = False, mp_IsCompositePathSupported = False\<rparr>"

abbreviation (input) MultipathFlagW :: u16 where "MultipathFlagW \<equiv> 0x0001"
abbreviation (input) MultipathFlagO :: u16 where "MultipathFlagO \<equiv> 0x0004"
abbreviation (input) MultipathFlagF :: u16 where "MultipathFlagF \<equiv> 0x0008"
abbreviation (input) MultipathFlagC :: u16 where "MultipathFlagC \<equiv> 0x0010"
abbreviation (input) MultipathCapMaxMultipathsOffset :: nat where "MultipathCapMaxMultipathsOffset \<equiv> 0"
abbreviation (input) MultipathCapFlagsOffset :: nat where "MultipathCapFlagsOffset \<equiv> 2"

definition MultipathCapability_DecodeFromBytes ::
    "MultipathCapability \<Rightarrow> bytes \<Rightarrow> MultipathCapability result" where
  "MultipathCapability_DecodeFromBytes tlv data =
     bindE (wrapE ''MultipathCapability'' (decodeTLVLength data False)) (\<lambda>valueLen.
     if valueLen \<noteq> unat TLVMultipathCapValueLength
     then errorf ''MultipathCapability: invalid value length'' [int valueLen]
     else
       bindE (tlv_value data valueLen) (\<lambda>value.
       bindE (sliceE value MultipathCapMaxMultipathsOffset (MultipathCapMaxMultipathsOffset + 2)) (\<lambda>mb.
       bindE (beUint16 mb) (\<lambda>maxPaths.
       bindE (sliceE value MultipathCapFlagsOffset (MultipathCapFlagsOffset + 2)) (\<lambda>fb.
       bindE (beUint16 fb) (\<lambda>flags.
       Inr (tlv\<lparr>mp_MaxMultipaths := maxPaths,
                mp_IsWeightedSupported := flags AND MultipathFlagW \<noteq> 0,
                mp_IsOppositeDirSupported := flags AND MultipathFlagO \<noteq> 0,
                mp_IsForwardClassSupported := flags AND MultipathFlagF \<noteq> 0,
                mp_IsCompositePathSupported := flags AND MultipathFlagC \<noteq> 0\<rparr>)))))))"

definition MultipathCapability_flags :: "MultipathCapability \<Rightarrow> u16" where
  "MultipathCapability_flags tlv =
     (let flags = 0;
          flags = (if mp_IsWeightedSupported tlv then flags OR MultipathFlagW else flags);
          flags = (if mp_IsOppositeDirSupported tlv then flags OR MultipathFlagO else flags);
          flags = (if mp_IsForwardClassSupported tlv then flags OR MultipathFlagF else flags);
          flags = (if mp_IsCompositePathSupported tlv then flags OR MultipathFlagC else flags)
      in flags)"

definition MultipathCapability_Serialize :: "MultipathCapability \<Rightarrow> bytes result" where
  "MultipathCapability_Serialize tlv =
     bindE (putE (makeBytes (unat TLVMultipathCapValueLength))
       MultipathCapMaxMultipathsOffset (MultipathCapMaxMultipathsOffset + 2)
       (be16 (mp_MaxMultipaths tlv))) (\<lambda>value.
     bindE (putE value MultipathCapFlagsOffset (MultipathCapFlagsOffset + 2)
       (be16 (MultipathCapability_flags tlv))) (\<lambda>value.
     Inr (AppendByteSlices
       [Uint16ToByteSlice TLVMultipathCap, Uint16ToByteSlice TLVMultipathCapValueLength, value])))"

definition MultipathCapability_Len :: "MultipathCapability \<Rightarrow> u16" where
  "MultipathCapability_Len tlv = word_of_nat TLVValueOffset + TLVMultipathCapValueLength"

definition NewMultipathCapability :: "u16 \<Rightarrow> bool \<Rightarrow> bool \<Rightarrow> bool \<Rightarrow> bool \<Rightarrow> MultipathCapability" where
  "NewMultipathCapability m w opp f c =
     \<lparr>mp_MaxMultipaths = m, mp_IsWeightedSupported = w, mp_IsOppositeDirSupported = opp,
      mp_IsForwardClassSupported = f, mp_IsCompositePathSupported = c\<rparr>"

interpretation multipath_capability: tlv_codec
  "MultipathCapability_DecodeFromBytes MultipathCapability_zero" MultipathCapability_Serialize
  "\<lambda>_. TLVMultipathCap" MultipathCapability_Len "\<lambda>_. True"
proof (rule fixed_codecI [where n = 4
      and val = "\<lambda>x. be16 (mp_MaxMultipaths x) @ be16 (MultipathCapability_flags x)"])
  fix x
  show "MultipathCapability_Serialize x =
      Inr (tlv_header TLVMultipathCap (word_of_nat 4) @
        be16 (mp_MaxMultipaths x) @ be16 (MultipathCapability_flags x))"
    by (simp add: MultipathCapability_Serialize_def tlv_header_def)
  have "MultipathCapability_flags x AND MultipathFlagW \<noteq> 0 \<longleftrightarrow> mp_IsWeightedSupported x"
    "MultipathCapability_flags x AND MultipathFlagO \<noteq> 0 \<longleftrightarrow> mp_IsOppositeDirSupported x"
    "MultipathCapability_flags x AND MultipathFlagF \<noteq> 0 \<longleftrightarrow> mp_IsForwardClassSupported x"
    "MultipathCapability_flags x AND MultipathFlagC \<noteq> 0 \<longleftrightarrow> mp_IsCompositePathSupported x"
    by (simp_all add: MultipathCapability_flags_def Let_def)
  then show "MultipathCapability_DecodeFromBytes MultipathCapability_zero
      (tlv_header TLVMultipathCap (word_of_nat 4) @
        be16 (mp_MaxMultipaths x) @ be16 (MultipathCapability_flags x)) = Inr x"
    by (cases x) (simp add: MultipathCapability_DecodeFromBytes_def MultipathCapability_zero_def)
next
  fix data
  show "MultipathCapability_DecodeFromBytes MultipathCapability_zero data \<noteq> panic"
    unfolding MultipathCapability_DecodeFromBytes_def
    by (rule decode_no_panicI) (auto simp: be_read)
qed (simp_all add: max_value_def MultipathCapability_Len_def tlv_consts)

section \<open>PATH-SETUP-TYPE\<close>

type_synonym Pst = u8

abbreviation (input) PathSetupTypeRSVPTE :: Pst where "PathSetupTypeRSVPTE \<equiv> 0x00"
abbreviation (input) PathSetupTypeSRTE :: Pst where "PathSetupTypeSRTE \<equiv> 0x01"
abbreviation (input) PathSetupTypePCECCTE :: Pst where "PathSetupTypePCECCTE \<equiv> 0x02"
abbreviation (input) PathSetupTypeSRv6TE :: Pst where "PathSetupTypeSRv6TE \<equiv> 0x03"
abbreviation (input) PathSetupTypeIPTE :: Pst where "PathSetupTypeIPTE \<equiv> 0x04"

record PathSetupType =
  pst_PathSetupType :: Pst

definition PathSetupType_zero :: PathSetupType where
  "PathSetupType_zero = \<lparr>pst_PathSetupType = 0\<rparr>"

abbreviation (input) PathSetupTypeValueOffset :: nat where "PathSetupTypeValueOffset \<equiv> 3"

definition PathSetupType_DecodeFromBytes :: "PathSetupType \<Rightarrow> bytes \<Rightarrow> PathSetupType result" where
  "PathSetupType_DecodeFromBytes tlv data =
     bindE (wrapE ''PathSetupType'' (decodeTLVLength data False)) (\<lambda>valueLen.
     if valueLen \<noteq> unat TLVPathSetupTypeValueLength
     then errorf ''PathSetupType: unexpected value length'' [uint TLVPathSetupTypeValueLength, int valueLen]
     else
       bindE (tlv_value data valueLen) (\<lambda>value.
       bindE (indexE value PathSetupTypeValueOffset) (\<lambda>b.
       Inr (tlv\<lparr>pst_PathSetupType := b\<rparr>))))"

definition PathSetupType_Serialize :: "PathSetupType \<Rightarrow> bytes result" where
  "PathSetupType_Serialize tlv =
     bindE (setE (makeBytes (unat TLVPathSetupTypeValueLength)) PathSetupTypeValueOffset
       (pst_PathSetupType tlv)) (\<lambda>value.
     Inr (AppendByteSlices
       [Uint16ToByteSlice TLVPathSetupType, Uint16ToByteSlice TLVPathSetupTypeValueLength, value]))"

definition PathSetupType_Len :: "PathSetupType \<Rightarrow> u16" where
  "PathSetupType_Len tlv = word_of_nat TLVValueOffset + TLVPathSetupTypeValueLength"

definition NewPathSetupType :: "Pst \<Rightarrow> PathSetupType" where
  "NewPathSetupType pst = \<lparr>pst_PathSetupType = pst\<rparr>"

interpretation path_setup_type: tlv_codec
  "PathSetupType_DecodeFromBytes PathSetupType_zero" PathSetupType_Serialize
  "\<lambda>_. TLVPathSetupType" PathSetupType_Len "\<lambda>_. True"
proof (rule fixed_codecI [where n = 4 and val = "\<lambda>x. [0, 0, 0, pst_PathSetupType x]"])
  fix x
  show "PathSetupType_Serialize x =
      Inr (tlv_header TLVPathSetupType (word_of_nat 4) @ [0, 0, 0, pst_PathSetupType x])"
    by (simp add: PathSetupType_Serialize_def tlv_header_def makeBytes_4)
  show "PathSetupType_DecodeFromBytes PathSetupType_zero
      (tlv_header TLVPathSetupType (word_of_nat 4) @ [0, 0, 0, pst_PathSetupType x]) = Inr x"
    by (simp add: PathSetupType_DecodeFromBytes_def PathSetupType_zero_def)
next
  fix data
  show "PathSetupType_DecodeFromBytes PathSetupType_zero data \<noteq> panic"
    unfolding PathSetupType_DecodeFromBytes_def
    by (rule decode_no_panicI) auto
qed (simp_all add: max_value_def PathSetupType_Len_def tlv_consts)

section \<open>ASSOC-TYPE-LIST\<close>

type_synonym AssocType = u16

record AssocTypeList =
  atl_AssocTypes :: "AssocType list"

definition AssocTypeList_zero :: AssocTypeList where
  "AssocTypeList_zero = \<lparr>atl_AssocTypes = []\<rparr>"

definition AssocTypeList_DecodeFromBytes :: "AssocTypeList \<Rightarrow> bytes \<Rightarrow> AssocTypeList result" where
  "AssocTypeList_DecodeFromBytes tlv data =
     bindE (wrapE ''AssocTypeList'' (decodeTLVLength data True)) (\<lambda>valueLen.
     bindE (tlv_value data valueLen) (\<lambda>value.
     if length value mod 2 \<noteq> 0
     then errorf ''AssocTypeList: value length not even, cannot contain 16-bit AssocType entries'' []
     else
       bindE (mapE (\<lambda>i. bindE (sliceE value (2 * i) (2 * i + 2)) beUint16)
                [0..<length value div 2]) (\<lambda>ats.
       Inr (tlv\<lparr>atl_AssocTypes := ats\<rparr>))))"

text \<open>The encoding loop writes each entry at the running offset of the zeroed buffer.\<close>

fun put_assoc_types :: "bytes \<Rightarrow> nat \<Rightarrow> AssocType list \<Rightarrow> bytes result" where
  "put_assoc_types value offset [] = Inr value"
| "put_assoc_types value offset (at # ats) =
     bindE (putE value offset (offset + 2) (be16 at)) (\<lambda>value.
     put_assoc_types value (offset + 2) ats)"

definition AssocTypeList_Serialize :: "AssocTypeList \<Rightarrow> bytes result" where
  "AssocTypeList_Serialize tlv =
     (let valueLen = word_of_nat (length (atl_AssocTypes tlv)) * 2 :: u16;
          padding = (4 - valueLen mod 4) mod 4 in
      bindE (put_assoc_types (makeBytes (unat (valueLen + padding))) 0 (atl_AssocTypes tlv)) (\<lambda>value.
      Inr (AppendByteSlices
        [Uint16ToByteSlice TLVAssocTypeList, Uint16ToByteSlice valueLen, value])))"

definition AssocTypeList_Len :: "AssocTypeList \<Rightarrow> u16" where
  "AssocTypeList_Len tlv =
     (let len = word_of_nat (length (atl_AssocTypes tlv)) * 2 :: u16;
          padding = (if len mod 4 \<noteq> 0 then 2 else 0)
      in word_of_nat TLVValueOffset + len + padding)"

definition AssocTypeList_ok :: "AssocTypeList \<Rightarrow> bool" where
  "AssocTypeList_ok tlv \<longleftrightarrow> 2 * length (atl_AssocTypes tlv) \<le> max_value"

abbreviation assoc_bytes :: "AssocType list \<Rightarrow> bytes" where
  "assoc_bytes ats \<equiv> concat (map be16 ats)"

lemma length_assoc_bytes [simp]: "length (assoc_bytes ats) = 2 * length ats"
  by (induction ats) auto

lemma put_assoc_types_eq:
  "put_assoc_types (pre @ makeBytes (2 * length ats + k)) (length pre) ats
     = Inr (pre @ assoc_bytes ats @ makeBytes k)"
proof (induction ats arbitrary: pre)
  case (Cons at ats)
  have "put_assoc_types ((pre @ be16 at) @ makeBytes (2 * length ats + k)) (length (pre @ be16 at)) ats
      = Inr ((pre @ be16 at) @ assoc_bytes ats @ makeBytes k)"
    by (rule Cons.IH)
  then show ?case by simp
qed simp

lemma read_assoc_types:
  "mapE (\<lambda>i. bindE (sliceE (pre @ assoc_bytes ats) (2 * i) (2 * i + 2)) beUint16)
     [k..<k + length ats] = Inr ats" if "length pre = 2 * k"
  using that
proof (induction ats arbitrary: pre k)
  case (Cons at ats)
  have "mapE (\<lambda>i. bindE (sliceE ((pre @ be16 at) @ assoc_bytes ats) (2 * i) (2 * i + 2)) beUint16)
     [Suc k..<Suc k + length ats] = Inr ats"
    by (rule Cons.IH) (use Cons.prems in simp)
  moreover have "[k..<k + length (at # ats)] = k # [Suc k..<Suc k + length ats]"
    by (simp add: upt_rec)
  ultimately show ?case using Cons.prems by simp
qed simp

lemma assoc_pad_u16:
  fixes len :: u16
  shows "unat ((4 - len mod 4) mod 4) = pad4 (unat len)"
proof -
  have m: "unat (len mod 4) = unat len mod 4" by (simp add: unat_mod)
  have "len mod 4 \<le> 4" by (simp add: word_le_nat_alt m)
  then have "unat (4 - len mod 4) = 4 - unat len mod 4"
    by (simp add: unat_sub m)
  then show ?thesis by (simp add: unat_mod pad4_mod)
qed

lemma AssocTypeList_lengths:
  assumes ok: "AssocTypeList_ok tlv"
  defines "n \<equiv> 2 * length (atl_AssocTypes tlv)"
  shows "unat (word_of_nat (length (atl_AssocTypes tlv)) * 2 :: u16) = n"
    and "word_of_nat (length (atl_AssocTypes tlv)) * 2 = (word_of_nat n :: u16)"
    and "unat ((word_of_nat (length (atl_AssocTypes tlv)) * 2 :: u16) +
           (4 - (word_of_nat (length (atl_AssocTypes tlv)) * 2) mod 4) mod 4) = paddedLength n 4"
    and "unat (AssocTypeList_Len tlv) = 4 + paddedLength n 4"
proof -
  let ?len = "word_of_nat (length (atl_AssocTypes tlv)) * 2 :: u16"
  have n: "n \<le> max_value" using ok by (simp add: AssocTypeList_ok_def n_def)
  have p: "n + pad4 n \<le> max_value"
    using paddedLength_mono_max [OF n] by (simp add: pad4_add)
  show w: "?len = word_of_nat n" by (simp add: n_def mult.commute)
  show u: "unat ?len = n" unfolding w by (rule unat_u16_id) (use n in \<open>simp add: max_value_def\<close>)
  have pu: "unat ((4 - ?len mod 4) mod 4) = pad4 n" by (simp only: assoc_pad_u16 u)
  have "unat (?len + (4 - ?len mod 4) mod 4) = (n + pad4 n) mod 65536"
    by (simp only: unat_word_ariths(1) u pu) simp
  with p show "unat (?len + (4 - ?len mod 4) mod 4) = paddedLength n 4"
    by (simp add: pad4_add max_value_def)
  have two: "(if ?len mod 4 \<noteq> 0 then 2 else 0) = (word_of_nat (pad4 n) :: u16)"
  proof -
    have "unat (?len mod 4) = n mod 4" by (simp only: unat_mod u) simp
    then have z: "?len mod 4 = 0 \<longleftrightarrow> n mod 4 = 0" by (metis unat_0 unat_eq_0)
    have two: "pad4 n = (if n mod 4 = 0 then 0 else 2)"
    proof -
      have "n mod 4 = 0 \<or> n mod 4 = 2" unfolding n_def by presburger
      then show ?thesis by (auto simp: pad4_mod)
    qed
    show ?thesis unfolding z two by simp
  qed
  have "AssocTypeList_Len tlv = word_of_nat (4 + (n + pad4 n))"
    unfolding AssocTypeList_Len_def Let_def two unfolding w by (simp add: tlv_consts)
  moreover have "unat (word_of_nat (4 + (n + pad4 n)) :: u16) = 4 + (n + pad4 n)"
    by (rule unat_u16_id) (use p in \<open>simp add: max_value_def\<close>)
  ultimately show "unat (AssocTypeList_Len tlv) = 4 + paddedLength n 4"
    by (simp only: pad4_add)
qed

interpretation assoc_type_list: tlv_codec
  "AssocTypeList_DecodeFromBytes AssocTypeList_zero" AssocTypeList_Serialize
  "\<lambda>_. TLVAssocTypeList" AssocTypeList_Len AssocTypeList_ok
proof unfold_locales
  fix x assume ok: "AssocTypeList_ok x"
  let ?ats = "atl_AssocTypes x"
  let ?n = "2 * length ?ats"
  have n: "?n < 65536" using ok by (simp add: AssocTypeList_ok_def max_value_def)
  have "paddedLength ?n 4 = ?n + pad4 ?n" by (simp add: pad4_add)
  then have "AssocTypeList_Serialize x = Inr (tlv_frame TLVAssocTypeList (assoc_bytes ?ats))"
    using put_assoc_types_eq [of "[]" ?ats "pad4 ?n"] AssocTypeList_lengths [OF ok]
    by (simp add: AssocTypeList_Serialize_def Let_def tlv_frame_def tlv_header_def mult.commute)
  moreover have "AssocTypeList_DecodeFromBytes AssocTypeList_zero
      (tlv_header TLVAssocTypeList (word_of_nat (length (assoc_bytes ?ats))) @ assoc_bytes ?ats) = Inr x"
    using read_assoc_types [of "[]" 0 ?ats] unat_u16_id [OF n]
    by (simp add: AssocTypeList_DecodeFromBytes_def AssocTypeList_zero_def del: of_nat_mult)
  ultimately show "\<exists>v. length v \<le> max_value \<and>
      AssocTypeList_Serialize x = Inr (tlv_frame TLVAssocTypeList v) \<and>
      unat (AssocTypeList_Len x) = 4 + paddedLength (length v) 4 \<and>
      AssocTypeList_DecodeFromBytes AssocTypeList_zero
        (tlv_header TLVAssocTypeList (word_of_nat (length v)) @ v) = Inr x"
    using ok AssocTypeList_lengths(4) [OF ok]
    by (intro exI [of _ "assoc_bytes ?ats"]) (simp add: AssocTypeList_ok_def)
next
  fix data
  show "AssocTypeList_DecodeFromBytes AssocTypeList_zero data \<noteq> panic"
    unfolding AssocTypeList_DecodeFromBytes_def
  proof (rule decode_no_panicI)
    fix n val
    assume v: "tlv_value data n = Inr val"
    have "mapE (\<lambda>i. bindE (sliceE val (2 * i) (2 * i + 2)) beUint16) [0..<length val div 2] \<noteq> panic"
      by (rule mapE_no_panic) (auto simp: be_read)
    with v show "bindE (tlv_value data n) (\<lambda>value. if length value mod 2 \<noteq> 0
         then errorf ''AssocTypeList: value length not even, cannot contain 16-bit AssocType entries'' []
         else bindE (mapE (\<lambda>i. bindE (sliceE value (2 * i) (2 * i + 2)) beUint16)
                [0..<length value div 2]) (\<lambda>ats. Inr (AssocTypeList_zero\<lparr>atl_AssocTypes := ats\<rparr>))) \<noteq> panic"
      by (auto simp: bindE_eq_Inl)
  qed
next
  fix data x
  assume "AssocTypeList_DecodeFromBytes AssocTypeList_zero data = Inr x"
    and l: "length data \<le> 4 + max_value"
  then show "AssocTypeList_ok x"
    unfolding AssocTypeList_DecodeFromBytes_def
    by (elim decode_InrE)
      (auto simp: AssocTypeList_ok_def bindE_eq_Inr mapE_Inr_iff dest!: list_all2_lengthD split: if_splits)
qed

end
