(* ===== verification/Netip.thy ===== *)
theory Netip
  imports Go_Prelude
begin

text \<open>
  The part of Go's standard library \<open>net/netip\<close> that the repository computes with:
  \<open>netip.Addr\<close> (the zero value, IPv4, and IPv6 with an optional zone), its slices,
  predicates, order and prefixes. The textual forms are in theory Netip_Text.
\<close>

type_synonym u128 = "128 word"

datatype addr =
    NoAddr
  | Addr4 u32
  | Addr6 u128 (zone: string)

definition be128 :: "u128 \<Rightarrow> bytes" where "be128 v = be_bytes 16 (unat v)"

definition beUint128 :: "bytes \<Rightarrow> u128" where
  "beUint128 bs = word_of_nat (be_nat bs)"

lemma length_be128 [simp, wire_len]: "length (be128 v) = 16"
  by (simp add: be128_def)

lemma unat_u128_less: "unat (v :: u128) < 256 ^ 16"
  using unsigned_less [where ?'a = nat, of v] by simp

lemma beUint128_be128 [simp]: "beUint128 (be128 v) = v"
  using unat_u128_less [of v] by (simp add: beUint128_def be128_def be_nat_be_bytes)

lemma be128_beUint128 [simp]: "length bs = 16 \<Longrightarrow> be128 (beUint128 bs) = bs"
  using be_nat_less [of bs]
  by (simp add: be128_def beUint128_def unat_of_nat be_bytes_be_nat')

definition be32_of :: "bytes \<Rightarrow> u32" where
  "be32_of bs = word_of_nat (be_nat bs)"

lemma be32_of_be32 [simp]: "be32_of (be32 v) = v"
  using unat_u32_less [of v] by (simp add: be32_of_def be32_def be_nat_be_bytes)

lemma be32_be32_of [simp]: "length bs = 4 \<Longrightarrow> be32 (be32_of bs) = bs"
  using be_nat_less [of bs]
  by (simp add: be32_def be32_of_def unat_of_nat be_bytes_be_nat')

section \<open>Constructors and predicates\<close>

fun IsValid :: "addr \<Rightarrow> bool" where
  "IsValid NoAddr = False"
| "IsValid _ = True"

fun Is4 :: "addr \<Rightarrow> bool" where
  "Is4 (Addr4 _) = True"
| "Is4 _ = False"

fun Is6 :: "addr \<Rightarrow> bool" where
  "Is6 (Addr6 _ _) = True"
| "Is6 _ = False"

fun BitLen :: "addr \<Rightarrow> nat" where
  "BitLen NoAddr = 0"
| "BitLen (Addr4 _) = 32"
| "BitLen (Addr6 _ _) = 128"

fun AsSlice :: "addr \<Rightarrow> bytes" where
  "AsSlice NoAddr = []"
| "AsSlice (Addr4 v) = be32 v"
| "AsSlice (Addr6 v z) = be128 v"

text \<open>\<open>AddrFromSlice\<close>: 4 or 16 bytes; the second result is Go's \<open>ok\<close>.\<close>

definition AddrFromSlice :: "bytes \<Rightarrow> addr \<times> bool" where
  "AddrFromSlice bs =
     (if length bs = 4 then (Addr4 (be32_of bs), True)
      else if length bs = 16 then (Addr6 (beUint128 bs) [], True)
      else (NoAddr, False))"

definition AddrFrom4 :: "bytes \<Rightarrow> addr" where "AddrFrom4 bs = Addr4 (be32_of bs)"
definition AddrFrom16 :: "bytes \<Rightarrow> addr" where "AddrFrom16 bs = Addr6 (beUint128 bs) []"

definition IPv4Unspecified :: addr where "IPv4Unspecified = Addr4 0"

fun Is4In6 :: "addr \<Rightarrow> bool" where
  "Is4In6 (Addr6 v z) = (drop_bit 32 v = 0xffff)"
| "Is4In6 _ = False"

fun Unmap :: "addr \<Rightarrow> addr" where
  "Unmap (Addr6 v z) = (if Is4In6 (Addr6 v z) then Addr4 (ucast v) else Addr6 v z)"
| "Unmap a = a"

text \<open>\<open>169.254.0.0/16\<close> and \<open>fe80::/10\<close>; an IPv4-mapped address is unmapped first.\<close>

definition IsLinkLocalUnicast :: "addr \<Rightarrow> bool" where
  "IsLinkLocalUnicast a =
     (case Unmap a of
        NoAddr \<Rightarrow> False
      | Addr4 v \<Rightarrow> drop_bit 16 v = 0xa9fe
      | Addr6 v z \<Rightarrow> drop_bit 118 v = 0x3fa)"

text \<open>\<open>Addr.Compare\<close>: by bit length, then value, then zone.\<close>

fun addr_key :: "addr \<Rightarrow> nat \<times> nat \<times> string" where
  "addr_key NoAddr = (0, 0, [])"
| "addr_key (Addr4 v) = (32, unat v, [])"
| "addr_key (Addr6 v z) = (128, unat v, z)"

section \<open>Prefixes\<close>

record prefix =
  pfx_Addr :: addr
  pfx_Bits :: int

definition prefix_zero :: prefix where
  "prefix_zero = \<lparr>pfx_Addr = NoAddr, pfx_Bits = -1\<rparr>"

fun withoutZone :: "addr \<Rightarrow> addr" where
  "withoutZone (Addr6 v z) = Addr6 v []"
| "withoutZone a = a"

fun mask_addr :: "addr \<Rightarrow> nat \<Rightarrow> addr" where
  "mask_addr NoAddr b = NoAddr"
| "mask_addr (Addr4 v) b = Addr4 (push_bit (32 - b) (drop_bit (32 - b) v))"
| "mask_addr (Addr6 v z) b = Addr6 (push_bit (128 - b) (drop_bit (128 - b) v)) z"

text \<open>\<open>Addr.Prefix(bits)\<close>: the prefix of the given length that holds the address.\<close>

definition addr_Prefix :: "addr \<Rightarrow> int \<Rightarrow> prefix result" where
  "addr_Prefix a b =
     (if b < 0 then errorf ''negative Prefix bits'' []
      else case a of
        NoAddr \<Rightarrow> Inr prefix_zero
      | _ \<Rightarrow> (if b > int (BitLen a) then errorf ''prefix length too large'' [b]
              else Inr \<lparr>pfx_Addr = withoutZone (mask_addr a (nat b)), pfx_Bits = b\<rparr>))"

definition prefix_IsValid :: "prefix \<Rightarrow> bool" where
  "prefix_IsValid p \<longleftrightarrow> IsValid (pfx_Addr p) \<and> 0 \<le> pfx_Bits p \<and> pfx_Bits p \<le> int (BitLen (pfx_Addr p))"

fun hasZone :: "addr \<Rightarrow> bool" where
  "hasZone (Addr6 v z) = (z \<noteq> [])"
| "hasZone _ = False"

definition prefix_Contains :: "prefix \<Rightarrow> addr \<Rightarrow> bool" where
  "prefix_Contains p ip =
     (if \<not> prefix_IsValid p \<or> hasZone ip then False
      else case (pfx_Addr p, ip) of
        (Addr4 u, Addr4 v) \<Rightarrow> drop_bit (32 - nat (pfx_Bits p)) u = drop_bit (32 - nat (pfx_Bits p)) v
      | (Addr6 u _, Addr6 v _) \<Rightarrow> drop_bit (128 - nat (pfx_Bits p)) u = drop_bit (128 - nat (pfx_Bits p)) v
      | _ \<Rightarrow> False)"

section \<open>Laws\<close>

lemma Is4_Is6_exclusive: "\<not> (Is4 a \<and> Is6 a)"
  by (cases a) auto

lemma IsValid_iff: "IsValid a \<longleftrightarrow> Is4 a \<or> Is6 a"
  by (cases a) auto

lemma length_AsSlice [simp, wire_len]:
  "Is4 a \<Longrightarrow> length (AsSlice a) = 4"
  "Is6 a \<Longrightarrow> length (AsSlice a) = 16"
  "\<not> IsValid a \<Longrightarrow> AsSlice a = []"
  by (cases a; simp)+

lemma AddrFromSlice_AsSlice4 [simp]: "Is4 a \<Longrightarrow> AddrFromSlice (AsSlice a) = (a, True)"
  by (cases a) (simp_all add: AddrFromSlice_def)

lemma AddrFromSlice_AsSlice6 [simp]: "Is6 a \<Longrightarrow> zone a = [] \<Longrightarrow> AddrFromSlice (AsSlice a) = (a, True)"
  by (cases a) (simp_all add: AddrFromSlice_def)

lemma AddrFromSlice_4: "length bs = 4 \<Longrightarrow>
   Is4 (fst (AddrFromSlice bs)) \<and> AsSlice (fst (AddrFromSlice bs)) = bs"
  by (simp add: AddrFromSlice_def)

lemma AddrFromSlice_16: "length bs = 16 \<Longrightarrow>
   Is6 (fst (AddrFromSlice bs)) \<and> zone (fst (AddrFromSlice bs)) = [] \<and> AsSlice (fst (AddrFromSlice bs)) = bs"
  by (simp add: AddrFromSlice_def)

lemma AddrFrom4_be32 [simp]: "AddrFrom4 (be32 v) = Addr4 v"
  by (simp add: AddrFrom4_def)

lemma AddrFrom16_be128 [simp]: "AddrFrom16 (be128 v) = Addr6 v []"
  by (simp add: AddrFrom16_def)

lemma drop_push_drop [simp]: "drop_bit k (push_bit k (drop_bit k w)) = drop_bit k (w :: 'a::len word)"
  by (rule bit_word_eqI) (auto simp: bit_simps dest: bit_imp_le_length)

lemma addr_Prefix_contains:
  "addr_Prefix a b = Inr p \<Longrightarrow> IsValid a \<Longrightarrow> \<not> hasZone a \<Longrightarrow> prefix_Contains p a"
  by (cases a)
    (auto simp: addr_Prefix_def prefix_Contains_def prefix_IsValid_def split: if_splits)

end
