(* ===== verification/Go_Strings.thy ===== *)
theory Go_Strings
  imports Go_Prelude
begin

text \<open>
  Go strings. A Go string is a sequence of bytes; the model uses \<open>string\<close> (a \<open>char\<close> is a
  byte) where the code has \<open>string\<close>, and the two conversions between \<open>string\<close> and
  \<open>[]byte\<close>. Also the pieces of the standard library used on strings: \<open>utf8.Valid\<close>,
  decimal and hexadecimal formatting.
\<close>

definition byte_of_char :: "char \<Rightarrow> u8" where
  "byte_of_char c = word_of_nat (of_char c)"

definition char_of_byte :: "u8 \<Rightarrow> char" where
  "char_of_byte b = char_of (unat b)"

definition string_bytes :: "string \<Rightarrow> bytes" where
  "string_bytes s = map byte_of_char s"

definition bytes_string :: "bytes \<Rightarrow> string" where
  "bytes_string bs = map char_of_byte bs"

lemma of_char_less: "of_char c < (256 :: nat)"
  by (rule nat_of_char_less_256)

lemma char_byte_char [simp]: "char_of_byte (byte_of_char c) = c"
  using of_char_less [of c] by (simp add: char_of_byte_def byte_of_char_def unat_of_nat)

lemma byte_char_byte [simp]: "byte_of_char (char_of_byte b) = b"
  using unat_u8_less [of b] by (simp add: char_of_byte_def byte_of_char_def of_char_of)

lemma bytes_string_bytes [simp]: "string_bytes (bytes_string bs) = bs"
  by (simp add: string_bytes_def bytes_string_def o_def)

lemma string_bytes_string [simp]: "bytes_string (string_bytes s) = s"
  by (simp add: string_bytes_def bytes_string_def o_def)

lemma length_string_bytes [simp, wire_len]:
  "length (string_bytes s) = length s" "length (bytes_string bs) = length bs"
  by (simp_all add: string_bytes_def bytes_string_def)

section \<open>utf8.Valid\<close>

definition in_range :: "u8 \<Rightarrow> nat \<Rightarrow> nat \<Rightarrow> bool" where
  "in_range b lo hi \<longleftrightarrow> lo \<le> unat b \<and> unat b \<le> hi"

abbreviation cont_byte :: "u8 \<Rightarrow> bool" where
  "cont_byte b \<equiv> in_range b 0x80 0xBF"

text \<open>The length of the UTF-8 sequence at the front, 0 when it is malformed.\<close>

definition utf8_step :: "bytes \<Rightarrow> nat" where
  "utf8_step bs =
     (case bs of
        [] \<Rightarrow> 0
      | b # r \<Rightarrow>
         if unat b < 0x80 then 1
         else if in_range b 0xC2 0xDF then
           (case r of c # _ \<Rightarrow> if cont_byte c then 2 else 0 | [] \<Rightarrow> 0)
         else if in_range b 0xE0 0xEF then
           (case r of c # d # _ \<Rightarrow>
              if in_range c (if b = 0xE0 then 0xA0 else 0x80) (if b = 0xED then 0x9F else 0xBF)
                \<and> cont_byte d then 3 else 0
            | _ \<Rightarrow> 0)
         else if in_range b 0xF0 0xF4 then
           (case r of c # d # e # _ \<Rightarrow>
              if in_range c (if b = 0xF0 then 0x90 else 0x80) (if b = 0xF4 then 0x8F else 0xBF)
                \<and> cont_byte d \<and> cont_byte e then 4 else 0
            | _ \<Rightarrow> 0)
         else 0)"

function utf8_Valid :: "bytes \<Rightarrow> bool" where
  "utf8_Valid bs =
     (if bs = [] then True
      else if utf8_step bs = 0 then False
      else utf8_Valid (drop (utf8_step bs) bs))"
  by pat_completeness auto
termination
  by (relation "measure length") auto

declare utf8_Valid.simps [simp del]

lemma utf8_Valid_Nil [simp]: "utf8_Valid []"
  by (simp add: utf8_Valid.simps)

lemma utf8_Valid_ascii [simp]: "unat b < 0x80 \<Longrightarrow> utf8_Valid (b # bs) = utf8_Valid bs"
  by (subst utf8_Valid.simps) (simp add: utf8_step_def)

section \<open>Numbers in decimal and hexadecimal\<close>

fun string_of_nat :: "nat \<Rightarrow> string" where
  "string_of_nat n =
     (if n < 10 then [char_of (48 + n)] else string_of_nat (n div 10) @ [char_of (48 + n mod 10)])"

declare string_of_nat.simps [simp del]

definition hex_digit :: "nat \<Rightarrow> char" where
  "hex_digit d = (if d < 10 then char_of (48 + d) else char_of (87 + d))"

text \<open>\<open>%0wx\<close>: lower-case hexadecimal, padded to \<open>w\<close> digits (the values printed fit).\<close>

fun string_hex :: "nat \<Rightarrow> nat \<Rightarrow> string" where
  "string_hex 0 n = []"
| "string_hex (Suc w) n = string_hex w (n div 16) @ [hex_digit (n mod 16)]"

end
