(* ===== verification/Tlv_Path.thy ===== *)
theory Tlv_Path
  imports Tlv_Capability Netip Go_Strings
begin

text \<open>
  The LSP, association and candidate-path TLVs of \<open>src/pkg/packet/pcep/tlv.go\<close>:
  SYMBOLIC-PATH-NAME, IPV4/IPV6-LSP-IDENTIFIERS, EXTENDED-ASSOCIATION-ID (standard and
  Juniper), SRPOLICY-CPATH-ID, SRPOLICY-CPATH-PREFERENCE, COLOR, and the catch-all
  \<open>UnknownTLV\<close>, each with its interpretation of the \<open>tlv_codec\<close> contract.
\<close>

abbreviation (input) TLVSymbolicPathName :: u16 where "TLVSymbolicPathName \<equiv> 0x11"
abbreviation (input) TLVIPv4LSPIdentifiers :: u16 where "TLVIPv4LSPIdentifiers \<equiv> 0x12"
abbreviation (input) TLVIPv6LSPIdentifiers :: u16 where "TLVIPv6LSPIdentifiers \<equiv> 0x13"
abbreviation (input) TLVExtendedAssociationID :: u16 where "TLVExtendedAssociationID \<equiv> 0x1f"
abbreviation (input) TLVSRPolicyCPathID :: u16 where "TLVSRPolicyCPathID \<equiv> 0x39"
abbreviation (input) TLVSRPolicyCPathPreference :: u16 where "TLVSRPolicyCPathPreference \<equiv> 0x3b"
abbreviation (input) TLVColor :: u16 where "TLVColor \<equiv> 0x43"
abbreviation (input) TLVExtendedAssociationIDIPv4Juniper :: u16 where
  "TLVExtendedAssociationIDIPv4Juniper \<equiv> 0xffe3"
abbreviation (input) TLVSRPolicyCPathIDJuniper :: u16 where "TLVSRPolicyCPathIDJuniper \<equiv> 0xffe4"
abbreviation (input) TLVSRPolicyCPathPreferenceJuniper :: u16 where
  "TLVSRPolicyCPathPreferenceJuniper \<equiv> 0xffe5"

abbreviation (input) TLVIPv4LSPIdentifiersValueLength :: u16 where
  "TLVIPv4LSPIdentifiersValueLength \<equiv> 16"
abbreviation (input) TLVIPv6LSPIdentifiersValueLength :: u16 where
  "TLVIPv6LSPIdentifiersValueLength \<equiv> 52"
abbreviation (input) TLVExtendedAssociationIDIPv4ValueLength :: u16 where
  "TLVExtendedAssociationIDIPv4ValueLength \<equiv> 8"
abbreviation (input) TLVExtendedAssociationIDIPv6ValueLength :: u16 where
  "TLVExtendedAssociationIDIPv6ValueLength \<equiv> 20"
abbreviation (input) TLVSRPolicyCPathIDValueLength :: u16 where "TLVSRPolicyCPathIDValueLength \<equiv> 28"
abbreviation (input) TLVSRPolicyCPathPreferenceValueLength :: u16 where
  "TLVSRPolicyCPathPreferenceValueLength \<equiv> 4"
abbreviation (input) TLVColorValueLength :: u16 where "TLVColorValueLength \<equiv> 4"

section \<open>SYMBOLIC-PATH-NAME\<close>

record SymbolicPathName =
  spn_Name :: string

definition SymbolicPathName_zero :: SymbolicPathName where
  "SymbolicPathName_zero = \<lparr>spn_Name = []\<rparr>"

definition SymbolicPathName_DecodeFromBytes :: "SymbolicPathName \<Rightarrow> bytes \<Rightarrow> SymbolicPathName result" where
  "SymbolicPathName_DecodeFromBytes tlv data =
     bindE (wrapE ''SymbolicPathName'' (decodeTLVLength data True)) (\<lambda>valueLen.
     bindE (tlv_value data valueLen) (\<lambda>value.
     if \<not> utf8_Valid value then errorf ''SymbolicPathName: invalid UTF-8'' []
     else Inr (tlv\<lparr>spn_Name := bytes_string value\<rparr>)))"

definition SymbolicPathName_Serialize :: "SymbolicPathName \<Rightarrow> bytes result" where
  "SymbolicPathName_Serialize tlv =
     (let value = string_bytes (spn_Name tlv);
          padding = (TLVAlignment - length value mod TLVAlignment) mod TLVAlignment;
          value = value @ makeBytes padding in
      Inr (AppendByteSlices
        [Uint16ToByteSlice TLVSymbolicPathName,
         Uint16ToByteSlice (word_of_nat (length (spn_Name tlv))), value]))"

definition SymbolicPathName_Len :: "SymbolicPathName \<Rightarrow> u16" where
  "SymbolicPathName_Len tlv =
     (let len = word_of_nat (length (spn_Name tlv)) :: u16;
          padding = (4 - len mod 4) mod 4
      in word_of_nat TLVValueOffset + len + padding)"

definition NewSymbolicPathName :: "string \<Rightarrow> SymbolicPathName" where
  "NewSymbolicPathName name = \<lparr>spn_Name = name\<rparr>"

definition SymbolicPathName_ok :: "SymbolicPathName \<Rightarrow> bool" where
  "SymbolicPathName_ok tlv \<longleftrightarrow>
     length (spn_Name tlv) \<le> max_value \<and> utf8_Valid (string_bytes (spn_Name tlv))"

lemma unat_padded_len:
  fixes n :: nat
  assumes "n \<le> max_value"
  defines "len \<equiv> word_of_nat n :: u16"
  shows "unat (word_of_nat TLVValueOffset + len + (4 - len mod 4) mod 4) = 4 + paddedLength n 4"
    and "unat len = n"
proof -
  have p: "n + pad4 n \<le> max_value"
    using paddedLength_mono_max [OF assms(1)] by (simp add: pad4_add)
  show u: "unat len = n" unfolding len_def
    by (rule unat_u16_id) (use assms(1) in \<open>simp add: max_value_def\<close>)
  have "unat ((4 - len mod 4) mod 4) = pad4 n" by (simp only: assoc_pad_u16 u)
  then have "(4 - len mod 4) mod 4 = word_of_nat (pad4 n)" by (metis word_of_nat_inverse_u16)
  then have "word_of_nat TLVValueOffset + len + (4 - len mod 4) mod 4 = word_of_nat (4 + (n + pad4 n))"
    by (simp add: tlv_consts len_def)
  moreover have "unat (word_of_nat (4 + (n + pad4 n)) :: u16) = 4 + (n + pad4 n)"
    by (rule unat_u16_id) (use p in \<open>simp add: max_value_def\<close>)
  ultimately show "unat (word_of_nat TLVValueOffset + len + (4 - len mod 4) mod 4) = 4 + paddedLength n 4"
    by (simp only: pad4_add)
qed

interpretation symbolic_path_name: tlv_codec
  "SymbolicPathName_DecodeFromBytes SymbolicPathName_zero" SymbolicPathName_Serialize
  "\<lambda>_. TLVSymbolicPathName" SymbolicPathName_Len SymbolicPathName_ok
proof unfold_locales
  fix x assume ok: "SymbolicPathName_ok x"
  let ?v = "string_bytes (spn_Name x)"
  have l: "length (spn_Name x) \<le> max_value" using ok by (simp add: SymbolicPathName_ok_def)
  show "\<exists>v. length v \<le> max_value \<and>
      SymbolicPathName_Serialize x = Inr (tlv_frame TLVSymbolicPathName v) \<and>
      unat (SymbolicPathName_Len x) = 4 + paddedLength (length v) 4 \<and>
      SymbolicPathName_DecodeFromBytes SymbolicPathName_zero
        (tlv_header TLVSymbolicPathName (word_of_nat (length v)) @ v) = Inr x"
    using ok unat_padded_len [OF l]
    by (intro exI [of _ ?v])
      (simp add: SymbolicPathName_ok_def SymbolicPathName_Serialize_def SymbolicPathName_Len_def
        SymbolicPathName_DecodeFromBytes_def SymbolicPathName_zero_def Let_def tlv_frame_def
        tlv_header_def [symmetric] TLVAlignment_def pad4_mod flip: append_assoc)
next
  fix data
  show "SymbolicPathName_DecodeFromBytes SymbolicPathName_zero data \<noteq> panic"
    unfolding SymbolicPathName_DecodeFromBytes_def
    by (rule decode_no_panicI) auto
next
  fix data x
  assume "SymbolicPathName_DecodeFromBytes SymbolicPathName_zero data = Inr x"
    and l: "length data \<le> 4 + max_value"
  then show "SymbolicPathName_ok x"
    unfolding SymbolicPathName_DecodeFromBytes_def
    by (elim decode_InrE) (auto simp: SymbolicPathName_ok_def split: if_splits)
qed

section \<open>IPV4-LSP-IDENTIFIERS\<close>

record IPv4LSPIdentifiers =
  v4li_IPv4TunnelSenderAddress :: addr
  v4li_IPv4TunnelEndpointAddress :: addr
  v4li_LSPID :: u16
  v4li_TunnelID :: u16
  v4li_ExtendedTunnelID :: u32

definition IPv4LSPIdentifiers_zero :: IPv4LSPIdentifiers where
  "IPv4LSPIdentifiers_zero =
     \<lparr>v4li_IPv4TunnelSenderAddress = NoAddr, v4li_IPv4TunnelEndpointAddress = NoAddr,
      v4li_LSPID = 0, v4li_TunnelID = 0, v4li_ExtendedTunnelID = 0\<rparr>"

abbreviation (input) IPv4SenderOffset :: nat where "IPv4SenderOffset \<equiv> 0"
abbreviation (input) IPv4LSPIDOffset :: nat where "IPv4LSPIDOffset \<equiv> 4"
abbreviation (input) IPv4TunnelIDOffset :: nat where "IPv4TunnelIDOffset \<equiv> 6"
abbreviation (input) IPv4ExtTunnelIDOffset :: nat where "IPv4ExtTunnelIDOffset \<equiv> 8"
abbreviation (input) IPv4TunnelEPOffset :: nat where "IPv4TunnelEPOffset \<equiv> 12"

definition IPv4LSPIdentifiers_DecodeFromBytes ::
    "IPv4LSPIdentifiers \<Rightarrow> bytes \<Rightarrow> IPv4LSPIdentifiers result" where
  "IPv4LSPIdentifiers_DecodeFromBytes tlv data =
     bindE (wrapE ''IPv4LSPIdentifiers'' (decodeTLVLength data False)) (\<lambda>valueLen.
     if valueLen \<noteq> unat TLVIPv4LSPIdentifiersValueLength
     then errorf ''IPv4LSPIdentifiers: invalid value length'' [int valueLen]
     else
       bindE (tlv_value data valueLen) (\<lambda>value.
       bindE (sliceE value IPv4SenderOffset IPv4LSPIDOffset) (\<lambda>sb.
       bindE (bindE (sliceE value IPv4LSPIDOffset IPv4TunnelIDOffset) beUint16) (\<lambda>lspid.
       bindE (bindE (sliceE value IPv4TunnelIDOffset IPv4ExtTunnelIDOffset) beUint16) (\<lambda>tunnel.
       bindE (bindE (sliceE value IPv4ExtTunnelIDOffset IPv4TunnelEPOffset) beUint32) (\<lambda>ext.
       bindE (sliceE value IPv4TunnelEPOffset (IPv4TunnelEPOffset + IPv4AddrLen)) (\<lambda>eb.
       Inr (tlv\<lparr>v4li_IPv4TunnelSenderAddress := fst (AddrFromSlice sb),
                v4li_LSPID := lspid,
                v4li_TunnelID := tunnel,
                v4li_ExtendedTunnelID := ext,
                v4li_IPv4TunnelEndpointAddress := fst (AddrFromSlice eb)\<rparr>))))))))"

definition IPv4LSPIdentifiers_Serialize :: "IPv4LSPIdentifiers \<Rightarrow> bytes result" where
  "IPv4LSPIdentifiers_Serialize tlv =
     bindE (copyE (makeBytes (unat TLVIPv4LSPIdentifiersValueLength)) IPv4SenderOffset IPv4LSPIDOffset
       (AsSlice (v4li_IPv4TunnelSenderAddress tlv))) (\<lambda>value.
     bindE (putE value IPv4LSPIDOffset IPv4TunnelIDOffset (be16 (v4li_LSPID tlv))) (\<lambda>value.
     bindE (putE value IPv4TunnelIDOffset IPv4ExtTunnelIDOffset (be16 (v4li_TunnelID tlv))) (\<lambda>value.
     bindE (putE value IPv4ExtTunnelIDOffset IPv4TunnelEPOffset (be32 (v4li_ExtendedTunnelID tlv))) (\<lambda>value.
     bindE (copyE value IPv4TunnelEPOffset (IPv4TunnelEPOffset + IPv4AddrLen)
       (AsSlice (v4li_IPv4TunnelEndpointAddress tlv))) (\<lambda>value.
     Inr (AppendByteSlices
       [Uint16ToByteSlice TLVIPv4LSPIdentifiers, Uint16ToByteSlice TLVIPv4LSPIdentifiersValueLength,
        value]))))))"

definition IPv4LSPIdentifiers_Len :: "IPv4LSPIdentifiers \<Rightarrow> u16" where
  "IPv4LSPIdentifiers_Len tlv = word_of_nat TLVValueOffset + TLVIPv4LSPIdentifiersValueLength"

definition NewIPv4LSPIdentifiers :: "addr \<Rightarrow> addr \<Rightarrow> u16 \<Rightarrow> u16 \<Rightarrow> u32 \<Rightarrow> IPv4LSPIdentifiers" where
  "NewIPv4LSPIdentifiers senderAddr endpointAddr lspID tunnelID extendedTunnelID =
     \<lparr>v4li_IPv4TunnelSenderAddress = senderAddr, v4li_IPv4TunnelEndpointAddress = endpointAddr,
      v4li_LSPID = lspID, v4li_TunnelID = tunnelID, v4li_ExtendedTunnelID = extendedTunnelID\<rparr>"

definition IPv4LSPIdentifiers_ok :: "IPv4LSPIdentifiers \<Rightarrow> bool" where
  "IPv4LSPIdentifiers_ok tlv \<longleftrightarrow>
     Is4 (v4li_IPv4TunnelSenderAddress tlv) \<and> Is4 (v4li_IPv4TunnelEndpointAddress tlv)"

definition IPv4LSPIdentifiers_value :: "IPv4LSPIdentifiers \<Rightarrow> bytes" where
  "IPv4LSPIdentifiers_value x =
     AsSlice (v4li_IPv4TunnelSenderAddress x) @ be16 (v4li_LSPID x) @ be16 (v4li_TunnelID x) @
     be32 (v4li_ExtendedTunnelID x) @ AsSlice (v4li_IPv4TunnelEndpointAddress x)"

interpretation ipv4_lsp_identifiers: tlv_codec
  "IPv4LSPIdentifiers_DecodeFromBytes IPv4LSPIdentifiers_zero" IPv4LSPIdentifiers_Serialize
  "\<lambda>_. TLVIPv4LSPIdentifiers" IPv4LSPIdentifiers_Len IPv4LSPIdentifiers_ok
proof (rule fixed_codecI [where n = 16 and val = IPv4LSPIdentifiers_value])
  fix x assume ok: "IPv4LSPIdentifiers_ok x"
  then show "length (IPv4LSPIdentifiers_value x) = 16"
    by (simp add: IPv4LSPIdentifiers_value_def IPv4LSPIdentifiers_ok_def)
  show "IPv4LSPIdentifiers_Serialize x =
      Inr (tlv_header TLVIPv4LSPIdentifiers (word_of_nat 16) @ IPv4LSPIdentifiers_value x)"
    using ok
    by (simp add: IPv4LSPIdentifiers_Serialize_def IPv4LSPIdentifiers_ok_def tlv_header_def
        IPv4AddrLen_def IPv4LSPIdentifiers_value_def)
  show "IPv4LSPIdentifiers_DecodeFromBytes IPv4LSPIdentifiers_zero
      (tlv_header TLVIPv4LSPIdentifiers (word_of_nat 16) @ IPv4LSPIdentifiers_value x) = Inr x"
    using ok
    by (simp add: IPv4LSPIdentifiers_DecodeFromBytes_def IPv4LSPIdentifiers_ok_def
        IPv4LSPIdentifiers_zero_def IPv4AddrLen_def IPv4LSPIdentifiers_value_def)
next
  fix data
  show "IPv4LSPIdentifiers_DecodeFromBytes IPv4LSPIdentifiers_zero data \<noteq> panic"
    unfolding IPv4LSPIdentifiers_DecodeFromBytes_def
    by (rule decode_no_panicI) (auto simp: be_read IPv4AddrLen_def)
next
  fix data x
  assume "IPv4LSPIdentifiers_DecodeFromBytes IPv4LSPIdentifiers_zero data = Inr x"
  then show "IPv4LSPIdentifiers_ok x"
    unfolding IPv4LSPIdentifiers_DecodeFromBytes_def
    by (rule decode_InrE)
      (auto simp: IPv4LSPIdentifiers_ok_def IPv4AddrLen_def be_read AddrFromSlice_4 split: if_splits)
qed (simp_all add: max_value_def IPv4LSPIdentifiers_Len_def tlv_consts)

section \<open>IPV6-LSP-IDENTIFIERS\<close>

text \<open>The extended tunnel ID is Go's \<open>[16]byte\<close>: a list of 16 bytes.\<close>

record IPv6LSPIdentifiers =
  v6li_IPv6TunnelSenderAddress :: addr
  v6li_IPv6TunnelEndpointAddress :: addr
  v6li_LSPID :: u16
  v6li_TunnelID :: u16
  v6li_ExtendedTunnelID :: bytes

definition IPv6LSPIdentifiers_zero :: IPv6LSPIdentifiers where
  "IPv6LSPIdentifiers_zero =
     \<lparr>v6li_IPv6TunnelSenderAddress = NoAddr, v6li_IPv6TunnelEndpointAddress = NoAddr,
      v6li_LSPID = 0, v6li_TunnelID = 0, v6li_ExtendedTunnelID = makeBytes 16\<rparr>"

abbreviation (input) IPv6SenderOffset :: nat where "IPv6SenderOffset \<equiv> 0"
abbreviation (input) IPv6LSPIDOffset :: nat where "IPv6LSPIDOffset \<equiv> 16"
abbreviation (input) IPv6TunnelIDOffset :: nat where "IPv6TunnelIDOffset \<equiv> 18"
abbreviation (input) IPv6ExtendedTunnelIDOffset :: nat where "IPv6ExtendedTunnelIDOffset \<equiv> 20"
abbreviation (input) IPv6TunnelEPOffset :: nat where "IPv6TunnelEPOffset \<equiv> 36"

definition IPv6LSPIdentifiers_DecodeFromBytes ::
    "IPv6LSPIdentifiers \<Rightarrow> bytes \<Rightarrow> IPv6LSPIdentifiers result" where
  "IPv6LSPIdentifiers_DecodeFromBytes tlv data =
     bindE (wrapE ''IPv6LSPIdentifiers'' (decodeTLVLength data False)) (\<lambda>valueLen.
     if valueLen \<noteq> unat TLVIPv6LSPIdentifiersValueLength
     then errorf ''IPv6LSPIdentifiers: invalid value length'' [int valueLen]
     else
       bindE (tlv_value data valueLen) (\<lambda>value.
       bindE (sliceE value IPv6SenderOffset IPv6LSPIDOffset) (\<lambda>sb.
       bindE (bindE (sliceE value IPv6LSPIDOffset IPv6TunnelIDOffset) beUint16) (\<lambda>lspid.
       bindE (bindE (sliceE value IPv6TunnelIDOffset IPv6ExtendedTunnelIDOffset) beUint16) (\<lambda>tunnel.
       bindE (sliceE value IPv6ExtendedTunnelIDOffset IPv6TunnelEPOffset) (\<lambda>xb.
       bindE (copyE (v6li_ExtendedTunnelID tlv) 0 (length (v6li_ExtendedTunnelID tlv)) xb) (\<lambda>ext.
       bindE (sliceE value IPv6TunnelEPOffset (IPv6TunnelEPOffset + IPv6AddrLen)) (\<lambda>eb.
       Inr (tlv\<lparr>v6li_IPv6TunnelSenderAddress := fst (AddrFromSlice sb),
                v6li_LSPID := lspid,
                v6li_TunnelID := tunnel,
                v6li_ExtendedTunnelID := ext,
                v6li_IPv6TunnelEndpointAddress := fst (AddrFromSlice eb)\<rparr>)))))))))"

definition IPv6LSPIdentifiers_Serialize :: "IPv6LSPIdentifiers \<Rightarrow> bytes result" where
  "IPv6LSPIdentifiers_Serialize tlv =
     bindE (copyE (makeBytes (unat TLVIPv6LSPIdentifiersValueLength)) IPv6SenderOffset
       (IPv6SenderOffset + IPv6AddrLen) (AsSlice (v6li_IPv6TunnelSenderAddress tlv))) (\<lambda>value.
     bindE (putE value IPv6LSPIDOffset IPv6TunnelIDOffset (be16 (v6li_LSPID tlv))) (\<lambda>value.
     bindE (putE value IPv6TunnelIDOffset IPv6ExtendedTunnelIDOffset (be16 (v6li_TunnelID tlv))) (\<lambda>value.
     bindE (copyE value IPv6ExtendedTunnelIDOffset IPv6TunnelEPOffset (v6li_ExtendedTunnelID tlv)) (\<lambda>value.
     bindE (copyE value IPv6TunnelEPOffset (IPv6TunnelEPOffset + IPv6AddrLen)
       (AsSlice (v6li_IPv6TunnelEndpointAddress tlv))) (\<lambda>value.
     Inr (AppendByteSlices
       [Uint16ToByteSlice TLVIPv6LSPIdentifiers, Uint16ToByteSlice TLVIPv6LSPIdentifiersValueLength,
        value]))))))"

definition IPv6LSPIdentifiers_Len :: "IPv6LSPIdentifiers \<Rightarrow> u16" where
  "IPv6LSPIdentifiers_Len tlv = word_of_nat TLVValueOffset + TLVIPv6LSPIdentifiersValueLength"

definition NewIPv6LSPIdentifiers :: "addr \<Rightarrow> addr \<Rightarrow> u16 \<Rightarrow> u16 \<Rightarrow> bytes \<Rightarrow> IPv6LSPIdentifiers" where
  "NewIPv6LSPIdentifiers senderAddr endpointAddr lspID tunnelID extendedTunnelID =
     \<lparr>v6li_IPv6TunnelSenderAddress = senderAddr, v6li_IPv6TunnelEndpointAddress = endpointAddr,
      v6li_LSPID = lspID, v6li_TunnelID = tunnelID, v6li_ExtendedTunnelID = extendedTunnelID\<rparr>"

definition IPv6LSPIdentifiers_ok :: "IPv6LSPIdentifiers \<Rightarrow> bool" where
  "IPv6LSPIdentifiers_ok tlv \<longleftrightarrow>
     Is6 (v6li_IPv6TunnelSenderAddress tlv) \<and> zone (v6li_IPv6TunnelSenderAddress tlv) = [] \<and>
     Is6 (v6li_IPv6TunnelEndpointAddress tlv) \<and> zone (v6li_IPv6TunnelEndpointAddress tlv) = [] \<and>
     length (v6li_ExtendedTunnelID tlv) = 16"

definition IPv6LSPIdentifiers_value :: "IPv6LSPIdentifiers \<Rightarrow> bytes" where
  "IPv6LSPIdentifiers_value x =
     AsSlice (v6li_IPv6TunnelSenderAddress x) @ be16 (v6li_LSPID x) @ be16 (v6li_TunnelID x) @
     v6li_ExtendedTunnelID x @ AsSlice (v6li_IPv6TunnelEndpointAddress x)"

interpretation ipv6_lsp_identifiers: tlv_codec
  "IPv6LSPIdentifiers_DecodeFromBytes IPv6LSPIdentifiers_zero" IPv6LSPIdentifiers_Serialize
  "\<lambda>_. TLVIPv6LSPIdentifiers" IPv6LSPIdentifiers_Len IPv6LSPIdentifiers_ok
proof (rule fixed_codecI [where n = 52 and val = IPv6LSPIdentifiers_value])
  fix x assume ok: "IPv6LSPIdentifiers_ok x"
  then show "length (IPv6LSPIdentifiers_value x) = 52"
    by (simp add: IPv6LSPIdentifiers_value_def IPv6LSPIdentifiers_ok_def)
  show "IPv6LSPIdentifiers_Serialize x =
      Inr (tlv_header TLVIPv6LSPIdentifiers (word_of_nat 52) @ IPv6LSPIdentifiers_value x)"
    using ok
    by (simp add: IPv6LSPIdentifiers_Serialize_def IPv6LSPIdentifiers_ok_def tlv_header_def
        IPv6AddrLen_def IPv6LSPIdentifiers_value_def)
  show "IPv6LSPIdentifiers_DecodeFromBytes IPv6LSPIdentifiers_zero
      (tlv_header TLVIPv6LSPIdentifiers (word_of_nat 52) @ IPv6LSPIdentifiers_value x) = Inr x"
    using ok
    by (simp add: IPv6LSPIdentifiers_DecodeFromBytes_def IPv6LSPIdentifiers_ok_def
        IPv6LSPIdentifiers_zero_def IPv6AddrLen_def IPv6LSPIdentifiers_value_def)
next
  fix data
  show "IPv6LSPIdentifiers_DecodeFromBytes IPv6LSPIdentifiers_zero data \<noteq> panic"
    unfolding IPv6LSPIdentifiers_DecodeFromBytes_def
    by (rule decode_no_panicI) (auto simp: be_read IPv6AddrLen_def IPv6LSPIdentifiers_zero_def)
next
  fix data x
  assume "IPv6LSPIdentifiers_DecodeFromBytes IPv6LSPIdentifiers_zero data = Inr x"
  then show "IPv6LSPIdentifiers_ok x"
    unfolding IPv6LSPIdentifiers_DecodeFromBytes_def
    by (rule decode_InrE)
      (auto simp: IPv6LSPIdentifiers_ok_def IPv6AddrLen_def IPv6LSPIdentifiers_zero_def
        be_read AddrFromSlice_16 split: if_splits)
qed (simp_all add: max_value_def IPv6LSPIdentifiers_Len_def tlv_consts)

section \<open>EXTENDED-ASSOCIATION-ID\<close>

record ExtendedAssociationID =
  ea_Color :: u32
  ea_Endpoint :: addr

definition ExtendedAssociationID_zero :: ExtendedAssociationID where
  "ExtendedAssociationID_zero = \<lparr>ea_Color = 0, ea_Endpoint = NoAddr\<rparr>"

abbreviation (input) ExtendedAssociationIDColorOffset :: nat where
  "ExtendedAssociationIDColorOffset \<equiv> 0"
abbreviation (input) ExtendedAssociationIDEndpointOffset :: nat where
  "ExtendedAssociationIDEndpointOffset \<equiv> 4"

definition ExtendedAssociationID_DecodeFromBytes ::
    "ExtendedAssociationID \<Rightarrow> bytes \<Rightarrow> ExtendedAssociationID result" where
  "ExtendedAssociationID_DecodeFromBytes tlv data =
     bindE (wrapE ''ExtendedAssociationID'' (decodeTLVLength data False)) (\<lambda>valueLen.
     bindE (tlv_value data valueLen) (\<lambda>value.
     if length value < unat TLVColorValueLength
     then errorf ''ExtendedAssociationID: value too short''
            [int valueLen, uint TLVColorValueLength]
     else
       bindE (bindE (sliceE value ExtendedAssociationIDColorOffset
               (ExtendedAssociationIDColorOffset + unat TLVColorValueLength)) beUint32) (\<lambda>color.
       bindE (if valueLen = unat TLVExtendedAssociationIDIPv4ValueLength
              then sliceE value ExtendedAssociationIDEndpointOffset
                     (ExtendedAssociationIDEndpointOffset + IPv4AddrLen)
              else if valueLen = unat TLVExtendedAssociationIDIPv6ValueLength
              then sliceE value ExtendedAssociationIDEndpointOffset
                     (ExtendedAssociationIDEndpointOffset + IPv6AddrLen)
              else errorf ''ExtendedAssociationID: unsupported value length'' [int valueLen])
         (\<lambda>addrBytes.
       Inr (tlv\<lparr>ea_Color := color, ea_Endpoint := fst (AddrFromSlice addrBytes)\<rparr>)))))"

definition ExtendedAssociationID_serialize :: "u16 \<Rightarrow> ExtendedAssociationID \<Rightarrow> bytes result" where
  "ExtendedAssociationID_serialize tlvType tlv =
     (if \<not> IsValid (ea_Endpoint tlv) then Inr []
      else
        let len = (if Is4 (ea_Endpoint tlv) then TLVExtendedAssociationIDIPv4ValueLength
                   else if Is6 (ea_Endpoint tlv) then TLVExtendedAssociationIDIPv6ValueLength
                   else 0) in
        bindE (putE (makeBytes (unat len)) ExtendedAssociationIDColorOffset
          (ExtendedAssociationIDColorOffset + unat TLVColorValueLength) (be32 (ea_Color tlv))) (\<lambda>value.
        bindE (copyE value ExtendedAssociationIDEndpointOffset (length value)
          (AsSlice (ea_Endpoint tlv))) (\<lambda>value.
        Inr (AppendByteSlices [Uint16ToByteSlice tlvType, Uint16ToByteSlice len, value]))))"

definition ExtendedAssociationID_Serialize :: "ExtendedAssociationID \<Rightarrow> bytes result" where
  "ExtendedAssociationID_Serialize tlv = ExtendedAssociationID_serialize TLVExtendedAssociationID tlv"

definition ExtendedAssociationID_Len :: "ExtendedAssociationID \<Rightarrow> u16" where
  "ExtendedAssociationID_Len tlv =
     (if Is4 (ea_Endpoint tlv) then word_of_nat TLVValueOffset + TLVExtendedAssociationIDIPv4ValueLength
      else if Is6 (ea_Endpoint tlv) then word_of_nat TLVValueOffset + TLVExtendedAssociationIDIPv6ValueLength
      else 0)"

definition NewExtendedAssociationID :: "u32 \<Rightarrow> addr \<Rightarrow> ExtendedAssociationID" where
  "NewExtendedAssociationID color endpoint = \<lparr>ea_Color = color, ea_Endpoint = endpoint\<rparr>"

definition ExtendedAssociationID_ok :: "ExtendedAssociationID \<Rightarrow> bool" where
  "ExtendedAssociationID_ok tlv \<longleftrightarrow>
     Is4 (ea_Endpoint tlv) \<or> Is6 (ea_Endpoint tlv) \<and> zone (ea_Endpoint tlv) = []"

lemma ExtendedAssociationID_serialize_frame:
  assumes "ExtendedAssociationID_ok x"
  defines "v \<equiv> be32 (ea_Color x) @ AsSlice (ea_Endpoint x)"
  shows "ExtendedAssociationID_serialize t x = Inr (tlv_frame t v)"
    and "length v mod 4 = 0" "length v = (if Is4 (ea_Endpoint x) then 8 else 20)"
    and "unat (ExtendedAssociationID_Len x) = 4 + length v"
  using assms(1)
  by (cases "ea_Endpoint x"; simp add: ExtendedAssociationID_ok_def v_def
      ExtendedAssociationID_serialize_def tlv_frame_def tlv_header_def tlv_consts
      ExtendedAssociationID_Len_def)+

interpretation extended_association_id: tlv_codec
  "ExtendedAssociationID_DecodeFromBytes ExtendedAssociationID_zero" ExtendedAssociationID_Serialize
  "\<lambda>_. TLVExtendedAssociationID" ExtendedAssociationID_Len ExtendedAssociationID_ok
proof unfold_locales
  fix x assume ok: "ExtendedAssociationID_ok x"
  let ?v = "be32 (ea_Color x) @ AsSlice (ea_Endpoint x)"
  note f = ExtendedAssociationID_serialize_frame [OF ok]
  have "ExtendedAssociationID_DecodeFromBytes ExtendedAssociationID_zero
          (tlv_header TLVExtendedAssociationID (word_of_nat (length ?v)) @ ?v) = Inr x"
    using ok
    by (cases "ea_Endpoint x")
      (simp_all add: ExtendedAssociationID_ok_def ExtendedAssociationID_DecodeFromBytes_def
        ExtendedAssociationID_zero_def tlv_consts AddrFromSlice_def)
  moreover have "length ?v \<le> max_value" using f(3) by (simp add: max_value_def)
  moreover have "paddedLength (length ?v) 4 = length ?v"
    using f(2) by (simp add: paddedLength_def)
  ultimately show "\<exists>v. length v \<le> max_value \<and>
      ExtendedAssociationID_Serialize x = Inr (tlv_frame TLVExtendedAssociationID v) \<and>
      unat (ExtendedAssociationID_Len x) = 4 + paddedLength (length v) 4 \<and>
      ExtendedAssociationID_DecodeFromBytes ExtendedAssociationID_zero
        (tlv_header TLVExtendedAssociationID (word_of_nat (length v)) @ v) = Inr x"
    using f(1,4) by (intro exI [of _ ?v]) (simp add: ExtendedAssociationID_Serialize_def)
next
  fix data
  show "ExtendedAssociationID_DecodeFromBytes ExtendedAssociationID_zero data \<noteq> panic"
    unfolding ExtendedAssociationID_DecodeFromBytes_def
    by (rule decode_no_panicI) (auto simp: be_read tlv_consts)
next
  fix data x
  assume "ExtendedAssociationID_DecodeFromBytes ExtendedAssociationID_zero data = Inr x"
  then show "ExtendedAssociationID_ok x"
    unfolding ExtendedAssociationID_DecodeFromBytes_def
    by (rule decode_InrE)
      (auto simp: ExtendedAssociationID_ok_def tlv_consts be_read AddrFromSlice_4 AddrFromSlice_16
        split: if_splits)
qed

text \<open>
  The Juniper variant embeds \<open>ExtendedAssociationID\<close>, so it has the same fields; only its
  type code differs, and it insists on an IPv4 endpoint.
\<close>

definition ExtendedAssociationIDIPv4Juniper_DecodeFromBytes ::
    "ExtendedAssociationID \<Rightarrow> bytes \<Rightarrow> ExtendedAssociationID result" where
  "ExtendedAssociationIDIPv4Juniper_DecodeFromBytes tlv data =
     bindE (wrapE ''ExtendedAssociationIDIPv4Juniper'' (decodeTLVLength data False)) (\<lambda>valueLen.
     if valueLen \<noteq> unat TLVExtendedAssociationIDIPv4ValueLength
     then errorf ''ExtendedAssociationIDIPv4Juniper: invalid value length'' [int valueLen]
     else ExtendedAssociationID_DecodeFromBytes tlv data)"

definition ExtendedAssociationIDIPv4Juniper_Serialize :: "ExtendedAssociationID \<Rightarrow> bytes result" where
  "ExtendedAssociationIDIPv4Juniper_Serialize tlv =
     (if \<not> Is4 (ea_Endpoint tlv) then Inr []
      else ExtendedAssociationID_serialize TLVExtendedAssociationIDIPv4Juniper tlv)"

definition ExtendedAssociationIDIPv4Juniper_Len :: "ExtendedAssociationID \<Rightarrow> u16" where
  "ExtendedAssociationIDIPv4Juniper_Len tlv =
     (if \<not> Is4 (ea_Endpoint tlv) then 0
      else word_of_nat TLVValueOffset + TLVExtendedAssociationIDIPv4ValueLength)"

definition ExtendedAssociationIDIPv4Juniper_ok :: "ExtendedAssociationID \<Rightarrow> bool" where
  "ExtendedAssociationIDIPv4Juniper_ok tlv \<longleftrightarrow> Is4 (ea_Endpoint tlv)"

interpretation extended_association_id_juniper: tlv_codec
  "ExtendedAssociationIDIPv4Juniper_DecodeFromBytes ExtendedAssociationID_zero"
  ExtendedAssociationIDIPv4Juniper_Serialize
  "\<lambda>_. TLVExtendedAssociationIDIPv4Juniper"
  ExtendedAssociationIDIPv4Juniper_Len ExtendedAssociationIDIPv4Juniper_ok
proof (rule fixed_codecI [where n = 8 and val = "\<lambda>x. be32 (ea_Color x) @ AsSlice (ea_Endpoint x)"])
  fix x assume ok: "ExtendedAssociationIDIPv4Juniper_ok x"
  then show "length (be32 (ea_Color x) @ AsSlice (ea_Endpoint x)) = 8"
    by (simp add: ExtendedAssociationIDIPv4Juniper_ok_def)
  show "ExtendedAssociationIDIPv4Juniper_Serialize x =
      Inr (tlv_header TLVExtendedAssociationIDIPv4Juniper (word_of_nat 8) @
           be32 (ea_Color x) @ AsSlice (ea_Endpoint x))"
    using ok
    by (simp add: ExtendedAssociationIDIPv4Juniper_ok_def ExtendedAssociationIDIPv4Juniper_Serialize_def
        ExtendedAssociationID_serialize_def IsValid_iff tlv_header_def)
  show "ExtendedAssociationIDIPv4Juniper_DecodeFromBytes ExtendedAssociationID_zero
      (tlv_header TLVExtendedAssociationIDIPv4Juniper (word_of_nat 8) @
       be32 (ea_Color x) @ AsSlice (ea_Endpoint x)) = Inr x"
    using ok
    by (simp add: ExtendedAssociationIDIPv4Juniper_ok_def tlv_consts
        ExtendedAssociationIDIPv4Juniper_DecodeFromBytes_def
        ExtendedAssociationID_DecodeFromBytes_def ExtendedAssociationID_zero_def)
  show "unat (ExtendedAssociationIDIPv4Juniper_Len x) = 4 + 8"
    using ok by (simp add: ExtendedAssociationIDIPv4Juniper_ok_def
        ExtendedAssociationIDIPv4Juniper_Len_def tlv_consts)
next
  fix data
  show "ExtendedAssociationIDIPv4Juniper_DecodeFromBytes ExtendedAssociationID_zero data \<noteq> panic"
    unfolding ExtendedAssociationIDIPv4Juniper_DecodeFromBytes_def
    by (rule decode_no_panicI) (simp add: extended_association_id.decode_no_panic)
next
  fix data x
  assume "ExtendedAssociationIDIPv4Juniper_DecodeFromBytes ExtendedAssociationID_zero data = Inr x"
  then show "ExtendedAssociationIDIPv4Juniper_ok x"
    unfolding ExtendedAssociationIDIPv4Juniper_DecodeFromBytes_def
      ExtendedAssociationID_DecodeFromBytes_def
    by (rule decode_InrE)
      (auto simp: ExtendedAssociationIDIPv4Juniper_ok_def tlv_consts be_read AddrFromSlice_4
        split: if_splits)
qed (simp_all add: max_value_def)

section \<open>SRPOLICY-CPATH-ID\<close>

record SRPolicyCandidatePathIdentifier =
  cpid_ProtocolOrigin :: u8
  cpid_OriginatorASN :: u32
  cpid_OriginatorAddr :: addr
  cpid_Discriminator :: u32

definition SRPolicyCandidatePathIdentifier_zero :: SRPolicyCandidatePathIdentifier where
  "SRPolicyCandidatePathIdentifier_zero =
     \<lparr>cpid_ProtocolOrigin = 0, cpid_OriginatorASN = 0, cpid_OriginatorAddr = NoAddr,
      cpid_Discriminator = 0\<rparr>"

abbreviation (input) SRPolicyCPathIDProtocolOriginOffset :: nat where
  "SRPolicyCPathIDProtocolOriginOffset \<equiv> 0"
abbreviation (input) SRPolicyCPathIDASNOffset :: nat where "SRPolicyCPathIDASNOffset \<equiv> 4"
abbreviation (input) SRPolicyCPathIDAddrOffset :: nat where "SRPolicyCPathIDAddrOffset \<equiv> 8"
abbreviation (input) SRPolicyCPathIDIPv4Offset :: nat where "SRPolicyCPathIDIPv4Offset \<equiv> 12"
abbreviation (input) SRPolicyCPathIDDiscriminatorOffset :: nat where
  "SRPolicyCPathIDDiscriminatorOffset \<equiv> 24"
abbreviation (input) SRPolicyCPathIDASNLen :: nat where "SRPolicyCPathIDASNLen \<equiv> 4"
abbreviation (input) SRPolicyCPathIDDiscriminatorLen :: nat where
  "SRPolicyCPathIDDiscriminatorLen \<equiv> 4"
abbreviation (input) ProtocolOriginPCEP :: u8 where "ProtocolOriginPCEP \<equiv> 0x0a"

definition SRPolicyCandidatePathIdentifier_DecodeFromBytes ::
    "SRPolicyCandidatePathIdentifier \<Rightarrow> bytes \<Rightarrow> SRPolicyCandidatePathIdentifier result" where
  "SRPolicyCandidatePathIdentifier_DecodeFromBytes tlv data =
     bindE (wrapE ''SRPolicyCandidatePathIdentifier'' (decodeTLVLength data False)) (\<lambda>valueLen.
     bindE (tlv_value data valueLen) (\<lambda>value.
     if length value \<noteq> unat TLVSRPolicyCPathIDValueLength
     then errorf ''SRPolicyCandidatePathIdentifier: invalid value length''
            [uint TLVSRPolicyCPathIDValueLength, int (length value)]
     else
       bindE (indexE value SRPolicyCPathIDProtocolOriginOffset) (\<lambda>origin.
       bindE (bindE (sliceE value SRPolicyCPathIDASNOffset
               (SRPolicyCPathIDASNOffset + SRPolicyCPathIDASNLen)) beUint32) (\<lambda>asn.
       bindE (sliceE value SRPolicyCPathIDAddrOffset (SRPolicyCPathIDAddrOffset + IPv6AddrLen)) (\<lambda>addrBytes.
       bindE (if isIPv4Bytes addrBytes
              then bindE (sliceE addrBytes SRPolicyCPathIDIPv4Offset (length addrBytes)) (\<lambda>b.
                   bindE (copyE (makeBytes IPv4AddrLen) 0 IPv4AddrLen b) (\<lambda>v4. Inr (AddrFrom4 v4)))
              else bindE (copyE (makeBytes IPv6AddrLen) 0 IPv6AddrLen addrBytes) (\<lambda>addr16.
                   Inr (AddrFrom16 addr16))) (\<lambda>originator.
       bindE (bindE (sliceE value SRPolicyCPathIDDiscriminatorOffset
               (SRPolicyCPathIDDiscriminatorOffset + SRPolicyCPathIDDiscriminatorLen)) beUint32) (\<lambda>disc.
       Inr (tlv\<lparr>cpid_ProtocolOrigin := origin, cpid_OriginatorASN := asn,
                cpid_OriginatorAddr := originator, cpid_Discriminator := disc\<rparr>))))))))"

definition SRPolicyCandidatePathIdentifier_serialize ::
    "u16 \<Rightarrow> SRPolicyCandidatePathIdentifier \<Rightarrow> bytes result" where
  "SRPolicyCandidatePathIdentifier_serialize tlvType tlv =
     bindE (setE (makeBytes (unat TLVSRPolicyCPathIDValueLength)) SRPolicyCPathIDProtocolOriginOffset
       (cpid_ProtocolOrigin tlv)) (\<lambda>value.
     bindE (putE value SRPolicyCPathIDASNOffset (SRPolicyCPathIDASNOffset + SRPolicyCPathIDASNLen)
       (be32 (cpid_OriginatorASN tlv))) (\<lambda>value.
     bindE (if \<not> IsValid (cpid_OriginatorAddr tlv) then Inr value
            else if Is4 (cpid_OriginatorAddr tlv)
            then copyE value (SRPolicyCPathIDAddrOffset + SRPolicyCPathIDIPv4Offset)
                   (SRPolicyCPathIDAddrOffset + SRPolicyCPathIDIPv4Offset + IPv4AddrLen)
                   (AsSlice (cpid_OriginatorAddr tlv))
            else if Is6 (cpid_OriginatorAddr tlv)
            then copyE value SRPolicyCPathIDAddrOffset (SRPolicyCPathIDAddrOffset + IPv6AddrLen)
                   (AsSlice (cpid_OriginatorAddr tlv))
            else Inr value) (\<lambda>value.
     bindE (putE value SRPolicyCPathIDDiscriminatorOffset
       (SRPolicyCPathIDDiscriminatorOffset + SRPolicyCPathIDDiscriminatorLen)
       (be32 (cpid_Discriminator tlv))) (\<lambda>value.
     Inr (AppendByteSlices
       [Uint16ToByteSlice tlvType, Uint16ToByteSlice TLVSRPolicyCPathIDValueLength, value])))))"

definition SRPolicyCandidatePathIdentifier_Serialize ::
    "SRPolicyCandidatePathIdentifier \<Rightarrow> bytes result" where
  "SRPolicyCandidatePathIdentifier_Serialize tlv =
     SRPolicyCandidatePathIdentifier_serialize TLVSRPolicyCPathID tlv"

definition SRPolicyCandidatePathIdentifierJuniper_Serialize ::
    "SRPolicyCandidatePathIdentifier \<Rightarrow> bytes result" where
  "SRPolicyCandidatePathIdentifierJuniper_Serialize tlv =
     SRPolicyCandidatePathIdentifier_serialize TLVSRPolicyCPathIDJuniper tlv"

definition SRPolicyCandidatePathIdentifier_Len :: "SRPolicyCandidatePathIdentifier \<Rightarrow> u16" where
  "SRPolicyCandidatePathIdentifier_Len tlv = word_of_nat TLVValueOffset + TLVSRPolicyCPathIDValueLength"

text \<open>
  The values the wire format can hold: an IPv6 originator whose first 96 bits are zero
  is written like an IPv4 one, so it is not among them, nor is a missing address.
\<close>

definition SRPolicyCandidatePathIdentifier_ok :: "SRPolicyCandidatePathIdentifier \<Rightarrow> bool" where
  "SRPolicyCandidatePathIdentifier_ok tlv \<longleftrightarrow>
     (let a = cpid_OriginatorAddr tlv in
      Is4 a \<or> Is6 a \<and> zone a = [] \<and> \<not> isIPv4Bytes (AsSlice a))"

definition cpid_addr_bytes :: "addr \<Rightarrow> bytes" where
  "cpid_addr_bytes a = (if Is4 a then makeBytes 12 @ AsSlice a else AsSlice a)"

definition cpid_value :: "SRPolicyCandidatePathIdentifier \<Rightarrow> bytes" where
  "cpid_value x = [cpid_ProtocolOrigin x, 0, 0, 0] @ be32 (cpid_OriginatorASN x) @
     cpid_addr_bytes (cpid_OriginatorAddr x) @ be32 (cpid_Discriminator x)"

lemma length_cpid_addr_bytes: "IsValid a \<Longrightarrow> length (cpid_addr_bytes a) = 16"
  by (cases a) (simp_all add: cpid_addr_bytes_def)

lemma isIPv4Bytes_pad: "length bs = 4 \<Longrightarrow> isIPv4Bytes (makeBytes 12 @ bs)"
  by (simp add: isIPv4Bytes_def tlv_consts makeBytes_def list_all_iff nth_append)

lemma makeBytes_28: "makeBytes 28 = 0 # makeBytes 3 @ makeBytes 4 @ makeBytes 16 @ makeBytes 4"
  by (simp add: makeBytes_def numeral_eq_Suc)

lemma SRPolicyCandidatePathIdentifier_serialize_ok:
  assumes "SRPolicyCandidatePathIdentifier_ok x"
  shows "SRPolicyCandidatePathIdentifier_serialize t x = Inr (tlv_header t (word_of_nat 28) @ cpid_value x)"
proof -
  have m: "makeBytes 16 = makeBytes 12 @ makeBytes 4" "makeBytes 3 = [0, 0, 0]"
    by (simp_all add: makeBytes_def numeral_eq_Suc)
  show ?thesis
  proof (cases "cpid_OriginatorAddr x")
    case NoAddr
    then show ?thesis using assms by (simp add: SRPolicyCandidatePathIdentifier_ok_def)
  next
    case (Addr4 w)
    then show ?thesis
      by (simp add: SRPolicyCandidatePathIdentifier_serialize_def makeBytes_28 m tlv_consts
          tlv_header_def cpid_value_def cpid_addr_bytes_def)
  next
    case (Addr6 w z)
    then show ?thesis
      by (simp add: SRPolicyCandidatePathIdentifier_serialize_def makeBytes_28 m(2) tlv_consts
          tlv_header_def cpid_value_def cpid_addr_bytes_def)
  qed
qed

lemma SRPolicyCandidatePathIdentifier_decode_value:
  assumes "SRPolicyCandidatePathIdentifier_ok x"
  shows "SRPolicyCandidatePathIdentifier_DecodeFromBytes SRPolicyCandidatePathIdentifier_zero
    (tlv_header t (word_of_nat 28) @ cpid_value x) = Inr x"
proof (cases "cpid_OriginatorAddr x")
  case NoAddr
  then show ?thesis using assms by (simp add: SRPolicyCandidatePathIdentifier_ok_def)
next
  case (Addr4 w)
  then show ?thesis
    by (simp add: SRPolicyCandidatePathIdentifier_DecodeFromBytes_def cpid_value_def
        cpid_addr_bytes_def isIPv4Bytes_pad tlv_consts SRPolicyCandidatePathIdentifier_zero_def)
next
  case (Addr6 w z)
  then show ?thesis using assms
    by (simp add: SRPolicyCandidatePathIdentifier_ok_def Let_def
        SRPolicyCandidatePathIdentifier_DecodeFromBytes_def cpid_value_def
        cpid_addr_bytes_def tlv_consts SRPolicyCandidatePathIdentifier_zero_def)
qed

lemma SRPolicyCandidatePathIdentifier_codec:
  assumes ser: "\<And>x. ser x = SRPolicyCandidatePathIdentifier_serialize t x"
  shows "tlv_codec (SRPolicyCandidatePathIdentifier_DecodeFromBytes SRPolicyCandidatePathIdentifier_zero)
    ser (\<lambda>_. t) SRPolicyCandidatePathIdentifier_Len SRPolicyCandidatePathIdentifier_ok"
proof (rule fixed_codecI [where n = 28 and val = cpid_value])
  fix x assume ok: "SRPolicyCandidatePathIdentifier_ok x"
  then have "IsValid (cpid_OriginatorAddr x)"
    by (auto simp: SRPolicyCandidatePathIdentifier_ok_def Let_def IsValid_iff)
  then show "length (cpid_value x) = 28"
    by (simp add: cpid_value_def length_cpid_addr_bytes)
  show "ser x = Inr (tlv_header t (word_of_nat 28) @ cpid_value x)"
    using ser SRPolicyCandidatePathIdentifier_serialize_ok [OF ok] by simp
  show "SRPolicyCandidatePathIdentifier_DecodeFromBytes SRPolicyCandidatePathIdentifier_zero
      (tlv_header t (word_of_nat 28) @ cpid_value x) = Inr x"
    by (rule SRPolicyCandidatePathIdentifier_decode_value [OF ok])
next
  fix data
  show "SRPolicyCandidatePathIdentifier_DecodeFromBytes SRPolicyCandidatePathIdentifier_zero data \<noteq> panic"
    unfolding SRPolicyCandidatePathIdentifier_DecodeFromBytes_def
    by (rule decode_no_panicI) (auto simp: be_read tlv_consts)
next
  fix data x
  assume "SRPolicyCandidatePathIdentifier_DecodeFromBytes SRPolicyCandidatePathIdentifier_zero data = Inr x"
  then show "SRPolicyCandidatePathIdentifier_ok x"
    unfolding SRPolicyCandidatePathIdentifier_DecodeFromBytes_def
    by (rule decode_InrE)
      (auto simp: SRPolicyCandidatePathIdentifier_ok_def tlv_consts be_read AddrFrom4_def
        AddrFrom16_def split: if_splits)
qed (simp_all add: max_value_def SRPolicyCandidatePathIdentifier_Len_def tlv_consts)

interpretation sr_policy_cpath_id: tlv_codec
  "SRPolicyCandidatePathIdentifier_DecodeFromBytes SRPolicyCandidatePathIdentifier_zero"
  SRPolicyCandidatePathIdentifier_Serialize "\<lambda>_. TLVSRPolicyCPathID"
  SRPolicyCandidatePathIdentifier_Len SRPolicyCandidatePathIdentifier_ok
  by (rule SRPolicyCandidatePathIdentifier_codec)
    (simp add: SRPolicyCandidatePathIdentifier_Serialize_def)

interpretation sr_policy_cpath_id_juniper: tlv_codec
  "SRPolicyCandidatePathIdentifier_DecodeFromBytes SRPolicyCandidatePathIdentifier_zero"
  SRPolicyCandidatePathIdentifierJuniper_Serialize "\<lambda>_. TLVSRPolicyCPathIDJuniper"
  SRPolicyCandidatePathIdentifier_Len SRPolicyCandidatePathIdentifier_ok
  by (rule SRPolicyCandidatePathIdentifier_codec)
    (simp add: SRPolicyCandidatePathIdentifierJuniper_Serialize_def)

section \<open>SRPOLICY-CPATH-PREFERENCE\<close>

record SRPolicyCandidatePathPreference =
  cpp_Preference :: u32

definition SRPolicyCandidatePathPreference_zero :: SRPolicyCandidatePathPreference where
  "SRPolicyCandidatePathPreference_zero = \<lparr>cpp_Preference = 0\<rparr>"

definition SRPolicyCandidatePathPreference_DecodeFromBytes ::
    "SRPolicyCandidatePathPreference \<Rightarrow> bytes \<Rightarrow> SRPolicyCandidatePathPreference result" where
  "SRPolicyCandidatePathPreference_DecodeFromBytes tlv data =
     bindE (wrapE ''SRPolicyCandidatePathPreference'' (decodeTLVLength data False)) (\<lambda>valueLen.
     if valueLen \<noteq> unat TLVSRPolicyCPathPreferenceValueLength
     then errorf ''SRPolicyCandidatePathPreference: invalid value length'' [int valueLen]
     else
       bindE (tlv_value data valueLen) (\<lambda>value.
       bindE (beUint32 value) (\<lambda>preference. Inr (tlv\<lparr>cpp_Preference := preference\<rparr>))))"

definition SRPolicyCandidatePathPreference_serialize ::
    "u16 \<Rightarrow> SRPolicyCandidatePathPreference \<Rightarrow> bytes result" where
  "SRPolicyCandidatePathPreference_serialize tlvType tlv =
     (let value = makeBytes (unat TLVSRPolicyCPathPreferenceValueLength) in
      bindE (putE value 0 (length value) (be32 (cpp_Preference tlv))) (\<lambda>value.
      Inr (AppendByteSlices
        [Uint16ToByteSlice tlvType, Uint16ToByteSlice TLVSRPolicyCPathPreferenceValueLength, value])))"

definition SRPolicyCandidatePathPreference_Serialize ::
    "SRPolicyCandidatePathPreference \<Rightarrow> bytes result" where
  "SRPolicyCandidatePathPreference_Serialize tlv =
     SRPolicyCandidatePathPreference_serialize TLVSRPolicyCPathPreference tlv"

definition SRPolicyCandidatePathPreferenceJuniper_Serialize ::
    "SRPolicyCandidatePathPreference \<Rightarrow> bytes result" where
  "SRPolicyCandidatePathPreferenceJuniper_Serialize tlv =
     SRPolicyCandidatePathPreference_serialize TLVSRPolicyCPathPreferenceJuniper tlv"

definition SRPolicyCandidatePathPreference_Len :: "SRPolicyCandidatePathPreference \<Rightarrow> u16" where
  "SRPolicyCandidatePathPreference_Len tlv =
     word_of_nat TLVValueOffset + TLVSRPolicyCPathPreferenceValueLength"

lemma SRPolicyCandidatePathPreference_codec:
  assumes ser: "\<And>x. ser x = SRPolicyCandidatePathPreference_serialize t x"
  shows "tlv_codec (SRPolicyCandidatePathPreference_DecodeFromBytes SRPolicyCandidatePathPreference_zero)
    ser (\<lambda>_. t) SRPolicyCandidatePathPreference_Len (\<lambda>_. True)"
proof (rule fixed_codecI [where n = 4 and val = "\<lambda>x. be32 (cpp_Preference x)"])
  fix x :: SRPolicyCandidatePathPreference
  show "ser x = Inr (tlv_header t (word_of_nat 4) @ be32 (cpp_Preference x))"
    by (simp add: ser SRPolicyCandidatePathPreference_serialize_def tlv_header_def)
  show "SRPolicyCandidatePathPreference_DecodeFromBytes SRPolicyCandidatePathPreference_zero
      (tlv_header t (word_of_nat 4) @ be32 (cpp_Preference x)) = Inr x"
    by (simp add: SRPolicyCandidatePathPreference_DecodeFromBytes_def
        SRPolicyCandidatePathPreference_zero_def)
next
  fix data
  show "SRPolicyCandidatePathPreference_DecodeFromBytes SRPolicyCandidatePathPreference_zero data \<noteq> panic"
    unfolding SRPolicyCandidatePathPreference_DecodeFromBytes_def
    by (rule decode_no_panicI) (auto simp: be_read)
qed (simp_all add: max_value_def SRPolicyCandidatePathPreference_Len_def tlv_consts)

interpretation sr_policy_cpath_preference: tlv_codec
  "SRPolicyCandidatePathPreference_DecodeFromBytes SRPolicyCandidatePathPreference_zero"
  SRPolicyCandidatePathPreference_Serialize "\<lambda>_. TLVSRPolicyCPathPreference"
  SRPolicyCandidatePathPreference_Len "\<lambda>_. True"
  by (rule SRPolicyCandidatePathPreference_codec)
    (simp add: SRPolicyCandidatePathPreference_Serialize_def)

interpretation sr_policy_cpath_preference_juniper: tlv_codec
  "SRPolicyCandidatePathPreference_DecodeFromBytes SRPolicyCandidatePathPreference_zero"
  SRPolicyCandidatePathPreferenceJuniper_Serialize "\<lambda>_. TLVSRPolicyCPathPreferenceJuniper"
  SRPolicyCandidatePathPreference_Len "\<lambda>_. True"
  by (rule SRPolicyCandidatePathPreference_codec)
    (simp add: SRPolicyCandidatePathPreferenceJuniper_Serialize_def)

section \<open>COLOR\<close>

record Color =
  col_Color :: u32

definition Color_zero :: Color where "Color_zero = \<lparr>col_Color = 0\<rparr>"

definition Color_DecodeFromBytes :: "Color \<Rightarrow> bytes \<Rightarrow> Color result" where
  "Color_DecodeFromBytes tlv data =
     bindE (wrapE ''Color'' (decodeTLVLength data False)) (\<lambda>valueLen.
     if valueLen \<noteq> unat TLVColorValueLength
     then errorf ''Color: invalid value length'' [int valueLen]
     else
       bindE (tlv_value data valueLen) (\<lambda>value.
       bindE (beUint32 value) (\<lambda>color. Inr (tlv\<lparr>col_Color := color\<rparr>))))"

definition Color_Serialize :: "Color \<Rightarrow> bytes result" where
  "Color_Serialize tlv =
     (let value = makeBytes (unat TLVColorValueLength) in
      bindE (putE value 0 (length value) (be32 (col_Color tlv))) (\<lambda>value.
      Inr (AppendByteSlices
        [Uint16ToByteSlice TLVColor, Uint16ToByteSlice TLVColorValueLength, value])))"

definition Color_Len :: "Color \<Rightarrow> u16" where
  "Color_Len tlv = word_of_nat TLVValueOffset + TLVColorValueLength"

interpretation color: tlv_codec
  "Color_DecodeFromBytes Color_zero" Color_Serialize "\<lambda>_. TLVColor" Color_Len "\<lambda>_. True"
proof (rule fixed_codecI [where n = 4 and val = "\<lambda>x. be32 (col_Color x)"])
  fix x :: Color
  show "Color_Serialize x = Inr (tlv_header TLVColor (word_of_nat 4) @ be32 (col_Color x))"
    by (simp add: Color_Serialize_def tlv_header_def)
  show "Color_DecodeFromBytes Color_zero (tlv_header TLVColor (word_of_nat 4) @ be32 (col_Color x)) = Inr x"
    by (simp add: Color_DecodeFromBytes_def Color_zero_def)
next
  fix data
  show "Color_DecodeFromBytes Color_zero data \<noteq> panic"
    unfolding Color_DecodeFromBytes_def
    by (rule decode_no_panicI) (auto simp: be_read)
qed (simp_all add: max_value_def Color_Len_def tlv_consts)

section \<open>Unknown TLVs\<close>

record UnknownTLV =
  unk_Typ :: u16
  unk_Length :: u16
  unk_Value :: bytes

definition UnknownTLV_zero :: UnknownTLV where
  "UnknownTLV_zero = \<lparr>unk_Typ = 0, unk_Length = 0, unk_Value = []\<rparr>"

definition UnknownTLV_DecodeFromBytes :: "UnknownTLV \<Rightarrow> bytes \<Rightarrow> UnknownTLV result" where
  "UnknownTLV_DecodeFromBytes tlv data =
     bindE (wrapE ''UnknownTLV'' (decodeTLVLength data True)) (\<lambda>valueLen.
     bindE (bindE (sliceE data TLVTypeOffset TLVLengthOffset) beUint16) (\<lambda>tlvType.
     bindE (tlv_value data valueLen) (\<lambda>value.
     Inr (tlv\<lparr>unk_Typ := tlvType, unk_Length := word_of_nat valueLen, unk_Value := value\<rparr>))))"

definition UnknownTLV_Serialize :: "UnknownTLV \<Rightarrow> bytes result" where
  "UnknownTLV_Serialize tlv =
     (let padding = (4 - unk_Length tlv mod 4) mod 4 in
      Inr (AppendByteSlices
        [Uint16ToByteSlice (unk_Typ tlv), Uint16ToByteSlice (unk_Length tlv), unk_Value tlv,
         makeBytes (unat padding)]))"

definition UnknownTLV_Len :: "UnknownTLV \<Rightarrow> u16" where
  "UnknownTLV_Len tlv =
     (let padding = (if unk_Length tlv mod 4 \<noteq> 0 then 4 - unk_Length tlv mod 4 else 0) in
      word_of_nat TLVValueOffset + unk_Length tlv + padding)"

definition UnknownTLV_SetLength :: "UnknownTLV \<Rightarrow> UnknownTLV" where
  "UnknownTLV_SetLength tlv = tlv\<lparr>unk_Length := word_of_nat (length (unk_Value tlv))\<rparr>"

definition UnknownTLV_ok :: "UnknownTLV \<Rightarrow> bool" where
  "UnknownTLV_ok tlv \<longleftrightarrow>
     unat (unk_Length tlv) = length (unk_Value tlv) \<and> length (unk_Value tlv) \<le> max_value"

lemma unk_padding:
  fixes w :: u16
  shows "(if w mod 4 \<noteq> 0 then 4 - w mod 4 else 0) = (4 - w mod 4) mod 4"
proof (cases "w mod 4 = 0")
  case False
  have m: "unat (w mod 4) = unat w mod 4" by (simp add: unat_mod)
  then have "unat w mod 4 \<noteq> 0" using False by (metis unat_eq_zero)
  moreover have "unat (4 - w mod 4) = 4 - unat w mod 4"
    by (simp add: unat_sub m word_le_nat_alt)
  ultimately have "unat ((4 - w mod 4) mod 4) = unat (4 - w mod 4)"
    by (simp add: unat_mod)
  with False show ?thesis by (simp add: word_unat_eq_iff)
qed simp

lemma UnknownTLV_lengths:
  assumes "UnknownTLV_ok x"
  shows "UnknownTLV_Serialize x = Inr (tlv_frame (unk_Typ x) (unk_Value x))"
    and "unat (UnknownTLV_Len x) = 4 + paddedLength (length (unk_Value x)) 4"
proof -
  let ?n = "length (unk_Value x)"
  have u: "unat (unk_Length x) = ?n" and l: "?n \<le> max_value"
    using assms by (simp_all add: UnknownTLV_ok_def)
  have w: "unk_Length x = word_of_nat ?n" by (rule word_of_nat_inverse_u16 [OF u])
  show "UnknownTLV_Serialize x = Inr (tlv_frame (unk_Typ x) (unk_Value x))"
    by (simp only: UnknownTLV_Serialize_def Let_def assoc_pad_u16 u)
      (simp add: tlv_frame_def tlv_header_def w)
  show "unat (UnknownTLV_Len x) = 4 + paddedLength ?n 4"
    using unat_padded_len(1) [OF l]
    by (simp only: UnknownTLV_Len_def Let_def unk_padding w)
qed

interpretation unknown_tlv: tlv_codec
  "UnknownTLV_DecodeFromBytes UnknownTLV_zero" UnknownTLV_Serialize unk_Typ UnknownTLV_Len UnknownTLV_ok
proof unfold_locales
  fix x assume ok: "UnknownTLV_ok x"
  let ?v = "unk_Value x"
  have u: "unat (unk_Length x) = length ?v" and l: "length ?v \<le> max_value"
    using ok by (simp_all add: UnknownTLV_ok_def)
  have v: "unat (word_of_nat (length ?v) :: u16) = length ?v"
    by (rule unat_u16_id) (use l in \<open>simp add: max_value_def\<close>)
  have "UnknownTLV_DecodeFromBytes UnknownTLV_zero
      (tlv_header (unk_Typ x) (word_of_nat (length ?v)) @ ?v) = Inr x"
    using v word_of_nat_inverse_u16 [OF u]
    by (simp add: UnknownTLV_DecodeFromBytes_def UnknownTLV_zero_def tlv_consts(1,2)
        tlv_header_def Uint16ToByteSlice_def)
       (simp add: tlv_header_def [symmetric] Uint16ToByteSlice_def [symmetric]
        flip: append_assoc)
  then show "\<exists>v. length v \<le> max_value \<and>
      UnknownTLV_Serialize x = Inr (tlv_frame (unk_Typ x) v) \<and>
      unat (UnknownTLV_Len x) = 4 + paddedLength (length v) 4 \<and>
      UnknownTLV_DecodeFromBytes UnknownTLV_zero
        (tlv_header (unk_Typ x) (word_of_nat (length v)) @ v) = Inr x"
    using l UnknownTLV_lengths [OF ok] by (intro exI [of _ ?v]) simp
next
  fix data
  show "UnknownTLV_DecodeFromBytes UnknownTLV_zero data \<noteq> panic"
    unfolding UnknownTLV_DecodeFromBytes_def
    by (rule decode_no_panicI) (auto simp: be_read tlv_consts dest!: decodeTLVLength_InrD(1))
next
  fix data x
  assume d: "UnknownTLV_DecodeFromBytes UnknownTLV_zero data = Inr x"
    and l: "length data \<le> 4 + max_value"
  from d show "UnknownTLV_ok x"
    unfolding UnknownTLV_DecodeFromBytes_def
  proof (rule decode_InrE)
    fix n val
    assume n: "tlv_value data n = Inr val" "length val = n" "n < 65536" "4 + n \<le> length data"
      and f: "bindE (bindE (sliceE data TLVTypeOffset TLVLengthOffset) beUint16) (\<lambda>tlvType.
        bindE (tlv_value data n) (\<lambda>value. Inr (UnknownTLV_zero
          \<lparr>unk_Typ := tlvType, unk_Length := word_of_nat n, unk_Value := value\<rparr>))) = Inr x"
    have "unk_Value x = val" "unk_Length x = word_of_nat n"
      using f n(1) by (auto simp: bindE_eq_Inr)
    then show ?thesis using n l unat_u16_id [OF n(3)]
      by (simp add: UnknownTLV_ok_def)
  qed
qed

end
