(* ===== verification/Tlv_Seq.thy ===== *)
theory Tlv_Seq
  imports Tlv_Path
begin

text \<open>
  All TLVs of \<open>src/pkg/packet/pcep/tlv.go\<close> as one datatype (Go's \<open>TLVInterface\<close>), the
  PATH-SETUP-TYPE-CAPABILITY TLV, whose value holds further TLVs, and the decoders of TLV
  sequences \<open>decodeTLVSequence\<close>, \<open>DecodeTLVs\<close> and \<open>DecodeVendorTLVs\<close>. The locale
  \<open>tlv_space\<close> states what a TLV type space promises; it is interpreted by the standard
  space and by the vendor space, and gives the round trip of whole sequences for both.
\<close>

abbreviation (input) TLVPathSetupTypeCapability :: u16 where "TLVPathSetupTypeCapability \<equiv> 0x22"

section \<open>TLV sequences\<close>

text \<open>\<open>(totalLen + TLVAlignment - 1) & ^(TLVAlignment - 1)\<close>\<close>

definition alignTLV :: "nat \<Rightarrow> nat" where
  "alignTLV totalLen = nat ((int totalLen + int TLVAlignment - 1) AND NOT (int TLVAlignment - 1))"

lemma and_not_mask_int: "(x :: int) AND NOT 3 = 4 * (x div 4)"
proof -
  have "x AND NOT (mask 2) = push_bit 2 (drop_bit 2 x)"
  proof (rule bit_eqI)
    fix n show "bit (x AND NOT (mask 2)) n \<longleftrightarrow> bit (push_bit 2 (drop_bit 2 x)) n"
    proof (cases "2 \<le> n")
      case True
      then obtain k where "n = 2 + k" using le_Suc_ex by blast
      then show ?thesis by (simp add: bit_simps)
    qed (simp add: bit_simps)
  qed
  then show ?thesis by (simp add: push_bit_eq_mult drop_bit_eq_div mask_eq_exp_minus_1)
qed

lemma alignTLV_eq: "alignTLV n = paddedLength n 4"
proof -
  have "alignTLV n = nat (4 * ((int n + 3) div 4))"
    using and_not_mask_int [of "int n + 3"]
    by (simp add: alignTLV_def TLVAlignment_def add.commute)
  also have "\<dots> = 4 * ((n + 3) div 4)"
  proof -
    have "(int n + 3) div 4 = int ((n + 3) div 4)" by (simp add: zdiv_int)
    then show ?thesis by simp
  qed
  finally show ?thesis by (simp add: paddedLength_4)
qed

lemma alignTLV_ge: "n \<le> alignTLV n"
  by (simp add: alignTLV_eq paddedLength_ge)

function decodeTLVSequence :: "(bytes \<Rightarrow> u16 \<Rightarrow> 'a result) \<Rightarrow> bytes \<Rightarrow> 'a list result" where
  "decodeTLVSequence decode data =
     (if data = [] then Inr []
      else if length data < TLVValueOffset then errorf ''truncated TLV header'' []
      else
        bindE (bindE (sliceE data TLVLengthOffset TLVValueOffset) beUint16) (\<lambda>len16.
        let totalLen = TLVValueOffset + unat len16 in
        bindE (bindE (sliceE data TLVTypeOffset TLVLengthOffset) beUint16) (\<lambda>tlvType.
        if length data < totalLen
        then errorf ''truncated TLV value'' [uint tlvType]
        else
          bindE (sliceE data 0 totalLen) (\<lambda>single.
          bindE (decode single tlvType) (\<lambda>tlv.
          let paddedLen = alignTLV totalLen in
          if length data < paddedLen
          then errorf ''truncated TLV padding'' [uint tlvType]
          else if list_ex (\<lambda>i. data ! i \<noteq> 0) [totalLen..<paddedLen]
          then errorf ''invalid TLV padding (expected zero bytes)'' [uint tlvType]
          else
            bindE (decodeTLVSequence decode (drop paddedLen data)) (\<lambda>tlvs.
            Inr (tlv # tlvs)))))))"
  by pat_completeness auto

termination
proof (relation "measure (\<lambda>(_, data). length data)")
  fix decode :: "bytes \<Rightarrow> u16 \<Rightarrow> 'a result" and data :: bytes and len16 total padded
  assume "data \<noteq> []" and t: "total = TLVValueOffset + unat (len16 :: u16)" and p: "padded = alignTLV total"
  moreover have "4 \<le> padded"
    using alignTLV_ge [of total] t p by (simp add: tlv_consts)
  ultimately show "((decode, drop padded data), (decode, data)) \<in> measure (\<lambda>(_, data). length data)"
    by auto
qed auto

declare decodeTLVSequence.simps [simp del]

lemma decodeTLVSequence_Nil [simp]: "decodeTLVSequence decode [] = Inr []"
  by (simp add: decodeTLVSequence.simps)

lemma decodeTLVSequence_cong [fundef_cong]:
  assumes "data = data'" and "\<And>d t. length d \<le> length data' \<Longrightarrow> f d t = g d t"
  shows "decodeTLVSequence f data = decodeTLVSequence g data'"
  unfolding assms(1) using assms(2)
proof (induction f data' rule: decodeTLVSequence.induct)
  case (1 f data)
  have f: "f single t = g single t" if "sliceE data 0 n = Inr single" for single t n
    by (rule 1(2)) (use that in \<open>auto simp: sliceE_def split: if_splits\<close>)
  show ?case
    unfolding decodeTLVSequence.simps [of f data] decodeTLVSequence.simps [of g data] Let_def
    by (rule if_cong [OF refl refl], rule if_cong [OF refl refl], (rule bindE_cong [OF refl])+,
        rule if_cong [OF refl refl], rule bindE_cong [OF refl], rule bindE_cong [OF f],
        assumption, rule if_cong [OF refl refl], rule if_cong [OF refl refl], rule bindE_cong)
      (use 1 in \<open>auto simp: f\<close>)
qed

text \<open>The shape of one encoded element, and what decoding it in front of others does.\<close>

definition framed ::
    "(bytes \<Rightarrow> u16 \<Rightarrow> 'a result) \<Rightarrow> ('a \<Rightarrow> bytes result) \<Rightarrow> ('a \<Rightarrow> u16) \<Rightarrow> 'a \<Rightarrow> bool" where
  "framed decode serialize len x \<longleftrightarrow>
     (\<exists>ty v. length v \<le> max_value \<and> serialize x = Inr (tlv_frame ty v) \<and>
        unat (len x) = 4 + paddedLength (length v) 4 \<and>
        decode (tlv_header ty (word_of_nat (length v)) @ v) ty = Inr x)"

lemma decodeTLVSequence_unfold:
  assumes "4 \<le> length data"
  shows "decodeTLVSequence decode data =
     (let n = declared_len data; ty = word_of_nat (be_nat (take 2 data)) in
      if length data < 4 + n then errorf ''truncated TLV value'' [uint ty]
      else bindE (decode (take (4 + n) data) ty) (\<lambda>tlv.
        if length data < paddedLength (4 + n) 4 then errorf ''truncated TLV padding'' [uint ty]
        else if list_ex (\<lambda>i. data ! i \<noteq> 0) [4 + n..<paddedLength (4 + n) 4]
        then errorf ''invalid TLV padding (expected zero bytes)'' [uint ty]
        else bindE (decodeTLVSequence decode (drop (paddedLength (4 + n) 4) data)) (\<lambda>tlvs.
          Inr (tlv # tlvs))))"
proof -
  have r: "bindE (sliceE data TLVLengthOffset 4) beUint16 = Inr (word_of_nat (declared_len data))"
    "bindE (sliceE data TLVTypeOffset TLVLengthOffset) beUint16 = Inr (word_of_nat (be_nat (take 2 data)))"
    using assms by (simp_all add: tlv_consts beUint16_def declared_len_def)
  have "data \<noteq> []" "\<not> length data < TLVValueOffset" using assms by (auto simp: tlv_consts)
  then show ?thesis
    by (simp add: decodeTLVSequence.simps [of decode data] r unat_declared_len alignTLV_eq
        Let_def TLVValueOffset_def cong: if_cong)
qed

lemma paddedLength_4_add: "paddedLength (4 + n) 4 = 4 + paddedLength n 4"
  unfolding paddedLength_4 by presburger

lemma padded_drop_less:
  "4 \<le> length data \<Longrightarrow> length (drop (paddedLength (4 + n) 4) data) < length data"
  by (simp add: paddedLength_4_add)

lemma decodeTLVSequence_frame:
  assumes v: "length v \<le> max_value"
    and d: "decode (tlv_header ty (word_of_nat (length v)) @ v) ty = Inr x"
  shows "decodeTLVSequence decode (tlv_frame ty v @ rest) =
    bindE (decodeTLVSequence decode rest) (\<lambda>xs. Inr (x # xs))"
proof -
  let ?data = "tlv_frame ty v @ rest"
  have l: "length v < 65536" using v by (simp add: max_value_def)
  note parts = tlv_frame_parts [OF l, of ty rest]
  have len: "length ?data = 4 + paddedLength (length v) 4 + length rest" by simp
  have ge: "length v \<le> paddedLength (length v) 4" by (rule paddedLength_ge) simp
  have z: "?data ! i = 0" if "4 + length v \<le> i" "i < 4 + paddedLength (length v) 4" for i
  proof -
    have "i - (4 + length v) < pad4 (length v)"
      using that pad4_add [of "length v"] by linarith
    moreover have "?data = (tlv_header ty (word_of_nat (length v)) @ v) @
        (makeBytes (pad4 (length v)) @ rest)"
      by (simp add: tlv_frame_def)
    moreover have "\<not> i < length (tlv_header ty (word_of_nat (length v)) @ v)"
      using that(1) by simp
    ultimately show ?thesis
      by (simp only: nth_append if_False) (simp add: nth_append makeBytes_def)
  qed
  have nz: "\<not> list_ex (\<lambda>i. ?data ! i \<noteq> 0) [4 + length v..<4 + paddedLength (length v) 4]"
    using z by (auto simp: list_ex_iff)
  have "4 \<le> length ?data" by simp
  note u = decodeTLVSequence_unfold [OF this, of decode]
  show ?thesis
    unfolding u Let_def parts be_nat_be16 paddedLength_4_add
    using ge nz d by simp
qed

lemma decodeTLVSequence_roundtrip:
  assumes "list_all (framed decode serialize len) xs"
  obtains bss where "mapE serialize xs = Inr bss" "decodeTLVSequence decode (concat bss) = Inr xs"
    "length (concat bss) = sum_list (map (unat \<circ> len) xs)" "4 dvd length (concat bss)"
  using assms
proof (induction xs arbitrary: thesis)
  case Nil
  show ?case by (rule Nil(1) [of "[]"]) auto
next
  case (Cons x xs)
  then have x: "framed decode serialize len x" and xs: "list_all (framed decode serialize len) xs"
    by auto
  obtain bss where b: "mapE serialize xs = Inr bss" "decodeTLVSequence decode (concat bss) = Inr xs"
      "length (concat bss) = sum_list (map (unat \<circ> len) xs)" "4 dvd length (concat bss)"
    using Cons.IH [OF _ xs] by blast
  obtain ty v where v: "length v \<le> max_value" "serialize x = Inr (tlv_frame ty v)"
      "unat (len x) = 4 + paddedLength (length v) 4"
      "decode (tlv_header ty (word_of_nat (length v)) @ v) ty = Inr x"
    using x unfolding framed_def by blast
  show ?case
  proof (rule Cons.prems(1) [of "tlv_frame ty v # bss"])
    show "decodeTLVSequence decode (concat (tlv_frame ty v # bss)) = Inr (x # xs)"
      using decodeTLVSequence_frame [where decode = decode, OF v(1) v(4)] b(2) by simp
    show "4 dvd length (concat (tlv_frame ty v # bss))"
      using tlv_frame_dvd [of ty v] b(4) by (simp del: length_tlv_frame)
  qed (use b v in \<open>simp_all add: comp_def\<close>)
qed

lemma decodeTLVSequence_no_panic:
  assumes "\<And>d t. decode d t \<noteq> panic"
  shows "decodeTLVSequence decode data \<noteq> panic"
proof (induction data rule: measure_induct_rule [of length])
  case (less data)
  show ?case
  proof (cases "4 \<le> length data")
    case True
    have "decodeTLVSequence decode (drop (paddedLength (4 + declared_len data) 4) data) \<noteq> panic"
      by (rule less.IH) (rule padded_drop_less [OF True])
    then show ?thesis
      using assms by (auto simp: decodeTLVSequence_unfold [OF True] Let_def bindE_eq_Inl)
  next
    case False
    then show ?thesis by (simp add: decodeTLVSequence.simps tlv_consts)
  qed
qed

text \<open>What a successful decode says about its elements.\<close>

lemma decodeTLVSequence_elements:
  assumes "decodeTLVSequence decode data = Inr xs"
    and "\<And>d t x. decode d t = Inr x \<Longrightarrow> 4 \<le> length d \<Longrightarrow> length d \<le> length data \<Longrightarrow>
           length d = 4 + declared_len d \<Longrightarrow> take 2 d = be16 t \<Longrightarrow> P x"
  shows "list_all P xs"
  using assms
proof (induction data arbitrary: xs rule: measure_induct_rule [of length])
  case (less data)
  show ?case
  proof (cases "4 \<le> length data")
    case False
    then show ?thesis using less.prems(1)
      by (cases "data = []") (auto simp: decodeTLVSequence.simps [of decode data] tlv_consts)
  next
    case True
    let ?n = "declared_len data" and ?ty = "word_of_nat (be_nat (take 2 data)) :: u16"
    let ?rest = "drop (paddedLength (4 + ?n) 4) data"
    obtain x xs' where x: "decode (take (4 + ?n) data) ?ty = Inr x" "4 + ?n \<le> length data"
        "decodeTLVSequence decode ?rest = Inr xs'" "xs = x # xs'"
      using less.prems(1)
      by (auto simp: decodeTLVSequence_unfold [OF True] Let_def bindE_eq_Inr split: if_splits)
    have r: "length ?rest < length data" by (rule padded_drop_less [OF True])
    have "be16 ?ty = take 2 data"
      using True beUint16_Inr_iff [of data ?ty] by (simp add: beUint16_def)
    then have ty: "take 2 (take (4 + ?n) data) = be16 ?ty" using x(2) by simp
    have dl: "declared_len (take (4 + ?n) data) = ?n"
      by (simp add: declared_len_def drop_take flip: numeral_2_eq_2)
    have "P x" by (rule less.prems(2) [OF x(1)]) (use x(2) True ty dl in auto)
    moreover have "list_all P xs'"
    proof (rule less.IH [OF r x(3)])
      fix d t y
      assume "decode d t = Inr y" "4 \<le> length d" "length d \<le> length ?rest"
        "length d = 4 + declared_len d" "take 2 d = be16 t"
      then show "P y" using r by (intro less.prems(2) [of d t y]) linarith+
    qed
    ultimately show ?thesis using x(4) by simp
  qed
qed

section \<open>What a TLV type space promises\<close>

locale tlv_space =
  fixes decode :: "bytes \<Rightarrow> u16 \<Rightarrow> 'a result"
    and serialize :: "'a \<Rightarrow> bytes result"
    and len :: "'a \<Rightarrow> u16"
    and ok :: "'a \<Rightarrow> bool"
  assumes elem_framed: "ok x \<Longrightarrow> framed decode serialize len x"
    and elem_no_panic: "decode data t \<noteq> panic"
    and elem_ok: "decode data t = Inr x \<Longrightarrow> length data \<le> 4 + max_value \<Longrightarrow>
      length data = 4 + declared_len data \<Longrightarrow> take 2 data = be16 t \<Longrightarrow> ok x"
begin

lemma sequence_roundtrip:
  assumes "list_all ok xs"
  shows "\<exists>bss. mapE serialize xs = Inr bss \<and> decodeTLVSequence decode (concat bss) = Inr xs \<and>
    length (concat bss) = sum_list (map (unat \<circ> len) xs)"
proof -
  have "list_all (framed decode serialize len) xs"
    using assms elem_framed by (auto simp: list_all_iff)
  then show ?thesis by (rule decodeTLVSequence_roundtrip) blast
qed

lemma sequence_no_panic: "decodeTLVSequence decode data \<noteq> panic"
  by (rule decodeTLVSequence_no_panic) (rule elem_no_panic)

lemma sequence_ok:
  "decodeTLVSequence decode data = Inr xs \<Longrightarrow> length data \<le> 4 + max_value \<Longrightarrow> list_all ok xs"
  by (erule decodeTLVSequence_elements) (auto intro: elem_ok)

lemma sequence_reencode:
  assumes "decodeTLVSequence decode data = Inr xs" "length data \<le> 4 + max_value"
  shows "\<exists>bss. mapE serialize xs = Inr bss \<and> decodeTLVSequence decode (concat bss) = Inr xs"
  using sequence_roundtrip [OF sequence_ok [OF assms]] by blast

end

section \<open>Vendor-specific TLVs\<close>

definition decodeUnknownTLV :: "bytes \<Rightarrow> u16 \<Rightarrow> UnknownTLV result" where
  "decodeUnknownTLV data tlvType =
     wrapE ''error decoding unknown TLV type'' (UnknownTLV_DecodeFromBytes UnknownTLV_zero data)"

definition DecodeVendorTLVs :: "bytes \<Rightarrow> UnknownTLV list result" where
  "DecodeVendorTLVs data = decodeTLVSequence decodeUnknownTLV data"

lemma codec_framed:
  assumes "tlv_codec dec ser ty len ok" "ok x"
    and "\<And>data. dec data = Inr x \<Longrightarrow> decode data (ty x) = Inr y"
    and "serialize y = ser x" "length' y = len x"
  shows "framed decode serialize length' y"
  using tlv_codec.roundtrip [OF assms(1,2)] assms(3-5)
  by (fastforce simp: framed_def)

interpretation vendor_space: tlv_space decodeUnknownTLV UnknownTLV_Serialize UnknownTLV_Len UnknownTLV_ok
proof
  fix x assume "UnknownTLV_ok x"
  then show "framed decodeUnknownTLV UnknownTLV_Serialize UnknownTLV_Len x"
    by (rule codec_framed [OF unknown_tlv.tlv_codec_axioms]) (simp_all add: decodeUnknownTLV_def)
next
  fix data t
  show "decodeUnknownTLV data t \<noteq> panic"
    by (simp add: decodeUnknownTLV_def unknown_tlv.decode_no_panic)
next
  fix data t x
  assume "decodeUnknownTLV data t = Inr x" "length data \<le> 4 + max_value"
  then show "UnknownTLV_ok x"
    by (auto simp: decodeUnknownTLV_def intro: unknown_tlv.decode_ok)
qed

section \<open>PATH-SETUP-TYPE-CAPABILITY\<close>

text \<open>The type of the sub-TLVs is a parameter here; below it is the type of all TLVs.\<close>

datatype 'a PathSetupTypeCapability =
  PathSetupTypeCapability (psc_PathSetupTypes: "Pst list") (psc_SubTLVs: "'a list")

abbreviation (input) PathSetupTypeCapabilityFixedPartLength :: nat where
  "PathSetupTypeCapabilityFixedPartLength \<equiv> 4"
abbreviation (input) PathSetupTypeCapabilityPSTCountOffset :: nat where
  "PathSetupTypeCapabilityPSTCountOffset \<equiv> 3"
abbreviation (input) MaxPathSetupTypes :: nat where "MaxPathSetupTypes \<equiv> 255"

definition pstCount :: "'a PathSetupTypeCapability \<Rightarrow> nat" where
  "pstCount tlv =
     (if length (psc_PathSetupTypes tlv) > MaxPathSetupTypes then MaxPathSetupTypes
      else length (psc_PathSetupTypes tlv))"

definition paddedPSTLength :: "'a PathSetupTypeCapability \<Rightarrow> u16" where
  "paddedPSTLength tlv = word_of_nat (paddedLength (pstCount tlv) TLVAlignment)"

definition PathSetupTypeCapability_DecodeFromBytes ::
    "(bytes \<Rightarrow> u16 \<Rightarrow> 'a result) \<Rightarrow> bytes \<Rightarrow> 'a PathSetupTypeCapability result" where
  "PathSetupTypeCapability_DecodeFromBytes decode data =
     bindE (wrapE ''PathSetupTypeCapability'' (decodeTLVLength data False)) (\<lambda>valueLen.
     bindE (tlv_value data valueLen) (\<lambda>value.
     if length value < PathSetupTypeCapabilityFixedPartLength
     then errorf ''PathSetupTypeCapability: value too short for fixed part'' []
     else
       bindE (indexE value PathSetupTypeCapabilityPSTCountOffset) (\<lambda>count.
       let pstNum = unat count in
       bindE (mapE (\<lambda>i. let offset = PathSetupTypeCapabilityFixedPartLength + i in
                if offset \<ge> length value
                then errorf ''PathSetupTypeCapability: value too short for PathSetupTypes entries'' []
                else indexE value offset) [0..<pstNum]) (\<lambda>psts.
       let subTLVOffset = PathSetupTypeCapabilityFixedPartLength + paddedLength pstNum TLVAlignment in
       if subTLVOffset > length value
       then errorf ''PathSetupTypeCapability: value too short for subTLVs'' []
       else
         bindE (sliceE value subTLVOffset (length value)) (\<lambda>subTLVData.
         bindE (wrapE ''PathSetupTypeCapability'' (decodeTLVSequence decode subTLVData)) (\<lambda>subs.
         Inr (PathSetupTypeCapability psts subs)))))))"

definition PathSetupTypeCapability_Serialize ::
    "('a \<Rightarrow> bytes result) \<Rightarrow> ('a \<Rightarrow> u16) \<Rightarrow> 'a PathSetupTypeCapability \<Rightarrow> bytes result" where
  "PathSetupTypeCapability_Serialize serialize len tlv =
     (let count = pstCount tlv;
          fixedPartLen = word_of_nat PathSetupTypeCapabilityFixedPartLength +
            word_of_nat (paddedLength count TLVAlignment) :: u16;
          subTLVsLen = sum_list (map len (psc_SubTLVs tlv));
          totalLen = fixedPartLen + subTLVsLen in
      bindE (setE (makeBytes (unat fixedPartLen)) PathSetupTypeCapabilityPSTCountOffset
        (word_of_nat count)) (\<lambda>value.
      bindE (copyE value PathSetupTypeCapabilityFixedPartLength
        (PathSetupTypeCapabilityFixedPartLength + count)
        (take count (psc_PathSetupTypes tlv))) (\<lambda>value.
      bindE (mapE serialize (psc_SubTLVs tlv)) (\<lambda>subTLVsBytes.
      Inr (AppendByteSlices
        [Uint16ToByteSlice TLVPathSetupTypeCapability, Uint16ToByteSlice totalLen, value,
         concat subTLVsBytes])))))"

definition PathSetupTypeCapability_Len :: "('a \<Rightarrow> u16) \<Rightarrow> 'a PathSetupTypeCapability \<Rightarrow> u16" where
  "PathSetupTypeCapability_Len len tlv =
     word_of_nat TLVValueOffset +
       (word_of_nat PathSetupTypeCapabilityFixedPartLength + paddedPSTLength tlv +
        sum_list (map len (psc_SubTLVs tlv)))"

lemma copyE_mid:
  "length pre = lo \<Longrightarrow> length src = m \<Longrightarrow> m \<le> n \<Longrightarrow>
   copyE (pre @ makeBytes n) lo (lo + m) src = Inr (pre @ src @ makeBytes (n - m))"
  by (simp add: copyE_def Let_def)

text \<open>What the sub-TLVs need to provide for a capability to survive the wire.\<close>

definition psc_value :: "'a PathSetupTypeCapability \<Rightarrow> bytes \<Rightarrow> bytes" where
  "psc_value p subs =
     [0, 0, 0, word_of_nat (length (psc_PathSetupTypes p))] @ psc_PathSetupTypes p @
     makeBytes (pad4 (length (psc_PathSetupTypes p))) @ subs"

definition psc_ok :: "('a \<Rightarrow> u16) \<Rightarrow> 'a PathSetupTypeCapability \<Rightarrow> bool" where
  "psc_ok len p \<longleftrightarrow>
     length (psc_PathSetupTypes p) \<le> MaxPathSetupTypes \<and>
     4 + paddedLength (length (psc_PathSetupTypes p)) 4 +
       sum_list (map (unat \<circ> len) (psc_SubTLVs p)) \<le> max_value"

lemma length_psc_value:
  "length (psc_value p subs) = 4 + paddedLength (length (psc_PathSetupTypes p)) 4 + length subs"
  using pad4_add [of "length (psc_PathSetupTypes p)"] by (simp add: psc_value_def)

lemma sum_list_words: "sum_list (map len xs) = (word_of_nat (sum_list (map (unat \<circ> len) xs)) :: u16)"
  by (induction xs) auto

lemma psc_Serialize_ok:
  assumes ok: "psc_ok len p" and bss: "mapE serialize (psc_SubTLVs p) = Inr bss"
    and l: "length (concat bss) = sum_list (map (unat \<circ> len) (psc_SubTLVs p))"
  shows "PathSetupTypeCapability_Serialize serialize len p =
    Inr (tlv_header TLVPathSetupTypeCapability (word_of_nat (length (psc_value p (concat bss)))) @
      psc_value p (concat bss))"
proof -
  let ?psts = "psc_PathSetupTypes p"
  let ?n = "length ?psts"
  let ?q = "paddedLength ?n 4"
  have n: "?n \<le> 255" using ok by (simp add: psc_ok_def)
  have c: "pstCount p = ?n" using n by (simp add: pstCount_def)
  have q: "?n \<le> ?q" by (rule paddedLength_ge) simp
  have small: "4 + ?q < 65536" using ok by (simp add: psc_ok_def max_value_def)
  have fixed: "unat (word_of_nat 4 + word_of_nat ?q :: u16) = 4 + ?q"
    using unat_u16_id [OF small] by simp
  have buf: "(makeBytes (4 + ?q))[3 := word_of_nat ?n] = [0, 0, 0, word_of_nat ?n] @ makeBytes ?q"
    by (simp add: makeBytes_def numeral_eq_Suc)
  have copy: "copyE ([0, 0, 0, word_of_nat ?n] @ makeBytes ?q) 4 (4 + ?n) ?psts =
      Inr ([0, 0, 0, word_of_nat ?n] @ ?psts @ makeBytes (pad4 ?n))"
    using q unfolding pad4_def by (intro copyE_mid) simp_all
  have len: "word_of_nat 4 + word_of_nat ?q + sum_list (map len (psc_SubTLVs p)) =
      (word_of_nat (length (psc_value p (concat bss))) :: u16)"
    by (simp add: sum_list_words length_psc_value l)
  show ?thesis
    using bss len
    by (simp add: PathSetupTypeCapability_Serialize_def Let_def c TLVAlignment_def fixed buf copy
        tlv_header_def psc_value_def del: of_nat_numeral copyE_exact append.append_Cons)
qed

lemma psc_read_psts:
  "4 + n \<le> length val \<Longrightarrow>
   mapE (\<lambda>i. let offset = 4 + i in if offset \<ge> length val then e else indexE val offset) [0..<n]
     = Inr (take n (drop 4 val))"
proof -
  assume l: "4 + n \<le> length val"
  have "mapE (\<lambda>i. let offset = 4 + i in if offset \<ge> length val then e else indexE val offset) [0..<n]
      = Inr (map (\<lambda>i. val ! (4 + i)) [0..<n])"
    by (rule mapE_all_Inr) (use l in simp)
  also have "map (\<lambda>i. val ! (4 + i)) [0..<n] = take n (drop 4 val)"
    by (rule nth_equalityI) (use l in auto)
  finally show ?thesis .
qed

lemma psc_decode_value:
  assumes ok: "psc_ok len p"
    and subs: "decodeTLVSequence decode bs = Inr (psc_SubTLVs p)"
    and l: "length (psc_value p bs) < 65536"
  shows "PathSetupTypeCapability_DecodeFromBytes decode
    (tlv_header ty (word_of_nat (length (psc_value p bs))) @ psc_value p bs) = Inr p"
proof -
  let ?psts = "psc_PathSetupTypes p"
  let ?n = "length ?psts"
  let ?v = "psc_value p bs"
  have n: "?n \<le> 255" using ok by (simp add: psc_ok_def)
  have u: "unat (word_of_nat (length ?v) :: u16) = length ?v" by (rule unat_u16_id [OF l])
  have c: "unat (word_of_nat ?n :: u8) = ?n" using n by (simp add: unat_u8_of_nat)
  have i: "indexE ?v 3 = Inr (word_of_nat ?n)" by (simp add: psc_value_def)
  have q: "4 + paddedLength ?n 4 = 4 + ?n + pad4 ?n" by (simp add: pad4_add)
  have psts: "take ?n (drop 4 ?v) = ?psts" by (simp add: psc_value_def)
  have rest: "drop (4 + paddedLength ?n 4) ?v = bs"
  proof -
    have "drop (4 + ?n + pad4 ?n) ?v = drop (?n + pad4 ?n) (drop 4 ?v)"
      by (simp add: add.commute add.left_commute)
    then show ?thesis unfolding q by (simp add: psc_value_def)
  qed
  have le: "4 + paddedLength ?n 4 \<le> length ?v" "4 + ?n \<le> length ?v" "\<not> length ?v < 4"
    using q by (simp_all add: length_psc_value)
  have sl: "sliceE ?v (4 + paddedLength ?n 4) (length ?v) = Inr bs"
    using le(1) rest by (simp add: sliceE_def length_psc_value)
  have "decodeTLVLength (tlv_header ty (word_of_nat (length ?v)) @ ?v) False = Inr (length ?v)"
    using decodeTLVLength_exact [of ?v "word_of_nat (length ?v)" ty False] u by simp
  then show ?thesis
    using le subs psc_read_psts [OF le(2), unfolded Let_def]
    by (simp add: PathSetupTypeCapability_DecodeFromBytes_def i c Let_def TLVAlignment_def psts sl)
qed

lemma psc_decode_cong:
  assumes "\<And>d t. length d < length data \<Longrightarrow> f d t = g d t"
  shows "PathSetupTypeCapability_DecodeFromBytes f data = PathSetupTypeCapability_DecodeFromBytes g data"
proof -
  have s: "decodeTLVSequence f sub = decodeTLVSequence g sub"
    if w: "wrapE z (decodeTLVLength data False) = Inr n" and "tlv_value data n = Inr val"
      "sliceE val k (length val) = Inr sub"
    for z n val k sub
  proof (rule decodeTLVSequence_cong [OF refl])
    fix d :: bytes and t :: u16
    assume "length d \<le> length sub"
    moreover have "length sub \<le> length val"
      using sliceE_Inr_length [OF that(3)] by simp
    moreover have "decodeTLVLength data False = Inr n" using w by simp
    then have "4 + length val \<le> length data"
      using decodeTLVLength_InrD(1) [of data False n] that(2)
      by (auto simp: tlv_value_def tlv_consts sliceE_def split: if_splits)
    ultimately show "f d t = g d t" by (intro assms) linarith
  qed
  show ?thesis
    unfolding PathSetupTypeCapability_DecodeFromBytes_def Let_def
    by (rule bindE_cong [OF refl], rule bindE_cong [OF refl], rule if_cong [OF refl refl],
        rule bindE_cong [OF refl], rule bindE_cong [OF refl], rule if_cong [OF refl refl],
        rule bindE_cong [OF refl], rule bindE_cong [OF arg_cong [OF s] refl])
qed

lemma psc_decode_no_panic:
  assumes "\<And>d t. length d < length data \<Longrightarrow> decode d t \<noteq> panic"
  shows "PathSetupTypeCapability_DecodeFromBytes decode data \<noteq> panic"
proof -
  define g where "g d t = (if length d < length data then decode d t else Inr undefined)" for d t
  have g: "g d t \<noteq> panic" for d t using assms by (simp add: g_def)
  have "PathSetupTypeCapability_DecodeFromBytes g data \<noteq> panic"
    unfolding PathSetupTypeCapability_DecodeFromBytes_def
  proof (rule decode_no_panicI)
    fix n val
    assume v: "tlv_value data n = Inr val" "length val = n"
    have m: "mapE (\<lambda>i. let offset = 4 + i in if offset \<ge> length val then errorf s a else indexE val offset)
        [0..<m] \<noteq> panic" for m s a
      by (rule mapE_no_panic) (simp add: Let_def)
    show "bindE (tlv_value data n) (\<lambda>value.
       if length value < PathSetupTypeCapabilityFixedPartLength
       then errorf ''PathSetupTypeCapability: value too short for fixed part'' []
       else
       bindE (indexE value PathSetupTypeCapabilityPSTCountOffset) (\<lambda>count.
       let pstNum = unat count in
       bindE (mapE (\<lambda>i. let offset = PathSetupTypeCapabilityFixedPartLength + i in
                if offset \<ge> length value
                then errorf ''PathSetupTypeCapability: value too short for PathSetupTypes entries'' []
                else indexE value offset) [0..<pstNum]) (\<lambda>psts.
       let subTLVOffset = PathSetupTypeCapabilityFixedPartLength + paddedLength pstNum TLVAlignment in
       if subTLVOffset > length value
       then errorf ''PathSetupTypeCapability: value too short for subTLVs'' []
       else
         bindE (sliceE value subTLVOffset (length value)) (\<lambda>subTLVData.
         bindE (wrapE ''PathSetupTypeCapability'' (decodeTLVSequence g subTLVData)) (\<lambda>subs.
         Inr (PathSetupTypeCapability psts subs)))))) \<noteq> panic"
      using v m decodeTLVSequence_no_panic [of g, OF g]
      by (auto simp: Let_def bindE_eq_Inl sliceE_def indexE_def)
  qed
  moreover have "PathSetupTypeCapability_DecodeFromBytes g data
      = PathSetupTypeCapability_DecodeFromBytes decode data"
    by (rule psc_decode_cong) (simp add: g_def)
  ultimately show ?thesis by simp
qed

section \<open>All TLVs\<close>

text \<open>
  \<open>TLVInterface\<close>: one constructor for each concrete type. The Juniper types embed their
  standard counterparts and so carry the same fields.
\<close>

datatype tlv =
    TLV_VendorInformation VendorInformation
  | TLV_StatefulPCECapability StatefulPCECapability
  | TLV_SymbolicPathName SymbolicPathName
  | TLV_IPv4LSPIdentifiers IPv4LSPIdentifiers
  | TLV_IPv6LSPIdentifiers IPv6LSPIdentifiers
  | TLV_LSPDBVersion LSPDBVersion
  | TLV_SRPCECapability SRPCECapability
  | TLV_SRv6PCECapability SRv6PCECapability
  | TLV_MultipathCapability MultipathCapability
  | TLV_PathSetupType PathSetupType
  | TLV_ExtendedAssociationID ExtendedAssociationID
  | TLV_AssocTypeList AssocTypeList
  | TLV_SRPolicyCandidatePathIdentifier SRPolicyCandidatePathIdentifier
  | TLV_SRPolicyCandidatePathPreference SRPolicyCandidatePathPreference
  | TLV_Color Color
  | TLV_ExtendedAssociationIDIPv4Juniper ExtendedAssociationID
  | TLV_SRPolicyCandidatePathIdentifierJuniper SRPolicyCandidatePathIdentifier
  | TLV_SRPolicyCandidatePathPreferenceJuniper SRPolicyCandidatePathPreference
  | TLV_PathSetupTypeCapability "tlv PathSetupTypeCapability"
  | TLV_Unknown UnknownTLV

text \<open>
  \<open>tlvMap\<close>: the decoder of each registered type; \<open>decode\<close> is the decoder of sub-TLVs.
\<close>

definition tlvMap :: "(bytes \<Rightarrow> u16 \<Rightarrow> tlv result) \<Rightarrow> u16 \<Rightarrow> (bytes \<Rightarrow> tlv result) option" where
  "tlvMap decode tlvType =
     (if tlvType = TLVVendorInformation then Some (\<lambda>data.
        bindE (VendorInformation_DecodeFromBytes VendorInformation_zero data) (\<lambda>x. Inr (TLV_VendorInformation x)))
      else if tlvType = TLVStatefulPCECapability then Some (\<lambda>data.
        bindE (StatefulPCECapability_DecodeFromBytes StatefulPCECapability_zero data) (\<lambda>x. Inr (TLV_StatefulPCECapability x)))
      else if tlvType = TLVSymbolicPathName then Some (\<lambda>data.
        bindE (SymbolicPathName_DecodeFromBytes SymbolicPathName_zero data) (\<lambda>x. Inr (TLV_SymbolicPathName x)))
      else if tlvType = TLVIPv4LSPIdentifiers then Some (\<lambda>data.
        bindE (IPv4LSPIdentifiers_DecodeFromBytes IPv4LSPIdentifiers_zero data) (\<lambda>x. Inr (TLV_IPv4LSPIdentifiers x)))
      else if tlvType = TLVIPv6LSPIdentifiers then Some (\<lambda>data.
        bindE (IPv6LSPIdentifiers_DecodeFromBytes IPv6LSPIdentifiers_zero data) (\<lambda>x. Inr (TLV_IPv6LSPIdentifiers x)))
      else if tlvType = TLVLSPDBVersion then Some (\<lambda>data.
        bindE (LSPDBVersion_DecodeFromBytes LSPDBVersion_zero data) (\<lambda>x. Inr (TLV_LSPDBVersion x)))
      else if tlvType = TLVSRPCECapability then Some (\<lambda>data.
        bindE (SRPCECapability_DecodeFromBytes SRPCECapability_zero data) (\<lambda>x. Inr (TLV_SRPCECapability x)))
      else if tlvType = TLVSRv6PCECapability then Some (\<lambda>data.
        bindE (SRv6PCECapability_DecodeFromBytes SRv6PCECapability_zero data) (\<lambda>x. Inr (TLV_SRv6PCECapability x)))
      else if tlvType = TLVMultipathCap then Some (\<lambda>data.
        bindE (MultipathCapability_DecodeFromBytes MultipathCapability_zero data) (\<lambda>x. Inr (TLV_MultipathCapability x)))
      else if tlvType = TLVPathSetupType then Some (\<lambda>data.
        bindE (PathSetupType_DecodeFromBytes PathSetupType_zero data) (\<lambda>x. Inr (TLV_PathSetupType x)))
      else if tlvType = TLVExtendedAssociationID then Some (\<lambda>data.
        bindE (ExtendedAssociationID_DecodeFromBytes ExtendedAssociationID_zero data) (\<lambda>x. Inr (TLV_ExtendedAssociationID x)))
      else if tlvType = TLVAssocTypeList then Some (\<lambda>data.
        bindE (AssocTypeList_DecodeFromBytes AssocTypeList_zero data) (\<lambda>x. Inr (TLV_AssocTypeList x)))
      else if tlvType = TLVSRPolicyCPathID then Some (\<lambda>data.
        bindE (SRPolicyCandidatePathIdentifier_DecodeFromBytes SRPolicyCandidatePathIdentifier_zero data) (\<lambda>x. Inr (TLV_SRPolicyCandidatePathIdentifier x)))
      else if tlvType = TLVSRPolicyCPathPreference then Some (\<lambda>data.
        bindE (SRPolicyCandidatePathPreference_DecodeFromBytes SRPolicyCandidatePathPreference_zero data) (\<lambda>x. Inr (TLV_SRPolicyCandidatePathPreference x)))
      else if tlvType = TLVColor then Some (\<lambda>data.
        bindE (Color_DecodeFromBytes Color_zero data) (\<lambda>x. Inr (TLV_Color x)))
      else if tlvType = TLVExtendedAssociationIDIPv4Juniper then Some (\<lambda>data.
        bindE (ExtendedAssociationIDIPv4Juniper_DecodeFromBytes ExtendedAssociationID_zero data) (\<lambda>x. Inr (TLV_ExtendedAssociationIDIPv4Juniper x)))
      else if tlvType = TLVSRPolicyCPathIDJuniper then Some (\<lambda>data.
        bindE (SRPolicyCandidatePathIdentifier_DecodeFromBytes SRPolicyCandidatePathIdentifier_zero data) (\<lambda>x. Inr (TLV_SRPolicyCandidatePathIdentifierJuniper x)))
      else if tlvType = TLVSRPolicyCPathPreferenceJuniper then Some (\<lambda>data.
        bindE (SRPolicyCandidatePathPreference_DecodeFromBytes SRPolicyCandidatePathPreference_zero data) (\<lambda>x. Inr (TLV_SRPolicyCandidatePathPreferenceJuniper x)))
      else if tlvType = TLVPathSetupTypeCapability then Some (\<lambda>data.
        bindE (PathSetupTypeCapability_DecodeFromBytes decode data) (\<lambda>x. Inr (TLV_PathSetupTypeCapability x)))
      else None)"

definition decodeTLV_step :: "(bytes \<Rightarrow> u16 \<Rightarrow> tlv result) \<Rightarrow> bytes \<Rightarrow> u16 \<Rightarrow> tlv result" where
  "decodeTLV_step decode data tlvType =
     (case tlvMap decode tlvType of
        None \<Rightarrow> bindE (decodeUnknownTLV data tlvType) (\<lambda>x. Inr (TLV_Unknown x))
      | Some createTLV \<Rightarrow> wrapE ''error decoding TLV type'' (createTLV data))"

lemma decodeTLV_step_cong [fundef_cong]:
  assumes "data = data'" "tlvType = tlvType'"
    and "\<And>d t. length d < length data' \<Longrightarrow> f d t = g d t"
  shows "decodeTLV_step f data tlvType = decodeTLV_step g data' tlvType'"
  using psc_decode_cong [of data' f g, OF assms(3)]
  by (simp add: decodeTLV_step_def tlvMap_def assms(1,2))

function decodeTLV :: "bytes \<Rightarrow> u16 \<Rightarrow> tlv result" where
  "decodeTLV data tlvType = decodeTLV_step decodeTLV data tlvType"
  by pat_completeness auto

termination
  by (relation "measure (\<lambda>(data, _). length data)") auto

declare decodeTLV.simps [simp del]

definition DecodeTLV :: "bytes \<Rightarrow> tlv result" where
  "DecodeTLV data =
     (if length data < 2 then errorf ''insufficient data to read TLV type'' []
      else bindE (bindE (sliceE data 0 2) beUint16) (\<lambda>tlvType. decodeTLV data tlvType))"

definition DecodeTLVs :: "bytes \<Rightarrow> tlv list result" where
  "DecodeTLVs data = decodeTLVSequence decodeTLV data"

subsection \<open>The methods of the interface\<close>

lemma psc_sub_size: "x \<in> set (psc_SubTLVs p) \<Longrightarrow> size x < size (TLV_PathSetupTypeCapability p)"
  using size_list_estimation' [of x "psc_SubTLVs p" "size x" size]
  by (cases p) simp

lemma psc_Len_cong [fundef_cong]:
  "p = q \<Longrightarrow> (\<And>x. x \<in> set (psc_SubTLVs q) \<Longrightarrow> f x = g x) \<Longrightarrow>
   PathSetupTypeCapability_Len f p = PathSetupTypeCapability_Len g q"
  by (simp add: PathSetupTypeCapability_Len_def cong: map_cong)

lemma psc_Serialize_cong [fundef_cong]:
  assumes "p = q" "len = len'" "\<And>x. x \<in> set (psc_SubTLVs q) \<Longrightarrow> f x = g x"
  shows "PathSetupTypeCapability_Serialize f len p = PathSetupTypeCapability_Serialize g len' q"
  using mapE_cong [OF refl, of "psc_SubTLVs q" f g] assms
  by (simp add: PathSetupTypeCapability_Serialize_def)

fun tlv_Type :: "tlv \<Rightarrow> u16" where
  "tlv_Type (TLV_VendorInformation x) = TLVVendorInformation"
| "tlv_Type (TLV_StatefulPCECapability x) = TLVStatefulPCECapability"
| "tlv_Type (TLV_SymbolicPathName x) = TLVSymbolicPathName"
| "tlv_Type (TLV_IPv4LSPIdentifiers x) = TLVIPv4LSPIdentifiers"
| "tlv_Type (TLV_IPv6LSPIdentifiers x) = TLVIPv6LSPIdentifiers"
| "tlv_Type (TLV_LSPDBVersion x) = TLVLSPDBVersion"
| "tlv_Type (TLV_SRPCECapability x) = TLVSRPCECapability"
| "tlv_Type (TLV_SRv6PCECapability x) = TLVSRv6PCECapability"
| "tlv_Type (TLV_MultipathCapability x) = TLVMultipathCap"
| "tlv_Type (TLV_PathSetupType x) = TLVPathSetupType"
| "tlv_Type (TLV_ExtendedAssociationID x) = TLVExtendedAssociationID"
| "tlv_Type (TLV_AssocTypeList x) = TLVAssocTypeList"
| "tlv_Type (TLV_SRPolicyCandidatePathIdentifier x) = TLVSRPolicyCPathID"
| "tlv_Type (TLV_SRPolicyCandidatePathPreference x) = TLVSRPolicyCPathPreference"
| "tlv_Type (TLV_Color x) = TLVColor"
| "tlv_Type (TLV_ExtendedAssociationIDIPv4Juniper x) = TLVExtendedAssociationIDIPv4Juniper"
| "tlv_Type (TLV_SRPolicyCandidatePathIdentifierJuniper x) = TLVSRPolicyCPathIDJuniper"
| "tlv_Type (TLV_SRPolicyCandidatePathPreferenceJuniper x) = TLVSRPolicyCPathPreferenceJuniper"
| "tlv_Type (TLV_PathSetupTypeCapability x) = TLVPathSetupTypeCapability"
| "tlv_Type (TLV_Unknown x) = unk_Typ x"

function tlv_Len :: "tlv \<Rightarrow> u16" where
  "tlv_Len (TLV_VendorInformation x) = VendorInformation_Len x"
| "tlv_Len (TLV_StatefulPCECapability x) = StatefulPCECapability_Len x"
| "tlv_Len (TLV_SymbolicPathName x) = SymbolicPathName_Len x"
| "tlv_Len (TLV_IPv4LSPIdentifiers x) = IPv4LSPIdentifiers_Len x"
| "tlv_Len (TLV_IPv6LSPIdentifiers x) = IPv6LSPIdentifiers_Len x"
| "tlv_Len (TLV_LSPDBVersion x) = LSPDBVersion_Len x"
| "tlv_Len (TLV_SRPCECapability x) = SRPCECapability_Len x"
| "tlv_Len (TLV_SRv6PCECapability x) = SRv6PCECapability_Len x"
| "tlv_Len (TLV_MultipathCapability x) = MultipathCapability_Len x"
| "tlv_Len (TLV_PathSetupType x) = PathSetupType_Len x"
| "tlv_Len (TLV_ExtendedAssociationID x) = ExtendedAssociationID_Len x"
| "tlv_Len (TLV_AssocTypeList x) = AssocTypeList_Len x"
| "tlv_Len (TLV_SRPolicyCandidatePathIdentifier x) = SRPolicyCandidatePathIdentifier_Len x"
| "tlv_Len (TLV_SRPolicyCandidatePathPreference x) = SRPolicyCandidatePathPreference_Len x"
| "tlv_Len (TLV_Color x) = Color_Len x"
| "tlv_Len (TLV_ExtendedAssociationIDIPv4Juniper x) = ExtendedAssociationIDIPv4Juniper_Len x"
| "tlv_Len (TLV_SRPolicyCandidatePathIdentifierJuniper x) = SRPolicyCandidatePathIdentifier_Len x"
| "tlv_Len (TLV_SRPolicyCandidatePathPreferenceJuniper x) = SRPolicyCandidatePathPreference_Len x"
| "tlv_Len (TLV_PathSetupTypeCapability x) = PathSetupTypeCapability_Len tlv_Len x"
| "tlv_Len (TLV_Unknown x) = UnknownTLV_Len x"
  by pat_completeness auto

termination
  by (relation "measure size") (use psc_sub_size in auto)

function tlv_Serialize :: "tlv \<Rightarrow> bytes result" where
  "tlv_Serialize (TLV_VendorInformation x) = VendorInformation_Serialize x"
| "tlv_Serialize (TLV_StatefulPCECapability x) = StatefulPCECapability_Serialize x"
| "tlv_Serialize (TLV_SymbolicPathName x) = SymbolicPathName_Serialize x"
| "tlv_Serialize (TLV_IPv4LSPIdentifiers x) = IPv4LSPIdentifiers_Serialize x"
| "tlv_Serialize (TLV_IPv6LSPIdentifiers x) = IPv6LSPIdentifiers_Serialize x"
| "tlv_Serialize (TLV_LSPDBVersion x) = LSPDBVersion_Serialize x"
| "tlv_Serialize (TLV_SRPCECapability x) = SRPCECapability_Serialize x"
| "tlv_Serialize (TLV_SRv6PCECapability x) = SRv6PCECapability_Serialize x"
| "tlv_Serialize (TLV_MultipathCapability x) = MultipathCapability_Serialize x"
| "tlv_Serialize (TLV_PathSetupType x) = PathSetupType_Serialize x"
| "tlv_Serialize (TLV_ExtendedAssociationID x) = ExtendedAssociationID_Serialize x"
| "tlv_Serialize (TLV_AssocTypeList x) = AssocTypeList_Serialize x"
| "tlv_Serialize (TLV_SRPolicyCandidatePathIdentifier x) = SRPolicyCandidatePathIdentifier_Serialize x"
| "tlv_Serialize (TLV_SRPolicyCandidatePathPreference x) = SRPolicyCandidatePathPreference_Serialize x"
| "tlv_Serialize (TLV_Color x) = Color_Serialize x"
| "tlv_Serialize (TLV_ExtendedAssociationIDIPv4Juniper x) = ExtendedAssociationIDIPv4Juniper_Serialize x"
| "tlv_Serialize (TLV_SRPolicyCandidatePathIdentifierJuniper x) = SRPolicyCandidatePathIdentifierJuniper_Serialize x"
| "tlv_Serialize (TLV_SRPolicyCandidatePathPreferenceJuniper x) = SRPolicyCandidatePathPreferenceJuniper_Serialize x"
| "tlv_Serialize (TLV_PathSetupTypeCapability x) =
     PathSetupTypeCapability_Serialize tlv_Serialize tlv_Len x"
| "tlv_Serialize (TLV_Unknown x) = UnknownTLV_Serialize x"
  by pat_completeness auto

termination
  by (relation "measure size") (use psc_sub_size in auto)

text \<open>
  The TLVs the wire format can hold: every field in range, sub-TLVs included, and an
  \<open>UnknownTLV\<close> of a type that no decoder is registered for.
\<close>

definition registered :: "u16 \<Rightarrow> bool" where
  "registered tlvType \<longleftrightarrow> tlvMap decodeTLV tlvType \<noteq> None"

function tlv_ok :: "tlv \<Rightarrow> bool" where
  "tlv_ok (TLV_VendorInformation x) = VendorInformation_ok x"
| "tlv_ok (TLV_StatefulPCECapability x) = StatefulPCECapability_ok x"
| "tlv_ok (TLV_SymbolicPathName x) = SymbolicPathName_ok x"
| "tlv_ok (TLV_IPv4LSPIdentifiers x) = IPv4LSPIdentifiers_ok x"
| "tlv_ok (TLV_IPv6LSPIdentifiers x) = IPv6LSPIdentifiers_ok x"
| "tlv_ok (TLV_LSPDBVersion x) = True"
| "tlv_ok (TLV_SRPCECapability x) = True"
| "tlv_ok (TLV_SRv6PCECapability x) = True"
| "tlv_ok (TLV_MultipathCapability x) = True"
| "tlv_ok (TLV_PathSetupType x) = True"
| "tlv_ok (TLV_ExtendedAssociationID x) = ExtendedAssociationID_ok x"
| "tlv_ok (TLV_AssocTypeList x) = AssocTypeList_ok x"
| "tlv_ok (TLV_SRPolicyCandidatePathIdentifier x) = SRPolicyCandidatePathIdentifier_ok x"
| "tlv_ok (TLV_SRPolicyCandidatePathPreference x) = True"
| "tlv_ok (TLV_Color x) = True"
| "tlv_ok (TLV_ExtendedAssociationIDIPv4Juniper x) = ExtendedAssociationIDIPv4Juniper_ok x"
| "tlv_ok (TLV_SRPolicyCandidatePathIdentifierJuniper x) = SRPolicyCandidatePathIdentifier_ok x"
| "tlv_ok (TLV_SRPolicyCandidatePathPreferenceJuniper x) = True"
| "tlv_ok (TLV_PathSetupTypeCapability x) =
     (psc_ok tlv_Len x \<and> list_all tlv_ok (psc_SubTLVs x))"
| "tlv_ok (TLV_Unknown x) = (UnknownTLV_ok x \<and> \<not> registered (unk_Typ x))"
  by pat_completeness auto

termination
  by (relation "measure size") (use psc_sub_size in auto)

lemma tlvMap_registered:
  "tlvMap decode ty = None \<longleftrightarrow> \<not> registered ty"
  by (simp add: registered_def tlvMap_def)

lemma decodeTLV_unregistered:
  "\<not> registered ty \<Longrightarrow>
   decodeTLV data ty = bindE (decodeUnknownTLV data ty) (\<lambda>x. Inr (TLV_Unknown x))"
  using tlvMap_registered [of decodeTLV ty] by (simp add: decodeTLV.simps decodeTLV_step_def)

lemma tlv_framed_via:
  assumes "tlv_codec dec ser (\<lambda>_. ty) len ok" "ok x"
    and "tlvMap decodeTLV ty = Some (\<lambda>data. bindE (dec data) (\<lambda>x. Inr (C x)))"
    and "tlv_Serialize (C x) = ser x" "tlv_Len (C x) = len x"
  shows "framed decodeTLV tlv_Serialize tlv_Len (C x)"
  using codec_framed [OF assms(1,2), of decodeTLV "C x" tlv_Serialize tlv_Len] assms(3-5)
  by (simp add: decodeTLV.simps decodeTLV_step_def)

lemmas tlv_codecs =
  vendor_information.tlv_codec_axioms
  stateful_pce_capability.tlv_codec_axioms
  symbolic_path_name.tlv_codec_axioms
  ipv4_lsp_identifiers.tlv_codec_axioms
  ipv6_lsp_identifiers.tlv_codec_axioms
  lsp_db_version.tlv_codec_axioms
  sr_pce_capability.tlv_codec_axioms
  srv6_pce_capability.tlv_codec_axioms
  multipath_capability.tlv_codec_axioms
  path_setup_type.tlv_codec_axioms
  extended_association_id.tlv_codec_axioms
  assoc_type_list.tlv_codec_axioms
  sr_policy_cpath_id.tlv_codec_axioms
  sr_policy_cpath_preference.tlv_codec_axioms
  color.tlv_codec_axioms
  extended_association_id_juniper.tlv_codec_axioms
  sr_policy_cpath_id_juniper.tlv_codec_axioms
  sr_policy_cpath_preference_juniper.tlv_codec_axioms

lemma tlv_framed: "tlv_ok x \<Longrightarrow> framed decodeTLV tlv_Serialize tlv_Len x"
proof (induction x rule: tlv_ok.induct)
  case (1 x)
  show ?case
    by (rule tlv_framed_via [OF vendor_information.tlv_codec_axioms]) (use 1 in \<open>simp_all add: tlvMap_def\<close>)
next
  case (2 x)
  show ?case
    by (rule tlv_framed_via [OF stateful_pce_capability.tlv_codec_axioms]) (use 2 in \<open>simp_all add: tlvMap_def\<close>)
next
  case (3 x)
  show ?case
    by (rule tlv_framed_via [OF symbolic_path_name.tlv_codec_axioms]) (use 3 in \<open>simp_all add: tlvMap_def\<close>)
next
  case (4 x)
  show ?case
    by (rule tlv_framed_via [OF ipv4_lsp_identifiers.tlv_codec_axioms]) (use 4 in \<open>simp_all add: tlvMap_def\<close>)
next
  case (5 x)
  show ?case
    by (rule tlv_framed_via [OF ipv6_lsp_identifiers.tlv_codec_axioms]) (use 5 in \<open>simp_all add: tlvMap_def\<close>)
next
  case (6 x)
  show ?case
    by (rule tlv_framed_via [OF lsp_db_version.tlv_codec_axioms]) (use 6 in \<open>simp_all add: tlvMap_def\<close>)
next
  case (7 x)
  show ?case
    by (rule tlv_framed_via [OF sr_pce_capability.tlv_codec_axioms]) (use 7 in \<open>simp_all add: tlvMap_def\<close>)
next
  case (8 x)
  show ?case
    by (rule tlv_framed_via [OF srv6_pce_capability.tlv_codec_axioms]) (use 8 in \<open>simp_all add: tlvMap_def\<close>)
next
  case (9 x)
  show ?case
    by (rule tlv_framed_via [OF multipath_capability.tlv_codec_axioms]) (use 9 in \<open>simp_all add: tlvMap_def\<close>)
next
  case (10 x)
  show ?case
    by (rule tlv_framed_via [OF path_setup_type.tlv_codec_axioms]) (use 10 in \<open>simp_all add: tlvMap_def\<close>)
next
  case (11 x)
  show ?case
    by (rule tlv_framed_via [OF extended_association_id.tlv_codec_axioms]) (use 11 in \<open>simp_all add: tlvMap_def\<close>)
next
  case (12 x)
  show ?case
    by (rule tlv_framed_via [OF assoc_type_list.tlv_codec_axioms]) (use 12 in \<open>simp_all add: tlvMap_def\<close>)
next
  case (13 x)
  show ?case
    by (rule tlv_framed_via [OF sr_policy_cpath_id.tlv_codec_axioms]) (use 13 in \<open>simp_all add: tlvMap_def\<close>)
next
  case (14 x)
  show ?case
    by (rule tlv_framed_via [OF sr_policy_cpath_preference.tlv_codec_axioms]) (use 14 in \<open>simp_all add: tlvMap_def\<close>)
next
  case (15 x)
  show ?case
    by (rule tlv_framed_via [OF color.tlv_codec_axioms]) (use 15 in \<open>simp_all add: tlvMap_def\<close>)
next
  case (16 x)
  show ?case
    by (rule tlv_framed_via [OF extended_association_id_juniper.tlv_codec_axioms]) (use 16 in \<open>simp_all add: tlvMap_def\<close>)
next
  case (17 x)
  show ?case
    by (rule tlv_framed_via [OF sr_policy_cpath_id_juniper.tlv_codec_axioms]) (use 17 in \<open>simp_all add: tlvMap_def\<close>)
next
  case (18 x)
  show ?case
    by (rule tlv_framed_via [OF sr_policy_cpath_preference_juniper.tlv_codec_axioms]) (use 18 in \<open>simp_all add: tlvMap_def\<close>)
next
  case (19 p)
  then have ok: "psc_ok tlv_Len p"
    and subs: "list_all (framed decodeTLV tlv_Serialize tlv_Len) (psc_SubTLVs p)"
    by (auto simp: list_all_iff)
  obtain bss where b: "mapE tlv_Serialize (psc_SubTLVs p) = Inr bss"
      "decodeTLVSequence decodeTLV (concat bss) = Inr (psc_SubTLVs p)"
      "length (concat bss) = sum_list (map (unat \<circ> tlv_Len) (psc_SubTLVs p))"
      "4 dvd length (concat bss)"
    using decodeTLVSequence_roundtrip [OF subs] by blast
  let ?v = "psc_value p (concat bss)"
  let ?q = "paddedLength (length (psc_PathSetupTypes p)) 4"
  have l: "length ?v \<le> max_value"
    using ok b(3) by (simp add: length_psc_value psc_ok_def)
  have dvd: "4 dvd length ?v"
    using b(4) paddedLength_dvd [of 4 "length (psc_PathSetupTypes p)"] by (simp add: length_psc_value)
  then have pad: "paddedLength (length ?v) 4 = length ?v" by (simp add: paddedLength_def)
  have l16: "length ?v < 65536" using l by (simp add: max_value_def)
  have m: "length ?v mod 4 = 0" using dvd by simp
  have ser: "tlv_Serialize (TLV_PathSetupTypeCapability p) = Inr (tlv_frame TLVPathSetupTypeCapability ?v)"
    using psc_Serialize_ok [OF ok b(1,3)] tlv_frame_aligned [OF m l16 refl] by simp
  have c: "pstCount p = length (psc_PathSetupTypes p)"
    using ok by (simp add: pstCount_def psc_ok_def)
  have "tlv_Len (TLV_PathSetupTypeCapability p) = word_of_nat (4 + length ?v)"
    by (simp add: PathSetupTypeCapability_Len_def paddedPSTLength_def c sum_list_words
        length_psc_value b(3) tlv_consts)
  then have len: "unat (tlv_Len (TLV_PathSetupTypeCapability p)) = 4 + paddedLength (length ?v) 4"
    using unat_u16_id [of "4 + length ?v"] l pad by (simp add: max_value_def del: of_nat_add)
  have "decodeTLV (tlv_header TLVPathSetupTypeCapability (word_of_nat (length ?v)) @ ?v)
      TLVPathSetupTypeCapability = Inr (TLV_PathSetupTypeCapability p)"
    using psc_decode_value [OF ok b(2) l16] by (simp add: decodeTLV.simps decodeTLV_step_def tlvMap_def)
  with l ser len show ?case unfolding framed_def by blast
next
  case (20 x)
  then have r: "\<not> registered (unk_Typ x)" by simp
  show ?case
    by (rule codec_framed [OF unknown_tlv.tlv_codec_axioms])
      (use 20 in \<open>simp_all add: decodeTLV_unregistered [OF r] decodeUnknownTLV_def\<close>)
qed

lemmas tlv_decode_no_panic =
  vendor_information.decode_no_panic
  stateful_pce_capability.decode_no_panic
  symbolic_path_name.decode_no_panic
  ipv4_lsp_identifiers.decode_no_panic
  ipv6_lsp_identifiers.decode_no_panic
  lsp_db_version.decode_no_panic
  sr_pce_capability.decode_no_panic
  srv6_pce_capability.decode_no_panic
  multipath_capability.decode_no_panic
  path_setup_type.decode_no_panic
  extended_association_id.decode_no_panic
  assoc_type_list.decode_no_panic
  sr_policy_cpath_id.decode_no_panic
  sr_policy_cpath_preference.decode_no_panic
  color.decode_no_panic
  extended_association_id_juniper.decode_no_panic
  sr_policy_cpath_id_juniper.decode_no_panic
  sr_policy_cpath_preference_juniper.decode_no_panic

lemma tlvMap_no_panic:
  assumes "tlvMap decode ty = Some dec" and "\<And>d t. length d < length data \<Longrightarrow> decode d t \<noteq> panic"
  shows "dec data \<noteq> panic"
  using assms(1) psc_decode_no_panic [OF assms(2)]
  by (auto simp: tlvMap_def bindE_eq_Inl tlv_decode_no_panic split: if_split_asm)

lemma decodeTLV_no_panic: "decodeTLV data ty \<noteq> panic"
proof (induction data arbitrary: ty rule: measure_induct_rule [of length])
  case (less data)
  show ?case
  proof (cases "tlvMap decodeTLV ty")
    case None
    then show ?thesis
      by (simp add: decodeTLV.simps decodeTLV_step_def bindE_eq_Inl vendor_space.elem_no_panic)
  next
    case (Some dec)
    then show ?thesis
      using tlvMap_no_panic [OF Some less.IH]
      by (simp add: decodeTLV.simps decodeTLV_step_def)
  qed
qed

lemma psc_decode_InrD:
  assumes "PathSetupTypeCapability_DecodeFromBytes decode data = Inr p"
  obtains sub n where "decodeTLVSequence decode sub = Inr (psc_SubTLVs p)"
    "length data = 4 + n" "length sub + 4 + paddedLength (length (psc_PathSetupTypes p)) 4 = n"
    "length (psc_PathSetupTypes p) \<le> MaxPathSetupTypes"
proof -
  obtain n val where v: "decodeTLVLength data False = Inr n" "tlv_value data n = Inr val" "length val = n"
    and f: "bindE (tlv_value data n) (\<lambda>value.
       if length value < PathSetupTypeCapabilityFixedPartLength
       then errorf ''PathSetupTypeCapability: value too short for fixed part'' []
       else
       bindE (indexE value PathSetupTypeCapabilityPSTCountOffset) (\<lambda>count.
       let pstNum = unat count in
       bindE (mapE (\<lambda>i. let offset = PathSetupTypeCapabilityFixedPartLength + i in
                if offset \<ge> length value
                then errorf ''PathSetupTypeCapability: value too short for PathSetupTypes entries'' []
                else indexE value offset) [0..<pstNum]) (\<lambda>psts.
       let subTLVOffset = PathSetupTypeCapabilityFixedPartLength + paddedLength pstNum TLVAlignment in
       if subTLVOffset > length value
       then errorf ''PathSetupTypeCapability: value too short for subTLVs'' []
       else
         bindE (sliceE value subTLVOffset (length value)) (\<lambda>subTLVData.
         bindE (wrapE ''PathSetupTypeCapability'' (decodeTLVSequence decode subTLVData)) (\<lambda>subs.
         Inr (PathSetupTypeCapability psts subs)))))) = Inr p"
    using assms unfolding PathSetupTypeCapability_DecodeFromBytes_def by (rule decode_InrE)
  obtain count psts sub where c: "indexE val 3 = Inr count"
      "list_all2 (\<lambda>i y. (let offset = 4 + i in
                if offset \<ge> length val
                then errorf ''PathSetupTypeCapability: value too short for PathSetupTypes entries'' []
                else indexE val offset) = Inr y) [0..<unat count] psts"
      "4 + paddedLength (unat count) 4 \<le> length val"
      "sliceE val (4 + paddedLength (unat count) 4) (length val) = Inr sub"
      "decodeTLVSequence decode sub = Inr (psc_SubTLVs p)" "psc_PathSetupTypes p = psts"
    using f v(2) by (auto simp: bindE_eq_Inr Let_def mapE_Inr_iff TLVAlignment_def split: if_splits)
  have l: "length psts = unat count" using c(2) by (auto dest: list_all2_lengthD)
  have "length data = 4 + n" using decodeTLVLength_InrD(2) [OF v(1)] by simp
  moreover have "length sub + 4 + paddedLength (length (psc_PathSetupTypes p)) 4 = n"
    using sliceE_Inr_length [OF c(4)] c(3,6) l v(3) by simp
  moreover have "length (psc_PathSetupTypes p) \<le> MaxPathSetupTypes"
    using c(6) l unat_u8_less [of count] by simp
  ultimately show ?thesis using that c(5) by blast
qed

lemma declared_len_decode:
  assumes "bindE (wrapE s (decodeTLVLength data p)) f = Inr x"
  obtains val where "tlv_value data (declared_len data) = Inr val" "length val = declared_len data"
    "f (declared_len data) = Inr x"
  using assms decodeTLVLength_InrD(3) by (metis decode_InrE)

lemma fixed_decode_len:
  "StatefulPCECapability_DecodeFromBytes StatefulPCECapability_zero data = Inr x1 \<Longrightarrow> declared_len data = 4"
  "LSPDBVersion_DecodeFromBytes LSPDBVersion_zero data = Inr x2 \<Longrightarrow> declared_len data = 8"
  "SRPCECapability_DecodeFromBytes SRPCECapability_zero data = Inr x3 \<Longrightarrow> declared_len data = 4"
  "SRv6PCECapability_DecodeFromBytes SRv6PCECapability_zero data = Inr x4 \<Longrightarrow> 4 \<le> declared_len data"
  "MultipathCapability_DecodeFromBytes MultipathCapability_zero data = Inr x5 \<Longrightarrow> declared_len data = 4"
  "PathSetupType_DecodeFromBytes PathSetupType_zero data = Inr x6 \<Longrightarrow> declared_len data = 4"
  "IPv4LSPIdentifiers_DecodeFromBytes IPv4LSPIdentifiers_zero data = Inr x7 \<Longrightarrow> declared_len data = 16"
  "IPv6LSPIdentifiers_DecodeFromBytes IPv6LSPIdentifiers_zero data = Inr x8 \<Longrightarrow> declared_len data = 52"
  "ExtendedAssociationIDIPv4Juniper_DecodeFromBytes ExtendedAssociationID_zero data = Inr x9 \<Longrightarrow>
     declared_len data = 8"
  "SRPolicyCandidatePathIdentifier_DecodeFromBytes SRPolicyCandidatePathIdentifier_zero data = Inr x10 \<Longrightarrow>
     declared_len data = 28"
  "SRPolicyCandidatePathPreference_DecodeFromBytes SRPolicyCandidatePathPreference_zero data = Inr x11 \<Longrightarrow>
     declared_len data = 4"
  "Color_DecodeFromBytes Color_zero data = Inr x12 \<Longrightarrow> declared_len data = 4"
  unfolding StatefulPCECapability_DecodeFromBytes_def LSPDBVersion_DecodeFromBytes_def
    SRPCECapability_DecodeFromBytes_def SRv6PCECapability_DecodeFromBytes_def
    MultipathCapability_DecodeFromBytes_def PathSetupType_DecodeFromBytes_def
    IPv4LSPIdentifiers_DecodeFromBytes_def IPv6LSPIdentifiers_DecodeFromBytes_def
    ExtendedAssociationIDIPv4Juniper_DecodeFromBytes_def
    SRPolicyCandidatePathIdentifier_DecodeFromBytes_def
    SRPolicyCandidatePathPreference_DecodeFromBytes_def Color_DecodeFromBytes_def
  by (erule declared_len_decode, force split: if_splits)+

lemma variable_decode_len:
  "VendorInformation_DecodeFromBytes VendorInformation_zero data = Inr x1 \<Longrightarrow>
     declared_len data = 4 + length (vi_EnterpriseSpecificInformation x1)"
  "SymbolicPathName_DecodeFromBytes SymbolicPathName_zero data = Inr x2 \<Longrightarrow>
     declared_len data = length (spn_Name x2)"
  "AssocTypeList_DecodeFromBytes AssocTypeList_zero data = Inr x3 \<Longrightarrow>
     declared_len data = 2 * length (atl_AssocTypes x3)"
  "ExtendedAssociationID_DecodeFromBytes ExtendedAssociationID_zero data = Inr x4 \<Longrightarrow>
     declared_len data = (if Is4 (ea_Endpoint x4) then 8 else 20)"
  unfolding VendorInformation_DecodeFromBytes_def SymbolicPathName_DecodeFromBytes_def
    AssocTypeList_DecodeFromBytes_def ExtendedAssociationID_DecodeFromBytes_def
  subgoal
    by (erule declared_len_decode) (auto simp: be_read bindE_eq_Inr split: if_splits)
  subgoal
    by (erule declared_len_decode) (auto split: if_splits)
  subgoal
    by (erule declared_len_decode)
      (auto simp: bindE_eq_Inr mapE_Inr_iff dest!: list_all2_lengthD split: if_splits)
  subgoal
    by (erule declared_len_decode)
      (auto simp: be_read bindE_eq_Inr tlv_consts AddrFromSlice_def split: if_splits)
  done


lemmas fixed_Len_defs =
  StatefulPCECapability_Len_def LSPDBVersion_Len_def SRPCECapability_Len_def SRv6PCECapability_Len_def
  MultipathCapability_Len_def PathSetupType_Len_def IPv4LSPIdentifiers_Len_def
  IPv6LSPIdentifiers_Len_def ExtendedAssociationID_Len_def ExtendedAssociationIDIPv4Juniper_Len_def
  SRPolicyCandidatePathIdentifier_Len_def SRPolicyCandidatePathPreference_Len_def Color_Len_def

lemma tlvMap_len:
  assumes "tlvMap decode ty = Some dec" "dec data = Inr x" "length data \<le> 4 + max_value"
    "length data = 4 + declared_len data"
    and "\<And>p. PathSetupTypeCapability_DecodeFromBytes decode data = Inr p \<Longrightarrow>
           unat (tlv_Len (TLV_PathSetupTypeCapability p)) \<le> length data"
  shows "unat (tlv_Len x) \<le> 4 + paddedLength (declared_len data) 4"
proof -
  have n: "declared_len data \<le> max_value" using assms(3,4) by simp
  have ge: "declared_len data \<le> paddedLength (declared_len data) 4" by (rule paddedLength_ge) simp
  have sym: "unat (SymbolicPathName_Len y) = 4 + paddedLength (length (spn_Name y)) 4"
    if "declared_len data = length (spn_Name y)" for y
    using unat_padded_len(1) [of "length (spn_Name y)"] n that
    by (simp add: SymbolicPathName_Len_def Let_def)
  have ven: "unat (VendorInformation_Len y) =
      4 + paddedLength (4 + length (vi_EnterpriseSpecificInformation y)) 4"
    if d: "declared_len data = 4 + length (vi_EnterpriseSpecificInformation y)" for y
  proof -
    have ok: "VendorInformation_ok y" using n d by (simp add: VendorInformation_ok_def)
    obtain v where "unat (VendorInformation_Len y) = 4 + paddedLength (length v) 4"
      "VendorInformation_Serialize y = Inr (tlv_frame TLVVendorInformation v)" "length v \<le> max_value"
      using vendor_information.roundtrip [OF ok] by blast
    then show ?thesis
      using VendorInformation_Serialize_ok [OF ok] by (metis Inr_inject length_tlv_frame length_append length_be(2))
  qed
  have atl: "unat (AssocTypeList_Len y) = 4 + paddedLength (2 * length (atl_AssocTypes y)) 4"
    if d: "declared_len data = 2 * length (atl_AssocTypes y)" for y
  proof -
    have "AssocTypeList_ok y" using n d by (simp add: AssocTypeList_ok_def)
    then show ?thesis using AssocTypeList_lengths by simp
  qed
  have psc: "unat (tlv_Len (TLV_PathSetupTypeCapability p)) \<le> 4 + paddedLength (declared_len data) 4"
    if "PathSetupTypeCapability_DecodeFromBytes decode data = Inr p" for p
    using assms(5) [OF that] assms(4) ge by linarith
  note pad = paddedLength_def [of 4 4] paddedLength_def [of 8 4] paddedLength_def [of 16 4]
    paddedLength_def [of 20 4] paddedLength_def [of 28 4] paddedLength_def [of 52 4]
  show ?thesis
    using assms(1,2) ge
    by (auto simp: tlvMap_def bindE_eq_Inr psc ven sym atl fixed_Len_defs tlv_consts pad
      simp del: tlv_Len.simps(19) split: if_split_asm
      dest!: fixed_decode_len variable_decode_len)
qed

lemmas tlv_decode_ok =
  vendor_information.decode_ok
  stateful_pce_capability.decode_ok
  symbolic_path_name.decode_ok
  ipv4_lsp_identifiers.decode_ok
  ipv6_lsp_identifiers.decode_ok
  extended_association_id.decode_ok
  assoc_type_list.decode_ok
  sr_policy_cpath_id.decode_ok
  extended_association_id_juniper.decode_ok

lemma tlvMap_ok:
  assumes "tlvMap decode ty = Some dec" "dec data = Inr x" and l: "length data \<le> 4 + max_value"
    and "\<And>p. PathSetupTypeCapability_DecodeFromBytes decode data = Inr p \<Longrightarrow>
           tlv_ok (TLV_PathSetupTypeCapability p)"
  shows "tlv_ok x"
  using assms(1,2,4)
  by (auto simp: tlvMap_def bindE_eq_Inr simp del: tlv_ok.simps(19)
      dest!: tlv_decode_ok [OF _ l] split: if_split_asm)

lemma UnknownTLV_decoded_type:
  assumes "decodeUnknownTLV data ty = Inr x" "take 2 data = be16 ty"
  shows "unk_Typ x = ty"
proof -
  have "UnknownTLV_DecodeFromBytes UnknownTLV_zero data = Inr x"
    using assms(1) by (simp add: decodeUnknownTLV_def)
  then obtain t where "sliceE data 0 2 = Inr (take 2 data)" "beUint16 (take 2 data) = Inr t" "unk_Typ x = t"
    unfolding UnknownTLV_DecodeFromBytes_def
    by (rule decode_InrE) (auto simp: bindE_eq_Inr tlv_consts)
  then show ?thesis using assms(2) by simp
qed

text \<open>The decoded elements of a sequence report no more bytes than were consumed.\<close>

lemma decodeTLVSequence_sum:
  assumes "decodeTLVSequence decode data = Inr xs"
    and "\<And>d t x. decode d t = Inr x \<Longrightarrow> length d \<le> length data \<Longrightarrow>
           length d = 4 + declared_len d \<Longrightarrow> take 2 d = be16 t \<Longrightarrow>
           unat (len x) \<le> 4 + paddedLength (declared_len d) 4"
  shows "sum_list (map (unat \<circ> len) xs) \<le> length data"
  using assms
proof (induction data arbitrary: xs rule: measure_induct_rule [of length])
  case (less data)
  show ?case
  proof (cases "4 \<le> length data")
    case False
    then show ?thesis using less.prems(1)
      by (cases "data = []") (auto simp: decodeTLVSequence.simps [of decode data] tlv_consts)
  next
    case True
    let ?n = "declared_len data" and ?ty = "word_of_nat (be_nat (take 2 data)) :: u16"
    let ?rest = "drop (paddedLength (4 + ?n) 4) data"
    obtain x xs' where x: "decode (take (4 + ?n) data) ?ty = Inr x" "4 + ?n \<le> length data"
        "paddedLength (4 + ?n) 4 \<le> length data"
        "decodeTLVSequence decode ?rest = Inr xs'" "xs = x # xs'"
      using less.prems(1)
      by (auto simp: decodeTLVSequence_unfold [OF True] Let_def bindE_eq_Inr split: if_splits)
    have r: "length ?rest < length data" by (rule padded_drop_less [OF True])
    have "be16 ?ty = take 2 data"
      using True beUint16_Inr_iff [of data ?ty] by (simp add: beUint16_def)
    then have ty: "take 2 (take (4 + ?n) data) = be16 ?ty" using x(2) by simp
    have dl: "declared_len (take (4 + ?n) data) = ?n"
      by (simp add: declared_len_def drop_take flip: numeral_2_eq_2)
    have "unat (len x) \<le> 4 + paddedLength (declared_len (take (4 + ?n) data)) 4"
      by (rule less.prems(2) [OF x(1)]) (use x(2) ty dl in auto)
    moreover have "sum_list (map (unat \<circ> len) xs') \<le> length ?rest"
    proof (rule less.IH [OF r x(4)])
      fix d t y
      assume "decode d t = Inr y" "length d \<le> length ?rest"
        "length d = 4 + declared_len d" "take 2 d = be16 t"
      then show "unat (len y) \<le> 4 + paddedLength (declared_len d) 4"
        using r by (intro less.prems(2) [of d t y]) linarith+
    qed
    ultimately show ?thesis using x(3,5) dl by (simp add: paddedLength_4_add comp_def)
  qed
qed

lemma decodeTLV_ok_len:
  assumes "decodeTLV data ty = Inr x" "length data \<le> 4 + max_value"
    "length data = 4 + declared_len data" "take 2 data = be16 ty"
  shows "tlv_ok x \<and> unat (tlv_Len x) \<le> 4 + paddedLength (declared_len data) 4"
  using assms
proof (induction data arbitrary: ty x rule: measure_induct_rule [of length])
  case (less data)
  show ?case
  proof (cases "tlvMap decodeTLV ty")
    case None
    then have r: "\<not> registered ty" by (simp add: registered_def)
    then obtain u where u: "decodeUnknownTLV data ty = Inr u" "x = TLV_Unknown u"
      using less.prems(1) by (auto simp: decodeTLV_unregistered bindE_eq_Inr)
    then have d: "UnknownTLV_DecodeFromBytes UnknownTLV_zero data = Inr u"
      by (simp add: decodeUnknownTLV_def)
    have ok: "UnknownTLV_ok u" by (rule unknown_tlv.decode_ok [OF d less.prems(2)])
    have "length (unk_Value u) = declared_len data"
      using d unfolding UnknownTLV_DecodeFromBytes_def
      by (rule declared_len_decode) (auto simp: bindE_eq_Inr)
    then show ?thesis
      using u r ok UnknownTLV_decoded_type [OF u(1) less.prems(4)] UnknownTLV_lengths(2) [OF ok] by simp
  next
    case (Some dec)
    then have d: "dec data = Inr x"
      using less.prems(1) by (simp add: decodeTLV.simps decodeTLV_step_def)
    have psc: "tlv_ok (TLV_PathSetupTypeCapability p) \<and>
        unat (tlv_Len (TLV_PathSetupTypeCapability p)) \<le> length data"
      if pd: "PathSetupTypeCapability_DecodeFromBytes decodeTLV data = Inr p" for p
    proof -
      obtain sub n where p: "decodeTLVSequence decodeTLV sub = Inr (psc_SubTLVs p)"
          "length data = 4 + n" "length sub + 4 + paddedLength (length (psc_PathSetupTypes p)) 4 = n"
          "length (psc_PathSetupTypes p) \<le> MaxPathSetupTypes"
        by (rule psc_decode_InrD [OF pd])
      have l: "length d < length data \<and> length d \<le> 4 + max_value" if "length d \<le> length sub" for d :: bytes
        using that p(2,3) less.prems(2) by simp
      have subs: "list_all tlv_ok (psc_SubTLVs p)"
        by (rule decodeTLVSequence_elements [OF p(1)]) (use less.IH l in blast)
      have s: "sum_list (map (unat \<circ> tlv_Len) (psc_SubTLVs p)) \<le> length sub"
        by (rule decodeTLVSequence_sum [OF p(1)]) (use less.IH l in blast)
      then have ok: "psc_ok tlv_Len p" using p less.prems(2) by (simp add: psc_ok_def)
      let ?k = "4 + (4 + paddedLength (length (psc_PathSetupTypes p)) 4 +
        sum_list (map (unat \<circ> tlv_Len) (psc_SubTLVs p)))"
      have "tlv_Len (TLV_PathSetupTypeCapability p) = word_of_nat ?k"
        using p(4) by (simp add: PathSetupTypeCapability_Len_def paddedPSTLength_def pstCount_def
            sum_list_words tlv_consts)
      moreover have "?k \<le> length data" using s p(2,3) by simp
      moreover have "unat (word_of_nat ?k :: u16) = ?k"
        by (rule unat_u16_id) (use \<open>?k \<le> length data\<close> less.prems(2) in \<open>simp add: max_value_def\<close>)
      ultimately show ?thesis using ok subs by (simp only: tlv_ok.simps)
    qed
    have "tlv_ok x" using tlvMap_ok [OF Some d less.prems(2)] psc by blast
    moreover have "unat (tlv_Len x) \<le> 4 + paddedLength (declared_len data) 4"
      using tlvMap_len [OF Some d less.prems(2,3)] psc by blast
    ultimately show ?thesis by blast
  qed
qed

interpretation standard_space: tlv_space decodeTLV tlv_Serialize tlv_Len tlv_ok
proof
  fix data t x
  assume "decodeTLV data t = Inr x" "length data \<le> 4 + max_value"
    "length data = 4 + declared_len data" "take 2 data = be16 t"
  then show "tlv_ok x" using decodeTLV_ok_len by blast
qed (use tlv_framed decodeTLV_no_panic in auto)


section \<open>Vendor TLVs are kept byte for byte\<close>

lemma decodeUnknownTLV_InrD:
  assumes "decodeUnknownTLV data ty = Inr x" "length data = 4 + declared_len data"
  shows "data = be16 (unk_Typ x) @ be16 (unk_Length x) @ unk_Value x"
    "unat (unk_Length x) = length (unk_Value x)" "length (unk_Value x) = declared_len data"
proof -
  have "UnknownTLV_DecodeFromBytes UnknownTLV_zero data = Inr x"
    using assms(1) by (simp add: decodeUnknownTLV_def)
  then obtain val t where v: "tlv_value data (declared_len data) = Inr val" "length val = declared_len data"
      "beUint16 (take 2 data) = Inr t"
      "x = \<lparr>unk_Typ = t, unk_Length = word_of_nat (declared_len data), unk_Value = val\<rparr>"
    unfolding UnknownTLV_DecodeFromBytes_def
    by (rule declared_len_decode)
      (use assms(2) in \<open>auto simp: bindE_eq_Inr tlv_consts UnknownTLV_zero_def\<close>)
  have l: "be16 (word_of_nat (declared_len data) :: u16) = take 2 (drop 2 data)"
  proof -
    have "2 \<le> length (take 2 (drop 2 data))" using assms(2) by simp
    then have "beUint16 (take 2 (drop 2 data)) = Inr (word_of_nat (declared_len data))"
      by (simp add: beUint16_def declared_len_def)
    then show ?thesis by (simp add: beUint16_Inr_iff)
  qed
  have t: "be16 t = take 2 data"
    using v(3) beUint16_Inr_iff [of "take 2 data" t] by simp
  have val: "val = drop 4 data"
    using v(1) assms(2) by (auto simp: tlv_value_def tlv_consts sliceE_def split: if_splits)
  have "take 4 data = take 2 data @ take 2 (drop 2 data)" using take_add [of 2 2 data] by simp
  moreover have "data = take 4 data @ drop 4 data" by simp
  ultimately have "data = take 2 data @ take 2 (drop 2 data) @ drop 4 data"
    by (simp only: append_assoc)
  then show "data = be16 (unk_Typ x) @ be16 (unk_Length x) @ unk_Value x"
    using v(4) t l val by simp
  show "unat (unk_Length x) = length (unk_Value x)" "length (unk_Value x) = declared_len data"
    using v(2,4) unat_declared_len [of data] by simp_all
qed

lemma UnknownTLV_Serialize_bytes:
  assumes "unat (unk_Length x) = length (unk_Value x)"
  shows "UnknownTLV_Serialize x =
    Inr (be16 (unk_Typ x) @ be16 (unk_Length x) @ unk_Value x @ makeBytes (pad4 (length (unk_Value x))))"
  by (simp only: UnknownTLV_Serialize_def Let_def assoc_pad_u16 assms)
    (simp add: Uint16ToByteSlice_def)

lemma vendor_bytes:
  assumes "decodeTLVSequence decodeUnknownTLV data = Inr xs"
  shows "\<exists>bss. mapE UnknownTLV_Serialize xs = Inr bss \<and> concat bss = data"
  using assms
proof (induction data arbitrary: xs rule: measure_induct_rule [of length])
  case (less data)
  show ?case
  proof (cases "4 \<le> length data")
    case False
    then show ?thesis using less.prems(1)
      by (cases "data = []") (auto simp: decodeTLVSequence.simps [of decodeUnknownTLV data] tlv_consts)
  next
    case True
    let ?n = "declared_len data" and ?ty = "word_of_nat (be_nat (take 2 data)) :: u16"
    let ?p = "paddedLength (4 + ?n) 4"
    obtain x xs' where x: "decodeUnknownTLV (take (4 + ?n) data) ?ty = Inr x" "4 + ?n \<le> length data"
        "?p \<le> length data" "\<not> list_ex (\<lambda>i. data ! i \<noteq> 0) [4 + ?n..<?p]"
        "decodeTLVSequence decodeUnknownTLV (drop ?p data) = Inr xs'" "xs = x # xs'"
      using less.prems(1)
      by (auto simp: decodeTLVSequence_unfold [OF True] Let_def bindE_eq_Inr split: if_splits)
    obtain bss where b: "mapE UnknownTLV_Serialize xs' = Inr bss" "concat bss = drop ?p data"
      using less.IH [OF padded_drop_less [OF True] x(5)] by blast
    have dl: "declared_len (take (4 + ?n) data) = ?n"
      by (simp add: declared_len_def drop_take flip: numeral_2_eq_2)
    have l: "length (take (4 + ?n) data) = 4 + declared_len (take (4 + ?n) data)"
      using x(2) dl by simp
    note d = decodeUnknownTLV_InrD [OF x(1) l]
    have q: "?p = 4 + ?n + pad4 ?n" by (simp add: paddedLength_4_add pad4_add)
    have z: "take (pad4 ?n) (drop (4 + ?n) data) = makeBytes (pad4 ?n)"
    proof (rule nth_equalityI)
      fix i assume "i < length (take (pad4 ?n) (drop (4 + ?n) data))"
      then show "take (pad4 ?n) (drop (4 + ?n) data) ! i = makeBytes (pad4 ?n) ! i"
        using x(3,4) unfolding q by (auto simp: list_ex_iff makeBytes_def)
    qed (use x(3) q in simp)
    have "data = take (4 + ?n) data @ take (pad4 ?n) (drop (4 + ?n) data) @ drop ?p data"
      using append_take_drop_id [of "pad4 ?n" "drop (4 + ?n) data"]
        append_take_drop_id [of "4 + ?n" data]
      by (simp only: q drop_drop add.commute [of _ "4 + ?n"])
    then have "data = be16 (unk_Typ x) @ be16 (unk_Length x) @ unk_Value x @
        makeBytes (pad4 (length (unk_Value x))) @ drop ?p data"
      using d(1,3) dl z by simp
    then show ?thesis
      using UnknownTLV_Serialize_bytes [OF d(2)] b x(6)
      by (intro exI [of _ "(be16 (unk_Typ x) @ be16 (unk_Length x) @ unk_Value x @
        makeBytes (pad4 (length (unk_Value x)))) # bss"]) simp
  qed
qed


section \<open>Properties\<close>

text \<open>C37: decoding a TLV sequence never panics, whatever bytes a peer sends.\<close>

theorem DecodeTLVs_no_panic: "DecodeTLVs data \<noteq> panic"
  unfolding DecodeTLVs_def by (rule standard_space.sequence_no_panic)

text \<open>
  C36: every list of TLVs whose fields fit the wire format, nested capabilities included,
  is encoded without panic, to exactly as many bytes as the \<open>Len\<close> methods say, and
  \<open>DecodeTLVs\<close> reads the same list back.
\<close>

theorem DecodeTLVs_roundtrip:
  assumes "list_all tlv_ok ts"
  shows "\<exists>bss. mapE tlv_Serialize ts = Inr bss \<and> DecodeTLVs (concat bss) = Inr ts \<and>
    length (concat bss) = sum_list (map (unat \<circ> tlv_Len) ts)"
  unfolding DecodeTLVs_def by (rule standard_space.sequence_roundtrip [OF assms])

definition sample_tlvs :: "tlv list" where
  "sample_tlvs =
     [TLV_SymbolicPathName (NewSymbolicPathName ''path''),
      TLV_PathSetupTypeCapability
        (PathSetupTypeCapability [1, 3] [TLV_SRPCECapability (NewSRPCECapability False True 10)]),
      TLV_Unknown \<lparr>unk_Typ = 0x7777, unk_Length = 3, unk_Value = [1, 2, 3]\<rparr>]"

lemma sample_tlvs_ok: "list_all tlv_ok sample_tlvs"
  by (simp add: sample_tlvs_def NewSymbolicPathName_def SymbolicPathName_ok_def max_value_def
      psc_ok_def paddedLength_def NewSRPCECapability_def SRPCECapability_Len_def tlv_consts
      UnknownTLV_ok_def registered_def tlvMap_def string_bytes_def byte_of_char_def)

theorem DecodeTLVs_roundtrip_witness:
  "\<exists>bss. mapE tlv_Serialize sample_tlvs = Inr bss \<and> DecodeTLVs (concat bss) = Inr sample_tlvs \<and>
    length (concat bss) = sum_list (map (unat \<circ> tlv_Len) sample_tlvs)"
  by (rule DecodeTLVs_roundtrip [OF sample_tlvs_ok])

text \<open>
  what \<open>DecodeTLVs\<close> accepts (up to the size of an object body) is well formed, reports
  no more bytes than were consumed, and can be sent again: its encoding decodes to it.
\<close>

theorem DecodeTLVs_reencode:
  assumes "DecodeTLVs data = Inr ts" and "length data \<le> 65532"
  shows "list_all tlv_ok ts \<and> sum_list (map (unat \<circ> tlv_Len) ts) \<le> length data \<and>
    (\<exists>bss. mapE tlv_Serialize ts = Inr bss \<and> DecodeTLVs (concat bss) = Inr ts)"
proof -
  have d: "decodeTLVSequence decodeTLV data = Inr ts" and l: "length data \<le> 4 + max_value"
    using assms by (simp_all add: DecodeTLVs_def max_value_def)
  have "sum_list (map (unat \<circ> tlv_Len) ts) \<le> length data"
    by (rule decodeTLVSequence_sum [OF d]) (use decodeTLV_ok_len l in force)
  then show ?thesis
    unfolding DecodeTLVs_def
    using standard_space.sequence_ok [OF d l] standard_space.sequence_reencode [OF d l] by blast
qed

theorem DecodeTLVs_reencode_witness:
  "list_all tlv_ok [TLV_Color \<lparr>col_Color = 5\<rparr>] \<and>
    sum_list (map (unat \<circ> tlv_Len) [TLV_Color \<lparr>col_Color = 5\<rparr>]) \<le> length [0, 0x43, 0, 4, 0, 0, 0, 5 :: u8] \<and>
    (\<exists>bss. mapE tlv_Serialize [TLV_Color \<lparr>col_Color = 5\<rparr>] = Inr bss \<and>
       DecodeTLVs (concat bss) = Inr [TLV_Color \<lparr>col_Color = 5\<rparr>])"
  by (rule DecodeTLVs_reencode)
    (simp_all add: DecodeTLVs_def decodeTLVSequence_unfold Let_def declared_len_def paddedLength_def
      decodeTLV.simps decodeTLV_step_def tlvMap_def Color_DecodeFromBytes_def decodeTLVLength_cases
      tlv_value_def tlv_consts beUint32_def Color_zero_def)

text \<open>
  \<open>DecodeVendorTLVs\<close> keeps vendor data intact: encoding the TLVs it returns gives back
  the very bytes that were decoded, padding included.
\<close>

theorem DecodeVendorTLVs_exact:
  assumes "DecodeVendorTLVs data = Inr ts"
  shows "\<exists>bss. mapE UnknownTLV_Serialize ts = Inr bss \<and> concat bss = data"
  using assms unfolding DecodeVendorTLVs_def by (rule vendor_bytes)

theorem DecodeVendorTLVs_exact_witness:
  "\<exists>bss. mapE UnknownTLV_Serialize [\<lparr>unk_Typ = 1, unk_Length = 2, unk_Value = [7, 8]\<rparr>] = Inr bss \<and>
     concat bss = [0, 1, 0, 2, 7, 8, 0, 0]"
  by (rule DecodeVendorTLVs_exact)
    (simp add: DecodeVendorTLVs_def decodeTLVSequence_unfold Let_def declared_len_def paddedLength_def
      decodeUnknownTLV_def UnknownTLV_DecodeFromBytes_def decodeTLVLength_cases tlv_value_def
      tlv_consts beUint16_def UnknownTLV_zero_def upt_rec)

end
