(* ===== verification/Segment.thy ===== *)
theory Segment
  imports Netip Go_Strings
begin

text \<open>
  \<open>src/pkg/table/sr_policy.go\<close> and the metric types of \<open>ted.go\<close>: SR segments, SRv6
  endpoint behaviors, SR policies and their updates. The constructors of segments from
  text (\<open>NewSegment\<close>) and from a TED node are in theories Netip_Text and Ted.
\<close>

section \<open>Segments\<close>

record SegmentSRv6 =
  s6_Sid :: addr
  s6_LocalAddr :: addr
  s6_RemoteAddr :: addr
  s6_Structure :: "bytes option"
  s6_USid :: bool

record SegmentSRMPLS =
  sm_Sid :: u32
  sm_TTL :: u8
  sm_TC :: u8
  sm_S :: bool
  sm_LocalAddr :: addr
  sm_RemoteAddr :: addr

text \<open>The interface \<open>Segment\<close> and its two implementations; a nil segment is an option.\<close>

datatype Segment = SRv6 SegmentSRv6 | SRMPLS SegmentSRMPLS

datatype SegmentFamily = SegmentUnknown | SegmentSRv6Family | SegmentSRMPLSFamily

fun segmentFamily :: "Segment option \<Rightarrow> SegmentFamily" where
  "segmentFamily (Some (SRv6 _)) = SegmentSRv6Family"
| "segmentFamily (Some (SRMPLS _)) = SegmentSRMPLSFamily"
| "segmentFamily None = SegmentUnknown"

definition SegmentSRv6_zero :: SegmentSRv6 where
  "SegmentSRv6_zero = \<lparr>s6_Sid = NoAddr, s6_LocalAddr = NoAddr, s6_RemoteAddr = NoAddr,
     s6_Structure = None, s6_USid = False\<rparr>"

definition NewSegmentSRv6 :: "addr \<Rightarrow> SegmentSRv6" where
  "NewSegmentSRv6 sid = SegmentSRv6_zero\<lparr>s6_Sid := sid\<rparr>"

definition NewSegmentSRMPLS :: "u32 \<Rightarrow> SegmentSRMPLS" where
  "NewSegmentSRMPLS sid = \<lparr>sm_Sid = sid, sm_TTL = 0, sm_TC = 0, sm_S = False,
     sm_LocalAddr = NoAddr, sm_RemoteAddr = NoAddr\<rparr>"

abbreviation (input) BehaviorReserved :: u16 where "BehaviorReserved \<equiv> 0x0000"
abbreviation (input) BehaviorEND :: u16 where "BehaviorEND \<equiv> 0x0001"
abbreviation (input) BehaviorENDX :: u16 where "BehaviorENDX \<equiv> 0x0005"
abbreviation (input) BehaviorUN :: u16 where "BehaviorUN \<equiv> 0x0030"
abbreviation (input) BehaviorUA :: u16 where "BehaviorUA \<equiv> 0x0039"

definition BehaviorToString :: "u16 \<Rightarrow> string" where
  "BehaviorToString behavior =
     (if behavior = BehaviorReserved then ''RESERVED''
      else if behavior = BehaviorEND then ''END''
      else if behavior = BehaviorENDX then ''ENDX''
      else if behavior = BehaviorUN then ''UN''
      else if behavior = BehaviorUA then ''UA''
      else ''UNKNOWN'')"

definition SegmentSRv6_Behavior :: "SegmentSRv6 \<Rightarrow> u16 result" where
  "SegmentSRv6_Behavior seg =
     (if \<not> IsValid (s6_LocalAddr seg) then errorf ''SegmentSRv6: LocalAddr is invalid'' []
      else if s6_USid seg then
        (if IsValid (s6_RemoteAddr seg) then Inr BehaviorUA else Inr BehaviorUN)
      else if IsValid (s6_RemoteAddr seg) then Inr BehaviorENDX
      else Inr BehaviorEND)"

definition HasMPLSStackEntryAttrs :: "SegmentSRMPLS \<Rightarrow> bool" where
  "HasMPLSStackEntryAttrs seg \<longleftrightarrow> sm_TC seg \<noteq> 0 \<or> sm_S seg \<or> sm_TTL seg \<noteq> 0"

definition SegmentSRv6_Equal :: "SegmentSRv6 \<Rightarrow> SegmentSRv6 \<Rightarrow> bool" where
  "SegmentSRv6_Equal seg other \<longleftrightarrow>
     s6_Sid seg = s6_Sid other \<and> s6_LocalAddr seg = s6_LocalAddr other \<and>
     s6_RemoteAddr seg = s6_RemoteAddr other"

definition SegmentSRMPLS_Equal :: "SegmentSRMPLS \<Rightarrow> SegmentSRMPLS \<Rightarrow> bool" where
  "SegmentSRMPLS_Equal seg other \<longleftrightarrow> sm_Sid seg = sm_Sid other"

text \<open>On nil segments \<open>SegmentsEqual\<close> is false.\<close>

fun SegmentsEqual :: "Segment option \<Rightarrow> Segment option \<Rightarrow> bool" where
  "SegmentsEqual (Some (SRv6 a)) (Some (SRv6 b)) = SegmentSRv6_Equal a b"
| "SegmentsEqual (Some (SRMPLS a)) (Some (SRMPLS b)) = SegmentSRMPLS_Equal a b"
| "SegmentsEqual _ _ = False"

section \<open>Metrics and waypoints\<close>

datatype MetricType = UnspecifiedMetric | IGPMetric | TEMetric | DelayMetric | HopcountMetric

fun MetricType_String :: "MetricType \<Rightarrow> string" where
  "MetricType_String IGPMetric = ''METRIC_TYPE_IGP''"
| "MetricType_String TEMetric = ''METRIC_TYPE_TE''"
| "MetricType_String DelayMetric = ''METRIC_TYPE_DELAY''"
| "MetricType_String HopcountMetric = ''METRIC_TYPE_HOPCOUNT''"
| "MetricType_String UnspecifiedMetric = ''METRIC_TYPE_UNSPECIFIED''"

fun MetricType_DisplayString :: "MetricType \<Rightarrow> string" where
  "MetricType_DisplayString IGPMetric = ''igp''"
| "MetricType_DisplayString TEMetric = ''te''"
| "MetricType_DisplayString DelayMetric = ''delay''"
| "MetricType_DisplayString HopcountMetric = ''hopcount''"
| "MetricType_DisplayString UnspecifiedMetric = []"

record Waypoint =
  wp_RouterID :: string
  wp_SID :: string

section \<open>SR policies\<close>

type_synonym PolicyState = string

abbreviation (input) PolicyDown :: PolicyState where "PolicyDown \<equiv> ''down''"
abbreviation (input) PolicyUp :: PolicyState where "PolicyUp \<equiv> ''up''"
abbreviation (input) PolicyActive :: PolicyState where "PolicyActive \<equiv> ''active''"
abbreviation (input) PolicyUnknown :: PolicyState where "PolicyUnknown \<equiv> ''unknown''"

type_synonym PolicyType = string

abbreviation (input) PolicyTypeExplicit :: PolicyType where "PolicyTypeExplicit \<equiv> ''explicit''"
abbreviation (input) PolicyTypeDynamic :: PolicyType where "PolicyTypeDynamic \<equiv> ''dynamic''"

record SRPolicy =
  pol_PlspID :: u32
  pol_Name :: string
  pol_SegmentList :: "Segment list"
  pol_SrcAddr :: addr
  pol_DstAddr :: addr
  pol_SrcRouterID :: string
  pol_DstRouterID :: string
  pol_Color :: u32
  pol_Preference :: u32
  pol_LSPID :: u16
  pol_State :: PolicyState
  pol_Type :: PolicyType
  pol_Metric :: MetricType

definition NewSRPolicy ::
    "u32 \<Rightarrow> string \<Rightarrow> Segment list \<Rightarrow> addr \<Rightarrow> addr \<Rightarrow> u32 \<Rightarrow> u32 \<Rightarrow> u16 \<Rightarrow> PolicyState \<Rightarrow> SRPolicy" where
  "NewSRPolicy plspID name segmentList srcAddr dstAddr color preference lspID state =
     \<lparr>pol_PlspID = plspID, pol_Name = name, pol_SegmentList = segmentList, pol_SrcAddr = srcAddr,
      pol_DstAddr = dstAddr, pol_SrcRouterID = [], pol_DstRouterID = [], pol_Color = color,
      pol_Preference = preference, pol_LSPID = lspID, pol_State = state, pol_Type = [],
      pol_Metric = UnspecifiedMetric\<rparr>"

record PolicyDiff =
  df_Name :: "string option"
  df_Color :: "u32 option"
  df_Preference :: "u32 option"
  df_SegmentList :: "Segment list option"
  df_LSPID :: u16
  df_State :: PolicyState

definition SRPolicy_Update :: "SRPolicy \<Rightarrow> PolicyDiff \<Rightarrow> SRPolicy" where
  "SRPolicy_Update p df =
     (let p = p\<lparr>pol_State := df_State df, pol_LSPID := df_LSPID df\<rparr>;
          p = (case df_Name df of Some n \<Rightarrow> p\<lparr>pol_Name := n\<rparr> | None \<Rightarrow> p);
          p = (case df_Color df of Some c \<Rightarrow> p\<lparr>pol_Color := c\<rparr> | None \<Rightarrow> p);
          p = (case df_Preference df of Some q \<Rightarrow> p\<lparr>pol_Preference := q\<rparr> | None \<Rightarrow> p)
      in (case df_SegmentList df of Some s \<Rightarrow> p\<lparr>pol_SegmentList := s\<rparr> | None \<Rightarrow> p))"

section \<open>Laws\<close>

lemma SegmentSRv6_Behavior_no_panic [simp]: "SegmentSRv6_Behavior seg \<noteq> panic"
  by (simp add: SegmentSRv6_Behavior_def)

lemma SRPolicy_Update_identity [simp]:
  "pol_PlspID (SRPolicy_Update p df) = pol_PlspID p"
  "pol_SrcAddr (SRPolicy_Update p df) = pol_SrcAddr p"
  "pol_DstAddr (SRPolicy_Update p df) = pol_DstAddr p"
  "pol_Type (SRPolicy_Update p df) = pol_Type p"
  "pol_Metric (SRPolicy_Update p df) = pol_Metric p"
  "pol_State (SRPolicy_Update p df) = df_State df"
  "pol_LSPID (SRPolicy_Update p df) = df_LSPID df"
  by (simp_all add: SRPolicy_Update_def Let_def split: option.splits)

end
