(* ===== verification/Objects.thy ===== *)
theory Objects
  imports Tlv_Seq Segment
begin

text \<open>
  The common object header and the objects of \<open>src/pkg/packet/pcep/object.go\<close> whose body
  is a fixed part followed by TLVs: OPEN, BANDWIDTH, METRIC, LSPA, PCEP-ERROR, CLOSE, SRP
  and LSP. The locale \<open>object_codec\<close> is what an object type promises to the messages that
  carry it; each type with both directions interprets it.
\<close>

section \<open>The common object header\<close>

abbreviation (input) commonObjectHeaderLength :: nat where "commonObjectHeaderLength \<equiv> 4"

abbreviation (input) ObjectClassOpen :: u8 where "ObjectClassOpen \<equiv> 0x01"
abbreviation (input) ObjectClassEndpoints :: u8 where "ObjectClassEndpoints \<equiv> 0x04"
abbreviation (input) ObjectClassBandwidth :: u8 where "ObjectClassBandwidth \<equiv> 0x05"
abbreviation (input) ObjectClassMetric :: u8 where "ObjectClassMetric \<equiv> 0x06"
abbreviation (input) ObjectClassERO :: u8 where "ObjectClassERO \<equiv> 0x07"
abbreviation (input) ObjectClassLSPA :: u8 where "ObjectClassLSPA \<equiv> 0x09"
abbreviation (input) ObjectClassPCEPError :: u8 where "ObjectClassPCEPError \<equiv> 0x0d"
abbreviation (input) ObjectClassClose :: u8 where "ObjectClassClose \<equiv> 0x0f"
abbreviation (input) ObjectClassLSP :: u8 where "ObjectClassLSP \<equiv> 0x20"
abbreviation (input) ObjectClassSRP :: u8 where "ObjectClassSRP \<equiv> 0x21"
abbreviation (input) ObjectClassVendorInformation :: u8 where "ObjectClassVendorInformation \<equiv> 0x22"
abbreviation (input) ObjectClassAssociation :: u8 where "ObjectClassAssociation \<equiv> 0x28"

abbreviation (input) IFlagMask :: u8 where "IFlagMask \<equiv> 0x01"
abbreviation (input) PFlagMask :: u8 where "PFlagMask \<equiv> 0x02"

record CommonObjectHeader =
  coh_ObjectClass :: u8
  coh_ObjectType :: u8
  coh_ResFlags :: u8
  coh_PFlag :: bool
  coh_IFlag :: bool
  coh_ObjectLength :: u16

definition CommonObjectHeader_DecodeFromBytes :: "bytes \<Rightarrow> CommonObjectHeader result" where
  "CommonObjectHeader_DecodeFromBytes objectHeader =
     (if length objectHeader < commonObjectHeaderLength
      then errorf ''object header too short'' [int (length objectHeader), int commonObjectHeaderLength]
      else
        bindE (indexE objectHeader 0) (\<lambda>b0.
        bindE (indexE objectHeader 1) (\<lambda>b1.
        bindE (bindE (sliceE objectHeader 2 4) beUint16) (\<lambda>len.
        Inr \<lparr>coh_ObjectClass = b0, coh_ObjectType = drop_bit 4 (b1 AND 0xf0),
             coh_ResFlags = drop_bit 2 (b1 AND 0x0c),
             coh_PFlag = (b1 AND PFlagMask \<noteq> 0), coh_IFlag = (b1 AND IFlagMask \<noteq> 0),
             coh_ObjectLength = len\<rparr>))))"

definition CommonObjectHeader_Serialize :: "CommonObjectHeader \<Rightarrow> bytes" where
  "CommonObjectHeader_Serialize h =
     (let Flagbyte = push_bit 4 (coh_ObjectType h) OR push_bit 2 (coh_ResFlags h);
          Flagbyte = (if coh_PFlag h then Flagbyte OR PFlagMask else Flagbyte);
          Flagbyte = (if coh_IFlag h then Flagbyte OR IFlagMask else Flagbyte) in
      [coh_ObjectClass h] @ [Flagbyte] @ Uint16ToByteSlice (coh_ObjectLength h))"

definition NewCommonObjectHeader :: "u8 \<Rightarrow> u8 \<Rightarrow> u16 \<Rightarrow> CommonObjectHeader" where
  "NewCommonObjectHeader objectClass objectType messageLength =
     \<lparr>coh_ObjectClass = objectClass, coh_ObjectType = objectType, coh_ResFlags = 0,
      coh_PFlag = False, coh_IFlag = False, coh_ObjectLength = messageLength\<rparr>"

definition CommonObjectHeader_ok :: "CommonObjectHeader \<Rightarrow> bool" where
  "CommonObjectHeader_ok h \<longleftrightarrow> coh_ObjectType h < 16 \<and> coh_ResFlags h < 4"

lemma u8_eqI: "(\<And>n. n < 8 \<Longrightarrow> bit a n = bit b n) \<Longrightarrow> a = (b :: u8)"
  by (rule bit_word_eqI) simp

lemma bit_small_u8: "unat (w :: u8) < 2 ^ k \<Longrightarrow> k \<le> n \<Longrightarrow> \<not> bit w n"
proof
  assume w: "unat w < 2 ^ k" and k: "k \<le> n" and b: "bit w n"
  have "\<not> bit (unat w) n"
    using w k by (metis bit_take_bit_iff not_le take_bit_nat_eq_self)
  with b show False by (simp add: bit_unsigned_iff)
qed

lemma less_8: "n < 8 \<longleftrightarrow> n = 0 \<or> n = 1 \<or> n = 2 \<or> n = 3 \<or> n = 4 \<or> n = 5 \<or> n = 6 \<or> n = (7 :: nat)"
  by auto

lemma header_byte:
  fixes t r :: u8
  assumes "t < 16" "r < 4" "p \<in> {0, 2}" "i \<in> {0, 1}"
  defines "b \<equiv> push_bit 4 t OR push_bit 2 r OR p OR i"
  shows "drop_bit 4 (b AND 0xf0) = t" "drop_bit 2 (b AND 0x0c) = r"
    "b AND 2 = p" "b AND 1 = i"
proof -
  have t: "\<not> bit t n" if "4 \<le> n" for n by (rule bit_small_u8 [of t 4]) (use assms that in \<open>auto simp: word_less_nat_alt\<close>)
  have r: "\<not> bit r n" if "2 \<le> n" for n by (rule bit_small_u8 [of r 2]) (use assms that in \<open>auto simp: word_less_nat_alt\<close>)
  note tr = t [of 4] t [of 5] t [of 6] t [of 7] r [of 2] r [of 3] r [of 4] r [of 5] r [of 6] r [of 7]
  have rs: "\<not> bit r (Suc (Suc n))" for n by (rule r) simp
  show "drop_bit 4 (b AND 0xf0) = t" "drop_bit 2 (b AND 0x0c) = r"
    "b AND 2 = p" "b AND 1 = i"
    using assms(3,4) tr
    by (auto intro!: u8_eqI simp: b_def bit_simps less_8 rs)
qed

lemma CommonObjectHeader_decode_bytes:
  "CommonObjectHeader_DecodeFromBytes (c # b # be16 len @ rest) =
     Inr \<lparr>coh_ObjectClass = c, coh_ObjectType = drop_bit 4 (b AND 0xf0),
       coh_ResFlags = drop_bit 2 (b AND 0x0c), coh_PFlag = (b AND PFlagMask \<noteq> 0),
       coh_IFlag = (b AND IFlagMask \<noteq> 0), coh_ObjectLength = len\<rparr>"
  by (simp add: CommonObjectHeader_DecodeFromBytes_def)

lemma CommonObjectHeader_roundtrip_rest:
  assumes "CommonObjectHeader_ok h"
  shows "CommonObjectHeader_DecodeFromBytes (CommonObjectHeader_Serialize h @ rest) = Inr h"
proof -
  define p where "p = (if coh_PFlag h then PFlagMask else 0)"
  define i where "i = (if coh_IFlag h then IFlagMask else 0)"
  have b: "CommonObjectHeader_Serialize h =
      [coh_ObjectClass h, push_bit 4 (coh_ObjectType h) OR push_bit 2 (coh_ResFlags h) OR p OR i] @
      be16 (coh_ObjectLength h)"
    by (simp add: CommonObjectHeader_Serialize_def p_def i_def Let_def Uint16ToByteSlice_def or.assoc)
  have ok: "coh_ObjectType h < 16" "coh_ResFlags h < 4" "p \<in> {0, 2}" "i \<in> {0, 1}"
    using assms by (auto simp: CommonObjectHeader_ok_def p_def i_def)
  note hb = header_byte [OF ok]
  have pi: "(p \<noteq> 0) = coh_PFlag h" "(i \<noteq> 0) = coh_IFlag h" by (simp_all add: p_def i_def)
  show ?thesis
    unfolding b append_Cons append_Nil append_assoc CommonObjectHeader_decode_bytes hb pi
    by simp
qed

section \<open>Frames and the contract of an object type\<close>

definition object_frame :: "u8 \<Rightarrow> u8 \<Rightarrow> bytes \<Rightarrow> bytes" where
  "object_frame cls objType body =
     CommonObjectHeader_Serialize (NewCommonObjectHeader cls objType (word_of_nat (4 + length body))) @ body"

definition max_object :: nat where "max_object = 65532"

lemma length_CommonObjectHeader_Serialize [simp, wire_len]:
  "length (CommonObjectHeader_Serialize h) = 4"
  by (simp add: CommonObjectHeader_Serialize_def Let_def)

lemma length_object_frame [simp, wire_len]: "length (object_frame c t body) = 4 + length body"
  by (simp add: object_frame_def)

lemma object_frame_header:
  assumes "t < 16"
  shows "CommonObjectHeader_DecodeFromBytes (object_frame c t body @ rest) =
    Inr (NewCommonObjectHeader c t (word_of_nat (4 + length body)))"
  using assms unfolding object_frame_def append_assoc
  by (intro CommonObjectHeader_roundtrip_rest) (simp add: CommonObjectHeader_ok_def NewCommonObjectHeader_def)

lemma object_frame_header4:
  assumes "t < 16"
  shows "CommonObjectHeader_DecodeFromBytes (take 4 (object_frame c t body @ rest)) =
    Inr (NewCommonObjectHeader c t (word_of_nat (4 + length body)))"
  using CommonObjectHeader_roundtrip_rest [of "NewCommonObjectHeader c t (word_of_nat (4 + length body))" "[]"] assms
  by (simp add: object_frame_def CommonObjectHeader_ok_def NewCommonObjectHeader_def)

lemma object_frame_body:
  assumes "4 + length body \<le> max_object"
  shows "unat (word_of_nat (4 + length body) :: u16) = 4 + length body"
    and "sliceE (object_frame c t body @ rest) 4 (4 + length body) = Inr body"
    and "drop (4 + length body) (object_frame c t body @ rest) = rest"
proof -
  show "unat (word_of_nat (4 + length body) :: u16) = 4 + length body"
    by (rule unat_u16_id) (use assms in \<open>simp add: max_object_def\<close>)
  show "sliceE (object_frame c t body @ rest) 4 (4 + length body) = Inr body"
    by (simp add: sliceE_def object_frame_def)
  show "drop (4 + length body) (object_frame c t body @ rest) = rest"
    using append_eq_conv_conj [of "object_frame c t body" rest] by simp
qed

locale object_codec =
  fixes decode :: "u8 \<Rightarrow> bytes \<Rightarrow> 'a result"
    and serialize :: "'a \<Rightarrow> bytes result"
    and cls :: u8
    and otype :: "'a \<Rightarrow> u8"
    and len :: "'a \<Rightarrow> u16"
    and ok :: "'a \<Rightarrow> bool"
  assumes otype_small: "ok x \<Longrightarrow> otype x < 16"
    and roundtrip: "ok x \<Longrightarrow>
      \<exists>body. 4 + length body \<le> max_object \<and> 4 dvd length body \<and>
        serialize x = Inr (object_frame cls (otype x) body) \<and>
        unat (len x) = 4 + length body \<and> decode (otype x) body = Inr x"
begin

text \<open>
  Reading an encoded object at the front of a message: the header names its class, type
  and length, the body between header and length decodes to the object, and dropping the
  length leaves what follows.
\<close>

lemma read_back:
  assumes "ok x"
  obtains bs where "serialize x = Inr bs" "length bs = unat (len x)" "4 dvd length bs"
    "4 \<le> length bs" "length bs \<le> max_object"
    "\<And>rest. CommonObjectHeader_DecodeFromBytes (bs @ rest) = Inr (NewCommonObjectHeader cls (otype x) (len x))"
    "\<And>rest. CommonObjectHeader_DecodeFromBytes (take 4 (bs @ rest)) =
       Inr (NewCommonObjectHeader cls (otype x) (len x))"
    "\<And>rest. bindE (sliceE (bs @ rest) 4 (unat (len x))) (decode (otype x)) = Inr x"
    "\<And>rest. drop (unat (len x)) (bs @ rest) = rest"
proof -
  obtain body where b: "4 + length body \<le> max_object" "4 dvd length body"
      "serialize x = Inr (object_frame cls (otype x) body)"
      "unat (len x) = 4 + length body" "decode (otype x) body = Inr x"
    using roundtrip [OF assms] by blast
  have w: "len x = word_of_nat (4 + length body)" by (rule word_of_nat_inverse_u16 [OF b(4)])
  note f = object_frame_header [OF otype_small [OF assms]] object_frame_header4 [OF otype_small [OF assms]]
    object_frame_body(2,3) [OF b(1)]
  have d: "4 dvd 4 + length body" using b(2) by simp
  show ?thesis
    by (rule that [OF b(3)], unfold f(1,2) w [symmetric] b(4) f(3,4))
      (use b d in \<open>simp_all del: dvd_add_triv_left_iff\<close>)
qed

lemma serialize_no_panic: "ok x \<Longrightarrow> serialize x \<noteq> panic"
  using roundtrip by fastforce

lemma serialize_total: "ok x \<Longrightarrow> \<exists>bs. serialize x = Inr bs"
  using roundtrip by fastforce

lemma read_at:
  assumes "ok x" "serialize x = Inr bs"
  shows "CommonObjectHeader_DecodeFromBytes (bs @ rest) = Inr (NewCommonObjectHeader cls (otype x) (len x)) \<and>
    bindE (sliceE (bs @ rest) 4 (unat (len x))) (decode (otype x)) = Inr x"
proof (rule read_back [OF assms(1)])
  fix bs'
  assume "serialize x = Inr bs'"
    "\<And>rest. CommonObjectHeader_DecodeFromBytes (bs' @ rest) = Inr (NewCommonObjectHeader cls (otype x) (len x))"
    "\<And>rest. bindE (sliceE (bs' @ rest) 4 (unat (len x))) (decode (otype x)) = Inr x"
  with assms(2) show ?thesis by simp
qed

end

section \<open>The TLV loops of the encoders\<close>

text \<open>\<open>for _, tlv := range o.TLVs { byteTLVs = append(byteTLVs, tlv.Serialize()...) }\<close>\<close>

definition appendTLVs :: "tlv list \<Rightarrow> bytes result" where
  "appendTLVs tlvs = bindE (mapE tlv_Serialize tlvs) (\<lambda>bss. Inr (concat bss))"

definition tlvsByteLength :: "tlv list \<Rightarrow> u16" where
  "tlvsByteLength tlvs = sum_list (map tlv_Len tlvs)"

definition tlvs_size :: "tlv list \<Rightarrow> nat" where
  "tlvs_size tlvs = sum_list (map (unat \<circ> tlv_Len) tlvs)"

lemma tlvsByteLength_eq: "tlvsByteLength tlvs = word_of_nat (tlvs_size tlvs)"
  by (simp add: tlvsByteLength_def tlvs_size_def sum_list_words)

lemma appendTLVs_ok:
  assumes "list_all tlv_ok tlvs"
  obtains bs where "appendTLVs tlvs = Inr bs" "DecodeTLVs bs = Inr tlvs"
    "length bs = tlvs_size tlvs" "4 dvd length bs"
proof -
  have f: "list_all (framed decodeTLV tlv_Serialize tlv_Len) tlvs"
    using assms tlv_framed by (auto simp: list_all_iff)
  obtain bss where "mapE tlv_Serialize tlvs = Inr bss" "decodeTLVSequence decodeTLV (concat bss) = Inr tlvs"
    "length (concat bss) = sum_list (map (unat \<circ> tlv_Len) tlvs)" "4 dvd length (concat bss)"
    by (rule decodeTLVSequence_roundtrip [OF f])
  then show ?thesis
    by (intro that [of "concat bss"]) (simp_all add: appendTLVs_def DecodeTLVs_def tlvs_size_def)
qed

text \<open>\<open>if cond { buf[i] = buf[i] | m }\<close>\<close>

definition orE :: "bool \<Rightarrow> bytes \<Rightarrow> nat \<Rightarrow> u8 \<Rightarrow> bytes result" where
  "orE cond buf i m = (if cond then bindE (indexE buf i) (\<lambda>b. setE buf i (b OR m)) else Inr buf)"

lemma orE_in [simp]:
  "i < length buf \<Longrightarrow> orE c buf i m = Inr (if c then buf[i := buf ! i OR m] else buf)"
  by (simp add: orE_def)

section \<open>OPEN\<close>

abbreviation (input) ObjectTypeOpenOpen :: u8 where "ObjectTypeOpenOpen \<equiv> 0x01"

text \<open>\<open>CapabilityInterface\<close>: the TLV types that have a \<open>CapStrings\<close> method.\<close>

fun isCapability :: "tlv \<Rightarrow> bool" where
  "isCapability (TLV_VendorInformation _) = True"
| "isCapability (TLV_StatefulPCECapability _) = True"
| "isCapability (TLV_LSPDBVersion _) = True"
| "isCapability (TLV_SRPCECapability _) = True"
| "isCapability (TLV_SRv6PCECapability _) = True"
| "isCapability (TLV_MultipathCapability _) = True"
| "isCapability (TLV_PathSetupTypeCapability _) = True"
| "isCapability (TLV_AssocTypeList _) = True"
| "isCapability (TLV_Unknown _) = True"
| "isCapability _ = False"

record OpenObject =
  oo_ObjectType :: u8
  oo_Version :: u8
  oo_Flag :: u8
  oo_Keepalive :: u8
  oo_Deadtime :: u8
  oo_Sid :: u8
  oo_Caps :: "tlv list"

definition OpenObject_zero :: OpenObject where
  "OpenObject_zero = \<lparr>oo_ObjectType = 0, oo_Version = 0, oo_Flag = 0, oo_Keepalive = 0,
     oo_Deadtime = 0, oo_Sid = 0, oo_Caps = []\<rparr>"

definition OpenObject_DecodeFromBytes :: "OpenObject \<Rightarrow> u8 \<Rightarrow> bytes \<Rightarrow> OpenObject result" where
  "OpenObject_DecodeFromBytes obj objType objectBody =
     bindE (indexE objectBody 0) (\<lambda>b0.
     bindE (indexE objectBody 1) (\<lambda>b1.
     bindE (indexE objectBody 2) (\<lambda>b2.
     bindE (indexE objectBody 3) (\<lambda>b3.
     bindE (sliceE objectBody 4 (length objectBody)) (\<lambda>byteTLVs.
     bindE (DecodeTLVs byteTLVs) (\<lambda>tlvs.
     Inr (obj\<lparr>oo_ObjectType := objType, oo_Version := drop_bit 5 b0, oo_Flag := b0 AND 0x1f,
              oo_Keepalive := b1, oo_Deadtime := b2, oo_Sid := b3,
              oo_Caps := oo_Caps obj @ filter isCapability tlvs\<rparr>)))))))"

definition OpenObject_Len :: "OpenObject \<Rightarrow> u16" where
  "OpenObject_Len obj = word_of_nat commonObjectHeaderLength + 4 + tlvsByteLength (oo_Caps obj)"

definition OpenObject_Serialize :: "OpenObject \<Rightarrow> bytes result" where
  "OpenObject_Serialize obj =
     (let header = CommonObjectHeader_Serialize
            (NewCommonObjectHeader ObjectClassOpen (oo_ObjectType obj) (OpenObject_Len obj)) in
      bindE (setE (makeBytes 4) 0 (push_bit 5 (oo_Version obj) OR (oo_Flag obj AND 0x1f))) (\<lambda>buf.
      bindE (setE buf 1 (oo_Keepalive obj)) (\<lambda>buf.
      bindE (setE buf 2 (oo_Deadtime obj)) (\<lambda>buf.
      bindE (setE buf 3 (oo_Sid obj)) (\<lambda>buf.
      bindE (appendTLVs (oo_Caps obj)) (\<lambda>byteTLVs.
      Inr (AppendByteSlices [header, buf, byteTLVs])))))))"

definition NewOpenObject :: "u8 \<Rightarrow> u8 \<Rightarrow> tlv list \<Rightarrow> OpenObject result" where
  "NewOpenObject sessionID keepalive capabilities =
     Inr \<lparr>oo_ObjectType = ObjectTypeOpenOpen, oo_Version = 1, oo_Flag = 0, oo_Keepalive = keepalive,
          oo_Deadtime = keepalive * 4, oo_Sid = sessionID, oo_Caps = capabilities\<rparr>"

definition OpenObject_ok :: "OpenObject \<Rightarrow> bool" where
  "OpenObject_ok obj \<longleftrightarrow> oo_ObjectType obj < 16 \<and> oo_Version obj < 8 \<and> oo_Flag obj < 32 \<and>
     list_all tlv_ok (oo_Caps obj) \<and> list_all isCapability (oo_Caps obj) \<and>
     8 + tlvs_size (oo_Caps obj) \<le> max_object"

lemma dvd4_Suc [simp]: "4 dvd Suc (Suc (Suc (Suc n))) \<longleftrightarrow> 4 dvd n"
  by presburger

lemma filter_all: "list_all P xs \<Longrightarrow> filter P xs = xs"
  by (induction xs) auto

lemma version_flag_byte:
  fixes v f :: u8
  assumes "v < 8" "f < 32"
  defines "b \<equiv> push_bit 5 v OR (f AND 0x1f)"
  shows "drop_bit 5 b = v" "b AND 0x1f = f"
proof -
  have v: "\<not> bit v n" if "3 \<le> n" for n
    by (rule bit_small_u8 [of v 3]) (use assms that in \<open>auto simp: word_less_nat_alt\<close>)
  have f: "\<not> bit f n" if "5 \<le> n" for n
    by (rule bit_small_u8 [of f 5]) (use assms that in \<open>auto simp: word_less_nat_alt\<close>)
  note vf = v [of 3] v [of 4] v [of 5] v [of 6] v [of 7] f [of 5] f [of 6] f [of 7]
  have fs: "\<not> bit f (Suc (Suc (Suc (Suc (Suc n)))))" for n by (rule f) simp
  show "drop_bit 5 b = v" "b AND 0x1f = f"
    using vf by (auto intro!: u8_eqI simp: b_def bit_simps less_8 fs)
qed

lemma object_frame_fold:
  "w = word_of_nat (4 + length body) \<Longrightarrow>
   CommonObjectHeader_Serialize (NewCommonObjectHeader c t w) @ body = object_frame c t body"
  by (simp add: object_frame_def)

interpretation open_object: object_codec "OpenObject_DecodeFromBytes OpenObject_zero"
  OpenObject_Serialize ObjectClassOpen oo_ObjectType OpenObject_Len OpenObject_ok
proof
  fix x assume ok: "OpenObject_ok x"
  then show "oo_ObjectType x < 16" by (simp add: OpenObject_ok_def)
  obtain bs where bs: "appendTLVs (oo_Caps x) = Inr bs" "DecodeTLVs bs = Inr (oo_Caps x)"
      "length bs = tlvs_size (oo_Caps x)" "4 dvd length bs"
    using ok by (auto simp: OpenObject_ok_def elim: appendTLVs_ok)
  define b0 where "b0 = push_bit 5 (oo_Version x) OR (oo_Flag x AND 0x1f)"
  let ?body = "[b0, oo_Keepalive x, oo_Deadtime x, oo_Sid x] @ bs"
  have vf: "drop_bit 5 b0 = oo_Version x" "b0 AND 0x1f = oo_Flag x"
    unfolding b0_def by (rule version_flag_byte; use ok in \<open>simp add: OpenObject_ok_def\<close>)+
  have w: "OpenObject_Len x = word_of_nat (4 + length ?body)"
    by (simp add: OpenObject_Len_def tlvsByteLength_eq bs(3))
  have "4 + length ?body \<le> max_object" using ok bs(3) by (simp add: OpenObject_ok_def)
  moreover from this have "unat (OpenObject_Len x) = 4 + length ?body"
    unfolding w by (rule object_frame_body(1))
  moreover have "OpenObject_Serialize x = Inr (object_frame ObjectClassOpen (oo_ObjectType x) ?body)"
    by (simp add: OpenObject_Serialize_def Let_def b0_def [symmetric] bs(1) makeBytes_4 object_frame_fold [OF w, symmetric]
        del: append_Cons)
  moreover have "OpenObject_DecodeFromBytes OpenObject_zero (oo_ObjectType x) ?body = Inr x"
    using ok bs(2) by (simp add: OpenObject_DecodeFromBytes_def vf OpenObject_zero_def
        OpenObject_ok_def filter_all)
  moreover have "4 dvd length ?body" using bs(4) by simp
  ultimately show "\<exists>body. 4 + length body \<le> max_object \<and> 4 dvd length body \<and>
      OpenObject_Serialize x = Inr (object_frame ObjectClassOpen (oo_ObjectType x) body) \<and>
      unat (OpenObject_Len x) = 4 + length body \<and>
      OpenObject_DecodeFromBytes OpenObject_zero (oo_ObjectType x) body = Inr x"
    by blast
qed

section \<open>BANDWIDTH\<close>

record BandwidthObject =
  bw_ObjectType :: u8
  bw_Bandwidth :: u32

definition BandwidthObject_DecodeFromBytes :: "u8 \<Rightarrow> bytes \<Rightarrow> BandwidthObject result" where
  "BandwidthObject_DecodeFromBytes objectType objectBody =
     bindE (beUint32 objectBody) (\<lambda>bandwidth.
     Inr \<lparr>bw_ObjectType = objectType, bw_Bandwidth = bandwidth\<rparr>)"

section \<open>METRIC\<close>

record MetricObject =
  mo_ObjectType :: u8
  mo_CFlag :: bool
  mo_BFlag :: bool
  mo_MetricType :: u8
  mo_MetricValue :: u32

text \<open>
  A slice expression may reach past the length of its operand, up to its capacity. The
  bodies of PCRpt objects are windows into the message, so what follows in the message is
  within capacity: \<open>sliceCapE vis beyond lo hi\<close> is \<open>vis[lo:hi]\<close> with \<open>beyond\<close> after \<open>vis\<close>.
\<close>

definition sliceCapE :: "bytes \<Rightarrow> bytes \<Rightarrow> nat \<Rightarrow> nat \<Rightarrow> bytes result" where
  "sliceCapE vis beyond lo hi = sliceE (vis @ beyond) lo hi"

definition MetricObject_DecodeFromBytes :: "u8 \<Rightarrow> bytes \<Rightarrow> bytes \<Rightarrow> MetricObject result" where
  "MetricObject_DecodeFromBytes objType objectBody beyond =
     bindE (indexE objectBody 2) (\<lambda>b2.
     bindE (indexE objectBody 3) (\<lambda>b3.
     bindE (bindE (sliceCapE objectBody beyond 4 8) beUint32) (\<lambda>metricValue.
     Inr \<lparr>mo_ObjectType = objType, mo_CFlag = (b2 AND 0x02 \<noteq> 0), mo_BFlag = (b2 AND 0x01 \<noteq> 0),
          mo_MetricType = b3, mo_MetricValue = metricValue\<rparr>)))"

text \<open>
  \<open>math.Float32bits(float32(v))\<close> for a \<open>uint32\<close>: the IEEE 754 single precision encoding of
  the value, rounded to 24 significant bits, halves to even.
\<close>

definition float32_mantissa :: "nat \<Rightarrow> nat \<Rightarrow> nat" where
  "float32_mantissa e n =
     (if e \<le> 23 then n * 2 ^ (23 - e)
      else
        let d = 2 ^ (e - 23); q = n div d; r = n mod d in
        if 2 * r > d \<or> 2 * r = d \<and> odd q then q + 1 else q)"

fun floor_log2 :: "nat \<Rightarrow> nat" where
  "floor_log2 n = (if n < 2 then 0 else Suc (floor_log2 (n div 2)))"

definition Float32bits_of_uint32 :: "u32 \<Rightarrow> u32" where
  "Float32bits_of_uint32 v =
     (let n = unat v; e = floor_log2 n in
      if n = 0 then 0 else word_of_nat ((e + 127) * 2 ^ 23 + float32_mantissa e n - 2 ^ 23))"

definition MetricObject_Len :: "MetricObject \<Rightarrow> u16" where
  "MetricObject_Len obj = word_of_nat commonObjectHeaderLength + 8"

definition MetricObject_Serialize :: "MetricObject \<Rightarrow> bytes result" where
  "MetricObject_Serialize obj =
     (let header = CommonObjectHeader_Serialize
            (NewCommonObjectHeader ObjectClassMetric (mo_ObjectType obj) (MetricObject_Len obj)) in
      bindE (orE (mo_CFlag obj) (makeBytes 8) 2 0x02) (\<lambda>buf.
      bindE (orE (mo_BFlag obj) buf 2 0x01) (\<lambda>buf.
      bindE (setE buf 3 (mo_MetricType obj)) (\<lambda>buf.
      bindE (putE buf 4 8 (be32 (Float32bits_of_uint32 (mo_MetricValue obj)))) (\<lambda>buf.
      Inr (AppendByteSlices [header, buf]))))))"

definition NewMetricObject :: "MetricObject result" where
  "NewMetricObject =
     Inr \<lparr>mo_ObjectType = 1, mo_CFlag = False, mo_BFlag = False, mo_MetricType = 2, mo_MetricValue = 30\<rparr>"

section \<open>LSPA\<close>

record LSPAObject =
  la_ObjectType :: u8
  la_ExcludeAny :: u32
  la_IncludeAny :: u32
  la_IncludeAll :: u32
  la_SetupPriority :: u8
  la_HoldingPriority :: u8
  la_LFlag :: bool

definition LSPAObject_zero :: LSPAObject where
  "LSPAObject_zero = \<lparr>la_ObjectType = 0, la_ExcludeAny = 0, la_IncludeAny = 0, la_IncludeAll = 0,
     la_SetupPriority = 0, la_HoldingPriority = 0, la_LFlag = False\<rparr>"

definition LSPAObject_DecodeFromBytes :: "LSPAObject \<Rightarrow> u8 \<Rightarrow> bytes \<Rightarrow> bytes \<Rightarrow> LSPAObject result" where
  "LSPAObject_DecodeFromBytes obj objType objectBody beyond =
     bindE (bindE (sliceCapE objectBody beyond 0 4) beUint32) (\<lambda>excludeAny.
     bindE (bindE (sliceCapE objectBody beyond 4 8) beUint32) (\<lambda>includeAny.
     bindE (bindE (sliceCapE objectBody beyond 8 12) beUint32) (\<lambda>includeAll.
     bindE (indexE objectBody 12) (\<lambda>setup.
     bindE (indexE objectBody 13) (\<lambda>holding.
     bindE (indexE objectBody 14) (\<lambda>flags.
     Inr (obj\<lparr>la_ObjectType := objType, la_ExcludeAny := excludeAny, la_IncludeAny := includeAny,
              la_IncludeAll := includeAll, la_SetupPriority := setup, la_HoldingPriority := holding,
              la_LFlag := (flags AND 0x01 \<noteq> 0)\<rparr>)))))))"

definition LSPAObject_Len :: "LSPAObject \<Rightarrow> u16" where
  "LSPAObject_Len obj = word_of_nat commonObjectHeaderLength + 16"

definition LSPAObject_Serialize :: "LSPAObject \<Rightarrow> bytes result" where
  "LSPAObject_Serialize obj =
     (let header = CommonObjectHeader_Serialize
            (NewCommonObjectHeader ObjectClassLSPA (la_ObjectType obj) (LSPAObject_Len obj)) in
      bindE (putE (makeBytes 16) 0 4 (be32 (la_ExcludeAny obj))) (\<lambda>buf.
      bindE (putE buf 4 8 (be32 (la_IncludeAny obj))) (\<lambda>buf.
      bindE (putE buf 8 12 (be32 (la_IncludeAll obj))) (\<lambda>buf.
      bindE (setE buf 12 (la_SetupPriority obj)) (\<lambda>buf.
      bindE (setE buf 13 (la_HoldingPriority obj)) (\<lambda>buf.
      bindE (orE (la_LFlag obj) buf 14 0x01) (\<lambda>buf.
      Inr (AppendByteSlices [header, buf]))))))))"

definition NewLSPAObject :: "LSPAObject result" where
  "NewLSPAObject = Inr (LSPAObject_zero\<lparr>la_ObjectType := 1, la_SetupPriority := 7,
     la_HoldingPriority := 7, la_LFlag := True\<rparr>)"

definition LSPAObject_ok :: "LSPAObject \<Rightarrow> bool" where
  "LSPAObject_ok obj \<longleftrightarrow> la_ObjectType obj < 16"

lemma nth_append_add: "length xs = k \<Longrightarrow> (xs @ ys) ! (k + i) = ys ! i"
  by (simp add: nth_append)

interpretation lspa_object: object_codec "\<lambda>t body. LSPAObject_DecodeFromBytes LSPAObject_zero t body beyond"
  LSPAObject_Serialize ObjectClassLSPA la_ObjectType LSPAObject_Len LSPAObject_ok for beyond
proof
  fix x assume ok: "LSPAObject_ok x"
  then show "la_ObjectType x < 16" by (simp add: LSPAObject_ok_def)
  let ?f = "if la_LFlag x then 1 else 0 :: u8"
  let ?body = "be32 (la_ExcludeAny x) @ be32 (la_IncludeAny x) @ be32 (la_IncludeAll x) @
    [la_SetupPriority x, la_HoldingPriority x, ?f, 0]"
  have m: "makeBytes 16 = makeBytes 4 @ makeBytes 4 @ makeBytes 4 @ [0, 0, 0, 0]"
    by (simp add: makeBytes_def numeral_eq_Suc)
  have w: "LSPAObject_Len x = word_of_nat (4 + length ?body)" by (simp add: LSPAObject_Len_def)
  have "LSPAObject_Serialize x = Inr (object_frame ObjectClassLSPA (la_ObjectType x) ?body)"
    by (simp add: LSPAObject_Serialize_def Let_def m nth_append list_update_append
        object_frame_fold [OF w, symmetric])
  moreover have "LSPAObject_DecodeFromBytes LSPAObject_zero (la_ObjectType x) ?body beyond = Inr x"
    by (cases x) (simp add: LSPAObject_DecodeFromBytes_def sliceCapE_def LSPAObject_zero_def nth_append)
  ultimately show "\<exists>body. 4 + length body \<le> max_object \<and> 4 dvd length body \<and>
      LSPAObject_Serialize x = Inr (object_frame ObjectClassLSPA (la_ObjectType x) body) \<and>
      unat (LSPAObject_Len x) = 4 + length body \<and>
      LSPAObject_DecodeFromBytes LSPAObject_zero (la_ObjectType x) body beyond = Inr x"
    by (intro exI [of _ ?body]) (simp add: max_object_def LSPAObject_Len_def)
qed

section \<open>PCEP-ERROR\<close>

abbreviation (input) ObjectTypeErrorError :: u8 where "ObjectTypeErrorError \<equiv> 0x01"

record PCEPErrorObject =
  pe_ObjectType :: u8
  pe_ErrorType :: u8
  pe_ErrorValue :: u8
  pe_Tlvs :: "tlv list"

definition PCEPErrorObject_zero :: PCEPErrorObject where
  "PCEPErrorObject_zero = \<lparr>pe_ObjectType = 0, pe_ErrorType = 0, pe_ErrorValue = 0, pe_Tlvs = []\<rparr>"

definition PCEPErrorObject_DecodeFromBytes :: "PCEPErrorObject \<Rightarrow> u8 \<Rightarrow> bytes \<Rightarrow> PCEPErrorObject result" where
  "PCEPErrorObject_DecodeFromBytes obj objType objectBody =
     (if length objectBody < 4
      then errorf ''PCEP-ERROR object body too short'' [int (length objectBody)]
      else
        bindE (indexE objectBody 2) (\<lambda>errorType.
        bindE (indexE objectBody 3) (\<lambda>errorValue.
        let obj = obj\<lparr>pe_ObjectType := objType, pe_ErrorType := errorType, pe_ErrorValue := errorValue\<rparr> in
        if length objectBody > 4
        then bindE (sliceE objectBody 4 (length objectBody)) (\<lambda>byteTlvs.
             bindE (DecodeTLVs byteTlvs) (\<lambda>tlvs. Inr (obj\<lparr>pe_Tlvs := tlvs\<rparr>)))
        else Inr obj)))"

definition PCEPErrorObject_Len :: "PCEPErrorObject \<Rightarrow> u16" where
  "PCEPErrorObject_Len obj = word_of_nat commonObjectHeaderLength + 4 + tlvsByteLength (pe_Tlvs obj)"

definition PCEPErrorObject_Serialize :: "PCEPErrorObject \<Rightarrow> bytes result" where
  "PCEPErrorObject_Serialize obj =
     (let header = CommonObjectHeader_Serialize
            (NewCommonObjectHeader ObjectClassPCEPError (pe_ObjectType obj) (PCEPErrorObject_Len obj)) in
      bindE (setE (makeBytes 4) 2 (pe_ErrorType obj)) (\<lambda>buf.
      bindE (setE buf 3 (pe_ErrorValue obj)) (\<lambda>buf.
      bindE (appendTLVs (pe_Tlvs obj)) (\<lambda>byteTlvs.
      Inr (AppendByteSlices [header, buf, byteTlvs])))))"

definition NewPCEPErrorObject :: "u8 \<Rightarrow> u8 \<Rightarrow> tlv list \<Rightarrow> PCEPErrorObject result" where
  "NewPCEPErrorObject errorType errorValue tlvs =
     Inr \<lparr>pe_ObjectType = ObjectTypeErrorError, pe_ErrorType = errorType, pe_ErrorValue = errorValue,
          pe_Tlvs = tlvs\<rparr>"

definition PCEPErrorObject_ok :: "PCEPErrorObject \<Rightarrow> bool" where
  "PCEPErrorObject_ok obj \<longleftrightarrow> pe_ObjectType obj < 16 \<and> list_all tlv_ok (pe_Tlvs obj) \<and>
     8 + tlvs_size (pe_Tlvs obj) \<le> max_object"

lemma DecodeTLVs_Nil [simp]: "DecodeTLVs [] = Inr []"
  by (simp add: DecodeTLVs_def)

lemma object_roundtripI:
  assumes "4 + length body \<le> max_object" "4 dvd length body" "ln = word_of_nat (4 + length body)"
    "ser = Inr (object_frame c t body)" "decode body = Inr x"
  shows "\<exists>body. 4 + length body \<le> max_object \<and> 4 dvd length body \<and>
    ser = Inr (object_frame c t body) \<and> unat (ln :: u16) = 4 + length body \<and> decode body = Inr x"
  using assms object_frame_body(1) [OF assms(1)] by blast

interpretation pcep_error_object: object_codec "PCEPErrorObject_DecodeFromBytes PCEPErrorObject_zero"
  PCEPErrorObject_Serialize ObjectClassPCEPError pe_ObjectType PCEPErrorObject_Len PCEPErrorObject_ok
proof
  fix x assume ok: "PCEPErrorObject_ok x"
  then show "pe_ObjectType x < 16" by (simp add: PCEPErrorObject_ok_def)
  obtain bs where bs: "appendTLVs (pe_Tlvs x) = Inr bs" "DecodeTLVs bs = Inr (pe_Tlvs x)"
      "length bs = tlvs_size (pe_Tlvs x)" "4 dvd length bs"
    using ok by (auto simp: PCEPErrorObject_ok_def elim: appendTLVs_ok)
  let ?body = "[0, 0, pe_ErrorType x, pe_ErrorValue x] @ bs"
  have w: "PCEPErrorObject_Len x = word_of_nat (4 + length ?body)"
    by (simp add: PCEPErrorObject_Len_def tlvsByteLength_eq bs(3))
  show "\<exists>body. 4 + length body \<le> max_object \<and> 4 dvd length body \<and>
      PCEPErrorObject_Serialize x = Inr (object_frame ObjectClassPCEPError (pe_ObjectType x) body) \<and>
      unat (PCEPErrorObject_Len x) = 4 + length body \<and>
      PCEPErrorObject_DecodeFromBytes PCEPErrorObject_zero (pe_ObjectType x) body = Inr x"
  proof (rule object_roundtripI [of ?body])
    show "4 + length ?body \<le> max_object" using ok bs(3) by (simp add: PCEPErrorObject_ok_def)
    show "4 dvd length ?body" using bs(4) by simp
    show "PCEPErrorObject_Len x = word_of_nat (4 + length ?body)" by (rule w)
    show "PCEPErrorObject_Serialize x = Inr (object_frame ObjectClassPCEPError (pe_ObjectType x) ?body)"
      by (simp add: PCEPErrorObject_Serialize_def Let_def bs(1) makeBytes_4
          object_frame_fold [OF w, symmetric] del: append_Cons)
    show "PCEPErrorObject_DecodeFromBytes PCEPErrorObject_zero (pe_ObjectType x) ?body = Inr x"
      using bs(2) by (cases x)
        (auto simp: PCEPErrorObject_DecodeFromBytes_def PCEPErrorObject_zero_def Let_def)
  qed
qed

section \<open>CLOSE\<close>

abbreviation (input) ObjectTypeCloseClose :: u8 where "ObjectTypeCloseClose \<equiv> 0x01"
abbreviation (input) CloseReasonNoExplanationProvided :: u8 where
  "CloseReasonNoExplanationProvided \<equiv> 0x01"

record CloseObject =
  co_ObjectType :: u8
  co_Reason :: u8

definition CloseObject_DecodeFromBytes :: "u8 \<Rightarrow> bytes \<Rightarrow> CloseObject result" where
  "CloseObject_DecodeFromBytes objType objectBody =
     bindE (indexE objectBody 3) (\<lambda>reason. Inr \<lparr>co_ObjectType = objType, co_Reason = reason\<rparr>)"

definition CloseObject_Len :: "CloseObject \<Rightarrow> u16" where
  "CloseObject_Len obj = word_of_nat commonObjectHeaderLength + 4"

definition CloseObject_Serialize :: "CloseObject \<Rightarrow> bytes result" where
  "CloseObject_Serialize obj =
     (let header = CommonObjectHeader_Serialize
            (NewCommonObjectHeader ObjectClassClose (co_ObjectType obj) (CloseObject_Len obj)) in
      bindE (setE (makeBytes 4) 3 (co_Reason obj)) (\<lambda>buf.
      Inr (AppendByteSlices [header, buf])))"

definition NewCloseObject :: "u8 \<Rightarrow> CloseObject result" where
  "NewCloseObject reason = Inr \<lparr>co_ObjectType = ObjectTypeCloseClose, co_Reason = reason\<rparr>"

definition CloseObject_ok :: "CloseObject \<Rightarrow> bool" where
  "CloseObject_ok obj \<longleftrightarrow> co_ObjectType obj < 16"

interpretation close_object: object_codec CloseObject_DecodeFromBytes CloseObject_Serialize
  ObjectClassClose co_ObjectType CloseObject_Len CloseObject_ok
proof
  fix x assume ok: "CloseObject_ok x"
  then show "co_ObjectType x < 16" by (simp add: CloseObject_ok_def)
  let ?body = "[0, 0, 0, co_Reason x]"
  have w: "CloseObject_Len x = word_of_nat (4 + length ?body)" by (simp add: CloseObject_Len_def)
  show "\<exists>body. 4 + length body \<le> max_object \<and> 4 dvd length body \<and>
      CloseObject_Serialize x = Inr (object_frame ObjectClassClose (co_ObjectType x) body) \<and>
      unat (CloseObject_Len x) = 4 + length body \<and>
      CloseObject_DecodeFromBytes (co_ObjectType x) body = Inr x"
    by (rule object_roundtripI [OF _ _ w])
      (simp_all add: max_object_def CloseObject_Serialize_def makeBytes_4
        object_frame_fold [OF w, symmetric] CloseObject_DecodeFromBytes_def)
qed

section \<open>SRP\<close>

abbreviation (input) ObjectTypeSRPSRP :: u8 where "ObjectTypeSRPSRP \<equiv> 0x01"
abbreviation (input) PathSetupTypeSRTE :: u8 where "PathSetupTypeSRTE \<equiv> 0x01"
abbreviation (input) PathSetupTypeSRv6TE :: u8 where "PathSetupTypeSRv6TE \<equiv> 0x03"

record SrpObject =
  so_ObjectType :: u8
  so_RFlag :: bool
  so_SrpID :: u32
  so_TLVs :: "tlv list"

definition SrpObject_zero :: SrpObject where
  "SrpObject_zero = \<lparr>so_ObjectType = 0, so_RFlag = False, so_SrpID = 0, so_TLVs = []\<rparr>"

definition SrpObject_DecodeFromBytes :: "SrpObject \<Rightarrow> u8 \<Rightarrow> bytes \<Rightarrow> SrpObject result" where
  "SrpObject_DecodeFromBytes obj objType objectBody =
     (if length objectBody < 8
      then errorf ''SRP object body too short'' [int (length objectBody)]
      else
        bindE (indexE objectBody 3) (\<lambda>b3.
        bindE (bindE (sliceE objectBody 4 8) beUint32) (\<lambda>srpID.
        let obj = obj\<lparr>so_ObjectType := objType, so_RFlag := (b3 AND 0x01 \<noteq> 0), so_SrpID := srpID\<rparr> in
        if length objectBody > 8
        then bindE (sliceE objectBody 8 (length objectBody)) (\<lambda>byteTLVs.
             bindE (DecodeTLVs byteTLVs) (\<lambda>tlvs. Inr (obj\<lparr>so_TLVs := tlvs\<rparr>)))
        else Inr obj)))"

definition SrpObject_Len :: "SrpObject \<Rightarrow> u16" where
  "SrpObject_Len obj = word_of_nat commonObjectHeaderLength + 8 + tlvsByteLength (so_TLVs obj)"

definition SrpObject_Serialize :: "SrpObject \<Rightarrow> bytes result" where
  "SrpObject_Serialize obj =
     (let header = CommonObjectHeader_Serialize
            (NewCommonObjectHeader ObjectClassSRP (so_ObjectType obj) (SrpObject_Len obj)) in
      bindE (orE (so_RFlag obj) (makeBytes 4) 3 0x01) (\<lambda>byteFlags.
      bindE (putE (makeBytes 4) 0 4 (be32 (so_SrpID obj))) (\<lambda>byteSrpID.
      bindE (appendTLVs (so_TLVs obj)) (\<lambda>byteTLVs.
      Inr (AppendByteSlices [header, byteFlags, byteSrpID, byteTLVs])))))"

text \<open>\<open>segs[0].(type)\<close> on a nil segment is neither of the two known types.\<close>

definition NewSrpObject :: "Segment option list \<Rightarrow> u32 \<Rightarrow> bool \<Rightarrow> SrpObject result" where
  "NewSrpObject segs srpID isRemove =
     (let obj = \<lparr>so_ObjectType = ObjectTypeSRPSRP, so_RFlag = isRemove, so_SrpID = srpID, so_TLVs = []\<rparr> in
      case segs of
        [] \<Rightarrow> Inr obj
      | Some (SRMPLS _) # _ \<Rightarrow>
          Inr (obj\<lparr>so_TLVs := so_TLVs obj @ [TLV_PathSetupType (NewPathSetupType PathSetupTypeSRTE)]\<rparr>)
      | Some (SRv6 _) # _ \<Rightarrow>
          Inr (obj\<lparr>so_TLVs := so_TLVs obj @ [TLV_PathSetupType (NewPathSetupType PathSetupTypeSRv6TE)]\<rparr>)
      | None # _ \<Rightarrow> errorf ''invalid Segment type'' [])"

definition SrpObject_ok :: "SrpObject \<Rightarrow> bool" where
  "SrpObject_ok obj \<longleftrightarrow> so_ObjectType obj < 16 \<and> list_all tlv_ok (so_TLVs obj) \<and>
     12 + tlvs_size (so_TLVs obj) \<le> max_object"

interpretation srp_object: object_codec "SrpObject_DecodeFromBytes SrpObject_zero"
  SrpObject_Serialize ObjectClassSRP so_ObjectType SrpObject_Len SrpObject_ok
proof
  fix x assume ok: "SrpObject_ok x"
  then show "so_ObjectType x < 16" by (simp add: SrpObject_ok_def)
  obtain bs where bs: "appendTLVs (so_TLVs x) = Inr bs" "DecodeTLVs bs = Inr (so_TLVs x)"
      "length bs = tlvs_size (so_TLVs x)" "4 dvd length bs"
    using ok by (auto simp: SrpObject_ok_def elim: appendTLVs_ok)
  let ?body = "[0, 0, 0, if so_RFlag x then 1 else 0] @ be32 (so_SrpID x) @ bs"
  have w: "SrpObject_Len x = word_of_nat (4 + length ?body)"
    by (simp add: SrpObject_Len_def tlvsByteLength_eq bs(3))
  show "\<exists>body. 4 + length body \<le> max_object \<and> 4 dvd length body \<and>
      SrpObject_Serialize x = Inr (object_frame ObjectClassSRP (so_ObjectType x) body) \<and>
      unat (SrpObject_Len x) = 4 + length body \<and>
      SrpObject_DecodeFromBytes SrpObject_zero (so_ObjectType x) body = Inr x"
  proof (rule object_roundtripI [of ?body])
    show "4 + length ?body \<le> max_object" using ok bs(3) by (simp add: SrpObject_ok_def)
    show "4 dvd length ?body" using bs(4) by simp
    show "SrpObject_Len x = word_of_nat (4 + length ?body)" by (rule w)
    show "SrpObject_Serialize x = Inr (object_frame ObjectClassSRP (so_ObjectType x) ?body)"
      by (cases "so_RFlag x")
        (use w in \<open>simp_all add: SrpObject_Serialize_def Let_def bs(1) makeBytes_4 object_frame_def\<close>)
    show "SrpObject_DecodeFromBytes SrpObject_zero (so_ObjectType x) ?body = Inr x"
      using bs(2) by (cases x)
        (auto simp: SrpObject_DecodeFromBytes_def SrpObject_zero_def Let_def)
  qed
qed

section \<open>LSP\<close>

subsection \<open>Bits of a 32-bit word written in big-endian order\<close>

lemma u8_bit_less: "bit (b :: u8) n \<Longrightarrow> n < 8"
  using bit_imp_le_length [of b n] by simp

lemma word_of_nat_div_u8: "word_of_nat (unat (w :: u32) div 2 ^ k) = (ucast (drop_bit k w) :: u8)"
proof -
  have "unat (drop_bit k w) = unat w div 2 ^ k" by (simp only: unat_drop_bit_eq flip: drop_bit_eq_div)
  then show ?thesis by (metis of_nat_unat)
qed

lemma be_bytes_4: "be_bytes 4 v =
    [word_of_nat (v div 2 ^ 24), word_of_nat (v div 2 ^ 16), word_of_nat (v div 2 ^ 8), word_of_nat (v div 2 ^ 0)]"
proof -
  have "(4 :: nat) = Suc (Suc (Suc (Suc 0)))" by simp
  then show ?thesis by (simp only: be_bytes.simps) simp
qed

lemma be32_bytes:
  "be32 w = [ucast (drop_bit 24 w), ucast (drop_bit 16 w), ucast (drop_bit 8 w), ucast w]"
  by (simp only: be32_def be_bytes_4 word_of_nat_div_u8 drop_bit_0 id_apply)

lemma be32_set_low:
  "(be32 w)[3 := b] = be32 (push_bit 8 (drop_bit 8 w) OR ucast b)"
proof -
  have n: "\<not> bit b (16 + n)" "\<not> bit b (24 + n)" "\<not> bit b (8 + n)" for n
    using u8_bit_less by force+
  have "ucast (drop_bit k (push_bit 8 (drop_bit 8 w) OR ucast b)) = (ucast (drop_bit k w) :: u8)"
    if "k = 8 \<or> k = 16 \<or> k = 24" for k
    using that by (auto simp: bit_simps n intro!: u8_eqI)
  then have k: "ucast (drop_bit 8 (push_bit 8 (drop_bit 8 w) OR ucast b)) = (ucast (drop_bit 8 w) :: u8)"
    "ucast (drop_bit 16 (push_bit 8 (drop_bit 8 w) OR ucast b)) = (ucast (drop_bit 16 w) :: u8)"
    "ucast (drop_bit 24 (push_bit 8 (drop_bit 8 w) OR ucast b)) = (ucast (drop_bit 24 w) :: u8)"
    by blast+
  have "ucast (push_bit 8 (drop_bit 8 w) OR ucast b) = b"
    by (auto simp: bit_simps n intro!: u8_eqI)
  with k show ?thesis
    unfolding be32_bytes k by (simp add: numeral_3_eq_3)
qed

lemma bit_small_u32: "unat (w :: u32) < 2 ^ k \<Longrightarrow> k \<le> n \<Longrightarrow> \<not> bit w n"
proof
  assume w: "unat w < 2 ^ k" and k: "k \<le> n" and b: "bit w n"
  have "\<not> bit (unat w) n"
    using w k by (metis bit_take_bit_iff not_le take_bit_nat_eq_self)
  with b show False by (simp add: bit_unsigned_iff)
qed

lemma lsp_word:
  fixes plsp :: u32 and ofl b :: u8
  assumes "plsp < 2 ^ 20"
  defines "w \<equiv> push_bit 12 plsp + ucast (push_bit 4 ofl)"
  shows "drop_bit 12 (push_bit 8 (drop_bit 8 w) OR ucast b) = plsp" "ucast w = push_bit 4 ofl"
proof -
  have n: "\<not> bit b (8 + n)" "\<not> bit b (12 + n)"  for b :: u8 and n using u8_bit_less by force+
  have p: "\<not> bit plsp (20 + n)" for n
    by (rule bit_small_u32 [of plsp 20]) (use assms(1) in \<open>simp_all add: word_less_nat_alt\<close>)
  have b: "bit plsp n \<Longrightarrow> n < 20" for n using p [of "n - 20"] by (cases "n < 20") auto
  have d: "push_bit 12 plsp AND ucast (push_bit 4 ofl) = 0"
    by (rule bit_word_eqI) (auto simp: bit_simps dest: u8_bit_less)
  have w: "w = push_bit 12 plsp OR ucast (push_bit 4 ofl)"
    unfolding w_def by (rule disjunctive_add_eq_or [OF d])
  show "drop_bit 12 (push_bit 8 (drop_bit 8 w) OR ucast b) = plsp"
    unfolding w
    by (rule bit_word_eqI) (auto simp: bit_simps n dest: u8_bit_less b)
  show "ucast w = push_bit 4 ofl"
    unfolding w by (auto simp: bit_simps n dest: u8_bit_less b intro!: u8_eqI)
qed

lemma bit_if: "bit (if c then m else 0) n \<longleftrightarrow> c \<and> bit (m :: u8) n"
  by simp

lemma lsp_flag_byte:
  fixes ofl :: u8 and c a r s d :: bool
  assumes "ofl < 8"
  defines "b \<equiv> push_bit 4 ofl OR (if c then 0x80 else 0) OR (if a then 0x08 else 0) OR
    (if r then 0x04 else 0) OR (if s then 0x02 else 0) OR (if d then 0x01 else 0)"
  shows "(b AND 0x80 \<noteq> 0) = c" "drop_bit 4 (b AND 0x70) = ofl" "(b AND 0x08 \<noteq> 0) = a"
    "(b AND 0x04 \<noteq> 0) = r" "(b AND 0x02 \<noteq> 0) = s" "(b AND 0x01 \<noteq> 0) = d"
proof -
  have o: "\<not> bit ofl n" if "3 \<le> n" for n
    by (rule bit_small_u8 [of ofl 3]) (use assms that in \<open>auto simp: word_less_nat_alt\<close>)
  have os: "\<not> bit ofl (Suc (Suc (Suc n)))" for n by (rule o) simp
  have e: "(b AND 0x80) = (if c then 0x80 else 0)" "(b AND 0x08) = (if a then 0x08 else 0)"
    "(b AND 0x04) = (if r then 0x04 else 0)" "(b AND 0x02) = (if s then 0x02 else 0)"
    "(b AND 0x01) = (if d then 0x01 else 0)"
    by (auto intro!: u8_eqI simp: b_def bit_simps less_8 o os bit_if simp del: if_split split del: if_split)
  show "drop_bit 4 (b AND 0x70) = ofl"
    by (auto intro!: u8_eqI simp: b_def bit_simps less_8 o os bit_if split del: if_split)
  show "(b AND 0x80 \<noteq> 0) = c" "(b AND 0x08 \<noteq> 0) = a"
    "(b AND 0x04 \<noteq> 0) = r" "(b AND 0x02 \<noteq> 0) = s" "(b AND 0x01 \<noteq> 0) = d"
    unfolding e by simp_all
qed

subsection \<open>The object\<close>

abbreviation (input) ObjectTypeLSPLSP :: u8 where "ObjectTypeLSPLSP \<equiv> 0x01"

record LSPObject =
  lo_ObjectType :: u8
  lo_Name :: string
  lo_SrcAddr :: addr
  lo_DstAddr :: addr
  lo_PlspID :: u32
  lo_LSPID :: u16
  lo_CFlag :: bool
  lo_OFlag :: u8
  lo_AFlag :: bool
  lo_RFlag :: bool
  lo_SFlag :: bool
  lo_DFlag :: bool
  lo_TLVs :: "tlv list"

definition LSPObject_zero :: LSPObject where
  "LSPObject_zero = \<lparr>lo_ObjectType = 0, lo_Name = [], lo_SrcAddr = NoAddr, lo_DstAddr = NoAddr,
     lo_PlspID = 0, lo_LSPID = 0, lo_CFlag = False, lo_OFlag = 0, lo_AFlag = False, lo_RFlag = False,
     lo_SFlag = False, lo_DFlag = False, lo_TLVs = []\<rparr>"

text \<open>The body of the loop that copies names and addresses out of the TLVs.\<close>

fun LSPObject_readTLV :: "LSPObject \<Rightarrow> tlv \<Rightarrow> LSPObject" where
  "LSPObject_readTLV obj (TLV_SymbolicPathName t) = obj\<lparr>lo_Name := spn_Name t\<rparr>"
| "LSPObject_readTLV obj (TLV_IPv4LSPIdentifiers t) =
     obj\<lparr>lo_SrcAddr := v4li_IPv4TunnelSenderAddress t, lo_DstAddr := v4li_IPv4TunnelEndpointAddress t,
         lo_LSPID := v4li_LSPID t\<rparr>"
| "LSPObject_readTLV obj (TLV_IPv6LSPIdentifiers t) =
     obj\<lparr>lo_SrcAddr := v6li_IPv6TunnelSenderAddress t, lo_DstAddr := v6li_IPv6TunnelEndpointAddress t,
         lo_LSPID := v6li_LSPID t\<rparr>"
| "LSPObject_readTLV obj _ = obj"

definition LSPObject_DecodeFromBytes :: "LSPObject \<Rightarrow> u8 \<Rightarrow> bytes \<Rightarrow> bytes \<Rightarrow> LSPObject result" where
  "LSPObject_DecodeFromBytes obj objType objectBody beyond =
     bindE (bindE (sliceCapE objectBody beyond 0 4) beUint32) (\<lambda>w.
     bindE (indexE objectBody 3) (\<lambda>b3.
     let obj = obj\<lparr>lo_ObjectType := objType, lo_PlspID := drop_bit 12 w,
          lo_CFlag := (b3 AND 0x80 \<noteq> 0), lo_OFlag := drop_bit 4 (b3 AND 0x70),
          lo_AFlag := (b3 AND 0x08 \<noteq> 0), lo_RFlag := (b3 AND 0x04 \<noteq> 0),
          lo_SFlag := (b3 AND 0x02 \<noteq> 0), lo_DFlag := (b3 AND 0x01 \<noteq> 0)\<rparr> in
     if length objectBody > 4
     then bindE (sliceE objectBody 4 (length objectBody)) (\<lambda>byteTLVs.
          bindE (DecodeTLVs byteTLVs) (\<lambda>tlvs.
          Inr (foldl LSPObject_readTLV (obj\<lparr>lo_TLVs := tlvs\<rparr>) tlvs)))
     else Inr obj))"

definition LSPObject_Len :: "LSPObject \<Rightarrow> u16" where
  "LSPObject_Len obj = word_of_nat commonObjectHeaderLength + (4 + tlvsByteLength (lo_TLVs obj))"

definition LSPObject_Serialize :: "LSPObject \<Rightarrow> bytes result" where
  "LSPObject_Serialize obj =
     (let header = CommonObjectHeader_Serialize
            (NewCommonObjectHeader ObjectClassLSP (lo_ObjectType obj) (LSPObject_Len obj)) in
      bindE (putE (makeBytes 4) 0 4
        (be32 (push_bit 12 (lo_PlspID obj) + ucast (push_bit 4 (lo_OFlag obj))))) (\<lambda>buf.
      bindE (orE (lo_CFlag obj) buf 3 0x80) (\<lambda>buf.
      bindE (orE (lo_AFlag obj) buf 3 0x08) (\<lambda>buf.
      bindE (orE (lo_RFlag obj) buf 3 0x04) (\<lambda>buf.
      bindE (orE (lo_SFlag obj) buf 3 0x02) (\<lambda>buf.
      bindE (orE (lo_DFlag obj) buf 3 0x01) (\<lambda>buf.
      bindE (appendTLVs (lo_TLVs obj)) (\<lambda>byteTLVs.
      Inr (AppendByteSlices [header, buf, byteTLVs])))))))))"

definition NewLSPObject :: "string \<Rightarrow> u32 option \<Rightarrow> u32 \<Rightarrow> LSPObject result" where
  "NewLSPObject lspName color plspID =
     (let obj = \<lparr>lo_ObjectType = ObjectTypeLSPLSP, lo_Name = lspName, lo_SrcAddr = NoAddr,
            lo_DstAddr = NoAddr, lo_PlspID = plspID, lo_LSPID = 0, lo_CFlag = True, lo_OFlag = 1,
            lo_AFlag = True, lo_RFlag = False, lo_SFlag = False, lo_DFlag = True, lo_TLVs = []\<rparr>;
          obj = obj\<lparr>lo_TLVs := lo_TLVs obj @ [TLV_SymbolicPathName (NewSymbolicPathName lspName)]\<rparr> in
      Inr (case color of
             Some c \<Rightarrow> obj\<lparr>lo_TLVs := lo_TLVs obj @ [TLV_Color \<lparr>col_Color = c\<rparr>]\<rparr>
           | None \<Rightarrow> obj))"

fun firstColorTLV :: "tlv list \<Rightarrow> u32" where
  "firstColorTLV (TLV_Color t # _) = col_Color t"
| "firstColorTLV (_ # ts) = firstColorTLV ts"
| "firstColorTLV [] = 0"

definition LSPObject_Color :: "LSPObject \<Rightarrow> u32" where
  "LSPObject_Color obj = firstColorTLV (lo_TLVs obj)"

text \<open>
  Besides the ranges of the fields, name and addresses are those the TLVs carry, since
  they travel in the TLVs only.
\<close>

definition LSPObject_ok :: "LSPObject \<Rightarrow> bool" where
  "LSPObject_ok obj \<longleftrightarrow> lo_ObjectType obj < 16 \<and> lo_PlspID obj < 2 ^ 20 \<and> lo_OFlag obj < 8 \<and>
     list_all tlv_ok (lo_TLVs obj) \<and> 8 + tlvs_size (lo_TLVs obj) \<le> max_object \<and>
     foldl LSPObject_readTLV
       (obj\<lparr>lo_Name := [], lo_SrcAddr := NoAddr, lo_DstAddr := NoAddr, lo_LSPID := 0\<rparr>) (lo_TLVs obj) = obj"

definition lsp_flags :: "LSPObject \<Rightarrow> u8" where
  "lsp_flags x = push_bit 4 (lo_OFlag x) OR (if lo_CFlag x then 0x80 else 0) OR
     (if lo_AFlag x then 0x08 else 0) OR (if lo_RFlag x then 0x04 else 0) OR
     (if lo_SFlag x then 0x02 else 0) OR (if lo_DFlag x then 0x01 else 0)"

lemma list_update_flag:
  "i < length xs \<Longrightarrow> (if c then xs[i := xs ! i OR m] else xs) = xs[i := xs ! i OR (if c then m else (0 :: u8))]"
  by simp

lemma LSPObject_buf:
  assumes "lo_PlspID x < 2 ^ 20"
  defines "w \<equiv> push_bit 12 (lo_PlspID x) + ucast (push_bit 4 (lo_OFlag x)) :: u32"
  shows "bindE (orE (lo_CFlag x) (be32 w) 3 0x80) (\<lambda>buf.
      bindE (orE (lo_AFlag x) buf 3 0x08) (\<lambda>buf.
      bindE (orE (lo_RFlag x) buf 3 0x04) (\<lambda>buf.
      bindE (orE (lo_SFlag x) buf 3 0x02) (\<lambda>buf.
      bindE (orE (lo_DFlag x) buf 3 0x01) f)))) = f ((be32 w)[3 := lsp_flags x])"
proof -
  have n: "be32 w ! 3 = push_bit 4 (lo_OFlag x)"
    using lsp_word(2) [OF assms(1), of "lo_OFlag x"]
    by (simp add: be32_bytes numeral_3_eq_3 w_def)
  show ?thesis
    by (simp add: list_update_flag n lsp_flags_def or.assoc split del: if_split)
qed

interpretation lsp_object: object_codec "\<lambda>t body. LSPObject_DecodeFromBytes LSPObject_zero t body beyond"
  LSPObject_Serialize ObjectClassLSP lo_ObjectType LSPObject_Len LSPObject_ok for beyond
proof
  fix x assume ok: "LSPObject_ok x"
  then show "lo_ObjectType x < 16" by (simp add: LSPObject_ok_def)
  have p: "lo_PlspID x < 2 ^ 20" and ofl: "lo_OFlag x < 8" using ok by (simp_all add: LSPObject_ok_def)
  obtain bs where bs: "appendTLVs (lo_TLVs x) = Inr bs" "DecodeTLVs bs = Inr (lo_TLVs x)"
      "length bs = tlvs_size (lo_TLVs x)" "4 dvd length bs"
    using ok by (auto simp: LSPObject_ok_def elim: appendTLVs_ok)
  define w where "w = push_bit 12 (lo_PlspID x) + ucast (push_bit 4 (lo_OFlag x) :: u8)"
  define b3 where "b3 = lsp_flags x"
  define v where "v = push_bit 8 (drop_bit 8 w) OR ucast b3"
  have v: "(be32 w)[3 := b3] = be32 v" by (simp add: be32_set_low v_def)
  have b3: "be32 v ! 3 = b3" unfolding v [symmetric] by simp
  have pv: "drop_bit 12 v = lo_PlspID x"
    unfolding v_def w_def by (rule lsp_word(1) [OF p])
  have fl: "(b3 AND 0x80 \<noteq> 0) = lo_CFlag x" "drop_bit 4 (b3 AND 0x70) = lo_OFlag x"
    "(b3 AND 0x08 \<noteq> 0) = lo_AFlag x" "(b3 AND 0x04 \<noteq> 0) = lo_RFlag x"
    "(b3 AND 0x02 \<noteq> 0) = lo_SFlag x" "(b3 AND 0x01 \<noteq> 0) = lo_DFlag x"
    unfolding b3_def lsp_flags_def by (rule lsp_flag_byte [OF ofl])+
  let ?body = "be32 v @ bs"
  have ln: "LSPObject_Len x = word_of_nat (4 + length ?body)"
    by (simp add: LSPObject_Len_def tlvsByteLength_eq bs(3))
  show "\<exists>body. 4 + length body \<le> max_object \<and> 4 dvd length body \<and>
      LSPObject_Serialize x = Inr (object_frame ObjectClassLSP (lo_ObjectType x) body) \<and>
      unat (LSPObject_Len x) = 4 + length body \<and>
      LSPObject_DecodeFromBytes LSPObject_zero (lo_ObjectType x) body beyond = Inr x"
  proof (rule object_roundtripI [of ?body])
    show "4 + length ?body \<le> max_object" using ok bs(3) by (simp add: LSPObject_ok_def)
    show "4 dvd length ?body" using bs(4) by simp
    show "LSPObject_Len x = word_of_nat (4 + length ?body)" by (rule ln)
    have put: "putE (makeBytes 4) 0 4 (be32 w) = Inr (be32 w)" by simp
    show "LSPObject_Serialize x = Inr (object_frame ObjectClassLSP (lo_ObjectType x) ?body)"
      unfolding LSPObject_Serialize_def Let_def w_def [symmetric] put bindE_simps
        LSPObject_buf [OF p, folded w_def b3_def] v bs(1)
      by (simp add: object_frame_fold [OF ln, symmetric])
    let ?y = "LSPObject_zero\<lparr>lo_ObjectType := lo_ObjectType x, lo_PlspID := drop_bit 12 v,
          lo_CFlag := (b3 AND 0x80 \<noteq> 0), lo_OFlag := drop_bit 4 (b3 AND 0x70),
          lo_AFlag := (b3 AND 0x08 \<noteq> 0), lo_RFlag := (b3 AND 0x04 \<noteq> 0),
          lo_SFlag := (b3 AND 0x02 \<noteq> 0), lo_DFlag := (b3 AND 0x01 \<noteq> 0)\<rparr>"
    have y: "?y\<lparr>lo_TLVs := lo_TLVs x\<rparr> =
        x\<lparr>lo_Name := [], lo_SrcAddr := NoAddr, lo_DstAddr := NoAddr, lo_LSPID := 0\<rparr>"
      unfolding fl pv by (cases x) (simp add: LSPObject_zero_def)
    have fold: "foldl LSPObject_readTLV (?y\<lparr>lo_TLVs := lo_TLVs x\<rparr>) (lo_TLVs x) = x"
      unfolding y using ok by (simp add: LSPObject_ok_def)
    have rd: "bindE (sliceCapE ?body beyond 0 4) beUint32 = Inr v" "indexE ?body 3 = Inr b3"
      using b3 by (simp_all add: sliceCapE_def nth_append)
    have "LSPObject_DecodeFromBytes LSPObject_zero (lo_ObjectType x) ?body beyond =
        (if length ?body > 4
         then bindE (sliceE ?body 4 (length ?body)) (\<lambda>byteTLVs.
              bindE (DecodeTLVs byteTLVs) (\<lambda>tlvs.
              Inr (foldl LSPObject_readTLV (?y\<lparr>lo_TLVs := tlvs\<rparr>) tlvs)))
         else Inr ?y)"
      unfolding LSPObject_DecodeFromBytes_def rd bindE_simps Let_def ..
    also have "\<dots> = Inr x"
    proof (cases "bs = []")
      case True
      then have "lo_TLVs x = []" using bs(2) by simp
      moreover have "?y\<lparr>lo_TLVs := []\<rparr> = ?y" by (simp add: LSPObject_zero_def)
      ultimately have "?y = x" using fold by (simp only: foldl_Nil)
      moreover have "\<not> length ?body > 4" using True by simp
      ultimately show ?thesis by (simp only: if_False)
    next
      case False
      then have "length ?body > 4" by simp
      moreover have "sliceE ?body 4 (length ?body) = Inr bs" by simp
      ultimately show ?thesis by (simp only: if_True bindE_simps bs(2) fold)
    qed
    finally show "LSPObject_DecodeFromBytes LSPObject_zero (lo_ObjectType x) ?body beyond = Inr x" .
  qed
qed

end
