(* ===== verification/Object_Laws.thy ===== *)
theory Object_Laws
  imports Objects
begin

text \<open>
  What the object codecs of \<open>src/pkg/packet/pcep/object.go\<close> guarantee one by one: the common object
  header and the LSP object are read back as they were written, the METRIC object is not.
\<close>

text \<open>
  The common object header is read back as it was written, whatever follows it, for every object
  class, a type of four bits and two reserved bits.
\<close>

theorem CommonObjectHeader_roundtrip:
  assumes "CommonObjectHeader_ok h"
  shows "CommonObjectHeader_DecodeFromBytes (CommonObjectHeader_Serialize h @ rest) = Inr h"
  using assms by (rule CommonObjectHeader_roundtrip_rest)

lemma CommonObjectHeader_roundtrip_witness:
  "CommonObjectHeader_DecodeFromBytes (CommonObjectHeader_Serialize
     \<lparr>coh_ObjectClass = 0x21, coh_ObjectType = 1, coh_ResFlags = 0, coh_PFlag = True, coh_IFlag = False,
      coh_ObjectLength = 20\<rparr> @ [1, 2, 3]) =
   Inr \<lparr>coh_ObjectClass = 0x21, coh_ObjectType = 1, coh_ResFlags = 0, coh_PFlag = True, coh_IFlag = False,
      coh_ObjectLength = 20\<rparr>"
  by (rule CommonObjectHeader_roundtrip) (simp add: CommonObjectHeader_ok_def)

text \<open>
  An LSP object with a PLSP-ID of 20 bits, an operational state of 3 bits and well-formed TLVs is
  read back as it was written: flags, PLSP-ID, name, addresses and LSP-ID, whatever follows it in the
  message buffer.
\<close>

theorem LSPObject_roundtrip:
  assumes "LSPObject_ok obj"
  shows "\<exists>bs h. LSPObject_Serialize obj = Inr bs \<and> coh_ObjectClass h = ObjectClassLSP \<and>
    unat (coh_ObjectLength h) = length bs \<and>
    (\<forall>rest beyond. CommonObjectHeader_DecodeFromBytes (bs @ rest) = Inr h \<and>
      bindE (sliceE (bs @ rest) 4 (unat (coh_ObjectLength h)))
        (\<lambda>body. LSPObject_DecodeFromBytes LSPObject_zero (coh_ObjectType h) body beyond) = Inr obj)"
proof -
  obtain bs where bs: "LSPObject_Serialize obj = Inr bs" using lsp_object.serialize_total [OF assms] by blast
  have "length bs = unat (LSPObject_Len obj)"
    by (rule lsp_object.read_back [OF assms]) (use bs in simp)
  then show ?thesis
    using bs lsp_object.read_at [OF assms bs]
    by (intro exI [of _ bs] exI [of _ "NewCommonObjectHeader ObjectClassLSP (lo_ObjectType obj) (LSPObject_Len obj)"])
      (simp add: NewCommonObjectHeader_def)
qed

lemma LSPObject_roundtrip_witness:
  "\<exists>bs h. LSPObject_Serialize (LSPObject_zero\<lparr>lo_ObjectType := 1, lo_PlspID := 5, lo_OFlag := 7, lo_CFlag := True\<rparr>) = Inr bs \<and>
    coh_ObjectClass h = ObjectClassLSP \<and> unat (coh_ObjectLength h) = length bs \<and>
    (\<forall>rest beyond. CommonObjectHeader_DecodeFromBytes (bs @ rest) = Inr h \<and>
      bindE (sliceE (bs @ rest) 4 (unat (coh_ObjectLength h)))
        (\<lambda>body. LSPObject_DecodeFromBytes LSPObject_zero (coh_ObjectType h) body beyond) =
      Inr (LSPObject_zero\<lparr>lo_ObjectType := 1, lo_PlspID := 5, lo_OFlag := 7, lo_CFlag := True\<rparr>))"
  by (rule LSPObject_roundtrip)
    (simp add: LSPObject_ok_def LSPObject_zero_def tlvs_size_def max_object_def)

text \<open>
  The METRIC object is not written in the form it is read in: \<open>Serialize\<close> writes the IEEE 754
  encoding of the value, \<open>DecodeFromBytes\<close> reads the four bytes as an integer. The value comes back as
  the bits of its float encoding; the default value 30 comes back as 1106247680.
\<close>

theorem MetricObject_writes_float:
  "(\<exists>body. MetricObject_Serialize obj = Inr (object_frame ObjectClassMetric (mo_ObjectType obj) body) \<and>
     (\<forall>beyond. MetricObject_DecodeFromBytes (mo_ObjectType obj) body beyond =
        Inr (obj\<lparr>mo_MetricValue := Float32bits_of_uint32 (mo_MetricValue obj)\<rparr>))) \<and>
   Float32bits_of_uint32 30 = 1106247680"
proof
  let ?f = "(if mo_CFlag obj then 2 else 0) OR (if mo_BFlag obj then 1 else 0 :: u8)"
  let ?body = "[0, 0, ?f, mo_MetricType obj] @ be32 (Float32bits_of_uint32 (mo_MetricValue obj))"
  have m: "makeBytes 8 = [0, 0, 0, 0] @ makeBytes 4" by (simp add: makeBytes_def numeral_eq_Suc)
  have "MetricObject_Serialize obj = Inr (object_frame ObjectClassMetric (mo_ObjectType obj) ?body)"
    by (cases "mo_CFlag obj"; cases "mo_BFlag obj")
      (simp_all add: MetricObject_Serialize_def m object_frame_def MetricObject_Len_def)
  moreover have "MetricObject_DecodeFromBytes (mo_ObjectType obj) ?body beyond =
      Inr (obj\<lparr>mo_MetricValue := Float32bits_of_uint32 (mo_MetricValue obj)\<rparr>)" for beyond
    by (cases "mo_CFlag obj"; cases "mo_BFlag obj"; cases obj)
      (simp_all add: MetricObject_DecodeFromBytes_def sliceCapE_def sliceE_def)
  ultimately show "\<exists>body. MetricObject_Serialize obj = Inr (object_frame ObjectClassMetric (mo_ObjectType obj) body) \<and>
     (\<forall>beyond. MetricObject_DecodeFromBytes (mo_ObjectType obj) body beyond =
        Inr (obj\<lparr>mo_MetricValue := Float32bits_of_uint32 (mo_MetricValue obj)\<rparr>))"
    by blast
  show "Float32bits_of_uint32 30 = 1106247680"
    by (simp add: Float32bits_of_uint32_def Let_def float32_mantissa_def)
qed

end
