(* ===== verification/Ero.thy ===== *)
theory Ero
  imports Objects
begin

text \<open>
  The ERO object of \<open>src/pkg/packet/pcep/object.go\<close> and its three kinds of subobjects:
  SR-ERO (RFC 8664), SRv6-ERO (RFC 9603) and the RSVP IPv4 prefix hop (RFC 3209). The subobject
  decoders are total, the loop of the object advances by at least eight bytes per subobject, and no
  decoder panics. The round trips are in theory Ero_Roundtrip.
\<close>

abbreviation (input) SubobjectTypeEROSR :: u8 where "SubobjectTypeEROSR \<equiv> 0x24"
abbreviation (input) SubobjectTypeEROSRv6 :: u8 where "SubobjectTypeEROSRv6 \<equiv> 0x28"
abbreviation (input) SubobjectTypeEROIPv4Prefix :: u8 where "SubobjectTypeEROIPv4Prefix \<equiv> 0x01"

section \<open>SR-ERO subobjects\<close>

abbreviation (input) NAITypeSRAbsent :: u8 where "NAITypeSRAbsent \<equiv> 0x00"
abbreviation (input) NAITypeSRIPv4Node :: u8 where "NAITypeSRIPv4Node \<equiv> 0x01"
abbreviation (input) NAITypeSRIPv6Node :: u8 where "NAITypeSRIPv6Node \<equiv> 0x02"
abbreviation (input) NAITypeSRIPv4Adjacency :: u8 where "NAITypeSRIPv4Adjacency \<equiv> 0x03"
abbreviation (input) NAITypeSRIPv6AdjacencyGlobal :: u8 where "NAITypeSRIPv6AdjacencyGlobal \<equiv> 0x04"

definition naiLength :: "u8 \<Rightarrow> u16 result" where
  "naiLength nt =
     (if nt = NAITypeSRAbsent then Inr 0
      else if nt = NAITypeSRIPv4Node then Inr 4
      else if nt = NAITypeSRIPv6Node then Inr 16
      else if nt = NAITypeSRIPv4Adjacency then Inr 8
      else if nt = NAITypeSRIPv6AdjacencyGlobal then Inr 32
      else errorf ''unsupported naitype'' [])"

record SREroSubobject =
  sre_LFlag :: bool
  sre_SubobjectType :: u8
  sre_Length :: u8
  sre_NAIType :: u8
  sre_FFlag :: bool
  sre_SFlag :: bool
  sre_CFlag :: bool
  sre_MFlag :: bool
  sre_Segment :: SegmentSRMPLS

definition SREroSubobject_DecodeFromBytes :: "bytes \<Rightarrow> SREroSubobject result" where
  "SREroSubobject_DecodeFromBytes subobject =
     (if length subobject < 8 then errorf ''SREroSubobject: subobject too short'' []
      else
        bindE (indexE subobject 0) (\<lambda>b0.
        bindE (indexE subobject 1) (\<lambda>b1.
        bindE (indexE subobject 2) (\<lambda>b2.
        bindE (indexE subobject 3) (\<lambda>b3.
        bindE (bindE (sliceE subobject 4 8) beUint32) (\<lambda>sidWord.
        let sid = drop_bit 12 sidWord;
            seg = NewSegmentSRMPLS sid;
            cflag = (b3 AND 0x02 \<noteq> 0);
            seg = (if cflag
                   then seg\<lparr>sm_TC := ucast (drop_bit 9 sidWord AND 0x07),
                            sm_S := (sidWord AND push_bit 8 1 \<noteq> 0),
                            sm_TTL := ucast (sidWord AND 0xFF)\<rparr>
                   else seg);
            naiType = drop_bit 4 b2;
            obj = \<lparr>sre_LFlag = (b0 AND 0x80 \<noteq> 0), sre_SubobjectType = b0 AND 0x7f, sre_Length = b1,
                   sre_NAIType = naiType, sre_FFlag = (b3 AND 0x08 \<noteq> 0),
                   sre_SFlag = (b3 AND 0x04 \<noteq> 0), sre_CFlag = cflag,
                   sre_MFlag = (b3 AND 0x01 \<noteq> 0), sre_Segment = seg\<rparr>;
            off = 8 in
        if sre_FFlag obj then Inr obj
        else
          bindE (naiLength naiType) (\<lambda>naiLen.
          let n = unat naiLen in
          if n > 0 \<and> length subobject < off + n
          then errorf ''SREroSubobject: truncated NAI'' [uint naiType]
          else if naiType = NAITypeSRIPv4Node \<or> naiType = NAITypeSRIPv6Node
          then bindE (sliceE subobject off (off + n)) (\<lambda>a.
               Inr (obj\<lparr>sre_Segment := seg\<lparr>sm_LocalAddr := fst (AddrFromSlice a)\<rparr>\<rparr>))
          else if naiType = NAITypeSRIPv4Adjacency \<or> naiType = NAITypeSRIPv6AdjacencyGlobal
          then let half = off + n div 2 in
               bindE (sliceE subobject off half) (\<lambda>a.
               bindE (sliceE subobject half (off + n)) (\<lambda>b.
               Inr (obj\<lparr>sre_Segment := seg\<lparr>sm_LocalAddr := fst (AddrFromSlice a),
                                           sm_RemoteAddr := fst (AddrFromSlice b)\<rparr>\<rparr>)))
          else Inr obj)))))))"

definition serializeNAI :: "SREroSubobject \<Rightarrow> bytes result" where
  "serializeNAI obj =
     (if sre_FFlag obj then Inr []
      else
        let lcl = Unmap (sm_LocalAddr (sre_Segment obj)); rmt = Unmap (sm_RemoteAddr (sre_Segment obj));
            nt = sre_NAIType obj in
        if nt = NAITypeSRAbsent then Inr []
        else if nt = NAITypeSRIPv4Node then
          (if \<not> Is4 lcl then errorf ''SREroSubobject: IPv4 node NAI requires an IPv4 LocalAddr'' []
           else Inr (AsSlice lcl))
        else if nt = NAITypeSRIPv6Node then
          (if \<not> Is6 lcl then errorf ''SREroSubobject: IPv6 node NAI requires an IPv6 LocalAddr'' []
           else Inr (AsSlice lcl))
        else if nt = NAITypeSRIPv4Adjacency then
          (if \<not> Is4 lcl \<or> \<not> Is4 rmt
           then errorf ''SREroSubobject: IPv4 adjacency NAI requires IPv4 LocalAddr and RemoteAddr'' []
           else Inr (AppendByteSlices [AsSlice lcl, AsSlice rmt]))
        else if nt = NAITypeSRIPv6AdjacencyGlobal then
          (if \<not> Is6 lcl \<or> \<not> Is6 rmt
           then errorf ''SREroSubobject: IPv6 adjacency NAI requires IPv6 LocalAddr and RemoteAddr'' []
           else Inr (AppendByteSlices [AsSlice lcl, AsSlice rmt]))
        else errorf ''unsupported naitype'' [])"

definition sre_sidWord :: "SREroSubobject \<Rightarrow> u32" where
  "sre_sidWord obj =
     (let seg = sre_Segment obj;
          w = push_bit 12 (sm_Sid seg AND 0xFFFFF) in
      if sre_CFlag obj
      then let w = w OR push_bit 9 (ucast (sm_TC seg AND 0x07));
               w = (if sm_S seg then w OR push_bit 8 1 else w) in
           w OR ucast (sm_TTL seg)
      else w)"

definition SREroSubobject_Serialize :: "SREroSubobject \<Rightarrow> bytes result" where
  "SREroSubobject_Serialize obj =
     bindE (setE (makeBytes 4) 0 (sre_SubobjectType obj)) (\<lambda>buf.
     bindE (orE (sre_LFlag obj) buf 0 0x80) (\<lambda>buf.
     bindE (setE buf 1 (sre_Length obj)) (\<lambda>buf.
     bindE (setE buf 2 (sre_NAIType obj * 16)) (\<lambda>buf.
     bindE (orE (sre_FFlag obj) buf 3 0x08) (\<lambda>buf.
     bindE (orE (sre_SFlag obj) buf 3 0x04) (\<lambda>buf.
     bindE (orE (sre_CFlag obj) buf 3 0x02) (\<lambda>buf.
     bindE (orE (sre_MFlag obj) buf 3 0x01) (\<lambda>buf.
     bindE (putE (makeBytes 4) 0 4 (be32 (sre_sidWord obj))) (\<lambda>byteSid.
     bindE (serializeNAI obj) (\<lambda>byteNAI.
     Inr (AppendByteSlices [buf, byteSid, byteNAI])))))))))))"

definition SREroSubobject_Len :: "SREroSubobject \<Rightarrow> u16 result" where
  "SREroSubobject_Len obj =
     (if sre_FFlag obj then Inr 8 else bindE (naiLength (sre_NAIType obj)) (\<lambda>n. Inr (8 + n)))"

definition naiTypeSRFor :: "SegmentSRMPLS \<Rightarrow> u8 result" where
  "naiTypeSRFor seg =
     (let lcl = Unmap (sm_LocalAddr seg); rmt = Unmap (sm_RemoteAddr seg) in
      if \<not> IsValid lcl then
        (if IsValid rmt then errorf ''SegmentSRMPLS: RemoteAddr requires LocalAddr'' []
         else Inr NAITypeSRAbsent)
      else if \<not> IsValid rmt then
        (if Is4 lcl then Inr NAITypeSRIPv4Node else Inr NAITypeSRIPv6Node)
      else if Is4 lcl \<noteq> Is4 rmt
      then errorf ''SegmentSRMPLS: LocalAddr and RemoteAddr must be of the same address family'' []
      else if Is4 lcl then Inr NAITypeSRIPv4Adjacency
      else if IsLinkLocalUnicast lcl \<or> IsLinkLocalUnicast rmt
      then errorf ''SegmentSRMPLS: link-local IPv6 adjacency NAI is unsupported'' []
      else Inr NAITypeSRIPv6AdjacencyGlobal)"

definition NewSREroSubobject :: "SegmentSRMPLS \<Rightarrow> SREroSubobject result" where
  "NewSREroSubobject seg =
     bindE (naiTypeSRFor seg) (\<lambda>naiType.
     let subo = \<lparr>sre_LFlag = False, sre_SubobjectType = SubobjectTypeEROSR, sre_Length = 0,
           sre_NAIType = naiType, sre_FFlag = (naiType = NAITypeSRAbsent), sre_SFlag = False,
           sre_CFlag = HasMPLSStackEntryAttrs seg, sre_MFlag = True, sre_Segment = seg\<rparr> in
     bindE (SREroSubobject_Len subo) (\<lambda>len. Inr (subo\<lparr>sre_Length := ucast len\<rparr>)))"

section \<open>SRv6-ERO subobjects\<close>

abbreviation (input) NAITypeSRv6Absent :: u8 where "NAITypeSRv6Absent \<equiv> 0x00"
abbreviation (input) NAITypeSRv6IPv6Node :: u8 where "NAITypeSRv6IPv6Node \<equiv> 0x02"
abbreviation (input) NAITypeSRv6IPv6AdjacencyGlobal :: u8 where "NAITypeSRv6IPv6AdjacencyGlobal \<equiv> 0x04"
abbreviation (input) NAITypeSRv6IPv6AdjacencyLinkLocal :: u8 where
  "NAITypeSRv6IPv6AdjacencyLinkLocal \<equiv> 0x06"

record SRv6EroSubobject =
  s6e_LFlag :: bool
  s6e_SubobjectType :: u8
  s6e_Length :: u8
  s6e_NAIType :: u8
  s6e_VFlag :: bool
  s6e_TFlag :: bool
  s6e_FFlag :: bool
  s6e_SFlag :: bool
  s6e_Segment :: SegmentSRv6

text \<open>The switch on the NAI type: the segment with its addresses and the offset behind them.\<close>

definition s6e_readNAI :: "u8 \<Rightarrow> bytes \<Rightarrow> nat \<Rightarrow> SegmentSRv6 \<Rightarrow> (SegmentSRv6 \<times> nat) result" where
  "s6e_readNAI naiType subobject off seg =
     (if naiType = NAITypeSRv6IPv6Node then
        (if length subobject < off + 16 then errorf ''SRv6EroSubobject: truncated NAI (Node)'' []
         else bindE (sliceE subobject off (off + 16)) (\<lambda>a.
              Inr (seg\<lparr>s6_LocalAddr := fst (AddrFromSlice a)\<rparr>, off + 16)))
      else if naiType = NAITypeSRv6IPv6AdjacencyGlobal then
        (if length subobject < off + 32 then errorf ''SRv6EroSubobject: truncated NAI (AdjGlobal)'' []
         else bindE (sliceE subobject off (off + 16)) (\<lambda>a.
              bindE (sliceE subobject (off + 16) (off + 32)) (\<lambda>b.
              Inr (seg\<lparr>s6_LocalAddr := fst (AddrFromSlice a), s6_RemoteAddr := fst (AddrFromSlice b)\<rparr>,
                   off + 32))))
      else if naiType = NAITypeSRv6IPv6AdjacencyLinkLocal then
        (if length subobject < off + 40 then errorf ''SRv6EroSubobject: truncated NAI (AdjLinkLocal)'' []
         else bindE (sliceE subobject off (off + 16)) (\<lambda>a.
              bindE (sliceE subobject (off + 20) (off + 36)) (\<lambda>b.
              Inr (seg\<lparr>s6_LocalAddr := fst (AddrFromSlice a), s6_RemoteAddr := fst (AddrFromSlice b)\<rparr>,
                   off + 40))))
      else Inr (seg, off))"

definition s6e_readStructure :: "bytes \<Rightarrow> nat \<Rightarrow> SegmentSRv6 \<Rightarrow> SegmentSRv6 result" where
  "s6e_readStructure subobject off seg =
     (if length subobject < off + 8 then errorf ''SRv6EroSubobject: truncated SID-Structure'' []
      else
        bindE (indexE subobject (off + 0)) (\<lambda>a.
        bindE (indexE subobject (off + 1)) (\<lambda>b.
        bindE (indexE subobject (off + 2)) (\<lambda>c.
        bindE (indexE subobject (off + 3)) (\<lambda>d.
        Inr (seg\<lparr>s6_Structure := Some [a, b, c, d]\<rparr>))))))"

definition SRv6EroSubobject_DecodeFromBytes :: "bytes \<Rightarrow> SRv6EroSubobject result" where
  "SRv6EroSubobject_DecodeFromBytes subobject =
     (if length subobject < 8 then errorf ''SRv6EroSubobject: subobject too short'' []
      else
        bindE (indexE subobject 0) (\<lambda>b0.
        bindE (indexE subobject 1) (\<lambda>b1.
        bindE (indexE subobject 2) (\<lambda>b2.
        bindE (indexE subobject 3) (\<lambda>b3.
        let naiType = drop_bit 4 b2; tflag = (b3 AND 0x04 \<noteq> 0); fflag = (b3 AND 0x02 \<noteq> 0);
            sflag = (b3 AND 0x01 \<noteq> 0); off = 8 in
        bindE (bindE (sliceE subobject 6 8) beUint16) (\<lambda>behavior.
        bindE (if \<not> sflag then
                 (if length subobject < off + 16 then errorf ''SRv6EroSubobject: truncated SID'' []
                  else bindE (sliceE subobject off (off + 16)) (\<lambda>s.
                       Inr (NewSegmentSRv6 (fst (AddrFromSlice s)), off + 16)))
               else Inr (SegmentSRv6_zero, off)) (\<lambda>(seg, off).
        bindE (if \<not> fflag then s6e_readNAI naiType subobject off seg else Inr (seg, off)) (\<lambda>(seg, off).
        bindE (if tflag then s6e_readStructure subobject off seg else Inr seg) (\<lambda>seg.
        let seg = (if behavior = BehaviorUN \<or> behavior = BehaviorUA then seg\<lparr>s6_USid := True\<rparr> else seg) in
        Inr \<lparr>s6e_LFlag = (b0 AND 0x80 \<noteq> 0), s6e_SubobjectType = b0 AND 0x7f, s6e_Length = b1,
             s6e_NAIType = naiType, s6e_VFlag = (b3 AND 0x08 \<noteq> 0), s6e_TFlag = tflag,
             s6e_FFlag = fflag, s6e_SFlag = sflag, s6e_Segment = seg\<rparr>)))))))))"

definition SRv6EroSubobject_Serialize :: "SRv6EroSubobject \<Rightarrow> bytes result" where
  "SRv6EroSubobject_Serialize obj =
     bindE (setE (makeBytes 4) 0 (s6e_SubobjectType obj)) (\<lambda>buf.
     bindE (orE (s6e_LFlag obj) buf 0 0x80) (\<lambda>buf.
     bindE (setE buf 1 (s6e_Length obj)) (\<lambda>buf.
     bindE (setE buf 2 (s6e_NAIType obj * 16)) (\<lambda>buf.
     bindE (orE (s6e_VFlag obj) buf 3 0x08) (\<lambda>buf.
     bindE (orE (s6e_TFlag obj) buf 3 0x04) (\<lambda>buf.
     bindE (orE (s6e_FFlag obj) buf 3 0x02) (\<lambda>buf.
     bindE (orE (s6e_SFlag obj) buf 3 0x01) (\<lambda>buf.
     bindE (SegmentSRv6_Behavior (s6e_Segment obj)) (\<lambda>behavior.
     let seg = s6e_Segment obj;
         byteSid = AsSlice (s6_Sid seg);
         byteNAI = AsSlice (s6_LocalAddr seg);
         byteNAI = (if IsValid (s6_RemoteAddr seg) then byteNAI @ AsSlice (s6_RemoteAddr seg) else byteNAI);
         byteSidStructure = (case s6_Structure seg of Some s \<Rightarrow> s @ makeBytes 4 | None \<Rightarrow> []) in
     Inr (AppendByteSlices
       [buf, makeBytes 2, Uint16ToByteSlice behavior, byteSid, byteNAI, byteSidStructure]))))))))))"

definition SRv6EroSubobject_Len :: "SRv6EroSubobject \<Rightarrow> u16 result" where
  "SRv6EroSubobject_Len obj =
     (let len = 8;
          len = (if \<not> s6e_SFlag obj then len + 16 else len) in
      bindE (if \<not> s6e_FFlag obj then
               (if s6e_NAIType obj = NAITypeSRv6IPv6Node then Inr (len + 16)
                else if s6e_NAIType obj = NAITypeSRv6IPv6AdjacencyGlobal then Inr (len + 32)
                else if s6e_NAIType obj = NAITypeSRv6IPv6AdjacencyLinkLocal then Inr (len + 40)
                else if s6e_NAIType obj = NAITypeSRv6Absent
                then errorf ''when naitype is 0 then FFlag must be 1'' []
                else errorf ''unsupported naitype'' [])
             else Inr len) (\<lambda>len.
      Inr (if s6e_TFlag obj then len + 8 else len)))"

definition NewSRv6EroSubobject :: "SegmentSRv6 \<Rightarrow> SRv6EroSubobject result" where
  "NewSRv6EroSubobject seg =
     (let subo = \<lparr>s6e_LFlag = False, s6e_SubobjectType = SubobjectTypeEROSRv6, s6e_Length = 0,
            s6e_NAIType = 0, s6e_VFlag = False, s6e_TFlag = (s6_Structure seg \<noteq> None),
            s6e_FFlag = False, s6e_SFlag = False, s6e_Segment = seg\<rparr>;
          subo = (if IsValid (s6_LocalAddr seg)
                  then if IsValid (s6_RemoteAddr seg)
                       then subo\<lparr>s6e_FFlag := False, s6e_NAIType := NAITypeSRv6IPv6AdjacencyGlobal\<rparr>
                       else subo\<lparr>s6e_FFlag := False, s6e_NAIType := NAITypeSRv6IPv6Node\<rparr>
                  else subo\<lparr>s6e_FFlag := True, s6e_NAIType := NAITypeSRv6Absent\<rparr>) in
      bindE (SRv6EroSubobject_Len subo) (\<lambda>len. Inr (subo\<lparr>s6e_Length := ucast len\<rparr>)))"

section \<open>RSVP IPv4 prefix hops\<close>

abbreviation (input) rsvpIPv4PrefixEroSubobjectLength :: u8 where
  "rsvpIPv4PrefixEroSubobjectLength \<equiv> 8"
abbreviation (input) maxIPv4PrefixLen :: u8 where "maxIPv4PrefixLen \<equiv> 32"

record RSVPIPv4PrefixEroSubobject =
  rsvp_LFlag :: bool
  rsvp_SubobjectType :: u8
  rsvp_Length :: u8
  rsvp_Address :: addr
  rsvp_PrefixLen :: u8

definition RSVPIPv4PrefixEroSubobject_DecodeFromBytes :: "bytes \<Rightarrow> RSVPIPv4PrefixEroSubobject result" where
  "RSVPIPv4PrefixEroSubobject_DecodeFromBytes subobject =
     (if length subobject < unat rsvpIPv4PrefixEroSubobjectLength
      then errorf ''RSVPIPv4PrefixEroSubobject: subobject too short'' [int (length subobject)]
      else
        bindE (indexE subobject 0) (\<lambda>b0.
        bindE (indexE subobject 1) (\<lambda>b1.
        if b1 \<noteq> rsvpIPv4PrefixEroSubobjectLength
        then errorf ''RSVPIPv4PrefixEroSubobject: invalid length field'' [uint b1]
        else
          bindE (sliceE subobject 2 6) (\<lambda>ab.
          bindE (copyE (makeBytes 4) 0 4 ab) (\<lambda>a.
          bindE (indexE subobject 6) (\<lambda>prefixLen.
          if prefixLen > maxIPv4PrefixLen
          then errorf ''RSVPIPv4PrefixEroSubobject: invalid prefix length'' [uint prefixLen]
          else Inr \<lparr>rsvp_LFlag = (b0 AND 0x80 \<noteq> 0), rsvp_SubobjectType = b0 AND 0x7f,
                    rsvp_Length = b1, rsvp_Address = AddrFrom4 a, rsvp_PrefixLen = prefixLen\<rparr>))))))"

definition RSVPIPv4PrefixEroSubobject_Serialize :: "RSVPIPv4PrefixEroSubobject \<Rightarrow> bytes result" where
  "RSVPIPv4PrefixEroSubobject_Serialize obj =
     (if \<not> Is4 (rsvp_Address obj)
      then errorf ''RSVPIPv4PrefixEroSubobject: address is not IPv4'' []
      else if rsvp_PrefixLen obj > maxIPv4PrefixLen
      then errorf ''RSVPIPv4PrefixEroSubobject: invalid prefix length'' [uint (rsvp_PrefixLen obj)]
      else
        bindE (setE (makeBytes (unat rsvpIPv4PrefixEroSubobjectLength)) 0 (rsvp_SubobjectType obj)) (\<lambda>buf.
        bindE (orE (rsvp_LFlag obj) buf 0 0x80) (\<lambda>buf.
        bindE (setE buf 1 rsvpIPv4PrefixEroSubobjectLength) (\<lambda>buf.
        bindE (copyE buf 2 6 (AsSlice (rsvp_Address obj))) (\<lambda>buf.
        bindE (setE buf 6 (rsvp_PrefixLen obj)) (\<lambda>buf.
        setE buf 7 0))))))"

definition RSVPIPv4PrefixEroSubobject_Len :: "RSVPIPv4PrefixEroSubobject \<Rightarrow> u16 result" where
  "RSVPIPv4PrefixEroSubobject_Len obj = Inr (ucast rsvpIPv4PrefixEroSubobjectLength)"

definition NewRSVPIPv4PrefixEroSubobject :: "addr \<Rightarrow> u8 \<Rightarrow> RSVPIPv4PrefixEroSubobject result" where
  "NewRSVPIPv4PrefixEroSubobject address prefixLen =
     (if \<not> Is4 address then errorf ''RSVPIPv4PrefixEroSubobject: address is not IPv4'' []
      else if prefixLen > maxIPv4PrefixLen
      then errorf ''RSVPIPv4PrefixEroSubobject: invalid prefix length'' [uint prefixLen]
      else Inr \<lparr>rsvp_LFlag = False, rsvp_SubobjectType = SubobjectTypeEROIPv4Prefix,
                rsvp_Length = rsvpIPv4PrefixEroSubobjectLength, rsvp_Address = address,
                rsvp_PrefixLen = prefixLen\<rparr>)"

section \<open>The ERO object\<close>

text \<open>The interface \<open>EroSubobject\<close> and its implementations.\<close>

datatype EroSubobject =
    EroSR SREroSubobject
  | EroSRv6 SRv6EroSubobject
  | EroRSVP RSVPIPv4PrefixEroSubobject

fun EroSubobject_Serialize :: "EroSubobject \<Rightarrow> bytes result" where
  "EroSubobject_Serialize (EroSR x) = SREroSubobject_Serialize x"
| "EroSubobject_Serialize (EroSRv6 x) = SRv6EroSubobject_Serialize x"
| "EroSubobject_Serialize (EroRSVP x) = RSVPIPv4PrefixEroSubobject_Serialize x"

fun EroSubobject_Len :: "EroSubobject \<Rightarrow> u16 result" where
  "EroSubobject_Len (EroSR x) = SREroSubobject_Len x"
| "EroSubobject_Len (EroSRv6 x) = SRv6EroSubobject_Len x"
| "EroSubobject_Len (EroRSVP x) = RSVPIPv4PrefixEroSubobject_Len x"

fun EroSubobject_ToSegment :: "EroSubobject \<Rightarrow> Segment option" where
  "EroSubobject_ToSegment (EroSR x) = Some (SRMPLS (sre_Segment x))"
| "EroSubobject_ToSegment (EroSRv6 x) = Some (SRv6 (s6e_Segment x))"
| "EroSubobject_ToSegment (EroRSVP x) = None"

fun NewEroSubobject :: "Segment option \<Rightarrow> EroSubobject result" where
  "NewEroSubobject (Some (SRMPLS v)) = bindE (NewSREroSubobject v) (\<lambda>x. Inr (EroSR x))"
| "NewEroSubobject (Some (SRv6 v)) = bindE (NewSRv6EroSubobject v) (\<lambda>x. Inr (EroSRv6 x))"
| "NewEroSubobject None = errorf ''invalid Segment type'' []"

definition decodeEroSubobject :: "bytes \<Rightarrow> EroSubobject result" where
  "decodeEroSubobject objectBody =
     bindE (indexE objectBody 0) (\<lambda>b0.
     let subType = b0 AND 0x7f in
     if subType = SubobjectTypeEROSR
     then bindE (SREroSubobject_DecodeFromBytes objectBody) (\<lambda>x. Inr (EroSR x))
     else if subType = SubobjectTypeEROSRv6
     then bindE (SRv6EroSubobject_DecodeFromBytes objectBody) (\<lambda>x. Inr (EroSRv6 x))
     else if subType = SubobjectTypeEROIPv4Prefix
     then bindE (RSVPIPv4PrefixEroSubobject_DecodeFromBytes objectBody) (\<lambda>x. Inr (EroRSVP x))
     else errorf ''invalid Subobject type'' [])"

lemma unat_len_ge: "unat (l :: u16) \<le> k \<Longrightarrow> k + m < 65536 \<Longrightarrow> unat (l + word_of_nat m) = unat l + m"
  by (subst unat_word_ariths(1)) (simp add: unat_of_nat)

lemma naiLength_cases:
  "naiLength nt = Inr n \<Longrightarrow> n = 0 \<or> n = 4 \<or> n = 16 \<or> n = 8 \<or> n = 32"
  by (auto simp: naiLength_def split: if_splits)

lemma EroSubobject_Len_ge: "EroSubobject_Len x = Inr n \<Longrightarrow> 8 \<le> unat n"
proof (cases x)
  case (EroSR y)
  then show "EroSubobject_Len x = Inr n \<Longrightarrow> 8 \<le> unat n"
    by (auto simp: SREroSubobject_Len_def bindE_eq_Inr dest!: naiLength_cases split: if_splits)
next
  case (EroSRv6 y)
  then show "EroSubobject_Len x = Inr n \<Longrightarrow> 8 \<le> unat n"
    by (auto simp: SRv6EroSubobject_Len_def bindE_eq_Inr Let_def split: if_splits)
next
  case (EroRSVP y)
  then show "EroSubobject_Len x = Inr n \<Longrightarrow> 8 \<le> unat n"
    by (auto simp: RSVPIPv4PrefixEroSubobject_Len_def)
qed

text \<open>The loop: subobjects until the body is used up.\<close>

function decodeEroLoop :: "bytes \<Rightarrow> EroSubobject list result" where
  "decodeEroLoop objectBody =
     bindE (decodeEroSubobject objectBody) (\<lambda>sub.
     bindE (EroSubobject_Len sub) (\<lambda>objByteLength.
     if unat objByteLength < length objectBody
     then bindE (decodeEroLoop (drop (unat objByteLength) objectBody)) (\<lambda>subs. Inr (sub # subs))
     else if unat objByteLength = length objectBody then Inr [sub]
     else errorf ''srerosubobject parse error'' []))"
  by pat_completeness auto

termination
proof (relation "measure length")
  fix objectBody sub objByteLength
  assume "EroSubobject_Len sub = Inr objByteLength" "unat objByteLength < length objectBody"
  with EroSubobject_Len_ge [of sub objByteLength]
  show "(drop (unat objByteLength) objectBody, objectBody) \<in> measure length" by auto
qed auto

declare decodeEroLoop.simps [simp del]

record EroObject =
  ero_ObjectType :: u8
  ero_EroSubobjects :: "EroSubobject list"

definition EroObject_zero :: EroObject where
  "EroObject_zero = \<lparr>ero_ObjectType = 0, ero_EroSubobjects = []\<rparr>"

definition EroObject_DecodeFromBytes :: "EroObject \<Rightarrow> u8 \<Rightarrow> bytes \<Rightarrow> EroObject result" where
  "EroObject_DecodeFromBytes obj objType objectBody =
     (let obj = obj\<lparr>ero_ObjectType := objType\<rparr> in
      if length objectBody = 0 then Inr obj
      else bindE (decodeEroLoop objectBody) (\<lambda>subs.
           Inr (obj\<lparr>ero_EroSubobjects := ero_EroSubobjects obj @ subs\<rparr>)))"

definition EroObject_Len :: "EroObject \<Rightarrow> u16 result" where
  "EroObject_Len obj =
     bindE (mapE EroSubobject_Len (ero_EroSubobjects obj)) (\<lambda>lens.
     Inr (word_of_nat commonObjectHeaderLength + sum_list lens))"

definition EroObject_Serialize :: "EroObject \<Rightarrow> bytes result" where
  "EroObject_Serialize obj =
     bindE (EroObject_Len obj) (\<lambda>eroObjectLength.
     let header = CommonObjectHeader_Serialize
           (NewCommonObjectHeader ObjectClassERO (ero_ObjectType obj) eroObjectLength) in
     bindE (mapE (\<lambda>sub. wrapE ''failed to serialize subobject'' (EroSubobject_Serialize sub))
       (ero_EroSubobjects obj)) (\<lambda>bufs.
     Inr (header @ concat bufs)))"

abbreviation (input) ObjectTypeEROExplicitRoute :: u8 where "ObjectTypeEROExplicitRoute \<equiv> 0x01"

definition AddEroSubobjects :: "EroObject \<Rightarrow> Segment option list \<Rightarrow> EroObject result" where
  "AddEroSubobjects obj SegmentList =
     bindE (mapE NewEroSubobject SegmentList) (\<lambda>subs.
     Inr (obj\<lparr>ero_EroSubobjects := ero_EroSubobjects obj @ subs\<rparr>))"

definition NewEroObject :: "Segment option list \<Rightarrow> EroObject result" where
  "NewEroObject segmentList =
     AddEroSubobjects \<lparr>ero_ObjectType = ObjectTypeEROExplicitRoute, ero_EroSubobjects = []\<rparr> segmentList"

definition ToSegmentList :: "EroObject \<Rightarrow> Segment list" where
  "ToSegmentList obj = List.map_filter EroSubobject_ToSegment (ero_EroSubobjects obj)"

section \<open>Decoding never panics\<close>

lemma indexE_0_long: "\<not> length xs < 8 \<Longrightarrow> indexE xs 0 = Inr (xs ! 0)"
  by (cases xs) auto

lemma SREroSubobject_decode_no_panic: "SREroSubobject_DecodeFromBytes data \<noteq> panic"
  by (auto simp: indexE_0_long SREroSubobject_DecodeFromBytes_def Let_def be_read bindE_eq_Inl
      naiLength_def split: if_splits)

lemma s6e_readNAI_no_panic: "s6e_readNAI t data off seg \<noteq> panic"
  by (simp add: s6e_readNAI_def)

lemma s6e_readStructure_no_panic: "s6e_readStructure data off seg \<noteq> panic"
  by (simp add: s6e_readStructure_def)

lemma SRv6EroSubobject_decode_no_panic: "SRv6EroSubobject_DecodeFromBytes data \<noteq> panic"
  by (auto simp: indexE_0_long SRv6EroSubobject_DecodeFromBytes_def Let_def be_read bindE_eq_Inl
      s6e_readNAI_no_panic s6e_readStructure_no_panic split: if_splits prod.splits)

lemma RSVPIPv4PrefixEroSubobject_decode_no_panic:
  "RSVPIPv4PrefixEroSubobject_DecodeFromBytes data \<noteq> panic"
  by (simp add: indexE_0_long RSVPIPv4PrefixEroSubobject_DecodeFromBytes_def)

lemma EroSubobject_Len_no_panic: "EroSubobject_Len x \<noteq> panic"
  by (cases x) (auto simp: SREroSubobject_Len_def SRv6EroSubobject_Len_def
      RSVPIPv4PrefixEroSubobject_Len_def naiLength_def bindE_eq_Inl Let_def split: if_splits)

lemma decodeEroSubobject_no_panic: "data \<noteq> [] \<Longrightarrow> decodeEroSubobject data \<noteq> panic"
  by (auto simp: decodeEroSubobject_def Let_def bindE_eq_Inl SREroSubobject_decode_no_panic
      SRv6EroSubobject_decode_no_panic RSVPIPv4PrefixEroSubobject_decode_no_panic)

lemma decodeEroLoop_no_panic: "data \<noteq> [] \<Longrightarrow> decodeEroLoop data \<noteq> panic"
proof (induction data rule: decodeEroLoop.induct)
  case (1 data)
  show ?case
    unfolding decodeEroLoop.simps [of data]
  proof (rule bindE_no_panic [OF decodeEroSubobject_no_panic [OF 1(2)]],
      rule bindE_no_panic [OF EroSubobject_Len_no_panic])
    fix sub len
    assume *: "decodeEroSubobject data = Inr sub" "EroSubobject_Len sub = Inr len"
    show "(if unat len < length data
        then bindE (decodeEroLoop (drop (unat len) data)) (\<lambda>subs. Inr (sub # subs))
        else if unat len = length data then Inr [sub]
        else errorf ''srerosubobject parse error'' []) \<noteq> panic"
      using 1(1) [OF *] by (auto simp: bindE_eq_Inl)
  qed
qed

lemma EroObject_decode_no_panic: "EroObject_DecodeFromBytes obj t body \<noteq> panic"
  using decodeEroLoop_no_panic [of body]
  by (auto simp: EroObject_DecodeFromBytes_def Let_def bindE_eq_Inl)

end
