(* ===== verification/Ero_Roundtrip.thy ===== *)
theory Ero_Roundtrip
  imports Ero
begin

text \<open>
  Round trips of the ERO object of \<open>src/pkg/packet/pcep/object.go\<close>: every subobject built from a
  segment is read back by the ERO loop, so the segment list of an ERO survives the wire.
\<close>

section \<open>Round trips of the subobjects\<close>

text \<open>An IPv6 address that is its own unmapped form and has no zone.\<close>

definition plain6 :: "addr \<Rightarrow> bool" where
  "plain6 a \<longleftrightarrow> Is6 a \<and> zone a = [] \<and> \<not> Is4In6 a"

lemma Unmap_plain [simp]: "Is4 a \<Longrightarrow> Unmap a = a" "plain6 a \<Longrightarrow> Unmap a = a"
  by (cases a; auto simp: plain6_def)+

lemma plain6D [simp]: "plain6 a \<Longrightarrow> Is6 a" "plain6 a \<Longrightarrow> zone a = []" "plain6 a \<Longrightarrow> IsValid a"
  "plain6 a \<Longrightarrow> \<not> Is4 a" "Is4 a \<Longrightarrow> IsValid a" "Is4 a \<Longrightarrow> \<not> Is6 a"
  by (cases a; auto simp: plain6_def)+

definition nai_ok :: "u8 \<Rightarrow> addr \<Rightarrow> addr \<Rightarrow> bool" where
  "nai_ok nt l r \<longleftrightarrow>
     (if nt = NAITypeSRAbsent then l = NoAddr \<and> r = NoAddr
      else if nt = NAITypeSRIPv4Node then Is4 l \<and> r = NoAddr
      else if nt = NAITypeSRIPv6Node then plain6 l \<and> r = NoAddr
      else if nt = NAITypeSRIPv4Adjacency then Is4 l \<and> Is4 r
      else nt = NAITypeSRIPv6AdjacencyGlobal \<and> plain6 l \<and> plain6 r)"

definition SREroSubobject_ok :: "SREroSubobject \<Rightarrow> bool" where
  "SREroSubobject_ok x \<longleftrightarrow>
     (let seg = sre_Segment x in
      sre_SubobjectType x = SubobjectTypeEROSR \<and> sre_NAIType x < 16 \<and> sm_Sid seg < 2 ^ 20 \<and>
      (if sre_CFlag x then sm_TC seg < 8 else sm_TC seg = 0 \<and> \<not> sm_S seg \<and> sm_TTL seg = 0) \<and>
      (if sre_FFlag x then sm_LocalAddr seg = NoAddr \<and> sm_RemoteAddr seg = NoAddr
       else nai_ok (sre_NAIType x) (sm_LocalAddr seg) (sm_RemoteAddr seg)))"

lemma sid_word:
  fixes sid :: u32 and tc ttl :: u8 and s :: bool
  assumes "sid < 2 ^ 20" "tc < 8"
  defines "w \<equiv> push_bit 12 (sid AND 0xFFFFF) OR push_bit 9 (ucast (tc AND 0x07)) OR
    (if s then push_bit 8 1 else 0) OR ucast ttl"
  shows "drop_bit 12 w = sid" "ucast (drop_bit 9 w AND 0x07) = tc"
    "(w AND push_bit 8 1 \<noteq> 0) = s" "ucast (w AND 0xFF) = ttl"
proof -
  have t: "\<not> bit ttl (8 + n)" "\<not> bit ttl (9 + n)" "\<not> bit ttl (12 + n)"
    "\<not> bit tc (12 + n)" for n using u8_bit_less by force+
  have "\<not> bit tc n" if "3 \<le> n" for n
    by (rule bit_small_u8 [of tc 3]) (use assms that in \<open>auto simp: word_less_nat_alt\<close>)
  then have tc: "\<not> bit tc (Suc (Suc (Suc n)))" "\<not> bit tc (3 + n)" "\<not> bit tc 3" "\<not> bit tc 4" "\<not> bit tc 5" "\<not> bit tc 6" "\<not> bit tc 7"
    for n by simp_all
  have p: "\<not> bit sid (20 + n)" for n
    by (rule bit_small_u32 [of sid 20]) (use assms(1) in \<open>simp_all add: word_less_nat_alt\<close>)
  have b: "bit sid n \<Longrightarrow> n < 20" for n using p [of "n - 20"] by (cases "n < 20") auto
  have m: "sid AND 0xFFFFF = sid"
  proof -
    have "sid AND mask 20 = sid" by (rule bit_word_eqI) (auto simp: bit_simps dest: b)
    then show ?thesis by (simp add: mask_eq_exp_minus_1)
  qed
  have m7: "tc AND 0x07 = tc"
    by (auto intro!: u8_eqI simp: bit_simps less_8 tc)
  define sb where "sb = (if s then push_bit 8 1 else 0 :: u32)"
  have sb: "bit sb n \<longleftrightarrow> s \<and> n = 8" for n
  proof -
    have "(push_bit 8 1 :: u32) = 2 ^ 8" by simp
    moreover have "bit (2 ^ 8 :: u32) n \<longleftrightarrow> n = 8" by (simp only: bit_exp_iff) (auto simp: possible_bit_word)
    ultimately show ?thesis by (simp only: sb_def split: if_split) auto
  qed
  have w: "w = push_bit 12 sid OR push_bit 9 (ucast tc) OR sb OR ucast ttl"
    by (simp add: w_def m m7 sb_def)
  show "drop_bit 12 w = sid"
    unfolding w by (rule bit_word_eqI) (auto simp: bit_simps t tc sb dest: b u8_bit_less)
  show "(w AND push_bit 8 1 \<noteq> 0) = s"
  proof -
    have e: "bit (256 :: nat) n \<longleftrightarrow> n = 8" "bit (256 :: int) n \<longleftrightarrow> n = 8" for n
      using bit_exp_iff [of 8 n, where ?'a = nat] bit_exp_iff [of 8 n, where ?'a = int] by auto
    have "w AND push_bit 8 1 = sb"
      unfolding w by (rule bit_word_eqI)
        (auto simp: bit_simps sb e t tc dest: u8_bit_less)
    then show ?thesis by (simp add: sb_def)
  qed
  have e: "(0xFF :: u32) = mask 8" "(0x07 :: u32) = mask 3" by (simp_all add: mask_eq_exp_minus_1)
  show "ucast (w AND 0xFF) = ttl"
    unfolding w e by (rule u8_eqI) (auto simp: bit_simps t tc sb dest: u8_bit_less)
  show "ucast (drop_bit 9 w AND 0x07) = tc"
    unfolding w e by (rule u8_eqI) (auto simp: bit_simps less_8 t tc sb dest: u8_bit_less)
qed

text \<open>What the ERO loop needs of one subobject.\<close>

definition sub_framed :: "EroSubobject \<Rightarrow> bool" where
  "sub_framed x \<longleftrightarrow>
     (\<exists>bs. EroSubobject_Serialize x = Inr bs \<and> EroSubobject_Len x = Inr (word_of_nat (length bs)) \<and>
        8 \<le> length bs \<and> length bs \<le> 64 \<and> 4 dvd length bs \<and>
        (\<forall>rest. decodeEroSubobject (bs @ rest) = Inr x))"

lemma sre_flag_byte:
  "(((if f then 0x08 else 0) OR (if s then 0x04 else 0) OR (if c then 0x02 else 0) OR
     (if m then 0x01 else 0)) AND 0x08 \<noteq> (0 :: u8)) = f"
  "(((if f then 0x08 else 0) OR (if s then 0x04 else 0) OR (if c then 0x02 else 0) OR
     (if m then 0x01 else 0)) AND 0x04 \<noteq> (0 :: u8)) = s"
  "(((if f then 0x08 else 0) OR (if s then 0x04 else 0) OR (if c then 0x02 else 0) OR
     (if m then 0x01 else 0)) AND 0x02 \<noteq> (0 :: u8)) = c"
  "(((if f then 0x08 else 0) OR (if s then 0x04 else 0) OR (if c then 0x02 else 0) OR
     (if m then 0x01 else 0)) AND 0x01 \<noteq> (0 :: u8)) = m"
  by (cases f; cases s; cases c; cases m; simp)+

lemma subtype_byte:
  fixes t :: u8
  assumes "t = 0x24 \<or> t = 0x28 \<or> t = 0x01"
  shows "((t OR (if l then 0x80 else 0)) AND 0x80 \<noteq> 0) = l" "(t OR (if l then 0x80 else 0)) AND 0x7f = t"
  using assms by auto

lemma nibble_shift:
  assumes "(nt :: u8) < 16" shows "drop_bit 4 (nt * 16) = nt"
proof -
  have t: "\<not> bit nt n" if "4 \<le> n" for n
    by (rule bit_small_u8 [of nt 4]) (use assms that in \<open>auto simp: word_less_nat_alt\<close>)
  have "nt * 16 = push_bit 4 nt" by (simp add: push_bit_eq_mult)
  moreover have "drop_bit 4 (push_bit 4 nt) = nt"
    by (auto intro!: u8_eqI simp: bit_simps less_8 t)
  ultimately show ?thesis by simp
qed

definition ero_flags :: "bool \<Rightarrow> bool \<Rightarrow> bool \<Rightarrow> bool \<Rightarrow> u8" where
  "ero_flags f s c m = (if f then 0x08 else 0) OR (if s then 0x04 else 0) OR
     (if c then 0x02 else 0) OR (if m then 0x01 else 0)"

lemma ero_header:
  "bindE (setE (makeBytes 4) 0 t) (\<lambda>buf. bindE (orE l buf 0 0x80) (\<lambda>buf.
   bindE (setE buf 1 len) (\<lambda>buf. bindE (setE buf 2 n) (\<lambda>buf.
   bindE (orE f buf 3 0x08) (\<lambda>buf. bindE (orE s buf 3 0x04) (\<lambda>buf.
   bindE (orE c buf 3 0x02) (\<lambda>buf. bindE (orE m buf 3 0x01) k))))))) =
   k [t OR (if l then 0x80 else 0), len, n, ero_flags f s c m]"
  by (cases l; cases f; cases s; cases c; cases m; simp add: makeBytes_4 ero_flags_def)

definition nai_bytes :: "SegmentSRMPLS \<Rightarrow> bytes" where
  "nai_bytes seg = AsSlice (sm_LocalAddr seg) @ AsSlice (sm_RemoteAddr seg)"

lemma nai_ok_cases:
  assumes "nai_ok nt l r"
  obtains "nt = 0" "l = NoAddr" "r = NoAddr" | "nt = 1" "Is4 l" "r = NoAddr"
    | "nt = 2" "plain6 l" "r = NoAddr" | "nt = 3" "Is4 l" "Is4 r" | "nt = 4" "plain6 l" "plain6 r"
proof -
  have "nt = 0 \<and> l = NoAddr \<and> r = NoAddr \<or> nt = 1 \<and> Is4 l \<and> r = NoAddr \<or>
    nt = 2 \<and> plain6 l \<and> r = NoAddr \<or> nt = 3 \<and> Is4 l \<and> Is4 r \<or> nt = 4 \<and> plain6 l \<and> plain6 r"
    using assms unfolding nai_ok_def by argo
  then show thesis using that by blast
qed

lemma SREroSubobject_ok_cases:
  assumes "SREroSubobject_ok x"
  obtains "sre_FFlag x" "sm_LocalAddr (sre_Segment x) = NoAddr" "sm_RemoteAddr (sre_Segment x) = NoAddr"
    | "\<not> sre_FFlag x" "nai_ok (sre_NAIType x) (sm_LocalAddr (sre_Segment x)) (sm_RemoteAddr (sre_Segment x))"
  using assms unfolding SREroSubobject_ok_def Let_def by argo

lemma serializeNAI_ok:
  assumes "SREroSubobject_ok x"
  shows "serializeNAI x = Inr (nai_bytes (sre_Segment x)) \<and>
    SREroSubobject_Len x = Inr (word_of_nat (8 + length (nai_bytes (sre_Segment x)))) \<and>
    length (nai_bytes (sre_Segment x)) \<le> 32 \<and> 4 dvd length (nai_bytes (sre_Segment x))"
  using assms
proof (cases rule: SREroSubobject_ok_cases)
  case 2
  from 2(2) show ?thesis
    by (cases rule: nai_ok_cases) (simp_all add: 2(1) serializeNAI_def nai_bytes_def
        SREroSubobject_Len_def naiLength_def Let_def)
qed (simp add: serializeNAI_def nai_bytes_def SREroSubobject_Len_def)

lemma SREroSubobject_Serialize_ok:
  assumes "SREroSubobject_ok x"
  shows "SREroSubobject_Serialize x = Inr ([sre_SubobjectType x OR (if sre_LFlag x then 0x80 else 0),
    sre_Length x, sre_NAIType x * 16, ero_flags (sre_FFlag x) (sre_SFlag x) (sre_CFlag x) (sre_MFlag x)] @
    be32 (sre_sidWord x) @ nai_bytes (sre_Segment x))"
  unfolding SREroSubobject_Serialize_def ero_header
  by (simp add: serializeNAI_ok [OF assms])

lemma sre_sidWord_read:
  assumes "SREroSubobject_ok x"
  shows "drop_bit 12 (sre_sidWord x) = sm_Sid (sre_Segment x)"
    "sre_CFlag x \<Longrightarrow> ucast (drop_bit 9 (sre_sidWord x) AND 0x07) = sm_TC (sre_Segment x)"
    "sre_CFlag x \<Longrightarrow> (sre_sidWord x AND push_bit 8 1 \<noteq> 0) = sm_S (sre_Segment x)"
    "sre_CFlag x \<Longrightarrow> ucast (sre_sidWord x AND 0xFF) = sm_TTL (sre_Segment x)"
proof -
  let ?s = "sre_Segment x"
  have a: "sm_Sid ?s < 2 ^ 20" "sm_TC ?s < 8"
    using assms by (auto simp: SREroSubobject_ok_def Let_def split: if_splits)
  let ?w = "push_bit 12 (sm_Sid ?s AND 0xFFFFF) OR push_bit 9 (ucast (sm_TC ?s AND 0x07)) OR
    (if sm_S ?s then push_bit 8 1 else 0) OR ucast (sm_TTL ?s)"
  have w: "sre_sidWord x = ?w"
    using assms unfolding sre_sidWord_def SREroSubobject_ok_def Let_def
    by (cases "sre_CFlag x"; cases "sm_S ?s") (simp_all add: or.assoc)
  show "drop_bit 12 (sre_sidWord x) = sm_Sid ?s"
    unfolding w by (rule sid_word(1) [OF a])
  show "ucast (drop_bit 9 (sre_sidWord x) AND 0x07) = sm_TC ?s"
    unfolding w by (rule sid_word(2) [OF a])
  show "(sre_sidWord x AND push_bit 8 1 \<noteq> 0) = sm_S ?s"
    unfolding w by (rule sid_word(3) [OF a])
  show "ucast (sre_sidWord x AND 0xFF) = sm_TTL ?s"
    unfolding w by (rule sid_word(4) [OF a])
qed

lemma ero_flags_bits:
  "(ero_flags f s c m AND 0x08 \<noteq> 0) = f" "(ero_flags f s c m AND 0x04 \<noteq> 0) = s"
  "(ero_flags f s c m AND 0x02 \<noteq> 0) = c" "(ero_flags f s c m AND 0x01 \<noteq> 0) = m"
  unfolding ero_flags_def by (fact sre_flag_byte)+

lemma slice_4_8:
  "length bs = 4 \<Longrightarrow> sliceE (a # b # c # d # bs @ rest) 4 8 = Inr bs"
  by (simp add: sliceE_def)

lemma slice_from_8:
  "length bs = 4 \<Longrightarrow> k \<le> length rest \<Longrightarrow> sliceE (a # b # c # d # bs @ rest) 8 (8 + k) = Inr (take k rest)"
  by (simp add: sliceE_def)

lemma slice_mid_8:
  "length bs = 4 \<Longrightarrow> j \<le> k \<Longrightarrow> k \<le> length rest \<Longrightarrow>
   sliceE (a # b # c # d # bs @ rest) (8 + j) (8 + k) = Inr (drop j (take k rest))"
proof -
  assume *: "length bs = 4" "j \<le> k" "k \<le> length rest"
  then have "drop 8 (a # b # c # d # bs @ rest) = rest" by simp
  then have "drop (8 + j) (a # b # c # d # bs @ rest) = drop j rest"
    by (metis add.commute drop_drop)
  with * show ?thesis by (simp add: sliceE_def drop_take)
qed

lemma sr_segment_read:
  assumes "SREroSubobject_ok x" and l: "sm_LocalAddr (sre_Segment x) = l" and r: "sm_RemoteAddr (sre_Segment x) = r"
  shows "(if sre_CFlag x
          then NewSegmentSRMPLS (drop_bit 12 (sre_sidWord x))
            \<lparr>sm_TC := ucast (drop_bit 9 (sre_sidWord x) AND 0x07),
             sm_S := (sre_sidWord x AND push_bit 8 1 \<noteq> 0),
             sm_TTL := ucast (sre_sidWord x AND 0xFF)\<rparr>
          else NewSegmentSRMPLS (drop_bit 12 (sre_sidWord x)))
         \<lparr>sm_LocalAddr := l, sm_RemoteAddr := r\<rparr> = sre_Segment x"
proof -
  have z: "\<not> sre_CFlag x \<Longrightarrow> sm_TC (sre_Segment x) = 0 \<and> \<not> sm_S (sre_Segment x) \<and> sm_TTL (sre_Segment x) = 0"
    using assms(1) by (auto simp: SREroSubobject_ok_def Let_def)
  show ?thesis
    by (cases "sre_CFlag x")
      (simp_all add: sre_sidWord_read [OF assms(1)] sre_sidWord_read(3) [OF assms(1), simplified] NewSegmentSRMPLS_def z l [symmetric] r [symmetric])
qed

lemma SREroSubobject_decode_ok:
  assumes "SREroSubobject_ok x"
  shows "SREroSubobject_DecodeFromBytes ((sre_SubobjectType x OR (if sre_LFlag x then 0x80 else 0)) #
    sre_Length x # (sre_NAIType x * 16) # ero_flags (sre_FFlag x) (sre_SFlag x) (sre_CFlag x) (sre_MFlag x) #
    be32 (sre_sidWord x) @ nai_bytes (sre_Segment x) @ rest) = Inr x"
    (is "_ (?b0 # ?b1 # ?b2 # ?b3 # ?w @ ?nai @ rest) = _")
proof -
  let ?d = "?b0 # ?b1 # ?b2 # ?b3 # ?w @ ?nai @ rest"
  have nt: "sre_NAIType x < 16" and st: "sre_SubobjectType x = 0x24"
    using assms by (auto simp: SREroSubobject_ok_def Let_def)
  define seg where "seg = (if sre_CFlag x
          then NewSegmentSRMPLS (drop_bit 12 (sre_sidWord x))
            \<lparr>sm_TC := ucast (drop_bit 9 (sre_sidWord x) AND 0x07),
             sm_S := (sre_sidWord x AND push_bit 8 1 \<noteq> 0),
             sm_TTL := ucast (sre_sidWord x AND 0xFF)\<rparr>
          else NewSegmentSRMPLS (drop_bit 12 (sre_sidWord x)))"
  have la: "sm_LocalAddr seg = NoAddr" "sm_RemoteAddr seg = NoAddr"
    by (simp_all add: seg_def NewSegmentSRMPLS_def)
  note seg = sr_segment_read [OF assms refl refl, folded seg_def]
  define obj where "obj = x\<lparr>sre_Segment := seg\<rparr>"
  have sl: "sliceE ?d 4 8 = Inr ?w" by (rule slice_4_8) simp
  have start: "SREroSubobject_DecodeFromBytes ?d =
    (if sre_FFlag x then Inr obj
     else bindE (naiLength (sre_NAIType x)) (\<lambda>naiLen.
          let n = unat naiLen in
          if n > 0 \<and> length ?d < 8 + n
          then errorf ''SREroSubobject: truncated NAI'' [uint (sre_NAIType x)]
          else if sre_NAIType x = NAITypeSRIPv4Node \<or> sre_NAIType x = NAITypeSRIPv6Node
          then bindE (sliceE ?d 8 (8 + n)) (\<lambda>a.
               Inr (obj\<lparr>sre_Segment := seg\<lparr>sm_LocalAddr := fst (AddrFromSlice a)\<rparr>\<rparr>))
          else if sre_NAIType x = NAITypeSRIPv4Adjacency \<or> sre_NAIType x = NAITypeSRIPv6AdjacencyGlobal
          then let half = 8 + n div 2 in
               bindE (sliceE ?d 8 half) (\<lambda>a.
               bindE (sliceE ?d half (8 + n)) (\<lambda>b.
               Inr (obj\<lparr>sre_Segment := seg\<lparr>sm_LocalAddr := fst (AddrFromSlice a),
                                           sm_RemoteAddr := fst (AddrFromSlice b)\<rparr>\<rparr>)))
          else Inr obj))"
  proof -
    have len: "(length ?d < 8) = False" by simp
    have i: "indexE ?d 0 = Inr ?b0" "indexE ?d 1 = Inr ?b1" "indexE ?d 2 = Inr ?b2" "indexE ?d 3 = Inr ?b3"
      by simp_all
    have w: "bindE (sliceE ?d 4 8) beUint32 = Inr (sre_sidWord x)"
      by (simp only: sl bindE_simps(1) beUint32_be32)
    have o: "\<lparr>sre_LFlag = sre_LFlag x, sre_SubobjectType = sre_SubobjectType x, sre_Length = sre_Length x,
      sre_NAIType = sre_NAIType x, sre_FFlag = sre_FFlag x, sre_SFlag = sre_SFlag x,
      sre_CFlag = sre_CFlag x, sre_MFlag = sre_MFlag x, sre_Segment = seg\<rparr> = obj"
      by (simp add: obj_def)
    have of: "sre_FFlag obj = sre_FFlag x" by (simp add: obj_def)
    show ?thesis
      unfolding SREroSubobject_DecodeFromBytes_def len if_False i bindE_simps(1) w Let_def
        ero_flags_bits subtype_byte [of "sre_SubobjectType x", OF disjI1, OF st]
        nibble_shift [OF nt] seg_def [symmetric] o of ..
  qed
  show ?thesis
    using assms
  proof (cases rule: SREroSubobject_ok_cases)
    case 1
    have "seg\<lparr>sm_LocalAddr := NoAddr, sm_RemoteAddr := NoAddr\<rparr> = seg" using la by simp
    with seg 1 have "seg = sre_Segment x" by simp
    then show ?thesis
      unfolding start if_P [OF 1(1)] by (simp add: obj_def)
  next
    case 2
    have s1: "seg\<lparr>sm_LocalAddr := l\<rparr> = sre_Segment x"
      if "sm_LocalAddr (sre_Segment x) = l" "sm_RemoteAddr (sre_Segment x) = NoAddr" for l
    proof -
      have "seg\<lparr>sm_LocalAddr := l\<rparr> = seg\<lparr>sm_LocalAddr := l, sm_RemoteAddr := NoAddr\<rparr>"
        using la by simp
      with seg that show ?thesis by simp
    qed
    have s0: "seg = sre_Segment x"
      if "sm_LocalAddr (sre_Segment x) = NoAddr" "sm_RemoteAddr (sre_Segment x) = NoAddr"
      using s1 [OF that] la by (cases seg) simp
    note start' = start [unfolded if_not_P [OF 2(1)]]
    from 2(2) show ?thesis
    proof (cases rule: nai_ok_cases)
      case 1
      then show ?thesis unfolding start' by (simp add: naiLength_def obj_def s0)
    next
      case 2
      then show ?thesis unfolding start' by (simp add: naiLength_def nai_bytes_def obj_def slice_from_8 s1)
    next
      case 3
      then show ?thesis unfolding start' by (simp add: naiLength_def nai_bytes_def obj_def slice_from_8 s1)
    next
      case 4
      then show ?thesis using seg slice_from_8 [of ?w 4 "?nai @ rest"] slice_mid_8 [of ?w 4 8 "?nai @ rest"]
        unfolding start' by (simp add: naiLength_def nai_bytes_def obj_def)
    next
      case 5
      then show ?thesis using seg slice_from_8 [of ?w 16 "?nai @ rest"] slice_mid_8 [of ?w 16 32 "?nai @ rest"]
        unfolding start' by (simp add: naiLength_def nai_bytes_def obj_def)
    qed
  qed
qed

lemma sr_framed:
  assumes "SREroSubobject_ok x"
  shows "sub_framed (EroSR x)"
proof -
  let ?h = "[sre_SubobjectType x OR (if sre_LFlag x then 0x80 else 0), sre_Length x, sre_NAIType x * 16,
    ero_flags (sre_FFlag x) (sre_SFlag x) (sre_CFlag x) (sre_MFlag x)]"
  let ?bs = "?h @ be32 (sre_sidWord x) @ nai_bytes (sre_Segment x)"
  have st: "sre_SubobjectType x = 0x24"
    using assms by (auto simp: SREroSubobject_ok_def Let_def)
  have d: "decodeEroSubobject (?bs @ rest) = Inr (EroSR x)" for rest
    using SREroSubobject_decode_ok [OF assms, of rest] subtype_byte(2) [of "0x24" "sre_LFlag x"]
    by (simp add: decodeEroSubobject_def st)
  have l: "length (nai_bytes (sre_Segment x)) \<le> 32" "4 dvd length (nai_bytes (sre_Segment x))"
    "SREroSubobject_Len x = Inr (word_of_nat (length ?bs))"
    using serializeNAI_ok [OF assms] by simp_all
  show ?thesis
    unfolding sub_framed_def
    by (rule exI [of _ ?bs], intro conjI allI d)
      (use l in \<open>simp_all add: SREroSubobject_Serialize_ok [OF assms]\<close>)
qed

text \<open>SRv6: the segment must have a local address, otherwise it has no behavior to encode.\<close>

definition v6_ok :: "addr \<Rightarrow> bool" where
  "v6_ok a \<longleftrightarrow> Is6 a \<and> zone a = []"

lemma v6_okD [simp]: "v6_ok a \<Longrightarrow> Is6 a" "v6_ok a \<Longrightarrow> zone a = []" "v6_ok a \<Longrightarrow> IsValid a"
  by (cases a; simp add: v6_ok_def)+

definition SRv6EroSubobject_ok :: "SRv6EroSubobject \<Rightarrow> bool" where
  "SRv6EroSubobject_ok x \<longleftrightarrow>
     (let seg = s6e_Segment x; l = s6_LocalAddr seg; r = s6_RemoteAddr seg in
      s6e_SubobjectType x = SubobjectTypeEROSRv6 \<and> \<not> s6e_FFlag x \<and>
      (if s6e_SFlag x then s6_Sid seg = NoAddr else v6_ok (s6_Sid seg)) \<and>
      (s6e_NAIType x = NAITypeSRv6IPv6Node \<and> v6_ok l \<and> r = NoAddr \<or>
       s6e_NAIType x = NAITypeSRv6IPv6AdjacencyGlobal \<and> v6_ok l \<and> v6_ok r) \<and>
      (case s6_Structure seg of None \<Rightarrow> \<not> s6e_TFlag x | Some s \<Rightarrow> s6e_TFlag x \<and> length s = 4))"

definition s6_nai_bytes :: "SegmentSRv6 \<Rightarrow> bytes" where
  "s6_nai_bytes seg = AsSlice (s6_LocalAddr seg) @ AsSlice (s6_RemoteAddr seg)"

definition s6_struct_bytes :: "SegmentSRv6 \<Rightarrow> bytes" where
  "s6_struct_bytes seg = (case s6_Structure seg of Some s \<Rightarrow> s @ makeBytes 4 | None \<Rightarrow> [])"

lemma s6e_readNAI_node:
  "v6_ok l \<Longrightarrow> s6e_readNAI 0x02 (pre @ AsSlice l @ rest) (length pre) seg =
     Inr (seg\<lparr>s6_LocalAddr := l\<rparr>, length pre + 16)"
  by (simp add: s6e_readNAI_def sliceE_def)

lemma s6e_readNAI_adj:
  "v6_ok l \<Longrightarrow> v6_ok r \<Longrightarrow>
   s6e_readNAI 0x04 (pre @ AsSlice l @ AsSlice r @ rest) (length pre) seg =
     Inr (seg\<lparr>s6_LocalAddr := l, s6_RemoteAddr := r\<rparr>, length pre + 32)"
  by (simp add: s6e_readNAI_def sliceE_def)

lemma s6e_readStructure_ok:
  "length s = 4 \<Longrightarrow>
   s6e_readStructure (pre @ s @ makeBytes 4 @ rest) (length pre) seg = Inr (seg\<lparr>s6_Structure := Some s\<rparr>)"
  by (auto simp: s6e_readStructure_def nth_append length_Suc_conv numeral_eq_Suc)

lemma SRv6EroSubobject_Serialize_ok:
  assumes "SRv6EroSubobject_ok x" "SegmentSRv6_Behavior (s6e_Segment x) = Inr b"
  shows "SRv6EroSubobject_Serialize x = Inr ([s6e_SubobjectType x OR (if s6e_LFlag x then 0x80 else 0),
    s6e_Length x, s6e_NAIType x * 16, ero_flags (s6e_VFlag x) (s6e_TFlag x) (s6e_FFlag x) (s6e_SFlag x)] @
    ([0, 0] @ be16 b) @ AsSlice (s6_Sid (s6e_Segment x)) @ s6_nai_bytes (s6e_Segment x) @
    s6_struct_bytes (s6e_Segment x))"
proof -
  have m: "makeBytes 2 = [0, 0]" by (simp add: makeBytes_def numeral_2_eq_2)
  show ?thesis
    using assms unfolding SRv6EroSubobject_Serialize_def ero_header SRv6EroSubobject_ok_def Let_def
    by (auto simp: s6_nai_bytes_def s6_struct_bytes_def m Uint16ToByteSlice_def)
qed

lemma SRv6EroSubobject_decode_ok:
  assumes ok: "SRv6EroSubobject_ok x" and b: "SegmentSRv6_Behavior (s6e_Segment x) = Inr b"
    and u: "s6_USid (s6e_Segment x) \<longleftrightarrow> b = BehaviorUN \<or> b = BehaviorUA"
  shows "SRv6EroSubobject_DecodeFromBytes ((s6e_SubobjectType x OR (if s6e_LFlag x then 0x80 else 0)) #
    s6e_Length x # (s6e_NAIType x * 16) # ero_flags (s6e_VFlag x) (s6e_TFlag x) (s6e_FFlag x) (s6e_SFlag x) #
    ([0, 0] @ be16 b) @ AsSlice (s6_Sid (s6e_Segment x)) @ s6_nai_bytes (s6e_Segment x) @
    s6_struct_bytes (s6e_Segment x) @ rest) = Inr x"
    (is "_ (?b0 # ?b1 # ?b2 # ?b3 # ?w @ ?sid @ ?nai @ ?st @ rest) = _")
proof -
  let ?d = "?b0 # ?b1 # ?b2 # ?b3 # ?w @ ?sid @ ?nai @ ?st @ rest"
  let ?seg = "s6e_Segment x"
  let ?pre = "?b0 # ?b1 # ?b2 # ?b3 # ?w @ ?sid"
  let ?pre' = "?pre @ ?nai"
  have nt: "s6e_NAIType x < 16" and ty: "s6e_SubobjectType x = 0x28" and ff: "\<not> s6e_FFlag x"
    using ok by (auto simp: SRv6EroSubobject_ok_def Let_def)
  define seg1 where "seg1 = SegmentSRv6_zero\<lparr>s6_Sid := s6_Sid ?seg\<rparr>"
  define seg2 where "seg2 = seg1\<lparr>s6_LocalAddr := s6_LocalAddr ?seg, s6_RemoteAddr := s6_RemoteAddr ?seg\<rparr>"
  define seg3 where "seg3 = seg2\<lparr>s6_Structure := s6_Structure ?seg\<rparr>"
  have len: "(length ?d < 8) = False" by simp
  have i: "indexE ?d 0 = Inr ?b0" "indexE ?d 1 = Inr ?b1" "indexE ?d 2 = Inr ?b2" "indexE ?d 3 = Inr ?b3"
    by simp_all
  have w: "bindE (sliceE ?d 6 8) beUint16 = Inr b" by (simp add: sliceE_def)
  have sid: "(if \<not> s6e_SFlag x then
                 (if length ?d < 8 + 16 then errorf ''SRv6EroSubobject: truncated SID'' []
                  else bindE (sliceE ?d 8 (8 + 16)) (\<lambda>s.
                       Inr (NewSegmentSRv6 (fst (AddrFromSlice s)), 8 + 16)))
               else Inr (SegmentSRv6_zero, 8)) = Inr (seg1, length ?pre)"
    using ok by (auto simp: SRv6EroSubobject_ok_def Let_def sliceE_def seg1_def NewSegmentSRv6_def SegmentSRv6_zero_def)
  have nai: "s6e_readNAI (s6e_NAIType x) ?d (length ?pre) seg1 = Inr (seg2, length ?pre')"
  proof -
    have "s6e_NAIType x = 2 \<and> v6_ok (s6_LocalAddr ?seg) \<and> s6_RemoteAddr ?seg = NoAddr \<or>
      s6e_NAIType x = 4 \<and> v6_ok (s6_LocalAddr ?seg) \<and> v6_ok (s6_RemoteAddr ?seg)"
      using ok unfolding SRv6EroSubobject_ok_def Let_def by blast
    then show ?thesis
    proof
      assume *: "s6e_NAIType x = 2 \<and> v6_ok (s6_LocalAddr ?seg) \<and> s6_RemoteAddr ?seg = NoAddr"
      then show ?thesis using s6e_readNAI_node [of "s6_LocalAddr ?seg" ?pre "?st @ rest" seg1]
        by (simp add: s6_nai_bytes_def seg2_def seg1_def SegmentSRv6_zero_def)
    next
      assume *: "s6e_NAIType x = 4 \<and> v6_ok (s6_LocalAddr ?seg) \<and> v6_ok (s6_RemoteAddr ?seg)"
      then show ?thesis
        using s6e_readNAI_adj [of "s6_LocalAddr ?seg" "s6_RemoteAddr ?seg" ?pre "?st @ rest" seg1]
        by (simp add: s6_nai_bytes_def seg2_def)
    qed
  qed
  have st: "(if s6e_TFlag x then s6e_readStructure ?d (length ?pre') seg2 else Inr seg2) = Inr seg3"
  proof (cases "s6_Structure ?seg")
    case None
    then have "\<not> s6e_TFlag x" using ok by (simp add: SRv6EroSubobject_ok_def Let_def)
    then show ?thesis by (simp add: seg3_def seg2_def seg1_def SegmentSRv6_zero_def None)
  next
    case (Some t)
    then have "s6e_TFlag x" "length t = 4" using ok by (simp_all add: SRv6EroSubobject_ok_def Let_def)
    then show ?thesis using s6e_readStructure_ok [of t ?pre' rest seg2]
      by (simp add: seg3_def s6_struct_bytes_def Some)
  qed
  have u': "(if b = BehaviorUN \<or> b = BehaviorUA then seg3\<lparr>s6_USid := True\<rparr> else seg3) = ?seg"
    using u by (cases ?seg) (auto simp: seg3_def seg2_def seg1_def SegmentSRv6_zero_def)
  have o: "\<lparr>s6e_LFlag = s6e_LFlag x, s6e_SubobjectType = s6e_SubobjectType x, s6e_Length = s6e_Length x,
    s6e_NAIType = s6e_NAIType x, s6e_VFlag = s6e_VFlag x, s6e_TFlag = s6e_TFlag x,
    s6e_FFlag = s6e_FFlag x, s6e_SFlag = s6e_SFlag x, s6e_Segment = ?seg\<rparr> = x"
    by simp
  show ?thesis
    unfolding SRv6EroSubobject_DecodeFromBytes_def len if_False i bindE_simps(1) w Let_def
      ero_flags_bits subtype_byte [of "s6e_SubobjectType x", OF disjI2, OF disjI1, OF ty]
      nibble_shift [OF nt] sid prod.case if_P [OF ff] nai st u' o ..
qed

lemma Behavior_USid:
  "SegmentSRv6_Behavior seg = Inr b \<Longrightarrow> s6_USid seg \<longleftrightarrow> b = BehaviorUN \<or> b = BehaviorUA"
  by (auto simp: SegmentSRv6_Behavior_def split: if_splits)

lemma s6_sizes:
  assumes "SRv6EroSubobject_ok x"
  shows "length (s6_nai_bytes (s6e_Segment x)) = (if s6e_NAIType x = 2 then 16 else 32)"
    and "length (s6_struct_bytes (s6e_Segment x)) = (if s6e_TFlag x then 8 else 0)"
    and "length (AsSlice (s6_Sid (s6e_Segment x))) = (if s6e_SFlag x then 0 else 16)"
    and "s6e_NAIType x = 2 \<or> s6e_NAIType x = 4" "\<not> s6e_FFlag x" "s6e_SubobjectType x = 0x28"
    and "\<exists>b. SegmentSRv6_Behavior (s6e_Segment x) = Inr b"
  using assms unfolding SRv6EroSubobject_ok_def Let_def
  by (auto simp: s6_nai_bytes_def s6_struct_bytes_def SegmentSRv6_Behavior_def split: option.splits)

lemma srv6_framed:
  assumes "SRv6EroSubobject_ok x"
  shows "sub_framed (EroSRv6 x)"
proof -
  note z = s6_sizes [OF assms]
  obtain b where b: "SegmentSRv6_Behavior (s6e_Segment x) = Inr b" using z(7) by blast
  let ?bs = "[s6e_SubobjectType x OR (if s6e_LFlag x then 0x80 else 0),
    s6e_Length x, s6e_NAIType x * 16, ero_flags (s6e_VFlag x) (s6e_TFlag x) (s6e_FFlag x) (s6e_SFlag x)] @
    ([0, 0] @ be16 b) @ AsSlice (s6_Sid (s6e_Segment x)) @ s6_nai_bytes (s6e_Segment x) @
    s6_struct_bytes (s6e_Segment x)"
  have d: "decodeEroSubobject (?bs @ rest) = Inr (EroSRv6 x)" for rest
    using SRv6EroSubobject_decode_ok [OF assms b Behavior_USid [OF b], of rest]
      subtype_byte(2) [of "0x28" "s6e_LFlag x"]
    by (simp add: decodeEroSubobject_def z(6))
  have l: "SRv6EroSubobject_Len x = Inr (word_of_nat (length ?bs))"
    using z(4) by (auto simp: SRv6EroSubobject_Len_def Let_def z(1-3,5))
  show ?thesis
    unfolding sub_framed_def
    by (rule exI [of _ ?bs], intro conjI allI d)
      (use l z(4) in \<open>auto simp: SRv6EroSubobject_Serialize_ok [OF assms b] z(1-3)\<close>)
qed

definition RSVPIPv4PrefixEroSubobject_ok :: "RSVPIPv4PrefixEroSubobject \<Rightarrow> bool" where
  "RSVPIPv4PrefixEroSubobject_ok x \<longleftrightarrow> rsvp_SubobjectType x = SubobjectTypeEROIPv4Prefix \<and>
     rsvp_Length x = rsvpIPv4PrefixEroSubobjectLength \<and> Is4 (rsvp_Address x) \<and>
     rsvp_PrefixLen x \<le> maxIPv4PrefixLen"

lemma rsvp_framed:
  assumes "RSVPIPv4PrefixEroSubobject_ok x"
  shows "sub_framed (EroRSVP x)"
proof -
  obtain v where v: "rsvp_Address x = Addr4 v"
    using assms by (cases "rsvp_Address x") (auto simp: RSVPIPv4PrefixEroSubobject_ok_def)
  obtain a0 a1 a2 a3 where a: "be32 v = [a0, a1, a2, a3]" by (simp add: be32_bytes)
  let ?bs = "[(1 :: u8) OR (if rsvp_LFlag x then 0x80 else 0), 8] @ be32 v @ [rsvp_PrefixLen x, 0]"
  have m: "makeBytes 8 = [0, 0, 0, 0, 0, 0, 0, 0]" by (simp add: makeBytes_def numeral_eq_Suc)
  have s: "EroSubobject_Serialize (EroRSVP x) = Inr ?bs"
    using assms by (cases "rsvp_LFlag x")
      (simp_all add: RSVPIPv4PrefixEroSubobject_Serialize_def RSVPIPv4PrefixEroSubobject_ok_def v m a copyE_def not_less)
  have ad: "AddrFrom4 (be32 v) = rsvp_Address x"
    using AddrFromSlice_AsSlice4 [of "rsvp_Address x"] by (simp add: v AddrFromSlice_def)
  have d: "decodeEroSubobject (?bs @ rest) = Inr (EroRSVP x)" for rest
    using assms subtype_byte [of 1 "rsvp_LFlag x"] ad
    by (simp add: decodeEroSubobject_def RSVPIPv4PrefixEroSubobject_DecodeFromBytes_def sliceE_def
        copyE_def makeBytes_4 a RSVPIPv4PrefixEroSubobject_ok_def not_less)
  show ?thesis
    unfolding sub_framed_def
    by (rule exI [of _ ?bs], intro conjI allI d s)
      (simp_all add: RSVPIPv4PrefixEroSubobject_Len_def)
qed

fun EroSubobject_ok :: "EroSubobject \<Rightarrow> bool" where
  "EroSubobject_ok (EroSR x) = SREroSubobject_ok x"
| "EroSubobject_ok (EroSRv6 x) = SRv6EroSubobject_ok x"
| "EroSubobject_ok (EroRSVP x) = RSVPIPv4PrefixEroSubobject_ok x"

lemma EroSubobject_framed: "EroSubobject_ok x \<Longrightarrow> sub_framed x"
  by (cases x) (simp_all add: sr_framed srv6_framed rsvp_framed)

section \<open>The loop and the object\<close>

definition EroObject_ok :: "EroObject \<Rightarrow> bool" where
  "EroObject_ok obj \<longleftrightarrow> ero_ObjectType obj < 16 \<and> list_all EroSubobject_ok (ero_EroSubobjects obj) \<and>
     length (ero_EroSubobjects obj) \<le> 1000"

lemma ero_loop:
  assumes "list_all sub_framed subs"
  shows "\<exists>bufs. mapE (\<lambda>sub. wrapE ''failed to serialize subobject'' (EroSubobject_Serialize sub)) subs = Inr bufs \<and>
    (\<exists>lens. mapE EroSubobject_Len subs = Inr lens \<and> sum_list lens = word_of_nat (length (concat bufs))) \<and>
    length (concat bufs) \<le> 64 * length subs \<and> 4 dvd length (concat bufs) \<and>
    (subs \<noteq> [] \<longrightarrow> concat bufs \<noteq> [] \<and> decodeEroLoop (concat bufs) = Inr subs)"
  using assms
proof (induction subs)
  case (Cons x subs)
  then obtain bufs lens where IH: "mapE (\<lambda>sub. wrapE ''failed to serialize subobject'' (EroSubobject_Serialize sub)) subs = Inr bufs"
      "mapE EroSubobject_Len subs = Inr lens" "sum_list lens = word_of_nat (length (concat bufs))"
      "length (concat bufs) \<le> 64 * length subs" "4 dvd length (concat bufs)"
      "subs \<noteq> [] \<longrightarrow> concat bufs \<noteq> [] \<and> decodeEroLoop (concat bufs) = Inr subs"
    by auto
  obtain bs where bs: "EroSubobject_Serialize x = Inr bs" "EroSubobject_Len x = Inr (word_of_nat (length bs))"
      "8 \<le> length bs" "length bs \<le> 64" "4 dvd length bs" "\<And>rest. decodeEroSubobject (bs @ rest) = Inr x"
    using Cons.prems by (auto simp: sub_framed_def)
  have u: "unat (word_of_nat (length bs) :: u16) = length bs"
    by (rule unat_u16_id) (use bs(4) in simp)
  have e: "mapE (\<lambda>sub. wrapE ''failed to serialize subobject'' (EroSubobject_Serialize sub)) (x # subs) = Inr (bs # bufs)"
    "mapE EroSubobject_Len (x # subs) = Inr (word_of_nat (length bs) # lens)"
    using IH(1,2) bs(1,2) by simp_all
  have "decodeEroLoop (bs @ concat bufs) = Inr (x # subs)"
  proof (cases "subs = []")
    case True
    then have "bufs = []" using IH(1) by simp
    then show ?thesis
      using bs(6) [of "[]"] True by (subst decodeEroLoop.simps) (simp add: bs(2) u)
  next
    case False
    then have "concat bufs \<noteq> []" "decodeEroLoop (concat bufs) = Inr subs" using IH(6) by blast+
    then show ?thesis
      by (subst decodeEroLoop.simps) (simp add: bs(2,6) u del: concat_eq_Nil_conv)
  qed
  moreover have "4 dvd length bs + length (concat bufs)" using bs(5) IH(5) by (rule dvd_add)
  moreover have "bs \<noteq> []" using bs(3) by auto
  moreover have "sum_list (word_of_nat (length bs) # lens) = word_of_nat (length (concat (bs # bufs)))"
    using IH(3) by simp
  ultimately show ?case
    using IH(4) bs(4) by (intro exI [of _ "bs # bufs"] conjI exI [of _ "word_of_nat (length bs) # lens"] e impI) simp_all
qed simp

definition ero_len :: "EroObject \<Rightarrow> u16" where
  "ero_len obj = (case EroObject_Len obj of Inr n \<Rightarrow> n | Inl _ \<Rightarrow> 0)"

interpretation ero_object: object_codec "EroObject_DecodeFromBytes EroObject_zero"
  EroObject_Serialize ObjectClassERO ero_ObjectType ero_len EroObject_ok
proof
  fix x assume ok: "EroObject_ok x"
  then show "ero_ObjectType x < 16" by (simp add: EroObject_ok_def)
  have "list_all sub_framed (ero_EroSubobjects x)"
    using ok EroSubobject_framed by (auto simp: EroObject_ok_def list_all_iff)
  from ero_loop [OF this] obtain bufs lens where b:
      "mapE (\<lambda>sub. wrapE ''failed to serialize subobject'' (EroSubobject_Serialize sub)) (ero_EroSubobjects x) = Inr bufs"
      "mapE EroSubobject_Len (ero_EroSubobjects x) = Inr lens" "sum_list lens = word_of_nat (length (concat bufs))"
      "length (concat bufs) \<le> 64 * length (ero_EroSubobjects x)" "4 dvd length (concat bufs)"
      "ero_EroSubobjects x \<noteq> [] \<longrightarrow> concat bufs \<noteq> [] \<and> decodeEroLoop (concat bufs) = Inr (ero_EroSubobjects x)"
    by blast
  let ?body = "concat bufs"
  have L: "EroObject_Len x = Inr (word_of_nat (4 + length ?body))"
    by (simp add: EroObject_Len_def b(2,3))
  show "\<exists>body. 4 + length body \<le> max_object \<and> 4 dvd length body \<and>
      EroObject_Serialize x = Inr (object_frame ObjectClassERO (ero_ObjectType x) body) \<and>
      unat (ero_len x) = 4 + length body \<and>
      EroObject_DecodeFromBytes EroObject_zero (ero_ObjectType x) body = Inr x"
  proof (rule object_roundtripI [of ?body])
    show "4 + length ?body \<le> max_object" using ok b(4) by (simp add: EroObject_ok_def max_object_def)
    show "4 dvd length ?body" by (rule b(5))
    show "ero_len x = word_of_nat (4 + length ?body)" by (simp add: ero_len_def L)
    show "EroObject_Serialize x = Inr (object_frame ObjectClassERO (ero_ObjectType x) ?body)"
      by (simp add: EroObject_Serialize_def L b(1) object_frame_def Let_def)
    show "EroObject_DecodeFromBytes EroObject_zero (ero_ObjectType x) ?body = Inr x"
    proof (cases "ero_EroSubobjects x = []")
      case True
      then have "bufs = []" using b(1) by simp
      with True show ?thesis
        by (cases x) (simp add: EroObject_DecodeFromBytes_def EroObject_zero_def)
    next
      case False
      then have "concat bufs \<noteq> []" "decodeEroLoop (concat bufs) = Inr (ero_EroSubobjects x)" using b(6) by blast+
      then show ?thesis
        by (cases x) (simp add: EroObject_DecodeFromBytes_def EroObject_zero_def del: concat_eq_Nil_conv)
    qed
  qed
qed

section \<open>Segment lists on the wire\<close>

text \<open>The segments \<open>NewEroObject\<close> accepts and the wire format can carry.\<close>

fun segment_ok :: "Segment \<Rightarrow> bool" where
  "segment_ok (SRMPLS v) \<longleftrightarrow>
     (let l = sm_LocalAddr v; r = sm_RemoteAddr v in
      sm_Sid v < 2 ^ 20 \<and> sm_TC v < 8 \<and>
      (r = NoAddr \<and> (l = NoAddr \<or> Is4 l \<or> plain6 l) \<or> Is4 l \<and> Is4 r \<or>
       plain6 l \<and> plain6 r \<and> \<not> IsLinkLocalUnicast l \<and> \<not> IsLinkLocalUnicast r))"
| "segment_ok (SRv6 v) \<longleftrightarrow>
     v6_ok (s6_Sid v) \<and> v6_ok (s6_LocalAddr v) \<and> (s6_RemoteAddr v = NoAddr \<or> v6_ok (s6_RemoteAddr v)) \<and>
     (case s6_Structure v of None \<Rightarrow> True | Some s \<Rightarrow> length s = 4)"

lemma NewSREroSubobject_ok:
  assumes "segment_ok (SRMPLS v)"
  shows "\<exists>x. NewSREroSubobject v = Inr x \<and> SREroSubobject_ok x \<and> sre_Segment x = v"
proof -
  let ?l = "sm_LocalAddr v" and ?r = "sm_RemoteAddr v"
  have c: "?l = NoAddr \<and> ?r = NoAddr \<or> Is4 ?l \<and> ?r = NoAddr \<or> plain6 ?l \<and> ?r = NoAddr \<or> Is4 ?l \<and> Is4 ?r \<or>
      plain6 ?l \<and> plain6 ?r \<and> \<not> IsLinkLocalUnicast ?l \<and> \<not> IsLinkLocalUnicast ?r"
    and s: "sm_Sid v < 2 ^ 20" "sm_TC v < 8"
    using assms by (auto simp: Let_def)
  obtain nt where nt: "naiTypeSRFor v = Inr nt" "nt < 16" "\<exists>n. naiLength nt = Inr n"
      "if nt = 0 then ?l = NoAddr \<and> ?r = NoAddr else nai_ok nt ?l ?r"
    using c by (elim disjE conjE) (simp_all add: naiTypeSRFor_def nai_ok_def naiLength_def)
  then show ?thesis
    using s by (auto simp: NewSREroSubobject_def SREroSubobject_ok_def SREroSubobject_Len_def Let_def
        HasMPLSStackEntryAttrs_def)
qed

lemma NewSRv6EroSubobject_ok:
  assumes "segment_ok (SRv6 v)"
  shows "\<exists>x. NewSRv6EroSubobject v = Inr x \<and> SRv6EroSubobject_ok x \<and> s6e_Segment x = v"
  using assms by (auto simp: NewSRv6EroSubobject_def SRv6EroSubobject_ok_def SRv6EroSubobject_Len_def Let_def
      split: option.splits)

lemma NewEroSubobject_ok:
  assumes "segment_ok s"
  shows "\<exists>x. NewEroSubobject (Some s) = Inr x \<and> EroSubobject_ok x \<and> EroSubobject_ToSegment x = Some s"
  using assms NewSREroSubobject_ok NewSRv6EroSubobject_ok by (cases s) fastforce+

lemma NewEroObject_ok:
  assumes "list_all segment_ok segs" "length segs \<le> 1000"
  shows "\<exists>ero. NewEroObject (map Some segs) = Inr ero \<and> EroObject_ok ero \<and> ToSegmentList ero = segs"
proof -
  have "\<exists>xs. mapE NewEroSubobject (map Some segs) = Inr xs \<and> list_all EroSubobject_ok xs \<and>
      List.map_filter EroSubobject_ToSegment xs = segs \<and> length xs = length segs"
    using assms(1)
  proof (induction segs)
    case (Cons s segs)
    then show ?case using NewEroSubobject_ok [of s] by (auto simp: map_filter_simps)
  qed (simp add: map_filter_simps)
  then show ?thesis
    using assms(2) by (auto simp: NewEroObject_def AddEroSubobjects_def EroObject_ok_def ToSegmentList_def)
qed

text \<open>
  C29: An SR policy's segment list survives the ERO object: for segments the format can carry,
  \<open>NewEroObject\<close> succeeds, the object serializes, and whatever follows it in the message, reading
  the object header and decoding the body of the announced length gives the object back, whose
  \<open>ToSegmentList\<close> is the segment list.
\<close>

theorem EroObject_segments_roundtrip:
  assumes "list_all segment_ok segs" "length segs \<le> 1000"
  shows "\<exists>ero bs h. NewEroObject (map Some segs) = Inr ero \<and> EroObject_Serialize ero = Inr bs \<and>
    ToSegmentList ero = segs \<and> coh_ObjectClass h = ObjectClassERO \<and>
    (\<forall>rest. CommonObjectHeader_DecodeFromBytes (bs @ rest) = Inr h \<and>
       bindE (sliceE (bs @ rest) 4 (unat (coh_ObjectLength h)))
         (EroObject_DecodeFromBytes EroObject_zero (coh_ObjectType h)) = Inr ero)"
proof -
  obtain ero where e: "NewEroObject (map Some segs) = Inr ero" "EroObject_ok ero" "ToSegmentList ero = segs"
    using NewEroObject_ok [OF assms] by blast
  show ?thesis
  proof (rule ero_object.read_back [OF e(2)])
    fix bs
    assume "EroObject_Serialize ero = Inr bs"
      "\<And>rest. CommonObjectHeader_DecodeFromBytes (bs @ rest) =
         Inr (NewCommonObjectHeader ObjectClassERO (ero_ObjectType ero) (ero_len ero))"
      "\<And>rest. bindE (sliceE (bs @ rest) 4 (unat (ero_len ero)))
         (EroObject_DecodeFromBytes EroObject_zero (ero_ObjectType ero)) = Inr ero"
    with e show ?thesis
      by (intro exI [of _ ero] exI [of _ bs]
          exI [of _ "NewCommonObjectHeader ObjectClassERO (ero_ObjectType ero) (ero_len ero)"])
        (simp add: NewCommonObjectHeader_def)
  qed
qed

definition sample_segments :: "Segment list" where
  "sample_segments =
     [SRMPLS ((NewSegmentSRMPLS 16002)\<lparr>sm_LocalAddr := Addr4 0x0A000001, sm_RemoteAddr := Addr4 0x0A000002\<rparr>),
      SRMPLS ((NewSegmentSRMPLS 24001)\<lparr>sm_TC := 5, sm_S := True, sm_TTL := 255\<rparr>),
      SRv6 ((NewSegmentSRv6 (Addr6 0xfcbb00010001 []))
        \<lparr>s6_LocalAddr := Addr6 0xfd000001 [], s6_Structure := Some [32, 16, 16, 0], s6_USid := True\<rparr>)]"

lemma EroObject_segments_roundtrip_witness:
  "\<exists>ero bs h. NewEroObject (map Some sample_segments) = Inr ero \<and> EroObject_Serialize ero = Inr bs \<and>
    ToSegmentList ero = sample_segments \<and> coh_ObjectClass h = ObjectClassERO \<and>
    (\<forall>rest. CommonObjectHeader_DecodeFromBytes (bs @ rest) = Inr h \<and>
       bindE (sliceE (bs @ rest) 4 (unat (coh_ObjectLength h)))
         (EroObject_DecodeFromBytes EroObject_zero (coh_ObjectType h)) = Inr ero)"
  by (rule EroObject_segments_roundtrip)
    (simp_all add: sample_segments_def NewSegmentSRMPLS_def NewSegmentSRv6_def SegmentSRv6_zero_def v6_ok_def)

text \<open>
  Decoding an ERO object never panics, whatever the bytes of its body: every index and slice
  of the subobject decoders is in range and the loop ends.
\<close>

theorem EroObject_no_panic: "EroObject_DecodeFromBytes obj t body \<noteq> panic"
  by (rule EroObject_decode_no_panic)

text \<open>
  An SRv6 segment without a local address (the value \<open>NewSegmentSRv6\<close> builds from a SID alone)
  is accepted by \<open>NewSRv6EroSubobject\<close>, with the F flag set and no NAI, but the subobject can
  never be written: \<open>Serialize\<close> needs the endpoint behavior, which only a segment with a local
  address has.
\<close>

theorem SRv6_sid_only_segment_not_encodable:
  "(case NewSRv6EroSubobject (NewSegmentSRv6 sid) of
      Inl _ \<Rightarrow> False
    | Inr x \<Rightarrow> s6e_FFlag x \<and> s6e_NAIType x = NAITypeSRv6Absent \<and> SRv6EroSubobject_Len x = Inr 24 \<and>
        SRv6EroSubobject_Serialize x = errorf ''SegmentSRv6: LocalAddr is invalid'' [])"
  unfolding SRv6EroSubobject_Serialize_def ero_header
  by (simp add: NewSRv6EroSubobject_def NewSegmentSRv6_def SegmentSRv6_zero_def
      SRv6EroSubobject_Len_def SegmentSRv6_Behavior_def)

end
