(* ===== verification/Assoc.thy ===== *)
theory Assoc
  imports Objects
begin

text \<open>
  The END-POINTS, ASSOCIATION and VENDOR-INFORMATION objects of
  \<open>src/pkg/packet/pcep/object.go\<close>: their fields, codecs and constructors, the choice of the PCC
  type from its capabilities, and the accessors that read color, preference and endpoint of an SR
  policy candidate path. The association and vendor objects are interpreted as object codecs; the
  properties say that what \<open>NewAssociationObject\<close> and \<open>NewVendorInformationObject\<close> are given is
  what the accessors read on the other side.
\<close>

section \<open>END-POINTS\<close>

abbreviation (input) ObjectTypeEndpointIPv4 :: u8 where "ObjectTypeEndpointIPv4 \<equiv> 0x01"
abbreviation (input) ObjectTypeEndpointIPv6 :: u8 where "ObjectTypeEndpointIPv6 \<equiv> 0x02"

record EndpointsObject =
  eo_ObjectType :: u8
  eo_SrcAddr :: addr
  eo_DstAddr :: addr

definition EndpointsObject_Len :: "EndpointsObject \<Rightarrow> u16 result" where
  "EndpointsObject_Len obj =
     (if Is4 (eo_SrcAddr obj) \<and> Is4 (eo_DstAddr obj)
      then Inr (word_of_nat commonObjectHeaderLength + 4 + 4)
      else if Is6 (eo_SrcAddr obj) \<and> Is6 (eo_DstAddr obj)
      then Inr (word_of_nat commonObjectHeaderLength + 16 + 16)
      else errorf ''invalid endpoint addresses (Len())'' [])"

definition EndpointsObject_Serialize :: "EndpointsObject \<Rightarrow> bytes result" where
  "EndpointsObject_Serialize obj =
     bindE (EndpointsObject_Len obj) (\<lambda>endpointsObjectLength.
     let header = CommonObjectHeader_Serialize
           (NewCommonObjectHeader ObjectClassEndpoints (eo_ObjectType obj) endpointsObjectLength) in
     Inr (AppendByteSlices [header, AsSlice (eo_SrcAddr obj), AsSlice (eo_DstAddr obj)]))"

definition NewEndpointsObject :: "addr \<Rightarrow> addr \<Rightarrow> EndpointsObject result" where
  "NewEndpointsObject dstAddr srcAddr =
     bindE (if Is4 dstAddr \<and> Is4 srcAddr then Inr ObjectTypeEndpointIPv4
            else if Is6 dstAddr \<and> Is6 srcAddr then Inr ObjectTypeEndpointIPv6
            else errorf ''invalid endpoint addresses (NewEndpointsObject)'' []) (\<lambda>objectType.
     Inr \<lparr>eo_ObjectType = objectType, eo_SrcAddr = srcAddr, eo_DstAddr = dstAddr\<rparr>)"

lemma EndpointsObject_bytes:
  assumes "NewEndpointsObject dst src = Inr obj"
  shows "EndpointsObject_Serialize obj =
      Inr (object_frame ObjectClassEndpoints (eo_ObjectType obj) (AsSlice src @ AsSlice dst))"
    and "EndpointsObject_Len obj = Inr (word_of_nat (4 + length (AsSlice src @ AsSlice dst)))"
  using assms by (auto simp: NewEndpointsObject_def EndpointsObject_Serialize_def EndpointsObject_Len_def
      object_frame_def bindE_eq_Inr split: if_splits)

section \<open>PCC types\<close>

abbreviation (input) ObjectTypeAssociationIPv4 :: u8 where "ObjectTypeAssociationIPv4 \<equiv> 0x01"
abbreviation (input) ObjectTypeAssociationIPv6 :: u8 where "ObjectTypeAssociationIPv6 \<equiv> 0x02"

abbreviation (input) AssociationTypeSRPolicyAssociation :: u16 where
  "AssociationTypeSRPolicyAssociation \<equiv> 0x06"
abbreviation (input) AssociationTypeSRPolicyAssociationCisco :: u16 where
  "AssociationTypeSRPolicyAssociationCisco \<equiv> 0x14"
abbreviation (input) AssociationTypeSRPolicyAssociationJuniper :: u16 where
  "AssociationTypeSRPolicyAssociationJuniper \<equiv> 0xffe1"

datatype PccType = CiscoLegacy | JuniperLegacy | RFCCompliant

text \<open>
  The inner loop of \<open>DeterminePccType\<close>: \<open>break\<close> leaves the list of one capability, the loop over
  the capabilities goes on.
\<close>

fun pccTypeOfAssocTypes :: "u16 list \<Rightarrow> PccType \<Rightarrow> PccType" where
  "pccTypeOfAssocTypes [] pccType = pccType"
| "pccTypeOfAssocTypes (v # vs) pccType =
     (if v = AssociationTypeSRPolicyAssociationCisco then pccTypeOfAssocTypes vs CiscoLegacy
      else if v = AssociationTypeSRPolicyAssociationJuniper then JuniperLegacy
      else pccTypeOfAssocTypes vs pccType)"

definition DeterminePccType :: "tlv list \<Rightarrow> PccType" where
  "DeterminePccType caps =
     foldl (\<lambda>pccType cap. case cap of
         TLV_AssocTypeList t \<Rightarrow> pccTypeOfAssocTypes (atl_AssocTypes t) pccType
       | _ \<Rightarrow> pccType) RFCCompliant caps"

section \<open>ASSOCIATION\<close>

record AssociationObject =
  ao_ObjectType :: u8
  ao_RFlag :: bool
  ao_AssocType :: u16
  ao_AssocID :: u16
  ao_AssocSrc :: addr
  ao_TLVs :: "tlv list"

definition AssociationObject_zero :: AssociationObject where
  "AssociationObject_zero = \<lparr>ao_ObjectType = 0, ao_RFlag = False, ao_AssocType = 0, ao_AssocID = 0,
     ao_AssocSrc = NoAddr, ao_TLVs = []\<rparr>"

text \<open>\<open>objectBody\<close> is a slice of a longer buffer; \<open>beyond\<close> is what follows it there.\<close>

definition AssociationObject_DecodeFromBytes ::
    "AssociationObject \<Rightarrow> u8 \<Rightarrow> bytes \<Rightarrow> bytes \<Rightarrow> AssociationObject result" where
  "AssociationObject_DecodeFromBytes obj objType objectBody beyond =
     bindE (indexE objectBody 3) (\<lambda>b3.
     bindE (bindE (sliceCapE objectBody beyond 4 6) beUint16) (\<lambda>assocType.
     bindE (bindE (sliceCapE objectBody beyond 6 8) beUint16) (\<lambda>assocID.
     let obj = obj\<lparr>ao_ObjectType := objType, ao_RFlag := (b3 AND 0x01 \<noteq> 0),
                   ao_AssocType := assocType, ao_AssocID := assocID\<rparr> in
     if objType = ObjectTypeAssociationIPv4 then
       bindE (sliceCapE objectBody beyond 8 12) (\<lambda>src.
       let obj = obj\<lparr>ao_AssocSrc := fst (AddrFromSlice src)\<rparr> in
       if length objectBody > 12
       then bindE (sliceE objectBody 12 (length objectBody)) (\<lambda>byteTLVs.
            bindE (DecodeTLVs byteTLVs) (\<lambda>tlvs. Inr (obj\<lparr>ao_TLVs := tlvs\<rparr>)))
       else Inr obj)
     else if objType = ObjectTypeAssociationIPv6 then
       bindE (sliceCapE objectBody beyond 8 24) (\<lambda>src.
       let obj = obj\<lparr>ao_AssocSrc := fst (AddrFromSlice src)\<rparr> in
       if length objectBody > 24
       then bindE (sliceE objectBody 24 (length objectBody)) (\<lambda>byteTLVs.
            bindE (DecodeTLVs byteTLVs) (\<lambda>tlvs. Inr (obj\<lparr>ao_TLVs := tlvs\<rparr>)))
       else Inr obj)
     else errorf ''invalid association source address (DecodeFromBytes)'' [])))"

definition AssociationObject_Len :: "AssociationObject \<Rightarrow> u16 result" where
  "AssociationObject_Len obj =
     (let tlvsLen = tlvsByteLength (ao_TLVs obj) in
      bindE (if Is4 (ao_AssocSrc obj) then Inr (12 + tlvsLen)
             else if Is6 (ao_AssocSrc obj) then Inr (24 + tlvsLen)
             else errorf ''invalid association source address (Len())'' []) (\<lambda>bodyLength.
      Inr (word_of_nat commonObjectHeaderLength + bodyLength)))"

definition AssociationObject_Serialize :: "AssociationObject \<Rightarrow> bytes result" where
  "AssociationObject_Serialize obj =
     bindE (AssociationObject_Len obj) (\<lambda>associationObjectLength.
     let header = CommonObjectHeader_Serialize
           (NewCommonObjectHeader ObjectClassAssociation (ao_ObjectType obj) associationObjectLength) in
     bindE (orE (ao_RFlag obj) (makeBytes 4) 3 0x01) (\<lambda>buf.
     bindE (appendTLVs (ao_TLVs obj)) (\<lambda>byteTLVs.
     Inr (AppendByteSlices [header, buf, Uint16ToByteSlice (ao_AssocType obj),
       Uint16ToByteSlice (ao_AssocID obj), AsSlice (ao_AssocSrc obj), byteTLVs]))))"

text \<open>Options of the constructor: functions on the option record.\<close>

record optParams =
  opt_pccType :: PccType
  opt_originatorASN :: u32

type_synonym Opt = "optParams \<Rightarrow> optParams"

definition VendorSpecific :: "PccType \<Rightarrow> Opt" where
  "VendorSpecific pt = (\<lambda>op. op\<lparr>opt_pccType := pt\<rparr>)"

definition OriginatorASN :: "u32 \<Rightarrow> Opt" where
  "OriginatorASN asn = (\<lambda>op. op\<lparr>opt_originatorASN := asn\<rparr>)"

abbreviation (input) ProtocolOriginPCEP :: u8 where "ProtocolOriginPCEP \<equiv> 10"

definition NewAssociationObject ::
    "addr \<Rightarrow> addr \<Rightarrow> u32 \<Rightarrow> u32 \<Rightarrow> Opt list \<Rightarrow> AssociationObject result" where
  "NewAssociationObject srcAddr dstAddr color preference opt =
     (let opts = foldl (\<lambda>opts f. f opts) \<lparr>opt_pccType = RFCCompliant, opt_originatorASN = 0\<rparr> opt in
      bindE (if Is4 dstAddr \<and> Is4 srcAddr then Inr ObjectTypeEndpointIPv4
             else if Is6 dstAddr \<and> Is6 srcAddr then Inr ObjectTypeEndpointIPv6
             else errorf ''invalid endpoints address (NewAssociationObject)'' []) (\<lambda>objectType.
      let obj = \<lparr>ao_ObjectType = objectType, ao_RFlag = False, ao_AssocType = 0, ao_AssocID = 0,
                 ao_AssocSrc = srcAddr, ao_TLVs = []\<rparr> in
      if opt_pccType opts = JuniperLegacy then
        (if \<not> Is4 dstAddr
         then errorf ''invalid endpoint address for JuniperLegacy (NewAssociationObject)'' []
         else Inr (obj\<lparr>ao_AssocID := 0, ao_AssocType := AssociationTypeSRPolicyAssociationJuniper,
           ao_TLVs := ao_TLVs obj @
             [TLV_ExtendedAssociationIDIPv4Juniper \<lparr>ea_Color = color, ea_Endpoint = dstAddr\<rparr>,
              TLV_SRPolicyCandidatePathIdentifierJuniper
                \<lparr>cpid_ProtocolOrigin = ProtocolOriginPCEP, cpid_OriginatorASN = opt_originatorASN opts,
                 cpid_OriginatorAddr = IPv4Unspecified, cpid_Discriminator = 1\<rparr>,
              TLV_SRPolicyCandidatePathPreferenceJuniper \<lparr>cpp_Preference = preference\<rparr>]\<rparr>))
      else Inr (obj\<lparr>ao_AssocID := 1, ao_AssocType := AssociationTypeSRPolicyAssociation,
           ao_TLVs := ao_TLVs obj @
             [TLV_ExtendedAssociationID \<lparr>ea_Color = color, ea_Endpoint = dstAddr\<rparr>,
              TLV_SRPolicyCandidatePathIdentifier
                \<lparr>cpid_ProtocolOrigin = ProtocolOriginPCEP, cpid_OriginatorASN = opt_originatorASN opts,
                 cpid_OriginatorAddr = dstAddr, cpid_Discriminator = 1\<rparr>,
              TLV_SRPolicyCandidatePathPreference \<lparr>cpp_Preference = preference\<rparr>]\<rparr>)))"

text \<open>
  The accessors scan the TLVs; \<open>binary.BigEndian.Uint32\<close> is guarded by the length of the value, so
  \<open>be_nat\<close> of its first four bytes is what it reads.
\<close>

definition leadingUint32 :: "bytes \<Rightarrow> u32" where
  "leadingUint32 v = word_of_nat (be_nat (take 4 v))"

fun assocColor :: "tlv list \<Rightarrow> u32" where
  "assocColor [] = 0"
| "assocColor (TLV_ExtendedAssociationIDIPv4Juniper t # _) = ea_Color t"
| "assocColor (TLV_ExtendedAssociationID t # _) = ea_Color t"
| "assocColor (TLV_Unknown t # ts) =
     (if unk_Typ t = TLVExtendedAssociationIDIPv4Juniper \<and> length (unk_Value t) \<ge> 4
      then leadingUint32 (unk_Value t) else assocColor ts)"
| "assocColor (_ # ts) = assocColor ts"

definition AssociationObject_Color :: "AssociationObject \<Rightarrow> u32" where
  "AssociationObject_Color obj = assocColor (ao_TLVs obj)"

fun assocPreference :: "tlv list \<Rightarrow> u32" where
  "assocPreference [] = 0"
| "assocPreference (TLV_SRPolicyCandidatePathPreferenceJuniper t # _) = cpp_Preference t"
| "assocPreference (TLV_SRPolicyCandidatePathPreference t # _) = cpp_Preference t"
| "assocPreference (TLV_Unknown t # ts) =
     (if unk_Typ t = TLVSRPolicyCPathPreferenceJuniper \<and> length (unk_Value t) \<ge> 4
      then leadingUint32 (unk_Value t) else assocPreference ts)"
| "assocPreference (_ # ts) = assocPreference ts"

definition AssociationObject_Preference :: "AssociationObject \<Rightarrow> u32" where
  "AssociationObject_Preference obj = assocPreference (ao_TLVs obj)"

fun assocEndpoint :: "tlv list \<Rightarrow> addr" where
  "assocEndpoint [] = NoAddr"
| "assocEndpoint (TLV_ExtendedAssociationIDIPv4Juniper t # _) = ea_Endpoint t"
| "assocEndpoint (TLV_ExtendedAssociationID t # _) = ea_Endpoint t"
| "assocEndpoint (_ # ts) = assocEndpoint ts"

definition AssociationObject_Endpoint :: "AssociationObject \<Rightarrow> addr" where
  "AssociationObject_Endpoint obj = assocEndpoint (ao_TLVs obj)"

definition AssociationObject_ok :: "AssociationObject \<Rightarrow> bool" where
  "AssociationObject_ok obj \<longleftrightarrow>
     (ao_ObjectType obj = ObjectTypeAssociationIPv4 \<and> Is4 (ao_AssocSrc obj) \<or>
      ao_ObjectType obj = ObjectTypeAssociationIPv6 \<and> Is6 (ao_AssocSrc obj) \<and> zone (ao_AssocSrc obj) = []) \<and>
     list_all tlv_ok (ao_TLVs obj) \<and> 28 + tlvs_size (ao_TLVs obj) \<le> max_object"

definition assoc_len :: "AssociationObject \<Rightarrow> u16" where
  "assoc_len obj = (case AssociationObject_Len obj of Inr n \<Rightarrow> n | Inl _ \<Rightarrow> 0)"

lemma AssociationObject_decode_ok:
  assumes ok: "AssociationObject_ok x" and bs: "DecodeTLVs bs = Inr (ao_TLVs x)"
  shows "AssociationObject_DecodeFromBytes AssociationObject_zero (ao_ObjectType x)
    ([0, 0, 0, if ao_RFlag x then 1 else 0] @ be16 (ao_AssocType x) @ be16 (ao_AssocID x) @
     AsSlice (ao_AssocSrc x) @ bs) beyond = Inr x"
proof -
  let ?f = "if ao_RFlag x then 1 else 0 :: u8"
  define body where "body = [0, 0, 0, ?f] @ be16 (ao_AssocType x) @ be16 (ao_AssocID x) @ AsSlice (ao_AssocSrc x) @ bs"
  have r: "indexE body 3 = Inr ?f"
    "bindE (sliceCapE body beyond 4 6) beUint16 = Inr (ao_AssocType x)"
    "bindE (sliceCapE body beyond 6 8) beUint16 = Inr (ao_AssocID x)"
    unfolding body_def by (simp_all add: sliceCapE_def sliceE_def)
  have f: "(?f AND 0x01 \<noteq> 0) = ao_RFlag x" by simp
  consider "ao_ObjectType x = 1" "Is4 (ao_AssocSrc x)"
    | "ao_ObjectType x = 2" "Is6 (ao_AssocSrc x)" "zone (ao_AssocSrc x) = []"
    using ok by (auto simp: AssociationObject_ok_def)
  then show ?thesis
  proof cases
    case 1
    then have b: "sliceCapE body beyond 8 12 = Inr (AsSlice (ao_AssocSrc x))"
      "sliceE body 12 (length body) = Inr bs" "12 < length body \<longleftrightarrow> bs \<noteq> []"
      unfolding body_def by (simp_all add: sliceCapE_def sliceE_def)
    show ?thesis
      unfolding body_def [symmetric] AssociationObject_DecodeFromBytes_def r bindE_simps(1) f Let_def
      using bs by (cases x; cases "bs = []") (use 1 in \<open>simp_all add: b AssociationObject_zero_def\<close>)
  next
    case 2
    then have b: "sliceCapE body beyond 8 24 = Inr (AsSlice (ao_AssocSrc x))"
      "sliceE body 24 (length body) = Inr bs" "24 < length body \<longleftrightarrow> bs \<noteq> []"
      unfolding body_def by (simp_all add: sliceCapE_def sliceE_def)
    show ?thesis
      unfolding body_def [symmetric] AssociationObject_DecodeFromBytes_def r bindE_simps(1) f Let_def
      using bs by (cases x; cases "bs = []") (use 2 in \<open>simp_all add: b AssociationObject_zero_def\<close>)
  qed
qed

interpretation association_object: object_codec
  "\<lambda>t body. AssociationObject_DecodeFromBytes AssociationObject_zero t body beyond"
  AssociationObject_Serialize ObjectClassAssociation ao_ObjectType assoc_len AssociationObject_ok for beyond
proof
  fix x assume ok: "AssociationObject_ok x"
  then show "ao_ObjectType x < 16" by (auto simp: AssociationObject_ok_def)
  obtain bs where bs: "appendTLVs (ao_TLVs x) = Inr bs" "DecodeTLVs bs = Inr (ao_TLVs x)"
      "length bs = tlvs_size (ao_TLVs x)" "4 dvd length bs"
    using ok by (auto simp: AssociationObject_ok_def elim: appendTLVs_ok)
  let ?body = "[0, 0, 0, if ao_RFlag x then 1 else 0] @ be16 (ao_AssocType x) @ be16 (ao_AssocID x) @
     AsSlice (ao_AssocSrc x) @ bs"
  have a: "Is4 (ao_AssocSrc x) \<or> Is6 (ao_AssocSrc x)" "Is4 (ao_AssocSrc x) \<Longrightarrow> \<not> Is6 (ao_AssocSrc x)"
    using ok by (cases "ao_AssocSrc x"; auto simp: AssociationObject_ok_def)+
  have L: "AssociationObject_Len x = Inr (word_of_nat (4 + length ?body))"
    using a by (auto simp: AssociationObject_Len_def tlvsByteLength_eq bs(3) Let_def)
  show "\<exists>body. 4 + length body \<le> max_object \<and> 4 dvd length body \<and>
      AssociationObject_Serialize x = Inr (object_frame ObjectClassAssociation (ao_ObjectType x) body) \<and>
      unat (assoc_len x) = 4 + length body \<and>
      AssociationObject_DecodeFromBytes AssociationObject_zero (ao_ObjectType x) body beyond = Inr x"
  proof (rule object_roundtripI [of ?body])
    show "4 + length ?body \<le> max_object" using ok a bs(3) by (auto simp: AssociationObject_ok_def)
    show "4 dvd length ?body" using a bs(4) by auto
    show "assoc_len x = word_of_nat (4 + length ?body)" by (simp add: assoc_len_def L)
    show "AssociationObject_Serialize x = Inr (object_frame ObjectClassAssociation (ao_ObjectType x) ?body)"
      by (cases "ao_RFlag x")
        (simp_all add: AssociationObject_Serialize_def L bs(1) object_frame_def Let_def makeBytes_4 Uint16ToByteSlice_def)
    show "AssociationObject_DecodeFromBytes AssociationObject_zero (ao_ObjectType x) ?body beyond = Inr x"
      by (rule AssociationObject_decode_ok [OF ok bs(2)])
  qed
qed

section \<open>VENDOR-INFORMATION\<close>

abbreviation (input) ObjectTypeVendorSpecificConstraints :: u8 where
  "ObjectTypeVendorSpecificConstraints \<equiv> 0x01"
abbreviation (input) EnterpriseNumberLength :: nat where "EnterpriseNumberLength \<equiv> 4"
abbreviation (input) EnterpriseNumberCisco :: u32 where "EnterpriseNumberCisco \<equiv> 9"
abbreviation (input) SubTLVColorCisco :: u16 where "SubTLVColorCisco \<equiv> 0x01"
abbreviation (input) SubTLVPreferenceCisco :: u16 where "SubTLVPreferenceCisco \<equiv> 0x03"
abbreviation (input) SubTLVColorCiscoValueLength :: u16 where "SubTLVColorCiscoValueLength \<equiv> 4"
abbreviation (input) SubTLVPreferenceCiscoValueLength :: u16 where "SubTLVPreferenceCiscoValueLength \<equiv> 4"

record VendorInformationObject =
  vo_ObjectType :: u8
  vo_EnterpriseNumber :: u32
  vo_TLVs :: "tlv list"

definition VendorInformationObject_zero :: VendorInformationObject where
  "VendorInformationObject_zero = \<lparr>vo_ObjectType = 0, vo_EnterpriseNumber = 0, vo_TLVs = []\<rparr>"

definition VendorInformationObject_DecodeFromBytes ::
    "VendorInformationObject \<Rightarrow> u8 \<Rightarrow> bytes \<Rightarrow> VendorInformationObject result" where
  "VendorInformationObject_DecodeFromBytes obj objType objectBody =
     (if length objectBody < EnterpriseNumberLength
      then errorf ''vendor information object: too short'' [int (length objectBody), int EnterpriseNumberLength]
      else
        bindE (bindE (sliceE objectBody 0 EnterpriseNumberLength) beUint32) (\<lambda>number.
        let obj = obj\<lparr>vo_ObjectType := objType, vo_EnterpriseNumber := number\<rparr> in
        if length objectBody > EnterpriseNumberLength
        then bindE (sliceE objectBody EnterpriseNumberLength (length objectBody)) (\<lambda>byteTLVs.
             bindE (DecodeVendorTLVs byteTLVs) (\<lambda>tlvs. Inr (obj\<lparr>vo_TLVs := map TLV_Unknown tlvs\<rparr>)))
        else Inr obj))"

definition VendorInformationObject_Len :: "VendorInformationObject \<Rightarrow> u16" where
  "VendorInformationObject_Len obj =
     word_of_nat commonObjectHeaderLength + word_of_nat EnterpriseNumberLength + tlvsByteLength (vo_TLVs obj)"

definition VendorInformationObject_Serialize :: "VendorInformationObject \<Rightarrow> bytes result" where
  "VendorInformationObject_Serialize obj =
     (let header = CommonObjectHeader_Serialize (NewCommonObjectHeader ObjectClassVendorInformation
            (vo_ObjectType obj) (VendorInformationObject_Len obj));
          enterpriseNumber = Uint32ToByteSlice (vo_EnterpriseNumber obj) in
      bindE (appendTLVs (vo_TLVs obj)) (\<lambda>byteTLVs.
      Inr (AppendByteSlices [header, enterpriseNumber, byteTLVs])))"

definition NewVendorInformationObject :: "PccType \<Rightarrow> u32 \<Rightarrow> u32 \<Rightarrow> VendorInformationObject result" where
  "NewVendorInformationObject vendor color preference =
     (let obj = \<lparr>vo_ObjectType = ObjectTypeVendorSpecificConstraints, vo_EnterpriseNumber = 0, vo_TLVs = []\<rparr> in
      if vendor = CiscoLegacy
      then Inr (obj\<lparr>vo_EnterpriseNumber := EnterpriseNumberCisco, vo_TLVs := vo_TLVs obj @
             [TLV_Unknown \<lparr>unk_Typ = SubTLVColorCisco, unk_Length = SubTLVColorCiscoValueLength,
                unk_Value = Uint32ToByteSlice color\<rparr>,
              TLV_Unknown \<lparr>unk_Typ = SubTLVPreferenceCisco, unk_Length = SubTLVPreferenceCiscoValueLength,
                unk_Value = Uint32ToByteSlice preference\<rparr>]\<rparr>)
      else errorf ''unknown vendor information object type'' [])"

fun vendorSubTLVUint32 :: "tlv list \<Rightarrow> u16 \<Rightarrow> u32" where
  "vendorSubTLVUint32 [] ty = 0"
| "vendorSubTLVUint32 (TLV_Unknown t # ts) ty =
     (if unk_Typ t \<noteq> ty then vendorSubTLVUint32 ts ty
      else if length (unk_Value t) < 4 then 0
      else leadingUint32 (unk_Value t))"
| "vendorSubTLVUint32 (_ # ts) ty = vendorSubTLVUint32 ts ty"

definition subTLVUint32 :: "VendorInformationObject \<Rightarrow> u16 \<Rightarrow> u32" where
  "subTLVUint32 obj ty = vendorSubTLVUint32 (vo_TLVs obj) ty"

definition VendorInformationObject_Color :: "VendorInformationObject \<Rightarrow> u32" where
  "VendorInformationObject_Color obj = subTLVUint32 obj SubTLVColorCisco"

definition VendorInformationObject_Preference :: "VendorInformationObject \<Rightarrow> u32" where
  "VendorInformationObject_Preference obj = subTLVUint32 obj SubTLVPreferenceCisco"

text \<open>The TLVs of a vendor object are uninterpreted: that is how they are decoded and built.\<close>

fun vendor_tlv_ok :: "tlv \<Rightarrow> bool" where
  "vendor_tlv_ok (TLV_Unknown t) = UnknownTLV_ok t"
| "vendor_tlv_ok _ = False"

definition VendorInformationObject_ok :: "VendorInformationObject \<Rightarrow> bool" where
  "VendorInformationObject_ok obj \<longleftrightarrow> vo_ObjectType obj < 16 \<and> list_all vendor_tlv_ok (vo_TLVs obj) \<and>
     8 + tlvs_size (vo_TLVs obj) \<le> max_object"

lemma vendor_tlvs:
  assumes "list_all vendor_tlv_ok ts"
  obtains us where "ts = map TLV_Unknown us" "list_all UnknownTLV_ok us"
  using assms
proof (induction ts arbitrary: thesis)
  case (Cons t ts)
  then obtain us where "ts = map TLV_Unknown us" "list_all UnknownTLV_ok us" by auto
  then show ?case using Cons.prems
    by (cases t) (auto intro!: Cons.prems(1) [of "_ # us"])
qed simp

lemma appendTLVs_unknown:
  assumes "list_all UnknownTLV_ok us"
  obtains bs where "appendTLVs (map TLV_Unknown us) = Inr bs" "DecodeVendorTLVs bs = Inr us"
    "length bs = tlvs_size (map TLV_Unknown us)" "4 dvd length bs"
proof -
  have "list_all (framed decodeUnknownTLV UnknownTLV_Serialize UnknownTLV_Len) us"
    using assms vendor_space.elem_framed by (auto simp: list_all_iff)
  then obtain bss where b: "mapE UnknownTLV_Serialize us = Inr bss"
      "decodeTLVSequence decodeUnknownTLV (concat bss) = Inr us"
      "length (concat bss) = sum_list (map (unat \<circ> UnknownTLV_Len) us)" "4 dvd length (concat bss)"
    by (rule decodeTLVSequence_roundtrip)
  have "mapE tlv_Serialize (map TLV_Unknown us) = Inr bss"
    using b(1) by (simp add: mapE_Inr_iff list_all2_map1)
  then show ?thesis
    using b by (intro that [of "concat bss"])
      (simp_all add: appendTLVs_def DecodeVendorTLVs_def tlvs_size_def comp_def)
qed

interpretation vendor_object: object_codec
  "VendorInformationObject_DecodeFromBytes VendorInformationObject_zero" VendorInformationObject_Serialize
  ObjectClassVendorInformation vo_ObjectType VendorInformationObject_Len VendorInformationObject_ok
proof
  fix x assume ok: "VendorInformationObject_ok x"
  then show "vo_ObjectType x < 16" by (simp add: VendorInformationObject_ok_def)
  obtain us where us: "vo_TLVs x = map TLV_Unknown us" "list_all UnknownTLV_ok us"
    using ok vendor_tlvs by (auto simp: VendorInformationObject_ok_def)
  obtain bs where bs: "appendTLVs (vo_TLVs x) = Inr bs" "DecodeVendorTLVs bs = Inr us"
      "length bs = tlvs_size (vo_TLVs x)" "4 dvd length bs"
    using appendTLVs_unknown [OF us(2)] us(1) by metis
  let ?body = "be32 (vo_EnterpriseNumber x) @ bs"
  have w: "VendorInformationObject_Len x = word_of_nat (4 + length ?body)"
    by (simp add: VendorInformationObject_Len_def tlvsByteLength_eq bs(3))
  show "\<exists>body. 4 + length body \<le> max_object \<and> 4 dvd length body \<and>
      VendorInformationObject_Serialize x = Inr (object_frame ObjectClassVendorInformation (vo_ObjectType x) body) \<and>
      unat (VendorInformationObject_Len x) = 4 + length body \<and>
      VendorInformationObject_DecodeFromBytes VendorInformationObject_zero (vo_ObjectType x) body = Inr x"
  proof (rule object_roundtripI [of ?body])
    show "4 + length ?body \<le> max_object" using ok bs(3) by (simp add: VendorInformationObject_ok_def)
    show "4 dvd length ?body" using bs(4) by simp
    show "VendorInformationObject_Len x = word_of_nat (4 + length ?body)" by (rule w)
    show "VendorInformationObject_Serialize x = Inr (object_frame ObjectClassVendorInformation (vo_ObjectType x) ?body)"
      using w by (simp add: VendorInformationObject_Serialize_def Let_def bs(1) object_frame_def Uint32ToByteSlice_def)
    show "VendorInformationObject_DecodeFromBytes VendorInformationObject_zero (vo_ObjectType x) ?body = Inr x"
    proof (cases "bs = []")
      case True
      then have "us = []" using bs(2) by (simp add: DecodeVendorTLVs_def decodeTLVSequence.simps)
      then show ?thesis using us(1) True
        by (cases x) (simp add: VendorInformationObject_DecodeFromBytes_def VendorInformationObject_zero_def)
    next
      case False
      then show ?thesis using us(1) bs(2)
        by (cases x) (simp add: VendorInformationObject_DecodeFromBytes_def VendorInformationObject_zero_def)
    qed
  qed
qed

section \<open>What the constructors promise\<close>

lemma be_nat_take_be32 [simp]: "leadingUint32 (be32 v) = v"
  by (simp add: leadingUint32_def)

text \<open>The addresses whose family and bytes the association TLVs carry.\<close>

definition assoc_addrs_ok :: "PccType \<Rightarrow> addr \<Rightarrow> addr \<Rightarrow> bool" where
  "assoc_addrs_ok pcc src dst \<longleftrightarrow>
     Is4 src \<and> Is4 dst \<or>
     pcc \<noteq> JuniperLegacy \<and> Is6 src \<and> zone src = [] \<and> Is6 dst \<and> zone dst = [] \<and> \<not> isIPv4Bytes (AsSlice dst)"

lemma NewAssociationObject_ok:
  assumes "assoc_addrs_ok pcc src dst"
  shows "\<exists>obj. NewAssociationObject src dst color preference [VendorSpecific pcc, OriginatorASN asn] = Inr obj \<and>
    AssociationObject_ok obj \<and> AssociationObject_Color obj = color \<and>
    AssociationObject_Preference obj = preference \<and> AssociationObject_Endpoint obj = dst \<and>
    unat (assoc_len obj) \<le> 96 \<and> obj \<noteq> AssociationObject_zero"
proof (cases "pcc = JuniperLegacy")
  case True
  then have a: "Is4 src" "Is4 dst" using assms by (auto simp: assoc_addrs_ok_def)
  then show ?thesis
    by (simp add: NewAssociationObject_def VendorSpecific_def OriginatorASN_def True AssociationObject_ok_def
        AssociationObject_Color_def AssociationObject_Preference_def AssociationObject_Endpoint_def
        ExtendedAssociationIDIPv4Juniper_ok_def SRPolicyCandidatePathIdentifier_ok_def IPv4Unspecified_def
        tlvs_size_def ExtendedAssociationIDIPv4Juniper_Len_def SRPolicyCandidatePathIdentifier_Len_def
        SRPolicyCandidatePathPreference_Len_def tlv_consts max_object_def Let_def assoc_len_def
        AssociationObject_Len_def tlvsByteLength_def AssociationObject_zero_def)
next
  case False
  then have "Is4 src \<and> Is4 dst \<or> Is6 src \<and> zone src = [] \<and> Is6 dst \<and> zone dst = [] \<and> \<not> isIPv4Bytes (AsSlice dst) \<and>
      \<not> Is4 src \<and> \<not> Is4 dst"
    using assms by (cases src; cases dst) (auto simp: assoc_addrs_ok_def)
  then show ?thesis
    by (elim disjE conjE; simp add: NewAssociationObject_def VendorSpecific_def OriginatorASN_def False
        AssociationObject_ok_def AssociationObject_Color_def AssociationObject_Preference_def
        AssociationObject_Endpoint_def ExtendedAssociationID_ok_def SRPolicyCandidatePathIdentifier_ok_def
        tlvs_size_def ExtendedAssociationID_Len_def SRPolicyCandidatePathIdentifier_Len_def
        SRPolicyCandidatePathPreference_Len_def tlv_consts max_object_def Let_def assoc_len_def
        AssociationObject_Len_def tlvsByteLength_def AssociationObject_zero_def)
qed

text \<open>
  The association of an SR policy candidate path survives the wire for every PCC type: for
  endpoints of one family (IPv4 only for legacy Juniper PCCs), the object \<open>NewAssociationObject\<close>
  builds serializes, its header announces it, decoding the announced body gives the object back,
  and the accessors read the color, the preference and the endpoint that were given.
\<close>

theorem AssociationObject_roundtrip:
  assumes "assoc_addrs_ok pcc src dst"
  shows "\<exists>obj bs h. NewAssociationObject src dst color preference [VendorSpecific pcc, OriginatorASN asn] = Inr obj \<and>
    AssociationObject_Serialize obj = Inr bs \<and> coh_ObjectClass h = ObjectClassAssociation \<and>
    (\<forall>rest beyond. CommonObjectHeader_DecodeFromBytes (bs @ rest) = Inr h \<and>
       bindE (sliceE (bs @ rest) 4 (unat (coh_ObjectLength h)))
         (\<lambda>body. AssociationObject_DecodeFromBytes AssociationObject_zero (coh_ObjectType h) body beyond) = Inr obj) \<and>
    AssociationObject_Color obj = color \<and> AssociationObject_Preference obj = preference \<and>
    AssociationObject_Endpoint obj = dst"
proof -
  obtain obj where e: "NewAssociationObject src dst color preference [VendorSpecific pcc, OriginatorASN asn] = Inr obj"
      "AssociationObject_ok obj" "AssociationObject_Color obj = color"
      "AssociationObject_Preference obj = preference" "AssociationObject_Endpoint obj = dst"
    using NewAssociationObject_ok [OF assms] by blast
  let ?h = "NewCommonObjectHeader ObjectClassAssociation (ao_ObjectType obj) (assoc_len obj)"
  obtain bs where bs: "AssociationObject_Serialize obj = Inr bs"
    using association_object.serialize_total [OF e(2)] by blast
  have "CommonObjectHeader_DecodeFromBytes (bs @ rest) = Inr ?h \<and>
      bindE (sliceE (bs @ rest) 4 (unat (assoc_len obj)))
        (\<lambda>body. AssociationObject_DecodeFromBytes AssociationObject_zero (ao_ObjectType obj) body beyond) = Inr obj"
    for rest beyond
    by (rule association_object.read_at [OF e(2) bs])
  with e bs show ?thesis
    by (intro exI [of _ obj] exI [of _ bs] exI [of _ ?h]) (simp add: NewCommonObjectHeader_def)
qed

lemma AssociationObject_roundtrip_witness:
  "\<exists>obj bs h. NewAssociationObject (Addr4 0x0A000001) (Addr4 0x0A000002) 100 200
       [VendorSpecific JuniperLegacy, OriginatorASN 65000] = Inr obj \<and>
    AssociationObject_Serialize obj = Inr bs \<and> coh_ObjectClass h = ObjectClassAssociation \<and>
    (\<forall>rest beyond. CommonObjectHeader_DecodeFromBytes (bs @ rest) = Inr h \<and>
       bindE (sliceE (bs @ rest) 4 (unat (coh_ObjectLength h)))
         (\<lambda>body. AssociationObject_DecodeFromBytes AssociationObject_zero (coh_ObjectType h) body beyond) = Inr obj) \<and>
    AssociationObject_Color obj = 100 \<and> AssociationObject_Preference obj = 200 \<and>
    AssociationObject_Endpoint obj = Addr4 0x0A000002"
  by (rule AssociationObject_roundtrip) (simp add: assoc_addrs_ok_def)

text \<open>
  The vendor information object for legacy Cisco PCCs survives the wire: what
  \<open>NewVendorInformationObject\<close> is given is what \<open>Color\<close> and \<open>Preference\<close> read after serializing
  and decoding, for every color and preference; for the other PCC types the constructor fails.
\<close>

theorem VendorInformationObject_roundtrip:
  "(\<exists>obj bs h. NewVendorInformationObject CiscoLegacy color preference = Inr obj \<and>
     VendorInformationObject_Serialize obj = Inr bs \<and> coh_ObjectClass h = ObjectClassVendorInformation \<and>
     (\<forall>rest. CommonObjectHeader_DecodeFromBytes (bs @ rest) = Inr h \<and>
       bindE (sliceE (bs @ rest) 4 (unat (coh_ObjectLength h)))
         (VendorInformationObject_DecodeFromBytes VendorInformationObject_zero (coh_ObjectType h)) = Inr obj) \<and>
     VendorInformationObject_Color obj = color \<and> VendorInformationObject_Preference obj = preference) \<and>
   (\<forall>e. NewVendorInformationObject JuniperLegacy color preference \<noteq> Inr e \<and>
        NewVendorInformationObject RFCCompliant color preference \<noteq> Inr e)"
proof -
  obtain obj where e: "NewVendorInformationObject CiscoLegacy color preference = Inr obj"
      "VendorInformationObject_ok obj" "VendorInformationObject_Color obj = color"
      "VendorInformationObject_Preference obj = preference"
    by (simp add: NewVendorInformationObject_def VendorInformationObject_ok_def UnknownTLV_ok_def
        VendorInformationObject_Color_def VendorInformationObject_Preference_def subTLVUint32_def
        Uint32ToByteSlice_def tlvs_size_def UnknownTLV_Len_def tlv_consts max_object_def max_value_def)
  let ?h = "NewCommonObjectHeader ObjectClassVendorInformation (vo_ObjectType obj) (VendorInformationObject_Len obj)"
  obtain bs where bs: "VendorInformationObject_Serialize obj = Inr bs"
    using vendor_object.serialize_total [OF e(2)] by blast
  have "CommonObjectHeader_DecodeFromBytes (bs @ rest) = Inr ?h \<and>
      bindE (sliceE (bs @ rest) 4 (unat (VendorInformationObject_Len obj)))
        (VendorInformationObject_DecodeFromBytes VendorInformationObject_zero (vo_ObjectType obj)) = Inr obj" for rest
    by (rule vendor_object.read_at [OF e(2) bs])
  with e bs show ?thesis
    by (intro conjI exI [of _ obj] exI [of _ bs] exI [of _ ?h])
      (simp_all add: NewCommonObjectHeader_def NewVendorInformationObject_def)
qed

lemma pccTypeOfAssocTypes_eq:
  "pccTypeOfAssocTypes vs p =
     (if AssociationTypeSRPolicyAssociationJuniper \<in> set vs then JuniperLegacy
      else if AssociationTypeSRPolicyAssociationCisco \<in> set vs then CiscoLegacy else p)"
  by (induction vs p rule: pccTypeOfAssocTypes.induct) auto

definition legacyAssocTypes :: "tlv \<Rightarrow> u16 list" where
  "legacyAssocTypes cap = (case cap of TLV_AssocTypeList t \<Rightarrow>
     filter (\<lambda>v. v = AssociationTypeSRPolicyAssociationJuniper \<or> v = AssociationTypeSRPolicyAssociationCisco)
       (atl_AssocTypes t) | _ \<Rightarrow> [])"

lemma DeterminePccType_snoc:
  "DeterminePccType (caps @ [cap]) =
     (if legacyAssocTypes cap = [] then DeterminePccType caps
      else if AssociationTypeSRPolicyAssociationJuniper \<in> set (legacyAssocTypes cap) then JuniperLegacy
      else CiscoLegacy)"
  by (auto simp: DeterminePccType_def legacyAssocTypes_def pccTypeOfAssocTypes_eq filter_empty_conv split: tlv.splits)

text \<open>
  The PCC type is decided by the last association-type list of the capabilities that holds a
  vendor's SR policy association type: Juniper if it holds Juniper's, else Cisco; with no such
  list the PCC is RFC compliant.
\<close>

theorem DeterminePccType_spec:
  "DeterminePccType caps =
     (let ls = filter (\<lambda>vs. vs \<noteq> []) (map legacyAssocTypes caps) in
      if ls = [] then RFCCompliant
      else if AssociationTypeSRPolicyAssociationJuniper \<in> set (last ls) then JuniperLegacy
      else CiscoLegacy)"
proof (induction caps rule: rev_induct)
  case (snoc cap caps)
  then show ?case unfolding DeterminePccType_snoc by (simp add: Let_def)
qed (simp add: DeterminePccType_def)

text \<open>
  \<open>NewEndpointsObject\<close> accepts exactly the pairs of one address family, and what it accepts is
  always written with the length its header announces: the source before the destination.
\<close>

theorem EndpointsObject_layout:
  "case NewEndpointsObject dst src of
     Inr obj \<Rightarrow> (Is4 src \<and> Is4 dst \<or> Is6 src \<and> Is6 dst) \<and>
       EndpointsObject_Serialize obj =
         Inr (object_frame ObjectClassEndpoints (if Is4 src then ObjectTypeEndpointIPv4 else ObjectTypeEndpointIPv6)
           (AsSlice src @ AsSlice dst))
   | Inl e \<Rightarrow> e \<noteq> Panic \<and> \<not> (Is4 src \<and> Is4 dst) \<and> \<not> (Is6 src \<and> Is6 dst)"
  by (cases src; cases dst)
    (simp_all add: NewEndpointsObject_def EndpointsObject_Serialize_def EndpointsObject_Len_def object_frame_def)

end
