(* ===== verification/Messages.thy ===== *)
theory Messages
  imports Ero_Roundtrip Assoc
begin

text \<open>
  The messages of \<open>src/pkg/packet/pcep/message.go\<close>: the common header, Open, Keepalive, PCErr,
  Close, PCRpt with its state reports, PCInitiate and PCUpd. A message body is a buffer of its own
  (the session reads exactly the announced length), so slices of it stop at its end; slices of one
  object inside it may be read beyond the object. The loop of \<open>PCRptMessage.DecodeFromBytes\<close> need
  not end and is a \<open>partial_function\<close>: \<open>None\<close> is the run that never returns.
\<close>

section \<open>The common header\<close>

abbreviation (input) CommonHeaderLength :: nat where "CommonHeaderLength \<equiv> 4"

abbreviation (input) MessageTypeOpen :: u8 where "MessageTypeOpen \<equiv> 0x01"
abbreviation (input) MessageTypeKeepalive :: u8 where "MessageTypeKeepalive \<equiv> 0x02"
abbreviation (input) MessageTypeError :: u8 where "MessageTypeError \<equiv> 0x06"
abbreviation (input) MessageTypeClose :: u8 where "MessageTypeClose \<equiv> 0x07"
abbreviation (input) MessageTypeReport :: u8 where "MessageTypeReport \<equiv> 0x0a"
abbreviation (input) MessageTypeUpdate :: u8 where "MessageTypeUpdate \<equiv> 0x0b"
abbreviation (input) MessageTypeLSPInitReq :: u8 where "MessageTypeLSPInitReq \<equiv> 0x0c"

record CommonHeader =
  ch_Version :: u8
  ch_Flag :: u8
  ch_MessageType :: u8
  ch_MessageLength :: u16

definition CommonHeader_DecodeFromBytes :: "bytes \<Rightarrow> CommonHeader result" where
  "CommonHeader_DecodeFromBytes header =
     bindE (indexE header 0) (\<lambda>b0.
     bindE (indexE header 1) (\<lambda>b1.
     bindE (bindE (sliceE header 2 4) beUint16) (\<lambda>len.
     Inr \<lparr>ch_Version = drop_bit 5 b0, ch_Flag = b0 AND 0x1f, ch_MessageType = b1,
          ch_MessageLength = len\<rparr>)))"

definition CommonHeader_Serialize :: "CommonHeader \<Rightarrow> bytes" where
  "CommonHeader_Serialize h =
     (let verFlag = push_bit 5 (ch_Version h) OR ch_Flag h in
      [verFlag] @ [ch_MessageType h] @ Uint16ToByteSlice (ch_MessageLength h))"

definition NewCommonHeader :: "u8 \<Rightarrow> u16 \<Rightarrow> CommonHeader" where
  "NewCommonHeader messageType messageLength =
     \<lparr>ch_Version = 1, ch_Flag = 0, ch_MessageType = messageType, ch_MessageLength = messageLength\<rparr>"

section \<open>Open\<close>

record OpenMessage =
  om_OpenObject :: OpenObject

definition OpenMessage_DecodeFromBytes :: "bytes \<Rightarrow> OpenMessage result" where
  "OpenMessage_DecodeFromBytes messageBody =
     bindE (wrapE ''failed to decode common object header'' (CommonObjectHeader_DecodeFromBytes messageBody)) (\<lambda>h.
     if coh_ObjectClass h \<noteq> ObjectClassOpen
     then errorf ''unsupported ObjectClass'' [uint (coh_ObjectClass h)]
     else if coh_ObjectType h \<noteq> ObjectTypeOpenOpen
     then errorf ''unsupported ObjectType'' [uint (coh_ObjectType h)]
     else
       bindE (sliceE messageBody commonObjectHeaderLength (unat (coh_ObjectLength h))) (\<lambda>objectBody.
       bindE (wrapE ''failed to decode OpenObject''
         (OpenObject_DecodeFromBytes OpenObject_zero (coh_ObjectType h) objectBody)) (\<lambda>openObject.
       Inr \<lparr>om_OpenObject = openObject\<rparr>)))"

definition OpenMessage_Serialize :: "OpenMessage \<Rightarrow> bytes result" where
  "OpenMessage_Serialize m =
     bindE (OpenObject_Serialize (om_OpenObject m)) (\<lambda>byteOpenObject.
     let openMessageLength = word_of_nat CommonHeaderLength + OpenObject_Len (om_OpenObject m);
         byteOpenHeader = CommonHeader_Serialize (NewCommonHeader MessageTypeOpen openMessageLength) in
     Inr (AppendByteSlices [byteOpenHeader, byteOpenObject]))"

definition NewOpenMessage :: "u8 \<Rightarrow> u8 \<Rightarrow> tlv list \<Rightarrow> OpenMessage result" where
  "NewOpenMessage sessionID keepalive capabilities =
     bindE (NewOpenObject sessionID keepalive capabilities) (\<lambda>oo. Inr \<lparr>om_OpenObject = oo\<rparr>)"

section \<open>Keepalive\<close>

definition KeepaliveMessage_Serialize :: "bytes result" where
  "KeepaliveMessage_Serialize =
     Inr (CommonHeader_Serialize (NewCommonHeader MessageTypeKeepalive (word_of_nat CommonHeaderLength)))"

section \<open>PCErr\<close>

record PCErrMessage =
  pem_Errors :: "PCEPErrorObject list"
  pem_SRPs :: "SrpObject list"

definition PCErrMessage_zero :: PCErrMessage where
  "PCErrMessage_zero = \<lparr>pem_Errors = [], pem_SRPs = []\<rparr>"

text \<open>The switch on the object class; objects of other classes are skipped.\<close>

definition PCErrMessage_readObject :: "PCErrMessage \<Rightarrow> CommonObjectHeader \<Rightarrow> bytes \<Rightarrow> PCErrMessage result" where
  "PCErrMessage_readObject m h objectBody =
     (if coh_ObjectClass h = ObjectClassPCEPError
      then bindE (PCEPErrorObject_DecodeFromBytes PCEPErrorObject_zero (coh_ObjectType h) objectBody) (\<lambda>errObj.
           Inr (m\<lparr>pem_Errors := pem_Errors m @ [errObj]\<rparr>))
      else if coh_ObjectClass h = ObjectClassSRP
      then bindE (SrpObject_DecodeFromBytes SrpObject_zero (coh_ObjectType h) objectBody) (\<lambda>srp.
           Inr (m\<lparr>pem_SRPs := pem_SRPs m @ [srp]\<rparr>))
      else Inr m)"

function PCErrMessage_loop :: "bytes \<Rightarrow> nat \<Rightarrow> PCErrMessage \<Rightarrow> PCErrMessage result" where
  "PCErrMessage_loop messageBody offset m =
     (if offset < length messageBody then
        if length messageBody - offset < commonObjectHeaderLength
        then errorf ''PCErr: truncated object header'' [int offset]
        else
          bindE (sliceE messageBody offset (offset + commonObjectHeaderLength)) (\<lambda>hb.
          bindE (CommonObjectHeader_DecodeFromBytes hb) (\<lambda>h.
          if unat (coh_ObjectLength h) < commonObjectHeaderLength \<or> unat (coh_ObjectLength h) mod 4 \<noteq> 0
          then errorf ''PCErr: invalid object length'' [uint (coh_ObjectLength h), int offset]
          else
            let end' = offset + unat (coh_ObjectLength h) in
            if end' > length messageBody
            then errorf ''PCErr: object body extends past message''
                   [int offset, uint (coh_ObjectLength h), int (length messageBody)]
            else
              bindE (sliceE messageBody (offset + commonObjectHeaderLength) end') (\<lambda>objectBody.
              bindE (PCErrMessage_readObject m h objectBody) (\<lambda>m.
              PCErrMessage_loop messageBody end' m))))
      else Inr m)"
  by pat_completeness auto

termination
  by (relation "measure (\<lambda>(b, off, m). length b - off)") auto

declare PCErrMessage_loop.simps [simp del]

definition PCErrMessage_DecodeFromBytes :: "PCErrMessage \<Rightarrow> bytes \<Rightarrow> PCErrMessage result" where
  "PCErrMessage_DecodeFromBytes m messageBody =
     bindE (PCErrMessage_loop messageBody 0 m) (\<lambda>m.
     if pem_Errors m = [] then errorf ''PCErr: message carries no PCEP-ERROR object'' []
     else Inr m)"

definition PCErrMessage_Serialize :: "PCErrMessage \<Rightarrow> bytes result" where
  "PCErrMessage_Serialize m =
     (let len = word_of_nat CommonHeaderLength + sum_list (map SrpObject_Len (pem_SRPs m)) +
            sum_list (map PCEPErrorObject_Len (pem_Errors m));
          buf = CommonHeader_Serialize (NewCommonHeader MessageTypeError len) in
      bindE (mapE SrpObject_Serialize (pem_SRPs m)) (\<lambda>srps.
      bindE (mapE PCEPErrorObject_Serialize (pem_Errors m)) (\<lambda>errs.
      Inr (buf @ concat srps @ concat errs))))"

definition PCErrMessage_SRPIDs :: "PCErrMessage \<Rightarrow> u32 list" where
  "PCErrMessage_SRPIDs m = map so_SrpID (pem_SRPs m)"

definition NewPCErrMessage :: "u8 \<Rightarrow> u8 \<Rightarrow> tlv list \<Rightarrow> PCErrMessage result" where
  "NewPCErrMessage errorType errorValue tlvs =
     bindE (NewPCEPErrorObject errorType errorValue tlvs) (\<lambda>obj.
     Inr \<lparr>pem_Errors = [obj], pem_SRPs = []\<rparr>)"

section \<open>Close\<close>

record CloseMessage =
  cm_CloseObject :: CloseObject

definition CloseMessage_DecodeFromBytes :: "bytes \<Rightarrow> CloseMessage result" where
  "CloseMessage_DecodeFromBytes messageBody =
     bindE (CommonObjectHeader_DecodeFromBytes messageBody) (\<lambda>h.
     bindE (sliceE messageBody commonObjectHeaderLength (unat (coh_ObjectLength h))) (\<lambda>objectBody.
     bindE (CloseObject_DecodeFromBytes (coh_ObjectType h) objectBody) (\<lambda>closeObject.
     Inr \<lparr>cm_CloseObject = closeObject\<rparr>)))"

definition CloseMessage_Serialize :: "CloseMessage \<Rightarrow> bytes result" where
  "CloseMessage_Serialize m =
     (let closeMessageLength = word_of_nat CommonHeaderLength + CloseObject_Len (cm_CloseObject m);
          byteCloseHeader = CommonHeader_Serialize (NewCommonHeader MessageTypeClose closeMessageLength) in
      bindE (CloseObject_Serialize (cm_CloseObject m)) (\<lambda>byteCloseObject.
      Inr (AppendByteSlices [byteCloseHeader, byteCloseObject])))"

definition NewCloseMessage :: "u8 \<Rightarrow> CloseMessage result" where
  "NewCloseMessage reason = bindE (NewCloseObject reason) (\<lambda>obj. Inr \<lparr>cm_CloseObject = obj\<rparr>)"

section \<open>State reports\<close>

record StateReport =
  sr_SrpObject :: SrpObject
  sr_LSPObject :: LSPObject
  sr_EroObject :: EroObject
  sr_LSPAObject :: LSPAObject
  sr_MetricObjects :: "MetricObject list"
  sr_BandwidthObjects :: "BandwidthObject list"
  sr_AssociationObject :: AssociationObject
  sr_VendorInformationObject :: VendorInformationObject

definition NewStateReport :: StateReport where
  "NewStateReport =
     \<lparr>sr_SrpObject = SrpObject_zero, sr_LSPObject = LSPObject_zero, sr_EroObject = EroObject_zero,
      sr_LSPAObject = LSPAObject_zero, sr_MetricObjects = [], sr_BandwidthObjects = [],
      sr_AssociationObject = AssociationObject_zero,
      sr_VendorInformationObject = VendorInformationObject_zero\<rparr>"

text \<open>
  The receiver of the decode functions is \<open>nil\<close> until the first LSP or SRP object; reading or
  writing a field of a nil pointer panics.
\<close>

fun deref :: "'a option \<Rightarrow> 'a result" where
  "deref None = panic"
| "deref (Some x) = Inr x"

type_synonym decodeFunc = "StateReport option \<Rightarrow> u8 \<Rightarrow> bytes \<Rightarrow> bytes \<Rightarrow> StateReport option result"

definition decodeBandwidthObject :: decodeFunc where
  "decodeBandwidthObject r objectType objectBody beyond =
     bindE (BandwidthObject_DecodeFromBytes objectType objectBody) (\<lambda>bandwidthObject.
     bindE (deref r) (\<lambda>r.
     Inr (Some (r\<lparr>sr_BandwidthObjects := sr_BandwidthObjects r @ [bandwidthObject]\<rparr>))))"

definition decodeMetricObject :: decodeFunc where
  "decodeMetricObject r objectType objectBody beyond =
     bindE (MetricObject_DecodeFromBytes objectType objectBody beyond) (\<lambda>metricObject.
     bindE (deref r) (\<lambda>r.
     Inr (Some (r\<lparr>sr_MetricObjects := sr_MetricObjects r @ [metricObject]\<rparr>))))"

definition decodeEroObject :: decodeFunc where
  "decodeEroObject r objectType objectBody beyond =
     bindE (deref r) (\<lambda>r.
     bindE (EroObject_DecodeFromBytes (sr_EroObject r) objectType objectBody) (\<lambda>obj.
     Inr (Some (r\<lparr>sr_EroObject := obj\<rparr>))))"

definition decodeLSPAObject :: decodeFunc where
  "decodeLSPAObject r objectType objectBody beyond =
     bindE (deref r) (\<lambda>r.
     bindE (LSPAObject_DecodeFromBytes (sr_LSPAObject r) objectType objectBody beyond) (\<lambda>obj.
     Inr (Some (r\<lparr>sr_LSPAObject := obj\<rparr>))))"

definition decodeLSPObject :: decodeFunc where
  "decodeLSPObject r objectType objectBody beyond =
     bindE (deref r) (\<lambda>r.
     bindE (LSPObject_DecodeFromBytes (sr_LSPObject r) objectType objectBody beyond) (\<lambda>obj.
     Inr (Some (r\<lparr>sr_LSPObject := obj\<rparr>))))"

definition decodeSrpObject :: decodeFunc where
  "decodeSrpObject r objectType objectBody beyond =
     bindE (SrpObject_DecodeFromBytes SrpObject_zero objectType objectBody) (\<lambda>srpObject.
     bindE (deref r) (\<lambda>r.
     Inr (Some (r\<lparr>sr_SrpObject := srpObject\<rparr>))))"

definition decodeAssociationObject :: decodeFunc where
  "decodeAssociationObject r objectType objectBody beyond =
     bindE (deref r) (\<lambda>r.
     bindE (AssociationObject_DecodeFromBytes (sr_AssociationObject r) objectType objectBody beyond) (\<lambda>obj.
     Inr (Some (r\<lparr>sr_AssociationObject := obj\<rparr>))))"

definition decodeVendorInformationObject :: decodeFunc where
  "decodeVendorInformationObject r objectType objectBody beyond =
     bindE (deref r) (\<lambda>r.
     bindE (VendorInformationObject_DecodeFromBytes (sr_VendorInformationObject r) objectType objectBody) (\<lambda>obj.
     Inr (Some (r\<lparr>sr_VendorInformationObject := obj\<rparr>))))"

definition decodeFuncs :: "u8 \<Rightarrow> decodeFunc option" where
  "decodeFuncs cls =
     (if cls = ObjectClassBandwidth then Some decodeBandwidthObject
      else if cls = ObjectClassMetric then Some decodeMetricObject
      else if cls = ObjectClassERO then Some decodeEroObject
      else if cls = ObjectClassLSPA then Some decodeLSPAObject
      else if cls = ObjectClassLSP then Some decodeLSPObject
      else if cls = ObjectClassSRP then Some decodeSrpObject
      else if cls = ObjectClassAssociation then Some decodeAssociationObject
      else if cls = ObjectClassVendorInformation then Some decodeVendorInformationObject
      else None)"

section \<open>PCRpt\<close>

text \<open>
  One turn of the loop: what it does to \<open>previousObjectClass\<close>, \<open>sr\<close>, \<open>m.StateReports\<close> and
  \<open>messageBody\<close>.
\<close>

definition startsReport :: "u8 \<Rightarrow> u8 \<Rightarrow> bool" where
  "startsReport previousObjectClass cls \<longleftrightarrow>
     previousObjectClass \<noteq> ObjectClassSRP \<and> cls = ObjectClassLSP \<or> cls = ObjectClassSRP"

type_synonym pcrptState = "u8 \<times> StateReport option \<times> StateReport list \<times> bytes"

definition pcrptTurn :: "pcrptState \<Rightarrow> pcrptState result" where
  "pcrptTurn = (\<lambda>(previousObjectClass, sr, reports, messageBody).
     bindE (CommonObjectHeader_DecodeFromBytes messageBody) (\<lambda>h.
     let cls = coh_ObjectClass h; n = unat (coh_ObjectLength h) in
     case decodeFuncs cls of
       None \<Rightarrow>
         bindE (sliceE messageBody n (length messageBody)) (\<lambda>messageBody.
         Inr (previousObjectClass, sr, reports, messageBody))
     | Some decodeFunc \<Rightarrow>
         let (sr, reports) =
               (if startsReport previousObjectClass cls
                then (Some NewStateReport, case sr of Some r \<Rightarrow> reports @ [r] | None \<Rightarrow> reports)
                else (sr, reports)) in
         bindE (sliceE messageBody commonObjectHeaderLength n) (\<lambda>objectBody.
         bindE (decodeFunc sr (coh_ObjectType h) objectBody (drop n messageBody)) (\<lambda>sr.
         bindE (sliceE messageBody n (length messageBody)) (\<lambda>messageBody.
         Inr (cls, sr, reports, messageBody))))))"

partial_function (option) pcrptLoop :: "pcrptState \<Rightarrow> StateReport list result option" where
  "pcrptLoop st =
     (case st of (previousObjectClass, sr, reports, messageBody) \<Rightarrow>
      if messageBody = [] then Some (Inr (case sr of Some r \<Rightarrow> reports @ [r] | None \<Rightarrow> reports))
      else case pcrptTurn st of
          Inl e \<Rightarrow> Some (Inl e)
        | Inr st' \<Rightarrow> pcrptLoop st')"

record PCRptMessage =
  prm_StateReports :: "StateReport list"

definition PCRptMessage_DecodeFromBytes :: "PCRptMessage \<Rightarrow> bytes \<Rightarrow> PCRptMessage result option" where
  "PCRptMessage_DecodeFromBytes m messageBody =
     map_option (\<lambda>r. bindE r (\<lambda>reports. Inr (m\<lparr>prm_StateReports := reports\<rparr>)))
       (pcrptLoop (0, None, prm_StateReports m, messageBody))"

definition NewPCRptMessage :: PCRptMessage where
  "NewPCRptMessage = \<lparr>prm_StateReports = []\<rparr>"

section \<open>PCInitiate\<close>

record PCInitiateMessage =
  pim_SrpObject :: SrpObject
  pim_LSPObject :: LSPObject
  pim_EndpointsObject :: "EndpointsObject option"
  pim_EroObject :: "EroObject option"
  pim_AssociationObject :: "AssociationObject option"
  pim_VendorInformationObject :: "VendorInformationObject option"

fun optE :: "('a \<Rightarrow> 'b result) \<Rightarrow> 'b \<Rightarrow> 'a option \<Rightarrow> 'b result" where
  "optE f d None = Inr d"
| "optE f d (Some x) = f x"

definition PCInitiateMessage_Serialize :: "PCInitiateMessage \<Rightarrow> bytes result" where
  "PCInitiateMessage_Serialize m =
     bindE (optE EroObject_Len 0 (pim_EroObject m)) (\<lambda>eroObjectLength.
     bindE (optE EndpointsObject_Len 0 (pim_EndpointsObject m)) (\<lambda>endpointsObjectLength.
     let len = word_of_nat CommonHeaderLength + SrpObject_Len (pim_SrpObject m) +
           LSPObject_Len (pim_LSPObject m) + endpointsObjectLength + eroObjectLength in
     bindE (SrpObject_Serialize (pim_SrpObject m)) (\<lambda>byteSrpObject.
     bindE (LSPObject_Serialize (pim_LSPObject m)) (\<lambda>byteLSPObject.
     bindE (optE EndpointsObject_Serialize [] (pim_EndpointsObject m)) (\<lambda>byteEndpointsObject.
     bindE (optE EroObject_Serialize [] (pim_EroObject m)) (\<lambda>byteEroObject.
     bindE (optE AssociationObject_Serialize [] (pim_AssociationObject m)) (\<lambda>byteAssociationObject.
     bindE (optE AssociationObject_Len 0 (pim_AssociationObject m)) (\<lambda>associationObjectLength.
     let len = len + associationObjectLength in
     bindE (optE VendorInformationObject_Serialize [] (pim_VendorInformationObject m)) (\<lambda>byteVendorInformationObject.
     let len = (case pim_VendorInformationObject m of
                  Some v \<Rightarrow> len + VendorInformationObject_Len v | None \<Rightarrow> len);
         header = CommonHeader_Serialize (NewCommonHeader MessageTypeLSPInitReq len) in
     Inr (AppendByteSlices [header, byteSrpObject, byteLSPObject, byteEndpointsObject, byteEroObject,
       byteAssociationObject, byteVendorInformationObject]))))))))))"

definition NewPCInitiateMessage ::
    "u32 \<Rightarrow> string \<Rightarrow> bool \<Rightarrow> u32 \<Rightarrow> Segment option list \<Rightarrow> u32 \<Rightarrow> u32 \<Rightarrow> addr \<Rightarrow> addr \<Rightarrow> Opt list \<Rightarrow>
      PCInitiateMessage result" where
  "NewPCInitiateMessage srpID lspName lspDelete plspID segmentList color preference srcAddr dstAddr opt =
     (let opts = foldl (\<lambda>opts f. f opts) \<lparr>opt_pccType = RFCCompliant, opt_originatorASN = 0\<rparr> opt in
      bindE (NewSrpObject segmentList srpID lspDelete) (\<lambda>srp.
      if lspDelete then
        bindE (NewLSPObject lspName (Some color) plspID) (\<lambda>lsp.
        Inr \<lparr>pim_SrpObject = srp, pim_LSPObject = lsp, pim_EndpointsObject = None, pim_EroObject = None,
             pim_AssociationObject = None, pim_VendorInformationObject = None\<rparr>)
      else
        bindE (NewLSPObject lspName (Some color) 0) (\<lambda>lsp.
        bindE (NewEndpointsObject dstAddr srcAddr) (\<lambda>endpoints.
        bindE (NewEroObject segmentList) (\<lambda>ero.
        let m = \<lparr>pim_SrpObject = srp, pim_LSPObject = lsp, pim_EndpointsObject = Some endpoints,
                 pim_EroObject = Some ero, pim_AssociationObject = None, pim_VendorInformationObject = None\<rparr> in
        case opt_pccType opts of
          JuniperLegacy \<Rightarrow>
            bindE (NewAssociationObject srcAddr dstAddr color preference
              [VendorSpecific (opt_pccType opts), OriginatorASN (opt_originatorASN opts)]) (\<lambda>assoc.
            Inr (m\<lparr>pim_AssociationObject := Some assoc\<rparr>))
        | CiscoLegacy \<Rightarrow>
            bindE (NewVendorInformationObject CiscoLegacy color preference) (\<lambda>vendor.
            Inr (m\<lparr>pim_VendorInformationObject := Some vendor\<rparr>))
        | RFCCompliant \<Rightarrow>
            bindE (NewAssociationObject srcAddr dstAddr color preference
              [OriginatorASN (opt_originatorASN opts)]) (\<lambda>assoc.
            bindE (NewVendorInformationObject CiscoLegacy color preference) (\<lambda>vendor.
            Inr (m\<lparr>pim_AssociationObject := Some assoc, pim_VendorInformationObject := Some vendor\<rparr>))))))))"

section \<open>PCUpd\<close>

record PCUpdMessage =
  pum_SrpObject :: SrpObject
  pum_LSPObject :: LSPObject
  pum_EroObject :: EroObject

definition PCUpdMessage_Serialize :: "PCUpdMessage \<Rightarrow> bytes result" where
  "PCUpdMessage_Serialize m =
     bindE (SrpObject_Serialize (pum_SrpObject m)) (\<lambda>byteSrpObject.
     bindE (LSPObject_Serialize (pum_LSPObject m)) (\<lambda>byteLSPObject.
     bindE (EroObject_Serialize (pum_EroObject m)) (\<lambda>byteEroObject.
     bindE (EroObject_Len (pum_EroObject m)) (\<lambda>eroObjectLength.
     let len = word_of_nat CommonHeaderLength + SrpObject_Len (pum_SrpObject m) +
           LSPObject_Len (pum_LSPObject m) + eroObjectLength;
         header = CommonHeader_Serialize (NewCommonHeader MessageTypeUpdate len) in
     Inr (AppendByteSlices [header, byteSrpObject, byteLSPObject, byteEroObject])))))"

definition NewPCUpdMessage :: "u32 \<Rightarrow> string \<Rightarrow> u32 \<Rightarrow> Segment option list \<Rightarrow> PCUpdMessage result" where
  "NewPCUpdMessage srpID lspName plspID segmentList =
     bindE (NewSrpObject segmentList srpID False) (\<lambda>srp.
     bindE (NewLSPObject lspName None plspID) (\<lambda>lsp.
     bindE (NewEroObject segmentList) (\<lambda>ero.
     Inr \<lparr>pum_SrpObject = srp, pum_LSPObject = lsp, pum_EroObject = ero\<rparr>)))"

end
