(* ===== verification/Message_Codec.thy ===== *)
theory Message_Codec
  imports Messages
begin

text \<open>
  What the encoders and decoders of \<open>src/pkg/packet/pcep/message.go\<close> guarantee: headers announce
  the length of what follows, messages built from well-formed objects are read back, PCErr decoding
  never panics, and the PCRpt loop cuts a message into its state reports. The lemmas about one
  object at the front of a message are proved once in the locale \<open>object_codec\<close>.
\<close>

section \<open>The common header\<close>

definition CommonHeader_ok :: "CommonHeader \<Rightarrow> bool" where
  "CommonHeader_ok h \<longleftrightarrow> ch_Version h < 8 \<and> ch_Flag h < 32"

lemma length_CommonHeader_Serialize [simp]: "length (CommonHeader_Serialize h) = 4"
  by (simp add: CommonHeader_Serialize_def Let_def)

lemma CommonHeader_roundtrip:
  assumes "CommonHeader_ok h"
  shows "CommonHeader_DecodeFromBytes (CommonHeader_Serialize h @ rest) = Inr h"
proof -
  have v: "ch_Version h < 8" "ch_Flag h < 32" using assms by (simp_all add: CommonHeader_ok_def)
  have f: "ch_Flag h AND 0x1f = ch_Flag h"
  proof (rule u8_eqI)
    fix n :: nat assume "n < 8"
    have "\<not> bit (ch_Flag h) n" if "5 \<le> n" for n
      by (rule bit_small_u8 [of _ 5]) (use v that in \<open>auto simp: word_less_nat_alt\<close>)
    then show "bit (ch_Flag h AND 0x1f) n = bit (ch_Flag h) n"
      using \<open>n < 8\<close> by (auto simp: bit_simps less_8)
  qed
  note b = version_flag_byte [OF v, unfolded f]
  show ?thesis
    using b by (cases h) (simp add: CommonHeader_DecodeFromBytes_def CommonHeader_Serialize_def Let_def
        Uint16ToByteSlice_def sliceE_def)
qed

lemma NewCommonHeader_read [simp]:
  "CommonHeader_DecodeFromBytes (CommonHeader_Serialize (NewCommonHeader t n) @ rest) = Inr (NewCommonHeader t n)"
  by (rule CommonHeader_roundtrip) (simp add: CommonHeader_ok_def NewCommonHeader_def)

section \<open>Objects inside a message\<close>

lemma sliceE_shift: "sliceE (pre @ xs) (length pre + a) (length pre + b) = sliceE xs a b"
  by (auto simp: sliceE_def)

lemma sliceE_to_end: "n \<le> length xs \<Longrightarrow> sliceE xs n (length xs) = Inr (drop n xs)"
  by (simp add: sliceE_def)

context object_codec
begin

lemma serialized:
  assumes "ok x" "serialize x = Inr bs"
  shows "length bs = unat (len x)" "4 \<le> length bs" "4 dvd length bs" "length bs \<le> max_object"
    and "CommonObjectHeader_DecodeFromBytes (bs @ rest) = Inr (NewCommonObjectHeader cls (otype x) (len x))"
    and "CommonObjectHeader_DecodeFromBytes (take 4 (bs @ rest)) = Inr (NewCommonObjectHeader cls (otype x) (len x))"
    and "drop (unat (len x)) (bs @ rest) = rest"
    and "\<exists>body. sliceE (bs @ rest) 4 (unat (len x)) = Inr body \<and> decode (otype x) body = Inr x"
  using assms by - (rule read_back [OF assms(1)]; auto simp: bindE_eq_Inr; fail)+

lemma pcerr_step:
  assumes "ok x" "serialize x = Inr bs"
    and upd: "\<And>m n body. decode (otype x) body = Inr x \<Longrightarrow>
      PCErrMessage_readObject m (NewCommonObjectHeader cls (otype x) n) body = Inr (upd x m)"
  shows "PCErrMessage_loop (pre @ bs @ rest) (length pre) m =
    PCErrMessage_loop (pre @ bs @ rest) (length pre + length bs) (upd x m)"
proof -
  note s = serialized [OF assms(1,2)]
  obtain body where b: "sliceE (bs @ rest) 4 (unat (len x)) = Inr body" "decode (otype x) body = Inr x"
    using s(8) by blast
  have hd: "sliceE (pre @ bs @ rest) (length pre) (length pre + 4) = Inr (take 4 bs)"
    using sliceE_shift [of pre "bs @ rest" 0 4] s(2) by (simp add: sliceE_def)
  have bd: "sliceE (pre @ bs @ rest) (length pre + 4) (length pre + unat (len x)) = Inr body"
    using b(1) by (simp add: sliceE_shift)
  have n: "unat (len x) mod 4 = 0" "4 \<le> unat (len x)" using s(1,2,3) by auto
  have h: "coh_ObjectLength (NewCommonObjectHeader cls (otype x) (len x)) = len x"
    by (simp add: NewCommonObjectHeader_def)
  have c: "CommonObjectHeader_DecodeFromBytes (take 4 bs) = Inr (NewCommonObjectHeader cls (otype x) (len x))"
    using s(6) [of "[]"] by simp
  show ?thesis
    by (subst PCErrMessage_loop.simps)
      (use s(1,2) n in \<open>simp add: hd c h bd upd [OF b(2)] Let_def\<close>)
qed

lemma pcerr_objects:
  assumes "list_all ok xs" "mapE serialize xs = Inr bss"
    and upd: "\<And>x m n body. decode (otype x) body = Inr x \<Longrightarrow>
      PCErrMessage_readObject m (NewCommonObjectHeader cls (otype x) n) body = Inr (upd x m)"
  shows "PCErrMessage_loop (pre @ concat bss @ rest) (length pre) m =
    PCErrMessage_loop (pre @ concat bss @ rest) (length pre + length (concat bss)) (fold upd xs m)"
  using assms(1,2)
proof (induction xs arbitrary: pre bss m)
  case (Cons x xs)
  then obtain bs bss' where b: "serialize x = Inr bs" "mapE serialize xs = Inr bss'" "bss = bs # bss'"
    by (auto simp: bindE_eq_Inr)
  have "PCErrMessage_loop (pre @ bs @ concat bss' @ rest) (length pre) m =
      PCErrMessage_loop (pre @ bs @ concat bss' @ rest) (length pre + length bs) (upd x m)"
    using Cons.prems(1) by (intro pcerr_step upd) (auto simp: b(1))
  also have "\<dots> = PCErrMessage_loop ((pre @ bs) @ concat bss' @ rest) (length (pre @ bs)) (upd x m)"
    by simp
  also have "\<dots> = PCErrMessage_loop ((pre @ bs) @ concat bss' @ rest)
      (length (pre @ bs) + length (concat bss')) (fold upd xs (upd x m))"
    using Cons.prems(1) by (intro Cons.IH) (auto simp: b(2))
  finally show ?case by (simp add: b(3) add.assoc)
qed simp

lemma serialize_all:
  assumes "list_all ok xs"
  shows "\<exists>bss. mapE serialize xs = Inr bss \<and> length (concat bss) = sum_list (map (unat \<circ> len) xs)"
  using assms
proof (induction xs)
  case (Cons x xs)
  then obtain bs bss where "serialize x = Inr bs" "mapE serialize xs = Inr bss"
      "length (concat bss) = sum_list (map (unat \<circ> len) xs)"
    using serialize_total [of x] by fastforce
  then show ?case using serialized(1) [of x bs] Cons.prems by (auto simp: comp_def)
qed simp

end

section \<open>PCErr\<close>

lemma PCEPErrorObject_decode_no_panic: "PCEPErrorObject_DecodeFromBytes obj t body \<noteq> panic"
  by (auto simp: PCEPErrorObject_DecodeFromBytes_def Let_def bindE_eq_Inl DecodeTLVs_def
      standard_space.sequence_no_panic sliceE_to_end)

lemma SrpObject_decode_no_panic: "SrpObject_DecodeFromBytes obj t body \<noteq> panic"
  by (auto simp: SrpObject_DecodeFromBytes_def Let_def bindE_eq_Inl DecodeTLVs_def
      standard_space.sequence_no_panic sliceE_to_end be_read)

lemma PCErrMessage_readObject_no_panic: "PCErrMessage_readObject m h body \<noteq> panic"
  by (auto simp: PCErrMessage_readObject_def bindE_eq_Inl PCEPErrorObject_decode_no_panic
      SrpObject_decode_no_panic)

lemma CommonObjectHeader_decode_no_panic: "CommonObjectHeader_DecodeFromBytes b \<noteq> panic"
  by (auto simp: CommonObjectHeader_DecodeFromBytes_def bindE_eq_Inl be_read indexE_def)

lemma PCErrMessage_loop_no_panic: "PCErrMessage_loop messageBody offset m \<noteq> panic"
proof (induction messageBody offset m rule: PCErrMessage_loop.induct)
  case (1 b off m)
  show ?case
  proof (cases "off < length b \<and> 4 \<le> length b - off")
    case False
    then show ?thesis by (subst PCErrMessage_loop.simps) auto
  next
    case True
    then have s: "sliceE b off (off + 4) = Inr (take 4 (drop off b))" by (auto simp: sliceE_def)
    show ?thesis
    proof (cases "CommonObjectHeader_DecodeFromBytes (take 4 (drop off b))")
      case (Inl e)
      then show ?thesis using True s CommonObjectHeader_decode_no_panic [of "take 4 (drop off b)"]
        by (subst PCErrMessage_loop.simps) auto
    next
      case (Inr h)
      let ?n = "unat (coh_ObjectLength h)"
      show ?thesis
      proof (cases "?n < 4 \<or> ?n mod 4 \<noteq> 0 \<or> off + ?n > length b")
        case True
        with Inr s show ?thesis
          using \<open>off < length b \<and> 4 \<le> length b - off\<close>
          by (subst PCErrMessage_loop.simps) (auto simp: Let_def)
      next
        case False
        obtain body where b: "sliceE b (off + 4) (off + ?n) = Inr body"
          using False by (auto simp: sliceE_def)
        have "PCErrMessage_loop b (off + ?n) m' \<noteq> panic" if "PCErrMessage_readObject m h body = Inr m'" for m'
          using 1 [OF _ _ s Inr _ refl _ b that] True False by auto
        moreover have "PCErrMessage_loop b off m =
            bindE (PCErrMessage_readObject m h body) (\<lambda>m. PCErrMessage_loop b (off + ?n) m)"
          using True False Inr s b by (subst PCErrMessage_loop.simps) (auto simp: Let_def)
        ultimately show ?thesis
          using PCErrMessage_readObject_no_panic [of m h body] by (auto simp: bindE_eq_Inl)
      qed
    qed
  qed
qed

text \<open>
  Decoding a PCErr message never panics, whatever its bytes: headers are framed before they are
  read, lengths are checked against the message, and the two object decoders check theirs.
\<close>

theorem PCErrMessage_no_panic: "PCErrMessage_DecodeFromBytes m messageBody \<noteq> panic"
  by (auto simp: PCErrMessage_DecodeFromBytes_def bindE_eq_Inl PCErrMessage_loop_no_panic)

definition PCErrMessage_ok :: "PCErrMessage \<Rightarrow> bool" where
  "PCErrMessage_ok m \<longleftrightarrow> pem_Errors m \<noteq> [] \<and> list_all PCEPErrorObject_ok (pem_Errors m) \<and>
     list_all SrpObject_ok (pem_SRPs m) \<and>
     4 + sum_list (map (unat \<circ> SrpObject_Len) (pem_SRPs m)) +
       sum_list (map (unat \<circ> PCEPErrorObject_Len) (pem_Errors m)) < 2 ^ 16"

lemma fold_errors: "fold (\<lambda>x m. m\<lparr>pem_Errors := pem_Errors m @ [x]\<rparr>) xs m = m\<lparr>pem_Errors := pem_Errors m @ xs\<rparr>"
  by (induction xs arbitrary: m) auto

lemma fold_srps: "fold (\<lambda>x m. m\<lparr>pem_SRPs := pem_SRPs m @ [x]\<rparr>) xs m = m\<lparr>pem_SRPs := pem_SRPs m @ xs\<rparr>"
  by (induction xs arbitrary: m) auto

text \<open>
  A PCErr message with its SRP and PCEP-ERROR objects survives the wire: the bytes begin with a
  common header of type Error whose length is the length of the message, and decoding what follows
  the header gives the message back, the SRP-IDs in their order.
\<close>

theorem PCErrMessage_roundtrip:
  assumes "PCErrMessage_ok m"
  shows "\<exists>bs h. PCErrMessage_Serialize m = Inr bs \<and> CommonHeader_DecodeFromBytes (take 4 bs) = Inr h \<and>
    ch_MessageType h = MessageTypeError \<and> unat (ch_MessageLength h) = length bs \<and>
    PCErrMessage_DecodeFromBytes PCErrMessage_zero (drop 4 bs) = Inr m"
proof -
  have ok: "list_all PCEPErrorObject_ok (pem_Errors m)" "list_all SrpObject_ok (pem_SRPs m)" "pem_Errors m \<noteq> []"
    "4 + sum_list (map (unat \<circ> SrpObject_Len) (pem_SRPs m)) +
       sum_list (map (unat \<circ> PCEPErrorObject_Len) (pem_Errors m)) < 2 ^ 16"
    using assms by (simp_all add: PCErrMessage_ok_def)
  obtain srps where s: "mapE SrpObject_Serialize (pem_SRPs m) = Inr srps"
      "length (concat srps) = sum_list (map (unat \<circ> SrpObject_Len) (pem_SRPs m))"
    using srp_object.serialize_all [OF ok(2)] by blast
  obtain errs where e: "mapE PCEPErrorObject_Serialize (pem_Errors m) = Inr errs"
      "length (concat errs) = sum_list (map (unat \<circ> PCEPErrorObject_Len) (pem_Errors m))"
    using pcep_error_object.serialize_all [OF ok(1)] by blast
  define n where "n = (4 :: u16) + sum_list (map SrpObject_Len (pem_SRPs m)) + sum_list (map PCEPErrorObject_Len (pem_Errors m))"
  let ?body = "concat srps @ concat errs"
  have n: "n = word_of_nat (4 + length ?body)"
    by (simp add: n_def s(2) e(2) sum_list_words comp_def)
  have "unat n = 4 + length ?body"
    unfolding n using ok(4) s(2) e(2) by (intro unat_u16_id) simp
  moreover have "PCErrMessage_Serialize m = Inr (CommonHeader_Serialize (NewCommonHeader MessageTypeError n) @ ?body)"
    by (simp add: PCErrMessage_Serialize_def s(1) e(1) n_def)
  moreover have "CommonHeader_DecodeFromBytes (CommonHeader_Serialize (NewCommonHeader MessageTypeError n)) =
      Inr (NewCommonHeader MessageTypeError n)"
    using NewCommonHeader_read [of _ _ "[]"] by simp
  moreover have "PCErrMessage_loop ?body 0 PCErrMessage_zero = Inr m"
  proof -
    let ?m1 = "fold (\<lambda>x m. m\<lparr>pem_SRPs := pem_SRPs m @ [x]\<rparr>) (pem_SRPs m) PCErrMessage_zero"
    have "PCErrMessage_loop ([] @ concat srps @ concat errs) (length ([] :: bytes)) PCErrMessage_zero =
        PCErrMessage_loop ([] @ concat srps @ concat errs) (length ([] :: bytes) + length (concat srps)) ?m1"
      by (rule srp_object.pcerr_objects [OF ok(2) s(1)])
        (simp add: PCErrMessage_readObject_def NewCommonObjectHeader_def)
    also have "\<dots> = PCErrMessage_loop (concat srps @ concat errs @ []) (length (concat srps)) ?m1" by simp
    also have "\<dots> = PCErrMessage_loop (concat srps @ concat errs @ []) (length (concat srps) + length (concat errs))
        (fold (\<lambda>x m. m\<lparr>pem_Errors := pem_Errors m @ [x]\<rparr>) (pem_Errors m) ?m1)"
      by (rule pcep_error_object.pcerr_objects [OF ok(1) e(1)])
        (simp add: PCErrMessage_readObject_def NewCommonObjectHeader_def)
    also have "\<dots> = Inr (fold (\<lambda>x m. m\<lparr>pem_Errors := pem_Errors m @ [x]\<rparr>) (pem_Errors m) ?m1)"
      by (subst PCErrMessage_loop.simps) simp
    finally show ?thesis by (simp add: fold_errors fold_srps PCErrMessage_zero_def)
  qed
  ultimately show ?thesis
    using ok(3) by (auto simp: PCErrMessage_DecodeFromBytes_def NewCommonHeader_def)
qed

lemma PCErrMessage_roundtrip_witness:
  "\<exists>bs h. PCErrMessage_Serialize \<lparr>pem_Errors = [\<lparr>pe_ObjectType = 1, pe_ErrorType = 19, pe_ErrorValue = 3, pe_Tlvs = []\<rparr>],
       pem_SRPs = [\<lparr>so_ObjectType = 1, so_RFlag = False, so_SrpID = 7, so_TLVs = []\<rparr>]\<rparr> = Inr bs \<and>
    CommonHeader_DecodeFromBytes (take 4 bs) = Inr h \<and>
    ch_MessageType h = MessageTypeError \<and> unat (ch_MessageLength h) = length bs \<and>
    PCErrMessage_DecodeFromBytes PCErrMessage_zero (drop 4 bs) =
      Inr \<lparr>pem_Errors = [\<lparr>pe_ObjectType = 1, pe_ErrorType = 19, pe_ErrorValue = 3, pe_Tlvs = []\<rparr>],
       pem_SRPs = [\<lparr>so_ObjectType = 1, so_RFlag = False, so_SrpID = 7, so_TLVs = []\<rparr>]\<rparr>"
  by (rule PCErrMessage_roundtrip)
    (simp add: PCErrMessage_ok_def PCEPErrorObject_ok_def SrpObject_ok_def tlvs_size_def max_object_def
      PCEPErrorObject_Len_def SrpObject_Len_def tlvsByteLength_def)

section \<open>Open, Keepalive and Close\<close>

text \<open>
  The Open message of a session survives the wire: with capability TLVs that fit in a message,
  the bytes start with a common header of type Open announcing their length, and decoding the rest
  gives the message back: version 1, the keepalive, a dead timer of four keepalives (modulo 256),
  the session id and the capabilities.
\<close>

theorem OpenMessage_roundtrip:
  assumes "list_all tlv_ok caps" "list_all isCapability caps" "12 + tlvs_size caps < 2 ^ 16"
  shows "\<exists>m bs h. NewOpenMessage sessionID keepalive caps = Inr m \<and> OpenMessage_Serialize m = Inr bs \<and>
    CommonHeader_DecodeFromBytes (take 4 bs) = Inr h \<and> ch_MessageType h = MessageTypeOpen \<and>
    unat (ch_MessageLength h) = length bs \<and> OpenMessage_DecodeFromBytes (drop 4 bs) = Inr m \<and>
    om_OpenObject m = \<lparr>oo_ObjectType = ObjectTypeOpenOpen, oo_Version = 1, oo_Flag = 0, oo_Keepalive = keepalive,
      oo_Deadtime = keepalive * 4, oo_Sid = sessionID, oo_Caps = caps\<rparr>"
proof -
  define x where "x = \<lparr>oo_ObjectType = ObjectTypeOpenOpen, oo_Version = 1, oo_Flag = 0, oo_Keepalive = keepalive,
      oo_Deadtime = keepalive * 4, oo_Sid = sessionID, oo_Caps = caps\<rparr>"
  have sz: "8 + tlvs_size caps \<le> max_object"
  proof -
    obtain bs where "appendTLVs caps = Inr bs" "DecodeTLVs bs = Inr caps" "length bs = tlvs_size caps" "4 dvd length bs"
      using assms(1) by (rule appendTLVs_ok)
    then show ?thesis using assms(3) by (auto simp: max_object_def)
  qed
  have ok: "OpenObject_ok x" using assms sz by (simp add: OpenObject_ok_def x_def)
  obtain bs where bs: "OpenObject_Serialize x = Inr bs" using open_object.serialize_total [OF ok] by blast
  note s = open_object.serialized [OF ok bs]
  have l: "length bs = 8 + tlvs_size caps"
    unfolding s(1) by (simp add: OpenObject_Len_def x_def tlvsByteLength_eq unat_u16_id flip: of_nat_add)
      (use assms(3) in \<open>simp add: unat_word_ariths unat_of_nat\<close>)
  let ?m = "\<lparr>om_OpenObject = x\<rparr>"
  let ?h = "NewCommonHeader MessageTypeOpen (4 + OpenObject_Len x)"
  have hl: "unat (4 + OpenObject_Len x) = 4 + length bs"
    using l assms(3) s(1) by (simp add: unat_word_ariths)
  obtain body where b: "sliceE bs 4 (unat (OpenObject_Len x)) = Inr body"
      "OpenObject_DecodeFromBytes OpenObject_zero (oo_ObjectType x) body = Inr x"
    using s(8) [of "[]"] by auto
  have d: "OpenMessage_DecodeFromBytes bs = Inr ?m"
    using b s(5) [of "[]"] by (simp add: OpenMessage_DecodeFromBytes_def NewCommonObjectHeader_def x_def)
  have sr: "OpenMessage_Serialize ?m = Inr (CommonHeader_Serialize ?h @ bs)"
    by (simp add: OpenMessage_Serialize_def bs)
  show ?thesis
    using hl d NewCommonHeader_read [of MessageTypeOpen "4 + OpenObject_Len x" "[]"]
    by (intro exI [of _ ?m] exI [of _ "CommonHeader_Serialize ?h @ bs"] exI [of _ ?h])
      (simp add: sr NewOpenMessage_def NewOpenObject_def x_def [symmetric] NewCommonHeader_def)
qed

lemma OpenMessage_roundtrip_witness:
  "\<exists>m bs h. NewOpenMessage 1 30 [TLV_LSPDBVersion \<lparr>dbv_VersionNumber = 5\<rparr>] = Inr m \<and> OpenMessage_Serialize m = Inr bs \<and>
    CommonHeader_DecodeFromBytes (take 4 bs) = Inr h \<and> ch_MessageType h = MessageTypeOpen \<and>
    unat (ch_MessageLength h) = length bs \<and> OpenMessage_DecodeFromBytes (drop 4 bs) = Inr m \<and>
    om_OpenObject m = \<lparr>oo_ObjectType = ObjectTypeOpenOpen, oo_Version = 1, oo_Flag = 0, oo_Keepalive = 30,
      oo_Deadtime = 30 * 4, oo_Sid = 1, oo_Caps = [TLV_LSPDBVersion \<lparr>dbv_VersionNumber = 5\<rparr>]\<rparr>"
  by (rule OpenMessage_roundtrip) (simp_all add: tlvs_size_def LSPDBVersion_Len_def tlv_consts)

text \<open>
  The Close and Keepalive messages survive the wire: each is announced by a common header of its
  type and length, and decoding a Close message gives its reason back.
\<close>

theorem CloseMessage_roundtrip:
  "\<exists>m bs h. NewCloseMessage reason = Inr m \<and> CloseMessage_Serialize m = Inr bs \<and>
    CommonHeader_DecodeFromBytes (take 4 bs) = Inr h \<and> ch_MessageType h = MessageTypeClose \<and>
    unat (ch_MessageLength h) = length bs \<and> CloseMessage_DecodeFromBytes (drop 4 bs) = Inr m \<and>
    co_Reason (cm_CloseObject m) = reason \<and>
    (\<exists>kb kh. KeepaliveMessage_Serialize = Inr kb \<and> CommonHeader_DecodeFromBytes kb = Inr kh \<and>
      ch_MessageType kh = MessageTypeKeepalive \<and> unat (ch_MessageLength kh) = length kb)"
proof -
  define x where "x = \<lparr>co_ObjectType = ObjectTypeCloseClose, co_Reason = reason\<rparr>"
  have ok: "CloseObject_ok x" by (simp add: CloseObject_ok_def x_def)
  obtain bs where bs: "CloseObject_Serialize x = Inr bs" using close_object.serialize_total [OF ok] by blast
  note s = close_object.serialized [OF ok bs]
  have l: "CloseObject_Len x = 8" by (simp add: CloseObject_Len_def)
  let ?m = "\<lparr>cm_CloseObject = x\<rparr>"
  let ?h = "NewCommonHeader MessageTypeClose 12"
  obtain body where b: "sliceE bs 4 (unat (CloseObject_Len x)) = Inr body"
      "CloseObject_DecodeFromBytes (co_ObjectType x) body = Inr x"
    using s(8) [of "[]"] by auto
  have d: "CloseMessage_DecodeFromBytes bs = Inr ?m"
    using b s(5) [of "[]"] by (simp add: CloseMessage_DecodeFromBytes_def NewCommonObjectHeader_def)
  have sr: "CloseMessage_Serialize ?m = Inr (CommonHeader_Serialize ?h @ bs)"
    by (simp add: CloseMessage_Serialize_def bs l)
  have ka: "\<exists>kb kh. KeepaliveMessage_Serialize = Inr kb \<and> CommonHeader_DecodeFromBytes kb = Inr kh \<and>
      ch_MessageType kh = MessageTypeKeepalive \<and> unat (ch_MessageLength kh) = length kb"
    using NewCommonHeader_read [of MessageTypeKeepalive 4 "[]"]
    by (intro exI [of _ "CommonHeader_Serialize (NewCommonHeader MessageTypeKeepalive 4)"]
        exI [of _ "NewCommonHeader MessageTypeKeepalive 4"])
      (simp add: KeepaliveMessage_Serialize_def NewCommonHeader_def)
  show ?thesis
    using s(1) d ka NewCommonHeader_read [of MessageTypeClose 12 "[]"]
    by (intro exI [of _ ?m] exI [of _ "CommonHeader_Serialize ?h @ bs"] exI [of _ ?h])
      (simp add: sr l NewCloseMessage_def NewCloseObject_def x_def [symmetric] NewCommonHeader_def,
       simp add: x_def)
qed

end
