(* ===== verification/State_Reports.thy ===== *)
theory State_Reports
  imports Message_Codec
begin

text \<open>
  \<open>PCRptMessage.DecodeFromBytes\<close> of \<open>src/pkg/packet/pcep/message.go\<close>: how a message is cut into
  state reports, when the loop returns, and the inputs on which it panics or never returns.
\<close>

lemma pcrptLoop_Nil [simp]:
  "pcrptLoop (prev, sr, reports, []) = Some (Inr (case sr of Some r \<Rightarrow> reports @ [r] | None \<Rightarrow> reports))"
  by (simp add: pcrptLoop.simps)

lemma pcrptLoop_turn:
  "b \<noteq> [] \<Longrightarrow> pcrptTurn (prev, sr, reports, b) = Inr st \<Longrightarrow> pcrptLoop (prev, sr, reports, b) = pcrptLoop st"
  by (simp add: pcrptLoop.simps [of "(prev, sr, reports, b)"])

lemma pcrptLoop_fails:
  "b \<noteq> [] \<Longrightarrow> pcrptTurn (prev, sr, reports, b) = Inl e \<Longrightarrow> pcrptLoop (prev, sr, reports, b) = Some (Inl e)"
  by (simp add: pcrptLoop.simps [of "(prev, sr, reports, b)"])

section \<open>When the loop returns\<close>

text \<open>
  \<open>walkable b\<close>: the objects of \<open>b\<close> that the decoder does not know announce a length of at least
  one byte. Nothing is asked of the objects it knows, and an object longer than the message
  ends the walk.
\<close>

function walkable :: "bytes \<Rightarrow> bool" where
  "walkable b =
     (case CommonObjectHeader_DecodeFromBytes b of
        Inl _ \<Rightarrow> True
      | Inr h \<Rightarrow>
          let n = unat (coh_ObjectLength h) in
          if n = 0 then decodeFuncs (coh_ObjectClass h) \<noteq> None
          else if n > length b then True
          else walkable (drop n b))"
  by pat_completeness auto

termination
  by (relation "measure length") (auto simp: CommonObjectHeader_DecodeFromBytes_def split: if_splits)

declare walkable.simps [simp del]

lemma pcrptTurn_rest:
  assumes "pcrptTurn (prev, sr, reports, b) = Inr (prev', sr', reports', b')"
  shows "\<exists>h. CommonObjectHeader_DecodeFromBytes b = Inr h \<and> b' = drop (unat (coh_ObjectLength h)) b \<and>
    unat (coh_ObjectLength h) \<le> length b \<and> (unat (coh_ObjectLength h) = 0 \<longrightarrow> decodeFuncs (coh_ObjectClass h) = None)"
  using assms
  by (auto simp: pcrptTurn_def bindE_eq_Inr Let_def sliceE_def split: option.splits if_splits)

lemma pcrptLoop_returns:
  assumes "walkable b"
  shows "\<exists>r. pcrptLoop (prev, sr, reports, b) = Some r"
  using assms
proof (induction b arbitrary: prev sr reports rule: measure_induct_rule [of length])
  case (less b)
  show ?case
  proof (cases "b = []")
    case False
    show ?thesis
    proof (cases "pcrptTurn (prev, sr, reports, b)")
      case (Inl e)
      then show ?thesis using pcrptLoop_fails [OF False] by blast
    next
      case (Inr st)
      obtain prev' sr' reports' b' where st: "st = (prev', sr', reports', b')" by (cases st)
      from pcrptTurn_rest [OF Inr [unfolded st]]
      obtain h where h': "CommonObjectHeader_DecodeFromBytes b = Inr h \<and>
          b' = drop (unat (coh_ObjectLength h)) b \<and> unat (coh_ObjectLength h) \<le> length b \<and>
          (unat (coh_ObjectLength h) = 0 \<longrightarrow> decodeFuncs (coh_ObjectClass h) = None)"
        by (rule exE)
      note h = h' [THEN conjunct1] h' [THEN conjunct2, THEN conjunct1]
        h' [THEN conjunct2, THEN conjunct2, THEN conjunct1] h' [THEN conjunct2, THEN conjunct2, THEN conjunct2]
      have "walkable b = (if unat (coh_ObjectLength h) = 0 then decodeFuncs (coh_ObjectClass h) \<noteq> None
          else if unat (coh_ObjectLength h) > length b then True else walkable b')"
        by (subst walkable.simps) (simp only: h(1,2) sum.case Let_def)
      then have w: "unat (coh_ObjectLength h) \<noteq> 0 \<and> walkable b'"
        using less.prems h(3,4) by (auto split: if_split_asm)
      then have "length b' < length b" using h(2,3) False by auto
      then have "\<exists>r. pcrptLoop st = Some r" using less.IH w by (simp add: st)
      then show ?thesis using pcrptLoop_turn [OF False Inr] by simp
    qed
  qed simp
qed

text \<open>
  Decoding a PCRpt message returns (a value, an error or a panic) whenever the objects of
  unknown class in the message announce a positive length.
\<close>

theorem PCRptMessage_returns:
  assumes "walkable messageBody"
  shows "\<exists>r. PCRptMessage_DecodeFromBytes m messageBody = Some r"
  using pcrptLoop_returns [OF assms] by (fastforce simp: PCRptMessage_DecodeFromBytes_def)

lemma PCRptMessage_returns_witness:
  "\<exists>r. PCRptMessage_DecodeFromBytes NewPCRptMessage [0x63, 0x10, 0, 8, 1, 2, 3, 4, 0x63, 0x10, 0, 4] = Some r"
  by (rule PCRptMessage_returns)
    (simp add: walkable.simps CommonObjectHeader_DecodeFromBytes_def sliceE_def beUint16_def decodeFuncs_def Let_def)

lemma pcrptLoop_stalls:
  assumes "CommonObjectHeader_DecodeFromBytes b = Inr h" "coh_ObjectLength h = 0" "decodeFuncs (coh_ObjectClass h) = None"
  shows "pcrptLoop (prev, sr, reports, b) = None"
proof (rule ccontr)
  have b: "b \<noteq> []" using assms(1) by (auto simp: CommonObjectHeader_DecodeFromBytes_def)
  have t: "pcrptTurn (prev, sr, reports, b) = Inr (prev, sr, reports, b)"
    using assms by (simp add: pcrptTurn_def sliceE_def)
  assume "pcrptLoop (prev, sr, reports, b) \<noteq> None"
  then obtain r where "pcrptLoop (prev, sr, reports, b) = Some r" by blast
  then have "(prev, sr, reports, b) \<noteq> (prev, sr, reports, b)"
  proof (rule pcrptLoop.raw_induct [where P = "\<lambda>st _. st \<noteq> (prev, sr, reports, b)", rotated])
    fix f :: "pcrptState \<Rightarrow> StateReport list result option" and st r
    assume IH: "\<And>st r. f st = Some r \<Longrightarrow> st \<noteq> (prev, sr, reports, b)"
      and F: "(case st of (previousObjectClass, sr, reports, messageBody) \<Rightarrow>
        if messageBody = [] then Some (Inr (case sr of None \<Rightarrow> reports | Some r \<Rightarrow> reports @ [r]))
        else case pcrptTurn st of Inl e \<Rightarrow> Some (Inl e) | Inr x \<Rightarrow> f x) = Some r"
    show "st \<noteq> (prev, sr, reports, b)"
    proof
      assume "st = (prev, sr, reports, b)"
      with F b t have "f (prev, sr, reports, b) = Some r" by simp
      then show False using IH by blast
    qed
  qed
  then show False by simp
qed

lemma unat_u8_u16: "unat (ucast (l :: u8) :: u16) = unat l"
  using unat_u8_less [of l] by (simp add: unsigned_ucast_eq take_bit_nat_eq_self)

lemma be16_0: "be16 0 = [0, 0]"
  by (simp add: be16_def numeral_2_eq_2)

text \<open>
  C38: A PCRpt message that starts with an object of unknown class announcing length 0 is never
  decoded: the loop skips zero bytes forever. Four bytes from the peer are enough.
\<close>

theorem PCRptMessage_zero_length_hangs:
  assumes "decodeFuncs cls = None"
  shows "PCRptMessage_DecodeFromBytes m ([cls, flags, 0, 0] @ rest) = None"
  using assms CommonObjectHeader_decode_bytes [of cls flags 0 rest]
  by (simp add: PCRptMessage_DecodeFromBytes_def pcrptLoop_stalls be16_0)

lemma PCRptMessage_zero_length_hangs_witness:
  "PCRptMessage_DecodeFromBytes NewPCRptMessage ([0x63, 0x10, 0, 0] @ []) = None"
  by (rule PCRptMessage_zero_length_hangs) (simp add: decodeFuncs_def)

section \<open>Cutting a message into reports\<close>

context object_codec
begin

lemma pcrpt_step:
  assumes "ok x" "serialize x = Inr bs" "decodeFuncs cls = Some f"
    and dec: "\<And>body. f sr' (otype x) body rest = bindE (decode (otype x) body) k" "k x = Inr sr''"
    and start: "(if startsReport prev cls
        then (Some NewStateReport, case sr of Some r \<Rightarrow> reports @ [r] | None \<Rightarrow> reports)
        else (sr, reports)) = (sr', reports')"
  shows "pcrptLoop (prev, sr, reports, bs @ rest) = pcrptLoop (cls, sr'', reports', rest)"
proof (rule pcrptLoop_turn)
  note s = serialized [OF assms(1,2)]
  show "bs @ rest \<noteq> []" using s(2) by auto
  obtain body where b: "sliceE (bs @ rest) 4 (unat (len x)) = Inr body" "decode (otype x) body = Inr x"
    using s(8) by blast
  have e: "sliceE (bs @ rest) (unat (len x)) (length (bs @ rest)) = Inr rest"
    using s(1) by (simp add: sliceE_def)
  have d: "drop (unat (len x)) (bs @ rest) = rest" by (rule s(7))
  have h: "coh_ObjectClass (NewCommonObjectHeader cls (otype x) (len x)) = cls"
    "coh_ObjectType (NewCommonObjectHeader cls (otype x) (len x)) = otype x"
    "coh_ObjectLength (NewCommonObjectHeader cls (otype x) (len x)) = len x"
    by (simp_all add: NewCommonObjectHeader_def)
  show "pcrptTurn (prev, sr, reports, bs @ rest) = Inr (cls, sr'', reports', rest)"
    unfolding pcrptTurn_def prod.case s(5) bindE_simps(1) h Let_def assms(3) option.case(2) start b(1) e d
      dec(1) b(2) dec(2) ..
qed

end

text \<open>
  A state report as a PCC sends it: an SRP object unless it is absent, the LSP object, and the
  objects that are present, each readable. Metric and bandwidth objects are left out: the first are
  not written in the form they are read in, the second are never written.
\<close>

definition report_ok :: "StateReport \<Rightarrow> bool" where
  "report_ok r \<longleftrightarrow>
     (sr_SrpObject r = SrpObject_zero \<or> SrpObject_ok (sr_SrpObject r)) \<and>
     LSPObject_ok (sr_LSPObject r) \<and>
     (sr_EroObject r = EroObject_zero \<or> EroObject_ok (sr_EroObject r)) \<and>
     (sr_LSPAObject r = LSPAObject_zero \<or> LSPAObject_ok (sr_LSPAObject r)) \<and>
     sr_MetricObjects r = [] \<and> sr_BandwidthObjects r = [] \<and>
     (sr_AssociationObject r = AssociationObject_zero \<or> AssociationObject_ok (sr_AssociationObject r)) \<and>
     (sr_VendorInformationObject r = VendorInformationObject_zero \<or>
      VendorInformationObject_ok (sr_VendorInformationObject r))"

definition present :: "('a \<Rightarrow> bytes result) \<Rightarrow> 'a \<Rightarrow> 'a \<Rightarrow> bytes result" where
  "present ser zero x = (if x = zero then Inr [] else ser x)"

definition encodeReport :: "StateReport \<Rightarrow> bytes result" where
  "encodeReport r =
     bindE (present SrpObject_Serialize SrpObject_zero (sr_SrpObject r)) (\<lambda>srp.
     bindE (LSPObject_Serialize (sr_LSPObject r)) (\<lambda>lsp.
     bindE (present EroObject_Serialize EroObject_zero (sr_EroObject r)) (\<lambda>ero.
     bindE (present LSPAObject_Serialize LSPAObject_zero (sr_LSPAObject r)) (\<lambda>lspa.
     bindE (present AssociationObject_Serialize AssociationObject_zero (sr_AssociationObject r)) (\<lambda>assoc.
     bindE (present VendorInformationObject_Serialize VendorInformationObject_zero
       (sr_VendorInformationObject r)) (\<lambda>vendor.
     Inr (srp @ lsp @ ero @ lspa @ assoc @ vendor)))))))"

lemma encodeReport_total: "report_ok r \<Longrightarrow> \<exists>bs. encodeReport r = Inr bs"
proof -
  assume ok: "report_ok r"
  have "\<exists>bs. present SrpObject_Serialize SrpObject_zero (sr_SrpObject r) = Inr bs"
    "\<exists>bs. LSPObject_Serialize (sr_LSPObject r) = Inr bs"
    "\<exists>bs. present EroObject_Serialize EroObject_zero (sr_EroObject r) = Inr bs"
    "\<exists>bs. present LSPAObject_Serialize LSPAObject_zero (sr_LSPAObject r) = Inr bs"
    "\<exists>bs. present AssociationObject_Serialize AssociationObject_zero (sr_AssociationObject r) = Inr bs"
    "\<exists>bs. present VendorInformationObject_Serialize VendorInformationObject_zero
       (sr_VendorInformationObject r) = Inr bs"
    using ok srp_object.serialize_total [of "sr_SrpObject r"] lsp_object.serialize_total [of "sr_LSPObject r"]
      ero_object.serialize_total [of "sr_EroObject r"] lspa_object.serialize_total [of "sr_LSPAObject r"]
      association_object.serialize_total [of "sr_AssociationObject r"]
      vendor_object.serialize_total [of "sr_VendorInformationObject r"]
    by (auto simp: report_ok_def present_def)
  then show ?thesis by (auto simp: encodeReport_def)
qed

lemma decodeFuncs_simps [simp]:
  "decodeFuncs ObjectClassERO = Some decodeEroObject" "decodeFuncs ObjectClassLSPA = Some decodeLSPAObject"
  "decodeFuncs ObjectClassLSP = Some decodeLSPObject" "decodeFuncs ObjectClassSRP = Some decodeSrpObject"
  "decodeFuncs ObjectClassAssociation = Some decodeAssociationObject"
  "decodeFuncs ObjectClassVendorInformation = Some decodeVendorInformationObject"
  "decodeFuncs ObjectClassMetric = Some decodeMetricObject" "decodeFuncs ObjectClassBandwidth = Some decodeBandwidthObject"
  by (simp_all add: decodeFuncs_def)

text \<open>METRIC and BANDWIDTH objects in the form in which the decoder reads them.\<close>

definition metricWire :: "MetricObject \<Rightarrow> bytes result" where
  "metricWire m = Inr (object_frame ObjectClassMetric (mo_ObjectType m)
     ([0, 0, (if mo_CFlag m then 2 else 0) + (if mo_BFlag m then 1 else 0), mo_MetricType m] @ be32 (mo_MetricValue m)))"

definition bandwidthWire :: "BandwidthObject \<Rightarrow> bytes result" where
  "bandwidthWire b = Inr (object_frame ObjectClassBandwidth (bw_ObjectType b) (be32 (bw_Bandwidth b)))"

interpretation metric_object: object_codec "\<lambda>t body. MetricObject_DecodeFromBytes t body beyond"
  metricWire ObjectClassMetric mo_ObjectType "\<lambda>_. 12" "\<lambda>m. mo_ObjectType m < 16" for beyond
proof
  fix x :: MetricObject assume "mo_ObjectType x < 16"
  then show "mo_ObjectType x < 16" .
  let ?body = "[0, 0, (if mo_CFlag x then 2 else 0) + (if mo_BFlag x then 1 else 0), mo_MetricType x] @ be32 (mo_MetricValue x)"
  show "\<exists>body. 4 + length body \<le> max_object \<and> 4 dvd length body \<and>
        metricWire x = Inr (object_frame ObjectClassMetric (mo_ObjectType x) body) \<and>
        unat (12 :: u16) = 4 + length body \<and> MetricObject_DecodeFromBytes (mo_ObjectType x) body beyond = Inr x"
    by (intro exI [of _ ?body]; cases "mo_CFlag x"; cases "mo_BFlag x"; cases x)
      (simp_all add: metricWire_def MetricObject_DecodeFromBytes_def sliceCapE_def sliceE_def max_object_def)
qed

interpretation bandwidth_object: object_codec BandwidthObject_DecodeFromBytes
  bandwidthWire ObjectClassBandwidth bw_ObjectType "\<lambda>_. 8" "\<lambda>b. bw_ObjectType b < 16"
proof
  fix x :: BandwidthObject assume "bw_ObjectType x < 16"
  then show "bw_ObjectType x < 16" .
  show "\<exists>body. 4 + length body \<le> max_object \<and> 4 dvd length body \<and>
        bandwidthWire x = Inr (object_frame ObjectClassBandwidth (bw_ObjectType x) body) \<and>
        unat (8 :: u16) = 4 + length body \<and> BandwidthObject_DecodeFromBytes (bw_ObjectType x) body = Inr x"
    by (intro exI [of _ "be32 (bw_Bandwidth x)"])
      (simp add: bandwidthWire_def BandwidthObject_DecodeFromBytes_def max_object_def)
qed

text \<open>The objects that may follow the LSP object of a report, in any order. An unknown one has a class, a type and a body.\<close>

datatype wireObject =
    WEro EroObject
  | WLspa LSPAObject
  | WMetric MetricObject
  | WBandwidth BandwidthObject
  | WAssociation AssociationObject
  | WVendor VendorInformationObject
  | WUnknown u8 u8 bytes

fun wireObject_ok :: "wireObject \<Rightarrow> bool" where
  "wireObject_ok (WEro x) = EroObject_ok x"
| "wireObject_ok (WLspa x) = LSPAObject_ok x"
| "wireObject_ok (WMetric x) = (mo_ObjectType x < 16)"
| "wireObject_ok (WBandwidth x) = (bw_ObjectType x < 16)"
| "wireObject_ok (WAssociation x) = AssociationObject_ok x"
| "wireObject_ok (WVendor x) = VendorInformationObject_ok x"
| "wireObject_ok (WUnknown cls t body) = (decodeFuncs cls = None \<and> t < 16 \<and> 4 + length body \<le> max_object)"

fun encodeObject :: "wireObject \<Rightarrow> bytes result" where
  "encodeObject (WEro x) = EroObject_Serialize x"
| "encodeObject (WLspa x) = LSPAObject_Serialize x"
| "encodeObject (WMetric x) = metricWire x"
| "encodeObject (WBandwidth x) = bandwidthWire x"
| "encodeObject (WAssociation x) = AssociationObject_Serialize x"
| "encodeObject (WVendor x) = VendorInformationObject_Serialize x"
| "encodeObject (WUnknown cls t body) = Inr (object_frame cls t body)"

text \<open>Where an object belongs in the report: metrics and bandwidths are lists, unknown objects are left out.\<close>

fun addObject :: "wireObject \<Rightarrow> StateReport \<Rightarrow> StateReport" where
  "addObject (WEro x) r = r\<lparr>sr_EroObject := x\<rparr>"
| "addObject (WLspa x) r = r\<lparr>sr_LSPAObject := x\<rparr>"
| "addObject (WMetric x) r = r\<lparr>sr_MetricObjects := sr_MetricObjects r @ [x]\<rparr>"
| "addObject (WBandwidth x) r = r\<lparr>sr_BandwidthObjects := sr_BandwidthObjects r @ [x]\<rparr>"
| "addObject (WAssociation x) r = r\<lparr>sr_AssociationObject := x\<rparr>"
| "addObject (WVendor x) r = r\<lparr>sr_VendorInformationObject := x\<rparr>"
| "addObject (WUnknown cls t body) r = r"

text \<open>The class of an object that a report holds once; a second one is decoded into the first.\<close>

fun onceClass :: "wireObject \<Rightarrow> u8 option" where
  "onceClass (WEro x) = Some ObjectClassERO"
| "onceClass (WLspa x) = Some ObjectClassLSPA"
| "onceClass (WAssociation x) = Some ObjectClassAssociation"
| "onceClass (WVendor x) = Some ObjectClassVendorInformation"
| "onceClass _ = None"

fun vacant :: "wireObject \<Rightarrow> StateReport \<Rightarrow> bool" where
  "vacant (WEro x) r = (sr_EroObject r = EroObject_zero)"
| "vacant (WLspa x) r = (sr_LSPAObject r = LSPAObject_zero)"
| "vacant (WAssociation x) r = (sr_AssociationObject r = AssociationObject_zero)"
| "vacant (WVendor x) r = (sr_VendorInformationObject r = VendorInformationObject_zero)"
| "vacant _ r = True"

lemma pcrpt_skip:
  assumes "decodeFuncs cls = None" "t < 16" "4 + length body \<le> max_object"
  shows "pcrptLoop (prev, sr, reports, object_frame cls t body @ rest) = pcrptLoop (prev, sr, reports, rest)"
proof (rule pcrptLoop_turn)
  show "object_frame cls t body @ rest \<noteq> []" by (metis add_is_0 append_is_Nil_conv length_object_frame list.size(3) zero_neq_numeral)
  have e: "sliceE (object_frame cls t body @ rest) (4 + length body) (length (object_frame cls t body @ rest)) = Inr rest"
    using object_frame_body(3) [OF assms(3), of cls t rest] by (simp add: sliceE_def)
  note h = object_frame_header [OF assms(2), of cls body rest]
  have n: "unat (coh_ObjectLength (NewCommonObjectHeader cls t (word_of_nat (4 + length body)))) = 4 + length body"
    "coh_ObjectClass (NewCommonObjectHeader cls t (word_of_nat (4 + length body))) = cls"
    using object_frame_body(1) [OF assms(3)] by (simp_all add: NewCommonObjectHeader_def)
  show "pcrptTurn (prev, sr, reports, object_frame cls t body @ rest) = Inr (prev, sr, reports, rest)"
    unfolding pcrptTurn_def prod.case h bindE_simps(1) n Let_def assms(1) option.case(1) e ..
qed

context object_codec
begin

lemma object_step:
  assumes "ok x" "serialize x = Inr bs" "decodeFuncs cls = Some f" "cls \<noteq> ObjectClassLSP" "cls \<noteq> ObjectClassSRP"
    and "\<And>body. f (Some r) (otype x) body rest = bindE (decode (otype x) body) (\<lambda>obj. Inr (Some (upd obj)))"
  shows "pcrptLoop (prev, Some r, reports, bs @ rest) = pcrptLoop (cls, Some (upd x), reports, rest)"
  by (rule pcrpt_step [OF assms(1-3,6)]) (use assms(4,5) in \<open>simp_all add: startsReport_def\<close>)

end

lemma wireObject_step:
  assumes "wireObject_ok x" "encodeObject x = Inr bs" "vacant x r" "prev \<noteq> ObjectClassSRP"
  shows "\<exists>prev'. prev' \<noteq> ObjectClassSRP \<and>
    pcrptLoop (prev, Some r, reports, bs @ rest) = pcrptLoop (prev', Some (addObject x r), reports, rest)"
proof (cases x)
  case (WEro y)
  then show ?thesis using assms
    by (intro exI [of _ ObjectClassERO] conjI ero_object.object_step [where f = decodeEroObject, THEN trans])
      (simp_all add: decodeEroObject_def)
next
  case (WLspa y)
  then show ?thesis using assms
    by (intro exI [of _ ObjectClassLSPA] conjI lspa_object.object_step [where f = decodeLSPAObject and beyond = rest, THEN trans])
      (simp_all add: decodeLSPAObject_def)
next
  case (WMetric y)
  then show ?thesis using assms
    by (intro exI [of _ ObjectClassMetric] conjI metric_object.object_step [where f = decodeMetricObject and beyond = rest, THEN trans])
      (simp_all add: decodeMetricObject_def)
next
  case (WBandwidth y)
  then show ?thesis using assms
    by (intro exI [of _ ObjectClassBandwidth] conjI bandwidth_object.object_step [where f = decodeBandwidthObject, THEN trans])
      (simp_all add: decodeBandwidthObject_def)
next
  case (WAssociation y)
  then show ?thesis using assms
    by (intro exI [of _ ObjectClassAssociation] conjI association_object.object_step [where f = decodeAssociationObject and beyond = rest, THEN trans])
      (simp_all add: decodeAssociationObject_def)
next
  case (WVendor y)
  then show ?thesis using assms
    by (intro exI [of _ ObjectClassVendorInformation] conjI vendor_object.object_step [where f = decodeVendorInformationObject, THEN trans])
      (simp_all add: decodeVendorInformationObject_def)
next
  case (WUnknown cls t body)
  then show ?thesis using assms pcrpt_skip by auto
qed

lemma vacant_add: "vacant x r \<Longrightarrow> onceClass x = None \<or> onceClass x \<noteq> onceClass y \<Longrightarrow> vacant x (addObject y r)"
  by (cases x; cases y) auto

lemma wireObjects_loop:
  assumes "list_all wireObject_ok xs" "distinct (List.map_filter onceClass xs)" "list_all (\<lambda>x. vacant x r) xs"
    and "mapE encodeObject xs = Inr bss" "prev \<noteq> ObjectClassSRP"
  shows "\<exists>prev'. prev' \<noteq> ObjectClassSRP \<and>
    pcrptLoop (prev, Some r, reports, concat bss @ rest) = pcrptLoop (prev', Some (fold addObject xs r), reports, rest)"
  using assms
proof (induction xs arbitrary: r bss prev)
  case (Cons x xs)
  obtain bs bss' where b: "encodeObject x = Inr bs" "mapE encodeObject xs = Inr bss'" "bss = bs # bss'"
    using Cons.prems(4) by (auto simp: bindE_eq_Inr)
  have ok: "wireObject_ok x" "vacant x r" "list_all wireObject_ok xs" "list_all (\<lambda>x. vacant x r) xs" using Cons.prems by simp_all
  have d: "distinct (List.map_filter onceClass xs)" "\<And>y. y \<in> set xs \<Longrightarrow> onceClass y = None \<or> onceClass y \<noteq> onceClass x"
    using Cons.prems(2) by (auto simp: List.map_filter_def split: option.splits if_splits) (force simp: image_iff)
  have v: "list_all (\<lambda>y. vacant y (addObject x r)) xs"
    using ok(4) d(2) by (auto simp: list_all_iff intro: vacant_add)
  obtain p where p: "p \<noteq> ObjectClassSRP"
      "pcrptLoop (prev, Some r, reports, bs @ concat bss' @ rest) = pcrptLoop (p, Some (addObject x r), reports, concat bss' @ rest)"
    using wireObject_step [OF ok(1) b(1) ok(2) Cons.prems(5), of reports "concat bss' @ rest"] by blast
  show ?case using Cons.IH [OF ok(3) d(1) v b(2) p(1)] p(2) by (simp add: b(3))
qed auto

text \<open>The SRP object, if any, and the LSP object open the report; the others follow.\<close>

definition head_report :: "SrpObject \<Rightarrow> LSPObject \<Rightarrow> StateReport" where
  "head_report srp lsp = NewStateReport\<lparr>sr_SrpObject := srp, sr_LSPObject := lsp\<rparr>"

definition close_report :: "StateReport option \<Rightarrow> StateReport list \<Rightarrow> StateReport list" where
  "close_report sr reports = (case sr of Some r \<Rightarrow> reports @ [r] | None \<Rightarrow> reports)"

abbreviation srpOf :: "SrpObject option \<Rightarrow> SrpObject" where
  "srpOf srp \<equiv> (case srp of None \<Rightarrow> SrpObject_zero | Some s \<Rightarrow> s)"

lemma wire_head_step:
  assumes "\<forall>s. srp = Some s \<longrightarrow> SrpObject_ok s" "LSPObject_ok lsp" "prev \<noteq> ObjectClassSRP"
    and "optE SrpObject_Serialize [] srp = Inr b0" "LSPObject_Serialize lsp = Inr b1"
  shows "pcrptLoop (prev, sr, reports, b0 @ b1 @ objs) =
    pcrptLoop (ObjectClassLSP, Some (head_report (srpOf srp) lsp), close_report sr reports, objs)"
proof (cases srp)
  case None
  then have "b0 = []" using assms(4) by simp
  have "pcrptLoop (prev, sr, reports, b1 @ objs) =
      pcrptLoop (ObjectClassLSP, Some (head_report (srpOf srp) lsp), close_report sr reports, objs)"
    by (rule lsp_object.pcrpt_step [OF assms(2,5), where f = decodeLSPObject and sr' = "Some NewStateReport" and
          k = "\<lambda>obj. Inr (Some (NewStateReport\<lparr>sr_LSPObject := obj\<rparr>))" and beyond = objs])
      (use assms(3) None in \<open>simp_all add: decodeLSPObject_def startsReport_def head_report_def close_report_def
        NewStateReport_def\<close>)
  with \<open>b0 = []\<close> show ?thesis by simp
next
  case (Some s)
  then have s: "SrpObject_ok s" "SrpObject_Serialize s = Inr b0" using assms(1,4) by simp_all
  let ?r0 = "NewStateReport\<lparr>sr_SrpObject := s\<rparr>"
  have "pcrptLoop (prev, sr, reports, b0 @ b1 @ objs) =
      pcrptLoop (ObjectClassSRP, Some ?r0, close_report sr reports, b1 @ objs)"
    by (rule srp_object.pcrpt_step [OF s, where f = decodeSrpObject and sr' = "Some NewStateReport" and
          k = "\<lambda>obj. Inr (Some (NewStateReport\<lparr>sr_SrpObject := obj\<rparr>))"])
      (simp_all add: decodeSrpObject_def startsReport_def close_report_def)
  also have "\<dots> = pcrptLoop (ObjectClassLSP, Some (head_report (srpOf srp) lsp), close_report sr reports, objs)"
    by (rule lsp_object.pcrpt_step [OF assms(2,5), where f = decodeLSPObject and sr' = "Some ?r0" and
          k = "\<lambda>obj. Inr (Some (?r0\<lparr>sr_LSPObject := obj\<rparr>))" and beyond = objs])
      (simp_all add: Some decodeLSPObject_def startsReport_def head_report_def NewStateReport_def)
  finally show ?thesis .
qed

lemma report_head_step:
  assumes "srp = SrpObject_zero \<or> SrpObject_ok srp" "LSPObject_ok lsp" "prev \<noteq> ObjectClassSRP"
    and "present SrpObject_Serialize SrpObject_zero srp = Inr b0" "LSPObject_Serialize lsp = Inr b1"
  shows "pcrptLoop (prev, sr, reports, b0 @ b1 @ objs) =
    pcrptLoop (ObjectClassLSP, Some (head_report srp lsp), close_report sr reports, objs)"
  using wire_head_step [of "if srp = SrpObject_zero then None else Some srp", OF _ assms(2,3) _ assms(5)] assms(1,4)
  by (cases "srp = SrpObject_zero") (auto simp: present_def)

text \<open>The objects of a report that is written as a PCC sends it: those that are not zero, one after the other.\<close>

definition objectsOf :: "StateReport \<Rightarrow> wireObject list" where
  "objectsOf r = (if sr_EroObject r = EroObject_zero then [] else [WEro (sr_EroObject r)]) @
     (if sr_LSPAObject r = LSPAObject_zero then [] else [WLspa (sr_LSPAObject r)]) @
     (if sr_AssociationObject r = AssociationObject_zero then [] else [WAssociation (sr_AssociationObject r)]) @
     (if sr_VendorInformationObject r = VendorInformationObject_zero then [] else [WVendor (sr_VendorInformationObject r)])"

lemma report_tail_step:
  assumes ok: "report_ok r" and b: "present EroObject_Serialize EroObject_zero (sr_EroObject r) = Inr b2"
    "present LSPAObject_Serialize LSPAObject_zero (sr_LSPAObject r) = Inr b3"
    "present AssociationObject_Serialize AssociationObject_zero (sr_AssociationObject r) = Inr b4"
    "present VendorInformationObject_Serialize VendorInformationObject_zero (sr_VendorInformationObject r) = Inr b5"
  shows "\<exists>prev'. prev' \<noteq> ObjectClassSRP \<and>
    pcrptLoop (ObjectClassLSP, Some (head_report (sr_SrpObject r) (sr_LSPObject r)), reports, b2 @ b3 @ b4 @ b5 @ rest) =
    pcrptLoop (prev', Some r, reports, rest)"
proof -
  let ?h = "head_report (sr_SrpObject r) (sr_LSPObject r)"
  have "list_all wireObject_ok (objectsOf r)" using ok by (auto simp: objectsOf_def report_ok_def)
  moreover have "distinct (List.map_filter onceClass (objectsOf r))" by (simp add: objectsOf_def List.map_filter_def)
  moreover have "list_all (\<lambda>x. vacant x ?h) (objectsOf r)" by (simp add: objectsOf_def head_report_def NewStateReport_def)
  moreover obtain bss where bss: "mapE encodeObject (objectsOf r) = Inr bss" "concat bss = b2 @ b3 @ b4 @ b5"
    using b by (fastforce simp: objectsOf_def present_def split: if_splits)
  moreover have "fold addObject (objectsOf r) ?h = r"
    using ok by (cases r) (simp add: objectsOf_def head_report_def NewStateReport_def report_ok_def)
  ultimately show ?thesis using wireObjects_loop [of "objectsOf r" ?h bss ObjectClassLSP reports rest] by simp
qed

lemma report_step:
  assumes ok: "report_ok r" and enc: "encodeReport r = Inr bs" and prev: "prev \<noteq> ObjectClassSRP"
  shows "\<exists>prev'. prev' \<noteq> ObjectClassSRP \<and> pcrptLoop (prev, sr, reports, bs @ rest) =
    pcrptLoop (prev', Some r, close_report sr reports, rest)"
proof -
  obtain b0 b1 b2 b3 b4 b5 where b: "present SrpObject_Serialize SrpObject_zero (sr_SrpObject r) = Inr b0"
    "LSPObject_Serialize (sr_LSPObject r) = Inr b1"
    "present EroObject_Serialize EroObject_zero (sr_EroObject r) = Inr b2"
    "present LSPAObject_Serialize LSPAObject_zero (sr_LSPAObject r) = Inr b3"
    "present AssociationObject_Serialize AssociationObject_zero (sr_AssociationObject r) = Inr b4"
    "present VendorInformationObject_Serialize VendorInformationObject_zero (sr_VendorInformationObject r) = Inr b5"
    "bs = b0 @ b1 @ b2 @ b3 @ b4 @ b5"
    using enc by (auto simp: encodeReport_def bindE_eq_Inr)
  have h: "sr_SrpObject r = SrpObject_zero \<or> SrpObject_ok (sr_SrpObject r)" "LSPObject_ok (sr_LSPObject r)"
    using ok by (simp_all add: report_ok_def)
  show ?thesis
    using report_head_step [OF h prev b(1,2), of sr reports "b2 @ b3 @ b4 @ b5 @ rest"]
      report_tail_step [OF ok b(3-6), of "close_report sr reports" rest]
    by (simp add: b(7))
qed

lemma reports_loop:
  assumes "list_all report_ok rs" "mapE encodeReport rs = Inr bss" "prev \<noteq> ObjectClassSRP"
  shows "pcrptLoop (prev, sr, reports, concat bss) =
    Some (Inr (close_report sr reports @ rs))"
  using assms
proof (induction rs arbitrary: bss prev sr reports)
  case (Cons r rs)
  then obtain bs bss' where b: "encodeReport r = Inr bs" "mapE encodeReport rs = Inr bss'" "bss = bs # bss'"
    by (auto simp: bindE_eq_Inr)
  have r: "report_ok r" using Cons.prems(1) by simp
  obtain prev' where p: "prev' \<noteq> ObjectClassSRP" "pcrptLoop (prev, sr, reports, bs @ concat bss') =
      pcrptLoop (prev', Some r, close_report sr reports, concat bss')"
    using report_step [OF r b(1) Cons.prems(3), of sr reports "concat bss'"] by blast
  show ?case
    using Cons.IH [OF _ b(2) p(1)] Cons.prems(1) p(2) by (simp add: b(3) close_report_def)
qed (simp add: close_report_def)

section \<open>Messages in general\<close>

text \<open>
  A report as it may arrive: an SRP object or none, the LSP object, and any objects after it in any order,
  unknown ones among them.
\<close>

record wireReport =
  wr_Srp :: "SrpObject option"
  wr_Lsp :: LSPObject
  wr_Objects :: "wireObject list"

definition wireReport_ok :: "wireReport \<Rightarrow> bool" where
  "wireReport_ok w \<longleftrightarrow> (\<forall>s. wr_Srp w = Some s \<longrightarrow> SrpObject_ok s) \<and> LSPObject_ok (wr_Lsp w) \<and>
     list_all wireObject_ok (wr_Objects w) \<and> distinct (List.map_filter onceClass (wr_Objects w))"

definition encodeWire :: "wireReport \<Rightarrow> bytes result" where
  "encodeWire w =
     bindE (optE SrpObject_Serialize [] (wr_Srp w)) (\<lambda>srp.
     bindE (LSPObject_Serialize (wr_Lsp w)) (\<lambda>lsp.
     bindE (mapE encodeObject (wr_Objects w)) (\<lambda>objects.
     Inr (srp @ lsp @ concat objects))))"

definition reportOf :: "wireReport \<Rightarrow> StateReport" where
  "reportOf w = fold addObject (wr_Objects w) (head_report (srpOf (wr_Srp w)) (wr_Lsp w))"

lemma mapE_total: "list_all (\<lambda>x. \<exists>y. f x = Inr y) xs \<Longrightarrow> \<exists>ys. mapE f xs = Inr ys"
  by (induction xs) auto

lemma encodeObject_total: "wireObject_ok x \<Longrightarrow> \<exists>bs. encodeObject x = Inr bs"
  using ero_object.serialize_total lspa_object.serialize_total association_object.serialize_total vendor_object.serialize_total
  by (cases x) (auto simp: metricWire_def bandwidthWire_def)

lemma encodeWire_total:
  assumes "wireReport_ok w"
  shows "\<exists>bs. encodeWire w = Inr bs"
proof -
  have "\<exists>b. optE SrpObject_Serialize [] (wr_Srp w) = Inr b"
    using assms srp_object.serialize_total by (cases "wr_Srp w") (auto simp: wireReport_ok_def)
  moreover have "\<exists>b. LSPObject_Serialize (wr_Lsp w) = Inr b"
    using assms lsp_object.serialize_total by (auto simp: wireReport_ok_def)
  moreover have "\<exists>bs. mapE encodeObject (wr_Objects w) = Inr bs"
    using assms encodeObject_total by (intro mapE_total) (auto simp: wireReport_ok_def list_all_iff)
  ultimately show ?thesis by (auto simp: encodeWire_def)
qed

lemma wires_total: "list_all wireReport_ok ws \<Longrightarrow> \<exists>bss. mapE encodeWire ws = Inr bss"
  using encodeWire_total by (intro mapE_total) (simp add: list_all_iff)

lemma wires_loop:
  assumes "list_all wireReport_ok ws" "mapE encodeWire ws = Inr bss" "prev \<noteq> ObjectClassSRP"
  shows "\<exists>prev' sr' reports'. close_report sr' reports' = close_report sr reports @ map reportOf ws \<and>
    pcrptLoop (prev, sr, reports, concat bss @ rest) = pcrptLoop (prev', sr', reports', rest)"
  using assms
proof (induction ws arbitrary: bss prev sr reports)
  case (Cons w ws)
  obtain bs bss' where b: "encodeWire w = Inr bs" "mapE encodeWire ws = Inr bss'" "bss = bs # bss'"
    using Cons.prems(2) by (auto simp: bindE_eq_Inr)
  obtain b0 b1 obs where e: "optE SrpObject_Serialize [] (wr_Srp w) = Inr b0" "LSPObject_Serialize (wr_Lsp w) = Inr b1"
      "mapE encodeObject (wr_Objects w) = Inr obs" "bs = b0 @ b1 @ concat obs"
    using b(1) by (auto simp: encodeWire_def bindE_eq_Inr)
  let ?h = "head_report (srpOf (wr_Srp w)) (wr_Lsp w)"
  have "wireReport_ok w" and oks: "list_all wireReport_ok ws" using Cons.prems(1) by simp_all
  then have ok: "\<forall>s. wr_Srp w = Some s \<longrightarrow> SrpObject_ok s" "LSPObject_ok (wr_Lsp w)" "list_all wireObject_ok (wr_Objects w)"
    "distinct (List.map_filter onceClass (wr_Objects w))"
    by (simp_all add: wireReport_ok_def)
  have "vacant x ?h" for x by (cases x) (simp_all add: head_report_def NewStateReport_def)
  then have v: "list_all (\<lambda>x. vacant x ?h) (wr_Objects w)" by (simp add: list_all_iff)
  obtain p where p: "p \<noteq> ObjectClassSRP" "pcrptLoop (prev, sr, reports, bs @ concat bss' @ rest) =
      pcrptLoop (p, Some (reportOf w), close_report sr reports, concat bss' @ rest)"
    using wire_head_step [OF ok(1,2) Cons.prems(3) e(1,2), of sr reports "concat obs @ concat bss' @ rest"]
      wireObjects_loop [OF ok(3,4) v e(3), of ObjectClassLSP "close_report sr reports" "concat bss' @ rest"]
    by (auto simp: reportOf_def e(4))
  from Cons.IH [OF oks b(2) p(1), of "Some (reportOf w)" "close_report sr reports"] obtain prev' sr' reports' where
      "close_report sr' reports' = close_report sr reports @ map reportOf (w # ws)"
      "pcrptLoop (p, Some (reportOf w), close_report sr reports, concat bss' @ rest) = pcrptLoop (prev', sr', reports', rest)"
    by (auto simp: close_report_def)
  with p(2) show ?case by (metis b(3) append_assoc concat.simps(2))
qed auto

lemma wires_decoded:
  assumes "list_all wireReport_ok ws" "mapE encodeWire ws = Inr bss"
  shows "PCRptMessage_DecodeFromBytes NewPCRptMessage (concat bss) = Some (Inr \<lparr>prm_StateReports = map reportOf ws\<rparr>)"
proof -
  obtain p sr reports where "close_report sr reports = map reportOf ws"
      "pcrptLoop (0, None, [], concat bss @ []) = pcrptLoop (p, sr, reports, [])"
    using wires_loop [OF assms, of 0 None "[]" "[]"] by (auto simp: close_report_def)
  then show ?thesis by (simp add: PCRptMessage_DecodeFromBytes_def NewPCRptMessage_def flip: close_report_def)
qed

text \<open>
  C28: A PCRpt message made of any number of state reports, each an LSP object with or without an SRP object
  before it and followed by any objects in any order, can be encoded and is cut into exactly those reports, in
  order: every ERO, LSPA, association and vendor object is decoded into the field of its report, the
  METRIC and BANDWIDTH objects are listed there in the order of the message, and objects of unknown class leave no
  trace. A report has at most one object of each of the first four classes (a second one would be
  decoded into the first), and every object is one that its own decoder reads back.
\<close>

theorem PCRptMessage_reports:
  assumes "list_all wireReport_ok ws"
  shows "\<exists>bss. mapE encodeWire ws = Inr bss \<and>
    PCRptMessage_DecodeFromBytes NewPCRptMessage (concat bss) = Some (Inr \<lparr>prm_StateReports = map reportOf ws\<rparr>)"
  using wires_total [OF assms] wires_decoded [OF assms] by blast

section \<open>Messages that panic\<close>

lemma header_class: "\<exists>h. CommonObjectHeader_DecodeFromBytes (cls # flags # l1 # l2 # rest) = Inr h \<and> coh_ObjectClass h = cls"
  by (simp add: CommonObjectHeader_DecodeFromBytes_def sliceE_def beUint16_def)

text \<open>Before the first LSP or SRP object there is no report to decode into.\<close>

lemma no_report_panics:
  assumes "decodeFuncs cls \<noteq> None" "cls \<noteq> ObjectClassLSP" "cls \<noteq> ObjectClassSRP"
  shows "pcrptTurn (0, None, reports, cls # flags # l1 # l2 # rest) = panic"
proof -
  obtain d where d: "decodeFuncs cls = Some d" using assms(1) by blast
  have p: "d None t b y = panic" for t b y
    using d assms(2,3)
    by (auto simp: decodeFuncs_def decodeBandwidthObject_def decodeMetricObject_def decodeEroObject_def decodeLSPAObject_def
        decodeAssociationObject_def decodeVendorInformationObject_def BandwidthObject_DecodeFromBytes_def
        MetricObject_DecodeFromBytes_def beUint32_def indexE_def sliceCapE_def sliceE_def split: if_splits)
  obtain h where h: "CommonObjectHeader_DecodeFromBytes (cls # flags # l1 # l2 # rest) = Inr h" "coh_ObjectClass h = cls"
    using header_class by blast
  show ?thesis
    using assms(2,3) by (auto simp: pcrptTurn_def h d p startsReport_def sliceE_def Let_def)
qed

lemma short_object_panics:
  assumes "decodeFuncs cls \<noteq> None" "len < 4"
  shows "pcrptTurn (prev, sr, reports, cls # flags # 0 # len # rest) = panic"
proof -
  have b: "cls # flags # 0 # len # rest = cls # flags # be16 (ucast len) @ rest"
  proof -
    have "unat len div 256 = 0" using unat_u8_less [of len] by simp
    then show ?thesis by (simp add: be16_def numeral_2_eq_2 unat_u8_u16)
  qed
  have "unat (ucast len :: u16) < 4" using assms(2) by (simp add: word_less_nat_alt unat_u8_u16)
  then have "sliceE (cls # flags # 0 # len # rest) 4 (unat (ucast len :: u16)) = panic" by (simp add: sliceE_def)
  then show ?thesis
    using assms(1) CommonObjectHeader_decode_bytes [of cls flags "ucast len" rest, folded b] by (auto simp: pcrptTurn_def)
qed

lemma unknown_objects_skipped:
  "list_all wireObject_ok (map (\<lambda>(cls, t, body). WUnknown cls t body) us) \<Longrightarrow>
   pcrptLoop (prev, sr, reports, concat (map (\<lambda>(cls, t, body). object_frame cls t body) us) @ rest) = pcrptLoop (prev, sr, reports, rest)"
  by (induction us) (auto simp: pcrpt_skip)

text \<open>
  C40: Well-formed headers do not protect the decoder either. It panics on a message in which an object other
  than LSP and SRP is the first of a known class, whatever its length and what follows it, and whatever
  objects of unknown class come before it: there is no state report yet. And it panics on any object of
  known class that announces fewer bytes than its own header, after any number of complete reports.
\<close>

theorem PCRptMessage_panics:
  assumes "list_all (\<lambda>(cls, t, body). decodeFuncs cls = None \<and> t < 16 \<and> 4 + length body \<le> max_object) us"
    and "list_all wireReport_ok ws" "mapE encodeWire ws = Inr bss"
    and "decodeFuncs cls \<noteq> None"
  shows "(cls \<noteq> ObjectClassLSP \<longrightarrow> cls \<noteq> ObjectClassSRP \<longrightarrow> PCRptMessage_DecodeFromBytes NewPCRptMessage
      (concat (map (\<lambda>(cls, t, body). object_frame cls t body) us) @ [cls, flags, l1, l2] @ rest) = Some panic) \<and>
    (len < 4 \<longrightarrow> PCRptMessage_DecodeFromBytes NewPCRptMessage (concat bss @ [cls, flags, 0, len] @ rest) = Some panic)"
proof (intro conjI impI)
  assume "cls \<noteq> ObjectClassLSP" "cls \<noteq> ObjectClassSRP"
  note p = no_report_panics [OF assms(4) this, of "[]" flags l1 l2 rest]
  have "list_all wireObject_ok (map (\<lambda>(cls, t, body). WUnknown cls t body) us)"
    using assms(1) by (auto simp: list_all_iff)
  then show "PCRptMessage_DecodeFromBytes NewPCRptMessage
      (concat (map (\<lambda>(cls, t, body). object_frame cls t body) us) @ [cls, flags, l1, l2] @ rest) = Some panic"
    using pcrptLoop_fails [OF _ p] by (simp add: PCRptMessage_DecodeFromBytes_def NewPCRptMessage_def unknown_objects_skipped)
next
  assume "len < 4"
  obtain prev sr reports where "pcrptLoop (0, None, [], concat bss @ [cls, flags, 0, len] @ rest) =
      pcrptLoop (prev, sr, reports, [cls, flags, 0, len] @ rest)"
    using wires_loop [OF assms(2,3), of 0] by fastforce
  then show "PCRptMessage_DecodeFromBytes NewPCRptMessage (concat bss @ [cls, flags, 0, len] @ rest) = Some panic"
    using pcrptLoop_fails [OF _ short_object_panics [OF assms(4) \<open>len < 4\<close>]]
    by (simp add: PCRptMessage_DecodeFromBytes_def NewPCRptMessage_def)
qed

section \<open>Witnesses\<close>

definition sample_lsp :: LSPObject where
  "sample_lsp = LSPObject_zero\<lparr>lo_ObjectType := 1, lo_PlspID := 7, lo_OFlag := 2, lo_DFlag := True,
     lo_Name := ''a'', lo_TLVs := [TLV_SymbolicPathName \<lparr>spn_Name = ''a''\<rparr>]\<rparr>"

definition sample_reports :: "StateReport list" where
  "sample_reports =
     [NewStateReport\<lparr>sr_LSPObject := sample_lsp\<rparr>,
      NewStateReport\<lparr>sr_SrpObject := \<lparr>so_ObjectType = 1, so_RFlag = False, so_SrpID = 9, so_TLVs = []\<rparr>,
        sr_LSPObject := sample_lsp,
        sr_EroObject := \<lparr>ero_ObjectType = 1, ero_EroSubobjects = [EroRSVP
          \<lparr>rsvp_LFlag = False, rsvp_SubobjectType = 1, rsvp_Length = 8, rsvp_Address = Addr4 0x0A000001,
           rsvp_PrefixLen = 32\<rparr>]\<rparr>\<rparr>]"

lemma sample_reports_ok: "list_all report_ok sample_reports"
proof -
  have "utf8_Valid (string_bytes ''a'')" by code_simp
  then have "LSPObject_ok sample_lsp"
    by (simp add: sample_lsp_def LSPObject_ok_def LSPObject_zero_def SymbolicPathName_ok_def max_value_def
        tlvs_size_def SymbolicPathName_Len_def max_object_def tlv_consts)
  then show ?thesis
    by (simp add: sample_reports_def report_ok_def NewStateReport_def SrpObject_ok_def tlvs_size_def
        max_object_def EroObject_ok_def RSVPIPv4PrefixEroSubobject_ok_def)
qed

text \<open>Two reports: the first with two metrics around an unknown object, the second with an SRP object, bandwidth and a path.\<close>

definition sampleMetric :: "u8 \<Rightarrow> u32 \<Rightarrow> MetricObject" where
  "sampleMetric t v = \<lparr>mo_ObjectType = 1, mo_CFlag = True, mo_BFlag = False, mo_MetricType = t, mo_MetricValue = v\<rparr>"

definition sampleSrp :: SrpObject where
  "sampleSrp = \<lparr>so_ObjectType = 1, so_RFlag = False, so_SrpID = 9, so_TLVs = []\<rparr>"

definition sampleEro :: EroObject where
  "sampleEro = \<lparr>ero_ObjectType = 1, ero_EroSubobjects = [EroRSVP
     \<lparr>rsvp_LFlag = False, rsvp_SubobjectType = 1, rsvp_Length = 8, rsvp_Address = Addr4 0x0A000001, rsvp_PrefixLen = 32\<rparr>]\<rparr>"

definition sampleWires :: "wireReport list" where
  "sampleWires =
     [\<lparr>wr_Srp = None, wr_Lsp = sample_lsp, wr_Objects = [WMetric (sampleMetric 2 30), WUnknown 0x63 1 [1, 2, 3, 4], WMetric (sampleMetric 1 7)]\<rparr>,
      \<lparr>wr_Srp = Some sampleSrp, wr_Lsp = sample_lsp,
       wr_Objects = [WBandwidth \<lparr>bw_ObjectType = 1, bw_Bandwidth = 5\<rparr>, WEro sampleEro]\<rparr>]"

lemma sampleWires_ok: "list_all wireReport_ok sampleWires"
proof -
  have "LSPObject_ok sample_lsp" using sample_reports_ok by (simp add: sample_reports_def report_ok_def NewStateReport_def)
  moreover have "SrpObject_ok sampleSrp" by (simp add: sampleSrp_def SrpObject_ok_def tlvs_size_def max_object_def)
  moreover have "EroObject_ok sampleEro" by (simp add: sampleEro_def EroObject_ok_def RSVPIPv4PrefixEroSubobject_ok_def)
  ultimately show ?thesis
    by (simp add: sampleWires_def wireReport_ok_def sampleMetric_def decodeFuncs_def max_object_def List.map_filter_def)
qed

lemma PCRptMessage_reports_witness:
  "\<exists>bss r1 r2. mapE encodeWire sampleWires = Inr bss \<and>
    PCRptMessage_DecodeFromBytes NewPCRptMessage (concat bss) = Some (Inr \<lparr>prm_StateReports = [r1, r2]\<rparr>) \<and>
    sr_MetricObjects r1 = [sampleMetric 2 30, sampleMetric 1 7] \<and> sr_EroObject r2 = sampleEro \<and> so_SrpID (sr_SrpObject r2) = 9"
  using PCRptMessage_reports [OF sampleWires_ok]
  by (auto simp: sampleWires_def reportOf_def head_report_def NewStateReport_def sampleSrp_def)

text \<open>An ERO after an unknown object, and an SRP object of length 3 after the two reports.\<close>

lemma PCRptMessage_panics_witness:
  "PCRptMessage_DecodeFromBytes NewPCRptMessage (object_frame 0x63 1 [] @ [ObjectClassERO, 0x10, 0, 20, 1]) = Some panic \<and>
   (\<exists>bss. mapE encodeWire sampleWires = Inr bss \<and>
      PCRptMessage_DecodeFromBytes NewPCRptMessage (concat bss @ [ObjectClassSRP, 0x10, 0, 3]) = Some panic)"
proof -
  obtain bss where b: "mapE encodeWire sampleWires = Inr bss" using wires_total [OF sampleWires_ok] by blast
  have u: "list_all (\<lambda>(cls, t, body). decodeFuncs cls = None \<and> t < 16 \<and> 4 + length body \<le> max_object) [(0x63, 1 :: u8, [])]"
    by (simp add: decodeFuncs_def max_object_def)
  show ?thesis
    using PCRptMessage_panics [OF u sampleWires_ok b, where cls = ObjectClassERO and flags = "0x10" and ?l1.0 = "0" and ?l2.0 = "20" and rest = "[1]"]
      PCRptMessage_panics [OF u sampleWires_ok b, where cls = ObjectClassSRP and flags = "0x10" and rest = "[]" and len = "3"] b by auto
qed

end
