(* ===== verification/Requests.thy ===== *)
theory Requests
  imports State_Reports
begin

text \<open>
  PCUpd and PCInitiate of \<open>src/pkg/packet/pcep/message.go\<close>: the requests the PCE sends. The
  properties say that the header announces the length of the message and that the objects, read
  with the decoders of this package, carry the SRP-ID, the PLSP-ID, the path name, the segment list,
  the color, the preference and the endpoint that were asked for.
\<close>

section \<open>The objects of a request\<close>

definition name_ok :: "string \<Rightarrow> bool" where
  "name_ok name \<longleftrightarrow> length name \<le> 1000 \<and> utf8_Valid (string_bytes name)"

definition segments_ok :: "Segment list \<Rightarrow> bool" where
  "segments_ok segs \<longleftrightarrow> list_all segment_ok segs \<and> length segs \<le> 900"

lemma NewSrpObject_ok:
  "\<exists>srp. NewSrpObject (map Some segs) srpID isRemove = Inr srp \<and> SrpObject_ok srp \<and>
     so_SrpID srp = srpID \<and> so_RFlag srp = isRemove \<and> unat (SrpObject_Len srp) \<le> 20 \<and> srp \<noteq> SrpObject_zero"
  by (cases segs; cases "hd segs")
    (simp_all add: NewSrpObject_def SrpObject_ok_def SrpObject_Len_def tlvs_size_def tlvsByteLength_def
      PathSetupType_Len_def max_object_def tlv_consts SrpObject_zero_def NewPathSetupType_def)

lemma unat_SymbolicPathName_Len:
  assumes "name_ok name"
  shows "unat (SymbolicPathName_Len (NewSymbolicPathName name)) \<le> length name + 7"
proof -
  have l: "length name \<le> max_value" using assms by (simp add: name_ok_def max_value_def)
  have "unat (SymbolicPathName_Len (NewSymbolicPathName name)) = 4 + paddedLength (length name) 4"
    using unat_padded_len(1) [OF l] by (simp add: SymbolicPathName_Len_def NewSymbolicPathName_def Let_def)
  also have "\<dots> \<le> length name + 7" unfolding paddedLength_4 by linarith
  finally show ?thesis .
qed

lemma NewLSPObject_ok:
  assumes "name_ok name" "plspID < 2 ^ 20"
  shows "\<exists>lsp. NewLSPObject name color plspID = Inr lsp \<and> LSPObject_ok lsp \<and> lo_Name lsp = name \<and>
    lo_PlspID lsp = plspID \<and> (\<forall>c. color = Some c \<longrightarrow> LSPObject_Color lsp = c) \<and>
    unat (LSPObject_Len lsp) \<le> length name + 23"
proof -
  define L where "L = SymbolicPathName_Len (NewSymbolicPathName name)"
  define ts where "ts = TLV_SymbolicPathName (NewSymbolicPathName name) #
    (case color of Some c \<Rightarrow> [TLV_Color \<lparr>col_Color = c\<rparr>] | None \<Rightarrow> [])"
  define lsp where "lsp = \<lparr>lo_ObjectType = ObjectTypeLSPLSP, lo_Name = name, lo_SrcAddr = NoAddr,
    lo_DstAddr = NoAddr, lo_PlspID = plspID, lo_LSPID = 0, lo_CFlag = True, lo_OFlag = 1,
    lo_AFlag = True, lo_RFlag = False, lo_SFlag = False, lo_DFlag = True, lo_TLVs = ts\<rparr>"
  have new: "NewLSPObject name color plspID = Inr lsp"
    by (cases color) (simp_all add: NewLSPObject_def lsp_def ts_def)
  have L: "unat L \<le> 1007" "unat L \<le> length name + 7"
    using unat_SymbolicPathName_Len [OF assms(1)] assms(1) by (simp_all add: L_def name_ok_def)
  have sz: "tlvs_size ts \<le> length name + 15" "length name \<le> 1000"
    using L assms(1) by (cases color; simp add: ts_def tlvs_size_def L_def Color_Len_def tlv_consts name_ok_def)+
  have "SymbolicPathName_ok (NewSymbolicPathName name)"
    using assms(1) by (simp add: name_ok_def SymbolicPathName_ok_def max_value_def NewSymbolicPathName_def)
  then have t: "list_all tlv_ok ts" by (cases color) (simp_all add: ts_def)
  have f: "foldl LSPObject_readTLV (lsp\<lparr>lo_Name := [], lo_SrcAddr := NoAddr, lo_DstAddr := NoAddr, lo_LSPID := 0\<rparr>) ts = lsp"
    by (cases color) (simp_all add: lsp_def ts_def NewSymbolicPathName_def)
  have ok: "LSPObject_ok lsp"
    using assms(2) t sz f by (simp add: LSPObject_ok_def lsp_def max_object_def)
  have "LSPObject_Len lsp = word_of_nat (8 + tlvs_size ts)"
    by (simp add: LSPObject_Len_def tlvsByteLength_eq lsp_def)
  moreover have "unat (word_of_nat (8 + tlvs_size ts) :: u16) = 8 + tlvs_size ts"
    by (rule unat_u16_id) (use sz in simp)
  ultimately have "unat (LSPObject_Len lsp) \<le> length name + 23" using sz by simp
  moreover have "\<forall>c. color = Some c \<longrightarrow> LSPObject_Color lsp = c"
    by (auto simp: LSPObject_Color_def lsp_def ts_def)
  moreover have "lo_Name lsp = name \<and> lo_PlspID lsp = plspID" by (simp add: lsp_def)
  ultimately show ?thesis using new ok by blast
qed

lemma ero_sizes:
  assumes "EroObject_ok x"
  shows "EroObject_Len x = Inr (ero_len x)" and "unat (ero_len x) \<le> 4 + 64 * length (ero_EroSubobjects x)"
proof -
  have "list_all sub_framed (ero_EroSubobjects x)"
    using assms EroSubobject_framed by (auto simp: EroObject_ok_def list_all_iff)
  from ero_loop [OF this] obtain bufs lens where
      "mapE (\<lambda>sub. wrapE ''failed to serialize subobject'' (EroSubobject_Serialize sub)) (ero_EroSubobjects x) = Inr bufs"
      and b: "mapE EroSubobject_Len (ero_EroSubobjects x) = Inr lens" "sum_list lens = word_of_nat (length (concat bufs))"
      "length (concat bufs) \<le> 64 * length (ero_EroSubobjects x)" "4 dvd length (concat bufs)"
      "ero_EroSubobjects x \<noteq> [] \<longrightarrow> concat bufs \<noteq> [] \<and> decodeEroLoop (concat bufs) = Inr (ero_EroSubobjects x)"
    by blast
  then have L: "EroObject_Len x = Inr (word_of_nat (4 + length (concat bufs)))"
    by (simp add: EroObject_Len_def)
  then show l: "EroObject_Len x = Inr (ero_len x)" by (simp add: ero_len_def)
  have "unat (word_of_nat (4 + length (concat bufs)) :: u16) = 4 + length (concat bufs)"
    by (rule unat_u16_id) (use b(3) assms in \<open>simp add: EroObject_ok_def\<close>)
  then show "unat (ero_len x) \<le> 4 + 64 * length (ero_EroSubobjects x)"
    using L b(3) by (simp add: ero_len_def)
qed

lemma NewEroObject_request:
  assumes "segments_ok segs"
  shows "\<exists>ero. NewEroObject (map Some segs) = Inr ero \<and> EroObject_ok ero \<and> ToSegmentList ero = segs \<and>
    EroObject_Len ero = Inr (ero_len ero) \<and> unat (ero_len ero) \<le> 57604 \<and> ero \<noteq> EroObject_zero"
proof -
  have s: "list_all segment_ok segs" "length segs \<le> 1000" "length segs \<le> 900"
    using assms by (simp_all add: segments_ok_def)
  obtain ero where e: "NewEroObject (map Some segs) = Inr ero" "EroObject_ok ero" "ToSegmentList ero = segs"
    using NewEroObject_ok [OF s(1,2)] by blast
  have "length (ero_EroSubobjects ero) = length segs" "ero_ObjectType ero = 1"
    using e(1) by (auto simp: NewEroObject_def AddEroSubobjects_def bindE_eq_Inr mapE_Inr_iff
        dest!: list_all2_lengthD)
  then show ?thesis
    using e ero_sizes [OF e(2)] s(3) by (auto simp: EroObject_zero_def)
qed

lemma pcrpt_single:
  assumes "report_ok r" "encodeReport r = Inr bs"
  shows "PCRptMessage_DecodeFromBytes NewPCRptMessage bs = Some (Inr \<lparr>prm_StateReports = [r]\<rparr>)"
  using reports_loop [of "[r]" "[bs]" 0 None "[]"] assms
  by (simp add: PCRptMessage_DecodeFromBytes_def NewPCRptMessage_def close_report_def)

section \<open>PCUpd\<close>

lemma PCUpd_request:
  assumes "segments_ok segs" "name_ok name" "plspID < 2 ^ 20"
  shows "\<exists>m bs h r. NewPCUpdMessage srpID name plspID (map Some segs) = Inr m \<and> PCUpdMessage_Serialize m = Inr bs \<and>
    CommonHeader_DecodeFromBytes (take 4 bs) = Inr h \<and> ch_MessageType h = MessageTypeUpdate \<and>
    unat (ch_MessageLength h) = length bs \<and>
    PCRptMessage_DecodeFromBytes NewPCRptMessage (drop 4 bs) = Some (Inr \<lparr>prm_StateReports = [r]\<rparr>) \<and>
    so_SrpID (sr_SrpObject r) = srpID \<and> \<not> so_RFlag (sr_SrpObject r) \<and> lo_PlspID (sr_LSPObject r) = plspID \<and>
    lo_Name (sr_LSPObject r) = name \<and> ToSegmentList (sr_EroObject r) = segs"
proof -
  obtain srp where srp: "NewSrpObject (map Some segs) srpID False = Inr srp" "SrpObject_ok srp"
      "so_SrpID srp = srpID" "\<not> so_RFlag srp" "unat (SrpObject_Len srp) \<le> 20" "srp \<noteq> SrpObject_zero"
    using NewSrpObject_ok [of segs srpID False] by auto
  obtain lsp where lsp: "NewLSPObject name None plspID = Inr lsp" "LSPObject_ok lsp" "lo_Name lsp = name"
      "lo_PlspID lsp = plspID" "unat (LSPObject_Len lsp) \<le> length name + 23"
    using NewLSPObject_ok [OF assms(2,3), of None] by blast
  obtain ero where ero: "NewEroObject (map Some segs) = Inr ero" "EroObject_ok ero" "ToSegmentList ero = segs"
      "EroObject_Len ero = Inr (ero_len ero)" "unat (ero_len ero) \<le> 57604" "ero \<noteq> EroObject_zero"
    using NewEroObject_request [OF assms(1)] by blast
  obtain b1 b2 b3 where b: "SrpObject_Serialize srp = Inr b1" "LSPObject_Serialize lsp = Inr b2"
      "EroObject_Serialize ero = Inr b3"
    using srp_object.serialize_total [OF srp(2)] lsp_object.serialize_total [OF lsp(2)]
      ero_object.serialize_total [OF ero(2)] by blast
  note l = srp_object.serialized(1) [OF srp(2) b(1)] lsp_object.serialized(1) [OF lsp(2) b(2)]
    ero_object.serialized(1) [OF ero(2) b(3)]
  let ?m = "\<lparr>pum_SrpObject = srp, pum_LSPObject = lsp, pum_EroObject = ero\<rparr>"
  define n where "n = 4 + SrpObject_Len srp + LSPObject_Len lsp + ero_len ero"
  let ?bs = "CommonHeader_Serialize (NewCommonHeader MessageTypeUpdate n) @ b1 @ b2 @ b3"
  have nl: "length name \<le> 1000" using assms(2) by (simp add: name_ok_def)
  have n: "unat n = length ?bs"
    using srp(5) lsp(5) ero(5) nl unfolding n_def by (simp add: l unat_word_ariths)
  define r where "r = NewStateReport\<lparr>sr_SrpObject := srp, sr_LSPObject := lsp, sr_EroObject := ero\<rparr>"
  have r: "report_ok r" "encodeReport r = Inr (b1 @ b2 @ b3)"
    using srp(2,6) lsp(2) ero(2,6) b
    by (simp_all add: r_def report_ok_def NewStateReport_def encodeReport_def present_def)
  have new: "NewPCUpdMessage srpID name plspID (map Some segs) = Inr ?m"
    by (simp add: NewPCUpdMessage_def srp(1) lsp(1) ero(1))
  have ser: "PCUpdMessage_Serialize ?m = Inr ?bs"
    by (simp add: PCUpdMessage_Serialize_def b ero(4) n_def)
  show ?thesis
    using n pcrpt_single [OF r] srp(3,4) lsp(3,4) ero(3) NewCommonHeader_read [of MessageTypeUpdate n "[]"]
    by (intro exI [of _ ?m] exI [of _ ?bs] exI [of _ "NewCommonHeader MessageTypeUpdate n"] exI [of _ r])
      (simp add: new ser NewCommonHeader_def r_def NewStateReport_def)
qed

text \<open>
  A PCUpd request carries what it was asked to: for a path name of at most 1000 valid UTF-8
  bytes, a PLSP-ID of 20 bits and at most 900 encodable segments, \<open>NewPCUpdMessage\<close> and
  \<open>Serialize\<close> succeed, the header is of type Update with the length of the message, and the objects
  behind it, read back by the object decoders, hold the SRP-ID, the PLSP-ID, the name and the segment
  list.
\<close>

theorem PCUpd_carries_path:
  assumes "segments_ok segs" "name_ok name" "plspID < 2 ^ 20"
  shows "\<exists>m bs h r. NewPCUpdMessage srpID name plspID (map Some segs) = Inr m \<and> PCUpdMessage_Serialize m = Inr bs \<and>
    CommonHeader_DecodeFromBytes (take 4 bs) = Inr h \<and> ch_MessageType h = MessageTypeUpdate \<and>
    unat (ch_MessageLength h) = length bs \<and>
    PCRptMessage_DecodeFromBytes NewPCRptMessage (drop 4 bs) = Some (Inr \<lparr>prm_StateReports = [r]\<rparr>) \<and>
    so_SrpID (sr_SrpObject r) = srpID \<and> \<not> so_RFlag (sr_SrpObject r) \<and> lo_PlspID (sr_LSPObject r) = plspID \<and>
    lo_Name (sr_LSPObject r) = name \<and> ToSegmentList (sr_EroObject r) = segs"
  by (rule PCUpd_request [OF assms])

lemma PCUpd_carries_path_witness:
  "\<exists>m bs h r. NewPCUpdMessage 5 ''p'' 77 (map Some sample_segments) = Inr m \<and> PCUpdMessage_Serialize m = Inr bs \<and>
    CommonHeader_DecodeFromBytes (take 4 bs) = Inr h \<and> ch_MessageType h = MessageTypeUpdate \<and>
    unat (ch_MessageLength h) = length bs \<and>
    PCRptMessage_DecodeFromBytes NewPCRptMessage (drop 4 bs) = Some (Inr \<lparr>prm_StateReports = [r]\<rparr>) \<and>
    so_SrpID (sr_SrpObject r) = 5 \<and> \<not> so_RFlag (sr_SrpObject r) \<and> lo_PlspID (sr_LSPObject r) = 77 \<and>
    lo_Name (sr_LSPObject r) = ''p'' \<and> ToSegmentList (sr_EroObject r) = sample_segments"
proof (rule PCUpd_carries_path)
  show "name_ok ''p''" unfolding name_ok_def by code_simp
qed (simp_all add: segments_ok_def sample_segments_def NewSegmentSRMPLS_def NewSegmentSRv6_def SegmentSRv6_zero_def v6_ok_def)

section \<open>PCInitiate\<close>

definition default :: "'a \<Rightarrow> 'a option \<Rightarrow> 'a" where
  "default z o' = (case o' of Some x \<Rightarrow> x | None \<Rightarrow> z)"

lemma default_simps [simp]: "default z None = z" "default z (Some x) = x"
  by (simp_all add: default_def)

text \<open>What a reader of state reports sees of an initiate message; END-POINTS objects are skipped.\<close>

definition initiate_report :: "PCInitiateMessage \<Rightarrow> StateReport" where
  "initiate_report m = NewStateReport\<lparr>sr_SrpObject := pim_SrpObject m, sr_LSPObject := pim_LSPObject m,
     sr_EroObject := default EroObject_zero (pim_EroObject m),
     sr_AssociationObject := default AssociationObject_zero (pim_AssociationObject m),
     sr_VendorInformationObject := default VendorInformationObject_zero (pim_VendorInformationObject m)\<rparr>"

definition opt_ok :: "('a \<Rightarrow> bool) \<Rightarrow> 'a \<Rightarrow> 'a option \<Rightarrow> bool" where
  "opt_ok ok z o' \<longleftrightarrow> (case o' of None \<Rightarrow> True | Some x \<Rightarrow> ok x \<and> x \<noteq> z)"

definition PCInitiateMessage_ok :: "PCInitiateMessage \<Rightarrow> bool" where
  "PCInitiateMessage_ok m \<longleftrightarrow> SrpObject_ok (pim_SrpObject m) \<and> pim_SrpObject m \<noteq> SrpObject_zero \<and>
     unat (SrpObject_Len (pim_SrpObject m)) \<le> 20 \<and>
     LSPObject_ok (pim_LSPObject m) \<and> unat (LSPObject_Len (pim_LSPObject m)) \<le> 1023 \<and>
     (\<forall>e. pim_EndpointsObject m = Some e \<longrightarrow> (\<exists>src dst. NewEndpointsObject dst src = Inr e)) \<and>
     opt_ok (\<lambda>x. EroObject_ok x \<and> unat (ero_len x) \<le> 57604) EroObject_zero (pim_EroObject m) \<and>
     opt_ok (\<lambda>x. AssociationObject_ok x \<and> unat (assoc_len x) \<le> 96) AssociationObject_zero (pim_AssociationObject m) \<and>
     opt_ok (\<lambda>x. VendorInformationObject_ok x \<and> unat (VendorInformationObject_Len x) \<le> 96)
       VendorInformationObject_zero (pim_VendorInformationObject m)"

lemma assoc_Len: "AssociationObject_ok x \<Longrightarrow> AssociationObject_Len x = Inr (assoc_len x)"
  by (auto simp: AssociationObject_ok_def assoc_len_def AssociationObject_Len_def Let_def)

lemma opt_object:
  assumes "opt_ok ok z o'" "\<And>x. ok x \<Longrightarrow> \<exists>bs. ser x = Inr bs \<and> length bs = unat (len x :: u16) \<and> length bs \<le> k"
  obtains bs where "optE ser [] o' = Inr bs" "present ser z (default z o') = Inr bs"
    "length bs = unat (case o' of None \<Rightarrow> 0 | Some x \<Rightarrow> len x)" "length bs \<le> k"
proof (cases o')
  case None
  then show ?thesis by (intro that [of "[]"]) (simp_all add: present_def)
next
  case (Some x)
  then have x: "ok x" "x \<noteq> z" using assms(1) by (simp_all add: opt_ok_def)
  obtain bs where "ser x = Inr bs" "length bs = unat (len x)" "length bs \<le> k"
    using assms(2) [OF x(1)] by blast
  with Some x show ?thesis by (intro that [of bs]) (simp_all add: present_def)
qed

lemma endpoints_object:
  assumes "NewEndpointsObject dst src = Inr e"
  shows "\<exists>t body. t < 16 \<and> length body \<le> 32 \<and> EndpointsObject_Serialize e = Inr (object_frame ObjectClassEndpoints t body) \<and>
    EndpointsObject_Len e = Inr (word_of_nat (4 + length body))"
proof -
  have "eo_ObjectType e < 16 \<and> length (AsSlice src @ AsSlice dst) \<le> 32"
    using assms by (cases src; cases dst) (auto simp: NewEndpointsObject_def)
  then show ?thesis
    using EndpointsObject_bytes [OF assms] by blast
qed

lemma PCInitiate_readback:
  assumes "PCInitiateMessage_ok m"
  shows "\<exists>bs h. PCInitiateMessage_Serialize m = Inr bs \<and> CommonHeader_DecodeFromBytes (take 4 bs) = Inr h \<and>
    ch_MessageType h = MessageTypeLSPInitReq \<and> unat (ch_MessageLength h) = length bs \<and>
    PCRptMessage_DecodeFromBytes NewPCRptMessage (drop 4 bs) =
      Some (Inr \<lparr>prm_StateReports = [initiate_report m]\<rparr>) \<and>
    (\<exists>pre be post. optE EndpointsObject_Serialize [] (pim_EndpointsObject m) = Inr be \<and> drop 4 bs = pre @ be @ post)"
proof -
  let ?srp = "pim_SrpObject m" and ?lsp = "pim_LSPObject m"
  have ok: "SrpObject_ok ?srp" "?srp \<noteq> SrpObject_zero" "unat (SrpObject_Len ?srp) \<le> 20" "LSPObject_ok ?lsp"
      "unat (LSPObject_Len ?lsp) \<le> 1023"
    and oe: "\<And>e. pim_EndpointsObject m = Some e \<Longrightarrow> \<exists>src dst. NewEndpointsObject dst src = Inr e"
    and o1: "opt_ok (\<lambda>x. EroObject_ok x \<and> unat (ero_len x) \<le> 57604) EroObject_zero (pim_EroObject m)"
    and o2: "opt_ok (\<lambda>x. AssociationObject_ok x \<and> unat (assoc_len x) \<le> 96) AssociationObject_zero (pim_AssociationObject m)"
    and o3: "opt_ok (\<lambda>x. VendorInformationObject_ok x \<and> unat (VendorInformationObject_Len x) \<le> 96)
       VendorInformationObject_zero (pim_VendorInformationObject m)"
    using assms by (simp_all add: PCInitiateMessage_ok_def)
  obtain b1 b2 where b: "SrpObject_Serialize ?srp = Inr b1" "LSPObject_Serialize ?lsp = Inr b2"
    using srp_object.serialize_total [OF ok(1)] lsp_object.serialize_total [OF ok(4)] by blast
  note l = srp_object.serialized(1) [OF ok(1) b(1)] lsp_object.serialized(1) [OF ok(4) b(2)]
  obtain b3 where b3: "optE EroObject_Serialize [] (pim_EroObject m) = Inr b3"
      "present EroObject_Serialize EroObject_zero (default EroObject_zero (pim_EroObject m)) = Inr b3"
      "length b3 = unat (case pim_EroObject m of None \<Rightarrow> 0 | Some x \<Rightarrow> ero_len x)" "length b3 \<le> 57604"
    by (rule opt_object [OF o1, where ser = EroObject_Serialize and len = ero_len and k = 57604])
      (use ero_object.serialize_total ero_object.serialized(1) in fastforce)
  obtain b4 where b4: "optE AssociationObject_Serialize [] (pim_AssociationObject m) = Inr b4"
      "present AssociationObject_Serialize AssociationObject_zero (default AssociationObject_zero (pim_AssociationObject m)) = Inr b4"
      "length b4 = unat (case pim_AssociationObject m of None \<Rightarrow> 0 | Some x \<Rightarrow> assoc_len x)" "length b4 \<le> 96"
    by (rule opt_object [OF o2, where ser = AssociationObject_Serialize and len = assoc_len and k = 96])
      (use association_object.serialize_total association_object.serialized(1) in fastforce)
  obtain b5 where b5: "optE VendorInformationObject_Serialize [] (pim_VendorInformationObject m) = Inr b5"
      "present VendorInformationObject_Serialize VendorInformationObject_zero
         (default VendorInformationObject_zero (pim_VendorInformationObject m)) = Inr b5"
      "length b5 = unat (case pim_VendorInformationObject m of None \<Rightarrow> 0 | Some x \<Rightarrow> VendorInformationObject_Len x)"
      "length b5 \<le> 96"
    by (rule opt_object [OF o3, where ser = VendorInformationObject_Serialize and len = VendorInformationObject_Len and k = 96])
      (use vendor_object.serialize_total vendor_object.serialized(1) in fastforce)
  have E: "\<exists>be el. optE EndpointsObject_Serialize [] (pim_EndpointsObject m) = Inr be \<and>
      optE EndpointsObject_Len 0 (pim_EndpointsObject m) = Inr el \<and> length be = unat el \<and> length be \<le> 36 \<and>
      (\<forall>prev sr reports rest. pcrptLoop (prev, sr, reports, be @ rest) = pcrptLoop (prev, sr, reports, rest))"
  proof (cases "pim_EndpointsObject m")
    case (Some e)
    then obtain src dst where "NewEndpointsObject dst src = Inr e" using oe by blast
    from endpoints_object [OF this] obtain t body where e: "t < 16" "length body \<le> 32"
        "EndpointsObject_Serialize e = Inr (object_frame ObjectClassEndpoints t body)"
        "EndpointsObject_Len e = Inr (word_of_nat (4 + length body))" by blast
    have "4 + length body \<le> max_object" using e(2) by (simp add: max_object_def)
    moreover have "unat (word_of_nat (4 + length body) :: u16) = 4 + length body"
      by (rule unat_u16_id) (use e(2) in simp)
    moreover have "decodeFuncs ObjectClassEndpoints = None" by (simp add: decodeFuncs_def)
    ultimately show ?thesis using e Some pcrpt_skip by auto
  qed simp
  then obtain be el where be: "optE EndpointsObject_Serialize [] (pim_EndpointsObject m) = Inr be"
      "optE EndpointsObject_Len 0 (pim_EndpointsObject m) = Inr el" "length be = unat el" "length be \<le> 36"
      "\<And>prev sr reports rest. pcrptLoop (prev, sr, reports, be @ rest) = pcrptLoop (prev, sr, reports, rest)"
    by blast
  define l3 where "l3 = (case pim_EroObject m of None \<Rightarrow> 0 | Some x \<Rightarrow> ero_len x)"
  define l4 where "l4 = (case pim_AssociationObject m of None \<Rightarrow> 0 | Some x \<Rightarrow> assoc_len x)"
  define l5 where "l5 = (case pim_VendorInformationObject m of None \<Rightarrow> 0 | Some x \<Rightarrow> VendorInformationObject_Len x)"
  have L: "optE EroObject_Len 0 (pim_EroObject m) = Inr l3" "optE AssociationObject_Len 0 (pim_AssociationObject m) = Inr l4"
    using o1 o2 ero_sizes(1) assoc_Len by (auto simp: l3_def l4_def opt_ok_def split: option.splits)
  define n where "n = 4 + SrpObject_Len ?srp + LSPObject_Len ?lsp + el + l3 + l4 + l5"
  let ?bs = "CommonHeader_Serialize (NewCommonHeader MessageTypeLSPInitReq n) @ b1 @ b2 @ be @ b3 @ b4 @ b5"
  have n: "unat n = length ?bs"
  proof -
    have "unat l3 \<le> 57604" "unat l4 \<le> 96" "unat l5 \<le> 96" "unat el \<le> 36"
      using b3(3,4) b4(3,4) b5(3,4) be(3,4) by (simp_all add: l3_def l4_def l5_def)
    then show ?thesis
      using ok(3,5) b3(3) b4(3) b5(3) be(3)
      unfolding n_def by (simp add: l l3_def [symmetric] l4_def [symmetric] l5_def [symmetric] unat_word_ariths)
  qed
  have ser: "PCInitiateMessage_Serialize m = Inr ?bs"
    using b5(1) by (cases "pim_VendorInformationObject m")
      (simp_all add: PCInitiateMessage_Serialize_def L be(1,2) b b3(1) b4(1) n_def l5_def Let_def)
  define r where "r = initiate_report m"
  have r: "report_ok r" "sr_SrpObject r = ?srp" "sr_LSPObject r = ?lsp"
    using ok o1 o2 o3
    by (auto simp: r_def initiate_report_def report_ok_def NewStateReport_def opt_ok_def default_def split: option.splits)
  have "pcrptLoop (0, None, [], b1 @ b2 @ be @ b3 @ b4 @ b5) =
      pcrptLoop (ObjectClassLSP, Some (head_report ?srp ?lsp), [], be @ b3 @ b4 @ b5)"
    using report_head_step [of ?srp ?lsp 0 b1 b2 None "[]"] ok b by (simp add: present_def close_report_def)
  also have "\<dots> = pcrptLoop (ObjectClassLSP, Some (head_report ?srp ?lsp), [], b3 @ [] @ b4 @ b5 @ [])"
    by (simp add: be(5))
  also obtain prev' where "\<dots> = pcrptLoop (prev', Some r, [], [])"
    using report_tail_step [OF r(1), of b3 "[]" b4 b5 "[]" "[]"] b3(2) b4(2) b5(2)
    by (auto simp: r(2,3)) (auto simp: r_def initiate_report_def NewStateReport_def present_def)
  finally have "PCRptMessage_DecodeFromBytes NewPCRptMessage (b1 @ b2 @ be @ b3 @ b4 @ b5) =
      Some (Inr \<lparr>prm_StateReports = [r]\<rparr>)"
    by (simp add: PCRptMessage_DecodeFromBytes_def NewPCRptMessage_def)
  moreover have "\<exists>pre be post. optE EndpointsObject_Serialize [] (pim_EndpointsObject m) = Inr be \<and> drop 4 ?bs = pre @ be @ post"
    using be(1) by (intro exI [of _ "b1 @ b2"] exI [of _ be] exI [of _ "b3 @ b4 @ b5"]) simp
  ultimately show ?thesis
    using n ser NewCommonHeader_read [of MessageTypeLSPInitReq n "[]"]
    by (intro exI [of _ ?bs] exI [of _ "NewCommonHeader MessageTypeLSPInitReq n"])
      (simp add: NewCommonHeader_def r_def)
qed

lemma NewVendorInformationObject_request:
  "\<exists>obj. NewVendorInformationObject CiscoLegacy color preference = Inr obj \<and> VendorInformationObject_ok obj \<and>
    VendorInformationObject_Color obj = color \<and> VendorInformationObject_Preference obj = preference \<and>
    unat (VendorInformationObject_Len obj) \<le> 96 \<and> obj \<noteq> VendorInformationObject_zero"
  by (simp add: NewVendorInformationObject_def VendorInformationObject_ok_def UnknownTLV_ok_def
      VendorInformationObject_Color_def VendorInformationObject_Preference_def subTLVUint32_def
      Uint32ToByteSlice_def tlvs_size_def tlvsByteLength_def UnknownTLV_Len_def tlv_consts max_object_def
      max_value_def VendorInformationObject_Len_def VendorInformationObject_zero_def)

lemma NewAssociationObject_default:
  "NewAssociationObject src dst color preference [OriginatorASN asn] =
   NewAssociationObject src dst color preference [VendorSpecific RFCCompliant, OriginatorASN asn]"
  by (simp add: NewAssociationObject_def VendorSpecific_def OriginatorASN_def)

lemma PCInitiate_objects:
  assumes "segments_ok segs" "name_ok name" "assoc_addrs_ok pcc src dst"
  shows "\<exists>m bs h r. NewPCInitiateMessage srpID name False plspID (map Some segs) color preference src dst
       [VendorSpecific pcc, OriginatorASN asn] = Inr m \<and> PCInitiateMessage_Serialize m = Inr bs \<and>
    CommonHeader_DecodeFromBytes (take 4 bs) = Inr h \<and> ch_MessageType h = MessageTypeLSPInitReq \<and>
    unat (ch_MessageLength h) = length bs \<and>
    PCRptMessage_DecodeFromBytes NewPCRptMessage (drop 4 bs) = Some (Inr \<lparr>prm_StateReports = [r]\<rparr>) \<and>
    so_SrpID (sr_SrpObject r) = srpID \<and> \<not> so_RFlag (sr_SrpObject r) \<and> lo_PlspID (sr_LSPObject r) = 0 \<and>
    lo_Name (sr_LSPObject r) = name \<and> LSPObject_Color (sr_LSPObject r) = color \<and>
    ToSegmentList (sr_EroObject r) = segs \<and>
    (pcc \<noteq> CiscoLegacy \<longrightarrow> AssociationObject_Color (sr_AssociationObject r) = color \<and>
       AssociationObject_Preference (sr_AssociationObject r) = preference \<and>
       AssociationObject_Endpoint (sr_AssociationObject r) = dst) \<and>
    (pcc \<noteq> JuniperLegacy \<longrightarrow> VendorInformationObject_Color (sr_VendorInformationObject r) = color \<and>
       VendorInformationObject_Preference (sr_VendorInformationObject r) = preference) \<and>
    (\<exists>pre post. drop 4 bs = pre @ object_frame ObjectClassEndpoints
       (if Is4 src then ObjectTypeEndpointIPv4 else ObjectTypeEndpointIPv6) (AsSlice src @ AsSlice dst) @ post)"
proof -
  obtain srp where srp: "NewSrpObject (map Some segs) srpID False = Inr srp" "SrpObject_ok srp"
      "so_SrpID srp = srpID" "\<not> so_RFlag srp" "unat (SrpObject_Len srp) \<le> 20" "srp \<noteq> SrpObject_zero"
    using NewSrpObject_ok [of segs srpID False] by auto
  have nl: "length name \<le> 1000" using assms(2) by (simp add: name_ok_def)
  have z: "(0 :: u32) < 2 ^ 20" by simp
  obtain lsp where lsp: "NewLSPObject name (Some color) 0 = Inr lsp" "LSPObject_ok lsp" "lo_Name lsp = name"
      "lo_PlspID lsp = 0" "LSPObject_Color lsp = color" "unat (LSPObject_Len lsp) \<le> length name + 23"
    using NewLSPObject_ok [OF assms(2) z, of "Some color"] by blast
  obtain ero where ero: "NewEroObject (map Some segs) = Inr ero" "EroObject_ok ero" "ToSegmentList ero = segs"
      "unat (ero_len ero) \<le> 57604" "ero \<noteq> EroObject_zero"
    using NewEroObject_request [OF assms(1)] by blast
  obtain ep where ep: "NewEndpointsObject dst src = Inr ep"
      "EndpointsObject_Serialize ep = Inr (object_frame ObjectClassEndpoints
         (if Is4 src then ObjectTypeEndpointIPv4 else ObjectTypeEndpointIPv6) (AsSlice src @ AsSlice dst))"
    using assms(3) EndpointsObject_layout [where src = src and dst = dst]
    by (cases "NewEndpointsObject dst src") (auto simp: assoc_addrs_ok_def)
  obtain a where a: "NewAssociationObject src dst color preference [VendorSpecific pcc, OriginatorASN asn] = Inr a"
      "AssociationObject_ok a" "AssociationObject_Color a = color" "AssociationObject_Preference a = preference"
      "AssociationObject_Endpoint a = dst" "unat (assoc_len a) \<le> 96" "a \<noteq> AssociationObject_zero"
    using NewAssociationObject_ok [OF assms(3)] by blast
  obtain v where v: "NewVendorInformationObject CiscoLegacy color preference = Inr v" "VendorInformationObject_ok v"
      "VendorInformationObject_Color v = color" "VendorInformationObject_Preference v = preference"
      "unat (VendorInformationObject_Len v) \<le> 96" "v \<noteq> VendorInformationObject_zero"
    using NewVendorInformationObject_request by blast
  define m where "m = \<lparr>pim_SrpObject = srp, pim_LSPObject = lsp, pim_EndpointsObject = Some ep, pim_EroObject = Some ero,
    pim_AssociationObject = (if pcc = CiscoLegacy then None else Some a),
    pim_VendorInformationObject = (if pcc = JuniperLegacy then None else Some v)\<rparr>"
  have new: "NewPCInitiateMessage srpID name False plspID (map Some segs) color preference src dst
      [VendorSpecific pcc, OriginatorASN asn] = Inr m"
    using a(1) by (cases pcc) (simp_all add: NewPCInitiateMessage_def VendorSpecific_def OriginatorASN_def
        srp(1) lsp(1) ep(1) ero(1) v(1) m_def NewAssociationObject_default [unfolded OriginatorASN_def VendorSpecific_def])
  have ok: "PCInitiateMessage_ok m"
    using srp lsp ero a v ep(1) nl by (auto simp: PCInitiateMessage_ok_def m_def opt_ok_def)
  obtain bs h pre be post where b: "PCInitiateMessage_Serialize m = Inr bs" "CommonHeader_DecodeFromBytes (take 4 bs) = Inr h"
      "ch_MessageType h = MessageTypeLSPInitReq" "unat (ch_MessageLength h) = length bs"
      "PCRptMessage_DecodeFromBytes NewPCRptMessage (drop 4 bs) = Some (Inr \<lparr>prm_StateReports = [initiate_report m]\<rparr>)"
      "EndpointsObject_Serialize ep = Inr be" "drop 4 bs = pre @ be @ post"
    using PCInitiate_readback [OF ok] by (auto simp: m_def)
  show ?thesis
    using b(6,7) ep(2) srp(3,4) lsp(3-5) ero(3) a(3-5) v(3,4)
    by (intro exI [of _ m] exI [of _ bs] exI [of _ h] exI [of _ "initiate_report m"] conjI new b(1-5) exI [of _ pre] exI [of _ post])
      (simp_all add: initiate_report_def m_def NewStateReport_def)
qed

lemma PCInitiate_request:
  assumes "segments_ok segs" "name_ok name" "assoc_addrs_ok pcc src dst"
  shows "\<exists>m bs h r. NewPCInitiateMessage srpID name False plspID (map Some segs) color preference src dst
       [VendorSpecific pcc, OriginatorASN asn] = Inr m \<and> PCInitiateMessage_Serialize m = Inr bs \<and>
    CommonHeader_DecodeFromBytes (take 4 bs) = Inr h \<and> ch_MessageType h = MessageTypeLSPInitReq \<and>
    unat (ch_MessageLength h) = length bs \<and>
    PCRptMessage_DecodeFromBytes NewPCRptMessage (drop 4 bs) = Some (Inr \<lparr>prm_StateReports = [r]\<rparr>) \<and>
    so_SrpID (sr_SrpObject r) = srpID \<and> \<not> so_RFlag (sr_SrpObject r) \<and> lo_PlspID (sr_LSPObject r) = 0 \<and>
    lo_Name (sr_LSPObject r) = name \<and> LSPObject_Color (sr_LSPObject r) = color \<and>
    ToSegmentList (sr_EroObject r) = segs \<and>
    (pcc \<noteq> CiscoLegacy \<longrightarrow> AssociationObject_Color (sr_AssociationObject r) = color \<and>
       AssociationObject_Preference (sr_AssociationObject r) = preference \<and>
       AssociationObject_Endpoint (sr_AssociationObject r) = dst) \<and>
    (pcc \<noteq> JuniperLegacy \<longrightarrow> VendorInformationObject_Color (sr_VendorInformationObject r) = color \<and>
       VendorInformationObject_Preference (sr_VendorInformationObject r) = preference)"
  using PCInitiate_objects [OF assms] by blast

text \<open>
  C27: A PCInitiate request carries what it was asked to: at most 900 encodable segments, a name of at most 1000
  bytes of valid UTF-8, and endpoints of one family, which are IPv4 for a legacy Juniper PCC and have no zone. The
  header is of type LSPInitReq with the length of the message, and the objects behind it, read back by
  the object decoders, hold the SRP-ID, a zero PLSP-ID, the name, the color and the segment list. Every
  PCC gets an END-POINTS object with source and destination, which these decoders skip and whose bytes
  are given; all but legacy Cisco PCCs get color, preference and endpoint in an association object, and all
  but legacy Juniper PCCs get color and preference in a vendor information object.
\<close>

theorem PCInitiate_carries_path:
  assumes "segments_ok segs" "name_ok name" "assoc_addrs_ok pcc src dst"
  shows "\<exists>m bs h r. NewPCInitiateMessage srpID name False plspID (map Some segs) color preference src dst
       [VendorSpecific pcc, OriginatorASN asn] = Inr m \<and> PCInitiateMessage_Serialize m = Inr bs \<and>
    CommonHeader_DecodeFromBytes (take 4 bs) = Inr h \<and> ch_MessageType h = MessageTypeLSPInitReq \<and>
    unat (ch_MessageLength h) = length bs \<and>
    PCRptMessage_DecodeFromBytes NewPCRptMessage (drop 4 bs) = Some (Inr \<lparr>prm_StateReports = [r]\<rparr>) \<and>
    so_SrpID (sr_SrpObject r) = srpID \<and> \<not> so_RFlag (sr_SrpObject r) \<and> lo_PlspID (sr_LSPObject r) = 0 \<and>
    lo_Name (sr_LSPObject r) = name \<and> LSPObject_Color (sr_LSPObject r) = color \<and>
    ToSegmentList (sr_EroObject r) = segs \<and>
    (pcc \<noteq> CiscoLegacy \<longrightarrow> AssociationObject_Color (sr_AssociationObject r) = color \<and>
       AssociationObject_Preference (sr_AssociationObject r) = preference \<and>
       AssociationObject_Endpoint (sr_AssociationObject r) = dst) \<and>
    (pcc \<noteq> JuniperLegacy \<longrightarrow> VendorInformationObject_Color (sr_VendorInformationObject r) = color \<and>
       VendorInformationObject_Preference (sr_VendorInformationObject r) = preference) \<and>
    (\<exists>pre post. drop 4 bs = pre @ object_frame ObjectClassEndpoints
       (if Is4 src then ObjectTypeEndpointIPv4 else ObjectTypeEndpointIPv6) (AsSlice src @ AsSlice dst) @ post)"
  by (rule PCInitiate_objects [OF assms])

lemma PCInitiate_carries_path_witness:
  "\<exists>m bs h r. NewPCInitiateMessage 5 ''p'' False 0 (map Some sample_segments) 100 200 (Addr4 1) (Addr4 2)
       [VendorSpecific RFCCompliant, OriginatorASN 65000] = Inr m \<and> PCInitiateMessage_Serialize m = Inr bs \<and>
    CommonHeader_DecodeFromBytes (take 4 bs) = Inr h \<and> ch_MessageType h = MessageTypeLSPInitReq \<and>
    unat (ch_MessageLength h) = length bs \<and>
    PCRptMessage_DecodeFromBytes NewPCRptMessage (drop 4 bs) = Some (Inr \<lparr>prm_StateReports = [r]\<rparr>) \<and>
    so_SrpID (sr_SrpObject r) = 5 \<and> \<not> so_RFlag (sr_SrpObject r) \<and> lo_PlspID (sr_LSPObject r) = 0 \<and>
    lo_Name (sr_LSPObject r) = ''p'' \<and> LSPObject_Color (sr_LSPObject r) = 100 \<and>
    ToSegmentList (sr_EroObject r) = sample_segments \<and>
    (RFCCompliant \<noteq> CiscoLegacy \<longrightarrow> AssociationObject_Color (sr_AssociationObject r) = 100 \<and>
       AssociationObject_Preference (sr_AssociationObject r) = 200 \<and>
       AssociationObject_Endpoint (sr_AssociationObject r) = Addr4 2) \<and>
    (RFCCompliant \<noteq> JuniperLegacy \<longrightarrow> VendorInformationObject_Color (sr_VendorInformationObject r) = 100 \<and>
       VendorInformationObject_Preference (sr_VendorInformationObject r) = 200) \<and>
    (\<exists>pre post. drop 4 bs = pre @ object_frame ObjectClassEndpoints
       (if Is4 (Addr4 1) then ObjectTypeEndpointIPv4 else ObjectTypeEndpointIPv6) (AsSlice (Addr4 1) @ AsSlice (Addr4 2)) @ post)"
proof (rule PCInitiate_carries_path)
  show "name_ok ''p''" unfolding name_ok_def by code_simp
qed (simp_all add: segments_ok_def sample_segments_def NewSegmentSRMPLS_def NewSegmentSRv6_def SegmentSRv6_zero_def
    v6_ok_def assoc_addrs_ok_def)

lemma PCInitiate_deletion:
  assumes "name_ok name" "plspID < 2 ^ 20"
  shows "\<exists>m bs h r. NewPCInitiateMessage srpID name True plspID (map Some segs) color preference src dst opts = Inr m \<and>
    PCInitiateMessage_Serialize m = Inr bs \<and>
    CommonHeader_DecodeFromBytes (take 4 bs) = Inr h \<and> ch_MessageType h = MessageTypeLSPInitReq \<and>
    unat (ch_MessageLength h) = length bs \<and>
    PCRptMessage_DecodeFromBytes NewPCRptMessage (drop 4 bs) = Some (Inr \<lparr>prm_StateReports = [r]\<rparr>) \<and>
    so_SrpID (sr_SrpObject r) = srpID \<and> so_RFlag (sr_SrpObject r) \<and> lo_PlspID (sr_LSPObject r) = plspID \<and>
    lo_Name (sr_LSPObject r) = name \<and> sr_EroObject r = EroObject_zero \<and>
    sr_AssociationObject r = AssociationObject_zero"
proof -
  obtain srp where srp: "NewSrpObject (map Some segs) srpID True = Inr srp" "SrpObject_ok srp"
      "so_SrpID srp = srpID" "so_RFlag srp" "unat (SrpObject_Len srp) \<le> 20" "srp \<noteq> SrpObject_zero"
    using NewSrpObject_ok [of segs srpID True] by auto
  have nl: "length name \<le> 1000" using assms(1) by (simp add: name_ok_def)
  obtain lsp where lsp: "NewLSPObject name (Some color) plspID = Inr lsp" "LSPObject_ok lsp" "lo_Name lsp = name"
      "lo_PlspID lsp = plspID" "unat (LSPObject_Len lsp) \<le> length name + 23"
    using NewLSPObject_ok [OF assms, of "Some color"] by blast
  define m where "m = \<lparr>pim_SrpObject = srp, pim_LSPObject = lsp, pim_EndpointsObject = None, pim_EroObject = None,
    pim_AssociationObject = None, pim_VendorInformationObject = None\<rparr>"
  have new: "NewPCInitiateMessage srpID name True plspID (map Some segs) color preference src dst opts = Inr m"
    by (simp add: NewPCInitiateMessage_def srp(1) lsp(1) m_def)
  have ok: "PCInitiateMessage_ok m"
    using srp lsp nl by (auto simp: PCInitiateMessage_ok_def m_def opt_ok_def)
  from PCInitiate_readback [OF ok] show ?thesis
    unfolding new using srp(3,4) lsp(3,4) by (auto simp: initiate_report_def m_def NewStateReport_def)
qed

text \<open>
  A deletion request names the path by its PLSP-ID and asks for removal: the message holds the
  SRP object with the R flag and the LSP object only, whatever the addresses are.
\<close>

theorem PCInitiate_delete:
  assumes "name_ok name" "plspID < 2 ^ 20"
  shows "\<exists>m bs h r. NewPCInitiateMessage srpID name True plspID (map Some segs) color preference src dst opts = Inr m \<and>
    PCInitiateMessage_Serialize m = Inr bs \<and>
    CommonHeader_DecodeFromBytes (take 4 bs) = Inr h \<and> ch_MessageType h = MessageTypeLSPInitReq \<and>
    unat (ch_MessageLength h) = length bs \<and>
    PCRptMessage_DecodeFromBytes NewPCRptMessage (drop 4 bs) = Some (Inr \<lparr>prm_StateReports = [r]\<rparr>) \<and>
    so_SrpID (sr_SrpObject r) = srpID \<and> so_RFlag (sr_SrpObject r) \<and> lo_PlspID (sr_LSPObject r) = plspID \<and>
    lo_Name (sr_LSPObject r) = name \<and> sr_EroObject r = EroObject_zero \<and>
    sr_AssociationObject r = AssociationObject_zero"
  by (rule PCInitiate_deletion [OF assms])

lemma PCInitiate_delete_witness:
  "\<exists>m bs h r. NewPCInitiateMessage 6 ''p'' True 77 (map Some []) 100 0 NoAddr NoAddr [] = Inr m \<and>
    PCInitiateMessage_Serialize m = Inr bs \<and>
    CommonHeader_DecodeFromBytes (take 4 bs) = Inr h \<and> ch_MessageType h = MessageTypeLSPInitReq \<and>
    unat (ch_MessageLength h) = length bs \<and>
    PCRptMessage_DecodeFromBytes NewPCRptMessage (drop 4 bs) = Some (Inr \<lparr>prm_StateReports = [r]\<rparr>) \<and>
    so_SrpID (sr_SrpObject r) = 6 \<and> so_RFlag (sr_SrpObject r) \<and> lo_PlspID (sr_LSPObject r) = 77 \<and>
    lo_Name (sr_LSPObject r) = ''p'' \<and> sr_EroObject r = EroObject_zero \<and>
    sr_AssociationObject r = AssociationObject_zero"
proof (rule PCInitiate_delete)
  show "name_ok ''p''" unfolding name_ok_def by code_simp
qed simp

end
