(* ===== verification/Netip_Text.thy ===== *)
theory Netip_Text
  imports Netip Go_Strings
begin

text \<open>
  The textual side of Go's standard library that the repository relies on: \<open>strconv.ParseUint\<close>
  in base 10, \<open>strconv.Itoa\<close>, \<open>netip.ParseAddr\<close>, and the \<open>String\<close> methods of \<open>netip.Addr\<close>
  and \<open>netip.Prefix\<close>. Error values keep the message and drop the quoted input.
\<close>

section \<open>Decimal numbers\<close>

definition is_digit :: "char \<Rightarrow> bool" where
  "is_digit c \<longleftrightarrow> 48 \<le> (of_char c :: nat) \<and> (of_char c :: nat) \<le> 57"

definition digit_value :: "char \<Rightarrow> nat" where
  "digit_value c = of_char c - 48"

definition decimal_value :: "string \<Rightarrow> nat" where
  "decimal_value s = foldl (\<lambda>n c. 10 * n + digit_value c) 0 s"

text \<open>\<open>strconv.ParseUint(s, 10, bits)\<close>: digits only (no sign), at least one, in range.\<close>

definition ParseUint :: "string \<Rightarrow> nat \<Rightarrow> nat result" where
  "ParseUint s b =
     (if s = [] \<or> \<not> list_all is_digit s then errorf ''invalid syntax'' []
      else if 2 ^ b \<le> decimal_value s then errorf ''value out of range'' []
      else Inr (decimal_value s))"

definition Itoa :: "int \<Rightarrow> string" where
  "Itoa i = (if i < 0 then CHR ''-'' # string_of_nat (nat (- i)) else string_of_nat (nat i))"

lemma digit_char:
  assumes "d < 10"
  shows "is_digit (char_of (48 + d :: nat))" "digit_value (char_of (48 + d :: nat)) = d"
  using assms by (simp_all add: is_digit_def digit_value_def)

lemma string_of_nat_digits: "list_all is_digit (string_of_nat n) \<and> string_of_nat n \<noteq> []"
proof (induction n rule: string_of_nat.induct)
  case (1 n)
  then show ?case
    by (subst (1 2) string_of_nat.simps) (auto simp: digit_char)
qed

lemma decimal_value_string_of_nat [simp]: "decimal_value (string_of_nat n) = n"
proof (induction n rule: string_of_nat.induct)
  case (1 n)
  then show ?case
    by (subst string_of_nat.simps) (auto simp: decimal_value_def digit_char)
qed

lemma ParseUint_string_of_nat [simp]:
  "ParseUint (string_of_nat n) b = (if n < 2 ^ b then Inr n else errorf ''value out of range'' [])"
  using string_of_nat_digits [of n] by (simp add: ParseUint_def not_less)

lemma ParseUint_less: "ParseUint s b = Inr n \<Longrightarrow> n < 2 ^ b"
  by (auto simp: ParseUint_def split: if_splits)

lemma ParseUint_no_panic [simp]: "ParseUint s b \<noteq> panic"
  by (simp add: ParseUint_def)

section \<open>netip.ParseAddr\<close>

text \<open>\<open>parseIPv4Fields\<close>: the loop over the characters, with the fields already read.\<close>

definition parseAddrError :: "string \<Rightarrow> 'a result" where
  "parseAddrError msg = errorf msg []"

fun parseIPv4Loop :: "string \<Rightarrow> char option \<Rightarrow> nat \<Rightarrow> nat \<Rightarrow> nat list \<Rightarrow> nat list result" where
  "parseIPv4Loop [] prev v digLen flds =
     (if length flds < 3 then parseAddrError ''IPv4 address too short'' else Inr (flds @ [v]))"
| "parseIPv4Loop (c # s) prev v digLen flds =
     (if is_digit c then
        if digLen = 1 \<and> v = 0 then parseAddrError ''IPv4 field has octet with leading zero''
        else
          let v = v * 10 + digit_value c in
          if v > 255 then parseAddrError ''IPv4 field has value >255''
          else parseIPv4Loop s (Some c) v (digLen + 1) flds
      else if c = CHR ''.'' then
        if prev = None \<or> s = [] \<or> prev = Some (CHR ''.'')
        then parseAddrError ''IPv4 field must have at least one digit''
        else if length flds = 3 then parseAddrError ''IPv4 address too long''
        else parseIPv4Loop s (Some c) 0 0 (flds @ [v])
      else parseAddrError ''unexpected character'')"

definition parseIPv4Fields :: "string \<Rightarrow> bytes result" where
  "parseIPv4Fields s =
     bindE (parseIPv4Loop s None 0 0 []) (\<lambda>flds. Inr (map word_of_nat flds))"

definition hex_value :: "char \<Rightarrow> nat option" where
  "hex_value c =
     (let n = of_char c :: nat in
      if 48 \<le> n \<and> n \<le> 57 then Some (n - 48)
      else if 97 \<le> n \<and> n \<le> 102 then Some (n - 87)
      else if 65 \<le> n \<and> n \<le> 70 then Some (n - 55)
      else None)"

text \<open>The hexadecimal group at the front: its value, its number of digits and the rest.\<close>

fun hexGroup :: "string \<Rightarrow> nat \<Rightarrow> nat \<Rightarrow> (nat \<times> nat \<times> string) result" where
  "hexGroup [] off acc = Inr (acc, off, [])"
| "hexGroup (c # s) off acc =
     (case hex_value c of
        None \<Rightarrow> Inr (acc, off, c # s)
      | Some d \<Rightarrow>
          if off > 3 then parseAddrError ''each group must have 4 or less digits''
          else hexGroup s (off + 1) (acc * 16 + d))"

text \<open>
  The loop of \<open>parseIPv6\<close>: \<open>ip\<close> holds the bytes read so far, \<open>ellipsis\<close> the position of a
  double colon. The result is the three at the end of the loop with what is left of the text.
\<close>

function parseIPv6Loop ::
    "string \<Rightarrow> bytes \<Rightarrow> nat option \<Rightarrow> (string \<times> bytes \<times> nat option) result" where
  "parseIPv6Loop s ip ellipsis =
     (if length ip \<ge> 16 then Inr (s, ip, ellipsis)
      else
        bindE (hexGroup s 0 0) (\<lambda>(acc, off, rest).
        if off = 0 then parseAddrError ''each colon-separated field must have at least one digit''
        else case rest of
            [] \<Rightarrow> Inr ([], ip @ be16 (word_of_nat acc), ellipsis)
          | c # s1 \<Rightarrow>
              if c = CHR ''.'' then
                if ellipsis = None \<and> length ip \<noteq> 12
                then parseAddrError ''embedded IPv4 address must replace the final 2 fields of the address''
                else if length ip + 4 > 16
                then parseAddrError ''too many hex fields to fit an embedded IPv4 at the end of the address''
                else bindE (parseIPv4Fields s) (\<lambda>flds. Inr ([], ip @ flds, ellipsis))
              else
                let ip' = ip @ be16 (word_of_nat acc) in
                if c \<noteq> CHR '':'' then parseAddrError ''unexpected character, want colon''
                else case s1 of
                    [] \<Rightarrow> parseAddrError ''colon must be followed by more characters''
                  | d # s2 \<Rightarrow>
                      if d = CHR '':'' then
                        if ellipsis \<noteq> None then parseAddrError ''multiple :: in address''
                        else if s2 = [] then Inr ([], ip', Some (length ip'))
                        else parseIPv6Loop s2 ip' (Some (length ip'))
                      else parseIPv6Loop s1 ip' ellipsis))"
  by pat_completeness auto

termination
  by (relation "measure (\<lambda>(s, ip, e). 16 - length ip)") auto

declare parseIPv6Loop.simps [simp del]

text \<open>\<open>if i < 16 { ... }\<close>: the bytes after the double colon move to the end.\<close>

definition expandEllipsis :: "bytes \<Rightarrow> nat option \<Rightarrow> bytes result" where
  "expandEllipsis ip ellipsis =
     (if length ip < 16 then
        case ellipsis of
          None \<Rightarrow> parseAddrError ''address string too short''
        | Some e \<Rightarrow> Inr (take e ip @ makeBytes (16 - length ip) @ drop e ip)
      else if ellipsis \<noteq> None
      then parseAddrError ''the :: must expand to at least one field of zeros''
      else Inr ip)"

definition parseIPv6 :: "string \<Rightarrow> addr result" where
  "parseIPv6 text =
     (let s = takeWhile (\<lambda>c. c \<noteq> CHR ''%'') text;
          hasZone = CHR ''%'' \<in> set text;
          z = drop (length s + 1) text in
      if hasZone \<and> z = [] then parseAddrError ''zone must be a non-empty string''
      else
        let lead = take 2 s = '':'' @ '':'';
            ellipsis = (if lead then Some 0 else None);
            s = (if lead then drop 2 s else s) in
        if lead \<and> s = [] then Inr (Addr6 0 z)
        else
          bindE (parseIPv6Loop s [] ellipsis) (\<lambda>(s, ip, ellipsis).
          if s \<noteq> [] then parseAddrError ''trailing garbage after address''
          else bindE (expandEllipsis ip ellipsis) (\<lambda>ip. Inr (Addr6 (beUint128 ip) z))))"

text \<open>The first of the characters \<open>. : %\<close> decides the family.\<close>

definition ParseAddr :: "string \<Rightarrow> addr result" where
  "ParseAddr s =
     (case dropWhile (\<lambda>c. c \<noteq> CHR ''.'' \<and> c \<noteq> CHR '':'' \<and> c \<noteq> CHR ''%'') s of
        [] \<Rightarrow> parseAddrError ''unable to parse IP''
      | c # _ \<Rightarrow>
          if c = CHR ''.'' then bindE (parseIPv4Fields s) (\<lambda>flds. Inr (AddrFrom4 flds))
          else if c = CHR '':'' then parseIPv6 s
          else parseAddrError ''missing IPv6 address'')"

text \<open>\<open>strconv.Atoi\<close>: an optional sign and digits, within 64 bits.\<close>

definition Atoi :: "string \<Rightarrow> int result" where
  "Atoi s =
     (let neg = (take 1 s = ''-''); digits = (if take 1 s = ''-'' \<or> take 1 s = ''+'' then drop 1 s else s) in
      if digits = [] \<or> \<not> list_all is_digit digits then errorf ''invalid syntax'' []
      else if neg \<and> decimal_value digits > 2 ^ 63 \<or> \<not> neg \<and> decimal_value digits \<ge> 2 ^ 63
      then errorf ''value out of range'' []
      else Inr (if neg then - int (decimal_value digits) else int (decimal_value digits)))"

definition parsePrefixError :: "string \<Rightarrow> 'a result" where
  "parsePrefixError msg = errorf msg []"

text \<open>
  \<open>netip.ParsePrefix\<close>: the text is cut at its last slash; zones, signs and leading zeros are refused.
\<close>

definition ParsePrefix :: "string \<Rightarrow> prefix result" where
  "ParsePrefix s =
     (if CHR ''/'' \<notin> set s then parsePrefixError ''no slash''
      else
        let bitsStr = rev (takeWhile (\<lambda>c. c \<noteq> CHR ''/'') (rev s));
            ipStr = take (length s - length bitsStr - 1) s in
        bindE (ParseAddr ipStr) (\<lambda>ip.
        if hasZone ip then parsePrefixError ''IPv6 zones cannot be present in a prefix''
        else if 1 < length bitsStr \<and> (hd bitsStr = CHR ''0'' \<or> \<not> is_digit (hd bitsStr))
        then parsePrefixError ''bad bits after slash''
        else case Atoi bitsStr of
            Inl _ \<Rightarrow> parsePrefixError ''bad bits after slash''
          | Inr b \<Rightarrow>
              if b < 0 \<or> (if Is6 ip then 128 else 32) < b then parsePrefixError ''prefix length out of range''
              else Inr \<lparr>pfx_Addr = ip, pfx_Bits = b\<rparr>))"

section \<open>Addresses and prefixes as text\<close>

definition string4 :: "u32 \<Rightarrow> string" where
  "string4 v = concat (map (\<lambda>i. (if i = 0 then [] else ''.'') @ string_of_nat (unat (be32 v ! i))) [0..<4])"

fun hexString :: "nat \<Rightarrow> string" where
  "hexString n = (if n < 16 then [hex_digit n] else hexString (n div 16) @ [hex_digit (n mod 16)])"

declare hexString.simps [simp del]

definition v6u16 :: "u128 \<Rightarrow> nat \<Rightarrow> nat" where
  "v6u16 v i = unat v div 65536 ^ (7 - i) mod 65536"

definition zeroRun :: "u128 \<Rightarrow> nat \<Rightarrow> nat" where
  "zeroRun v i = length (takeWhile (\<lambda>j. v6u16 v j = 0) [i..<8])"

text \<open>The first of the longest runs of at least two zero groups, \<open>(255, 255)\<close> without one.\<close>

definition zeroSpan :: "u128 \<Rightarrow> nat \<times> nat" where
  "zeroSpan v =
     foldl (\<lambda>(zs, ze) i. let l = zeroRun v i in
        if 2 \<le> l \<and> ze - zs < l then (i, i + l) else (zs, ze)) (255, 255) [0..<8]"

definition string6 :: "u128 \<Rightarrow> string" where
  "string6 v =
     (let (zs, ze) = zeroSpan v in
      concat (map (\<lambda>i.
        if zs \<le> i \<and> i < ze then (if i = zs then '':'' @ '':'' else [])
        else (if 0 < i \<and> i \<noteq> ze then '':'' else []) @ hexString (v6u16 v i)) [0..<8]))"

fun addr_String :: "addr \<Rightarrow> string" where
  "addr_String NoAddr = ''invalid IP''"
| "addr_String (Addr4 v) = string4 v"
| "addr_String (Addr6 v z) =
     (if Is4In6 (Addr6 v z) then ''::ffff:'' @ string4 (ucast v) else string6 v)
       @ (if z = [] then [] else CHR ''%'' # z)"

definition prefix_String :: "prefix \<Rightarrow> string" where
  "prefix_String p =
     (if \<not> prefix_IsValid p then ''invalid Prefix''
      else addr_String (pfx_Addr p) @ ''/'' @ Itoa (pfx_Bits p))"

text \<open>\<open>MarshalText\<close> and \<open>UnmarshalText\<close> of an address: the zero value is the empty text.\<close>

definition addr_MarshalText :: "addr \<Rightarrow> string" where
  "addr_MarshalText a = (if a = NoAddr then [] else addr_String a)"

definition addr_UnmarshalText :: "string \<Rightarrow> addr result" where
  "addr_UnmarshalText s = (if s = [] then Inr NoAddr else ParseAddr s)"

section \<open>Laws\<close>

lemma dropWhile_all_digits:
  assumes "list_all is_digit s"
  shows "dropWhile (\<lambda>c. c \<noteq> CHR ''.'' \<and> c \<noteq> CHR '':'' \<and> c \<noteq> CHR ''%'') s = []"
proof -
  have "\<not> is_digit CHR ''.''" "\<not> is_digit CHR '':''" "\<not> is_digit CHR ''%''"
    by (simp_all add: is_digit_def)
  then have "\<forall>c \<in> set s. c \<noteq> CHR ''.'' \<and> c \<noteq> CHR '':'' \<and> c \<noteq> CHR ''%''"
    using assms by (auto simp: list_all_iff)
  then show ?thesis by simp
qed

text \<open>A number in decimal is never taken for an address.\<close>

lemma ParseAddr_digits: "list_all is_digit s \<Longrightarrow> ParseAddr s = errorf ''unable to parse IP'' []"
  by (simp add: ParseAddr_def dropWhile_all_digits parseAddrError_def)

lemma ParseIPv4_no_panic [simp]: "parseIPv4Fields s \<noteq> panic"
proof -
  have "parseIPv4Loop s p v d fs \<noteq> panic" for p v d fs
    by (induction s p v d fs rule: parseIPv4Loop.induct) (auto simp: parseAddrError_def Let_def)
  then show ?thesis by (auto simp: parseIPv4Fields_def bindE_eq_Inl)
qed

lemma hexGroup_no_panic [simp]: "hexGroup s off acc \<noteq> panic"
  by (induction s off acc rule: hexGroup.induct) (auto simp: parseAddrError_def split: option.splits)

lemma parseIPv6Loop_no_panic [simp]: "parseIPv6Loop s ip e \<noteq> panic"
proof (induction "16 - length ip" arbitrary: s ip e rule: less_induct)
  case less
  have "parseIPv6Loop s' (ip @ be16 w) e' \<noteq> panic" if "\<not> 16 \<le> length ip" for s' w e'
    using that by (intro less) simp
  then show ?case
    by (subst parseIPv6Loop.simps)
      (auto simp: parseAddrError_def Let_def bindE_eq_Inl split: list.splits if_splits)
qed

lemma expandEllipsis_no_panic [simp]: "expandEllipsis ip e \<noteq> panic"
  by (simp add: expandEllipsis_def parseAddrError_def split: option.splits)

lemma parseIPv6_no_panic [simp]: "parseIPv6 s \<noteq> panic"
  unfolding parseIPv6_def parseAddrError_def Let_def
  by (auto simp: bindE_eq_Inl split: if_splits)

lemma ParseAddr_no_panic [simp]: "ParseAddr s \<noteq> panic"
  by (auto simp: ParseAddr_def parseAddrError_def bindE_eq_Inl split: list.splits)

end
