(* ===== verification/Ted.thy ===== *)
theory Ted
  imports Segment Netip_Text "HOL-Library.AList"
begin

text \<open>
  \<open>src/pkg/table/ted.go\<close> and the segment constructors of \<open>sr_policy.go\<close> that read it: the
  traffic engineering database. Its nodes are shared by pointer (the node map, the elements of
  an update and both ends of every link point to them), so nodes live in an explicit heap and a
  \<open>*LsNode\<close> is an index into it, \<open>None\<close> for nil. Links, prefixes and SIDs are each held by one
  node only and are values of that node.
\<close>

section \<open>Data\<close>

record SIDStructure =
  st_LocalBlock :: u8
  st_LocalNode :: u8
  st_LocalFunc :: u8
  st_LocalArg :: u8

record EndpointBehavior =
  eb_Behavior :: u16
  eb_Flags :: u8
  eb_Algorithm :: u8

record Srv6EndXSID =
  ex_EndpointBehavior :: u16
  ex_Sids :: "string list"
  ex_Srv6SIDStructure :: SIDStructure

record Metric =
  mt_Type :: MetricType
  mt_Value :: u32

type_synonym nodeptr = "nat option"

record LsLink =
  lk_LocalNode :: nodeptr
  lk_RemoteNode :: nodeptr
  lk_LocalIP :: addr
  lk_RemoteIP :: addr
  lk_Metrics :: "Metric list"
  lk_AdjSid :: u32
  lk_Srv6EndXSID :: "Srv6EndXSID option"

record LsPrefix =
  px_LocalNode :: nodeptr
  px_Prefix :: prefix
  px_SidIndex :: u32
  px_HasSidIndex :: bool

record LsSrv6SID =
  sv_LocalNode :: nodeptr
  sv_Sids :: "string list"
  sv_EndpointBehavior :: EndpointBehavior
  sv_SIDStructure :: SIDStructure
  sv_MultiTopoIDs :: "u32 list"

text \<open>The lists hold pointers, so an entry may be nil.\<close>

record LsNode =
  nd_ASN :: u32
  nd_RouterID :: string
  nd_IsisAreaID :: string
  nd_Hostname :: string
  nd_SrgbBegin :: u32
  nd_SrgbEnd :: u32
  nd_Links :: "LsLink option list"
  nd_Prefixes :: "LsPrefix option list"
  nd_SRv6SIDs :: "LsSrv6SID option list"

type_synonym heap = "LsNode list"

text \<open>The map of \<open>LsTED\<close>, as the list of its entries.\<close>

record LsTED =
  ted_Nodes :: "(string \<times> nodeptr) list"

definition loadNode :: "heap \<Rightarrow> nodeptr \<Rightarrow> LsNode result" where
  "loadNode h p = (case p of None \<Rightarrow> panic | Some i \<Rightarrow> indexE h i)"

definition storeNode :: "heap \<Rightarrow> nodeptr \<Rightarrow> LsNode \<Rightarrow> heap result" where
  "storeNode h p n = (case p of None \<Rightarrow> panic | Some i \<Rightarrow> if i < length h then Inr (h[i := n]) else panic)"

text \<open>\<open>ted.Nodes[id]\<close> read without the second result: nil when the key is absent.\<close>

definition nodeAt :: "(string \<times> nodeptr) list \<Rightarrow> string \<Rightarrow> nodeptr" where
  "nodeAt nodes rid = (case map_of nodes rid of Some p \<Rightarrow> p | None \<Rightarrow> None)"

section \<open>Nodes, links, prefixes\<close>

definition NewLsNode :: "u32 \<Rightarrow> string \<Rightarrow> LsNode" where
  "NewLsNode asn nodeID =
     \<lparr>nd_ASN = asn, nd_RouterID = nodeID, nd_IsisAreaID = [], nd_Hostname = [], nd_SrgbBegin = 0,
      nd_SrgbEnd = 0, nd_Links = [], nd_Prefixes = [], nd_SRv6SIDs = []\<rparr>"

definition NewLsLink :: "nodeptr \<Rightarrow> nodeptr \<Rightarrow> LsLink" where
  "NewLsLink localNode remoteNode =
     \<lparr>lk_LocalNode = localNode, lk_RemoteNode = remoteNode, lk_LocalIP = NoAddr, lk_RemoteIP = NoAddr,
      lk_Metrics = [], lk_AdjSid = 0, lk_Srv6EndXSID = None\<rparr>"

definition NewLsPrefix :: "nodeptr \<Rightarrow> LsPrefix" where
  "NewLsPrefix localNode =
     \<lparr>px_LocalNode = localNode, px_Prefix = \<lparr>pfx_Addr = NoAddr, pfx_Bits = -1\<rparr>, px_SidIndex = 0,
      px_HasSidIndex = False\<rparr>"

definition NewLsSrv6SID :: "nodeptr \<Rightarrow> LsSrv6SID" where
  "NewLsSrv6SID node =
     \<lparr>sv_LocalNode = node, sv_Sids = [],
      sv_EndpointBehavior = \<lparr>eb_Behavior = 0, eb_Flags = 0, eb_Algorithm = 0\<rparr>,
      sv_SIDStructure = \<lparr>st_LocalBlock = 0, st_LocalNode = 0, st_LocalFunc = 0, st_LocalArg = 0\<rparr>,
      sv_MultiTopoIDs = []\<rparr>"

definition NewMetric :: "MetricType \<Rightarrow> u32 \<Rightarrow> Metric" where
  "NewMetric metricType val = \<lparr>mt_Type = metricType, mt_Value = val\<rparr>"

fun HasPrefixSID :: "LsPrefix option \<Rightarrow> bool" where
  "HasPrefixSID None = False"
| "HasPrefixSID (Some lp) = px_HasSidIndex lp"

definition AddLink :: "LsNode \<Rightarrow> LsLink option \<Rightarrow> LsNode" where
  "AddLink n link = n\<lparr>nd_Links := nd_Links n @ [link]\<rparr>"

definition AddSrv6SID :: "LsNode \<Rightarrow> LsSrv6SID option \<Rightarrow> LsNode" where
  "AddSrv6SID n s = n\<lparr>nd_SRv6SIDs := nd_SRv6SIDs n @ [s]\<rparr>"

fun findMetric :: "MetricType \<Rightarrow> Metric list \<Rightarrow> u32 result" where
  "findMetric mt [] = errorf (''metric '' @ MetricType_String mt @ '' not defined'') []"
| "findMetric mt (m # ms) = (if mt_Type m = mt then Inr (mt_Value m) else findMetric mt ms)"

definition LsLink_Metric :: "LsLink \<Rightarrow> MetricType \<Rightarrow> u32 result" where
  "LsLink_Metric l metricType = findMetric metricType (lk_Metrics l)"

section \<open>Segments from text and from the database\<close>

definition NewSegment :: "string \<Rightarrow> Segment result" where
  "NewSegment sid =
     (case ParseAddr sid of
        Inr a \<Rightarrow>
          if Is6 a then Inr (SRv6 (NewSegmentSRv6 a))
          else (case ParseUint sid 32 of
              Inr i \<Rightarrow> Inr (SRMPLS (NewSegmentSRMPLS (word_of_nat i)))
            | Inl _ \<Rightarrow> errorf ''invalid SID'' [])
      | Inl _ \<Rightarrow>
          (case ParseUint sid 32 of
              Inr i \<Rightarrow> Inr (SRMPLS (NewSegmentSRMPLS (word_of_nat i)))
            | Inl _ \<Rightarrow> errorf ''invalid SID'' []))"

fun SidString :: "Segment \<Rightarrow> string" where
  "SidString (SRv6 s) = addr_String (s6_Sid s)"
| "SidString (SRMPLS s) = Itoa (uint (sm_Sid s))"

text \<open>The loop over \<open>n.SRv6SIDs\<close>: it stops at the first entry that holds a SID.\<close>

fun srv6NodeInfo :: "SegmentSRv6 \<Rightarrow> LsSrv6SID option list \<Rightarrow> SegmentSRv6 result" where
  "srv6NodeInfo seg [] = errorf ''no SRv6 SIDs available'' []"
| "srv6NodeInfo seg (None # ss) = panic"
| "srv6NodeInfo seg (Some s # ss) =
     (case sv_Sids s of
        [] \<Rightarrow> srv6NodeInfo seg ss
      | sid # _ \<Rightarrow>
          bindE (ParseAddr sid) (\<lambda>a.
          Inr (seg\<lparr>s6_LocalAddr := a,
             s6_Structure := Some [st_LocalBlock (sv_SIDStructure s), st_LocalNode (sv_SIDStructure s),
                st_LocalFunc (sv_SIDStructure s), st_LocalArg (sv_SIDStructure s)],
             s6_USid := (eb_Behavior (sv_EndpointBehavior s) = BehaviorUN \<or>
                eb_Behavior (sv_EndpointBehavior s) = BehaviorUA)\<rparr>)))"

definition NewSegmentSRv6WithNodeInfo :: "addr \<Rightarrow> LsNode \<Rightarrow> SegmentSRv6 result" where
  "NewSegmentSRv6WithNodeInfo sid n = srv6NodeInfo (SegmentSRv6_zero\<lparr>s6_Sid := sid\<rparr>) (nd_SRv6SIDs n)"

fun firstSRv6SID :: "LsSrv6SID option list \<Rightarrow> string option result" where
  "firstSRv6SID [] = Inr None"
| "firstSRv6SID (None # ss) = panic"
| "firstSRv6SID (Some s # ss) = (case sv_Sids s of [] \<Rightarrow> firstSRv6SID ss | sid # _ \<Rightarrow> Inr (Some sid))"

definition NodeSegment :: "LsNode \<Rightarrow> Segment result" where
  "NodeSegment n =
     (case List.find HasPrefixSID (nd_Prefixes n) of
        Some (Some p) \<Rightarrow> NewSegment (Itoa (uint (nd_SrgbBegin n + px_SidIndex p)))
      | _ \<Rightarrow>
        bindE (firstSRv6SID (nd_SRv6SIDs n)) (\<lambda>found.
        case found of
          None \<Rightarrow> errorf ''node doesn't have a Node SID'' []
        | Some sid \<Rightarrow>
            bindE (ParseAddr sid) (\<lambda>a.
            bindE (NewSegmentSRv6WithNodeInfo a n) (\<lambda>seg. Inr (SRv6 seg)))))"

fun loopbackOf :: "LsPrefix option list \<Rightarrow> addr result" where
  "loopbackOf [] = errorf ''node doesn't have a loopback address'' []"
| "loopbackOf (None # ps) = panic"
| "loopbackOf (Some p # ps) =
     (let a = pfx_Addr (px_Prefix p); b = pfx_Bits (px_Prefix p) in
      if Is4 a then (if b = 32 then Inr a else loopbackOf ps)
      else if Is6 a then (if b = 128 then Inr a else loopbackOf ps)
      else loopbackOf ps)"

definition LoopbackAddr :: "LsNode \<Rightarrow> addr result" where
  "LoopbackAddr n = loopbackOf (nd_Prefixes n)"

section \<open>Updates\<close>

datatype TEDElem =
    ElemNode nodeptr
  | ElemLink LsLink
  | ElemPrefix LsPrefix
  | ElemSrv6SID LsSrv6SID

type_synonym tedState = "heap \<times> LsTED"

text \<open>\<open>if _, ok := nodes[id]; !ok { nodes[id] = NewLsNode(asn, id) }\<close>\<close>

definition ensureNode :: "tedState \<Rightarrow> LsNode \<Rightarrow> tedState" where
  "ensureNode st n =
     (case st of (h, ted) \<Rightarrow>
      case map_of (ted_Nodes ted) (nd_RouterID n) of
        Some _ \<Rightarrow> st
      | None \<Rightarrow> (h @ [NewLsNode (nd_ASN n) (nd_RouterID n)],
                  ted\<lparr>ted_Nodes := AList.update (nd_RouterID n) (Some (length h)) (ted_Nodes ted)\<rparr>))"

definition LsNode_UpdateTED :: "nodeptr \<Rightarrow> u32 \<Rightarrow> tedState \<Rightarrow> tedState result" where
  "LsNode_UpdateTED p cfgASN st =
     (case st of (h, ted) \<Rightarrow>
      bindE (loadNode h p) (\<lambda>n.
      if nd_ASN n \<noteq> cfgASN then Inr (h, ted)
      else case map_of (ted_Nodes ted) (nd_RouterID n) of
          Some q \<Rightarrow>
            bindE (loadNode h q) (\<lambda>node.
            bindE (storeNode h q (node\<lparr>nd_Hostname := nd_Hostname n, nd_IsisAreaID := nd_IsisAreaID n,
                nd_SrgbBegin := nd_SrgbBegin n, nd_SrgbEnd := nd_SrgbEnd n\<rparr>)) (\<lambda>h.
            Inr (h, ted)))
        | None \<Rightarrow> Inr (h, ted\<lparr>ted_Nodes := AList.update (nd_RouterID n) p (ted_Nodes ted)\<rparr>)))"

definition LsLink_UpdateTED :: "LsLink \<Rightarrow> u32 \<Rightarrow> tedState \<Rightarrow> tedState result" where
  "LsLink_UpdateTED l cfgASN st =
     (bindE (loadNode (fst st) (lk_LocalNode l)) (\<lambda>localNode.
      if nd_ASN localNode \<noteq> cfgASN then Inr st
      else
        bindE (loadNode (fst st) (lk_RemoteNode l)) (\<lambda>remoteNode.
        if nd_ASN remoteNode \<noteq> cfgASN then Inr st
        else
          let (h, ted) = ensureNode (ensureNode st localNode) remoteNode;
              lp = nodeAt (ted_Nodes ted) (nd_RouterID localNode);
              rp = nodeAt (ted_Nodes ted) (nd_RouterID remoteNode);
              l = l\<lparr>lk_LocalNode := lp, lk_RemoteNode := rp\<rparr> in
          bindE (loadNode h lp) (\<lambda>n.
          bindE (storeNode h lp (AddLink n (Some l))) (\<lambda>h.
          Inr (h, ted))))))"

text \<open>The search among the prefixes the node already has, by their text.\<close>

fun prefixKnown :: "string \<Rightarrow> LsPrefix option list \<Rightarrow> bool result" where
  "prefixKnown s [] = Inr False"
| "prefixKnown s (None # ps) = panic"
| "prefixKnown s (Some p # ps) =
     (if prefix_String (px_Prefix p) = s then Inr True else prefixKnown s ps)"

definition LsPrefix_UpdateTED :: "LsPrefix \<Rightarrow> u32 \<Rightarrow> tedState \<Rightarrow> tedState result" where
  "LsPrefix_UpdateTED lp cfgASN st =
     (bindE (loadNode (fst st) (px_LocalNode lp)) (\<lambda>localNode.
      if nd_ASN localNode \<noteq> cfgASN then Inr st
      else
        let (h, ted) = ensureNode st localNode;
            p = nodeAt (ted_Nodes ted) (nd_RouterID localNode) in
        bindE (loadNode h p) (\<lambda>n.
        bindE (prefixKnown (prefix_String (px_Prefix lp)) (nd_Prefixes n)) (\<lambda>known.
        if known then Inr (h, ted)
        else bindE (storeNode h p (n\<lparr>nd_Prefixes := nd_Prefixes n @ [Some lp]\<rparr>)) (\<lambda>h.
             Inr (h, ted))))))"

definition LsSrv6SID_UpdateTED :: "LsSrv6SID \<Rightarrow> u32 \<Rightarrow> tedState \<Rightarrow> tedState result" where
  "LsSrv6SID_UpdateTED s cfgASN st =
     (bindE (loadNode (fst st) (sv_LocalNode s)) (\<lambda>localNode.
      if nd_ASN localNode \<noteq> cfgASN then Inr st
      else
        let (h, ted) = ensureNode st localNode;
            p = nodeAt (ted_Nodes ted) (nd_RouterID localNode) in
        bindE (loadNode h p) (\<lambda>n.
        bindE (storeNode h p (AddSrv6SID n (Some (s\<lparr>sv_LocalNode := p\<rparr>)))) (\<lambda>h.
        Inr (h, ted)))))"

fun UpdateTED :: "TEDElem \<Rightarrow> u32 \<Rightarrow> tedState \<Rightarrow> tedState result" where
  "UpdateTED (ElemNode p) asn st = LsNode_UpdateTED p asn st"
| "UpdateTED (ElemLink l) asn st = LsLink_UpdateTED l asn st"
| "UpdateTED (ElemPrefix p) asn st = LsPrefix_UpdateTED p asn st"
| "UpdateTED (ElemSrv6SID s) asn st = LsSrv6SID_UpdateTED s asn st"

fun LsTED_Update :: "TEDElem list \<Rightarrow> u32 \<Rightarrow> tedState \<Rightarrow> tedState result" where
  "LsTED_Update [] asn st = Inr st"
| "LsTED_Update (e # es) asn st = bindE (UpdateTED e asn st) (LsTED_Update es asn)"

end
