(* ===== verification/Ted_View.thy ===== *)
theory Ted_View
  imports Ted
begin

text \<open>
  What an update of the traffic engineering database means, without pointers: a \<open>NodeView\<close> is a
  node whose links name their remote router, an abstract database maps router IDs to views, and
  \<open>view_update\<close> says what one element of an update does to it. The heap invariant \<open>ted_ok\<close> is kept
  by \<open>LsTED.Update\<close>, and the view of its result is the fold of \<open>view_update\<close> over the elements.
\<close>

section \<open>Views\<close>

record NodeView =
  vw_ASN :: u32
  vw_IsisAreaID :: string
  vw_Hostname :: string
  vw_SrgbBegin :: u32
  vw_SrgbEnd :: u32
  vw_Links :: "(string \<times> LsLink) list"
  vw_Prefixes :: "LsPrefix list"
  vw_SRv6SIDs :: "LsSrv6SID list"

type_synonym tedView = "string \<rightharpoonup> NodeView"

definition plainLink :: "LsLink \<Rightarrow> LsLink" where
  "plainLink l = l\<lparr>lk_LocalNode := None, lk_RemoteNode := None\<rparr>"

definition plainPrefix :: "LsPrefix \<Rightarrow> LsPrefix" where
  "plainPrefix p = p\<lparr>px_LocalNode := None\<rparr>"

definition plainSID :: "LsSrv6SID \<Rightarrow> LsSrv6SID" where
  "plainSID s = s\<lparr>sv_LocalNode := None\<rparr>"

definition ptrRouterID :: "heap \<Rightarrow> nodeptr \<Rightarrow> string" where
  "ptrRouterID h p = nd_RouterID (h ! the p)"

definition linkView :: "heap \<Rightarrow> LsLink option \<Rightarrow> string \<times> LsLink" where
  "linkView h l = (ptrRouterID h (lk_RemoteNode (the l)), plainLink (the l))"

definition nodeView :: "heap \<Rightarrow> LsNode \<Rightarrow> NodeView" where
  "nodeView h n =
     \<lparr>vw_ASN = nd_ASN n, vw_IsisAreaID = nd_IsisAreaID n, vw_Hostname = nd_Hostname n,
      vw_SrgbBegin = nd_SrgbBegin n, vw_SrgbEnd = nd_SrgbEnd n,
      vw_Links = map (linkView h) (nd_Links n),
      vw_Prefixes = map (plainPrefix \<circ> the) (nd_Prefixes n),
      vw_SRv6SIDs = map (plainSID \<circ> the) (nd_SRv6SIDs n)\<rparr>"

definition tedViewOf :: "tedState \<Rightarrow> tedView" where
  "tedViewOf st rid =
     (case map_of (ted_Nodes (snd st)) rid of
        Some (Some i) \<Rightarrow> Some (nodeView (fst st) (fst st ! i)) | _ \<Rightarrow> None)"

section \<open>The specification of an update\<close>

definition emptyView :: "u32 \<Rightarrow> NodeView" where
  "emptyView asn =
     \<lparr>vw_ASN = asn, vw_IsisAreaID = [], vw_Hostname = [], vw_SrgbBegin = 0, vw_SrgbEnd = 0,
      vw_Links = [], vw_Prefixes = [], vw_SRv6SIDs = []\<rparr>"

definition viewNode :: "u32 \<Rightarrow> tedView \<Rightarrow> string \<Rightarrow> NodeView" where
  "viewNode asn m rid = (case m rid of Some v \<Rightarrow> v | None \<Rightarrow> emptyView asn)"

text \<open>The two endpoints of an element, as their AS number and router ID.\<close>

fun view_update :: "heap \<Rightarrow> u32 \<Rightarrow> tedView \<Rightarrow> TEDElem \<Rightarrow> tedView" where
  "view_update h asn m (ElemNode p) =
     (let n = h ! the p; rid = nd_RouterID n; v = viewNode asn m rid in
      if nd_ASN n \<noteq> asn then m
      else m(rid \<mapsto> v\<lparr>vw_Hostname := nd_Hostname n, vw_IsisAreaID := nd_IsisAreaID n,
                       vw_SrgbBegin := nd_SrgbBegin n, vw_SrgbEnd := nd_SrgbEnd n\<rparr>))"
| "view_update h asn m (ElemLink l) =
     (let a = h ! the (lk_LocalNode l); b = h ! the (lk_RemoteNode l);
          m' = m(nd_RouterID a \<mapsto> viewNode asn m (nd_RouterID a));
          m' = m'(nd_RouterID b \<mapsto> viewNode asn m' (nd_RouterID b));
          v = viewNode asn m' (nd_RouterID a) in
      if nd_ASN a \<noteq> asn \<or> nd_ASN b \<noteq> asn then m
      else m'(nd_RouterID a \<mapsto> v\<lparr>vw_Links := vw_Links v @ [(nd_RouterID b, plainLink l)]\<rparr>))"
| "view_update h asn m (ElemPrefix p) =
     (let a = h ! the (px_LocalNode p); v = viewNode asn m (nd_RouterID a) in
      if nd_ASN a \<noteq> asn then m
      else m(nd_RouterID a \<mapsto>
             (if prefix_String (px_Prefix p) \<in> (\<lambda>q. prefix_String (px_Prefix q)) ` set (vw_Prefixes v) then v
              else v\<lparr>vw_Prefixes := vw_Prefixes v @ [plainPrefix p]\<rparr>)))"
| "view_update h asn m (ElemSrv6SID s) =
     (let a = h ! the (sv_LocalNode s); v = viewNode asn m (nd_RouterID a) in
      if nd_ASN a \<noteq> asn then m
      else m(nd_RouterID a \<mapsto> v\<lparr>vw_SRv6SIDs := vw_SRv6SIDs v @ [plainSID s]\<rparr>))"

section \<open>The heap invariant\<close>

definition node_ok :: "tedState \<Rightarrow> nat \<Rightarrow> bool" where
  "node_ok st i \<longleftrightarrow>
     (let n = fst st ! i in
      list_all (\<lambda>l. case l of None \<Rightarrow> False
        | Some l \<Rightarrow> lk_LocalNode l = Some i \<and>
            (case lk_RemoteNode l of None \<Rightarrow> False
             | Some j \<Rightarrow> map_of (ted_Nodes (snd st)) (nd_RouterID (fst st ! j)) = Some (Some j))) (nd_Links n) \<and>
      None \<notin> set (nd_Prefixes n) \<and> None \<notin> set (nd_SRv6SIDs n))"

definition entry_ok :: "u32 \<Rightarrow> tedState \<Rightarrow> string \<Rightarrow> nodeptr \<Rightarrow> bool" where
  "entry_ok asn st rid p \<longleftrightarrow>
     (case p of None \<Rightarrow> False
      | Some i \<Rightarrow> i < length (fst st) \<and> nd_RouterID (fst st ! i) = rid \<and> nd_ASN (fst st ! i) = asn \<and> node_ok st i)"

definition ted_ok :: "u32 \<Rightarrow> tedState \<Rightarrow> bool" where
  "ted_ok asn st \<longleftrightarrow>
     distinct (map fst (ted_Nodes (snd st))) \<and>
     (\<forall>rid p. map_of (ted_Nodes (snd st)) rid = Some p \<longrightarrow> entry_ok asn st rid p)"

text \<open>
  What an update expects of an element: its pointers lead to nodes, and a node element is a node
  with no links, prefixes or SIDs yet, as the BGP-LS side builds it.
\<close>

definition ptr_ok :: "heap \<Rightarrow> nodeptr \<Rightarrow> bool" where
  "ptr_ok h p \<longleftrightarrow> (case p of None \<Rightarrow> False | Some i \<Rightarrow> i < length h)"

definition bare :: "LsNode \<Rightarrow> bool" where
  "bare n \<longleftrightarrow> nd_Links n = [] \<and> nd_Prefixes n = [] \<and> nd_SRv6SIDs n = []"

fun elem_ok :: "heap \<Rightarrow> TEDElem \<Rightarrow> bool" where
  "elem_ok h (ElemNode p) \<longleftrightarrow> ptr_ok h p \<and> bare (h ! the p)"
| "elem_ok h (ElemLink l) \<longleftrightarrow> ptr_ok h (lk_LocalNode l) \<and> ptr_ok h (lk_RemoteNode l)"
| "elem_ok h (ElemPrefix p) \<longleftrightarrow> ptr_ok h (px_LocalNode p)"
| "elem_ok h (ElemSrv6SID s) \<longleftrightarrow> ptr_ok h (sv_LocalNode s)"

fun nodePtrs :: "TEDElem \<Rightarrow> nat list" where
  "nodePtrs (ElemNode (Some i)) = [i]"
| "nodePtrs _ = []"


section \<open>Lemmas on the heap\<close>

lemma ted_okD:
  assumes "ted_ok asn st" "map_of (ted_Nodes (snd st)) rid = Some p"
  obtains i where "p = Some i" "i < length (fst st)" "nd_RouterID (fst st ! i) = rid"
    "nd_ASN (fst st ! i) = asn" "node_ok st i"
proof -
  have "entry_ok asn st rid p" using assms by (simp add: ted_ok_def)
  then show ?thesis using that by (auto simp: entry_ok_def split: option.splits)
qed

lemma ted_ok_inj:
  assumes "ted_ok asn st" "map_of (ted_Nodes (snd st)) r = Some (Some i)"
    "map_of (ted_Nodes (snd st)) r' = Some (Some i)"
  shows "r = r'"
  using ted_okD [OF assms(1,2)] ted_okD [OF assms(1,3)] by (metis option.inject)

lemma node_ok_remote:
  assumes "ted_ok asn st" "node_ok st i" "l \<in> set (nd_Links (fst st ! i))"
  obtains l' j where "l = Some l'" "lk_LocalNode l' = Some i" "lk_RemoteNode l' = Some j" "j < length (fst st)"
    "map_of (ted_Nodes (snd st)) (nd_RouterID (fst st ! j)) = Some (Some j)"
proof -
  obtain l' j where l: "l = Some l'" "lk_LocalNode l' = Some i" "lk_RemoteNode l' = Some j"
    and m: "map_of (ted_Nodes (snd st)) (nd_RouterID (fst st ! j)) = Some (Some j)"
    using assms(2,3) by (fastforce simp: node_ok_def Let_def list_all_iff split: option.splits)
  then have "j < length (fst st)" using ted_okD [OF assms(1) m] by auto
  with l m show ?thesis using that by blast
qed

lemma nodeView_cong:
  assumes "\<And>l j. l \<in> set (nd_Links n) \<Longrightarrow> nd_RouterID (h' ! the (lk_RemoteNode (the l))) = nd_RouterID (h ! the (lk_RemoteNode (the l)))"
  shows "nodeView h' n = nodeView h n"
  using assms by (simp add: nodeView_def linkView_def ptrRouterID_def)

lemma nodeView_stable:
  assumes "ted_ok asn st" "node_ok st i"
    and "\<And>j. j < length (fst st) \<Longrightarrow> nd_RouterID (h' ! j) = nd_RouterID (fst st ! j)"
  shows "nodeView h' (fst st ! i) = nodeView (fst st) (fst st ! i)"
proof (rule nodeView_cong)
  fix l assume "l \<in> set (nd_Links (fst st ! i))"
  from node_ok_remote [OF assms(1,2) this] obtain l' j
    where "l = Some l'" "lk_RemoteNode l' = Some j" "j < length (fst st)" by metis
  then show "nd_RouterID (h' ! the (lk_RemoteNode (the l))) = nd_RouterID (fst st ! the (lk_RemoteNode (the l)))"
    using assms(3) by simp
qed

definition links_ok :: "tedState \<Rightarrow> nat \<Rightarrow> LsLink option list \<Rightarrow> bool" where
  "links_ok st i ls \<longleftrightarrow>
     list_all (\<lambda>l. case l of None \<Rightarrow> False
        | Some l \<Rightarrow> lk_LocalNode l = Some i \<and>
            (case lk_RemoteNode l of None \<Rightarrow> False
             | Some j \<Rightarrow> map_of (ted_Nodes (snd st)) (nd_RouterID (fst st ! j)) = Some (Some j))) ls"

lemma node_ok_alt:
  "node_ok st i \<longleftrightarrow> links_ok st i (nd_Links (fst st ! i)) \<and>
     None \<notin> set (nd_Prefixes (fst st ! i)) \<and> None \<notin> set (nd_SRv6SIDs (fst st ! i))"
  by (simp add: node_ok_def links_ok_def Let_def)

lemma links_ok_mono:
  assumes "links_ok st i ls"
    and "\<And>r j. map_of (ted_Nodes (snd st)) r = Some (Some j) \<Longrightarrow> map_of (ted_Nodes (snd st')) r = Some (Some j)"
    and "\<And>r j. map_of (ted_Nodes (snd st)) r = Some (Some j) \<Longrightarrow> nd_RouterID (fst st ! j) = r \<Longrightarrow> nd_RouterID (fst st' ! j) = r"
  shows "links_ok st' i ls"
  using assms unfolding links_ok_def list_all_iff
  by (fastforce split: option.splits)

text \<open>Replacing the node of a key by one with the same name and number.\<close>

lemma store_sim:
  assumes ok: "ted_ok asn (h, ted)" and m: "map_of (ted_Nodes ted) rid = Some (Some i)"
    and n: "nd_RouterID n = rid" "nd_ASN n = asn"
    and c: "links_ok (h, ted) i (nd_Links n)" "None \<notin> set (nd_Prefixes n)" "None \<notin> set (nd_SRv6SIDs n)"
  shows "i < length h"
    and "ted_ok asn (h[i := n], ted)"
    and "tedViewOf (h[i := n], ted) = (tedViewOf (h, ted))(rid \<mapsto> nodeView h n)"
proof -
  have m': "map_of (ted_Nodes (snd (h, ted))) rid = Some (Some i)" using m by simp
  from ted_okD [OF ok m'] have i: "i < length h" and r: "nd_RouterID (h ! i) = rid" by auto
  then show "i < length h" by blast
  have rids: "nd_RouterID (h[i := n] ! j) = nd_RouterID (h ! j)" for j
    using r n i by (cases "j = i") auto
  have lk: "links_ok (h[i := n], ted) j ls" if "links_ok (h, ted) j ls" for j ls
    using that by (rule links_ok_mono) (simp_all add: rids)
  have "entry_ok asn (h[i := n], ted) r' p" if p: "map_of (ted_Nodes ted) r' = Some p" for r' p
  proof -
    have p': "map_of (ted_Nodes (snd (h, ted))) r' = Some p" using p by simp
    from ted_okD [OF ok p'] obtain j where j: "p = Some j" "j < length h" "nd_RouterID (h ! j) = r'"
      "nd_ASN (h ! j) = asn" "node_ok (h, ted) j" by auto
    have "node_ok (h[i := n], ted) j"
      using j(5) lk c i by (cases "j = i") (auto simp: node_ok_alt)
    with j n i rids [of j] show ?thesis
      by (cases "j = i") (auto simp: entry_ok_def)
  qed
  with ok show "ted_ok asn (h[i := n], ted)" by (simp add: ted_ok_def)
  show "tedViewOf (h[i := n], ted) = (tedViewOf (h, ted))(rid \<mapsto> nodeView h n)"
  proof
    fix r'
    show "tedViewOf (h[i := n], ted) r' = ((tedViewOf (h, ted))(rid \<mapsto> nodeView h n)) r'"
    proof (cases "map_of (ted_Nodes ted) r'")
      case None
      with m show ?thesis by (auto simp: tedViewOf_def)
    next
      case (Some p)
      then have p': "map_of (ted_Nodes (snd (h, ted))) r' = Some p" by simp
      from ted_okD [OF ok p'] obtain j where j: "p = Some j" "j < length h" "node_ok (h, ted) j" by auto
      have v: "nodeView (h[i := n]) x = nodeView h x" for x
        by (rule nodeView_cong) (simp add: rids)
      have ij: "j = i \<longleftrightarrow> r' = rid"
        using ted_ok_inj [OF ok] Some m j by auto
      show ?thesis using Some j i ij v m by (auto simp: tedViewOf_def)
    qed
  qed
qed

lemma ensure_sim:
  assumes ok: "ted_ok asn st" and a: "nd_ASN n = asn"
  obtains h' ted' ys i where "ensureNode st n = (h', ted')" "h' = fst st @ ys"
    "ted_ok asn (h', ted')" "map_of (ted_Nodes ted') (nd_RouterID n) = Some (Some i)" "i < length h'"
    "\<forall>r p. map_of (ted_Nodes (snd st)) r = Some p \<longrightarrow> map_of (ted_Nodes ted') r = Some p"
    "\<forall>r j. map_of (ted_Nodes ted') r = Some (Some j) \<longrightarrow> map_of (ted_Nodes (snd st)) r = Some (Some j) \<or> length (fst st) \<le> j"
    "tedViewOf (h', ted') = (tedViewOf st)(nd_RouterID n \<mapsto> viewNode asn (tedViewOf st) (nd_RouterID n))"
proof (cases "map_of (ted_Nodes (snd st)) (nd_RouterID n)")
  case (Some p)
  obtain h ted where st: "st = (h, ted)" by fastforce
  from ted_okD [OF ok Some] obtain i where i: "p = Some i" "i < length h" using st by auto
  have v: "tedViewOf st (nd_RouterID n) = Some (nodeView h (h ! i))"
    using Some i st by (simp add: tedViewOf_def)
  show ?thesis
  proof (rule that)
    show "ensureNode st n = (h, ted)" using Some st by (simp add: ensureNode_def)
    show "h = fst st @ []" using st by simp
    show "ted_ok asn (h, ted)" using ok st by simp
    show "map_of (ted_Nodes ted) (nd_RouterID n) = Some (Some i)" using Some i st by simp
    show "i < length h" by fact
    show "tedViewOf (h, ted) = (tedViewOf st)(nd_RouterID n \<mapsto> viewNode asn (tedViewOf st) (nd_RouterID n))"
      using v st by (simp add: viewNode_def fun_upd_idem)
  qed (auto simp: st)
next
  case None
  obtain h ted where st: "st = (h, ted)" by fastforce
  define n0 where "n0 = NewLsNode asn (nd_RouterID n)"
  define ted' where "ted' = ted\<lparr>ted_Nodes := AList.update (nd_RouterID n) (Some (length h)) (ted_Nodes ted)\<rparr>"
  have e: "ensureNode st n = (h @ [n0], ted')"
    using None a st by (simp add: ensureNode_def n0_def ted'_def)
  have mp: "map_of (ted_Nodes ted') r = (if r = nd_RouterID n then Some (Some (length h)) else map_of (ted_Nodes ted) r)" for r
    by (simp add: ted'_def update_conv')
  have rids: "nd_RouterID ((h @ [n0]) ! j) = nd_RouterID (h ! j)" if "j < length h" for j
    using that by (simp add: nth_append)
  have lk: "links_ok (h @ [n0], ted') i ls" if "links_ok (h, ted) i ls" for i ls
  proof (rule links_ok_mono [OF that])
    fix r j assume m: "map_of (ted_Nodes (snd (h, ted))) r = Some (Some j)"
    with None st show "map_of (ted_Nodes (snd (h @ [n0], ted'))) r = Some (Some j)" by (auto simp: mp)
    assume r: "nd_RouterID (fst (h, ted) ! j) = r"
    from m ok st have "j < length h" by (auto elim: ted_okD)
    with r show "nd_RouterID (fst (h @ [n0], ted') ! j) = r" by (simp add: rids)
  qed
  have ok': "ted_ok asn (h @ [n0], ted')"
  proof -
    have "distinct (map fst (ted_Nodes ted'))"
      using ok st by (simp add: ted_ok_def ted'_def distinct_update)
    moreover have "entry_ok asn (h @ [n0], ted') r p" if "map_of (ted_Nodes ted') r = Some p" for r p
    proof (cases "r = nd_RouterID n")
      case True
      with that show ?thesis
        by (auto simp: mp entry_ok_def node_ok_def Let_def n0_def NewLsNode_def)
    next
      case False
      with that st have "map_of (ted_Nodes (snd st)) r = Some p" by (simp add: mp)
      from ted_okD [OF ok this] obtain i where i: "p = Some i" "i < length h" "nd_RouterID (h ! i) = r"
        "nd_ASN (h ! i) = asn" "node_ok (h, ted) i" using st by auto
      then show ?thesis using lk by (auto simp: entry_ok_def node_ok_alt nth_append)
    qed
    ultimately show ?thesis by (simp add: ted_ok_def)
  qed
  have vw: "tedViewOf (h @ [n0], ted') = (tedViewOf st)(nd_RouterID n \<mapsto> viewNode asn (tedViewOf st) (nd_RouterID n))"
  proof
    fix r
    show "tedViewOf (h @ [n0], ted') r = ((tedViewOf st)(nd_RouterID n \<mapsto> viewNode asn (tedViewOf st) (nd_RouterID n))) r"
    proof (cases "r = nd_RouterID n")
      case True
      moreover have "tedViewOf st (nd_RouterID n) = None" using None by (simp add: tedViewOf_def)
      ultimately show ?thesis
        by (simp add: tedViewOf_def mp viewNode_def n0_def NewLsNode_def nodeView_def emptyView_def)
    next
      case False
      show ?thesis
      proof (cases "map_of (ted_Nodes ted) r")
        case None
        with False st show ?thesis by (simp add: tedViewOf_def mp)
      next
        case (Some p)
        with st have "map_of (ted_Nodes (snd st)) r = Some p" by simp
        from ted_okD [OF ok this] obtain i where i: "p = Some i" "i < length h" "node_ok (h, ted) i"
          using st by auto
        have "nodeView (h @ [n0]) (h ! i) = nodeView h (h ! i)"
          using nodeView_stable [of asn "(h, ted)" i "h @ [n0]"] ok i st rids by simp
        with Some i False st show ?thesis by (simp add: tedViewOf_def mp nth_append)
      qed
    qed
  qed
  show ?thesis
    by (rule that [OF e _ ok' _ _ _ _ vw]) (use None st in \<open>auto simp: mp split: if_splits\<close>)
qed


section \<open>The simulation\<close>

text \<open>
  During an update: \<open>h0\<close> is the heap at the start, \<open>D\<close> the node elements taken over so far.
\<close>

definition sim :: "u32 \<Rightarrow> heap \<Rightarrow> nat set \<Rightarrow> tedState \<Rightarrow> bool" where
  "sim asn h0 D st \<longleftrightarrow>
     ted_ok asn st \<and> length h0 \<le> length (fst st) \<and>
     (\<forall>i < length h0. nd_ASN (fst st ! i) = nd_ASN (h0 ! i) \<and> nd_RouterID (fst st ! i) = nd_RouterID (h0 ! i)) \<and>
     (\<forall>i < length h0. i \<notin> D \<longrightarrow> fst st ! i = h0 ! i) \<and>
     (\<forall>r i. map_of (ted_Nodes (snd st)) r = Some (Some i) \<longrightarrow> i < length h0 \<longrightarrow> i \<in> D)"

lemma sim_ptr:
  assumes "sim asn h0 D st" "ptr_ok h0 p"
  obtains n where "loadNode (fst st) p = Inr n" "nd_ASN n = nd_ASN (h0 ! the p)"
    "nd_RouterID n = nd_RouterID (h0 ! the p)"
  using assms by (fastforce simp: sim_def ptr_ok_def loadNode_def split: option.splits)

lemma sim_store:
  assumes s: "sim asn h0 D (h, ted)" and m: "map_of (ted_Nodes ted) rid = Some (Some i)"
    and n: "nd_RouterID n = rid" "nd_ASN n = asn"
    and c: "links_ok (h, ted) i (nd_Links n)" "None \<notin> set (nd_Prefixes n)" "None \<notin> set (nd_SRv6SIDs n)"
  shows "storeNode h (Some i) n = Inr (h[i := n])"
    and "sim asn h0 D (h[i := n], ted)"
    and "tedViewOf (h[i := n], ted) = (tedViewOf (h, ted))(rid \<mapsto> nodeView h n)"
proof -
  have ok: "ted_ok asn (h, ted)" using s by (simp add: sim_def)
  note st = store_sim [OF ok m n c]
  show "storeNode h (Some i) n = Inr (h[i := n])" using st(1) by (simp add: storeNode_def)
  have r: "nd_RouterID (h ! i) = rid" "nd_ASN (h ! i) = asn"
    using m by (auto intro: ted_okD [OF ok, of rid "Some i"])
  have d: "i < length h0 \<Longrightarrow> i \<in> D" using s m by (auto simp: sim_def)
  have k: "nd_RouterID (h[i := n] ! j) = nd_RouterID (h ! j)" "nd_ASN (h[i := n] ! j) = nd_ASN (h ! j)" for j
    using r n st(1) by (cases "j = i"; simp)+
  have k': "h[i := n] ! j = h ! j" if "j < length h0" "j \<notin> D" for j
    using that d by (cases "j = i") auto
  show "sim asn h0 D (h[i := n], ted)"
    using s st(2) k k' by (simp add: sim_def)
  show "tedViewOf (h[i := n], ted) = (tedViewOf (h, ted))(rid \<mapsto> nodeView h n)" by (rule st(3))
qed

lemma sim_ensure:
  assumes s: "sim asn h0 D st" and a: "nd_ASN n = asn"
  obtains h' ted' i where "ensureNode st n = (h', ted')" "sim asn h0 D (h', ted')"
    "map_of (ted_Nodes ted') (nd_RouterID n) = Some (Some i)"
    "\<forall>r p. map_of (ted_Nodes (snd st)) r = Some p \<longrightarrow> map_of (ted_Nodes ted') r = Some p"
    "tedViewOf (h', ted') = (tedViewOf st)(nd_RouterID n \<mapsto> viewNode asn (tedViewOf st) (nd_RouterID n))"
proof -
  have ok: "ted_ok asn st" using s by (simp add: sim_def)
  obtain h' ted' ys i where e: "ensureNode st n = (h', ted')" "h' = fst st @ ys"
    "ted_ok asn (h', ted')" "map_of (ted_Nodes ted') (nd_RouterID n) = Some (Some i)" "i < length h'"
    "\<forall>r p. map_of (ted_Nodes (snd st)) r = Some p \<longrightarrow> map_of (ted_Nodes ted') r = Some p"
    "\<forall>r j. map_of (ted_Nodes ted') r = Some (Some j) \<longrightarrow> map_of (ted_Nodes (snd st)) r = Some (Some j) \<or> length (fst st) \<le> j"
    "tedViewOf (h', ted') = (tedViewOf st)(nd_RouterID n \<mapsto> viewNode asn (tedViewOf st) (nd_RouterID n))"
    by (rule ensure_sim [OF ok a])
  have "h' ! j = fst st ! j" if "j < length h0" for j
    using that s e(2) by (simp add: sim_def nth_append)
  moreover have "j \<in> D" if "map_of (ted_Nodes ted') r = Some (Some j)" "j < length h0" for r j
    using e(7) that s by (fastforce simp: sim_def)
  ultimately have "sim asn h0 D (h', ted')"
    using s e(2,3) by (auto simp: sim_def)
  with e that show ?thesis by blast
qed

lemma view_at:
  assumes "ted_ok asn (h, ted)" "map_of (ted_Nodes ted) rid = Some (Some i)"
  shows "tedViewOf (h, ted) rid = Some (nodeView h (h ! i))"
    and "i < length h" "nd_RouterID (h ! i) = rid" "nd_ASN (h ! i) = asn"
    and "links_ok (h, ted) i (nd_Links (h ! i))"
    and "None \<notin> set (nd_Prefixes (h ! i))" "None \<notin> set (nd_SRv6SIDs (h ! i))"
  using ted_okD [OF assms(1), of rid "Some i"] assms(2) by (auto simp: tedViewOf_def node_ok_alt)

lemma update_node_sim:
  assumes s: "sim asn h0 D st" and e: "elem_ok h0 (ElemNode p)" and d: "the p \<notin> D"
  shows "\<exists>st'. LsNode_UpdateTED p asn st = Inr st' \<and> sim asn h0 (insert (the p) D) st' \<and>
     tedViewOf st' = view_update h0 asn (tedViewOf st) (ElemNode p)"
proof -
  obtain h ted where st: "st = (h, ted)" by fastforce
  from e obtain i where p: "p = Some i" "i < length h0" "bare (h0 ! i)" by (auto simp: ptr_ok_def split: option.splits)
  have hi: "h ! i = h0 ! i" "i < length h" using s p d st by (auto simp: sim_def)
  have ok: "ted_ok asn (h, ted)" using s st by (simp add: sim_def)
  have mono: "sim asn h0 (insert i D) st" using s by (auto simp: sim_def)
  show ?thesis
  proof (cases "nd_ASN (h0 ! i) = asn")
    case False
    with hi mono st p show ?thesis by (auto simp: LsNode_UpdateTED_def loadNode_def)
  next
    case asn: True
    define rid where "rid = nd_RouterID (h0 ! i)"
    show ?thesis
    proof (cases "map_of (ted_Nodes ted) rid")
      case None
      define ted' where "ted' = ted\<lparr>ted_Nodes := AList.update rid (Some i) (ted_Nodes ted)\<rparr>"
      have u: "LsNode_UpdateTED p asn st = Inr (h, ted')"
        using hi p st asn None by (simp add: LsNode_UpdateTED_def loadNode_def ted'_def rid_def)
      have mp: "map_of (ted_Nodes ted') r = (if r = rid then Some (Some i) else map_of (ted_Nodes ted) r)" for r
        by (simp add: ted'_def update_conv')
      have lk: "links_ok (h, ted') j ls" if "links_ok (h, ted) j ls" for j ls
        by (rule links_ok_mono [OF that]) (use None in \<open>auto simp: mp\<close>)
      have ok': "ted_ok asn (h, ted')"
      proof -
        have "distinct (map fst (ted_Nodes ted'))"
          using ok by (simp add: ted_ok_def ted'_def distinct_update)
        moreover have "entry_ok asn (h, ted') r q" if q: "map_of (ted_Nodes ted') r = Some q" for r q
        proof (cases "r = rid")
          case True
          with q have "q = Some i" by (simp add: mp)
          with True p hi asn show ?thesis
            by (simp add: entry_ok_def node_ok_def Let_def rid_def bare_def)
        next
          case False
          with q have "map_of (ted_Nodes (snd (h, ted))) r = Some q" by (simp add: mp)
          from ted_okD [OF ok this] obtain j where "q = Some j" "j < length h" "nd_RouterID (h ! j) = r"
            "nd_ASN (h ! j) = asn" "node_ok (h, ted) j" by auto
          with lk show ?thesis by (simp add: entry_ok_def node_ok_alt)
        qed
        ultimately show ?thesis by (simp add: ted_ok_def)
      qed
      have "sim asn h0 (insert i D) (h, ted')"
        using mono ok' st by (auto simp: sim_def mp)
      moreover have "tedViewOf (h, ted') = view_update h0 asn (tedViewOf st) (ElemNode p)"
      proof
        fix r
        have "tedViewOf st rid = None" using None st by (simp add: tedViewOf_def)
        with None p hi asn st show "tedViewOf (h, ted') r = view_update h0 asn (tedViewOf st) (ElemNode p) r"
          by (auto simp: tedViewOf_def mp viewNode_def emptyView_def nodeView_def rid_def bare_def Let_def split: option.splits)
      qed
      ultimately show ?thesis using u p by auto
    next
      case (Some q)
      then have "map_of (ted_Nodes (snd (h, ted))) rid = Some q" by simp
      from ted_okD [OF ok this] obtain j where q: "q = Some j" by auto
      with Some have m: "map_of (ted_Nodes ted) rid = Some (Some j)" by simp
      note v = view_at [OF ok m]
      define n where "n = (h ! j)\<lparr>nd_Hostname := nd_Hostname (h0 ! i), nd_IsisAreaID := nd_IsisAreaID (h0 ! i),
                nd_SrgbBegin := nd_SrgbBegin (h0 ! i), nd_SrgbEnd := nd_SrgbEnd (h0 ! i)\<rparr>"
      have ms: "sim asn h0 (insert i D) (h, ted)" using mono st by simp
      note sto = sim_store [OF ms m, of n]
      have sto': "storeNode h (Some j) n = Inr (h[j := n])" "sim asn h0 (insert i D) (h[j := n], ted)"
        "tedViewOf (h[j := n], ted) = (tedViewOf (h, ted))(rid \<mapsto> nodeView h n)"
        using sto v by (auto simp: n_def)
      have "LsNode_UpdateTED p asn st = Inr (h[j := n], ted)"
        using hi p st asn m v(2) sto'(1) by (simp add: LsNode_UpdateTED_def loadNode_def rid_def n_def)
      moreover have "tedViewOf (h[j := n], ted) = view_update h0 asn (tedViewOf st) (ElemNode p)"
        using sto'(3) v(1) st p asn by (simp add: Let_def viewNode_def n_def nodeView_def rid_def)
      ultimately show ?thesis using sto'(2) p by auto
    qed
  qed
qed


lemma nodeAt_Some: "map_of nodes rid = Some (Some i) \<Longrightarrow> nodeAt nodes rid = Some i"
  by (simp add: nodeAt_def)

lemma loadNode_Some [simp]: "i < length h \<Longrightarrow> loadNode h (Some i) = Inr (h ! i)"
  by (simp add: loadNode_def)

lemma sim_ok: "sim asn h0 D st \<Longrightarrow> ted_ok asn st"
  by (simp add: sim_def)

lemma update_sid_sim:
  assumes s: "sim asn h0 D st" and e: "elem_ok h0 (ElemSrv6SID sid)"
  shows "\<exists>st'. LsSrv6SID_UpdateTED sid asn st = Inr st' \<and> sim asn h0 D st' \<and>
     tedViewOf st' = view_update h0 asn (tedViewOf st) (ElemSrv6SID sid)"
proof -
  have "ptr_ok h0 (sv_LocalNode sid)" using e by simp
  from sim_ptr [OF s this] obtain a where a: "loadNode (fst st) (sv_LocalNode sid) = Inr a"
    "nd_ASN a = nd_ASN (h0 ! the (sv_LocalNode sid))" "nd_RouterID a = nd_RouterID (h0 ! the (sv_LocalNode sid))" .
  show ?thesis
  proof (cases "nd_ASN a = asn")
    case False
    with a s show ?thesis by (simp add: LsSrv6SID_UpdateTED_def Let_def)
  next
    case True
    obtain h ted i where en: "ensureNode st a = (h, ted)" "sim asn h0 D (h, ted)"
      "map_of (ted_Nodes ted) (nd_RouterID a) = Some (Some i)"
      "tedViewOf (h, ted) = (tedViewOf st)(nd_RouterID a \<mapsto> viewNode asn (tedViewOf st) (nd_RouterID a))"
      using sim_ensure [OF s True] by metis
    note v = view_at [OF sim_ok [OF en(2)] en(3)]
    define n where "n = AddSrv6SID (h ! i) (Some (sid\<lparr>sv_LocalNode := Some i\<rparr>))"
    have n: "storeNode h (Some i) n = Inr (h[i := n])" "sim asn h0 D (h[i := n], ted)"
      "tedViewOf (h[i := n], ted) = (tedViewOf (h, ted))(nd_RouterID a \<mapsto> nodeView h n)"
      using sim_store [OF en(2,3), of n] v(2-) by (simp_all add: n_def AddSrv6SID_def)
    have "LsSrv6SID_UpdateTED sid asn st = Inr (h[i := n], ted)"
      using a(1) True en(1) v(2) n(1) by (simp add: LsSrv6SID_UpdateTED_def Let_def nodeAt_Some [OF en(3)] n_def)
    moreover have "tedViewOf (h[i := n], ted) = view_update h0 asn (tedViewOf st) (ElemSrv6SID sid)"
      using n(3) en(4) v(1) a True
      by (simp add: Let_def n_def AddSrv6SID_def nodeView_def plainSID_def)
    ultimately show ?thesis using n(2) by blast
  qed
qed

lemma prefixKnown_Inr:
  "None \<notin> set ps \<Longrightarrow>
   prefixKnown s ps = Inr (s \<in> (\<lambda>q. prefix_String (px_Prefix q)) ` set (map (plainPrefix \<circ> the) ps))"
  by (induction s ps rule: prefixKnown.induct) (auto simp: plainPrefix_def)

lemma update_prefix_sim:
  assumes s: "sim asn h0 D st" and e: "elem_ok h0 (ElemPrefix p)"
  shows "\<exists>st'. LsPrefix_UpdateTED p asn st = Inr st' \<and> sim asn h0 D st' \<and>
     tedViewOf st' = view_update h0 asn (tedViewOf st) (ElemPrefix p)"
proof -
  have "ptr_ok h0 (px_LocalNode p)" using e by simp
  from sim_ptr [OF s this] obtain a where a: "loadNode (fst st) (px_LocalNode p) = Inr a"
    "nd_ASN a = nd_ASN (h0 ! the (px_LocalNode p))" "nd_RouterID a = nd_RouterID (h0 ! the (px_LocalNode p))" .
  show ?thesis
  proof (cases "nd_ASN a = asn")
    case False
    with a s show ?thesis by (simp add: LsPrefix_UpdateTED_def Let_def)
  next
    case True
    obtain h ted i where en: "ensureNode st a = (h, ted)" "sim asn h0 D (h, ted)"
      "map_of (ted_Nodes ted) (nd_RouterID a) = Some (Some i)"
      "tedViewOf (h, ted) = (tedViewOf st)(nd_RouterID a \<mapsto> viewNode asn (tedViewOf st) (nd_RouterID a))"
      using sim_ensure [OF s True] by metis
    note v = view_at [OF sim_ok [OF en(2)] en(3)]
    define K where "K \<longleftrightarrow> prefix_String (px_Prefix p) \<in>
      (\<lambda>q. prefix_String (px_Prefix q)) ` set (vw_Prefixes (viewNode asn (tedViewOf st) (nd_RouterID a)))"
    have vn: "viewNode asn (tedViewOf st) (nd_RouterID a) = nodeView h (h ! i)"
      using en(4) v(1) by simp
    have k: "prefixKnown (prefix_String (px_Prefix p)) (nd_Prefixes (h ! i)) = Inr K"
      using prefixKnown_Inr [OF v(6)] vn by (simp add: K_def nodeView_def)
    show ?thesis
    proof (cases K)
      case True': True
      have "LsPrefix_UpdateTED p asn st = Inr (h, ted)"
        using a(1) True en(1) v(2) k True' by (simp add: LsPrefix_UpdateTED_def Let_def nodeAt_Some [OF en(3)])
      moreover have "tedViewOf (h, ted) = view_update h0 asn (tedViewOf st) (ElemPrefix p)"
        using en(4) True' True a by (simp add: Let_def K_def)
      ultimately show ?thesis using en(2) by blast
    next
      case False
      define n where "n = (h ! i)\<lparr>nd_Prefixes := nd_Prefixes (h ! i) @ [Some p]\<rparr>"
      have n: "storeNode h (Some i) n = Inr (h[i := n])" "sim asn h0 D (h[i := n], ted)"
        "tedViewOf (h[i := n], ted) = (tedViewOf (h, ted))(nd_RouterID a \<mapsto> nodeView h n)"
        using sim_store [OF en(2,3), of n] v(2-) by (simp_all add: n_def)
      have "LsPrefix_UpdateTED p asn st = Inr (h[i := n], ted)"
        using a(1) True en(1) v(2) n(1) k False
        by (simp add: LsPrefix_UpdateTED_def Let_def nodeAt_Some [OF en(3)] n_def)
      moreover have "tedViewOf (h[i := n], ted) = view_update h0 asn (tedViewOf st) (ElemPrefix p)"
        using n(3) en(4) vn a True False
        by (simp add: Let_def n_def K_def) (simp add: nodeView_def)
      ultimately show ?thesis using n(2) by blast
    qed
  qed
qed

lemma update_link_sim:
  assumes s: "sim asn h0 D st" and e: "elem_ok h0 (ElemLink l)"
  shows "\<exists>st'. LsLink_UpdateTED l asn st = Inr st' \<and> sim asn h0 D st' \<and>
     tedViewOf st' = view_update h0 asn (tedViewOf st) (ElemLink l)"
proof -
  have pl: "ptr_ok h0 (lk_LocalNode l)" and pr: "ptr_ok h0 (lk_RemoteNode l)" using e by simp_all
  from sim_ptr [OF s pl] obtain a where a: "loadNode (fst st) (lk_LocalNode l) = Inr a"
    "nd_ASN a = nd_ASN (h0 ! the (lk_LocalNode l))" "nd_RouterID a = nd_RouterID (h0 ! the (lk_LocalNode l))" .
  from sim_ptr [OF s pr] obtain b where b: "loadNode (fst st) (lk_RemoteNode l) = Inr b"
    "nd_ASN b = nd_ASN (h0 ! the (lk_RemoteNode l))" "nd_RouterID b = nd_RouterID (h0 ! the (lk_RemoteNode l))" .
  show ?thesis
  proof (cases "nd_ASN a = asn \<and> nd_ASN b = asn")
    case False
    with a b s show ?thesis by (cases st) (auto simp: LsLink_UpdateTED_def Let_def)
  next
    case True
    obtain h1 ted1 i1 where e1: "ensureNode st a = (h1, ted1)" "sim asn h0 D (h1, ted1)"
      "map_of (ted_Nodes ted1) (nd_RouterID a) = Some (Some i1)"
      "tedViewOf (h1, ted1) = (tedViewOf st)(nd_RouterID a \<mapsto> viewNode asn (tedViewOf st) (nd_RouterID a))"
      using sim_ensure [OF s, of a] True by metis
    obtain h ted j where e2: "ensureNode (h1, ted1) b = (h, ted)" "sim asn h0 D (h, ted)"
      "map_of (ted_Nodes ted) (nd_RouterID b) = Some (Some j)"
      "\<forall>r p. map_of (ted_Nodes (snd (h1, ted1))) r = Some p \<longrightarrow> map_of (ted_Nodes ted) r = Some p"
      "tedViewOf (h, ted) = (tedViewOf (h1, ted1))(nd_RouterID b \<mapsto> viewNode asn (tedViewOf (h1, ted1)) (nd_RouterID b))"
      using sim_ensure [OF e1(2), of b] True by metis
    have m: "map_of (ted_Nodes ted) (nd_RouterID a) = Some (Some i1)" using e1(3) e2(4) by simp
    note v = view_at [OF sim_ok [OF e2(2)] m] and w = view_at [OF sim_ok [OF e2(2)] e2(3)]
    define l' where "l' = l\<lparr>lk_LocalNode := Some i1, lk_RemoteNode := Some j\<rparr>"
    define n where "n = AddLink (h ! i1) (Some l')"
    have "links_ok (h, ted) i1 (nd_Links n)"
      using v(5) e2(3) w(3) by (simp add: n_def AddLink_def links_ok_def l'_def)
    then have n: "storeNode h (Some i1) n = Inr (h[i1 := n])" "sim asn h0 D (h[i1 := n], ted)"
      "tedViewOf (h[i1 := n], ted) = (tedViewOf (h, ted))(nd_RouterID a \<mapsto> nodeView h n)"
      using sim_store [OF e2(2) m, of n] v(3,4,6,7) by (simp_all add: n_def AddLink_def)
    have "LsLink_UpdateTED l asn st = Inr (h[i1 := n], ted)"
      using a(1) b(1) True e1(1) e2(1) v(2) n(1)
      by (simp add: LsLink_UpdateTED_def Let_def nodeAt_Some [OF m] nodeAt_Some [OF e2(3)] n_def l'_def)
    moreover have "tedViewOf (h[i1 := n], ted) = view_update h0 asn (tedViewOf st) (ElemLink l)"
    proof -
      have "nodeView h n = (nodeView h (h ! i1))\<lparr>vw_Links := vw_Links (nodeView h (h ! i1)) @ [(nd_RouterID b, plainLink l)]\<rparr>"
        using w(3) by (simp add: n_def AddLink_def nodeView_def linkView_def l'_def ptrRouterID_def plainLink_def)
      moreover have "nodeView h (h ! i1) = viewNode asn (tedViewOf (h, ted)) (nd_RouterID a)"
        using v(1) by (simp add: viewNode_def)
      ultimately show ?thesis
        using n(3) e2(5) e1(4) a b True by (simp add: Let_def)
    qed
    ultimately show ?thesis using n(2) by blast
  qed
qed

lemma update_sim:
  assumes "sim asn h0 D st" "elem_ok h0 e" "set (nodePtrs e) \<inter> D = {}"
  shows "\<exists>st'. UpdateTED e asn st = Inr st' \<and> sim asn h0 (D \<union> set (nodePtrs e)) st' \<and>
     tedViewOf st' = view_update h0 asn (tedViewOf st) e"
proof (cases e)
  case (ElemNode p)
  moreover from assms(2) ElemNode obtain i where "p = Some i" by (auto simp: ptr_ok_def split: option.splits)
  ultimately show ?thesis using update_node_sim [OF assms(1), of p] assms(2,3) by simp
next
  case (ElemLink l)
  with update_link_sim [OF assms(1), of l] assms(2) show ?thesis by simp
next
  case (ElemPrefix p)
  with update_prefix_sim [OF assms(1), of p] assms(2) show ?thesis by simp
next
  case (ElemSrv6SID s)
  with update_sid_sim [OF assms(1), of s] assms(2) show ?thesis by simp
qed

lemma LsTED_Update_sim:
  assumes "sim asn h0 D st" "list_all (elem_ok h0) es" "distinct (concat (map nodePtrs es))"
    "set (concat (map nodePtrs es)) \<inter> D = {}"
  shows "\<exists>st'. LsTED_Update es asn st = Inr st' \<and> ted_ok asn st' \<and>
     tedViewOf st' = foldl (view_update h0 asn) (tedViewOf st) es"
  using assms
proof (induction es arbitrary: D st)
  case Nil
  then show ?case by (simp add: sim_def)
next
  case (Cons e es)
  from Cons.prems have "set (nodePtrs e) \<inter> D = {}" by auto
  from update_sim [OF Cons.prems(1) _ this] Cons.prems(2) obtain st1 where
    st1: "UpdateTED e asn st = Inr st1" "sim asn h0 (D \<union> set (nodePtrs e)) st1"
    "tedViewOf st1 = view_update h0 asn (tedViewOf st) e" by auto
  have "list_all (elem_ok h0) es" "distinct (concat (map nodePtrs es))"
    "set (concat (map nodePtrs es)) \<inter> (D \<union> set (nodePtrs e)) = {}"
    using Cons.prems(2-4) by auto
  from Cons.IH [OF st1(2) this] obtain st' where "LsTED_Update es asn st1 = Inr st'" "ted_ok asn st'"
    "tedViewOf st' = foldl (view_update h0 asn) (tedViewOf st1) es" by blast
  with st1(1,3) show ?case by simp
qed

section \<open>Properties\<close>

definition emptyTED :: LsTED where "emptyTED = \<lparr>ted_Nodes = []\<rparr>"

text \<open>
  C12: Updating an empty database (as the PCE does for every batch of BGP-LS elements) never
  fails, leaves a database whose every entry is a node of the configured AS filed under its own
  router ID, with links whose two ends are entries of the same database, and computes exactly
  the fold of the specification \<open>view_update\<close> over the elements: pointers and sharing do not show.
\<close>

theorem LsTED_Update_refines:
  assumes "list_all (elem_ok h) es" and "distinct (concat (map nodePtrs es))"
  shows "\<exists>st. LsTED_Update es asn (h, emptyTED) = Inr st \<and> ted_ok asn st \<and>
     tedViewOf st = foldl (view_update h asn) Map.empty es"
proof -
  have "sim asn h {} (h, emptyTED)" by (simp add: sim_def ted_ok_def emptyTED_def)
  moreover have "tedViewOf (h, emptyTED) = Map.empty" by (rule ext) (simp add: tedViewOf_def emptyTED_def)
  ultimately show ?thesis using LsTED_Update_sim [of asn h "{}" "(h, emptyTED)" es] assms by simp
qed

text \<open>Two routers, a link between them, announced before one of the nodes.\<close>

definition sampleHeap :: heap where
  "sampleHeap = [NewLsNode 65000 ''A'', NewLsNode 65000 ''B'', (NewLsNode 65000 ''B'')\<lparr>nd_Hostname := ''b''\<rparr>]"

definition sampleElems :: "TEDElem list" where
  "sampleElems = [ElemLink ((NewLsLink (Some 0) (Some 1))\<lparr>lk_Metrics := [NewMetric IGPMetric 10]\<rparr>), ElemNode (Some 2)]"

lemma LsTED_Update_refines_witness:
  "\<exists>st. LsTED_Update sampleElems 65000 (sampleHeap, emptyTED) = Inr st \<and> ted_ok 65000 st \<and>
     tedViewOf st = foldl (view_update sampleHeap 65000) Map.empty sampleElems"
  by (rule LsTED_Update_refines)
    (simp_all add: sampleElems_def sampleHeap_def NewLsLink_def NewLsNode_def ptr_ok_def bare_def)

end
