(* ===== verification/Cspf.thy ===== *)
theory Cspf
  imports Ted_View
begin

text \<open>
  \<open>src/pkg/cspf/cspf.go\<close>: the shortest path computation over the traffic engineering database,
  with and without waypoints. Go leaves the order in which a map is ranged over open, so the
  entries of \<open>calculatingNodes\<close> are presented to \<open>nextNode\<close> in an order \<open>ord k\<close> that may differ
  in every turn \<open>k\<close>. The two loops without a bound are partial functions: \<open>None\<close> is a loop that
  does not end.
\<close>

section \<open>Nodes under calculation\<close>

record cnode =
  cn_id :: string
  cn_calculated :: bool
  cn_cost :: u32
  cn_prevNode :: string
  cn_nodeSegment :: Segment

type_synonym calc = "(string \<times> cnode) list"

definition newNode :: "string \<Rightarrow> u32 \<Rightarrow> Segment \<Rightarrow> cnode" where
  "newNode rid cost nodeSeg =
     \<lparr>cn_id = rid, cn_calculated = False, cn_cost = cost, cn_prevNode = [], cn_nodeSegment = nodeSeg\<rparr>"

text \<open>Reading a field of \<open>calculatingNodes[id]\<close>: a nil pointer when the key is absent.\<close>

definition calcAt :: "calc \<Rightarrow> string \<Rightarrow> cnode result" where
  "calcAt c rid = (case map_of c rid of None \<Rightarrow> panic | Some n \<Rightarrow> Inr n)"

definition initNodeMap :: "heap \<Rightarrow> (string \<times> nodeptr) list \<Rightarrow> string \<Rightarrow> calc result" where
  "initNodeMap h network srcRouterID =
     bindE (loadNode h (nodeAt network srcRouterID)) (\<lambda>node.
     bindE (NodeSegment node) (\<lambda>startNodeSeg.
     Inr [(srcRouterID, (newNode srcRouterID 0 startNodeSeg)\<lparr>cn_calculated := False\<rparr>)]))"

text \<open>The loop of \<open>nextNode\<close> over the entries in the order of the range.\<close>

fun nextNodeLoop :: "calc \<Rightarrow> string \<Rightarrow> (string \<times> cnode) list \<Rightarrow> string result" where
  "nextNodeLoop c nextNodeID [] = Inr nextNodeID"
| "nextNodeLoop c nextNodeID ((nodeID, node) # entries) =
     (if cn_calculated node then nextNodeLoop c nextNodeID entries
      else if nextNodeID = [] then nextNodeLoop c nodeID entries
      else bindE (calcAt c nextNodeID) (\<lambda>m.
        nextNodeLoop c (if cn_cost m > cn_cost node then nodeID else nextNodeID) entries))"

definition nextNode :: "calc \<Rightarrow> (string \<times> cnode) list \<Rightarrow> string result" where
  "nextNode c entries =
     bindE (nextNodeLoop c [] entries) (\<lambda>nextNodeID.
     if nextNodeID = [] then errorf ''next node not found'' [] else Inr nextNodeID)"

text \<open>The body of the loop over the links of the current node.\<close>

definition relaxLink :: "heap \<Rightarrow> MetricType \<Rightarrow> string \<Rightarrow> calc \<Rightarrow> LsLink option \<Rightarrow> calc result" where
  "relaxLink h metricType calcNodeID c lk =
     (case lk of
        None \<Rightarrow> panic
      | Some link \<Rightarrow>
          bindE (LsLink_Metric link metricType) (\<lambda>metric.
          bindE (loadNode h (lk_RemoteNode link)) (\<lambda>remote.
          bindE (calcAt c calcNodeID) (\<lambda>calcNode.
          case map_of c (nd_RouterID remote) of
            Some remoteNode \<Rightarrow>
              if cn_cost calcNode + metric < cn_cost remoteNode
              then Inr (AList.update (nd_RouterID remote)
                     (remoteNode\<lparr>cn_cost := cn_cost calcNode + metric, cn_prevNode := calcNodeID\<rparr>) c)
              else Inr c
          | None \<Rightarrow>
              bindE (NodeSegment remote) (\<lambda>remoteNodeSeg.
              Inr (AList.update (nd_RouterID remote)
                ((newNode (nd_RouterID remote) (cn_cost calcNode + metric) remoteNodeSeg)
                   \<lparr>cn_prevNode := calcNodeID\<rparr>) c))))))"

fun relaxLinks :: "heap \<Rightarrow> MetricType \<Rightarrow> string \<Rightarrow> calc \<Rightarrow> LsLink option list \<Rightarrow> calc result" where
  "relaxLinks h mt u c [] = Inr c"
| "relaxLinks h mt u c (l # ls) = bindE (relaxLink h mt u c l) (\<lambda>c. relaxLinks h mt u c ls)"

definition updateNeighborCosts ::
    "heap \<Rightarrow> (string \<times> nodeptr) list \<Rightarrow> MetricType \<Rightarrow> string \<Rightarrow> calc \<Rightarrow> calc result" where
  "updateNeighborCosts h network metricType calcNodeID c =
     bindE (loadNode h (nodeAt network calcNodeID)) (\<lambda>node.
     relaxLinks h metricType calcNodeID c (nd_Links node))"

section \<open>The search\<close>

type_synonym rangeOrder = "nat \<Rightarrow> calc \<Rightarrow> calc"

partial_function (option) spfLoop ::
    "rangeOrder \<Rightarrow> heap \<Rightarrow> (string \<times> nodeptr) list \<Rightarrow> MetricType \<Rightarrow> string \<Rightarrow> nat \<Rightarrow> calc \<Rightarrow> calc result option" where
  "spfLoop ord h network mt dst k c =
     (case nextNode c (ord k c) of
        Inl e \<Rightarrow> Some (Inl e)
      | Inr calcNodeID \<Rightarrow>
          if calcNodeID = dst then Some (Inr c)
          else (case updateNeighborCosts h network mt calcNodeID c of
              Inl e \<Rightarrow> Some (Inl e)
            | Inr c \<Rightarrow>
                (case map_of c calcNodeID of
                   None \<Rightarrow> Some panic
                 | Some n \<Rightarrow>
                     spfLoop ord h network mt dst (Suc k)
                       (AList.update calcNodeID (n\<lparr>cn_calculated := True\<rparr>) c))))"

text \<open>The walk back from the destination; \<open>acc\<close> is \<open>segmentList\<close>.\<close>

partial_function (option) pathLoop :: "string \<Rightarrow> calc \<Rightarrow> cnode option \<Rightarrow> Segment list \<Rightarrow> Segment list result option" where
  "pathLoop src c pathNode acc =
     (case pathNode of
        None \<Rightarrow> Some panic
      | Some n \<Rightarrow>
          if cn_id n = src then Some (Inr acc)
          else pathLoop src c (map_of c (cn_prevNode n)) (acc @ [cn_nodeSegment n]))"

definition buildSegmentListFromPath :: "string \<Rightarrow> string \<Rightarrow> calc \<Rightarrow> Segment list result option" where
  "buildSegmentListFromPath src dst c =
     map_option (\<lambda>r. bindE r (\<lambda>segs. Inr (rev segs))) (pathLoop src c (map_of c dst) [])"

definition spf ::
    "rangeOrder \<Rightarrow> heap \<Rightarrow> string \<Rightarrow> string \<Rightarrow> MetricType \<Rightarrow> (string \<times> nodeptr) list \<Rightarrow> Segment list result option" where
  "spf ord h src dst metricType network =
     (case initNodeMap h network src of
        Inl e \<Rightarrow> Some (Inl e)
      | Inr c \<Rightarrow>
          (case spfLoop ord h network metricType dst 0 c of
             None \<Rightarrow> None
           | Some (Inl e) \<Rightarrow> Some (Inl e)
           | Some (Inr c) \<Rightarrow> buildSegmentListFromPath src dst c))"

definition CSPF :: "rangeOrder \<Rightarrow> heap \<Rightarrow> string \<Rightarrow> string \<Rightarrow> MetricType \<Rightarrow> LsTED \<Rightarrow> Segment list result option" where
  "CSPF ord h src dst metric ted = spf ord h src dst metric (ted_Nodes ted)"

section \<open>Loose source routing\<close>

definition buildWaypointSegment :: "heap \<Rightarrow> nodeptr \<Rightarrow> string \<Rightarrow> Segment result" where
  "buildWaypointSegment h node explicitSID =
     (if explicitSID \<noteq> [] then
        bindE (wrapE ''invalid explicit SID'' (ParseAddr explicitSID)) (\<lambda>a.
        bindE (loadNode h node) (\<lambda>n.
        bindE (NewSegmentSRv6WithNodeInfo a n) (\<lambda>seg. Inr (SRv6 seg))))
      else bindE (loadNode h node) NodeSegment)"

definition removeDuplicateFirst :: "Segment list \<Rightarrow> Segment list \<Rightarrow> Segment list" where
  "removeDuplicateFirst fullList sec =
     (if fullList \<noteq> [] \<and> sec \<noteq> [] \<and> SegmentsEqual (Some (last fullList)) (Some (hd sec))
      then tl sec else sec)"

definition appendIfNotDuplicate :: "Segment list \<Rightarrow> Segment \<Rightarrow> Segment list" where
  "appendIfNotDuplicate xs seg =
     (if xs = [] \<or> \<not> SegmentsEqual (Some (last xs)) (Some seg) then xs @ [seg] else xs)"

definition buildSectionSegments ::
    "rangeOrder \<Rightarrow> heap \<Rightarrow> string \<Rightarrow> Waypoint \<Rightarrow> MetricType \<Rightarrow> LsTED \<Rightarrow> Segment list \<Rightarrow>
      (Segment list \<times> Segment) result option" where
  "buildSectionSegments ord h prev wp metric ted fullList =
     map_option (\<lambda>r.
       bindE (wrapE ''CSPF failed'' r) (\<lambda>sectionSegs.
       let sectionSegs = removeDuplicateFirst fullList sectionSegs in
       case map_of (ted_Nodes ted) (wp_RouterID wp) of
         None \<Rightarrow> errorf ''waypoint router not found in TED'' []
       | Some node \<Rightarrow>
           bindE (wrapE ''failed to build segment for waypoint'' (buildWaypointSegment h node (wp_SID wp))) (\<lambda>seg.
           Inr (sectionSegs, seg))))
     (CSPF ord h prev (wp_RouterID wp) metric ted)"

fun sectionLoop ::
    "(nat \<Rightarrow> rangeOrder) \<Rightarrow> heap \<Rightarrow> MetricType \<Rightarrow> LsTED \<Rightarrow> nat \<Rightarrow> string \<Rightarrow> Waypoint list \<Rightarrow> Segment list \<Rightarrow>
      Segment list result option" where
  "sectionLoop ords h metric ted k prev [] fullList = Some (Inr fullList)"
| "sectionLoop ords h metric ted k prev (wp # wps) fullList =
     (case buildSectionSegments (ords k) h prev wp metric ted fullList of
        None \<Rightarrow> None
      | Some (Inl e) \<Rightarrow> Some (Inl e)
      | Some (Inr (sectionSegs, seg)) \<Rightarrow>
          sectionLoop ords h metric ted (Suc k) (wp_RouterID wp) wps
            (appendIfNotDuplicate (fullList @ sectionSegs) seg))"

definition CSPFWithLooseSourceRouting ::
    "(nat \<Rightarrow> rangeOrder) \<Rightarrow> heap \<Rightarrow> string \<Rightarrow> string \<Rightarrow> Waypoint list \<Rightarrow> MetricType \<Rightarrow> LsTED \<Rightarrow>
      Segment list result option" where
  "CSPFWithLooseSourceRouting ords h src dst waypoints metric ted =
     sectionLoop ords h metric ted 0 src (waypoints @ [\<lparr>wp_RouterID = dst, wp_SID = []\<rparr>]) []"

end
