(* ===== verification/Cspf_Laws.thy ===== *)
theory Cspf_Laws
  imports Cspf "HOL-Library.Multiset"
begin

text \<open>
  The search of \<open>cspf.go\<close> is Dijkstra's algorithm: it ends whatever the order in which Go ranges
  over its map, and what it returns are the segments of a route of least cost, under the condition
  that no sum of metrics leaves 32 bits. Costs are kept in \<open>u32\<close> in the model as in the code.
\<close>

section \<open>Routes\<close>

text \<open>A link of metric type \<open>mt\<close> from router \<open>u\<close> to router \<open>v\<close>.\<close>

definition edge :: "tedView \<Rightarrow> MetricType \<Rightarrow> string \<Rightarrow> string \<Rightarrow> u32 \<Rightarrow> bool" where
  "edge m mt u v w \<longleftrightarrow>
     (\<exists>nv l. m u = Some nv \<and> (v, l) \<in> set (vw_Links nv) \<and> findMetric mt (lk_Metrics l) = Inr w)"

text \<open>\<open>route m mt src vs c\<close>: the routers \<open>vs\<close> after \<open>src\<close> follow links of total cost \<open>c\<close>.\<close>

inductive route :: "tedView \<Rightarrow> MetricType \<Rightarrow> string \<Rightarrow> string list \<Rightarrow> nat \<Rightarrow> bool"
  for m :: tedView and mt :: MetricType and src :: string where
  start: "route m mt src [] 0"
| hop: "route m mt src vs c \<Longrightarrow> edge m mt (last (src # vs)) v w \<Longrightarrow> route m mt src (vs @ [v]) (c + unat w)"

definition target :: "string \<Rightarrow> string list \<Rightarrow> string" where
  "target src vs = last (src # vs)"

lemma target_simps [simp]: "target src [] = src" "target src (vs @ [v]) = v"
  by (simp_all add: target_def)

text \<open>The segment a router contributes to a segment list.\<close>

definition router_segment :: "tedState \<Rightarrow> string \<Rightarrow> Segment result" where
  "router_segment st rid = bindE (loadNode (fst st) (nodeAt (ted_Nodes (snd st)) rid)) NodeSegment"

section \<open>nextNode\<close>

lemma nextNodeLoop_spec:
  assumes e: "\<forall>x \<in> set entries. map_of c (fst x) = Some (snd x) \<and> fst x \<noteq> []"
    and i: "i \<noteq> [] \<longrightarrow> (\<exists>n. map_of c i = Some n \<and> \<not> cn_calculated n)"
  obtains r where "nextNodeLoop c i entries = Inr r"
    "r = [] \<longleftrightarrow> i = [] \<and> (\<forall>x \<in> set entries. cn_calculated (snd x))"
    "r \<noteq> [] \<longrightarrow> (\<exists>n. map_of c r = Some n \<and> \<not> cn_calculated n \<and>
       (\<forall>x \<in> set entries. \<not> cn_calculated (snd x) \<longrightarrow> cn_cost n \<le> cn_cost (snd x)) \<and>
       (\<forall>k. i \<noteq> [] \<longrightarrow> map_of c i = Some k \<longrightarrow> cn_cost n \<le> cn_cost k))"
proof -
  have "\<exists>r. nextNodeLoop c i entries = Inr r \<and>
    (r = [] \<longleftrightarrow> i = [] \<and> (\<forall>x \<in> set entries. cn_calculated (snd x))) \<and>
    (r \<noteq> [] \<longrightarrow> (\<exists>n. map_of c r = Some n \<and> \<not> cn_calculated n \<and>
       (\<forall>x \<in> set entries. \<not> cn_calculated (snd x) \<longrightarrow> cn_cost n \<le> cn_cost (snd x)) \<and>
       (\<forall>k. i \<noteq> [] \<longrightarrow> map_of c i = Some k \<longrightarrow> cn_cost n \<le> cn_cost k)))"
    using e i
  proof (induction entries arbitrary: i)
    case Nil
    then show ?case by auto
  next
    case (Cons x entries)
    obtain a n where x: "x = (a, n)" by fastforce
    have a: "map_of c a = Some n" "a \<noteq> []" and es: "\<forall>x \<in> set entries. map_of c (fst x) = Some (snd x) \<and> fst x \<noteq> []"
      using Cons.prems(1) x by auto
    show ?case
    proof (cases "cn_calculated n")
      case True
      with Cons.IH [OF es Cons.prems(2)] x show ?thesis by auto
    next
      case nc: False
      show ?thesis
      proof (cases "i = []")
        case True
        have "a \<noteq> [] \<longrightarrow> (\<exists>n. map_of c a = Some n \<and> \<not> cn_calculated n)" using a nc by simp
        from Cons.IH [OF es this] x a nc True show ?thesis by auto
      next
        case False
        with Cons.prems(2) obtain k where k: "map_of c i = Some k" "\<not> cn_calculated k" by auto
        define j where "j = (if cn_cost k > cn_cost n then a else i)"
        have j: "j \<noteq> []" "j \<noteq> [] \<longrightarrow> (\<exists>n. map_of c j = Some n \<and> \<not> cn_calculated n)"
          using a nc k False by (auto simp: j_def)
        from Cons.IH [OF es j(2)] obtain r where r: "nextNodeLoop c j entries = Inr r"
          "r \<noteq> []" "\<exists>n. map_of c r = Some n \<and> \<not> cn_calculated n \<and>
             (\<forall>x \<in> set entries. \<not> cn_calculated (snd x) \<longrightarrow> cn_cost n \<le> cn_cost (snd x)) \<and>
             (\<forall>k. j \<noteq> [] \<longrightarrow> map_of c j = Some k \<longrightarrow> cn_cost n \<le> cn_cost k)"
          using j(1) by auto
        obtain q where q: "map_of c r = Some q" "\<not> cn_calculated q"
          "\<forall>x \<in> set entries. \<not> cn_calculated (snd x) \<longrightarrow> cn_cost q \<le> cn_cost (snd x)"
          "\<forall>k. j \<noteq> [] \<longrightarrow> map_of c j = Some k \<longrightarrow> cn_cost q \<le> cn_cost k"
          using r(3) by blast
        have "cn_cost q \<le> cn_cost n \<and> cn_cost q \<le> cn_cost k"
          using q(4) j(1) a(1) k(1) by (cases "cn_cost k > cn_cost n") (auto simp: j_def not_less)
        with r(1,2) q x nc False k j_def show ?thesis by (simp add: calcAt_def)
      qed
    qed
  qed
  then show ?thesis using that by blast
qed

lemma nextNode_spec:
  assumes d: "distinct (map fst c)" and p: "mset entries = mset c" and e: "[] \<notin> fst ` set c"
  shows "(\<forall>v n. map_of c v = Some n \<longrightarrow> cn_calculated n) \<and> nextNode c entries = errorf ''next node not found'' [] \<or>
    (\<exists>u n. nextNode c entries = Inr u \<and> map_of c u = Some n \<and> \<not> cn_calculated n \<and>
       (\<forall>v k. map_of c v = Some k \<longrightarrow> \<not> cn_calculated k \<longrightarrow> cn_cost n \<le> cn_cost k))"
proof -
  have s: "set entries = set c" using p by (rule mset_eq_setD)
  have m: "(v, n) \<in> set c \<longleftrightarrow> map_of c v = Some n" for v n using d by simp
  have en: "\<forall>x \<in> set entries. map_of c (fst x) = Some (snd x) \<and> fst x \<noteq> []"
    unfolding s using e d by force
  obtain r where r: "nextNodeLoop c [] entries = Inr r"
    "r = [] \<longleftrightarrow> (\<forall>x \<in> set entries. cn_calculated (snd x))"
    "r \<noteq> [] \<longrightarrow> (\<exists>n. map_of c r = Some n \<and> \<not> cn_calculated n \<and>
       (\<forall>x \<in> set entries. \<not> cn_calculated (snd x) \<longrightarrow> cn_cost n \<le> cn_cost (snd x)))"
    using nextNodeLoop_spec [OF en, of "[]"] by auto
  show ?thesis
  proof (cases "r = []")
    case True
    have "cn_calculated n" if "map_of c v = Some n" for v n
      using r(2) True that m [of v n] s by force
    with r(1) True show ?thesis by (auto simp: nextNode_def)
  next
    case False
    then obtain n where n: "map_of c r = Some n" "\<not> cn_calculated n"
      "\<forall>x \<in> set entries. \<not> cn_calculated (snd x) \<longrightarrow> cn_cost n \<le> cn_cost (snd x)" using r(3) by blast
    have "cn_cost n \<le> cn_cost k" if "map_of c v = Some k" "\<not> cn_calculated k" for v k
      using n(3) m [of v k] that s by force
    with r(1) n False show ?thesis by (auto simp: nextNode_def)
  qed
qed


section \<open>Relaxing the links of a node\<close>

lemma findMetric_no_panic [simp]: "findMetric mt ms \<noteq> panic"
  by (induction ms) auto

lemma NewSegment_no_panic [simp]: "NewSegment s \<noteq> panic"
  by (auto simp: NewSegment_def split: sum.splits)

lemma NodeSegment_no_panic:
  assumes "None \<notin> set (nd_SRv6SIDs n)"
  shows "NodeSegment n \<noteq> panic"
proof -
  have f: "None \<notin> set ss \<Longrightarrow> firstSRv6SID ss \<noteq> panic" for ss
    by (induction ss rule: firstSRv6SID.induct) (auto split: list.splits)
  have g: "None \<notin> set ss \<Longrightarrow> srv6NodeInfo seg ss \<noteq> panic" for seg ss
    by (induction seg ss rule: srv6NodeInfo.induct) (auto simp: bindE_eq_Inl split: list.splits)
  show ?thesis
    using f [OF assms] g [OF assms]
    by (auto simp: NodeSegment_def NewSegmentSRv6WithNodeInfo_def bindE_eq_Inl split: option.splits)
qed

definition good :: "tedState \<Rightarrow> string \<Rightarrow> cnode \<Rightarrow> bool" where
  "good st v n \<longleftrightarrow> cn_id n = v \<and> tedViewOf st v \<noteq> None \<and> router_segment st v = Inr (cn_nodeSegment n)"

definition linked :: "tedView \<Rightarrow> MetricType \<Rightarrow> calc \<Rightarrow> string set \<Rightarrow> string \<Rightarrow> cnode \<Rightarrow> bool" where
  "linked m mt c S v n \<longleftrightarrow> cn_prevNode n \<in> S \<and>
     (\<exists>nu w. map_of c (cn_prevNode n) = Some nu \<and> edge m mt (cn_prevNode n) v w \<and>
        unat (cn_cost n) = unat (cn_cost nu) + unat w)"

text \<open>
  The state while the links of \<open>u\<close> are relaxed: \<open>c0\<close> is the map before, \<open>ds\<close> the calculated nodes.
\<close>

definition mid :: "tedState \<Rightarrow> MetricType \<Rightarrow> string \<Rightarrow> nat \<Rightarrow> calc \<Rightarrow> string list \<Rightarrow> string \<Rightarrow> calc \<Rightarrow> bool" where
  "mid st mt src M c0 ds u c \<longleftrightarrow>
     distinct (map fst c) \<and>
     (\<forall>v n. map_of c v = Some n \<longrightarrow> good st v n \<and> (cn_calculated n \<longleftrightarrow> v \<in> set ds) \<and>
        unat (cn_cost n) \<le> M * Suc (length ds)) \<and>
     (\<forall>v \<in> insert u (set ds). map_of c v = map_of c0 v) \<and>
     (\<forall>v n. map_of c0 v = Some n \<longrightarrow> (\<exists>n'. map_of c v = Some n' \<and> cn_cost n' \<le> cn_cost n)) \<and>
     (\<forall>v n nu. map_of c v = Some n \<longrightarrow> v \<notin> set ds \<longrightarrow> map_of c0 u = Some nu \<longrightarrow> cn_cost nu \<le> cn_cost n) \<and>
     (\<forall>v n. map_of c v = Some n \<longrightarrow> v \<noteq> src \<longrightarrow> linked (tedViewOf st) mt c (insert u (set ds)) v n)"

lemma mid_same: "mid st mt src M c0 ds u c \<Longrightarrow> v \<in> insert u (set ds) \<Longrightarrow> map_of c v = map_of c0 v"
  unfolding mid_def by blast

lemma mid_bound:
  "mid st mt src M c0 ds u c \<Longrightarrow> map_of c v = Some n \<Longrightarrow> unat (cn_cost n) \<le> M * Suc (length ds)"
  unfolding mid_def by blast

lemma mid_good:
  "mid st mt src M c0 ds u c \<Longrightarrow> map_of c v = Some n \<Longrightarrow>
   good st v n \<and> (cn_calculated n \<longleftrightarrow> v \<in> set ds)"
  unfolding mid_def by blast

lemma mid_update:
  assumes mid: "mid st mt src M c0 ds u c"
    and v: "v \<notin> insert u (set ds)" and nu: "map_of c0 u = Some nu"
    and n: "good st v n" "\<not> cn_calculated n" "unat (cn_cost n) = unat (cn_cost nu) + unat w"
      "unat (cn_cost n) \<le> M * Suc (length ds)" "cn_prevNode n = u"
    and e: "edge (tedViewOf st) mt u v w"
    and le: "\<And>k. map_of c v = Some k \<Longrightarrow> cn_cost n \<le> cn_cost k"
  shows "mid st mt src M c0 ds u (AList.update v n c)"
proof -
  let ?c = "AList.update v n c"
  have mp: "map_of ?c x = (if x = v then Some n else map_of c x)" for x by (simp add: update_conv')
  have cu: "map_of c u = Some nu" using mid nu by (simp add: mid_def)
  have "distinct (map fst ?c)" using mid by (simp add: mid_def distinct_update)
  moreover have "\<forall>x k. map_of ?c x = Some k \<longrightarrow> good st x k \<and> (cn_calculated k \<longleftrightarrow> x \<in> set ds) \<and>
        unat (cn_cost k) \<le> M * Suc (length ds)"
    using mid n v by (auto simp: mid_def mp)
  moreover have "\<forall>x \<in> insert u (set ds). map_of ?c x = map_of c0 x"
    using mid v by (auto simp: mid_def mp)
  moreover have "\<exists>n'. map_of ?c x = Some n' \<and> cn_cost n' \<le> cn_cost k" if k: "map_of c0 x = Some k" for x k
  proof -
    obtain n' where "map_of c x = Some n'" "cn_cost n' \<le> cn_cost k" using mid k unfolding mid_def by blast
    with le [of n'] show ?thesis by (auto simp: mp)
  qed
  moreover have "cn_cost nu \<le> cn_cost k" if "map_of ?c x = Some k" "x \<notin> set ds" for x k
  proof (cases "x = v")
    case True
    with that n(3) show ?thesis by (simp add: mp word_le_nat_alt)
  next
    case False
    with that mid nu show ?thesis unfolding mid_def mp by (metis (no_types, lifting))
  qed
  moreover have "linked (tedViewOf st) mt ?c (insert u (set ds)) x k" if "map_of ?c x = Some k" "x \<noteq> src" for x k
  proof (cases "x = v")
    case True
    then have k: "k = n" using that by (simp add: mp)
    have "map_of ?c u = Some nu" using cu v by (auto simp: mp)
    then show ?thesis using n(3,5) e unfolding k True linked_def by auto
  next
    case False
    with that mid have "linked (tedViewOf st) mt c (insert u (set ds)) x k" unfolding mid_def mp by simp
    then show ?thesis using v unfolding linked_def mp by auto
  qed
  ultimately show ?thesis unfolding mid_def using nu by auto
qed

text \<open>Nothing the search needs is missing: segments of routers, metrics of links.\<close>

definition complete :: "tedState \<Rightarrow> MetricType \<Rightarrow> bool" where
  "complete st mt \<longleftrightarrow>
     (\<forall>v. tedViewOf st v \<noteq> None \<longrightarrow> (\<exists>s. router_segment st v = Inr s)) \<and>
     (\<forall>u nv v l. tedViewOf st u = Some nv \<longrightarrow> (v, l) \<in> set (vw_Links nv) \<longrightarrow>
        (\<exists>w. findMetric mt (lk_Metrics l) = Inr w))"

lemma relax_step:
  assumes ok: "ted_ok asn st" and mid: "mid st mt src M c0 ds u c"
    and nu: "map_of c0 u = Some nu" "unat (cn_cost nu) \<le> M * length ds"
    and ds: "\<forall>x \<in> set ds. \<exists>k. map_of c0 x = Some k \<and> cn_cost k \<le> cn_cost nu"
    and bound: "M * Suc (length ds) < 2 ^ 32"
    and ul: "map_of (ted_Nodes (snd st)) u = Some (Some i)" "lk \<in> set (nd_Links (fst st ! i))"
    and M: "\<forall>v w. edge (tedViewOf st) mt u v w \<longrightarrow> unat w \<le> M"
  shows "(\<exists>e. relaxLink (fst st) mt u c lk = Inl (Err e)) \<and> \<not> complete st mt \<or>
     (\<exists>c'. relaxLink (fst st) mt u c lk = Inr c' \<and> mid st mt src M c0 ds u c' \<and>
        (\<forall>v n. map_of c v = Some n \<longrightarrow> (\<exists>n'. map_of c' v = Some n' \<and> cn_cost n' \<le> cn_cost n)) \<and>
        (\<exists>v w n. linkView (fst st) lk = (v, plainLink (the lk)) \<and> findMetric mt (lk_Metrics (the lk)) = Inr w \<and>
           map_of c' v = Some n \<and> unat (cn_cost n) \<le> unat (cn_cost nu) + unat w))"
proof -
  obtain h ted where st: "st = (h, ted)" by fastforce
  from ted_okD [OF ok ul(1)] have i: "i < length h" "node_ok st i" and ru: "nd_RouterID (h ! i) = u" using st by auto
  from node_ok_remote [OF ok i(2) ul(2)] obtain l j where l: "lk = Some l" "lk_RemoteNode l = Some j" "j < length h"
    "map_of (ted_Nodes ted) (nd_RouterID (h ! j)) = Some (Some j)" using st by (metis fst_conv snd_conv)
  define v where "v = nd_RouterID (h ! j)"
  from ted_okD [OF ok, of v "Some j"] l(4) st have jok: "node_ok st j" by (auto simp: v_def)
  have lv: "linkView h lk = (v, plainLink l)" using l by (simp add: linkView_def ptrRouterID_def v_def)
  have mv: "tedViewOf st v \<noteq> None" using l(4) by (simp add: tedViewOf_def st v_def)
  have seg: "router_segment st v = NodeSegment (h ! j)"
    using l(3,4) by (simp add: router_segment_def st nodeAt_def v_def)
  have np: "NodeSegment (h ! j) \<noteq> panic"
    using jok by (intro NodeSegment_no_panic) (simp add: node_ok_def st Let_def)
  have cu: "map_of c u = Some nu" using mid nu by (simp add: mid_def)
  have vu: "tedViewOf st u = Some (nodeView h (h ! i))" using ul(1) by (simp add: tedViewOf_def st)
  have vl: "(v, plainLink l) \<in> set (vw_Links (nodeView h (h ! i)))"
    using ul(2) lv st by (force simp: nodeView_def)
  show ?thesis
  proof (cases "findMetric mt (lk_Metrics l)")
    case (Inl f)
    then have "\<not> complete st mt" using vu vl unfolding complete_def by (fastforce simp: plainLink_def)
    moreover have "f \<noteq> Panic" using Inl findMetric_no_panic [of mt "lk_Metrics l"] by auto
    ultimately show ?thesis using l Inl by (cases f) (auto simp: relaxLink_def LsLink_Metric_def)
  next
    case (Inr w)
    from vu vl have e: "edge (tedViewOf st) mt u v w" using Inr by (auto simp: edge_def plainLink_def)
    have le: "unat (cn_cost nu) + unat w \<le> M * Suc (length ds)" using M e nu(2) by fastforce
    then have sum: "unat (cn_cost nu + w) = unat (cn_cost nu) + unat w"
      using bound by (simp add: unat_word_ariths)
    show ?thesis
    proof (cases "map_of c v")
      case None
      have nv: "v \<notin> insert u (set ds)"
      proof
        assume "v \<in> insert u (set ds)"
        then have "map_of c0 v = None" "map_of c0 v \<noteq> None"
          using mid_same [OF mid, of v] None nu(1) ds by auto
        then show False by simp
      qed
      show ?thesis
      proof (cases "NodeSegment (h ! j)")
        case (Inl f)
        with np have "f \<noteq> Panic" by auto
        moreover have "\<not> complete st mt" using Inl seg mv unfolding complete_def by auto
        ultimately show ?thesis using Inl None l Inr cu st
          by (cases f) (auto simp: relaxLink_def LsLink_Metric_def calcAt_def v_def)
      next
        case (Inr sg)
        define n where "n = (newNode v (cn_cost nu + w) sg)\<lparr>cn_prevNode := u\<rparr>"
        have "mid st mt src M c0 ds u (AList.update v n c)"
          by (rule mid_update [OF mid nv nu(1) _ _ _ _ _ e])
            (use None seg Inr mv le sum in \<open>auto simp: n_def newNode_def good_def\<close>)
        moreover have "relaxLink h mt u c lk = Inr (AList.update v n c)"
          using \<open>findMetric mt (lk_Metrics l) = Inr w\<close> None l Inr cu
          by (simp add: relaxLink_def LsLink_Metric_def calcAt_def v_def n_def)
        moreover have "map_of (AList.update v n c) x = (if x = v then Some n else map_of c x)" for x
          by (simp add: update_conv')
        ultimately show ?thesis
          using st lv l \<open>findMetric mt (lk_Metrics l) = Inr w\<close> sum None by (auto simp: n_def newNode_def)
      qed
    next
      case (Some k)
      show ?thesis
      proof (cases "cn_cost nu + w < cn_cost k")
        case True
        define n where "n = k\<lparr>cn_cost := cn_cost nu + w, cn_prevNode := u\<rparr>"
        have nv: "v \<notin> insert u (set ds)"
        proof
          assume "v \<in> insert u (set ds)"
          then have "map_of c0 v = Some k" using mid_same [OF mid] Some by metis
          then have "cn_cost k \<le> cn_cost nu"
            using ds nu(1) \<open>v \<in> insert u (set ds)\<close> by auto
          with True sum show False by (simp add: word_less_nat_alt word_le_nat_alt)
        qed
        have kg: "good st v k" "\<not> cn_calculated k" using mid_good [OF mid Some] nv by auto
        have "mid st mt src M c0 ds u (AList.update v n c)"
          by (rule mid_update [OF mid nv nu(1) _ _ _ _ _ e])
            (use Some kg le sum True in \<open>auto simp: n_def good_def\<close>)
        moreover have "relaxLink h mt u c lk = Inr (AList.update v n c)"
          using Inr Some l cu True by (simp add: relaxLink_def LsLink_Metric_def calcAt_def v_def n_def)
        moreover have "map_of (AList.update v n c) x = (if x = v then Some n else map_of c x)" for x
          by (simp add: update_conv')
        ultimately show ?thesis
          using st lv l Inr sum Some True by (auto simp: n_def)
      next
        case False
        have "relaxLink h mt u c lk = Inr c"
          using Inr Some l cu False by (simp add: relaxLink_def LsLink_Metric_def calcAt_def v_def)
        moreover have "unat (cn_cost k) \<le> unat (cn_cost nu) + unat w"
          using False sum by (simp add: not_less word_le_nat_alt)
        ultimately show ?thesis using st lv l Inr Some mid by auto
      qed
    qed
  qed
qed


lemma relax_links:
  assumes ok: "ted_ok asn st" and mid: "mid st mt src M c0 ds u c"
    and nu: "map_of c0 u = Some nu" "unat (cn_cost nu) \<le> M * length ds"
    and ds: "\<forall>x \<in> set ds. \<exists>k. map_of c0 x = Some k \<and> cn_cost k \<le> cn_cost nu"
    and bound: "M * Suc (length ds) < 2 ^ 32"
    and ul: "map_of (ted_Nodes (snd st)) u = Some (Some i)" "set ls \<subseteq> set (nd_Links (fst st ! i))"
    and M: "\<forall>v w. edge (tedViewOf st) mt u v w \<longrightarrow> unat w \<le> M"
  shows "(\<exists>e. relaxLinks (fst st) mt u c ls = Inl (Err e)) \<and> \<not> complete st mt \<or>
     (\<exists>c'. relaxLinks (fst st) mt u c ls = Inr c' \<and> mid st mt src M c0 ds u c' \<and>
        (\<forall>v n. map_of c v = Some n \<longrightarrow> (\<exists>n'. map_of c' v = Some n' \<and> cn_cost n' \<le> cn_cost n)) \<and>
        (\<forall>lk \<in> set ls. \<exists>v w n. linkView (fst st) lk = (v, plainLink (the lk)) \<and>
           findMetric mt (lk_Metrics (the lk)) = Inr w \<and>
           map_of c' v = Some n \<and> unat (cn_cost n) \<le> unat (cn_cost nu) + unat w))"
  using mid ul(2)
proof (induction ls arbitrary: c)
  case Nil
  then show ?case by auto
next
  case (Cons lk ls)
  have "lk \<in> set (nd_Links (fst st ! i))" "set ls \<subseteq> set (nd_Links (fst st ! i))" using Cons.prems(2) by auto
  note step = relax_step [OF ok Cons.prems(1) nu ds bound ul(1) this(1) M]
  show ?case
  proof (cases "\<exists>e. relaxLink (fst st) mt u c lk = Inl (Err e)")
    case True
    with step show ?thesis by auto
  next
    case False
    with step obtain c1 v w n where c1: "relaxLink (fst st) mt u c lk = Inr c1" "mid st mt src M c0 ds u c1"
      "\<forall>v n. map_of c v = Some n \<longrightarrow> (\<exists>n'. map_of c1 v = Some n' \<and> cn_cost n' \<le> cn_cost n)"
      and d: "linkView (fst st) lk = (v, plainLink (the lk))" "findMetric mt (lk_Metrics (the lk)) = Inr w"
        "map_of c1 v = Some n" "unat (cn_cost n) \<le> unat (cn_cost nu) + unat w" by blast
    from Cons.IH [OF c1(2) \<open>set ls \<subseteq> _\<close>] show ?thesis
    proof (elim disjE exE conjE)
      fix e assume "relaxLinks (fst st) mt u c1 ls = Inl (Err e)" "\<not> complete st mt"
      with c1(1) show ?thesis by simp
    next
      fix c2 assume c2: "relaxLinks (fst st) mt u c1 ls = Inr c2" "mid st mt src M c0 ds u c2"
        "\<forall>v n. map_of c1 v = Some n \<longrightarrow> (\<exists>n'. map_of c2 v = Some n' \<and> cn_cost n' \<le> cn_cost n)"
        "\<forall>lk \<in> set ls. \<exists>v w n. linkView (fst st) lk = (v, plainLink (the lk)) \<and>
           findMetric mt (lk_Metrics (the lk)) = Inr w \<and>
           map_of c2 v = Some n \<and> unat (cn_cost n) \<le> unat (cn_cost nu) + unat w"
      obtain n' where n': "map_of c2 v = Some n'" "cn_cost n' \<le> cn_cost n" using c2(3) d(3) by blast
      have "unat (cn_cost n') \<le> unat (cn_cost nu) + unat w"
        using n'(2) d(4) by (simp add: word_le_nat_alt)
      with n'(1) have "\<exists>v w n. linkView (fst st) lk = (v, plainLink (the lk)) \<and>
           findMetric mt (lk_Metrics (the lk)) = Inr w \<and>
           map_of c2 v = Some n \<and> unat (cn_cost n) \<le> unat (cn_cost nu) + unat w"
        using d(1,2) by blast
      moreover have "\<forall>v n. map_of c v = Some n \<longrightarrow> (\<exists>n'. map_of c2 v = Some n' \<and> cn_cost n' \<le> cn_cost n)"
        using c1(3) c2(3) by (meson order_trans)
      ultimately show ?thesis using c1(1) c2 by simp
    qed
  qed
qed

section \<open>The invariant of the search\<close>

text \<open>\<open>ds\<close> are the calculated nodes in the order in which they were finished.\<close>

definition settled :: "tedState \<Rightarrow> MetricType \<Rightarrow> string \<Rightarrow> nat \<Rightarrow> string list \<Rightarrow> calc \<Rightarrow> bool" where
  "settled st mt src M ds c \<longleftrightarrow>
     distinct (map fst c) \<and> distinct ds \<and>
     (\<forall>v n. map_of c v = Some n \<longrightarrow> good st v n \<and> (cn_calculated n \<longleftrightarrow> v \<in> set ds) \<and>
        unat (cn_cost n) \<le> M * length ds) \<and>
     (\<exists>n. map_of c src = Some n \<and> cn_cost n = 0) \<and>
     (\<forall>v \<in> set ds. map_of c v \<noteq> None) \<and>
     (\<forall>v n x k. v \<in> set ds \<longrightarrow> map_of c v = Some n \<longrightarrow> map_of c x = Some k \<longrightarrow> x \<notin> set ds \<longrightarrow> cn_cost n \<le> cn_cost k) \<and>
     (\<forall>u n v w. u \<in> set ds \<longrightarrow> map_of c u = Some n \<longrightarrow> edge (tedViewOf st) mt u v w \<longrightarrow>
        (\<exists>k. map_of c v = Some k \<and> unat (cn_cost k) \<le> unat (cn_cost n) + unat w)) \<and>
     (\<forall>v n. map_of c v = Some n \<longrightarrow> v \<noteq> src \<longrightarrow> linked (tedViewOf st) mt c (set ds) v n) \<and>
     (\<forall>xs v ys n. ds = xs @ v # ys \<longrightarrow> v \<noteq> src \<longrightarrow> map_of c v = Some n \<longrightarrow> cn_prevNode n \<in> set xs)"

lemma settledD:
  assumes "settled st mt src M ds c"
  shows settled_distinct: "distinct (map fst c)" and settled_ds: "distinct ds"
    and settled_good: "map_of c v = Some n \<Longrightarrow> good st v n"
    and settled_calculated: "map_of c v = Some n \<Longrightarrow> cn_calculated n \<longleftrightarrow> v \<in> set ds"
    and settled_bound: "map_of c v = Some n \<Longrightarrow> unat (cn_cost n) \<le> M * length ds"
    and settled_src: "\<exists>n. map_of c src = Some n \<and> cn_cost n = 0"
    and settled_dom: "v \<in> set ds \<Longrightarrow> \<exists>n. map_of c v = Some n"
    and settled_le: "v \<in> set ds \<Longrightarrow> map_of c v = Some n \<Longrightarrow> map_of c x = Some k \<Longrightarrow> x \<notin> set ds \<Longrightarrow> cn_cost n \<le> cn_cost k"
    and settled_edge: "u \<in> set ds \<Longrightarrow> map_of c u = Some n \<Longrightarrow> edge (tedViewOf st) mt u v w \<Longrightarrow>
        \<exists>k. map_of c v = Some k \<and> unat (cn_cost k) \<le> unat (cn_cost n) + unat w"
    and settled_linked: "map_of c v = Some n \<Longrightarrow> v \<noteq> src \<Longrightarrow> linked (tedViewOf st) mt c (set ds) v n"
    and settled_order: "ds = xs @ v # ys \<Longrightarrow> v \<noteq> src \<Longrightarrow> map_of c v = Some n \<Longrightarrow> cn_prevNode n \<in> set xs"
  using assms unfolding settled_def by blast+

lemma settled_src_first:
  assumes s: "settled st mt src M ds c" and u: "map_of c u = Some n" "u \<notin> set ds"
  shows "src \<in> insert u (set ds)"
proof (rule ccontr)
  assume a: "src \<notin> insert u (set ds)"
  then have "linked (tedViewOf st) mt c (set ds) u n" using settled_linked [OF s u(1)] by auto
  then obtain x xs where ds: "ds = x # xs" by (cases ds) (auto simp: linked_def)
  then obtain k where "map_of c x = Some k" using settled_dom [OF s, of x] by auto
  then have "cn_prevNode k \<in> set []" using a ds by (intro settled_order [OF s, of "[]" x xs]) auto
  then show False by simp
qed

lemma settled_mid:
  assumes s: "settled st mt src M ds c" and u: "map_of c u = Some n" "u \<notin> set ds"
    and min: "\<And>v k. map_of c v = Some k \<Longrightarrow> \<not> cn_calculated k \<Longrightarrow> cn_cost n \<le> cn_cost k"
  shows "mid st mt src M c ds u c"
  unfolding mid_def
proof (intro conjI allI impI ballI)
  fix v k assume v: "map_of c v = Some k"
  show "good st v k" "cn_calculated k \<longleftrightarrow> v \<in> set ds"
    using settled_good [OF s v] settled_calculated [OF s v] by simp_all
  show "unat (cn_cost k) \<le> M * Suc (length ds)" using settled_bound [OF s v] by simp
  show "linked (tedViewOf st) mt c (insert u (set ds)) v k" if "v \<noteq> src"
    using settled_linked [OF s v that] by (auto simp: linked_def)
  show "cn_cost nu \<le> cn_cost k" if "v \<notin> set ds" "map_of c u = Some nu" for nu
    using that u min [OF v] settled_calculated [OF s v] by simp
qed (use settled_distinct [OF s] in auto)


lemma settled_step:
  assumes s: "settled st mt src M ds c" and u: "map_of c u = Some n" "u \<notin> set ds"
    and mid: "mid st mt src M c ds u c'"
    and done': "\<And>v w. edge (tedViewOf st) mt u v w \<Longrightarrow>
       \<exists>k. map_of c' v = Some k \<and> unat (cn_cost k) \<le> unat (cn_cost n) + unat w"
    and min: "\<And>v k. map_of c v = Some k \<Longrightarrow> \<not> cn_calculated k \<Longrightarrow> cn_cost n \<le> cn_cost k"
  shows "settled st mt src M (ds @ [u]) (AList.update u (n\<lparr>cn_calculated := True\<rparr>) c')"
proof -
  let ?c = "AList.update u (n\<lparr>cn_calculated := True\<rparr>) c'" and ?m = "tedViewOf st"
  have mp: "map_of ?c v = (if v = u then Some (n\<lparr>cn_calculated := True\<rparr>) else map_of c' v)" for v
    by (simp add: update_conv')
  have same: "map_of c' v = map_of c v" if "v \<in> insert u (set ds)" for v
    using mid_same [OF mid that] .
  have cu: "map_of c' u = Some n" using same [of u] u(1) by simp
  have down: "\<exists>k'. map_of c' v = Some k' \<and> cn_cost k' \<le> cn_cost k" if "map_of c v = Some k" for v k
    using mid that unfolding mid_def by blast
  have up: "cn_cost n \<le> cn_cost k" if "map_of c' v = Some k" "v \<notin> set ds" for v k
    using mid that u(1) unfolding mid_def by blast
  have cost: "\<exists>k'. map_of c' v = Some k' \<and> cn_cost k' = cn_cost k \<and> cn_prevNode k' = cn_prevNode k"
    if "map_of ?c v = Some k" for v k
    using that cu by (cases "v = u") (auto simp: mp)
  show ?thesis
    unfolding settled_def
  proof (intro conjI allI impI ballI)
    show "distinct (map fst ?c)" using mid by (simp add: mid_def distinct_update)
    show "distinct (ds @ [u])" using settled_ds [OF s] u(2) by simp
    show "\<exists>n. map_of ?c src = Some n \<and> cn_cost n = 0"
    proof -
      have "src \<in> insert u (set ds)" by (rule settled_src_first [OF s u])
      then have "map_of c' src = map_of c src" by (rule same)
      with settled_src [OF s] cu show ?thesis by (cases "src = u") (auto simp: mp)
    qed
  next
    fix v k assume v: "map_of ?c v = Some k"
    show "good st v k"
      using v mid_good [OF mid] cu by (cases "v = u") (auto simp: mp good_def)
    show "cn_calculated k \<longleftrightarrow> v \<in> set (ds @ [u])"
      using v mid_good [OF mid, of v] by (cases "v = u") (auto simp: mp)
    show "unat (cn_cost k) \<le> M * length (ds @ [u])"
      using cost [OF v] mid_bound [OF mid, of v] by fastforce
    show "linked ?m mt ?c (set (ds @ [u])) v k" if "v \<noteq> src"
    proof -
      obtain k' where k': "map_of c' v = Some k'" "cn_cost k' = cn_cost k" "cn_prevNode k' = cn_prevNode k"
        using cost [OF v] by blast
      then have l: "linked ?m mt c' (insert u (set ds)) v k'" using mid that unfolding mid_def by blast
      then obtain nu w where nu: "map_of c' (cn_prevNode k) = Some nu" "edge ?m mt (cn_prevNode k) v w"
        "unat (cn_cost k) = unat (cn_cost nu) + unat w" "cn_prevNode k \<in> insert u (set ds)"
        using k' by (auto simp: linked_def)
      have "\<exists>nu'. map_of ?c (cn_prevNode k) = Some nu' \<and> cn_cost nu' = cn_cost nu"
        using nu(1) cu unfolding mp by (cases "cn_prevNode k = u") auto
      with nu show ?thesis by (auto simp: linked_def)
    qed
  next
    fix v assume "v \<in> set (ds @ [u])"
    then show "map_of ?c v \<noteq> None"
      using settled_dom [OF s, of v] same [of v] by (auto simp: mp)
  next
    fix v k x j
    assume v: "v \<in> set (ds @ [u])" "map_of ?c v = Some k" and x: "map_of ?c x = Some j" "x \<notin> set (ds @ [u])"
    have x': "map_of c' x = Some j" "x \<notin> set ds" using x by (auto simp: mp)
    have xj: "cn_cost n \<le> cn_cost j" by (rule up [OF x'])
    show "cn_cost k \<le> cn_cost j"
    proof (cases "v = u")
      case True
      with v xj show ?thesis by (auto simp: mp)
    next
      case False
      with v have "v \<in> set ds" "map_of c v = Some k" using same [of v] by (auto simp: mp)
      from settled_le [OF s this u] xj show ?thesis by simp
    qed
  next
    fix x k v w assume x: "x \<in> set (ds @ [u])" "map_of ?c x = Some k" and e: "edge ?m mt x v w"
    have "\<exists>j. map_of c' v = Some j \<and> unat (cn_cost j) \<le> unat (cn_cost k) + unat w"
    proof (cases "x = u")
      case True
      with done' [of v w] e x(2) show ?thesis by (auto simp: mp)
    next
      case False
      with x have "x \<in> set ds" "map_of c x = Some k" using same [of x] by (auto simp: mp)
      from settled_edge [OF s this e] obtain j where j: "map_of c v = Some j" "unat (cn_cost j) \<le> unat (cn_cost k) + unat w"
        by blast
      from down [OF j(1)] j(2) show ?thesis by (auto simp: word_le_nat_alt)
    qed
    then show "\<exists>j. map_of ?c v = Some j \<and> unat (cn_cost j) \<le> unat (cn_cost k) + unat w"
      using cu by (cases "v = u") (auto simp: mp)
  next
    fix xs v ys k assume d: "ds @ [u] = xs @ v # ys" and v: "v \<noteq> src" "map_of ?c v = Some k"
    show "cn_prevNode k \<in> set xs"
    proof (cases ys rule: rev_cases)
      case Nil
      with d have "v = u" "xs = ds" by auto
      moreover from this have "linked ?m mt c (set ds) u n" using settled_linked [OF s u(1)] v(1) by simp
      ultimately show ?thesis using v(2) by (auto simp: linked_def mp)
    next
      case (snoc zs z)
      with d have ds: "ds = xs @ v # zs" by auto
      with v u(2) have "map_of c v = Some k" using same [of v] by (auto simp: mp split: if_splits)
      then show ?thesis by (rule settled_order [OF s ds v(1)])
    qed
  qed
qed

section \<open>The loop ends at the destination\<close>

definition fits :: "tedView \<Rightarrow> MetricType \<Rightarrow> nat \<Rightarrow> bool" where
  "fits m mt N \<longleftrightarrow> (\<exists>M. (\<forall>u v w. edge m mt u v w \<longrightarrow> unat w \<le> M) \<and> M * N < 2 ^ 32)"

definition range_order :: "rangeOrder \<Rightarrow> bool" where
  "range_order ord \<longleftrightarrow> (\<forall>k c. mset (ord k c) = mset c)"

definition at_goal :: "tedState \<Rightarrow> MetricType \<Rightarrow> string \<Rightarrow> nat \<Rightarrow> string \<Rightarrow> calc \<Rightarrow> bool" where
  "at_goal st mt src M dst c \<longleftrightarrow>
     (\<exists>ds n. settled st mt src M ds c \<and> map_of c dst = Some n \<and> dst \<notin> set ds \<and>
        (\<forall>v k. map_of c v = Some k \<longrightarrow> v \<notin> set ds \<longrightarrow> cn_cost n \<le> cn_cost k))"

lemma tedView_dom: "tedViewOf st v \<noteq> None \<Longrightarrow> v \<in> fst ` set (ted_Nodes (snd st))"
  by (force simp: tedViewOf_def dest: map_of_SomeD split: option.splits)

lemma settled_room:
  assumes s: "settled st mt src M ds c" and u: "map_of c u = Some n" "u \<notin> set ds"
  shows "length ds < length (ted_Nodes (snd st))"
proof -
  have "insert u (set ds) \<subseteq> fst ` set (ted_Nodes (snd st))"
  proof
    fix v assume "v \<in> insert u (set ds)"
    then obtain k where "map_of c v = Some k" using u(1) settled_dom [OF s, of v] by auto
    from settled_good [OF s this] show "v \<in> fst ` set (ted_Nodes (snd st))"
      by (auto simp: good_def intro: tedView_dom)
  qed
  then have "card (insert u (set ds)) \<le> card (fst ` set (ted_Nodes (snd st)))" by (intro card_mono) auto
  also have "\<dots> \<le> length (ted_Nodes (snd st))" using card_image_le card_length by (metis List.finite_set le_trans)
  finally show ?thesis using u(2) settled_ds [OF s] by (simp add: distinct_card)
qed

lemma links_view:
  assumes ok: "ted_ok asn st" and u: "map_of (ted_Nodes (snd st)) u = Some (Some i)"
    and e: "edge (tedViewOf st) mt u v w"
  obtains lk where "lk \<in> set (nd_Links (fst st ! i))" "fst (linkView (fst st) lk) = v"
    "findMetric mt (lk_Metrics (the lk)) = Inr w"
proof -
  have "tedViewOf st u = Some (nodeView (fst st) (fst st ! i))" using u by (simp add: tedViewOf_def)
  with e obtain l where "(v, l) \<in> set (map (linkView (fst st)) (nd_Links (fst st ! i)))"
    "findMetric mt (lk_Metrics l) = Inr w" by (auto simp: edge_def nodeView_def)
  then show ?thesis using that by (auto simp: linkView_def plainLink_def)
qed

text \<open>When nothing is left to calculate, no route leads out of the calculated routers.\<close>

lemma closed_routes:
  assumes s: "settled st mt src M ds c" and all: "\<forall>v n. map_of c v = Some n \<longrightarrow> v \<in> set ds"
    and r: "route (tedViewOf st) mt src p W"
  shows "target src p \<in> set ds"
  using r
proof (induction rule: route.induct)
  case start
  from settled_src [OF s] all show ?case by auto
next
  case (hop p W v w)
  obtain n where "map_of c (target src p) = Some n" using settled_dom [OF s hop.IH] by blast
  from settled_edge [OF s hop.IH this] hop.hyps(2) all show ?case by (auto simp: target_def)
qed

lemma spfLoop_settled:
  assumes ok: "ted_ok asn st" and ord: "range_order ord"
    and ne: "[] \<notin> fst ` set (ted_Nodes (snd st))"
    and M: "\<forall>u v w. edge (tedViewOf st) mt u v w \<longrightarrow> unat w \<le> M"
    and bound: "M * length (ted_Nodes (snd st)) < 2 ^ 32"
    and s: "settled st mt src M ds c" and nd: "dst \<notin> set ds"
  shows "\<exists>r. spfLoop ord (fst st) (ted_Nodes (snd st)) mt dst k c = Some r \<and> r \<noteq> panic \<and>
     (\<forall>c'. r = Inr c' \<longrightarrow> at_goal st mt src M dst c') \<and>
     (\<forall>e. r = Inl e \<longrightarrow> complete st mt \<longrightarrow> \<not> (\<exists>p W. route (tedViewOf st) mt src p W \<and> target src p = dst))"
  using s nd
proof (induction "length (ted_Nodes (snd st)) - length ds" arbitrary: ds c k rule: less_induct)
  case less
  note s = less.prems(1)
  have p: "mset (ord k c) = mset c" using ord by (simp add: range_order_def)
  have "[] \<notin> fst ` set c"
  proof
    assume "[] \<in> fst ` set c"
    then obtain n where "map_of c [] = Some n" using settled_distinct [OF s] by force
    from settled_good [OF s this] have "[] \<in> fst ` set (ted_Nodes (snd st))"
      by (auto simp: good_def intro: tedView_dom)
    with ne show False by simp
  qed
  from nextNode_spec [OF settled_distinct [OF s] p this] show ?case
  proof (elim disjE conjE exE)
    assume nx: "nextNode c (ord k c) = errorf ''next node not found'' []"
      and all: "\<forall>v n. map_of c v = Some n \<longrightarrow> cn_calculated n"
    have "target src p \<in> set ds" if "route (tedViewOf st) mt src p W" for p W
      by (rule closed_routes [OF s _ that]) (use all settled_calculated [OF s] in blast)
    with less.prems(2) have "\<not> (\<exists>p W. route (tedViewOf st) mt src p W \<and> target src p = dst)" by metis
    then show ?thesis using nx by (subst spfLoop.simps) simp
  next
    fix u n assume nx: "nextNode c (ord k c) = Inr u" and u: "map_of c u = Some n" and nc: "\<not> cn_calculated n"
      and min: "\<forall>v j. map_of c v = Some j \<longrightarrow> \<not> cn_calculated j \<longrightarrow> cn_cost n \<le> cn_cost j"
    have ud: "u \<notin> set ds" using settled_calculated [OF s u] nc by simp
    show ?thesis
    proof (cases "u = dst")
      case True
      have "cn_cost n \<le> cn_cost j" if "map_of c v = Some j" "v \<notin> set ds" for v j
        using min that settled_calculated [OF s that(1)] by blast
      with True s u ud have "at_goal st mt src M dst c" unfolding at_goal_def by blast
      moreover have "spfLoop ord (fst st) (ted_Nodes (snd st)) mt dst k c = Some (Inr c)"
        using nx True by (subst spfLoop.simps) simp
      ultimately show ?thesis by simp
    next
      case nd: False
      have room: "length ds < length (ted_Nodes (snd st))" by (rule settled_room [OF s u ud])
      have mid: "mid st mt src M c ds u c" by (rule settled_mid [OF s u ud]) (use min in blast)
      have b: "M * Suc (length ds) < 2 ^ 32"
        using bound room by (metis Suc_leI le_less_trans mult_le_mono2)
      have "tedViewOf st u \<noteq> None" using settled_good [OF s u] by (simp add: good_def)
      then obtain i where i: "map_of (ted_Nodes (snd st)) u = Some (Some i)"
        by (auto simp: tedViewOf_def split: option.splits)
      then have il: "i < length (fst st)" using ted_okD [OF ok i] by auto
      have le: "\<forall>x \<in> set ds. \<exists>k. map_of c x = Some k \<and> cn_cost k \<le> cn_cost n"
        using settled_dom [OF s] settled_le [OF s _ _ u ud] by blast
      have M': "\<forall>v w. edge (tedViewOf st) mt u v w \<longrightarrow> unat w \<le> M" using M by blast
      have un: "updateNeighborCosts (fst st) (ted_Nodes (snd st)) mt u c =
          relaxLinks (fst st) mt u c (nd_Links (fst st ! i))"
        using il by (simp add: updateNeighborCosts_def nodeAt_Some [OF i])
      from relax_links [OF ok mid u settled_bound [OF s u] le b i order_refl M'] show ?thesis
      proof (elim disjE exE conjE)
        fix e assume "relaxLinks (fst st) mt u c (nd_Links (fst st ! i)) = Inl (Err e)" "\<not> complete st mt"
        then show ?thesis using nx nd by (subst spfLoop.simps) (simp add: un)
      next
        fix c' assume c': "relaxLinks (fst st) mt u c (nd_Links (fst st ! i)) = Inr c'" "mid st mt src M c ds u c'"
          and d: "\<forall>lk \<in> set (nd_Links (fst st ! i)). \<exists>v w k. linkView (fst st) lk = (v, plainLink (the lk)) \<and>
           findMetric mt (lk_Metrics (the lk)) = Inr w \<and>
           map_of c' v = Some k \<and> unat (cn_cost k) \<le> unat (cn_cost n) + unat w"
        have "settled st mt src M (ds @ [u]) (AList.update u (n\<lparr>cn_calculated := True\<rparr>) c')"
        proof (rule settled_step [OF s u ud c'(2)])
          fix v w assume "edge (tedViewOf st) mt u v w"
          from links_view [OF ok i this] obtain lk where lk: "lk \<in> set (nd_Links (fst st ! i))"
            "fst (linkView (fst st) lk) = v" "findMetric mt (lk_Metrics (the lk)) = Inr w" .
          with d show "\<exists>k. map_of c' v = Some k \<and> unat (cn_cost k) \<le> unat (cn_cost n) + unat w" by fastforce
        qed (use min in blast)
        note next' = this
        have lt: "length (ted_Nodes (snd st)) - length (ds @ [u]) < length (ted_Nodes (snd st)) - length ds"
          using room by simp
        have nd': "dst \<notin> set (ds @ [u])" using less.prems(2) nd by simp
        obtain r where
          r: "spfLoop ord (fst st) (ted_Nodes (snd st)) mt dst (Suc k) (AList.update u (n\<lparr>cn_calculated := True\<rparr>) c') = Some r"
          "r \<noteq> panic" "\<forall>c'. r = Inr c' \<longrightarrow> at_goal st mt src M dst c'"
          "\<forall>e. r = Inl e \<longrightarrow> complete st mt \<longrightarrow> \<not> (\<exists>p W. route (tedViewOf st) mt src p W \<and> target src p = dst)"
          using less.hyps [OF lt next' nd'] by blast
        have "map_of c' u = Some n" using mid_same [OF c'(2), of u] u by simp
        then have "spfLoop ord (fst st) (ted_Nodes (snd st)) mt dst k c = Some r"
          using nx nd r(1) c'(1) by (subst spfLoop.simps) (simp add: un)
        with r show ?thesis by blast
      qed
    qed
  qed
qed


section \<open>Routes found and routes there are\<close>

definition segAt :: "calc \<Rightarrow> string \<Rightarrow> Segment" where
  "segAt c v = cn_nodeSegment (the (map_of c v))"

definition reached :: "tedState \<Rightarrow> MetricType \<Rightarrow> string \<Rightarrow> calc \<Rightarrow> string \<Rightarrow> cnode \<Rightarrow> bool" where
  "reached st mt src c v n \<longleftrightarrow>
     (\<exists>p. route (tedViewOf st) mt src p (unat (cn_cost n)) \<and> target src p = v \<and>
        list_all2 (\<lambda>v s. router_segment st v = Inr s) p (map (segAt c) p) \<and>
        (\<forall>acc. pathLoop src c (map_of c v) acc = Some (Inr (acc @ rev (map (segAt c) p)))))"

lemma reached_src:
  assumes "settled st mt src M ds c" "map_of c src = Some n"
  shows "reached st mt src c src n"
proof -
  have "cn_id n = src" using settled_good [OF assms] by (simp add: good_def)
  moreover have "cn_cost n = 0" using settled_src [OF assms(1)] assms(2) by auto
  ultimately show ?thesis
    unfolding reached_def using assms(2)
    by (intro exI [of _ "[]"]) (auto simp: pathLoop.simps intro: route.start)
qed

lemma reached_next:
  assumes s: "settled st mt src M ds c" and v: "map_of c v = Some n" "v \<noteq> src"
    and u: "map_of c (cn_prevNode n) = Some nu" "reached st mt src c (cn_prevNode n) nu"
  shows "reached st mt src c v n"
proof -
  have g: "cn_id n = v" "router_segment st v = Inr (segAt c v)" "segAt c v = cn_nodeSegment n"
    using settled_good [OF s v(1)] v(1) by (auto simp: good_def segAt_def)
  obtain w where w: "edge (tedViewOf st) mt (cn_prevNode n) v w" "unat (cn_cost n) = unat (cn_cost nu) + unat w"
    using settled_linked [OF s v] u(1) by (auto simp: linked_def)
  obtain p where p: "route (tedViewOf st) mt src p (unat (cn_cost nu))" "target src p = cn_prevNode n"
    "list_all2 (\<lambda>v s. router_segment st v = Inr s) p (map (segAt c) p)"
    "\<forall>acc. pathLoop src c (map_of c (cn_prevNode n)) acc = Some (Inr (acc @ rev (map (segAt c) p)))"
    using u(2) unfolding reached_def by blast
  show ?thesis
    unfolding reached_def
  proof (intro exI [of _ "p @ [v]"] conjI allI)
    show "route (tedViewOf st) mt src (p @ [v]) (unat (cn_cost n))"
      unfolding w(2) by (rule route.hop [OF p(1)]) (use w(1) p(2) in \<open>simp add: target_def\<close>)
    show "pathLoop src c (map_of c v) acc = Some (Inr (acc @ rev (map (segAt c) (p @ [v]))))" for acc
      using v p(4) g by (subst pathLoop.simps) simp
  qed (use p(3) g in \<open>auto intro: list_all2_appendI\<close>)
qed

lemma reached_all:
  assumes s: "settled st mt src M ds c" and v: "map_of c v = Some n"
  shows "reached st mt src c v n"
proof -
  have ds: "\<forall>n. map_of c x = Some n \<longrightarrow> reached st mt src c x n" if "ds = xs @ x # ys" for xs x ys
    using that
  proof (induction xs arbitrary: x ys rule: length_induct)
    case (1 xs)
    show ?case
    proof (intro allI impI)
      fix n assume n: "map_of c x = Some n"
      show "reached st mt src c x n"
      proof (cases "x = src")
        case True
        then show ?thesis using reached_src [OF s] n by simp
      next
        case False
        have "cn_prevNode n \<in> set xs" by (rule settled_order [OF s 1(2) False n])
        then obtain as bs where xs: "xs = as @ cn_prevNode n # bs" by (meson split_list)
        then have ds: "ds = as @ cn_prevNode n # (bs @ x # ys)" using 1(2) by simp
        then obtain nu where nu: "map_of c (cn_prevNode n) = Some nu"
          using settled_dom [OF s, of "cn_prevNode n"] by auto
        have "length as < length xs" using xs by simp
        then have "reached st mt src c (cn_prevNode n) nu" using 1(1) ds nu by blast
        then show ?thesis by (rule reached_next [OF s n False nu])
      qed
    qed
  qed
  show ?thesis
  proof (cases "v = src")
    case True
    then show ?thesis using reached_src [OF s] v by simp
  next
    case False
    then obtain nu where nu: "cn_prevNode n \<in> set ds" "map_of c (cn_prevNode n) = Some nu"
      using settled_linked [OF s v] by (auto simp: linked_def)
    obtain xs ys where "ds = xs @ cn_prevNode n # ys" using nu(1) by (meson split_list)
    with ds nu(2) have "reached st mt src c (cn_prevNode n) nu" by blast
    then show ?thesis by (rule reached_next [OF s v False nu(2)])
  qed
qed

lemma no_shorter_route:
  assumes s: "settled st mt src M ds c" and d: "map_of c dst = Some n"
    and min: "\<forall>v k. map_of c v = Some k \<longrightarrow> v \<notin> set ds \<longrightarrow> cn_cost n \<le> cn_cost k"
    and r: "route (tedViewOf st) mt src p W"
  shows "unat (cn_cost n) \<le> W \<or> (target src p \<in> set ds \<and>
     (\<exists>k. map_of c (target src p) = Some k \<and> unat (cn_cost k) \<le> W))"
  using r
proof (induction rule: route.induct)
  case start
  obtain k where "map_of c src = Some k" "cn_cost k = 0" using settled_src [OF s] by blast
  then show ?case using min by (cases "src \<in> set ds") (fastforce simp: word_le_nat_alt)+
next
  case (hop p W v w)
  from hop.IH show ?case
  proof (elim disjE conjE exE)
    assume "unat (cn_cost n) \<le> W"
    then show ?thesis by simp
  next
    fix k assume k: "target src p \<in> set ds" "map_of c (target src p) = Some k" "unat (cn_cost k) \<le> W"
    obtain j where j: "map_of c v = Some j" "unat (cn_cost j) \<le> unat (cn_cost k) + unat w"
      using settled_edge [OF s k(1,2)] hop.hyps(2) by (auto simp: target_def)
    show ?thesis
    proof (cases "v \<in> set ds")
      case True
      with j k(3) show ?thesis by auto
    next
      case False
      with min j(1) have "cn_cost n \<le> cn_cost j" by blast
      with j(2) k(3) show ?thesis by (simp add: word_le_nat_alt)
    qed
  qed
qed

lemma settled_init:
  assumes ok: "ted_ok asn (h, ted)" and i: "initNodeMap h (ted_Nodes ted) src = Inr c"
  shows "settled (h, ted) mt src M [] c"
proof -
  from i obtain node sg where n: "loadNode h (nodeAt (ted_Nodes ted) src) = Inr node" "NodeSegment node = Inr sg"
    "c = [(src, newNode src 0 sg)]"
    by (auto simp: initNodeMap_def bindE_eq_Inr newNode_def)
  then obtain i where m: "map_of (ted_Nodes ted) src = Some (Some i)"
    by (auto simp: nodeAt_def loadNode_def split: option.splits)
  have "good (h, ted) src (newNode src 0 sg)"
    using n m by (auto simp: good_def newNode_def router_segment_def tedViewOf_def)
  then show ?thesis
    using n(3) by (auto simp: settled_def newNode_def split: if_splits)
qed

lemma known_router:
  assumes "ted_ok asn (h, ted)" "src \<in> fst ` set (ted_Nodes ted)"
  obtains i where "map_of (ted_Nodes ted) src = Some (Some i)" "i < length h" "node_ok (h, ted) i"
proof -
  obtain p where p: "map_of (ted_Nodes (snd (h, ted))) src = Some p"
    using assms(2) by (cases "map_of (ted_Nodes ted) src") (auto simp: map_of_eq_None_iff)
  from this that ted_okD [OF assms(1) p] show ?thesis by auto
qed

lemma CSPF_route:
  assumes "ted_ok asn (h, ted)" and "range_order ord" and "[] \<notin> fst ` set (ted_Nodes ted)"
    and "fits (tedViewOf (h, ted)) mt (length (ted_Nodes ted))" and "src \<in> fst ` set (ted_Nodes ted)"
  shows "\<exists>r. CSPF ord h src dst mt ted = Some r \<and> r \<noteq> panic \<and>
     (\<forall>segs. r = Inr segs \<longrightarrow> (\<exists>p c. route (tedViewOf (h, ted)) mt src p c \<and> target src p = dst \<and>
        list_all2 (\<lambda>v s. router_segment (h, ted) v = Inr s) p segs \<and>
        (\<forall>p' c'. route (tedViewOf (h, ted)) mt src p' c' \<longrightarrow> target src p' = dst \<longrightarrow> c \<le> c')))"
proof -
  obtain M where M: "\<forall>u v w. edge (tedViewOf (h, ted)) mt u v w \<longrightarrow> unat w \<le> M"
    "M * length (ted_Nodes ted) < 2 ^ 32" using assms(4) by (auto simp: fits_def)
  show ?thesis
  proof (cases "initNodeMap h (ted_Nodes ted) src")
    case (Inl e)
    obtain i where i: "map_of (ted_Nodes ted) src = Some (Some i)" "i < length h" "node_ok (h, ted) i"
      using known_router [OF assms(1,5)] .
    then have "NodeSegment (h ! i) \<noteq> panic"
      by (intro NodeSegment_no_panic) (simp add: node_ok_def Let_def)
    with Inl i have "e \<noteq> Panic" by (auto simp: initNodeMap_def nodeAt_def bindE_eq_Inl)
    with Inl show ?thesis by (simp add: CSPF_def spf_def)
  next
    case (Inr c0)
    have s0: "settled (h, ted) mt src M [] c0" by (rule settled_init [OF assms(1) Inr])
    obtain r where r: "spfLoop ord h (ted_Nodes ted) mt dst 0 c0 = Some r" "r \<noteq> panic"
      "\<forall>c. r = Inr c \<longrightarrow> at_goal (h, ted) mt src M dst c"
      using spfLoop_settled [OF assms(1,2) _ M(1) _ s0, of dst 0] assms(3) M(2) by auto
    show ?thesis
    proof (cases r)
      case (Inl e)
      with r Inr show ?thesis by (auto simp: CSPF_def spf_def)
    next
      case c: (Inr c)
      then obtain ds n where g: "settled (h, ted) mt src M ds c" "map_of c dst = Some n" "dst \<notin> set ds"
        "\<forall>v k. map_of c v = Some k \<longrightarrow> v \<notin> set ds \<longrightarrow> cn_cost n \<le> cn_cost k"
        using r(3) by (auto simp: at_goal_def)
      obtain p where p: "route (tedViewOf (h, ted)) mt src p (unat (cn_cost n))" "target src p = dst"
        "list_all2 (\<lambda>v s. router_segment (h, ted) v = Inr s) p (map (segAt c) p)"
        "\<forall>acc. pathLoop src c (map_of c dst) acc = Some (Inr (acc @ rev (map (segAt c) p)))"
        using reached_all [OF g(1,2)] by (auto simp: reached_def)
      have "CSPF ord h src dst mt ted = Some (Inr (map (segAt c) p))"
        using Inr r(1) c p(4) by (simp add: CSPF_def spf_def buildSegmentListFromPath_def)
      moreover have "unat (cn_cost n) \<le> W" if "route (tedViewOf (h, ted)) mt src q W" "target src q = dst" for q W
        using no_shorter_route [OF g(1,2,4) that(1)] that(2) g(3) by auto
      ultimately show ?thesis using p by auto
    qed
  qed
qed


section \<open>Properties\<close>

text \<open>
  C9: The path computation over a database as \<open>LsTED.Update\<close> leaves it, from a known router,
  when the metrics of a longest simple path fit in 32 bits: it always returns and never panics,
  whatever the order in which Go ranges over its map; and a segment list it returns consists of
  the segments of the routers along a route from the source to the destination such that no
  route between the two has a lower total metric.
\<close>

theorem CSPF_shortest:
  assumes "ted_ok asn (h, ted)" and "range_order ord" and "[] \<notin> fst ` set (ted_Nodes ted)"
    and "fits (tedViewOf (h, ted)) mt (length (ted_Nodes ted))" and "src \<in> fst ` set (ted_Nodes ted)"
  shows "\<exists>r. CSPF ord h src dst mt ted = Some r \<and> r \<noteq> panic \<and>
     (\<forall>segs. r = Inr segs \<longrightarrow> (\<exists>p c. route (tedViewOf (h, ted)) mt src p c \<and> target src p = dst \<and>
        list_all2 (\<lambda>v s. router_segment (h, ted) v = Inr s) p segs \<and>
        (\<forall>p' c'. route (tedViewOf (h, ted)) mt src p' c' \<longrightarrow> target src p' = dst \<longrightarrow> c \<le> c')))"
  by (rule CSPF_route [OF assms])

text \<open>
  C10: When every router of the database has a segment and every link the requested metric, the
  path computation finds a segment list exactly when a route to the destination exists.
\<close>

theorem CSPF_finds:
  assumes "ted_ok asn (h, ted)" and "range_order ord" and "[] \<notin> fst ` set (ted_Nodes ted)"
    and "fits (tedViewOf (h, ted)) mt (length (ted_Nodes ted))" and "src \<in> fst ` set (ted_Nodes ted)"
    and "complete (h, ted) mt"
  shows "(\<exists>segs. CSPF ord h src dst mt ted = Some (Inr segs)) \<longleftrightarrow>
     (\<exists>p c. route (tedViewOf (h, ted)) mt src p c \<and> target src p = dst)"
proof
  assume "\<exists>segs. CSPF ord h src dst mt ted = Some (Inr segs)"
  then show "\<exists>p c. route (tedViewOf (h, ted)) mt src p c \<and> target src p = dst"
    using CSPF_route [OF assms(1-5)] by (metis option.inject)
next
  assume rt: "\<exists>p c. route (tedViewOf (h, ted)) mt src p c \<and> target src p = dst"
  obtain M where M: "\<forall>u v w. edge (tedViewOf (h, ted)) mt u v w \<longrightarrow> unat w \<le> M"
    "M * length (ted_Nodes ted) < 2 ^ 32" using assms(4) by (auto simp: fits_def)
  obtain i where i: "map_of (ted_Nodes ted) src = Some (Some i)" using known_router [OF assms(1,5)] by blast
  then have "tedViewOf (h, ted) src \<noteq> None" by (simp add: tedViewOf_def)
  then obtain sg where "router_segment (h, ted) src = Inr sg" using assms(6) by (auto simp: complete_def)
  then obtain c0 where c0: "initNodeMap h (ted_Nodes ted) src = Inr c0"
    by (auto simp: initNodeMap_def router_segment_def bindE_eq_Inr)
  have s0: "settled (h, ted) mt src M [] c0" by (rule settled_init [OF assms(1) c0])
  obtain r where r: "spfLoop ord h (ted_Nodes ted) mt dst 0 c0 = Some r"
    "\<forall>c. r = Inr c \<longrightarrow> at_goal (h, ted) mt src M dst c"
    "\<forall>e. r = Inl e \<longrightarrow> complete (h, ted) mt \<longrightarrow> \<not> (\<exists>p W. route (tedViewOf (h, ted)) mt src p W \<and> target src p = dst)"
    using spfLoop_settled [OF assms(1,2) _ M(1) _ s0, of dst 0] assms(3) M(2) by auto
  then obtain c where c: "r = Inr c" using rt assms(6) by (cases r) auto
  then obtain ds n where g: "settled (h, ted) mt src M ds c" "map_of c dst = Some n"
    using r(2) by (auto simp: at_goal_def)
  from reached_all [OF this] show "\<exists>segs. CSPF ord h src dst mt ted = Some (Inr segs)"
    using c0 r(1) c by (auto simp: reached_def CSPF_def spf_def buildSegmentListFromPath_def)
qed

text \<open>A database of three routers: the direct link costs more than the way round.\<close>

definition sampleNetHeap :: heap where
  "sampleNetHeap =
     (let sid = (\<lambda>i. [Some ((NewLsPrefix None)\<lparr>px_SidIndex := i, px_HasSidIndex := True\<rparr>)]);
          lk = (\<lambda>a b w. Some ((NewLsLink (Some a) (Some b))\<lparr>lk_Metrics := [NewMetric IGPMetric w]\<rparr>)) in
      [(NewLsNode 65000 ''A'')\<lparr>nd_SrgbBegin := 16000, nd_Prefixes := sid 1, nd_Links := [lk 0 2 30, lk 0 1 10]\<rparr>,
       (NewLsNode 65000 ''B'')\<lparr>nd_SrgbBegin := 16000, nd_Prefixes := sid 2, nd_Links := [lk 1 2 10]\<rparr>,
       (NewLsNode 65000 ''C'')\<lparr>nd_SrgbBegin := 16000, nd_Prefixes := sid 3\<rparr>])"

definition sampleNet :: LsTED where
  "sampleNet = \<lparr>ted_Nodes = [(''A'', Some 0), (''B'', Some 1), (''C'', Some 2)]\<rparr>"

lemma sampleNet_ok: "ted_ok 65000 (sampleNetHeap, sampleNet)"
  by (auto simp: ted_ok_def sampleNet_def sampleNetHeap_def entry_ok_def node_ok_def NewLsNode_def
      NewLsLink_def Let_def split: if_splits)

lemma sampleNet_view:
  "tedViewOf (sampleNetHeap, sampleNet) v = Some nv \<Longrightarrow> (u, l) \<in> set (vw_Links nv) \<Longrightarrow>
   \<exists>w. findMetric IGPMetric (lk_Metrics l) = Inr w \<and> unat w \<le> 30"
  by (auto simp: tedViewOf_def sampleNet_def sampleNetHeap_def Let_def nodeView_def linkView_def
      plainLink_def NewLsNode_def NewLsLink_def NewMetric_def split: if_splits)

lemma sampleNet_fits: "fits (tedViewOf (sampleNetHeap, sampleNet)) IGPMetric (length (ted_Nodes sampleNet))"
proof -
  have "unat w \<le> 30" if "edge (tedViewOf (sampleNetHeap, sampleNet)) IGPMetric u v w" for u v w
    using that sampleNet_view unfolding edge_def by fastforce
  then show ?thesis unfolding fits_def by (intro exI [of _ 30]) (simp add: sampleNet_def)
qed

lemma router_label:
  assumes "map_of (ted_Nodes ted) v = Some (Some i)" "i < length h"
    and "List.find HasPrefixSID (nd_Prefixes (h ! i)) = Some (Some p)"
  shows "router_segment (h, ted) v = Inr (SRMPLS (NewSegmentSRMPLS (nd_SrgbBegin (h ! i) + px_SidIndex p)))"
proof -
  let ?l = "nd_SrgbBegin (h ! i) + px_SidIndex p"
  have "Itoa (uint ?l) = string_of_nat (unat ?l)" by (simp add: Itoa_def flip: nat_uint_eq)
  moreover have "ParseAddr (string_of_nat (unat ?l)) = errorf ''unable to parse IP'' []"
    using string_of_nat_digits by (intro ParseAddr_digits) blast
  moreover have "unat ?l < 2 ^ 32" using unat_u32_less [of ?l] by simp
  ultimately show ?thesis
    using assms by (simp add: router_segment_def nodeAt_def NodeSegment_def NewSegment_def)
qed

lemma sampleNet_complete: "complete (sampleNetHeap, sampleNet) IGPMetric"
proof -
  have "\<exists>s. router_segment (sampleNetHeap, sampleNet) v = Inr s"
    if "tedViewOf (sampleNetHeap, sampleNet) v \<noteq> None" for v
  proof -
    from that obtain i where i: "map_of (ted_Nodes sampleNet) v = Some (Some i)"
      by (auto simp: tedViewOf_def split: option.splits)
    then have "i < length sampleNetHeap \<and> (\<exists>p. List.find HasPrefixSID (nd_Prefixes (sampleNetHeap ! i)) = Some (Some p))"
      by (auto simp: sampleNet_def sampleNetHeap_def Let_def NewLsNode_def split: if_splits)
    with router_label [OF i] show ?thesis by blast
  qed
  with sampleNet_view show ?thesis unfolding complete_def by blast
qed

lemma CSPF_shortest_witness:
  "\<exists>r. CSPF (\<lambda>k c. rev c) sampleNetHeap ''A'' ''C'' IGPMetric sampleNet = Some r \<and> r \<noteq> panic \<and>
     (\<forall>segs. r = Inr segs \<longrightarrow> (\<exists>p c. route (tedViewOf (sampleNetHeap, sampleNet)) IGPMetric ''A'' p c \<and> target ''A'' p = ''C'' \<and>
        list_all2 (\<lambda>v s. router_segment (sampleNetHeap, sampleNet) v = Inr s) p segs \<and>
        (\<forall>p' c'. route (tedViewOf (sampleNetHeap, sampleNet)) IGPMetric ''A'' p' c' \<longrightarrow> target ''A'' p' = ''C'' \<longrightarrow> c \<le> c')))"
  by (rule CSPF_shortest [OF sampleNet_ok _ _ sampleNet_fits]) (simp_all add: range_order_def sampleNet_def)

lemma CSPF_finds_witness:
  "(\<exists>segs. CSPF (\<lambda>k c. c) sampleNetHeap ''A'' ''C'' IGPMetric sampleNet = Some (Inr segs)) \<longleftrightarrow>
     (\<exists>p c. route (tedViewOf (sampleNetHeap, sampleNet)) IGPMetric ''A'' p c \<and> target ''A'' p = ''C'')"
  by (rule CSPF_finds [OF sampleNet_ok _ _ sampleNet_fits _ sampleNet_complete])
    (simp_all add: range_order_def sampleNet_def)

end
