(* ===== verification/Cspf_Loose.thy ===== *)
theory Cspf_Loose
  imports Cspf_Laws "HOL-Library.Sublist"
begin

text \<open>
  Loose source routing: how the sections between the waypoints are put together, and that without
  waypoints it is the plain path computation.
\<close>

lemma SegmentsEqual_refl [simp]: "SegmentsEqual (Some s) (Some s)"
  by (cases s) (simp_all add: SegmentSRv6_Equal_def SegmentSRMPLS_Equal_def)

lemma appendIfNotDuplicate_grows:
  "prefix xs (appendIfNotDuplicate xs s)" "appendIfNotDuplicate xs s \<noteq> []"
  "SegmentsEqual (Some (last (appendIfNotDuplicate xs s))) (Some s)"
  by (auto simp: appendIfNotDuplicate_def)

text \<open>What a section leaves in the list for its waypoint: a prefix that ends with its segment.\<close>

definition waypoint_reached :: "heap \<Rightarrow> LsTED \<Rightarrow> Waypoint \<Rightarrow> Segment list \<Rightarrow> bool" where
  "waypoint_reached h ted wp xs \<longleftrightarrow>
     (\<exists>p seg. map_of (ted_Nodes ted) (wp_RouterID wp) = Some p \<and> buildWaypointSegment h p (wp_SID wp) = Inr seg \<and>
        xs \<noteq> [] \<and> SegmentsEqual (Some (last xs)) (Some seg))"

lemma sectionLoop_visits:
  assumes "sectionLoop ords h mt ted k prev wps full = Some (Inr segs)"
  shows "prefix full segs \<and> (\<exists>Ls. list_all2 (waypoint_reached h ted) wps Ls \<and> sorted_wrt prefix (full # Ls) \<and>
     last (full # Ls) = segs)"
  using assms
proof (induction wps arbitrary: k prev full)
  case Nil
  then show ?case by simp
next
  case (Cons wp wps)
  obtain sec seg where b: "buildSectionSegments (ords k) h prev wp mt ted full = Some (Inr (sec, seg))"
    and r: "sectionLoop ords h mt ted (Suc k) (wp_RouterID wp) wps (appendIfNotDuplicate (full @ sec) seg) = Some (Inr segs)"
    using Cons.prems by (auto split: option.splits sum.splits)
  define L where "L = appendIfNotDuplicate (full @ sec) seg"
  from Cons.IH [OF r] obtain Ls where Ls: "prefix L segs" "list_all2 (waypoint_reached h ted) wps Ls"
    "sorted_wrt prefix (L # Ls)" "last (L # Ls) = segs" unfolding L_def by blast
  have fl: "prefix full L" unfolding L_def using appendIfNotDuplicate_grows(1) prefix_order.trans prefixI by metis
  have "waypoint_reached h ted wp L"
    using b appendIfNotDuplicate_grows(2,3) unfolding L_def
    by (auto simp: buildSectionSegments_def waypoint_reached_def Let_def bindE_eq_Inr split: option.splits)
  moreover have "prefix full x" if "x \<in> set Ls" for x
    using fl Ls(3) that by (auto dest: prefix_order.trans)
  ultimately show ?case
    using Ls fl by (intro conjI exI [of _ "L # Ls"]) (auto intro: prefix_order.trans)
qed

section \<open>Properties\<close>

text \<open>
  C30: A segment list computed through waypoints visits them in their order: there are growing
  prefixes of it, one for each waypoint and the last one for the destination (the whole list),
  each of which ends with the segment of its waypoint: the explicit SID when one was given, the
  node segment of the router otherwise.
\<close>

theorem CSPFWithLooseSourceRouting_visits:
  assumes "CSPFWithLooseSourceRouting ords h src dst wps mt ted = Some (Inr segs)"
  shows "\<exists>Ls. list_all2 (waypoint_reached h ted) (wps @ [\<lparr>wp_RouterID = dst, wp_SID = []\<rparr>]) Ls \<and>
     sorted_wrt prefix Ls \<and> last Ls = segs"
proof -
  obtain Ls where Ls: "list_all2 (waypoint_reached h ted) (wps @ [\<lparr>wp_RouterID = dst, wp_SID = []\<rparr>]) Ls"
    "sorted_wrt prefix ([] # Ls)" "last ([] # Ls) = segs"
    using sectionLoop_visits [OF assms [unfolded CSPFWithLooseSourceRouting_def]] by blast
  then have "Ls \<noteq> []" by (auto dest: list_all2_lengthD)
  with Ls show ?thesis by auto
qed

text \<open>
  Without waypoints, and between two different routers, loose source routing returns a segment
  list exactly when the plain path computation does, and it is the same list.
\<close>

theorem CSPFWithLooseSourceRouting_plain:
  assumes "ted_ok asn (h, ted)" and "range_order (ords 0)" and "[] \<notin> fst ` set (ted_Nodes ted)"
    and "fits (tedViewOf (h, ted)) mt (length (ted_Nodes ted))" and "src \<in> fst ` set (ted_Nodes ted)"
    and "src \<noteq> dst"
  shows "CSPFWithLooseSourceRouting ords h src dst [] mt ted = Some (Inr segs) \<longleftrightarrow>
     CSPF (ords 0) h src dst mt ted = Some (Inr segs)"
proof -
  obtain r where r: "CSPF (ords 0) h src dst mt ted = Some r" "r \<noteq> panic"
    "\<And>segs. r = Inr segs \<Longrightarrow> \<exists>p c. route (tedViewOf (h, ted)) mt src p c \<and> target src p = dst \<and>
        list_all2 (\<lambda>v s. router_segment (h, ted) v = Inr s) p segs"
    using CSPF_route [OF assms(1-5), of dst] by blast
  show ?thesis
  proof (cases r)
    case (Inl e)
    then have "wrapE ''CSPF failed'' r \<noteq> Inr x" for x by simp
    then show ?thesis using r(1) Inl
      by (auto simp: CSPFWithLooseSourceRouting_def buildSectionSegments_def bindE_eq_Inr split: option.splits sum.splits)
  next
    case (Inr s)
    then obtain p where p: "target src p = dst" "list_all2 (\<lambda>v s. router_segment (h, ted) v = Inr s) p s"
      using r(3) by blast
    have "p \<noteq> []" using p(1) assms(6) by auto
    then obtain q sq where q: "p = q @ [dst]" "s \<noteq> []" "router_segment (h, ted) dst = Inr (last s)"
      using p by (cases p rule: rev_cases) (auto simp: list_all2_append1 list_all2_Cons1)
    from q(3) obtain n where n: "loadNode h (nodeAt (ted_Nodes ted) dst) = Inr n" "NodeSegment n = Inr (last s)"
      by (auto simp: router_segment_def bindE_eq_Inr)
    then obtain i where i: "map_of (ted_Nodes ted) dst = Some (Some i)"
      by (auto simp: nodeAt_def loadNode_def split: option.splits)
    have "buildWaypointSegment h (Some i) [] = Inr (last s)"
      using n i by (simp add: buildWaypointSegment_def nodeAt_def)
    then have "CSPFWithLooseSourceRouting ords h src dst [] mt ted = Some (Inr s)"
      using r(1) Inr i q(2)
      by (simp add: CSPFWithLooseSourceRouting_def buildSectionSegments_def removeDuplicateFirst_def appendIfNotDuplicate_def)
    then show ?thesis using r(1) Inr by simp
  qed
qed

lemma CSPFWithLooseSourceRouting_plain_witness:
  "\<forall>segs. CSPFWithLooseSourceRouting (\<lambda>k n c. c) sampleNetHeap ''A'' ''C'' [] IGPMetric sampleNet = Some (Inr segs) \<longleftrightarrow>
     CSPF (\<lambda>n c. c) sampleNetHeap ''A'' ''C'' IGPMetric sampleNet = Some (Inr segs)"
  by (intro allI, rule CSPFWithLooseSourceRouting_plain [OF sampleNet_ok _ _ sampleNet_fits])
    (simp_all add: range_order_def sampleNet_def)


lemma sample_segments:
  "NodeSegment (sampleNetHeap ! 0) = Inr (SRMPLS (NewSegmentSRMPLS 16001))"
  "NodeSegment (sampleNetHeap ! 1) = Inr (SRMPLS (NewSegmentSRMPLS 16002))"
  "NodeSegment (sampleNetHeap ! 2) = Inr (SRMPLS (NewSegmentSRMPLS 16003))"
  using router_label [of sampleNet "''A''" 0 sampleNetHeap] router_label [of sampleNet "''B''" 1 sampleNetHeap]
    router_label [of sampleNet "''C''" 2 sampleNetHeap]
  by (simp_all add: router_segment_def sampleNet_def nodeAt_def loadNode_def sampleNetHeap_def Let_def NewLsNode_def NewLsPrefix_def)

lemma sample_nodes:
  "length sampleNetHeap = 3"
  "nd_Links (sampleNetHeap ! 0) = [Some ((NewLsLink (Some 0) (Some 2))\<lparr>lk_Metrics := [NewMetric IGPMetric 30]\<rparr>),
     Some ((NewLsLink (Some 0) (Some 1))\<lparr>lk_Metrics := [NewMetric IGPMetric 10]\<rparr>)]"
  "nd_Links (sampleNetHeap ! 1) = [Some ((NewLsLink (Some 1) (Some 2))\<lparr>lk_Metrics := [NewMetric IGPMetric 10]\<rparr>)]"
  "nd_Links (sampleNetHeap ! 2) = []"
  "nd_RouterID (sampleNetHeap ! 0) = ''A''" "nd_RouterID (sampleNetHeap ! 1) = ''B''" "nd_RouterID (sampleNetHeap ! 2) = ''C''"
  by (simp_all add: sampleNetHeap_def Let_def NewLsNode_def)

lemmas cspf_eval = CSPF_def spf_def initNodeMap_def nodeAt_def sampleNet_def loadNode_def sample_nodes [unfolded One_nat_def] sample_segments [unfolded One_nat_def]
  nextNode_def calcAt_def newNode_def updateNeighborCosts_def relaxLink_def LsLink_Metric_def NewLsLink_def NewMetric_def
  buildSegmentListFromPath_def spfLoop.simps pathLoop.simps

lemma sample_CSPF:
  "CSPF (\<lambda>n c. c) sampleNetHeap ''A'' ''C'' IGPMetric sampleNet =
     Some (Inr [SRMPLS (NewSegmentSRMPLS 16002), SRMPLS (NewSegmentSRMPLS 16003)])"
  "CSPF (\<lambda>n c. c) sampleNetHeap ''A'' ''B'' IGPMetric sampleNet = Some (Inr [SRMPLS (NewSegmentSRMPLS 16002)])"
  "CSPF (\<lambda>n c. c) sampleNetHeap ''B'' ''C'' IGPMetric sampleNet = Some (Inr [SRMPLS (NewSegmentSRMPLS 16003)])"
  by (simp_all add: cspf_eval)

lemma sample_loose:
  "CSPFWithLooseSourceRouting (\<lambda>k n c. c) sampleNetHeap ''A'' ''C'' [\<lparr>wp_RouterID = ''B'', wp_SID = []\<rparr>] IGPMetric sampleNet =
     Some (Inr [SRMPLS (NewSegmentSRMPLS 16002), SRMPLS (NewSegmentSRMPLS 16003)])"
  by (simp add: CSPFWithLooseSourceRouting_def buildSectionSegments_def sample_CSPF buildWaypointSegment_def
      removeDuplicateFirst_def appendIfNotDuplicate_def SegmentSRMPLS_Equal_def NewSegmentSRMPLS_def cspf_eval)

lemma CSPFWithLooseSourceRouting_visits_witness:
  "\<exists>Ls. list_all2 (waypoint_reached sampleNetHeap sampleNet)
       ([\<lparr>wp_RouterID = ''B'', wp_SID = []\<rparr>] @ [\<lparr>wp_RouterID = ''C'', wp_SID = []\<rparr>]) Ls \<and>
     sorted_wrt prefix Ls \<and> last Ls = [SRMPLS (NewSegmentSRMPLS 16002), SRMPLS (NewSegmentSRMPLS 16003)]"
  by (rule CSPFWithLooseSourceRouting_visits [OF sample_loose])


section \<open>Metrics that do not fit\<close>

text \<open>
  A chain of four routers S, A, B and D: S leads to A with the TE metric \<open>w\<close>, A to B with \<open>a\<close>, B back to A
  with \<open>b\<close> and on to D with \<open>d\<close>. A TE metric is any 32-bit number.
\<close>

definition chainHeap :: "u32 \<Rightarrow> u32 \<Rightarrow> u32 \<Rightarrow> u32 \<Rightarrow> heap" where
  "chainHeap w a b d =
     (let sid = (\<lambda>i. [Some ((NewLsPrefix None)\<lparr>px_SidIndex := i, px_HasSidIndex := True\<rparr>)]);
          lk = (\<lambda>i j m. Some ((NewLsLink (Some i) (Some j))\<lparr>lk_Metrics := [NewMetric TEMetric m]\<rparr>)) in
      [(NewLsNode 65000 ''S'')\<lparr>nd_SrgbBegin := 16000, nd_Prefixes := sid 1, nd_Links := [lk 0 1 w]\<rparr>,
       (NewLsNode 65000 ''A'')\<lparr>nd_SrgbBegin := 16000, nd_Prefixes := sid 2, nd_Links := [lk 1 2 a]\<rparr>,
       (NewLsNode 65000 ''B'')\<lparr>nd_SrgbBegin := 16000, nd_Prefixes := sid 3, nd_Links := [lk 2 1 b, lk 2 3 d]\<rparr>,
       (NewLsNode 65000 ''D'')\<lparr>nd_SrgbBegin := 16000, nd_Prefixes := sid 4\<rparr>])"

definition chainNet :: LsTED where
  "chainNet = \<lparr>ted_Nodes = [(''S'', Some 0), (''A'', Some 1), (''B'', Some 2), (''D'', Some 3)]\<rparr>"

lemma chain_segments:
  "NodeSegment (chainHeap w a b d ! 0) = Inr (SRMPLS (NewSegmentSRMPLS 16001))"
  "NodeSegment (chainHeap w a b d ! 1) = Inr (SRMPLS (NewSegmentSRMPLS 16002))"
  "NodeSegment (chainHeap w a b d ! 2) = Inr (SRMPLS (NewSegmentSRMPLS 16003))"
  "NodeSegment (chainHeap w a b d ! 3) = Inr (SRMPLS (NewSegmentSRMPLS 16004))"
  using router_label [of chainNet "''S''" 0 "chainHeap w a b d"] router_label [of chainNet "''A''" 1 "chainHeap w a b d"]
    router_label [of chainNet "''B''" 2 "chainHeap w a b d"] router_label [of chainNet "''D''" 3 "chainHeap w a b d"]
  by (simp_all add: router_segment_def chainNet_def nodeAt_def loadNode_def chainHeap_def Let_def NewLsNode_def NewLsPrefix_def)

lemma chain_nodes:
  "length (chainHeap w a b d) = 4"
  "nd_Links (chainHeap w a b d ! 0) = [Some ((NewLsLink (Some 0) (Some 1))\<lparr>lk_Metrics := [NewMetric TEMetric w]\<rparr>)]"
  "nd_Links (chainHeap w a b d ! 1) = [Some ((NewLsLink (Some 1) (Some 2))\<lparr>lk_Metrics := [NewMetric TEMetric a]\<rparr>)]"
  "nd_Links (chainHeap w a b d ! 2) = [Some ((NewLsLink (Some 2) (Some 1))\<lparr>lk_Metrics := [NewMetric TEMetric b]\<rparr>),
     Some ((NewLsLink (Some 2) (Some 3))\<lparr>lk_Metrics := [NewMetric TEMetric d]\<rparr>)]"
  "nd_RouterID (chainHeap w a b d ! 0) = ''S''" "nd_RouterID (chainHeap w a b d ! 1) = ''A''"
  "nd_RouterID (chainHeap w a b d ! 2) = ''B''" "nd_RouterID (chainHeap w a b d ! 3) = ''D''"
  by (simp_all add: chainHeap_def Let_def NewLsNode_def)

text \<open>With one node left, every order of the range finds it.\<close>

lemma nextNodeLoop_calculated:
  "\<forall>(v, n) \<in> set es. cn_calculated n \<Longrightarrow> nextNodeLoop c u es = Inr u"
  by (induction c u es rule: nextNodeLoop.induct) auto

lemma nextNode_single:
  assumes "mset es = mset c" "c = pre @ (u, n) # post"
    and "\<forall>(v, n) \<in> set (pre @ post). cn_calculated n" "\<not> cn_calculated n" "u \<noteq> []"
  shows "nextNode c es = Inr u"
proof -
  have "(u, n) \<in> set es" using assms(2) mset_eq_setD [OF assms(1)] by simp
  then obtain xs ys where o: "es = xs @ (u, n) # ys" by (auto dest: split_list)
  then have "mset (xs @ ys) = mset (pre @ post)" using assms(1,2) by simp
  then have calc: "\<forall>(v, n) \<in> set (xs @ ys). cn_calculated n" using assms(3) mset_eq_setD by blast
  have "nextNodeLoop c [] (xs @ (u, n) # ys) = nextNodeLoop c [] ((u, n) # ys)"
    using calc by (induction xs) auto
  also have "\<dots> = Inr u" using calc assms(4) by (auto intro: nextNodeLoop_calculated)
  finally show ?thesis using o assms(5) by (simp add: nextNode_def)
qed

text \<open>A walk over a set of nodes that lead to each other and not to the source never returns.\<close>

lemma pathLoop_cycle:
  fixes S :: "cnode set"
  assumes "\<And>n. n \<in> S \<Longrightarrow> cn_id n \<noteq> src \<and> (\<exists>n'. map_of c (cn_prevNode n) = Some n' \<and> n' \<in> S)" "n \<in> S"
  shows "pathLoop src c (Some n) acc = None"
proof (rule ccontr)
  assume "pathLoop src c (Some n) acc \<noteq> None"
  then obtain r where r: "pathLoop src c (Some n) acc = Some r" by auto
  have "src = src \<longrightarrow> c = c \<longrightarrow> Some n \<notin> Some ` S"
  proof (rule pathLoop.raw_induct [where P = "\<lambda>src' c' p a r. src' = src \<longrightarrow> c' = c \<longrightarrow> p \<notin> Some ` S", OF _ r])
    fix loop :: "string \<Rightarrow> calc \<Rightarrow> cnode option \<Rightarrow> Segment list \<Rightarrow> Segment list result option" and src' c' a r' and p :: "cnode option"
    assume IH: "\<And>src' c' p a r. loop src' c' p a = Some r \<Longrightarrow> src' = src \<longrightarrow> c' = c \<longrightarrow> p \<notin> Some ` S"
      and F: "(case p of None \<Rightarrow> Some panic
        | Some n \<Rightarrow> if cn_id n = src' then Some (Inr a)
            else loop src' c' (map_of c' (cn_prevNode n)) (a @ [cn_nodeSegment n])) = Some r'"
    show "src' = src \<longrightarrow> c' = c \<longrightarrow> p \<notin> Some ` S"
    proof (intro impI notI)
      assume eq: "src' = src" "c' = c" and "p \<in> Some ` S"
      then obtain n where n: "p = Some n" "n \<in> S" by blast
      with assms(1) [OF n(2)] obtain n' where n': "cn_id n \<noteq> src" "map_of c (cn_prevNode n) = Some n'" "n' \<in> S" by blast
      with F n eq have "loop src c (Some n') (a @ [cn_nodeSegment n]) = Some r'" by simp
      from IH [OF this] n'(3) show False by blast
    qed
  qed
  with assms(2) show False by blast
qed

text \<open>The nodes as they are stored under way.\<close>

definition chainNode :: "string \<Rightarrow> bool \<Rightarrow> u32 \<Rightarrow> string \<Rightarrow> u32 \<Rightarrow> string \<times> cnode" where
  "chainNode v done cost prev label =
     (v, \<lparr>cn_id = v, cn_calculated = done, cn_cost = cost, cn_prevNode = prev,
          cn_nodeSegment = SRMPLS (NewSegmentSRMPLS label)\<rparr>)"

text \<open>Where the loop over the links of B leads: the way to A by B replaces the way from S when its sum is lower.\<close>

definition chainEnd :: "u32 \<Rightarrow> u32 \<Rightarrow> u32 \<Rightarrow> u32 \<Rightarrow> calc" where
  "chainEnd w a b d =
     [chainNode ''S'' True 0 [] 16001,
      (if w + a + b < w then chainNode ''A'' True (w + a + b) ''B'' 16002 else chainNode ''A'' True w ''S'' 16002),
      chainNode ''B'' True (w + a) ''A'' 16003, chainNode ''D'' False (w + a + d) ''B'' 16004]"

lemmas chain_eval = chainNode_def nodeAt_def chainNet_def loadNode_def calcAt_def newNode_def
  updateNeighborCosts_def relaxLink_def LsLink_Metric_def NewLsLink_def NewMetric_def
  chain_nodes [unfolded One_nat_def] chain_segments [unfolded One_nat_def]

lemma chain_spfLoop:
  assumes "range_order ord"
  shows "spfLoop ord (chainHeap w a b d) (ted_Nodes chainNet) TEMetric ''D'' 0 [chainNode ''S'' False 0 [] 16001] =
    Some (Inr (chainEnd w a b d))"
proof -
  note m = assms [unfolded range_order_def, rule_format]
  let ?loop = "spfLoop ord (chainHeap w a b d) (ted_Nodes chainNet) TEMetric ''D''"
  let ?update = "updateNeighborCosts (chainHeap w a b d) (ted_Nodes chainNet) TEMetric"
  let ?S = "\<lambda>done. chainNode ''S'' done 0 [] 16001"
  let ?A = "\<lambda>done. chainNode ''A'' done w ''S'' 16002"
  let ?B = "\<lambda>done. chainNode ''B'' done (w + a) ''A'' 16003"
  have "nextNode [?S False] (ord 0 [?S False]) = Inr ''S''"
    by (rule nextNode_single [OF m, where pre = "[]" and n = "snd (?S False)" and post = "[]"]) (simp_all add: chainNode_def)
  moreover have "?update ''S'' [?S False] = Inr [?S False, ?A False]" by (simp add: chain_eval)
  ultimately have "?loop 0 [?S False] = ?loop 1 [?S True, ?A False]"
    by (subst spfLoop.simps) (simp add: chainNode_def)
  also have "\<dots> = ?loop 2 [?S True, ?A True, ?B False]"
  proof -
    let ?c = "[?S True, ?A False]"
    have "nextNode ?c (ord 1 ?c) = Inr ''A''"
      by (rule nextNode_single [OF m, where pre = "[?S True]" and n = "snd (?A False)" and post = "[]"]) (simp_all add: chainNode_def)
    moreover have "?update ''A'' ?c = Inr [?S True, ?A False, ?B False]" by (simp add: chain_eval)
    ultimately show ?thesis by (subst spfLoop.simps) (simp add: chainNode_def numeral_2_eq_2)
  qed
  also have "\<dots> = ?loop 3 (chainEnd w a b d)"
  proof -
    let ?c = "[?S True, ?A True, ?B False]"
    have "nextNode ?c (ord 2 ?c) = Inr ''B''"
      by (rule nextNode_single [OF m, where pre = "[?S True, ?A True]" and n = "snd (?B False)" and post = "[]"]) (simp_all add: chainNode_def)
    moreover have "?update ''B'' ?c = Inr (AList.update ''B'' (snd (?B False)) (chainEnd w a b d))"
      by (simp add: chain_eval chainEnd_def)
    ultimately show ?thesis by (subst spfLoop.simps) (simp add: chainNode_def chainEnd_def numeral_3_eq_3)
  qed
  also have "\<dots> = Some (Inr (chainEnd w a b d))"
  proof -
    let ?c = "chainEnd w a b d"
    have "nextNode ?c (ord 3 ?c) = Inr ''D''"
      by (rule nextNode_single [OF m, where pre = "take 3 ?c" and n = "snd (?c ! 3)" and post = "[]"])
        (simp_all add: chainEnd_def chainNode_def split: if_splits)
    then show ?thesis by (subst spfLoop.simps) simp
  qed
  finally show ?thesis .
qed

lemma chain_walk_cycle:
  assumes "w + a + b < w"
  shows "pathLoop ''S'' (chainEnd w a b d) (map_of (chainEnd w a b d) ''D'') [] = None"
proof -
  let ?c = "chainEnd w a b d"
  let ?S = "(snd \<circ> (!) ?c) ` {1, 2, 3}"
  have "map_of ?c ''D'' = Some (snd (?c ! 3))" by (simp add: chainEnd_def chainNode_def)
  moreover have "pathLoop ''S'' ?c (Some (snd (?c ! 3))) [] = None"
    by (rule pathLoop_cycle [where S = ?S]) (use assms in \<open>auto simp: chainEnd_def chainNode_def\<close>)
  ultimately show ?thesis by simp
qed

lemma chain_walk_ends:
  assumes "\<not> w + a + b < w"
  shows "pathLoop ''S'' (chainEnd w a b d) (map_of (chainEnd w a b d) ''D'') [] =
    Some (Inr (map (SRMPLS \<circ> NewSegmentSRMPLS) [16004, 16003, 16002]))"
  using assms by (simp add: chainEnd_def chainNode_def pathLoop.simps)

text \<open>
  C32: What costs without an overflow check lead to, in a chain of four routers S, A, B, D with any TE metrics,
  \<open>w\<close> from S to A, \<open>a\<close> from A to B, \<open>b\<close> back from B to A and \<open>d\<close> from B to D, and for every order of
  the map ranges: the computation from S to D returns the segments of A, B and D unless the 32-bit sum
  of \<open>w\<close>, \<open>a\<close> and \<open>b\<close> wraps to less than \<open>w\<close>; then the predecessor of A, which was already calculated, becomes B, whose
  predecessor is A, and the walk that builds the segment list never returns.
\<close>

theorem CSPF_wrapped_cost_hangs:
  assumes "range_order ord"
  shows "CSPF ord (chainHeap w a b d) ''S'' ''D'' TEMetric chainNet =
    (if w + a + b < w then None else Some (Inr (map (SRMPLS \<circ> NewSegmentSRMPLS) [16002, 16003, 16004])))"
proof -
  have "initNodeMap (chainHeap w a b d) (ted_Nodes chainNet) ''S'' = Inr [chainNode ''S'' False 0 [] 16001]"
    by (simp add: initNodeMap_def chain_eval)
  then show ?thesis
    using chain_spfLoop [OF assms] chain_walk_cycle [of w a b d] chain_walk_ends [of w a b d]
    by (simp add: CSPF_def spf_def buildSegmentListFromPath_def)
qed

text \<open>With the TE metric 2^32 - 5 on the way back it never returns, with 4 it does.\<close>

lemma CSPF_wrapped_cost_hangs_witness:
  "CSPF (\<lambda>n c. rev c) (chainHeap 10 1 0xFFFFFFFB 5) ''S'' ''D'' TEMetric chainNet = None \<and>
   CSPF (\<lambda>n c. rev c) (chainHeap 10 1 4 5) ''S'' ''D'' TEMetric chainNet =
     Some (Inr (map (SRMPLS \<circ> NewSegmentSRMPLS) [16002, 16003, 16004]))"
proof -
  have o: "range_order (\<lambda>n c. rev c)" by (simp add: range_order_def)
  show ?thesis using CSPF_wrapped_cost_hangs [OF o, of 10 1 "0xFFFFFFFB" 5] CSPF_wrapped_cost_hangs [OF o, of 10 1 4 5] by simp
qed

end
