(* ===== verification/Session_State.thy ===== *)
theory Session_State
  imports Messages Ted "HOL-Library.AList"
begin

text \<open>
  The state of a PCEP session (\<open>src/pkg/server/session.go\<close>), \<open>src/pkg/packet/pcep/capability.go\<close>
  and the operations on the state that do no I/O: the intents of requests under way, SRP-ID
  allocation and the database of SR policies the PCC reported. Every operation runs under the
  mutexes of the code, so it is one step on the state. Time is the argument \<open>now\<close>, in nanoseconds.
\<close>

section \<open>Capabilities\<close>

definition PolaStatefulCapability :: StatefulPCECapability where
  "PolaStatefulCapability =
     \<lparr>sc_LSPUpdateCapability = True, sc_IncludeDBVersion = False,
      sc_LSPInstantiationCapability = True, sc_TriggeredResync = False,
      sc_DeltaLSPSyncCapability = False, sc_TriggeredInitialSync = False,
      sc_P2mpCapability = False, sc_P2mpLSPUpdateCapability = False,
      sc_P2mpLSPInstantiationCapability = False, sc_LSPSchedulingCapability = False,
      sc_PdLSPCapability = False, sc_ColorCapability = True,
      sc_PathRecomputationCapability = False, sc_StrictPathCapability = False, sc_Relax = False\<rparr>"

fun PolaCapability :: "tlv list \<Rightarrow> tlv list" where
  "PolaCapability [] = []"
| "PolaCapability (cap # caps) =
     (case cap of
        TLV_StatefulPCECapability _ \<Rightarrow> TLV_StatefulPCECapability PolaStatefulCapability # PolaCapability caps
      | TLV_LSPDBVersion _ \<Rightarrow> PolaCapability caps
      | _ \<Rightarrow> cap # PolaCapability caps)"

section \<open>The session\<close>

text \<open>
  The TCP connection: the segments that arrive, in order, and the messages written. A write may
  fail (the peer closed the connection).
\<close>

record TCPConn =
  tcp_in :: "bytes list"
  tcp_out :: "bytes list"
  tcp_writable :: bool
  tcp_closed :: bool

record srPolicyIntent =
  in_polType :: PolicyType
  in_metric :: MetricType
  in_expiresAt :: nat

definition srPolicyIntent_zero :: srPolicyIntent where
  "srPolicyIntent_zero = \<lparr>in_polType = [], in_metric = UnspecifiedMetric, in_expiresAt = 0\<rparr>"

text \<open>
  A nil and an empty intent map read alike and \<open>rememberSRPolicyIntent\<close> makes the map it needs,
  so the map is a list of entries. The TED pointer of the session comes with the heap it points into.
\<close>

record Session =
  ss_sessionID :: u8
  ss_peerAddr :: addr
  ss_tcpConn :: TCPConn
  ss_isSynced :: bool
  ss_srpIDHead :: u32
  ss_srPolicies :: "SRPolicy list"
  ss_srPolicyIntents :: "(u32 \<times> srPolicyIntent) list"
  ss_srPolicyIntentTTL :: nat
  ss_sweepInterval :: nat
  ss_keepAlive :: u8
  ss_pccType :: PccType
  ss_advertisedCapabilities :: "tlv list"
  ss_receivedPccCapabilities :: "tlv list"
  ss_ted :: "tedState option"
  ss_asn :: u32

definition defaultSRPolicyIntentTTL :: nat where "defaultSRPolicyIntentTTL = 60 * 10 ^ 9"
definition defaultSRPolicyIntentSweepInterval :: nat where "defaultSRPolicyIntentSweepInterval = 10 * 10 ^ 9"

definition NewSession :: "u8 \<Rightarrow> addr \<Rightarrow> TCPConn \<Rightarrow> tedState option \<Rightarrow> u32 \<Rightarrow> Session" where
  "NewSession sessionID peerAddr tcpConn ted asn =
     \<lparr>ss_sessionID = sessionID, ss_peerAddr = peerAddr, ss_tcpConn = tcpConn, ss_isSynced = False,
      ss_srpIDHead = 1, ss_srPolicies = [], ss_srPolicyIntents = [],
      ss_srPolicyIntentTTL = defaultSRPolicyIntentTTL,
      ss_sweepInterval = defaultSRPolicyIntentSweepInterval, ss_keepAlive = 0,
      ss_pccType = RFCCompliant, ss_advertisedCapabilities = [], ss_receivedPccCapabilities = [],
      ss_ted = ted, ss_asn = asn\<rparr>"

section \<open>Intents\<close>

definition rememberSRPolicyIntent :: "nat \<Rightarrow> u32 \<Rightarrow> PolicyType \<Rightarrow> MetricType \<Rightarrow> Session \<Rightarrow> Session" where
  "rememberSRPolicyIntent now srpID polType metric ss =
     (if srpID = 0 then ss
      else ss\<lparr>ss_srPolicyIntents := AList.update srpID
        \<lparr>in_polType = polType, in_metric = metric, in_expiresAt = now + ss_srPolicyIntentTTL ss\<rparr>
        (ss_srPolicyIntents ss)\<rparr>)"

definition srPolicyIntentExists :: "Session \<Rightarrow> u32 \<Rightarrow> bool" where
  "srPolicyIntentExists ss srpID \<longleftrightarrow> map_of (ss_srPolicyIntents ss) srpID \<noteq> None"

definition sweepExpiredSRPolicyIntents :: "nat \<Rightarrow> Session \<Rightarrow> Session" where
  "sweepExpiredSRPolicyIntents now ss =
     ss\<lparr>ss_srPolicyIntents := filter (\<lambda>(srpID, intent). \<not> now > in_expiresAt intent) (ss_srPolicyIntents ss)\<rparr>"

definition takeSRPolicyIntent :: "u32 \<Rightarrow> Session \<Rightarrow> (srPolicyIntent \<times> bool) \<times> Session" where
  "takeSRPolicyIntent srpID ss =
     (if srpID = 0 then ((srPolicyIntent_zero, False), ss)
      else
        (case map_of (ss_srPolicyIntents ss) srpID of
           Some intent \<Rightarrow> (intent, True) | None \<Rightarrow> (srPolicyIntent_zero, False),
         ss\<lparr>ss_srPolicyIntents := AList.delete srpID (ss_srPolicyIntents ss)\<rparr>))"

definition forgetSRPolicyIntent :: "u32 \<Rightarrow> Session \<Rightarrow> Session" where
  "forgetSRPolicyIntent srpID ss =
     (if srpID = 0 then ss
      else ss\<lparr>ss_srPolicyIntents := AList.delete srpID (ss_srPolicyIntents ss)\<rparr>)"

definition clearSRPolicyIntents :: "Session \<Rightarrow> Session" where
  "clearSRPolicyIntents ss = ss\<lparr>ss_srPolicyIntents := []\<rparr>"

section \<open>SRP-IDs\<close>

definition maxUint32 :: u32 where "maxUint32 = 0xFFFFFFFF"

function nextUnusedLoop :: "nat \<Rightarrow> nat \<Rightarrow> u32 \<Rightarrow> u32 \<Rightarrow> (u32 \<Rightarrow> bool) \<Rightarrow> (u32 \<times> u32) result" where
  "nextUnusedLoop attempts capacity head limit used =
     (if attempts < capacity then
        (let head = (if head = 0 \<or> head \<ge> limit then 1 else head);
             candidate = head;
             head = head + 1 in
         if \<not> used candidate then Inr (candidate, head)
         else nextUnusedLoop (attempts + 1) capacity head limit used)
      else errorf ''no SRP-ID available: all SRP-IDs are in use'' [])"
  by pat_completeness auto

termination
  by (relation "measure (\<lambda>(attempts, capacity, _). capacity - attempts)") auto

declare nextUnusedLoop.simps [simp del]

definition nextUnusedSRPID :: "u32 \<Rightarrow> u32 \<Rightarrow> (u32 \<Rightarrow> bool) \<Rightarrow> (u32 \<times> u32) result" where
  "nextUnusedSRPID head limit used =
     (let capacity = limit - 1 in nextUnusedLoop 0 (unat capacity) head limit used)"

definition allocateSRPID :: "nat \<Rightarrow> PolicyType \<Rightarrow> MetricType \<Rightarrow> Session \<Rightarrow> u32 result \<times> Session" where
  "allocateSRPID now polType metric ss =
     (case nextUnusedSRPID (ss_srpIDHead ss) maxUint32 (srPolicyIntentExists ss) of
        Inl e \<Rightarrow> (Inl e, ss)
      | Inr (srpID, nextHead) \<Rightarrow>
          (Inr srpID, rememberSRPolicyIntent now srpID polType metric (ss\<lparr>ss_srpIDHead := nextHead\<rparr>)))"

section \<open>SR policies\<close>

fun stateful_color :: "tlv \<Rightarrow> bool" where
  "stateful_color (TLV_StatefulPCECapability c) = sc_ColorCapability c"
| "stateful_color _ = False"

definition resolveColorPreference :: "Session \<Rightarrow> StateReport \<Rightarrow> u32 \<times> u32" where
  "resolveColorPreference ss sr =
     (if ss_pccType ss = CiscoLegacy then
        (VendorInformationObject_Color (sr_VendorInformationObject sr),
         VendorInformationObject_Preference (sr_VendorInformationObject sr))
      else
        let hasColor = list_ex stateful_color (ss_receivedPccCapabilities ss);
            c = AssociationObject_Color (sr_AssociationObject sr);
            color = (if c \<noteq> 0 then c else if hasColor then LSPObject_Color (sr_LSPObject sr) else 0) in
        (color, AssociationObject_Preference (sr_AssociationObject sr)))"

definition resolvePolicyState :: "u8 \<Rightarrow> PolicyState" where
  "resolvePolicyState oflag =
     (if oflag = 0x00 then PolicyDown
      else if oflag = 0x01 then PolicyUp
      else if oflag = 0x02 then PolicyActive
      else PolicyUnknown)"

text \<open>The ERO of a decoded state report is never nil (\<open>NewStateReport\<close> makes it).\<close>

definition validateSegmentList :: "StateReport \<Rightarrow> Segment list result" where
  "validateSegmentList sr =
     (let xs = ToSegmentList (sr_EroObject sr) in
      if xs = [] then errorf ''SegmentList is empty'' [uint (lo_PlspID (sr_LSPObject sr))] else Inr xs)"

fun searchSRPolicyLocked :: "u32 \<Rightarrow> SRPolicy list \<Rightarrow> nat option" where
  "searchSRPolicyLocked plspID [] = None"
| "searchSRPolicyLocked plspID (v # vs) =
     (if pol_PlspID v = plspID then Some 0 else map_option Suc (searchSRPolicyLocked plspID vs))"

definition SearchSRPolicy :: "Session \<Rightarrow> u32 \<Rightarrow> SRPolicy option" where
  "SearchSRPolicy ss plspID =
     map_option (\<lambda>i. ss_srPolicies ss ! i) (searchSRPolicyLocked plspID (ss_srPolicies ss))"

fun searchPlspIDLoop :: "u32 \<Rightarrow> addr \<Rightarrow> SRPolicy list \<Rightarrow> u32 option" where
  "searchPlspIDLoop color endpoint [] = None"
| "searchPlspIDLoop color endpoint (v # vs) =
     (if pol_Color v = color \<and> pol_DstAddr v = endpoint then Some (pol_PlspID v)
      else searchPlspIDLoop color endpoint vs)"

definition SearchPlspID :: "Session \<Rightarrow> u32 \<Rightarrow> addr \<Rightarrow> u32 option" where
  "SearchPlspID ss color endpoint = searchPlspIDLoop color endpoint (ss_srPolicies ss)"

text \<open>\<open>if intent, ok := ss.takeSRPolicyIntent(...); ok { p.Type = ...; p.Metric = ... }\<close>\<close>

definition applyIntent :: "u32 \<Rightarrow> SRPolicy \<Rightarrow> Session \<Rightarrow> SRPolicy \<times> Session" where
  "applyIntent srpID p ss =
     (case takeSRPolicyIntent srpID ss of ((intent, ok), ss) \<Rightarrow>
        (if ok then p\<lparr>pol_Type := in_polType intent, pol_Metric := in_metric intent\<rparr> else p, ss))"

definition updateOrCreatePolicy ::
    "StateReport \<Rightarrow> Segment list \<Rightarrow> u32 \<Rightarrow> u32 \<Rightarrow> PolicyState \<Rightarrow> Session \<Rightarrow> unit result \<times> Session" where
  "updateOrCreatePolicy sr segmentList color preference state ss =
     (let lsp = sr_LSPObject sr; lspID = lo_LSPID lsp; srpID = so_SrpID (sr_SrpObject sr) in
      case searchSRPolicyLocked (lo_PlspID lsp) (ss_srPolicies ss) of
        Some i \<Rightarrow>
          let p = ss_srPolicies ss ! i in
          if pol_LSPID p \<le> lspID then
            (let p = SRPolicy_Update p \<lparr>df_Name = Some (lo_Name lsp), df_Color = Some color,
                   df_Preference = Some preference, df_SegmentList = Some segmentList,
                   df_LSPID = lspID, df_State = state\<rparr>;
                 (p, ss') = applyIntent srpID p ss in
             (Inr (), ss'\<lparr>ss_srPolicies := (ss_srPolicies ss')[i := p]\<rparr>))
          else (Inr (), ss)
      | None \<Rightarrow>
          let src = (if IsValid (lo_SrcAddr lsp) then lo_SrcAddr lsp else ao_AssocSrc (sr_AssociationObject sr)) in
          if \<not> IsValid src then (errorf ''invalid source address'' [uint (lo_PlspID lsp)], ss)
          else
            let dst = (if IsValid (lo_DstAddr lsp) then lo_DstAddr lsp
                       else AssociationObject_Endpoint (sr_AssociationObject sr)) in
            if \<not> IsValid dst then (errorf ''invalid destination address'' [uint (lo_PlspID lsp)], ss)
            else
              let p = NewSRPolicy (lo_PlspID lsp) (lo_Name lsp) segmentList src dst color preference lspID state;
                  (p, ss') = applyIntent srpID p ss in
              (Inr (), ss'\<lparr>ss_srPolicies := ss_srPolicies ss' @ [p]\<rparr>))"

definition RegisterSRPolicy :: "StateReport \<Rightarrow> Session \<Rightarrow> unit result \<times> Session" where
  "RegisterSRPolicy sr ss =
     (let (color, preference) = resolveColorPreference ss sr;
          state = resolvePolicyState (lo_OFlag (sr_LSPObject sr)) in
      case validateSegmentList sr of
        Inl e \<Rightarrow> (Inl e, ss)
      | Inr segmentList \<Rightarrow> updateOrCreatePolicy sr segmentList color preference state ss)"

text \<open>The index of the policy that the loop of \<open>DeleteSRPolicy\<close> stops at.\<close>

fun deleteIndex :: "u32 \<Rightarrow> u16 \<Rightarrow> SRPolicy list \<Rightarrow> nat option" where
  "deleteIndex plspID lspID [] = None"
| "deleteIndex plspID lspID (v # vs) =
     (if pol_PlspID v = plspID \<and> pol_LSPID v \<le> lspID then Some 0
      else map_option Suc (deleteIndex plspID lspID vs))"

definition swapRemove :: "nat \<Rightarrow> 'a list \<Rightarrow> 'a list" where
  "swapRemove i xs = butlast (xs[i := last xs])"

definition DeleteSRPolicy :: "StateReport \<Rightarrow> Session \<Rightarrow> Session" where
  "DeleteSRPolicy sr ss =
     (case deleteIndex (lo_PlspID (sr_LSPObject sr)) (lo_LSPID (sr_LSPObject sr)) (ss_srPolicies ss) of
        None \<Rightarrow> ss
      | Some i \<Rightarrow>
          let ss = forgetSRPolicyIntent (so_SrpID (sr_SrpObject sr)) ss in
          ss\<lparr>ss_srPolicies := swapRemove i (ss_srPolicies ss)\<rparr>)"

text \<open>
  \<open>SRPolicies\<close> returns clones; values need none.
\<close>

definition SRPolicies :: "Session \<Rightarrow> SRPolicy list" where
  "SRPolicies ss = ss_srPolicies ss"

end
