(* ===== verification/Session.thy ===== *)
theory Session
  imports Session_State Cspf
begin

text \<open>
  The handlers of \<open>src/pkg/server/session.go\<close>: what the session reads from the connection, what it
  does with every message and report, and what it sends. A step maps a session to a result and
  the session after it; \<open>None\<close> is a step that never ends (the decoder of PCRpt and the path
  computation may loop). A panic ends the process.
\<close>

section \<open>Steps\<close>

type_synonym 'a step = "Session \<Rightarrow> ('a result \<times> Session) option"

definition returnS :: "'a result \<Rightarrow> 'a step" where
  "returnS r ss = Some (r, ss)"

definition bindS :: "'a step \<Rightarrow> ('a \<Rightarrow> 'b step) \<Rightarrow> 'b step" where
  "bindS m f ss =
     (case m ss of
        None \<Rightarrow> None
      | Some (Inl e, ss) \<Rightarrow> Some (Inl e, ss)
      | Some (Inr x, ss) \<Rightarrow> f x ss)"

definition modifyS :: "(Session \<Rightarrow> Session) \<Rightarrow> unit step" where
  "modifyS f ss = Some (Inr (), f ss)"

lemma returnS_simp [simp]: "returnS r ss = Some (r, ss)"
  by (simp add: returnS_def)

lemma modifyS_simp [simp]: "modifyS f ss = Some (Inr (), f ss)"
  by (simp add: modifyS_def)

lemma bindS_returnS [simp]:
  "bindS (returnS (Inr x)) f = f x" "bindS (returnS (Inl e)) f = returnS (Inl e)"
  by (simp_all add: fun_eq_iff bindS_def)

lemma bindS_ok: "m ss = Some (Inr x, ss') \<Longrightarrow> bindS m f ss = f x ss'"
  by (simp add: bindS_def)

lemma bindS_err: "m ss = Some (Inl e, ss') \<Longrightarrow> bindS m f ss = Some (Inl e, ss')"
  by (simp add: bindS_def)

text \<open>What the environment decides: the clock and the orders in which maps are ranged over.\<close>

record goEnv =
  ge_now :: nat
  ge_cspf :: rangeOrder
  ge_nodes :: "(string \<times> nodeptr) list \<Rightarrow> (string \<times> nodeptr) list"

section \<open>The connection\<close>

text \<open>
  \<open>conn.Read(buf)\<close> fills at most \<open>len(buf)\<close> bytes with what has arrived, at least one, and leaves
  the rest of the buffer zero; a connection with nothing left is at its end.
\<close>

definition connRead :: "nat \<Rightarrow> bytes step" where
  "connRead n ss =
     (let conn = ss_tcpConn ss in
      if tcp_closed conn then Some (errorf ''use of closed network connection'' [], ss)
      else if n = 0 then Some (Inr [], ss)
      else case dropWhile (\<lambda>c. c = []) (tcp_in conn) of
          [] \<Rightarrow> Some (errorf ''EOF'' [], ss)
        | chunk # rest \<Rightarrow>
            let k = min n (length chunk) in
            Some (Inr (take k chunk @ makeBytes (n - k)),
              ss\<lparr>ss_tcpConn := conn\<lparr>tcp_in := drop k chunk # rest\<rparr>\<rparr>))"

definition connWrite :: "bytes \<Rightarrow> unit step" where
  "connWrite bs ss =
     (let conn = ss_tcpConn ss in
      if tcp_closed conn \<or> \<not> tcp_writable conn then Some (errorf ''write failed'' [], ss)
      else Some (Inr (), ss\<lparr>ss_tcpConn := conn\<lparr>tcp_out := tcp_out conn @ [bs]\<rparr>\<rparr>))"

definition sendPCEPMessage :: "bytes result \<Rightarrow> unit step" where
  "sendPCEPMessage serialized = bindS (returnS serialized) connWrite"

section \<open>Opening the session\<close>

definition parseOpenMessage :: "OpenMessage step" where
  "parseOpenMessage =
     bindS (connRead CommonHeaderLength) (\<lambda>byteOpenHeader.
     bindS (returnS (CommonHeader_DecodeFromBytes byteOpenHeader)) (\<lambda>openHeader.
     if ch_Version openHeader \<noteq> 1
     then returnS (errorf ''PCEP version mismatch'' [uint (ch_Version openHeader)])
     else if ch_MessageType openHeader \<noteq> MessageTypeOpen
     then returnS (errorf ''this peer has not been opened'' [uint (ch_MessageType openHeader)])
     else
       bindS (connRead (unat (ch_MessageLength openHeader - word_of_nat CommonHeaderLength))) (\<lambda>byteOpenObject.
       returnS (OpenMessage_DecodeFromBytes byteOpenObject))))"

definition ReceiveOpen :: "unit step" where
  "ReceiveOpen =
     bindS parseOpenMessage (\<lambda>openMessage.
     modifyS (\<lambda>ss.
       let caps = oo_Caps (om_OpenObject openMessage) in
       ss\<lparr>ss_receivedPccCapabilities := caps, ss_advertisedCapabilities := PolaCapability caps,
          ss_pccType := DeterminePccType caps, ss_keepAlive := oo_Keepalive (om_OpenObject openMessage)\<rparr>))"

definition SendOpen :: "unit step" where
  "SendOpen ss =
     bindS (returnS (NewOpenMessage (ss_sessionID ss) (ss_keepAlive ss) (ss_advertisedCapabilities ss)))
       (\<lambda>openMessage. sendPCEPMessage (OpenMessage_Serialize openMessage)) ss"

definition Session_Open :: "unit step" where
  "Session_Open = bindS ReceiveOpen (\<lambda>_. SendOpen)"

definition SendKeepalive :: "unit step" where
  "SendKeepalive = sendPCEPMessage KeepaliveMessage_Serialize"

definition SendClose :: "u8 \<Rightarrow> unit step" where
  "SendClose reason =
     bindS (returnS (NewCloseMessage reason)) (\<lambda>closeMessage.
     sendPCEPMessage (CloseMessage_Serialize closeMessage))"

section \<open>Requests of the PCE\<close>

text \<open>
  Both requests allocate an SRP-ID, which records the intent, and forget the intent again when the
  message cannot be built or sent.
\<close>

definition forgetOnError :: "u32 \<Rightarrow> 'a step \<Rightarrow> 'a step" where
  "forgetOnError srpID m ss =
     (case m ss of
        None \<Rightarrow> None
      | Some (Inl (Err e), ss) \<Rightarrow> Some (Inl (Err e), forgetSRPolicyIntent srpID ss)
      | Some (r, ss) \<Rightarrow> Some (r, ss))"

definition SendPCInitiate :: "nat \<Rightarrow> SRPolicy \<Rightarrow> bool \<Rightarrow> unit step" where
  "SendPCInitiate now srPolicy lspDelete =
     bindS (\<lambda>ss. Some (allocateSRPID now (pol_Type srPolicy) (pol_Metric srPolicy) ss)) (\<lambda>srpID.
     forgetOnError srpID (\<lambda>ss.
       bindS (returnS (NewPCInitiateMessage srpID (pol_Name srPolicy) lspDelete (pol_PlspID srPolicy)
           (map Some (pol_SegmentList srPolicy)) (pol_Color srPolicy) (pol_Preference srPolicy)
           (pol_SrcAddr srPolicy) (pol_DstAddr srPolicy)
           [VendorSpecific (ss_pccType ss), OriginatorASN (ss_asn ss)])) (\<lambda>pcinitiateMessage.
       sendPCEPMessage (PCInitiateMessage_Serialize pcinitiateMessage)) ss))"

definition SendPCUpdate :: "nat \<Rightarrow> SRPolicy \<Rightarrow> unit step" where
  "SendPCUpdate now srPolicy =
     bindS (\<lambda>ss. Some (allocateSRPID now (pol_Type srPolicy) (pol_Metric srPolicy) ss)) (\<lambda>srpID.
     forgetOnError srpID (
       bindS (returnS (NewPCUpdMessage srpID (pol_Name srPolicy) (pol_PlspID srPolicy)
           (map Some (pol_SegmentList srPolicy)))) (\<lambda>pcupdateMessage.
       sendPCEPMessage (PCUpdMessage_Serialize pcupdateMessage))))"

definition RequestSRPolicyDeleted :: "nat \<Rightarrow> SRPolicy \<Rightarrow> unit step" where
  "RequestSRPolicyDeleted now srPolicy = SendPCInitiate now srPolicy True"

definition RequestSRPolicyCreated :: "nat \<Rightarrow> SRPolicy \<Rightarrow> unit step" where
  "RequestSRPolicyCreated now srPolicy = SendPCInitiate now srPolicy False"

definition SRPolicy_zero :: SRPolicy where
  "SRPolicy_zero = NewSRPolicy 0 [] [] NoAddr NoAddr 0 0 0 []"

definition RequestAllSRPolicyDeleted :: "nat \<Rightarrow> unit step" where
  "RequestAllSRPolicyDeleted now = SendPCInitiate now SRPolicy_zero True"

section \<open>Paths computed for the PCC\<close>

fun indexPrefixes :: "string \<Rightarrow> LsPrefix option list \<Rightarrow> (addr \<rightharpoonup> string) \<Rightarrow> (addr \<rightharpoonup> string) result" where
  "indexPrefixes routerID [] index = Inr index"
| "indexPrefixes routerID (None # ps) index = panic"
| "indexPrefixes routerID (Some p # ps) index = indexPrefixes routerID ps (index(pfx_Addr (px_Prefix p) \<mapsto> routerID))"

fun addressIndexLoop :: "heap \<Rightarrow> (string \<times> nodeptr) list \<Rightarrow> (addr \<rightharpoonup> string) \<Rightarrow> (addr \<rightharpoonup> string) result" where
  "addressIndexLoop h [] index = Inr index"
| "addressIndexLoop h ((routerID, None) # nodes) index = addressIndexLoop h nodes index"
| "addressIndexLoop h ((routerID, Some i) # nodes) index =
     bindE (loadNode h (Some i)) (\<lambda>node.
     bindE (indexPrefixes routerID (nd_Prefixes node) index) (addressIndexLoop h nodes))"

definition buildAddressRouterIDIndex :: "goEnv \<Rightarrow> tedState option \<Rightarrow> (addr \<rightharpoonup> string) result" where
  "buildAddressRouterIDIndex env ted =
     (case ted of
        None \<Rightarrow> Inr Map.empty
      | Some (h, t) \<Rightarrow> addressIndexLoop h (ge_nodes env (ted_Nodes t)) Map.empty)"

definition findRouterIDFromAddress :: "tedState \<Rightarrow> (addr \<rightharpoonup> string) \<Rightarrow> addr \<Rightarrow> string result" where
  "findRouterIDFromAddress ted addrIndex a =
     (case map_of (ted_Nodes (snd ted)) (addr_String a) of
        Some p \<Rightarrow> bindE (loadNode (fst ted) p) (\<lambda>node. Inr (nd_RouterID node))
      | None \<Rightarrow>
          (case addrIndex a of
             Some routerID \<Rightarrow> Inr routerID
           | None \<Rightarrow> errorf ''address not found in TED'' []))"

definition extractSrcDstRouterIDs :: "goEnv \<Rightarrow> tedState \<Rightarrow> StateReport \<Rightarrow> (string \<times> string) result" where
  "extractSrcDstRouterIDs env ted sr =
     (let srcAddr = (if IsValid (lo_SrcAddr (sr_LSPObject sr)) then lo_SrcAddr (sr_LSPObject sr) else NoAddr);
          dstAddr = (if IsValid (lo_DstAddr (sr_LSPObject sr)) then lo_DstAddr (sr_LSPObject sr) else NoAddr) in
      if \<not> IsValid srcAddr \<or> \<not> IsValid dstAddr
      then errorf ''could not extract valid source and destination addresses'' []
      else
        bindE (buildAddressRouterIDIndex env (Some ted)) (\<lambda>addrIndex.
        bindE (wrapE ''cannot find source router ID'' (findRouterIDFromAddress ted addrIndex srcAddr)) (\<lambda>srcRouterID.
        bindE (wrapE ''cannot find destination router ID'' (findRouterIDFromAddress ted addrIndex dstAddr)) (\<lambda>dstRouterID.
        Inr (srcRouterID, dstRouterID)))))"

definition selectMetricType :: "PccType \<Rightarrow> StateReport \<Rightarrow> MetricType" where
  "selectMetricType pccType sr =
     (case sr_MetricObjects sr of
        m # _ \<Rightarrow>
          (if mo_MetricType m = 1 then IGPMetric
           else if mo_MetricType m = 2 then TEMetric
           else if mo_MetricType m = 3 then DelayMetric
           else if mo_MetricType m = 4 then HopcountMetric
           else TEMetric)
      | [] \<Rightarrow> (case pccType of CiscoLegacy \<Rightarrow> TEMetric | JuniperLegacy \<Rightarrow> IGPMetric | RFCCompliant \<Rightarrow> TEMetric))"

definition computePathFromTED :: "goEnv \<Rightarrow> Session \<Rightarrow> StateReport \<Rightarrow> Segment list result option" where
  "computePathFromTED env ss sr =
     (case ss_ted ss of
        None \<Rightarrow> Some (errorf ''TED not available'' [])
      | Some ted \<Rightarrow>
          (case wrapE ''failed to extract router IDs'' (extractSrcDstRouterIDs env ted sr) of
             Inl e \<Rightarrow> Some (Inl e)
           | Inr (srcRouterID, dstRouterID) \<Rightarrow>
               map_option (wrapE ''CSPF computation failed'')
                 (CSPF (ge_cspf env) (fst ted) srcRouterID dstRouterID
                    (selectMetricType (ss_pccType ss) sr) (snd ted))))"

text \<open>Segments the constructors refuse are left out.\<close>

fun eroOfSegment :: "Segment \<Rightarrow> EroSubobject list" where
  "eroOfSegment (SRMPLS seg) = (case NewSREroSubobject seg of Inr s \<Rightarrow> [EroSR s] | Inl _ \<Rightarrow> [])"
| "eroOfSegment (SRv6 seg) = (case NewSRv6EroSubobject seg of Inr s \<Rightarrow> [EroSRv6 s] | Inl _ \<Rightarrow> [])"

definition createEroFromSegmentList :: "Segment list \<Rightarrow> EroObject" where
  "createEroFromSegmentList segmentList =
     \<lparr>ero_ObjectType = ObjectTypeEROExplicitRoute, ero_EroSubobjects = concat (map eroOfSegment segmentList)\<rparr>"

section \<open>State reports\<close>

definition registerS :: "StateReport \<Rightarrow> unit step" where
  "registerS sr ss = Some (RegisterSRPolicy sr ss)"

definition handleSynchronization :: "StateReport \<Rightarrow> unit step" where
  "handleSynchronization sr = registerS sr"

definition handleFinishSynchronization :: "Session \<Rightarrow> Session" where
  "handleFinishSynchronization ss = ss\<lparr>ss_isSynced := True\<rparr>"

definition handleStatefulPCERequest :: "StateReport \<Rightarrow> unit step" where
  "handleStatefulPCERequest sr =
     (if lo_RFlag (sr_LSPObject sr) then modifyS (DeleteSRPolicy sr) else registerS sr)"

definition handleReportedSRPolicy :: "StateReport \<Rightarrow> unit step" where
  "handleReportedSRPolicy sr =
     (if lo_RFlag (sr_LSPObject sr) then modifyS (DeleteSRPolicy sr) else registerS sr)"

definition handleSRPolicyWithPLSPID :: "goEnv \<Rightarrow> StateReport \<Rightarrow> unit step" where
  "handleSRPolicyWithPLSPID env sr ss =
     (if lo_RFlag (sr_LSPObject sr) \<or> ss_ted ss = None then handleReportedSRPolicy sr ss
      else case computePathFromTED env ss sr of
          None \<Rightarrow> None
        | Some (Inl e) \<Rightarrow> Some (Inl e, ss)
        | Some (Inr computedSegmentList) \<Rightarrow>
            bindS (registerS (sr\<lparr>sr_EroObject := createEroFromSegmentList computedSegmentList\<rparr>)) (\<lambda>_ ss.
              case SearchSRPolicy ss (lo_PlspID (sr_LSPObject sr)) of
                None \<Rightarrow> Some (errorf ''SR Policy not found after registration'' [uint (lo_PlspID (sr_LSPObject sr))], ss)
              | Some policy \<Rightarrow> SendPCUpdate (ge_now env) policy ss) ss)"

definition handleStateReport :: "goEnv \<Rightarrow> StateReport \<Rightarrow> unit step" where
  "handleStateReport env sr =
     (if lo_SFlag (sr_LSPObject sr) then handleSynchronization sr
      else if lo_PlspID (sr_LSPObject sr) = 0 then modifyS handleFinishSynchronization
      else if so_SrpID (sr_SrpObject sr) \<noteq> 0 then handleStatefulPCERequest sr
      else handleSRPolicyWithPLSPID env sr)"

text \<open>The loop over the reports of a message logs an error and goes on.\<close>

fun handleReports :: "goEnv \<Rightarrow> StateReport list \<Rightarrow> unit step" where
  "handleReports env [] ss = Some (Inr (), ss)"
| "handleReports env (sr # srs) ss =
     (case handleStateReport env sr ss of
        None \<Rightarrow> None
      | Some (Inl Panic, ss) \<Rightarrow> Some (panic, ss)
      | Some (_, ss) \<Rightarrow> handleReports env srs ss)"

section \<open>Receiving messages\<close>

definition handlePCRpt :: "goEnv \<Rightarrow> u16 \<Rightarrow> unit step" where
  "handlePCRpt env len =
     bindS (connRead (unat (len - word_of_nat CommonHeaderLength))) (\<lambda>messageBodyBytes ss.
       case PCRptMessage_DecodeFromBytes NewPCRptMessage messageBodyBytes of
         None \<Rightarrow> None
       | Some (Inl e) \<Rightarrow> Some (Inl e, ss)
       | Some (Inr message) \<Rightarrow> handleReports env (prm_StateReports message) ss)"

definition handlePCErr :: "PCErrMessage \<Rightarrow> Session \<Rightarrow> Session" where
  "handlePCErr pcerrMessage ss = fold forgetSRPolicyIntent (PCErrMessage_SRPIDs pcerrMessage) ss"

definition readCommonHeader :: "CommonHeader step" where
  "readCommonHeader =
     bindS (connRead CommonHeaderLength) (\<lambda>commonHeaderBytes.
     returnS (CommonHeader_DecodeFromBytes commonHeaderBytes))"

definition readBody :: "CommonHeader \<Rightarrow> bytes step" where
  "readBody h = connRead (unat (ch_MessageLength h - word_of_nat CommonHeaderLength))"

text \<open>One turn of the loop of \<open>ReceivePCEPMessage\<close>; the result says whether it goes on.\<close>

definition receiveTurn :: "goEnv \<Rightarrow> bool step" where
  "receiveTurn env =
     bindS readCommonHeader (\<lambda>h.
       if ch_MessageType h = MessageTypeKeepalive then returnS (Inr True)
       else if ch_MessageType h = MessageTypeReport
       then bindS (handlePCRpt env (ch_MessageLength h)) (\<lambda>_. returnS (Inr True))
       else if ch_MessageType h = MessageTypeError
       then bindS (readBody h) (\<lambda>body.
            bindS (returnS (PCErrMessage_DecodeFromBytes \<lparr>pem_Errors = [], pem_SRPs = []\<rparr> body)) (\<lambda>pcerrMessage.
            bindS (modifyS (handlePCErr pcerrMessage)) (\<lambda>_. returnS (Inr True))))
       else if ch_MessageType h = MessageTypeClose
       then bindS (readBody h) (\<lambda>body.
            bindS (returnS (CloseMessage_DecodeFromBytes body)) (\<lambda>_. returnS (Inr False)))
       else returnS (Inr True))"

partial_function (option) ReceivePCEPMessage :: "(nat \<Rightarrow> goEnv) \<Rightarrow> nat \<Rightarrow> Session \<Rightarrow> (unit result \<times> Session) option" where
  "ReceivePCEPMessage env k ss =
     (case receiveTurn (env k) ss of
        None \<Rightarrow> None
      | Some (Inl e, ss) \<Rightarrow> Some (Inl e, ss)
      | Some (Inr goOn, ss) \<Rightarrow>
          if goOn then ReceivePCEPMessage env (Suc k) ss else Some (Inr (), ss))"

end
