(* ===== verification/Session_Laws.thy ===== *)
theory Session_Laws
  imports Session_State "HOL-Library.Multiset"
begin

text \<open>
  What the state of a session promises: SRP-IDs are fresh and never reserved, and run out only
  when all are in use; the list of SR policies is a database keyed by PLSP-ID, whatever reports
  arrive.
\<close>

section \<open>SRP-IDs\<close>

text \<open>The candidates \<open>1, ..., limit - 1\<close> in the cyclic order that starts at \<open>head\<close>.\<close>

definition cyc :: "nat \<Rightarrow> nat \<Rightarrow> nat \<Rightarrow> nat" where
  "cyc limit head k = (head - 1 + k) mod (limit - 1) + 1"

definition normHead :: "u32 \<Rightarrow> u32 \<Rightarrow> u32" where
  "normHead head limit = (if head = 0 \<or> head \<ge> limit then 1 else head)"

lemma normHead_range:
  assumes "1 < limit"
  shows "1 \<le> unat (normHead head limit) \<and> unat (normHead head limit) < unat limit"
  using assms by (auto simp: normHead_def not_le word_less_nat_alt unat_gt_0 intro: Suc_leI)

lemma normHead_next:
  assumes l: "1 < limit" and h: "1 \<le> unat h" "unat h < unat limit"
  shows "unat (normHead (h + 1) limit) = unat h mod (unat limit - 1) + 1"
proof -
  have b: "unat h + 1 < 2 ^ 32" using h unat_u32_less [of limit] by simp
  have u: "unat (h + 1) = unat h + 1" using b by (simp add: unat_word_ariths)
  have nz: "h + 1 \<noteq> 0" using u by (metis add_gr_0 less_one unat_0 neq0_conv)
  show ?thesis
  proof (cases "unat h + 1 = unat limit")
    case True
    then have "normHead (h + 1) limit = 1" using u by (simp add: normHead_def word_le_nat_alt)
    moreover have "unat limit - 1 = unat h" using True by simp
    ultimately show ?thesis by simp
  next
    case False
    then have "\<not> limit \<le> h + 1" using u h by (simp add: word_le_nat_alt)
    then have "normHead (h + 1) limit = h + 1" using nz by (simp add: normHead_def)
    then show ?thesis using u False h by simp
  qed
qed

lemma nextUnusedLoop_spec:
  assumes l: "1 < limit" and c: "capacity = unat limit - 1" and a: "attempts \<le> capacity"
    and h: "unat (normHead head limit) = cyc (unat limit) h0 attempts"
  shows "case nextUnusedLoop attempts capacity head limit used of
      Inr (x, nh) \<Rightarrow> \<not> used x \<and> 1 \<le> unat x \<and> unat x < unat limit \<and> nh = x + 1
    | Inl e \<Rightarrow> e = Err (Errorf ''no SRP-ID available: all SRP-IDs are in use'' []) \<and>
        (\<forall>k. attempts \<le> k \<longrightarrow> k < capacity \<longrightarrow> used (word_of_nat (cyc (unat limit) h0 k)))"
  using a h
proof (induction "capacity - attempts" arbitrary: attempts head)
  case 0
  then show ?case by (simp add: nextUnusedLoop.simps)
next
  case (Suc n)
  then have lt: "attempts < capacity" by simp
  let ?x = "normHead head limit"
  have r: "1 \<le> unat ?x" "unat ?x < unat limit" using normHead_range [OF l] by auto
  have x: "?x = word_of_nat (cyc (unat limit) h0 attempts)" using Suc.prems(2) by (metis of_nat_unat ucast_id)
  have un: "nextUnusedLoop attempts capacity head limit used =
      (if \<not> used ?x then Inr (?x, ?x + 1) else nextUnusedLoop (attempts + 1) capacity (?x + 1) limit used)"
    using lt by (subst nextUnusedLoop.simps) (simp add: normHead_def Let_def)
  show ?case
  proof (cases "used ?x")
    case False
    with un r show ?thesis by simp
  next
    case True
    have "unat (normHead (?x + 1) limit) = cyc (unat limit) h0 (attempts + 1)"
      using normHead_next [OF l r] Suc.prems(2) mod_add_left_eq [of "h0 - 1 + attempts" "unat limit - 1" 1]
      by (simp add: cyc_def add.assoc)
    with Suc.hyps(1) [of "attempts + 1" "?x + 1"] Suc.hyps(2) lt
    have ih: "case nextUnusedLoop (attempts + 1) capacity (?x + 1) limit used of
      Inr (x, nh) \<Rightarrow> \<not> used x \<and> 1 \<le> unat x \<and> unat x < unat limit \<and> nh = x + 1
    | Inl e \<Rightarrow> e = Err (Errorf ''no SRP-ID available: all SRP-IDs are in use'' []) \<and>
        (\<forall>k. attempts + 1 \<le> k \<longrightarrow> k < capacity \<longrightarrow> used (word_of_nat (cyc (unat limit) h0 k)))"
      by simp
    have "used (word_of_nat (cyc (unat limit) h0 k))" if "attempts \<le> k" "k < capacity"
      "\<forall>k. attempts + 1 \<le> k \<longrightarrow> k < capacity \<longrightarrow> used (word_of_nat (cyc (unat limit) h0 k))" for k
      using that True x by (cases "k = attempts") auto
    with ih un True show ?thesis by (auto split: sum.splits)
  qed
qed

lemma cyc_onto:
  assumes "1 < n" "1 \<le> h" "h < n" "1 \<le> y" "y < n"
  obtains k where "k < n - 1" "cyc n h k = y"
proof (rule that)
  let ?k = "(y + (n - 1) - h) mod (n - 1)"
  show "?k < n - 1" using assms by simp
  have "(h - 1 + ?k) mod (n - 1) = (h - 1 + (y + (n - 1) - h)) mod (n - 1)" by (simp add: mod_add_right_eq)
  also have "h - 1 + (y + (n - 1) - h) = y - 1 + (n - 1)" using assms by simp
  also have "(y - 1 + (n - 1)) mod (n - 1) = y - 1"
  proof -
    have "y - 1 < n - 1" using assms by linarith
    then show ?thesis by (simp only: mod_add_self2 mod_less)
  qed
  finally have "(h - 1 + ?k) mod (n - 1) = y - 1" .
  then show "cyc n h ?k = y" using assms by (simp add: cyc_def)
qed

lemma nextUnusedSRPID_spec:
  assumes "1 < limit"
  shows "case nextUnusedSRPID head limit used of
      Inr (x, nh) \<Rightarrow> \<not> used x \<and> x \<noteq> 0 \<and> x < limit \<and> nh = x + 1
    | Inl e \<Rightarrow> e = Err (Errorf ''no SRP-ID available: all SRP-IDs are in use'' []) \<and>
        (\<forall>x. x \<noteq> 0 \<longrightarrow> x < limit \<longrightarrow> used x)"
proof -
  let ?h = "unat (normHead head limit)"
  have r: "1 \<le> ?h" "?h < unat limit" using normHead_range [OF assms] by auto
  have l: "1 < unat limit" using assms by (simp add: word_less_nat_alt)
  have c: "unat (limit - 1) = unat limit - 1"
    using l by (intro unat_minus_one) auto
  have "?h = cyc (unat limit) ?h 0" using r by (simp add: cyc_def)
  from nextUnusedLoop_spec [OF assms refl _ this, of used]
  have s: "case nextUnusedSRPID head limit used of
      Inr (x, nh) \<Rightarrow> \<not> used x \<and> 1 \<le> unat x \<and> unat x < unat limit \<and> nh = x + 1
    | Inl e \<Rightarrow> e = Err (Errorf ''no SRP-ID available: all SRP-IDs are in use'' []) \<and>
        (\<forall>k. 0 \<le> k \<longrightarrow> k < unat limit - 1 \<longrightarrow> used (word_of_nat (cyc (unat limit) ?h k)))"
    by (simp add: nextUnusedSRPID_def c Let_def)
  have u: "used x" if a: "\<forall>k. k < unat limit - 1 \<longrightarrow> used (word_of_nat (cyc (unat limit) ?h k))"
    "x \<noteq> 0" "x < limit" for x
  proof -
    have "1 \<le> unat x" using a(2) by (simp add: unat_gt_0 Suc_leI)
    moreover have "unat x < unat limit" using a(3) by (simp add: word_less_nat_alt)
    ultimately obtain k where "k < unat limit - 1" "cyc (unat limit) ?h k = unat x"
      using cyc_onto [OF l r] by blast
    then show ?thesis using a(1) by (metis of_nat_unat ucast_id)
  qed
  show ?thesis
    using s u by (auto split: sum.splits simp: word_less_nat_alt)
qed


section \<open>The database of SR policies\<close>

text \<open>
  The abstract session state: the policies by PLSP-ID and the intents by SRP-ID. A report is
  \<open>registered\<close> or \<open>removed\<close>.
\<close>

type_synonym policyDB = "(u32 \<rightharpoonup> SRPolicy) \<times> (u32 \<rightharpoonup> srPolicyIntent)"

definition policyMap :: "SRPolicy list \<Rightarrow> u32 \<rightharpoonup> SRPolicy" where
  "policyMap ps = map_of (map (\<lambda>p. (pol_PlspID p, p)) ps)"

definition absDB :: "Session \<Rightarrow> policyDB" where
  "absDB ss = (policyMap (ss_srPolicies ss), map_of (ss_srPolicyIntents ss))"

definition db_ok :: "Session \<Rightarrow> bool" where
  "db_ok ss \<longleftrightarrow> distinct (map pol_PlspID (ss_srPolicies ss))"

definition withIntent :: "srPolicyIntent option \<Rightarrow> SRPolicy \<Rightarrow> SRPolicy" where
  "withIntent i p = (case i of None \<Rightarrow> p | Some i \<Rightarrow> p\<lparr>pol_Type := in_polType i, pol_Metric := in_metric i\<rparr>)"

text \<open>SRP-ID 0 marks an unsolicited report and names no intent.\<close>

definition intentOf :: "(u32 \<rightharpoonup> srPolicyIntent) \<Rightarrow> u32 \<Rightarrow> srPolicyIntent option" where
  "intentOf ints srpID = (if srpID = 0 then None else ints srpID)"

definition dropIntent :: "u32 \<Rightarrow> (u32 \<rightharpoonup> srPolicyIntent) \<Rightarrow> (u32 \<rightharpoonup> srPolicyIntent)" where
  "dropIntent srpID ints = (if srpID = 0 then ints else ints(srpID := None))"

definition reportSrc :: "StateReport \<Rightarrow> addr" where
  "reportSrc sr = (if IsValid (lo_SrcAddr (sr_LSPObject sr)) then lo_SrcAddr (sr_LSPObject sr)
     else ao_AssocSrc (sr_AssociationObject sr))"

definition reportDst :: "StateReport \<Rightarrow> addr" where
  "reportDst sr = (if IsValid (lo_DstAddr (sr_LSPObject sr)) then lo_DstAddr (sr_LSPObject sr)
     else AssociationObject_Endpoint (sr_AssociationObject sr))"

definition updated :: "StateReport \<Rightarrow> u32 \<times> u32 \<Rightarrow> SRPolicy \<Rightarrow> SRPolicy" where
  "updated sr cp p = p\<lparr>pol_Name := lo_Name (sr_LSPObject sr), pol_Color := fst cp, pol_Preference := snd cp,
     pol_SegmentList := ToSegmentList (sr_EroObject sr), pol_LSPID := lo_LSPID (sr_LSPObject sr),
     pol_State := resolvePolicyState (lo_OFlag (sr_LSPObject sr))\<rparr>"

definition created :: "StateReport \<Rightarrow> u32 \<times> u32 \<Rightarrow> SRPolicy" where
  "created sr cp = NewSRPolicy (lo_PlspID (sr_LSPObject sr)) (lo_Name (sr_LSPObject sr))
     (ToSegmentList (sr_EroObject sr)) (reportSrc sr) (reportDst sr) (fst cp) (snd cp)
     (lo_LSPID (sr_LSPObject sr)) (resolvePolicyState (lo_OFlag (sr_LSPObject sr)))"

definition registered :: "u32 \<times> u32 \<Rightarrow> StateReport \<Rightarrow> policyDB \<Rightarrow> policyDB" where
  "registered cp sr db =
     (let (m, ints) = db; plspID = lo_PlspID (sr_LSPObject sr); srpID = so_SrpID (sr_SrpObject sr) in
      if ToSegmentList (sr_EroObject sr) = [] then db
      else case m plspID of
        Some p \<Rightarrow>
          if pol_LSPID p \<le> lo_LSPID (sr_LSPObject sr)
          then (m(plspID \<mapsto> withIntent (intentOf ints srpID) (updated sr cp p)), dropIntent srpID ints)
          else db
      | None \<Rightarrow>
          if IsValid (reportSrc sr) \<and> IsValid (reportDst sr)
          then (m(plspID \<mapsto> withIntent (intentOf ints srpID) (created sr cp)), dropIntent srpID ints)
          else db)"

definition removed :: "StateReport \<Rightarrow> policyDB \<Rightarrow> policyDB" where
  "removed sr db =
     (let (m, ints) = db; plspID = lo_PlspID (sr_LSPObject sr) in
      case m plspID of
        Some p \<Rightarrow> if pol_LSPID p \<le> lo_LSPID (sr_LSPObject sr)
          then (m(plspID := None), dropIntent (so_SrpID (sr_SrpObject sr)) ints) else db
      | None \<Rightarrow> db)"

lemma search_Some:
  "searchSRPolicyLocked k ps = Some i \<Longrightarrow> i < length ps \<and> pol_PlspID (ps ! i) = k \<and> policyMap ps k = Some (ps ! i)"
  by (induction ps arbitrary: i) (auto simp: policyMap_def split: if_splits)

lemma search_None: "searchSRPolicyLocked k ps = None \<longleftrightarrow> k \<notin> pol_PlspID ` set ps"
  by (induction ps) auto

lemma policyMap_None: "policyMap ps k = None \<longleftrightarrow> k \<notin> pol_PlspID ` set ps"
  by (force simp: policyMap_def map_of_eq_None_iff)

lemma policyMap_append: "policyMap (ps @ [p]) = (if pol_PlspID p \<in> pol_PlspID ` set ps then policyMap ps
     else (policyMap ps)(pol_PlspID p \<mapsto> p))"
proof (rule ext)
  fix k
  show "policyMap (ps @ [p]) k = (if pol_PlspID p \<in> pol_PlspID ` set ps then policyMap ps
     else (policyMap ps)(pol_PlspID p \<mapsto> p)) k"
    using policyMap_None [of ps k] by (auto simp: policyMap_def map_add_def image_iff split: option.splits)
qed

lemma policyMap_distinct:
  "distinct (map pol_PlspID ps) \<Longrightarrow> policyMap ps k = Some p \<longleftrightarrow> p \<in> set ps \<and> pol_PlspID p = k"
  by (induction ps) (auto simp: policyMap_def image_iff)

lemma policyMap_update:
  assumes "distinct (map pol_PlspID ps)" "i < length ps" "pol_PlspID p = pol_PlspID (ps ! i)"
  shows "distinct (map pol_PlspID (ps[i := p])) \<and> policyMap (ps[i := p]) = (policyMap ps)(pol_PlspID p \<mapsto> p)"
  using assms
proof (induction ps arbitrary: i)
  case (Cons q ps)
  show ?case
  proof (cases i)
    case 0
    with Cons.prems show ?thesis by (auto simp: policyMap_def)
  next
    case (Suc j)
    with Cons.prems Cons.IH [of j] have ih: "distinct (map pol_PlspID (ps[j := p]))"
      "policyMap (ps[j := p]) = (policyMap ps)(pol_PlspID p \<mapsto> p)" by auto
    have "pol_PlspID ` set (ps[j := p]) = pol_PlspID ` set ps"
      using Cons.prems(2,3) Suc by (metis list.set_map list_update_id map_update nth_Cons_Suc)
    moreover have "pol_PlspID q \<noteq> pol_PlspID p" using Cons.prems Suc by auto
    ultimately show ?thesis using Suc ih Cons.prems(1) by (auto simp: policyMap_def)
  qed
qed simp

lemma swapRemove_mset:
  assumes "i < length xs"
  shows "mset (swapRemove i xs) = mset xs - {#xs ! i#}"
proof -
  obtain ys y where xs: "xs = ys @ [y]" using assms by (cases xs rule: rev_cases) auto
  show ?thesis
  proof (cases "i = length ys")
    case True
    then show ?thesis by (simp add: swapRemove_def xs)
  next
    case False
    then have "i < length ys" using assms xs by simp
    then show ?thesis by (simp add: swapRemove_def xs list_update_append butlast_append mset_update nth_append)
  qed
qed

lemma policyMap_remove:
  assumes d: "distinct (map pol_PlspID ps)" and i: "i < length ps"
  shows "distinct (map pol_PlspID (swapRemove i ps)) \<and>
     policyMap (swapRemove i ps) = (policyMap ps)(pol_PlspID (ps ! i) := None)"
proof
  have m: "mset ps = mset (ps ! i # swapRemove i ps)"
    using swapRemove_mset [OF i] i by simp
  then have "mset (map pol_PlspID ps) = mset (map pol_PlspID (ps ! i # swapRemove i ps))" by (metis mset_map)
  then have d2: "distinct (map pol_PlspID (ps ! i # swapRemove i ps))"
    using d mset_eq_imp_distinct_iff by blast
  then show d': "distinct (map pol_PlspID (swapRemove i ps))" by simp
  have s: "set (swapRemove i ps) = set ps - {ps ! i}"
    using d2 mset_eq_setD [OF m] by auto
  show "policyMap (swapRemove i ps) = (policyMap ps)(pol_PlspID (ps ! i) := None)"
  proof
    fix k
    have "policyMap (swapRemove i ps) k = Some p \<longleftrightarrow> ((policyMap ps)(pol_PlspID (ps ! i) := None)) k = Some p" for p
      using policyMap_distinct [OF d'] policyMap_distinct [OF d] s i d
      by (auto simp: distinct_map inj_on_def)
    then show "policyMap (swapRemove i ps) k = ((policyMap ps)(pol_PlspID (ps ! i) := None)) k"
      by (metis not_None_eq)
  qed
qed


section \<open>Registration and removal refine the database\<close>

lemma takeSRPolicyIntent_abs:
  "map_of (ss_srPolicyIntents (snd (takeSRPolicyIntent srpID ss))) = dropIntent srpID (map_of (ss_srPolicyIntents ss))"
  "ss_srPolicies (snd (takeSRPolicyIntent srpID ss)) = ss_srPolicies ss"
  by (auto simp: takeSRPolicyIntent_def dropIntent_def delete_conv')

lemma applyIntent_abs:
  "fst (applyIntent srpID p ss) = withIntent (intentOf (map_of (ss_srPolicyIntents ss)) srpID) p"
  "map_of (ss_srPolicyIntents (snd (applyIntent srpID p ss))) = dropIntent srpID (map_of (ss_srPolicyIntents ss))"
  "ss_srPolicies (snd (applyIntent srpID p ss)) = ss_srPolicies ss"
  by (auto simp: applyIntent_def takeSRPolicyIntent_def withIntent_def intentOf_def dropIntent_def delete_conv'
      split: option.splits)

lemma withIntent_PlspID [simp]: "pol_PlspID (withIntent i p) = pol_PlspID p"
  by (simp add: withIntent_def split: option.splits)

lemma updated_eq:
  "SRPolicy_Update p \<lparr>df_Name = Some (lo_Name (sr_LSPObject sr)), df_Color = Some c,
     df_Preference = Some q, df_SegmentList = Some (ToSegmentList (sr_EroObject sr)),
     df_LSPID = lo_LSPID (sr_LSPObject sr), df_State = resolvePolicyState (lo_OFlag (sr_LSPObject sr))\<rparr> =
   updated sr (c, q) p"
  by (simp add: SRPolicy_Update_def updated_def Let_def)

lemma RegisterSRPolicy_refines:
  assumes "db_ok ss"
  shows "db_ok (snd (RegisterSRPolicy sr ss)) \<and>
     absDB (snd (RegisterSRPolicy sr ss)) = registered (resolveColorPreference ss sr) sr (absDB ss)"
proof -
  obtain c q where cq: "resolveColorPreference ss sr = (c, q)" by fastforce
  let ?k = "lo_PlspID (sr_LSPObject sr)" and ?s = "so_SrpID (sr_SrpObject sr)"
  show ?thesis
  proof (cases "ToSegmentList (sr_EroObject sr) = []")
    case True
    then show ?thesis using assms
      by (simp add: RegisterSRPolicy_def validateSegmentList_def registered_def cq absDB_def)
  next
    case ne: False
    then have v: "validateSegmentList sr = Inr (ToSegmentList (sr_EroObject sr))"
      by (simp add: validateSegmentList_def Let_def)
    show ?thesis
    proof (cases "searchSRPolicyLocked ?k (ss_srPolicies ss)")
      case (Some i)
      note f = search_Some [OF Some]
      show ?thesis
      proof (cases "pol_LSPID (ss_srPolicies ss ! i) \<le> lo_LSPID (sr_LSPObject sr)")
        case False
        with Some f ne v assms show ?thesis
          by (simp add: RegisterSRPolicy_def updateOrCreatePolicy_def registered_def cq absDB_def Let_def)
      next
        case True
        define p where "p = updated sr (c, q) (ss_srPolicies ss ! i)"
        define p' where "p' = withIntent (intentOf (map_of (ss_srPolicyIntents ss)) ?s) p"
        obtain ss' where a: "applyIntent ?s p ss = (p', ss')"
          using applyIntent_abs(1) [of ?s p ss] by (metis p'_def prod.collapse)
        have r: "snd (RegisterSRPolicy sr ss) = ss'\<lparr>ss_srPolicies := (ss_srPolicies ss')[i := p']\<rparr>"
          using Some True v a by (simp add: RegisterSRPolicy_def updateOrCreatePolicy_def cq updated_eq Let_def flip: p_def)
        have "pol_PlspID p' = ?k" using f by (simp add: p'_def p_def updated_def)
        with policyMap_update [of "ss_srPolicies ss" i p'] f assms a applyIntent_abs(2,3) [of ?s p ss]
        show ?thesis using True ne
          by (simp add: r db_ok_def absDB_def registered_def cq Let_def p'_def p_def)
      qed
    next
      case None
      then have n: "policyMap (ss_srPolicies ss) ?k = None" by (simp add: search_None policyMap_None)
      show ?thesis
      proof (cases "IsValid (reportSrc sr) \<and> IsValid (reportDst sr)")
        case False
        with None n ne v assms show ?thesis
          by (auto simp: RegisterSRPolicy_def updateOrCreatePolicy_def registered_def cq absDB_def Let_def
              reportSrc_def reportDst_def)
      next
        case True
        define p where "p = created sr (c, q)"
        define p' where "p' = withIntent (intentOf (map_of (ss_srPolicyIntents ss)) ?s) p"
        obtain ss' where a: "applyIntent ?s p ss = (p', ss')"
          using applyIntent_abs(1) [of ?s p ss] by (metis p'_def prod.collapse)
        have r: "snd (RegisterSRPolicy sr ss) = ss'\<lparr>ss_srPolicies := ss_srPolicies ss' @ [p']\<rparr>"
          using None True v a unfolding p_def created_def
          by (simp add: RegisterSRPolicy_def updateOrCreatePolicy_def cq Let_def reportSrc_def reportDst_def)
        have "pol_PlspID p' = ?k" by (simp add: p'_def p_def created_def NewSRPolicy_def)
        then show ?thesis using None n True ne assms a applyIntent_abs(2,3) [of ?s p ss]
          by (simp add: r db_ok_def absDB_def registered_def cq Let_def policyMap_append search_None p'_def p_def)
      qed
    qed
  qed
qed

lemma deleteIndex_search:
  assumes "distinct (map pol_PlspID ps)"
  shows "deleteIndex k l ps = (case searchSRPolicyLocked k ps of
      None \<Rightarrow> None | Some i \<Rightarrow> if pol_LSPID (ps ! i) \<le> l then Some i else None)"
  using assms
proof (induction ps)
  case (Cons p ps)
  have "deleteIndex k l ps = None" if "pol_PlspID p = k"
    using that Cons search_None [of k ps] by simp
  with Cons show ?case by (auto split: option.splits)
qed simp

lemma DeleteSRPolicy_refines:
  assumes "db_ok ss"
  shows "db_ok (DeleteSRPolicy sr ss) \<and> absDB (DeleteSRPolicy sr ss) = removed sr (absDB ss)"
proof -
  let ?k = "lo_PlspID (sr_LSPObject sr)" and ?s = "so_SrpID (sr_SrpObject sr)"
  have d: "distinct (map pol_PlspID (ss_srPolicies ss))" using assms by (simp add: db_ok_def)
  have fg: "ss_srPolicies (forgetSRPolicyIntent ?s ss) = ss_srPolicies ss"
    "map_of (ss_srPolicyIntents (forgetSRPolicyIntent ?s ss)) = dropIntent ?s (map_of (ss_srPolicyIntents ss))"
    by (simp_all add: forgetSRPolicyIntent_def dropIntent_def delete_conv')
  show ?thesis
  proof (cases "searchSRPolicyLocked ?k (ss_srPolicies ss)")
    case None
    then have "policyMap (ss_srPolicies ss) ?k = None" by (simp add: search_None policyMap_None)
    with None assms show ?thesis
      by (simp add: DeleteSRPolicy_def deleteIndex_search [OF d] removed_def absDB_def)
  next
    case (Some i)
    note f = search_Some [OF Some]
    with Some assms policyMap_remove [OF d, of i] fg show ?thesis
      by (auto simp: DeleteSRPolicy_def deleteIndex_search [OF d] removed_def absDB_def db_ok_def Let_def)
  qed
qed

end
