(* ===== verification/Open_Laws.thy ===== *)
theory Open_Laws
  imports Message_Codec
begin

text \<open>
  What \<open>OpenMessage.DecodeFromBytes\<close> of \<open>src/pkg/packet/pcep/message.go\<close> returns: capabilities that can be
  encoded again, in no more bytes than were read; and the messages on which it panics.
\<close>

section \<open>Capabilities of a decoded Open\<close>

lemma OpenObject_caps_ok:
  assumes "OpenObject_DecodeFromBytes OpenObject_zero t body = Inr oo" "length body \<le> 65532"
  shows "list_all tlv_ok (oo_Caps oo) \<and> list_all isCapability (oo_Caps oo) \<and> tlvs_size (oo_Caps oo) + 4 \<le> length body"
proof -
  obtain tlvs data where d: "DecodeTLVs data = Inr tlvs" "length data + 4 = length body" "oo_Caps oo = filter isCapability tlvs"
    using assms(1)
    by (auto simp: OpenObject_DecodeFromBytes_def OpenObject_zero_def bindE_eq_Inr sliceE_Inr_length indexE_def
        split: if_splits dest!: sliceE_Inr_length)
  have l: "length data \<le> 65532" using d(2) assms(2) by simp
  note r = DecodeTLVs_reencode [OF d(1) l]
  have "tlvs_size (filter isCapability tlvs) \<le> tlvs_size tlvs"
    by (induction tlvs) (auto simp: tlvs_size_def)
  then show ?thesis using r d(2,3) by (auto simp: tlvs_size_def list_all_iff)
qed

lemma OpenMessage_caps_ok:
  assumes "OpenMessage_DecodeFromBytes body = Inr om" "length body < 2 ^ 16"
  shows "list_all tlv_ok (oo_Caps (om_OpenObject om)) \<and> list_all isCapability (oo_Caps (om_OpenObject om)) \<and>
    tlvs_size (oo_Caps (om_OpenObject om)) + 8 \<le> length body"
proof -
  obtain t objectBody L where o: "OpenObject_DecodeFromBytes OpenObject_zero t objectBody = Inr (om_OpenObject om)"
      "sliceE body 4 L = Inr objectBody"
    using assms(1) by (auto simp: OpenMessage_DecodeFromBytes_def bindE_eq_Inr wrapE_eq_Inr Let_def split: if_splits)
  then have "length objectBody + 4 \<le> length body" by (auto simp: sliceE_def split: if_splits)
  with OpenObject_caps_ok [OF o(1)] assms(2) show ?thesis by auto
qed

section \<open>Panics\<close>

text \<open>
  C39: Decoding an Open message panics exactly on an OPEN object that announces less than its four fixed
  bytes or more than the message holds.
\<close>

theorem OpenMessage_panics:
  "OpenMessage_DecodeFromBytes body = panic \<longleftrightarrow>
     (\<exists>h. CommonObjectHeader_DecodeFromBytes body = Inr h \<and> coh_ObjectClass h = ObjectClassOpen \<and>
       coh_ObjectType h = ObjectTypeOpenOpen \<and> (unat (coh_ObjectLength h) < 8 \<or> length body < unat (coh_ObjectLength h)))"
proof -
  have d: "DecodeTLVs data \<noteq> panic" for data unfolding DecodeTLVs_def by (rule standard_space.sequence_no_panic)
  have o: "OpenObject_DecodeFromBytes OpenObject_zero t objectBody = panic \<longleftrightarrow> length objectBody < 4" for t objectBody
    using d by (auto simp: OpenObject_DecodeFromBytes_def bindE_eq_Inl indexE_def sliceE_def split: if_splits)
  show ?thesis
  proof (cases "CommonObjectHeader_DecodeFromBytes body")
    case (Inl e)
    then have "e \<noteq> Panic" using CommonObjectHeader_decode_no_panic by auto
    then show ?thesis using Inl by (simp add: OpenMessage_DecodeFromBytes_def wrapE_def split: failure.split)
  next
    case (Inr x)
    let ?L = "unat (coh_ObjectLength x)"
    have s: "sliceE body 4 ?L = (if 4 \<le> ?L \<and> ?L \<le> length body then Inr (take (?L - 4) (drop 4 body)) else panic)"
      by (simp add: sliceE_def)
    show ?thesis
      by (cases "4 \<le> ?L \<and> ?L \<le> length body")
        (auto simp: OpenMessage_DecodeFromBytes_def Inr s bindE_eq_Inl o)
  qed
qed

end
