(* ===== verification/Session_Runs.thy ===== *)
theory Session_Runs
  imports Session Session_Laws Open_Laws
begin

text \<open>
  Runs of a session. The goroutines of a session (the receive loop, the keepalive ticker, the
  intent sweeper) and the gRPC handlers interleave; what one of them does while it holds a mutex is
  one step of \<open>session_step\<close>. Every handler of theory Session is a sequence of such steps, so what
  holds along \<open>session_step\<close> holds however the handlers interleave.
\<close>

section \<open>Atomic steps\<close>

inductive session_step :: "Session \<Rightarrow> Session \<Rightarrow> bool" where
  recv: "connRead n ss = Some (r, ss') \<Longrightarrow> session_step ss ss'"
| send: "connWrite bs ss = Some (r, ss') \<Longrightarrow> session_step ss ss'"
| capabilities: "list_all tlv_ok caps \<Longrightarrow> list_all isCapability caps \<Longrightarrow> tlvs_size caps + 8 < 2 ^ 16 \<Longrightarrow>
    session_step ss (ss\<lparr>ss_receivedPccCapabilities := caps, ss_advertisedCapabilities := PolaCapability caps,
     ss_pccType := DeterminePccType caps, ss_keepAlive := ka\<rparr>)"
| allocate: "session_step ss (snd (allocateSRPID now polType metric ss))"
| forget: "session_step ss (forgetSRPolicyIntent srpID ss)"
| sweep: "session_step ss (sweepExpiredSRPolicyIntents now ss)"
| clear: "session_step ss (clearSRPolicyIntents ss)"
| synced: "session_step ss (handleFinishSynchronization ss)"
| register: "session_step ss (snd (RegisterSRPolicy sr ss))"
| delete: "session_step ss (DeleteSRPolicy sr ss)"

definition runs :: "'a step \<Rightarrow> bool" where
  "runs m \<longleftrightarrow> (\<forall>ss r ss'. m ss = Some (r, ss') \<longrightarrow> session_step\<^sup>*\<^sup>* ss ss')"

named_theorems runs_intros \<open>the handlers are sequences of atomic steps\<close>

lemma runsI: "(\<And>ss r ss'. m ss = Some (r, ss') \<Longrightarrow> session_step\<^sup>*\<^sup>* ss ss') \<Longrightarrow> runs m"
  by (simp add: runs_def)

lemma runsD: "runs m \<Longrightarrow> m ss = Some (r, ss') \<Longrightarrow> session_step\<^sup>*\<^sup>* ss ss'"
  by (simp add: runs_def)

lemma runs_return [runs_intros]: "runs (returnS r)"
  by (simp add: runs_def)

lemma runs_bind [runs_intros]: "runs m \<Longrightarrow> (\<And>x. runs (f x)) \<Longrightarrow> runs (bindS m f)"
  by (rule runsI) (auto simp: bindS_def split: option.splits sum.splits prod.splits
      dest!: runsD intro: rtranclp_trans)

lemma runs_bind_value:
  assumes "runs m" "\<And>x ss ss'. m ss = Some (Inr x, ss') \<Longrightarrow> runs (f x)"
  shows "runs (bindS m f)"
proof (rule runsI)
  fix ss r ss' assume *: "bindS m f ss = Some (r, ss')"
  then obtain y ss1 where m: "m ss = Some (y, ss1)" by (auto simp: bindS_def split: option.splits)
  have 1: "session_step\<^sup>*\<^sup>* ss ss1" using runsD [OF assms(1) m] .
  show "session_step\<^sup>*\<^sup>* ss ss'"
  proof (cases y)
    case (Inr x)
    then have "f x ss1 = Some (r, ss')" using * m by (simp add: bindS_def)
    then show ?thesis using 1 runsD [OF assms(2)] m Inr by (metis rtranclp_trans)
  qed (use * m 1 in \<open>simp add: bindS_def\<close>)
qed

lemma runs_if [runs_intros]: "(b \<Longrightarrow> runs m) \<Longrightarrow> (\<not> b \<Longrightarrow> runs m') \<Longrightarrow> runs (if b then m else m')"
  by simp

lemma runs_modify: "(\<And>ss. session_step\<^sup>*\<^sup>* ss (g ss)) \<Longrightarrow> runs (modifyS g)"
  by (auto simp: runs_def)

lemma runs_eta: "runs (\<lambda>ss. m ss) \<Longrightarrow> runs m"
  by simp

lemma connRead_length: "connRead n ss = Some (Inr bs, ss') \<Longrightarrow> length bs = n"
  by (auto simp: connRead_def Let_def makeBytes_def split: if_splits list.splits)

lemma runs_read [runs_intros]: "runs (connRead n)"
  by (rule runsI) (blast intro: session_step.recv)

lemma runs_write [runs_intros]: "runs (connWrite bs)"
  by (rule runsI) (blast intro: session_step.send)

lemma runs_send [runs_intros]: "runs (sendPCEPMessage r)"
  unfolding sendPCEPMessage_def by (intro runs_intros)

lemma runs_register [runs_intros]: "runs (registerS sr)"
  by (rule runsI) (metis registerS_def option.inject snd_conv r_into_rtranclp session_step.register)

lemma runs_delete [runs_intros]: "runs (modifyS (DeleteSRPolicy sr))"
  by (rule runs_modify) (blast intro: session_step.delete)

lemma runs_synced [runs_intros]: "runs (modifyS handleFinishSynchronization)"
  by (rule runs_modify) (blast intro: session_step.synced)

lemma runs_allocate [runs_intros]: "runs (\<lambda>ss. Some (allocateSRPID now t m ss))"
  by (rule runsI) (metis option.inject snd_conv r_into_rtranclp session_step.allocate)

lemma runs_forgetOnError [runs_intros]:
  assumes "runs m"
  shows "runs (forgetOnError srpID m)"
proof (rule runsI)
  fix ss r ss' assume *: "forgetOnError srpID m ss = Some (r, ss')"
  then obtain r' ss1 where m: "m ss = Some (r', ss1)" and "ss' = ss1 \<or> ss' = forgetSRPolicyIntent srpID ss1"
    by (auto simp: forgetOnError_def split: option.splits sum.splits failure.splits)
  with runsD [OF assms m] show "session_step\<^sup>*\<^sup>* ss ss'"
    by (auto intro: rtranclp.rtrancl_into_rtrancl session_step.forget)
qed

section \<open>The handlers\<close>

lemma runs_parseOpen [runs_intros]: "runs parseOpenMessage"
  unfolding parseOpenMessage_def by (intro runs_intros)

lemma parseOpenMessage_caps:
  assumes "parseOpenMessage ss = Some (Inr om, ss')"
  shows "list_all tlv_ok (oo_Caps (om_OpenObject om)) \<and> list_all isCapability (oo_Caps (om_OpenObject om)) \<and>
    tlvs_size (oo_Caps (om_OpenObject om)) + 8 < 2 ^ 16"
proof -
  obtain n body ss1 ss2 where r: "connRead (unat (n :: u16)) ss1 = Some (Inr body, ss2)" and d: "OpenMessage_DecodeFromBytes body = Inr om"
    using assms by (auto simp: parseOpenMessage_def bindS_def split: option.splits sum.splits if_splits prod.splits)
  have "length body < 2 ^ 16"
    using connRead_length [OF r] unsigned_less [where ?'a = nat, of n] by simp
  with OpenMessage_caps_ok [OF d this] show ?thesis by auto
qed

lemma runs_ReceiveOpen [runs_intros]: "runs ReceiveOpen"
  unfolding ReceiveOpen_def
  by (rule runs_bind_value [OF runs_parseOpen runs_modify])
    (auto simp: Let_def dest!: parseOpenMessage_caps intro: session_step.capabilities)

lemma runs_pointwise: "(\<And>ss. runs (f ss)) \<Longrightarrow> runs (\<lambda>ss. f ss ss)"
  by (auto simp: runs_def)

lemma runs_SendOpen [runs_intros]: "runs SendOpen"
  unfolding SendOpen_def [abs_def] by (rule runs_pointwise) (intro runs_intros)

lemma runs_Open [runs_intros]: "runs Session_Open"
  unfolding Session_Open_def by (intro runs_intros)

lemma runs_Keepalive [runs_intros]: "runs SendKeepalive"
  unfolding SendKeepalive_def by (intro runs_intros)

lemma runs_Close [runs_intros]: "runs (SendClose reason)"
  unfolding SendClose_def by (intro runs_intros)

lemma runs_PCInitiate [runs_intros]: "runs (SendPCInitiate now p del)"
proof -
  have "runs (\<lambda>ss. bindS (returnS (f ss)) (\<lambda>m. sendPCEPMessage (g m)) ss)" for f :: "Session \<Rightarrow> 'a result" and g
    by (rule runs_pointwise) (intro runs_intros)
  then show ?thesis unfolding SendPCInitiate_def by (intro runs_intros)
qed

lemma runs_PCUpdate [runs_intros]: "runs (SendPCUpdate now p)"
  unfolding SendPCUpdate_def by (intro runs_intros)

lemma runs_reported [runs_intros]: "runs (handleReportedSRPolicy sr)" "runs (handleStatefulPCERequest sr)"
  unfolding handleReportedSRPolicy_def handleStatefulPCERequest_def by (intro runs_intros)+

lemma runs_PLSPID [runs_intros]: "runs (handleSRPolicyWithPLSPID env sr)"
proof (rule runsI)
  fix ss r ss' assume *: "handleSRPolicyWithPLSPID env sr ss = Some (r, ss')"
  show "session_step\<^sup>*\<^sup>* ss ss'"
  proof (cases "lo_RFlag (sr_LSPObject sr) \<or> ss_ted ss = None")
    case True
    then show ?thesis using * runsD [OF runs_reported(1)] by (auto simp: handleSRPolicyWithPLSPID_def)
  next
    case False
    have u: "runs (bindS (registerS sr') (\<lambda>_ ss. case SearchSRPolicy ss k of
        None \<Rightarrow> Some (errorf s xs, ss) | Some policy \<Rightarrow> SendPCUpdate now policy ss))" for sr' k s xs now
      by (intro runs_intros) (auto intro!: runsI split: option.splits dest: runsD [OF runs_PCUpdate])
    show ?thesis
    proof (cases "computePathFromTED env ss sr")
      case (Some c)
      then show ?thesis
        using False * by (cases c) (auto simp: handleSRPolicyWithPLSPID_def dest: runsD [OF u])
    qed (use False * in \<open>auto simp: handleSRPolicyWithPLSPID_def split: if_splits\<close>)
  qed
qed

lemma runs_StateReport [runs_intros]: "runs (handleStateReport env sr)"
  unfolding handleStateReport_def handleSynchronization_def by (intro runs_intros)

lemma runs_Reports [runs_intros]: "runs (handleReports env srs)"
proof (rule runsI)
  fix ss r ss'
  show "handleReports env srs ss = Some (r, ss') \<Longrightarrow> session_step\<^sup>*\<^sup>* ss ss'"
    by (induction srs arbitrary: ss)
      (auto split: option.splits sum.splits failure.splits prod.splits
        dest: runsD [OF runs_StateReport] intro: rtranclp_trans)
qed

lemma runs_PCRpt [runs_intros]: "runs (handlePCRpt env n)"
proof -
  have "runs (\<lambda>ss. case PCRptMessage_DecodeFromBytes NewPCRptMessage body of
         None \<Rightarrow> None
       | Some (Inl e) \<Rightarrow> Some (Inl e, ss)
       | Some (Inr message) \<Rightarrow> handleReports env (prm_StateReports message) ss)" for body
    by (auto simp: runs_def split: option.splits sum.splits dest: runsD [OF runs_Reports])
  then show ?thesis unfolding handlePCRpt_def by (intro runs_intros)
qed

lemma steps_fold_forget: "session_step\<^sup>*\<^sup>* ss (fold forgetSRPolicyIntent ids ss)"
  by (induction ids arbitrary: ss) (auto intro: converse_rtranclp_into_rtranclp session_step.forget)

lemma runs_turn [runs_intros]: "runs (receiveTurn env)"
  unfolding receiveTurn_def readCommonHeader_def readBody_def
  by (intro runs_intros runs_modify) (simp_all add: handlePCErr_def steps_fold_forget)

lemma runs_ReceivePCEPMessage [runs_intros]: "runs (ReceivePCEPMessage envs k)"
proof (rule runsI)
  fix ss r ss' assume "ReceivePCEPMessage envs k ss = Some (r, ss')"
  then have "session_step\<^sup>*\<^sup>* ss (snd (r, ss'))"
  proof (rule ReceivePCEPMessage.raw_induct [where P = "\<lambda>env k ss res. session_step\<^sup>*\<^sup>* ss (snd res)", rotated])
    fix rec :: "(nat \<Rightarrow> goEnv) \<Rightarrow> nat \<Rightarrow> Session \<Rightarrow> (unit result \<times> Session) option" and env k ss res
    assume "\<And>env k ss res. rec env k ss = Some res \<Longrightarrow> session_step\<^sup>*\<^sup>* ss (snd res)"
      and "(case receiveTurn (env k) ss of
        None \<Rightarrow> None
      | Some (Inl e, ss) \<Rightarrow> Some (Inl e, ss)
      | Some (Inr goOn, ss) \<Rightarrow> if goOn then rec env (Suc k) ss else Some (Inr (), ss)) = Some res"
    then show "session_step\<^sup>*\<^sup>* ss (snd res)"
      by (auto split: option.splits sum.splits if_splits dest!: runsD [OF runs_turn])
        (metis rtranclp_trans snd_conv surj_pair)
  qed
  then show "session_step\<^sup>*\<^sup>* ss ss'" by simp
qed

end
