(* ===== verification/Session_Props.thy ===== *)
theory Session_Props
  imports Session_Runs State_Reports
begin

text \<open>
  What a session guarantees: the invariants of its state, whatever the peer sends and the operator
  asks, and the database of policies as a function of the reports that arrive.
\<close>

section \<open>Invariants of the session\<close>

definition policy_ok :: "SRPolicy \<Rightarrow> bool" where
  "policy_ok p \<longleftrightarrow> pol_SegmentList p \<noteq> [] \<and> IsValid (pol_SrcAddr p) \<and> IsValid (pol_DstAddr p)"

definition intents_ok :: "Session \<Rightarrow> bool" where
  "intents_ok ss \<longleftrightarrow> distinct (map fst (ss_srPolicyIntents ss)) \<and>
     list_all (\<lambda>k. k \<noteq> 0 \<and> k \<noteq> maxUint32) (map fst (ss_srPolicyIntents ss))"

definition session_ok :: "Session \<Rightarrow> bool" where
  "session_ok ss \<longleftrightarrow> db_ok ss \<and> list_all policy_ok (ss_srPolicies ss) \<and> intents_ok ss"

text \<open>What no step of the session changes.\<close>

definition sameOrigin :: "Session \<Rightarrow> Session \<Rightarrow> bool" where
  "sameOrigin ss ss' \<longleftrightarrow> ss_sessionID ss' = ss_sessionID ss \<and> ss_peerAddr ss' = ss_peerAddr ss \<and>
     ss_ted ss' = ss_ted ss \<and> ss_asn ss' = ss_asn ss"

lemma sameOrigin_refl [simp]: "sameOrigin ss ss"
  by (simp add: sameOrigin_def)

lemma sameOrigin_trans: "sameOrigin a b \<Longrightarrow> sameOrigin b c \<Longrightarrow> sameOrigin a c"
  by (simp add: sameOrigin_def)

lemma intents_delete:
  assumes "intents_ok ss" "ss_srPolicyIntents ss' = AList.delete k (ss_srPolicyIntents ss)"
  shows "intents_ok ss'"
  using assms distinct_delete [of "ss_srPolicyIntents ss" k]
  by (auto simp: intents_ok_def list_all_iff AList.delete_eq)

lemma session_forget: "session_ok ss \<Longrightarrow> session_ok (forgetSRPolicyIntent k ss)"
  by (auto simp: forgetSRPolicyIntent_def session_ok_def db_ok_def intro: intents_delete)

lemma session_take: "session_ok ss \<Longrightarrow> session_ok (snd (takeSRPolicyIntent k ss))"
  by (auto simp: takeSRPolicyIntent_def session_ok_def db_ok_def intro: intents_delete)

lemma allocateSRPID_cases:
  "case allocateSRPID now t m ss of
     (Inl e, ss') \<Rightarrow> ss' = ss \<and> e = Err (Errorf ''no SRP-ID available: all SRP-IDs are in use'' []) \<and>
       (\<forall>x. x \<noteq> 0 \<longrightarrow> x < maxUint32 \<longrightarrow> srPolicyIntentExists ss x)
   | (Inr x, ss') \<Rightarrow> x \<noteq> 0 \<and> x \<noteq> maxUint32 \<and> \<not> srPolicyIntentExists ss x \<and>
       ss' = ss\<lparr>ss_srpIDHead := x + 1, ss_srPolicyIntents := AList.update x
         \<lparr>in_polType = t, in_metric = m, in_expiresAt = now + ss_srPolicyIntentTTL ss\<rparr> (ss_srPolicyIntents ss)\<rparr>"
proof -
  have "1 < maxUint32" by (simp add: maxUint32_def)
  note n = nextUnusedSRPID_spec [OF this, where head = "ss_srpIDHead ss" and used = "srPolicyIntentExists ss"]
  show ?thesis
    using n by (auto simp: allocateSRPID_def rememberSRPolicyIntent_def split: sum.splits)
qed

lemma session_allocate:
  assumes "session_ok ss"
  shows "session_ok (snd (allocateSRPID now t m ss))"
proof -
  obtain r ss' where a: "allocateSRPID now t m ss = (r, ss')" by fastforce
  have "set (map fst (AList.update k v xs)) = insert k (set (map fst xs))" for k v and xs :: "(u32 \<times> srPolicyIntent) list"
    using dom_update [of k v xs] by auto
  then show ?thesis
    using assms allocateSRPID_cases [where now = now and t = t and m = m and ss = ss] distinct_update [of "ss_srPolicyIntents ss"]
    by (cases r) (auto simp: a session_ok_def db_ok_def intents_ok_def list_all_iff)
qed

text \<open>A report leaves the session as it is, updates one policy or adds one at the end.\<close>

lemma applyIntent_eq: "applyIntent srpID p ss =
    (withIntent (intentOf (map_of (ss_srPolicyIntents ss)) srpID) p, snd (takeSRPolicyIntent srpID ss))"
  by (auto simp: applyIntent_def takeSRPolicyIntent_def withIntent_def intentOf_def split: option.splits)

lemma RegisterSRPolicy_forms:
  fixes sr ss
  defines "srpID \<equiv> so_SrpID (sr_SrpObject sr)" and "ps \<equiv> ss_srPolicies ss"
  defines "i \<equiv> intentOf (map_of (ss_srPolicyIntents ss)) srpID"
  obtains (same) r where "RegisterSRPolicy sr ss = (r, ss)"
  | (update) j cp where "j < length ps" "pol_PlspID (ps ! j) = lo_PlspID (sr_LSPObject sr)" "ToSegmentList (sr_EroObject sr) \<noteq> []"
      "RegisterSRPolicy sr ss = (Inr (), (snd (takeSRPolicyIntent srpID ss))
         \<lparr>ss_srPolicies := ps[j := withIntent i (updated sr cp (ps ! j))]\<rparr>)"
  | (create) cp where "IsValid (reportSrc sr)" "IsValid (reportDst sr)" "ToSegmentList (sr_EroObject sr) \<noteq> []"
      "RegisterSRPolicy sr ss = (Inr (), (snd (takeSRPolicyIntent srpID ss))
         \<lparr>ss_srPolicies := ps @ [withIntent i (created sr cp)]\<rparr>)"
proof (cases "ToSegmentList (sr_EroObject sr) = []")
  case True
  then show ?thesis
    by (auto simp: RegisterSRPolicy_def validateSegmentList_def split: prod.splits intro: same)
next
  case ne: False
  obtain c q where cq: "resolveColorPreference ss sr = (c, q)" by fastforce
  have take: "ss_srPolicies (snd (takeSRPolicyIntent k ss)) = ps" for k
    by (simp add: takeSRPolicyIntent_abs ps_def)
  show ?thesis
  proof (cases "searchSRPolicyLocked (lo_PlspID (sr_LSPObject sr)) (ss_srPolicies ss)")
    case (Some j)
    note f = search_Some [OF Some]
    show ?thesis
    proof (cases "pol_LSPID (ss_srPolicies ss ! j) \<le> lo_LSPID (sr_LSPObject sr)")
      case True
      with Some ne have "RegisterSRPolicy sr ss = (Inr (), (snd (takeSRPolicyIntent srpID ss))
         \<lparr>ss_srPolicies := ps[j := withIntent i (updated sr (c, q) (ps ! j))]\<rparr>)"
        using take [of srpID]
        by (simp add: RegisterSRPolicy_def updateOrCreatePolicy_def validateSegmentList_def cq Let_def updated_eq
            applyIntent_eq i_def srpID_def flip: ps_def)
      with f ne show ?thesis by (intro update) (simp_all add: ps_def)
    qed (use Some ne in \<open>auto simp: RegisterSRPolicy_def updateOrCreatePolicy_def validateSegmentList_def cq Let_def intro: same\<close>)
  next
    case None
    show ?thesis
    proof (cases "IsValid (reportSrc sr) \<and> IsValid (reportDst sr)")
      case True
      with None ne have "RegisterSRPolicy sr ss = (Inr (), (snd (takeSRPolicyIntent srpID ss))
         \<lparr>ss_srPolicies := ps @ [withIntent i (created sr (c, q))]\<rparr>)"
        using take [of srpID] unfolding created_def
        by (simp add: RegisterSRPolicy_def updateOrCreatePolicy_def validateSegmentList_def cq Let_def
            applyIntent_eq i_def srpID_def reportSrc_def reportDst_def)
      with True ne show ?thesis by (intro create) simp_all
    next
      case False
      have "\<exists>r. RegisterSRPolicy sr ss = (r, ss)"
        using False None ne
        by (cases "IsValid (reportSrc sr)") (simp_all add: RegisterSRPolicy_def updateOrCreatePolicy_def
            validateSegmentList_def cq Let_def reportSrc_def reportDst_def)
      then show ?thesis by (blast intro: same)
    qed
  qed
qed

lemma policies_update:
  assumes "list_all policy_ok xs" "policy_ok p"
  shows "list_all policy_ok (xs[i := p])"
  using assms set_update_subset_insert [of xs i p] by (auto simp: list_all_iff)

lemma policy_ok_withIntent [simp]: "policy_ok (withIntent i p) = policy_ok p"
  by (simp add: withIntent_def policy_ok_def split: option.splits)

lemma session_register:
  assumes "session_ok ss"
  shows "session_ok (snd (RegisterSRPolicy sr ss)) \<and> sameOrigin ss (snd (RegisterSRPolicy sr ss)) \<and>
    ss_isSynced (snd (RegisterSRPolicy sr ss)) = ss_isSynced ss"
proof -
  have ok: "db_ok ss" "list_all policy_ok (ss_srPolicies ss)" using assms by (simp_all add: session_ok_def)
  note db = RegisterSRPolicy_refines [OF ok(1), of sr, THEN conjunct1]
  have ints: "intents_ok (snd (takeSRPolicyIntent k ss))" and so: "sameOrigin ss (snd (takeSRPolicyIntent k ss))"
    "ss_isSynced (snd (takeSRPolicyIntent k ss)) = ss_isSynced ss" for k
    using session_take [OF assms] by (auto simp: session_ok_def takeSRPolicyIntent_def sameOrigin_def)
  show ?thesis
  proof (cases rule: RegisterSRPolicy_forms [of sr ss])
    case (same r)
    then show ?thesis using assms by simp
  next
    case (update j cp)
    have "policy_ok (ss_srPolicies ss ! j)" using ok(2) update(1) by (simp add: list_all_length)
    then have "policy_ok (updated sr cp (ss_srPolicies ss ! j))" using update(3) by (simp add: updated_def policy_ok_def)
    then show ?thesis using db ok(2) ints so
      by (simp add: update(4) session_ok_def policies_update intents_ok_def sameOrigin_def)
  next
    case (create cp)
    then have "policy_ok (created sr cp)" by (simp add: created_def NewSRPolicy_def policy_ok_def)
    then show ?thesis using db ok(2) ints so
      by (simp add: create(4) session_ok_def intents_ok_def sameOrigin_def)
  qed
qed

lemma session_delete:
  assumes "session_ok ss"
  shows "session_ok (DeleteSRPolicy sr ss) \<and> sameOrigin ss (DeleteSRPolicy sr ss) \<and>
    ss_isSynced (DeleteSRPolicy sr ss) = ss_isSynced ss"
proof (cases "deleteIndex (lo_PlspID (sr_LSPObject sr)) (lo_LSPID (sr_LSPObject sr)) (ss_srPolicies ss)")
  case None
  then show ?thesis using assms by (simp add: DeleteSRPolicy_def)
next
  case (Some i)
  let ?k = "so_SrpID (sr_SrpObject sr)"
  have ok: "db_ok ss" "list_all policy_ok (ss_srPolicies ss)" using assms by (simp_all add: session_ok_def)
  have i: "i < length (ss_srPolicies ss)"
    using Some deleteIndex_search [OF ok(1) [unfolded db_ok_def]] by (auto split: option.splits if_splits dest: search_Some)
  have sub: "set (swapRemove i xs) \<subseteq> set xs" if "i < length xs" for xs :: "SRPolicy list"
    using swapRemove_mset [OF that] by (metis diff_subset_eq_self set_mset_mono set_mset_mset)
  have "ss_srPolicies (forgetSRPolicyIntent ?k ss) = ss_srPolicies ss" by (simp add: forgetSRPolicyIntent_def)
  with Some i sub [of "ss_srPolicies ss"] ok session_forget [OF assms, of ?k] DeleteSRPolicy_refines [OF ok(1), of sr]
  show ?thesis
    by (auto simp: DeleteSRPolicy_def session_ok_def intents_ok_def sameOrigin_def forgetSRPolicyIntent_def list_all_iff Let_def)
qed

lemma session_sweep: "session_ok ss \<Longrightarrow> session_ok (sweepExpiredSRPolicyIntents now ss)"
  by (auto simp: sweepExpiredSRPolicyIntents_def session_ok_def db_ok_def intents_ok_def list_all_iff distinct_map_filter)

lemma session_io:
  "connRead n ss = Some (r, ss') \<Longrightarrow> session_ok ss' = session_ok ss \<and> sameOrigin ss ss' \<and> ss_isSynced ss' = ss_isSynced ss"
  "connWrite bs ss = Some (r', ss') \<Longrightarrow> session_ok ss' = session_ok ss \<and> sameOrigin ss ss' \<and> ss_isSynced ss' = ss_isSynced ss"
  by (auto simp: connRead_def connWrite_def Let_def session_ok_def db_ok_def intents_ok_def sameOrigin_def
      split: if_splits list.splits)

lemma session_step_ok:
  assumes "session_step ss ss'" "session_ok ss"
  shows "session_ok ss' \<and> sameOrigin ss ss' \<and> (ss_isSynced ss \<longrightarrow> ss_isSynced ss')"
  using assms
proof cases
  case (allocate now t m)
  then show ?thesis
    using assms(2) session_allocate [of ss now t m] allocateSRPID_cases [where now = now and t = t and m = m and ss = ss]
    by (auto simp: sameOrigin_def split: prod.splits sum.splits)
qed (use session_register session_delete session_forget session_sweep session_io in
  \<open>auto simp: session_ok_def db_ok_def intents_ok_def sameOrigin_def handleFinishSynchronization_def
     clearSRPolicyIntents_def forgetSRPolicyIntent_def sweepExpiredSRPolicyIntents_def\<close>)

lemma session_steps_ok:
  assumes "session_step\<^sup>*\<^sup>* ss ss'" "session_ok ss"
  shows "session_ok ss' \<and> sameOrigin ss ss' \<and> (ss_isSynced ss \<longrightarrow> ss_isSynced ss')"
  using assms(1)
proof (induction rule: rtranclp_induct)
  case (step ss1 ss2)
  then show ?case using session_step_ok [OF step(2)] sameOrigin_trans by blast
qed (use assms in simp)

text \<open>
  C18: Whatever arrives on the connection, whatever is asked of the session and however its goroutines
  interleave: the policies of a session have distinct PLSP-IDs, segments, a valid source and a valid
  destination; an SRP-ID under way is neither 0 nor the reserved maximum and has one intent; the end
  of synchronization is never taken back; and the session keeps the identity and the TED it was
  created with. The receive loop and both requests lead to such states only.
\<close>

theorem session_invariant:
  assumes "session_step\<^sup>*\<^sup>* (NewSession sessionID peerAddr tcpConn ted asn) ss"
  shows "session_ok ss \<and> sameOrigin (NewSession sessionID peerAddr tcpConn ted asn) ss \<and>
    (\<forall>env k r ss'. ReceivePCEPMessage env k ss = Some (r, ss') \<longrightarrow>
       session_ok ss' \<and> sameOrigin ss ss' \<and> (ss_isSynced ss \<longrightarrow> ss_isSynced ss')) \<and>
    (\<forall>now p del r ss'. SendPCInitiate now p del ss = Some (r, ss') \<longrightarrow> session_ok ss' \<and> sameOrigin ss ss') \<and>
    (\<forall>now p r ss'. SendPCUpdate now p ss = Some (r, ss') \<longrightarrow> session_ok ss' \<and> sameOrigin ss ss')"
proof -
  have "session_ok (NewSession sessionID peerAddr tcpConn ted asn)"
    by (simp add: NewSession_def session_ok_def db_ok_def intents_ok_def)
  from session_steps_ok [OF assms this] show ?thesis
    using session_steps_ok runsD [OF runs_ReceivePCEPMessage] runsD [OF runs_PCInitiate] runsD [OF runs_PCUpdate]
    by blast
qed

definition sampleConn :: "bytes list \<Rightarrow> TCPConn" where
  "sampleConn arriving = \<lparr>tcp_in = arriving, tcp_out = [], tcp_writable = True, tcp_closed = False\<rparr>"

definition sampleSession :: "bytes list \<Rightarrow> Session" where
  "sampleSession arriving = NewSession 1 (Addr4 0x0A000001) (sampleConn arriving) None 65000"

definition sampleEnv :: goEnv where
  "sampleEnv = \<lparr>ge_now = 0, ge_cspf = \<lambda>_ c. c, ge_nodes = \<lambda>ns. ns\<rparr>"

lemma session_invariant_witness:
  "session_ok (handleFinishSynchronization (snd (allocateSRPID 5 PolicyTypeDynamic TEMetric (sampleSession [])))) \<and>
   sameOrigin (sampleSession [])
     (handleFinishSynchronization (snd (allocateSRPID 5 PolicyTypeDynamic TEMetric (sampleSession []))))"
proof -
  have "session_step\<^sup>*\<^sup>* (NewSession 1 (Addr4 0x0A000001) (sampleConn []) None 65000)
      (handleFinishSynchronization (snd (allocateSRPID 5 PolicyTypeDynamic TEMetric (sampleSession []))))"
    unfolding sampleSession_def
    by (rule rtranclp.rtrancl_into_rtrancl [OF r_into_rtranclp]) (rule session_step.allocate session_step.synced)+
  from session_invariant [OF this] show ?thesis by (simp add: sampleSession_def)
qed

section \<open>Reports and the database\<close>

text \<open>
  The effect of one report on the database and on the synchronization flag. The color and the
  preference of a report depend on the type of the PCC and its capabilities.
\<close>

definition applyReport :: "(StateReport \<Rightarrow> u32 \<times> u32) \<Rightarrow> StateReport \<Rightarrow> policyDB \<times> bool \<Rightarrow> policyDB \<times> bool" where
  "applyReport cp sr dbs =
     (let (db, synced) = dbs; lsp = sr_LSPObject sr in
      if lo_SFlag lsp then (registered (cp sr) sr db, synced)
      else if lo_PlspID lsp = 0 then (db, True)
      else if lo_RFlag lsp then (removed sr db, synced)
      else (registered (cp sr) sr db, synced))"

definition sessionDB :: "Session \<Rightarrow> policyDB \<times> bool" where
  "sessionDB ss = (absDB ss, ss_isSynced ss)"

definition sameReader :: "Session \<Rightarrow> Session \<Rightarrow> bool" where
  "sameReader ss ss' \<longleftrightarrow> ss_ted ss' = ss_ted ss \<and> ss_pccType ss' = ss_pccType ss \<and>
     ss_receivedPccCapabilities ss' = ss_receivedPccCapabilities ss \<and> ss_tcpConn ss' = ss_tcpConn ss"

lemma sameReader_color: "sameReader ss ss' \<Longrightarrow> resolveColorPreference ss' = resolveColorPreference ss"
  by (simp add: sameReader_def resolveColorPreference_def fun_eq_iff)

lemma sameReader_trans: "sameReader a b \<Longrightarrow> sameReader b c \<Longrightarrow> sameReader a c"
  by (simp add: sameReader_def)

lemma register_reader:
  "sameReader ss (snd (RegisterSRPolicy sr ss)) \<and> ss_isSynced (snd (RegisterSRPolicy sr ss)) = ss_isSynced ss \<and>
    fst (RegisterSRPolicy sr ss) \<noteq> panic"
proof -
  have t: "sameReader ss (snd (takeSRPolicyIntent k ss)) \<and> ss_isSynced (snd (takeSRPolicyIntent k ss)) = ss_isSynced ss" for k
    by (simp add: takeSRPolicyIntent_def sameReader_def)
  have p: "fst (RegisterSRPolicy sr ss) \<noteq> panic"
    by (auto simp: RegisterSRPolicy_def updateOrCreatePolicy_def validateSegmentList_def Let_def split: prod.splits option.splits)
  show ?thesis
    by (cases rule: RegisterSRPolicy_forms [of sr ss]) (use t p in \<open>simp_all add: sameReader_def\<close>)
qed

lemma delete_reader:
  "sameReader ss (DeleteSRPolicy sr ss) \<and> ss_isSynced (DeleteSRPolicy sr ss) = ss_isSynced ss"
  by (simp add: DeleteSRPolicy_def forgetSRPolicyIntent_def sameReader_def Let_def split: option.splits)

text \<open>A report that asks for a path: live, unsolicited, and after the synchronization.\<close>

definition delegated :: "StateReport \<Rightarrow> bool" where
  "delegated sr \<longleftrightarrow> \<not> lo_SFlag (sr_LSPObject sr) \<and> lo_PlspID (sr_LSPObject sr) \<noteq> 0 \<and> \<not> lo_RFlag (sr_LSPObject sr) \<and>
     so_SrpID (sr_SrpObject sr) = 0"

lemma handleStateReport_refines:
  assumes "db_ok ss" "ss_ted ss = None \<or> \<not> delegated sr"
  shows "\<exists>r ss'. handleStateReport env sr ss = Some (r, ss') \<and> r \<noteq> panic \<and> db_ok ss' \<and> sameReader ss ss' \<and>
    sessionDB ss' = applyReport (resolveColorPreference ss) sr (sessionDB ss)"
proof -
  let ?lsp = "sr_LSPObject sr"
  have reg: "\<exists>r ss'. registerS sr ss = Some (r, ss') \<and> r \<noteq> panic \<and> db_ok ss' \<and> sameReader ss ss' \<and>
      sessionDB ss' = (registered (resolveColorPreference ss sr) sr (absDB ss), ss_isSynced ss)"
    using RegisterSRPolicy_refines [OF assms(1), of sr] register_reader [of ss sr]
    by (cases "RegisterSRPolicy sr ss") (simp add: registerS_def sessionDB_def)
  have del: "db_ok (DeleteSRPolicy sr ss) \<and> sameReader ss (DeleteSRPolicy sr ss) \<and>
      sessionDB (DeleteSRPolicy sr ss) = (removed sr (absDB ss), ss_isSynced ss)"
    using DeleteSRPolicy_refines [OF assms(1), of sr] delete_reader [of ss sr] by (simp add: sessionDB_def)
  consider "lo_SFlag ?lsp" | "\<not> lo_SFlag ?lsp" "lo_PlspID ?lsp = 0"
    | "\<not> lo_SFlag ?lsp" "lo_PlspID ?lsp \<noteq> 0" "lo_RFlag ?lsp"
    | "\<not> lo_SFlag ?lsp" "lo_PlspID ?lsp \<noteq> 0" "\<not> lo_RFlag ?lsp"
    by blast
  then show ?thesis
  proof cases
    case 1
    then show ?thesis using reg by (simp add: handleStateReport_def handleSynchronization_def applyReport_def sessionDB_def)
  next
    case 2
    then show ?thesis using assms(1)
      by (simp add: handleStateReport_def handleFinishSynchronization_def applyReport_def sessionDB_def absDB_def db_ok_def
          sameReader_def)
  next
    case 3
    then have "handleStateReport env sr ss = Some (Inr (), DeleteSRPolicy sr ss)"
      by (simp add: handleStateReport_def handleStatefulPCERequest_def handleSRPolicyWithPLSPID_def handleReportedSRPolicy_def)
    then show ?thesis using del 3 by (simp add: applyReport_def sessionDB_def)
  next
    case 4
    then have "handleStateReport env sr ss = registerS sr ss"
      using assms(2) by (auto simp: delegated_def handleStateReport_def handleStatefulPCERequest_def handleSRPolicyWithPLSPID_def
          handleReportedSRPolicy_def)
    then show ?thesis using reg 4 by (simp add: applyReport_def sessionDB_def)
  qed
qed

lemma handleReports_refines:
  assumes "db_ok ss" "ss_ted ss = None \<or> list_all (\<lambda>sr. \<not> delegated sr) srs"
  shows "\<exists>ss'. handleReports env srs ss = Some (Inr (), ss') \<and> db_ok ss' \<and> sameReader ss ss' \<and>
    sessionDB ss' = fold (applyReport (resolveColorPreference ss)) srs (sessionDB ss)"
  using assms
proof (induction srs arbitrary: ss)
  case (Cons sr srs)
  have o1: "ss_ted ss = None \<or> \<not> delegated sr" using Cons.prems(2) by auto
  obtain r ss1 where 1: "handleStateReport env sr ss = Some (r, ss1)" "r \<noteq> panic" "db_ok ss1" "sameReader ss ss1"
      "sessionDB ss1 = applyReport (resolveColorPreference ss) sr (sessionDB ss)"
    using handleStateReport_refines [OF Cons.prems(1) o1] by blast
  have "ss_ted ss1 = None \<or> list_all (\<lambda>sr. \<not> delegated sr) srs" using 1(4) Cons.prems(2) by (auto simp: sameReader_def)
  from Cons.IH [OF 1(3) this] obtain ss' where 2: "handleReports env srs ss1 = Some (Inr (), ss')" "db_ok ss'" "sameReader ss1 ss'"
      "sessionDB ss' = fold (applyReport (resolveColorPreference ss)) srs (sessionDB ss1)"
    by (auto simp: sameReader_color [OF 1(4)])
  have "handleReports env (sr # srs) ss = Some (Inr (), ss')"
    using 1(1,2) 2(1) by (auto split: sum.split failure.split)
  then show ?case using 1(5) 2 sameReader_trans [OF 1(4) 2(3)] by simp
qed (simp add: sameReader_def)

section \<open>From the wire to the database\<close>

lemma connRead_chunk:
  assumes "\<not> tcp_closed (ss_tcpConn ss)" "tcp_in (ss_tcpConn ss) = pre @ chunk # rest" "list_all (\<lambda>c. c = []) pre"
    and "chunk \<noteq> []" "length chunk \<le> n"
  shows "connRead n ss = Some (Inr (chunk @ makeBytes (n - length chunk)),
    ss\<lparr>ss_tcpConn := (ss_tcpConn ss)\<lparr>tcp_in := [] # rest\<rparr>\<rparr>)"
proof -
  have "dropWhile (\<lambda>c. c = []) (pre @ chunk # rest) = chunk # rest"
    using assms(3,4) by (subst dropWhile_append2) (auto simp: list_all_iff)
  moreover have "0 < n" using assms(4,5) by (metis length_greater_0_conv less_le_trans)
  ultimately show ?thesis using assms by (simp add: connRead_def min_def)
qed

text \<open>The header of a PCRpt message that announces \<open>n\<close> bytes after it.\<close>

definition pcrptHeader :: "nat \<Rightarrow> bytes" where
  "pcrptHeader n = CommonHeader_Serialize (NewCommonHeader MessageTypeReport (word_of_nat (4 + n)))"

lemma receiveTurn_report:
  assumes "\<not> tcp_closed (ss_tcpConn ss)" "tcp_in (ss_tcpConn ss) = pcrptHeader n # rest"
  shows "receiveTurn env ss = bindS (handlePCRpt env (word_of_nat (4 + n))) (\<lambda>_. returnS (Inr True))
    (ss\<lparr>ss_tcpConn := (ss_tcpConn ss)\<lparr>tcp_in := [] # rest\<rparr>\<rparr>)"
proof -
  have l: "length (pcrptHeader n) = 4" by (simp add: pcrptHeader_def)
  then have "connRead 4 ss = Some (Inr (pcrptHeader n), ss\<lparr>ss_tcpConn := (ss_tcpConn ss)\<lparr>tcp_in := [] # rest\<rparr>\<rparr>)"
    using connRead_chunk [of ss "[]" "pcrptHeader n" rest 4] assms by force
  moreover have "CommonHeader_DecodeFromBytes (pcrptHeader n) = Inr (NewCommonHeader MessageTypeReport (word_of_nat (4 + n)))"
    using NewCommonHeader_read [of _ _ "[]"] by (simp add: pcrptHeader_def)
  ultimately have "readCommonHeader ss = Some (Inr (NewCommonHeader MessageTypeReport (word_of_nat (4 + n))),
      ss\<lparr>ss_tcpConn := (ss_tcpConn ss)\<lparr>tcp_in := [] # rest\<rparr>\<rparr>)"
    by (simp add: readCommonHeader_def bindS_ok)
  then show ?thesis
    by (simp add: receiveTurn_def bindS_ok NewCommonHeader_def)
qed

lemma report_body_length:
  "n < 65532 \<Longrightarrow> unat ((word_of_nat (4 + n) :: u16) - word_of_nat CommonHeaderLength) = n"
  by (simp add: take_bit_nat_eq_self unat_of_nat)

lemma handlePCRpt_body:
  assumes "n < 65532" "connRead n ss = Some (Inr body, ss1)"
    and "PCRptMessage_DecodeFromBytes NewPCRptMessage body = Some (Inr \<lparr>prm_StateReports = srs\<rparr>)"
  shows "handlePCRpt env (word_of_nat (4 + n)) ss = handleReports env srs ss1"
  unfolding handlePCRpt_def report_body_length [OF assms(1)] by (simp add: bindS_def assms(2,3))

text \<open>
  C4: A PCRpt message that arrives whole updates the database exactly as its reports say: for any
  number of reports with any objects in any order, one turn of the receive loop consumes the message,
  reports no error, and leaves the database and the synchronization flag that result from applying the
  reports one by one to what they were. This holds of every message when the session has no TED, and with a
  TED of every message without a report that asks for a path (for such a report, the
  computed path is stored instead of the reported one, see theory Session_Requests).
\<close>

theorem PCRpt_updates_database:
  assumes "db_ok ss" "ss_ted ss = None \<or> list_all (\<lambda>w. \<not> delegated (reportOf w)) ws" "\<not> tcp_closed (ss_tcpConn ss)"
    and "list_all wireReport_ok ws" "mapE encodeWire ws = Inr bss" "length (concat bss) < 65532"
    and "tcp_in (ss_tcpConn ss) = pcrptHeader (length (concat bss)) # concat bss # rest"
  shows "\<exists>ss'. receiveTurn env ss = Some (Inr True, ss') \<and> db_ok ss' \<and>
    sessionDB ss' = fold (applyReport (resolveColorPreference ss)) (map reportOf ws) (sessionDB ss) \<and>
    concat (tcp_in (ss_tcpConn ss')) = concat rest"
proof -
  let ?ss = "\<lambda>xs. ss\<lparr>ss_tcpConn := (ss_tcpConn ss)\<lparr>tcp_in := xs\<rparr>\<rparr>" and ?srs = "map reportOf ws"
  note d = wires_decoded [OF assms(4,5)]
  obtain xs where xs: "connRead (length (concat bss)) (?ss ([] # concat bss # rest)) = Some (Inr (concat bss), ?ss xs)"
    "concat xs = concat rest"
  proof (cases "concat bss = []")
    case True
    then show ?thesis using assms(3) that [of "[] # concat bss # rest"] by (simp add: connRead_def)
  next
    case False
    show ?thesis
      using connRead_chunk [of "?ss ([] # concat bss # rest)" "[[]]" "concat bss" rest "length (concat bss)"]
        that [of "[] # rest"] assms(3) False by simp
  qed
  have "db_ok (?ss xs)" "ss_ted (?ss xs) = None \<or> list_all (\<lambda>sr. \<not> delegated sr) ?srs"
    using assms(1,2) by (auto simp: db_ok_def list_all_iff)
  then obtain ss' where h: "handleReports env ?srs (?ss xs) = Some (Inr (), ss')" "db_ok ss'" "sameReader (?ss xs) ss'"
      "sessionDB ss' = fold (applyReport (resolveColorPreference (?ss xs))) ?srs (sessionDB (?ss xs))"
    using handleReports_refines by blast
  have "resolveColorPreference (?ss xs) = resolveColorPreference ss" "sessionDB (?ss xs) = sessionDB ss"
    by (simp_all add: resolveColorPreference_def sessionDB_def absDB_def fun_eq_iff)
  moreover have "receiveTurn env ss = Some (Inr True, ss')"
    using receiveTurn_report [OF assms(3,7)] handlePCRpt_body [OF assms(6) xs(1) d, of env] h(1)
    by (simp add: bindS_ok)
  moreover have "concat (tcp_in (ss_tcpConn ss')) = concat rest" using h(3) xs(2) by (simp add: sameReader_def)
  ultimately show ?thesis using h(2,4) by auto
qed

lemma sample_encoding: "\<exists>bss. mapE encodeReport sample_reports = Inr bss \<and> concat bss \<noteq> [] \<and> length (concat bss) < 100"
proof -
  let ?srp = "\<lparr>so_ObjectType = 1, so_RFlag = False, so_SrpID = 9, so_TLVs = []\<rparr>"
  let ?ero = "\<lparr>ero_ObjectType = 1, ero_EroSubobjects = [EroRSVP
    \<lparr>rsvp_LFlag = False, rsvp_SubobjectType = 1, rsvp_Length = 8, rsvp_Address = Addr4 0x0A000001, rsvp_PrefixLen = 32\<rparr>]\<rparr>"
  have nz: "?srp \<noteq> SrpObject_zero" "?ero \<noteq> EroObject_zero" by (simp_all add: SrpObject_zero_def EroObject_zero_def)
  have ok: "LSPObject_ok sample_lsp" "SrpObject_ok ?srp" "EroObject_ok ?ero"
    using sample_reports_ok nz by (auto simp: sample_reports_def report_ok_def NewStateReport_def)
  obtain b1 b2 b3 where b: "LSPObject_Serialize sample_lsp = Inr b1" "SrpObject_Serialize ?srp = Inr b2"
      "EroObject_Serialize ?ero = Inr b3"
    using lsp_object.serialize_total [OF ok(1)] srp_object.serialize_total [OF ok(2)] ero_object.serialize_total [OF ok(3)]
    by blast
  have "unat (LSPObject_Len sample_lsp) = 16"
    by (simp add: sample_lsp_def LSPObject_Len_def LSPObject_zero_def SymbolicPathName_Len_def tlvsByteLength_def tlv_consts)
  moreover have "unat (SrpObject_Len ?srp) = 12" by (simp add: SrpObject_Len_def tlvsByteLength_def)
  moreover have "unat (ero_len ?ero) = 12" by (simp add: ero_len_def EroObject_Len_def RSVPIPv4PrefixEroSubobject_Len_def)
  ultimately have "length b1 = 16" "length b2 = 12" "length b3 = 12"
    using lsp_object.serialized(1) [OF ok(1) b(1)] srp_object.serialized(1) [OF ok(2) b(2)]
      ero_object.serialized(1) [OF ok(3) b(3)] by simp_all
  then show ?thesis
    using nz by (auto simp: sample_reports_def encodeReport_def present_def NewStateReport_def b)
qed

lemma sampleWires_encoding: "\<exists>bss. mapE encodeWire sampleWires = Inr bss \<and> length (concat bss) < 65532"
proof -
  have ok: "LSPObject_ok sample_lsp" "SrpObject_ok sampleSrp" "EroObject_ok sampleEro"
    using sampleWires_ok by (auto simp: sampleWires_def wireReport_ok_def)
  obtain b1 b2 b3 where b: "LSPObject_Serialize sample_lsp = Inr b1" "SrpObject_Serialize sampleSrp = Inr b2"
      "EroObject_Serialize sampleEro = Inr b3"
    using lsp_object.serialize_total [OF ok(1)] srp_object.serialize_total [OF ok(2)] ero_object.serialize_total [OF ok(3)]
    by blast
  have "unat (LSPObject_Len sample_lsp) = 16"
    by (simp add: sample_lsp_def LSPObject_Len_def LSPObject_zero_def SymbolicPathName_Len_def tlvsByteLength_def tlv_consts)
  moreover have "unat (SrpObject_Len sampleSrp) = 12" by (simp add: sampleSrp_def SrpObject_Len_def tlvsByteLength_def)
  moreover have "unat (ero_len sampleEro) = 12"
    by (simp add: sampleEro_def ero_len_def EroObject_Len_def RSVPIPv4PrefixEroSubobject_Len_def)
  ultimately have "length b1 = 16" "length b2 = 12" "length b3 = 12"
    using lsp_object.serialized(1) [OF ok(1) b(1)] srp_object.serialized(1) [OF ok(2) b(2)]
      ero_object.serialized(1) [OF ok(3) b(3)] by simp_all
  then show ?thesis
    by (simp add: sampleWires_def encodeWire_def b metricWire_def bandwidthWire_def)
qed

lemma PCRpt_updates_database_witness:
  "\<exists>bss ss'. receiveTurn sampleEnv (sampleSession [pcrptHeader (length (concat bss)), concat bss]) = Some (Inr True, ss') \<and>
    sessionDB ss' = fold (applyReport (resolveColorPreference (sampleSession []))) (map reportOf sampleWires)
      ((Map.empty, Map.empty), False)"
proof -
  obtain bss where b: "mapE encodeWire sampleWires = Inr bss" "length (concat bss) < 65532"
    using sampleWires_encoding by force
  let ?ss = "sampleSession [pcrptHeader (length (concat bss)), concat bss]"
  have "db_ok ?ss" "ss_ted ?ss = None" "\<not> tcp_closed (ss_tcpConn ?ss)"
    "tcp_in (ss_tcpConn ?ss) = pcrptHeader (length (concat bss)) # concat bss # []"
    by (simp_all add: sampleSession_def NewSession_def sampleConn_def db_ok_def)
  note t = PCRpt_updates_database [OF this(1) disjI1 [OF this(2)] this(3) sampleWires_ok b this(4), of sampleEnv]
  have "sessionDB ?ss = ((Map.empty, Map.empty), False)" "resolveColorPreference ?ss = resolveColorPreference (sampleSession [])"
    by (simp_all add: sampleSession_def NewSession_def sessionDB_def absDB_def policyMap_def resolveColorPreference_def fun_eq_iff)
  with t show ?thesis by auto
qed

lemma reports_before:
  assumes "list_all report_ok rs" "mapE encodeReport rs = Inr bss" "prev \<noteq> ObjectClassSRP"
  shows "\<exists>prev' sr' reports'. pcrptLoop (prev, sr, reports, concat bss @ rest) = pcrptLoop (prev', sr', reports', rest)"
  using assms
proof (induction rs arbitrary: bss prev sr reports)
  case (Cons r rs)
  then obtain bs bss' where b: "encodeReport r = Inr bs" "mapE encodeReport rs = Inr bss'" "bss = bs # bss'"
    by (auto simp: bindE_eq_Inr)
  have r: "report_ok r" "list_all report_ok rs" using Cons.prems(1) by simp_all
  obtain prev' where p: "prev' \<noteq> ObjectClassSRP" "pcrptLoop (prev, sr, reports, bs @ concat bss' @ rest) =
      pcrptLoop (prev', Some r, close_report sr reports, concat bss' @ rest)"
    using report_step [OF r(1) b(1) Cons.prems(3), of sr reports "concat bss' @ rest"] by blast
  then show ?case using Cons.IH [OF r(2) b(2) p(1)] by (simp add: b(3))
qed auto

lemma zeros_stall:
  assumes "4 \<le> n"
  shows "pcrptLoop (prev, sr, reports, makeBytes n) = None"
proof -
  have "makeBytes n = makeBytes 4 @ makeBytes (n - 4)"
    using makeBytes_add [of 4 "n - 4"] by (simp only: le_add_diff_inverse [OF assms])
  then have "makeBytes n = 0 # 0 # be16 0 @ makeBytes (n - 4)"
    by (simp add: be16_0) (simp add: makeBytes_def numeral_eq_Suc)
  then show ?thesis
    using pcrptLoop_stalls CommonObjectHeader_decode_bytes [of 0 0 0 "makeBytes (n - 4)"]
    by (simp add: decodeFuncs_def)
qed

text \<open>
  C31: A PCRpt message that does not arrive whole is not waited for: \<open>handlePCRpt\<close> reads what is there
  and takes the bytes that are missing for zeros. When at least four bytes are still under way after
  complete reports, the decoder takes the zeros for an object of length 0, and the turn of the
  receive loop never ends.
\<close>

theorem PCRpt_short_read_hangs:
  assumes "\<not> tcp_closed (ss_tcpConn ss)" "list_all report_ok srs" "mapE encodeReport srs = Inr bss"
    and "concat bss \<noteq> []" "4 \<le> length later" "length (concat bss @ later) < 65532"
    and "tcp_in (ss_tcpConn ss) = [pcrptHeader (length (concat bss @ later)), concat bss, later]"
  shows "receiveTurn env ss = None"
proof -
  let ?n = "length (concat bss @ later)"
  let ?ss = "ss\<lparr>ss_tcpConn := (ss_tcpConn ss)\<lparr>tcp_in := [[], concat bss, later]\<rparr>\<rparr>"
  obtain ss1 where r: "connRead ?n ?ss = Some (Inr (concat bss @ makeBytes (length later)), ss1)"
    using connRead_chunk [of ?ss "[[]]" "concat bss" "[later]" ?n] assms(1,4) by simp
  obtain p sr reps where "pcrptLoop (0, None, [], concat bss @ makeBytes (length later)) = pcrptLoop (p, sr, reps, makeBytes (length later))"
    using reports_before [OF assms(2,3), of 0 None "[]" "makeBytes (length later)"] by auto
  then have "PCRptMessage_DecodeFromBytes NewPCRptMessage (concat bss @ makeBytes (length later)) = None"
    using zeros_stall [OF assms(5)] by (simp add: PCRptMessage_DecodeFromBytes_def NewPCRptMessage_def)
  then have "handlePCRpt env (word_of_nat (4 + ?n)) ?ss = None"
    unfolding handlePCRpt_def report_body_length [OF assms(6)] using r by (simp add: bindS_def)
  then show ?thesis
    using receiveTurn_report [OF assms(1,7)] by (simp add: bindS_def)
qed

lemma PCRpt_short_read_hangs_witness:
  "\<exists>bss. receiveTurn sampleEnv (sampleSession [pcrptHeader (length (concat bss @ [7, 0x10, 0, 4])), concat bss,
    [7, 0x10, 0, 4]]) = None"
proof -
  obtain bss where b: "mapE encodeReport sample_reports = Inr bss" "concat bss \<noteq> []" "length (concat bss) < 100"
    using sample_encoding by force
  have "receiveTurn sampleEnv (sampleSession [pcrptHeader (length (concat bss @ [7, 0x10, 0, 4])), concat bss,
      [7, 0x10, 0, 4]]) = None"
    by (rule PCRpt_short_read_hangs [OF _ sample_reports_ok b(1,2), where later = "[7, 0x10, 0, 4]"])
      (use b(3) in \<open>simp_all add: sampleSession_def NewSession_def sampleConn_def\<close>)
  then show ?thesis ..
qed

end
