(* ===== verification/Session_Requests.thy ===== *)
theory Session_Requests
  imports Session_Props Requests Cspf_Laws
begin

text \<open>
  The requests a session sends: one message and one intent when they succeed, no trace when they
  fail, and the report that answers a request gives the policy the type and metric it was asked for.
\<close>

section \<open>Requests and their intents\<close>

definition intentMap :: "Session \<Rightarrow> u32 \<rightharpoonup> srPolicyIntent" where
  "intentMap ss = map_of (ss_srPolicyIntents ss)"

definition usable :: "Session \<Rightarrow> u32 \<Rightarrow> bool" where
  "usable ss srpID \<longleftrightarrow> srpID \<noteq> 0 \<and> srpID \<noteq> maxUint32 \<and> intentMap ss srpID = None"

text \<open>
  Both requests have one shape: allocate an SRP-ID for the intent, build the message with it, send
  it, and forget the intent when that fails.
\<close>

definition sendRequest :: "nat \<Rightarrow> PolicyType \<Rightarrow> MetricType \<Rightarrow> (u32 \<Rightarrow> Session \<Rightarrow> bytes result) \<Rightarrow> unit step" where
  "sendRequest now t m build =
     bindS (\<lambda>ss. Some (allocateSRPID now t m ss)) (\<lambda>srpID.
     forgetOnError srpID (\<lambda>ss. sendPCEPMessage (build srpID ss) ss))"

lemma sendRequest_spec:
  assumes build: "\<And>srpID ss ss'. ss_pccType ss' = ss_pccType ss \<Longrightarrow> ss_asn ss' = ss_asn ss \<Longrightarrow> build srpID ss' = build srpID ss"
  shows "case sendRequest now t m build ss of
      None \<Rightarrow> False
    | Some (Inr _, ss') \<Rightarrow> \<exists>srpID bs. usable ss srpID \<and> build srpID ss = Inr bs \<and>
        tcp_out (ss_tcpConn ss') = tcp_out (ss_tcpConn ss) @ [bs] \<and>
        intentMap ss' = (intentMap ss)(srpID \<mapsto> \<lparr>in_polType = t, in_metric = m, in_expiresAt = now + ss_srPolicyIntentTTL ss\<rparr>) \<and>
        ss_srPolicies ss' = ss_srPolicies ss \<and> ss_pccType ss' = ss_pccType ss \<and>
        ss_receivedPccCapabilities ss' = ss_receivedPccCapabilities ss
    | Some (Inl e, ss') \<Rightarrow> tcp_out (ss_tcpConn ss') = tcp_out (ss_tcpConn ss) \<and> ss_srPolicies ss' = ss_srPolicies ss \<and>
        (e \<noteq> Panic \<longrightarrow> intentMap ss' = intentMap ss)"
proof -
  obtain r ss1 where a: "allocateSRPID now t m ss = (r, ss1)" by fastforce
  note c = allocateSRPID_cases [where now = now and t = t and m = m and ss = ss, unfolded a]
  show ?thesis
  proof (cases r)
    case (Inl e)
    then show ?thesis using a c by (simp add: sendRequest_def bindS_def)
  next
    case (Inr x)
    let ?i = "\<lparr>in_polType = t, in_metric = m, in_expiresAt = now + ss_srPolicyIntentTTL ss\<rparr>"
    have u: "usable ss x" and ss1: "ss1 = ss\<lparr>ss_srpIDHead := x + 1, ss_srPolicyIntents := AList.update x ?i (ss_srPolicyIntents ss)\<rparr>"
      using c Inr by (auto simp: usable_def intentMap_def srPolicyIntentExists_def)
    have i1: "intentMap ss1 = (intentMap ss)(x \<mapsto> ?i)" by (simp add: intentMap_def ss1 update_conv')
    have b: "build x ss1 = build x ss" by (rule build) (simp_all add: ss1)
    have f: "intentMap (forgetSRPolicyIntent x ss1) = intentMap ss"
      using u i1 by (auto simp: forgetSRPolicyIntent_def usable_def intentMap_def delete_conv' fun_eq_iff)
    have g: "ss_tcpConn (forgetSRPolicyIntent x ss1) = ss_tcpConn ss" "ss_srPolicies (forgetSRPolicyIntent x ss1) = ss_srPolicies ss"
      by (simp_all add: forgetSRPolicyIntent_def ss1)
    have s: "sendRequest now t m build ss = forgetOnError x (\<lambda>ss. sendPCEPMessage (build x ss) ss) ss1"
      using a Inr by (simp add: sendRequest_def bindS_def)
    show ?thesis
    proof (cases "build x ss")
      case (Inl e)
      then have "sendRequest now t m build ss = Some (Inl e, if e = Panic then ss1 else forgetSRPolicyIntent x ss1)"
        by (cases e) (simp_all add: s forgetOnError_def sendPCEPMessage_def bindS_def b)
      moreover have "ss_tcpConn ss1 = ss_tcpConn ss" "ss_srPolicies ss1 = ss_srPolicies ss" by (simp_all add: ss1)
      ultimately show ?thesis using f g by simp
    next
      case (Inr bs)
      show ?thesis
      proof (cases "tcp_closed (ss_tcpConn ss) \<or> \<not> tcp_writable (ss_tcpConn ss)")
        case True
        then have "sendRequest now t m build ss = Some (errorf ''write failed'' [], forgetSRPolicyIntent x ss1)"
          using Inr by (simp add: s forgetOnError_def sendPCEPMessage_def bindS_def b connWrite_def) (simp add: ss1)
        then show ?thesis using f g by simp
      next
        case False
        let ?ss' = "ss1\<lparr>ss_tcpConn := (ss_tcpConn ss1)\<lparr>tcp_out := tcp_out (ss_tcpConn ss1) @ [bs]\<rparr>\<rparr>"
        from False have "sendRequest now t m build ss = Some (Inr (), ?ss')"
          using Inr by (simp add: s forgetOnError_def sendPCEPMessage_def bindS_def b connWrite_def) (simp add: ss1 Let_def)
        moreover have "intentMap ?ss' = (intentMap ss)(x \<mapsto> ?i)" using i1 by (simp add: intentMap_def)
        ultimately show ?thesis using u Inr by (auto simp: ss1)
      qed
    qed
  qed
qed

definition pcinitiateBytes :: "SRPolicy \<Rightarrow> bool \<Rightarrow> u32 \<Rightarrow> Session \<Rightarrow> bytes result" where
  "pcinitiateBytes p del srpID ss =
     bindE (NewPCInitiateMessage srpID (pol_Name p) del (pol_PlspID p) (map Some (pol_SegmentList p)) (pol_Color p)
       (pol_Preference p) (pol_SrcAddr p) (pol_DstAddr p) [VendorSpecific (ss_pccType ss), OriginatorASN (ss_asn ss)])
     PCInitiateMessage_Serialize"

definition pcupdBytes :: "SRPolicy \<Rightarrow> u32 \<Rightarrow> bytes result" where
  "pcupdBytes p srpID =
     bindE (NewPCUpdMessage srpID (pol_Name p) (pol_PlspID p) (map Some (pol_SegmentList p))) PCUpdMessage_Serialize"

lemma bindS_return_send:
  "bindS (returnS r) (\<lambda>x. sendPCEPMessage (g x)) = sendPCEPMessage (bindE r g)"
  by (cases r) (simp_all add: sendPCEPMessage_def)

lemma SendPCInitiate_eq: "SendPCInitiate now p del = sendRequest now (pol_Type p) (pol_Metric p) (pcinitiateBytes p del)"
  unfolding SendPCInitiate_def sendRequest_def pcinitiateBytes_def [abs_def] bindS_return_send ..

lemma SendPCUpdate_eq: "SendPCUpdate now p = sendRequest now (pol_Type p) (pol_Metric p) (\<lambda>srpID _. pcupdBytes p srpID)"
  unfolding SendPCUpdate_def sendRequest_def pcupdBytes_def bindS_return_send ..

section \<open>A request and the report that answers it\<close>

text \<open>
  A report that takes effect: it has segments, and its PLSP-ID is either new, with addresses for the
  policy, or belongs to a policy whose LSP-ID is not newer.
\<close>

definition effective :: "Session \<Rightarrow> StateReport \<Rightarrow> bool" where
  "effective ss sr \<longleftrightarrow> ToSegmentList (sr_EroObject sr) \<noteq> [] \<and>
     (case policyMap (ss_srPolicies ss) (lo_PlspID (sr_LSPObject sr)) of
        None \<Rightarrow> IsValid (reportSrc sr) \<and> IsValid (reportDst sr)
      | Some q \<Rightarrow> pol_LSPID q \<le> lo_LSPID (sr_LSPObject sr))"

lemma RegisterSRPolicy_effective:
  assumes "db_ok ss" "effective ss sr"
  shows "\<exists>q. policyMap (ss_srPolicies (snd (RegisterSRPolicy sr ss))) (lo_PlspID (sr_LSPObject sr)) =
      Some (withIntent (intentOf (intentMap ss) (so_SrpID (sr_SrpObject sr))) q) \<and>
    pol_PlspID q = lo_PlspID (sr_LSPObject sr) \<and> pol_Name q = lo_Name (sr_LSPObject sr) \<and>
    pol_SegmentList q = ToSegmentList (sr_EroObject sr) \<and>
    intentMap (snd (RegisterSRPolicy sr ss)) = dropIntent (so_SrpID (sr_SrpObject sr)) (intentMap ss)"
proof -
  have a: "absDB ss = (policyMap (ss_srPolicies ss), intentMap ss)" for ss
    by (simp add: absDB_def intentMap_def)
  have k: "pol_PlspID q = k" if "policyMap (ss_srPolicies ss) k = Some q" for k q
    using that policyMap_distinct assms(1) by (simp add: db_ok_def)
  show ?thesis
    using RegisterSRPolicy_refines [OF assms(1), of sr] assms(2) k [of "lo_PlspID (sr_LSPObject sr)"]
    by (auto simp: a registered_def effective_def Let_def updated_def created_def NewSRPolicy_def split: option.splits)
qed

lemma RegisterSRPolicy_effective_ok:
  assumes "effective ss sr"
  shows "fst (RegisterSRPolicy sr ss) = Inr ()"
proof -
  obtain c q where cq: "resolveColorPreference ss sr = (c, q)" by fastforce
  show ?thesis
  proof (cases "searchSRPolicyLocked (lo_PlspID (sr_LSPObject sr)) (ss_srPolicies ss)")
    case None
    then have "policyMap (ss_srPolicies ss) (lo_PlspID (sr_LSPObject sr)) = None" by (simp add: search_None policyMap_None)
    with None assms have "ToSegmentList (sr_EroObject sr) \<noteq> [] \<and> IsValid (reportSrc sr) \<and> IsValid (reportDst sr)"
      by (simp add: effective_def)
    with None show ?thesis
      by (simp add: RegisterSRPolicy_def updateOrCreatePolicy_def validateSegmentList_def cq Let_def applyIntent_eq
          reportSrc_def reportDst_def)
  next
    case (Some i)
    with search_Some [OF Some] assms show ?thesis
      by (simp add: RegisterSRPolicy_def updateOrCreatePolicy_def validateSegmentList_def cq Let_def applyIntent_eq
          effective_def)
  qed
qed

text \<open>The report \<open>sr\<close> gives its policy the type and the metric of the request \<open>p\<close>.\<close>

definition answers :: "Session \<Rightarrow> StateReport \<Rightarrow> SRPolicy \<Rightarrow> bool" where
  "answers ss sr p \<longleftrightarrow> (case policyMap (ss_srPolicies (snd (RegisterSRPolicy sr ss))) (lo_PlspID (sr_LSPObject sr)) of
      None \<Rightarrow> False
    | Some q \<Rightarrow> pol_Type q = pol_Type p \<and> pol_Metric q = pol_Metric p) \<and>
    intentMap (snd (RegisterSRPolicy sr ss)) (so_SrpID (sr_SrpObject sr)) = None"

lemma effective_answers:
  assumes "db_ok ss" "effective ss sr" "so_SrpID (sr_SrpObject sr) = x" "x \<noteq> 0"
    and "intentMap ss x = Some i" "in_polType i = pol_Type p" "in_metric i = pol_Metric p"
  shows "answers ss sr p"
  using RegisterSRPolicy_effective [OF assms(1,2)] assms(3-)
  by (auto simp: answers_def intentOf_def dropIntent_def withIntent_def)

definition writable :: "Session \<Rightarrow> bool" where
  "writable ss \<longleftrightarrow> tcp_writable (ss_tcpConn ss) \<and> \<not> tcp_closed (ss_tcpConn ss)"

lemma sendRequest_succeeds:
  assumes "writable ss" "usable ss x" "\<And>srpID. \<exists>bs. build srpID ss = Inr bs"
    and build: "\<And>srpID ss ss'. ss_pccType ss' = ss_pccType ss \<Longrightarrow> ss_asn ss' = ss_asn ss \<Longrightarrow> build srpID ss' = build srpID ss"
  shows "\<exists>ss'. sendRequest now t m build ss = Some (Inr (), ss')"
proof -
  obtain r ss1 where a: "allocateSRPID now t m ss = (r, ss1)" by fastforce
  note c = allocateSRPID_cases [where now = now and t = t and m = m and ss = ss, unfolded a]
  have "x \<le> maxUint32" using unat_u32_less [of x] by (simp add: word_le_nat_alt maxUint32_def)
  then have x: "x \<noteq> 0" "x < maxUint32" "\<not> srPolicyIntentExists ss x"
    using assms(2)
    by (auto simp: usable_def srPolicyIntentExists_def intentMap_def order_less_le)
  with c obtain y where y: "r = Inr y" by (cases r) auto
  with c have s: "ss_pccType ss1 = ss_pccType ss" "ss_asn ss1 = ss_asn ss" "ss_tcpConn ss1 = ss_tcpConn ss" by auto
  obtain bs where "build y ss = Inr bs" using assms(3) by blast
  then have "build y ss1 = Inr bs" using build [OF s(1,2)] by simp
  then show ?thesis
    using a y assms(1) s(3) by (simp add: sendRequest_def bindS_def forgetOnError_def sendPCEPMessage_def connWrite_def
        writable_def Let_def)
qed

lemma pcinitiateBytes_build:
  "ss_pccType ss' = ss_pccType ss \<Longrightarrow> ss_asn ss' = ss_asn ss \<Longrightarrow> pcinitiateBytes p del x ss' = pcinitiateBytes p del x ss"
  by (simp add: pcinitiateBytes_def)

text \<open>
  C8: A request to create a policy reaches the PCC and comes back with its intent. On a writable
  session with an SRP-ID left, for a policy with at most 900 encodable segments, a name of at most
  1000 valid UTF-8 bytes and addresses the PCC type can carry, exactly one message is written: a
  PCInitiate whose objects, read back, hold the segment list, the name and an SRP-ID that is neither
  reserved nor under way. Type and metric of the policy are remembered under that SRP-ID, and every
  report with that SRP-ID that takes effect gives its policy this type and metric, and ends the intent.
\<close>

theorem SendPCInitiate_request:
  assumes "db_ok ss" "writable ss" "usable ss x" "segments_ok (pol_SegmentList p)" "name_ok (pol_Name p)"
    and "assoc_addrs_ok (ss_pccType ss) (pol_SrcAddr p) (pol_DstAddr p)"
  shows "\<exists>ss' bs h r. SendPCInitiate now p False ss = Some (Inr (), ss') \<and>
    tcp_out (ss_tcpConn ss') = tcp_out (ss_tcpConn ss) @ [bs] \<and>
    CommonHeader_DecodeFromBytes (take 4 bs) = Inr h \<and> ch_MessageType h = MessageTypeLSPInitReq \<and>
    unat (ch_MessageLength h) = length bs \<and>
    PCRptMessage_DecodeFromBytes NewPCRptMessage (drop 4 bs) = Some (Inr \<lparr>prm_StateReports = [r]\<rparr>) \<and>
    ToSegmentList (sr_EroObject r) = pol_SegmentList p \<and> lo_Name (sr_LSPObject r) = pol_Name p \<and>
    usable ss (so_SrpID (sr_SrpObject r)) \<and> ss_srPolicies ss' = ss_srPolicies ss \<and>
    (\<forall>sr. so_SrpID (sr_SrpObject sr) = so_SrpID (sr_SrpObject r) \<longrightarrow> effective ss' sr \<longrightarrow> answers ss' sr p)"
proof -
  have b: "\<exists>bs h r. pcinitiateBytes p False srpID ss = Inr bs \<and>
      CommonHeader_DecodeFromBytes (take 4 bs) = Inr h \<and> ch_MessageType h = MessageTypeLSPInitReq \<and>
      unat (ch_MessageLength h) = length bs \<and>
      PCRptMessage_DecodeFromBytes NewPCRptMessage (drop 4 bs) = Some (Inr \<lparr>prm_StateReports = [r]\<rparr>) \<and>
      so_SrpID (sr_SrpObject r) = srpID \<and> lo_Name (sr_LSPObject r) = pol_Name p \<and>
      ToSegmentList (sr_EroObject r) = pol_SegmentList p" for srpID
    using PCInitiate_request [OF assms(4-6), of srpID "pol_PlspID p" "pol_Color p" "pol_Preference p" "ss_asn ss"]
    by (auto simp: pcinitiateBytes_def)
  then have e: "\<exists>bs. pcinitiateBytes p False srpID ss = Inr bs" for srpID by blast
  obtain ss' where s: "sendRequest now (pol_Type p) (pol_Metric p) (pcinitiateBytes p False) ss = Some (Inr (), ss')"
    using sendRequest_succeeds [where build = "pcinitiateBytes p False", OF assms(2,3) e pcinitiateBytes_build] by blast
  from sendRequest_spec [where now = now and t = "pol_Type p" and m = "pol_Metric p" and ss = ss and
      build = "pcinitiateBytes p False", OF pcinitiateBytes_build, simplified s option.case prod.case sum.case]
  obtain y bs where y: "usable ss y" "pcinitiateBytes p False y ss = Inr bs"
      "tcp_out (ss_tcpConn ss') = tcp_out (ss_tcpConn ss) @ [bs]"
      "intentMap ss' = (intentMap ss)(y \<mapsto> \<lparr>in_polType = pol_Type p, in_metric = pol_Metric p,
         in_expiresAt = now + ss_srPolicyIntentTTL ss\<rparr>)"
      "ss_srPolicies ss' = ss_srPolicies ss"
    by blast
  have "db_ok ss'" using assms(1) y(5) by (simp add: db_ok_def)
  moreover have "y \<noteq> 0" using y(1) by (simp add: usable_def)
  ultimately have "answers ss' sr p" if "so_SrpID (sr_SrpObject sr) = y" "effective ss' sr" for sr
    using effective_answers [OF _ that(2,1)] y(4) by simp
  then have a: "\<forall>sr. so_SrpID (sr_SrpObject sr) = y \<longrightarrow> effective ss' sr \<longrightarrow> answers ss' sr p" by blast
  obtain bs' h r where r: "pcinitiateBytes p False y ss = Inr bs'"
      "CommonHeader_DecodeFromBytes (take 4 bs') = Inr h" "ch_MessageType h = MessageTypeLSPInitReq"
      "unat (ch_MessageLength h) = length bs'"
      "PCRptMessage_DecodeFromBytes NewPCRptMessage (drop 4 bs') = Some (Inr \<lparr>prm_StateReports = [r]\<rparr>)"
      "so_SrpID (sr_SrpObject r) = y" "lo_Name (sr_LSPObject r) = pol_Name p"
      "ToSegmentList (sr_EroObject r) = pol_SegmentList p"
    using b [of y] by blast
  have "bs' = bs" using r(1) y(2) by simp
  show ?thesis
    unfolding SendPCInitiate_eq
    by (intro exI [of _ ss'] exI [of _ bs] exI [of _ h] exI [of _ r] conjI)
      (use r y s a \<open>bs' = bs\<close> in simp_all)
qed

definition cleanFailure :: "Session \<Rightarrow> (unit result \<times> Session) option \<Rightarrow> bool" where
  "cleanFailure ss res = (case res of
      None \<Rightarrow> False
    | Some (r, ss') \<Rightarrow> (case r of
          Inl (Err e) \<Rightarrow> tcp_out (ss_tcpConn ss') = tcp_out (ss_tcpConn ss) \<and>
            ss_srPolicies ss' = ss_srPolicies ss \<and> intentMap ss' = intentMap ss
        | _ \<Rightarrow> True))"

lemma sendRequest_clean:
  assumes "\<And>srpID ss ss'. ss_pccType ss' = ss_pccType ss \<Longrightarrow> ss_asn ss' = ss_asn ss \<Longrightarrow> build srpID ss' = build srpID ss"
  shows "cleanFailure ss (sendRequest now t m build ss)"
  using sendRequest_spec [where now = now and t = t and m = m and ss = ss and build = build, OF assms]
  by (auto simp: cleanFailure_def split: option.splits sum.splits failure.splits)

text \<open>
  A request never hangs, and one that fails with an error leaves no trace: nothing is written, and
  the policies and intents of the session are what they were.
\<close>

theorem requests_fail_clean:
  "cleanFailure ss (SendPCInitiate now p del ss) \<and> cleanFailure ss (SendPCUpdate now p ss)"
  unfolding SendPCInitiate_eq SendPCUpdate_eq
  by (intro conjI sendRequest_clean) (simp_all add: pcinitiateBytes_def)

section \<open>Paths computed for a PCC\<close>

lemma eroOfSegment_ok: "segment_ok s \<Longrightarrow> List.map_filter EroSubobject_ToSegment (eroOfSegment s) = [s]"
proof (cases s)
  case (SRMPLS v)
  then show "segment_ok s \<Longrightarrow> ?thesis" using NewSREroSubobject_ok [of v] by (auto simp: map_filter_simps)
next
  case (SRv6 v)
  then show "segment_ok s \<Longrightarrow> ?thesis" using NewSRv6EroSubobject_ok [of v] by (auto simp: map_filter_simps)
qed

lemma map_filter_append: "List.map_filter f (xs @ ys) = List.map_filter f xs @ List.map_filter f ys"
  by (simp add: List.map_filter_def)

lemma createEroFromSegmentList_segments:
  "list_all segment_ok segs \<Longrightarrow> ToSegmentList (createEroFromSegmentList segs) = segs"
  unfolding ToSegmentList_def createEroFromSegmentList_def
  by (induction segs) (auto simp: map_filter_append eroOfSegment_ok map_filter_simps)

lemma SearchSRPolicy_map: "SearchSRPolicy ss k = policyMap (ss_srPolicies ss) k"
proof (cases "searchSRPolicyLocked k (ss_srPolicies ss)")
  case None
  then have "policyMap (ss_srPolicies ss) k = None" by (simp add: search_None policyMap_None)
  with None show ?thesis by (simp add: SearchSRPolicy_def)
qed (auto simp: SearchSRPolicy_def dest: search_Some)

text \<open>An update request for a policy with encodable segments is written, with a fresh SRP-ID.\<close>

lemma SendPCUpdate_sends:
  assumes "writable ss" "usable ss x" "segments_ok (pol_SegmentList q)" "name_ok (pol_Name q)" "pol_PlspID q < 2 ^ 20"
  obtains ss' bs h r where "SendPCUpdate now q ss = Some (Inr (), ss')" "ss_srPolicies ss' = ss_srPolicies ss"
    "tcp_out (ss_tcpConn ss') = tcp_out (ss_tcpConn ss) @ [bs]"
    "CommonHeader_DecodeFromBytes (take 4 bs) = Inr h" "ch_MessageType h = MessageTypeUpdate"
    "unat (ch_MessageLength h) = length bs"
    "PCRptMessage_DecodeFromBytes NewPCRptMessage (drop 4 bs) = Some (Inr \<lparr>prm_StateReports = [r]\<rparr>)"
    "usable ss (so_SrpID (sr_SrpObject r))" "lo_PlspID (sr_LSPObject r) = pol_PlspID q"
    "ToSegmentList (sr_EroObject r) = pol_SegmentList q"
proof -
  have b: "\<exists>bs h r. pcupdBytes q srpID = Inr bs \<and>
      CommonHeader_DecodeFromBytes (take 4 bs) = Inr h \<and> ch_MessageType h = MessageTypeUpdate \<and>
      unat (ch_MessageLength h) = length bs \<and>
      PCRptMessage_DecodeFromBytes NewPCRptMessage (drop 4 bs) = Some (Inr \<lparr>prm_StateReports = [r]\<rparr>) \<and>
      so_SrpID (sr_SrpObject r) = srpID \<and> lo_PlspID (sr_LSPObject r) = pol_PlspID q \<and>
      ToSegmentList (sr_EroObject r) = pol_SegmentList q" for srpID
    using PCUpd_request [OF assms(3,4,5), of srpID] by (auto simp: pcupdBytes_def)
  have e: "\<exists>bs. (\<lambda>srpID (_ :: Session). pcupdBytes q srpID) srpID ss = Inr bs" for srpID using b by blast
  obtain ss' where s: "sendRequest now (pol_Type q) (pol_Metric q) (\<lambda>srpID _. pcupdBytes q srpID) ss = Some (Inr (), ss')"
    using sendRequest_succeeds [where build = "\<lambda>srpID _. pcupdBytes q srpID" and x = x, OF assms(1) _ e refl] assms(2) by blast
  from sendRequest_spec [where now = now and t = "pol_Type q" and m = "pol_Metric q" and ss = ss and
      build = "\<lambda>srpID _. pcupdBytes q srpID", OF refl, simplified s option.case prod.case sum.case]
  obtain y bs where y: "usable ss y" "pcupdBytes q y = Inr bs"
      "tcp_out (ss_tcpConn ss') = tcp_out (ss_tcpConn ss) @ [bs]" "ss_srPolicies ss' = ss_srPolicies ss"
    by blast
  from b [of y] y(2) obtain h r where "CommonHeader_DecodeFromBytes (take 4 bs) = Inr h" "ch_MessageType h = MessageTypeUpdate"
      "unat (ch_MessageLength h) = length bs"
      "PCRptMessage_DecodeFromBytes NewPCRptMessage (drop 4 bs) = Some (Inr \<lparr>prm_StateReports = [r]\<rparr>)"
      "so_SrpID (sr_SrpObject r) = y" "lo_PlspID (sr_LSPObject r) = pol_PlspID q" "ToSegmentList (sr_EroObject r) = pol_SegmentList q"
    by auto
  then show ?thesis using that [of ss' bs h r] s y by (simp add: SendPCUpdate_eq)
qed

text \<open>
  C1: A path the PCC delegates is computed, stored and sent back. For an unsolicited report of a live
  LSP on a session with a TED, when the path computation returns at most 900 encodable segments, the
  session stores them as the path of the policy with the reported PLSP-ID, and writes exactly one
  message: a PCUpd that names the PLSP-ID and, read back, holds the computed segments and an SRP-ID
  that is neither reserved nor under way.
\<close>

theorem delegated_path_is_sent:
  assumes "db_ok ss" "writable ss" "usable ss x" "ss_ted ss \<noteq> None"
    and "\<not> lo_SFlag (sr_LSPObject sr)" "lo_PlspID (sr_LSPObject sr) \<noteq> 0" "lo_PlspID (sr_LSPObject sr) < 2 ^ 20"
    and "\<not> lo_RFlag (sr_LSPObject sr)" "so_SrpID (sr_SrpObject sr) = 0" "name_ok (lo_Name (sr_LSPObject sr))"
    and "computePathFromTED env ss sr = Some (Inr segs)" "segs \<noteq> []" "segments_ok segs"
    and "effective ss (sr\<lparr>sr_EroObject := createEroFromSegmentList segs\<rparr>)"
  shows "\<exists>ss' bs h r. handleStateReport env sr ss = Some (Inr (), ss') \<and>
    map_option pol_SegmentList (SearchSRPolicy ss' (lo_PlspID (sr_LSPObject sr))) = Some segs \<and>
    tcp_out (ss_tcpConn ss') = tcp_out (ss_tcpConn ss) @ [bs] \<and>
    CommonHeader_DecodeFromBytes (take 4 bs) = Inr h \<and> ch_MessageType h = MessageTypeUpdate \<and>
    unat (ch_MessageLength h) = length bs \<and>
    PCRptMessage_DecodeFromBytes NewPCRptMessage (drop 4 bs) = Some (Inr \<lparr>prm_StateReports = [r]\<rparr>) \<and>
    usable ss (so_SrpID (sr_SrpObject r)) \<and> lo_PlspID (sr_LSPObject r) = lo_PlspID (sr_LSPObject sr) \<and>
    ToSegmentList (sr_EroObject r) = segs"
proof -
  let ?k = "lo_PlspID (sr_LSPObject sr)" and ?sr = "sr\<lparr>sr_EroObject := createEroFromSegmentList segs\<rparr>"
  define ss1 where "ss1 = snd (RegisterSRPolicy ?sr ss)"
  have ts: "ToSegmentList (createEroFromSegmentList segs) = segs"
    using assms(13) createEroFromSegmentList_segments by (simp add: segments_ok_def)
  have k: "lo_PlspID (sr_LSPObject ?sr) = ?k" "so_SrpID (sr_SrpObject ?sr) = 0" using assms(9) by simp_all
  obtain q where q: "policyMap (ss_srPolicies ss1) ?k = Some q" "pol_PlspID q = ?k"
      "pol_Name q = lo_Name (sr_LSPObject sr)" "pol_SegmentList q = segs" and im: "intentMap ss1 = intentMap ss"
    using RegisterSRPolicy_effective [OF assms(1,14)] unfolding k ss1_def [symmetric]
    by (auto simp: intentOf_def dropIntent_def withIntent_def ts)
  have conn: "ss_tcpConn ss1 = ss_tcpConn ss" using register_reader [of ss ?sr] by (simp add: ss1_def sameReader_def)
  have ok: "RegisterSRPolicy ?sr ss = (Inr (), ss1)"
    using RegisterSRPolicy_effective_ok [OF assms(14)] by (simp add: ss1_def prod_eq_iff)
  have u: "usable ss1 y = usable ss y" for y by (simp add: usable_def im)
  have w: "writable ss1" using assms(2) by (simp add: writable_def conn)
  obtain ss' bs h r where s: "SendPCUpdate (ge_now env) q ss1 = Some (Inr (), ss')" "ss_srPolicies ss' = ss_srPolicies ss1"
    and r: "tcp_out (ss_tcpConn ss') = tcp_out (ss_tcpConn ss1) @ [bs]"
      "CommonHeader_DecodeFromBytes (take 4 bs) = Inr h" "ch_MessageType h = MessageTypeUpdate"
      "unat (ch_MessageLength h) = length bs"
      "PCRptMessage_DecodeFromBytes NewPCRptMessage (drop 4 bs) = Some (Inr \<lparr>prm_StateReports = [r]\<rparr>)"
      "usable ss1 (so_SrpID (sr_SrpObject r))" "lo_PlspID (sr_LSPObject r) = pol_PlspID q"
      "ToSegmentList (sr_EroObject r) = pol_SegmentList q"
    by (rule SendPCUpdate_sends [of ss1 x q "ge_now env"]) (use assms(3,7,10,13) q u w in simp_all)
  have found: "SearchSRPolicy ss1 ?k = Some q" "SearchSRPolicy ss' ?k = Some q" using q(1) s(2) by (simp_all add: SearchSRPolicy_map)
  obtain ted where "ss_ted ss = Some ted" using assms(4) by blast
  then have "handleStateReport env sr ss = Some (Inr (), ss')"
    using assms(5,6,8,9) found ok s(1)
    by (simp add: handleStateReport_def handleSRPolicyWithPLSPID_def assms(11) registerS_def bindS_def)
  then show ?thesis
    using r q found by (intro exI [of _ ss'] exI [of _ bs] exI [of _ h] exI [of _ r] conjI) (simp_all add: conn u)
qed

section \<open>Witnesses\<close>

definition samplePolicy :: SRPolicy where
  "samplePolicy = (NewSRPolicy 0 ''p'' sample_segments (Addr4 1) (Addr4 2) 100 200 0 [])
     \<lparr>pol_Type := PolicyTypeDynamic, pol_Metric := TEMetric\<rparr>"

lemma sample_name: "name_ok ''p''"
  unfolding name_ok_def by code_simp

lemma sample_segments_fit: "segments_ok sample_segments"
  by (simp add: segments_ok_def sample_segments_def NewSegmentSRMPLS_def NewSegmentSRv6_def SegmentSRv6_zero_def v6_ok_def)

lemma SendPCInitiate_request_witness:
  "\<exists>ss' bs r. SendPCInitiate 7 samplePolicy False (sampleSession []) = Some (Inr (), ss') \<and>
    tcp_out (ss_tcpConn ss') = [bs] \<and>
    PCRptMessage_DecodeFromBytes NewPCRptMessage (drop 4 bs) = Some (Inr \<lparr>prm_StateReports = [r]\<rparr>) \<and>
    ToSegmentList (sr_EroObject r) = sample_segments"
proof -
  have "db_ok (sampleSession [])" "writable (sampleSession [])" "usable (sampleSession []) 1"
    "segments_ok (pol_SegmentList samplePolicy)" "name_ok (pol_Name samplePolicy)"
    "assoc_addrs_ok (ss_pccType (sampleSession [])) (pol_SrcAddr samplePolicy) (pol_DstAddr samplePolicy)"
    using sample_name sample_segments_fit
    by (simp_all add: sampleSession_def NewSession_def sampleConn_def db_ok_def writable_def usable_def intentMap_def
        maxUint32_def samplePolicy_def NewSRPolicy_def assoc_addrs_ok_def)
  note t = SendPCInitiate_request [OF this, of 7]
  have "tcp_out (ss_tcpConn (sampleSession [])) = []" "pol_SegmentList samplePolicy = sample_segments"
    by (simp_all add: sampleSession_def NewSession_def sampleConn_def samplePolicy_def NewSRPolicy_def)
  with t show ?thesis by auto
qed

text \<open>Two routers with loopbacks and prefix SIDs, and a link with a TE metric.\<close>

definition delegationHeap :: heap where
  "delegationHeap =
     [(NewLsNode 65000 ''A'')\<lparr>nd_SrgbBegin := 16000,
        nd_Prefixes := [Some ((NewLsPrefix None)\<lparr>px_Prefix := \<lparr>pfx_Addr = Addr4 0x0A000001, pfx_Bits = 32\<rparr>,
          px_SidIndex := 1, px_HasSidIndex := True\<rparr>)],
        nd_Links := [Some ((NewLsLink (Some 0) (Some 1))\<lparr>lk_Metrics := [NewMetric TEMetric 10]\<rparr>)]\<rparr>,
      (NewLsNode 65000 ''B'')\<lparr>nd_SrgbBegin := 16000,
        nd_Prefixes := [Some ((NewLsPrefix None)\<lparr>px_Prefix := \<lparr>pfx_Addr = Addr4 0x0A000002, pfx_Bits = 32\<rparr>,
          px_SidIndex := 2, px_HasSidIndex := True\<rparr>)]\<rparr>]"

definition delegationSession :: Session where
  "delegationSession = (sampleSession [])\<lparr>ss_ted := Some (delegationHeap, \<lparr>ted_Nodes = [(''A'', Some 0), (''B'', Some 1)]\<rparr>)\<rparr>"

definition delegationReport :: StateReport where
  "delegationReport = NewStateReport\<lparr>sr_LSPObject := LSPObject_zero\<lparr>lo_PlspID := 7, lo_Name := ''p'',
     lo_SrcAddr := Addr4 0x0A000001, lo_DstAddr := Addr4 0x0A000002\<rparr>\<rparr>"

lemma delegation_segments:
  "NodeSegment (delegationHeap ! 0) = Inr (SRMPLS (NewSegmentSRMPLS 16001))"
  "NodeSegment (delegationHeap ! 1) = Inr (SRMPLS (NewSegmentSRMPLS 16002))"
  using router_label [of "\<lparr>ted_Nodes = [(''A'', Some 0), (''B'', Some 1)]\<rparr>" "''A''" 0 delegationHeap]
    router_label [of "\<lparr>ted_Nodes = [(''A'', Some 0), (''B'', Some 1)]\<rparr>" "''B''" 1 delegationHeap]
  by (simp_all add: router_segment_def delegationHeap_def NewLsNode_def nodeAt_def)

lemma delegation_CSPF:
  "CSPF (\<lambda>_ c. c) delegationHeap ''A'' ''B'' TEMetric \<lparr>ted_Nodes = [(''A'', Some 0), (''B'', Some 1)]\<rparr> =
    Some (Inr [SRMPLS (NewSegmentSRMPLS 16002)])"
proof -
  let ?net = "[(''A'', Some 0), (''B'', Some 1)]" and ?s = "\<lambda>n. SRMPLS (NewSegmentSRMPLS n)"
  have h: "loadNode delegationHeap (Some 0) = Inr (delegationHeap ! 0)" "loadNode delegationHeap (Some 1) = Inr (delegationHeap ! 1)"
    by (simp_all add: loadNode_def delegationHeap_def)
  have n: "nd_Links (delegationHeap ! 0) = [Some ((NewLsLink (Some 0) (Some 1))\<lparr>lk_Metrics := [NewMetric TEMetric 10]\<rparr>)]"
    "nd_RouterID (delegationHeap ! 1) = ''B''"
    by (simp_all add: delegationHeap_def NewLsNode_def)
  let ?c0 = "[(''A'', newNode ''A'' 0 (?s 16001))]"
  let ?b = "(newNode ''B'' 10 (?s 16002))\<lparr>cn_prevNode := ''A''\<rparr>"
  let ?c1 = "[(''A'', (newNode ''A'' 0 (?s 16001))\<lparr>cn_calculated := True\<rparr>), (''B'', ?b)]"
  have i: "initNodeMap delegationHeap ?net ''A'' = Inr ?c0"
    using delegation_segments(1) by (simp add: initNodeMap_def nodeAt_def h newNode_def)
  have r: "updateNeighborCosts delegationHeap ?net TEMetric ''A'' ?c0 = Inr [(''A'', newNode ''A'' 0 (?s 16001)), (''B'', ?b)]"
    using delegation_segments(2) n h
    by (simp add: updateNeighborCosts_def nodeAt_def relaxLink_def NewLsLink_def LsLink_Metric_def NewMetric_def calcAt_def newNode_def)
  have "spfLoop (\<lambda>_ c. c) delegationHeap ?net TEMetric ''B'' 0 ?c0 = Some (Inr ?c1)"
    by (subst spfLoop.simps, subst spfLoop.simps) (simp add: nextNode_def calcAt_def newNode_def r [unfolded newNode_def One_nat_def])
  then show ?thesis
    by (simp add: CSPF_def spf_def i [unfolded newNode_def One_nat_def] buildSegmentListFromPath_def pathLoop.simps newNode_def)
qed

lemma delegation_path:
  "computePathFromTED sampleEnv delegationSession delegationReport = Some (Inr [SRMPLS (NewSegmentSRMPLS 16002)])"
proof -
  let ?net = "[(''A'', Some 0), (''B'', Some 1)]"
  have "CHR ''.'' \<in> set (addr_String (Addr4 x))" for x by (auto simp: string4_def upt_rec)
  then have "addr_String (Addr4 x) \<noteq> ''A'' \<and> addr_String (Addr4 x) \<noteq> ''B''" for x
  proof -
    have "CHR ''.'' \<notin> set ''A''" "CHR ''.'' \<notin> set ''B''" by simp_all
    then show ?thesis using \<open>\<And>x. CHR ''.'' \<in> set (addr_String (Addr4 x))\<close> [of x] by metis
  qed
  then have a: "addr_String (Addr4 x) \<noteq> ''A''" "addr_String (Addr4 x) \<noteq> ''B''" for x by blast+
  have h: "loadNode delegationHeap (Some 0) = Inr (delegationHeap ! 0)" "loadNode delegationHeap (Some 1) = Inr (delegationHeap ! 1)"
    by (simp_all add: loadNode_def delegationHeap_def)
  have p: "map (map_option (pfx_Addr \<circ> px_Prefix)) (nd_Prefixes (delegationHeap ! 0)) = [Some (Addr4 0x0A000001)]"
    "map (map_option (pfx_Addr \<circ> px_Prefix)) (nd_Prefixes (delegationHeap ! 1)) = [Some (Addr4 0x0A000002)]"
    by (simp_all add: delegationHeap_def NewLsNode_def)
  have "buildAddressRouterIDIndex sampleEnv (Some (delegationHeap, \<lparr>ted_Nodes = ?net\<rparr>)) =
      Inr [Addr4 0x0A000001 \<mapsto> ''A'', Addr4 0x0A000002 \<mapsto> ''B'']"
    using p h by (auto simp: buildAddressRouterIDIndex_def sampleEnv_def)
  then have "extractSrcDstRouterIDs sampleEnv (delegationHeap, \<lparr>ted_Nodes = ?net\<rparr>) delegationReport = Inr (''A'', ''B'')"
    using a by (simp add: extractSrcDstRouterIDs_def delegationReport_def NewStateReport_def LSPObject_zero_def
        findRouterIDFromAddress_def)
  then show ?thesis
    using delegation_CSPF
    by (simp add: computePathFromTED_def delegationSession_def sampleSession_def NewSession_def selectMetricType_def
        delegationReport_def NewStateReport_def sampleEnv_def)
qed

lemma delegated_path_is_sent_witness:
  "\<exists>ss' bs r. handleStateReport sampleEnv delegationReport delegationSession = Some (Inr (), ss') \<and>
    tcp_out (ss_tcpConn ss') = [bs] \<and>
    PCRptMessage_DecodeFromBytes NewPCRptMessage (drop 4 bs) = Some (Inr \<lparr>prm_StateReports = [r]\<rparr>) \<and>
    ToSegmentList (sr_EroObject r) = [SRMPLS (NewSegmentSRMPLS 16002)]"
proof -
  let ?segs = "[SRMPLS (NewSegmentSRMPLS 16002)]"
  have g: "segments_ok ?segs" by (simp add: segments_ok_def NewSegmentSRMPLS_def)
  have e: "ToSegmentList (createEroFromSegmentList ?segs) = ?segs"
    using g createEroFromSegmentList_segments by (simp add: segments_ok_def)
  have "db_ok delegationSession" "writable delegationSession" "usable delegationSession 1" "ss_ted delegationSession \<noteq> None"
    "\<not> lo_SFlag (sr_LSPObject delegationReport)" "lo_PlspID (sr_LSPObject delegationReport) \<noteq> 0"
    "lo_PlspID (sr_LSPObject delegationReport) < 2 ^ 20" "\<not> lo_RFlag (sr_LSPObject delegationReport)"
    "so_SrpID (sr_SrpObject delegationReport) = 0" "name_ok (lo_Name (sr_LSPObject delegationReport))"
    using sample_name
    by (simp_all add: delegationSession_def sampleSession_def NewSession_def sampleConn_def db_ok_def writable_def usable_def
        intentMap_def maxUint32_def delegationReport_def NewStateReport_def LSPObject_zero_def SrpObject_zero_def)
  moreover have "effective delegationSession (delegationReport\<lparr>sr_EroObject := createEroFromSegmentList ?segs\<rparr>)"
    using e by (simp add: effective_def delegationSession_def sampleSession_def NewSession_def policyMap_def
        delegationReport_def NewStateReport_def LSPObject_zero_def reportSrc_def reportDst_def)
  moreover have "tcp_out (ss_tcpConn delegationSession) = []"
    by (simp add: delegationSession_def sampleSession_def NewSession_def sampleConn_def)
  ultimately show ?thesis
    using delegated_path_is_sent [OF _ _ _ _ _ _ _ _ _ _ delegation_path _ g, of 1] by auto
qed

end
