(* ===== verification/Sid_Validate.thy ===== *)
theory Sid_Validate
  imports Ted_View
begin

text \<open>
  \<open>src/pkg/table/sid_validate.go\<close>: the index of the SIDs a traffic engineering database
  advertises, and the checks of a segment list against it. The Go maps with empty values are
  sets; the code only ever inserts, tests and ranges over them.
\<close>

section \<open>The index\<close>

definition MPLSLabelMax :: u32 where "MPLSLabelMax = 0xFFFFF"

abbreviation SRv6SIDBitLength :: int where "SRv6SIDBitLength \<equiv> 128"

record SIDIndex =
  ix_mplsSIDs :: "u32 set"
  ix_srv6SIDs :: "addr set"
  ix_srv6Locators :: "prefix set"

definition SIDIndex_empty :: SIDIndex where
  "SIDIndex_empty = \<lparr>ix_mplsSIDs = {}, ix_srv6SIDs = {}, ix_srv6Locators = {}\<rparr>"

definition srgbLabel :: "LsNode \<Rightarrow> u32 \<Rightarrow> u32 \<times> bool" where
  "srgbLabel node sidIndex =
     (let label = ucast (nd_SrgbBegin node) + ucast sidIndex :: u64 in
      if label > ucast MPLSLabelMax then (0, False)
      else if nd_SrgbEnd node > nd_SrgbBegin node \<and> label \<ge> ucast (nd_SrgbEnd node) then (0, False)
      else (ucast label, True))"

definition addPrefixSID :: "LsNode \<Rightarrow> SIDIndex \<Rightarrow> LsPrefix option \<Rightarrow> SIDIndex" where
  "addPrefixSID node idx p =
     (if \<not> HasPrefixSID p then idx
      else case srgbLabel node (px_SidIndex (the p)) of (label, ok) \<Rightarrow>
        if ok then idx\<lparr>ix_mplsSIDs := insert label (ix_mplsSIDs idx)\<rparr> else idx)"

definition addNodePrefixSIDs :: "SIDIndex \<Rightarrow> LsNode \<Rightarrow> SIDIndex" where
  "addNodePrefixSIDs idx node =
     (if nd_SrgbBegin node = 0 then idx else foldl (addPrefixSID node) idx (nd_Prefixes node))"

definition addSRv6SID :: "int \<Rightarrow> SIDIndex \<Rightarrow> string \<Rightarrow> SIDIndex" where
  "addSRv6SID locBits idx s =
     (case ParseAddr s of
        Inl _ \<Rightarrow> idx
      | Inr a \<Rightarrow>
          if \<not> Is6 a then idx
          else
            let idx = idx\<lparr>ix_srv6SIDs := insert a (ix_srv6SIDs idx)\<rparr> in
            if locBits \<le> 0 \<or> locBits > SRv6SIDBitLength then idx
            else case addr_Prefix a locBits of
                Inr p \<Rightarrow> idx\<lparr>ix_srv6Locators := insert p (ix_srv6Locators idx)\<rparr>
              | Inl _ \<Rightarrow> idx)"

definition addSRv6 :: "SIDIndex \<Rightarrow> string list \<Rightarrow> SIDStructure \<Rightarrow> SIDIndex" where
  "addSRv6 idx sids st =
     foldl (addSRv6SID (uint (st_LocalBlock st) + uint (st_LocalNode st))) idx sids"

definition addLinkSID :: "SIDIndex \<Rightarrow> LsLink option \<Rightarrow> SIDIndex" where
  "addLinkSID idx lk =
     (case lk of
        None \<Rightarrow> idx
      | Some l \<Rightarrow>
          let idx = (if lk_AdjSid l \<noteq> 0 then idx\<lparr>ix_mplsSIDs := insert (lk_AdjSid l) (ix_mplsSIDs idx)\<rparr> else idx) in
          case lk_Srv6EndXSID l of
            None \<Rightarrow> idx
          | Some x \<Rightarrow> addSRv6 idx (ex_Sids x) (ex_Srv6SIDStructure x))"

definition addLinkSIDs :: "SIDIndex \<Rightarrow> LsNode \<Rightarrow> SIDIndex" where
  "addLinkSIDs idx node = foldl addLinkSID idx (nd_Links node)"

definition addSRv6NodeSIDs :: "SIDIndex \<Rightarrow> LsNode \<Rightarrow> SIDIndex" where
  "addSRv6NodeSIDs idx node =
     foldl (\<lambda>idx s. case s of None \<Rightarrow> idx | Some s \<Rightarrow> addSRv6 idx (sv_Sids s) (sv_SIDStructure s))
       idx (nd_SRv6SIDs node)"

fun indexNodes :: "heap \<Rightarrow> SIDIndex \<Rightarrow> (string \<times> nodeptr) list \<Rightarrow> SIDIndex result" where
  "indexNodes h idx [] = Inr idx"
| "indexNodes h idx ((_, None) # nodes) = indexNodes h idx nodes"
| "indexNodes h idx ((_, Some i) # nodes) =
     bindE (loadNode h (Some i)) (\<lambda>node.
     indexNodes h (addSRv6NodeSIDs (addLinkSIDs (addNodePrefixSIDs idx node) node) node) nodes)"

definition NewSIDIndex :: "heap \<Rightarrow> LsTED option \<Rightarrow> SIDIndex result" where
  "NewSIDIndex h ted =
     (case ted of
        None \<Rightarrow> Inr SIDIndex_empty
      | Some t \<Rightarrow> indexNodes h SIDIndex_empty (ted_Nodes t))"

section \<open>Checks of a segment list\<close>

definition hasSRv6 :: "SIDIndex \<Rightarrow> SegmentSRv6 \<Rightarrow> bool" where
  "hasSRv6 idx s =
     (if s6_Sid s \<in> ix_srv6SIDs idx then True
      else if \<not> s6_USid s then False
      else
        let locBits = (case s6_Structure s of
              Some [b, n, f, a] \<Rightarrow> uint b + uint n | _ \<Rightarrow> 0) in
        \<exists>loc \<in> ix_srv6Locators idx.
          prefix_Contains loc (s6_Sid s) \<and> \<not> (locBits > 0 \<and> pfx_Bits loc > locBits))"

fun SIDIndex_Has :: "SIDIndex \<Rightarrow> Segment \<Rightarrow> bool" where
  "SIDIndex_Has idx (SRMPLS s) = (sm_Sid s \<in> ix_mplsSIDs idx)"
| "SIDIndex_Has idx (SRv6 s) = hasSRv6 idx s"

record MissingSegment =
  ms_Hop :: int
  ms_SID :: string

definition MissingSegment_String :: "MissingSegment \<Rightarrow> string" where
  "MissingSegment_String m = ''hop '' @ Itoa (ms_Hop m) @ '' ('' @ ms_SID m @ '')''"

definition missingAmong :: "SIDIndex \<Rightarrow> Segment option list \<Rightarrow> MissingSegment list" where
  "missingAmong idx segmentList =
     concat (map (\<lambda>(i, seg).
       (case seg of
          None \<Rightarrow> [\<lparr>ms_Hop = int i + 1, ms_SID = ''<nil>''\<rparr>]
        | Some s \<Rightarrow> if SIDIndex_Has idx s then [] else [\<lparr>ms_Hop = int i + 1, ms_SID = SidString s\<rparr>]))
     (enumerate 0 segmentList))"

definition MissingSegments :: "heap \<Rightarrow> LsTED option \<Rightarrow> Segment option list \<Rightarrow> MissingSegment list result" where
  "MissingSegments h ted segmentList =
     bindE (NewSIDIndex h ted) (\<lambda>idx. Inr (missingAmong idx segmentList))"

definition OutOfRangeSRMPLSLabels :: "Segment option list \<Rightarrow> MissingSegment list" where
  "OutOfRangeSRMPLSLabels segmentList =
     concat (map (\<lambda>(i, seg).
       (case seg of
          Some (SRMPLS s) \<Rightarrow>
            if sm_Sid s \<le> MPLSLabelMax then []
            else [\<lparr>ms_Hop = int i + 1, ms_SID = SidString (SRMPLS s)\<rparr>]
        | _ \<Rightarrow> []))
     (enumerate 0 segmentList))"

fun HasUnknownSegmentType :: "Segment option list \<Rightarrow> bool" where
  "HasUnknownSegmentType [] = False"
| "HasUnknownSegmentType (None # segs) = HasUnknownSegmentType segs"
| "HasUnknownSegmentType (Some s # segs) =
     (if segmentFamily (Some s) = SegmentUnknown then True else HasUnknownSegmentType segs)"

fun mixedFrom :: "SegmentFamily \<Rightarrow> Segment option list \<Rightarrow> bool" where
  "mixedFrom family [] = False"
| "mixedFrom family (None # segs) = mixedFrom family segs"
| "mixedFrom family (Some s # segs) =
     (let current = segmentFamily (Some s) in
      if current = SegmentUnknown then mixedFrom family segs
      else if family = SegmentUnknown then mixedFrom current segs
      else if family \<noteq> current then True
      else mixedFrom family segs)"

definition HasMixedSegmentTypes :: "Segment option list \<Rightarrow> bool" where
  "HasMixedSegmentTypes segmentList = mixedFrom SegmentUnknown segmentList"

section \<open>What a database advertises\<close>

text \<open>The specification, over the views of the nodes.\<close>

definition srgb_label :: "NodeView \<Rightarrow> u32 \<Rightarrow> nat" where
  "srgb_label v sidIndex = unat (vw_SrgbBegin v) + unat sidIndex"

definition in_srgb :: "NodeView \<Rightarrow> nat \<Rightarrow> bool" where
  "in_srgb v label \<longleftrightarrow> label \<le> 0xFFFFF \<and>
     (vw_SrgbBegin v < vw_SrgbEnd v \<longrightarrow> label < unat (vw_SrgbEnd v))"

definition view_labels :: "NodeView \<Rightarrow> nat set" where
  "view_labels v =
     {srgb_label v (px_SidIndex p) | p. vw_SrgbBegin v \<noteq> 0 \<and> p \<in> set (vw_Prefixes v) \<and> px_HasSidIndex p \<and>
        in_srgb v (srgb_label v (px_SidIndex p))} \<union>
     {unat (lk_AdjSid l) | r l. (r, l) \<in> set (vw_Links v) \<and> lk_AdjSid l \<noteq> 0}"

text \<open>The SRv6 SIDs of a node with the length of their locator, those of its links included.\<close>

definition view_sids :: "NodeView \<Rightarrow> (addr \<times> int) set" where
  "view_sids v =
     {(a, uint (st_LocalBlock st) + uint (st_LocalNode st)) | a st sids s.
        ParseAddr s = Inr a \<and> Is6 a \<and> s \<in> set sids \<and>
        ((\<exists>x \<in> set (vw_SRv6SIDs v). sids = sv_Sids x \<and> st = sv_SIDStructure x) \<or>
         (\<exists>r l x. (r, l) \<in> set (vw_Links v) \<and> lk_Srv6EndXSID l = Some x \<and> sids = ex_Sids x \<and>
             st = ex_Srv6SIDStructure x))}"

definition sid_locator :: "addr \<times> int \<Rightarrow> prefix \<Rightarrow> bool" where
  "sid_locator = (\<lambda>(a, b) p. 0 < b \<and> b \<le> 128 \<and> addr_Prefix a b = Inr p)"

fun advertised :: "tedView \<Rightarrow> Segment \<Rightarrow> bool" where
  "advertised m (SRMPLS s) \<longleftrightarrow> (\<exists>v \<in> ran m. unat (sm_Sid s) \<in> view_labels v)"
| "advertised m (SRv6 s) \<longleftrightarrow>
     (\<exists>v \<in> ran m. \<exists>b. (s6_Sid s, b) \<in> view_sids v) \<or>
     s6_USid s \<and> (\<exists>v \<in> ran m. \<exists>x \<in> view_sids v. \<exists>loc. sid_locator x loc \<and> prefix_Contains loc (s6_Sid s) \<and>
        (\<forall>lb ln lf la. s6_Structure s = Some [lb, ln, lf, la] \<longrightarrow> 0 < uint lb + uint ln \<longrightarrow>
           pfx_Bits loc \<le> uint lb + uint ln))"

end
