(* ===== verification/Sid_Laws.thy ===== *)
theory Sid_Laws
  imports Sid_Validate
begin

text \<open>
  The SID index holds exactly what the nodes of the database advertise, whatever the order in
  which the node map is ranged over, and the checks of a segment list say so.
\<close>

section \<open>The contents of the index\<close>

named_theorems index_sets \<open>what an operation adds to the three sets of the index\<close>

lemma foldl_union:
  assumes "\<And>idx x. proj (f idx x) = proj idx \<union> g x"
  shows "proj (foldl f idx xs) = proj idx \<union> (\<Union>x \<in> set xs. g x)"
  using assms by (induction xs arbitrary: idx) auto

lemma srgbLabel_eq:
  "srgbLabel node i =
     (let s = unat (nd_SrgbBegin node) + unat i in
      if s \<le> 0xFFFFF \<and> (nd_SrgbBegin node < nd_SrgbEnd node \<longrightarrow> s < unat (nd_SrgbEnd node))
      then (word_of_nat s, True) else (0, False))"
proof -
  define s where "s = unat (nd_SrgbBegin node) + unat i"
  have b: "s < 2 ^ 64" using unat_u32_less [of "nd_SrgbBegin node"] unat_u32_less [of i] by (simp add: s_def)
  have u: "unat (ucast w :: u64) = unat w" for w :: u32
    using unat_u32_less [of w] by (simp add: unsigned_ucast_eq take_bit_nat_eq_self)
  have l: "unat (ucast (nd_SrgbBegin node) + ucast i :: u64) = s"
    using b by (simp add: unat_word_ariths u s_def)
  have m: "unat (ucast MPLSLabelMax :: u64) = 0xFFFFF" unfolding u by (simp add: MPLSLabelMax_def)
  have c: "ucast (ucast (nd_SrgbBegin node) + ucast i :: u64) = (word_of_nat s :: u32)"
    using l by (metis unsigned_of_nat of_nat_unat ucast_id unsigned_ucast_eq word_of_nat_eq_iff)
  have c1: "ucast MPLSLabelMax < (ucast (nd_SrgbBegin node) + ucast i :: u64) \<longleftrightarrow> 0xFFFFF < s"
    by (simp only: word_less_nat_alt l m)
  have c2: "ucast (nd_SrgbEnd node) \<le> (ucast (nd_SrgbBegin node) + ucast i :: u64) \<longleftrightarrow> unat (nd_SrgbEnd node) \<le> s"
    by (simp only: word_le_nat_alt l u)
  show ?thesis
    unfolding srgbLabel_def Let_def s_def [symmetric] c c1 c2
    by (auto simp: not_less)
qed

definition prefix_labels :: "LsNode \<Rightarrow> LsPrefix option \<Rightarrow> u32 set" where
  "prefix_labels node p =
     (if HasPrefixSID p \<and> snd (srgbLabel node (px_SidIndex (the p))) then {fst (srgbLabel node (px_SidIndex (the p)))} else {})"

lemma addPrefixSID_sets [index_sets]:
  "ix_mplsSIDs (addPrefixSID node idx p) = ix_mplsSIDs idx \<union> prefix_labels node p"
  "ix_srv6SIDs (addPrefixSID node idx p) = ix_srv6SIDs idx"
  "ix_srv6Locators (addPrefixSID node idx p) = ix_srv6Locators idx"
  by (auto simp: addPrefixSID_def prefix_labels_def split: prod.splits)

lemma addNodePrefixSIDs_sets [index_sets]:
  "ix_mplsSIDs (addNodePrefixSIDs idx node) = ix_mplsSIDs idx \<union>
     (if nd_SrgbBegin node = 0 then {} else \<Union>p \<in> set (nd_Prefixes node). prefix_labels node p)"
  "ix_srv6SIDs (addNodePrefixSIDs idx node) = ix_srv6SIDs idx"
  "ix_srv6Locators (addNodePrefixSIDs idx node) = ix_srv6Locators idx"
  using foldl_union [of ix_mplsSIDs "addPrefixSID node" "prefix_labels node", OF addPrefixSID_sets(1)]
    foldl_union [of ix_srv6SIDs "addPrefixSID node" "\<lambda>_. {}"]
    foldl_union [of ix_srv6Locators "addPrefixSID node" "\<lambda>_. {}"]
  by (simp_all add: addNodePrefixSIDs_def addPrefixSID_sets)

definition sid_addrs :: "string \<Rightarrow> addr set" where
  "sid_addrs s = {a. ParseAddr s = Inr a \<and> Is6 a}"

definition sid_locators :: "int \<Rightarrow> string \<Rightarrow> prefix set" where
  "sid_locators b s = {p. \<exists>a \<in> sid_addrs s. sid_locator (a, b) p}"

lemma addSRv6SID_sets [index_sets]:
  "ix_mplsSIDs (addSRv6SID b idx s) = ix_mplsSIDs idx"
  "ix_srv6SIDs (addSRv6SID b idx s) = ix_srv6SIDs idx \<union> sid_addrs s"
  "ix_srv6Locators (addSRv6SID b idx s) = ix_srv6Locators idx \<union> sid_locators b s"
  by (auto simp: addSRv6SID_def sid_addrs_def sid_locators_def sid_locator_def Let_def split: sum.splits)

definition struct_bits :: "SIDStructure \<Rightarrow> int" where
  "struct_bits st = uint (st_LocalBlock st) + uint (st_LocalNode st)"

lemma addSRv6_sets [index_sets]:
  "ix_mplsSIDs (addSRv6 idx sids st) = ix_mplsSIDs idx"
  "ix_srv6SIDs (addSRv6 idx sids st) = ix_srv6SIDs idx \<union> (\<Union>s \<in> set sids. sid_addrs s)"
  "ix_srv6Locators (addSRv6 idx sids st) = ix_srv6Locators idx \<union> (\<Union>s \<in> set sids. sid_locators (struct_bits st) s)"
  using foldl_union [of ix_mplsSIDs "addSRv6SID (struct_bits st)" "\<lambda>_. {}"]
    foldl_union [of ix_srv6SIDs "addSRv6SID (struct_bits st)" sid_addrs, OF addSRv6SID_sets(2)]
    foldl_union [of ix_srv6Locators "addSRv6SID (struct_bits st)" "sid_locators (struct_bits st)", OF addSRv6SID_sets(3)]
  by (simp_all add: addSRv6_def struct_bits_def addSRv6SID_sets)

definition link_labels :: "LsLink option \<Rightarrow> u32 set" where
  "link_labels lk = (case lk of Some l \<Rightarrow> if lk_AdjSid l \<noteq> 0 then {lk_AdjSid l} else {} | None \<Rightarrow> {})"

text \<open>The SID lists a link or a node entry brings, each with its structure.\<close>

definition link_sids :: "LsLink option \<Rightarrow> (string list \<times> SIDStructure) set" where
  "link_sids lk = {(ex_Sids x, ex_Srv6SIDStructure x) | l x. lk = Some l \<and> lk_Srv6EndXSID l = Some x}"

definition node_sids :: "LsSrv6SID option \<Rightarrow> (string list \<times> SIDStructure) set" where
  "node_sids e = {(sv_Sids x, sv_SIDStructure x) | x. e = Some x}"

definition list_addrs :: "(string list \<times> SIDStructure) set \<Rightarrow> addr set" where
  "list_addrs S = (\<Union>(sids, st) \<in> S. \<Union>s \<in> set sids. sid_addrs s)"

definition list_locators :: "(string list \<times> SIDStructure) set \<Rightarrow> prefix set" where
  "list_locators S = (\<Union>(sids, st) \<in> S. \<Union>s \<in> set sids. sid_locators (struct_bits st) s)"

lemma link_sids_cases:
  "link_sids None = {}"
  "link_sids (Some l) = (case lk_Srv6EndXSID l of None \<Rightarrow> {} | Some x \<Rightarrow> {(ex_Sids x, ex_Srv6SIDStructure x)})"
  by (auto simp: link_sids_def split: option.splits)

lemma addLinkSID_sets [index_sets]:
  "ix_mplsSIDs (addLinkSID idx lk) = ix_mplsSIDs idx \<union> link_labels lk"
  "ix_srv6SIDs (addLinkSID idx lk) = ix_srv6SIDs idx \<union> list_addrs (link_sids lk)"
  "ix_srv6Locators (addLinkSID idx lk) = ix_srv6Locators idx \<union> list_locators (link_sids lk)"
  by (cases lk; auto simp: addLinkSID_def Let_def link_labels_def link_sids_cases list_addrs_def
      list_locators_def addSRv6_sets split: option.splits)+

lemma list_union:
  "list_addrs (\<Union>x \<in> X. f x) = (\<Union>x \<in> X. list_addrs (f x))"
  "list_locators (\<Union>x \<in> X. f x) = (\<Union>x \<in> X. list_locators (f x))"
  "list_addrs (S \<union> T) = list_addrs S \<union> list_addrs T"
  "list_locators (S \<union> T) = list_locators S \<union> list_locators T"
  by (auto simp: list_addrs_def list_locators_def)

lemma addLinkSIDs_sets [index_sets]:
  "ix_mplsSIDs (addLinkSIDs idx node) = ix_mplsSIDs idx \<union> (\<Union>l \<in> set (nd_Links node). link_labels l)"
  "ix_srv6SIDs (addLinkSIDs idx node) = ix_srv6SIDs idx \<union> list_addrs (\<Union>l \<in> set (nd_Links node). link_sids l)"
  "ix_srv6Locators (addLinkSIDs idx node) = ix_srv6Locators idx \<union> list_locators (\<Union>l \<in> set (nd_Links node). link_sids l)"
  using foldl_union [of ix_mplsSIDs addLinkSID link_labels, OF addLinkSID_sets(1)]
    foldl_union [of ix_srv6SIDs addLinkSID, OF addLinkSID_sets(2)]
    foldl_union [of ix_srv6Locators addLinkSID, OF addLinkSID_sets(3)]
  by (simp_all add: addLinkSIDs_def list_union)

lemma addSRv6NodeSIDs_sets [index_sets]:
  "ix_mplsSIDs (addSRv6NodeSIDs idx node) = ix_mplsSIDs idx"
  "ix_srv6SIDs (addSRv6NodeSIDs idx node) = ix_srv6SIDs idx \<union> list_addrs (\<Union>e \<in> set (nd_SRv6SIDs node). node_sids e)"
  "ix_srv6Locators (addSRv6NodeSIDs idx node) = ix_srv6Locators idx \<union> list_locators (\<Union>e \<in> set (nd_SRv6SIDs node). node_sids e)"
proof -
  let ?f = "\<lambda>idx s. case s of None \<Rightarrow> idx | Some s \<Rightarrow> addSRv6 idx (sv_Sids s) (sv_SIDStructure s)"
  have "ix_mplsSIDs (?f idx e) = ix_mplsSIDs idx \<union> {}"
    "ix_srv6SIDs (?f idx e) = ix_srv6SIDs idx \<union> list_addrs (node_sids e)"
    "ix_srv6Locators (?f idx e) = ix_srv6Locators idx \<union> list_locators (node_sids e)" for idx e
    by (auto simp: node_sids_def list_addrs_def list_locators_def addSRv6_sets split: option.splits)
  note f = foldl_union [of ix_mplsSIDs ?f "\<lambda>_. {}", OF this(1)] foldl_union [of ix_srv6SIDs ?f, OF this(2)]
    foldl_union [of ix_srv6Locators ?f, OF this(3)]
  show
    "ix_mplsSIDs (addSRv6NodeSIDs idx node) = ix_mplsSIDs idx"
    "ix_srv6SIDs (addSRv6NodeSIDs idx node) = ix_srv6SIDs idx \<union> list_addrs (\<Union>e \<in> set (nd_SRv6SIDs node). node_sids e)"
    "ix_srv6Locators (addSRv6NodeSIDs idx node) = ix_srv6Locators idx \<union> list_locators (\<Union>e \<in> set (nd_SRv6SIDs node). node_sids e)"
    using f by (simp_all add: addSRv6NodeSIDs_def list_union)
qed

text \<open>What one node adds.\<close>

definition node_labels :: "LsNode \<Rightarrow> u32 set" where
  "node_labels n = (if nd_SrgbBegin n = 0 then {} else \<Union>p \<in> set (nd_Prefixes n). prefix_labels n p) \<union>
     (\<Union>l \<in> set (nd_Links n). link_labels l)"

definition node_lists :: "LsNode \<Rightarrow> (string list \<times> SIDStructure) set" where
  "node_lists n = (\<Union>l \<in> set (nd_Links n). link_sids l) \<union> (\<Union>e \<in> set (nd_SRv6SIDs n). node_sids e)"

lemma indexNodes_sets:
  assumes "\<forall>x \<in> set nodes. \<exists>i. snd x = Some i \<and> i < length h"
  shows "\<exists>idx'. indexNodes h idx nodes = Inr idx' \<and>
     ix_mplsSIDs idx' = ix_mplsSIDs idx \<union> (\<Union>x \<in> set nodes. node_labels (h ! the (snd x))) \<and>
     ix_srv6SIDs idx' = ix_srv6SIDs idx \<union> (\<Union>x \<in> set nodes. list_addrs (node_lists (h ! the (snd x)))) \<and>
     ix_srv6Locators idx' = ix_srv6Locators idx \<union> (\<Union>x \<in> set nodes. list_locators (node_lists (h ! the (snd x))))"
  using assms
proof (induction nodes arbitrary: idx)
  case (Cons x nodes)
  obtain r i where x: "x = (r, Some i)" "i < length h" using Cons.prems by (cases x) auto
  define idx1 where "idx1 = addSRv6NodeSIDs (addLinkSIDs (addNodePrefixSIDs idx (h ! i)) (h ! i)) (h ! i)"
  have i1: "ix_mplsSIDs idx1 = ix_mplsSIDs idx \<union> node_labels (h ! i)"
    "ix_srv6SIDs idx1 = ix_srv6SIDs idx \<union> list_addrs (node_lists (h ! i))"
    "ix_srv6Locators idx1 = ix_srv6Locators idx \<union> list_locators (node_lists (h ! i))"
    by (auto simp: idx1_def index_sets node_labels_def node_lists_def list_union)
  from Cons.prems have "\<forall>x \<in> set nodes. \<exists>i. snd x = Some i \<and> i < length h" by simp
  from Cons.IH [OF this, of idx1] x i1 show ?case by (auto simp: idx1_def [symmetric])
qed simp

section \<open>The index and the views\<close>

lemma ted_entry_view:
  assumes "ted_ok asn (h, ted)" "(r, p) \<in> set (ted_Nodes ted)"
  obtains i where "p = Some i" "i < length h" "tedViewOf (h, ted) r = Some (nodeView h (h ! i))" "node_ok (h, ted) i"
proof -
  have "map_of (ted_Nodes ted) r = Some p" using assms by (simp add: ted_ok_def)
  with ted_okD [OF assms(1), of r p] that show ?thesis by (auto simp: tedViewOf_def)
qed

lemma ran_tedViewOf:
  assumes "ted_ok asn (h, ted)"
  shows "ran (tedViewOf (h, ted)) = (\<lambda>(r, p). nodeView h (h ! the p)) ` set (ted_Nodes ted)"
proof (intro equalityI subsetI)
  fix v assume "v \<in> ran (tedViewOf (h, ted))"
  then obtain r where r: "tedViewOf (h, ted) r = Some v" by (auto simp: ran_def)
  then obtain i where "map_of (ted_Nodes ted) r = Some (Some i)" "v = nodeView h (h ! i)"
    by (auto simp: tedViewOf_def split: option.splits)
  then show "v \<in> (\<lambda>(r, p). nodeView h (h ! the p)) ` set (ted_Nodes ted)"
    by (force dest: map_of_SomeD)
next
  fix v assume "v \<in> (\<lambda>(r, p). nodeView h (h ! the p)) ` set (ted_Nodes ted)"
  then obtain r p where "(r, p) \<in> set (ted_Nodes ted)" "v = nodeView h (h ! the p)" by auto
  moreover from this(1) obtain i where "p = Some i" "tedViewOf (h, ted) r = Some (nodeView h (h ! i))"
    by (rule ted_entry_view [OF assms])
  ultimately show "v \<in> ran (tedViewOf (h, ted))" by (auto simp: ran_def intro: exI [of _ r])
qed

lemma prefix_labels_iff:
  "x \<in> prefix_labels n (Some q) \<longleftrightarrow>
     px_HasSidIndex q \<and> in_srgb (nodeView h n) (srgb_label (nodeView h n) (px_SidIndex q)) \<and>
     unat x = srgb_label (nodeView h n) (px_SidIndex q)"
proof -
  define s where "s = unat (nd_SrgbBegin n) + unat (px_SidIndex q)"
  have "x = word_of_nat s \<longleftrightarrow> unat x = s" if "s \<le> 0xFFFFF"
    using that by (auto simp: unat_of_nat)
  then show ?thesis
    by (auto simp: prefix_labels_def srgbLabel_eq Let_def in_srgb_def srgb_label_def nodeView_def s_def [symmetric])
qed

lemma in_image_the:
  "None \<notin> set xs \<Longrightarrow> y \<in> (\<lambda>x. f (the x)) ` set xs \<longleftrightarrow> (\<exists>x. Some x \<in> set xs \<and> y = f x)"
proof -
  assume n: "None \<notin> set xs"
  have "set xs = Some ` {x. Some x \<in> set xs}"
    using n by (auto simp: image_iff) (metis not_None_eq)
  then have "(\<lambda>x. f (the x)) ` set xs = f ` {x. Some x \<in> set xs}"
    by (metis (no_types, lifting) image_cong image_image option.sel)
  then show ?thesis by auto
qed

lemma view_lists:
  assumes "None \<notin> set (nd_Prefixes n)" "None \<notin> set (nd_Links n)" "None \<notin> set (nd_SRv6SIDs n)"
  shows "p \<in> set (vw_Prefixes (nodeView h n)) \<longleftrightarrow> (\<exists>q. Some q \<in> set (nd_Prefixes n) \<and> p = plainPrefix q)"
    and "x \<in> set (vw_Links (nodeView h n)) \<longleftrightarrow>
      (\<exists>k. Some k \<in> set (nd_Links n) \<and> x = (ptrRouterID h (lk_RemoteNode k), plainLink k))"
    and "s \<in> set (vw_SRv6SIDs (nodeView h n)) \<longleftrightarrow> (\<exists>q. Some q \<in> set (nd_SRv6SIDs n) \<and> s = plainSID q)"
  using in_image_the [OF assms(1), of p plainPrefix] in_image_the [OF assms(3), of s plainSID]
    in_image_the [OF assms(2), of x "\<lambda>k. (ptrRouterID h (lk_RemoteNode k), plainLink k)"]
  by (simp_all add: nodeView_def o_def linkView_def [abs_def])

lemma plain_simps [simp]:
  "px_HasSidIndex (plainPrefix q) = px_HasSidIndex q" "px_SidIndex (plainPrefix q) = px_SidIndex q"
  "px_Prefix (plainPrefix q) = px_Prefix q"
  "lk_AdjSid (plainLink k) = lk_AdjSid k" "lk_Srv6EndXSID (plainLink k) = lk_Srv6EndXSID k"
  "lk_Metrics (plainLink k) = lk_Metrics k"
  "sv_Sids (plainSID s) = sv_Sids s" "sv_SIDStructure (plainSID s) = sv_SIDStructure s"
  by (simp_all add: plainPrefix_def plainLink_def plainSID_def)

lemma ex_views:
  assumes "None \<notin> set (nd_Prefixes n)" "None \<notin> set (nd_Links n)" "None \<notin> set (nd_SRv6SIDs n)"
  shows "(\<exists>p. p \<in> set (vw_Prefixes (nodeView h n)) \<and> P p) \<longleftrightarrow> (\<exists>q. Some q \<in> set (nd_Prefixes n) \<and> P (plainPrefix q))"
    and "(\<exists>r l. (r, l) \<in> set (vw_Links (nodeView h n)) \<and> Q l) \<longleftrightarrow> (\<exists>k. Some k \<in> set (nd_Links n) \<and> Q (plainLink k))"
    and "(\<exists>x \<in> set (vw_SRv6SIDs (nodeView h n)). R x) \<longleftrightarrow> (\<exists>q. Some q \<in> set (nd_SRv6SIDs n) \<and> R (plainSID q))"
  unfolding Bex_def view_lists [OF assms] by blast+

lemma in_UN_Some:
  "None \<notin> set xs \<Longrightarrow> y \<in> (\<Union>x \<in> set xs. f x) \<longleftrightarrow> (\<exists>x. Some x \<in> set xs \<and> y \<in> f (Some x))"
  by (metis UN_E UN_I option.exhaust)

lemma node_labels_view:
  assumes "None \<notin> set (nd_Prefixes n)" "None \<notin> set (nd_Links n)" "None \<notin> set (nd_SRv6SIDs n)"
  shows "unat x \<in> view_labels (nodeView h n) \<longleftrightarrow> x \<in> node_labels n"
proof -
  let ?v = "nodeView h n"
  have "x \<in> (\<Union>p \<in> set (nd_Prefixes n). prefix_labels n p) \<longleftrightarrow>
      (\<exists>q. Some q \<in> set (nd_Prefixes n) \<and> px_HasSidIndex q \<and>
         in_srgb ?v (srgb_label ?v (px_SidIndex q)) \<and> unat x = srgb_label ?v (px_SidIndex q))"
    unfolding in_UN_Some [OF assms(1)] prefix_labels_iff [of x n _ h] ..
  moreover have "x \<in> (\<Union>k \<in> set (nd_Links n). link_labels k) \<longleftrightarrow>
      (\<exists>k. Some k \<in> set (nd_Links n) \<and> lk_AdjSid k \<noteq> 0 \<and> unat x = unat (lk_AdjSid k))"
  proof -
    have "x \<in> link_labels k \<longleftrightarrow> (\<exists>k'. k = Some k' \<and> lk_AdjSid k' \<noteq> 0 \<and> x = lk_AdjSid k')" for k
      by (auto simp: link_labels_def split: option.splits)
    then show ?thesis by (auto simp: word_unat_eq_iff)
  qed
  moreover have "vw_SrgbBegin ?v = nd_SrgbBegin n" by (simp add: nodeView_def)
  moreover have "unat x \<in> view_labels ?v \<longleftrightarrow> vw_SrgbBegin ?v \<noteq> 0 \<and>
      (\<exists>p. p \<in> set (vw_Prefixes ?v) \<and> px_HasSidIndex p \<and>
         in_srgb ?v (srgb_label ?v (px_SidIndex p)) \<and> unat x = srgb_label ?v (px_SidIndex p)) \<or>
      (\<exists>r l. (r, l) \<in> set (vw_Links ?v) \<and> lk_AdjSid l \<noteq> 0 \<and> unat x = unat (lk_AdjSid l))"
    unfolding view_labels_def by blast
  ultimately show ?thesis
    unfolding node_labels_def Un_iff ex_views [OF assms] by simp
qed

text \<open>The SIDs of a view, as pairs of a SID list and its structure.\<close>

lemma node_lists_view:
  assumes "None \<notin> set (nd_Prefixes n)" "None \<notin> set (nd_Links n)" "None \<notin> set (nd_SRv6SIDs n)"
  shows "view_sids (nodeView h n) = {(a, struct_bits st) | a st sids s. (sids, st) \<in> node_lists n \<and> s \<in> set sids \<and> a \<in> sid_addrs s}"
proof -
  have k: "(sids, st) \<in> link_sids (Some k) \<longleftrightarrow>
      (\<exists>x. lk_Srv6EndXSID k = Some x \<and> sids = ex_Sids x \<and> st = ex_Srv6SIDStructure x)" for sids st k
    by (auto simp: link_sids_def)
  have e: "(sids, st) \<in> node_sids (Some q) \<longleftrightarrow> sids = sv_Sids q \<and> st = sv_SIDStructure q" for sids st q
    by (auto simp: node_sids_def)
  have nl: "(sids, st) \<in> node_lists n \<longleftrightarrow>
      (\<exists>x \<in> set (vw_SRv6SIDs (nodeView h n)). sids = sv_Sids x \<and> st = sv_SIDStructure x) \<or>
      (\<exists>r l. (r, l) \<in> set (vw_Links (nodeView h n)) \<and> (\<exists>x. lk_Srv6EndXSID l = Some x \<and> sids = ex_Sids x \<and>
             st = ex_Srv6SIDStructure x))" (is "_ \<longleftrightarrow> ?C sids st") for sids st
    unfolding node_lists_def Un_iff ex_views [OF assms] in_UN_Some [OF assms(2)] in_UN_Some [OF assms(3)] k e
    by auto
  have c: "(\<exists>x \<in> set (vw_SRv6SIDs (nodeView h n)). sids = sv_Sids x \<and> st = sv_SIDStructure x) \<or>
      (\<exists>r l x. (r, l) \<in> set (vw_Links (nodeView h n)) \<and> lk_Srv6EndXSID l = Some x \<and> sids = ex_Sids x \<and>
             st = ex_Srv6SIDStructure x) \<longleftrightarrow> (sids, st) \<in> node_lists n" for sids st
    unfolding nl by blast
  show ?thesis
    unfolding view_sids_def c sid_addrs_def struct_bits_def mem_Collect_eq by (simp only: conj_ac)
qed

lemma list_addrs_view:
  assumes "view_sids v = {(a, struct_bits st) | a st sids s. (sids, st) \<in> L \<and> s \<in> set sids \<and> a \<in> sid_addrs s}"
  shows "a \<in> list_addrs L \<longleftrightarrow> (\<exists>b. (a, b) \<in> view_sids v)"
    and "p \<in> list_locators L \<longleftrightarrow> (\<exists>x \<in> view_sids v. sid_locator x p)"
  unfolding assms by (auto simp: list_addrs_def list_locators_def sid_locators_def) blast+


section \<open>Properties\<close>

lemma node_ok_no_nil:
  assumes "node_ok st i"
  shows "None \<notin> set (nd_Prefixes (fst st ! i))" "None \<notin> set (nd_Links (fst st ! i))" "None \<notin> set (nd_SRv6SIDs (fst st ! i))"
  using assms by (auto simp: node_ok_def Let_def list_all_iff)

lemma NewSIDIndex_sets:
  assumes ok: "ted_ok asn (h, ted)"
  obtains idx where "NewSIDIndex h (Some ted) = Inr idx"
    "\<And>l. l \<in> ix_mplsSIDs idx \<longleftrightarrow> (\<exists>v \<in> ran (tedViewOf (h, ted)). unat l \<in> view_labels v)"
    "\<And>a. a \<in> ix_srv6SIDs idx \<longleftrightarrow> (\<exists>v \<in> ran (tedViewOf (h, ted)). \<exists>b. (a, b) \<in> view_sids v)"
    "\<And>p. p \<in> ix_srv6Locators idx \<longleftrightarrow> (\<exists>v \<in> ran (tedViewOf (h, ted)). \<exists>x \<in> view_sids v. sid_locator x p)"
proof -
  let ?N = "set (ted_Nodes ted)"
  have ent: "\<exists>i. snd x = Some i \<and> i < length h \<and> node_ok (h, ted) i" if "x \<in> ?N" for x
    using that ted_entry_view [OF ok, of "fst x" "snd x"] by (metis prod.collapse)
  then have "\<forall>x \<in> ?N. \<exists>i. snd x = Some i \<and> i < length h" by blast
  from indexNodes_sets [OF this, of SIDIndex_empty] obtain idx where
    idx: "indexNodes h SIDIndex_empty (ted_Nodes ted) = Inr idx"
    "ix_mplsSIDs idx = (\<Union>x \<in> ?N. node_labels (h ! the (snd x)))"
    "ix_srv6SIDs idx = (\<Union>x \<in> ?N. list_addrs (node_lists (h ! the (snd x))))"
    "ix_srv6Locators idx = (\<Union>x \<in> ?N. list_locators (node_lists (h ! the (snd x))))"
    by (auto simp: SIDIndex_empty_def)
  have ran: "ran (tedViewOf (h, ted)) = (\<lambda>x. nodeView h (h ! the (snd x))) ` ?N"
    using ran_tedViewOf [OF ok] by (simp add: case_prod_unfold)
  have nil: "None \<notin> set (nd_Prefixes (h ! the (snd x)))" "None \<notin> set (nd_Links (h ! the (snd x)))"
    "None \<notin> set (nd_SRv6SIDs (h ! the (snd x)))" if "x \<in> ?N" for x
    using ent [OF that] node_ok_no_nil [of "(h, ted)"] by auto
  show ?thesis
  proof (rule that [of idx])
    show "NewSIDIndex h (Some ted) = Inr idx" using idx(1) by (simp add: NewSIDIndex_def)
    show "l \<in> ix_mplsSIDs idx \<longleftrightarrow> (\<exists>v \<in> ran (tedViewOf (h, ted)). unat l \<in> view_labels v)" for l
      using node_labels_view [OF nil] by (simp add: idx(2) ran)
    show "a \<in> ix_srv6SIDs idx \<longleftrightarrow> (\<exists>v \<in> ran (tedViewOf (h, ted)). \<exists>b. (a, b) \<in> view_sids v)" for a
      using list_addrs_view(1) [OF node_lists_view [OF nil]] by (simp add: idx(3) ran)
    show "p \<in> ix_srv6Locators idx \<longleftrightarrow> (\<exists>v \<in> ran (tedViewOf (h, ted)). \<exists>x \<in> view_sids v. sid_locator x p)" for p
      using list_addrs_view(2) [OF node_lists_view [OF nil]] by (simp add: idx(4) ran)
  qed
qed

lemma hasSRv6_alt:
  "hasSRv6 idx s \<longleftrightarrow> s6_Sid s \<in> ix_srv6SIDs idx \<or> s6_USid s \<and>
     (\<exists>loc \<in> ix_srv6Locators idx. prefix_Contains loc (s6_Sid s) \<and>
        (\<forall>lb ln lf la. s6_Structure s = Some [lb, ln, lf, la] \<longrightarrow> 0 < uint lb + uint ln \<longrightarrow>
           pfx_Bits loc \<le> uint lb + uint ln))"
  by (auto simp: hasSRv6_def Let_def not_less split: option.splits list.splits)

lemma SIDIndex_Has_advertised:
  assumes ok: "ted_ok asn (h, ted)"
  obtains idx where "NewSIDIndex h (Some ted) = Inr idx"
    "\<And>seg. SIDIndex_Has idx seg \<longleftrightarrow> advertised (tedViewOf (h, ted)) seg"
proof -
  obtain idx where idx: "NewSIDIndex h (Some ted) = Inr idx"
    "\<And>l. l \<in> ix_mplsSIDs idx \<longleftrightarrow> (\<exists>v \<in> ran (tedViewOf (h, ted)). unat l \<in> view_labels v)"
    "\<And>a. a \<in> ix_srv6SIDs idx \<longleftrightarrow> (\<exists>v \<in> ran (tedViewOf (h, ted)). \<exists>b. (a, b) \<in> view_sids v)"
    "\<And>p. p \<in> ix_srv6Locators idx \<longleftrightarrow> (\<exists>v \<in> ran (tedViewOf (h, ted)). \<exists>x \<in> view_sids v. sid_locator x p)"
    using NewSIDIndex_sets [OF ok] by blast
  have "SIDIndex_Has idx seg \<longleftrightarrow> advertised (tedViewOf (h, ted)) seg" for seg
  proof (cases seg)
    case (SRMPLS s)
    then show ?thesis by (simp add: idx(2))
  next
    case (SRv6 s)
    then show ?thesis unfolding SRv6 SIDIndex_Has.simps advertised.simps hasSRv6_alt idx(3) Bex_def idx(4) by blast
  qed
  with idx(1) that show ?thesis by blast
qed

lemma missingAmong_hops:
  "map ms_Hop (missingAmong idx segs) =
     map (\<lambda>i. int i + 1) (filter (\<lambda>i. \<not> list_all (SIDIndex_Has idx) (case segs ! i of None \<Rightarrow> [] | Some s \<Rightarrow> [s]) \<or> segs ! i = None) [0..<length segs])"
  for segs :: "Segment option list"
proof -
  let ?f = "\<lambda>(i, seg). case seg of
          None \<Rightarrow> [\<lparr>ms_Hop = int i + 1, ms_SID = ''<nil>''\<rparr>]
        | Some s \<Rightarrow> if SIDIndex_Has idx s then [] else [\<lparr>ms_Hop = int i + 1, ms_SID = SidString s\<rparr>]"
  have "map ms_Hop (concat (map ?f (enumerate k segs))) =
     map (\<lambda>i. int (k + i) + 1) (filter (\<lambda>i. \<not> list_all (SIDIndex_Has idx) (case segs ! i of None \<Rightarrow> [] | Some s \<Rightarrow> [s]) \<or> segs ! i = None) [0..<length segs])" for k
  proof (induction segs arbitrary: k)
    case (Cons x segs)
    have u: "[0..<length (x # segs)] = 0 # map Suc [0..<length segs]"
      by (simp add: upt_conv_Cons map_Suc_upt del: upt_Suc)
    show ?case
      unfolding u using Cons.IH [of "Suc k"]
      by (simp add: filter_map o_def split: option.splits)
  qed simp
  from this [of 0] show ?thesis by (simp add: missingAmong_def)
qed

text \<open>
  C17: The check of a segment list against the database: the hops that are reported missing are,
  in order and counted from 1, exactly those whose segment is nil or is not advertised by any
  node or link of the database, that is, neither a label of an SRGB or an adjacency, nor an
  End or End.X SID, nor a uSID inside a locator that is short enough.
\<close>

theorem MissingSegments_spec:
  assumes "ted_ok asn (h, ted)"
  shows "\<exists>ms. MissingSegments h (Some ted) segs = Inr ms \<and>
     map ms_Hop ms = map (\<lambda>i. int i + 1) (filter (\<lambda>i.
       case segs ! i of None \<Rightarrow> True | Some s \<Rightarrow> \<not> advertised (tedViewOf (h, ted)) s) [0..<length segs])"
proof -
  obtain idx where idx: "NewSIDIndex h (Some ted) = Inr idx"
    "\<And>seg. SIDIndex_Has idx seg \<longleftrightarrow> advertised (tedViewOf (h, ted)) seg"
    using SIDIndex_Has_advertised [OF assms] by blast
  have "MissingSegments h (Some ted) segs = Inr (missingAmong idx segs)"
    by (simp add: MissingSegments_def idx(1))
  moreover have "(\<not> list_all (SIDIndex_Has idx) (case s of None \<Rightarrow> [] | Some s \<Rightarrow> [s]) \<or> s = None) =
     (case s of None \<Rightarrow> True | Some s \<Rightarrow> \<not> advertised (tedViewOf (h, ted)) s)" for s
    by (cases s) (simp_all add: idx(2))
  ultimately show ?thesis using missingAmong_hops [of idx segs] by simp
qed

lemma MissingSegments_spec_witness:
  "\<exists>ms. MissingSegments [] (Some emptyTED) [Some (SRMPLS (NewSegmentSRMPLS 16001)), None] = Inr ms \<and>
     map ms_Hop ms = map (\<lambda>i. int i + 1) (filter (\<lambda>i.
       case [Some (SRMPLS (NewSegmentSRMPLS 16001)), None] ! i of None \<Rightarrow> True
       | Some s \<Rightarrow> \<not> advertised (tedViewOf ([], emptyTED)) s) [0..<length [Some (SRMPLS (NewSegmentSRMPLS 16001)), None]])"
  by (rule MissingSegments_spec [of 65000]) (simp add: ted_ok_def emptyTED_def)

end
