(* ===== verification/Server.thy ===== *)
theory Server
  imports Session_Requests Sid_Laws
begin

text \<open>
  \<open>src/pkg/server/server.go\<close>: the list of sessions, the database of links and the goroutines that
  change them. Sessions are shared by pointer between the list, their own goroutine and the gRPC
  handlers, so they live in a store and a pointer is an index into it. What runs under a mutex is
  one step.
\<close>

type_synonym sessionptr = nat

text \<open>\<open>pce_nextID\<close> is the variable \<open>sessionID\<close> of the accept loop of \<open>Serve\<close>.\<close>

record Server =
  pce_store :: "Session list"
  pce_sessionList :: "sessionptr list"
  pce_ted :: "tedState option"
  pce_asn :: u32
  pce_nextID :: u8

record PCEOptions =
  opt_PCEPAddr :: string
  opt_PCEPPort :: string
  opt_GRPCAddr :: string
  opt_GRPCPort :: string
  opt_TEDEnable :: bool
  opt_USidMode :: bool
  opt_ASN :: u32

definition setTED :: "tedState \<Rightarrow> Server \<Rightarrow> Server" where
  "setTED ted sv = sv\<lparr>pce_ted := Some ted\<rparr>"

text \<open>The server as \<open>NewPCE\<close> starts it.\<close>

definition NewPCE :: "PCEOptions \<Rightarrow> Server" where
  "NewPCE opts =
     (let sv = \<lparr>pce_store = [], pce_sessionList = [], pce_ted = None, pce_asn = opt_ASN opts, pce_nextID = 1\<rparr> in
      if opt_TEDEnable opts then setTED ([], \<lparr>ted_Nodes = []\<rparr>) sv else sv)"

text \<open>One batch from the BGP-LS channel: the elements and the nodes they point to.\<close>

definition updateTED :: "heap \<Rightarrow> TEDElem list \<Rightarrow> Server \<Rightarrow> Server result" where
  "updateTED h tedElems sv =
     bindE (LsTED_Update tedElems (pce_asn sv) (h, \<lparr>ted_Nodes = []\<rparr>)) (\<lambda>ted. Inr (setTED ted sv))"

section \<open>The listening address\<close>

definition maxUint16 :: int where "maxUint16 = 65535"

definition listenAddr :: "string \<Rightarrow> string \<Rightarrow> (addr \<times> u16) result" where
  "listenAddr address port =
     bindE (wrapE ''failed to parse address'' (ParseAddr address)) (\<lambda>a.
     bindE (wrapE ''failed to convert port'' (Atoi port)) (\<lambda>p.
     if p < 0 \<or> p > maxUint16 then errorf ''invalid PCEP listen port'' []
     else Inr (a, word_of_int p)))"

section \<open>Sessions\<close>

definition acceptSession :: "addr \<Rightarrow> TCPConn \<Rightarrow> Server \<Rightarrow> Server" where
  "acceptSession peerAddr tcpConn sv =
     (let ss = NewSession (pce_nextID sv) peerAddr tcpConn (pce_ted sv) (pce_asn sv) in
      sv\<lparr>pce_store := pce_store sv @ [ss], pce_sessionList := pce_sessionList sv @ [length (pce_store sv)],
         pce_nextID := pce_nextID sv + 1\<rparr>)"

text \<open>
  The accept loop of \<open>Serve\<close> on the first outcomes of \<open>AcceptTCP\<close>, each an error or a connection with what
  \<open>ParseAddrPort\<close> makes of its remote address. No result means that the loop still waits. The sessions'
  goroutines, which run between two iterations, are steps of their own (below).
\<close>

fun acceptLoop :: "(addr result \<times> TCPConn) result list \<Rightarrow> Server \<Rightarrow> unit result option \<times> Server" where
  "acceptLoop [] sv = (None, sv)"
| "acceptLoop (accepted # rest) sv =
     (case wrapE ''failed to accept TCP connection'' accepted of
        Inl e \<Rightarrow> (Some (Inl e), sv)
      | Inr (remote, tcpConn) \<Rightarrow>
          (case wrapE ''failed to parse remote address'' remote of
             Inl e \<Rightarrow> (Some (Inl e), sv)
           | Inr peerAddr \<Rightarrow> acceptLoop rest (acceptSession peerAddr tcpConn sv)))"

definition Serve ::
    "(addr \<times> u16 \<Rightarrow> unit result) \<Rightarrow> (addr result \<times> TCPConn) result list \<Rightarrow> string \<Rightarrow> string \<Rightarrow> Server \<Rightarrow> unit result option \<times> Server" where
  "Serve listen accepts address port sv =
     (case listenAddr address port of
        Inl e \<Rightarrow> (Some (Inl e), sv)
      | Inr localAddr \<Rightarrow>
          (case wrapE ''failed to listen on PCEP port'' (listen localAddr) of
             Inl e \<Rightarrow> (Some (Inl e), sv)
           | Inr _ \<Rightarrow> acceptLoop accepts sv))"

definition sessionAt :: "Server \<Rightarrow> sessionptr \<Rightarrow> Session" where
  "sessionAt sv p = pce_store sv ! p"

definition updateSession :: "sessionptr \<Rightarrow> Session \<Rightarrow> Server \<Rightarrow> Server" where
  "updateSession p ss sv = sv\<lparr>pce_store := (pce_store sv)[p := ss]\<rparr>"

text \<open>The position at which the loop of \<open>closeSession\<close> stops.\<close>

fun closeIndex :: "Server \<Rightarrow> u8 \<Rightarrow> sessionptr list \<Rightarrow> nat option" where
  "closeIndex sv sid [] = None"
| "closeIndex sv sid (v # vs) =
     (if ss_sessionID (sessionAt sv v) = sid then Some 0 else map_option Suc (closeIndex sv sid vs))"

definition closeConn :: "Session \<Rightarrow> Session" where
  "closeConn ss = ss\<lparr>ss_tcpConn := (ss_tcpConn ss)\<lparr>tcp_closed := True\<rparr>\<rparr>"

definition closeSession :: "sessionptr \<Rightarrow> Server \<Rightarrow> Server" where
  "closeSession p sv =
     (let sv = updateSession p (clearSRPolicyIntents (closeConn (sessionAt sv p))) sv in
      case closeIndex sv (ss_sessionID (sessionAt sv p)) (pce_sessionList sv) of
        None \<Rightarrow> sv
      | Some i \<Rightarrow> sv\<lparr>pce_sessionList := swapRemove i (pce_sessionList sv)\<rparr>)"

definition SearchSession :: "Server \<Rightarrow> addr \<Rightarrow> bool \<Rightarrow> sessionptr option" where
  "SearchSession sv peerAddr onlySynced =
     List.find (\<lambda>p. ss_peerAddr (sessionAt sv p) = peerAddr \<and> (\<not> onlySynced \<or> ss_isSynced (sessionAt sv p)))
       (pce_sessionList sv)"

definition Sessions :: "Server \<Rightarrow> sessionptr list" where
  "Sessions sv = pce_sessionList sv"

text \<open>\<open>srPolicies[ss.peerAddr] = ss.SRPolicies()\<close> for the synchronized sessions, in order.\<close>

definition Server_SRPolicies :: "Server \<Rightarrow> (addr \<times> SRPolicy list) list" where
  "Server_SRPolicies sv =
     foldl (\<lambda>m p. if ss_isSynced (sessionAt sv p)
         then AList.update (ss_peerAddr (sessionAt sv p)) (SRPolicies (sessionAt sv p)) m else m)
       [] (pce_sessionList sv)"

section \<open>Steps of the server\<close>

text \<open>
  The goroutines of the server: a connection is accepted, a session takes one of its atomic steps, a
  session is closed (by its own goroutine or by the gRPC handler), or a new TED is published.
\<close>

inductive server_step :: "Server \<Rightarrow> Server \<Rightarrow> bool" where
  accept: "server_step sv (acceptSession peerAddr tcpConn sv)"
| session: "p < length (pce_store sv) \<Longrightarrow> session_step (sessionAt sv p) ss \<Longrightarrow> server_step sv (updateSession p ss sv)"
| close: "p < length (pce_store sv) \<Longrightarrow> server_step sv (closeSession p sv)"
| ted: "updateTED h es sv = Inr sv' \<Longrightarrow> server_step sv sv'"

end
