(* ===== verification/Server_Laws.thy ===== *)
theory Server_Laws
  imports Server
begin

text \<open>
  What holds of the server however its goroutines interleave: the list of sessions is a set of
  pointers into the store, sessions are numbered by the order of their acceptance modulo 256, and
  each satisfies the invariant of theory Session_Props; when a close removes the right session.
\<close>

definition server_ok :: "Server \<Rightarrow> bool" where
  "server_ok sv \<longleftrightarrow>
     (\<forall>p < length (pce_store sv). ss_sessionID (sessionAt sv p) = word_of_nat (Suc p) \<and> session_ok (sessionAt sv p)) \<and>
     pce_nextID sv = word_of_nat (Suc (length (pce_store sv))) \<and>
     distinct (pce_sessionList sv) \<and> (\<forall>p \<in> set (pce_sessionList sv). p < length (pce_store sv))"

lemma sessionAt_update: "p < length (pce_store sv) \<Longrightarrow> sessionAt (updateSession p ss sv) q = (if q = p then ss else sessionAt sv q)"
  by (simp add: sessionAt_def updateSession_def nth_list_update)

lemma updateSession_simps [simp]:
  "pce_sessionList (updateSession p ss sv) = pce_sessionList sv" "length (pce_store (updateSession p ss sv)) = length (pce_store sv)"
  "pce_nextID (updateSession p ss sv) = pce_nextID sv" "pce_ted (updateSession p ss sv) = pce_ted sv"
  "pce_asn (updateSession p ss sv) = pce_asn sv"
  by (simp_all add: updateSession_def)

lemma server_ok_update:
  assumes "server_ok sv" "p < length (pce_store sv)" "session_ok ss" "ss_sessionID ss = ss_sessionID (sessionAt sv p)"
  shows "server_ok (updateSession p ss sv)"
  using assms by (auto simp: server_ok_def sessionAt_update)

lemma server_ok_list:
  assumes "server_ok sv" "distinct ps" "set ps \<subseteq> set (pce_sessionList sv)"
  shows "server_ok (sv\<lparr>pce_sessionList := ps\<rparr>)"
  using assms by (auto simp: server_ok_def sessionAt_def)

lemma session_new: "session_ok (NewSession sid a conn ted asn)"
  by (simp add: NewSession_def session_ok_def db_ok_def intents_ok_def)

lemma server_ok_accept: "server_ok sv \<Longrightarrow> server_ok (acceptSession a conn sv)"
  using session_new
  by (auto simp: server_ok_def acceptSession_def sessionAt_def NewSession_def nth_append less_Suc_eq Let_def)

lemma closeIndex_Some: "closeIndex sv sid ps = Some i \<Longrightarrow>
    i < length ps \<and> ss_sessionID (sessionAt sv (ps ! i)) = sid \<and> (\<forall>j < i. ss_sessionID (sessionAt sv (ps ! j)) \<noteq> sid)"
proof (induction ps arbitrary: i)
  case (Cons p ps)
  then show ?case by (fastforce split: if_splits simp: less_Suc_eq_0_disj)
qed simp

lemma closeIndex_None: "closeIndex sv sid ps = None \<longleftrightarrow> sid \<notin> (\<lambda>p. ss_sessionID (sessionAt sv p)) ` set ps"
  by (induction ps) auto

lemma closed_ok: "session_ok ss \<Longrightarrow> session_ok (clearSRPolicyIntents (closeConn ss))"
  by (simp add: session_ok_def db_ok_def intents_ok_def clearSRPolicyIntents_def closeConn_def)

lemma closed_origin [simp]: "sameOrigin ss (clearSRPolicyIntents (closeConn ss))"
  by (simp add: sameOrigin_def clearSRPolicyIntents_def closeConn_def)

lemma swapRemove_distinct:
  assumes "distinct xs" "i < length xs"
  shows "distinct (swapRemove i xs) \<and> set (swapRemove i xs) = set xs - {xs ! i}"
proof -
  have m: "mset xs = add_mset (xs ! i) (mset (swapRemove i xs))"
    using swapRemove_mset [OF assms(2)] assms(2) by (simp add: insert_DiffM2)
  then have "distinct (xs ! i # swapRemove i xs)" and "set xs = insert (xs ! i) (set (swapRemove i xs))"
    using assms(1) by (metis mset.simps(2) mset_eq_imp_distinct_iff, metis list.simps(15) mset.simps(2) mset_eq_setD)
  then show ?thesis by auto
qed

text \<open>What closing a session does, whichever position the loop stops at.\<close>

lemma closeSession_effect:
  assumes "server_ok sv" "p < length (pce_store sv)"
  defines "sid \<equiv> ss_sessionID (sessionAt sv p)"
  shows "server_ok (closeSession p sv)"
    and "pce_store (closeSession p sv) = (pce_store sv)[p := clearSRPolicyIntents (closeConn (sessionAt sv p))]"
    and "set (pce_sessionList (closeSession p sv)) = set (pce_sessionList sv) -
      (case closeIndex sv sid (pce_sessionList sv) of None \<Rightarrow> {} | Some i \<Rightarrow> {pce_sessionList sv ! i})"
    and "distinct (pce_sessionList (closeSession p sv))"
proof -
  let ?sv = "updateSession p (clearSRPolicyIntents (closeConn (sessionAt sv p))) sv"
  have ids: "ss_sessionID (sessionAt ?sv q) = ss_sessionID (sessionAt sv q)" for q
    using assms(2) by (simp add: sessionAt_update clearSRPolicyIntents_def closeConn_def)
  have ci: "closeIndex ?sv sid ps = closeIndex sv sid ps" for ps
    by (induction ps) (simp_all add: ids)
  have ok: "server_ok ?sv"
    using assms(1,2) by (intro server_ok_update closed_ok) (auto simp: server_ok_def clearSRPolicyIntents_def closeConn_def)
  have d: "distinct (pce_sessionList sv)" using assms(1) by (simp add: server_ok_def)
  have c: "closeSession p sv = (case closeIndex sv sid (pce_sessionList sv) of None \<Rightarrow> ?sv
      | Some i \<Rightarrow> ?sv\<lparr>pce_sessionList := swapRemove i (pce_sessionList sv)\<rparr>)"
    using ids [of p] by (simp add: closeSession_def ci [unfolded sid_def] Let_def sid_def split: option.split)
  have s: "distinct (swapRemove i (pce_sessionList sv)) \<and> set (swapRemove i (pce_sessionList sv)) = set (pce_sessionList sv) - {pce_sessionList sv ! i}"
    if "closeIndex sv sid (pce_sessionList sv) = Some i" for i
    using swapRemove_distinct [OF d] closeIndex_Some [OF that] by blast
  show "server_ok (closeSession p sv)"
    using ok s by (auto simp: c split: option.split intro!: server_ok_list)
  show "pce_store (closeSession p sv) = (pce_store sv)[p := clearSRPolicyIntents (closeConn (sessionAt sv p))]"
    by (simp add: c updateSession_def split: option.split)
  show "set (pce_sessionList (closeSession p sv)) = set (pce_sessionList sv) -
      (case closeIndex sv sid (pce_sessionList sv) of None \<Rightarrow> {} | Some i \<Rightarrow> {pce_sessionList sv ! i})"
    "distinct (pce_sessionList (closeSession p sv))"
    using s d by (auto simp: c split: option.split)
qed

lemma server_step_ok: "server_step sv sv' \<Longrightarrow> server_ok sv \<Longrightarrow> server_ok sv'"
proof (induction rule: server_step.induct)
  case (session p sv ss)
  then show ?case using session_step_ok [OF session(2)] server_ok_update [OF session(3,1)]
    by (auto simp: server_ok_def sameOrigin_def)
next
  case (ted h es sv sv')
  then show ?case by (auto simp: updateTED_def setTED_def server_ok_def sessionAt_def bindE_eq_Inr)
qed (simp_all add: server_ok_accept closeSession_effect)

lemma server_steps_ok: "server_step\<^sup>*\<^sup>* sv sv' \<Longrightarrow> server_ok sv \<Longrightarrow> server_ok sv'"
  by (induction rule: rtranclp_induct) (auto dest: server_step_ok)

text \<open>Whatever it accepts, \<open>Serve\<close> only takes steps of the server.\<close>

lemma acceptLoop_steps: "server_step\<^sup>*\<^sup>* sv (snd (acceptLoop accepts sv))"
proof (induction accepts sv rule: acceptLoop.induct)
  case (2 accepted rest sv)
  have "server_step\<^sup>*\<^sup>* sv (snd (acceptLoop rest (acceptSession a conn sv)))"
    if "server_step\<^sup>*\<^sup>* (acceptSession a conn sv) (snd (acceptLoop rest (acceptSession a conn sv)))" for a conn
    using server_step.accept that by (rule converse_rtranclp_into_rtranclp)
  with 2 show ?case by (auto split: sum.split prod.split)
qed simp

lemma Serve_steps: "server_step\<^sup>*\<^sup>* sv (snd (Serve listen accepts address port sv))"
  using acceptLoop_steps by (auto simp: Serve_def split: sum.split)

lemma server_start: "server_ok (NewPCE opts)"
  by (simp add: NewPCE_def setTED_def server_ok_def Let_def)

lemma mod_window: "a mod k = b mod k \<Longrightarrow> a \<le> b \<Longrightarrow> b < a + k \<Longrightarrow> a = (b :: nat)"
  using dvd_imp_le [of k "b - a"] mod_eq_dvd_iff_nat [of a b k] by (cases "a = b") auto

lemma id_injective:
  assumes "server_ok sv" "p < length (pce_store sv)" "q < length (pce_store sv)"
  shows "ss_sessionID (sessionAt sv p) = ss_sessionID (sessionAt sv q) \<longleftrightarrow> p mod 256 = q mod 256"
proof -
  have "ss_sessionID (sessionAt sv p) = word_of_nat (Suc p)" "ss_sessionID (sessionAt sv q) = word_of_nat (Suc q)"
    using assms by (simp_all add: server_ok_def)
  then have "ss_sessionID (sessionAt sv p) = ss_sessionID (sessionAt sv q) \<longleftrightarrow> Suc p mod 256 = Suc q mod 256"
    by (simp add: word_of_nat_eq_iff take_bit_nat_def del: of_nat_Suc)
  also have "\<dots> \<longleftrightarrow> p mod 256 = q mod 256" by (simp add: mod_Suc split: if_splits)
  finally show ?thesis .
qed

text \<open>
  C23: Whatever the order in which connections are accepted, sessions step and are closed and TEDs are
  published: the session list holds no pointer twice and none that dangles, every session satisfies
  its own invariant, and it has kept the address, the session ID and the TED that it was accepted
  with - a TED published later reaches new sessions only.
\<close>

theorem server_invariant:
  assumes "server_step\<^sup>*\<^sup>* (NewPCE opts) sv" "server_step\<^sup>*\<^sup>* sv sv'"
  shows "distinct (pce_sessionList sv') \<and> list_all (\<lambda>p. p < length (pce_store sv')) (pce_sessionList sv') \<and>
    list_all session_ok (pce_store sv') \<and> length (pce_store sv) \<le> length (pce_store sv') \<and>
    list_all2 sameOrigin (pce_store sv) (take (length (pce_store sv)) (pce_store sv'))"
proof -
  have ok: "server_ok sv" using server_steps_ok [OF assms(1) server_start] .
  have step: "length (pce_store a) \<le> length (pce_store b) \<and>
      (\<forall>p < length (pce_store a). sameOrigin (sessionAt a p) (sessionAt b p))"
    if "server_step a b" "server_ok a" for a b
    using that
  proof (induction rule: server_step.induct)
    case (session p a ss)
    then show ?case using session_step_ok [OF session(2)] by (auto simp: sessionAt_update server_ok_def)
  next
    case (close p a)
    then show ?case using closeSession_effect(2) [OF close(2,1)] by (simp add: sessionAt_def nth_list_update)
  qed (auto simp: acceptSession_def sessionAt_def nth_append Let_def updateTED_def setTED_def bindE_eq_Inr)
  have steps: "server_ok sv' \<and> length (pce_store sv) \<le> length (pce_store sv') \<and>
      (\<forall>p < length (pce_store sv). sameOrigin (sessionAt sv p) (sessionAt sv' p))"
    using assms(2)
  proof (induction rule: rtranclp_induct)
    case (step b c)
    then show ?case using \<open>\<And>a b. \<lbrakk>server_step a b; server_ok a\<rbrakk> \<Longrightarrow> _\<close> [OF step(2)] server_step_ok [OF step(2)]
      by (meson less_le_trans sameOrigin_trans order_trans)
  qed (simp add: ok)
  then show ?thesis
    by (auto simp: server_ok_def list_all_iff list_all2_conv_all_nth sessionAt_def in_set_conv_nth)
qed

text \<open>
  Closing a session removes exactly that session as long as no session of the list, and not the
  one closed, is 256 or more acceptances old; the other sessions and their order of events are
  untouched, and closing a session twice is closing it once.
\<close>

theorem closeSession_removes:
  assumes "server_step\<^sup>*\<^sup>* (NewPCE opts) sv" "p < length (pce_store sv)" "length (pce_store sv) \<le> p + 256"
    and "list_all (\<lambda>q. length (pce_store sv) \<le> q + 256) (pce_sessionList sv)"
  shows "distinct (pce_sessionList (closeSession p sv)) \<and>
    set (pce_sessionList (closeSession p sv)) = set (pce_sessionList sv) - {p} \<and>
    pce_store (closeSession p sv) = (pce_store sv)[p := clearSRPolicyIntents (closeConn (sessionAt sv p))]"
proof -
  have ok: "server_ok sv" using server_steps_ok [OF assms(1) server_start] .
  have inj: "q = p" if "q \<in> set (pce_sessionList sv)" "ss_sessionID (sessionAt sv q) = ss_sessionID (sessionAt sv p)" for q
  proof -
    have q: "q < length (pce_store sv)" "length (pce_store sv) \<le> q + 256"
      using ok assms(4) that(1) by (auto simp: server_ok_def list_all_iff)
    then have "q mod 256 = p mod 256" using id_injective [OF ok q(1) assms(2)] that(2) by simp
    then show ?thesis using q assms(2,3) mod_window [of q 256 p] mod_window [of p 256 q] by (cases "q \<le> p") auto
  qed
  let ?i = "closeIndex sv (ss_sessionID (sessionAt sv p)) (pce_sessionList sv)"
  have "(case ?i of None \<Rightarrow> {} | Some i \<Rightarrow> {pce_sessionList sv ! i}) = (if p \<in> set (pce_sessionList sv) then {p} else {})"
  proof (cases ?i)
    case None
    then have "p \<notin> set (pce_sessionList sv)" by (auto simp: closeIndex_None)
    with None show ?thesis by simp
  next
    case (Some i)
    then have "pce_sessionList sv ! i \<in> set (pce_sessionList sv)" "pce_sessionList sv ! i = p"
      using inj closeIndex_Some [OF Some] by simp_all
    with Some show ?thesis by simp
  qed
  then show ?thesis using closeSession_effect [OF ok assms(2)] by auto
qed

lemma acceptSession_simps [simp]:
  "length (pce_store (acceptSession a conn sv)) = Suc (length (pce_store sv))"
  "pce_sessionList (acceptSession a conn sv) = pce_sessionList sv @ [length (pce_store sv)]"
  by (simp_all add: acceptSession_def Let_def)

lemma distinct_singleton:
  assumes "distinct xs" "set xs = {a}"
  shows "xs = [a]"
proof (cases xs)
  case (Cons x ys)
  with assms have x: "x = a" "x \<notin> set ys" "set ys \<subseteq> {a}" by auto
  then have "set ys = {}" by (auto simp: subset_singleton_iff)
  with Cons x(1) show ?thesis by simp
qed (use assms in simp)

text \<open>Connections that come and go: each is accepted and closed at once.\<close>

fun flaps :: "nat \<Rightarrow> addr \<Rightarrow> TCPConn \<Rightarrow> Server \<Rightarrow> Server" where
  "flaps 0 a conn sv = sv"
| "flaps (Suc n) a conn sv = (let sv = flaps n a conn sv in closeSession (length (pce_store sv)) (acceptSession a conn sv))"

lemma flaps_reached: "server_step\<^sup>*\<^sup>* sv (flaps n a conn sv)"
proof (induction n)
  case (Suc n)
  let ?sv = "flaps n a conn sv"
  have "server_step ?sv (acceptSession a conn ?sv)" by (rule server_step.accept)
  moreover have "server_step (acceptSession a conn ?sv) (closeSession (length (pce_store ?sv)) (acceptSession a conn ?sv))"
    by (rule server_step.close) simp
  ultimately show ?case using Suc by (simp add: Let_def)
qed simp

lemma flaps_state:
  assumes "server_ok sv" "length (pce_store sv) = 1" "pce_sessionList sv = [0]" "n \<le> 255"
  shows "length (pce_store (flaps n a conn sv)) = Suc n \<and> pce_sessionList (flaps n a conn sv) = [0] \<and>
    server_ok (flaps n a conn sv)"
  using assms(4)
proof (induction n)
  case (Suc n)
  let ?sv = "flaps n a conn sv"
  let ?sv' = "acceptSession a conn ?sv"
  have IH: "length (pce_store ?sv) = Suc n" "pce_sessionList ?sv = [0]" "server_ok ?sv" using Suc by simp_all
  then have ok: "server_ok ?sv'" "length (pce_store ?sv') = Suc (Suc n)" "pce_sessionList ?sv' = [0, Suc n]"
    using server_ok_accept [OF IH(3)] by simp_all
  then have "ss_sessionID (sessionAt ?sv' 0) \<noteq> ss_sessionID (sessionAt ?sv' (Suc n))"
    using id_injective [OF ok(1), of 0 "Suc n"] Suc.prems by simp
  then have "closeIndex ?sv' (ss_sessionID (sessionAt ?sv' (Suc n))) (pce_sessionList ?sv') = Some 1"
    unfolding ok(3) by simp
  then have "pce_sessionList (closeSession (Suc n) ?sv') = [0]"
    using closeSession_effect(3,4) [OF ok(1), of "Suc n"] ok(2) unfolding ok(3) by (intro distinct_singleton) auto
  then show ?case
    using closeSession_effect(1,2) [OF ok(1), of "Suc n"] ok(2) IH(1) by (simp add: Let_def)
qed (use assms in simp)

text \<open>
  C35: Session IDs have 8 bits and are never checked: after a session has seen 255 other connections
  come and go, the next connection gets its ID, and closing that one takes the old session, which is
  still up, out of the session list, and leaves the closed one in it.
\<close>

theorem session_ID_reused:
  "let sv = acceptSession b conn' (flaps 255 b conn' (acceptSession a conn (NewPCE opts))) in
     server_step\<^sup>*\<^sup>* (NewPCE opts) sv \<and> pce_sessionList sv = [0, 256] \<and>
     pce_sessionList (closeSession 256 sv) = [256] \<and>
     tcp_closed (ss_tcpConn (sessionAt (closeSession 256 sv) 256)) \<and>
     sessionAt (closeSession 256 sv) 0 = sessionAt sv 0"
proof -
  let ?s0 = "acceptSession a conn (NewPCE opts)"
  let ?s1 = "flaps 255 b conn' ?s0"
  let ?sv = "acceptSession b conn' ?s1"
  have s0: "server_ok ?s0" "length (pce_store ?s0) = 1" "pce_sessionList ?s0 = [0]"
    using server_ok_accept [OF server_start] by (simp_all add: NewPCE_def setTED_def Let_def)
  note s1 = flaps_state [OF s0, of 255]
  then have s1: "length (pce_store ?s1) = 256" "pce_sessionList ?s1 = [0]" "server_ok ?s1" by simp_all
  then have sv: "server_ok ?sv" "length (pce_store ?sv) = 257" "pce_sessionList ?sv = [0, 256]"
    using server_ok_accept [OF s1(3)] by simp_all
  have "server_step\<^sup>*\<^sup>* (NewPCE opts) ?s0" by (rule r_into_rtranclp) (rule server_step.accept)
  also have "server_step\<^sup>*\<^sup>* ?s0 ?s1" by (rule flaps_reached)
  also have "server_step ?s1 ?sv" by (rule server_step.accept)
  finally have r: "server_step\<^sup>*\<^sup>* (NewPCE opts) ?sv" .
  have "ss_sessionID (sessionAt ?sv 0) = ss_sessionID (sessionAt ?sv 256)"
    using id_injective [OF sv(1), of 0 256] sv(2) by simp
  then have "closeIndex ?sv (ss_sessionID (sessionAt ?sv 256)) (pce_sessionList ?sv) = Some 0" unfolding sv(3) by simp
  then have "pce_sessionList (closeSession 256 ?sv) = [256]"
    using closeSession_effect(3,4) [OF sv(1), of 256] sv(2) unfolding sv(3) by (intro distinct_singleton) auto
  moreover have "pce_store (closeSession 256 ?sv) = (pce_store ?sv)[256 := clearSRPolicyIntents (closeConn (sessionAt ?sv 256))]"
    using closeSession_effect(2) [OF sv(1), of 256] sv(2) by simp
  ultimately show ?thesis
    using r sv(2,3) by (simp add: Let_def sessionAt_def clearSRPolicyIntents_def closeConn_def)
qed

section \<open>Witnesses\<close>

definition sampleOptions :: PCEOptions where
  "sampleOptions = \<lparr>opt_PCEPAddr = ''0.0.0.0'', opt_PCEPPort = ''4189'', opt_GRPCAddr = ''127.0.0.1'', opt_GRPCPort = ''50052'',
     opt_TEDEnable = True, opt_USidMode = False, opt_ASN = 65000\<rparr>"

definition sampleServer :: Server where
  "sampleServer = acceptSession (Addr4 0x0A000002) (sampleConn []) (acceptSession (Addr4 0x0A000001) (sampleConn []) (NewPCE sampleOptions))"

lemma sampleServer_reached: "server_step\<^sup>*\<^sup>* (NewPCE sampleOptions) sampleServer"
  unfolding sampleServer_def
  by (rule rtranclp.rtrancl_into_rtrancl [OF r_into_rtranclp]) (rule server_step.accept)+

lemma server_invariant_witness:
  "list_all2 sameOrigin (pce_store sampleServer) (take (length (pce_store sampleServer)) (pce_store (closeSession 0 sampleServer)))"
proof -
  have "server_step sampleServer (closeSession 0 sampleServer)"
    by (rule server_step.close) (simp add: sampleServer_def)
  from server_invariant [OF sampleServer_reached r_into_rtranclp [of server_step, OF this]] show ?thesis by blast
qed

lemma closeSession_removes_witness: "set (pce_sessionList (closeSession 0 sampleServer)) = {1}"
  using closeSession_removes [OF sampleServer_reached, of 0]
  by (simp add: sampleServer_def NewPCE_def setTED_def Let_def)

end
