(* ===== verification/Api.thy ===== *)
theory Api
  imports Server_Laws Cspf
begin

text \<open>
  The requests of \<open>src/pkg/server/grpc_server.go\<close> that change something: CreateSRPolicy,
  DeleteSRPolicy and DeleteSession, with the validation of their input and the building of segment
  lists. The messages of \<open>src/api/pola/v1\<close> are records; a nil element of a repeated field reads
  like an empty one through its getters, so elements are not optional. Protobuf enums are integers.
  A handler that returns an error has no other effect on its caller, so its result is a sum.
\<close>

section \<open>Messages\<close>

record pbSegment =
  ps_Sid :: string
  ps_SidStructure :: string
  ps_LocalAddr :: string
  ps_RemoteAddr :: string

record pbWaypoint =
  pw_RouterId :: string
  pw_Sid :: string

text \<open>\<open>pp_PcepSessionAddr\<close> is compared with nil, so it is optional.\<close>

record pbSRPolicy =
  pp_PcepSessionAddr :: "bytes option"
  pp_SrcAddr :: bytes
  pp_DstAddr :: bytes
  pp_SrcRouterId :: string
  pp_DstRouterId :: string
  pp_Color :: u32
  pp_Preference :: u32
  pp_PolicyName :: string
  pp_Type :: int
  pp_SegmentList :: "pbSegment list"
  pp_Metric :: int
  pp_Waypoints :: "pbWaypoint list"
  pp_PlspId :: u32
  pp_LspId :: u32
  pp_State :: int

record CreateSRPolicyRequest =
  cr_SrPolicy :: "pbSRPolicy option"
  cr_Asn :: u32
  cr_DisablePathCompute :: bool
  cr_NoSidValidate :: bool

record DeleteSRPolicyRequest =
  dr_SrPolicy :: "pbSRPolicy option"
  dr_Asn :: u32

abbreviation (input) SR_POLICY_TYPE_UNSPECIFIED :: int where "SR_POLICY_TYPE_UNSPECIFIED \<equiv> 0"
abbreviation (input) SR_POLICY_TYPE_EXPLICIT :: int where "SR_POLICY_TYPE_EXPLICIT \<equiv> 1"
abbreviation (input) SR_POLICY_TYPE_DYNAMIC :: int where "SR_POLICY_TYPE_DYNAMIC \<equiv> 2"
abbreviation (input) METRIC_TYPE_UNSPECIFIED :: int where "METRIC_TYPE_UNSPECIFIED \<equiv> 0"
abbreviation (input) METRIC_TYPE_IGP :: int where "METRIC_TYPE_IGP \<equiv> 1"
abbreviation (input) METRIC_TYPE_TE :: int where "METRIC_TYPE_TE \<equiv> 2"
abbreviation (input) METRIC_TYPE_DELAY :: int where "METRIC_TYPE_DELAY \<equiv> 3"
abbreviation (input) METRIC_TYPE_HOPCOUNT :: int where "METRIC_TYPE_HOPCOUNT \<equiv> 4"

definition pbSRPolicy_zero :: pbSRPolicy where
  "pbSRPolicy_zero = \<lparr>pp_PcepSessionAddr = None, pp_SrcAddr = [], pp_DstAddr = [], pp_SrcRouterId = [], pp_DstRouterId = [],
     pp_Color = 0, pp_Preference = 0, pp_PolicyName = [], pp_Type = SR_POLICY_TYPE_UNSPECIFIED, pp_SegmentList = [],
     pp_Metric = METRIC_TYPE_UNSPECIFIED, pp_Waypoints = [], pp_PlspId = 0, pp_LspId = 0, pp_State = 0\<rparr>"

text \<open>A getter of a nil message returns the zero value.\<close>

definition GetSrPolicy :: "pbSRPolicy option \<Rightarrow> pbSRPolicy" where
  "GetSrPolicy p = (case p of None \<Rightarrow> pbSRPolicy_zero | Some p \<Rightarrow> p)"

definition sessionAddrBytes :: "pbSRPolicy \<Rightarrow> bytes" where
  "sessionAddrBytes p = (case pp_PcepSessionAddr p of None \<Rightarrow> [] | Some bs \<Rightarrow> bs)"

section \<open>Validation of requests\<close>

type_synonym ValidationKind = string

definition ValidationAdd :: ValidationKind where "ValidationAdd = ''Add''"
definition ValidationAddDisablePathCompute :: ValidationKind where
  "ValidationAddDisablePathCompute = ''AddDisablePathCompute''"
definition ValidationDelete :: ValidationKind where "ValidationDelete = ''Delete''"

definition requireE :: "(bool \<times> string) list \<Rightarrow> unit result" where
  "requireE checks = (case List.find (\<lambda>(ok, msg). \<not> ok) checks of None \<Rightarrow> Inr () | Some (_, msg) \<Rightarrow> errorf msg [])"

definition validator :: "ValidationKind \<Rightarrow> (pbSRPolicy \<Rightarrow> u32 \<Rightarrow> unit result) option" where
  "validator kind =
     (if kind = ValidationAdd then Some (\<lambda>policy asn. requireE
        [(pp_PcepSessionAddr policy \<noteq> None, ''policy.PCEP session address must not be nil''),
         (pp_Color policy \<noteq> 0, ''policy.Color must not be zero''),
         (pp_SrcRouterId policy \<noteq> [], ''policy.SrcRouterId must not be empty''),
         (pp_DstRouterId policy \<noteq> [], ''policy.DstRouterId must not be empty'')])
      else if kind = ValidationAddDisablePathCompute then Some (\<lambda>policy asn. requireE
        [(pp_PcepSessionAddr policy \<noteq> None, ''policy.PCEP session address must not be nil''),
         (pp_Color policy \<noteq> 0, ''policy.Color must not be zero''),
         (pp_SrcAddr policy \<noteq> [], ''policy.SrcAddr must not be empty''),
         (pp_DstAddr policy \<noteq> [], ''policy.DstAddr must not be empty''),
         (pp_SegmentList policy \<noteq> [], ''policy.SegmentList must not be empty'')])
      else if kind = ValidationDelete then Some (\<lambda>policy asn. requireE
        [(pp_PcepSessionAddr policy \<noteq> None, ''policy.PCEP session address must not be nil''),
         (pp_Color policy \<noteq> 0, ''policy.Color must not be zero''),
         (pp_DstAddr policy \<noteq> [], ''policy.DstAddr must not be empty''),
         (pp_PolicyName policy \<noteq> [], ''policy.PolicyName must not be empty'')])
      else None)"

definition validate :: "pbSRPolicy option \<Rightarrow> u32 \<Rightarrow> ValidationKind \<Rightarrow> unit result" where
  "validate inputSRPolicy asn validationKind =
     (case inputSRPolicy of
        None \<Rightarrow> errorf ''validate error, input is nil'' []
      | Some policy \<Rightarrow>
          if validationKind = ValidationAdd \<and> asn = 0 then errorf ''validate error, ASN must not be zero'' []
          else case validator validationKind of
              Some validateFunc \<Rightarrow> wrapE ''validate error'' (validateFunc policy asn)
            | None \<Rightarrow> errorf ''validate error: unknown validation kind'' [])"

definition validateCreateSRPolicy :: "CreateSRPolicyRequest \<Rightarrow> bool \<Rightarrow> unit result" where
  "validateCreateSRPolicy req disablePathCompute =
     (if disablePathCompute then validate (cr_SrPolicy req) (cr_Asn req) ValidationAddDisablePathCompute
      else validate (cr_SrPolicy req) (cr_Asn req) ValidationAdd)"

section \<open>Segments of a request\<close>

text \<open>\<open>strings.Split(s, ",")\<close>.\<close>

fun splitComma :: "string \<Rightarrow> string list" where
  "splitComma [] = [[]]"
| "splitComma (c # s) = (if c = CHR '','' then [] # splitComma s
     else case splitComma s of [] \<Rightarrow> [[c]] | p # ps \<Rightarrow> (c # p) # ps)"

text \<open>\<open>strings.TrimSpace\<close>: the encodings of the white space of Unicode are cut at both ends.\<close>

definition whiteSpace :: "string list" where
  "whiteSpace = map (map (\<lambda>n :: nat. char_of n))
     ([[9], [10], [11], [12], [13], [32], [0xC2, 0x85], [0xC2, 0xA0], [0xE1, 0x9A, 0x80]] @
      map (\<lambda>n. [0xE2, 0x80, n]) [0x80..<0x8B] @
      [[0xE2, 0x80, 0xA8], [0xE2, 0x80, 0xA9], [0xE2, 0x80, 0xAF], [0xE2, 0x81, 0x9F], [0xE3, 0x80, 0x80]])"

function trimLeft :: "string list \<Rightarrow> string \<Rightarrow> string" where
  "trimLeft ws s = (case List.find (\<lambda>w. w \<noteq> [] \<and> take (length w) s = w) ws of
      None \<Rightarrow> s | Some w \<Rightarrow> trimLeft ws (drop (length w) s))"
  by pat_completeness auto

termination
  by (relation "measure (\<lambda>(ws, s). length s)") (auto simp: find_Some_iff intro!: diff_less)

declare trimLeft.simps [simp del]

definition TrimSpace :: "string \<Rightarrow> string" where
  "TrimSpace s = rev (trimLeft (map rev whiteSpace) (rev (trimLeft whiteSpace s)))"

definition parseSidStructure :: "string \<Rightarrow> bytes option result" where
  "parseSidStructure s =
     (if s = [] then Inr None
      else
        let parts = splitComma s in
        if length parts \<noteq> 4 then errorf ''invalid SID structure'' []
        else bindE (mapE (\<lambda>p. wrapE ''invalid SID structure'' (ParseUint (TrimSpace p) 8)) parts) (\<lambda>vs.
             Inr (Some (map word_of_nat vs))))"

definition parseOverride :: "string \<Rightarrow> string \<Rightarrow> addr \<Rightarrow> addr result" where
  "parseOverride what s a = (if s = [] then Inr a else wrapE what (ParseAddr s))"

definition enrichSRv6Segment :: "SegmentSRv6 \<Rightarrow> pbSegment \<Rightarrow> bool \<Rightarrow> SegmentSRv6 result" where
  "enrichSRv6Segment srv6Seg segment usidMode =
     (let seg = (if usidMode then srv6Seg\<lparr>s6_USid := True\<rparr> else srv6Seg) in
      bindE (parseSidStructure (ps_SidStructure segment)) (\<lambda>structure.
      let seg = (case structure of None \<Rightarrow> seg | Some st \<Rightarrow> seg\<lparr>s6_Structure := Some st\<rparr>) in
      bindE (parseOverride ''invalid localAddr'' (ps_LocalAddr segment) (s6_LocalAddr seg)) (\<lambda>la.
      bindE (parseOverride ''invalid remoteAddr'' (ps_RemoteAddr segment) (s6_RemoteAddr seg)) (\<lambda>ra.
      Inr (seg\<lparr>s6_LocalAddr := la, s6_RemoteAddr := ra\<rparr>)))))"

definition enrichSRMPLSSegment :: "SegmentSRMPLS \<Rightarrow> pbSegment \<Rightarrow> SegmentSRMPLS result" where
  "enrichSRMPLSSegment mplsSeg segment =
     bindE (parseOverride ''invalid localAddr'' (ps_LocalAddr segment) (sm_LocalAddr mplsSeg)) (\<lambda>la.
     bindE (parseOverride ''invalid remoteAddr'' (ps_RemoteAddr segment) (sm_RemoteAddr mplsSeg)) (\<lambda>ra.
     Inr (mplsSeg\<lparr>sm_LocalAddr := la, sm_RemoteAddr := ra\<rparr>)))"

definition newEnrichedSegment :: "pbSegment \<Rightarrow> bool \<Rightarrow> Segment result" where
  "newEnrichedSegment segment usidMode =
     bindE (NewSegment (ps_Sid segment)) (\<lambda>seg.
     case seg of
       SRv6 v \<Rightarrow> bindE (enrichSRv6Segment v segment usidMode) (\<lambda>v. Inr (SRv6 v))
     | SRMPLS v \<Rightarrow> bindE (enrichSRMPLSSegment v segment) (\<lambda>v. Inr (SRMPLS v)))"

section \<open>Paths of a request\<close>

text \<open>What the environment decides: clock and map orders, also those of the path computations.\<close>

record apiEnv = goEnv +
  ae_cspf :: "nat \<Rightarrow> rangeOrder"

definition getMetricType :: "int \<Rightarrow> MetricType result" where
  "getMetricType metricType =
     (if metricType = METRIC_TYPE_IGP then Inr IGPMetric
      else if metricType = METRIC_TYPE_TE then Inr TEMetric
      else if metricType = METRIC_TYPE_DELAY then Inr DelayMetric
      else if metricType = METRIC_TYPE_HOPCOUNT then Inr HopcountMetric
      else errorf ''unknown metric type'' [metricType])"

definition getLoopbackAddr :: "tedState \<Rightarrow> string \<Rightarrow> addr result" where
  "getLoopbackAddr ted routerID =
     (case map_of (ted_Nodes (snd ted)) routerID of
        None \<Rightarrow> errorf ''no node with router ID'' []
      | Some p \<Rightarrow> bindE (loadNode (fst ted) p) LoopbackAddr)"

definition getSegmentList :: "apiEnv \<Rightarrow> pbSRPolicy \<Rightarrow> tedState \<Rightarrow> bool \<Rightarrow> Segment list result option" where
  "getSegmentList env inputSRPolicy ted usidMode =
     (if pp_Type inputSRPolicy = SR_POLICY_TYPE_EXPLICIT then
        (if pp_SegmentList inputSRPolicy = [] then Some (errorf ''no segments in SRPolicy input'' [])
         else Some (mapE (\<lambda>segment. newEnrichedSegment segment usidMode) (pp_SegmentList inputSRPolicy)))
      else if pp_Type inputSRPolicy = SR_POLICY_TYPE_DYNAMIC then
        (case getMetricType (pp_Metric inputSRPolicy) of
           Inl e \<Rightarrow> Some (Inl e)
         | Inr metricType \<Rightarrow>
             if pp_Waypoints inputSRPolicy \<noteq> [] then
               CSPFWithLooseSourceRouting (ae_cspf env) (fst ted) (pp_SrcRouterId inputSRPolicy) (pp_DstRouterId inputSRPolicy)
                 (map (\<lambda>w. \<lparr>wp_RouterID = pw_RouterId w, wp_SID = pw_Sid w\<rparr>) (pp_Waypoints inputSRPolicy)) metricType (snd ted)
             else CSPF (ae_cspf env 0) (fst ted) (pp_SrcRouterId inputSRPolicy) (pp_DstRouterId inputSRPolicy) metricType (snd ted))
      else Some (errorf ''undefined SR Policy type'' []))"

text \<open>The check of the ASN looks at the first node in the order of the range.\<close>

definition checkASN :: "apiEnv \<Rightarrow> tedState \<Rightarrow> u32 \<Rightarrow> unit result" where
  "checkASN env ted asn =
     (case ge_nodes env (ted_Nodes (snd ted)) of
        [] \<Rightarrow> Inr ()
      | (_, p) # _ \<Rightarrow> bindE (loadNode (fst ted) p) (\<lambda>node.
          if nd_ASN node \<noteq> asn then errorf ''request ASN does not match ted ASN'' [uint asn, uint (nd_ASN node)] else Inr ()))"

definition buildSegmentList ::
    "apiEnv \<Rightarrow> Server \<Rightarrow> bool \<Rightarrow> CreateSRPolicyRequest \<Rightarrow> bool \<Rightarrow> (Segment list \<times> addr \<times> addr) result option" where
  "buildSegmentList env sv usidMode input disablePathCompute =
     (let inputSRPolicy = GetSrPolicy (cr_SrPolicy input) in
      if \<not> disablePathCompute then
        (case pce_ted sv of
           None \<Rightarrow> Some (errorf ''ted is disabled'' [])
         | Some ted \<Rightarrow>
             if ted_Nodes (snd ted) = [] then Some (errorf ''no node in TED'' [])
             else
               (case bindE (checkASN env ted (cr_Asn input)) (\<lambda>_.
                     bindE (getLoopbackAddr ted (pp_SrcRouterId inputSRPolicy)) (\<lambda>srcAddr.
                     bindE (getLoopbackAddr ted (pp_DstRouterId inputSRPolicy)) (\<lambda>dstAddr. Inr (srcAddr, dstAddr)))) of
                  Inl e \<Rightarrow> Some (Inl e)
                | Inr (srcAddr, dstAddr) \<Rightarrow>
                    map_option (\<lambda>r. bindE r (\<lambda>segmentList. Inr (segmentList, srcAddr, dstAddr)))
                      (getSegmentList env inputSRPolicy ted usidMode)))
      else
        (case AddrFromSlice (pp_SrcAddr inputSRPolicy) of (srcAddr, ok) \<Rightarrow>
         if \<not> ok then Some (errorf ''invalid source address'' [])
         else case AddrFromSlice (pp_DstAddr inputSRPolicy) of (dstAddr, ok) \<Rightarrow>
         if \<not> ok then Some (errorf ''invalid destination address'' [])
         else Some (bindE (mapE (\<lambda>segment. newEnrichedSegment segment usidMode) (pp_SegmentList inputSRPolicy)) (\<lambda>segmentList.
                Inr (segmentList, srcAddr, dstAddr)))))"

definition resolveSRPolicyIntent :: "pbSRPolicy \<Rightarrow> bool \<Rightarrow> (PolicyType \<times> MetricType) result" where
  "resolveSRPolicyIntent inputSRPolicy disablePathCompute =
     (if disablePathCompute then Inr (PolicyTypeExplicit, UnspecifiedMetric)
      else if pp_Type inputSRPolicy = SR_POLICY_TYPE_EXPLICIT then Inr (PolicyTypeExplicit, UnspecifiedMetric)
      else if pp_Type inputSRPolicy = SR_POLICY_TYPE_DYNAMIC then
        bindE (getMetricType (pp_Metric inputSRPolicy)) (\<lambda>metricType. Inr (PolicyTypeDynamic, metricType))
      else errorf ''undefined SR Policy type'' [])"

definition statusErrorf :: "string \<Rightarrow> string \<Rightarrow> 'a result" where
  "statusErrorf code msg = Inl (Err (Wrap code (Errorf msg [])))"

definition describe :: "MissingSegment list \<Rightarrow> string" where
  "describe ms = (case map MissingSegment_String ms of [] \<Rightarrow> [] | d # ds \<Rightarrow> d @ concat (map (\<lambda>d. '', '' @ d) ds))"

definition validateSIDs :: "Server \<Rightarrow> CreateSRPolicyRequest \<Rightarrow> Segment list \<Rightarrow> unit result" where
  "validateSIDs sv req segs =
     (let policy = GetSrPolicy (cr_SrPolicy req); segmentList = map Some segs;
          invalid = OutOfRangeSRMPLSLabels segmentList in
      if invalid \<noteq> []
      then statusErrorf ''InvalidArgument'' (''segment list contains SR-MPLS labels outside the valid range: '' @ describe invalid)
      else if HasUnknownSegmentType segmentList
      then statusErrorf ''InvalidArgument'' ''segment list contains a segment with an unrecognized SID family''
      else if HasMixedSegmentTypes segmentList
      then statusErrorf ''InvalidArgument'' ''segment list contains mixed SR-MPLS and SRv6 SIDs''
      else if pp_Type policy = SR_POLICY_TYPE_DYNAMIC \<and> \<not> cr_DisablePathCompute req then Inr ()
      else if cr_NoSidValidate req then Inr ()
      else case pce_ted sv of
          None \<Rightarrow> statusErrorf ''FailedPrecondition'' ''TED is not enabled, SID validation cannot be performed''
        | Some ted \<Rightarrow>
            if ted_Nodes (snd ted) = []
            then statusErrorf ''FailedPrecondition'' ''TED is enabled but empty (not yet synchronized), SID validation cannot be performed''
            else bindE (MissingSegments (fst ted) (Some (snd ted)) segmentList) (\<lambda>missing.
              if missing = [] then Inr ()
              else statusErrorf ''InvalidArgument''
                (''SID validation failed, the following SIDs are not found in TED: '' @ describe missing)))"

section \<open>The handlers\<close>

text \<open>A step of session \<open>p\<close>, seen from the server.\<close>

definition onSession :: "sessionptr \<Rightarrow> unit step \<Rightarrow> Server \<Rightarrow> (unit result \<times> Server) option" where
  "onSession p m sv = map_option (\<lambda>(r, ss). (r, updateSession p ss sv)) (m (sessionAt sv p))"

definition getSyncedPCEPSession :: "Server \<Rightarrow> bytes \<Rightarrow> sessionptr result" where
  "getSyncedPCEPSession sv bs =
     (case AddrFromSlice bs of (pcepSessionAddr, ok) \<Rightarrow>
        if \<not> ok then errorf ''invalid PCEP session address'' []
        else case SearchSession sv pcepSessionAddr True of
            None \<Rightarrow> errorf ''no synced session'' []
          | Some p \<Rightarrow> Inr p)"

definition requestPolicy :: "pbSRPolicy \<Rightarrow> Segment list \<Rightarrow> addr \<Rightarrow> addr \<Rightarrow> SRPolicy" where
  "requestPolicy input segmentList srcAddr dstAddr =
     SRPolicy_zero\<lparr>pol_Name := pp_PolicyName input, pol_SegmentList := segmentList, pol_SrcAddr := srcAddr,
       pol_DstAddr := dstAddr, pol_Color := pp_Color input, pol_Preference := 100\<rparr>"

definition sendSRPolicyRequest ::
    "apiEnv \<Rightarrow> CreateSRPolicyRequest \<Rightarrow> Segment list \<Rightarrow> addr \<Rightarrow> addr \<Rightarrow> bool \<Rightarrow> Server \<Rightarrow> (unit result \<times> Server) option" where
  "sendSRPolicyRequest env input segmentList srcAddr dstAddr disablePathCompute sv =
     (let inputSRPolicy = GetSrPolicy (cr_SrPolicy input) in
      case wrapE ''failed to get synchronized PCEP session'' (getSyncedPCEPSession sv (sessionAddrBytes inputSRPolicy)) of
        Inl e \<Rightarrow> Some (Inl e, sv)
      | Inr p \<Rightarrow>
          (case wrapE ''failed to resolve SR policy type'' (resolveSRPolicyIntent inputSRPolicy disablePathCompute) of
             Inl e \<Rightarrow> Some (Inl e, sv)
           | Inr (policyType, metricType) \<Rightarrow>
               let srPolicy = (requestPolicy inputSRPolicy segmentList srcAddr dstAddr)\<lparr>pol_Type := policyType, pol_Metric := metricType\<rparr> in
               case SearchPlspID (sessionAt sv p) (pp_Color inputSRPolicy) dstAddr of
                 Some plspID \<Rightarrow>
                   map_option (map_prod (wrapE ''failed to send PC update'') id)
                     (onSession p (SendPCUpdate (ge_now env) (srPolicy\<lparr>pol_PlspID := plspID\<rparr>)) sv)
               | None \<Rightarrow>
                   map_option (map_prod (wrapE ''failed to request SR policy creation'') id)
                     (onSession p (RequestSRPolicyCreated (ge_now env) srPolicy) sv)))"

definition CreateSRPolicy :: "apiEnv \<Rightarrow> bool \<Rightarrow> CreateSRPolicyRequest \<Rightarrow> Server \<Rightarrow> (unit result \<times> Server) option" where
  "CreateSRPolicy env usidMode req sv =
     (let disablePathCompute = cr_DisablePathCompute req in
      case wrapE ''failed to validate SR policy creation'' (validateCreateSRPolicy req disablePathCompute) of
        Inl e \<Rightarrow> Some (Inl e, sv)
      | Inr _ \<Rightarrow>
          (case buildSegmentList env sv usidMode req disablePathCompute of
             None \<Rightarrow> None
           | Some r \<Rightarrow>
               (case wrapE ''failed to build segment list'' r of
                  Inl e \<Rightarrow> Some (Inl e, sv)
                | Inr (segmentList, srcAddr, dstAddr) \<Rightarrow>
                    (case validateSIDs sv req segmentList of
                       Inl e \<Rightarrow> Some (Inl e, sv)
                     | Inr _ \<Rightarrow>
                         map_option (map_prod (wrapE ''failed to send SR policy request'') id)
                           (sendSRPolicyRequest env req segmentList srcAddr dstAddr disablePathCompute sv)))))"

definition DeleteSRPolicyRPC :: "apiEnv \<Rightarrow> bool \<Rightarrow> DeleteSRPolicyRequest \<Rightarrow> Server \<Rightarrow> (unit result \<times> Server) option" where
  "DeleteSRPolicyRPC env usidMode input sv =
     (let inputSRPolicy = GetSrPolicy (dr_SrPolicy input) in
      case bindE (validate (dr_SrPolicy input) (dr_Asn input) ValidationDelete) (\<lambda>_.
           bindE (if pp_SrcAddr inputSRPolicy \<noteq> [] then
                    (case AddrFromSlice (pp_SrcAddr inputSRPolicy) of (a, ok) \<Rightarrow>
                       if \<not> ok then errorf ''invalid source address'' [] else Inr a)
                  else Inr NoAddr) (\<lambda>srcAddr.
           bindE (case AddrFromSlice (pp_DstAddr inputSRPolicy) of (a, ok) \<Rightarrow>
                    if \<not> ok then errorf ''invalid destination address'' [] else Inr a) (\<lambda>dstAddr.
           bindE (mapE (\<lambda>segment. newEnrichedSegment segment usidMode) (pp_SegmentList inputSRPolicy)) (\<lambda>segmentList.
           bindE (getSyncedPCEPSession sv (sessionAddrBytes inputSRPolicy)) (\<lambda>p.
           Inr (requestPolicy inputSRPolicy segmentList srcAddr dstAddr, dstAddr, p)))))) of
        Inl e \<Rightarrow> Some (Inl e, sv)
      | Inr (srPolicy, dstAddr, p) \<Rightarrow>
          (case SearchPlspID (sessionAt sv p) (pp_Color inputSRPolicy) dstAddr of
             Some plspID \<Rightarrow>
               onSession p (RequestSRPolicyDeleted (ge_now env) (srPolicy\<lparr>pol_PlspID := plspID\<rparr>)) sv
           | None \<Rightarrow> Some (errorf ''requested SR Policy not found'' [], sv)))"

definition DeleteSession :: "bytes \<Rightarrow> Server \<Rightarrow> (unit result \<times> Server) option" where
  "DeleteSession a sv =
     (case AddrFromSlice a of (ssAddr, ok) \<Rightarrow>
        if \<not> ok then Some (errorf ''invalid address'' [], sv)
        else case SearchSession sv ssAddr False of
            None \<Rightarrow> Some (errorf ''no session with address found'' [], sv)
          | Some p \<Rightarrow>
              (case onSession p (SendClose CloseReasonNoExplanationProvided) sv of
                 None \<Rightarrow> None
               | Some (Inl e, sv) \<Rightarrow> Some (wrapE ''failed to send close message'' (Inl e), sv)
               | Some (Inr _, sv) \<Rightarrow> Some (Inr (), closeSession p sv)))"

end
