(* ===== verification/Api_Laws.thy ===== *)
theory Api_Laws
  imports Api
begin

text \<open>
  What the requests of theory Api do: a successful one writes exactly one message, on the synchronized
  session it names, for segments that passed the checks; a failing one changes nothing a client or
  the peer could see.
\<close>

section \<open>The checks of the segment list\<close>

fun sameFamily :: "Segment list \<Rightarrow> bool" where
  "sameFamily [] = True"
| "sameFamily (s # segs) = list_all (\<lambda>x. segmentFamily (Some x) = segmentFamily (Some s)) segs"

lemma segmentFamily_known [simp]: "segmentFamily (Some s) \<noteq> SegmentUnknown"
  by (cases s) simp_all

lemma mixedFrom_known: "f \<noteq> SegmentUnknown \<Longrightarrow>
    \<not> mixedFrom f (map Some segs) \<longleftrightarrow> list_all (\<lambda>x. segmentFamily (Some x) = f) segs"
  by (induction segs) (auto simp: Let_def)

lemma HasMixedSegmentTypes_sameFamily: "HasMixedSegmentTypes (map Some segs) \<longleftrightarrow> \<not> sameFamily segs"
  by (cases segs) (simp_all add: HasMixedSegmentTypes_def mixedFrom_known flip: mixedFrom_known)

fun labelInRange :: "Segment \<Rightarrow> bool" where
  "labelInRange (SRMPLS s) = (sm_Sid s \<le> MPLSLabelMax)"
| "labelInRange (SRv6 s) = True"

lemma OutOfRange_labels: "OutOfRangeSRMPLSLabels (map Some segs) = [] \<longleftrightarrow> list_all labelInRange segs"
proof -
  have "concat (map (\<lambda>(i, seg). (case seg of Some (SRMPLS s) \<Rightarrow>
            if sm_Sid s \<le> MPLSLabelMax then [] else [\<lparr>ms_Hop = int i + 1, ms_SID = SidString (SRMPLS s)\<rparr>]
        | _ \<Rightarrow> [])) (enumerate k (map Some segs))) = [] \<longleftrightarrow> list_all labelInRange segs" for k
    by (induction segs arbitrary: k) (auto split: Segment.Segment.splits)
  then show ?thesis by (simp add: OutOfRangeSRMPLSLabels_def)
qed

lemma missingAmong_none: "missingAmong idx (map Some segs) = [] \<longleftrightarrow> list_all (SIDIndex_Has idx) segs"
proof -
  have "concat (map (\<lambda>(i, seg). (case seg of
          None \<Rightarrow> [\<lparr>ms_Hop = int i + 1, ms_SID = ''<nil>''\<rparr>]
        | Some s \<Rightarrow> if SIDIndex_Has idx s then [] else [\<lparr>ms_Hop = int i + 1, ms_SID = SidString s\<rparr>]))
      (enumerate k (map Some segs))) = [] \<longleftrightarrow> list_all (SIDIndex_Has idx) segs" for k
    by (induction segs arbitrary: k) auto
  then show ?thesis by (simp add: missingAmong_def)
qed

lemma MissingSegments_none:
  assumes "ted_ok asn (h, ted)"
  shows "MissingSegments h (Some ted) (map Some segs) = Inr [] \<longleftrightarrow> list_all (advertised (tedViewOf (h, ted))) segs"
proof -
  obtain idx where idx: "NewSIDIndex h (Some ted) = Inr idx"
    "\<And>seg. SIDIndex_Has idx seg \<longleftrightarrow> advertised (tedViewOf (h, ted)) seg"
    using SIDIndex_Has_advertised [OF assms] by blast
  then have "SIDIndex_Has idx = advertised (tedViewOf (h, ted))" by blast
  then show ?thesis by (simp add: MissingSegments_def idx(1) missingAmong_none)
qed

text \<open>The requests whose SIDs are looked up: not a computed path, and not told to skip it.\<close>

definition lookedUp :: "CreateSRPolicyRequest \<Rightarrow> bool" where
  "lookedUp req \<longleftrightarrow> (cr_DisablePathCompute req \<or> pp_Type (GetSrPolicy (cr_SrPolicy req)) \<noteq> SR_POLICY_TYPE_DYNAMIC) \<and>
     \<not> cr_NoSidValidate req"

definition tedIntact :: "Server \<Rightarrow> bool" where
  "tedIntact sv \<longleftrightarrow> (case pce_ted sv of None \<Rightarrow> True | Some ted \<Rightarrow> ted_ok (pce_asn sv) ted)"

definition checked :: "Server \<Rightarrow> CreateSRPolicyRequest \<Rightarrow> Segment list \<Rightarrow> bool" where
  "checked sv req segs \<longleftrightarrow> list_all labelInRange segs \<and> sameFamily segs \<and>
     (\<not> lookedUp req \<or> (\<exists>ted. pce_ted sv = Some ted \<and> list_all (advertised (tedViewOf ted)) segs))"

lemma validateSIDs_checked:
  assumes "tedIntact sv" "validateSIDs sv req segs = Inr ()"
  shows "checked sv req segs"
proof -
  have l: "list_all labelInRange segs" and m: "sameFamily segs"
    using assms(2) OutOfRange_labels HasMixedSegmentTypes_sameFamily
    by (auto simp: validateSIDs_def Let_def statusErrorf_def split: if_splits)
  have "\<exists>ted. pce_ted sv = Some ted \<and> list_all (advertised (tedViewOf ted)) segs" if "lookedUp req"
  proof (cases "pce_ted sv")
    case (Some ted)
    obtain h t where ht: "ted = (h, t)" by (cases ted)
    have "MissingSegments h (Some t) (map Some segs) = Inr []"
      using assms(2) that by (auto simp: validateSIDs_def Let_def statusErrorf_def lookedUp_def Some ht bindE_eq_Inr
          split: if_splits)
    then show ?thesis using MissingSegments_none assms(1) by (simp add: Some ht tedIntact_def)
  qed (use assms(2) that in \<open>auto simp: validateSIDs_def Let_def statusErrorf_def lookedUp_def split: if_splits\<close>)
  then show ?thesis using l m by (auto simp: checked_def)
qed

section \<open>One message on one session\<close>

definition sentOn :: "sessionptr \<Rightarrow> bytes \<Rightarrow> Server \<Rightarrow> Server \<Rightarrow> bool" where
  "sentOn p bs sv sv' \<longleftrightarrow>
     tcp_out (ss_tcpConn (sessionAt sv' p)) = tcp_out (ss_tcpConn (sessionAt sv p)) @ [bs] \<and>
     ss_srPolicies (sessionAt sv' p) = ss_srPolicies (sessionAt sv p) \<and>
     (\<forall>q. q \<noteq> p \<longrightarrow> sessionAt sv' q = sessionAt sv q) \<and>
     pce_sessionList sv' = pce_sessionList sv \<and> pce_ted sv' = pce_ted sv"

text \<open>The messages, policies and intents of every session are what they were.\<close>

definition untouched :: "Server \<Rightarrow> Server \<Rightarrow> bool" where
  "untouched sv sv' \<longleftrightarrow> pce_sessionList sv' = pce_sessionList sv \<and> pce_ted sv' = pce_ted sv \<and>
     (\<forall>q. tcp_out (ss_tcpConn (sessionAt sv' q)) = tcp_out (ss_tcpConn (sessionAt sv q)) \<and>
       ss_srPolicies (sessionAt sv' q) = ss_srPolicies (sessionAt sv q) \<and>
       intentMap (sessionAt sv' q) = intentMap (sessionAt sv q))"

lemma untouched_refl [simp]: "untouched sv sv"
  by (simp add: untouched_def)

lemma onSession_request:
  assumes "p < length (pce_store sv)"
    and build: "\<And>srpID ss ss'. ss_pccType ss' = ss_pccType ss \<Longrightarrow> ss_asn ss' = ss_asn ss \<Longrightarrow> build srpID ss' = build srpID ss"
  shows "\<exists>r sv'. onSession p (sendRequest now t m build) sv = Some (r, sv') \<and>
    (case r of
       Inl e \<Rightarrow> e \<noteq> Panic \<longrightarrow> untouched sv sv'
     | Inr _ \<Rightarrow> \<exists>bs srpID. sentOn p bs sv sv' \<and> usable (sessionAt sv p) srpID \<and> build srpID (sessionAt sv p) = Inr bs \<and>
         intentMap (sessionAt sv' p) = (intentMap (sessionAt sv p))(srpID \<mapsto>
           \<lparr>in_polType = t, in_metric = m, in_expiresAt = now + ss_srPolicyIntentTTL (sessionAt sv p)\<rparr>))"
proof -
  note s = sendRequest_spec [where now = now and t = t and m = m and ss = "sessionAt sv p" and build = build, OF build]
  then obtain r ss' where e: "sendRequest now t m build (sessionAt sv p) = Some (r, ss')"
    by (auto split: option.splits)
  show ?thesis
  proof (cases r)
    case (Inl f)
    then show ?thesis using s e assms(1)
      by (auto simp: onSession_def untouched_def sessionAt_update)
  next
    case (Inr u)
    then show ?thesis using s e assms(1)
      by (auto simp: onSession_def sentOn_def sessionAt_update)
  qed
qed

lemma SearchSession_Some:
  assumes "SearchSession sv a synced = Some p"
  shows "p \<in> set (pce_sessionList sv) \<and> ss_peerAddr (sessionAt sv p) = a \<and> (synced \<longrightarrow> ss_isSynced (sessionAt sv p))"
  using assms by (auto simp: SearchSession_def find_Some_iff)

lemma getSynced_Inr:
  assumes "getSyncedPCEPSession sv bs = Inr p"
  shows "AddrFromSlice bs = (ss_peerAddr (sessionAt sv p), True) \<and> p \<in> set (pce_sessionList sv) \<and> ss_isSynced (sessionAt sv p)"
proof -
  obtain a ok where a: "AddrFromSlice bs = (a, ok)" by fastforce
  with assms have "ok" "SearchSession sv a True = Some p"
    by (auto simp: getSyncedPCEPSession_def split: if_splits option.splits)
  with a SearchSession_Some show ?thesis by auto
qed

text \<open>The bytes \<open>CreateSRPolicy\<close> sends: an update of the policy with this color and endpoint, if the session has one.\<close>

definition requestBytes :: "SRPolicy \<Rightarrow> u32 \<Rightarrow> Session \<Rightarrow> bytes result" where
  "requestBytes p srpID ss = (case SearchPlspID ss (pol_Color p) (pol_DstAddr p) of
      Some plspID \<Rightarrow> pcupdBytes (p\<lparr>pol_PlspID := plspID\<rparr>) srpID
    | None \<Rightarrow> pcinitiateBytes p False srpID ss)"

lemma sendSRPolicyRequest_spec:
  assumes "server_ok sv" "sendSRPolicyRequest env req segs src dst d sv = Some (r, sv')"
  defines "policy \<equiv> GetSrPolicy (cr_SrPolicy req)"
  shows "case r of
      Inl e \<Rightarrow> e \<noteq> Panic \<longrightarrow> untouched sv sv'
    | Inr _ \<Rightarrow> \<exists>p bs srpID t m. getSyncedPCEPSession sv (sessionAddrBytes policy) = Inr p \<and>
        resolveSRPolicyIntent policy d = Inr (t, m) \<and> sentOn p bs sv sv' \<and> usable (sessionAt sv p) srpID \<and>
        requestBytes ((requestPolicy policy segs src dst)\<lparr>pol_Type := t, pol_Metric := m\<rparr>) srpID (sessionAt sv p) = Inr bs \<and>
        intentMap (sessionAt sv' p) = (intentMap (sessionAt sv p))(srpID \<mapsto>
          \<lparr>in_polType = t, in_metric = m, in_expiresAt = ge_now env + ss_srPolicyIntentTTL (sessionAt sv p)\<rparr>)"
proof (cases "getSyncedPCEPSession sv (sessionAddrBytes policy)")
  case (Inl e)
  then show ?thesis using assms(2)
    by (cases e) (auto simp: sendSRPolicyRequest_def Let_def simp flip: policy_def)
next
  case p: (Inr p)
  show ?thesis
  proof (cases "resolveSRPolicyIntent policy d")
    case (Inl e)
    then show ?thesis using assms(2) p
      by (cases e) (auto simp: sendSRPolicyRequest_def Let_def simp flip: policy_def)
  next
    case (Inr tm)
    obtain t m where tm: "tm = (t, m)" by (cases tm)
    let ?pol = "(requestPolicy policy segs src dst)\<lparr>pol_Type := t, pol_Metric := m\<rparr>"
    have pl: "p < length (pce_store sv)" using getSynced_Inr [OF p] assms(1) by (simp add: server_ok_def)
    have f: "pol_Color ?pol = pp_Color policy" "pol_DstAddr ?pol = dst" by (simp_all add: requestPolicy_def)
    show ?thesis
    proof (cases "SearchPlspID (sessionAt sv p) (pp_Color policy) dst")
      case None
      obtain r0 sv0 where o: "onSession p (sendRequest (ge_now env) t m (pcinitiateBytes ?pol False)) sv = Some (r0, sv0)"
        and c: "case r0 of Inl e \<Rightarrow> e \<noteq> Panic \<longrightarrow> untouched sv sv0
          | Inr _ \<Rightarrow> \<exists>bs srpID. sentOn p bs sv sv0 \<and> usable (sessionAt sv p) srpID \<and>
              pcinitiateBytes ?pol False srpID (sessionAt sv p) = Inr bs \<and>
              intentMap (sessionAt sv0 p) = (intentMap (sessionAt sv p))(srpID \<mapsto>
                \<lparr>in_polType = t, in_metric = m, in_expiresAt = ge_now env + ss_srPolicyIntentTTL (sessionAt sv p)\<rparr>)"
        using onSession_request [where build = "pcinitiateBytes ?pol False" and now = "ge_now env" and t = t and m = m,
            OF pl pcinitiateBytes_build] by blast
      have "r = wrapE ''failed to request SR policy creation'' r0 \<and> sv' = sv0"
        using assms(2) p Inr tm None o
        by (simp add: sendSRPolicyRequest_def RequestSRPolicyCreated_def SendPCInitiate_eq Let_def flip: policy_def)
      then show ?thesis
        using c p Inr tm None f by (cases r0) (auto simp: requestBytes_def wrapE_def split: failure.splits)
    next
      case (Some k)
      let ?upd = "\<lambda>srpID (_ :: Session). pcupdBytes (?pol\<lparr>pol_PlspID := k\<rparr>) srpID"
      obtain r0 sv0 where o: "onSession p (sendRequest (ge_now env) t m ?upd) sv = Some (r0, sv0)"
        and c: "case r0 of Inl e \<Rightarrow> e \<noteq> Panic \<longrightarrow> untouched sv sv0
          | Inr _ \<Rightarrow> \<exists>bs srpID. sentOn p bs sv sv0 \<and> usable (sessionAt sv p) srpID \<and>
              ?upd srpID (sessionAt sv p) = Inr bs \<and>
              intentMap (sessionAt sv0 p) = (intentMap (sessionAt sv p))(srpID \<mapsto>
                \<lparr>in_polType = t, in_metric = m, in_expiresAt = ge_now env + ss_srPolicyIntentTTL (sessionAt sv p)\<rparr>)"
        using onSession_request [where build = ?upd and now = "ge_now env" and t = t and m = m, OF pl refl] by blast
      have "r = wrapE ''failed to send PC update'' r0 \<and> sv' = sv0"
        using assms(2) p Inr tm Some o
        by (simp add: sendSRPolicyRequest_def SendPCUpdate_eq Let_def flip: policy_def)
      then show ?thesis
        using c p Inr tm Some f by (cases r0) (auto simp: requestBytes_def wrapE_def split: failure.splits)
    qed
  qed
qed

lemma CreateSRPolicy_run:
  assumes "server_ok sv" "tedIntact sv" "CreateSRPolicy env usidMode req sv = Some (Inr (), sv')"
  shows "\<exists>policy segs src dst p bs srpID t m. cr_SrPolicy req = Some policy \<and>
    buildSegmentList env sv usidMode req (cr_DisablePathCompute req) = Some (Inr (segs, src, dst)) \<and> checked sv req segs \<and>
    p \<in> set (pce_sessionList sv) \<and> ss_isSynced (sessionAt sv p) \<and>
    AddrFromSlice (sessionAddrBytes policy) = (ss_peerAddr (sessionAt sv p), True) \<and>
    resolveSRPolicyIntent policy (cr_DisablePathCompute req) = Inr (t, m) \<and>
    sentOn p bs sv sv' \<and> usable (sessionAt sv p) srpID \<and>
    requestBytes ((requestPolicy policy segs src dst)\<lparr>pol_Type := t, pol_Metric := m\<rparr>) srpID (sessionAt sv p) = Inr bs \<and>
    intentMap (sessionAt sv' p) = (intentMap (sessionAt sv p))(srpID \<mapsto>
      \<lparr>in_polType = t, in_metric = m, in_expiresAt = ge_now env + ss_srPolicyIntentTTL (sessionAt sv p)\<rparr>)"
proof -
  let ?d = "cr_DisablePathCompute req"
  note ok = assms(1)
  obtain policy where policy: "cr_SrPolicy req = Some policy"
    using assms(3) by (cases "cr_SrPolicy req") (auto simp: CreateSRPolicy_def validateCreateSRPolicy_def validate_def Let_def split: if_splits)
  obtain segs src dst where b: "buildSegmentList env sv usidMode req ?d = Some (Inr (segs, src, dst))"
    using assms(3) by (auto simp: CreateSRPolicy_def Let_def split: option.splits sum.splits)
  have v: "validateSIDs sv req segs = Inr ()"
    using assms(3) b by (auto simp: CreateSRPolicy_def Let_def split: sum.splits)
  obtain r where s: "sendSRPolicyRequest env req segs src dst ?d sv = Some (r, sv')" "r = Inr ()"
    using assms(3) b v by (auto simp: CreateSRPolicy_def Let_def split: sum.splits)
  have g: "GetSrPolicy (cr_SrPolicy req) = policy" by (simp add: policy GetSrPolicy_def)
  obtain p bs srpID t m where p: "getSyncedPCEPSession sv (sessionAddrBytes policy) = Inr p"
      "resolveSRPolicyIntent policy ?d = Inr (t, m)" "sentOn p bs sv sv'" "usable (sessionAt sv p) srpID"
      "requestBytes ((requestPolicy policy segs src dst)\<lparr>pol_Type := t, pol_Metric := m\<rparr>) srpID (sessionAt sv p) = Inr bs"
      "intentMap (sessionAt sv' p) = (intentMap (sessionAt sv p))(srpID \<mapsto>
        \<lparr>in_polType = t, in_metric = m, in_expiresAt = ge_now env + ss_srPolicyIntentTTL (sessionAt sv p)\<rparr>)"
    using sendSRPolicyRequest_spec [OF ok s(1)] unfolding s(2) g by auto
  show ?thesis
    using policy b validateSIDs_checked [OF assms(2) v] getSynced_Inr [OF p(1)] p(2-)
    by (intro exI [of _ policy] exI [of _ segs] exI [of _ src] exI [of _ dst] exI [of _ p] exI [of _ bs] exI [of _ srpID]
        exI [of _ t] exI [of _ m] conjI) simp_all
qed

section \<open>Properties\<close>

text \<open>
  C5: A successful CreateSRPolicy writes exactly one message. It goes to the session of the list that
  is synchronized with the peer the request names; the other sessions are untouched. The segments it
  carries are those built from the request, they passed the checks (labels of 20 bits, one family,
  and, unless the path was computed or the client said not to look, every SID is advertised in the
  TED), and the message updates the policy of that color and endpoint if the session has one and asks
  for a new one otherwise, under a fresh SRP-ID whose intent holds the type and metric asked for.
\<close>

theorem CreateSRPolicy_sends:
  assumes "server_step\<^sup>*\<^sup>* (NewPCE opts) sv" "tedIntact sv" "CreateSRPolicy env usidMode req sv = Some (Inr (), sv')"
  shows "\<exists>policy segs src dst p bs srpID t m. cr_SrPolicy req = Some policy \<and>
    buildSegmentList env sv usidMode req (cr_DisablePathCompute req) = Some (Inr (segs, src, dst)) \<and> checked sv req segs \<and>
    p \<in> set (pce_sessionList sv) \<and> ss_isSynced (sessionAt sv p) \<and>
    AddrFromSlice (sessionAddrBytes policy) = (ss_peerAddr (sessionAt sv p), True) \<and>
    resolveSRPolicyIntent policy (cr_DisablePathCompute req) = Inr (t, m) \<and>
    sentOn p bs sv sv' \<and> usable (sessionAt sv p) srpID \<and>
    requestBytes ((requestPolicy policy segs src dst)\<lparr>pol_Type := t, pol_Metric := m\<rparr>) srpID (sessionAt sv p) = Inr bs \<and>
    intentMap (sessionAt sv' p) = (intentMap (sessionAt sv p))(srpID \<mapsto>
      \<lparr>in_polType = t, in_metric = m, in_expiresAt = ge_now env + ss_srPolicyIntentTTL (sessionAt sv p)\<rparr>)"
  using assms by (rule CreateSRPolicy_run [OF server_steps_ok [OF _ server_start]])

lemma CreateSRPolicy_error:
  assumes "server_ok sv" "CreateSRPolicy env usidMode req sv = Some (Inl (Err e), sv')"
  shows "untouched sv sv'"
proof -
  consider "sv' = sv" | segs src dst r where "sendSRPolicyRequest env req segs src dst (cr_DisablePathCompute req) sv = Some (r, sv')"
      "wrapE ''failed to send SR policy request'' r = Inl (Err e)"
    using assms(2) by (auto simp: CreateSRPolicy_def Let_def split: option.splits sum.splits)
  then show ?thesis
  proof cases
    case 2
    then obtain f where "r = Inl f" "f \<noteq> Panic" by (cases r) (auto simp: wrapE_def split: failure.splits)
    with sendSRPolicyRequest_spec [OF assms(1) 2(1)] show ?thesis by simp
  qed simp
qed

lemma SearchPlspID_Some:
  "SearchPlspID ss c a = Some k \<Longrightarrow> \<exists>q \<in> set (ss_srPolicies ss). pol_Color q = c \<and> pol_DstAddr q = a \<and> pol_PlspID q = k"
proof -
  have "searchPlspIDLoop c a qs = Some k \<Longrightarrow> \<exists>q \<in> set qs. pol_Color q = c \<and> pol_DstAddr q = a \<and> pol_PlspID q = k" for qs
    by (induction qs) (auto split: if_splits)
  then show "SearchPlspID ss c a = Some k \<Longrightarrow> \<exists>q \<in> set (ss_srPolicies ss). pol_Color q = c \<and> pol_DstAddr q = a \<and> pol_PlspID q = k"
    by (simp add: SearchPlspID_def)
qed

text \<open>Every path through \<open>DeleteSRPolicyRPC\<close> ends early or asks a session for one deletion.\<close>

lemma DeleteSRPolicyRPC_cases:
  assumes "DeleteSRPolicyRPC env usidMode req sv = Some (r, sv')"
  obtains e where "r = Inl e" "sv' = sv"
  | policy p k segs src dst where "dr_SrPolicy req = Some policy" "getSyncedPCEPSession sv (sessionAddrBytes policy) = Inr p"
      "AddrFromSlice (pp_DstAddr policy) = (dst, True)" "SearchPlspID (sessionAt sv p) (pp_Color policy) dst = Some k"
      "onSession p (SendPCInitiate (ge_now env) ((requestPolicy policy segs src dst)\<lparr>pol_PlspID := k\<rparr>) True) sv = Some (r, sv')"
proof (cases "dr_SrPolicy req")
  case None
  then show ?thesis using assms that(1) by (auto simp: DeleteSRPolicyRPC_def validate_def GetSrPolicy_def Let_def)
next
  case (Some policy)
  let ?src = "if pp_SrcAddr policy \<noteq> [] then (case AddrFromSlice (pp_SrcAddr policy) of (a, ok) \<Rightarrow>
      if \<not> ok then errorf ''invalid source address'' [] else Inr a) else Inr NoAddr"
  let ?dst = "case AddrFromSlice (pp_DstAddr policy) of (a, ok) \<Rightarrow> if \<not> ok then errorf ''invalid destination address'' [] else Inr a"
  let ?check = "bindE (validate (dr_SrPolicy req) (dr_Asn req) ValidationDelete) (\<lambda>_. bindE ?src (\<lambda>srcAddr.
      bindE ?dst (\<lambda>dstAddr. bindE (mapE (\<lambda>segment. newEnrichedSegment segment usidMode) (pp_SegmentList policy)) (\<lambda>segmentList.
      bindE (getSyncedPCEPSession sv (sessionAddrBytes policy)) (\<lambda>p.
      Inr (requestPolicy policy segmentList srcAddr dstAddr, dstAddr, p))))))"
  have e: "DeleteSRPolicyRPC env usidMode req sv = (case ?check of Inl e \<Rightarrow> Some (Inl e, sv)
      | Inr (srPolicy, dstAddr, p) \<Rightarrow> (case SearchPlspID (sessionAt sv p) (pp_Color policy) dstAddr of
          Some plspID \<Rightarrow> onSession p (RequestSRPolicyDeleted (ge_now env) (srPolicy\<lparr>pol_PlspID := plspID\<rparr>)) sv
        | None \<Rightarrow> Some (errorf ''requested SR Policy not found'' [], sv)))"
    unfolding DeleteSRPolicyRPC_def by (simp add: Some GetSrPolicy_def Let_def)
  show ?thesis
  proof (cases ?check)
    case (Inl f)
    then show ?thesis using assms that(1) unfolding e by auto
  next
    case (Inr x)
    then obtain src dst segs p where x: "x = (requestPolicy policy segs src dst, dst, p)"
        "?dst = Inr dst" "getSyncedPCEPSession sv (sessionAddrBytes policy) = Inr p"
      by (auto simp: bindE_eq_Inr)
    then have d: "AddrFromSlice (pp_DstAddr policy) = (dst, True)" by (auto split: prod.splits if_splits)
    show ?thesis
    proof (cases "SearchPlspID (sessionAt sv p) (pp_Color policy) dst")
      case None
      then show ?thesis using assms that(1) unfolding e Inr x(1) by auto
    next
      case k: (Some k)
      then show ?thesis
        using assms that(2) [OF Some x(3) d k] unfolding e Inr x(1) by (simp add: RequestSRPolicyDeleted_def)
    qed
  qed
qed

text \<open>
  C24: A request that fails leaves no trace: whatever the reason for which CreateSRPolicy or
  DeleteSRPolicy returns an error, no session has written a message, and policies, intents and the
  session list are what they were.
\<close>

theorem failed_requests_leave_no_trace:
  assumes "server_step\<^sup>*\<^sup>* (NewPCE opts) sv"
    and "CreateSRPolicy env usidMode creq sv = Some (Inl (Err e), sv') \<or> DeleteSRPolicyRPC env usidMode dreq sv = Some (Inl (Err e), sv')"
  shows "untouched sv sv'"
proof -
  have ok: "server_ok sv" using server_steps_ok [OF assms(1) server_start] .
  show ?thesis
    using assms(2)
  proof
    assume d: "DeleteSRPolicyRPC env usidMode dreq sv = Some (Inl (Err e), sv')"
    show ?thesis
    proof (cases rule: DeleteSRPolicyRPC_cases [OF d])
      case (2 policy p k segs src dst)
      let ?pol = "(requestPolicy policy segs src dst)\<lparr>pol_PlspID := k\<rparr>"
      have "p < length (pce_store sv)" using getSynced_Inr [OF 2(2)] ok by (simp add: server_ok_def)
      from onSession_request [where build = "pcinitiateBytes ?pol True" and now = "ge_now env" and t = "pol_Type ?pol" and
          m = "pol_Metric ?pol", OF this pcinitiateBytes_build]
      show ?thesis using 2(5) by (auto simp: SendPCInitiate_eq)
    qed simp
  qed (rule CreateSRPolicy_error [OF ok])
qed

text \<open>
  C26: A successful DeleteSRPolicy asks the right session to remove the right policy: it writes one
  message, on a session synchronized with the peer the request names, and the message, read back, is a
  removal that names the PLSP-ID of a policy of that session with the color and endpoint asked for.
\<close>

theorem DeleteSRPolicy_sends:
  assumes "server_step\<^sup>*\<^sup>* (NewPCE opts) sv" "DeleteSRPolicyRPC env usidMode req sv = Some (Inr (), sv')"
    and "dr_SrPolicy req = Some policy" "name_ok (pp_PolicyName policy)"
    and "list_all (\<lambda>p. list_all (\<lambda>q. pol_PlspID q < 2 ^ 20) (ss_srPolicies (sessionAt sv p))) (pce_sessionList sv)"
  shows "\<exists>p q bs h r. p \<in> set (pce_sessionList sv) \<and> ss_isSynced (sessionAt sv p) \<and>
    AddrFromSlice (sessionAddrBytes policy) = (ss_peerAddr (sessionAt sv p), True) \<and>
    q \<in> set (ss_srPolicies (sessionAt sv p)) \<and> pol_Color q = pp_Color policy \<and>
    AddrFromSlice (pp_DstAddr policy) = (pol_DstAddr q, True) \<and> sentOn p bs sv sv' \<and>
    CommonHeader_DecodeFromBytes (take 4 bs) = Inr h \<and> ch_MessageType h = MessageTypeLSPInitReq \<and>
    unat (ch_MessageLength h) = length bs \<and>
    PCRptMessage_DecodeFromBytes NewPCRptMessage (drop 4 bs) = Some (Inr \<lparr>prm_StateReports = [r]\<rparr>) \<and>
    so_RFlag (sr_SrpObject r) \<and> lo_PlspID (sr_LSPObject r) = pol_PlspID q"
proof (cases rule: DeleteSRPolicyRPC_cases [OF assms(2)])
  case (2 policy' p k segs src dst)
  let ?pol = "(requestPolicy policy segs src dst)\<lparr>pol_PlspID := k\<rparr>"
  have ok: "server_ok sv" using server_steps_ok [OF assms(1) server_start] .
  have pp: "policy' = policy" using 2(1) assms(3) by simp
  note g = getSynced_Inr [OF 2(2), unfolded pp]
  then have "p < length (pce_store sv)" using ok by (simp add: server_ok_def)
  from onSession_request [where build = "pcinitiateBytes ?pol True" and now = "ge_now env" and t = "pol_Type ?pol" and
      m = "pol_Metric ?pol", OF this pcinitiateBytes_build]
  obtain bs srpID where bs: "sentOn p bs sv sv'" "pcinitiateBytes ?pol True srpID (sessionAt sv p) = Inr bs"
    using 2(5) by (auto simp: SendPCInitiate_eq pp)
  obtain q where q: "q \<in> set (ss_srPolicies (sessionAt sv p))" "pol_Color q = pp_Color policy" "pol_DstAddr q = dst" "pol_PlspID q = k"
    using SearchPlspID_Some [OF 2(4)] by (auto simp: pp)
  have k: "k < 2 ^ 20" using assms(5) g q by (auto simp: list_all_iff)
  have n: "name_ok (pol_Name ?pol)" using assms(4) by (simp add: requestPolicy_def)
  obtain h r where r: "CommonHeader_DecodeFromBytes (take 4 bs) = Inr h" "ch_MessageType h = MessageTypeLSPInitReq"
      "unat (ch_MessageLength h) = length bs"
      "PCRptMessage_DecodeFromBytes NewPCRptMessage (drop 4 bs) = Some (Inr \<lparr>prm_StateReports = [r]\<rparr>)"
      "so_RFlag (sr_SrpObject r)" "lo_PlspID (sr_LSPObject r) = k"
    using PCInitiate_deletion [OF n k, of srpID "pol_SegmentList ?pol" "pol_Color ?pol" "pol_Preference ?pol" "pol_SrcAddr ?pol"
        "pol_DstAddr ?pol" "[VendorSpecific (ss_pccType (sessionAt sv p)), OriginatorASN (ss_asn (sessionAt sv p))]"] bs(2)
    by (auto simp: pcinitiateBytes_def)
  show ?thesis
    using r bs(1) g q 2(3) [unfolded pp]
    by (intro exI [of _ p] exI [of _ q] exI [of _ bs] exI [of _ h] exI [of _ r] conjI) simp_all
qed simp

section \<open>Witnesses\<close>

text \<open>The first session of \<open>sampleServer\<close>, synchronized, with one policy of color 100.\<close>

definition apiReport :: StateReport where
  "apiReport = delegationReport\<lparr>sr_EroObject := createEroFromSegmentList [SRMPLS (NewSegmentSRMPLS 16002)],
     sr_AssociationObject := AssociationObject_zero\<lparr>ao_TLVs := [TLV_ExtendedAssociationID
       \<lparr>ea_Color = 100, ea_Endpoint = Addr4 0x0A000002\<rparr>]\<rparr>\<rparr>"

definition syncedServer :: Server where
  "syncedServer = updateSession 0 (handleFinishSynchronization (sessionAt sampleServer 0)) sampleServer"

definition apiServer :: Server where
  "apiServer = updateSession 0 (snd (RegisterSRPolicy apiReport (sessionAt syncedServer 0))) syncedServer"

definition apiSampleEnv :: apiEnv where
  "apiSampleEnv = \<lparr>ge_now = 0, ge_cspf = \<lambda>_ c. c, ge_nodes = \<lambda>ns. ns, ae_cspf = \<lambda>_ _ c. c\<rparr>"

lemma apiServer_reached:
  "server_step\<^sup>*\<^sup>* (NewPCE sampleOptions) syncedServer" "server_step\<^sup>*\<^sup>* (NewPCE sampleOptions) apiServer"
proof -
  have 1: "server_step sampleServer syncedServer"
    unfolding syncedServer_def by (rule server_step.session [OF _ session_step.synced]) (simp add: sampleServer_def)
  have 2: "server_step syncedServer apiServer"
    unfolding apiServer_def by (rule server_step.session [OF _ session_step.register]) (simp add: syncedServer_def sampleServer_def)
  show 3: "server_step\<^sup>*\<^sup>* (NewPCE sampleOptions) syncedServer"
    using sampleServer_reached 1 by (rule rtranclp.rtrancl_into_rtrancl)
  show "server_step\<^sup>*\<^sup>* (NewPCE sampleOptions) apiServer"
    using 3 2 by (rule rtranclp.rtrancl_into_rtrancl)
qed

lemma syncedServer_sessions:
  "pce_sessionList syncedServer = [0, 1]" "length (pce_store syncedServer) = 2" "pce_ted syncedServer = Some ([], \<lparr>ted_Nodes = []\<rparr>)"
  "sessionAt syncedServer 0 = handleFinishSynchronization (NewSession 1 (Addr4 0x0A000001) (sampleConn [])
     (Some ([], \<lparr>ted_Nodes = []\<rparr>)) 65000)"
  by (simp_all add: syncedServer_def sampleServer_def NewPCE_def setTED_def sampleOptions_def sessionAt_update)
    (simp_all add: sessionAt_def acceptSession_def Let_def)

lemma writable_request:
  assumes "p < length (pce_store sv)" "writable (sessionAt sv p)" "usable (sessionAt sv p) x"
    and "\<And>srpID. \<exists>bs. pcinitiateBytes pol del srpID (sessionAt sv p) = Inr bs"
  shows "\<exists>sv'. onSession p (SendPCInitiate now pol del) sv = Some (Inr (), sv')"
  using sendRequest_succeeds [where build = "pcinitiateBytes pol del" and now = now and t = "pol_Type pol" and m = "pol_Metric pol",
      OF assms(2-4) pcinitiateBytes_build]
  by (auto simp: onSession_def SendPCInitiate_eq)

definition createRequest :: CreateSRPolicyRequest where
  "createRequest = \<lparr>cr_SrPolicy = Some (pbSRPolicy_zero\<lparr>pp_PcepSessionAddr := Some (AsSlice (Addr4 0x0A000001)), pp_Color := 100,
     pp_PolicyName := ''p'', pp_SrcAddr := AsSlice (Addr4 1), pp_DstAddr := AsSlice (Addr4 2),
     pp_SegmentList := [\<lparr>ps_Sid = ''16001'', ps_SidStructure = [], ps_LocalAddr = [], ps_RemoteAddr = []\<rparr>],
     pp_Type := SR_POLICY_TYPE_EXPLICIT\<rparr>),
     cr_Asn = 0, cr_DisablePathCompute = True, cr_NoSidValidate = True\<rparr>"

lemma sample_label: "newEnrichedSegment \<lparr>ps_Sid = ''16001'', ps_SidStructure = [], ps_LocalAddr = [], ps_RemoteAddr = []\<rparr> False =
    Inr (SRMPLS (NewSegmentSRMPLS 16001))"
proof -
  have d: "list_all is_digit ''16001''" by code_simp
  have v: "decimal_value ''16001'' = 16001" by (simp add: decimal_value_def digit_value_def)
  show ?thesis
    using ParseAddr_digits [OF d] d v
    by (simp add: newEnrichedSegment_def NewSegment_def ParseUint_def enrichSRMPLSSegment_def parseOverride_def NewSegmentSRMPLS_def)
qed

lemma createRequest_succeeds:
  "\<exists>sv'. CreateSRPolicy apiSampleEnv False createRequest syncedServer = Some (Inr (), sv')"
proof -
  let ?segs = "[SRMPLS (NewSegmentSRMPLS 16001)]" and ?ss = "sessionAt syncedServer 0"
  let ?policy = "the (cr_SrPolicy createRequest)"
  let ?pol = "(requestPolicy ?policy ?segs (Addr4 1) (Addr4 2))\<lparr>pol_Type := PolicyTypeExplicit, pol_Metric := UnspecifiedMetric\<rparr>"
  have be32: "AddrFromSlice (be32 v) = (Addr4 v, True)" for v using AddrFromSlice_AsSlice4 [of "Addr4 v"] by simp
  have ne: "be32 v \<noteq> []" for v by (simp add: be32_bytes)
  have 1: "validateCreateSRPolicy createRequest True = Inr ()"
    by (simp add: validateCreateSRPolicy_def createRequest_def validate_def validator_def requireE_def
        ValidationAdd_def ValidationAddDisablePathCompute_def ValidationDelete_def ne)
  have 2: "buildSegmentList apiSampleEnv syncedServer False createRequest True = Some (Inr (?segs, Addr4 1, Addr4 2))"
    by (simp add: buildSegmentList_def createRequest_def GetSrPolicy_def be32 sample_label)
  have 3: "validateSIDs syncedServer createRequest ?segs = Inr ()"
    by (simp add: validateSIDs_def createRequest_def GetSrPolicy_def OutOfRangeSRMPLSLabels_def NewSegmentSRMPLS_def MPLSLabelMax_def
        HasMixedSegmentTypes_def)
  have 4: "getSyncedPCEPSession syncedServer (sessionAddrBytes ?policy) = Inr 0"
    by (simp add: getSyncedPCEPSession_def createRequest_def sessionAddrBytes_def be32 SearchSession_def syncedServer_sessions
        handleFinishSynchronization_def NewSession_def)
  have 5: "SearchPlspID ?ss 100 (Addr4 2) = None"
    by (simp add: SearchPlspID_def syncedServer_sessions handleFinishSynchronization_def NewSession_def)
  have "writable ?ss" "usable ?ss 1"
    by (simp_all add: syncedServer_sessions handleFinishSynchronization_def NewSession_def sampleConn_def writable_def usable_def
        intentMap_def maxUint32_def)
  moreover have "\<exists>bs. pcinitiateBytes ?pol False srpID ?ss = Inr bs" for srpID
  proof -
    have "segments_ok ?segs" "name_ok ''p''" "assoc_addrs_ok (ss_pccType ?ss) (Addr4 1) (Addr4 2)"
      using sample_name by (simp_all add: segments_ok_def NewSegmentSRMPLS_def assoc_addrs_ok_def syncedServer_sessions
          handleFinishSynchronization_def NewSession_def)
    from PCInitiate_request [OF this, of srpID 0 100 100 "ss_asn ?ss"] show ?thesis
      by (auto simp: pcinitiateBytes_def requestPolicy_def createRequest_def pbSRPolicy_zero_def SRPolicy_zero_def NewSRPolicy_def)
  qed
  ultimately obtain sv' where "onSession 0 (SendPCInitiate 0 ?pol False) syncedServer = Some (Inr (), sv')"
    using writable_request [of 0 syncedServer] syncedServer_sessions(2) by force
  then have "sendSRPolicyRequest apiSampleEnv createRequest ?segs (Addr4 1) (Addr4 2) True syncedServer = Some (Inr (), sv')"
    using 4 5 by (simp add: sendSRPolicyRequest_def GetSrPolicy_def createRequest_def resolveSRPolicyIntent_def
        RequestSRPolicyCreated_def apiSampleEnv_def)
  then show ?thesis
    using 1 2 3 by (simp add: CreateSRPolicy_def createRequest_def)
qed

lemma tedIntact_synced: "tedIntact syncedServer"
  by (simp add: tedIntact_def syncedServer_sessions ted_ok_def)

lemma CreateSRPolicy_sends_witness:
  "\<exists>sv' p bs. CreateSRPolicy apiSampleEnv False createRequest syncedServer = Some (Inr (), sv') \<and> sentOn p bs syncedServer sv'"
proof -
  obtain sv' where c: "CreateSRPolicy apiSampleEnv False createRequest syncedServer = Some (Inr (), sv')"
    using createRequest_succeeds by blast
  from CreateSRPolicy_sends [OF apiServer_reached(1) tedIntact_synced c] c show ?thesis by blast
qed

text \<open>A request without a policy, and the removal of the policy of color 100.\<close>

lemma failed_requests_leave_no_trace_witness:
  "untouched syncedServer (snd (the (CreateSRPolicy apiSampleEnv False (createRequest\<lparr>cr_SrPolicy := None\<rparr>) syncedServer)))"
proof -
  have c: "CreateSRPolicy apiSampleEnv False (createRequest\<lparr>cr_SrPolicy := None\<rparr>) syncedServer =
      Some (Inl (Err (Wrap ''failed to validate SR policy creation'' (Errorf ''validate error, input is nil'' []))), syncedServer)"
    by (simp add: CreateSRPolicy_def validateCreateSRPolicy_def validate_def createRequest_def Let_def)
  from failed_requests_leave_no_trace [OF apiServer_reached(1) disjI1 [OF c]] show ?thesis by (simp add: c)
qed

definition deleteRequest :: DeleteSRPolicyRequest where
  "deleteRequest = \<lparr>dr_SrPolicy = Some (pbSRPolicy_zero\<lparr>pp_PcepSessionAddr := Some (AsSlice (Addr4 0x0A000001)), pp_Color := 100,
     pp_PolicyName := ''p'', pp_DstAddr := AsSlice (Addr4 0x0A000002)\<rparr>), dr_Asn = 0\<rparr>"

lemma apiServer_session:
  "length (pce_store apiServer) = 2" "pce_sessionList apiServer = [0, 1]"
  "sessionAt apiServer 0 = (sessionAt syncedServer 0)\<lparr>ss_srPolicies := [NewSRPolicy 7 ''p'' [SRMPLS (NewSegmentSRMPLS 16002)]
     (Addr4 0x0A000001) (Addr4 0x0A000002) 100 0 0 PolicyDown]\<rparr>"
proof -
  let ?s = "[SRMPLS (NewSegmentSRMPLS 16002)]"
  have "segments_ok ?s" by (simp add: segments_ok_def NewSegmentSRMPLS_def)
  then have e: "ToSegmentList (createEroFromSegmentList ?s) = ?s"
    using createEroFromSegmentList_segments by (simp add: segments_ok_def)
  have c: "resolveColorPreference (sessionAt syncedServer 0) apiReport = (100, 0)"
    by (simp add: resolveColorPreference_def syncedServer_sessions handleFinishSynchronization_def NewSession_def apiReport_def
        AssociationObject_Color_def AssociationObject_Preference_def AssociationObject_zero_def)
  have v: "validateSegmentList apiReport = Inr ?s"
    by (simp add: validateSegmentList_def apiReport_def e)
  have "RegisterSRPolicy apiReport (sessionAt syncedServer 0) = (Inr (), (sessionAt syncedServer 0)\<lparr>ss_srPolicies :=
      [NewSRPolicy 7 ''p'' ?s (Addr4 0x0A000001) (Addr4 0x0A000002) 100 0 0 PolicyDown]\<rparr>)"
    unfolding RegisterSRPolicy_def c v updateOrCreatePolicy_def
    by (simp add: syncedServer_sessions handleFinishSynchronization_def NewSession_def)
      (simp add: apiReport_def delegationReport_def NewStateReport_def LSPObject_zero_def SrpObject_zero_def applyIntent_def
        takeSRPolicyIntent_def resolvePolicyState_def syncedServer_sessions handleFinishSynchronization_def NewSession_def Let_def)
  then show "length (pce_store apiServer) = 2" "pce_sessionList apiServer = [0, 1]"
    "sessionAt apiServer 0 = (sessionAt syncedServer 0)\<lparr>ss_srPolicies :=
      [NewSRPolicy 7 ''p'' ?s (Addr4 0x0A000001) (Addr4 0x0A000002) 100 0 0 PolicyDown]\<rparr>"
    by (simp_all add: apiServer_def syncedServer_sessions sessionAt_update)
qed

lemma apiServer_other: "ss_srPolicies (sessionAt apiServer 1) = []"
proof -
  have l: "length (pce_store sampleServer) = 2" by (simp add: sampleServer_def NewPCE_def setTED_def Let_def)
  have "sessionAt apiServer 1 = sessionAt sampleServer 1"
    by (simp add: apiServer_def syncedServer_def sessionAt_update l)
  then show ?thesis
    by (simp add: sampleServer_def sessionAt_def acceptSession_def NewPCE_def setTED_def sampleOptions_def NewSession_def Let_def)
qed

lemma deleteRequest_succeeds:
  "\<exists>sv'. DeleteSRPolicyRPC apiSampleEnv False deleteRequest apiServer = Some (Inr (), sv')"
proof -
  let ?ss = "sessionAt apiServer 0" and ?policy = "the (dr_SrPolicy deleteRequest)"
  let ?pol = "(requestPolicy ?policy [] NoAddr (Addr4 0x0A000002))\<lparr>pol_PlspID := 7\<rparr>"
  note ss = apiServer_session syncedServer_sessions(4) handleFinishSynchronization_def NewSession_def
  have be32: "AddrFromSlice (be32 v) = (Addr4 v, True)" for v using AddrFromSlice_AsSlice4 [of "Addr4 v"] by simp
  have ne: "be32 v \<noteq> []" for v by (simp add: be32_bytes)
  have 1: "validate (dr_SrPolicy deleteRequest) (dr_Asn deleteRequest) ValidationDelete = Inr ()"
    by (simp add: deleteRequest_def validate_def validator_def requireE_def
        ValidationAdd_def ValidationAddDisablePathCompute_def ValidationDelete_def ne)
  have 2: "getSyncedPCEPSession apiServer (sessionAddrBytes ?policy) = Inr 0"
    by (simp add: getSyncedPCEPSession_def deleteRequest_def sessionAddrBytes_def be32 SearchSession_def ss)
  have 3: "SearchPlspID ?ss 100 (Addr4 0x0A000002) = Some 7"
    by (simp add: SearchPlspID_def ss NewSRPolicy_def)
  have "writable ?ss" "usable ?ss 1"
    by (simp_all add: ss sampleConn_def writable_def usable_def intentMap_def maxUint32_def)
  moreover have "\<exists>bs. pcinitiateBytes ?pol True srpID ?ss = Inr bs" for srpID
  proof -
    have "name_ok ''p''" "(7 :: u32) < 2 ^ 20" using sample_name by simp_all
    from PCInitiate_deletion [OF this, of srpID "[]" 100 100 NoAddr "Addr4 0x0A000002"
        "[VendorSpecific (ss_pccType ?ss), OriginatorASN (ss_asn ?ss)]"] show ?thesis
      by (auto simp: pcinitiateBytes_def requestPolicy_def deleteRequest_def pbSRPolicy_zero_def SRPolicy_zero_def NewSRPolicy_def)
  qed
  ultimately obtain sv' where "onSession 0 (SendPCInitiate 0 ?pol True) apiServer = Some (Inr (), sv')"
    using writable_request [of 0 apiServer] apiServer_session(1) by force
  then show ?thesis
    using 1 2 3 by (simp add: DeleteSRPolicyRPC_def RequestSRPolicyDeleted_def deleteRequest_def GetSrPolicy_def be32
        apiSampleEnv_def pbSRPolicy_zero_def Let_def)
qed

lemma DeleteSRPolicy_sends_witness:
  "\<exists>sv' p bs r. sentOn p bs apiServer sv' \<and>
    PCRptMessage_DecodeFromBytes NewPCRptMessage (drop 4 bs) = Some (Inr \<lparr>prm_StateReports = [r]\<rparr>) \<and> so_RFlag (sr_SrpObject r)"
proof -
  obtain sv' where c: "DeleteSRPolicyRPC apiSampleEnv False deleteRequest apiServer = Some (Inr (), sv')"
    using deleteRequest_succeeds by blast
  have n: "name_ok (pp_PolicyName (the (dr_SrPolicy deleteRequest)))" using sample_name by (simp add: deleteRequest_def)
  have b: "list_all (\<lambda>p. list_all (\<lambda>q. pol_PlspID q < 2 ^ 20) (ss_srPolicies (sessionAt apiServer p))) (pce_sessionList apiServer)"
    using apiServer_other by (simp add: apiServer_session NewSRPolicy_def)
  from DeleteSRPolicy_sends [OF apiServer_reached(2) c _ n b] show ?thesis
    by (force simp: deleteRequest_def)
qed

end
