(* ===== verification/Debouncer.thy ===== *)
theory Debouncer
  imports Ted
begin

text \<open>
  The debouncer of \<open>src/internal/gobgp/interface.go\<close>: a trigger starts a goroutine unless one is
  active; the goroutine waits until the cooldown has passed since the last trigger, fetches the database
  once and delivers it. Sections under the mutex are one step; time is a natural number of nanoseconds.
\<close>

section \<open>The debouncer\<close>

record Debouncer =
  db_active :: bool
  db_last :: nat
  db_cooldown :: nat

definition NewDebouncer :: "nat \<Rightarrow> Debouncer" where
  "NewDebouncer cd = \<lparr>db_active = False, db_last = 0, db_cooldown = cd\<rparr>"

text \<open>What a trigger does under the mutex, and whether it starts the goroutine.\<close>

definition Trigger :: "nat \<Rightarrow> Debouncer \<Rightarrow> Debouncer \<times> bool" where
  "Trigger now d = (d\<lparr>db_last := now, db_active := True\<rparr>, \<not> db_active d)"

definition remainingTime :: "nat \<Rightarrow> Debouncer \<Rightarrow> int" where
  "remainingTime now d = int (db_cooldown d) - (int now - int (db_last d))"

text \<open>Where the goroutine is: at the top of its loop, at the timer, in \<open>fetch\<close>, in \<open>deliver\<close>, or at its deferred call.\<close>

datatype phase = Checking | Waiting nat | Fetching | Delivering "TEDElem list" | Exiting

record debounceState =
  ds_now :: nat
  ds_debouncer :: Debouncer
  ds_goroutines :: "phase list"
  ds_cancelled :: bool
  ds_delivered :: "TEDElem list list"

definition debounceStart :: "nat \<Rightarrow> debounceState" where
  "debounceStart cd = \<lparr>ds_now = 0, ds_debouncer = NewDebouncer cd, ds_goroutines = [], ds_cancelled = False, ds_delivered = []\<rparr>"

definition triggerStep :: "debounceState \<Rightarrow> debounceState" where
  "triggerStep s =
     (case Trigger (ds_now s) (ds_debouncer s) of (d, start) \<Rightarrow>
        s\<lparr>ds_debouncer := d, ds_goroutines := ds_goroutines s @ (if start then [Checking] else [])\<rparr>)"

text \<open>The goroutine's own step at each phase; \<open>fetch\<close> is what \<open>fetch()\<close> returns.\<close>

definition checkPhase :: "debounceState \<Rightarrow> phase" where
  "checkPhase s = (let remaining = remainingTime (ds_now s) (ds_debouncer s) in
     if remaining \<le> 0 then Fetching else Waiting (ds_now s + nat remaining))"

definition fetchPhase :: "TEDElem list result \<Rightarrow> debounceState \<Rightarrow> phase" where
  "fetchPhase fetch s = (case fetch of
     Inl _ \<Rightarrow> Exiting | Inr tedElems \<Rightarrow> if ds_cancelled s then Exiting else Delivering tedElems)"

definition goPhase :: "nat \<Rightarrow> phase \<Rightarrow> debounceState \<Rightarrow> debounceState" where
  "goPhase i p s = s\<lparr>ds_goroutines := (ds_goroutines s)[i := p]\<rparr>"

definition exitStep :: "nat \<Rightarrow> debounceState \<Rightarrow> debounceState" where
  "exitStep i s = s\<lparr>ds_debouncer := (ds_debouncer s)\<lparr>db_active := False\<rparr>,
     ds_goroutines := take i (ds_goroutines s) @ drop (Suc i) (ds_goroutines s)\<rparr>"

section \<open>Steps\<close>

text \<open>
  What an observer sees: a trigger, or the start of a fetch, and when. A fetch that panics ends the
  process, so there is no step after it.
\<close>

datatype event = Triggered nat | Fetched nat

inductive debounce_step :: "debounceState \<Rightarrow> event list \<Rightarrow> debounceState \<Rightarrow> bool" where
  tick: "debounce_step s [] (s\<lparr>ds_now := ds_now s + d\<rparr>)"
| cancel: "debounce_step s [] (s\<lparr>ds_cancelled := True\<rparr>)"
| trigger: "debounce_step s [Triggered (ds_now s)] (triggerStep s)"
| check: "i < length (ds_goroutines s) \<Longrightarrow> ds_goroutines s ! i = Checking \<Longrightarrow>
    debounce_step s (if checkPhase s = Fetching then [Fetched (ds_now s)] else []) (goPhase i (checkPhase s) s)"
| timer: "i < length (ds_goroutines s) \<Longrightarrow> ds_goroutines s ! i = Waiting t \<Longrightarrow> t \<le> ds_now s \<Longrightarrow>
    debounce_step s [] (goPhase i Checking s)"
| stop: "i < length (ds_goroutines s) \<Longrightarrow> ds_goroutines s ! i = Waiting t \<Longrightarrow> ds_cancelled s \<Longrightarrow>
    debounce_step s [] (goPhase i Exiting s)"
| fetch: "i < length (ds_goroutines s) \<Longrightarrow> ds_goroutines s ! i = Fetching \<Longrightarrow> fetch \<noteq> panic \<Longrightarrow>
    debounce_step s [] (goPhase i (fetchPhase fetch s) s)"
| deliver: "i < length (ds_goroutines s) \<Longrightarrow> ds_goroutines s ! i = Delivering tedElems \<Longrightarrow>
    debounce_step s [] (goPhase i Exiting (s\<lparr>ds_delivered := ds_delivered s @ [tedElems]\<rparr>))"
| dropped: "i < length (ds_goroutines s) \<Longrightarrow> ds_goroutines s ! i = Delivering tedElems \<Longrightarrow> ds_cancelled s \<Longrightarrow>
    debounce_step s [] (goPhase i Exiting s)"
| leave: "i < length (ds_goroutines s) \<Longrightarrow> ds_goroutines s ! i = Exiting \<Longrightarrow> debounce_step s [] (exitStep i s)"

inductive debounce_run :: "debounceState \<Rightarrow> event list \<Rightarrow> debounceState \<Rightarrow> bool" where
  refl: "debounce_run s [] s"
| step: "debounce_run s es s1 \<Longrightarrow> debounce_step s1 es' s2 \<Longrightarrow> debounce_run s (es @ es') s2"

inductive_cases debounce_stepE: "debounce_step s es s'"

section \<open>Properties\<close>

text \<open>Every fetch starts at least a cooldown after every trigger before it.\<close>

definition spaced :: "nat \<Rightarrow> event list \<Rightarrow> bool" where
  "spaced cd es \<longleftrightarrow> (\<forall>pre t post. es = pre @ Fetched t # post \<longrightarrow> (\<forall>u. Triggered u \<in> set pre \<longrightarrow> u + cd \<le> t))"

lemma snoc_split: "es @ [e] = pre @ x # post \<longleftrightarrow> (post = [] \<and> es = pre \<and> e = x) \<or> (\<exists>post'. post = post' @ [e] \<and> es = pre @ x # post')"
  by (cases post rule: rev_cases) auto

lemma spaced_simps [simp]:
  "spaced cd []"
  "spaced cd (es @ [Triggered u]) = spaced cd es"
  "spaced cd (es @ [Fetched t]) \<longleftrightarrow> spaced cd es \<and> (\<forall>u. Triggered u \<in> set es \<longrightarrow> u + cd \<le> t)"
  unfolding spaced_def snoc_split by blast+

fun is_fetch :: "event \<Rightarrow> bool" where "is_fetch (Fetched t) = True" | "is_fetch (Triggered t) = False"

fun pending :: "phase \<Rightarrow> bool" where
  "pending Checking = True" | "pending (Waiting t) = True" | "pending _ = False"

definition fetches :: "event list \<Rightarrow> nat" where "fetches es = length (filter is_fetch es)"
definition triggers :: "event list \<Rightarrow> nat" where "triggers es = length (filter (Not \<circ> is_fetch) es)"

lemma count_simps [simp]:
  "fetches [] = 0" "triggers [] = 0"
  "fetches (es @ [Fetched t]) = Suc (fetches es)" "fetches (es @ [Triggered t]) = fetches es"
  "triggers (es @ [Fetched t]) = triggers es" "triggers (es @ [Triggered t]) = Suc (triggers es)"
  by (simp_all add: fetches_def triggers_def)

definition debounce_inv :: "nat \<Rightarrow> event list \<Rightarrow> debounceState \<Rightarrow> bool" where
  "debounce_inv cd es s \<longleftrightarrow> length (ds_goroutines s) = (if db_active (ds_debouncer s) then 1 else 0) \<and>
     db_cooldown (ds_debouncer s) = cd \<and> db_last (ds_debouncer s) \<le> ds_now s \<and>
     (\<forall>u. Triggered u \<in> set es \<longrightarrow> u \<le> db_last (ds_debouncer s)) \<and> spaced cd es \<and>
     fetches es + length (filter pending (ds_goroutines s)) \<le> triggers es"

lemma debounce_single:
  assumes "debounce_inv cd es s" "i < length (ds_goroutines s)"
  shows "\<exists>q. ds_goroutines s = [q]" "i = 0" "db_active (ds_debouncer s)"
proof -
  have "length (ds_goroutines s) = 1" "db_active (ds_debouncer s)"
    using assms by (auto simp: debounce_inv_def split: if_splits)
  then show "i = 0" "\<exists>q. ds_goroutines s = [q]" "db_active (ds_debouncer s)"
    using assms(2) by (auto simp: length_Suc_conv)
qed

lemma debounce_inv_go:
  assumes "debounce_inv cd es s" "i < length (ds_goroutines s)"
    and "pending p \<longrightarrow> pending (ds_goroutines s ! i)"
  shows "debounce_inv cd es (goPhase i p s)"
proof -
  obtain q where q: "ds_goroutines s = [q]" "i = 0" using debounce_single [OF assms(1,2)] by blast
  then show ?thesis using assms(1,3) unfolding debounce_inv_def goPhase_def by (cases "pending p") simp_all
qed

lemma debounce_inv_step:
  assumes "debounce_inv cd es s" "debounce_step s es' s'"
  shows "debounce_inv cd (es @ es') s'"
  using assms(2)
proof cases
  case (check i)
  have q: "ds_goroutines s = [Checking]" "i = 0" using debounce_single [OF assms(1) check(3)] check(4) by auto
  show ?thesis
    using assms(1) q unfolding check(1,2)
    by (auto simp: debounce_inv_def goPhase_def checkPhase_def remainingTime_def Let_def split: if_splits)
next
  case trigger
  then show ?thesis using assms(1)
    by (auto simp: debounce_inv_def triggerStep_def Trigger_def split: if_splits)
next
  case (timer i t)
  then show ?thesis using debounce_inv_go [OF assms(1) timer(3), of Checking] by simp
next
  case (stop i t)
  then show ?thesis using debounce_inv_go [OF assms(1) stop(3), of Exiting] by simp
next
  case (fetch i f)
  have "\<not> pending (fetchPhase f s)" by (simp add: fetchPhase_def split: sum.splits)
  then show ?thesis using debounce_inv_go [OF assms(1) fetch(3), of "fetchPhase f s"] fetch by simp
next
  case (deliver i es)
  have "debounce_inv cd es (s\<lparr>ds_delivered := ds_delivered s @ [es']\<rparr>) = debounce_inv cd es s" for es es'
    by (simp add: debounce_inv_def)
  then show ?thesis using debounce_inv_go [of cd _ "s\<lparr>ds_delivered := ds_delivered s @ [es]\<rparr>" i Exiting] assms(1) deliver by simp
next
  case (dropped i es)
  then show ?thesis using debounce_inv_go [OF assms(1) dropped(3), of Exiting] by simp
next
  case (leave i)
  have "ds_goroutines s = [Exiting]" "i = 0" using debounce_single [OF assms(1) leave(3)] leave(4) by auto
  then show ?thesis using assms(1) leave by (auto simp: debounce_inv_def exitStep_def)
qed (use assms(1) in \<open>simp_all add: debounce_inv_def\<close>)

lemma debounce_inv_run:
  assumes "debounce_run (debounceStart cd) es s"
  shows "debounce_inv cd es s"
  using assms
proof (induction "debounceStart cd" es s rule: debounce_run.induct)
  case refl
  then show ?case by (simp add: debounce_inv_def debounceStart_def NewDebouncer_def)
next
  case (step es s1 es' s2)
  then show ?case using debounce_inv_step by blast
qed


text \<open>
  At most one goroutine runs, every fetch starts at least a cooldown after every trigger before it, and
  there are never more fetches than triggers.
\<close>

theorem debounce_safety:
  assumes "debounce_run (debounceStart cd) es s"
  shows "length (ds_goroutines s) \<le> 1 \<and> fetches es \<le> triggers es \<and>
    (\<forall>pre t post. es = pre @ Fetched t # post \<longrightarrow> (\<forall>u. Triggered u \<in> set pre \<longrightarrow> u + cd \<le> t))"
proof -
  have i: "debounce_inv cd es s" using assms by (rule debounce_inv_run)
  then have "spaced cd es" by (simp add: debounce_inv_def)
  then have "\<forall>pre t post. es = pre @ Fetched t # post \<longrightarrow> (\<forall>u. Triggered u \<in> set pre \<longrightarrow> u + cd \<le> t)"
    by (simp only: spaced_def)
  then show ?thesis using i by (simp add: debounce_inv_def)
qed

lemma debounce_run_trans: "debounce_run s1 es' s2 \<Longrightarrow> debounce_run s es s1 \<Longrightarrow> debounce_run s (es @ es') s2"
proof (induction rule: debounce_run.induct)
  case (step s es' s1 es'' s2)
  then show ?case using debounce_run.step by (metis append.assoc)
qed simp

lemma debounce_run_step: "debounce_step s es s1 \<Longrightarrow> debounce_run s1 es' s2 \<Longrightarrow> debounce_run s (es @ es') s2"
  using debounce_run_trans debounce_run.step [OF debounce_run.refl] by force

text \<open>The cooldown of a pending trigger ends in a fetch, if nothing else happens.\<close>

lemma pending_fetches:
  assumes "debounce_inv cd es s" "ds_goroutines s = [Checking]"
  shows "\<exists>s'. debounce_run s [Fetched (max (ds_now s) (db_last (ds_debouncer s) + cd))] s' \<and> ds_goroutines s' = [Fetching]"
proof -
  let ?t = "max (ds_now s) (db_last (ds_debouncer s) + cd)"
  let ?s1 = "s\<lparr>ds_now := ?t\<rparr>"
  have 1: "debounce_step s [] ?s1"
    using debounce_step.tick [of s "?t - ds_now s"] by simp
  have 2: "checkPhase ?s1 = Fetching"
    using assms(1) by (auto simp: checkPhase_def remainingTime_def debounce_inv_def Let_def)
  have 3: "debounce_step ?s1 [Fetched ?t] (goPhase 0 Fetching ?s1)"
    using debounce_step.check [of 0 ?s1] assms(2) by (simp add: 2)
  have "debounce_run ?s1 ([Fetched ?t] @ []) (goPhase 0 Fetching ?s1)"
    using debounce_run_step [OF 3 debounce_run.refl] .
  from debounce_run_step [OF 1 this] show ?thesis using assms(2) by (auto simp: goPhase_def)
qed

theorem debounce_liveness:
  assumes "debounce_run (debounceStart cd) es s" "p \<in> set (ds_goroutines s)" "pending p"
  shows "\<exists>s' t. debounce_run s [Fetched t] s' \<and> ds_goroutines s' = [Fetching] \<and> db_last (ds_debouncer s) + cd \<le> t"
proof -
  have i: "debounce_inv cd es s" using assms(1) by (rule debounce_inv_run)
  have "ds_goroutines s \<noteq> []" using assms(2) by auto
  then have g: "ds_goroutines s = [p]" using debounce_single(1) [OF i, of 0] assms(2) by auto
  show ?thesis
  proof (cases p)
    case Checking
    then show ?thesis using pending_fetches [OF i] g by fastforce
  next
    case (Waiting u)
    let ?s1 = "s\<lparr>ds_now := ds_now s + u\<rparr>"
    let ?s2 = "goPhase 0 Checking ?s1"
    have 1: "debounce_step s [] ?s1" by (rule debounce_step.tick)
    have 2: "debounce_step ?s1 [] ?s2" using g Waiting by (intro debounce_step.timer) auto
    have g2: "ds_goroutines ?s2 = [Checking]" "db_last (ds_debouncer ?s2) = db_last (ds_debouncer s)"
      using g by (simp_all add: goPhase_def)
    have "debounce_inv cd (es @ [] @ []) ?s2"
      using debounce_inv_step [OF debounce_inv_step [OF i 1] 2] by simp
    from pending_fetches [OF this g2(1)] obtain s' where
      "debounce_run ?s2 [Fetched (max (ds_now ?s2) (db_last (ds_debouncer ?s2) + cd))] s'" "ds_goroutines s' = [Fetching]" by blast
    then show ?thesis using debounce_run_step [OF 1 debounce_run_step [OF 2]] g2(2) by fastforce
  qed (use assms(3) in auto)
qed

text \<open>Without triggers, nothing happens when no goroutine runs.\<close>

lemma idle_stays:
  assumes "debounce_run s es s'" "ds_goroutines s = []" "triggers es = 0"
  shows "es = [] \<and> ds_goroutines s' = [] \<and> ds_delivered s' = ds_delivered s"
  using assms
proof (induction rule: debounce_run.induct)
  case (step s es s1 es' s2)
  have t: "triggers es = 0" "triggers es' = 0" using step.prems by (simp_all add: triggers_def)
  then have "es = []" "ds_goroutines s1 = []" "ds_delivered s1 = ds_delivered s" using step by auto
  moreover from step.hyps(2) t(2) calculation(2) have "es' = [] \<and> ds_goroutines s2 = [] \<and> ds_delivered s2 = ds_delivered s1"
    by cases (auto simp: triggers_def)
  ultimately show ?case by simp
qed simp

text \<open>Nor does a goroutine that fetches, delivers or ends start another fetch.\<close>

lemma fetched_stays:
  assumes "debounce_run s es s'" "\<forall>p \<in> set (ds_goroutines s). \<not> pending p" "triggers es = 0"
  shows "fetches es = 0 \<and> (\<forall>p \<in> set (ds_goroutines s'). \<not> pending p)"
  using assms
proof (induction rule: debounce_run.induct)
  case (step s es s1 es' s2)
  have t: "triggers es = 0" "triggers es' = 0" using step.prems by (simp_all add: triggers_def)
  then have es: "fetches es = 0" and p: "\<And>p. p \<in> set (ds_goroutines s1) \<Longrightarrow> \<not> pending p" using step by auto
  have n: "\<not> pending (ds_goroutines s1 ! i)" if "i < length (ds_goroutines s1)" for i using p that by simp
  have go: "\<forall>p \<in> set (ds_goroutines (goPhase i q s1)). \<not> pending p" if "\<not> pending q" for i q
    using p that set_update_subset_insert [of "ds_goroutines s1" i q] by (auto simp: goPhase_def)
  from step.hyps(2) have "es' = [] \<and> (\<forall>p \<in> set (ds_goroutines s2). \<not> pending p)"
  proof cases
    case (check i)
    then show ?thesis using n [of i] by simp
  next
    case (timer i u)
    then show ?thesis using n [of i] by simp
  next
    case (fetch i f)
    have "\<not> pending (fetchPhase f s1)" by (simp add: fetchPhase_def split: sum.splits)
    then show ?thesis using fetch go by simp
  next
    case (stop i u)
    then show ?thesis using go [of Exiting i] by simp
  next
    case (deliver i els)
    have "ds_goroutines s2 = ds_goroutines (goPhase i Exiting s1)" by (simp add: deliver(2) goPhase_def)
    then show ?thesis using deliver(1) go [of Exiting i] by simp
  next
    case (dropped i els)
    then show ?thesis using go [of Exiting i] by simp
  next
    case (leave i)
    then show ?thesis using p by (auto simp: exitStep_def dest: in_set_takeD in_set_dropD)
  qed (use p t(2) in \<open>simp_all add: triggers_def\<close>)
  then show ?case using es by (simp add: fetches_def)
qed (simp add: fetches_def)

text \<open>
  C33: A trigger is forgotten when it arrives after the goroutine has started its fetch. In every state that
  the debouncer can reach in which the goroutine fetches, delivers or is about to end, the context cancelled or not,
  a trigger only notes the time: no goroutine is started, and however the run goes on, there is no fetch until
  another trigger comes, although this one came after the last fetch had started.
\<close>

theorem debounce_lost_trigger:
  assumes "debounce_run (debounceStart cd) es s" "ds_goroutines s = [p]"
    and "p = Fetching \<or> p = Delivering tedElems \<or> p = Exiting"
  shows "debounce_step s [Triggered (ds_now s)] (triggerStep s) \<and> ds_goroutines (triggerStep s) = [p] \<and>
    db_last (ds_debouncer (triggerStep s)) = ds_now s \<and> ds_cancelled (triggerStep s) = ds_cancelled s \<and>
    (\<forall>es' s'. debounce_run (triggerStep s) es' s' \<longrightarrow> triggers es' = 0 \<longrightarrow> fetches es' = 0)"
proof -
  have "db_active (ds_debouncer s)" using debounce_single(3) [OF debounce_inv_run [OF assms(1)], of 0] assms(2) by simp
  then have g: "ds_goroutines (triggerStep s) = [p]" using assms(2) by (simp add: triggerStep_def Trigger_def)
  have "\<not> pending p" using assms(3) by auto
  with g have n: "\<forall>q \<in> set (ds_goroutines (triggerStep s)). \<not> pending q" by simp
  have "fetches es' = 0" if "debounce_run (triggerStep s) es' s'" "triggers es' = 0" for es' s'
    using fetched_stays [OF that(1) n that(2)] by (rule conjunct1)
  moreover have "db_last (ds_debouncer (triggerStep s)) = ds_now s" "ds_cancelled (triggerStep s) = ds_cancelled s"
    by (simp_all add: triggerStep_def Trigger_def)
  ultimately show ?thesis using g debounce_step.trigger [of s] by blast
qed

section \<open>Witnesses\<close>

lemma debounce_trigger_run: "debounce_run (debounceStart 5) [Triggered 0] (triggerStep (debounceStart 5))"
  using debounce_run_step [OF debounce_step.trigger debounce_run.refl, of "debounceStart 5"] by (simp add: debounceStart_def)

lemma debounce_safety_witness: "length (ds_goroutines (triggerStep (debounceStart 5))) \<le> 1 \<and> fetches [Triggered 0] \<le> 1"
  using debounce_safety [OF debounce_trigger_run] by (auto simp: triggers_def)

lemma debounce_liveness_witness:
  "\<exists>s' t. debounce_run (triggerStep (debounceStart 5)) [Fetched t] s' \<and> ds_goroutines s' = [Fetching]"
proof -
  have "Checking \<in> set (ds_goroutines (triggerStep (debounceStart 5)))"
    by (simp add: triggerStep_def Trigger_def debounceStart_def NewDebouncer_def)
  from debounce_liveness [OF debounce_trigger_run this] show ?thesis by auto
qed

text \<open>A state in which a fetched list is being delivered, and nothing is cancelled.\<close>

lemma delivering_reached:
  "\<exists>s. debounce_run (debounceStart cd) [Triggered 0, Fetched cd] s \<and> ds_goroutines s = [Delivering tedElems] \<and>
     \<not> ds_cancelled s \<and> ds_delivered s = [] \<and> ds_now s = cd"
proof -
  let ?s0 = "debounceStart cd"
  let ?s1 = "triggerStep ?s0"
  let ?s2 = "?s1\<lparr>ds_now := cd\<rparr>"
  let ?s3 = "goPhase 0 Fetching ?s2"
  let ?s4 = "goPhase 0 (Delivering tedElems) ?s3"
  note defs = debounceStart_def NewDebouncer_def triggerStep_def Trigger_def goPhase_def checkPhase_def
    remainingTime_def fetchPhase_def Let_def
  have 1: "debounce_step ?s0 [Triggered 0] ?s1" using debounce_step.trigger [of ?s0] by (simp add: defs)
  have 2: "debounce_step ?s1 [] ?s2" using debounce_step.tick [of ?s1 cd] by (simp add: defs)
  have 3: "debounce_step ?s2 [Fetched cd] ?s3" using debounce_step.check [of 0 ?s2] by (simp add: defs)
  have 4: "debounce_step ?s3 [] ?s4" using debounce_step.fetch [of 0 ?s3 "Inr tedElems"] by (simp add: defs)
  have "debounce_run ?s0 ([Triggered 0] @ [] @ [Fetched cd] @ [] @ []) ?s4"
    by (intro debounce_run_step [OF 1] debounce_run_step [OF 2] debounce_run_step [OF 3] debounce_run_step [OF 4] debounce_run.refl)
  then show ?thesis by (intro exI [where x = ?s4]) (simp add: defs)
qed

text \<open>The elements are delivered, the trigger that came meanwhile is lost, and nothing was cancelled.\<close>

lemma debounce_lost_trigger_witness:
  "\<exists>s s'. debounce_run (debounceStart 5) [Triggered 0, Fetched 5, Triggered 5] s \<and> \<not> ds_cancelled s \<and>
     debounce_step s [] s' \<and> ds_delivered s' = [[]] \<and> \<not> ds_cancelled s' \<and>
     (\<forall>es s''. debounce_run s' es s'' \<longrightarrow> triggers es = 0 \<longrightarrow> fetches es = 0)"
proof -
  obtain s where s: "debounce_run (debounceStart 5) [Triggered 0, Fetched 5] s" "ds_goroutines s = [Delivering []]"
      "\<not> ds_cancelled s" "ds_delivered s = []" "ds_now s = 5"
    using delivering_reached by blast
  let ?t = "triggerStep s" and ?s = "goPhase 0 Exiting ((triggerStep s)\<lparr>ds_delivered := [[]]\<rparr>)"
  have t: "debounce_step s [Triggered 5] ?t" "ds_goroutines ?t = [Delivering []]" "\<not> ds_cancelled ?t"
    and lost: "\<forall>es' s'. debounce_run ?t es' s' \<longrightarrow> triggers es' = 0 \<longrightarrow> fetches es' = 0"
    using debounce_lost_trigger [OF s(1,2), of "[]"] s(3,5) by simp_all
  have r: "debounce_run (debounceStart 5) [Triggered 0, Fetched 5, Triggered 5] ?t"
    using debounce_run.step [OF s(1) t(1)] by simp
  have d: "debounce_step ?t [] ?s"
    using debounce_step.deliver [of 0 ?t "[]"] t(2) s(4) by (simp add: triggerStep_def Trigger_def split: if_splits)
  have "ds_delivered ?s = [[]]" "\<not> ds_cancelled ?s" using t(3) by (simp_all add: goPhase_def)
  moreover have "fetches es = 0" if "debounce_run ?s es s''" "triggers es = 0" for es s''
  proof -
    have "debounce_run ?t es s''" using debounce_run_step [OF d that(1)] by simp
    then show ?thesis using lost that(2) by blast
  qed
  ultimately show ?thesis using r d t(3) by blast
qed

end
