(* ===== verification/Bgp_Ls.thy ===== *)
theory Bgp_Ls
  imports Ted
begin

text \<open>
  \<open>src/internal/gobgp/interface.go\<close>: the import of BGP-LS routes. The messages of the GoBGP API come
  from another repository; the records below hold the fields the code reads, an absent message is
  \<open>None\<close>, and a getter on an absent message gives the zero value, as getters of generated messages do.
  A field access through a nil pointer panics. New nodes are allocated at the end of the heap.
\<close>

section \<open>The messages that are read\<close>

record bgNodeDescriptor =
  bd_Asn :: u32
  bd_IgpRouterId :: string

record bgLinkDescriptor =
  bq_InterfaceAddrIpv4 :: string
  bq_InterfaceAddrIpv6 :: string
  bq_NeighborAddrIpv4 :: string
  bq_NeighborAddrIpv6 :: string

record bgLinkNLRI =
  bi_LocalNode :: "bgNodeDescriptor option"
  bi_RemoteNode :: "bgNodeDescriptor option"
  bi_LinkDescriptor :: "bgLinkDescriptor option"

record bgPrefixNLRI =
  bj_LocalNode :: "bgNodeDescriptor option"
  bj_IpReachability :: "string list option"

record bgSrv6SIDNLRI =
  bh_LocalNode :: "bgNodeDescriptor option"
  bh_Sids :: "string list option"
  bh_MultiTopoIds :: "u32 list option"

text \<open>The field \<open>Nlri\<close> of \<open>LsAddrPrefix_LsNLRI\<close>; a node NLRI holds its local node.\<close>

datatype bgLsNLRI =
    LsNLRI_Node "bgNodeDescriptor option"
  | LsNLRI_Link bgLinkNLRI
  | LsNLRI_PrefixV4 bgPrefixNLRI
  | LsNLRI_PrefixV6 bgPrefixNLRI
  | LsNLRI_Srv6Sid bgSrv6SIDNLRI
  | LsNLRI_Unset

datatype bgLsNLRIType =
    LS_NLRI_TYPE_NODE | LS_NLRI_TYPE_LINK | LS_NLRI_TYPE_PREFIX_V4 | LS_NLRI_TYPE_PREFIX_V6
  | LS_NLRI_TYPE_SRV6_SID | LS_NLRI_TYPE_OTHER string

record bgLsAddrPrefix =
  ba_Type :: bgLsNLRIType
  ba_Nlri :: "bgLsNLRI option"

text \<open>\<open>None\<close>: an NLRI of another family, of which \<open>GetLsAddrPrefix\<close> is nil.\<close>

type_synonym bgNLRI = "bgLsAddrPrefix option"

record bgSidStructure =
  bu_LocalBlock :: u32
  bu_LocalNode :: u32
  bu_LocalFunc :: u32
  bu_LocalArg :: u32

record bgAttributeNode =
  by_IsisArea :: bytes
  by_Name :: string
  by_SrRanges :: "(u32 \<times> u32) list option"

record bgSrv6EndXSID =
  bz_EndpointBehavior :: u32
  bz_Sids :: "string list"
  bz_SidStructure :: "bgSidStructure option"

record bgAttributeLink =
  bw_IgpMetric :: u32
  bw_DefaultTeMetric :: u32
  bw_UnidirectionalLinkDelay :: u32
  bw_SrAdjacencySid :: u32
  bw_Srv6EndXSid :: "bgSrv6EndXSID option"

record bgPrefixSID =
  bo_Algorithm :: u32
  bo_Sid :: u32

record bgAttributePrefix =
  bo_SrPrefixSids :: "bgPrefixSID list"
  bo_SrPrefixSid :: u32

record bgEndpointBehavior =
  be_EndpointBehavior :: u32
  be_Flags :: u32
  be_Algorithm :: u32

record bgAttributeSrv6SID =
  be_SidStructure :: "bgSidStructure option"
  be_Behavior :: "bgEndpointBehavior option"

record bgLsAttribute =
  bg_Node :: "bgAttributeNode option"
  bg_Link :: "bgAttributeLink option"
  bg_Prefix :: "bgAttributePrefix option"
  bg_Srv6Sid :: "bgAttributeSrv6SID option"

datatype bgAttribute =
    Attribute_Ls bgLsAttribute
  | Attribute_MpReach "bgNLRI list"
  | Attribute_Other

record bgPath =
  bg_Nlri :: "bgNLRI option"
  bg_Pattrs :: "bgAttribute list"

type_synonym bgDestination = "bgPath list"

section \<open>Getters\<close>

text \<open>A getter on a message that may be absent.\<close>

definition get :: "('a \<Rightarrow> 'b) \<Rightarrow> 'b \<Rightarrow> 'a option \<Rightarrow> 'b" where
  "get field zero m = (case m of None \<Rightarrow> zero | Some x \<Rightarrow> field x)"

abbreviation getAsn :: "bgNodeDescriptor option \<Rightarrow> u32" where "getAsn \<equiv> get bd_Asn 0"
abbreviation getRouterId :: "bgNodeDescriptor option \<Rightarrow> string" where "getRouterId \<equiv> get bd_IgpRouterId []"

fun GetNode :: "bgLsNLRI option \<Rightarrow> bgNodeDescriptor option" where
  "GetNode (Some (LsNLRI_Node localNode)) = localNode"
| "GetNode _ = None"

fun GetLink :: "bgLsNLRI option \<Rightarrow> bgLinkNLRI option" where
  "GetLink (Some (LsNLRI_Link l)) = Some l"
| "GetLink _ = None"

fun GetSrv6Sid :: "bgLsNLRI option \<Rightarrow> bgSrv6SIDNLRI option" where
  "GetSrv6Sid (Some (LsNLRI_Srv6Sid s)) = Some s"
| "GetSrv6Sid _ = None"

section \<open>Nodes\<close>

text \<open>\<open>hex.EncodeToString\<close>\<close>

definition hexEncode :: "bytes \<Rightarrow> string" where
  "hexEncode bs = concat (map (\<lambda>b. [hex_digit (unat b div 16), hex_digit (unat b mod 16)]) bs)"

definition formatIsisAreaID :: "bytes \<Rightarrow> string" where
  "formatIsisAreaID isisArea =
     (let tmpIsisArea = hexEncode isisArea in
      concat (map (\<lambda>(i, s). (if (length tmpIsisArea - i) mod 4 = 0 \<and> i \<noteq> 0 then ''.'' else []) @ [s])
        (enumerate 0 tmpIsisArea)))"

text \<open>\<open>table.NewLsNode\<close>: the new heap and the pointer.\<close>

definition allocNode :: "LsNode \<Rightarrow> heap \<Rightarrow> nodeptr \<times> heap" where
  "allocNode n h = (Some (length h), h @ [n])"

definition getLsNode :: "bgLsAddrPrefix \<Rightarrow> bgAttributeNode \<Rightarrow> heap \<Rightarrow> (nodeptr \<times> heap) result" where
  "getLsNode typedLinkStateNLRI lsAttrNode h =
     (let localNode = GetNode (ba_Nlri typedLinkStateNLRI);
          lsNode = (NewLsNode (getAsn localNode) (getRouterId localNode))
            \<lparr>nd_IsisAreaID := formatIsisAreaID (by_IsisArea lsAttrNode), nd_Hostname := by_Name lsAttrNode\<rparr> in
      case by_SrRanges lsAttrNode of
        None \<Rightarrow> Inr (allocNode lsNode h)
      | Some srCapabilities \<Rightarrow>
          (case srCapabilities of
             [(begin', end')] \<Rightarrow> Inr (allocNode (lsNode\<lparr>nd_SrgbBegin := begin', nd_SrgbEnd := end'\<rparr>) h)
           | _ \<Rightarrow> errorf ''expected 1 SR Capability TLV'' []))"

section \<open>Links\<close>

text \<open>The two stages that choose the IPv4 address, the IPv6 address or none.\<close>

definition parseLinkAddr :: "string \<Rightarrow> string \<Rightarrow> string \<Rightarrow> addr result" where
  "parseLinkAddr side ipv4 ipv6 =
     (if ipv4 \<noteq> [] then
        (case ParseAddr ipv4 of Inl _ \<Rightarrow> errorf (''failed to parse '' @ side @ '' IPv4 address'') [] | Inr a \<Rightarrow> Inr a)
      else if ipv6 \<noteq> [] then
        (case ParseAddr ipv6 of Inl _ \<Rightarrow> errorf (''failed to parse '' @ side @ '' IPv6 address'') [] | Inr a \<Rightarrow> Inr a)
      else Inr NoAddr)"

definition bgStructure :: "bgSidStructure option \<Rightarrow> SIDStructure" where
  "bgStructure s = \<lparr>st_LocalBlock = ucast (get bu_LocalBlock 0 s), st_LocalNode = ucast (get bu_LocalNode 0 s),
     st_LocalFunc = ucast (get bu_LocalFunc 0 s), st_LocalArg = ucast (get bu_LocalArg 0 s)\<rparr>"

definition getLsLink :: "bgLsAddrPrefix \<Rightarrow> bgAttributeLink \<Rightarrow> heap \<Rightarrow> (LsLink \<times> heap) result" where
  "getLsLink typedLinkStateNLRI lsAttrLink h =
     (let lsLinkNLRI = GetLink (ba_Nlri typedLinkStateNLRI);
          local = get bi_LocalNode None lsLinkNLRI; remote = get bi_RemoteNode None lsLinkNLRI;
          descriptor = get bi_LinkDescriptor None lsLinkNLRI;
          (localNode, h) = allocNode (NewLsNode (getAsn local) (getRouterId local)) h;
          (remoteNode, h) = allocNode (NewLsNode (getAsn remote) (getRouterId remote)) h in
      bindE (parseLinkAddr ''local'' (get bq_InterfaceAddrIpv4 [] descriptor) (get bq_InterfaceAddrIpv6 [] descriptor)) (\<lambda>localIP.
      bindE (parseLinkAddr ''remote'' (get bq_NeighborAddrIpv4 [] descriptor) (get bq_NeighborAddrIpv6 [] descriptor)) (\<lambda>remoteIP.
      Inr ((NewLsLink localNode remoteNode)
        \<lparr>lk_LocalIP := localIP, lk_RemoteIP := remoteIP,
         lk_Metrics := [NewMetric IGPMetric (bw_IgpMetric lsAttrLink)] @
           (if bw_DefaultTeMetric lsAttrLink \<noteq> 0 then [NewMetric TEMetric (bw_DefaultTeMetric lsAttrLink)] else []) @
           (if bw_UnidirectionalLinkDelay lsAttrLink \<noteq> 0
            then [NewMetric DelayMetric (bw_UnidirectionalLinkDelay lsAttrLink)] else []),
         lk_AdjSid := bw_SrAdjacencySid lsAttrLink,
         lk_Srv6EndXSID := map_option (\<lambda>x. \<lparr>ex_EndpointBehavior = ucast (bz_EndpointBehavior x), ex_Sids = bz_Sids x,
             ex_Srv6SIDStructure = bgStructure (bz_SidStructure x)\<rparr>) (bw_Srv6EndXSid lsAttrLink)\<rparr>, h))))"

section \<open>Prefixes\<close>

definition algo0PrefixSID :: "bgAttributePrefix \<Rightarrow> u32 \<times> bool" where
  "algo0PrefixSID lsAttrPrefix =
     (if bo_SrPrefixSids lsAttrPrefix \<noteq> [] then
        (case List.find (\<lambda>sid. bo_Algorithm sid = 0) (bo_SrPrefixSids lsAttrPrefix) of
           Some sid \<Rightarrow> (bo_Sid sid, True) | None \<Rightarrow> (0, False))
      else if bo_SrPrefixSid lsAttrPrefix \<noteq> 0 then (bo_SrPrefixSid lsAttrPrefix, True)
      else (0, False))"

definition getLsPrefix :: "bgNLRI \<Rightarrow> bgAttributePrefix \<Rightarrow> heap \<Rightarrow> (LsPrefix \<times> heap) result" where
  "getLsPrefix typedLinkStateNLRI lsAttrPrefix h =
     (let (sidIndex, hasSidIndex) = algo0PrefixSID lsAttrPrefix in
      case typedLinkStateNLRI of
        None \<Rightarrow> panic
      | Some lsAddrPrefix \<Rightarrow>
      case ba_Nlri lsAddrPrefix of
        None \<Rightarrow> panic
      | Some nlri \<Rightarrow>
      bindE (case nlri of
          LsNLRI_PrefixV4 p \<Rightarrow> Inr p | LsNLRI_PrefixV6 p \<Rightarrow> Inr p
        | _ \<Rightarrow> errorf ''invalid LS prefix NLRI type'' []) (\<lambda>prefNLRI.
      let (localNode, h) = allocNode (NewLsNode (getAsn (bj_LocalNode prefNLRI)) (getRouterId (bj_LocalNode prefNLRI))) h;
          lsPrefix = (NewLsPrefix localNode)\<lparr>px_SidIndex := sidIndex, px_HasSidIndex := hasSidIndex\<rparr> in
      case get id [] (bj_IpReachability prefNLRI) of
        [prefix] \<Rightarrow>
          (case ParsePrefix prefix of
             Inl _ \<Rightarrow> errorf ''failed to parse prefix'' []
           | Inr p \<Rightarrow> Inr (lsPrefix\<lparr>px_Prefix := p\<rparr>, h))
      | _ \<Rightarrow> errorf ''invalid prefix length: expected 1 prefix'' []))"

fun getLsPrefixList :: "bgNLRI list \<Rightarrow> bgAttributePrefix \<Rightarrow> heap \<Rightarrow> (TEDElem list \<times> heap) result" where
  "getLsPrefixList [] lsAttrPrefix h = Inr ([], h)"
| "getLsPrefixList (nlri # nlris) lsAttrPrefix h =
     bindE (wrapE ''failed to get LS Prefix'' (getLsPrefix nlri lsAttrPrefix h)) (\<lambda>(lsPrefix, h).
     bindE (getLsPrefixList nlris lsAttrPrefix h) (\<lambda>(ps, h). Inr (ElemPrefix lsPrefix # ps, h)))"

section \<open>SRv6 SIDs\<close>

definition getLsSrv6SID :: "bgNLRI \<Rightarrow> bgAttributeSrv6SID \<Rightarrow> heap \<Rightarrow> (LsSrv6SID \<times> heap) result" where
  "getLsSrv6SID typedLinkStateNLRI lsAttrSrv6SID h =
     (case typedLinkStateNLRI of
        None \<Rightarrow> panic
      | Some lsAddrPrefix \<Rightarrow>
          let srv6SIDNLRI = GetSrv6Sid (ba_Nlri lsAddrPrefix);
              behavior = be_Behavior lsAttrSrv6SID;
              local = get bh_LocalNode None srv6SIDNLRI;
              (localNode, h) = allocNode (NewLsNode (getAsn local) (getRouterId local)) h in
          Inr ((NewLsSrv6SID localNode)
            \<lparr>sv_SIDStructure := bgStructure (be_SidStructure lsAttrSrv6SID),
             sv_EndpointBehavior := \<lparr>eb_Behavior = ucast (get be_EndpointBehavior 0 behavior),
               eb_Flags = ucast (get be_Flags 0 behavior), eb_Algorithm = ucast (get be_Algorithm 0 behavior)\<rparr>,
             sv_Sids := get id [] (get bh_Sids None srv6SIDNLRI),
             sv_MultiTopoIDs := get id [] (get bh_MultiTopoIds None srv6SIDNLRI)\<rparr>, h))"

fun getLsSrv6SIDList :: "bgNLRI list \<Rightarrow> bgAttributeSrv6SID \<Rightarrow> heap \<Rightarrow> (TEDElem list \<times> heap) result" where
  "getLsSrv6SIDList [] lsAttrSrv6SID h = Inr ([], h)"
| "getLsSrv6SIDList (nlri # nlris) lsAttrSrv6SID h =
     bindE (wrapE ''failed to get LS Prefix'' (getLsSrv6SID nlri lsAttrSrv6SID h)) (\<lambda>(lsSrv6SID, h).
     bindE (getLsSrv6SIDList nlris lsAttrSrv6SID h) (\<lambda>(ss, h). Inr (ElemSrv6SID lsSrv6SID # ss, h)))"

section \<open>Destinations\<close>

fun findLsAttribute :: "bgAttribute list \<Rightarrow> bgLsAttribute option" where
  "findLsAttribute [] = None"
| "findLsAttribute (Attribute_Ls a # attrs) = Some a"
| "findLsAttribute (_ # attrs) = findLsAttribute attrs"

fun findMpReach :: "bgAttribute list \<Rightarrow> bgNLRI list option" where
  "findMpReach [] = None"
| "findMpReach (Attribute_MpReach nlris # attrs) = Some nlris"
| "findMpReach (_ # attrs) = findMpReach attrs"

definition convertNode :: "bgLsAddrPrefix \<Rightarrow> bgLsAttribute \<Rightarrow> heap \<Rightarrow> (TEDElem list \<times> heap) result" where
  "convertNode nlri lsAttr h =
     (case bg_Node lsAttr of
        None \<Rightarrow> errorf ''LS Node Attribute is nil'' []
      | Some nodeAttr \<Rightarrow>
          bindE (wrapE ''failed to process LS Node NLRI'' (getLsNode nlri nodeAttr h)) (\<lambda>(p, h). Inr ([ElemNode p], h)))"

definition convertLink :: "bgLsAddrPrefix \<Rightarrow> bgLsAttribute \<Rightarrow> heap \<Rightarrow> (TEDElem list \<times> heap) result" where
  "convertLink nlri lsAttr h =
     (case bg_Link lsAttr of
        None \<Rightarrow> errorf ''LS Link Attribute is nil'' []
      | Some linkAttr \<Rightarrow>
          bindE (wrapE ''failed to process LS Link NLRI'' (getLsLink nlri linkAttr h)) (\<lambda>(l, h). Inr ([ElemLink l], h)))"

definition convertPrefix :: "bgLsAttribute \<Rightarrow> bgPath \<Rightarrow> heap \<Rightarrow> (TEDElem list \<times> heap) result" where
  "convertPrefix lsAttr path h =
     (case bg_Prefix lsAttr of
        None \<Rightarrow> errorf ''LS Prefix Attribute is nil'' []
      | Some prefixAttr \<Rightarrow>
      case findMpReach (bg_Pattrs path) of
        None \<Rightarrow> errorf ''MP-REACH NLRI Attribute is nil'' []
      | Some nlris \<Rightarrow> wrapE ''failed to process LS Prefix NLRI'' (getLsPrefixList nlris prefixAttr h))"

definition convertSrv6SID :: "bgLsAttribute \<Rightarrow> bgPath \<Rightarrow> heap \<Rightarrow> (TEDElem list \<times> heap) result" where
  "convertSrv6SID lsAttr path h =
     (case bg_Srv6Sid lsAttr of
        None \<Rightarrow> errorf ''LS SRv6 SID Attribute is nil'' []
      | Some srv6Attr \<Rightarrow>
      case findMpReach (bg_Pattrs path) of
        None \<Rightarrow> errorf ''MP-REACH NLRI Attribute is nil'' []
      | Some nlris \<Rightarrow> wrapE ''failed to process LS SRv6 SID NLRI'' (getLsSrv6SIDList nlris srv6Attr h))"

definition convertByNlriType :: "bgLsAddrPrefix \<Rightarrow> bgLsAttribute \<Rightarrow> bgPath \<Rightarrow> heap \<Rightarrow> (TEDElem list \<times> heap) result" where
  "convertByNlriType nlri lsAttr path h =
     (case ba_Type nlri of
        LS_NLRI_TYPE_NODE \<Rightarrow> convertNode nlri lsAttr h
      | LS_NLRI_TYPE_LINK \<Rightarrow> convertLink nlri lsAttr h
      | LS_NLRI_TYPE_PREFIX_V4 \<Rightarrow> convertPrefix lsAttr path h
      | LS_NLRI_TYPE_PREFIX_V6 \<Rightarrow> convertPrefix lsAttr path h
      | LS_NLRI_TYPE_SRV6_SID \<Rightarrow> convertSrv6SID lsAttr path h
      | LS_NLRI_TYPE_OTHER s \<Rightarrow> errorf (''invalid LS NLRI type: '' @ s) [])"

definition ConvertToTEDElem :: "bgDestination \<Rightarrow> heap \<Rightarrow> (TEDElem list \<times> heap) result" where
  "ConvertToTEDElem dst h =
     (case dst of
        [path] \<Rightarrow>
          (case bg_Nlri path of
             None \<Rightarrow> errorf ''NLRI is nil'' []
           | Some None \<Rightarrow> errorf ''LSAddrPrefix is nil'' []
           | Some (Some lsAddrPrefix) \<Rightarrow>
               (case findLsAttribute (bg_Pattrs path) of
                  None \<Rightarrow> Inr ([], h)
                | Some lsAttr \<Rightarrow> convertByNlriType lsAddrPrefix lsAttr path h))
      | _ \<Rightarrow> errorf ''invalid path length: expected 1 path'' [])"

section \<open>The import\<close>

text \<open>What \<open>stream.Recv\<close> gives: destinations, then the end of the stream or an error.\<close>

fun recvDestinations :: "bgDestination list \<Rightarrow> goerror option \<Rightarrow> heap \<Rightarrow> (TEDElem list \<times> heap) result" where
  "recvDestinations [] None h = Inr ([], h)"
| "recvDestinations [] (Some e) h = wrapE ''error receiving stream data'' (Inl (Err e))"
| "recvDestinations (dst # dsts) e h =
     bindE (wrapE ''failed to convert path to TED element'' (ConvertToTEDElem dst h)) (\<lambda>(convertedElems, h).
     bindE (recvDestinations dsts e h) (\<lambda>(tedElems, h). Inr (convertedElems @ tedElems, h)))"

text \<open>\<open>listPath\<close> is the answer to \<open>client.ListPath\<close>: an error or a stream.\<close>

definition GetBGPlsNLRIs :: "(bgDestination list \<times> goerror option) result \<Rightarrow> heap \<Rightarrow> (TEDElem list \<times> heap) result" where
  "GetBGPlsNLRIs listPath h =
     bindE (wrapE ''failed to retrieve paths from gRPC server'' listPath) (\<lambda>(dsts, e). recvDestinations dsts e h)"

end
