(* ===== verification/Monitor.thy ===== *)
theory Monitor
  imports Debouncer Bgp_Ls
begin

text \<open>
  \<open>MonitorBGPLsEvents\<close> of \<open>src/internal/gobgp/interface.go\<close>: one import at the start, then a loop that
  receives events from GoBGP and hands changes of the table to the debouncer. The goroutine of the
  monitor and that of the debouncer interleave; what the two calls of GoBGP's client return is chosen by
  the environment.
\<close>

section \<open>The monitor\<close>

definition seconds :: "nat \<Rightarrow> nat" where
  "seconds n = n * 1000000000"

text \<open>
  Where the goroutine is: before the connection, in the initial import, at the send of its elements, at
  \<open>WatchEvent\<close>, asleep before the next try, at \<open>Recv\<close>, or returned.
\<close>

datatype monitorPhase = Connecting | Syncing | Offering "TEDElem list" | Subscribing | Asleep nat | Receiving | Ended

record monitorState =
  mo_phase :: monitorPhase
  mo_debounce :: debounceState
  mo_synced :: "TEDElem list list"

definition monitorStart :: monitorState where
  "monitorStart = \<lparr>mo_phase = Connecting, mo_debounce = debounceStart (seconds 5), mo_synced = []\<rparr>"

text \<open>\<open>initialSync\<close>: an error is logged, elements are sent to the server.\<close>

definition initialSync :: "TEDElem list result \<Rightarrow> monitorPhase" where
  "initialSync import = (case import of Inl _ \<Rightarrow> Subscribing | Inr tedElems \<Rightarrow> Offering tedElems)"

text \<open>The loops around \<open>WatchEvent\<close>: at the start and after an error of the stream.\<close>

definition watchPhase :: "nat \<Rightarrow> goerror option \<Rightarrow> monitorPhase" where
  "watchPhase now err = (case err of None \<Rightarrow> Receiving | Some _ \<Rightarrow> Asleep (now + seconds 10))"

text \<open>What \<open>Recv\<close> returns: an event with or without a table, the end of the stream, or another error.\<close>

datatype received = Event (has_table: bool) | EndOfStream | StreamError goerror

text \<open>The body of the receive loop. The end of the stream runs the deferred calls, \<open>cancel\<close> among them.\<close>

definition receive :: "received \<Rightarrow> monitorState \<Rightarrow> monitorState" where
  "receive r m = (case r of
     Event table \<Rightarrow> if table then m\<lparr>mo_debounce := triggerStep (mo_debounce m)\<rparr> else m
   | EndOfStream \<Rightarrow> m\<lparr>mo_phase := Ended, mo_debounce := (mo_debounce m)\<lparr>ds_cancelled := True\<rparr>\<rparr>
   | StreamError e \<Rightarrow> m\<lparr>mo_phase := Asleep (ds_now (mo_debounce m) + seconds 10)\<rparr>)"

section \<open>Steps\<close>

text \<open>A step of the debouncer's goroutine, or of the clock.\<close>

definition background :: "debounceState \<Rightarrow> event list \<Rightarrow> debounceState \<Rightarrow> bool" where
  "background d es d' \<longleftrightarrow> debounce_step d es d' \<and> triggers es = 0 \<and> ds_cancelled d' = ds_cancelled d"

inductive monitor_step :: "monitorState \<Rightarrow> event list \<Rightarrow> monitorState \<Rightarrow> bool" where
  debouncer: "background (mo_debounce m) es d \<Longrightarrow> monitor_step m es (m\<lparr>mo_debounce := d\<rparr>)"
| connect: "mo_phase m = Connecting \<Longrightarrow> monitor_step m [] (m\<lparr>mo_phase := if ok then Syncing else Ended\<rparr>)"
| sync: "mo_phase m = Syncing \<Longrightarrow> import \<noteq> panic \<Longrightarrow> monitor_step m [] (m\<lparr>mo_phase := initialSync import\<rparr>)"
| offer: "mo_phase m = Offering tedElems \<Longrightarrow>
    monitor_step m [] (m\<lparr>mo_phase := Subscribing, mo_synced := mo_synced m @ [tedElems]\<rparr>)"
| watch: "mo_phase m = Subscribing \<Longrightarrow>
    monitor_step m [] (m\<lparr>mo_phase := watchPhase (ds_now (mo_debounce m)) err\<rparr>)"
| wake: "mo_phase m = Asleep t \<Longrightarrow> t \<le> ds_now (mo_debounce m) \<Longrightarrow> monitor_step m [] (m\<lparr>mo_phase := Subscribing\<rparr>)"
| recv: "mo_phase m = Receiving \<Longrightarrow>
    monitor_step m (if r = Event True then [Triggered (ds_now (mo_debounce m))] else []) (receive r m)"

inductive monitor_run :: "monitorState \<Rightarrow> event list \<Rightarrow> monitorState \<Rightarrow> bool" where
  refl: "monitor_run m [] m"
| step: "monitor_run m es m1 \<Longrightarrow> monitor_step m1 es' m2 \<Longrightarrow> monitor_run m (es @ es') m2"

section \<open>The monitor runs the debouncer\<close>

lemma trigger_keeps [simp]: "ds_cancelled (triggerStep d) = ds_cancelled d" "ds_now (triggerStep d) = ds_now d"
  by (simp_all add: triggerStep_def Trigger_def)

lemma monitor_step_debounce:
  assumes "monitor_step m es m'"
  shows "debounce_step (mo_debounce m) es (mo_debounce m') \<or> es = [] \<and> mo_debounce m' = mo_debounce m"
  using assms
proof cases
  case (recv r)
  then show ?thesis
    by (cases r) (auto simp: receive_def intro: debounce_step.trigger debounce_step.cancel)
qed (auto simp: background_def)

lemma monitor_run_debounce:
  assumes "monitor_run m es m'"
  shows "debounce_run (mo_debounce m) es (mo_debounce m')"
  using assms
proof induction
  case (step m es m1 es' m2)
  from monitor_step_debounce [OF step.hyps(2)] show ?case
    using step.IH debounce_run.step by (metis append_Nil2)
qed (rule debounce_run.refl)

text \<open>What does not change: the context is cancelled when the monitor has ended after its start, and only then.\<close>

definition monitor_inv :: "monitorState \<Rightarrow> bool" where
  "monitor_inv m \<longleftrightarrow> (ds_cancelled (mo_debounce m) \<longrightarrow> mo_phase m = Ended) \<and> length (mo_synced m) \<le> 1 \<and>
     (mo_phase m \<in> {Connecting, Syncing} \<union> range Offering \<longrightarrow> mo_synced m = [])"

lemma monitor_inv_step: "monitor_step m es m' \<Longrightarrow> monitor_inv m \<Longrightarrow> monitor_inv m'"
  by (induction rule: monitor_step.induct)
    (auto simp: monitor_inv_def background_def initialSync_def watchPhase_def receive_def
      split: sum.splits option.splits received.splits)

lemma monitor_inv_run:
  assumes "monitor_run monitorStart es m"
  shows "monitor_inv m"
  using assms
proof (induction monitorStart es m rule: monitor_run.induct)
  case refl
  then show ?case by (simp add: monitorStart_def monitor_inv_def debounceStart_def)
qed (use monitor_inv_step in blast)

text \<open>
  C22: The monitor keeps the contract of the debouncer, whatever GoBGP sends and however the goroutines
  interleave: only changes of the table trigger, every later import starts at least five seconds after
  every change before it, there are no more of them than changes, one at a time, the initial import is
  delivered at most once, and the context is not cancelled before the monitor has returned.
\<close>

theorem monitor_refines:
  assumes "monitor_run monitorStart es m"
  shows "debounce_run (debounceStart (seconds 5)) es (mo_debounce m) \<and>
    length (ds_goroutines (mo_debounce m)) \<le> 1 \<and> fetches es \<le> triggers es \<and>
    (\<forall>pre t post. es = pre @ Fetched t # post \<longrightarrow> (\<forall>u. Triggered u \<in> set pre \<longrightarrow> u + seconds 5 \<le> t)) \<and>
    length (mo_synced m) \<le> 1 \<and> (ds_cancelled (mo_debounce m) \<longrightarrow> mo_phase m = Ended)"
proof -
  have r: "debounce_run (debounceStart (seconds 5)) es (mo_debounce m)"
    using monitor_run_debounce [OF assms] by (simp add: monitorStart_def)
  have "debounce_inv (seconds 5) es (mo_debounce m)" using r by (rule debounce_inv_run)
  then have "spaced (seconds 5) es" "length (ds_goroutines (mo_debounce m)) \<le> 1" "fetches es \<le> triggers es"
    by (simp_all add: debounce_inv_def)
  then show ?thesis using r monitor_inv_run [OF assms] by (simp add: spaced_def monitor_inv_def)
qed

section \<open>Where changes are lost\<close>

lemma ended_stays:
  assumes "monitor_run m es m'" "mo_phase m = Ended"
  shows "mo_phase m' = Ended \<and> triggers es = 0"
  using assms
proof induction
  case (step m es m1 es' m2)
  then have "mo_phase m1 = Ended" "triggers es = 0" by simp_all
  with step.hyps(2) show ?case by cases (auto simp: background_def triggers_def)
qed simp

lemma monitor_run_trans: "monitor_run m1 es' m2 \<Longrightarrow> monitor_run m es m1 \<Longrightarrow> monitor_run m (es @ es') m2"
proof (induction rule: monitor_run.induct)
  case (step m1 es' m2 es'' m3)
  then show ?case using monitor_run.step by (metis append.assoc)
qed simp

lemma monitor_run_step: "monitor_step m es m1 \<Longrightarrow> monitor_run m1 es' m2 \<Longrightarrow> monitor_run m (es @ es') m2"
  using monitor_run_trans monitor_run.step [OF monitor_run.refl] by force

text \<open>The phases from which the initial import can no longer start.\<close>

fun watches :: "monitorPhase \<Rightarrow> bool" where
  "watches Connecting = False" | "watches Syncing = False" | "watches (Offering tedElems) = False" | "watches _ = True"

lemma watches_stays:
  assumes "monitor_run m es m'" "watches (mo_phase m)"
  shows "watches (mo_phase m') \<and> mo_synced m' = mo_synced m"
  using assms
proof induction
  case (step m es m1 es' m2)
  then have w: "watches (mo_phase m1)" "mo_synced m1 = mo_synced m" by simp_all
  from step.hyps(2) have "watches (mo_phase m2) \<and> mo_synced m2 = mo_synced m1"
  proof cases
    case (watch err)
    then show ?thesis by (cases err) (simp_all add: watchPhase_def)
  next
    case (recv r)
    then show ?thesis by (cases r) (simp_all add: receive_def)
  qed (use w in simp_all)
  with w(2) show ?case by simp
qed simp

text \<open>After the ten seconds, the monitor subscribes again.\<close>

lemma reconnects:
  assumes "mo_phase m = Asleep t" "ds_now (mo_debounce m) \<le> t"
  shows "\<exists>m2. monitor_run m [] m2 \<and> mo_phase m2 = Receiving \<and> ds_now (mo_debounce m2) = t \<and>
    ds_cancelled (mo_debounce m2) = ds_cancelled (mo_debounce m)"
proof -
  let ?m2 = "m\<lparr>mo_debounce := (mo_debounce m)\<lparr>ds_now := t\<rparr>\<rparr>"
  let ?m3 = "?m2\<lparr>mo_phase := Subscribing\<rparr>"
  let ?m4 = "?m2\<lparr>mo_phase := Receiving\<rparr>"
  have 2: "monitor_step m [] ?m2"
    using monitor_step.debouncer [of m] debounce_step.tick [of "mo_debounce m" "t - ds_now (mo_debounce m)"] assms(2)
    by (simp add: background_def)
  have 3: "monitor_step ?m2 [] ?m3" using monitor_step.wake [of ?m2 t] assms(1) by simp
  have 4: "monitor_step ?m3 [] ?m4" using monitor_step.watch [of ?m3 None] by (simp add: watchPhase_def)
  have "monitor_run m ([] @ [] @ [] @ []) ?m4"
    by (intro monitor_run_step [OF 2] monitor_run_step [OF 3] monitor_run_step [OF 4] monitor_run.refl)
  then show ?thesis by (intro exI [where x = ?m4]) simp
qed

text \<open>
  C34: Two ways to lose changes for good, in every state in which the monitor receives. When the stream
  ends, the monitor returns, and however its goroutines go on, no change triggers an import any more. When
  the stream fails with an error, the monitor can subscribe again ten seconds later, but however the run goes
  on, and through every later failure, it never runs the initial import again and sends no such elements to
  the server; and as long as no event comes, no import starts when no goroutine was about to start one, and
  nothing at all is delivered when no goroutine was under way.
\<close>

theorem monitor_loses_changes:
  assumes "monitor_run monitorStart es m" "mo_phase m = Receiving"
  shows "monitor_step m [] (receive EndOfStream m) \<and>
    (\<forall>es' m'. monitor_run (receive EndOfStream m) es' m' \<longrightarrow> mo_phase m' = Ended \<and> triggers es' = 0) \<and>
    monitor_step m [] (receive (StreamError e) m) \<and>
    (\<exists>m2. monitor_run (receive (StreamError e) m) [] m2 \<and> mo_phase m2 = Receiving \<and>
      ds_now (mo_debounce m2) = ds_now (mo_debounce m) + seconds 10 \<and> \<not> ds_cancelled (mo_debounce m2)) \<and>
    (\<forall>es' m'. monitor_run (receive (StreamError e) m) es' m' \<longrightarrow>
      mo_phase m' \<notin> {Connecting, Syncing} \<union> range Offering \<and> mo_synced m' = mo_synced m \<and>
      (triggers es' = 0 \<longrightarrow> (\<forall>p \<in> set (ds_goroutines (mo_debounce m)). \<not> pending p) \<longrightarrow> fetches es' = 0) \<and>
      (triggers es' = 0 \<longrightarrow> ds_goroutines (mo_debounce m) = [] \<longrightarrow>
        ds_delivered (mo_debounce m') = ds_delivered (mo_debounce m)))"
proof (intro conjI allI impI)
  show "monitor_step m [] (receive EndOfStream m)" using monitor_step.recv [OF assms(2), of EndOfStream] by simp
next
  fix es' m'
  assume r: "monitor_run (receive EndOfStream m) es' m'"
  have "mo_phase (receive EndOfStream m) = Ended" by (simp add: receive_def)
  with ended_stays [OF r] show "mo_phase m' = Ended" "triggers es' = 0" by simp_all
next
  show "monitor_step m [] (receive (StreamError e) m)" using monitor_step.recv [OF assms(2), of "StreamError e"] by simp
next
  have "\<not> ds_cancelled (mo_debounce m)" using monitor_inv_run [OF assms(1)] assms(2) by (auto simp: monitor_inv_def)
  then show "\<exists>m2. monitor_run (receive (StreamError e) m) [] m2 \<and> mo_phase m2 = Receiving \<and>
      ds_now (mo_debounce m2) = ds_now (mo_debounce m) + seconds 10 \<and> \<not> ds_cancelled (mo_debounce m2)"
    using reconnects [of "receive (StreamError e) m" "ds_now (mo_debounce m) + seconds 10"] by (simp add: receive_def)
next
  fix es' m'
  assume r: "monitor_run (receive (StreamError e) m) es' m'"
  have "watches (mo_phase m')" and "mo_synced m' = mo_synced m"
    using watches_stays [OF r] by (simp_all add: receive_def)
  then show "mo_phase m' \<notin> {Connecting, Syncing} \<union> range Offering" "mo_synced m' = mo_synced m" by auto
  have d: "debounce_run (mo_debounce m) es' (mo_debounce m')"
    using monitor_run_debounce [OF r] by (simp add: receive_def)
  show "fetches es' = 0" if "triggers es' = 0" "\<forall>p \<in> set (ds_goroutines (mo_debounce m)). \<not> pending p"
    using fetched_stays [OF d that(2,1)] by simp
  show "ds_delivered (mo_debounce m') = ds_delivered (mo_debounce m)"
    if "triggers es' = 0" "ds_goroutines (mo_debounce m) = []"
    using idle_stays [OF d that(2,1)] by simp
qed

section \<open>Witnesses\<close>

text \<open>A run that connects, fails to import, and watches; then one change.\<close>

definition watching :: monitorState where
  "watching = monitorStart\<lparr>mo_phase := Receiving\<rparr>"

lemma watching_run: "monitor_run monitorStart [] watching"
proof -
  let ?m1 = "monitorStart\<lparr>mo_phase := Syncing\<rparr>"
  let ?m2 = "monitorStart\<lparr>mo_phase := Subscribing\<rparr>"
  have 1: "monitor_step monitorStart [] ?m1"
    using monitor_step.connect [of monitorStart True] by (simp add: monitorStart_def)
  have 2: "monitor_step ?m1 [] ?m2"
    using monitor_step.sync [of ?m1 "errorf [] []"] by (simp add: initialSync_def)
  have 3: "monitor_step ?m2 [] watching"
    using monitor_step.watch [of ?m2 None] by (simp add: watchPhase_def watching_def)
  have "monitor_run monitorStart ([] @ [] @ [] @ []) watching"
    by (intro monitor_run_step [OF 1] monitor_run_step [OF 2] monitor_run_step [OF 3] monitor_run.refl)
  then show ?thesis by simp
qed

lemma monitor_refines_witness:
  "fetches [Triggered 0] \<le> triggers [Triggered 0] \<and>
   length (ds_goroutines (mo_debounce (receive (Event True) watching))) \<le> 1"
proof -
  have "monitor_step watching [Triggered 0] (receive (Event True) watching)"
    using monitor_step.recv [of watching "Event True"] by (simp add: watching_def monitorStart_def debounceStart_def)
  from monitor_run.step [OF watching_run this] show ?thesis using monitor_refines by fastforce
qed

text \<open>
  A monitor whose first import failed and that never imports again: after the failure of the stream it
  receives again, nothing was delivered, and nothing will be before the next event.
\<close>

lemma monitor_loses_changes_witness:
  "\<exists>m2. monitor_run monitorStart [] m2 \<and> mo_phase m2 = Receiving \<and> ds_now (mo_debounce m2) = seconds 10 \<and>
     ds_delivered (mo_debounce m2) = [] \<and> mo_synced m2 = [] \<and>
     (\<forall>es m'. monitor_run m2 es m' \<longrightarrow> triggers es = 0 \<longrightarrow>
        fetches es = 0 \<and> ds_delivered (mo_debounce m') = [] \<and> mo_synced m' = [])"
proof -
  let ?f = "receive (StreamError (Errorf [] [])) watching"
  have w: "mo_phase watching = Receiving" "ds_goroutines (mo_debounce watching) = []"
    "ds_delivered (mo_debounce watching) = []" "mo_synced watching = []" "ds_now (mo_debounce watching) = 0"
    by (simp_all add: watching_def monitorStart_def debounceStart_def)
  note lost = monitor_loses_changes [OF watching_run w(1), of "Errorf [] []"]
  from lost have f: "monitor_step watching [] ?f" by blast
  from lost obtain m2 where m2: "monitor_run ?f [] m2" "mo_phase m2 = Receiving" "ds_now (mo_debounce m2) = seconds 10"
    using w(5) by auto
  have quiet: "fetches es = 0 \<and> ds_delivered (mo_debounce m') = [] \<and> mo_synced m' = []"
    if "monitor_run ?f es m'" "triggers es = 0" for es m'
    using lost that w by fastforce
  have t: "triggers [] = 0" by simp
  have "monitor_run monitorStart [] m2"
    using monitor_run_trans [OF monitor_run_step [OF f m2(1)] watching_run] by simp
  moreover have "ds_delivered (mo_debounce m2) = [] \<and> mo_synced m2 = []" using quiet [OF m2(1) t] by simp
  moreover have "fetches es = 0 \<and> ds_delivered (mo_debounce m') = [] \<and> mo_synced m' = []"
    if "monitor_run m2 es m'" "triggers es = 0" for es m'
    using quiet [OF _ that(2)] monitor_run_trans [OF that(1) m2(1)] by simp
  ultimately show ?thesis using m2(2,3) by blast
qed

end
