(* ===== verification/Api_View.thy ===== *)
theory Api_View
  imports Api "HOL-Library.Product_Lexorder" "HOL-Library.List_Lexorder" "HOL-Library.Char_ord"
begin

text \<open>
  The queries of \<open>src/pkg/server/grpc_server.go\<close>: GetSessionList, GetSRPolicyList and GetTED, with the
  conversions from the server's data to the messages of \<open>src/api/pola/v1\<close>. Elements of repeated
  fields that hold one string or number are that string or number.
\<close>

section \<open>Messages\<close>

record pbStatefulCapability =
  bs_LspUpdate :: bool
  bs_IncludeDbVersion :: bool
  bs_LspInstantiation :: bool
  bs_TriggeredResync :: bool
  bs_DeltaLspSync :: bool
  bs_TriggeredInitialSync :: bool
  bs_Color :: bool

record pbSrCapability =
  br_UnlimitedMsd :: bool
  br_NaiSupported :: bool
  br_Msd :: u32

record pbMultipathCapability =
  bm_MaxMultipaths :: u32
  bm_Weighted :: bool
  bm_OppositeDir :: bool
  bm_ForwardClass :: bool
  bm_CompositePath :: bool

datatype pbDetail =
    Capability_Stateful pbStatefulCapability
  | Capability_Sr pbSrCapability
  | Capability_Srv6 bool
  | Capability_PathSetupType "u32 list"
  | Capability_AssocTypeList "u32 list"
  | Capability_LspDbVersion u64
  | Capability_Multipath pbMultipathCapability
  | Capability_VendorInformation u32
  | Capability_Unknown u32

text \<open>The values of the enum \<open>CapabilityType\<close>.\<close>

datatype pbCapabilityType =
    CAPABILITY_TYPE_UNSPECIFIED | CAPABILITY_TYPE_STATEFUL | CAPABILITY_TYPE_SR | CAPABILITY_TYPE_SRV6
  | CAPABILITY_TYPE_PATH_SETUP_TYPE | CAPABILITY_TYPE_ASSOC_TYPE_LIST | CAPABILITY_TYPE_LSP_DB_VERSION
  | CAPABILITY_TYPE_MULTIPATH | CAPABILITY_TYPE_VENDOR_INFORMATION | CAPABILITY_TYPE_UNKNOWN

record pbCapability =
  bc_Type :: pbCapabilityType
  bc_Detail :: "pbDetail option"

abbreviation (input) SESSION_STATE_UP :: int where "SESSION_STATE_UP \<equiv> 2"

record pbSession =
  bp_Addr :: bytes
  bp_State :: int
  bp_Capabilities :: "pbCapability list"
  bp_IsSynced :: bool
  bp_SrPolicies :: "pbSRPolicy list"

abbreviation (input) SR_POLICY_STATE_UNSPECIFIED :: int where "SR_POLICY_STATE_UNSPECIFIED \<equiv> 0"
abbreviation (input) SR_POLICY_STATE_DOWN :: int where "SR_POLICY_STATE_DOWN \<equiv> 1"
abbreviation (input) SR_POLICY_STATE_UP :: int where "SR_POLICY_STATE_UP \<equiv> 2"
abbreviation (input) SR_POLICY_STATE_ACTIVE :: int where "SR_POLICY_STATE_ACTIVE \<equiv> 3"
abbreviation (input) SR_POLICY_STATE_UNKNOWN :: int where "SR_POLICY_STATE_UNKNOWN \<equiv> 4"

record pbSidStructure =
  bt_LocalBlock :: u32
  bt_LocalNode :: u32
  bt_LocalFunc :: u32
  bt_LocalArg :: u32

record pbSrv6EndXSID =
  bx_EndpointBehavior :: u32
  bx_Sids :: "string list"
  bx_SidStructure :: pbSidStructure

record pbMetric =
  bk_Type :: int
  bk_Value :: u32

record pbLsLink =
  bl_LocalRouterId :: string
  bl_LocalAsn :: u32
  bl_LocalIp :: string
  bl_RemoteRouterId :: string
  bl_RemoteAsn :: u32
  bl_RemoteIp :: string
  bl_Metrics :: "pbMetric list"
  bl_AdjSid :: u32
  bl_Srv6EndXSid :: "pbSrv6EndXSID option"

record pbLsPrefix =
  bf_Prefix :: string
  bf_SidIndex :: "u32 option"

record pbEndpointBehavior =
  bb_Behavior :: u32
  bb_Flags :: u32
  bb_Algorithm :: u32

record pbLsSrv6SID =
  bv_Sids :: "string list"
  bv_EndpointBehavior :: "pbEndpointBehavior option"
  bv_SidStructure :: pbSidStructure
  bv_MultiTopoIds :: "u32 list"

record pbLsNode =
  bn_Asn :: u32
  bn_RouterId :: string
  bn_IsisAreaId :: string
  bn_Hostname :: string
  bn_SrgbBegin :: u32
  bn_SrgbEnd :: u32
  bn_LsLinks :: "pbLsLink list"
  bn_LsPrefixes :: "pbLsPrefix list"
  bn_LsSrv6Sids :: "pbLsSrv6SID list"

record GetTEDResponse =
  gt_Enable :: bool
  gt_LsNodes :: "pbLsNode list"

section \<open>Orders\<close>

text \<open>
  \<open>slices.SortFunc\<close> sorts by the key; it is not stable, so \<open>ties\<close>, some rearrangement of the list, is
  what it makes of elements with one key. \<open>qe_peers\<close> is the order in which a map of peers is ranged over.
\<close>

definition SortFunc :: "('a list \<Rightarrow> 'a list) \<Rightarrow> ('a \<Rightarrow> 'k :: linorder) \<Rightarrow> 'a list \<Rightarrow> 'a list" where
  "SortFunc ties key xs = sort_key key (ties xs)"

record queryEnv = apiEnv +
  qe_sessions :: "sessionptr list \<Rightarrow> sessionptr list"
  qe_peers :: "addr list \<Rightarrow> addr list"
  qe_policies :: "pbSRPolicy list \<Rightarrow> pbSRPolicy list"

section \<open>Sessions\<close>

definition capabilityType :: "u16 \<Rightarrow> pbCapabilityType" where
  "capabilityType t =
     (if t = TLVStatefulPCECapability then CAPABILITY_TYPE_STATEFUL
      else if t = TLVSRPCECapability then CAPABILITY_TYPE_SR
      else if t = TLVSRv6PCECapability then CAPABILITY_TYPE_SRV6
      else if t = TLVPathSetupTypeCapability then CAPABILITY_TYPE_PATH_SETUP_TYPE
      else if t = TLVAssocTypeList then CAPABILITY_TYPE_ASSOC_TYPE_LIST
      else if t = TLVLSPDBVersion then CAPABILITY_TYPE_LSP_DB_VERSION
      else if t = TLVMultipathCap then CAPABILITY_TYPE_MULTIPATH
      else if t = TLVVendorInformation then CAPABILITY_TYPE_VENDOR_INFORMATION
      else CAPABILITY_TYPE_UNKNOWN)"

definition buildCapability :: "tlv \<Rightarrow> pbCapability" where
  "buildCapability cap =
     \<lparr>bc_Type = capabilityType (tlv_Type cap), bc_Detail = (case cap of
        TLV_StatefulPCECapability tlv \<Rightarrow> Some (Capability_Stateful
          \<lparr>bs_LspUpdate = sc_LSPUpdateCapability tlv, bs_IncludeDbVersion = sc_IncludeDBVersion tlv,
           bs_LspInstantiation = sc_LSPInstantiationCapability tlv, bs_TriggeredResync = sc_TriggeredResync tlv,
           bs_DeltaLspSync = sc_DeltaLSPSyncCapability tlv, bs_TriggeredInitialSync = sc_TriggeredInitialSync tlv,
           bs_Color = sc_ColorCapability tlv\<rparr>)
      | TLV_SRPCECapability tlv \<Rightarrow> Some (Capability_Sr
          \<lparr>br_UnlimitedMsd = srp_HasUnlimitedMaxSIDDepth tlv, br_NaiSupported = srp_IsNAISupported tlv,
           br_Msd = ucast (srp_MaximumSidDepth tlv)\<rparr>)
      | TLV_SRv6PCECapability tlv \<Rightarrow> Some (Capability_Srv6 (srv6p_IsNAISupported tlv))
      | TLV_PathSetupTypeCapability tlv \<Rightarrow> Some (Capability_PathSetupType (map ucast (psc_PathSetupTypes tlv)))
      | TLV_AssocTypeList tlv \<Rightarrow> Some (Capability_AssocTypeList (map ucast (atl_AssocTypes tlv)))
      | TLV_LSPDBVersion tlv \<Rightarrow> Some (Capability_LspDbVersion (dbv_VersionNumber tlv))
      | TLV_MultipathCapability tlv \<Rightarrow> Some (Capability_Multipath
          \<lparr>bm_MaxMultipaths = ucast (mp_MaxMultipaths tlv), bm_Weighted = mp_IsWeightedSupported tlv,
           bm_OppositeDir = mp_IsOppositeDirSupported tlv, bm_ForwardClass = mp_IsForwardClassSupported tlv,
           bm_CompositePath = mp_IsCompositePathSupported tlv\<rparr>)
      | TLV_VendorInformation tlv \<Rightarrow> Some (Capability_VendorInformation (vi_EnterpriseNumber tlv))
      | TLV_Unknown tlv \<Rightarrow> Some (Capability_Unknown (ucast (unk_Typ tlv)))
      | _ \<Rightarrow> None)\<rparr>"

text \<open>
  The loop over the advertised capabilities: \<open>seen\<close> holds the keys, a type and the bytes of a
  capability, that have been built.
\<close>

fun buildCapabilities :: "(u16 \<times> bytes) list \<Rightarrow> tlv list \<Rightarrow> pbCapability list result" where
  "buildCapabilities seen [] = Inr []"
| "buildCapabilities seen (cap # caps) =
     bindE (tlv_Serialize cap) (\<lambda>bs.
     if (tlv_Type cap, bs) \<in> set seen then buildCapabilities seen caps
     else bindE (buildCapabilities ((tlv_Type cap, bs) # seen) caps) (\<lambda>cs. Inr (buildCapability cap # cs)))"

definition buildSession :: "Session \<Rightarrow> pbSession result" where
  "buildSession ss =
     bindE (buildCapabilities [] (ss_advertisedCapabilities ss)) (\<lambda>caps.
     Inr \<lparr>bp_Addr = AsSlice (ss_peerAddr ss), bp_State = SESSION_STATE_UP, bp_Capabilities = caps,
          bp_IsSynced = ss_isSynced ss, bp_SrPolicies = []\<rparr>)"

definition GetSessionList :: "queryEnv \<Rightarrow> Server \<Rightarrow> pbSession list result" where
  "GetSessionList env sv =
     mapE (\<lambda>p. buildSession (sessionAt sv p))
       (SortFunc (qe_sessions env) (\<lambda>p. addr_key (ss_peerAddr (sessionAt sv p))) (Sessions sv))"

section \<open>SR policies\<close>

definition toPBPolicyType :: "PolicyType \<Rightarrow> int" where
  "toPBPolicyType polType =
     (if polType = PolicyTypeExplicit then SR_POLICY_TYPE_EXPLICIT
      else if polType = PolicyTypeDynamic then SR_POLICY_TYPE_DYNAMIC
      else SR_POLICY_TYPE_UNSPECIFIED)"

fun toPBMetricType :: "MetricType \<Rightarrow> int" where
  "toPBMetricType IGPMetric = METRIC_TYPE_IGP"
| "toPBMetricType TEMetric = METRIC_TYPE_TE"
| "toPBMetricType DelayMetric = METRIC_TYPE_DELAY"
| "toPBMetricType HopcountMetric = METRIC_TYPE_HOPCOUNT"
| "toPBMetricType UnspecifiedMetric = METRIC_TYPE_UNSPECIFIED"

definition toPBPolicyState :: "PolicyState \<Rightarrow> int" where
  "toPBPolicyState state =
     (if state = PolicyDown then SR_POLICY_STATE_DOWN
      else if state = PolicyUp then SR_POLICY_STATE_UP
      else if state = PolicyActive then SR_POLICY_STATE_ACTIVE
      else if state = PolicyUnknown then SR_POLICY_STATE_UNKNOWN
      else SR_POLICY_STATE_UNSPECIFIED)"

fun indexLoopbacks :: "string \<Rightarrow> LsPrefix option list \<Rightarrow> (addr \<rightharpoonup> string) \<Rightarrow> (addr \<rightharpoonup> string) result" where
  "indexLoopbacks routerID [] index = Inr index"
| "indexLoopbacks routerID (None # ps) index = panic"
| "indexLoopbacks routerID (Some p # ps) index =
     indexLoopbacks routerID ps
       (if pfx_Bits (px_Prefix p) = int (BitLen (pfx_Addr (px_Prefix p)))
        then index(pfx_Addr (px_Prefix p) \<mapsto> routerID) else index)"

fun routerIDIndexLoop :: "heap \<Rightarrow> (string \<times> nodeptr) list \<Rightarrow> (addr \<rightharpoonup> string) \<Rightarrow> (addr \<rightharpoonup> string) result" where
  "routerIDIndexLoop h [] index = Inr index"
| "routerIDIndexLoop h ((_, None) # nodes) index = routerIDIndexLoop h nodes index"
| "routerIDIndexLoop h ((_, Some i) # nodes) index =
     bindE (loadNode h (Some i)) (\<lambda>node.
     bindE (indexLoopbacks (nd_RouterID node) (nd_Prefixes node) index) (routerIDIndexLoop h nodes))"

definition buildRouterIDIndex :: "queryEnv \<Rightarrow> tedState option \<Rightarrow> (addr \<rightharpoonup> string) result" where
  "buildRouterIDIndex env ted =
     (case ted of
        None \<Rightarrow> Inr Map.empty
      | Some (h, t) \<Rightarrow> routerIDIndexLoop h (ge_nodes env (ted_Nodes t)) Map.empty)"

definition validText :: "addr \<Rightarrow> string" where
  "validText a = (if IsValid a then addr_String a else [])"

fun convertSegment :: "Segment \<Rightarrow> pbSegment" where
  "convertSegment (SRv6 v) =
     \<lparr>ps_Sid = SidString (SRv6 v),
      ps_SidStructure = (case s6_Structure v of
          Some [a, b, c, d] \<Rightarrow> string_of_nat (unat a) @ '','' @ string_of_nat (unat b) @ '','' @
             string_of_nat (unat c) @ '','' @ string_of_nat (unat d)
        | _ \<Rightarrow> []),
      ps_LocalAddr = validText (s6_LocalAddr v), ps_RemoteAddr = validText (s6_RemoteAddr v)\<rparr>"
| "convertSegment (SRMPLS v) =
     \<lparr>ps_Sid = SidString (SRMPLS v), ps_SidStructure = [],
      ps_LocalAddr = validText (sm_LocalAddr v), ps_RemoteAddr = validText (sm_RemoteAddr v)\<rparr>"

definition routerIDOf :: "(addr \<rightharpoonup> string) \<Rightarrow> addr \<Rightarrow> string" where
  "routerIDOf index a = (case index a of Some rid \<Rightarrow> rid | None \<Rightarrow> [])"

definition buildPBSRPolicy :: "addr \<Rightarrow> SRPolicy \<Rightarrow> (addr \<rightharpoonup> string) \<Rightarrow> pbSRPolicy" where
  "buildPBSRPolicy peerAddr policy routerIDIndex =
     \<lparr>pp_PcepSessionAddr = Some (AsSlice peerAddr), pp_SrcAddr = AsSlice (pol_SrcAddr policy),
      pp_DstAddr = AsSlice (pol_DstAddr policy), pp_SrcRouterId = routerIDOf routerIDIndex (pol_SrcAddr policy),
      pp_DstRouterId = routerIDOf routerIDIndex (pol_DstAddr policy), pp_Color = pol_Color policy,
      pp_Preference = pol_Preference policy, pp_PolicyName = pol_Name policy,
      pp_Type = toPBPolicyType (pol_Type policy), pp_SegmentList = map convertSegment (pol_SegmentList policy),
      pp_Metric = toPBMetricType (pol_Metric policy), pp_Waypoints = [], pp_PlspId = pol_PlspID policy,
      pp_LspId = ucast (pol_LSPID policy), pp_State = toPBPolicyState (pol_State policy)\<rparr>"

definition policy_key :: "pbSRPolicy \<Rightarrow> u32 \<times> u32 \<times> string" where
  "policy_key p = (pp_Color p, pp_PlspId p, pp_PolicyName p)"

definition GetSRPolicyList :: "queryEnv \<Rightarrow> bytes \<Rightarrow> Server \<Rightarrow> pbSession list result" where
  "GetSRPolicyList env raw sv =
     bindE (if raw \<noteq> [] then
              (case AddrFromSlice raw of (filterAddr, ok) \<Rightarrow>
                 if \<not> ok then statusErrorf ''InvalidArgument'' ''invalid session filter address'' else Inr filterAddr)
            else Inr NoAddr) (\<lambda>filterAddr.
     let policiesByPeer = Server_SRPolicies sv;
         peerAddrs = filter (\<lambda>peerAddr. \<not> (IsValid filterAddr \<and> peerAddr \<noteq> filterAddr))
           (qe_peers env (map fst policiesByPeer)) in
     bindE (buildRouterIDIndex env (pce_ted sv)) (\<lambda>routerIDIndex.
     Inr (map (\<lambda>peerAddr.
         \<lparr>bp_Addr = AsSlice peerAddr, bp_State = 0, bp_Capabilities = [], bp_IsSynced = False,
          bp_SrPolicies = SortFunc (qe_policies env) policy_key
            (map (\<lambda>policy. buildPBSRPolicy peerAddr policy routerIDIndex) (the (map_of policiesByPeer peerAddr)))\<rparr>)
       (sort_key addr_key peerAddrs))))"

section \<open>The TED\<close>

definition pbStructure :: "SIDStructure \<Rightarrow> pbSidStructure" where
  "pbStructure st = \<lparr>bt_LocalBlock = ucast (st_LocalBlock st), bt_LocalNode = ucast (st_LocalNode st),
     bt_LocalFunc = ucast (st_LocalFunc st), bt_LocalArg = ucast (st_LocalArg st)\<rparr>"

definition convertSrv6EndXSID :: "Srv6EndXSID \<Rightarrow> pbSrv6EndXSID" where
  "convertSrv6EndXSID sid =
     \<lparr>bx_EndpointBehavior = ucast (ex_EndpointBehavior sid), bx_Sids = filter (\<lambda>s. s \<noteq> []) (ex_Sids sid),
      bx_SidStructure = pbStructure (ex_Srv6SIDStructure sid)\<rparr>"

definition EndpointBehavior_zero :: EndpointBehavior where
  "EndpointBehavior_zero = \<lparr>eb_Behavior = 0, eb_Flags = 0, eb_Algorithm = 0\<rparr>"

definition buildLsSrv6SID :: "LsSrv6SID \<Rightarrow> pbLsSrv6SID" where
  "buildLsSrv6SID s =
     \<lparr>bv_Sids = filter (\<lambda>sid. sid \<noteq> []) (sv_Sids s),
      bv_EndpointBehavior = (if sv_EndpointBehavior s \<noteq> EndpointBehavior_zero then
          Some \<lparr>bb_Behavior = ucast (eb_Behavior (sv_EndpointBehavior s)),
                bb_Flags = ucast (eb_Flags (sv_EndpointBehavior s)),
                bb_Algorithm = ucast (eb_Algorithm (sv_EndpointBehavior s))\<rparr>
        else None),
      bv_SidStructure = pbStructure (sv_SIDStructure s), bv_MultiTopoIds = sv_MultiTopoIDs s\<rparr>"

definition convertLsSrv6SIDs :: "LsSrv6SID option list \<Rightarrow> pbLsSrv6SID list" where
  "convertLsSrv6SIDs sids = map buildLsSrv6SID (concat (map (\<lambda>s. case s of None \<Rightarrow> [] | Some s \<Rightarrow> [s]) sids))"

definition convertLsPrefix :: "LsPrefix \<Rightarrow> pbLsPrefix" where
  "convertLsPrefix p =
     \<lparr>bf_Prefix = prefix_String (px_Prefix p),
      bf_SidIndex = (if HasPrefixSID (Some p) then Some (px_SidIndex p) else None)\<rparr>"

definition convertLsPrefixes :: "LsPrefix option list \<Rightarrow> pbLsPrefix list" where
  "convertLsPrefixes prefixes = map convertLsPrefix (concat (map (\<lambda>p. case p of None \<Rightarrow> [] | Some p \<Rightarrow> [p]) prefixes))"

text \<open>\<open>pb.MetricType_value\<close>, the generated map from the names of the enum to its values.\<close>

definition MetricType_value :: "string \<rightharpoonup> int" where
  "MetricType_value = map_of
     [(''METRIC_TYPE_UNSPECIFIED'', METRIC_TYPE_UNSPECIFIED), (''METRIC_TYPE_IGP'', METRIC_TYPE_IGP),
      (''METRIC_TYPE_TE'', METRIC_TYPE_TE), (''METRIC_TYPE_DELAY'', METRIC_TYPE_DELAY),
      (''METRIC_TYPE_HOPCOUNT'', METRIC_TYPE_HOPCOUNT)]"

definition convertMetrics :: "Metric list \<Rightarrow> pbMetric list" where
  "convertMetrics metrics = concat (map (\<lambda>m.
     case MetricType_value (MetricType_String (mt_Type m)) of
       Some mt \<Rightarrow> [\<lparr>bk_Type = mt, bk_Value = mt_Value m\<rparr>] | None \<Rightarrow> []) metrics)"

definition buildLsLink :: "heap \<Rightarrow> LsLink \<Rightarrow> pbLsLink result" where
  "buildLsLink h link =
     bindE (loadNode h (lk_LocalNode link)) (\<lambda>localNode.
     bindE (loadNode h (lk_RemoteNode link)) (\<lambda>remoteNode.
     Inr \<lparr>bl_LocalRouterId = nd_RouterID localNode, bl_LocalAsn = nd_ASN localNode,
          bl_LocalIp = addr_MarshalText (lk_LocalIP link), bl_RemoteRouterId = nd_RouterID remoteNode,
          bl_RemoteAsn = nd_ASN remoteNode, bl_RemoteIp = addr_MarshalText (lk_RemoteIP link),
          bl_Metrics = convertMetrics (lk_Metrics link), bl_AdjSid = lk_AdjSid link,
          bl_Srv6EndXSid = map_option convertSrv6EndXSID (lk_Srv6EndXSID link)\<rparr>))"

fun convertLsLinks :: "heap \<Rightarrow> LsLink option list \<Rightarrow> pbLsLink list result" where
  "convertLsLinks h [] = Inr []"
| "convertLsLinks h (None # ls) = convertLsLinks h ls"
| "convertLsLinks h (Some link # ls) =
     (if lk_LocalNode link = None \<or> lk_RemoteNode link = None then convertLsLinks h ls
      else bindE (buildLsLink h link) (\<lambda>l. bindE (convertLsLinks h ls) (\<lambda>ls. Inr (l # ls))))"

definition convertLsNode :: "heap \<Rightarrow> LsNode \<Rightarrow> pbLsNode result" where
  "convertLsNode h lsNode =
     bindE (convertLsLinks h (nd_Links lsNode)) (\<lambda>links.
     Inr \<lparr>bn_Asn = nd_ASN lsNode, bn_RouterId = nd_RouterID lsNode, bn_IsisAreaId = nd_IsisAreaID lsNode,
          bn_Hostname = nd_Hostname lsNode, bn_SrgbBegin = nd_SrgbBegin lsNode, bn_SrgbEnd = nd_SrgbEnd lsNode,
          bn_LsLinks = links, bn_LsPrefixes = convertLsPrefixes (nd_Prefixes lsNode),
          bn_LsSrv6Sids = convertLsSrv6SIDs (nd_SRv6SIDs lsNode)\<rparr>)"

text \<open>The loop of \<open>GetTED\<close>; a nil node is skipped.\<close>

fun convertNodes :: "heap \<Rightarrow> (string \<times> nodeptr) list \<Rightarrow> pbLsNode list result" where
  "convertNodes h [] = Inr []"
| "convertNodes h ((_, None) # nodes) = convertNodes h nodes"
| "convertNodes h ((_, Some i) # nodes) =
     bindE (loadNode h (Some i)) (\<lambda>node.
     bindE (convertLsNode h node) (\<lambda>n.
     bindE (convertNodes h nodes) (\<lambda>ns. Inr (n # ns))))"

definition GetTED :: "queryEnv \<Rightarrow> Server \<Rightarrow> GetTEDResponse result" where
  "GetTED env sv =
     (case pce_ted sv of
        None \<Rightarrow> Inr \<lparr>gt_Enable = False, gt_LsNodes = []\<rparr>
      | Some (h, ted) \<Rightarrow>
          bindE (convertNodes h (ge_nodes env (ted_Nodes ted))) (\<lambda>nodes.
          Inr \<lparr>gt_Enable = True, gt_LsNodes = nodes\<rparr>))"

section \<open>The listening address\<close>

definition Api_listenAddr :: "string \<Rightarrow> string \<Rightarrow> (addr \<times> u16) result" where
  "Api_listenAddr address port =
     bindE (wrapE ''failed to parse gRPC address'' (ParseAddr address)) (\<lambda>a.
     bindE (wrapE ''failed to convert gRPC port'' (Atoi port)) (\<lambda>p.
     if p < 0 \<or> p > maxUint16 then errorf ''invalid gRPC listen port'' []
     else Inr (a, word_of_int p)))"

end
