(* ===== verification/Tlv_Text.thy ===== *)
theory Tlv_Text
  imports Tlv_Seq Objects
begin

text \<open>
  The texts of \<open>src/pkg/packet/pcep/tlv.go\<close> and \<open>vendor.go\<close>: the names of TLV and association types and
  of vendors, and \<open>CapStrings\<close>, the capability listing of every TLV that is a \<open>CapabilityInterface\<close>.
\<close>

section \<open>Names\<close>

definition enterpriseNumberNames :: "u32 \<rightharpoonup> string" where
  "enterpriseNumberNames = map_of [(9, ''Cisco''), (2011, ''Huawei''), (2636, ''Juniper'')]"

definition EnterpriseNumber_capLabel :: "u32 \<Rightarrow> string" where
  "EnterpriseNumber_capLabel en =
     (case enterpriseNumberNames en of Some name \<Rightarrow> name | None \<Rightarrow> ''EN-'' @ string_of_nat (unat en))"

definition assocTypeNames :: "u16 \<rightharpoonup> string" where
  "assocTypeNames = map_of
     [(0x01, ''Path Protection Association''), (0x02, ''Disjoint Association''), (0x03, ''Policy Association''),
      (0x04, ''Single Sided Bidirectional LSP Association''), (0x05, ''Double Sided Bidirectional LSP Association''),
      (0x06, ''SR Policy Association''), (0x07, ''VN Association Type'')]"

definition AssocType_String :: "u16 \<Rightarrow> string" where
  "AssocType_String assocType =
     (case assocTypeNames assocType of
        Some name \<Rightarrow> name | None \<Rightarrow> ''Unknown AssocType (0x'' @ string_hex 4 (unat assocType) @ '')'')"

definition tlvDescriptions :: "u16 \<rightharpoonup> string \<times> string" where
  "tlvDescriptions = map_of
     [(0x01, (''NO-PATH-VECTOR'', ''RFC5440'')),
      (0x02, (''OVERLOAD-DURATION'', ''RFC5440'')),
      (0x03, (''REQ-MISSING'', ''RFC5440'')),
      (0x04, (''OF-LIST'', ''RFC5541'')),
      (0x05, (''ORDER'', ''RFC5557'')),
      (0x06, (''P2MP-CAPABLE'', ''RFC8306'')),
      (0x07, (''VENDOR-INFORMATION'', ''RFC7470'')),
      (0x08, (''WAVELENGTH-SELECTION'', ''RFC8780'')),
      (0x09, (''WAVELENGTH-RESTRICTION'', ''RFC8780'')),
      (0x0a, (''WAVELENGTH-ALLOCATION'', ''RFC8780'')),
      (0x0b, (''OPTICAL-INTERFACE-CLASS-LIST'', ''RFC8780'')),
      (0x0c, (''CLIENT-SIGNAL-INFORMATION'', ''RFC8780'')),
      (0x0d, (''H-PCE-CAPABILITY'', ''RFC8685'')),
      (0x0e, (''DOMAIN-ID'', ''RFC8685'')),
      (0x0f, (''H-PCE-FLAG'', ''RFC8685'')),
      (0x10, (''STATEFUL-PCE-CAPABILITY'', ''RFC8231'')),
      (0x11, (''SYMBOLIC-PATH-NAME'', ''RFC8231'')),
      (0x12, (''IPV4-LSP-IDENTIFIERS'', ''RFC8231'')),
      (0x13, (''IPV6-LSP-IDENTIFIERS'', ''RFC8231'')),
      (0x14, (''LSP-ERROR-CODE'', ''RFC8231'')),
      (0x15, (''RSVP-ERROR-SPEC'', ''RFC8231'')),
      (0x17, (''LSP-DB-VERSION'', ''RFC8232'')),
      (0x18, (''SPEAKER-ENTITY-ID'', ''RFC8232'')),
      (0x1a, (''SR-PCE-CAPABILITY'', ''RFC8664'')),
      (0x1b, (''SRv6-PCE-CAPABILITY'', ''RFC9603'')),
      (0x1c, (''PATH-SETUP-TYPE'', ''RFC8408'')),
      (0x1d, (''OPERATOR-CONFIGURED-ASSOCIATION-RANGE'', ''RFC8697'')),
      (0x1e, (''GLOBAL-ASSOCIATION-SOURCE'', ''RFC8697'')),
      (0x1f, (''EXTENDED-ASSOCIATION-ID'', ''RFC8697'')),
      (0x20, (''P2MP-IPV4-LSP-IDENTIFIERS'', ''RFC8623'')),
      (0x21, (''P2MP-IPV6-LSP-IDENTIFIERS'', ''RFC8623'')),
      (0x22, (''PATH-SETUP-TYPE-CAPABILITY'', ''RFC8408'')),
      (0x23, (''ASSOC-TYPE-LIST'', ''RFC8697'')),
      (0x24, (''AUTO-BANDWIDTH-CAPABILITY'', ''RFC8733'')),
      (0x25, (''AUTO-BANDWIDTH-ATTRIBUTES'', ''RFC8733'')),
      (0x26, (''PATH-PROTECTION-ASSOCIATION-GROUP'', ''RFC8745'')),
      (0x27, (''IPV4-ADDRESS'', ''RFC8779'')),
      (0x28, (''IPV6-ADDRESS'', ''RFC8779'')),
      (0x29, (''UNNUMBERED-ENDPOINT'', ''RFC8779'')),
      (0x2a, (''LABEL-REQUEST'', ''RFC8779'')),
      (0x2b, (''LABEL-SET'', ''RFC8779'')),
      (0x2c, (''PROTECTION-ATTRIBUTE'', ''RFC8779'')),
      (0x2d, (''GMPLS-CAPABILITY'', ''RFC8779'')),
      (0x2e, (''DISJOINTNESS-CONFIGURATION'', ''RFC8800'')),
      (0x2f, (''DISJOINTNESS-STATUS'', ''RFC8800'')),
      (0x30, (''POLICY-PARAMETERS-TLV'', ''RFC9005'')),
      (0x31, (''SCHED-LSP-ATTRIBUTE'', ''RFC8934'')),
      (0x32, (''SCHED-PD-LSP-ATTRIBUTE'', ''RFC8934'')),
      (0x33, (''PCE-FLOWSPEC-CAPABILITY TLV'', ''RFC9168'')),
      (0x34, (''FLOW-FILTER-TLV'', ''RFC9168'')),
      (0x36, (''BIDIRECTIONAL-LSP Association Group TLV'', ''RFC9059'')),
      (0x37, (''TE-PATH-BINDING'', ''RFC9604'')),
      (0x38, (''SRPOLICY-POL-NAME'', ''draft-ietf-pce-segment-routing-policy-cp-14'')),
      (0x39, (''SRPOLICY-CPATH-ID'', ''draft-ietf-pce-segment-routing-policy-cp-14'')),
      (0x3a, (''SRPOLICY-CPATH-NAME'', ''draft-ietf-pce-segment-routing-policy-cp-14'')),
      (0x3b, (''SRPOLICY-CPATH-PREFERENCE'', ''draft-ietf-pce-segment-routing-policy-cp-14'')),
      (0x3c, (''MULTIPATH-CAP'', ''draft-ietf-pce-multipath-07'')),
      (0x3d, (''MULTIPATH-WEIGHT'', ''draft-ietf-pce-multipath-07'')),
      (0x3e, (''MULTIPATH-BACKUP'', ''draft-ietf-pce-multipath-07'')),
      (0x3f, (''MULTIPATH-OPPDIR-PATH'', ''draft-ietf-pce-multipath-07'')),
      (0x40, (''LSP-EXTENDED-FLAG'', ''RFC9357'')),
      (0x41, (''VIRTUAL-NETWORK-TLV'', ''RFC9358'')),
      (0x42, (''SR-Algorithm'', ''RFC9933'')),
      (0x43, (''Color'', ''RFC9863'')),
      (0x44, (''COMPUTATION-PRIORITY'', ''RFC9862'')),
      (0x45, (''EXPLICIT-NULL-LABEL-POLICY'', ''RFC9862'')),
      (0x46, (''INVALIDATION'', ''RFC9862'')),
      (0x47, (''SRPOLICY-CAPABILITY'', ''RFC9862'')),
      (0x48, (''PATH-MODIFICATION'', ''draft-ietf-pce-circuit-style-pcep-extensions-16'')),
      (0x49, (''SR-P2MP-POLICY-CAPABILITY'', ''draft-ietf-pce-sr-p2mp-policy-11'')),
      (0x4a, (''IPV4-SR-P2MP-INSTANCE-ID'', ''draft-ietf-pce-sr-p2mp-policy-11'')),
      (0x4b, (''IPV6-SR-P2MP-INSTANCE-ID'', ''draft-ietf-pce-sr-p2mp-policy-11'')),
      (0xffe3, (''EXTENDED-ASSOCIATION-ID (Juniper)'', ''vendor-specific'')),
      (0xffe4, (''SRPOLICY-CPATH-ID (Juniper)'', ''vendor-specific'')),
      (0xffe5, (''SRPOLICY-CPATH-PREFERENCE (Juniper)'', ''vendor-specific''))]"

definition TLVType_String :: "u16 \<Rightarrow> string" where
  "TLVType_String t =
     (case tlvDescriptions t of
        Some (description, reference) \<Rightarrow> description @ '' ('' @ reference @ '')''
      | None \<Rightarrow> ''Unknown TLV (0x'' @ string_hex 4 (unat t) @ '')'')"

section \<open>CapStrings\<close>

definition flagString :: "bool \<Rightarrow> string \<Rightarrow> string list" where
  "flagString b s = (if b then [s] else [])"

definition VendorInformation_CapStrings :: "VendorInformation \<Rightarrow> string list" where
  "VendorInformation_CapStrings tlv =
     [''Vendor-Info('' @ EnterpriseNumber_capLabel (vi_EnterpriseNumber tlv) @ '')'']"

definition StatefulPCECapability_CapStrings :: "StatefulPCECapability \<Rightarrow> string list" where
  "StatefulPCECapability_CapStrings tlv =
     [''Stateful''] @ flagString (sc_LSPUpdateCapability tlv) ''Update'' @ flagString (sc_IncludeDBVersion tlv) ''Include-DB-Ver'' @
     flagString (sc_LSPInstantiationCapability tlv) ''Instantiation'' @ flagString (sc_TriggeredResync tlv) ''Triggered-Resync'' @
     flagString (sc_DeltaLSPSyncCapability tlv) ''Delta-LSP-Sync'' @
     flagString (sc_TriggeredInitialSync tlv) ''Triggered-Initial-Sync'' @ flagString (sc_ColorCapability tlv) ''Color''"

definition LSPDBVersion_CapStrings :: "LSPDBVersion \<Rightarrow> string list" where
  "LSPDBVersion_CapStrings tlv =
     [''LSP-DB-VERSION'']"

definition SRPCECapability_CapStrings :: "SRPCECapability \<Rightarrow> string list" where
  "SRPCECapability_CapStrings tlv =
     [''SR''] @ (if srp_HasUnlimitedMaxSIDDepth tlv then [''Unlimited-SID-Depth'']
       else [''MSD='' @ string_of_nat (unat (srp_MaximumSidDepth tlv))]) @
     flagString (srp_IsNAISupported tlv) ''SR-NAI-Supported''"

definition SRv6PCECapability_CapStrings :: "SRv6PCECapability \<Rightarrow> string list" where
  "SRv6PCECapability_CapStrings tlv =
     [''SRv6''] @ flagString (srv6p_IsNAISupported tlv) ''SRv6-NAI-Supported''"

definition MultipathCapability_CapStrings :: "MultipathCapability \<Rightarrow> string list" where
  "MultipathCapability_CapStrings tlv =
     [''Multipath'', ''MaxMultipaths='' @ string_of_nat (unat (mp_MaxMultipaths tlv))] @
     flagString (mp_IsWeightedSupported tlv) ''Weighted'' @ flagString (mp_IsOppositeDirSupported tlv) ''OppositeDir'' @
     flagString (mp_IsForwardClassSupported tlv) ''ForwardClass'' @ flagString (mp_IsCompositePathSupported tlv) ''CompositePath''"

definition PathSetupTypeCapability_CapStrings :: "tlv PathSetupTypeCapability \<Rightarrow> string list" where
  "PathSetupTypeCapability_CapStrings tlv =
     (let psts = take (pstCount tlv) (psc_PathSetupTypes tlv) in
      flagString (PathSetupTypeSRTE \<in> set psts) ''SR-TE'' @ flagString (PathSetupTypeSRv6TE \<in> set psts) ''SRv6-TE'')"

definition AssocTypeList_CapStrings :: "AssocTypeList \<Rightarrow> string list" where
  "AssocTypeList_CapStrings tlv =
     map (\<lambda>t. ''AssocType:'' @ AssocType_String t) (atl_AssocTypes tlv)"

definition UnknownTLV_CapStrings :: "UnknownTLV \<Rightarrow> string list" where
  "UnknownTLV_CapStrings tlv =
     (if tlvDescriptions (unk_Typ tlv) \<noteq> None
      then [''0x'' @ string_hex 4 (unat (unk_Typ tlv)) @ '' ('' @ TLVType_String (unk_Typ tlv) @ '')'']
      else [''unknown_type_'' @ string_of_nat (unat (unk_Typ tlv))])"

text \<open>The method of the interface; TLVs of other types are no \<open>CapabilityInterface\<close>.\<close>

fun CapStrings :: "tlv \<Rightarrow> string list" where
  "CapStrings (TLV_VendorInformation tlv) = VendorInformation_CapStrings tlv"
| "CapStrings (TLV_StatefulPCECapability tlv) = StatefulPCECapability_CapStrings tlv"
| "CapStrings (TLV_LSPDBVersion tlv) = LSPDBVersion_CapStrings tlv"
| "CapStrings (TLV_SRPCECapability tlv) = SRPCECapability_CapStrings tlv"
| "CapStrings (TLV_SRv6PCECapability tlv) = SRv6PCECapability_CapStrings tlv"
| "CapStrings (TLV_MultipathCapability tlv) = MultipathCapability_CapStrings tlv"
| "CapStrings (TLV_PathSetupTypeCapability tlv) = PathSetupTypeCapability_CapStrings tlv"
| "CapStrings (TLV_AssocTypeList tlv) = AssocTypeList_CapStrings tlv"
| "CapStrings (TLV_Unknown tlv) = UnknownTLV_CapStrings tlv"
| "CapStrings _ = []"

lemmas CapStrings_defs =
  VendorInformation_CapStrings_def
  StatefulPCECapability_CapStrings_def
  LSPDBVersion_CapStrings_def
  SRPCECapability_CapStrings_def
  SRv6PCECapability_CapStrings_def
  MultipathCapability_CapStrings_def
  PathSetupTypeCapability_CapStrings_def
  AssocTypeList_CapStrings_def
  UnknownTLV_CapStrings_def

end
