(* ===== verification/Client.thy ===== *)
theory Client
  imports Api_View Tlv_Text
begin

text \<open>
  \<open>src/cmd/pola/grpc/grpc_client.go\<close>: the client of the gRPC API. A call of the generated client is
  the response it returns, an argument of the functions here; each function converts the messages of
  the response back into the types of \<open>src/pkg/table\<close> or into types of its own.
\<close>

section \<open>Capabilities\<close>

record StatefulCapability =
  cs_LSPUpdate :: bool
  cs_IncludeDBVersion :: bool
  cs_LSPInstantiation :: bool
  cs_TriggeredResync :: bool
  cs_DeltaLSPSync :: bool
  cs_TriggeredInitialSync :: bool
  cs_Color :: bool

record SRCapability =
  cq_UnlimitedMSD :: bool
  cq_NAISupported :: bool
  cq_MSD :: u32

record ClientMultipathCapability =
  cm_MaxMultipaths :: u32
  cm_Weighted :: bool
  cm_OppositeDir :: bool
  cm_ForwardClass :: bool
  cm_CompositePath :: bool

text \<open>The interface \<open>capabilityDetail\<close> and its implementations.\<close>

datatype capabilityDetail =
    StatefulDetail StatefulCapability
  | SRDetail SRCapability
  | SRv6Detail (NAISupported: bool)
  | PathSetupTypeDetail (PathSetupTypes: "u32 list")
  | AssocTypeListDetail (AssocTypes: "u32 list")
  | LSPDBVersionDetail (VersionNumber: u64)
  | MultipathDetail ClientMultipathCapability
  | VendorInformationDetail (EnterpriseNumber: u32)
  | UnknownDetail (TLVType: u32)

definition decimal :: "u32 \<Rightarrow> string" where
  "decimal v = string_of_nat (unat v)"

definition StatefulCapability_Strings :: "StatefulCapability \<Rightarrow> string list" where
  "StatefulCapability_Strings c =
     [''Stateful''] @ flagString (cs_LSPUpdate c) ''Update'' @ flagString (cs_IncludeDBVersion c) ''Include-DB-Ver'' @
     flagString (cs_LSPInstantiation c) ''Instantiation'' @ flagString (cs_TriggeredResync c) ''Triggered-Resync'' @
     flagString (cs_DeltaLSPSync c) ''Delta-LSP-Sync'' @
     flagString (cs_TriggeredInitialSync c) ''Triggered-Initial-Sync'' @ flagString (cs_Color c) ''Color''"

definition SRCapability_Strings :: "SRCapability \<Rightarrow> string list" where
  "SRCapability_Strings c =
     [''SR''] @ (if cq_UnlimitedMSD c then [''Unlimited-SID-Depth''] else [''MSD='' @ decimal (cq_MSD c)]) @
     flagString (cq_NAISupported c) ''SR-NAI-Supported''"

definition SRv6Capability_Strings :: "bool \<Rightarrow> string list" where
  "SRv6Capability_Strings nai = [''SRv6''] @ flagString nai ''SRv6-NAI-Supported''"

definition PathSetupTypeCapability_Strings :: "u32 list \<Rightarrow> string list" where
  "PathSetupTypeCapability_Strings psts =
     concat (map (\<lambda>pst. if pst = 1 then [''SR-TE''] else if pst = 3 then [''SRv6-TE''] else []) psts)"

definition AssocTypeListCapability_Strings :: "u32 list \<Rightarrow> string list" where
  "AssocTypeListCapability_Strings ats = map (\<lambda>t. ''AssocType:'' @ decimal t) ats"

definition MultipathCapability_Strings :: "ClientMultipathCapability \<Rightarrow> string list" where
  "MultipathCapability_Strings c =
     [''Multipath'', ''MaxMultipaths='' @ decimal (cm_MaxMultipaths c)] @ flagString (cm_Weighted c) ''Weighted'' @
     flagString (cm_OppositeDir c) ''OppositeDir'' @ flagString (cm_ForwardClass c) ''ForwardClass'' @
     flagString (cm_CompositePath c) ''CompositePath''"

fun capabilityDetail_Strings :: "capabilityDetail \<Rightarrow> string list" where
  "capabilityDetail_Strings (StatefulDetail c) = StatefulCapability_Strings c"
| "capabilityDetail_Strings (SRDetail c) = SRCapability_Strings c"
| "capabilityDetail_Strings (SRv6Detail b) = SRv6Capability_Strings b"
| "capabilityDetail_Strings (PathSetupTypeDetail xs) = PathSetupTypeCapability_Strings xs"
| "capabilityDetail_Strings (AssocTypeListDetail xs) = AssocTypeListCapability_Strings xs"
| "capabilityDetail_Strings (LSPDBVersionDetail v) = [''LSP-DB-VERSION'']"
| "capabilityDetail_Strings (MultipathDetail c) = MultipathCapability_Strings c"
| "capabilityDetail_Strings (VendorInformationDetail n) = [''Vendor-Info('' @ decimal n @ '')'']"
| "capabilityDetail_Strings (UnknownDetail t) = [''unknown_type_'' @ decimal t]"

record Capability =
  ca_Type :: string
  ca_Detail :: "capabilityDetail option"

definition Capability_Strings :: "Capability \<Rightarrow> string list" where
  "Capability_Strings c = (case ca_Detail c of None \<Rightarrow> [ca_Type c] | Some d \<Rightarrow> capabilityDetail_Strings d)"

text \<open>The generated names of the enums, and \<open>strings.TrimPrefix\<close>.\<close>

fun CapabilityType_String :: "pbCapabilityType \<Rightarrow> string" where
  "CapabilityType_String CAPABILITY_TYPE_UNSPECIFIED = ''CAPABILITY_TYPE_UNSPECIFIED''"
| "CapabilityType_String CAPABILITY_TYPE_STATEFUL = ''CAPABILITY_TYPE_STATEFUL''"
| "CapabilityType_String CAPABILITY_TYPE_SR = ''CAPABILITY_TYPE_SR''"
| "CapabilityType_String CAPABILITY_TYPE_SRV6 = ''CAPABILITY_TYPE_SRV6''"
| "CapabilityType_String CAPABILITY_TYPE_PATH_SETUP_TYPE = ''CAPABILITY_TYPE_PATH_SETUP_TYPE''"
| "CapabilityType_String CAPABILITY_TYPE_ASSOC_TYPE_LIST = ''CAPABILITY_TYPE_ASSOC_TYPE_LIST''"
| "CapabilityType_String CAPABILITY_TYPE_LSP_DB_VERSION = ''CAPABILITY_TYPE_LSP_DB_VERSION''"
| "CapabilityType_String CAPABILITY_TYPE_MULTIPATH = ''CAPABILITY_TYPE_MULTIPATH''"
| "CapabilityType_String CAPABILITY_TYPE_VENDOR_INFORMATION = ''CAPABILITY_TYPE_VENDOR_INFORMATION''"
| "CapabilityType_String CAPABILITY_TYPE_UNKNOWN = ''CAPABILITY_TYPE_UNKNOWN''"

definition TrimPrefix :: "string \<Rightarrow> string \<Rightarrow> string" where
  "TrimPrefix s pre = (if take (length pre) s = pre then drop (length pre) s else s)"

definition SessionState_String :: "int \<Rightarrow> string" where
  "SessionState_String n =
     (if n = 0 then ''SESSION_STATE_UNSPECIFIED'' else if n = 1 then ''SESSION_STATE_DOWN''
      else if n = 2 then ''SESSION_STATE_UP'' else Itoa n)"

fun detailFromPB :: "pbDetail \<Rightarrow> capabilityDetail" where
  "detailFromPB (Capability_Stateful d) = StatefulDetail
     \<lparr>cs_LSPUpdate = bs_LspUpdate d, cs_IncludeDBVersion = bs_IncludeDbVersion d,
      cs_LSPInstantiation = bs_LspInstantiation d, cs_TriggeredResync = bs_TriggeredResync d,
      cs_DeltaLSPSync = bs_DeltaLspSync d, cs_TriggeredInitialSync = bs_TriggeredInitialSync d, cs_Color = bs_Color d\<rparr>"
| "detailFromPB (Capability_Sr d) = SRDetail
     \<lparr>cq_UnlimitedMSD = br_UnlimitedMsd d, cq_NAISupported = br_NaiSupported d, cq_MSD = br_Msd d\<rparr>"
| "detailFromPB (Capability_Srv6 b) = SRv6Detail b"
| "detailFromPB (Capability_PathSetupType xs) = PathSetupTypeDetail xs"
| "detailFromPB (Capability_AssocTypeList xs) = AssocTypeListDetail xs"
| "detailFromPB (Capability_LspDbVersion v) = LSPDBVersionDetail v"
| "detailFromPB (Capability_Multipath d) = MultipathDetail
     \<lparr>cm_MaxMultipaths = bm_MaxMultipaths d, cm_Weighted = bm_Weighted d, cm_OppositeDir = bm_OppositeDir d,
      cm_ForwardClass = bm_ForwardClass d, cm_CompositePath = bm_CompositePath d\<rparr>"
| "detailFromPB (Capability_VendorInformation n) = VendorInformationDetail n"
| "detailFromPB (Capability_Unknown t) = UnknownDetail t"

definition capabilityFromPB :: "pbCapability \<Rightarrow> Capability" where
  "capabilityFromPB c =
     \<lparr>ca_Type = TrimPrefix (CapabilityType_String (bc_Type c)) ''CAPABILITY_TYPE_'',
      ca_Detail = map_option detailFromPB (bc_Detail c)\<rparr>"

section \<open>Sessions\<close>

record ClientSession =
  cl_Addr :: addr
  cl_State :: string
  cl_Capabilities :: "Capability list"
  cl_IsSynced :: bool

definition ClientSession_CapStrings :: "ClientSession \<Rightarrow> string list" where
  "ClientSession_CapStrings s = concat (map Capability_Strings (cl_Capabilities s))"

definition sessionFromPB :: "pbSession \<Rightarrow> ClientSession result" where
  "sessionFromPB pbss =
     (case AddrFromSlice (bp_Addr pbss) of (a, ok) \<Rightarrow>
        if \<not> ok then errorf ''invalid session address'' []
        else Inr \<lparr>cl_Addr = a, cl_State = SessionState_String (bp_State pbss),
                  cl_Capabilities = map capabilityFromPB (bp_Capabilities pbss), cl_IsSynced = bp_IsSynced pbss\<rparr>)"

definition GetSessions :: "pbSession list result \<Rightarrow> ClientSession list result" where
  "GetSessions ret = bindE ret (mapE sessionFromPB)"

section \<open>SR policies\<close>

record SessionSRPolicies =
  cp_Addr :: addr
  cp_SRPolicies :: "SRPolicy list"

definition policyStateFromPB :: "int \<Rightarrow> PolicyState" where
  "policyStateFromPB state =
     (if state = SR_POLICY_STATE_DOWN then PolicyDown
      else if state = SR_POLICY_STATE_UP then PolicyUp
      else if state = SR_POLICY_STATE_ACTIVE then PolicyActive
      else if state = SR_POLICY_STATE_UNKNOWN then PolicyUnknown
      else [])"

definition policyTypeFromPB :: "int \<Rightarrow> PolicyType" where
  "policyTypeFromPB polType =
     (if polType = SR_POLICY_TYPE_EXPLICIT then PolicyTypeExplicit
      else if polType = SR_POLICY_TYPE_DYNAMIC then PolicyTypeDynamic
      else [])"

definition metricTypeFromPB :: "int \<Rightarrow> MetricType" where
  "metricTypeFromPB metricType =
     (if metricType = METRIC_TYPE_IGP then IGPMetric
      else if metricType = METRIC_TYPE_TE then TEMetric
      else if metricType = METRIC_TYPE_DELAY then DelayMetric
      else if metricType = METRIC_TYPE_HOPCOUNT then HopcountMetric
      else UnspecifiedMetric)"

definition Client_parseSidStructure :: "string \<Rightarrow> bytes option" where
  "Client_parseSidStructure s =
     (if s = [] then None
      else
        let parts = splitComma s in
        if length parts \<noteq> 4 then None
        else case mapE (\<lambda>p. ParseUint (TrimSpace p) 8) parts of
            Inl _ \<Rightarrow> None
          | Inr vs \<Rightarrow> Some (map word_of_nat vs))"

text \<open>\<open>if a, err := netip.ParseAddr(s); err == nil\<close>\<close>

definition addrOr :: "string \<Rightarrow> addr \<Rightarrow> addr" where
  "addrOr s a = (case ParseAddr s of Inl _ \<Rightarrow> a | Inr b \<Rightarrow> b)"

definition segmentFromPB :: "pbSegment \<Rightarrow> Segment result" where
  "segmentFromPB s =
     bindE (NewSegment (ps_Sid s)) (\<lambda>seg.
     case seg of
       SRv6 v \<Rightarrow>
         let v = v\<lparr>s6_LocalAddr := addrOr (ps_LocalAddr s) (s6_LocalAddr v),
                   s6_RemoteAddr := addrOr (ps_RemoteAddr s) (s6_RemoteAddr v)\<rparr> in
         Inr (SRv6 (case Client_parseSidStructure (ps_SidStructure s) of
             None \<Rightarrow> v | Some structure \<Rightarrow> v\<lparr>s6_Structure := Some structure\<rparr>))
     | SRMPLS v \<Rightarrow>
         Inr (SRMPLS (v\<lparr>sm_LocalAddr := addrOr (ps_LocalAddr s) (sm_LocalAddr v),
                        sm_RemoteAddr := addrOr (ps_RemoteAddr s) (sm_RemoteAddr v)\<rparr>)))"

definition convertSRPolicy :: "pbSRPolicy \<Rightarrow> SRPolicy result" where
  "convertSRPolicy p =
     (case AddrFromSlice (pp_SrcAddr p) of (srcAddr, ok) \<Rightarrow>
      if \<not> ok then errorf ''invalid SR policy source address'' []
      else case AddrFromSlice (pp_DstAddr p) of (dstAddr, ok) \<Rightarrow>
      if \<not> ok then errorf ''invalid SR policy destination address'' []
      else bindE (mapE segmentFromPB (pp_SegmentList p)) (\<lambda>segmentList.
        Inr \<lparr>pol_PlspID = pp_PlspId p, pol_Name = pp_PolicyName p, pol_SegmentList = segmentList,
             pol_SrcAddr = srcAddr, pol_DstAddr = dstAddr, pol_SrcRouterID = pp_SrcRouterId p,
             pol_DstRouterID = pp_DstRouterId p, pol_Color = pp_Color p, pol_Preference = pp_Preference p,
             pol_LSPID = ucast (pp_LspId p), pol_State = policyStateFromPB (pp_State p),
             pol_Type = policyTypeFromPB (pp_Type p), pol_Metric = metricTypeFromPB (pp_Metric p)\<rparr>))"

definition sessionPoliciesFromPB :: "pbSession \<Rightarrow> SessionSRPolicies result" where
  "sessionPoliciesFromPB pbSession =
     (case AddrFromSlice (bp_Addr pbSession) of (peerAddr, ok) \<Rightarrow>
        if \<not> ok then errorf ''invalid session address'' []
        else bindE (mapE convertSRPolicy (bp_SrPolicies pbSession)) (\<lambda>policies.
             Inr \<lparr>cp_Addr = peerAddr, cp_SRPolicies = policies\<rparr>))"

definition Client_GetSRPolicyList :: "(bytes \<Rightarrow> pbSession list result) \<Rightarrow> addr \<Rightarrow> SessionSRPolicies list result" where
  "Client_GetSRPolicyList client sessionAddr =
     bindE (client (if IsValid sessionAddr then AsSlice sessionAddr else [])) (mapE sessionPoliciesFromPB)"

section \<open>The TED\<close>

text \<open>The new nodes are allocated in a heap of the client.\<close>

fun initializeLsNodes :: "tedState \<Rightarrow> pbLsNode list \<Rightarrow> tedState" where
  "initializeLsNodes st [] = st"
| "initializeLsNodes st (node # nodes) =
     (case st of (h, ted) \<Rightarrow>
        let lsNode = (NewLsNode (bn_Asn node) (bn_RouterId node))\<lparr>nd_Hostname := bn_Hostname node,
              nd_IsisAreaID := bn_IsisAreaId node, nd_SrgbBegin := bn_SrgbBegin node, nd_SrgbEnd := bn_SrgbEnd node\<rparr> in
        initializeLsNodes
          (h @ [lsNode], ted\<lparr>ted_Nodes := AList.update (nd_RouterID lsNode) (Some (length h)) (ted_Nodes ted)\<rparr>) nodes)"

definition createMetric :: "pbMetric \<Rightarrow> Metric result" where
  "createMetric metricInfo =
     (if bk_Type metricInfo = METRIC_TYPE_IGP then Inr (NewMetric IGPMetric (bk_Value metricInfo))
      else if bk_Type metricInfo = METRIC_TYPE_TE then Inr (NewMetric TEMetric (bk_Value metricInfo))
      else if bk_Type metricInfo = METRIC_TYPE_DELAY then Inr (NewMetric DelayMetric (bk_Value metricInfo))
      else if bk_Type metricInfo = METRIC_TYPE_HOPCOUNT then Inr (NewMetric HopcountMetric (bk_Value metricInfo))
      else errorf ''unknown metric type'' [])"

definition structureFromPB :: "pbSidStructure \<Rightarrow> SIDStructure" where
  "structureFromPB st = \<lparr>st_LocalBlock = ucast (bt_LocalBlock st), st_LocalNode = ucast (bt_LocalNode st),
     st_LocalFunc = ucast (bt_LocalFunc st), st_LocalArg = ucast (bt_LocalArg st)\<rparr>"

definition createSrv6EndXSID :: "pbSrv6EndXSID \<Rightarrow> Srv6EndXSID" where
  "createSrv6EndXSID sid = \<lparr>ex_EndpointBehavior = ucast (bx_EndpointBehavior sid), ex_Sids = bx_Sids sid,
     ex_Srv6SIDStructure = structureFromPB (bx_SidStructure sid)\<rparr>"

definition createLsLink :: "nodeptr \<Rightarrow> nodeptr \<Rightarrow> pbLsLink \<Rightarrow> LsLink result" where
  "createLsLink localNode remoteNode link =
     bindE (addr_UnmarshalText (bl_LocalIp link)) (\<lambda>localIP.
     bindE (addr_UnmarshalText (bl_RemoteIp link)) (\<lambda>remoteIP.
     bindE (mapE createMetric (bl_Metrics link)) (\<lambda>metrics.
     Inr \<lparr>lk_LocalNode = localNode, lk_RemoteNode = remoteNode, lk_LocalIP = localIP, lk_RemoteIP = remoteIP,
          lk_Metrics = metrics, lk_AdjSid = bl_AdjSid link,
          lk_Srv6EndXSID = map_option createSrv6EndXSID (bl_Srv6EndXSid link)\<rparr>)))"

definition createLsPrefix :: "nodeptr \<Rightarrow> pbLsPrefix \<Rightarrow> LsPrefix result" where
  "createLsPrefix lsNode prefix =
     (let lsPrefix = NewLsPrefix lsNode in
      bindE (ParsePrefix (bf_Prefix prefix)) (\<lambda>p.
      let lsPrefix = lsPrefix\<lparr>px_Prefix := p\<rparr> in
      Inr (case bf_SidIndex prefix of
          None \<Rightarrow> lsPrefix | Some i \<Rightarrow> lsPrefix\<lparr>px_SidIndex := i, px_HasSidIndex := True\<rparr>)))"

definition createSrv6SID :: "nodeptr \<Rightarrow> pbLsSrv6SID \<Rightarrow> LsSrv6SID" where
  "createSrv6SID lsNode srv6SID =
     (NewLsSrv6SID lsNode)\<lparr>sv_Sids := bv_Sids srv6SID, sv_MultiTopoIDs := bv_MultiTopoIds srv6SID,
        sv_EndpointBehavior := (case bv_EndpointBehavior srv6SID of
            None \<Rightarrow> EndpointBehavior_zero
          | Some b \<Rightarrow> \<lparr>eb_Behavior = ucast (bb_Behavior b), eb_Flags = ucast (bb_Flags b), eb_Algorithm = ucast (bb_Algorithm b)\<rparr>),
        sv_SIDStructure := structureFromPB (bv_SidStructure srv6SID)\<rparr>"

text \<open>\<open>ted.Nodes[id].F = append(ted.Nodes[id].F, x)\<close>\<close>

definition updateNode :: "string \<Rightarrow> (LsNode \<Rightarrow> LsNode) \<Rightarrow> tedState \<Rightarrow> tedState result" where
  "updateNode rid f st =
     (let p = nodeAt (ted_Nodes (snd st)) rid in
      bindE (loadNode (fst st) p) (\<lambda>n.
      bindE (storeNode (fst st) p (f n)) (\<lambda>h. Inr (h, snd st))))"

fun addLinks :: "string \<Rightarrow> pbLsLink list \<Rightarrow> tedState \<Rightarrow> tedState result" where
  "addLinks rid [] st = Inr st"
| "addLinks rid (link # links) st =
     (let nodes = ted_Nodes (snd st) in
      bindE (createLsLink (nodeAt nodes (bl_LocalRouterId link)) (nodeAt nodes (bl_RemoteRouterId link)) link) (\<lambda>lsLink.
      bindE (updateNode rid (\<lambda>n. n\<lparr>nd_Links := nd_Links n @ [Some lsLink]\<rparr>) st) (addLinks rid links)))"

fun addPrefixes :: "string \<Rightarrow> pbLsPrefix list \<Rightarrow> tedState \<Rightarrow> tedState result" where
  "addPrefixes rid [] st = Inr st"
| "addPrefixes rid (prefix # prefixes) st =
     bindE (createLsPrefix (nodeAt (ted_Nodes (snd st)) rid) prefix) (\<lambda>lsPrefix.
     bindE (updateNode rid (\<lambda>n. n\<lparr>nd_Prefixes := nd_Prefixes n @ [Some lsPrefix]\<rparr>) st) (addPrefixes rid prefixes))"

fun addSrv6SIDs :: "string \<Rightarrow> pbLsSrv6SID list \<Rightarrow> tedState \<Rightarrow> tedState result" where
  "addSrv6SIDs rid [] st = Inr st"
| "addSrv6SIDs rid (sid # sids) st =
     bindE (updateNode rid (\<lambda>n. n\<lparr>nd_SRv6SIDs := nd_SRv6SIDs n @
         [Some (createSrv6SID (nodeAt (ted_Nodes (snd st)) rid) sid)]\<rparr>) st) (addSrv6SIDs rid sids)"

definition addLsNode :: "pbLsNode \<Rightarrow> tedState \<Rightarrow> tedState result" where
  "addLsNode node st =
     (let rid = bn_RouterId node in
      bindE (addLinks rid (bn_LsLinks node) st) (\<lambda>st.
      bindE (addPrefixes rid (bn_LsPrefixes node) st) (addSrv6SIDs rid (bn_LsSrv6Sids node))))"

fun addLsNodes :: "pbLsNode list \<Rightarrow> tedState \<Rightarrow> tedState result" where
  "addLsNodes [] st = Inr st"
| "addLsNodes (node # nodes) st = bindE (addLsNode node st) (addLsNodes nodes)"

definition Client_GetTED :: "GetTEDResponse result \<Rightarrow> tedState result" where
  "Client_GetTED ret =
     bindE ret (\<lambda>ret.
     if \<not> gt_Enable ret then errorf ''ted is disabled'' []
     else addLsNodes (gt_LsNodes ret) (initializeLsNodes ([], \<lparr>ted_Nodes = []\<rparr>) (gt_LsNodes ret)))"

end
