(* ===== verification/Netip_Roundtrip.thy ===== *)
theory Netip_Roundtrip
  imports Netip_Text
begin

text \<open>
  What \<open>netip\<close> prints it reads back: every valid address, with or without a zone, and every valid
  prefix is the value of its own text. The proof follows the parser: decimal fields, hexadecimal
  groups, the loop over the groups before and after a double colon, and the expansion of the colon.
\<close>

section \<open>Decimal fields\<close>

lemma parse_digit:
  assumes "d < 10" "l = 1 \<Longrightarrow> v \<noteq> 0" "w = v * 10 + d" "w \<le> 255"
  shows "parseIPv4Loop (char_of (48 + d :: nat) # s) prev v l fs = parseIPv4Loop s (Some (char_of (48 + d))) w (Suc l) fs"
proof -
  have "\<not> (l = 1 \<and> v = 0)" using assms(2) by blast
  then show ?thesis
    unfolding parseIPv4Loop.simps(2) using digit_char [OF assms(1)] assms(3,4) by (auto simp: Let_def)
qed

declare parseIPv4Loop.simps [simp del]

lemma parse_digits:
  assumes "n < 256"
  shows "\<exists>c. c \<noteq> CHR ''.'' \<and> parseIPv4Loop (string_of_nat n @ rest) prev 0 0 fs =
    parseIPv4Loop rest (Some c) n (length (string_of_nat n)) fs"
proof -
  have s: "n < 10 \<Longrightarrow> string_of_nat n = [char_of (48 + n)]"
    "10 \<le> n \<Longrightarrow> n < 100 \<Longrightarrow> string_of_nat n = [char_of (48 + n div 10), char_of (48 + n mod 10)]"
    "100 \<le> n \<Longrightarrow> string_of_nat n = [char_of (48 + n div 100), char_of (48 + n div 10 mod 10), char_of (48 + n mod 10)]"
    subgoal by (simp add: string_of_nat.simps)
    subgoal
    proof -
      assume "10 \<le> n" "n < 100"
      then have "\<not> n < 10" "n div 10 < 10" by auto
      then show ?thesis by (subst string_of_nat.simps, subst string_of_nat.simps) simp
    qed
    subgoal
    proof -
      assume "100 \<le> n"
      then have "\<not> n < 10" "\<not> n div 10 < 10" "n div 10 div 10 < 10" using assms by (simp_all add: div_mult2_eq [symmetric])
      then show ?thesis
        by (subst string_of_nat.simps, subst string_of_nat.simps, subst string_of_nat.simps) (simp add: div_mult2_eq [symmetric])
    qed
    done
  have d: "char_of (48 + d) \<noteq> CHR ''.''" if "d < 10" for d :: nat
  proof -
    have "\<not> is_digit CHR ''.''" by (simp add: is_digit_def)
    then show ?thesis using digit_char(1) [OF that] by metis
  qed
  consider "n < 10" | "10 \<le> n" "n < 100" | "100 \<le> n" by linarith
  then show ?thesis
  proof cases
    case 1
    then show ?thesis using d [of n] parse_digit [of n 0 0 n] by (auto simp: s)
  next
    case 2
    then have "n div 10 < 10" "n div 10 \<noteq> 0" "n = n div 10 * 10 + n mod 10" by auto
    then show ?thesis
      using 2 d [of "n mod 10"] parse_digit [of "n div 10" 0 0 "n div 10"] parse_digit [of "n mod 10" 1 "n div 10" n]
      by (auto simp: s)
  next
    case 3
    let ?a = "n div 100" and ?b = "n div 10 mod 10" and ?c = "n mod 10"
    have m: "n div 10 div 10 = n div 100" by (simp add: div_mult2_eq [symmetric])
    have v: "n div 10 = ?a * 10 + ?b" "n = n div 10 * 10 + ?c"
      using div_mult_mod_eq [of "n div 10" 10] div_mult_mod_eq [of n 10] by (simp_all only: m)
    have r: "?a < 10" "?a \<noteq> 0" "?b < 10" "?c < 10" "n div 10 \<le> 255" "n \<le> 255" using 3 assms by auto
    have 1: "parseIPv4Loop (char_of (48 + ?a) # s) prev 0 0 fs = parseIPv4Loop s (Some (char_of (48 + ?a))) ?a 1 fs" for s
      using parse_digit [of ?a 0 0 ?a] r by simp
    have 2: "parseIPv4Loop (char_of (48 + ?b) # s) p ?a 1 fs = parseIPv4Loop s (Some (char_of (48 + ?b))) (n div 10) (Suc 1) fs" for s p
      by (rule parse_digit) (use r v(1) in auto)
    have 3: "parseIPv4Loop (char_of (48 + ?c) # s) p (n div 10) (Suc 1) fs = parseIPv4Loop s (Some (char_of (48 + ?c))) n (Suc (Suc 1)) fs"
      for s p by (rule parse_digit) (use r v(2) in auto)
    have "length (string_of_nat n) = Suc (Suc 1)" using \<open>100 \<le> n\<close> by (simp add: s)
    then show ?thesis using d [OF r(4)] 1 2 3 \<open>100 \<le> n\<close> by (auto simp: s)
  qed
qed

lemma dotted: "string4 v =
    string_of_nat (unat (be32 v ! 0)) @ ''.'' @ string_of_nat (unat (be32 v ! 1)) @ ''.'' @
    string_of_nat (unat (be32 v ! 2)) @ ''.'' @ string_of_nat (unat (be32 v ! 3))"
  by (simp add: string4_def upt_rec numeral_2_eq_2 numeral_3_eq_3 numeral_eq_Suc)

lemma parseIPv4Fields_string4 [simp]: "parseIPv4Fields (string4 v) = Inr (be32 v)"
proof -
  have "length (be32 v) = Suc (Suc (Suc (Suc 0)))" by simp
  then obtain a b c d where v: "be32 v = [a, b, c, d]" unfolding length_Suc_conv by blast
  have u: "unat (x :: u8) < 256" for x using unsigned_less [where ?'a = nat, of x] by simp
  note f = parse_digits [OF u]
  obtain ca where a: "parseIPv4Loop (string4 v) None 0 0 [] = parseIPv4Loop
      (''.'' @ string_of_nat (unat b) @ ''.'' @ string_of_nat (unat c) @ ''.'' @ string_of_nat (unat d))
      (Some ca) (unat a) (length (string_of_nat (unat a))) []" "ca \<noteq> CHR ''.''"
    using f [of a "''.'' @ string_of_nat (unat b) @ ''.'' @ string_of_nat (unat c) @ ''.'' @ string_of_nat (unat d)" None "[]"]
    by (auto simp: dotted v)
  obtain cb where b: "parseIPv4Loop (string_of_nat (unat b) @ ''.'' @ string_of_nat (unat c) @ ''.'' @ string_of_nat (unat d))
      (Some CHR ''.'') 0 0 [unat a] = parseIPv4Loop (''.'' @ string_of_nat (unat c) @ ''.'' @ string_of_nat (unat d))
      (Some cb) (unat b) (length (string_of_nat (unat b))) [unat a]" "cb \<noteq> CHR ''.''"
    using f by blast
  obtain cc where c: "parseIPv4Loop (string_of_nat (unat c) @ ''.'' @ string_of_nat (unat d))
      (Some CHR ''.'') 0 0 [unat a, unat b] = parseIPv4Loop (''.'' @ string_of_nat (unat d))
      (Some cc) (unat c) (length (string_of_nat (unat c))) [unat a, unat b]" "cc \<noteq> CHR ''.''"
    using f by blast
  obtain cd where d: "parseIPv4Loop (string_of_nat (unat d) @ []) (Some CHR ''.'') 0 0 [unat a, unat b, unat c] =
      parseIPv4Loop [] (Some cd) (unat d) (length (string_of_nat (unat d))) [unat a, unat b, unat c]"
    using f by blast
  have n: "\<not> is_digit CHR ''.''" by (simp add: is_digit_def)
  have "string_of_nat x \<noteq> []" for x using string_of_nat_digits by blast
  then show ?thesis
    using a b c d by (simp add: parseIPv4Fields_def n v parseIPv4Loop.simps)
qed

section \<open>Hexadecimal groups\<close>

lemma hex_digit_char:
  assumes "d < 16"
  shows "hex_value (hex_digit d) = Some d" "hex_digit d \<noteq> CHR '':''" "hex_digit d \<noteq> CHR ''.''"
    "hex_digit d \<noteq> CHR ''%''" "hex_digit d \<noteq> CHR ''/''"
proof -
  have "d = 0 \<or> d = 1 \<or> d = 2 \<or> d = 3 \<or> d = 4 \<or> d = 5 \<or> d = 6 \<or> d = 7 \<or> d = 8 \<or> d = 9 \<or>
      d = 10 \<or> d = 11 \<or> d = 12 \<or> d = 13 \<or> d = 14 \<or> d = 15"
    using assms by presburger
  then have v: "hex_value (hex_digit d) = Some d"
    by (elim disjE) (simp_all add: hex_digit_def hex_value_def)
  have "hex_value CHR '':'' = None" "hex_value CHR ''.'' = None" "hex_value CHR ''%'' = None" "hex_value CHR ''/'' = None"
    by (simp_all add: hex_value_def)
  then show "hex_value (hex_digit d) = Some d" "hex_digit d \<noteq> CHR '':''" "hex_digit d \<noteq> CHR ''.''"
    "hex_digit d \<noteq> CHR ''%''" "hex_digit d \<noteq> CHR ''/''" using v by auto
qed

lemma hexString_digits:
  "\<exists>ds. hexString n = map hex_digit ds \<and> ds \<noteq> [] \<and> (\<forall>d \<in> set ds. d < 16) \<and> foldl (\<lambda>a d. a * 16 + d) 0 ds = n \<and>
     (\<forall>k. n < 16 ^ Suc k \<longrightarrow> length ds \<le> Suc k)"
proof (induction n rule: hexString.induct)
  case (1 n)
  show ?case
  proof (cases "n < 16")
    case True
    then show ?thesis by (intro exI [of _ "[n]"]) (simp add: hexString.simps)
  next
    case False
    then obtain ds where ds: "hexString (n div 16) = map hex_digit ds" "\<forall>d \<in> set ds. d < 16"
      "foldl (\<lambda>a d. a * 16 + d) 0 ds = n div 16" "\<And>k. n div 16 < 16 ^ Suc k \<Longrightarrow> length ds \<le> Suc k"
      using 1 by blast
    have "length (ds @ [n mod 16]) \<le> Suc k" if "n < 16 ^ Suc k" for k
    proof (cases k)
      case (Suc j)
      with that have "n div 16 < 16 ^ Suc j" by (simp add: less_mult_imp_div_less mult.commute)
      then show ?thesis using ds(4) Suc by simp
    qed (use False that in simp)
    moreover have "hexString n = map hex_digit (ds @ [n mod 16])"
      using False ds(1) by (subst hexString.simps) simp
    ultimately show ?thesis
      using ds(2,3) by (intro exI [of _ "ds @ [n mod 16]"]) auto
  qed
qed

lemma hexGroup_digits:
  "\<forall>d \<in> set ds. d < 16 \<Longrightarrow> off + length ds \<le> 4 \<Longrightarrow> rest = [] \<or> hex_value (hd rest) = None \<Longrightarrow>
    hexGroup (map hex_digit ds @ rest) off acc = Inr (foldl (\<lambda>a d. a * 16 + d) acc ds, off + length ds, rest)"
proof (induction ds arbitrary: off acc)
  case Nil
  then show ?case by (cases rest) auto
qed (simp add: hex_digit_char)

lemma hexGroup_decimal:
  assumes "n < 256"
  shows "\<exists>acc l. l \<noteq> 0 \<and> hexGroup (string_of_nat n @ CHR ''.'' # t) 0 0 = Inr (acc, l, CHR ''.'' # t)"
proof -
  have g: "list_all is_digit s \<Longrightarrow> off + length s \<le> 4 \<Longrightarrow>
      \<exists>acc'. hexGroup (s @ CHR ''.'' # t) off acc = Inr (acc', off + length s, CHR ''.'' # t)" for s off acc
  proof (induction s arbitrary: off acc)
    case Nil
    then show ?case by (simp add: hex_value_def)
  next
    case (Cons c s)
    then obtain d where "hex_value c = Some d" by (auto simp: is_digit_def hex_value_def)
    then show ?case using Cons.IH [of "Suc off" "acc * 16 + d"] Cons.prems by simp
  qed
  have "length (string_of_nat n) \<le> 3"
  proof (cases "n < 10")
    case False
    then show ?thesis
      using assms by (subst string_of_nat.simps, subst string_of_nat.simps, subst string_of_nat.simps) simp
  qed (simp add: string_of_nat.simps)
  then show ?thesis using g [of "string_of_nat n" 0 0] string_of_nat_digits [of n] by auto
qed

lemma hexGroup_hexString:
  assumes "n < 65536" "rest = [] \<or> hex_value (hd rest) = None"
  shows "\<exists>l. l \<noteq> 0 \<and> hexGroup (hexString n @ rest) 0 0 = Inr (n, l, rest)"
proof -
  obtain ds where ds: "hexString n = map hex_digit ds" "ds \<noteq> []" "\<forall>d \<in> set ds. d < 16" "foldl (\<lambda>a d. a * 16 + d) 0 ds = n"
    "n < 16 ^ Suc 3 \<longrightarrow> length ds \<le> Suc 3"
    using hexString_digits [of n] by blast
  then show ?thesis using hexGroup_digits [of ds 0 rest 0] assms by simp
qed

lemma hexString_hd: "\<exists>d s. hexString n = hex_digit d # s \<and> d < 16"
proof -
  obtain ds where "hexString n = map hex_digit ds" "ds \<noteq> []" "\<forall>d \<in> set ds. d < 16"
    using hexString_digits [of n] by blast
  then show ?thesis by (cases ds) auto
qed

lemma hexString_chars: "c \<in> set (hexString n) \<Longrightarrow> c \<noteq> CHR '':'' \<and> c \<noteq> CHR ''.'' \<and> c \<noteq> CHR ''%'' \<and> c \<noteq> CHR ''/''"
proof -
  obtain ds where "hexString n = map hex_digit ds" "\<forall>d \<in> set ds. d < 16"
    using hexString_digits [of n] by blast
  then show "c \<in> set (hexString n) \<Longrightarrow> ?thesis" using hex_digit_char by auto
qed

section \<open>The loop over the groups\<close>

text \<open>Groups separated by colons.\<close>

fun colons :: "nat list \<Rightarrow> string" where
  "colons [] = []"
| "colons [g] = hexString g"
| "colons (g # gs) = hexString g @ '':'' @ colons gs"

definition group_bytes :: "nat list \<Rightarrow> bytes" where
  "group_bytes gs = concat (map (\<lambda>g. be16 (word_of_nat g)) gs)"

lemma group_bytes_simps [simp]:
  "group_bytes [] = []" "group_bytes (g # gs) = be16 (word_of_nat g) @ group_bytes gs"
  "group_bytes (gs @ hs) = group_bytes gs @ group_bytes hs" "length (group_bytes gs) = 2 * length gs"
  by (simp_all add: group_bytes_def length_concat o_def sum_list_triv)

lemma colons_hd: "gs \<noteq> [] \<Longrightarrow> \<exists>d s. colons gs = hex_digit d # s \<and> d < 16"
proof (cases gs rule: colons.cases)
  case (2 g)
  then show ?thesis using hexString_hd [of g] by simp
next
  case (3 g g' gs')
  then show ?thesis using hexString_hd [of g] by auto
qed simp

lemma colons_snoc: "colons (gs @ [g]) = (if gs = [] then hexString g else colons gs @ '':'' @ hexString g)"
  by (induction gs rule: colons.induct) simp_all

lemma parse_group:
  assumes "g < 65536" "length ip < 16" "rest = [] \<or> hd rest = CHR '':''"
  shows "parseIPv6Loop (hexString g @ rest) ip e = (case rest of [] \<Rightarrow> Inr ([], ip @ be16 (word_of_nat g), e)
    | _ # s1 \<Rightarrow> (case s1 of [] \<Rightarrow> parseAddrError ''colon must be followed by more characters''
      | d # s2 \<Rightarrow> if d = CHR '':'' then
            if e \<noteq> None then parseAddrError ''multiple :: in address''
            else if s2 = [] then Inr ([], ip @ be16 (word_of_nat g), Some (length ip + 2))
            else parseIPv6Loop s2 (ip @ be16 (word_of_nat g)) (Some (length ip + 2))
          else parseIPv6Loop s1 (ip @ be16 (word_of_nat g)) e))"
proof -
  have "hex_value CHR '':'' = None" by (simp add: hex_value_def)
  then obtain l where "l \<noteq> 0" "hexGroup (hexString g @ rest) 0 0 = Inr (g, l, rest)"
    using hexGroup_hexString [OF assms(1), of rest] assms(3) by metis
  then show ?thesis
    using assms(2,3) by (subst parseIPv6Loop.simps) (auto simp: Let_def split: list.split)
qed

lemma parse_groups:
  "gs \<noteq> [] \<Longrightarrow> \<forall>g \<in> set gs. g < 65536 \<Longrightarrow> length ip + 2 * length gs \<le> 16 \<Longrightarrow>
    parseIPv6Loop (colons gs) ip e = Inr ([], ip @ group_bytes gs, e)"
proof (induction gs arbitrary: ip rule: colons.induct)
  case (2 g)
  then show ?case using parse_group [of g ip "[]" e] by simp
next
  case (3 g g' gs)
  obtain d s where d: "colons (g' # gs) = hex_digit d # s" "d < 16" using colons_hd [of "g' # gs"] by auto
  have "parseIPv6Loop (colons (g # g' # gs)) ip e = parseIPv6Loop (colons (g' # gs)) (ip @ be16 (word_of_nat g)) e"
    using parse_group [of g ip "'':'' @ colons (g' # gs)" e] 3(3,4) hex_digit_char(2) [OF d(2)] by (simp add: d)
  then show ?case using 3 by simp
qed simp

lemma parse_groups_ellipsis:
  "gs \<noteq> [] \<Longrightarrow> \<forall>g \<in> set gs. g < 65536 \<Longrightarrow> length ip + 2 * length gs \<le> 16 \<Longrightarrow>
    parseIPv6Loop (colons gs @ '':'' @ '':'' @ s2) ip None =
      (if s2 = [] then Inr ([], ip @ group_bytes gs, Some (length ip + 2 * length gs))
       else parseIPv6Loop s2 (ip @ group_bytes gs) (Some (length ip + 2 * length gs)))"
proof (induction gs arbitrary: ip rule: colons.induct)
  case (2 g)
  then show ?case using parse_group [of g ip "'':'' @ '':'' @ s2" None] by simp
next
  case (3 g g' gs)
  obtain d s where d: "colons (g' # gs) = hex_digit d # s" "d < 16" using colons_hd [of "g' # gs"] by auto
  have "parseIPv6Loop (colons (g # g' # gs) @ '':'' @ '':'' @ s2) ip None =
      parseIPv6Loop (colons (g' # gs) @ '':'' @ '':'' @ s2) (ip @ be16 (word_of_nat g)) None"
    using parse_group [of g ip "'':'' @ colons (g' # gs) @ '':'' @ '':'' @ s2" None] 3(3,4) hex_digit_char(2) [OF d(2)]
    by (simp add: d)
  then show ?case using 3 by simp
qed simp

section \<open>The groups of an address\<close>

lemma zeroRun_zeros: "j < zeroRun v i \<Longrightarrow> i + j < 8 \<and> v6u16 v (i + j) = 0"
proof -
  assume j: "j < zeroRun v i"
  have l: "zeroRun v i \<le> 8 - i" using length_takeWhile_le [of _ "[i..<8]"] by (simp add: zeroRun_def)
  have "takeWhile (\<lambda>j. v6u16 v j = 0) [i..<8] ! j = i + j"
    using j l by (simp add: takeWhile_nth zeroRun_def)
  then have "i + j \<in> set (takeWhile (\<lambda>j. v6u16 v j = 0) [i..<8])"
    using j by (metis nth_mem zeroRun_def)
  then show ?thesis using set_takeWhileD j l by fastforce
qed

definition span_ok :: "u128 \<Rightarrow> nat \<times> nat \<Rightarrow> bool" where
  "span_ok v p \<longleftrightarrow> (case p of (zs, ze) \<Rightarrow> (zs, ze) = (255, 255) \<or>
     zs < ze \<and> ze \<le> 8 \<and> (\<forall>j. zs \<le> j \<and> j < ze \<longrightarrow> v6u16 v j = 0))"

lemma zeroSpan_ok: "span_ok v (zeroSpan v)"
proof -
  have run: "span_ok v (i, i + zeroRun v i)" if r: "2 \<le> zeroRun v i" for i
  proof -
    have z: "i + k < 8 \<and> v6u16 v (i + k) = 0" if "k < zeroRun v i" for k using zeroRun_zeros [OF that] .
    have "i + zeroRun v i \<le> 8" using z [of "zeroRun v i - 1"] r by arith
    moreover have "v6u16 v j = 0" if "i \<le> j" "j < i + zeroRun v i" for j using z [of "j - i"] that by simp
    ultimately show ?thesis using r by (simp add: span_ok_def)
  qed
  have "span_ok v (foldl (\<lambda>(zs, ze) i. let l = zeroRun v i in
        if 2 \<le> l \<and> ze - zs < l then (i, i + l) else (zs, ze)) p is)" if "span_ok v p" for p "is"
    using that by (induction "is" arbitrary: p) (auto simp: Let_def run split: prod.splits if_splits)
  then show ?thesis by (simp add: zeroSpan_def span_ok_def)
qed

lemma colons_upt:
  "concat (map (\<lambda>i. (if i \<noteq> lo then '':'' else []) @ hexString (g i)) [lo..<hi]) = colons (map g [lo..<hi])"
proof (induction hi)
  case (Suc hi)
  then show ?case by (cases "lo \<le> hi") (auto simp: colons_snoc le_less)
qed simp

lemma string6_form:
  "\<exists>zs ze. string6 v = (if zs < 8 then colons (map (v6u16 v) [0..<zs]) @ '':'' @ '':'' @ colons (map (v6u16 v) [ze..<8])
      else colons (map (v6u16 v) [0..<8])) \<and> (zs < 8 \<longrightarrow> span_ok v (zs, ze) \<and> zs < ze \<and> ze \<le> 8)"
proof -
  obtain zs ze where z: "zeroSpan v = (zs, ze)" by fastforce
  let ?f = "\<lambda>i. if zs \<le> i \<and> i < ze then (if i = zs then '':'' @ '':'' else [])
        else (if 0 < i \<and> i \<noteq> ze then '':'' else []) @ hexString (v6u16 v i)"
  have s: "string6 v = concat (map ?f [0..<8])" by (simp add: string6_def z)
  have ok: "span_ok v (zs, ze)" using zeroSpan_ok [of v] z by simp
  show ?thesis
  proof (cases "zs < 8")
    case True
    then have r: "zs < ze" "ze \<le> 8" using ok by (auto simp: span_ok_def)
    then have "[0..<8] = [0..<zs] @ [zs..<ze] @ [ze..<8]"
      using upt_add_eq_append [of 0 zs "8 - zs"] upt_add_eq_append [of zs ze "8 - ze"] by simp
    moreover have "concat (map ?f [0..<zs]) = colons (map (v6u16 v) [0..<zs])"
      unfolding colons_upt [symmetric] using r by (intro arg_cong [where f = concat] map_cong) auto
    moreover have "concat (map ?f [zs..<ze]) = '':'' @ '':''"
    proof -
      have "[zs..<ze] = zs # [Suc zs..<ze]" using r by (simp add: upt_rec)
      moreover have "concat (map ?f [Suc zs..<ze]) = []" by simp
      ultimately show ?thesis using r by simp
    qed
    moreover have "concat (map ?f [ze..<8]) = colons (map (v6u16 v) [ze..<8])"
      unfolding colons_upt [symmetric] using r by (intro arg_cong [where f = concat] map_cong) auto
    ultimately show ?thesis
      using s ok r True by (intro exI [of _ zs] exI [of _ ze]) simp
  next
    case False
    then have "concat (map ?f [0..<8]) = colons (map (v6u16 v) [0..<8])"
      unfolding colons_upt [symmetric] using ok
      by (intro arg_cong [where f = concat] map_cong) (auto simp: span_ok_def)
    then show ?thesis using s False by (intro exI [of _ zs] exI [of _ ze]) simp
  qed
qed

lemma v6u16_less: "v6u16 v i < 65536"
  by (simp add: v6u16_def)

text \<open>The bytes of an address are those of its groups.\<close>

lemma be_bytes_add: "be_bytes (n + m) v = be_bytes n (v div 256 ^ m) @ be_bytes m v"
  by (induction n) (simp_all add: div_mult2_eq [symmetric] power_add mult.commute)

lemma group_bytes_div: "group_bytes (map (\<lambda>i. n div 65536 ^ i mod 65536) (rev [0..<k])) = be_bytes (2 * k) n"
proof (induction k)
  case (Suc k)
  have e: "be16 (word_of_nat (m mod 65536)) = be_bytes 2 m" for m
    using be_bytes_mod [of 2 m] by (simp add: be16_def unat_of_nat)
  have p: "(65536 :: nat) ^ k = 256 ^ (2 * k)" by (simp add: power_mult)
  show ?case
    using Suc be_bytes_add [of 2 "2 * k" n] by (simp add: e p)
qed simp

lemma group_bytes_all: "group_bytes (map (v6u16 v) [0..<8]) = be128 v"
proof -
  have "map (v6u16 v) [0..<8] = map (\<lambda>i. unat v div 65536 ^ i mod 65536) (rev [0..<8])"
    by (simp add: v6u16_def upt_rec)
  then show ?thesis using group_bytes_div [of "unat v" 8] by (simp add: be128_def)
qed

lemma group_bytes_zero: "\<forall>g \<in> set gs. g = 0 \<Longrightarrow> group_bytes gs = makeBytes (2 * length gs)"
proof (induction gs)
  case (Cons g gs)
  have "be16 0 = [0, 0]" by (simp add: be16_def numeral_2_eq_2)
  then show ?case using Cons by (simp add: makeBytes_def)
qed (simp add: makeBytes_def)

lemma be_bytes_0: "be_bytes n 0 = makeBytes n"
  by (induction n) (simp_all add: makeBytes_def)

lemma be_bytes_ffff: "be_bytes 2 65535 = [255, 255]"
proof -
  have "be_bytes (Suc (Suc 0)) 65535 = [255, 255]" by simp
  then show ?thesis by (simp only: numeral_2_eq_2)
qed

lemma be128_0: "be128 0 = makeBytes 16"
  by (simp add: be128_def be_bytes_0)

section \<open>Round trips\<close>

lemma is_digit_chars: "is_digit c \<Longrightarrow> c \<noteq> CHR ''.'' \<and> c \<noteq> CHR '':'' \<and> c \<noteq> CHR ''%'' \<and> c \<noteq> CHR ''/'' \<and> c \<noteq> CHR ''-'' \<and> c \<noteq> CHR ''+''"
  by (auto simp: is_digit_def)

lemma string_of_nat_chars:
  "c \<in> set (string_of_nat n) \<Longrightarrow> c \<noteq> CHR ''.'' \<and> c \<noteq> CHR '':'' \<and> c \<noteq> CHR ''%'' \<and> c \<noteq> CHR ''/'' \<and> c \<noteq> CHR ''-'' \<and> c \<noteq> CHR ''+''"
  using string_of_nat_digits [of n] is_digit_chars by (auto simp: list_all_iff)

lemma string4_chars: "c \<in> set (string4 v) \<Longrightarrow> c \<noteq> CHR '':'' \<and> c \<noteq> CHR ''%'' \<and> c \<noteq> CHR ''/''"
  using string_of_nat_chars by (auto simp: dotted)

lemma string6_colon: "\<exists>s t. string6 v = s @ CHR '':'' # t \<and> (\<forall>c \<in> set s. c \<noteq> CHR ''.'' \<and> c \<noteq> CHR '':'' \<and> c \<noteq> CHR ''%'')"
proof -
  have c: "\<exists>s t. colons gs @ CHR '':'' # r = s @ CHR '':'' # t \<and> (\<forall>c \<in> set s. c \<noteq> CHR ''.'' \<and> c \<noteq> CHR '':'' \<and> c \<noteq> CHR ''%'')" for gs r
  proof (cases gs rule: colons.cases)
    case (2 g)
    then show ?thesis using hexString_chars [of _ g] by (intro exI [of _ "hexString g"] exI [of _ r]) simp
  next
    case (3 g g' gs')
    then show ?thesis
      using hexString_chars [of _ g] by (intro exI [of _ "hexString g"] exI [of _ "colons (g' # gs') @ CHR '':'' # r"]) simp
  next
    case 1
    then show ?thesis by (intro exI [of _ "[]"] exI [of _ r]) simp
  qed
  obtain zs ze where f: "string6 v = (if zs < 8 then colons (map (v6u16 v) [0..<zs]) @ '':'' @ '':'' @ colons (map (v6u16 v) [ze..<8])
      else colons (map (v6u16 v) [0..<8]))"
    using string6_form [of v] by blast
  show ?thesis
  proof (cases "zs < 8")
    case False
    have "[0..<8] = [0..<7] @ [7]" by (simp add: upt_rec)
    then have "colons (map (v6u16 v) [0..<8]) = colons (map (v6u16 v) [0..<7]) @ CHR '':'' # hexString (v6u16 v 7)"
      by (simp add: colons_snoc)
    then show ?thesis using c f False by simp
  qed (use c f in simp)
qed

lemma string6_chars: "c \<in> set (string6 v) \<Longrightarrow> c \<noteq> CHR ''%'' \<and> c \<noteq> CHR ''.'' \<and> c \<noteq> CHR ''/''"
proof -
  have "c \<in> set (colons gs) \<Longrightarrow> c \<noteq> CHR ''%'' \<and> c \<noteq> CHR ''.'' \<and> c \<noteq> CHR ''/''" for gs
    by (induction gs rule: colons.induct) (use hexString_chars in auto)
  then show "c \<in> set (string6 v) \<Longrightarrow> ?thesis"
    using string6_form [of v] by (auto split: if_splits)
qed

lemma parseIPv6_zone:
  assumes "CHR ''%'' \<notin> set s"
    and "(if take 2 s = '':'' @ '':'' then if drop 2 s = [] then Inr ([], makeBytes 16, None) else parseIPv6Loop (drop 2 s) [] (Some 0)
          else parseIPv6Loop s [] None) = Inr ([], ip, e)"
    and "expandEllipsis ip e = Inr (be128 v)"
  shows "parseIPv6 (s @ (if z = [] then [] else CHR ''%'' # z)) = Inr (Addr6 v z)"
proof -
  let ?t = "s @ (if z = [] then [] else CHR ''%'' # z)"
  have 1: "takeWhile (\<lambda>c. c \<noteq> CHR ''%'') ?t = s" using assms(1) by (auto simp: takeWhile_append)
  have 2: "drop (length s + 1) ?t = z" by simp
  have 3: "(CHR ''%'' \<in> set ?t) = (z \<noteq> [])" using assms(1) by auto
  have 4: "v = 0" if "be128 v = makeBytes 16"
  proof -
    show ?thesis using that beUint128_be128 [of v] beUint128_be128 [of 0] by (simp add: be128_0)
  qed
  have 5: "expandEllipsis (makeBytes 16) None = Inr (makeBytes 16)" by (simp add: expandEllipsis_def)
  show ?thesis
    using assms(2,3) 4 5 unfolding parseIPv6_def 1 2 3 Let_def by (auto split: if_splits)
qed

lemma parseIPv6_string6: "parseIPv6 (string6 v @ (if z = [] then [] else CHR ''%'' # z)) = Inr (Addr6 v z)"
proof -
  obtain zs ze where f: "string6 v = (if zs < 8 then colons (map (v6u16 v) [0..<zs]) @ '':'' @ '':'' @ colons (map (v6u16 v) [ze..<8])
      else colons (map (v6u16 v) [0..<8]))" and ok: "zs < 8 \<Longrightarrow> span_ok v (zs, ze) \<and> zs < ze \<and> ze \<le> 8"
    using string6_form [of v] by blast
  let ?g = "map (v6u16 v)"
  have n: "CHR ''%'' \<notin> set (string6 v)" using string6_chars by blast
  have no: "take 2 (colons gs @ s) \<noteq> '':'' @ '':''" if ne: "gs \<noteq> []" for gs s
  proof -
    obtain d t where "colons gs = hex_digit d # t" "d < 16" using colons_hd [OF ne] by blast
    then show ?thesis using hex_digit_char(2) [of d] by (cases t) simp_all
  qed
  have nil: "(colons gs = []) = (gs = [])" for gs using colons_hd [of gs] by (cases gs) auto
  show ?thesis
  proof (cases "zs < 8")
    case False
    then have s: "string6 v = colons (?g [0..<8])" using f by simp
    have "parseIPv6Loop (string6 v) [] None = Inr ([], be128 v, None)"
      unfolding s using v6u16_less by (subst parse_groups) (auto simp: group_bytes_all)
    then show ?thesis
      using n no [of "?g [0..<8]" "[]"] by (intro parseIPv6_zone [where ip = "be128 v" and e = None]) (simp_all add: s expandEllipsis_def)
  next
    case True
    note r = ok [OF True]
    let ?hd = "?g [0..<zs]" and ?mid = "?g [zs..<ze]" and ?tl = "?g [ze..<8]"
    have s: "string6 v = colons ?hd @ '':'' @ '':'' @ colons ?tl" using f True by simp
    have split: "[0..<8] = [0..<zs] @ [zs..<ze] @ [ze..<8]"
      using upt_add_eq_append [of 0 zs "8 - zs"] upt_add_eq_append [of zs ze "8 - ze"] r by simp
    have "group_bytes ?mid = makeBytes (2 * (ze - zs))"
      using group_bytes_zero [of ?mid] r True by (auto simp: span_ok_def)
    then have b: "be128 v = group_bytes ?hd @ makeBytes (2 * (ze - zs)) @ group_bytes ?tl"
      unfolding group_bytes_all [symmetric] split by simp
    have x: "expandEllipsis (group_bytes ?hd @ group_bytes ?tl) (Some (2 * zs)) = Inr (be128 v)"
    proof -
      have "2 * zs + 16 - 2 * ze < 16" "16 - (2 * zs + 16 - 2 * ze) = 2 * ze - 2 * zs" using r by arith+
      then show ?thesis using r by (simp add: expandEllipsis_def b right_diff_distrib')
    qed
    show ?thesis
    proof (cases "zs = 0")
      case z0: True
      show ?thesis
      proof (cases "ze < 8")
        case True
        then have "parseIPv6Loop (colons ?tl) [] (Some 0) = Inr ([], group_bytes ?tl, Some 0)"
          using v6u16_less by (subst parse_groups) auto
        then show ?thesis
          using n x z0 True by (intro parseIPv6_zone [where ip = "group_bytes ?tl" and e = "Some 0"]) (simp_all add: s nil)
      next
        case False
        then have b0: "be128 v = makeBytes 16" using b r z0 by simp
        moreover have s0: "string6 v = '':'' @ '':''" using s z0 False r by simp
        ultimately show ?thesis
          unfolding s0 by (intro parseIPv6_zone [where ip = "makeBytes 16" and e = None]) (simp_all add: expandEllipsis_def)
      qed
    next
      case nz: False
      have "parseIPv6Loop (string6 v) [] None = Inr ([], group_bytes ?hd @ group_bytes ?tl, Some (2 * zs))"
      proof (cases "ze < 8")
        case True
        have "parseIPv6Loop (colons ?tl) (group_bytes ?hd) (Some (2 * zs)) = Inr ([], group_bytes ?hd @ group_bytes ?tl, Some (2 * zs))"
          using r True v6u16_less by (subst parse_groups) auto
        then show ?thesis unfolding s using r nz True v6u16_less by (subst parse_groups_ellipsis) (auto simp: nil)
      next
        case False
        then show ?thesis unfolding s using r nz v6u16_less by (subst parse_groups_ellipsis) auto
      qed
      then show ?thesis
        using n x no [of ?hd "'':'' @ '':'' @ colons ?tl"] nz by (intro parseIPv6_zone [where ip = "group_bytes ?hd @ group_bytes ?tl" and e = "Some (2 * zs)"]) (simp_all add: s)
    qed
  qed
qed

lemma parseIPv6_Is4In6:
  assumes "Is4In6 (Addr6 v z)"
  shows "parseIPv6 ((''::ffff:'' @ string4 (ucast v)) @ (if z = [] then [] else CHR ''%'' # z)) = Inr (Addr6 v z)"
proof -
  let ?s = "string4 (ucast v)"
  obtain a b c d where w: "be32 (ucast v :: u32) = [a, b, c, d]"
  proof -
    have "length (be32 (ucast v :: u32)) = Suc (Suc (Suc (Suc 0)))" by simp
    then show ?thesis using that unfolding length_Suc_conv by blast
  qed
  have u: "unat (x :: u8) < 256" for x using unsigned_less [where ?'a = nat, of x] by simp
  obtain t where t: "?s = string_of_nat (unat a) @ CHR ''.'' # t" by (simp add: dotted w)
  obtain acc l where h: "hexGroup ?s 0 0 = Inr (acc, l, CHR ''.'' # t)" "l \<noteq> 0"
    using hexGroup_decimal [OF u, of a t] t by auto
  have c: "hd ?s \<noteq> CHR '':''" "?s \<noteq> []"
  proof -
    obtain y ys where y: "string_of_nat (unat a) = y # ys" "is_digit y"
      using string_of_nat_digits [of "unat a"] by (cases "string_of_nat (unat a)") auto
    moreover have "\<not> is_digit CHR '':''" by (simp add: is_digit_def)
    ultimately show "hd ?s \<noteq> CHR '':''" "?s \<noteq> []" by (auto simp: t)
  qed
  have f: "hexString 65535 = ''ffff''"
  proof -
    have "char_of (102 :: nat) = CHR ''f''" using char_of_char [where ?'a = nat, of "CHR ''f''"] by simp
    then show ?thesis by (simp add: hexString.simps hex_digit_def)
  qed
  have 1: "parseIPv6Loop (''ffff:'' @ ?s) [] (Some 0) = parseIPv6Loop ?s [255, 255] (Some 0)"
  proof -
    have "be16 65535 = [255, 255]" using be_bytes_ffff by (simp add: be16_def)
    then show ?thesis
      using parse_group [of 65535 "[]" "'':'' @ ?s" "Some 0"] c by (cases ?s) (simp_all add: f)
  qed
  have 2: "parseIPv6Loop ?s [255, 255] (Some 0) = Inr ([], [255, 255] @ be32 (ucast v), Some 0)"
    using h by (subst parseIPv6Loop.simps) simp
  have "be128 v = makeBytes 10 @ [255, 255] @ be32 (ucast v)"
  proof -
    have "drop_bit 32 v = 0xffff" using assms by simp
    then have "unat (drop_bit 32 v) = 65535" by simp
    then have "drop_bit 32 (unat v) = 65535" by (simp only: unat_drop_bit_eq)
    then have d: "unat v div 256 ^ 4 = 65535" by (simp add: drop_bit_eq_div)
    have "be_bytes 12 65535 = makeBytes 10 @ be_bytes 2 65535"
      using be_bytes_add [of 10 2 65535] by (simp add: be_bytes_0)
    also note be_bytes_ffff
    finally have "be_bytes 12 65535 = makeBytes 10 @ [255, 255]" .
    moreover have "be_bytes 4 (unat v) = be32 (ucast v)"
      using be_bytes_mod [of 4 "unat v"] by (simp add: be32_def unsigned_ucast_eq take_bit_eq_mod)
    ultimately show ?thesis
      using be_bytes_add [of 12 4 "unat v"] d by (simp add: be128_def)
  qed
  then have 3: "expandEllipsis ([255, 255] @ be32 (ucast v)) (Some 0) = Inr (be128 v)" by (simp add: expandEllipsis_def)
  have "CHR ''%'' \<notin> set ?s" using string4_chars by blast
  then show ?thesis
    using 1 2 3 by (intro parseIPv6_zone [where ip = "[255, 255] @ be32 (ucast v)" and e = "Some 0"]) simp_all
qed

text \<open>An address is the value of its text.\<close>

lemma ParseAddr_String [simp]:
  assumes "IsValid a"
  shows "ParseAddr (addr_String a) = Inr a"
proof -
  let ?p = "\<lambda>c. c \<noteq> CHR ''.'' \<and> c \<noteq> CHR '':'' \<and> c \<noteq> CHR ''%''"
  have digits: "dropWhile ?p (string_of_nat n @ CHR ''.'' # t) = CHR ''.'' # t" for n t
    using string_of_nat_chars [of _ n] by (subst dropWhile_append2) auto
  show ?thesis
  proof (cases a)
    case (Addr4 v)
    have "\<exists>t. dropWhile ?p (string4 v) = CHR ''.'' # t" using digits by (simp add: dotted)
    then show ?thesis by (auto simp: Addr4 ParseAddr_def AddrFrom4_def)
  next
    case (Addr6 v z)
    show ?thesis
    proof (cases "Is4In6 (Addr6 v z)")
      case True
      have "dropWhile ?p (''::ffff:'' @ t) = ''::ffff:'' @ t" for t by simp
      then show ?thesis using parseIPv6_Is4In6 [OF True] True by (simp add: Addr6 ParseAddr_def)
    next
      case False
      have "\<exists>t. dropWhile ?p (string6 v @ s) = CHR '':'' # t" for s
      proof -
        obtain r t where r: "string6 v = r @ CHR '':'' # t" "\<forall>c \<in> set r. ?p c" using string6_colon [of v] by blast
        then have "dropWhile ?p (r @ CHR '':'' # t @ s) = CHR '':'' # t @ s" by (subst dropWhile_append2) auto
        then show ?thesis using r by simp
      qed
      then obtain t where "dropWhile ?p (string6 v @ (if z = [] then [] else CHR ''%'' # z)) = CHR '':'' # t" by blast
      then show ?thesis using parseIPv6_string6 [of v z] False by (simp add: Addr6 ParseAddr_def)
    qed
  qed (use assms in simp)
qed

lemma addr_text_roundtrip [simp]: "addr_UnmarshalText (addr_MarshalText a) = Inr a"
proof (cases "IsValid a")
  case True
  then have "addr_String a \<noteq> []" using ParseAddr_String [OF True] by (auto simp: ParseAddr_def parseAddrError_def)
  then show ?thesis using True by (auto simp: addr_UnmarshalText_def addr_MarshalText_def)
qed (cases a; simp add: addr_UnmarshalText_def addr_MarshalText_def)

lemma string_of_nat_lead: "0 < n \<Longrightarrow> hd (string_of_nat n) \<noteq> CHR ''0''"
proof (induction n rule: string_of_nat.induct)
  case (1 n)
  show ?case
  proof (cases "n < 10")
    case True
    have "digit_value CHR ''0'' = 0" by (simp add: digit_value_def)
    then show ?thesis using digit_char(2) [OF True] 1(2) by (auto simp: string_of_nat.simps [of n] True)
  next
    case False
    then have "hd (string_of_nat n) = hd (string_of_nat (n div 10))"
      using string_of_nat_digits by (subst string_of_nat.simps) simp
    then show ?thesis using 1(1) False by simp
  qed
qed

lemma ParsePrefix_String:
  assumes "prefix_IsValid p" "\<not> hasZone (pfx_Addr p)"
  shows "ParsePrefix (prefix_String p) = Inr p"
proof -
  obtain n where n: "pfx_Bits p = int n" "n \<le> 128" "n \<le> BitLen (pfx_Addr p)"
    using assms(1) unfolding prefix_IsValid_def by (cases "pfx_Addr p"; force dest: zero_le_imp_eq_int)
  let ?a = "addr_String (pfx_Addr p)" and ?b = "string_of_nat n"
  have s: "prefix_String p = ?a @ CHR ''/'' # ?b"
    using assms(1) n by (simp add: prefix_String_def Itoa_def)
  have b: "rev (takeWhile (\<lambda>c. c \<noteq> CHR ''/'') (rev (?a @ CHR ''/'' # ?b))) = ?b"
    using string_of_nat_chars [of _ n] by (simp add: takeWhile_append)
  have h: "\<not> (1 < length ?b \<and> (hd ?b = CHR ''0'' \<or> \<not> is_digit (hd ?b)))"
  proof -
    have l: "n < 10 \<or> hd ?b \<noteq> CHR ''0''" using string_of_nat_lead [of n] by auto
    have "is_digit (hd ?b)" using string_of_nat_digits [of n] by (cases ?b) auto
    moreover have "n < 10 \<Longrightarrow> length ?b = 1" by (simp add: string_of_nat.simps)
    ultimately show ?thesis using l by auto
  qed
  have a: "Atoi ?b = Inr (int n)"
  proof -
    obtain c t where c: "?b = c # t" "c \<noteq> CHR ''-''" "c \<noteq> CHR ''+''"
      using string_of_nat_digits [of n] string_of_nat_chars [of _ n] by (cases ?b) auto
    then have "take 1 ?b \<noteq> ''-''" "take 1 ?b \<noteq> ''+''" by simp_all
    then show ?thesis using string_of_nat_digits [of n] n(2) by (simp add: Atoi_def)
  qed
  have "IsValid (pfx_Addr p)" using assms(1) by (simp add: prefix_IsValid_def)
  moreover have "int n \<le> (if Is6 (pfx_Addr p) then 128 else 32)" using n by (cases "pfx_Addr p") auto
  ultimately show ?thesis
    unfolding s ParsePrefix_def b Let_def using h a assms(2) n by (cases p) auto
qed

end
