(* ===== verification/Client_Laws.thy ===== *)
theory Client_Laws
  imports Client Api_Laws Netip_Roundtrip "HOL-Library.Multiset"
begin

text \<open>
  What the client prints is what the server holds: segments, policies, capabilities and sessions
  survive the conversion to messages and back, up to the fields the messages do not carry.
\<close>

section \<open>Values that travel as messages\<close>

text \<open>
  The contract between the server, which builds a message for a value, and the client, which reads it:
  \<open>wire\<close> is what the value has become.
\<close>

locale wire_message =
  fixes build :: "'a \<Rightarrow> 'm"
    and read :: "'m \<Rightarrow> 'b result"
    and ok :: "'a \<Rightarrow> bool"
    and wire :: "'a \<Rightarrow> 'b"
  assumes roundtrip: "ok x \<Longrightarrow> read (build x) = Inr (wire x)"
begin

lemma read_list: "list_all ok xs \<Longrightarrow> mapE read (map build xs) = Inr (map wire xs)"
  by (induction xs) (simp_all add: roundtrip)

text \<open>The server may send the messages in any order.\<close>

lemma read_permuted:
  assumes "list_all ok xs" "mset ms = mset (map build xs)"
  obtains xs' where "mset xs' = mset xs" "ms = map build xs'" "mapE read ms = Inr (map wire xs')"
proof -
  obtain xs' where xs': "mset xs' = mset xs" "ms = map build xs'"
    using assms(2)
  proof (induction ms arbitrary: xs thesis)
    case (Cons m ms)
    have "m \<in> set (map build xs)" using Cons.prems(2) by (metis list.set_intros(1) mset_eq_setD)
    then obtain x where x: "x \<in> set xs" "m = build x" by auto
    then have "mset (map build xs) = add_mset m (mset (map build (remove1 x xs)))"
      by (metis image_mset_add_mset insert_DiffM mset_map mset_remove1 set_mset_mset)
    then have "mset ms = mset (map build (remove1 x xs))" using Cons.prems(2) by simp
    from Cons.IH [OF _ this] obtain xs' where "mset xs' = mset (remove1 x xs)" "ms = map build xs'" by blast
    then show ?case using x Cons.prems(1) [of "x # xs'"] by simp
  qed simp
  moreover have "list_all ok xs'" using assms(1) mset_eq_setD [OF xs'(1)] by (simp add: list_all_iff)
  ultimately show ?thesis using that read_list by blast
qed

end

section \<open>Segments\<close>

text \<open>The messages carry neither the uSID flag nor the attributes of a label stack entry.\<close>

fun wireSegment :: "Segment \<Rightarrow> Segment" where
  "wireSegment (SRv6 v) = SRv6 (v\<lparr>s6_USid := False\<rparr>)"
| "wireSegment (SRMPLS v) = SRMPLS (v\<lparr>sm_TTL := 0, sm_TC := 0, sm_S := False\<rparr>)"

fun segment_wire_ok :: "Segment \<Rightarrow> bool" where
  "segment_wire_ok (SRv6 v) = (Is6 (s6_Sid v) \<and> (case s6_Structure v of None \<Rightarrow> True | Some bs \<Rightarrow> length bs = 4))"
| "segment_wire_ok (SRMPLS v) = True"

lemma whiteSpace_digits:
  assumes "w \<in> set whiteSpace"
  shows "w \<noteq> [] \<and> \<not> is_digit (hd w) \<and> \<not> is_digit (last w)"
proof -
  have nd: "\<not> is_digit (char_of n)" if "n < 48 \<or> 57 < n" "n < 256" for n :: nat
    using that by (auto simp: is_digit_def)
  have "list_all (\<lambda>w. w \<noteq> [] \<and> (hd w < 48 \<or> 57 < hd w) \<and> hd w < 256 \<and> (last w < 48 \<or> 57 < last w) \<and> last w < 256)
      ([[9], [10], [11], [12], [13], [32], [0xC2, 0x85], [0xC2, 0xA0], [0xE1, 0x9A, 0x80]] @
       map (\<lambda>n. [0xE2, 0x80, n]) [0x80..<0x8B] @
       [[0xE2, 0x80, 0xA8], [0xE2, 0x80, 0xA9], [0xE2, 0x80, 0xAF], [0xE2, 0x81, 0x9F], [0xE3, 0x80, 0x80 :: nat]])"
    by (simp add: list_all_iff)
  then show ?thesis
    using assms nd by (auto simp: whiteSpace_def list_all_iff hd_map last_map simp del: upt.simps)
qed

lemma trimLeft_id:
  assumes "\<And>w. w \<in> set ws \<Longrightarrow> w \<noteq> [] \<Longrightarrow> s \<noteq> [] \<Longrightarrow> hd w \<noteq> hd s"
  shows "trimLeft ws s = s"
proof -
  have "List.find (\<lambda>w. w \<noteq> [] \<and> take (length w) s = w) ws = None"
  proof (subst find_None_iff, safe)
    fix w assume w: "w \<in> set ws" "w \<noteq> []" "take (length w) s = w"
    then have "s \<noteq> []" by auto
    moreover have "hd w = hd s" using w by (metis hd_take length_greater_0_conv)
    ultimately show False using assms w by blast
  qed
  then show ?thesis by (subst trimLeft.simps) simp
qed

lemma TrimSpace_digits [simp]:
  assumes "list_all is_digit s"
  shows "TrimSpace s = s"
proof -
  have 1: "trimLeft whiteSpace s = s"
    using assms whiteSpace_digits by (intro trimLeft_id) (metis list_all_iff hd_in_set)
  have "trimLeft (map rev whiteSpace) (rev s) = rev s"
  proof (rule trimLeft_id)
    fix w assume "w \<in> set (map rev whiteSpace)" "w \<noteq> []" "rev s \<noteq> []"
    then obtain v where "w = rev v" "v \<in> set whiteSpace" by auto
    then show "hd w \<noteq> hd (rev s)"
      using assms whiteSpace_digits \<open>rev s \<noteq> []\<close> by (metis hd_rev last_in_set list_all_iff rev_is_Nil_conv)
  qed
  then show ?thesis by (simp add: TrimSpace_def 1)
qed

lemma splitComma_plain: "CHR '','' \<notin> set s \<Longrightarrow> splitComma s = [s]"
  by (induction s) auto

lemma splitComma_comma: "CHR '','' \<notin> set s \<Longrightarrow> splitComma (s @ CHR '','' # t) = s # splitComma t"
  by (induction s) auto

lemma Client_parseSidStructure_text:
  "Client_parseSidStructure (string_of_nat (unat (a :: u8)) @ '','' @ string_of_nat (unat (b :: u8)) @ '','' @
     string_of_nat (unat (c :: u8)) @ '','' @ string_of_nat (unat (d :: u8))) = Some [a, b, c, d]"
proof -
  have n: "CHR '','' \<notin> set (string_of_nat n)" for n
  proof -
    have "\<not> is_digit CHR '',''" by (simp add: is_digit_def)
    then show ?thesis using string_of_nat_digits [of n] by (auto simp: list_all_iff)
  qed
  have u: "unat (x :: u8) < 2 ^ 8" for x using unsigned_less [where ?'a = nat, of x] by simp
  have "string_of_nat n \<noteq> []" "list_all is_digit (string_of_nat n)" for n using string_of_nat_digits by blast+
  then show ?thesis
    using u by (simp add: Client_parseSidStructure_def splitComma_comma splitComma_plain n)
qed

lemma addrOr_validText [simp]: "addrOr (validText a) NoAddr = a"
proof (cases "IsValid a")
  case False
  then have "a = NoAddr" by (cases a) auto
  then show ?thesis by (simp add: validText_def addrOr_def ParseAddr_def parseAddrError_def)
qed (simp add: validText_def addrOr_def)

lemma segment_roundtrip:
  assumes "segment_wire_ok s"
  shows "segmentFromPB (convertSegment s) = Inr (wireSegment s)"
proof (cases s)
  case (SRv6 v)
  have v: "IsValid (s6_Sid v)" "Is6 (s6_Sid v)" using assms SRv6 IsValid_iff by auto
  have st: "Client_parseSidStructure (ps_SidStructure (convertSegment (SRv6 v))) = s6_Structure v"
  proof (cases "s6_Structure v")
    case (Some bs)
    then have "length bs = Suc (Suc (Suc (Suc 0)))" using assms SRv6 by simp
    then obtain a b c d where "bs = [a, b, c, d]" unfolding length_Suc_conv by blast
    then show ?thesis using Some Client_parseSidStructure_text [of a b c d] by simp
  qed (simp add: Client_parseSidStructure_def)
  show ?thesis
    using v st by (cases v)
      (simp add: SRv6 segmentFromPB_def NewSegment_def NewSegmentSRv6_def SegmentSRv6_zero_def Let_def split: option.split)
next
  case (SRMPLS v)
  have i: "Itoa (uint (sm_Sid v)) = string_of_nat (unat (sm_Sid v))" by (simp add: Itoa_def)
  have d: "list_all is_digit (string_of_nat n)" for n using string_of_nat_digits by blast
  have "unat (sm_Sid v) < 2 ^ 32" using unat_u32_less [of "sm_Sid v"] by simp
  then show ?thesis
    by (simp add: SRMPLS segmentFromPB_def NewSegment_def i ParseAddr_digits [OF d] NewSegmentSRMPLS_def)
qed

interpretation segment_message: wire_message convertSegment segmentFromPB segment_wire_ok wireSegment
  by unfold_locales (rule segment_roundtrip)

section \<open>Policies\<close>

text \<open>Addresses that travel as bytes: valid, without a zone.\<close>

definition wire_addr :: "addr \<Rightarrow> bool" where
  "wire_addr a \<longleftrightarrow> IsValid a \<and> \<not> hasZone a"

lemma AddrFromSlice_wire [simp]: "wire_addr a \<Longrightarrow> AddrFromSlice (AsSlice a) = (a, True)"
  by (cases a) (auto simp: wire_addr_def AddrFromSlice_def)

definition policy_wire_ok :: "SRPolicy \<Rightarrow> bool" where
  "policy_wire_ok p \<longleftrightarrow> wire_addr (pol_SrcAddr p) \<and> wire_addr (pol_DstAddr p) \<and>
     list_all segment_wire_ok (pol_SegmentList p) \<and>
     pol_State p \<in> {[], PolicyDown, PolicyUp, PolicyActive, PolicyUnknown} \<and>
     pol_Type p \<in> {[], PolicyTypeExplicit, PolicyTypeDynamic}"

text \<open>The policy the client gets: router IDs looked up in the TED, segments as they travel.\<close>

definition wirePolicy :: "(addr \<rightharpoonup> string) \<Rightarrow> SRPolicy \<Rightarrow> SRPolicy" where
  "wirePolicy index p = p\<lparr>pol_SegmentList := map wireSegment (pol_SegmentList p),
     pol_SrcRouterID := routerIDOf index (pol_SrcAddr p), pol_DstRouterID := routerIDOf index (pol_DstAddr p)\<rparr>"

lemma policy_roundtrip:
  assumes "policy_wire_ok p"
  shows "convertSRPolicy (buildPBSRPolicy peer p index) = Inr (wirePolicy index p)"
proof -
  have 1: "mapE segmentFromPB (map convertSegment (pol_SegmentList p)) = Inr (map wireSegment (pol_SegmentList p))"
    using assms by (intro segment_message.read_list) (simp add: policy_wire_ok_def)
  have 2: "policyStateFromPB (toPBPolicyState (pol_State p)) = pol_State p"
    using assms by (auto simp: policy_wire_ok_def policyStateFromPB_def toPBPolicyState_def)
  have 3: "policyTypeFromPB (toPBPolicyType (pol_Type p)) = pol_Type p"
    using assms by (auto simp: policy_wire_ok_def policyTypeFromPB_def toPBPolicyType_def)
  have 4: "metricTypeFromPB (toPBMetricType m) = m" for m by (cases m) (simp_all add: metricTypeFromPB_def)
  have 5: "ucast (ucast x :: u32) = x" for x :: u16
    by (rule bit_word_eqI) (simp add: bit_simps)
  show ?thesis
    using assms 1 2 3 4 5 by (cases p) (simp add: convertSRPolicy_def buildPBSRPolicy_def wirePolicy_def policy_wire_ok_def)
qed

interpretation policy_message: wire_message "\<lambda>p. buildPBSRPolicy peer p index" convertSRPolicy policy_wire_ok "wirePolicy index"
  for peer index
  by unfold_locales (rule policy_roundtrip)

section \<open>The list of policies\<close>

lemma SRPolicies_fold:
  fixes sv :: Server
  defines "f \<equiv> \<lambda>m p. if ss_isSynced (sessionAt sv p)
         then AList.update (ss_peerAddr (sessionAt sv p)) (SRPolicies (sessionAt sv p)) m else m"
  assumes "distinct (map fst m)"
  shows "distinct (map fst (foldl f m ps))"
    "fst ` set (foldl f m ps) = fst ` set m \<union> {ss_peerAddr (sessionAt sv p) |p. p \<in> set ps \<and> ss_isSynced (sessionAt sv p)}"
    "map_of (foldl f m ps) a = Some pols \<Longrightarrow> map_of m a = Some pols \<or>
       (\<exists>p \<in> set ps. ss_isSynced (sessionAt sv p) \<and> ss_peerAddr (sessionAt sv p) = a \<and> pols = ss_srPolicies (sessionAt sv p))"
  using assms(2)
proof (induction ps arbitrary: m)
  case (Cons p ps)
  {
    case 1
    then show ?case using Cons(1) by (simp add: f_def distinct_update)
  next
    case 2
    then show ?case using Cons(2) [of "f m p"]
      by (auto simp: f_def distinct_update dom_update)
  next
    case 3
    have d: "distinct (map fst (f m p))" using 3(2) by (simp add: f_def distinct_update)
    have "map_of (foldl f (f m p) ps) a = Some pols" using 3(1) by simp
    from Cons(3) [OF this d]
    show ?case
    proof (elim disjE)
      assume "map_of (f m p) a = Some pols"
      then have "map_of m a = Some pols \<or> ss_isSynced (sessionAt sv p) \<and> ss_peerAddr (sessionAt sv p) = a \<and>
          pols = ss_srPolicies (sessionAt sv p)"
        unfolding f_def by (simp add: update_conv' SRPolicies_def del: map_of_eq_Some_iff split: if_splits)
      then show ?thesis by auto
    qed auto
  }
qed auto

lemma Server_SRPolicies_spec:
  "distinct (map fst (Server_SRPolicies sv))"
  "set (map fst (Server_SRPolicies sv)) = {ss_peerAddr (sessionAt sv p) |p. p \<in> set (pce_sessionList sv) \<and> ss_isSynced (sessionAt sv p)}"
  "map_of (Server_SRPolicies sv) a = Some pols \<Longrightarrow>
     \<exists>p \<in> set (pce_sessionList sv). ss_isSynced (sessionAt sv p) \<and> ss_peerAddr (sessionAt sv p) = a \<and> pols = ss_srPolicies (sessionAt sv p)"
  using SRPolicies_fold [where sv = sv and m = "[]" and ps = "pce_sessionList sv"] by (auto simp: Server_SRPolicies_def)

text \<open>The orders are rearrangements.\<close>

definition orders_ok :: "queryEnv \<Rightarrow> bool" where
  "orders_ok env \<longleftrightarrow> (\<forall>ns. mset (ge_nodes env ns) = mset ns) \<and> (\<forall>ps. mset (qe_sessions env ps) = mset ps) \<and>
     (\<forall>as. mset (qe_peers env as) = mset as) \<and> (\<forall>ps. mset (qe_policies env ps) = mset ps)"

lemma mset_SortFunc [simp]: "mset (ties xs) = mset xs \<Longrightarrow> mset (SortFunc ties key xs) = mset xs"
  by (simp add: SortFunc_def)

lemma sorted_SortFunc [simp]: "sorted (map key (SortFunc ties key xs))"
  by (simp add: SortFunc_def)

lemma addr_key_inj [simp]: "addr_key a = addr_key b \<longleftrightarrow> a = b"
  by (cases a; cases b) (auto simp: word_unat_eq_iff)

lemma indexLoopbacks_Inr: "None \<notin> set ps \<Longrightarrow> \<exists>i'. indexLoopbacks rid ps i = Inr i'"
proof (induction ps arbitrary: i)
  case (Cons p ps)
  then show ?case by (cases p) auto
qed simp

lemma buildRouterIDIndex_Inr:
  assumes "tedIntact sv" "orders_ok env"
  shows "\<exists>index. buildRouterIDIndex env (pce_ted sv) = Inr index"
proof (cases "pce_ted sv")
  case None
  then show ?thesis by (simp add: buildRouterIDIndex_def)
next
  case (Some st)
  obtain h t where st: "st = (h, t)" by (cases st)
  have ok: "ted_ok (pce_asn sv) (h, t)" using assms(1) by (simp add: tedIntact_def Some st)
  have loop: "\<exists>j. routerIDIndexLoop h ns i = Inr j" if "set ns \<subseteq> set (ted_Nodes t)" for ns i
    using that
  proof (induction ns arbitrary: i)
    case (Cons n ns)
    obtain rid p where n: "n = (rid, p)" by (cases n)
    have "map_of (ted_Nodes t) rid = Some p"
      using Cons.prems ok n by (auto simp: ted_ok_def intro: map_of_is_SomeI)
    then obtain k where k: "p = Some k" "k < length h" "node_ok (h, t) k"
      using ted_okD [OF ok, of rid p] by auto
    then have "None \<notin> set (nd_Prefixes (h ! k))" by (simp add: node_ok_def Let_def)
    then obtain i' where i': "indexLoopbacks (nd_RouterID (h ! k)) (nd_Prefixes (h ! k)) i = Inr i'"
      using indexLoopbacks_Inr by blast
    have "\<exists>j. routerIDIndexLoop h ns i' = Inr j" using Cons by auto
    then show ?case using k n i' by (simp add: loadNode_def bindE_def)
  qed simp
  have "set (ge_nodes env (ted_Nodes t)) = set (ted_Nodes t)"
    using assms(2) unfolding orders_ok_def by (metis set_mset_mset)
  with loop show ?thesis by (simp add: buildRouterIDIndex_def Some st)
qed


lemma mapE_projr: "(\<And>x. x \<in> set xs \<Longrightarrow> \<exists>y. f x = Inr y) \<Longrightarrow> mapE f xs = Inr (map (\<lambda>x. projr (f x)) xs)"
  by (simp add: mapE_Inr_iff list_all2_map2 list_all2_same) (metis sum.sel(2))

lemma policies_listed:
  assumes "orders_ok env" "list_all policy_wire_ok pols"
  shows "\<exists>ret. mapE convertSRPolicy (SortFunc (qe_policies env) policy_key (map (\<lambda>p. buildPBSRPolicy peer p index) pols)) = Inr ret \<and>
    mset ret = mset (map (wirePolicy index) pols) \<and> sorted (map (\<lambda>y. (pol_Color y, pol_PlspID y, pol_Name y)) ret)"
proof -
  let ?build = "\<lambda>p. buildPBSRPolicy peer p index"
  let ?ms = "SortFunc (qe_policies env) policy_key (map ?build pols)"
  have "mset ?ms = mset (map ?build pols)" using assms(1) by (simp add: orders_ok_def)
  from policy_message.read_permuted [OF assms(2) this] obtain ps where
    ps: "mset ps = mset pols" "?ms = map ?build ps" "mapE convertSRPolicy ?ms = Inr (map (wirePolicy index) ps)" by blast
  have "map (\<lambda>y. (pol_Color y, pol_PlspID y, pol_Name y)) (map (wirePolicy index) ps) = map policy_key (map ?build ps)"
    by (simp add: policy_key_def wirePolicy_def buildPBSRPolicy_def)
  then have "sorted (map (\<lambda>y. (pol_Color y, pol_PlspID y, pol_Name y)) (map (wirePolicy index) ps))"
    by (simp only: ps(2) [symmetric] sorted_SortFunc)
  moreover have "mset (map (wirePolicy index) ps) = mset (map (wirePolicy index) pols)" using ps(1) by simp
  ultimately show ?thesis using ps(3) by blast
qed

lemma AsSlice_wire [simp]: "wire_addr a \<Longrightarrow> AsSlice a \<noteq> []"
  using length_AsSlice(1,2) [of a] by (auto simp: wire_addr_def IsValid_iff simp del: length_AsSlice)

lemma AddrFromSlice_filter:
  assumes "a = NoAddr \<or> wire_addr a"
  shows "(let raw = if IsValid a then AsSlice a else [] in
      if raw \<noteq> [] then (case AddrFromSlice raw of (filterAddr, ok) \<Rightarrow>
          if \<not> ok then statusErrorf ''InvalidArgument'' ''invalid session filter address'' else Inr filterAddr)
      else Inr NoAddr) = Inr a"
  using assms by (auto simp: wire_addr_def [of a] Let_def split: prod.split)

text \<open>What the client makes of the entry of one peer.\<close>

definition listed :: "Server \<Rightarrow> (addr \<rightharpoonup> string) \<Rightarrow> addr \<Rightarrow> SessionSRPolicies \<Rightarrow> bool" where
  "listed sv index peer e \<longleftrightarrow> cp_Addr e = peer \<and>
     (\<exists>p \<in> set (pce_sessionList sv). ss_isSynced (sessionAt sv p) \<and> ss_peerAddr (sessionAt sv p) = peer \<and>
       mset (cp_SRPolicies e) = mset (map (wirePolicy index) (ss_srPolicies (sessionAt sv p))) \<and>
       sorted (map (\<lambda>y. (pol_Color y, pol_PlspID y, pol_Name y)) (cp_SRPolicies e)))"

definition peerEntry :: "queryEnv \<Rightarrow> Server \<Rightarrow> (addr \<rightharpoonup> string) \<Rightarrow> addr \<Rightarrow> pbSession" where
  "peerEntry env sv index peer = \<lparr>bp_Addr = AsSlice peer, bp_State = 0, bp_Capabilities = [], bp_IsSynced = False,
     bp_SrPolicies = SortFunc (qe_policies env) policy_key
       (map (\<lambda>policy. buildPBSRPolicy peer policy index) (the (map_of (Server_SRPolicies sv) peer)))\<rparr>"

lemma peer_listed:
  assumes "orders_ok env" "peer \<in> fst ` set (Server_SRPolicies sv)"
    and "\<And>p. p \<in> set (pce_sessionList sv) \<Longrightarrow> ss_isSynced (sessionAt sv p) \<Longrightarrow>
        wire_addr (ss_peerAddr (sessionAt sv p)) \<and> list_all policy_wire_ok (ss_srPolicies (sessionAt sv p))"
  shows "\<exists>e. sessionPoliciesFromPB (peerEntry env sv index peer) = Inr e \<and> listed sv index peer e"
proof -
  obtain pols where m: "map_of (Server_SRPolicies sv) peer = Some pols"
    using assms(2) by (metis map_of_eq_None_iff option.exhaust)
  then obtain p where p: "p \<in> set (pce_sessionList sv)" "ss_isSynced (sessionAt sv p)"
    "ss_peerAddr (sessionAt sv p) = peer" "pols = ss_srPolicies (sessionAt sv p)"
    using Server_SRPolicies_spec(3) by blast
  then have w: "wire_addr peer" "list_all policy_wire_ok pols" using assms(3) by auto
  from policies_listed [OF assms(1) w(2), of peer index] show ?thesis
    using p w m by (auto simp: sessionPoliciesFromPB_def listed_def peerEntry_def)
qed

lemma peers_listed:
  assumes "\<And>peer. peer \<in> set peers \<Longrightarrow> \<exists>e. sessionPoliciesFromPB (entry peer) = Inr e \<and> P peer e"
  obtains ret where "mapE sessionPoliciesFromPB (map entry peers) = Inr ret" "list_all2 P peers ret"
proof -
  obtain e where e: "\<And>peer. peer \<in> set peers \<Longrightarrow> sessionPoliciesFromPB (entry peer) = Inr (e peer) \<and> P peer (e peer)"
    using assms by metis
  then have "mapE sessionPoliciesFromPB (map entry peers) = Inr (map e peers)"
    by (simp add: mapE_Inr_iff list_all2_map1 list_all2_map2 list_all2_same)
  moreover have "list_all2 P peers (map e peers)" using e by (simp add: list_all2_map2 list_all2_same)
  ultimately show ?thesis by (rule that)
qed

text \<open>
  C7: The policies a client lists: one entry for every synchronized session's peer, or for the peer asked for,
  in the order of addresses, with that session's policies, ordered by color.
\<close>

theorem GetSRPolicyList_roundtrip:
  assumes "orders_ok env" "tedIntact sv" "a = NoAddr \<or> wire_addr a"
    and "\<And>p. p \<in> set (pce_sessionList sv) \<Longrightarrow> ss_isSynced (sessionAt sv p) \<Longrightarrow>
        wire_addr (ss_peerAddr (sessionAt sv p)) \<and> list_all policy_wire_ok (ss_srPolicies (sessionAt sv p))"
  shows "\<exists>index ret. buildRouterIDIndex env (pce_ted sv) = Inr index \<and>
    Client_GetSRPolicyList (\<lambda>raw. GetSRPolicyList env raw sv) a = Inr ret \<and>
    sorted (map addr_key (map cp_Addr ret)) \<and> distinct (map cp_Addr ret) \<and>
    set (map cp_Addr ret) = {ss_peerAddr (sessionAt sv p) |p. p \<in> set (pce_sessionList sv) \<and> ss_isSynced (sessionAt sv p) \<and>
      (a = NoAddr \<or> ss_peerAddr (sessionAt sv p) = a)} \<and>
    (\<forall>e \<in> set ret. \<exists>p \<in> set (pce_sessionList sv). ss_isSynced (sessionAt sv p) \<and> ss_peerAddr (sessionAt sv p) = cp_Addr e \<and>
      mset (cp_SRPolicies e) = mset (map (wirePolicy index) (ss_srPolicies (sessionAt sv p))) \<and>
      sorted (map (\<lambda>y. (pol_Color y, pol_PlspID y, pol_Name y)) (cp_SRPolicies e)))"
proof -
  obtain index where index: "buildRouterIDIndex env (pce_ted sv) = Inr index"
    using buildRouterIDIndex_Inr assms(1,2) by blast
  let ?byPeer = "Server_SRPolicies sv"
  let ?peers = "sort_key addr_key (filter (\<lambda>peerAddr. \<not> (IsValid a \<and> peerAddr \<noteq> a)) (qe_peers env (map fst ?byPeer)))"
  have raw: "GetSRPolicyList env (if IsValid a then AsSlice a else []) sv = Inr (map (peerEntry env sv index) ?peers)"
    using AddrFromSlice_filter [OF assms(3)] by (simp add: GetSRPolicyList_def index Let_def peerEntry_def [abs_def])
  have mp: "mset (qe_peers env (map fst ?byPeer)) = mset (map fst ?byPeer)"
    using assms(1) by (simp add: orders_ok_def)
  then have dp: "distinct ?peers"
    using Server_SRPolicies_spec(1) [of sv] by (metis distinct_filter distinct_sort mset_eq_imp_distinct_iff)
  have sp: "set ?peers = {x \<in> fst ` set ?byPeer. \<not> (IsValid a \<and> x \<noteq> a)}"
    using mset_eq_setD [OF mp] by auto
  obtain ret where ret: "mapE sessionPoliciesFromPB (map (peerEntry env sv index) ?peers) = Inr ret"
      "list_all2 (listed sv index) ?peers ret"
  proof (rule peers_listed)
    fix peer assume "peer \<in> set ?peers"
    then have "peer \<in> fst ` set ?byPeer" using sp by blast
    then show "\<exists>e. sessionPoliciesFromPB (peerEntry env sv index peer) = Inr e \<and> listed sv index peer e"
      using assms(4) by (rule peer_listed [OF assms(1)])
  qed
  have addrs: "map cp_Addr ret = ?peers"
    using ret(2) by (auto simp: listed_def list_all2_conv_all_nth intro!: nth_equalityI)
  have "set ?peers = {ss_peerAddr (sessionAt sv p) |p. p \<in> set (pce_sessionList sv) \<and> ss_isSynced (sessionAt sv p) \<and>
      (a = NoAddr \<or> ss_peerAddr (sessionAt sv p) = a)}"
    using Server_SRPolicies_spec(2) [of sv] sp assms(3) by (auto simp: IsValid_iff wire_addr_def)
  then have "set (map cp_Addr ret) = \<dots>" by (simp only: addrs)
  moreover have "\<forall>e \<in> set ret. listed sv index (cp_Addr e) e"
    using ret(2) by (auto simp: list_all2_conv_all_nth in_set_conv_nth listed_def)
  moreover have "Client_GetSRPolicyList (\<lambda>raw. GetSRPolicyList env raw sv) a = Inr ret"
    by (simp only: Client_GetSRPolicyList_def raw bindE_simps ret(1))
  moreover have "sorted (map addr_key (map cp_Addr ret))" "distinct (map cp_Addr ret)"
    unfolding addrs using dp by simp_all
  ultimately show ?thesis using index unfolding listed_def by blast
qed

definition sampleQueryEnv :: queryEnv where
  "sampleQueryEnv = \<lparr>ge_now = 0, ge_cspf = \<lambda>_ c. c, ge_nodes = \<lambda>ns. ns, ae_cspf = \<lambda>_ _ c. c,
     qe_sessions = \<lambda>ps. ps, qe_peers = \<lambda>ps. ps, qe_policies = \<lambda>ps. ps\<rparr>"

lemma GetSRPolicyList_roundtrip_witness:
  "\<exists>ret. Client_GetSRPolicyList (\<lambda>raw. GetSRPolicyList sampleQueryEnv raw apiServer) NoAddr = Inr ret \<and>
     set (map cp_Addr ret) = {Addr4 0x0A000001}"
proof -
  have o: "orders_ok sampleQueryEnv" by (simp add: orders_ok_def sampleQueryEnv_def)
  have l: "length (pce_store sampleServer) = 2" "length (pce_store syncedServer) = 2"
    by (simp_all add: sampleServer_def NewPCE_def setTED_def Let_def syncedServer_sessions)
  have t: "tedIntact apiServer"
    using tedIntact_synced by (auto simp: tedIntact_def apiServer_def updateSession_def split: option.splits)
  have s1: "\<not> ss_isSynced (sessionAt apiServer 1)"
  proof -
    have "sessionAt apiServer 1 = sessionAt sampleServer 1"
      by (simp add: apiServer_def syncedServer_def sessionAt_update l)
    then show ?thesis
      by (simp add: sampleServer_def sessionAt_def acceptSession_def NewPCE_def setTED_def sampleOptions_def NewSession_def Let_def)
  qed
  have s0: "ss_isSynced (sessionAt apiServer 0)" "ss_peerAddr (sessionAt apiServer 0) = Addr4 0x0A000001"
    by (simp_all add: apiServer_session syncedServer_sessions handleFinishSynchronization_def NewSession_def)
  have p: "wire_addr (ss_peerAddr (sessionAt apiServer 0)) \<and> list_all policy_wire_ok (ss_srPolicies (sessionAt apiServer 0))"
    using s0(2) by (simp add: wire_addr_def apiServer_session policy_wire_ok_def NewSRPolicy_def)
  have "wire_addr (ss_peerAddr (sessionAt apiServer i)) \<and> list_all policy_wire_ok (ss_srPolicies (sessionAt apiServer i))"
    if "i \<in> set (pce_sessionList apiServer)" "ss_isSynced (sessionAt apiServer i)" for i
    using that s1 p by (auto simp: apiServer_session)
  from GetSRPolicyList_roundtrip [OF o t disjI1 [OF refl] this] obtain ret where
    "Client_GetSRPolicyList (\<lambda>raw. GetSRPolicyList sampleQueryEnv raw apiServer) NoAddr = Inr ret"
    "set (map cp_Addr ret) = {ss_peerAddr (sessionAt apiServer p) |p. p \<in> set (pce_sessionList apiServer) \<and>
      ss_isSynced (sessionAt apiServer p) \<and> (NoAddr = NoAddr \<or> ss_peerAddr (sessionAt apiServer p) = NoAddr)}"
    by blast
  moreover have "{ss_peerAddr (sessionAt apiServer p) |p. p \<in> set (pce_sessionList apiServer) \<and>
      ss_isSynced (sessionAt apiServer p) \<and> (NoAddr = NoAddr \<or> ss_peerAddr (sessionAt apiServer p) = NoAddr)} = {Addr4 0x0A000001}"
    using s0 s1 by (auto simp: apiServer_session(2) intro: exI [where x = "0 :: nat"])
  ultimately show ?thesis by auto
qed

end
