(* ===== verification/Client_Ted.thy ===== *)
theory Client_Ted
  imports Client_Laws Ted_View
begin

text \<open>
  The database the client rebuilds from a \<open>GetTED\<close> response: its view is the view of the server's
  database, up to the empty SIDs and the indices without a Prefix-SID, which the messages leave out.
\<close>

section \<open>What travels\<close>

definition wireLink :: "LsLink \<Rightarrow> LsLink" where
  "wireLink l = l\<lparr>lk_Srv6EndXSID := map_option (\<lambda>x. x\<lparr>ex_Sids := filter (\<lambda>s. s \<noteq> []) (ex_Sids x)\<rparr>) (lk_Srv6EndXSID l)\<rparr>"

definition wirePrefix :: "LsPrefix \<Rightarrow> LsPrefix" where
  "wirePrefix p = p\<lparr>px_SidIndex := (if px_HasSidIndex p then px_SidIndex p else 0)\<rparr>"

definition wireSID :: "LsSrv6SID \<Rightarrow> LsSrv6SID" where
  "wireSID s = s\<lparr>sv_Sids := filter (\<lambda>x. x \<noteq> []) (sv_Sids s)\<rparr>"

definition wireView :: "NodeView \<Rightarrow> NodeView" where
  "wireView v = v\<lparr>vw_Links := map (apsnd wireLink) (vw_Links v), vw_Prefixes := map wirePrefix (vw_Prefixes v),
     vw_SRv6SIDs := map wireSID (vw_SRv6SIDs v)\<rparr>"

definition link_wire_ok :: "LsLink \<Rightarrow> bool" where
  "link_wire_ok l \<longleftrightarrow> list_all (\<lambda>m. mt_Type m \<noteq> UnspecifiedMetric) (lk_Metrics l)"

definition prefix_wire_ok :: "LsPrefix \<Rightarrow> bool" where
  "prefix_wire_ok p \<longleftrightarrow> prefix_IsValid (px_Prefix p) \<and> \<not> hasZone (pfx_Addr (px_Prefix p))"

definition view_wire_ok :: "NodeView \<Rightarrow> bool" where
  "view_wire_ok v \<longleftrightarrow> list_all (link_wire_ok \<circ> snd) (vw_Links v) \<and> list_all prefix_wire_ok (vw_Prefixes v)"

section \<open>One element\<close>

lemma ucast_8_32 [simp]: "ucast (ucast (x :: u8) :: u32) = x"
  by (rule bit_word_eqI) (simp add: bit_simps)

lemma ucast_16_32 [simp]: "ucast (ucast (x :: u16) :: u32) = x"
  by (rule bit_word_eqI) (simp add: bit_simps)

lemma structure_roundtrip [simp]: "structureFromPB (pbStructure s) = s"
  by (cases s) (simp add: structureFromPB_def pbStructure_def)

lemma endX_roundtrip [simp]:
  "createSrv6EndXSID (convertSrv6EndXSID x) = x\<lparr>ex_Sids := filter (\<lambda>s. s \<noteq> []) (ex_Sids x)\<rparr>"
  by (cases x) (simp add: createSrv6EndXSID_def convertSrv6EndXSID_def)

lemma metrics_roundtrip:
  "list_all (\<lambda>m. mt_Type m \<noteq> UnspecifiedMetric) ms \<Longrightarrow> mapE createMetric (convertMetrics ms) = Inr ms"
proof (induction ms)
  case (Cons m ms)
  obtain t v where m: "m = \<lparr>mt_Type = t, mt_Value = v\<rparr>" by (cases m)
  show ?case using Cons
    by (cases t) (auto simp: m convertMetrics_def createMetric_def NewMetric_def MetricType_value_def)
qed (simp add: convertMetrics_def)

definition pbLinkOf :: "heap \<Rightarrow> LsLink \<Rightarrow> pbLsLink" where
  "pbLinkOf h l = projr (buildLsLink h l)"

lemma link_roundtrip:
  assumes "link_wire_ok l" "lk_LocalNode l = Some i" "lk_RemoteNode l = Some j" "i < length h" "j < length h"
  shows "buildLsLink h l = Inr (pbLinkOf h l)"
    "bl_LocalRouterId (pbLinkOf h l) = nd_RouterID (h ! i)" "bl_RemoteRouterId (pbLinkOf h l) = nd_RouterID (h ! j)"
    "createLsLink p q (pbLinkOf h l) = Inr ((wireLink l)\<lparr>lk_LocalNode := p, lk_RemoteNode := q\<rparr>)"
  using assms metrics_roundtrip [of "lk_Metrics l"]
  by (simp_all add: buildLsLink_def createLsLink_def pbLinkOf_def link_wire_ok_def wireLink_def option.map_comp comp_def)

lemma prefix_roundtrip:
  assumes "prefix_wire_ok p"
  shows "createLsPrefix n (convertLsPrefix p) = Inr ((wirePrefix p)\<lparr>px_LocalNode := n\<rparr>)"
  using assms ParsePrefix_String
  by (cases p) (simp add: createLsPrefix_def convertLsPrefix_def prefix_wire_ok_def wirePrefix_def NewLsPrefix_def Let_def)

lemma sid_roundtrip: "createSrv6SID n (buildLsSrv6SID s) = (wireSID s)\<lparr>sv_LocalNode := n\<rparr>"
  by (cases s; cases "sv_EndpointBehavior s")
    (auto simp: createSrv6SID_def buildLsSrv6SID_def wireSID_def NewLsSrv6SID_def EndpointBehavior_zero_def)

section \<open>One node\<close>

text \<open>Adding to the node at index \<open>k\<close>, which the database names \<open>rid\<close>.\<close>

lemma updateNode_run:
  "nodeAt (ted_Nodes t) rid = Some k \<Longrightarrow> k < length h \<Longrightarrow> updateNode rid f (h, t) = Inr (h[k := f (h ! k)], t)"
  by (simp add: updateNode_def storeNode_def)

lemma addLinks_run:
  assumes "nodeAt (ted_Nodes t) rid = Some k" "k < length h"
    and "list_all2 (\<lambda>l l'. createLsLink (nodeAt (ted_Nodes t) (bl_LocalRouterId l)) (nodeAt (ted_Nodes t) (bl_RemoteRouterId l)) l = Inr l') ls ls'"
  shows "addLinks rid ls (h, t) = Inr (h[k := (h ! k)\<lparr>nd_Links := nd_Links (h ! k) @ map Some ls'\<rparr>], t)"
  using assms(3,2)
proof (induction arbitrary: h rule: list_all2_induct)
  case (Cons l ls l' ls')
  then show ?case by (simp add: updateNode_run [OF assms(1)])
qed simp

lemma addPrefixes_run:
  assumes "nodeAt (ted_Nodes t) rid = Some k" "k < length h"
    and "list_all2 (\<lambda>p p'. createLsPrefix (Some k) p = Inr p') ps ps'"
  shows "addPrefixes rid ps (h, t) = Inr (h[k := (h ! k)\<lparr>nd_Prefixes := nd_Prefixes (h ! k) @ map Some ps'\<rparr>], t)"
  using assms(3,2)
proof (induction arbitrary: h rule: list_all2_induct)
  case (Cons p ps p' ps')
  then show ?case by (simp add: updateNode_run [OF assms(1)] assms(1))
qed simp

lemma addSrv6SIDs_run:
  assumes "nodeAt (ted_Nodes t) rid = Some k" "k < length h"
  shows "addSrv6SIDs rid ss (h, t) =
    Inr (h[k := (h ! k)\<lparr>nd_SRv6SIDs := nd_SRv6SIDs (h ! k) @ map (Some \<circ> createSrv6SID (Some k)) ss\<rparr>], t)"
  using assms(2)
proof (induction ss arbitrary: h)
  case (Cons s ss)
  then show ?case by (simp add: updateNode_run [OF assms(1)] assms(1))
qed simp

text \<open>The node the client makes of a node of the server, \<open>nodes\<close> being its own map.\<close>

definition clientLink :: "(string \<times> nodeptr) list \<Rightarrow> heap \<Rightarrow> LsLink \<Rightarrow> LsLink" where
  "clientLink nodes h l = (wireLink l)\<lparr>lk_LocalNode := nodeAt nodes (ptrRouterID h (lk_LocalNode l)),
     lk_RemoteNode := nodeAt nodes (ptrRouterID h (lk_RemoteNode l))\<rparr>"

definition clientNode :: "(string \<times> nodeptr) list \<Rightarrow> heap \<Rightarrow> LsNode \<Rightarrow> LsNode" where
  "clientNode nodes h n = (let p = nodeAt nodes (nd_RouterID n) in
     n\<lparr>nd_Links := map (Some \<circ> clientLink nodes h \<circ> the) (nd_Links n),
       nd_Prefixes := map (\<lambda>x. Some ((wirePrefix (the x))\<lparr>px_LocalNode := p\<rparr>)) (nd_Prefixes n),
       nd_SRv6SIDs := map (\<lambda>x. Some ((wireSID (the x))\<lparr>sv_LocalNode := p\<rparr>)) (nd_SRv6SIDs n)\<rparr>)"

definition bareNode :: "LsNode \<Rightarrow> LsNode" where
  "bareNode n = n\<lparr>nd_Links := [], nd_Prefixes := [], nd_SRv6SIDs := []\<rparr>"

text \<open>The node \<open>initializeLsNodes\<close> allocates for a message.\<close>

definition initialNode :: "pbLsNode \<Rightarrow> LsNode" where
  "initialNode b = (NewLsNode (bn_Asn b) (bn_RouterId b))\<lparr>nd_Hostname := bn_Hostname b,
     nd_IsisAreaID := bn_IsisAreaId b, nd_SrgbBegin := bn_SrgbBegin b, nd_SrgbEnd := bn_SrgbEnd b\<rparr>"

definition pbNodeOf :: "heap \<Rightarrow> LsNode \<Rightarrow> pbLsNode" where
  "pbNodeOf h n = projr (convertLsNode h n)"

lemma somes: "None \<notin> set xs \<Longrightarrow> concat (map (\<lambda>x. case x of None \<Rightarrow> [] | Some y \<Rightarrow> [y]) xs) = map the xs"
proof (induction xs)
  case (Cons x xs)
  then show ?case by (cases x) auto
qed simp

lemma convertLsLinks_run:
  assumes "\<And>l. l \<in> set ls \<Longrightarrow> \<exists>l' i j. l = Some l' \<and> link_wire_ok l' \<and> lk_LocalNode l' = Some i \<and>
      lk_RemoteNode l' = Some j \<and> i < length h \<and> j < length h"
  shows "convertLsLinks h ls = Inr (map (pbLinkOf h \<circ> the) ls)"
  using assms
proof (induction ls)
  case (Cons l ls)
  then obtain l' i j where l: "l = Some l'" "link_wire_ok l'" "lk_LocalNode l' = Some i" "lk_RemoteNode l' = Some j"
      "i < length h" "j < length h" by (meson list.set_intros(1))
  then show ?case using Cons link_roundtrip(1) [OF l(2-6)] by simp
qed simp

lemma node_links:
  assumes "ted_ok asn (h, t)" "node_ok (h, t) i" "i < length h" "view_wire_ok (nodeView h (h ! i))" "l \<in> set (nd_Links (h ! i))"
  obtains l' j where "l = Some l'" "link_wire_ok l'" "lk_LocalNode l' = Some i" "lk_RemoteNode l' = Some j"
    "j < length h" "map_of (ted_Nodes t) (nd_RouterID (h ! j)) = Some (Some j)"
proof -
  obtain l' j where l: "l = Some l'" "lk_LocalNode l' = Some i" "lk_RemoteNode l' = Some j" "j < length h"
      "map_of (ted_Nodes t) (nd_RouterID (h ! j)) = Some (Some j)"
    using node_ok_remote [OF assms(1,2)] assms(5) by auto
  moreover have "link_wire_ok l'"
    using assms(4,5) l(1) by (auto simp: view_wire_ok_def nodeView_def linkView_def plainLink_def link_wire_ok_def list_all_iff)
  ultimately show ?thesis using that by blast
qed

lemma node_roundtrip:
  assumes "ted_ok asn (h, t)" "node_ok (h, t) i" "i < length h" "view_wire_ok (nodeView h (h ! i))"
    and "nodeAt (ted_Nodes u) (nd_RouterID (h ! i)) = Some k" "k < length H" "H ! k = bareNode (h ! i)"
  shows "convertLsNode h (h ! i) = Inr (pbNodeOf h (h ! i))"
    "addLsNode (pbNodeOf h (h ! i)) (H, u) = Inr (H[k := clientNode (ted_Nodes u) h (h ! i)], u)"
    "bn_RouterId (pbNodeOf h (h ! i)) = nd_RouterID (h ! i)" "initialNode (pbNodeOf h (h ! i)) = bareNode (h ! i)"
proof -
  let ?n = "h ! i"
  have links: "convertLsLinks h (nd_Links ?n) = Inr (map (pbLinkOf h \<circ> the) (nd_Links ?n))"
    using node_links [OF assms(1-4)] assms(3) by (intro convertLsLinks_run) metis
  then show 1: "convertLsNode h ?n = Inr (pbNodeOf h ?n)" by (simp add: pbNodeOf_def convertLsNode_def)
  have none: "None \<notin> set (nd_Prefixes ?n)" "None \<notin> set (nd_SRv6SIDs ?n)"
    using assms(2) by (simp_all add: node_ok_def Let_def)
  have pb: "bn_RouterId (pbNodeOf h ?n) = nd_RouterID ?n" "bn_LsLinks (pbNodeOf h ?n) = map (pbLinkOf h \<circ> the) (nd_Links ?n)"
    "bn_LsPrefixes (pbNodeOf h ?n) = map (convertLsPrefix \<circ> the) (nd_Prefixes ?n)"
    "bn_LsSrv6Sids (pbNodeOf h ?n) = map (buildLsSrv6SID \<circ> the) (nd_SRv6SIDs ?n)"
    using links by (simp_all add: pbNodeOf_def convertLsNode_def convertLsPrefixes_def convertLsSrv6SIDs_def somes none)
  show "bn_RouterId (pbNodeOf h ?n) = nd_RouterID ?n" by (rule pb)
  show "initialNode (pbNodeOf h ?n) = bareNode ?n"
    using links by (simp add: pbNodeOf_def convertLsNode_def initialNode_def NewLsNode_def bareNode_def)
  have l: "list_all2 (\<lambda>l l'. createLsLink (nodeAt (ted_Nodes u) (bl_LocalRouterId l)) (nodeAt (ted_Nodes u) (bl_RemoteRouterId l)) l = Inr l')
      (bn_LsLinks (pbNodeOf h ?n)) (map (clientLink (ted_Nodes u) h \<circ> the) (nd_Links ?n))"
    unfolding pb list.rel_map
  proof (rule list.rel_refl_strong)
    fix l assume "l \<in> set (nd_Links ?n)"
    from node_links [OF assms(1-4) this] obtain l' j where l: "l = Some l'" "link_wire_ok l'" "lk_LocalNode l' = Some i"
      "lk_RemoteNode l' = Some j" "j < length h" by metis
    note r = link_roundtrip [OF l(2,3,4) assms(3) l(5)]
    show "createLsLink (nodeAt (ted_Nodes u) (bl_LocalRouterId ((pbLinkOf h \<circ> the) l)))
        (nodeAt (ted_Nodes u) (bl_RemoteRouterId ((pbLinkOf h \<circ> the) l))) ((pbLinkOf h \<circ> the) l) =
      Inr ((clientLink (ted_Nodes u) h \<circ> the) l)"
      by (simp add: l(1,3,4) r clientLink_def ptrRouterID_def)
  qed
  have p: "list_all2 (\<lambda>p p'. createLsPrefix (Some k) p = Inr p') (bn_LsPrefixes (pbNodeOf h ?n))
      (map (\<lambda>x. (wirePrefix (the x))\<lparr>px_LocalNode := Some k\<rparr>) (nd_Prefixes ?n))"
    unfolding pb list.rel_map
  proof (rule list.rel_refl_strong)
    fix x assume x: "x \<in> set (nd_Prefixes ?n)"
    then have "prefix_wire_ok (the x)"
      using assms(4) by (auto simp: view_wire_ok_def nodeView_def plainPrefix_def prefix_wire_ok_def list_all_iff)
    then show "createLsPrefix (Some k) ((convertLsPrefix \<circ> the) x) = Inr ((wirePrefix (the x))\<lparr>px_LocalNode := Some k\<rparr>)"
      by (simp add: prefix_roundtrip)
  qed
  show "addLsNode (pbNodeOf h ?n) (H, u) = Inr (H[k := clientNode (ted_Nodes u) h ?n], u)"
    using assms(6,7)
    by (simp add: addLsNode_def pb(1) addLinks_run [OF assms(5,6) l] addPrefixes_run [OF assms(5) _ p] addSrv6SIDs_run [OF assms(5)])
      (simp add: pb(4) clientNode_def bareNode_def assms(5) comp_def sid_roundtrip Let_def)
qed


section \<open>The whole database\<close>

lemma update_fresh: "k \<notin> fst ` set al \<Longrightarrow> AList.update k v al = al @ [(k, v)]"
  by (induction al) auto

lemma initializeLsNodes_run:
  assumes "distinct (map bn_RouterId pbs)" "set (map bn_RouterId pbs) \<inter> fst ` set (ted_Nodes t) = {}"
  shows "initializeLsNodes (h, t) pbs =
    (h @ map initialNode pbs,
     t\<lparr>ted_Nodes := ted_Nodes t @ zip (map bn_RouterId pbs) (map Some [length h..<length h + length pbs])\<rparr>)"
  using assms
proof (induction pbs arbitrary: h t)
  case (Cons b pbs)
  have "bn_RouterId b \<notin> fst ` set (ted_Nodes t)" using Cons.prems by auto
  moreover have "[length h..<length h + length (b # pbs)] = length h # [Suc (length h)..<Suc (length h) + length pbs]"
    by (subst upt_conv_Cons) simp_all
  ultimately show ?case using Cons by (simp add: Let_def NewLsNode_def initialNode_def update_fresh del: upt_Suc)
qed simp

lemma addLsNodes_run:
  assumes "length nodes = length pbs" "length H = k + length pbs"
    and "\<And>m G. m < length pbs \<Longrightarrow> length G = length H \<Longrightarrow> G ! (k + m) = H ! (k + m) \<Longrightarrow>
        addLsNode (pbs ! m) (G, u) = Inr (G[k + m := nodes ! m], u)"
  shows "addLsNodes pbs (H, u) = Inr (take k H @ nodes, u)"
  using assms
proof (induction pbs arbitrary: nodes H k)
  case (Cons b pbs)
  then obtain n ns where n: "nodes = n # ns" by (cases nodes) auto
  let ?H = "H[k := n]"
  have 1: "addLsNode b (H, u) = Inr (?H, u)" using Cons.prems(3) [of 0 H] by (simp add: n)
  have "addLsNode (pbs ! m) (G, u) = Inr (G[Suc k + m := ns ! m], u)"
    if "m < length pbs" "length G = length ?H" "G ! (Suc k + m) = ?H ! (Suc k + m)" for m G
    using that Cons.prems(3) [of "Suc m" G] by (simp add: n)
  with Cons.IH [of ns ?H "Suc k"] Cons.prems(1,2) have "addLsNodes pbs (?H, u) = Inr (take (Suc k) ?H @ ns, u)"
    by (simp add: n)
  moreover have "take (Suc k) ?H = take k H @ [n]" using Cons.prems(2) by (simp add: take_Suc_conv_app_nth)
  ultimately show ?case by (simp add: 1 n)
qed simp

lemma convertNodes_run:
  assumes "\<And>i. i \<in> set is' \<Longrightarrow> i < length h \<and> convertLsNode h (h ! i) = Inr (pbNodeOf h (h ! i))"
  shows "convertNodes h (map (\<lambda>i. (nd_RouterID (h ! i), Some i)) is') = Inr (map (\<lambda>i. pbNodeOf h (h ! i)) is')"
  using assms by (induction is') auto

text \<open>The entries of a well-formed database, in any order, name distinct indices by their router IDs.\<close>

lemma entries_indices:
  assumes "ted_ok asn (h, t)" "mset ns = mset (ted_Nodes t)"
  obtains is' where "ns = map (\<lambda>i. (nd_RouterID (h ! i), Some i)) is'" "distinct (map (\<lambda>i. nd_RouterID (h ! i)) is')"
    "\<And>i. i \<in> set is' \<longleftrightarrow> map_of (ted_Nodes t) (nd_RouterID (h ! i)) = Some (Some i)"
proof -
  have d: "distinct (map fst (ted_Nodes t))" using assms(1) by (simp add: ted_ok_def)
  have e: "\<exists>i. p = Some i \<and> nd_RouterID (h ! i) = rid" if "(rid, p) \<in> set (ted_Nodes t)" for rid p
    using ted_okD [OF assms(1), of rid p] that d by auto
  have s: "set ns = set (ted_Nodes t)" using assms(2) by (metis set_mset_mset)
  define is' where "is' = map (the \<circ> snd) ns"
  have 1: "ns = map (\<lambda>i. (nd_RouterID (h ! i), Some i)) is'"
    unfolding is'_def map_map by (rule sym, rule map_idI) (use e s in force)
  have "mset (map fst ns) = mset (map fst (ted_Nodes t))" using assms(2) by simp
  then have "distinct (map fst ns)" using d mset_eq_imp_distinct_iff by blast
  then have 2: "distinct (map (\<lambda>i. nd_RouterID (h ! i)) is')" by (subst (asm) 1) (simp add: comp_def)
  have 3: "i \<in> set is' \<longleftrightarrow> map_of (ted_Nodes t) (nd_RouterID (h ! i)) = Some (Some i)" for i
  proof -
    have "i \<in> set is' \<longleftrightarrow> (nd_RouterID (h ! i), Some i) \<in> set ns" by (subst 1) auto
    then show ?thesis using d s by simp
  qed
  show ?thesis using 1 2 3 by (rule that)
qed


lemma ptrRouterID_Some [simp]: "ptrRouterID h (Some i) = nd_RouterID (h ! i)"
  by (simp add: ptrRouterID_def)

text \<open>The client's state when the server's nodes arrive in the order of their indices \<open>is'\<close>.\<close>

definition clientTed :: "heap \<Rightarrow> nat list \<Rightarrow> LsTED" where
  "clientTed h is' = \<lparr>ted_Nodes = zip (map (\<lambda>i. nd_RouterID (h ! i)) is') (map Some [0..<length is'])\<rparr>"

definition clientHeap :: "heap \<Rightarrow> nat list \<Rightarrow> heap" where
  "clientHeap h is' = map (\<lambda>i. clientNode (ted_Nodes (clientTed h is')) h (h ! i)) is'"

lemma clientTed_at:
  assumes "distinct (map (\<lambda>i. nd_RouterID (h ! i)) is')" "m < length is'"
  shows "map_of (ted_Nodes (clientTed h is')) (nd_RouterID (h ! (is' ! m))) = Some (Some m)"
  using map_of_zip_nth [of "map (\<lambda>i. nd_RouterID (h ! i)) is'" "map Some [0..<length is']" m] assms
  by (simp add: clientTed_def)

lemma clientTed_Some:
  assumes "map_of (ted_Nodes (clientTed h is')) rid = Some p"
  shows "\<exists>m < length is'. p = Some m \<and> rid = nd_RouterID (h ! (is' ! m))"
proof -
  have "(rid, p) \<in> set (zip (map (\<lambda>i. nd_RouterID (h ! i)) is') (map Some [0..<length is']))"
    using map_of_SomeD [OF assms] by (simp add: clientTed_def)
  then show ?thesis by (auto simp: set_zip)
qed

lemma Client_GetTED_run:
  assumes "pce_ted sv = Some (h, t)" "ted_ok asn (h, t)" "\<And>rid v. tedViewOf (h, t) rid = Some v \<Longrightarrow> view_wire_ok v"
    and ns: "ge_nodes env (ted_Nodes t) = map (\<lambda>i. (nd_RouterID (h ! i), Some i)) is'"
    and d: "distinct (map (\<lambda>i. nd_RouterID (h ! i)) is')"
    and mem: "\<And>i. i \<in> set is' \<Longrightarrow> map_of (ted_Nodes t) (nd_RouterID (h ! i)) = Some (Some i)"
  shows "Client_GetTED (GetTED env sv) = Inr (clientHeap h is', clientTed h is')"
proof -
  let ?u = "clientTed h is'" and ?pbs = "map (\<lambda>i. pbNodeOf h (h ! i)) is'" and ?H = "map (\<lambda>i. bareNode (h ! i)) is'"
  have node: "i < length h" "node_ok (h, t) i" "view_wire_ok (nodeView h (h ! i))" if "i \<in> set is'" for i
    using ted_okD [OF assms(2), of _ "Some i"] mem [OF that] assms(3) [of "nd_RouterID (h ! i)"] by (auto simp: tedViewOf_def)
  have rt: "convertLsNode h (h ! (is' ! m)) = Inr (pbNodeOf h (h ! (is' ! m)))"
    "addLsNode (?pbs ! m) (F, ?u) = Inr (F[m := clientHeap h is' ! m], ?u)"
    "bn_RouterId (?pbs ! m) = nd_RouterID (h ! (is' ! m))" "initialNode (?pbs ! m) = bareNode (h ! (is' ! m))"
    if m: "m < length is'" and F: "length F = length is'" "F ! m = ?H ! m" for m F
  proof -
    have i: "is' ! m \<in> set is'" using m by simp
    have "nodeAt (ted_Nodes ?u) (nd_RouterID (h ! (is' ! m))) = Some m" using clientTed_at [OF d m] by (simp add: nodeAt_def)
    note r = node_roundtrip [where u = ?u and k = m and H = F, OF assms(2) node(2) [OF i] node(1) [OF i] node(3) [OF i] this]
    from r m F show "convertLsNode h (h ! (is' ! m)) = Inr (pbNodeOf h (h ! (is' ! m)))"
      "addLsNode (?pbs ! m) (F, ?u) = Inr (F[m := clientHeap h is' ! m], ?u)"
      "bn_RouterId (?pbs ! m) = nd_RouterID (h ! (is' ! m))" "initialNode (?pbs ! m) = bareNode (h ! (is' ! m))"
      by (simp_all add: clientHeap_def)
  qed
  have len: "length ?H = length is'" by simp
  have conv: "convertNodes h (ge_nodes env (ted_Nodes t)) = Inr ?pbs"
    unfolding ns using node(1) rt(1) [OF _ len refl] by (intro convertNodes_run) (auto simp: in_set_conv_nth)
  have rids: "map bn_RouterId ?pbs = map (\<lambda>i. nd_RouterID (h ! i)) is'" and init: "map initialNode ?pbs = ?H"
    using rt(3,4) [OF _ len refl] by (simp_all add: list_eq_iff_nth_eq)
  have "initializeLsNodes ([], \<lparr>ted_Nodes = []\<rparr>) ?pbs = (?H, ?u)"
    using initializeLsNodes_run [of ?pbs "\<lparr>ted_Nodes = []\<rparr>" "[]"] d unfolding rids init by (simp add: clientTed_def)
  moreover have "addLsNodes ?pbs (?H, ?u) = Inr (take 0 ?H @ clientHeap h is', ?u)"
    using rt(2) len by (intro addLsNodes_run) (simp_all add: clientHeap_def)
  ultimately show ?thesis
    by (simp add: Client_GetTED_def GetTED_def assms(1) conv)
qed

lemma clientState_view:
  assumes ok: "ted_ok asn (h, t)" and d: "distinct (map (\<lambda>i. nd_RouterID (h ! i)) is')"
    and mem: "\<And>i. i \<in> set is' \<longleftrightarrow> map_of (ted_Nodes t) (nd_RouterID (h ! i)) = Some (Some i)"
    and m: "m < length is'" and G: "G = clientHeap h is'" "u = clientTed h is'"
  shows "entry_ok asn (G, u) (nd_RouterID (h ! (is' ! m))) (Some m)"
    "nodeView G (G ! m) = wireView (nodeView h (h ! (is' ! m)))"
proof -
  let ?i = "is' ! m"
  have i: "?i < length h" "nd_ASN (h ! ?i) = asn" "node_ok (h, t) ?i"
    using ted_okD [OF ok, of _ "Some ?i"] mem [of ?i] m by auto
  have rid: "nd_RouterID (G ! k) = nd_RouterID (h ! (is' ! k))" if "k < length is'" for k
    using that by (simp add: G clientHeap_def clientNode_def Let_def)
  have at: "nodeAt (ted_Nodes u) (nd_RouterID (h ! (is' ! k))) = Some k" if "k < length is'" for k
    using clientTed_at [OF d that] by (simp add: nodeAt_def G)
  have Gm: "G ! m = clientNode (ted_Nodes u) h (h ! ?i)" using m by (simp add: G clientHeap_def)
  have remote: "\<exists>l' k. l = Some l' \<and> lk_LocalNode l' = Some ?i \<and> lk_RemoteNode l' = Some (is' ! k) \<and> k < length is'"
    if "l \<in> set (nd_Links (h ! ?i))" for l
  proof -
    have "l \<in> set (nd_Links (fst (h, t) ! ?i))" using that by simp
    from node_ok_remote [OF ok i(3) this] obtain l' j where "l = Some l'" "lk_LocalNode l' = Some ?i" "lk_RemoteNode l' = Some j"
      "map_of (ted_Nodes t) (nd_RouterID (h ! j)) = Some (Some j)" unfolding fst_conv snd_conv by metis
    moreover from this have "j \<in> set is'" using mem by blast
    ultimately show ?thesis by (auto simp: in_set_conv_nth)
  qed
  have "links_ok (G, u) m (nd_Links (G ! m))"
    unfolding links_ok_def fst_conv snd_conv Gm clientNode_def Let_def list_all_iff
    using remote clientTed_at [OF d] rid at m by (fastforce simp: clientLink_def G)
  moreover have "None \<notin> set (nd_Prefixes (G ! m))" "None \<notin> set (nd_SRv6SIDs (G ! m))"
    by (auto simp: Gm clientNode_def Let_def)
  moreover have "nd_ASN (G ! m) = asn" "m < length G" using i(2) m by (simp_all add: G clientHeap_def clientNode_def Let_def)
  ultimately show "entry_ok asn (G, u) (nd_RouterID (h ! ?i)) (Some m)"
    using rid [OF m] by (simp add: entry_ok_def node_ok_alt)
  have "linkView G (Some (clientLink (ted_Nodes u) h (the l))) = apsnd wireLink (linkView h l)" if "l \<in> set (nd_Links (h ! ?i))" for l
    using remote [OF that] at rid by (auto simp: linkView_def clientLink_def plainLink_def wireLink_def)
  then show "nodeView G (G ! m) = wireView (nodeView h (h ! ?i))"
    by (simp add: Gm nodeView_def wireView_def clientNode_def Let_def plainPrefix_def plainSID_def wirePrefix_def wireSID_def)
qed

lemma GetTED_served:
  assumes "pce_ted sv = Some st" "ted_ok asn st" "orders_ok env" "\<And>rid v. tedViewOf st rid = Some v \<Longrightarrow> view_wire_ok v"
  shows "\<exists>st'. Client_GetTED (GetTED env sv) = Inr st' \<and> ted_ok asn st' \<and>
    (\<forall>rid. tedViewOf st' rid = map_option wireView (tedViewOf st rid))"
proof -
  obtain h t where st: "st = (h, t)" by (cases st)
  have ok: "ted_ok asn (h, t)" using assms(2) st by simp
  have "mset (ge_nodes env (ted_Nodes t)) = mset (ted_Nodes t)" using assms(3) by (simp add: orders_ok_def)
  from entries_indices [OF ok this] obtain is' where
    ns: "ge_nodes env (ted_Nodes t) = map (\<lambda>i. (nd_RouterID (h ! i), Some i)) is'"
    and d: "distinct (map (\<lambda>i. nd_RouterID (h ! i)) is')"
    and mem: "\<And>i. i \<in> set is' \<longleftrightarrow> map_of (ted_Nodes t) (nd_RouterID (h ! i)) = Some (Some i)" by blast
  let ?st = "(clientHeap h is', clientTed h is')"
  have run: "Client_GetTED (GetTED env sv) = Inr ?st"
    using Client_GetTED_run [OF _ ok _ ns d] assms(1,4) mem by (simp add: st)
  note view = clientState_view [OF ok d mem _ refl refl]
  have "distinct (map fst (ted_Nodes (clientTed h is')))" using d by (simp add: clientTed_def)
  moreover have "entry_ok asn ?st rid p" if "map_of (ted_Nodes (clientTed h is')) rid = Some p" for rid p
    using clientTed_Some [OF that] view(1) by blast
  ultimately have "ted_ok asn ?st" by (simp add: ted_ok_def)
  moreover have "tedViewOf ?st rid = map_option wireView (tedViewOf st rid)" for rid
  proof (cases "map_of (ted_Nodes t) rid")
    case None
    then have "map_of (ted_Nodes (clientTed h is')) rid = None"
      using clientTed_Some [of h is' rid] mem by (cases "map_of (ted_Nodes (clientTed h is')) rid") (auto dest: nth_mem)
    then show ?thesis by (simp add: tedViewOf_def st None)
  next
    case (Some p)
    then obtain i where i: "p = Some i" "nd_RouterID (h ! i) = rid" using ted_okD [OF ok, of rid p] by auto
    then obtain m where m: "m < length is'" "is' ! m = i" using mem [of i] Some by (auto simp: in_set_conv_nth)
    then show ?thesis using view(2) [OF m(1)] clientTed_at [OF d m(1)] Some i by (simp add: tedViewOf_def st)
  qed
  ultimately show ?thesis using run by blast
qed

text \<open>
  A client that asks for the database gets one with the server's view: every node, with its links,
  prefixes and SIDs in order, and well-formed, whatever the order in which the server sends the nodes.
\<close>

theorem GetTED_roundtrip:
  assumes "pce_ted sv = Some st" "ted_ok asn st" "orders_ok env"
    and "\<And>rid v. tedViewOf st rid = Some v \<Longrightarrow> view_wire_ok v"
  shows "\<exists>st'. Client_GetTED (GetTED env sv) = Inr st' \<and> ted_ok asn st' \<and>
    (\<forall>rid. tedViewOf st' rid = map_option wireView (tedViewOf st rid))"
  using assms by (rule GetTED_served)


text \<open>Two routers that share a link, the second with a prefix.\<close>

definition wireSampleState :: tedState where
  "wireSampleState =
     ([(NewLsNode 65000 ''A'')\<lparr>nd_Links := [Some ((NewLsLink (Some 0) (Some 1))\<lparr>lk_Metrics := [NewMetric IGPMetric 10]\<rparr>)]\<rparr>,
       (NewLsNode 65000 ''B'')\<lparr>nd_Prefixes := [Some ((NewLsPrefix (Some 1))\<lparr>px_Prefix := \<lparr>pfx_Addr = Addr4 1, pfx_Bits = 32\<rparr>\<rparr>)]\<rparr>],
      \<lparr>ted_Nodes = [(''A'', Some 0), (''B'', Some 1)]\<rparr>)"

lemma GetTED_roundtrip_witness:
  "\<exists>st'. Client_GetTED (GetTED sampleQueryEnv (sampleServer\<lparr>pce_ted := Some wireSampleState\<rparr>)) = Inr st' \<and>
     (\<forall>rid. tedViewOf st' rid = map_option wireView (tedViewOf wireSampleState rid))"
proof -
  have 1: "pce_ted (sampleServer\<lparr>pce_ted := Some wireSampleState\<rparr>) = Some wireSampleState" by simp
  have 2: "ted_ok 65000 wireSampleState"
    by (simp add: ted_ok_def wireSampleState_def entry_ok_def node_ok_def NewLsNode_def NewLsLink_def)
  have 3: "orders_ok sampleQueryEnv" by (simp add: orders_ok_def sampleQueryEnv_def)
  have 4: "view_wire_ok v" if "tedViewOf wireSampleState rid = Some v" for rid v
    using that by (auto simp: tedViewOf_def wireSampleState_def nodeView_def linkView_def view_wire_ok_def link_wire_ok_def
        prefix_wire_ok_def prefix_IsValid_def plainLink_def plainPrefix_def NewLsLink_def NewLsNode_def NewMetric_def
        split: if_splits)
  from GetTED_roundtrip [OF 1 2 3] 4 show ?thesis by blast
qed

end
