(* ===== verification/Bgp_Laws.thy ===== *)
theory Bgp_Laws
  imports Bgp_Ls Client_Ted
begin

text \<open>
  The import builds what the database and the API expect: every pointer leads into the heap, nodes are
  new, metrics have a type and prefixes are valid; so an import can always be published and served.
\<close>

section \<open>Addresses and prefixes that parse\<close>

lemma ParseAddr_valid: "ParseAddr s = Inr a \<Longrightarrow> IsValid a"
proof -
  have "IsValid b" if "parseIPv6 s = Inr b" for b
    using that by (auto simp: parseIPv6_def Let_def parseAddrError_def bindE_eq_Inr split: if_splits prod.splits)
  moreover assume "ParseAddr s = Inr a"
  ultimately show ?thesis
    by (auto simp: ParseAddr_def parseAddrError_def AddrFrom4_def bindE_eq_Inr split: list.splits if_splits)
qed

lemma ParsePrefix_valid:
  assumes "ParsePrefix s = Inr p"
  shows "prefix_IsValid p \<and> \<not> hasZone (pfx_Addr p)"
proof -
  obtain ip b where p: "p = \<lparr>pfx_Addr = ip, pfx_Bits = b\<rparr>" "IsValid ip" "\<not> hasZone ip" "0 \<le> b" "b \<le> (if Is6 ip then 128 else 32)"
    using assms ParseAddr_valid
    by (auto simp: ParsePrefix_def parsePrefixError_def Let_def bindE_eq_Inr split: if_splits sum.splits)
  then show ?thesis by (cases ip) (auto simp: prefix_IsValid_def)
qed

section \<open>Elements\<close>

fun elem_wire_ok :: "TEDElem \<Rightarrow> bool" where
  "elem_wire_ok (ElemLink l) = link_wire_ok l"
| "elem_wire_ok (ElemPrefix p) = prefix_wire_ok p"
| "elem_wire_ok _ = True"

lemma elem_ok_append: "elem_ok h e \<Longrightarrow> elem_ok (h @ ns) e"
  by (cases e) (auto simp: ptr_ok_def nth_append split: option.splits)

lemma nodePtrs_less: "elem_ok h e \<Longrightarrow> i \<in> set (nodePtrs e) \<Longrightarrow> i < length h"
  by (induction e rule: nodePtrs.induct) (auto simp: ptr_ok_def)

text \<open>What each conversion does to the heap: it allocates, and its elements point to what is there then.\<close>

definition imported :: "heap \<Rightarrow> TEDElem list \<Rightarrow> heap \<Rightarrow> bool" where
  "imported h es h' \<longleftrightarrow> (\<exists>ns. h' = h @ ns) \<and> list_all (elem_ok h') es \<and> list_all elem_wire_ok es \<and>
     distinct (concat (map nodePtrs es)) \<and> (\<forall>i \<in> set (concat (map nodePtrs es)). length h \<le> i)"

lemma imported_Nil [simp]: "imported h [] h"
  by (simp add: imported_def)

lemma imported_append:
  assumes "imported h es h1" "imported h1 es' h2"
  shows "imported h (es @ es') h2"
proof -
  obtain ns ns' where h: "h1 = h @ ns" "h2 = h1 @ ns'" using assms by (auto simp: imported_def)
  have "list_all (elem_ok h1) es" using assms(1) by (simp add: imported_def)
  then have "list_all (elem_ok h2) es" unfolding h(2) by (auto simp: list_all_iff intro: elem_ok_append)
  moreover have "i < length h1" if "i \<in> set (concat (map nodePtrs es))" for i
    using that assms(1) nodePtrs_less by (auto simp: imported_def list_all_iff)
  ultimately show ?thesis using assms h by (fastforce simp: imported_def)
qed

lemma imported_Cons: "imported h [e] h1 \<Longrightarrow> imported h1 es h2 \<Longrightarrow> imported h (e # es) h2"
  using imported_append [of h "[e]"] by simp

lemma wrapE_Inr [simp]: "wrapE s m = Inr x \<longleftrightarrow> m = Inr x"
  by (auto simp: wrapE_def split: sum.splits failure.splits)

lemma bare_new [simp]: "bare (NewLsNode asn rid)"
  by (simp add: bare_def NewLsNode_def)

lemma getLsNode_imported: "getLsNode nlri attr h = Inr (p, h') \<Longrightarrow> imported h [ElemNode p] h'"
  by (auto simp: getLsNode_def Let_def allocNode_def imported_def ptr_ok_def bare_def NewLsNode_def nth_append
      split: option.splits list.splits prod.splits)

lemma getLsLink_imported: "getLsLink nlri attr h = Inr (l, h') \<Longrightarrow> imported h [ElemLink l] h'"
  by (auto simp: getLsLink_def Let_def allocNode_def imported_def ptr_ok_def link_wire_ok_def NewLsLink_def NewMetric_def
      bindE_eq_Inr)

lemma getLsPrefix_imported: "getLsPrefix nlri attr h = Inr (p, h') \<Longrightarrow> imported h [ElemPrefix p] h'"
  by (clarsimp simp: getLsPrefix_def Let_def allocNode_def bindE_eq_Inr split: prod.splits option.splits)
    (auto simp: imported_def ptr_ok_def prefix_wire_ok_def NewLsPrefix_def ParsePrefix_valid
      split: list.splits sum.splits)

lemma getLsSrv6SID_imported: "getLsSrv6SID nlri attr h = Inr (s, h') \<Longrightarrow> imported h [ElemSrv6SID s] h'"
  by (auto simp: getLsSrv6SID_def Let_def allocNode_def imported_def ptr_ok_def NewLsSrv6SID_def split: option.splits)

lemma getLsPrefixList_imported: "getLsPrefixList nlris attr h = Inr (es, h') \<Longrightarrow> imported h es h'"
  by (induction nlris arbitrary: h es) (auto simp: bindE_eq_Inr intro!: imported_Cons getLsPrefix_imported)

lemma getLsSrv6SIDList_imported: "getLsSrv6SIDList nlris attr h = Inr (es, h') \<Longrightarrow> imported h es h'"
  by (induction nlris arbitrary: h es) (auto simp: bindE_eq_Inr intro!: imported_Cons getLsSrv6SID_imported)

lemma convertByNlriType_imported: "convertByNlriType nlri attr path h = Inr (es, h') \<Longrightarrow> imported h es h'"
  by (auto simp: convertByNlriType_def convertNode_def convertLink_def convertPrefix_def convertSrv6SID_def bindE_eq_Inr
      split: bgLsNLRIType.splits option.splits
      intro: getLsNode_imported getLsLink_imported getLsPrefixList_imported getLsSrv6SIDList_imported)

lemma ConvertToTEDElem_imported: "ConvertToTEDElem dst h = Inr (es, h') \<Longrightarrow> imported h es h'"
  by (auto simp: ConvertToTEDElem_def split: list.splits option.splits intro: convertByNlriType_imported)

lemma recvDestinations_imported: "recvDestinations dsts e h = Inr (es, h') \<Longrightarrow> imported h es h'"
  by (induction dsts e h arbitrary: es rule: recvDestinations.induct)
    (auto simp: bindE_eq_Inr intro: imported_append ConvertToTEDElem_imported)


lemma GetBGPlsNLRIs_imported: "GetBGPlsNLRIs listPath h = Inr (es, h') \<Longrightarrow> imported h es h'"
  by (auto simp: GetBGPlsNLRIs_def bindE_eq_Inr intro: recvDestinations_imported)

section \<open>What the database holds after an import\<close>

lemma viewNode_wire: "\<forall>rid v. m rid = Some v \<longrightarrow> view_wire_ok v \<Longrightarrow> view_wire_ok (viewNode asn m rid)"
  by (auto simp: viewNode_def emptyView_def view_wire_ok_def split: option.split)

lemma view_wire_ok_plain [simp]: "link_wire_ok (plainLink l) = link_wire_ok l" "prefix_wire_ok (plainPrefix p) = prefix_wire_ok p"
  by (simp_all add: link_wire_ok_def plainLink_def prefix_wire_ok_def plainPrefix_def)

lemma upd_wire: "\<forall>rid v. m rid = Some v \<longrightarrow> view_wire_ok v \<Longrightarrow> view_wire_ok w \<Longrightarrow>
    \<forall>rid v. (m(r \<mapsto> w)) rid = Some v \<longrightarrow> view_wire_ok v"
  by simp

lemma view_update_wire:
  assumes m: "\<forall>rid v. m rid = Some v \<longrightarrow> view_wire_ok v" and "elem_wire_ok e"
  shows "\<forall>rid v. view_update h asn m e rid = Some v \<longrightarrow> view_wire_ok v"
proof (cases e)
  case (ElemNode p)
  then show ?thesis using m viewNode_wire [OF m] by (auto simp: Let_def view_wire_ok_def)
next
  case (ElemLink l)
  let ?a = "nd_RouterID (h ! the (lk_LocalNode l))" and ?b = "nd_RouterID (h ! the (lk_RemoteNode l))"
  let ?m1 = "m(?a \<mapsto> viewNode asn m ?a)"
  let ?m2 = "?m1(?b \<mapsto> viewNode asn ?m1 ?b)"
  note 1 = upd_wire [OF m viewNode_wire [OF m], of ?a asn ?a]
  note 2 = upd_wire [OF 1 viewNode_wire [OF 1], of ?b asn ?b]
  have "view_wire_ok (v\<lparr>vw_Links := vw_Links v @ [(b, plainLink l)]\<rparr>)" if "view_wire_ok v" for v b
    using that assms(2) ElemLink by (simp add: view_wire_ok_def)
  note 3 = upd_wire [OF 2 this [OF viewNode_wire [OF 2]]]
  show ?thesis unfolding ElemLink view_update.simps Let_def using m 3 [of ?a asn ?a ?b] by (simp only: split: if_split) blast
next
  case (ElemPrefix p)
  have "view_wire_ok (v\<lparr>vw_Prefixes := vw_Prefixes v @ [plainPrefix p]\<rparr>)" if "view_wire_ok v" for v
    using that assms(2) ElemPrefix by (simp add: view_wire_ok_def)
  then show ?thesis using m viewNode_wire [OF m] ElemPrefix by (simp add: Let_def)
next
  case (ElemSrv6SID s)
  then show ?thesis using m viewNode_wire [OF m] by (auto simp: Let_def view_wire_ok_def)
qed

lemma foldl_view_wire:
  assumes "\<forall>rid v. m rid = Some v \<longrightarrow> view_wire_ok v" "list_all elem_wire_ok es"
  shows "\<forall>rid v. foldl (view_update h asn) m es rid = Some v \<longrightarrow> view_wire_ok v"
  using assms
proof (induction es arbitrary: m)
  case (Cons e es)
  then have "\<forall>rid v. view_update h asn m e rid = Some v \<longrightarrow> view_wire_ok v" by (intro view_update_wire) simp_all
  with Cons show ?case by simp
qed simp

lemma update_published:
  assumes "imported [] es h"
  shows "\<exists>st. updateTED h es sv = Inr (setTED st sv) \<and> ted_ok (pce_asn sv) st \<and>
    tedViewOf st = foldl (view_update h (pce_asn sv)) Map.empty es \<and> (\<forall>rid v. tedViewOf st rid = Some v \<longrightarrow> view_wire_ok v)"
proof -
  have "sim (pce_asn sv) h {} (h, emptyTED)" by (simp add: sim_def ted_ok_def emptyTED_def)
  from LsTED_Update_sim [OF this, of es] obtain st where st: "LsTED_Update es (pce_asn sv) (h, emptyTED) = Inr st"
      "ted_ok (pce_asn sv) st" "tedViewOf st = foldl (view_update h (pce_asn sv)) (tedViewOf (h, emptyTED)) es"
    using assms by (auto simp: imported_def)
  moreover have "tedViewOf (h, emptyTED) = Map.empty" by (rule ext) (simp add: tedViewOf_def emptyTED_def)
  moreover have "\<forall>rid v. foldl (view_update h (pce_asn sv)) Map.empty es rid = Some v \<longrightarrow> view_wire_ok v"
    using assms by (intro foldl_view_wire) (simp_all add: imported_def)
  ultimately show ?thesis by (intro exI [where x = st]) (simp add: updateTED_def emptyTED_def)
qed

text \<open>
  C16: Every import is well-formed: the old nodes stay where they are, every pointer of an element leads to a
  node, node elements are new and share nothing, metrics have a type, prefixes are valid and without zone.
\<close>

theorem import_wellformed:
  assumes "GetBGPlsNLRIs listPath h = Inr (es, h')"
  shows "take (length h) h' = h \<and> list_all (elem_ok h') es \<and> distinct (concat (map nodePtrs es)) \<and>
    list_all (\<lambda>e. case e of
        ElemLink l \<Rightarrow> list_all (\<lambda>m. mt_Type m \<noteq> UnspecifiedMetric) (lk_Metrics l)
      | ElemPrefix p \<Rightarrow> prefix_IsValid (px_Prefix p) \<and> \<not> hasZone (pfx_Addr (px_Prefix p))
      | _ \<Rightarrow> True) es"
proof -
  have i: "imported h es h'" using assms by (rule GetBGPlsNLRIs_imported)
  moreover have "list_all (\<lambda>e. case e of
        ElemLink l \<Rightarrow> list_all (\<lambda>m. mt_Type m \<noteq> UnspecifiedMetric) (lk_Metrics l)
      | ElemPrefix p \<Rightarrow> prefix_IsValid (px_Prefix p) \<and> \<not> hasZone (pfx_Addr (px_Prefix p))
      | _ \<Rightarrow> True) es"
    using i unfolding imported_def list_all_iff
    by (auto simp: link_wire_ok_def prefix_wire_ok_def list_all_iff split: TEDElem.split)
  ultimately show ?thesis by (auto simp: imported_def)
qed

text \<open>
  C2: From BGP-LS to the client: whatever an import delivers, the server publishes it, and a client that asks
  gets the database that the elements of the import describe, one after the other.
\<close>

theorem import_to_client:
  assumes "GetBGPlsNLRIs listPath [] = Inr (es, h)" "orders_ok env"
  shows "\<exists>sv' st'. updateTED h es sv = Inr sv' \<and> Client_GetTED (GetTED env sv') = Inr st' \<and> ted_ok (pce_asn sv) st' \<and>
    (\<forall>rid. tedViewOf st' rid = map_option wireView (foldl (view_update h (pce_asn sv)) Map.empty es rid))"
proof -
  from update_published [OF GetBGPlsNLRIs_imported [OF assms(1)], of sv] obtain st where
    st: "updateTED h es sv = Inr (setTED st sv)" "ted_ok (pce_asn sv) st"
      "tedViewOf st = foldl (view_update h (pce_asn sv)) Map.empty es" "\<forall>rid v. tedViewOf st rid = Some v \<longrightarrow> view_wire_ok v"
    by blast
  from GetTED_served [of "setTED st sv" st, OF _ st(2) assms(2)] st(4) obtain st' where
    "Client_GetTED (GetTED env (setTED st sv)) = Inr st'" "ted_ok (pce_asn sv) st'"
    "\<forall>rid. tedViewOf st' rid = map_option wireView (tedViewOf st rid)"
    by (auto simp: setTED_def)
  with st show ?thesis by (intro exI [where x = "setTED st sv"] exI [where x = st']) simp
qed

section \<open>Panics of the import\<close>

text \<open>The NLRIs of the MP_REACH attribute that the prefix and SID conversions go through.\<close>

fun nlri_present :: "bgNLRI \<Rightarrow> bool" where
  "nlri_present None = False"
| "nlri_present (Some p) = (ba_Nlri p \<noteq> None)"

definition link_state :: "bgPath \<Rightarrow> bool" where
  "link_state path \<longleftrightarrow> (case findMpReach (bg_Pattrs path) of None \<Rightarrow> True
     | Some nlris \<Rightarrow> list_all nlri_present nlris)"

lemma wrapE_panic [simp]: "wrapE s m = panic \<longleftrightarrow> m = panic"
  by (auto simp: wrapE_def split: sum.splits failure.splits)

lemma errorf_no_panic: "errorf s xs \<noteq> panic" by simp

lemma getLsNode_no_panic: "getLsNode nlri attr h \<noteq> panic"
  by (auto simp: getLsNode_def Let_def split: option.splits list.splits prod.splits)

lemma parseLinkAddr_no_panic: "parseLinkAddr side a b \<noteq> panic"
  by (auto simp: parseLinkAddr_def split: sum.splits)

lemma getLsLink_no_panic: "getLsLink nlri attr h \<noteq> panic"
  using parseLinkAddr_no_panic by (auto simp: getLsLink_def Let_def allocNode_def bindE_eq_Inl)

lemma getLsPrefix_panic: "getLsPrefix nlri attr h = panic \<longleftrightarrow> \<not> nlri_present nlri"
  by (cases nlri) (auto simp: getLsPrefix_def Let_def allocNode_def bindE_eq_Inl split: prod.splits option.splits list.splits sum.splits bgLsNLRI.splits)

lemma getLsSrv6SID_panic: "getLsSrv6SID nlri attr h = panic \<longleftrightarrow> nlri = None"
  by (auto simp: getLsSrv6SID_def Let_def allocNode_def split: option.splits)

lemma getLsPrefixList_no_panic:
  "list_all nlri_present nlris \<Longrightarrow> getLsPrefixList nlris attr h \<noteq> panic"
  by (induction nlris arbitrary: h) (auto simp: bindE_eq_Inl getLsPrefix_panic)

lemma getLsSrv6SIDList_no_panic:
  "list_all nlri_present nlris \<Longrightarrow> getLsSrv6SIDList nlris attr h \<noteq> panic"
  by (induction nlris arbitrary: h) (auto simp: bindE_eq_Inl getLsSrv6SID_panic elim: nlri_present.elims)

lemma ConvertToTEDElem_no_panic:
  assumes "list_all link_state dst"
  shows "ConvertToTEDElem dst h \<noteq> panic"
  using assms
  by (auto simp: ConvertToTEDElem_def convertByNlriType_def convertNode_def convertLink_def convertPrefix_def
      convertSrv6SID_def link_state_def bindE_eq_Inl getLsNode_no_panic getLsLink_no_panic
      getLsPrefixList_no_panic getLsSrv6SIDList_no_panic split: list.splits option.splits bgLsNLRIType.splits)

text \<open>
  The import does not panic, whatever else the messages hold or leave out, as long as every NLRI of an
  MP_REACH attribute is a link-state NLRI with a body.
\<close>

theorem import_no_panic:
  assumes "list_all (list_all link_state) dsts"
  shows "GetBGPlsNLRIs (Inr (dsts, e)) h \<noteq> panic"
proof -
  have "recvDestinations dsts e h \<noteq> panic"
    using assms by (induction dsts e h rule: recvDestinations.induct) (auto simp: bindE_eq_Inl ConvertToTEDElem_no_panic)
  then show ?thesis by (simp add: GetBGPlsNLRIs_def)
qed


section \<open>Witnesses\<close>

text \<open>A node, a link from it, and the prefix of its loopback.\<close>

definition sampleDescriptor :: "string \<Rightarrow> bgNodeDescriptor option" where
  "sampleDescriptor rid = Some \<lparr>bd_Asn = 65000, bd_IgpRouterId = rid\<rparr>"

definition samplePrefix :: prefix where
  "samplePrefix = \<lparr>pfx_Addr = Addr4 0x01020304, pfx_Bits = 32\<rparr>"

definition samplePrefixNLRI :: bgNLRI where
  "samplePrefixNLRI = Some \<lparr>ba_Type = LS_NLRI_TYPE_PREFIX_V4, ba_Nlri = Some (LsNLRI_PrefixV4
     \<lparr>bj_LocalNode = sampleDescriptor ''A'', bj_IpReachability = Some [prefix_String samplePrefix]\<rparr>)\<rparr>"

definition noAttribute :: bgLsAttribute where
  "noAttribute = \<lparr>bg_Node = None, bg_Link = None, bg_Prefix = None, bg_Srv6Sid = None\<rparr>"

definition sampleDestinations :: "bgDestination list" where
  "sampleDestinations =
     [[\<lparr>bg_Nlri = Some (Some \<lparr>ba_Type = LS_NLRI_TYPE_NODE, ba_Nlri = Some (LsNLRI_Node (sampleDescriptor ''A''))\<rparr>),
        bg_Pattrs = [Attribute_Ls (noAttribute\<lparr>bg_Node := Some
          \<lparr>by_IsisArea = [0x49, 0, 1], by_Name = ''a'', by_SrRanges = Some [(16000, 24000)]\<rparr>\<rparr>)]\<rparr>],
      [\<lparr>bg_Nlri = Some (Some \<lparr>ba_Type = LS_NLRI_TYPE_LINK, ba_Nlri = Some (LsNLRI_Link
          \<lparr>bi_LocalNode = sampleDescriptor ''A'', bi_RemoteNode = sampleDescriptor ''B'', bi_LinkDescriptor = None\<rparr>)\<rparr>),
        bg_Pattrs = [Attribute_Ls (noAttribute\<lparr>bg_Link := Some
          \<lparr>bw_IgpMetric = 10, bw_DefaultTeMetric = 0, bw_UnidirectionalLinkDelay = 5, bw_SrAdjacencySid = 24001,
           bw_Srv6EndXSid = None\<rparr>\<rparr>)]\<rparr>],
      [\<lparr>bg_Nlri = Some samplePrefixNLRI,
        bg_Pattrs = [Attribute_MpReach [samplePrefixNLRI], Attribute_Ls (noAttribute\<lparr>bg_Prefix := Some
          \<lparr>bo_SrPrefixSids = [], bo_SrPrefixSid = 1\<rparr>\<rparr>)]\<rparr>]]"

definition sampleImport :: "(TEDElem list \<times> heap) result" where
  "sampleImport = Inr
     ([ElemNode (Some 0),
       ElemLink ((NewLsLink (Some 1) (Some 2))\<lparr>lk_Metrics := [NewMetric IGPMetric 10, NewMetric DelayMetric 5], lk_AdjSid := 24001\<rparr>),
       ElemPrefix ((NewLsPrefix (Some 3))\<lparr>px_Prefix := samplePrefix, px_SidIndex := 1,
         px_HasSidIndex := True\<rparr>)],
      [(NewLsNode 65000 ''A'')\<lparr>nd_IsisAreaID := ''49.0001'', nd_Hostname := ''a'', nd_SrgbBegin := 16000, nd_SrgbEnd := 24000\<rparr>,
       NewLsNode 65000 ''A'', NewLsNode 65000 ''B'', NewLsNode 65000 ''A''])"

lemma sample_parses: "ParsePrefix (prefix_String samplePrefix) = Inr samplePrefix"
  by (rule ParsePrefix_String) (simp_all add: samplePrefix_def prefix_IsValid_def)

lemma sample_area: "formatIsisAreaID [0x49, 0, 1] = ''49.0001''"
  by code_simp

lemma sample_imported: "GetBGPlsNLRIs (Inr (sampleDestinations, None)) [] = sampleImport"
  by (simp add: GetBGPlsNLRIs_def sampleDestinations_def ConvertToTEDElem_def convertByNlriType_def convertNode_def
      convertLink_def convertPrefix_def noAttribute_def getLsNode_def getLsLink_def getLsPrefix_def allocNode_def
      sampleDescriptor_def samplePrefixNLRI_def algo0PrefixSID_def parseLinkAddr_def get_def Let_def sample_parses
      sample_area sampleImport_def wrapE_def NewLsLink_def NewLsPrefix_def)

lemma import_wellformed_witness:
  "distinct (concat (map nodePtrs (fst (projr sampleImport)))) \<and> list_all (elem_ok (snd (projr sampleImport))) (fst (projr sampleImport))"
  using import_wellformed [of "Inr (sampleDestinations, None)" "[]" "fst (projr sampleImport)" "snd (projr sampleImport)"] sample_imported
  by (simp add: sampleImport_def)

lemma import_to_client_witness:
  "\<exists>sv' st'. updateTED (snd (projr sampleImport)) (fst (projr sampleImport)) sampleServer = Inr sv' \<and>
     Client_GetTED (GetTED sampleQueryEnv sv') = Inr st'"
proof -
  have 1: "GetBGPlsNLRIs (Inr (sampleDestinations, None)) [] = Inr (fst (projr sampleImport), snd (projr sampleImport))"
    using sample_imported by (simp add: sampleImport_def)
  have 2: "orders_ok sampleQueryEnv" by (simp add: orders_ok_def sampleQueryEnv_def)
  from import_to_client [OF 1 2, of sampleServer] show ?thesis by blast
qed

lemma import_no_panic_witness: "GetBGPlsNLRIs (Inr (sampleDestinations, None)) [] \<noteq> panic"
  by (rule import_no_panic) (simp add: sampleDestinations_def link_state_def samplePrefixNLRI_def)

end
