(* ===== verification/Cli.thy ===== *)
theory Cli
  imports Api
begin

text \<open>
  The commands \<open>pola sr-policy add\<close>, \<open>pola sr-policy delete\<close> and \<open>pola session delete\<close>
  (\<open>src/cmd/pola/sr_policy_add.go\<close>, \<open>sr_policy_delete.go\<close>, \<open>session_delete.go\<close>): from a decoded YAML
  document or an argument to the request, and from the answer to what is printed. The YAML decoder and
  the gRPC runtime are not under \<open>src/\<close>: the document is an argument, and so is the call, which answers
  with a status, a code and a message, or with success.
\<close>

section \<open>Input\<close>

record cliSegment =
  yg_SID :: string
  yg_LocalAddr :: string
  yg_RemoteAddr :: string
  yg_SIDStructure :: string

record cliWaypoint =
  yw_RouterID :: string
  yw_SID :: string

record cliSRPolicy =
  yp_PCEPSessionAddr :: addr
  yp_SrcAddr :: addr
  yp_DstAddr :: addr
  yp_SrcRouterID :: string
  yp_DstRouterID :: string
  yp_Name :: string
  yp_SegmentList :: "cliSegment list"
  yp_Color :: u32
  yp_Type :: string
  yp_Metric :: string
  yp_Waypoints :: "cliWaypoint list"

record InputFormat =
  yi_SRPolicy :: cliSRPolicy
  yi_ASN :: u32

text \<open>An error of the command itself, or the status of a call.\<close>

datatype cliError = CliError string | Status (status_code: string) (status_message: string)

type_synonym 'a cli = "cliError + 'a"

abbreviation cliError :: "string \<Rightarrow> 'a cli" where
  "cliError s \<equiv> Inl (CliError s)"

type_synonym 'req call = "'req \<Rightarrow> cliError + unit"

text \<open>The texts of the usage examples are left out of the messages.\<close>

abbreviation (input) invalidInput :: string where "invalidInput \<equiv> ''invalid input''"

section \<open>sr-policy add\<close>

definition cliSegmentToPB :: "cliSegment \<Rightarrow> pbSegment" where
  "cliSegmentToPB s = \<lparr>ps_Sid = yg_SID s, ps_SidStructure = yg_SIDStructure s, ps_LocalAddr = yg_LocalAddr s,
     ps_RemoteAddr = yg_RemoteAddr s\<rparr>"

text \<open>The request of \<open>addSRPolicyWithEndpointAddr\<close>.\<close>

definition endpointAddrRequest :: "InputFormat \<Rightarrow> bool \<Rightarrow> CreateSRPolicyRequest cli" where
  "endpointAddrRequest input noSIDValidate =
     (let p = yi_SRPolicy input in
      if yp_Type p \<noteq> [] \<and> yp_Type p \<noteq> ''explicit''
      then cliError ''the srcAddr / dstAddr form supports `type: explicit` only''
      else if yp_Metric p \<noteq> [] \<or> yp_Waypoints p \<noteq> []
      then cliError ''`metric` and `waypoints` require a dynamic path, which the srcAddr / dstAddr form does not support''
      else if \<not> IsValid (yp_PCEPSessionAddr p) \<or> yp_Color p = 0 \<or> \<not> IsValid (yp_SrcAddr p) \<or>
        \<not> IsValid (yp_DstAddr p) \<or> yp_SegmentList p = []
      then cliError invalidInput
      else Inr \<lparr>cr_SrPolicy = Some (pbSRPolicy_zero\<lparr>pp_PcepSessionAddr := Some (AsSlice (yp_PCEPSessionAddr p)),
             pp_SrcAddr := AsSlice (yp_SrcAddr p), pp_DstAddr := AsSlice (yp_DstAddr p),
             pp_SegmentList := map cliSegmentToPB (yp_SegmentList p), pp_Color := yp_Color p,
             pp_PolicyName := yp_Name p, pp_Type := SR_POLICY_TYPE_EXPLICIT\<rparr>),
           cr_Asn = yi_ASN input, cr_DisablePathCompute = True, cr_NoSidValidate = noSIDValidate\<rparr>)"

definition addSRPolicyWithEndpointAddr :: "CreateSRPolicyRequest call \<Rightarrow> InputFormat \<Rightarrow> bool \<Rightarrow> unit cli" where
  "addSRPolicyWithEndpointAddr call input noSIDValidate =
     (case endpointAddrRequest input noSIDValidate of Inl e \<Rightarrow> Inl e | Inr request \<Rightarrow> call request)"

definition validateCommonInput :: "InputFormat \<Rightarrow> unit cli" where
  "validateCommonInput input =
     (let p = yi_SRPolicy input in
      if yi_ASN input = 0 \<or> \<not> IsValid (yp_PCEPSessionAddr p) \<or> yp_Color p = 0 \<or> yp_SrcRouterID p = [] \<or> yp_DstRouterID p = []
      then cliError invalidInput else Inr ())"

definition parseMetric :: "string \<Rightarrow> int cli" where
  "parseMetric metric =
     (if metric = ''igp'' then Inr METRIC_TYPE_IGP
      else if metric = ''delay'' then Inr METRIC_TYPE_DELAY
      else if metric = ''te'' then Inr METRIC_TYPE_TE
      else cliError ''invalid input `metric`'')"

definition buildExplicitPolicy :: "InputFormat \<Rightarrow> (int \<times> int \<times> pbSegment list \<times> pbWaypoint list) cli" where
  "buildExplicitPolicy input =
     (if yp_SegmentList (yi_SRPolicy input) = [] then cliError invalidInput
      else Inr (SR_POLICY_TYPE_EXPLICIT, 0, map cliSegmentToPB (yp_SegmentList (yi_SRPolicy input)), []))"

definition buildDynamicPolicy :: "InputFormat \<Rightarrow> (int \<times> int \<times> pbSegment list \<times> pbWaypoint list) cli" where
  "buildDynamicPolicy input =
     (if yp_Metric (yi_SRPolicy input) = [] then cliError invalidInput
      else case parseMetric (yp_Metric (yi_SRPolicy input)) of
          Inl e \<Rightarrow> Inl e
        | Inr metric \<Rightarrow>
            Inr (SR_POLICY_TYPE_DYNAMIC, metric, [],
              map (\<lambda>wp. \<lparr>pw_RouterId = yw_RouterID wp, pw_Sid = yw_SID wp\<rparr>) (yp_Waypoints (yi_SRPolicy input))))"

definition buildPolicyByType :: "InputFormat \<Rightarrow> (int \<times> int \<times> pbSegment list \<times> pbWaypoint list) cli" where
  "buildPolicyByType input =
     (if yp_Type (yi_SRPolicy input) = ''explicit'' then buildExplicitPolicy input
      else if yp_Type (yi_SRPolicy input) = ''dynamic'' then buildDynamicPolicy input
      else cliError ''invalid input `type`'')"

text \<open>The request of \<open>addSRPolicyWithRouterID\<close>.\<close>

definition routerIDRequest :: "InputFormat \<Rightarrow> bool \<Rightarrow> CreateSRPolicyRequest cli" where
  "routerIDRequest input noSIDValidate =
     (let p = yi_SRPolicy input in
      case validateCommonInput input of
        Inl e \<Rightarrow> Inl e
      | Inr _ \<Rightarrow>
          (case buildPolicyByType input of
             Inl e \<Rightarrow> Inl e
           | Inr (srPolicyType, metric, segmentList, waypoints) \<Rightarrow>
               Inr \<lparr>cr_SrPolicy = Some (pbSRPolicy_zero\<lparr>pp_PcepSessionAddr := Some (AsSlice (yp_PCEPSessionAddr p)),
                      pp_SrcRouterId := yp_SrcRouterID p, pp_DstRouterId := yp_DstRouterID p, pp_Color := yp_Color p,
                      pp_PolicyName := yp_Name p, pp_Type := srPolicyType, pp_SegmentList := segmentList,
                      pp_Metric := metric, pp_Waypoints := waypoints\<rparr>),
                    cr_Asn = yi_ASN input, cr_DisablePathCompute = False, cr_NoSidValidate = noSIDValidate\<rparr>))"

definition addSRPolicyWithRouterID :: "CreateSRPolicyRequest call \<Rightarrow> InputFormat \<Rightarrow> bool \<Rightarrow> unit cli" where
  "addSRPolicyWithRouterID call input noSIDValidate =
     (case routerIDRequest input noSIDValidate of Inl e \<Rightarrow> Inl e | Inr request \<Rightarrow> call request)"

fun translateCreateSRPolicyError :: "cliError \<Rightarrow> cliError" where
  "translateCreateSRPolicyError (CliError s) = CliError s"
| "translateCreateSRPolicyError (Status code msg) =
     (if code = ''FailedPrecondition''
      then CliError (msg @ [char_of (10 :: nat)] @ ''  hint: use --no-sid-validate to provision without validation'')
      else CliError msg)"

text \<open>What a command prints when it succeeds.\<close>

definition successText :: "bool \<Rightarrow> string" where
  "successText jsonFlag = (if jsonFlag then ''{\"status\": \"success\"}'' else ''success!'')"

definition usesRouterID :: "InputFormat \<Rightarrow> bool" where
  "usesRouterID input \<longleftrightarrow> yp_SrcRouterID (yi_SRPolicy input) \<noteq> [] \<or> yp_DstRouterID (yi_SRPolicy input) \<noteq> []"

definition usesEndpointAddr :: "InputFormat \<Rightarrow> bool" where
  "usesEndpointAddr input \<longleftrightarrow> IsValid (yp_SrcAddr (yi_SRPolicy input)) \<or> IsValid (yp_DstAddr (yi_SRPolicy input))"

definition addSRPolicy :: "CreateSRPolicyRequest call \<Rightarrow> InputFormat \<Rightarrow> bool \<Rightarrow> bool \<Rightarrow> string cli" where
  "addSRPolicy call input jsonFlag noSIDValidate =
     (if usesRouterID input \<and> usesEndpointAddr input
      then cliError ''srcRouterID / dstRouterID and srcAddr / dstAddr are mutually exclusive, use one form only''
      else
        case (if usesRouterID input then addSRPolicyWithRouterID call input noSIDValidate
              else addSRPolicyWithEndpointAddr call input noSIDValidate) of
          Inl e \<Rightarrow> Inl (translateCreateSRPolicyError e)
        | Inr _ \<Rightarrow> Inr (successText jsonFlag))"

section \<open>sr-policy delete\<close>

definition deleteRequestOf :: "InputFormat \<Rightarrow> DeleteSRPolicyRequest cli" where
  "deleteRequestOf input =
     (let p = yi_SRPolicy input in
      if \<not> IsValid (yp_PCEPSessionAddr p) \<or> yp_Color p = 0 \<or> \<not> IsValid (yp_DstAddr p) \<or> yp_Name p = []
      then cliError invalidInput
      else Inr \<lparr>dr_SrPolicy = Some (pbSRPolicy_zero\<lparr>pp_PcepSessionAddr := Some (AsSlice (yp_PCEPSessionAddr p)),
             pp_DstAddr := AsSlice (yp_DstAddr p), pp_Color := yp_Color p, pp_PolicyName := yp_Name p\<rparr>),
           dr_Asn = yi_ASN input\<rparr>)"

fun statusText :: "cliError \<Rightarrow> string" where
  "statusText (CliError s) = s"
| "statusText (Status code msg) = ''rpc error: code = '' @ code @ '' desc = '' @ msg"

definition deleteSRPolicy :: "DeleteSRPolicyRequest call \<Rightarrow> InputFormat \<Rightarrow> bool \<Rightarrow> string cli" where
  "deleteSRPolicy call input jsonFlag =
     (case deleteRequestOf input of
        Inl e \<Rightarrow> Inl e
      | Inr inputData \<Rightarrow>
          (case call inputData of
             Inl e \<Rightarrow> cliError (''gRPC Server Error: '' @ statusText e)
           | Inr _ \<Rightarrow> Inr (successText jsonFlag)))"

section \<open>session delete\<close>

definition deleteSession :: "bytes call \<Rightarrow> addr \<Rightarrow> bool \<Rightarrow> string cli" where
  "deleteSession call session jsonFlag =
     (case call (AsSlice session) of Inl e \<Rightarrow> Inl e | Inr _ \<Rightarrow> Inr (successText jsonFlag))"

definition sessionDeleteCmd :: "bytes call \<Rightarrow> string list \<Rightarrow> bool \<Rightarrow> string cli" where
  "sessionDeleteCmd call args jsonFlag =
     (case args of
        [] \<Rightarrow> cliError ''requires session address''
      | arg # _ \<Rightarrow>
          (case ParseAddr arg of
             Inl _ \<Rightarrow> cliError invalidInput
           | Inr ssAddr \<Rightarrow> deleteSession call ssAddr jsonFlag))"

text \<open>The flag \<open>--session\<close> of \<open>sr-policy list\<close>.\<close>

definition sessionAddrFlag :: "string \<Rightarrow> addr cli" where
  "sessionAddrFlag flag =
     (if flag = [] then Inr NoAddr
      else case ParseAddr flag of Inl _ \<Rightarrow> cliError ''invalid --session address'' | Inr a \<Rightarrow> Inr a)"

end
