(* ===== verification/Cli_Laws.thy ===== *)
theory Cli_Laws
  imports Cli Client_Laws
begin

text \<open>
  What the commands promise: a request they build passes the checks of the server, and a command that
  prints success has had its effect on the server.
\<close>

section \<open>Requests\<close>

definition addRequest :: "InputFormat \<Rightarrow> bool \<Rightarrow> CreateSRPolicyRequest cli" where
  "addRequest input noSIDValidate =
     (if usesRouterID input \<and> usesEndpointAddr input then cliError []
      else if usesRouterID input then routerIDRequest input noSIDValidate
      else endpointAddrRequest input noSIDValidate)"

lemma addSRPolicy_call:
  "addSRPolicy call input json nv = Inr out \<longleftrightarrow>
     (\<exists>req. addRequest input nv = Inr req \<and> call req = Inr () \<and> out = successText json)"
  by (auto simp: addSRPolicy_def addRequest_def addSRPolicyWithRouterID_def addSRPolicyWithEndpointAddr_def split: sum.splits)

lemma AsSlice_valid: "IsValid a \<Longrightarrow> AsSlice a \<noteq> []"
  using length_AsSlice(1,2) [of a] by (auto simp: IsValid_iff simp del: length_AsSlice)

lemma AsSlice_withoutZone: "IsValid a \<Longrightarrow> AddrFromSlice (AsSlice a) = (withoutZone a, True)"
  by (cases a) (auto simp: AddrFromSlice_def)

lemma routerIDRequest_Inr:
  assumes "routerIDRequest input nv = Inr req"
  shows "validateCreateSRPolicy req (cr_DisablePathCompute req) = Inr ()" "\<not> cr_DisablePathCompute req" "cr_NoSidValidate req = nv"
    "IsValid (yp_PCEPSessionAddr (yi_SRPolicy input))"
    "\<exists>p. cr_SrPolicy req = Some p \<and> pp_PcepSessionAddr p = Some (AsSlice (yp_PCEPSessionAddr (yi_SRPolicy input))) \<and>
       (pp_Type p = SR_POLICY_TYPE_EXPLICIT \<and> pp_SegmentList p \<noteq> [] \<or> pp_Type p = SR_POLICY_TYPE_DYNAMIC \<and> (\<exists>m. getMetricType (pp_Metric p) = Inr m))"
  using assms
  by (auto simp: routerIDRequest_def validateCommonInput_def buildPolicyByType_def buildExplicitPolicy_def buildDynamicPolicy_def
      parseMetric_def getMetricType_def Let_def validateCreateSRPolicy_def validate_def validator_def requireE_def wrapE_def
      ValidationAdd_def ValidationAddDisablePathCompute_def pbSRPolicy_zero_def split: if_splits sum.splits)

lemma endpointAddrRequest_Inr:
  assumes "endpointAddrRequest input nv = Inr req"
  defines "p \<equiv> yi_SRPolicy input"
  shows "validateCreateSRPolicy req (cr_DisablePathCompute req) = Inr ()" "cr_DisablePathCompute req" "cr_NoSidValidate req = nv"
    "IsValid (yp_PCEPSessionAddr p)" "IsValid (yp_SrcAddr p)" "IsValid (yp_DstAddr p)"
    "cr_SrPolicy req = Some (pbSRPolicy_zero\<lparr>pp_PcepSessionAddr := Some (AsSlice (yp_PCEPSessionAddr p)),
       pp_SrcAddr := AsSlice (yp_SrcAddr p), pp_DstAddr := AsSlice (yp_DstAddr p),
       pp_SegmentList := map cliSegmentToPB (yp_SegmentList p), pp_Color := yp_Color p,
       pp_PolicyName := yp_Name p, pp_Type := SR_POLICY_TYPE_EXPLICIT\<rparr>)"
  using assms AsSlice_valid
  by (auto simp: endpointAddrRequest_def Let_def validateCreateSRPolicy_def validate_def validator_def requireE_def wrapE_def
      ValidationAdd_def ValidationAddDisablePathCompute_def pbSRPolicy_zero_def split: if_splits)

text \<open>
  Whatever \<open>sr-policy add\<close> sends passes the server's validation and names its session and endpoints by
  addresses the server can read; it never asks for a type or a metric the server does not know.
\<close>

theorem add_requests_valid:
  assumes "addRequest input nv = Inr req"
  shows "validateCreateSRPolicy req (cr_DisablePathCompute req) = Inr () \<and> cr_NoSidValidate req = nv \<and>
    (\<exists>p. cr_SrPolicy req = Some p \<and>
      AddrFromSlice (sessionAddrBytes p) = (withoutZone (yp_PCEPSessionAddr (yi_SRPolicy input)), True) \<and>
      (\<exists>tm. resolveSRPolicyIntent p (cr_DisablePathCompute req) = Inr tm) \<and>
      (cr_DisablePathCompute req \<longrightarrow>
         AddrFromSlice (pp_SrcAddr p) = (withoutZone (yp_SrcAddr (yi_SRPolicy input)), True) \<and>
         AddrFromSlice (pp_DstAddr p) = (withoutZone (yp_DstAddr (yi_SRPolicy input)), True)))"
proof (cases "usesRouterID input")
  case True
  then have r: "routerIDRequest input nv = Inr req" using assms by (auto simp: addRequest_def split: if_splits)
  obtain p where p: "cr_SrPolicy req = Some p" "pp_PcepSessionAddr p = Some (AsSlice (yp_PCEPSessionAddr (yi_SRPolicy input)))"
      "pp_Type p = SR_POLICY_TYPE_EXPLICIT \<or> pp_Type p = SR_POLICY_TYPE_DYNAMIC \<and> (\<exists>m. getMetricType (pp_Metric p) = Inr m)"
    using routerIDRequest_Inr(5) [OF r] by blast
  then show ?thesis using routerIDRequest_Inr(1-4) [OF r] AsSlice_withoutZone
    by (auto simp: sessionAddrBytes_def resolveSRPolicyIntent_def)
next
  case False
  then have r: "endpointAddrRequest input nv = Inr req" using assms by (auto simp: addRequest_def split: if_splits)
  show ?thesis using endpointAddrRequest_Inr [OF r] AsSlice_withoutZone
    by (simp add: sessionAddrBytes_def resolveSRPolicyIntent_def)
qed

section \<open>Effects\<close>

text \<open>What gRPC promises of a call: it succeeds only if the handler returned without an error.\<close>

definition faithful :: "('req \<Rightarrow> Server \<Rightarrow> (unit result \<times> Server) option) \<Rightarrow> Server \<Rightarrow> 'req call \<Rightarrow> bool" where
  "faithful handler sv call \<longleftrightarrow> (\<forall>req. call req = Inr () \<longrightarrow> (\<exists>sv'. handler req sv = Some (Inr (), sv')))"

text \<open>
  C6: When \<open>sr-policy add\<close> in its address form prints success, the server's handler has run on the request
  built from the file, and the state in which it left the server differs as it should: one more message was written, to the
  synchronized session of the peer the user named, with the user's name, color, endpoints and segments, which
  passed the server's checks, under a fresh SRP-ID whose intent says that the path is explicit; no other
  session, policy or part of the server has changed.
\<close>

theorem add_sends:
  assumes "server_step\<^sup>*\<^sup>* (NewPCE opts) sv" "tedIntact sv" "faithful (CreateSRPolicy env usidMode) sv call"
    and "addSRPolicy call input json nv = Inr out" "\<not> usesRouterID input"
  defines "u \<equiv> yi_SRPolicy input"
  shows "\<exists>req sv' segs p bs srpID. endpointAddrRequest input nv = Inr req \<and> call req = Inr () \<and>
    CreateSRPolicy env usidMode req sv = Some (Inr (), sv') \<and>
    mapE (\<lambda>s. newEnrichedSegment (cliSegmentToPB s) usidMode) (yp_SegmentList u) = Inr segs \<and> checked sv req segs \<and>
    p \<in> set (pce_sessionList sv) \<and> ss_isSynced (sessionAt sv p) \<and> ss_peerAddr (sessionAt sv p) = withoutZone (yp_PCEPSessionAddr u) \<and>
    sentOn p bs sv sv' \<and> usable (sessionAt sv p) srpID \<and>
    requestBytes (SRPolicy_zero\<lparr>pol_Name := yp_Name u, pol_SegmentList := segs, pol_SrcAddr := withoutZone (yp_SrcAddr u),
      pol_DstAddr := withoutZone (yp_DstAddr u), pol_Color := yp_Color u, pol_Preference := 100,
      pol_Type := PolicyTypeExplicit\<rparr>) srpID (sessionAt sv p) = Inr bs \<and>
    intentMap (sessionAt sv' p) = (intentMap (sessionAt sv p))(srpID \<mapsto> \<lparr>in_polType = PolicyTypeExplicit,
      in_metric = UnspecifiedMetric, in_expiresAt = ge_now env + ss_srPolicyIntentTTL (sessionAt sv p)\<rparr>)"
proof -
  obtain req where req: "addRequest input nv = Inr req" "call req = Inr ()" using assms(4) by (auto simp: addSRPolicy_call)
  then have r: "endpointAddrRequest input nv = Inr req" using assms(5) by (auto simp: addRequest_def split: if_splits)
  note e = endpointAddrRequest_Inr [OF r, folded u_def]
  obtain sv' where sv': "CreateSRPolicy env usidMode req sv = Some (Inr (), sv')"
    using assms(3) req(2) by (auto simp: faithful_def)
  have d: "cr_DisablePathCompute req = True" using e(2) by simp
  let ?p = "the (cr_SrPolicy req)"
  from CreateSRPolicy_run [OF server_steps_ok [OF assms(1) server_start] assms(2) sv', unfolded d]
  obtain policy segs src dst p bs srpID t m where "cr_SrPolicy req = Some policy"
    and "buildSegmentList env sv usidMode req True = Some (Inr (segs, src, dst))" "checked sv req segs"
      "p \<in> set (pce_sessionList sv)" "ss_isSynced (sessionAt sv p)"
      "AddrFromSlice (sessionAddrBytes policy) = (ss_peerAddr (sessionAt sv p), True)"
      "resolveSRPolicyIntent policy True = Inr (t, m)" "sentOn p bs sv sv'" "usable (sessionAt sv p) srpID"
      "requestBytes ((requestPolicy policy segs src dst)\<lparr>pol_Type := t, pol_Metric := m\<rparr>) srpID (sessionAt sv p) = Inr bs"
      "intentMap (sessionAt sv' p) = (intentMap (sessionAt sv p))(srpID \<mapsto>
        \<lparr>in_polType = t, in_metric = m, in_expiresAt = ge_now env + ss_srPolicyIntentTTL (sessionAt sv p)\<rparr>)"
    by blast
  then have c: "buildSegmentList env sv usidMode req True = Some (Inr (segs, src, dst))" "checked sv req segs"
      "p \<in> set (pce_sessionList sv)" "ss_isSynced (sessionAt sv p)"
      "AddrFromSlice (sessionAddrBytes ?p) = (ss_peerAddr (sessionAt sv p), True)"
      "resolveSRPolicyIntent ?p True = Inr (t, m)" "sentOn p bs sv sv'" "usable (sessionAt sv p) srpID"
      "requestBytes ((requestPolicy ?p segs src dst)\<lparr>pol_Type := t, pol_Metric := m\<rparr>) srpID (sessionAt sv p) = Inr bs"
      "intentMap (sessionAt sv' p) = (intentMap (sessionAt sv p))(srpID \<mapsto>
        \<lparr>in_polType = t, in_metric = m, in_expiresAt = ge_now env + ss_srPolicyIntentTTL (sessionAt sv p)\<rparr>)"
    by simp_all
  have a: "AddrFromSlice (AsSlice x) = (withoutZone x, True)" if "x \<in> {yp_PCEPSessionAddr u, yp_SrcAddr u, yp_DstAddr u}" for x
    using that e(4-6) AsSlice_withoutZone by auto
  have b: "mapE (\<lambda>s. newEnrichedSegment (cliSegmentToPB s) usidMode) (yp_SegmentList u) = Inr segs"
      "src = withoutZone (yp_SrcAddr u)" "dst = withoutZone (yp_DstAddr u)"
    using c(1) by (auto simp: buildSegmentList_def e(7) GetSrPolicy_def a Let_def bindE_eq_Inr mapE_Inr_iff list_all2_map1)
  have tm: "t = PolicyTypeExplicit" "m = UnspecifiedMetric" using c(6) by (auto simp: resolveSRPolicyIntent_def)
  then have "requestPolicy ?p segs src dst\<lparr>pol_Type := t, pol_Metric := m\<rparr> =
      SRPolicy_zero\<lparr>pol_Name := yp_Name u, pol_SegmentList := segs, pol_SrcAddr := withoutZone (yp_SrcAddr u),
        pol_DstAddr := withoutZone (yp_DstAddr u), pol_Color := yp_Color u, pol_Preference := 100, pol_Type := PolicyTypeExplicit\<rparr>"
    by (simp add: requestPolicy_def e(7) b SRPolicy_zero_def NewSRPolicy_def)
  with c tm b a r req(2) sv' show ?thesis
    by (intro exI [of _ req] exI [of _ sv'] exI [of _ segs] exI [of _ p] exI [of _ bs] exI [of _ srpID])
      (simp add: e(7) sessionAddrBytes_def)
qed


lemma SendClose_Inr:
  assumes "SendClose reason ss = Some (Inr (), ss')"
  obtains bs where "bindE (NewCloseMessage reason) CloseMessage_Serialize = Inr bs"
    "ss' = ss\<lparr>ss_tcpConn := (ss_tcpConn ss)\<lparr>tcp_out := tcp_out (ss_tcpConn ss) @ [bs]\<rparr>\<rparr>"
  using assms by (auto simp: SendClose_def sendPCEPMessage_def bindS_def returnS_def connWrite_def Let_def split: sum.splits if_splits)

lemma DeleteSession_Inr:
  assumes "server_ok sv" "DeleteSession raw sv = Some (Inr (), sv')"
  obtains p q bs where "p \<in> set (pce_sessionList sv)" "AddrFromSlice raw = (ss_peerAddr (sessionAt sv p), True)"
    "bindE (NewCloseMessage CloseReasonNoExplanationProvided) CloseMessage_Serialize = Inr bs"
    "tcp_out (ss_tcpConn (sessionAt sv' p)) = tcp_out (ss_tcpConn (sessionAt sv p)) @ [bs]"
    "tcp_closed (ss_tcpConn (sessionAt sv' p))"
    "q \<in> set (pce_sessionList sv)" "ss_sessionID (sessionAt sv q) = ss_sessionID (sessionAt sv p)"
    "set (pce_sessionList sv') = set (pce_sessionList sv) - {q}"
proof -
  obtain a p ss' where p: "AddrFromSlice raw = (a, True)" "SearchSession sv a False = Some p"
      "SendClose CloseReasonNoExplanationProvided (sessionAt sv p) = Some (Inr (), ss')" "sv' = closeSession p (updateSession p ss' sv)"
    using assms(2) by (auto simp: DeleteSession_def onSession_def wrapE_def
        split: prod.splits if_splits option.splits sum.splits failure.splits)
  obtain bs where bs: "bindE (NewCloseMessage CloseReasonNoExplanationProvided) CloseMessage_Serialize = Inr bs"
      "ss' = (sessionAt sv p)\<lparr>ss_tcpConn := (ss_tcpConn (sessionAt sv p))\<lparr>tcp_out := tcp_out (ss_tcpConn (sessionAt sv p)) @ [bs]\<rparr>\<rparr>"
    using SendClose_Inr [OF p(3)] by blast
  have m: "p \<in> set (pce_sessionList sv)" "ss_peerAddr (sessionAt sv p) = a" using SearchSession_Some [OF p(2)] by auto
  then have l: "p < length (pce_store sv)" using assms(1) by (simp add: server_ok_def)
  let ?sv = "updateSession p ss' sv"
  have ok: "server_ok ?sv"
    using assms(1) l by (intro server_ok_update) (auto simp: bs(2) server_ok_def session_ok_def db_ok_def intents_ok_def)
  have ids: "ss_sessionID (sessionAt ?sv r) = ss_sessionID (sessionAt sv r)" for r
    using l by (simp add: sessionAt_update bs(2))
  note e = closeSession_effect [OF ok, of p, folded p(4)]
  have c: "sessionAt sv' p = clearSRPolicyIntents (closeConn ss')"
    using e(2) l by (simp add: sessionAt_def) (simp add: updateSession_def)
  obtain i where i: "closeIndex ?sv (ss_sessionID (sessionAt ?sv p)) (pce_sessionList ?sv) = Some i"
    using closeIndex_None [of ?sv "ss_sessionID (sessionAt ?sv p)" "pce_sessionList ?sv"] m(1)
    by (cases "closeIndex ?sv (ss_sessionID (sessionAt ?sv p)) (pce_sessionList ?sv)") auto
  let ?q = "pce_sessionList sv ! i"
  have "?q \<in> set (pce_sessionList sv)" "ss_sessionID (sessionAt sv ?q) = ss_sessionID (sessionAt sv p)"
    using closeIndex_Some [OF i] by (auto simp: ids)
  moreover have "set (pce_sessionList sv') = set (pce_sessionList sv) - {?q}"
    using e(3) i l by (simp add: p(4))
  ultimately show ?thesis
    using that m p(1) bs(1) c by (simp add: bs(2) closeConn_def clearSRPolicyIntents_def)
qed

text \<open>
  C25: When \<open>session delete\<close> prints success, the server has sent a Close message to a session with the peer of
  that address, closed its connection, and taken a session with its number off the list.
\<close>

theorem session_delete_closes:
  assumes "server_step\<^sup>*\<^sup>* (NewPCE opts) sv" "faithful DeleteSession sv call" "sessionDeleteCmd call args json = Inr out"
  shows "\<exists>a p q bs sv'. ParseAddr (hd args) = Inr a \<and> DeleteSession (AsSlice a) sv = Some (Inr (), sv') \<and>
    p \<in> set (pce_sessionList sv) \<and> ss_peerAddr (sessionAt sv p) = withoutZone a \<and>
    bindE (NewCloseMessage CloseReasonNoExplanationProvided) CloseMessage_Serialize = Inr bs \<and>
    tcp_out (ss_tcpConn (sessionAt sv' p)) = tcp_out (ss_tcpConn (sessionAt sv p)) @ [bs] \<and>
    tcp_closed (ss_tcpConn (sessionAt sv' p)) \<and>
    q \<in> set (pce_sessionList sv) \<and> ss_sessionID (sessionAt sv q) = ss_sessionID (sessionAt sv p) \<and>
    set (pce_sessionList sv') = set (pce_sessionList sv) - {q}"
proof -
  obtain a where a: "ParseAddr (hd args) = Inr a" "call (AsSlice a) = Inr ()"
    using assms(3) by (auto simp: sessionDeleteCmd_def deleteSession_def split: list.splits sum.splits)
  then obtain sv' where sv': "DeleteSession (AsSlice a) sv = Some (Inr (), sv')" using assms(2) by (auto simp: faithful_def)
  have z: "AddrFromSlice (AsSlice a) = (withoutZone a, True)"
    using sv' by (cases a) (auto simp: DeleteSession_def AddrFromSlice_def)
  have ok: "server_ok sv" using server_steps_ok [OF assms(1) server_start] .
  show ?thesis
  proof (rule DeleteSession_Inr [OF ok sv', unfolded z prod.inject])
    fix p q bs
    assume d: "p \<in> set (pce_sessionList sv)" "withoutZone a = ss_peerAddr (sessionAt sv p) \<and> True = True"
      "bindE (NewCloseMessage CloseReasonNoExplanationProvided) CloseMessage_Serialize = Inr bs"
      "tcp_out (ss_tcpConn (sessionAt sv' p)) = tcp_out (ss_tcpConn (sessionAt sv p)) @ [bs]"
      "tcp_closed (ss_tcpConn (sessionAt sv' p))"
      "q \<in> set (pce_sessionList sv)" "ss_sessionID (sessionAt sv q) = ss_sessionID (sessionAt sv p)"
      "set (pce_sessionList sv') = set (pce_sessionList sv) - {q}"
    show ?thesis
      by (rule exI [of _ a], rule exI [of _ p], rule exI [of _ q], rule exI [of _ bs], rule exI [of _ sv'])
        (intro conjI a(1) sv' d(1,3-8) d(2) [THEN conjunct1, symmetric])
  qed
qed

section \<open>Witnesses\<close>

text \<open>A call answered by the server's own handler, with any status for a failure.\<close>

definition handlerCall :: "('req \<Rightarrow> Server \<Rightarrow> (unit result \<times> Server) option) \<Rightarrow> Server \<Rightarrow> 'req call" where
  "handlerCall handler sv req = (case handler req sv of Some (Inr _, _) \<Rightarrow> Inr () | _ \<Rightarrow> Inl (Status ''Unknown'' ''failed''))"

lemma faithful_handler: "faithful handler sv (handlerCall handler sv)"
  by (auto simp: faithful_def handlerCall_def split: option.splits prod.splits sum.splits)

definition addInput :: InputFormat where
  "addInput = \<lparr>yi_SRPolicy = \<lparr>yp_PCEPSessionAddr = Addr4 0x0A000001, yp_SrcAddr = Addr4 1, yp_DstAddr = Addr4 2,
     yp_SrcRouterID = [], yp_DstRouterID = [], yp_Name = ''p'',
     yp_SegmentList = [\<lparr>yg_SID = ''16001'', yg_LocalAddr = [], yg_RemoteAddr = [], yg_SIDStructure = []\<rparr>],
     yp_Color = 100, yp_Type = [], yp_Metric = [], yp_Waypoints = []\<rparr>, yi_ASN = 0\<rparr>"

lemma addInput_request: "addRequest addInput True = Inr createRequest" "\<not> usesRouterID addInput"
  by (simp_all add: addRequest_def addInput_def usesRouterID_def endpointAddrRequest_def createRequest_def cliSegmentToPB_def
      pbSRPolicy_zero_def Let_def)

lemma add_requests_valid_witness: "validateCreateSRPolicy createRequest (cr_DisablePathCompute createRequest) = Inr ()"
  using add_requests_valid [OF addInput_request(1)] by blast

text \<open>The server of the sample has one session, the one the request goes to.\<close>

lemma add_sends_witness:
  "\<exists>sv' bs srpID. CreateSRPolicy apiSampleEnv False createRequest syncedServer = Some (Inr (), sv') \<and>
     sentOn 0 bs syncedServer sv' \<and> usable (sessionAt syncedServer 0) srpID \<and>
     requestBytes (SRPolicy_zero\<lparr>pol_Name := ''p'', pol_SegmentList := [SRMPLS (NewSegmentSRMPLS 16001)],
       pol_SrcAddr := Addr4 1, pol_DstAddr := Addr4 2, pol_Color := 100, pol_Preference := 100,
       pol_Type := PolicyTypeExplicit\<rparr>) srpID (sessionAt syncedServer 0) = Inr bs \<and>
     (\<exists>i. intentMap (sessionAt sv' 0) srpID = Some i \<and> in_polType i = PolicyTypeExplicit)"
proof -
  have "handlerCall (CreateSRPolicy apiSampleEnv False) syncedServer createRequest = Inr ()"
    using createRequest_succeeds by (auto simp: handlerCall_def)
  then have a: "addSRPolicy (handlerCall (CreateSRPolicy apiSampleEnv False) syncedServer) addInput True True = Inr (successText True)"
    using addInput_request(1) by (simp add: addSRPolicy_call)
  have r: "endpointAddrRequest addInput True = Inr createRequest"
    using addInput_request by (simp add: addRequest_def)
  have seg: "newEnrichedSegment (cliSegmentToPB \<lparr>yg_SID = ''16001'', yg_LocalAddr = [], yg_RemoteAddr = [], yg_SIDStructure = []\<rparr>) False =
      Inr (SRMPLS (NewSegmentSRMPLS 16001))"
    using sample_label by (simp add: cliSegmentToPB_def)
  have p: "p \<in> set (pce_sessionList syncedServer) \<and> ss_isSynced (sessionAt syncedServer p) \<longleftrightarrow> p = 0" for p
  proof -
    have "\<not> ss_isSynced (sessionAt syncedServer 1)"
      by (simp add: syncedServer_def sampleServer_def NewPCE_def setTED_def sampleOptions_def sessionAt_update)
        (simp add: sessionAt_def acceptSession_def NewSession_def Let_def)
    then show ?thesis by (auto simp: syncedServer_sessions handleFinishSynchronization_def)
  qed
  from add_sends [OF apiServer_reached(1) tedIntact_synced faithful_handler a addInput_request(2)]
  obtain sv' segs p bs srpID where
      h: "CreateSRPolicy apiSampleEnv False createRequest syncedServer = Some (Inr (), sv')"
      "mapE (\<lambda>s. newEnrichedSegment (cliSegmentToPB s) False) (yp_SegmentList (yi_SRPolicy addInput)) = Inr segs"
      "p \<in> set (pce_sessionList syncedServer)" "ss_isSynced (sessionAt syncedServer p)"
      "sentOn p bs syncedServer sv'" "usable (sessionAt syncedServer p) srpID"
      "requestBytes (SRPolicy_zero\<lparr>pol_Name := yp_Name (yi_SRPolicy addInput), pol_SegmentList := segs,
         pol_SrcAddr := withoutZone (yp_SrcAddr (yi_SRPolicy addInput)),
         pol_DstAddr := withoutZone (yp_DstAddr (yi_SRPolicy addInput)),
         pol_Color := yp_Color (yi_SRPolicy addInput), pol_Preference := 100,
         pol_Type := PolicyTypeExplicit\<rparr>) srpID (sessionAt syncedServer p) = Inr bs"
      "\<exists>i. intentMap (sessionAt sv' p) srpID = Some i \<and> in_polType i = PolicyTypeExplicit"
    unfolding r by fastforce
  have "p = 0" using h(3,4) p by blast
  moreover have "segs = [SRMPLS (NewSegmentSRMPLS 16001)]" using h(2) seg by (simp add: addInput_def)
  ultimately show ?thesis using h(1,5-8) by (auto simp: addInput_def)
qed

lemma deleteSession_succeeds: "\<exists>sv'. DeleteSession (AsSlice (Addr4 0x0A000001)) syncedServer = Some (Inr (), sv')"
proof -
  have s: "SearchSession syncedServer (Addr4 0x0A000001) False = Some 0"
    by (simp add: SearchSession_def syncedServer_sessions handleFinishSynchronization_def NewSession_def)
  have "tcp_writable (ss_tcpConn (sessionAt syncedServer 0)) \<and> \<not> tcp_closed (ss_tcpConn (sessionAt syncedServer 0))"
    by (simp add: syncedServer_sessions handleFinishSynchronization_def NewSession_def sampleConn_def)
  moreover have "\<exists>bs. bindE (NewCloseMessage CloseReasonNoExplanationProvided) CloseMessage_Serialize = Inr bs"
    by (simp add: NewCloseMessage_def CloseMessage_Serialize_def NewCloseObject_def CloseObject_Serialize_def makeBytes_4 setE_def)
  ultimately have "\<exists>ss'. SendClose CloseReasonNoExplanationProvided (sessionAt syncedServer 0) = Some (Inr (), ss')"
    by (auto simp: SendClose_def sendPCEPMessage_def bindS_def returnS_def connWrite_def Let_def bindE_eq_Inr)
  then show ?thesis by (auto simp: DeleteSession_def s onSession_def AddrFromSlice_AsSlice4 simp del: AsSlice.simps)
qed

lemma session_delete_closes_witness:
  "\<exists>p sv'. DeleteSession (AsSlice (Addr4 0x0A000001)) syncedServer = Some (Inr (), sv') \<and> tcp_closed (ss_tcpConn (sessionAt sv' p))"
proof -
  have t: "ParseAddr (addr_String (Addr4 0x0A000001)) = Inr (Addr4 0x0A000001)" by (rule ParseAddr_String) simp
  have "handlerCall DeleteSession syncedServer (AsSlice (Addr4 0x0A000001)) = Inr ()"
    using deleteSession_succeeds by (auto simp: handlerCall_def)
  then have "sessionDeleteCmd (handlerCall DeleteSession syncedServer) [addr_String (Addr4 0x0A000001)] True = Inr (successText True)"
    by (simp add: sessionDeleteCmd_def deleteSession_def t del: addr_String.simps AsSlice.simps)
  from session_delete_closes [OF apiServer_reached(1) faithful_handler this] t show ?thesis by auto
qed

end
