(* ===== verification/Cli_Text.thy ===== *)
theory Cli_Text
  imports Client_Ted Cli_Laws
begin

text \<open>
  What the commands print: \<open>LsTED.Print\<close> of \<open>src/pkg/table/ted.go\<close>, and the listings of
  \<open>src/cmd/pola/session.go\<close> and \<open>sr_policy_list.go\<close>, as the list of lines; and \<open>Validate\<close> of
  \<open>src/internal/config/config.go\<close>. The JSON forms are in Cli_Json.
\<close>

section \<open>Formatting\<close>

text \<open>\<open>%d\<close> of an unsigned number, and \<open>%v\<close> of a slice whose elements have been formatted.\<close>

abbreviation showWord :: "'a :: len word \<Rightarrow> string" where "showWord w \<equiv> string_of_nat (unat w)"

fun joinWith :: "string \<Rightarrow> string list \<Rightarrow> string" where
  "joinWith sep [] = []"
| "joinWith sep [s] = s"
| "joinWith sep (s # ss) = s @ sep @ joinWith sep ss"

definition showSlice :: "string list \<Rightarrow> string" where
  "showSlice xs = ''['' @ joinWith '' '' xs @ '']''"

definition addrOrNone :: "addr \<Rightarrow> string" where
  "addrOrNone a = (if IsValid a then addr_String a else ''None'')"

section \<open>The TED\<close>

definition printNodeBasic :: "string \<Rightarrow> LsNode \<Rightarrow> string list" where
  "printNodeBasic nodeID node =
     [''  '' @ nodeID, ''  Hostname: '' @ nd_Hostname node, ''  ISIS Area ID: '' @ nd_IsisAreaID node,
      ''  SRGB: '' @ showWord (nd_SrgbBegin node) @ '' - '' @ showWord (nd_SrgbEnd node)]"

definition printPrefix :: "LsPrefix \<Rightarrow> string list" where
  "printPrefix p = [''    '' @ prefix_String (px_Prefix p)] @
     (if HasPrefixSID (Some p) then [''      index: '' @ showWord (px_SidIndex p)] else [])"

definition printNodePrefixes :: "LsNode \<Rightarrow> string list" where
  "printNodePrefixes node = ''  Prefixes:'' #
     concat (map (\<lambda>p. case p of None \<Rightarrow> [] | Some p \<Rightarrow> printPrefix p) (nd_Prefixes node))"

definition printStructure :: "SIDStructure \<Rightarrow> string" where
  "printStructure st = ''Block: '' @ showWord (st_LocalBlock st) @ '', Node: '' @ showWord (st_LocalNode st) @
     '', Func: '' @ showWord (st_LocalFunc st) @ '', Arg: '' @ showWord (st_LocalArg st)"

text \<open>The lines of a link, given the text for its remote node.\<close>

definition linkLines :: "string \<Rightarrow> LsLink \<Rightarrow> string list" where
  "linkLines remoteNodeID link =
     [''    Local: '' @ addrOrNone (lk_LocalIP link) @ '' Remote: '' @ addrOrNone (lk_RemoteIP link),
      ''      RemoteNode: '' @ remoteNodeID, ''      Metrics:''] @
     map (\<lambda>m. ''        '' @ MetricType_DisplayString (mt_Type m) @ '': '' @ showWord (mt_Value m)) (lk_Metrics link) @
     [''      Adj-SID: '' @ showWord (lk_AdjSid link)] @
     (case lk_Srv6EndXSID link of
        None \<Rightarrow> []
      | Some x \<Rightarrow> [''      SRv6 End.X SID:'', ''        EndpointBehavior: '' @ BehaviorToString (ex_EndpointBehavior x),
          ''        SIDs: '' @ showSlice (ex_Sids x), ''        SID Structure: '' @ printStructure (ex_Srv6SIDStructure x)])"

definition printLink :: "heap \<Rightarrow> LsLink \<Rightarrow> string list result" where
  "printLink h link =
     bindE (case lk_RemoteNode link of None \<Rightarrow> Inr ''None'' | Some i \<Rightarrow> bindE (loadNode h (Some i)) (\<lambda>n. Inr (nd_RouterID n)))
       (\<lambda>remoteNodeID. Inr (linkLines remoteNodeID link))"

fun printLinks :: "heap \<Rightarrow> LsLink option list \<Rightarrow> string list result" where
  "printLinks h [] = Inr []"
| "printLinks h (None # ls) = printLinks h ls"
| "printLinks h (Some link # ls) = bindE (printLink h link) (\<lambda>ts. bindE (printLinks h ls) (\<lambda>us. Inr (ts @ us)))"

definition printNodeLinks :: "heap \<Rightarrow> LsNode \<Rightarrow> string list result" where
  "printNodeLinks h node = bindE (printLinks h (nd_Links node)) (\<lambda>ts. Inr (''  Links:'' # ts))"

definition printSrv6SID :: "LsSrv6SID \<Rightarrow> string list" where
  "printSrv6SID s =
     [''    SIDs: '' @ showSlice (sv_Sids s), ''    '' @ printStructure (sv_SIDStructure s),
      ''    EndpointBehavior: '' @ BehaviorToString (eb_Behavior (sv_EndpointBehavior s)) @ '', Flags: '' @
        showWord (eb_Flags (sv_EndpointBehavior s)) @ '', Algorithm: '' @ showWord (eb_Algorithm (sv_EndpointBehavior s)),
      ''    MultiTopoIDs: '' @ showSlice (map showWord (sv_MultiTopoIDs s))]"

definition printNodeSRv6SIDs :: "LsNode \<Rightarrow> string list" where
  "printNodeSRv6SIDs node = ''  SRv6 SIDs:'' #
     concat (map (\<lambda>s. case s of None \<Rightarrow> [] | Some s \<Rightarrow> printSrv6SID s) (nd_SRv6SIDs node))"

text \<open>The nodes arrive in the order of the range over the map.\<close>

fun printNodes :: "heap \<Rightarrow> nat \<Rightarrow> (string \<times> nodeptr) list \<Rightarrow> string list result" where
  "printNodes h nodeCnt [] = Inr []"
| "printNodes h nodeCnt ((_, None) # nodes) = printNodes h nodeCnt nodes"
| "printNodes h nodeCnt ((nodeID, Some i) # nodes) =
     bindE (loadNode h (Some i)) (\<lambda>node.
     bindE (printNodeLinks h node) (\<lambda>links.
     bindE (printNodes h (Suc nodeCnt) nodes) (\<lambda>ts.
     Inr ((''Node: '' @ string_of_nat nodeCnt) # printNodeBasic nodeID node @ printNodePrefixes node @ links @
       printNodeSRv6SIDs node @ [[]] @ ts))))"

definition LsTED_Print :: "((string \<times> nodeptr) list \<Rightarrow> (string \<times> nodeptr) list) \<Rightarrow> tedState option \<Rightarrow> string list result" where
  "LsTED_Print order ted = (case ted of None \<Rightarrow> Inr [''TED is empty''] | Some (h, t) \<Rightarrow> printNodes h 1 (order (ted_Nodes t)))"

section \<open>Sessions and policies\<close>

text \<open>\<open>i\<close> is the index of the loop.\<close>

fun showSession :: "nat \<Rightarrow> ClientSession list \<Rightarrow> string list" where
  "showSession i [] = []"
| "showSession i (ss # sessions) =
     [''sessionAddr('' @ string_of_nat i @ ''): '' @ addr_String (cl_Addr ss), ''  State: '' @ cl_State ss,
      ''  Capabilities: '' @ joinWith '', '' (ClientSession_CapStrings ss),
      ''  IsSynced: '' @ (if cl_IsSynced ss then ''true'' else ''false'')] @ showSession (Suc i) sessions"

definition srcDstDisplay :: "string \<Rightarrow> string \<Rightarrow> string" where
  "srcDstDisplay address routerID = (if routerID = [] then address else address @ '' ('' @ routerID @ '')'')"

definition segmentDisplayString :: "Segment \<Rightarrow> string" where
  "segmentDisplayString seg =
     (let localAddr = validText (case seg of SRv6 v \<Rightarrow> s6_LocalAddr v | SRMPLS v \<Rightarrow> sm_LocalAddr v);
          remoteAddr = validText (case seg of SRv6 v \<Rightarrow> s6_RemoteAddr v | SRMPLS v \<Rightarrow> sm_RemoteAddr v) in
      if localAddr = [] \<and> remoteAddr = [] then SidString seg
      else if remoteAddr = [] then SidString seg @ '' (local='' @ localAddr @ '')''
      else if localAddr = [] then SidString seg @ '' (remote='' @ remoteAddr @ '')''
      else SidString seg @ '' (local='' @ localAddr @ '', remote='' @ remoteAddr @ '')'')"

definition policyLines :: "SRPolicy \<Rightarrow> string list" where
  "policyLines policy =
     [''  PolicyName: '' @ pol_Name policy, ''    PlspID: '' @ showWord (pol_PlspID policy),
      ''    LSPID: '' @ showWord (pol_LSPID policy), ''    State: '' @ pol_State policy] @
     (if pol_Type policy \<noteq> [] then [''    Type: '' @ pol_Type policy] else []) @
     (if pol_Metric policy \<noteq> UnspecifiedMetric then [''    Metric: '' @ MetricType_DisplayString (pol_Metric policy)] else []) @
     [''    SrcAddr: '' @ srcDstDisplay (addr_String (pol_SrcAddr policy)) (pol_SrcRouterID policy),
      ''    DstAddr: '' @ srcDstDisplay (addr_String (pol_DstAddr policy)) (pol_DstRouterID policy),
      ''    Color: '' @ showWord (pol_Color policy), ''    Preference: '' @ showWord (pol_Preference policy),
      ''    SegmentList: '' @ (if pol_SegmentList policy = [] then ''None''
         else joinWith '' -> '' (map segmentDisplayString (pol_SegmentList policy)))]"

definition showSRPolicyList :: "SessionSRPolicies list \<Rightarrow> string list" where
  "showSRPolicyList sessions =
     (if sessions = [] then [''No SR Policies found.'']
      else concat (map (\<lambda>session. (''Session: '' @ addr_String (cp_Addr session)) #
        concat (map policyLines (cp_SRPolicies session)) @ [[]]) sessions))"

section \<open>The configuration\<close>

record GRPCClientConfig =
  gc_Address :: string
  gc_Port :: string

record TEDConfig =
  tc_Enable :: bool
  tc_ASN :: u32
  tc_Source :: string

record GlobalConfig =
  cf_PCEPAddress :: string
  cf_PCEPPort :: string
  cf_GRPCAddress :: string
  cf_GRPCPort :: string
  cf_LogPath :: string
  cf_LogName :: string
  cf_LogDebug :: bool
  cf_TED :: "TEDConfig option"
  cf_GoBGP :: GRPCClientConfig
  cf_USidMode :: bool

definition required :: "bool \<Rightarrow> string \<Rightarrow> string list" where
  "required missing msg = (if missing then [msg] else [])"

text \<open>The errors that are joined; no error is the empty list.\<close>

definition Config_Validate :: "GlobalConfig \<Rightarrow> string list" where
  "Config_Validate c =
     required (cf_PCEPAddress c = []) ''global.pcep.address is required'' @
     required (cf_PCEPPort c = []) ''global.pcep.port is required'' @
     required (cf_GRPCAddress c = []) ''global.grpcServer.address is required'' @
     required (cf_GRPCPort c = []) ''global.grpcServer.port is required'' @
     required (cf_LogPath c = []) ''global.log.path is required'' @
     required (cf_LogName c = []) ''global.log.name is required'' @
     (case cf_TED c of
        None \<Rightarrow> [''global.ted is required'']
      | Some ted \<Rightarrow>
          if tc_Enable ted then
            required (tc_Source ted = []) ''global.ted.source is required when global.ted.enable is true'' @
            required (tc_ASN ted = 0) ''global.ted.asn is required when global.ted.enable is true'' @
            (if tc_Source ted = ''gobgp'' then
               required (gc_Address (cf_GoBGP c) = []) ''global.gobgp.grpcClient.address is required when global.ted.source is gobgp'' @
               required (gc_Port (cf_GoBGP c) = []) ''global.gobgp.grpcClient.port is required when global.ted.source is gobgp''
             else [])
          else [])"

text \<open>
  The part of \<open>main\<close> of \<open>src/cmd/polad/main.go\<close> between the configuration and the server: panic or the
  options of the PCE. \<open>createDir\<close> and the log file are left out.
\<close>

definition polad_options :: "GlobalConfig \<Rightarrow> PCEOptions result" where
  "polad_options c =
     (if Config_Validate c \<noteq> [] then panic
      else case cf_TED c of
          None \<Rightarrow> panic
        | Some ted \<Rightarrow>
            if tc_Enable ted \<and> tc_ASN ted = 0 then panic
            else if tc_Enable ted \<and> tc_Source ted \<noteq> ''gobgp'' then panic
            else Inr \<lparr>opt_PCEPAddr = cf_PCEPAddress c, opt_PCEPPort = cf_PCEPPort c, opt_GRPCAddr = cf_GRPCAddress c,
                   opt_GRPCPort = cf_GRPCPort c, opt_TEDEnable = tc_Enable ted, opt_USidMode = cf_USidMode c,
                   opt_ASN = tc_ASN ted\<rparr>)"

text \<open>A configuration with a TED source other than GoBGP passes \<open>Validate\<close>, and the daemon panics on it.\<close>

lemma polad_options_source:
  assumes "Config_Validate c = []" "cf_TED c = Some ted" "tc_Enable ted"
  shows "polad_options c = panic \<longleftrightarrow> tc_Source ted \<noteq> ''gobgp''"
  using assms by (auto simp: polad_options_def Config_Validate_def required_def split: if_splits)

section \<open>The printed TED shows the view\<close>

text \<open>
  The expected lines, written out over the view without the functions of the code: addresses, metric types
  and behaviors by their names, then the lines of a prefix, of a link with the router ID it leads to, and of a SID.
\<close>

definition addrText :: "addr \<Rightarrow> string" where
  "addrText a = (case a of NoAddr \<Rightarrow> ''None'' | _ \<Rightarrow> addr_String a)"

fun metricText :: "MetricType \<Rightarrow> string" where
  "metricText IGPMetric = ''igp''"
| "metricText TEMetric = ''te''"
| "metricText DelayMetric = ''delay''"
| "metricText HopcountMetric = ''hopcount''"
| "metricText UnspecifiedMetric = []"

definition behaviorText :: "u16 \<Rightarrow> string" where
  "behaviorText b =
     (case map_of [(0x0000, ''RESERVED''), (0x0001, ''END''), (0x0005, ''ENDX''), (0x0030, ''UN''), (0x0039, ''UA'')] b of
        Some name \<Rightarrow> name | None \<Rightarrow> ''UNKNOWN'')"

definition structureText :: "SIDStructure \<Rightarrow> string" where
  "structureText st = ''Block: '' @ showWord (st_LocalBlock st) @ '', Node: '' @ showWord (st_LocalNode st) @
     '', Func: '' @ showWord (st_LocalFunc st) @ '', Arg: '' @ showWord (st_LocalArg st)"

definition prefixText :: "LsPrefix \<Rightarrow> string list" where
  "prefixText p =
     (''    '' @ prefix_String (px_Prefix p)) # (if px_HasSidIndex p then [''      index: '' @ showWord (px_SidIndex p)] else [])"

fun linkText :: "string \<times> LsLink \<Rightarrow> string list" where
  "linkText (remote, l) =
     [''    Local: '' @ addrText (lk_LocalIP l) @ '' Remote: '' @ addrText (lk_RemoteIP l),
      ''      RemoteNode: '' @ remote, ''      Metrics:''] @
     map (\<lambda>m. ''        '' @ metricText (mt_Type m) @ '': '' @ showWord (mt_Value m)) (lk_Metrics l) @
     [''      Adj-SID: '' @ showWord (lk_AdjSid l)] @
     (case lk_Srv6EndXSID l of
        None \<Rightarrow> []
      | Some x \<Rightarrow> [''      SRv6 End.X SID:'', ''        EndpointBehavior: '' @ behaviorText (ex_EndpointBehavior x),
          ''        SIDs: ['' @ joinWith '' '' (ex_Sids x) @ '']'',
          ''        SID Structure: '' @ structureText (ex_Srv6SIDStructure x)])"

definition sidText :: "LsSrv6SID \<Rightarrow> string list" where
  "sidText s =
     (let b = sv_EndpointBehavior s in
      [''    SIDs: ['' @ joinWith '' '' (sv_Sids s) @ '']'', ''    '' @ structureText (sv_SIDStructure s),
       ''    EndpointBehavior: '' @ behaviorText (eb_Behavior b) @ '', Flags: '' @ showWord (eb_Flags b) @
         '', Algorithm: '' @ showWord (eb_Algorithm b),
       ''    MultiTopoIDs: ['' @ joinWith '' '' (map showWord (sv_MultiTopoIDs s)) @ '']''])"

definition viewLines :: "nat \<Rightarrow> string \<Rightarrow> NodeView \<Rightarrow> string list" where
  "viewLines nodeCnt rid v =
     [''Node: '' @ string_of_nat nodeCnt, ''  '' @ rid, ''  Hostname: '' @ vw_Hostname v, ''  ISIS Area ID: '' @ vw_IsisAreaID v,
      ''  SRGB: '' @ showWord (vw_SrgbBegin v) @ '' - '' @ showWord (vw_SrgbEnd v), ''  Prefixes:''] @
     concat (map prefixText (vw_Prefixes v)) @ [''  Links:''] @ concat (map linkText (vw_Links v)) @
     [''  SRv6 SIDs:''] @ concat (map sidText (vw_SRv6SIDs v)) @ [[]]"

fun viewsLines :: "nat \<Rightarrow> tedView \<Rightarrow> string list \<Rightarrow> string list" where
  "viewsLines nodeCnt m [] = []"
| "viewsLines nodeCnt m (rid # rids) = viewLines nodeCnt rid (the (m rid)) @ viewsLines (Suc nodeCnt) m rids"

lemma plain_texts [simp]: "prefixText (plainPrefix p) = prefixText p" "sidText (plainSID s) = sidText s"
  by (simp_all add: prefixText_def plainPrefix_def sidText_def plainSID_def)

lemma plain_lines [simp]: "linkLines r (plainLink l) = linkLines r l"
  by (simp add: linkLines_def plainLink_def)

lemma printed_texts:
  "addrOrNone a = addrText a" "MetricType_DisplayString m = metricText m" "BehaviorToString b = behaviorText b"
  "printStructure st = structureText st" "printPrefix p = prefixText p" "linkLines r l = linkText (r, l)"
  "printSrv6SID s = sidText s"
proof -
  show a: "addrOrNone a = addrText a" for a by (cases a) (simp_all add: addrOrNone_def addrText_def)
  show m: "MetricType_DisplayString m = metricText m" for m by (cases m) simp_all
  show b: "BehaviorToString b = behaviorText b" for b by (simp add: BehaviorToString_def behaviorText_def)
  show st: "printStructure st = structureText st" for st by (simp add: printStructure_def structureText_def)
  show "printPrefix p = prefixText p" by (simp add: printPrefix_def prefixText_def)
  show "linkLines r l = linkText (r, l)" by (simp add: linkLines_def a m b st showSlice_def split: option.split)
  show "printSrv6SID s = sidText s" by (simp add: printSrv6SID_def sidText_def b st showSlice_def Let_def)
qed

lemma printLinks_view:
  assumes "\<And>l. l \<in> set ls \<Longrightarrow> \<exists>l' j. l = Some l' \<and> lk_RemoteNode l' = Some j \<and> j < length h"
  shows "printLinks h ls = Inr (concat (map (\<lambda>(remote, l). linkLines remote l) (map (linkView h) ls)))"
  using assms
proof (induction ls)
  case (Cons l ls)
  then obtain l' j where "l = Some l'" "lk_RemoteNode l' = Some j" "j < length h" by (meson list.set_intros(1))
  then show ?case using Cons by (simp add: printLink_def linkView_def)
qed simp

lemma somes_concat: "None \<notin> set xs \<Longrightarrow> concat (map (\<lambda>x. case x of None \<Rightarrow> [] | Some y \<Rightarrow> f y) xs) = concat (map (f \<circ> the) xs)"
proof (induction xs)
  case (Cons x xs)
  then show ?case by (cases x) auto
qed simp

lemma printNodes_views:
  assumes "ted_ok asn (h, t)" "\<And>rid p. (rid, p) \<in> set ns \<Longrightarrow> map_of (ted_Nodes t) rid = Some p"
  shows "printNodes h k ns = Inr (viewsLines k (tedViewOf (h, t)) (map fst ns))"
  using assms(2)
proof (induction ns arbitrary: k)
  case (Cons n ns)
  obtain rid p where n: "n = (rid, p)" by (cases n)
  then have m: "map_of (ted_Nodes t) rid = Some p" using Cons.prems by simp
  from ted_okD [OF assms(1), of rid p] m obtain i where
    i: "p = Some i" "i < length h" "nd_RouterID (h ! i) = rid" "node_ok (h, t) i" by auto
  have v: "tedViewOf (h, t) rid = Some (nodeView h (h ! i))" using m i(1) by (simp add: tedViewOf_def)
  have l: "\<exists>l' j. l = Some l' \<and> lk_RemoteNode l' = Some j \<and> j < length h" if "l \<in> set (nd_Links (h ! i))" for l
  proof -
    have "l \<in> set (nd_Links (fst (h, t) ! i))" using that by simp
    from node_ok_remote [OF assms(1) i(4) this] show ?thesis unfolding fst_conv snd_conv by metis
  qed
  have links: "printNodeLinks h (h ! i) = Inr (''  Links:'' # concat (map (\<lambda>(remote, l). linkLines remote l) (map (linkView h) (nd_Links (h ! i)))))"
    using printLinks_view [OF l] by (simp add: printNodeLinks_def)
  have none: "None \<notin> set (nd_Prefixes (h ! i))" "None \<notin> set (nd_SRv6SIDs (h ! i))" using i(4) by (simp_all add: node_ok_def Let_def)
  have IH: "printNodes h (Suc k) ns = Inr (viewsLines (Suc k) (tedViewOf (h, t)) (map fst ns))" using Cons by simp
  show ?case
    by (simp only: n i(1) printNodes.simps loadNode_Some [OF i(2)] bindE_simps links IH)
      (simp add: v viewLines_def nodeView_def printed_texts(5-7) printNodeBasic_def case_prod_unfold printNodePrefixes_def printNodeSRv6SIDs_def somes_concat none comp_def)
qed simp

lemma dom_tedViewOf:
  assumes "ted_ok asn st"
  shows "dom (tedViewOf st) = set (map fst (ted_Nodes (snd st)))"
proof -
  have "tedViewOf st rid = None \<longleftrightarrow> map_of (ted_Nodes (snd st)) rid = None" for rid
  proof (cases "map_of (ted_Nodes (snd st)) rid")
    case (Some p)
    from ted_okD [OF assms Some] obtain i where "p = Some i" by metis
    with Some show ?thesis by (simp add: tedViewOf_def)
  qed (simp add: tedViewOf_def)
  then show ?thesis by (auto simp: dom_def map_of_eq_None_iff)
qed

text \<open>What the client holds, and in which order its nodes are ranged over.\<close>

lemma ted_served_nodes:
  assumes "pce_ted sv = Some st" "ted_ok asn st" "orders_ok env" "\<And>rid v. tedViewOf st rid = Some v \<Longrightarrow> view_wire_ok v"
    and "\<And>ns. mset (order ns) = mset ns"
  shows "\<exists>h t. Client_GetTED (GetTED env sv) = Inr (h, t) \<and> ted_ok asn (h, t) \<and>
    tedViewOf (h, t) = (\<lambda>rid. map_option wireView (tedViewOf st rid)) \<and>
    (\<forall>rid p. (rid, p) \<in> set (order (ted_Nodes t)) \<longrightarrow> map_of (ted_Nodes t) rid = Some p) \<and>
    distinct (map fst (order (ted_Nodes t))) \<and> set (map fst (order (ted_Nodes t))) = dom (tedViewOf st)"
proof -
  obtain st' where st': "Client_GetTED (GetTED env sv) = Inr st'" "ted_ok asn st'"
      "\<forall>rid. tedViewOf st' rid = map_option wireView (tedViewOf st rid)"
    using GetTED_served [OF assms(1-3)] assms(4) by blast
  obtain h t where ht: "st' = (h, t)" by (cases st')
  have d: "distinct (map fst (ted_Nodes t))" using st'(2) by (simp add: ted_ok_def ht)
  let ?ns = "order (ted_Nodes t)"
  have m: "mset (map fst ?ns) = mset (map fst (ted_Nodes t))" using assms(5) by simp
  have s: "set ?ns = set (ted_Nodes t)" using assms(5) by (metis set_mset_mset)
  have "set (map fst ?ns) = set (map fst (ted_Nodes t))" using s by simp
  also have "\<dots> = dom (tedViewOf (h, t))" using dom_tedViewOf [OF st'(2)] by (simp add: ht)
  also have "\<dots> = dom (tedViewOf st)" using st'(3) ht by (auto simp: dom_def)
  finally have dom: "set (map fst ?ns) = dom (tedViewOf st)" .
  have "distinct (map fst ?ns)" using d m mset_eq_imp_distinct_iff by blast
  with dom show ?thesis using st' d s by (intro exI [where x = h] exI [where x = t]) (auto simp: ht)
qed

text \<open>
  The command \<open>pola ted\<close> prints every node of the server's database exactly once, numbered, with its
  prefixes, links and SIDs as the server holds them.
\<close>

theorem ted_printed:
  assumes "pce_ted sv = Some st" "ted_ok asn st" "orders_ok env" "\<And>rid v. tedViewOf st rid = Some v \<Longrightarrow> view_wire_ok v"
    and "\<And>ns. mset (order ns) = mset ns"
  shows "\<exists>st' rids. Client_GetTED (GetTED env sv) = Inr st' \<and> distinct rids \<and> set rids = dom (tedViewOf st) \<and>
    LsTED_Print order (Some st') = Inr (viewsLines 1 (\<lambda>rid. map_option wireView (tedViewOf st rid)) rids)"
proof -
  obtain h t where ht: "Client_GetTED (GetTED env sv) = Inr (h, t)" "ted_ok asn (h, t)"
      "tedViewOf (h, t) = (\<lambda>rid. map_option wireView (tedViewOf st rid))"
      "\<And>rid p. (rid, p) \<in> set (order (ted_Nodes t)) \<Longrightarrow> map_of (ted_Nodes t) rid = Some p"
      "distinct (map fst (order (ted_Nodes t)))" "set (map fst (order (ted_Nodes t))) = dom (tedViewOf st)"
    using ted_served_nodes [OF assms(1-3) _ assms(5)] assms(4) by blast
  have "LsTED_Print order (Some (h, t)) = Inr (viewsLines 1 (tedViewOf (h, t)) (map fst (order (ted_Nodes t))))"
    using printNodes_views [OF ht(2,4)] by (simp add: LsTED_Print_def)
  then show ?thesis using ht by metis
qed

lemma ted_printed_witness:
  "\<exists>st' rids. Client_GetTED (GetTED sampleQueryEnv (sampleServer\<lparr>pce_ted := Some ([], emptyTED)\<rparr>)) = Inr st' \<and>
     LsTED_Print (\<lambda>ns. ns) (Some st') = Inr (viewsLines 1 (\<lambda>rid. map_option wireView (tedViewOf ([], emptyTED) rid)) rids)"
proof -
  have 1: "pce_ted (sampleServer\<lparr>pce_ted := Some ([], emptyTED)\<rparr>) = Some ([], emptyTED)" by simp
  have 2: "ted_ok 65000 ([], emptyTED)" by (simp add: ted_ok_def emptyTED_def)
  have 3: "orders_ok sampleQueryEnv" by (simp add: orders_ok_def sampleQueryEnv_def)
  have 4: "view_wire_ok v" if "tedViewOf ([], emptyTED) rid = Some v" for rid v
    using that by (simp add: tedViewOf_def emptyTED_def)
  from ted_printed [OF 1 2 3, of "\<lambda>ns. ns"] 4 show ?thesis by auto
qed

end
