(* ===== verification/Polad.thy ===== *)
theory Polad
  imports Monitor Bgp_Laws Cli_Text
begin

text \<open>
  The daemon of \<open>src/cmd/polad/main.go\<close> with the TED enabled: the BGP-LS monitor and the goroutine of
  \<open>NewPCE\<close> that updates the server share an unbuffered channel, beside the sessions and the gRPC
  handlers. What the server publishes is what was imported.
\<close>

section \<open>The daemon\<close>

text \<open>A batch of elements with the nodes they point to, as one import builds them.\<close>

type_synonym batch = "TEDElem list \<times> heap"

definition imported_batch :: "batch \<Rightarrow> bool" where
  "imported_batch b \<longleftrightarrow> (\<exists>listPath. GetBGPlsNLRIs listPath [] = Inr b)"

text \<open>\<open>pd_received\<close> is the batch that the goroutine has taken from the channel and not yet published.\<close>

record daemon =
  pd_monitor :: monitorState
  pd_server :: Server
  pd_received :: "batch option"
  pd_published :: "batch list"

definition startDaemon :: "PCEOptions \<Rightarrow> daemon" where
  "startDaemon opts = \<lparr>pd_monitor = monitorStart, pd_server = NewPCE opts, pd_received = None, pd_published = []\<rparr>"

text \<open>What the monitor has sent: the initial import, then the imports of the debouncer.\<close>

definition sent :: "monitorState \<Rightarrow> TEDElem list list" where
  "sent m = mo_synced m @ ds_delivered (mo_debounce m)"

text \<open>A send on the unbuffered channel is one step with its receive. An update that panics ends the process.\<close>

inductive polad_step :: "daemon \<Rightarrow> event list \<Rightarrow> daemon \<Rightarrow> bool" where
  monitor: "monitor_step (pd_monitor d) es m \<Longrightarrow> sent m = sent (pd_monitor d) \<Longrightarrow>
    polad_step d es (d\<lparr>pd_monitor := m\<rparr>)"
| receive: "monitor_step (pd_monitor d) es m \<Longrightarrow> sent m = sent (pd_monitor d) @ [fst b] \<Longrightarrow> imported_batch b \<Longrightarrow>
    pd_received d = None \<Longrightarrow> polad_step d es (d\<lparr>pd_monitor := m, pd_received := Some b\<rparr>)"
| publish: "pd_received d = Some b \<Longrightarrow> updateTED (snd b) (fst b) (pd_server d) = Inr sv \<Longrightarrow>
    polad_step d [] (d\<lparr>pd_server := sv, pd_received := None, pd_published := pd_published d @ [b]\<rparr>)"
| serve: "server_step (pd_server d) sv \<Longrightarrow> pce_ted sv = pce_ted (pd_server d) \<Longrightarrow> polad_step d [] (d\<lparr>pd_server := sv\<rparr>)"

inductive polad_run :: "daemon \<Rightarrow> event list \<Rightarrow> daemon \<Rightarrow> bool" where
  refl: "polad_run d [] d"
| step: "polad_run d es d1 \<Longrightarrow> polad_step d1 es' d2 \<Longrightarrow> polad_run d (es @ es') d2"

section \<open>One delivery per fetch\<close>

fun busy :: "phase \<Rightarrow> bool" where
  "busy Fetching = True" | "busy (Delivering _) = True" | "busy _ = False"

definition delivered_inv :: "event list \<Rightarrow> debounceState \<Rightarrow> bool" where
  "delivered_inv es s \<longleftrightarrow> length (ds_delivered s) + length (filter busy (ds_goroutines s)) \<le> fetches es"

lemma fetches_append [simp]: "fetches (es @ es') = fetches es + fetches es'"
  by (simp add: fetches_def)

lemma delivered_inv_step:
  assumes "debounce_step s es' s'" "debounce_inv cd es s" "delivered_inv es s"
  shows "delivered_inv (es @ es') s'"
  using assms(1)
proof cases
  case (check i)
  then show ?thesis using debounce_single [OF assms(2) check(3)] assms(3)
    by (auto simp: delivered_inv_def goPhase_def checkPhase_def Let_def fetches_def split: if_splits)
next
  case trigger
  then show ?thesis using assms(3) by (auto simp: delivered_inv_def triggerStep_def Trigger_def fetches_def)
next
  case (timer i t)
  then show ?thesis using debounce_single [OF assms(2) timer(3)] assms(3) by (auto simp: delivered_inv_def goPhase_def)
next
  case (stop i t)
  then show ?thesis using debounce_single [OF assms(2) stop(3)] assms(3) by (auto simp: delivered_inv_def goPhase_def)
next
  case (fetch i f)
  then show ?thesis using debounce_single [OF assms(2) fetch(3)] assms(3)
    by (auto simp: delivered_inv_def goPhase_def fetchPhase_def split: sum.splits)
next
  case (deliver i es)
  then show ?thesis using debounce_single [OF assms(2) deliver(3)] assms(3) by (auto simp: delivered_inv_def goPhase_def)
next
  case (dropped i es)
  then show ?thesis using debounce_single [OF assms(2) dropped(3)] assms(3) by (auto simp: delivered_inv_def goPhase_def)
next
  case (leave i)
  then show ?thesis using debounce_single [OF assms(2) leave(3)] assms(3) by (auto simp: delivered_inv_def exitStep_def)
qed (use assms(3) in \<open>simp_all add: delivered_inv_def\<close>)

lemma delivered_inv_run:
  assumes "debounce_run (debounceStart cd) es s"
  shows "delivered_inv es s"
  using assms
proof (induction "debounceStart cd" es s rule: debounce_run.induct)
  case refl
  then show ?case by (simp add: delivered_inv_def debounceStart_def)
next
  case (step es s1 es' s2)
  then show ?case using delivered_inv_step debounce_inv_run by blast
qed

section \<open>What the server publishes\<close>

lemma polad_monitor:
  assumes "polad_run (startDaemon opts) es d"
  shows "monitor_run monitorStart es (pd_monitor d)"
  using assms
proof (induction "startDaemon opts" es d rule: polad_run.induct)
  case refl
  then show ?case by (simp add: startDaemon_def monitor_run.refl)
next
  case (step es d1 es' d2)
  from step.hyps(3) show ?case
    by cases (use step.hyps(2) monitor_run.step in \<open>auto intro: monitor_run.step\<close>)
qed

text \<open>The database of the server after a batch.\<close>

definition serves :: "Server \<Rightarrow> batch list \<Rightarrow> bool" where
  "serves sv bs \<longleftrightarrow> (\<exists>st. pce_ted sv = Some st \<and> ted_ok (pce_asn sv) st \<and>
     tedViewOf st = (if bs = [] then Map.empty else foldl (view_update (snd (last bs)) (pce_asn sv)) Map.empty (fst (last bs))))"

definition daemon_inv :: "PCEOptions \<Rightarrow> daemon \<Rightarrow> bool" where
  "daemon_inv opts d \<longleftrightarrow> serves (pd_server d) (pd_published d) \<and> pce_asn (pd_server d) = opt_ASN opts \<and>
     list_all imported_batch (pd_published d) \<and> (\<forall>b. pd_received d = Some b \<longrightarrow> imported_batch b) \<and>
     sent (pd_monitor d) = map fst (pd_published d) @ (case pd_received d of None \<Rightarrow> [] | Some b \<Rightarrow> [fst b])"

lemma server_step_asn: "server_step sv sv' \<Longrightarrow> pce_asn sv' = pce_asn sv"
  by (induction rule: server_step.induct)
    (auto simp: acceptSession_def closeSession_def updateTED_def setTED_def updateSession_def Let_def bindE_eq_Inr split: option.splits)

lemma batch_published:
  assumes "imported_batch b"
  shows "\<exists>st. updateTED (snd b) (fst b) sv = Inr (setTED st sv) \<and> ted_ok (pce_asn sv) st \<and>
    tedViewOf st = foldl (view_update (snd b) (pce_asn sv)) Map.empty (fst b)"
  using assms update_published GetBGPlsNLRIs_imported unfolding imported_batch_def by (metis prod.collapse)

lemma daemon_inv_step:
  assumes "polad_step d es d'" "daemon_inv opts d"
  shows "daemon_inv opts d'"
  using assms(1)
proof cases
  case (publish b sv)
  then have "imported_batch b" using assms(2) by (simp add: daemon_inv_def)
  from batch_published [OF this, of "pd_server d"] show ?thesis
    using publish assms(2) by (auto simp: daemon_inv_def serves_def setTED_def)
next
  case (serve sv)
  then show ?thesis using assms(2) server_step_asn by (auto simp: daemon_inv_def serves_def)
qed (use assms(2) in \<open>auto simp: daemon_inv_def\<close>)

lemma daemon_inv_run:
  assumes "polad_run (startDaemon opts) es d" "opt_TEDEnable opts"
  shows "daemon_inv opts d"
  using assms(1)
proof (induction "startDaemon opts" es d rule: polad_run.induct)
  case refl
  then show ?case using assms(2)
    by (auto simp: daemon_inv_def startDaemon_def serves_def NewPCE_def setTED_def Let_def sent_def monitorStart_def
        debounceStart_def ted_ok_def tedViewOf_def)
next
  case (step es d1 es' d2)
  then show ?case using daemon_inv_step by blast
qed

text \<open>
  C3: The daemon with the TED enabled. However its goroutines interleave and whatever peers, operators and
  GoBGP do, the database that the server answers from is that of the last batch it has published,
  computed afresh from the elements of one complete import, and empty before the first; batches are
  published in the order in which they were imported, none is skipped, one that has been received is
  always published, and there are no more of them than changes of the table, plus the initial import.
\<close>

theorem polad_serves_imports:
  assumes "polad_options c = Inr opts" "opt_TEDEnable opts" "polad_run (startDaemon opts) es d"
  shows "\<exists>st. pce_ted (pd_server d) = Some st \<and> ted_ok (opt_ASN opts) st \<and>
    tedViewOf st = (case rev (pd_published d) of
        [] \<Rightarrow> Map.empty | (elems, h) # _ \<Rightarrow> foldl (view_update h (opt_ASN opts)) Map.empty elems) \<and>
    list_all imported_batch (pd_published d) \<and>
    sent (pd_monitor d) = map fst (pd_published d) @ (case pd_received d of None \<Rightarrow> [] | Some b \<Rightarrow> [fst b]) \<and>
    (\<forall>b. pd_received d = Some b \<longrightarrow> (\<exists>d'. polad_step d [] d' \<and> pd_received d' = None \<and> pd_published d' = pd_published d @ [b])) \<and>
    length (pd_published d) \<le> Suc (triggers es)"
proof -
  note inv = daemon_inv_run [OF assms(3,2)]
  have r: "monitor_run monitorStart es (pd_monitor d)" using polad_monitor [OF assms(3)] .
  have db: "debounce_run (debounceStart (seconds 5)) es (mo_debounce (pd_monitor d))"
    using monitor_run_debounce [OF r] by (simp add: monitorStart_def)
  have "length (sent (pd_monitor d)) \<le> Suc (triggers es)"
    using delivered_inv_run [OF db] debounce_inv_run [OF db] monitor_inv_run [OF r]
    by (simp add: sent_def delivered_inv_def debounce_inv_def monitor_inv_def)
  moreover have "length (pd_published d) \<le> length (sent (pd_monitor d))" using inv by (simp add: daemon_inv_def)
  moreover have "\<exists>d'. polad_step d [] d' \<and> pd_received d' = None \<and> pd_published d' = pd_published d @ [b]"
    if b: "pd_received d = Some b" for b
  proof -
    have "imported_batch b" using inv b by (simp add: daemon_inv_def)
    then obtain sv where "updateTED (snd b) (fst b) (pd_server d) = Inr sv" using batch_published by blast
    from polad_step.publish [OF b this] show ?thesis by fastforce
  qed
  ultimately show ?thesis using inv
    by (cases "pd_published d" rule: rev_cases) (auto simp: daemon_inv_def serves_def split: prod.splits)
qed

section \<open>Witness\<close>

definition daemonConfig :: GlobalConfig where
  "daemonConfig = \<lparr>cf_PCEPAddress = ''::'', cf_PCEPPort = ''4189'', cf_GRPCAddress = ''127.0.0.1'', cf_GRPCPort = ''50052'',
     cf_LogPath = ''/var/log/pola/'', cf_LogName = ''polad.log'', cf_LogDebug = False,
     cf_TED = Some \<lparr>tc_Enable = True, tc_ASN = 65000, tc_Source = ''gobgp''\<rparr>,
     cf_GoBGP = \<lparr>gc_Address = ''127.0.0.1'', gc_Port = ''50051''\<rparr>, cf_USidMode = False\<rparr>"

definition daemonOptions :: PCEOptions where
  "daemonOptions = projr (polad_options daemonConfig)"

lemma daemonOptions: "polad_options daemonConfig = Inr daemonOptions" "opt_TEDEnable daemonOptions"
  by (simp_all add: daemonOptions_def polad_options_def daemonConfig_def Config_Validate_def required_def)

lemma polad_run_step: "polad_step d es d1 \<Longrightarrow> polad_run d0 es0 d \<Longrightarrow> polad_run d0 (es0 @ es) d1"
  using polad_run.step by blast

text \<open>The initial import arrives and is published.\<close>

lemma polad_serves_imports_witness:
  "\<exists>(d :: daemon) st. pd_published d = [projr sampleImport] \<and> pce_ted (pd_server d) = Some st \<and>
     tedViewOf st = foldl (view_update (snd (projr sampleImport)) (opt_ASN daemonOptions)) Map.empty (fst (projr sampleImport))"
proof -
  let ?b = "projr sampleImport"
  have b: "imported_batch ?b" using sample_imported by (auto simp: imported_batch_def sampleImport_def intro: exI)
  let ?m1 = "monitorStart\<lparr>mo_phase := Syncing\<rparr>" and ?m2 = "monitorStart\<lparr>mo_phase := Offering (fst ?b)\<rparr>"
  let ?m3 = "monitorStart\<lparr>mo_phase := Subscribing, mo_synced := [fst ?b]\<rparr>"
  let ?d0 = "startDaemon daemonOptions"
  let ?d1 = "?d0\<lparr>pd_monitor := ?m1\<rparr>" and ?d2 = "?d0\<lparr>pd_monitor := ?m2\<rparr>"
  let ?d3 = "?d0\<lparr>pd_monitor := ?m3, pd_received := Some ?b\<rparr>"
  note start = startDaemon_def sent_def monitorStart_def
  have 1: "polad_step ?d0 [] ?d1"
    using monitor_step.connect [of monitorStart True] polad_step.monitor [of ?d0 "[]" ?m1] by (simp add: start)
  have 2: "polad_step ?d1 [] ?d2"
    using monitor_step.sync [of ?m1 "Inr (fst ?b)"] polad_step.monitor [of ?d1 "[]" ?m2] by (simp add: start initialSync_def)
  have 3: "polad_step ?d2 [] ?d3"
    using monitor_step.offer [of ?m2 "fst ?b"] polad_step.receive [of ?d2 "[]" ?m3 ?b] b by (simp add: start debounceStart_def)
  obtain sv where "updateTED (snd ?b) (fst ?b) (pd_server ?d3) = Inr sv" using batch_published [OF b] by blast
  from polad_step.publish [OF _ this] have 4: "polad_step ?d3 [] (?d3\<lparr>pd_server := sv, pd_received := None, pd_published := [?b]\<rparr>)"
    by (simp add: start)
  have "polad_run ?d0 [] (?d3\<lparr>pd_server := sv, pd_received := None, pd_published := [?b]\<rparr>)"
    using polad_run_step [OF 4 polad_run_step [OF 3 polad_run_step [OF 2 polad_run_step [OF 1 polad_run.refl]]]] by simp
  then obtain d where d: "polad_run ?d0 [] d" "pd_published d = [?b]" by fastforce
  from polad_serves_imports [OF daemonOptions d(1)] obtain st where
    st: "pce_ted (pd_server d) = Some st" "tedViewOf st = (case rev [?b] of [] \<Rightarrow> Map.empty
      | (elems, h) # _ \<Rightarrow> foldl (view_update h (opt_ASN daemonOptions)) Map.empty elems)"
    unfolding d(2) by blast
  have "tedViewOf st = foldl (view_update (snd ?b) (opt_ASN daemonOptions)) Map.empty (fst ?b)"
    unfolding st(2) by (simp split: prod.split)
  with d(2) st(1) show ?thesis by blast
qed

end
