(* ===== verification/Tlv_Log.thy ===== *)
theory Tlv_Log
  imports Tlv_Text Netip_Text
begin

text \<open>
  What \<open>src/pkg/packet/pcep\<close> writes for people to read: the names of object classes, close reasons, NAI types,
  message types and path setup types, and \<open>MarshalLogObject\<close>, the fields that a TLV adds to a log entry.
\<close>

section \<open>Names with references\<close>

text \<open>\<open>%x\<close> of a value that has a method \<open>String\<close> is the hexadecimal form of the bytes of that text.\<close>

definition hexText :: "string \<Rightarrow> string" where
  "hexText s = concat (map (\<lambda>c. string_hex 2 (of_char c)) s)"

definition objectClassDescriptions :: "u8 \<rightharpoonup> string \<times> string" where
  "objectClassDescriptions = map_of
     [(0x01, (''Open'', ''RFC5440'')),
      (0x02, (''RP'', ''RFC5440'')),
      (0x03, (''NO-PATH'', ''RFC5440'')),
      (0x04, (''END-POINTS'', ''RFC5440'')),
      (0x05, (''BANDWIDTH'', ''RFC5440'')),
      (0x06, (''METRIC'', ''RFC5440'')),
      (0x07, (''ERO'', ''RFC5440'')),
      (0x08, (''RRO'', ''RFC5440'')),
      (0x09, (''LSPA'', ''RFC5440'')),
      (0x0a, (''IRO'', ''RFC5440'')),
      (0x0b, (''SVEC'', ''RFC5440'')),
      (0x0c, (''NOTIFICATION'', ''RFC5440'')),
      (0x0d, (''PCEP-ERROR'', ''RFC5440'')),
      (0x0e, (''LOAD-BALANCING'', ''RFC5440'')),
      (0x0f, (''CLOSE'', ''RFC5440'')),
      (0x10, (''PATH-KEY'', ''RFC5520'')),
      (0x11, (''XRO'', ''RFC5521'')),
      (0x13, (''MONITORING'', ''RFC5886'')),
      (0x14, (''PCC-REQ-ID'', ''RFC5886'')),
      (0x15, (''OF'', ''RFC5541'')),
      (0x16, (''CLASSTYPE'', ''RFC5455'')),
      (0x18, (''GLOBAL-CONSTRAINTS'', ''RFC5557'')),
      (0x19, (''PCE-ID'', ''RFC5886'')),
      (0x1a, (''PROC-TIME'', ''RFC5886'')),
      (0x1b, (''OVERLOAD'', ''RFC5886'')),
      (0x1c, (''UNREACH-DESTINATION'', ''RFC8306'')),
      (0x1d, (''SERO'', ''RFC8306'')),
      (0x1e, (''SRRO'', ''RFC8306'')),
      (0x1f, (''BNC'', ''RFC8306'')),
      (0x20, (''LSP'', ''RFC8231'')),
      (0x21, (''SRP'', ''RFC8231'')),
      (0x22, (''VENDOR-INFORMATION'', ''RFC7470'')),
      (0x23, (''BU'', ''RFC8233'')),
      (0x24, (''INTER-LAYER'', ''RFC8282'')),
      (0x25, (''SWITCH-LAYER'', ''RFC8282'')),
      (0x26, (''REQ-ADAP-CAP'', ''RFC8282'')),
      (0x27, (''SERVER-INDICATION'', ''RFC8282'')),
      (0x28, (''ASSOCIATION'', ''RFC8697'')),
      (0x29, (''S2LS'', ''RFC8623'')),
      (0x2a, (''WA'', ''RFC8780'')),
      (0x2b, (''FLOWSPEC'', ''RFC9168'')),
      (0x2c, (''CCI'', ''RFC9050'')),
      (0x2d, (''PATH-ATTRIB'', ''draft-ietf-pce-multipath-07'')),
      (0x2e, (''BGP-PEER-INFO'', ''RFC9757'')),
      (0x2f, (''EXPLICIT-PEER-ROUTE'', ''RFC9757'')),
      (0x30, (''PEER-PREFIX-ADVERTISEMENT'', ''RFC9757''))]"

definition ObjectClass_String :: "u8 \<Rightarrow> string" where
  "ObjectClass_String c =
     (case objectClassDescriptions c of
        Some (description, _) \<Rightarrow> description @ '' (0x'' @ string_hex 2 (unat c) @ '')''
      | None \<Rightarrow> ''Unknown Object Class (0x'' @ string_hex 2 (unat c) @ '')'')"

definition ObjectClass_StringWithReference :: "u8 \<Rightarrow> string" where
  "ObjectClass_StringWithReference c =
     (case objectClassDescriptions c of
        Some (description, reference) \<Rightarrow> description @ '' (0x'' @ hexText (ObjectClass_String c) @ '') ['' @ reference @ '']''
      | None \<Rightarrow> ''Unknown Object Class (0x'' @ string_hex 2 (unat c) @ '')'')"

definition closeReasonDescriptions :: "u8 \<rightharpoonup> string \<times> string" where
  "closeReasonDescriptions = map_of
     [(0x01, (''No explanation provided'', ''RFC5440'')),
      (0x02, (''DeadTimer expired'', ''RFC5440'')),
      (0x03, (''Reception of a malformed PCEP message'', ''RFC5440'')),
      (0x04, (''Reception of an unacceptable number of unknown requests/replies'', ''RFC5440'')),
      (0x05, (''Reception of an unacceptable number of unrecognized PCEP messages'', ''RFC5440''))]"

definition CloseReason_String :: "u8 \<Rightarrow> string" where
  "CloseReason_String c =
     (case closeReasonDescriptions c of
        Some (description, _) \<Rightarrow> description @ '' (0x'' @ string_hex 2 (unat c) @ '')''
      | None \<Rightarrow> ''Unknown Close Reason (0x'' @ string_hex 2 (unat c) @ '')'')"

definition CloseReason_StringWithReference :: "u8 \<Rightarrow> string" where
  "CloseReason_StringWithReference c =
     (case closeReasonDescriptions c of
        Some (description, reference) \<Rightarrow> description @ '' (0x'' @ hexText (CloseReason_String c) @ '') ['' @ reference @ '']''
      | None \<Rightarrow> ''Unknown Close Reason (0x'' @ string_hex 2 (unat c) @ '')'')"

definition naiTypeSRDescriptions :: "u8 \<rightharpoonup> string \<times> string" where
  "naiTypeSRDescriptions = map_of
     [(0x00, (''NAI is absent'', ''RFC8664'')),
      (0x01, (''NAI is an IPv4 node ID'', ''RFC8664'')),
      (0x02, (''NAI is an IPv6 node ID'', ''RFC8664'')),
      (0x03, (''NAI is an IPv4 adjacency'', ''RFC8664'')),
      (0x04, (''NAI is an IPv6 adjacency with global IPv6 addresses'', ''RFC8664'')),
      (0x05, (''NAI is an unnumbered adjacency with IPv4 node IDs'', ''RFC8664'')),
      (0x06, (''NAI is an IPv6 adjacency with link-local IPv6 addresses'', ''RFC8664''))]"

definition NAITypeSR_String :: "u8 \<Rightarrow> string" where
  "NAITypeSR_String c =
     (case naiTypeSRDescriptions c of
        Some (description, _) \<Rightarrow> description @ '' (0x'' @ string_hex 2 (unat c) @ '')''
      | None \<Rightarrow> ''Unknown NAI Type (0x'' @ string_hex 2 (unat c) @ '')'')"

definition NAITypeSR_StringWithReference :: "u8 \<Rightarrow> string" where
  "NAITypeSR_StringWithReference c =
     (case naiTypeSRDescriptions c of
        Some (description, reference) \<Rightarrow> description @ '' (0x'' @ string_hex 2 (unat c) @ '') ['' @ reference @ '']''
      | None \<Rightarrow> ''Unknown NAI Type (0x'' @ string_hex 2 (unat c) @ '')'')"

definition naiTypeSRv6Descriptions :: "u8 \<rightharpoonup> string \<times> string" where
  "naiTypeSRv6Descriptions = map_of
     [(0x00, (''NAI is absent'', ''RFC9603'')),
      (0x02, (''NAI is an IPv6 node ID'', ''RFC9603'')),
      (0x04, (''NAI is an IPv6 adjacency with global IPv6 addresses'', ''RFC9603'')),
      (0x06, (''NAI is an IPv6 adjacency with link-local IPv6 addresses'', ''RFC9603''))]"

definition NAITypeSRv6_String :: "u8 \<Rightarrow> string" where
  "NAITypeSRv6_String c =
     (case naiTypeSRv6Descriptions c of
        Some (description, _) \<Rightarrow> description @ '' (0x'' @ string_hex 2 (unat c) @ '')''
      | None \<Rightarrow> ''Unknown NAI Type (0x'' @ string_hex 2 (unat c) @ '')'')"

definition NAITypeSRv6_StringWithReference :: "u8 \<Rightarrow> string" where
  "NAITypeSRv6_StringWithReference c =
     (case naiTypeSRv6Descriptions c of
        Some (description, reference) \<Rightarrow> description @ '' (0x'' @ string_hex 2 (unat c) @ '') ['' @ reference @ '']''
      | None \<Rightarrow> ''Unknown NAI Type (0x'' @ string_hex 2 (unat c) @ '')'')"

definition messageTypeDescriptions :: "u8 \<rightharpoonup> string \<times> string" where
  "messageTypeDescriptions = map_of
     [(0x01, (''Open'', ''RFC5440'')),
      (0x02, (''Keepalive'', ''RFC5440'')),
      (0x03, (''Path Computation Request'', ''RFC5440'')),
      (0x04, (''Path Computation Reply'', ''RFC5440'')),
      (0x05, (''Notification'', ''RFC5440'')),
      (0x06, (''Error'', ''RFC5440'')),
      (0x07, (''Close'', ''RFC5440'')),
      (0x08, (''Path Computation Monitoring Request'', ''RFC5886'')),
      (0x09, (''Path Computation Monitoring Reply'', ''RFC5886'')),
      (0x0a, (''Report'', ''RFC8231'')),
      (0x0b, (''Update'', ''RFC8281'')),
      (0x0c, (''LSP Initiate Request'', ''RFC8281'')),
      (0x0d, (''StartTLS'', ''RFC8253''))]"

definition MessageType_String :: "u8 \<Rightarrow> string" where
  "MessageType_String c =
     (case messageTypeDescriptions c of
        Some (description, _) \<Rightarrow> description @ '' (0x'' @ string_hex 2 (unat c) @ '')''
      | None \<Rightarrow> ''Unknown MessageType (0x'' @ string_hex 2 (unat c) @ '')'')"

definition MessageType_StringWithReference :: "u8 \<Rightarrow> string" where
  "MessageType_StringWithReference c =
     (case messageTypeDescriptions c of
        Some (description, reference) \<Rightarrow> description @ '' (0x'' @ string_hex 2 (unat c) @ '') ['' @ reference @ '']''
      | None \<Rightarrow> ''Unknown MessageType (0x'' @ string_hex 2 (unat c) @ '')'')"

definition pathSetupDescriptions :: "u8 \<rightharpoonup> string \<times> string" where
  "pathSetupDescriptions = map_of
     [(0x00, (''Path is set up using the RSVP-TE signaling protocol'', ''RFC8408'')),
      (0x01, (''Traffic engineering path is set up using Segment Routing'', ''RFC8664'')),
      (0x02, (''Traffic engineering path is set up using PCECC mode'', ''RFC9050'')),
      (0x03, (''Traffic engineering path is set up using SRv6'', ''RFC9603'')),
      (0x04, (''Native IP TE Path'', ''RFC9757''))]"

definition Pst_String :: "Pst \<Rightarrow> string" where
  "Pst_String pst =
     (case pathSetupDescriptions pst of
        Some (description, reference) \<Rightarrow> description @ '' ('' @ reference @ '')''
      | None \<Rightarrow> ''Unknown PathSetupType (0x'' @ string_hex 2 (unat pst) @ '')'')"

definition EnterpriseNumber_String :: "u32 \<Rightarrow> string" where
  "EnterpriseNumber_String en =
     (case enterpriseNumberNames en of
        Some name \<Rightarrow> name @ '' ('' @ string_of_nat (unat en) @ '')''
      | None \<Rightarrow> ''Unknown Enterprise ('' @ string_of_nat (unat en) @ '')'')"

text \<open>
  \<open>ObjectClass\<close> and \<open>CloseReason\<close> hand themselves to \<open>%02x\<close> instead of their number: what stands for the code
  is the text of \<open>String\<close> in hexadecimal, of at least ten digits.
\<close>

lemma hexText_length: "length (hexText s) = 2 * length s"
  by (induction s) (simp_all add: hexText_def numeral_2_eq_2)

lemma reference_code_wrong:
  assumes "objectClassDescriptions c = Some (description, reference)"
  shows "ObjectClass_StringWithReference c = description @ '' (0x'' @ hexText (description @ '' (0x'' @ string_hex 2 (unat c) @ '')'') @ '') ['' @ reference @ '']''"
    and "ObjectClass_StringWithReference c \<noteq> description @ '' (0x'' @ string_hex 2 (unat c) @ '') ['' @ reference @ '']''"
proof -
  show s: "ObjectClass_StringWithReference c = description @ '' (0x'' @ hexText (description @ '' (0x'' @ string_hex 2 (unat c) @ '')'') @ '') ['' @ reference @ '']''"
    using assms by (simp add: ObjectClass_StringWithReference_def ObjectClass_String_def)
  let ?h = "hexText (description @ '' (0x'' @ string_hex 2 (unat c) @ '')'')"
  have ne: "length ?h \<noteq> length (string_hex 2 (unat c))"
    by (simp add: hexText_length numeral_2_eq_2)
  show "ObjectClass_StringWithReference c \<noteq> description @ '' (0x'' @ string_hex 2 (unat c) @ '') ['' @ reference @ '']''"
  proof
    assume "ObjectClass_StringWithReference c = description @ '' (0x'' @ string_hex 2 (unat c) @ '') ['' @ reference @ '']''"
    then have "?h @ '') ['' @ reference @ '']'' = string_hex 2 (unat c) @ '') ['' @ reference @ '']''"
      unfolding s by (simp only: same_append_eq)
    then show False using ne by (metis append_same_eq)
  qed
qed

section \<open>Log fields\<close>

text \<open>The fields in the order in which they are added; a nil TLV adds none.\<close>

datatype logValue = LogBool bool | LogUint nat | LogString string | LogStrings "string list"

type_synonym logFields = "(string \<times> logValue) list"

abbreviation logWord :: "'a :: len word \<Rightarrow> logValue" where
  "logWord w \<equiv> LogUint (unat w)"

abbreviation logHex :: "bytes \<Rightarrow> logValue" where
  "logHex bs \<equiv> LogString (concat (map (\<lambda>b. string_hex 2 (unat b)) bs))"

definition VendorInformation_MarshalLogObject :: "VendorInformation \<Rightarrow> logFields" where
  "VendorInformation_MarshalLogObject tlv =
     [(''enterpriseNumber'', logWord (vi_EnterpriseNumber tlv)),
      (''enterprise'', LogString (EnterpriseNumber_String (vi_EnterpriseNumber tlv)))] @
     (if vi_EnterpriseSpecificInformation tlv \<noteq> []
      then [(''enterpriseSpecificInformation'', logHex (vi_EnterpriseSpecificInformation tlv))] else [])"

definition StatefulPCECapability_MarshalLogObject :: "StatefulPCECapability \<Rightarrow> logFields" where
  "StatefulPCECapability_MarshalLogObject tlv =
     [(''lspUpdateCapability'', LogBool (sc_LSPUpdateCapability tlv)), (''includeDBVersion'', LogBool (sc_IncludeDBVersion tlv)),
      (''lspInstantiationCapability'', LogBool (sc_LSPInstantiationCapability tlv)),
      (''triggeredResync'', LogBool (sc_TriggeredResync tlv)), (''deltaLSPSyncCapability'', LogBool (sc_DeltaLSPSyncCapability tlv)),
      (''triggeredInitialSync'', LogBool (sc_TriggeredInitialSync tlv)), (''colorCapability'', LogBool (sc_ColorCapability tlv))]"

definition SymbolicPathName_MarshalLogObject :: "SymbolicPathName \<Rightarrow> logFields" where
  "SymbolicPathName_MarshalLogObject tlv = [(''symbolicPathName'', LogString (spn_Name tlv))]"

definition logAddr :: "string \<Rightarrow> addr \<Rightarrow> logFields" where
  "logAddr k a = (if IsValid a then [(k, LogString (addr_String a))] else [])"

definition IPv4LSPIdentifiers_MarshalLogObject :: "IPv4LSPIdentifiers \<Rightarrow> logFields" where
  "IPv4LSPIdentifiers_MarshalLogObject tlv =
     logAddr ''ipv4TunnelSenderAddress'' (v4li_IPv4TunnelSenderAddress tlv) @
     logAddr ''ipv4TunnelEndpointAddress'' (v4li_IPv4TunnelEndpointAddress tlv) @
     [(''lspID'', logWord (v4li_LSPID tlv)), (''tunnelID'', logWord (v4li_TunnelID tlv)),
      (''extendedTunnelID'', logWord (v4li_ExtendedTunnelID tlv))]"

definition IPv6LSPIdentifiers_MarshalLogObject :: "IPv6LSPIdentifiers \<Rightarrow> logFields" where
  "IPv6LSPIdentifiers_MarshalLogObject tlv =
     logAddr ''ipv6TunnelSenderAddress'' (v6li_IPv6TunnelSenderAddress tlv) @
     logAddr ''ipv6TunnelEndpointAddress'' (v6li_IPv6TunnelEndpointAddress tlv) @
     [(''lspID'', logWord (v6li_LSPID tlv)), (''tunnelID'', logWord (v6li_TunnelID tlv)),
      (''extendedTunnelID'', logHex (v6li_ExtendedTunnelID tlv))]"

definition LSPDBVersion_MarshalLogObject :: "LSPDBVersion \<Rightarrow> logFields" where
  "LSPDBVersion_MarshalLogObject tlv = [(''versionNumber'', logWord (dbv_VersionNumber tlv))]"

definition SRPCECapability_MarshalLogObject :: "SRPCECapability \<Rightarrow> logFields" where
  "SRPCECapability_MarshalLogObject tlv =
     [(''unlimited_max_sid_depth'', LogBool (srp_HasUnlimitedMaxSIDDepth tlv)),
      (''nai_is_supported'', LogBool (srp_IsNAISupported tlv)), (''maximum_sid_depth'', logWord (srp_MaximumSidDepth tlv))]"

definition SRv6PCECapability_MarshalLogObject :: "SRv6PCECapability \<Rightarrow> logFields" where
  "SRv6PCECapability_MarshalLogObject tlv = [(''nai_is_supported'', LogBool (srv6p_IsNAISupported tlv))]"

definition MultipathCapability_MarshalLogObject :: "MultipathCapability \<Rightarrow> logFields" where
  "MultipathCapability_MarshalLogObject tlv =
     [(''max_multipaths'', logWord (mp_MaxMultipaths tlv)), (''weighted_is_supported'', LogBool (mp_IsWeightedSupported tlv)),
      (''opposite_dir_is_supported'', LogBool (mp_IsOppositeDirSupported tlv)),
      (''forward_class_is_supported'', LogBool (mp_IsForwardClassSupported tlv)),
      (''composite_path_is_supported'', LogBool (mp_IsCompositePathSupported tlv))]"

definition PathSetupType_MarshalLogObject :: "PathSetupType \<Rightarrow> logFields" where
  "PathSetupType_MarshalLogObject tlv = [(''pathSetupType'', LogString (Pst_String (pst_PathSetupType tlv)))]"

definition ExtendedAssociationID_MarshalLogObject :: "ExtendedAssociationID \<Rightarrow> logFields" where
  "ExtendedAssociationID_MarshalLogObject tlv =
     [(''color'', logWord (ea_Color tlv))] @
     (if IsValid (ea_Endpoint tlv) then
        (if Is4 (ea_Endpoint tlv) then [(''ipv4Addr'', LogString (addr_String (ea_Endpoint tlv)))]
         else if Is6 (ea_Endpoint tlv) then [(''ipv6Addr'', LogString (addr_String (ea_Endpoint tlv)))]
         else [])
      else [])"

definition PathSetupTypeCapability_MarshalLogObject :: "tlv PathSetupTypeCapability \<Rightarrow> logFields" where
  "PathSetupTypeCapability_MarshalLogObject tlv =
     [(''pathSetupTypes'', LogStrings (map Pst_String (psc_PathSetupTypes tlv))),
      (''subTLVs'', LogStrings (map (\<lambda>stlv. ''0x'' @ string_hex 4 (unat (tlv_Type stlv)) @ '' ('' @ TLVType_String (tlv_Type stlv) @ '')'')
        (psc_SubTLVs tlv)))]"

definition AssocTypeList_MarshalLogObject :: "AssocTypeList \<Rightarrow> logFields" where
  "AssocTypeList_MarshalLogObject tlv = [(''assocTypes'', LogStrings (map AssocType_String (atl_AssocTypes tlv)))]"

definition SRPolicyCandidatePathIdentifier_MarshalLogObject :: "SRPolicyCandidatePathIdentifier \<Rightarrow> logFields" where
  "SRPolicyCandidatePathIdentifier_MarshalLogObject tlv =
     [(''protocolOrigin'', logWord (cpid_ProtocolOrigin tlv)), (''originatorAsn'', logWord (cpid_OriginatorASN tlv)),
      (''originatorAddr'', LogString (addr_String (cpid_OriginatorAddr tlv))), (''discriminator'', logWord (cpid_Discriminator tlv))]"

definition SRPolicyCandidatePathPreference_MarshalLogObject :: "SRPolicyCandidatePathPreference \<Rightarrow> logFields" where
  "SRPolicyCandidatePathPreference_MarshalLogObject tlv = [(''preference'', logWord (cpp_Preference tlv))]"

definition Color_MarshalLogObject :: "Color \<Rightarrow> logFields" where
  "Color_MarshalLogObject tlv = [(''color'', logWord (col_Color tlv))]"

definition UnknownTLV_MarshalLogObject :: "UnknownTLV \<Rightarrow> logFields" where
  "UnknownTLV_MarshalLogObject tlv =
     [(''type'', LogString (''0x'' @ string_hex 4 (unat (unk_Typ tlv)))), (''length'', logWord (unk_Length tlv))]"

text \<open>The method of the interface; the legacy TLVs of Juniper embed the others and inherit it.\<close>

fun tlv_MarshalLogObject :: "tlv \<Rightarrow> logFields" where
  "tlv_MarshalLogObject (TLV_VendorInformation x) = VendorInformation_MarshalLogObject x"
| "tlv_MarshalLogObject (TLV_StatefulPCECapability x) = StatefulPCECapability_MarshalLogObject x"
| "tlv_MarshalLogObject (TLV_SymbolicPathName x) = SymbolicPathName_MarshalLogObject x"
| "tlv_MarshalLogObject (TLV_IPv4LSPIdentifiers x) = IPv4LSPIdentifiers_MarshalLogObject x"
| "tlv_MarshalLogObject (TLV_IPv6LSPIdentifiers x) = IPv6LSPIdentifiers_MarshalLogObject x"
| "tlv_MarshalLogObject (TLV_LSPDBVersion x) = LSPDBVersion_MarshalLogObject x"
| "tlv_MarshalLogObject (TLV_SRPCECapability x) = SRPCECapability_MarshalLogObject x"
| "tlv_MarshalLogObject (TLV_SRv6PCECapability x) = SRv6PCECapability_MarshalLogObject x"
| "tlv_MarshalLogObject (TLV_MultipathCapability x) = MultipathCapability_MarshalLogObject x"
| "tlv_MarshalLogObject (TLV_PathSetupType x) = PathSetupType_MarshalLogObject x"
| "tlv_MarshalLogObject (TLV_ExtendedAssociationID x) = ExtendedAssociationID_MarshalLogObject x"
| "tlv_MarshalLogObject (TLV_AssocTypeList x) = AssocTypeList_MarshalLogObject x"
| "tlv_MarshalLogObject (TLV_SRPolicyCandidatePathIdentifier x) = SRPolicyCandidatePathIdentifier_MarshalLogObject x"
| "tlv_MarshalLogObject (TLV_SRPolicyCandidatePathPreference x) = SRPolicyCandidatePathPreference_MarshalLogObject x"
| "tlv_MarshalLogObject (TLV_Color x) = Color_MarshalLogObject x"
| "tlv_MarshalLogObject (TLV_ExtendedAssociationIDIPv4Juniper x) = ExtendedAssociationID_MarshalLogObject x"
| "tlv_MarshalLogObject (TLV_SRPolicyCandidatePathIdentifierJuniper x) = SRPolicyCandidatePathIdentifier_MarshalLogObject x"
| "tlv_MarshalLogObject (TLV_SRPolicyCandidatePathPreferenceJuniper x) = SRPolicyCandidatePathPreference_MarshalLogObject x"
| "tlv_MarshalLogObject (TLV_PathSetupTypeCapability x) = PathSetupTypeCapability_MarshalLogObject x"
| "tlv_MarshalLogObject (TLV_Unknown x) = UnknownTLV_MarshalLogObject x"

lemmas log_defs = VendorInformation_MarshalLogObject_def StatefulPCECapability_MarshalLogObject_def
  SymbolicPathName_MarshalLogObject_def IPv4LSPIdentifiers_MarshalLogObject_def IPv6LSPIdentifiers_MarshalLogObject_def
  LSPDBVersion_MarshalLogObject_def SRPCECapability_MarshalLogObject_def SRv6PCECapability_MarshalLogObject_def
  MultipathCapability_MarshalLogObject_def PathSetupType_MarshalLogObject_def ExtendedAssociationID_MarshalLogObject_def
  PathSetupTypeCapability_MarshalLogObject_def AssocTypeList_MarshalLogObject_def
  SRPolicyCandidatePathIdentifier_MarshalLogObject_def SRPolicyCandidatePathPreference_MarshalLogObject_def
  Color_MarshalLogObject_def UnknownTLV_MarshalLogObject_def logAddr_def

text \<open>No TLV adds a field twice, so that the JSON object of the entry has unique keys.\<close>

lemma log_keys_distinct: "distinct (map fst (tlv_MarshalLogObject tlv))"
  by (cases tlv) (simp_all add: log_defs)

end
