(* ===== verification/Cli_Json.thy ===== *)
theory Cli_Json
  imports Cli_Text
begin

text \<open>
  What the listing commands of \<open>src/cmd/pola\<close> print: lines, or with \<open>-j\<close> a JSON value
  (\<open>ted.go\<close>, \<open>session.go\<close>, \<open>sr_policy_list.go\<close>, with the tags of \<open>src/pkg/table\<close>). A value is modelled as
  the tree that \<open>encoding/json\<close> writes, members in the order in which it writes them; the characters of
  that text are left to the encoder.
\<close>

section \<open>JSON values\<close>

datatype json =
    JNull
  | JBool bool
  | JNum int
  | JString string
  | JArray "json list"
  | JObject "(string \<times> json) list"

text \<open>A Go map is written with its keys in order.\<close>

definition jsonMap :: "(string \<times> json) list \<Rightarrow> json" where
  "jsonMap kvs = JObject (sort_key fst kvs)"

text \<open>A member of a struct with \<open>omitempty\<close> or \<open>omitzero\<close>.\<close>

definition member :: "string \<Rightarrow> json \<Rightarrow> (string \<times> json) list" where
  "member k v = [(k, v)]"

definition omitting :: "bool \<Rightarrow> string \<Rightarrow> json \<Rightarrow> (string \<times> json) list" where
  "omitting b k v = (if b then [] else [(k, v)])"

abbreviation jsonWord :: "'a :: len word \<Rightarrow> json" where
  "jsonWord w \<equiv> JNum (uint w)"

text \<open>A slice that is built by \<open>append\<close> from nil, and stays nil when it is empty.\<close>

definition jsonSlice :: "json list \<Rightarrow> json" where
  "jsonSlice xs = (if xs = [] then JNull else JArray xs)"

definition jsonAddr :: "addr \<Rightarrow> json" where
  "jsonAddr a = JString (addr_MarshalText a)"

text \<open>Reading a member of an object: a member that is missing, or of another kind, is the zero value.\<close>

definition stringField :: "string \<Rightarrow> (string \<times> json) list \<Rightarrow> string" where
  "stringField k kvs = (case map_of kvs k of Some (JString s) \<Rightarrow> s | _ \<Rightarrow> [])"

definition wordField :: "string \<Rightarrow> (string \<times> json) list \<Rightarrow> 'a :: len word" where
  "wordField k kvs = (case map_of kvs k of Some (JNum n) \<Rightarrow> word_of_int n | _ \<Rightarrow> 0)"

definition boolField :: "string \<Rightarrow> (string \<times> json) list \<Rightarrow> bool" where
  "boolField k kvs = (map_of kvs k = Some (JBool True))"

definition arrayField :: "string \<Rightarrow> (string \<times> json) list \<Rightarrow> json list" where
  "arrayField k kvs = (case map_of kvs k of Some (JArray xs) \<Rightarrow> xs | _ \<Rightarrow> [])"

definition addrField :: "string \<Rightarrow> (string \<times> json) list \<Rightarrow> addr" where
  "addrField k kvs = (case addr_UnmarshalText (stringField k kvs) of Inl _ \<Rightarrow> NoAddr | Inr a \<Rightarrow> a)"

text \<open>What a command prints.\<close>

datatype printed = Lines "string list" | Json json

section \<open>The TED\<close>

definition metricMap :: "Metric \<Rightarrow> json" where
  "metricMap metric = jsonMap [(''type'', JString (MetricType_String (mt_Type metric))), (''value'', jsonWord (mt_Value metric))]"

text \<open>The map of a link, given the router ID of its remote node.\<close>

definition linkMap :: "string \<Rightarrow> LsLink \<Rightarrow> json" where
  "linkMap remoteNode link =
     jsonMap [(''localIP'', JString (addrOrNone (lk_LocalIP link))), (''remoteIP'', JString (addrOrNone (lk_RemoteIP link))),
       (''remoteNode'', JString remoteNode), (''metrics'', JArray (map metricMap (lk_Metrics link))),
       (''adjSid'', jsonWord (lk_AdjSid link))]"

text \<open>Nil pointers panic here, where \<open>Print\<close> skips them or writes \<open>None\<close>.\<close>

definition linkJson :: "heap \<Rightarrow> LsLink option \<Rightarrow> json result" where
  "linkJson h link = (case link of
     None \<Rightarrow> panic
   | Some link \<Rightarrow> bindE (loadNode h (lk_RemoteNode link)) (\<lambda>n. Inr (linkMap (nd_RouterID n) link)))"

definition prefixMap :: "LsPrefix \<Rightarrow> json" where
  "prefixMap prefix =
     jsonMap ([(''prefix'', JString (prefix_String (px_Prefix prefix)))] @
       (if HasPrefixSID (Some prefix) then [(''sidIndex'', jsonWord (px_SidIndex prefix))] else []))"

definition behaviorJson :: "EndpointBehavior \<Rightarrow> json" where
  "behaviorJson b = JObject [(''Behavior'', jsonWord (eb_Behavior b)), (''Flags'', jsonWord (eb_Flags b)),
     (''Algorithm'', jsonWord (eb_Algorithm b))]"

definition srv6SIDMap :: "LsSrv6SID \<Rightarrow> json" where
  "srv6SIDMap srv6SID =
     jsonMap [(''sids'', jsonSlice (map JString (sv_Sids srv6SID))),
       (''endpointBehavior'', behaviorJson (sv_EndpointBehavior srv6SID)),
       (''multiTopoIDs'', jsonSlice (map jsonWord (sv_MultiTopoIDs srv6SID)))]"

definition derefJson :: "('a \<Rightarrow> json) \<Rightarrow> 'a option \<Rightarrow> json result" where
  "derefJson f p = (case p of None \<Rightarrow> panic | Some x \<Rightarrow> Inr (f x))"

definition nodeMap ::
    "u32 \<Rightarrow> string \<Rightarrow> string \<Rightarrow> string \<Rightarrow> u32 \<Rightarrow> u32 \<Rightarrow> json list \<Rightarrow> json list \<Rightarrow> json list \<Rightarrow> json" where
  "nodeMap asn routerID isisAreaID hostname srgbBegin srgbEnd links prefixes srv6SIDs =
     jsonMap [(''asn'', jsonWord asn), (''routerID'', JString routerID), (''isisAreaID'', JString isisAreaID),
       (''hostname'', JString hostname), (''srgbBegin'', jsonWord srgbBegin), (''srgbEnd'', jsonWord srgbEnd),
       (''prefixes'', JArray prefixes), (''links'', JArray links), (''srv6SIDs'', JArray srv6SIDs)]"

definition nodeJson :: "heap \<Rightarrow> nodeptr \<Rightarrow> json result" where
  "nodeJson h p =
     bindE (loadNode h p) (\<lambda>node.
     bindE (mapE (linkJson h) (nd_Links node)) (\<lambda>links.
     bindE (mapE (derefJson prefixMap) (nd_Prefixes node)) (\<lambda>prefixes.
     bindE (mapE (derefJson srv6SIDMap) (nd_SRv6SIDs node)) (\<lambda>srv6SIDs.
     Inr (nodeMap (nd_ASN node) (nd_RouterID node) (nd_IsisAreaID node) (nd_Hostname node)
       (nd_SrgbBegin node) (nd_SrgbEnd node) links prefixes srv6SIDs)))))"

text \<open>\<open>ted\<close> is what \<open>grpc.GetTED\<close> returns; the nodes arrive in the order of the range over the map.\<close>

definition printTED :: "((string \<times> nodeptr) list \<Rightarrow> (string \<times> nodeptr) list) \<Rightarrow> bool \<Rightarrow> tedState option result \<Rightarrow> printed result" where
  "printTED order jsonFlag ted =
     bindE ted (\<lambda>ted.
     case ted of
       None \<Rightarrow> Inr (Lines [''TED is disabled by polad''])
     | Some (h, t) \<Rightarrow>
         if jsonFlag then
           bindE (mapE (nodeJson h \<circ> snd) (order (ted_Nodes t))) (\<lambda>nodes.
           Inr (Json (jsonMap [(''ted'', JArray nodes)])))
         else bindE (LsTED_Print order (Some (h, t))) (\<lambda>ls. Inr (Lines ls)))"

text \<open>The client returns a database or an error, never nil: \<open>TED is disabled by polad\<close> is not printed.\<close>

definition pointer :: "'a result \<Rightarrow> 'a option result" where
  "pointer r = bindE r (\<lambda>x. Inr (Some x))"

lemma printNodes_head: "printNodes h k ns = Inr (l # ls) \<Longrightarrow> hd l = CHR ''N''"
  by (induction h k ns arbitrary: l ls rule: printNodes.induct) (auto simp: bindE_eq_Inr)

lemma printTED_never_nil: "printTED order jsonFlag (pointer r) \<noteq> Inr (Lines [''TED is disabled by polad''])"
proof
  assume e: "printTED order jsonFlag (pointer r) = Inr (Lines [''TED is disabled by polad''])"
  then obtain h t where "r = Inr (h, t)" "\<not> jsonFlag" "printNodes h 1 (order (ted_Nodes t)) = Inr [''TED is disabled by polad'']"
    by (auto simp: printTED_def pointer_def LsTED_Print_def bindE_eq_Inr split: if_splits prod.splits)
  then show False using printNodes_head by fastforce
qed

text \<open>The map of a node as the server holds it.\<close>

definition viewMap :: "string \<Rightarrow> NodeView \<Rightarrow> json" where
  "viewMap rid v = nodeMap (vw_ASN v) rid (vw_IsisAreaID v) (vw_Hostname v) (vw_SrgbBegin v) (vw_SrgbEnd v)
     (map (\<lambda>(remote, l). linkMap remote l) (vw_Links v)) (map prefixMap (vw_Prefixes v)) (map srv6SIDMap (vw_SRv6SIDs v))"

lemma plain_maps [simp]: "prefixMap (plainPrefix p) = prefixMap p" "srv6SIDMap (plainSID s) = srv6SIDMap s"
  "linkMap r (plainLink l) = linkMap r l"
  by (simp_all add: prefixMap_def plainPrefix_def srv6SIDMap_def plainSID_def linkMap_def plainLink_def)

lemma mapE_deref: "None \<notin> set xs \<Longrightarrow> mapE (derefJson f) xs = Inr (map (f \<circ> the) xs)"
proof (induction xs)
  case (Cons x xs)
  then show ?case by (cases x) (auto simp: derefJson_def)
qed simp

lemma mapE_eq_map: "(\<And>x. x \<in> set xs \<Longrightarrow> f x = Inr (g x)) \<Longrightarrow> mapE f xs = Inr (map g xs)"
  by (induction xs) auto

lemma nodeJson_view:
  assumes "ted_ok asn (h, t)" "map_of (ted_Nodes t) rid = Some p"
  shows "nodeJson h p = Inr (viewMap rid (the (tedViewOf (h, t) rid)))"
proof -
  from ted_okD [OF assms(1), of rid p] assms(2) obtain i where
    i: "p = Some i" "i < length h" "nd_RouterID (h ! i) = rid" "node_ok (h, t) i" by auto
  have "tedViewOf (h, t) rid = Some (nodeView h (h ! i))" using assms(2) i(1) by (simp add: tedViewOf_def)
  have l: "linkJson h l = Inr ((\<lambda>(remote, l). linkMap remote l) (linkView h l))" if "l \<in> set (nd_Links (h ! i))" for l
  proof -
    have "l \<in> set (nd_Links (fst (h, t) ! i))" using that by simp
    from node_ok_remote [OF assms(1) i(4) this] obtain l' j where "l = Some l'" "lk_RemoteNode l' = Some j" "j < length h"
      unfolding fst_conv snd_conv by metis
    then show ?thesis by (simp add: linkJson_def linkView_def)
  qed
  have none: "None \<notin> set (nd_Prefixes (h ! i))" "None \<notin> set (nd_SRv6SIDs (h ! i))" using i(4) by (simp_all add: node_ok_def Let_def)
  show ?thesis
    by (simp add: nodeJson_def i(1-3) loadNode_Some mapE_eq_map [OF l] mapE_deref none viewMap_def nodeView_def comp_def
        \<open>tedViewOf (h, t) rid = Some (nodeView h (h ! i))\<close>)
qed

text \<open>
  What a reader of the JSON value finds under the names of the members, and what it should find: the fields of the
  view. Structures of SIDs and the End.X SIDs of links are not in the value.
\<close>

record shownLink =
  sl_LocalIP :: string
  sl_RemoteIP :: string
  sl_RemoteNode :: string
  sl_Metrics :: "(string \<times> u32) list"
  sl_AdjSid :: u32

record shownSID =
  sd_Sids :: "string list"
  sd_Behavior :: u16
  sd_Flags :: u8
  sd_Algorithm :: u8
  sd_MultiTopoIDs :: "u32 list"

record shownNode =
  sn_ASN :: u32
  sn_RouterID :: string
  sn_IsisAreaID :: string
  sn_Hostname :: string
  sn_SrgbBegin :: u32
  sn_SrgbEnd :: u32
  sn_Prefixes :: "(string \<times> u32 option) list"
  sn_Links :: "shownLink list"
  sn_SRv6SIDs :: "shownSID list"

fun members :: "json \<Rightarrow> (string \<times> json) list" where
  "members (JObject kvs) = kvs"
| "members _ = []"

fun jsonText :: "json \<Rightarrow> string" where
  "jsonText (JString s) = s"
| "jsonText _ = []"

fun jsonNumber :: "json \<Rightarrow> 'a :: len word" where
  "jsonNumber (JNum n) = word_of_int n"
| "jsonNumber _ = 0"

definition readLinkMap :: "(string \<times> json) list \<Rightarrow> shownLink" where
  "readLinkMap kvs =
     \<lparr>sl_LocalIP = stringField ''localIP'' kvs, sl_RemoteIP = stringField ''remoteIP'' kvs,
      sl_RemoteNode = stringField ''remoteNode'' kvs,
      sl_Metrics = map (\<lambda>m. (stringField ''type'' (members m), wordField ''value'' (members m))) (arrayField ''metrics'' kvs),
      sl_AdjSid = wordField ''adjSid'' kvs\<rparr>"

definition readPrefixMap :: "(string \<times> json) list \<Rightarrow> string \<times> u32 option" where
  "readPrefixMap kvs = (stringField ''prefix'' kvs, map_option jsonNumber (map_of kvs ''sidIndex''))"

definition readSIDMap :: "(string \<times> json) list \<Rightarrow> shownSID" where
  "readSIDMap kvs =
     (let b = members (case map_of kvs ''endpointBehavior'' of Some b \<Rightarrow> b | None \<Rightarrow> JNull) in
      \<lparr>sd_Sids = map jsonText (arrayField ''sids'' kvs), sd_Behavior = wordField ''Behavior'' b, sd_Flags = wordField ''Flags'' b,
       sd_Algorithm = wordField ''Algorithm'' b, sd_MultiTopoIDs = map jsonNumber (arrayField ''multiTopoIDs'' kvs)\<rparr>)"

definition readNodeMap :: "(string \<times> json) list \<Rightarrow> shownNode" where
  "readNodeMap kvs =
     \<lparr>sn_ASN = wordField ''asn'' kvs, sn_RouterID = stringField ''routerID'' kvs, sn_IsisAreaID = stringField ''isisAreaID'' kvs,
      sn_Hostname = stringField ''hostname'' kvs, sn_SrgbBegin = wordField ''srgbBegin'' kvs, sn_SrgbEnd = wordField ''srgbEnd'' kvs,
      sn_Prefixes = map (readPrefixMap \<circ> members) (arrayField ''prefixes'' kvs),
      sn_Links = map (readLinkMap \<circ> members) (arrayField ''links'' kvs),
      sn_SRv6SIDs = map (readSIDMap \<circ> members) (arrayField ''srv6SIDs'' kvs)\<rparr>"

fun readTED :: "printed \<Rightarrow> shownNode list" where
  "readTED (Json v) = map (readNodeMap \<circ> members) (arrayField ''ted'' (members v))"
| "readTED (Lines ls) = []"

fun metricTypeName :: "MetricType \<Rightarrow> string" where
  "metricTypeName IGPMetric = ''METRIC_TYPE_IGP''"
| "metricTypeName TEMetric = ''METRIC_TYPE_TE''"
| "metricTypeName DelayMetric = ''METRIC_TYPE_DELAY''"
| "metricTypeName HopcountMetric = ''METRIC_TYPE_HOPCOUNT''"
| "metricTypeName UnspecifiedMetric = ''METRIC_TYPE_UNSPECIFIED''"

fun shownLinkOf :: "string \<times> LsLink \<Rightarrow> shownLink" where
  "shownLinkOf (remote, l) =
     \<lparr>sl_LocalIP = addrText (lk_LocalIP l), sl_RemoteIP = addrText (lk_RemoteIP l), sl_RemoteNode = remote,
      sl_Metrics = map (\<lambda>m. (metricTypeName (mt_Type m), mt_Value m)) (lk_Metrics l), sl_AdjSid = lk_AdjSid l\<rparr>"

definition shownSIDOf :: "LsSrv6SID \<Rightarrow> shownSID" where
  "shownSIDOf s =
     \<lparr>sd_Sids = sv_Sids s, sd_Behavior = eb_Behavior (sv_EndpointBehavior s), sd_Flags = eb_Flags (sv_EndpointBehavior s),
      sd_Algorithm = eb_Algorithm (sv_EndpointBehavior s), sd_MultiTopoIDs = sv_MultiTopoIDs s\<rparr>"

definition shownNodeOf :: "string \<Rightarrow> NodeView \<Rightarrow> shownNode" where
  "shownNodeOf rid v =
     \<lparr>sn_ASN = vw_ASN v, sn_RouterID = rid, sn_IsisAreaID = vw_IsisAreaID v, sn_Hostname = vw_Hostname v,
      sn_SrgbBegin = vw_SrgbBegin v, sn_SrgbEnd = vw_SrgbEnd v,
      sn_Prefixes = map (\<lambda>p. (prefix_String (px_Prefix p), if px_HasSidIndex p then Some (px_SidIndex p) else None)) (vw_Prefixes v),
      sn_Links = map shownLinkOf (vw_Links v), sn_SRv6SIDs = map shownSIDOf (vw_SRv6SIDs v)\<rparr>"

text \<open>Sorting the members does not change what is found under a name.\<close>

lemma members_jsonMap: "distinct (map fst kvs) \<Longrightarrow> map_of (members (jsonMap kvs)) = map_of kvs"
proof -
  assume d: "distinct (map fst kvs)"
  have "mset (map fst (sort_key fst kvs)) = mset (map fst kvs)" by simp
  then have "distinct (map fst (sort_key fst kvs))" using d mset_eq_imp_distinct_iff by blast
  with d show ?thesis by (simp add: jsonMap_def map_of_inject_set)
qed

lemmas field_defs = stringField_def wordField_def arrayField_def

lemma metricMap_read:
  "stringField ''type'' (members (metricMap m)) = metricTypeName (mt_Type m)" "wordField ''value'' (members (metricMap m)) = mt_Value m"
  by (cases "mt_Type m"; simp add: metricMap_def field_defs members_jsonMap)+

lemma linkMap_read: "readLinkMap (members (linkMap r l)) = shownLinkOf (r, l)"
  by (simp add: readLinkMap_def linkMap_def field_defs members_jsonMap comp_def metricMap_read [unfolded field_defs] printed_texts(1))

lemma prefixMap_read:
  "readPrefixMap (members (prefixMap p)) = (prefix_String (px_Prefix p), if px_HasSidIndex p then Some (px_SidIndex p) else None)"
  by (simp add: readPrefixMap_def prefixMap_def field_defs members_jsonMap)

lemma srv6SIDMap_read: "readSIDMap (members (srv6SIDMap s)) = shownSIDOf s"
  by (simp add: readSIDMap_def srv6SIDMap_def field_defs members_jsonMap behaviorJson_def jsonSlice_def shownSIDOf_def comp_def)

lemma viewMap_read: "readNodeMap (members (viewMap rid v)) = shownNodeOf rid v"
  by (simp add: readNodeMap_def viewMap_def nodeMap_def field_defs members_jsonMap shownNodeOf_def comp_def
      linkMap_read prefixMap_read srv6SIDMap_read case_prod_unfold)

text \<open>
  C15: The command \<open>pola ted\<close> shows the server's database. Both forms have every node of it exactly once
  and in the same order. The lines number the nodes and show, written out in \<open>viewLines\<close>, every field of a node, its
  prefixes, links and SIDs. The JSON value is an array with one object per node, and under the names of its members
  is what the view holds, except for End.X SIDs and the structures of SIDs, which the JSON form leaves out. The
  view is that of the server's database without empty SIDs; every metric in it has a type and every prefix is
  valid and has no zone, as after every import.
\<close>

theorem printTED_shows:
  assumes "pce_ted sv = Some st" "ted_ok asn st" "orders_ok env" "\<And>rid v. tedViewOf st rid = Some v \<Longrightarrow> view_wire_ok v"
    and "\<And>ns. mset (order ns) = mset ns"
  defines "view \<equiv> \<lambda>rid. map_option wireView (tedViewOf st rid)" and "ted \<equiv> pointer (Client_GetTED (GetTED env sv))"
  shows "\<exists>rids out. distinct rids \<and> set rids = dom (tedViewOf st) \<and>
    printTED order False ted = Inr (Lines (viewsLines 1 view rids)) \<and>
    printTED order True ted = Inr out \<and> readTED out = map (\<lambda>rid. shownNodeOf rid (the (view rid))) rids"
proof -
  obtain h t where ht: "Client_GetTED (GetTED env sv) = Inr (h, t)" "ted_ok asn (h, t)" "tedViewOf (h, t) = view"
      "\<And>rid p. (rid, p) \<in> set (order (ted_Nodes t)) \<Longrightarrow> map_of (ted_Nodes t) rid = Some p"
      "distinct (map fst (order (ted_Nodes t)))" "set (map fst (order (ted_Nodes t))) = dom (tedViewOf st)"
    using ted_served_nodes [OF assms(1-3) _ assms(5)] assms(4) unfolding view_def by blast
  let ?ns = "order (ted_Nodes t)"
  let ?out = "Json (jsonMap [(''ted'', JArray (map (\<lambda>n. viewMap (fst n) (the (view (fst n)))) ?ns))])"
  have "(nodeJson h \<circ> snd) n = Inr (viewMap (fst n) (the (view (fst n))))" if "n \<in> set ?ns" for n
    using nodeJson_view [OF ht(2) ht(4)] that ht(3) by (cases n) auto
  then have "mapE (nodeJson h \<circ> snd) ?ns = Inr (map (\<lambda>n. viewMap (fst n) (the (view (fst n)))) ?ns)" by (rule mapE_eq_map)
  moreover have "printNodes h 1 ?ns = Inr (viewsLines 1 view (map fst ?ns))"
    using printNodes_views [OF ht(2,4)] ht(3) by simp
  moreover have "readTED ?out = map (\<lambda>rid. shownNodeOf rid (the (view rid))) (map fst ?ns)"
    by (simp add: arrayField_def members_jsonMap comp_def viewMap_read)
  ultimately show ?thesis using ht
    by (intro exI [where x = "map fst ?ns"] exI [where x = ?out]) (simp add: printTED_def ted_def pointer_def LsTED_Print_def comp_def)
qed

section \<open>Sessions\<close>

fun capabilityDetail_json :: "capabilityDetail \<Rightarrow> json" where
  "capabilityDetail_json (StatefulDetail c) = JObject
     [(''LSPUpdate'', JBool (cs_LSPUpdate c)), (''IncludeDBVersion'', JBool (cs_IncludeDBVersion c)),
      (''LSPInstantiation'', JBool (cs_LSPInstantiation c)), (''TriggeredResync'', JBool (cs_TriggeredResync c)),
      (''DeltaLSPSync'', JBool (cs_DeltaLSPSync c)), (''TriggeredInitialSync'', JBool (cs_TriggeredInitialSync c)),
      (''Color'', JBool (cs_Color c))]"
| "capabilityDetail_json (SRDetail c) = JObject
     [(''UnlimitedMSD'', JBool (cq_UnlimitedMSD c)), (''NAISupported'', JBool (cq_NAISupported c)), (''MSD'', jsonWord (cq_MSD c))]"
| "capabilityDetail_json (SRv6Detail b) = JObject [(''NAISupported'', JBool b)]"
| "capabilityDetail_json (PathSetupTypeDetail xs) = JObject [(''PathSetupTypes'', jsonSlice (map jsonWord xs))]"
| "capabilityDetail_json (AssocTypeListDetail xs) = JObject [(''AssocTypes'', jsonSlice (map jsonWord xs))]"
| "capabilityDetail_json (LSPDBVersionDetail v) = JObject [(''VersionNumber'', jsonWord v)]"
| "capabilityDetail_json (MultipathDetail c) = JObject
     [(''MaxMultipaths'', jsonWord (cm_MaxMultipaths c)), (''Weighted'', JBool (cm_Weighted c)),
      (''OppositeDir'', JBool (cm_OppositeDir c)), (''ForwardClass'', JBool (cm_ForwardClass c)),
      (''CompositePath'', JBool (cm_CompositePath c))]"
| "capabilityDetail_json (VendorInformationDetail n) = JObject [(''EnterpriseNumber'', jsonWord n)]"
| "capabilityDetail_json (UnknownDetail t) = JObject [(''TLVType'', jsonWord t)]"

text \<open>A nil interface is null.\<close>

definition Capability_json :: "Capability \<Rightarrow> json" where
  "Capability_json c = JObject
     [(''Type'', JString (ca_Type c)),
      (''Detail'', case ca_Detail c of None \<Rightarrow> JNull | Some d \<Rightarrow> capabilityDetail_json d)]"

definition ClientSession_json :: "ClientSession \<Rightarrow> json" where
  "ClientSession_json s = JObject
     [(''Addr'', jsonAddr (cl_Addr s)), (''State'', JString (cl_State s)),
      (''Capabilities'', JArray (map Capability_json (cl_Capabilities s))), (''IsSynced'', JBool (cl_IsSynced s))]"

text \<open>\<open>GetSessions\<close> appends to a nil slice: without sessions, null is printed.\<close>

definition printSessions :: "bool \<Rightarrow> ClientSession list result \<Rightarrow> printed result" where
  "printSessions jsonFlag sessions =
     bindE sessions (\<lambda>sessions.
     Inr (if jsonFlag then Json (jsonSlice (map ClientSession_json sessions)) else Lines (showSession 0 sessions)))"

section \<open>SR policies\<close>

definition SIDStructureBytes_json :: "bytes \<Rightarrow> json" where
  "SIDStructureBytes_json s =
     (if s = [] then JNull else JString (joinWith '','' (map showWord s)))"

definition SegmentSRv6_json :: "SegmentSRv6 \<Rightarrow> json" where
  "SegmentSRv6_json seg = JObject
     (member ''sid'' (jsonAddr (s6_Sid seg)) @
      omitting (s6_LocalAddr seg = NoAddr) ''localAddr'' (jsonAddr (s6_LocalAddr seg)) @
      omitting (s6_RemoteAddr seg = NoAddr) ''remoteAddr'' (jsonAddr (s6_RemoteAddr seg)) @
      (case s6_Structure seg of None \<Rightarrow> [] | Some s \<Rightarrow> omitting (s = []) ''sidStructure'' (SIDStructureBytes_json s)) @
      omitting (\<not> s6_USid seg) ''uSid'' (JBool (s6_USid seg)))"

definition SegmentSRMPLS_json :: "SegmentSRMPLS \<Rightarrow> json" where
  "SegmentSRMPLS_json seg = JObject
     (member ''sid'' (jsonWord (sm_Sid seg)) @ omitting (sm_TTL seg = 0) ''ttl'' (jsonWord (sm_TTL seg)) @
      omitting (sm_TC seg = 0) ''tc'' (jsonWord (sm_TC seg)) @ omitting (\<not> sm_S seg) ''s'' (JBool (sm_S seg)) @
      omitting (sm_LocalAddr seg = NoAddr) ''localAddr'' (jsonAddr (sm_LocalAddr seg)) @
      omitting (sm_RemoteAddr seg = NoAddr) ''remoteAddr'' (jsonAddr (sm_RemoteAddr seg)))"

fun Segment_json :: "Segment \<Rightarrow> json" where
  "Segment_json (SRv6 v) = SegmentSRv6_json v"
| "Segment_json (SRMPLS v) = SegmentSRMPLS_json v"

definition MetricType_json :: "MetricType \<Rightarrow> json" where
  "MetricType_json m = JString (MetricType_DisplayString m)"

definition SRPolicy_json :: "SRPolicy \<Rightarrow> json" where
  "SRPolicy_json p = JObject
     (omitting (pol_PlspID p = 0) ''plspId'' (jsonWord (pol_PlspID p)) @ member ''policyName'' (JString (pol_Name p)) @
      member ''segmentList'' (JArray (map Segment_json (pol_SegmentList p))) @
      member ''srcAddr'' (jsonAddr (pol_SrcAddr p)) @ member ''dstAddr'' (jsonAddr (pol_DstAddr p)) @
      omitting (pol_SrcRouterID p = []) ''srcRouterId'' (JString (pol_SrcRouterID p)) @
      omitting (pol_DstRouterID p = []) ''dstRouterId'' (JString (pol_DstRouterID p)) @
      member ''color'' (jsonWord (pol_Color p)) @ member ''preference'' (jsonWord (pol_Preference p)) @
      omitting (pol_LSPID p = 0) ''lspId'' (jsonWord (pol_LSPID p)) @
      omitting (pol_State p = []) ''state'' (JString (pol_State p)) @
      omitting (pol_Type p = []) ''type'' (JString (pol_Type p)) @
      omitting (pol_Metric p = UnspecifiedMetric) ''metric'' (MetricType_json (pol_Metric p)))"

definition SessionSRPolicies_json :: "SessionSRPolicies \<Rightarrow> json" where
  "SessionSRPolicies_json s =
     JObject [(''peerAddr'', jsonAddr (cp_Addr s)), (''srPolicies'', JArray (map SRPolicy_json (cp_SRPolicies s)))]"

definition printSRPolicyList :: "bool \<Rightarrow> SessionSRPolicies list result \<Rightarrow> printed result" where
  "printSRPolicyList jsonFlag sessions =
     bindE (wrapE ''failed to retrieve SR policy list'' sessions) (\<lambda>sessions.
     Inr (if jsonFlag then Json (JArray (map SessionSRPolicies_json sessions)) else Lines (showSRPolicyList sessions)))"

section \<open>Reading the list back\<close>

text \<open>
  A reader of the JSON list of policies; the kind of a segment is that of its \<open>sid\<close>.
\<close>

definition readMetric :: "string \<Rightarrow> MetricType" where
  "readMetric s = (if s = ''igp'' then IGPMetric else if s = ''te'' then TEMetric else if s = ''delay'' then DelayMetric
     else if s = ''hopcount'' then HopcountMetric else UnspecifiedMetric)"

fun readSegment :: "json \<Rightarrow> Segment result" where
  "readSegment (JObject kvs) =
     (case map_of kvs ''sid'' of
        Some (JString _) \<Rightarrow> Inr (SRv6 \<lparr>s6_Sid = addrField ''sid'' kvs, s6_LocalAddr = addrField ''localAddr'' kvs,
          s6_RemoteAddr = addrField ''remoteAddr'' kvs, s6_Structure = Client_parseSidStructure (stringField ''sidStructure'' kvs),
          s6_USid = boolField ''uSid'' kvs\<rparr>)
      | Some (JNum _) \<Rightarrow> Inr (SRMPLS \<lparr>sm_Sid = wordField ''sid'' kvs, sm_TTL = wordField ''ttl'' kvs, sm_TC = wordField ''tc'' kvs,
          sm_S = boolField ''s'' kvs, sm_LocalAddr = addrField ''localAddr'' kvs, sm_RemoteAddr = addrField ''remoteAddr'' kvs\<rparr>)
      | _ \<Rightarrow> errorf ''not a segment'' [])"
| "readSegment _ = errorf ''not a segment'' []"

fun readPolicy :: "json \<Rightarrow> SRPolicy result" where
  "readPolicy (JObject kvs) =
     bindE (mapE readSegment (arrayField ''segmentList'' kvs)) (\<lambda>segmentList.
     Inr \<lparr>pol_PlspID = wordField ''plspId'' kvs, pol_Name = stringField ''policyName'' kvs, pol_SegmentList = segmentList,
       pol_SrcAddr = addrField ''srcAddr'' kvs, pol_DstAddr = addrField ''dstAddr'' kvs,
       pol_SrcRouterID = stringField ''srcRouterId'' kvs, pol_DstRouterID = stringField ''dstRouterId'' kvs,
       pol_Color = wordField ''color'' kvs, pol_Preference = wordField ''preference'' kvs, pol_LSPID = wordField ''lspId'' kvs,
       pol_State = stringField ''state'' kvs, pol_Type = stringField ''type'' kvs,
       pol_Metric = readMetric (stringField ''metric'' kvs)\<rparr>)"
| "readPolicy _ = errorf ''not a policy'' []"

fun readSession :: "json \<Rightarrow> SessionSRPolicies result" where
  "readSession (JObject kvs) =
     bindE (mapE readPolicy (arrayField ''srPolicies'' kvs)) (\<lambda>policies.
     Inr \<lparr>cp_Addr = addrField ''peerAddr'' kvs, cp_SRPolicies = policies\<rparr>)"
| "readSession _ = errorf ''not a session'' []"

fun readSRPolicyList :: "printed \<Rightarrow> SessionSRPolicies list result" where
  "readSRPolicyList (Json (JArray xs)) = mapE readSession xs"
| "readSRPolicyList _ = errorf ''not a list'' []"

lemma map_of_members [simp]:
  "map_of (member k v @ r) x = (if x = k then Some v else map_of r x)"
  "map_of (omitting b k v @ r) x = (if x = k \<and> \<not> b then Some v else map_of r x)"
  "map_of (omitting b k v) x = (if x = k \<and> \<not> b then Some v else None)"
  by (auto simp: member_def omitting_def)

lemma readMetric_text [simp]: "readMetric (MetricType_DisplayString m) = m"
  by (cases m) (simp_all add: readMetric_def)

lemma zero_empty [simp]: "addr_UnmarshalText [] = Inr NoAddr" "Client_parseSidStructure [] = None" "readMetric [] = UnspecifiedMetric"
  by (simp_all add: addr_UnmarshalText_def Client_parseSidStructure_def readMetric_def)

fun segment_json_ok :: "Segment \<Rightarrow> bool" where
  "segment_json_ok (SRv6 v) = (case s6_Structure v of None \<Rightarrow> True | Some s \<Rightarrow> length s = 4)"
| "segment_json_ok (SRMPLS v) = True"

lemmas json_fields = stringField_def wordField_def boolField_def arrayField_def addrField_def jsonAddr_def

lemma structure_json:
  assumes "length s = 4"
  shows "\<exists>t. SIDStructureBytes_json s = JString t \<and> Client_parseSidStructure t = Some s"
proof -
  obtain a b c d where s: "s = [a, b, c, d]" using assms by (auto simp: numeral_eq_Suc length_Suc_conv)
  show ?thesis using Client_parseSidStructure_text [of a b c d] by (simp add: s SIDStructureBytes_json_def)
qed

lemma SegmentSRv6_read:
  assumes "segment_json_ok (SRv6 v)"
  shows "readSegment (SegmentSRv6_json v) = Inr (SRv6 v)"
proof (cases "s6_Structure v")
  case None
  then show ?thesis by (cases v) (simp add: SegmentSRv6_json_def json_fields del: map_of_append)
next
  case (Some s)
  with assms obtain t where "SIDStructureBytes_json s = JString t" "Client_parseSidStructure t = Some s" "s \<noteq> []"
    using structure_json [of s] by fastforce
  with Some show ?thesis by (cases v) (simp add: SegmentSRv6_json_def json_fields del: map_of_append)
qed

lemma SegmentSRMPLS_read: "readSegment (SegmentSRMPLS_json v) = Inr (SRMPLS v)"
  by (cases v) (simp add: SegmentSRMPLS_json_def json_fields del: map_of_append)

lemma segment_json_read: "segment_json_ok seg \<Longrightarrow> readSegment (Segment_json seg) = Inr seg"
  by (cases seg) (simp_all add: SegmentSRv6_read SegmentSRMPLS_read del: readSegment.simps segment_json_ok.simps)

interpretation segment_json: wire_message Segment_json readSegment segment_json_ok "\<lambda>seg. seg"
  by unfold_locales (rule segment_json_read)

definition policy_json_ok :: "SRPolicy \<Rightarrow> bool" where
  "policy_json_ok p = list_all segment_json_ok (pol_SegmentList p)"

lemma policy_json_read:
  assumes "policy_json_ok p"
  shows "readPolicy (SRPolicy_json p) = Inr p"
proof -
  have "mapE readSegment (map Segment_json (pol_SegmentList p)) = Inr (pol_SegmentList p)"
    using segment_json.read_list assms by (simp add: policy_json_ok_def)
  then show ?thesis by (cases p) (simp add: SRPolicy_json_def json_fields MetricType_json_def del: map_of_append)
qed

interpretation policy_json: wire_message SRPolicy_json readPolicy policy_json_ok "\<lambda>p. p"
  by unfold_locales (rule policy_json_read)

definition session_json_ok :: "SessionSRPolicies \<Rightarrow> bool" where
  "session_json_ok s = list_all policy_json_ok (cp_SRPolicies s)"

lemma session_json_read:
  assumes "session_json_ok s"
  shows "readSession (SessionSRPolicies_json s) = Inr s"
proof -
  have "mapE readPolicy (map SRPolicy_json (cp_SRPolicies s)) = Inr (cp_SRPolicies s)"
    using policy_json.read_list assms by (simp add: session_json_ok_def)
  then show ?thesis by (cases s) (simp add: SessionSRPolicies_json_def json_fields)
qed

interpretation list_json: wire_message SessionSRPolicies_json readSession session_json_ok "\<lambda>s. s"
  by unfold_locales (rule session_json_read)

text \<open>Whatever the server answers, what the client makes of it has no SID structure of another length.\<close>

lemma parsed_structure: "Client_parseSidStructure t = Some s \<Longrightarrow> length s = 4"
  by (auto simp: Client_parseSidStructure_def Let_def mapE_Inr_iff dest: list_all2_lengthD split: if_splits sum.splits)

lemma segmentFromPB_ok:
  assumes "segmentFromPB m = Inr seg"
  shows "segment_json_ok seg"
proof -
  obtain seg0 where s: "NewSegment (ps_Sid m) = Inr seg0" using assms by (auto simp: segmentFromPB_def bindE_eq_Inr)
  then have "segment_json_ok seg0"
    by (auto simp: NewSegment_def NewSegmentSRv6_def SegmentSRv6_zero_def split: sum.splits if_splits)
  with assms s show ?thesis
    by (cases seg0) (auto simp: segmentFromPB_def Let_def parsed_structure split: option.splits)
qed

lemma mapE_all: "mapE f xs = Inr ys \<Longrightarrow> (\<And>x y. f x = Inr y \<Longrightarrow> P y) \<Longrightarrow> list_all P ys"
  by (induction xs arbitrary: ys) (auto simp: bindE_eq_Inr)

lemma convertSRPolicy_ok: "convertSRPolicy m = Inr p \<Longrightarrow> policy_json_ok p"
  by (auto simp: convertSRPolicy_def bindE_eq_Inr policy_json_ok_def segmentFromPB_ok elim!: mapE_all split: prod.splits if_splits)

lemma sessionPoliciesFromPB_ok: "sessionPoliciesFromPB m = Inr s \<Longrightarrow> session_json_ok s"
  by (auto simp: sessionPoliciesFromPB_def bindE_eq_Inr session_json_ok_def convertSRPolicy_ok elim!: mapE_all split: prod.splits if_splits)

text \<open>
  C11: Nothing is lost in \<open>pola sr-policy list -j\<close>. Whatever list of policies the client makes of the
  server's answer, the JSON value that is printed can be read back to exactly that list, although
  members with zero values are left out and the kinds of segments and the metrics are not written.
\<close>

theorem policy_list_json:
  assumes "Client_GetSRPolicyList client a = Inr sessions"
  shows "\<exists>out. printSRPolicyList True (Client_GetSRPolicyList client a) = Inr out \<and> readSRPolicyList out = Inr sessions"
proof -
  have "list_all session_json_ok sessions"
    using assms sessionPoliciesFromPB_ok by (auto simp: Client_GetSRPolicyList_def bindE_eq_Inr elim!: mapE_all)
  then show ?thesis using list_json.read_list by (simp add: assms printSRPolicyList_def wrapE_def)
qed

section \<open>Witnesses\<close>

text \<open>A router with two interfaces that are connected to each other, a prefix with an index, and a SID.\<close>

definition loopState :: tedState where
  "loopState =
     ([\<lparr>nd_ASN = 65000, nd_RouterID = ''A'', nd_IsisAreaID = ''49'', nd_Hostname = ''a'', nd_SrgbBegin = 16000, nd_SrgbEnd = 24000,
        nd_Links = [Some \<lparr>lk_LocalNode = Some 0, lk_RemoteNode = Some 0, lk_LocalIP = Addr4 1, lk_RemoteIP = NoAddr,
          lk_Metrics = [\<lparr>mt_Type = IGPMetric, mt_Value = 10\<rparr>], lk_AdjSid = 7, lk_Srv6EndXSID = None\<rparr>],
        nd_Prefixes = [Some \<lparr>px_LocalNode = Some 0, px_Prefix = \<lparr>pfx_Addr = Addr4 1, pfx_Bits = 32\<rparr>, px_SidIndex = 5,
          px_HasSidIndex = True\<rparr>],
        nd_SRv6SIDs = [Some \<lparr>sv_LocalNode = Some 0, sv_Sids = [''fd00::1''],
          sv_EndpointBehavior = \<lparr>eb_Behavior = 1, eb_Flags = 0, eb_Algorithm = 128\<rparr>,
          sv_SIDStructure = \<lparr>st_LocalBlock = 32, st_LocalNode = 16, st_LocalFunc = 0, st_LocalArg = 0\<rparr>, sv_MultiTopoIDs = [2]\<rparr>]\<rparr>],
      \<lparr>ted_Nodes = [(''A'', Some 0)]\<rparr>)"

definition loopView :: NodeView where
  "loopView =
     \<lparr>vw_ASN = 65000, vw_IsisAreaID = ''49'', vw_Hostname = ''a'', vw_SrgbBegin = 16000, vw_SrgbEnd = 24000,
      vw_Links = [(''A'', \<lparr>lk_LocalNode = None, lk_RemoteNode = None, lk_LocalIP = Addr4 1, lk_RemoteIP = NoAddr,
        lk_Metrics = [\<lparr>mt_Type = IGPMetric, mt_Value = 10\<rparr>], lk_AdjSid = 7, lk_Srv6EndXSID = None\<rparr>)],
      vw_Prefixes = [\<lparr>px_LocalNode = None, px_Prefix = \<lparr>pfx_Addr = Addr4 1, pfx_Bits = 32\<rparr>, px_SidIndex = 5, px_HasSidIndex = True\<rparr>],
      vw_SRv6SIDs = [\<lparr>sv_LocalNode = None, sv_Sids = [''fd00::1''], sv_EndpointBehavior = \<lparr>eb_Behavior = 1, eb_Flags = 0, eb_Algorithm = 128\<rparr>,
        sv_SIDStructure = \<lparr>st_LocalBlock = 32, st_LocalNode = 16, st_LocalFunc = 0, st_LocalArg = 0\<rparr>, sv_MultiTopoIDs = [2]\<rparr>]\<rparr>"

lemma loopState_view: "tedViewOf loopState ''A'' = Some loopView" "wireView loopView = loopView"
  by (simp add: tedViewOf_def loopState_def nodeView_def linkView_def ptrRouterID_def plainLink_def plainPrefix_def plainSID_def loopView_def)
    (simp add: loopView_def wireView_def wireLink_def wirePrefix_def wireSID_def)

lemma loopView_shown:
  "shownNodeOf ''A'' loopView =
     \<lparr>sn_ASN = 65000, sn_RouterID = ''A'', sn_IsisAreaID = ''49'', sn_Hostname = ''a'', sn_SrgbBegin = 16000, sn_SrgbEnd = 24000,
      sn_Prefixes = [(prefix_String \<lparr>pfx_Addr = Addr4 1, pfx_Bits = 32\<rparr>, Some 5)],
      sn_Links = [\<lparr>sl_LocalIP = addr_String (Addr4 1), sl_RemoteIP = ''None'', sl_RemoteNode = ''A'',
        sl_Metrics = [(''METRIC_TYPE_IGP'', 10)], sl_AdjSid = 7\<rparr>],
      sn_SRv6SIDs = [\<lparr>sd_Sids = [''fd00::1''], sd_Behavior = 1, sd_Flags = 0, sd_Algorithm = 128, sd_MultiTopoIDs = [2]\<rparr>]\<rparr>"
  by (simp add: shownNodeOf_def shownSIDOf_def addrText_def loopView_def del: addr_String.simps)

lemma loopView_lines:
  "viewLines 1 ''A'' loopView = concat [
      [''Node: '' @ string_of_nat 1, ''  A'', ''  Hostname: a'', ''  ISIS Area ID: 49'',
       ''  SRGB: '' @ string_of_nat 16000 @ '' - '' @ string_of_nat 24000, ''  Prefixes:'',
       ''    '' @ prefix_String \<lparr>pfx_Addr = Addr4 1, pfx_Bits = 32\<rparr>, ''      index: '' @ string_of_nat 5],
      [''  Links:'', ''    Local: '' @ addr_String (Addr4 1) @ '' Remote: None'', ''      RemoteNode: A'',
       ''      Metrics:'', ''        igp: '' @ string_of_nat 10, ''      Adj-SID: '' @ string_of_nat 7],
      [''  SRv6 SIDs:'', ''    SIDs: [fd00::1]'',
       ''    Block: '' @ string_of_nat 32 @ '', Node: '' @ string_of_nat 16 @ '', Func: '' @ string_of_nat 0 @ '', Arg: '' @ string_of_nat 0,
       ''    EndpointBehavior: END, Flags: '' @ string_of_nat 0 @ '', Algorithm: '' @ string_of_nat 128,
       ''    MultiTopoIDs: ['' @ string_of_nat 2 @ '']'', []]]"
  by (simp add: viewLines_def prefixText_def sidText_def structureText_def behaviorText_def addrText_def loopView_def
      del: addr_String.simps)

lemma printTED_shows_witness:
  "\<exists>out. printTED (\<lambda>ns. ns) False (pointer (Client_GetTED (GetTED sampleQueryEnv (sampleServer\<lparr>pce_ted := Some loopState\<rparr>)))) =
      Inr (Lines (viewLines 1 ''A'' loopView)) \<and>
    printTED (\<lambda>ns. ns) True (pointer (Client_GetTED (GetTED sampleQueryEnv (sampleServer\<lparr>pce_ted := Some loopState\<rparr>)))) = Inr out \<and>
    readTED out = [shownNodeOf ''A'' loopView]"
proof -
  have 1: "pce_ted (sampleServer\<lparr>pce_ted := Some loopState\<rparr>) = Some loopState" by simp
  have 2: "ted_ok 65000 loopState"
    by (simp add: ted_ok_def loopState_def entry_ok_def node_ok_def)
  have 3: "orders_ok sampleQueryEnv" by (simp add: orders_ok_def sampleQueryEnv_def)
  have 5: "dom (tedViewOf loopState) = {''A''}"
    by (auto simp: tedViewOf_def loopState_def split: if_splits)
  have 4: "view_wire_ok v" if "tedViewOf loopState rid = Some v" for rid v
  proof -
    have "rid = ''A''" using that 5 by auto
    then have "v = loopView" using that loopState_view(1) by simp
    then show ?thesis by (simp add: loopView_def view_wire_ok_def link_wire_ok_def prefix_wire_ok_def prefix_IsValid_def)
  qed
  obtain rids out where r: "distinct rids" "set rids = {''A''}"
      "printTED (\<lambda>ns. ns) False (pointer (Client_GetTED (GetTED sampleQueryEnv (sampleServer\<lparr>pce_ted := Some loopState\<rparr>)))) =
        Inr (Lines (viewsLines 1 (\<lambda>rid. map_option wireView (tedViewOf loopState rid)) rids))"
      "printTED (\<lambda>ns. ns) True (pointer (Client_GetTED (GetTED sampleQueryEnv (sampleServer\<lparr>pce_ted := Some loopState\<rparr>)))) = Inr out"
      "readTED out = map (\<lambda>rid. shownNodeOf rid (the (map_option wireView (tedViewOf loopState rid)))) rids"
    using printTED_shows [OF 1 2 3, of "\<lambda>ns. ns"] 4 unfolding 5 by blast
  have "length rids = 1" using distinct_card [OF r(1)] r(2) by simp
  then have "rids = [''A'']" using r(2) by (cases rids) auto
  then show ?thesis using r(3-5) by (simp add: loopState_view)
qed

text \<open>An answer with one session and one policy.\<close>

definition listedSession :: pbSession where
  "listedSession = \<lparr>bp_Addr = AsSlice (Addr4 1), bp_State = 2, bp_Capabilities = [], bp_IsSynced = True,
     bp_SrPolicies = [buildPBSRPolicy (Addr4 1) (NewSRPolicy 1 ''p'' [SRMPLS (NewSegmentSRMPLS 16003)] (Addr4 1) (Addr4 2) 100 0 1 ''up'') Map.empty]\<rparr>"

lemma policy_list_json_witness:
  "\<exists>sessions out. length sessions = 1 \<and>
     printSRPolicyList True (Client_GetSRPolicyList (\<lambda>_. Inr [listedSession]) NoAddr) = Inr out \<and> readSRPolicyList out = Inr sessions"
proof -
  let ?p = "NewSRPolicy 1 ''p'' [SRMPLS (NewSegmentSRMPLS 16003)] (Addr4 1) (Addr4 2) 100 0 1 ''up''"
  have "policy_wire_ok ?p" by (simp add: policy_wire_ok_def NewSRPolicy_def wire_addr_def)
  then have "convertSRPolicy (buildPBSRPolicy (Addr4 1) ?p Map.empty) = Inr (wirePolicy Map.empty ?p)"
    by (rule policy_message.roundtrip)
  moreover have "wire_addr (Addr4 1)" by (simp add: wire_addr_def)
  ultimately have "Client_GetSRPolicyList (\<lambda>_. Inr [listedSession]) NoAddr =
      Inr [\<lparr>cp_Addr = Addr4 1, cp_SRPolicies = [wirePolicy Map.empty ?p]\<rparr>]"
    by (simp add: Client_GetSRPolicyList_def sessionPoliciesFromPB_def listedSession_def del: AsSlice.simps)
  from policy_list_json [OF this] show ?thesis by fastforce
qed

end
