(* ===== verification/Cli_Cmd.thy ===== *)
theory Cli_Cmd
  imports Cli_Text
begin

text \<open>
  From the command line to the functions that do the work: \<open>pola sr-policy add\<close> and \<open>delete\<close>
  (\<open>src/cmd/pola\<close>) and the start of \<open>polad\<close> (\<open>src/cmd/polad/main.go\<close>) up to the server. Opening a file,
  decoding YAML and starting the log are outside \<open>src/\<close>: they are arguments, which return a value or the
  text of an error.
\<close>

section \<open>The commands on policies\<close>

text \<open>\<open>os.Open\<close> and then \<open>yaml.NewDecoder(f).Decode\<close>.\<close>

definition readYaml :: "(string \<Rightarrow> string + 'f) \<Rightarrow> ('f \<Rightarrow> string + 'a) \<Rightarrow> string \<Rightarrow> 'a cli" where
  "readYaml openFile decode filepath =
     (if filepath = [] then cliError ''file path option \"-f filepath\" is mandatory''
      else case openFile filepath of
          Inl e \<Rightarrow> cliError (''failed to open file \"'' @ filepath @ ''\": '' @ e)
        | Inr f \<Rightarrow>
            (case decode f of
               Inl e \<Rightarrow> cliError (''YAML syntax error in file \"'' @ filepath @ ''\": '' @ e)
             | Inr inputData \<Rightarrow> Inr inputData))"

definition srPolicyAddCmd ::
    "(string \<Rightarrow> string + 'f) \<Rightarrow> ('f \<Rightarrow> string + InputFormat) \<Rightarrow> CreateSRPolicyRequest call \<Rightarrow> string \<Rightarrow> bool \<Rightarrow> bool \<Rightarrow> string cli" where
  "srPolicyAddCmd openFile decode call filepath noSIDValidate jsonFmt =
     (case readYaml openFile decode filepath of
        Inl e \<Rightarrow> Inl e
      | Inr inputData \<Rightarrow>
          (case addSRPolicy call inputData jsonFmt noSIDValidate of
             Inl e \<Rightarrow> cliError (''failed to add SR policy: '' @ statusText e)
           | Inr out \<Rightarrow> Inr out))"

definition srPolicyDeleteCmd ::
    "(string \<Rightarrow> string + 'f) \<Rightarrow> ('f \<Rightarrow> string + InputFormat) \<Rightarrow> DeleteSRPolicyRequest call \<Rightarrow> string \<Rightarrow> bool \<Rightarrow> string cli" where
  "srPolicyDeleteCmd openFile decode call filepath jsonFmt =
     (case readYaml openFile decode filepath of
        Inl e \<Rightarrow> Inl e
      | Inr inputData \<Rightarrow>
          (case deleteSRPolicy call inputData jsonFmt of
             Inl e \<Rightarrow> cliError (''failed to delete SR policy: '' @ statusText e)
           | Inr out \<Rightarrow> Inr out))"

text \<open>A file that cannot be read or decoded sends nothing: the outcome is the same whatever a call would answer.\<close>

lemma unreadable_sends_nothing:
  assumes "readYaml openFile decode filepath = Inl e"
  shows "srPolicyAddCmd openFile decode call filepath b j = Inl e" "srPolicyDeleteCmd openFile decode call' filepath j = Inl e"
  using assms by (simp_all add: srPolicyAddCmd_def srPolicyDeleteCmd_def)

section \<open>The daemon's start\<close>

definition version_Major :: nat where "version_Major = 1"
definition version_Minor :: nat where "version_Minor = 4"
definition version_Patch :: nat where "version_Patch = 0"

definition Version :: string where
  "Version = string_of_nat version_Major @ ''.'' @ string_of_nat version_Minor @ ''.'' @ string_of_nat version_Patch"

text \<open>\<open>ReadConfigFile\<close>; \<open>decode\<close> is the YAML decoder with \<open>KnownFields\<close>, started on the zero configuration.\<close>

definition ReadConfigFile :: "(string \<Rightarrow> string + 'f) \<Rightarrow> ('f \<Rightarrow> string + GlobalConfig) \<Rightarrow> string \<Rightarrow> string + GlobalConfig" where
  "ReadConfigFile openFile decode configFile =
     (case openFile configFile of
        Inl e \<Rightarrow> Inl e
      | Inr f \<Rightarrow>
          (case decode f of
             Inl e \<Rightarrow> Inl (''failed to parse config file \"'' @ configFile @ ''\": '' @ e)
           | Inr c \<Rightarrow> Inr c))"

text \<open>
  What \<open>main\<close> does: print the version, panic, or start the server with its options, and beside it the
  monitor with the address of GoBGP when the TED is enabled. \<open>openLog\<close> creates the directory and opens
  the log file.
\<close>

datatype started = Printed string | Panicked | Serving PCEOptions "(string \<times> string) option"

definition polad_main ::
    "(string \<Rightarrow> string + 'f) \<Rightarrow> ('f \<Rightarrow> string + GlobalConfig) \<Rightarrow> (string \<Rightarrow> string \<Rightarrow> bool) \<Rightarrow> string list \<Rightarrow> string \<Rightarrow> started" where
  "polad_main openFile decode openLog args configFile =
     (if args \<noteq> [] \<and> hd args = ''--version'' then Printed (''polad '' @ Version)
      else case ReadConfigFile openFile decode configFile of
          Inl _ \<Rightarrow> Panicked
        | Inr c \<Rightarrow>
            if Config_Validate c \<noteq> [] then Panicked
            else if \<not> openLog (cf_LogPath c) (cf_LogPath c @ cf_LogName c) then Panicked
            else case polad_options c of
                Inl _ \<Rightarrow> Panicked
              | Inr opts \<Rightarrow> Serving opts (if opt_TEDEnable opts then Some (gc_Address (cf_GoBGP c), gc_Port (cf_GoBGP c)) else None))"

text \<open>
  A daemon that serves has an address and a port for PCEP and gRPC, and when its TED is enabled an AS
  number and the address and port of a GoBGP.
\<close>

lemma serving_configured:
  assumes "polad_main openFile decode openLog args configFile = Serving opts gobgp"
  shows "opt_PCEPAddr opts \<noteq> [] \<and> opt_PCEPPort opts \<noteq> [] \<and> opt_GRPCAddr opts \<noteq> [] \<and> opt_GRPCPort opts \<noteq> [] \<and>
    (opt_TEDEnable opts \<longleftrightarrow> gobgp \<noteq> None) \<and>
    (\<forall>a p. gobgp = Some (a, p) \<longrightarrow> opt_ASN opts \<noteq> 0 \<and> a \<noteq> [] \<and> p \<noteq> [])"
  using assms
  by (auto simp: polad_main_def polad_options_def Config_Validate_def required_def split: if_splits sum.splits option.splits)

end
