(* ===== verification/Session_Bounds.thy ===== *)
theory Session_Bounds
  imports Session_Props
begin

text \<open>
  The range of SRP-IDs: how many requests can be under way, and when the allocation must fail.
\<close>

lemma sessions_ok_from:
  "session_step\<^sup>*\<^sup>* (NewSession sid a conn ted asn) ss \<Longrightarrow> session_ok ss"
  using session_steps_ok [of "NewSession sid a conn ted asn" ss]
  by (simp add: NewSession_def session_ok_def db_ok_def intents_ok_def)

lemma card_ids: "card {k :: u32. k \<noteq> 0 \<and> k \<noteq> maxUint32} = 2 ^ 32 - 2"
proof -
  have "{k :: u32. k \<noteq> 0 \<and> k \<noteq> maxUint32} = UNIV - {0, maxUint32}" by auto
  moreover have "card (UNIV :: u32 set) = 2 ^ 32" by (simp add: card_word)
  ultimately show ?thesis by (simp add: card_Diff_subset maxUint32_def)
qed

lemma intents_bound:
  assumes "session_ok ss"
  shows "length (ss_srPolicyIntents ss) \<le> 2 ^ 32 - 2"
    "(\<And>x. x \<noteq> 0 \<Longrightarrow> x < maxUint32 \<Longrightarrow> srPolicyIntentExists ss x) \<Longrightarrow> length (ss_srPolicyIntents ss) = 2 ^ 32 - 2"
proof -
  let ?keys = "fst ` set (ss_srPolicyIntents ss)"
  have d: "distinct (map fst (ss_srPolicyIntents ss))" and s: "?keys \<subseteq> {k. k \<noteq> 0 \<and> k \<noteq> maxUint32}"
    using assms by (auto simp: session_ok_def intents_ok_def list_all_iff)
  have l: "length (ss_srPolicyIntents ss) = card ?keys" using distinct_card [OF d] by simp
  show "length (ss_srPolicyIntents ss) \<le> 2 ^ 32 - 2" unfolding l card_ids [symmetric] using s by (intro card_mono) auto
  assume all: "\<And>x. x \<noteq> 0 \<Longrightarrow> x < maxUint32 \<Longrightarrow> srPolicyIntentExists ss x"
  have "k \<in> ?keys" if "k \<noteq> 0" "k \<noteq> maxUint32" for k
  proof -
    have "unat k \<noteq> unat maxUint32" using that(2) by (simp only: word_unat_eq_iff [symmetric] not_False_eq_True)
    then have "unat k < unat maxUint32" using unat_u32_less [of k] by (simp add: maxUint32_def)
    then have "k < maxUint32" by (simp only: word_less_nat_alt)
    with all that(1) have "map_of (ss_srPolicyIntents ss) k \<noteq> None" by (simp add: srPolicyIntentExists_def)
    then show ?thesis by (metis map_of_eq_None_iff)
  qed
  then have "?keys = {k. k \<noteq> 0 \<and> k \<noteq> maxUint32}" using s by blast
  then show "length (ss_srPolicyIntents ss) = 2 ^ 32 - 2" by (simp only: l card_ids)
qed

text \<open>
  C19: A session never has more than 2^32 - 2 requests under way. An allocated SRP-ID is from 1 to 2^32 - 2
  and not in use, the next search starts behind it, and the allocation fails only when every one of the
  2^32 - 2 numbers is in use.
\<close>

theorem SRPID_bounds:
  assumes "session_step\<^sup>*\<^sup>* (NewSession sid a conn ted asn) ss"
  shows "length (ss_srPolicyIntents ss) \<le> 2 ^ 32 - 2 \<and>
    (case allocateSRPID now t m ss of
       (Inr x, ss') \<Rightarrow> 1 \<le> unat x \<and> unat x \<le> 2 ^ 32 - 2 \<and> x \<notin> fst ` set (ss_srPolicyIntents ss) \<and>
         unat (ss_srpIDHead ss') = unat x + 1 \<and> length (ss_srPolicyIntents ss') = length (ss_srPolicyIntents ss) + 1
     | (Inl e, ss') \<Rightarrow> ss' = ss \<and> length (ss_srPolicyIntents ss) = 2 ^ 32 - 2)"
proof -
  have ok: "session_ok ss" using assms by (rule sessions_ok_from)
  obtain r ss' where a: "allocateSRPID now t m ss = (r, ss')" by fastforce
  note c = allocateSRPID_cases [where now = now and t = t and m = m and ss = ss, unfolded a]
  show ?thesis
  proof (cases r)
    case (Inl e)
    then have "ss' = ss" "\<And>x. x \<noteq> 0 \<Longrightarrow> x < maxUint32 \<Longrightarrow> srPolicyIntentExists ss x" using c by auto
    then show ?thesis using intents_bound [OF ok] by (simp add: a Inl)
  next
    case (Inr x)
    then have x: "x \<noteq> 0" "x \<noteq> maxUint32" "\<not> srPolicyIntentExists ss x"
      and ss': "ss' = ss\<lparr>ss_srpIDHead := x + 1, ss_srPolicyIntents := AList.update x
        \<lparr>in_polType = t, in_metric = m, in_expiresAt = now + ss_srPolicyIntentTTL ss\<rparr> (ss_srPolicyIntents ss)\<rparr>"
      using c by auto
    have n: "x \<notin> fst ` set (ss_srPolicyIntents ss)" using x(3) by (simp add: srPolicyIntentExists_def map_of_eq_None_iff)
    have u: "unat x \<noteq> 2 ^ 32 - 1"
    proof
      assume "unat x = 2 ^ 32 - 1"
      then have "unat x = unat maxUint32" by (simp add: maxUint32_def)
      then show False using x(2) by (simp only: word_unat_eq_iff [symmetric])
    qed
    have lt: "unat x < 2 ^ 32" using unat_u32_less [of x] by simp
    have "unat (x + 1) = unat x + 1" using u lt by (simp add: unat_word_ariths)
    moreover have "1 \<le> unat x" using x(1) by (simp add: unat_gt_0 Suc_leI)
    moreover have "length (AList.update x v ys) = length ys + 1" if "x \<notin> fst ` set ys" for v and ys :: "(u32 \<times> srPolicyIntent) list"
      using that by (induction ys) auto
    ultimately show ?thesis using intents_bound(1) [OF ok] n u lt by (simp add: a Inr ss')
  qed
qed

lemma SRPID_bounds_witness: "length (ss_srPolicyIntents (handleFinishSynchronization (sampleSession []))) \<le> 2 ^ 32 - 2"
proof -
  have "session_step\<^sup>*\<^sup>* (NewSession 1 (Addr4 0x0A000001) (sampleConn []) None 65000)
      (handleFinishSynchronization (sampleSession []))"
    unfolding sampleSession_def by (rule r_into_rtranclp, rule session_step.synced)
  from SRPID_bounds [OF this] show ?thesis by blast
qed

end
