(* ===== verification/Session_Open.thy ===== *)
theory Session_Open
  imports Session_Props
begin

text \<open>
  How a session starts (\<open>Established\<close> of \<open>src/pkg/server/session.go\<close> up to its loop): the PCE reads the
  peer's Open, answers it with its own capabilities, sends a Keepalive and starts the ticker. Also the
  Open messages on which decoding panics, and that every advertised capability can be encoded.
\<close>

section \<open>Established\<close>

text \<open>\<open>time.NewTicker\<close> panics for an interval that is not positive.\<close>

definition NewTicker :: "nat \<Rightarrow> unit result" where
  "NewTicker interval = (if interval = 0 then panic else Inr ())"

text \<open>The error of a step is logged and \<open>Established\<close> returns; the loop that follows is in theory Session_Life.\<close>

definition Established :: "unit step" where
  "Established =
     bindS Session_Open (\<lambda>_.
     bindS SendKeepalive (\<lambda>_ ss.
     returnS (NewTicker (unat (ss_keepAlive ss))) ss))"

section \<open>Advertised capabilities\<close>

lemma PolaCapability_ok:
  assumes "list_all tlv_ok caps" "list_all isCapability caps"
  shows "list_all tlv_ok (PolaCapability caps) \<and> list_all isCapability (PolaCapability caps) \<and>
    tlvs_size (PolaCapability caps) \<le> tlvs_size caps"
  using assms
  by (induction caps rule: PolaCapability.induct)
    (auto simp: tlvs_size_def StatefulPCECapability_Len_def StatefulPCECapability_ok_def PolaStatefulCapability_def split: tlv.split)

definition caps_ok :: "Session \<Rightarrow> bool" where
  "caps_ok ss \<longleftrightarrow> list_all tlv_ok (ss_advertisedCapabilities ss) \<and> list_all isCapability (ss_advertisedCapabilities ss) \<and>
     tlvs_size (ss_advertisedCapabilities ss) + 8 < 2 ^ 16"

lemma session_step_caps:
  assumes "session_step ss ss'" "caps_ok ss"
  shows "caps_ok ss'"
  using assms
proof cases
  case (capabilities caps ka)
  then show ?thesis using PolaCapability_ok [OF capabilities(2,3)] by (simp add: caps_ok_def)
next
  case (allocate now t m)
  then show ?thesis
    using assms(2) allocateSRPID_cases [where now = now and t = t and m = m and ss = ss]
    by (auto simp: caps_ok_def split: prod.splits sum.splits)
next
  case (register sr)
  have "ss_advertisedCapabilities (snd (takeSRPolicyIntent k ss)) = ss_advertisedCapabilities ss" for k
    by (simp add: takeSRPolicyIntent_def)
  then have "ss_advertisedCapabilities (snd (RegisterSRPolicy sr ss)) = ss_advertisedCapabilities ss"
    by (cases rule: RegisterSRPolicy_forms [of sr ss]) simp_all
  then show ?thesis using register assms(2) by (simp add: caps_ok_def)
next
  case (delete sr)
  have "ss_advertisedCapabilities (DeleteSRPolicy sr ss) = ss_advertisedCapabilities ss"
    by (simp add: DeleteSRPolicy_def forgetSRPolicyIntent_def Let_def split: option.split)
  then show ?thesis using delete assms(2) by (simp add: caps_ok_def)
qed (auto simp: caps_ok_def connRead_def connWrite_def Let_def handleFinishSynchronization_def clearSRPolicyIntents_def
    forgetSRPolicyIntent_def sweepExpiredSRPolicyIntents_def split: if_splits list.splits)

lemma session_new_caps [simp]: "caps_ok (NewSession sid a conn ted asn)"
  by (simp add: caps_ok_def NewSession_def tlvs_size_def)

section \<open>Opening\<close>

lemma connRead_prefix:
  assumes "tcp_in (ss_tcpConn ss) = bs # rest" "\<not> tcp_closed (ss_tcpConn ss)" "0 < n" "n \<le> length bs"
  shows "connRead n ss = Some (Inr (take n bs), ss\<lparr>ss_tcpConn := (ss_tcpConn ss)\<lparr>tcp_in := drop n bs # rest\<rparr>\<rparr>)"
  using assms by (auto simp: connRead_def makeBytes_def min_def)

abbreviation openConn :: "bytes \<Rightarrow> bytes list \<Rightarrow> bytes list \<Rightarrow> TCPConn" where
  "openConn i rest out \<equiv> \<lparr>tcp_in = i # rest, tcp_out = out, tcp_writable = True, tcp_closed = False\<rparr>"

text \<open>An Open that arrives whole is read in two pieces, header and body.\<close>

lemma parseOpenMessage_whole:
  assumes "CommonHeader_DecodeFromBytes (take 4 bs) = Inr h" "ch_Version h = 1" "ch_MessageType h = MessageTypeOpen"
    and "unat (ch_MessageLength h) = length bs" "OpenMessage_DecodeFromBytes (drop 4 bs) = Inr om"
    and "ss_tcpConn ss = openConn bs rest out"
  shows "parseOpenMessage ss = Some (Inr om, ss\<lparr>ss_tcpConn := openConn [] rest out\<rparr>)" "8 \<le> length bs" "length bs < 2 ^ 16"
proof -
  have b: "4 \<le> length (drop 4 bs)"
  proof (rule ccontr)
    assume "\<not> ?thesis"
    then show False using assms(5) by (simp add: OpenMessage_DecodeFromBytes_def CommonObjectHeader_DecodeFromBytes_def)
  qed
  then show "8 \<le> length bs" by simp
  show "length bs < 2 ^ 16" using assms(4) unsigned_less [where ?'a = nat, of "ch_MessageLength h"] by simp
  have n: "unat (ch_MessageLength h - 4) = length bs - 4"
    using assms(4) b by (subst unat_sub) (simp_all add: word_le_nat_alt)
  let ?ss1 = "ss\<lparr>ss_tcpConn := openConn (drop 4 bs) rest out\<rparr>"
  have r1: "connRead 4 ss = Some (Inr (take 4 bs), ?ss1)"
    using b by (subst connRead_prefix [where bs = bs and rest = rest]) (simp_all add: assms(6))
  have r2: "connRead (length bs - 4) ?ss1 = Some (Inr (drop 4 bs), ss\<lparr>ss_tcpConn := openConn [] rest out\<rparr>)"
    using b by (subst connRead_prefix [where bs = "drop 4 bs" and rest = rest]) simp_all
  show "parseOpenMessage ss = Some (Inr om, ss\<lparr>ss_tcpConn := openConn [] rest out\<rparr>)"
    by (simp add: parseOpenMessage_def bindS_def r1 assms(1-3) n r2 assms(5))
qed

text \<open>What \<open>Open\<close> and the first Keepalive do then.\<close>

lemma Session_Open_whole:
  fixes sid a rest ted asn
  assumes "CommonHeader_DecodeFromBytes (take 4 bs) = Inr h" "ch_Version h = 1" "ch_MessageType h = MessageTypeOpen"
    and "unat (ch_MessageLength h) = length bs" "OpenMessage_DecodeFromBytes (drop 4 bs) = Inr om"
  defines "caps \<equiv> oo_Caps (om_OpenObject om)" and "keepalive \<equiv> oo_Keepalive (om_OpenObject om)"
    and "ss0 \<equiv> NewSession sid a (openConn bs rest []) ted asn"
  defines "opened \<equiv> \<lambda>out. ss0\<lparr>ss_tcpConn := openConn [] rest out, ss_receivedPccCapabilities := caps,
      ss_advertisedCapabilities := PolaCapability caps, ss_pccType := DeterminePccType caps, ss_keepAlive := keepalive\<rparr>"
  shows "\<exists>reply ka om'. Session_Open ss0 = Some (Inr (), opened [reply]) \<and>
    SendKeepalive (opened [reply]) = Some (Inr (), opened [reply, ka]) \<and> KeepaliveMessage_Serialize = Inr ka \<and>
    OpenMessage_DecodeFromBytes (drop 4 reply) = Inr om' \<and>
    om_OpenObject om' = \<lparr>oo_ObjectType = ObjectTypeOpenOpen, oo_Version = 1, oo_Flag = 0, oo_Keepalive = keepalive,
      oo_Deadtime = keepalive * 4, oo_Sid = sid, oo_Caps = PolaCapability caps\<rparr>"
proof -
  have c0: "ss_tcpConn ss0 = openConn bs rest []" and sid: "ss_sessionID ss0 = sid" by (simp_all add: NewSession_def ss0_def)
  note p = parseOpenMessage_whole [OF assms(1-5) c0]
  then have ro: "ReceiveOpen ss0 = Some (Inr (), opened [])"
    by (simp add: ReceiveOpen_def bindS_def caps_def keepalive_def Let_def opened_def)
  have "length (drop 4 bs) < 2 ^ 16" "length (drop 4 bs) + 4 = length bs" using p(2,3) by simp_all
  then have c: "list_all tlv_ok caps" "list_all isCapability caps" "tlvs_size caps + 12 < 2 ^ 16"
    using OpenMessage_caps_ok [OF assms(5)] p(3) unfolding caps_def by linarith+
  then obtain om' reply where o: "NewOpenMessage sid keepalive (PolaCapability caps) = Inr om'"
      "OpenMessage_Serialize om' = Inr reply" "OpenMessage_DecodeFromBytes (drop 4 reply) = Inr om'"
      "om_OpenObject om' = \<lparr>oo_ObjectType = ObjectTypeOpenOpen, oo_Version = 1, oo_Flag = 0, oo_Keepalive = keepalive,
        oo_Deadtime = keepalive * 4, oo_Sid = sid, oo_Caps = PolaCapability caps\<rparr>"
    using OpenMessage_roundtrip [of "PolaCapability caps" sid keepalive] PolaCapability_ok [OF c(1,2)] by auto
  obtain ka where ka: "KeepaliveMessage_Serialize = Inr ka" by (simp add: KeepaliveMessage_Serialize_def)
  have "Session_Open ss0 = Some (Inr (), opened [reply])"
    using o(1,2) by (simp add: Session_Open_def bindS_def ro SendOpen_def sendPCEPMessage_def connWrite_def sid opened_def)
  moreover have "SendKeepalive (opened [reply]) = Some (Inr (), opened [reply, ka])"
    by (simp add: SendKeepalive_def sendPCEPMessage_def ka connWrite_def opened_def)
  ultimately show ?thesis using o(3,4) ka by blast
qed

text \<open>
  C13: The opening of a session. When the peer's Open arrives whole, the PCE takes over its capabilities,
  keepalive and PCC type, answers with an Open that decodes to its own capabilities under the number of
  the session, and sends a Keepalive. A peer that asks for no keepalives at all, with a keepalive time
  of 0, then makes the ticker panic.
\<close>

theorem session_opens:
  assumes "CommonHeader_DecodeFromBytes (take 4 bs) = Inr h" "ch_Version h = 1" "ch_MessageType h = MessageTypeOpen"
    and "unat (ch_MessageLength h) = length bs" "OpenMessage_DecodeFromBytes (drop 4 bs) = Inr om"
  defines "caps \<equiv> oo_Caps (om_OpenObject om)" and "keepalive \<equiv> oo_Keepalive (om_OpenObject om)"
  shows "\<exists>ss reply ka om'.
    Established (NewSession sid a \<lparr>tcp_in = bs # rest, tcp_out = [], tcp_writable = True, tcp_closed = False\<rparr> ted asn) =
      Some (if keepalive = 0 then panic else Inr (), ss) \<and>
    ss_receivedPccCapabilities ss = caps \<and> ss_pccType ss = DeterminePccType caps \<and> ss_keepAlive ss = keepalive \<and>
    tcp_out (ss_tcpConn ss) = [reply, ka] \<and> KeepaliveMessage_Serialize = Inr ka \<and>
    OpenMessage_DecodeFromBytes (drop 4 reply) = Inr om' \<and>
    om_OpenObject om' = \<lparr>oo_ObjectType = ObjectTypeOpenOpen, oo_Version = 1, oo_Flag = 0, oo_Keepalive = keepalive,
      oo_Deadtime = keepalive * 4, oo_Sid = sid, oo_Caps = PolaCapability caps\<rparr>"
  using Session_Open_whole [OF assms(1-5), where sid = sid and a = a and rest = rest and ted = ted and asn = asn]
  by (fastforce simp: Established_def bindS_def NewTicker_def unat_eq_0 assms(6,7))

text \<open>An Open without capabilities and with a keepalive time of 0.\<close>

definition sampleOpen :: bytes where
  "sampleOpen = [0x20, 1, 0, 12, 1, 0x10, 0, 8, 0x20, 0, 0, 5]"

lemma sampleOpen_decoded:
  "CommonHeader_DecodeFromBytes (take 4 sampleOpen) = Inr \<lparr>ch_Version = 1, ch_Flag = 0, ch_MessageType = 1, ch_MessageLength = 12\<rparr>"
  "OpenMessage_DecodeFromBytes (drop 4 sampleOpen) = Inr \<lparr>om_OpenObject = OpenObject_zero
     \<lparr>oo_ObjectType := 1, oo_Version := 1, oo_Sid := 5\<rparr>\<rparr>"
  by (simp_all add: sampleOpen_def CommonHeader_DecodeFromBytes_def OpenMessage_DecodeFromBytes_def OpenObject_zero_def
      OpenObject_DecodeFromBytes_def CommonObjectHeader_DecodeFromBytes_def beUint16_def DecodeTLVs_def decodeTLVSequence_unfold)

lemma session_opens_witness:
  "\<exists>ss. Established (NewSession 1 (Addr4 1) \<lparr>tcp_in = [sampleOpen], tcp_out = [], tcp_writable = True, tcp_closed = False\<rparr> None 0) =
     Some (panic, ss) \<and> ss_pccType ss = DeterminePccType []"
proof -
  have l: "unat (12 :: u16) = length sampleOpen" by (simp add: sampleOpen_def)
  from session_opens [OF sampleOpen_decoded(1) _ _ _ sampleOpen_decoded(2), of 1 "Addr4 1" "[]" None 0] l show ?thesis
    by (auto simp: OpenObject_zero_def)
qed

end
