(* ===== verification/Session_Life.thy ===== *)
theory Session_Life
  imports Server_Laws Session_Open
begin

text \<open>
  The life of a session (\<open>src/pkg/server/session.go\<close>): the goroutine of \<open>Established\<close> with its select
  loop and deferred calls, the receiver it starts and the sweeper of intents, interleaved with the
  handlers of the gRPC server and with the closing of the connection. A call that runs to its end is one
  step; the states inside it are those of theory Session_Runs. A turn of the receiver that does not end is
  a step to the place where it hangs, from which the receiver never returns. A panic ends the process, so
  there is no step after it.
\<close>

section \<open>The goroutines\<close>

text \<open>
  Where \<open>Established\<close> is: in \<open>Open\<close>, at the first keepalive, in its loop, in \<open>stopIntentSweep\<close> at the
  receive from the done channel of a sweeper, or returned.
\<close>

datatype mainPhase = Opening | Greeting | Looping | Joining nat | Returned

text \<open>
  The receiver: not started, at turn \<open>k\<close> of its loop, in a turn that never ends, at the send to the channel
  \<open>done\<close>, or finished.
\<close>

datatype receiver = Unstarted | Reading nat | Hanging | Reporting | Gone

text \<open>A sweeper has its two channels: \<open>stop\<close> closed, and \<open>done\<close> not yet closed.\<close>

record sweeper =
  sw_stop :: bool
  sw_running :: bool

text \<open>\<open>lf_sweep\<close> is the pair \<open>sweepStop\<close>, \<open>sweepDone\<close>: nil, or the channels of one of the sweepers.\<close>

record life =
  lf_session :: Session
  lf_main :: mainPhase
  lf_receiver :: receiver
  lf_done :: bool
  lf_sweep :: "nat option"
  lf_sweepers :: "sweeper list"

definition lifeStart :: "Session \<Rightarrow> life" where
  "lifeStart ss = \<lparr>lf_session = ss, lf_main = Opening, lf_receiver = Unstarted, lf_done = False, lf_sweep = None, lf_sweepers = []\<rparr>"

section \<open>The sweeper\<close>

definition startIntentSweep :: "life \<Rightarrow> life" where
  "startIntentSweep l = (case lf_sweep l of
     Some _ \<Rightarrow> l
   | None \<Rightarrow> l\<lparr>lf_sweep := Some (length (lf_sweepers l)),
       lf_sweepers := lf_sweepers l @ [\<lparr>sw_stop = False, sw_running = True\<rparr>]\<rparr>)"

text \<open>The deferred call as \<open>Established\<close> returns; it then waits for the sweeper.\<close>

definition stopIntentSweep :: "life \<Rightarrow> life" where
  "stopIntentSweep l = (case lf_sweep l of
     None \<Rightarrow> l\<lparr>lf_main := Returned\<rparr>
   | Some i \<Rightarrow> l\<lparr>lf_sweep := None, lf_sweepers := (lf_sweepers l)[i := (lf_sweepers l ! i)\<lparr>sw_stop := True\<rparr>],
       lf_main := Joining i\<rparr>)"

text \<open>The cases of the select of \<open>runIntentSweep\<close>: the ticker and the closed channel \<open>stop\<close>.\<close>

definition sweepTick :: "nat \<Rightarrow> life \<Rightarrow> life" where
  "sweepTick now l = l\<lparr>lf_session := sweepExpiredSRPolicyIntents now (lf_session l)\<rparr>"

definition sweepReturn :: "nat \<Rightarrow> life \<Rightarrow> life" where
  "sweepReturn i l = l\<lparr>lf_sweepers := (lf_sweepers l)[i := (lf_sweepers l ! i)\<lparr>sw_running := False\<rparr>]\<rparr>"

section \<open>Established and its receiver\<close>

definition afterOpen :: "unit result \<Rightarrow> life \<Rightarrow> life" where
  "afterOpen r l = l\<lparr>lf_main := (case r of Inl _ \<Rightarrow> Returned | Inr _ \<Rightarrow> Greeting)\<rparr>"

definition afterGreeting :: "unit result \<Rightarrow> life \<Rightarrow> life" where
  "afterGreeting r l = (case r of
     Inl _ \<Rightarrow> l\<lparr>lf_main := Returned\<rparr>
   | Inr _ \<Rightarrow> (startIntentSweep l)\<lparr>lf_receiver := Reading 0, lf_main := Looping\<rparr>)"

definition afterTurn :: "nat \<Rightarrow> bool result \<Rightarrow> life \<Rightarrow> life" where
  "afterTurn k r l = l\<lparr>lf_receiver := (case r of Inr True \<Rightarrow> Reading (Suc k) | _ \<Rightarrow> Reporting)\<rparr>"

definition afterKeepalive :: "unit result \<Rightarrow> life \<Rightarrow> life" where
  "afterKeepalive r l = (case r of Inl _ \<Rightarrow> stopIntentSweep l | Inr _ \<Rightarrow> l)"

text \<open>
  Where a turn that never ends has left the session: the message is read, and when it is a computation of
  a path that does not end, and not the decoder, the reports before that one are handled.
\<close>

fun hangReports :: "goEnv \<Rightarrow> StateReport list \<Rightarrow> Session \<Rightarrow> Session" where
  "hangReports env [] ss = ss"
| "hangReports env (sr # srs) ss = (case handleStateReport env sr ss of None \<Rightarrow> ss | Some (_, ss) \<Rightarrow> hangReports env srs ss)"

definition hangTurn :: "goEnv \<Rightarrow> Session \<Rightarrow> Session" where
  "hangTurn env ss =
     (case readCommonHeader ss of
        Some (Inr h, ss) \<Rightarrow>
          (case readBody h ss of
             Some (Inr messageBodyBytes, ss) \<Rightarrow>
               (case PCRptMessage_DecodeFromBytes NewPCRptMessage messageBodyBytes of
                  Some (Inr message) \<Rightarrow> hangReports env (prm_StateReports message) ss
                | _ \<Rightarrow> ss)
           | _ \<Rightarrow> ss)
      | _ \<Rightarrow> ss)"

abbreviation withSession :: "Session \<Rightarrow> life \<Rightarrow> life" where
  "withSession ss l \<equiv> l\<lparr>lf_session := ss\<rparr>"

text \<open>\<open>goroutine_step\<close>: the steps that the goroutines of the session take by themselves.\<close>

inductive goroutine_step :: "life \<Rightarrow> life \<Rightarrow> bool" where
  open_session: "lf_main l = Opening \<Longrightarrow> Session_Open (lf_session l) = Some (r, ss) \<Longrightarrow> r \<noteq> panic \<Longrightarrow>
    goroutine_step l (afterOpen r (withSession ss l))"
| greet: "lf_main l = Greeting \<Longrightarrow> SendKeepalive (lf_session l) = Some (r, ss) \<Longrightarrow> r \<noteq> panic \<Longrightarrow>
    r = Inr () \<longrightarrow> NewTicker (unat (ss_keepAlive ss)) = Inr () \<Longrightarrow>
    goroutine_step l (afterGreeting r (withSession ss l))"
| turn: "lf_receiver l = Reading k \<Longrightarrow> receiveTurn env (lf_session l) = Some (r, ss) \<Longrightarrow> r \<noteq> panic \<Longrightarrow>
    goroutine_step l (afterTurn k r (withSession ss l))"
| hang: "lf_receiver l = Reading k \<Longrightarrow> receiveTurn env (lf_session l) = None \<Longrightarrow>
    goroutine_step l (withSession (hangTurn env (lf_session l)) (l\<lparr>lf_receiver := Hanging\<rparr>))"
| report: "lf_receiver l = Reporting \<Longrightarrow> \<not> lf_done l \<Longrightarrow> goroutine_step l (l\<lparr>lf_done := True, lf_receiver := Gone\<rparr>)"
| finished: "lf_main l = Looping \<Longrightarrow> lf_done l \<Longrightarrow> goroutine_step l (stopIntentSweep (l\<lparr>lf_done := False\<rparr>))"
| keepalive: "lf_main l = Looping \<Longrightarrow> SendKeepalive (lf_session l) = Some (r, ss) \<Longrightarrow> r \<noteq> panic \<Longrightarrow>
    goroutine_step l (afterKeepalive r (withSession ss l))"
| sweep: "i < length (lf_sweepers l) \<Longrightarrow> sw_running (lf_sweepers l ! i) \<Longrightarrow> goroutine_step l (sweepTick now l)"
| halt: "i < length (lf_sweepers l) \<Longrightarrow> sw_running (lf_sweepers l ! i) \<Longrightarrow> sw_stop (lf_sweepers l ! i) \<Longrightarrow>
    goroutine_step l (sweepReturn i l)"
| join: "lf_main l = Joining i \<Longrightarrow> \<not> sw_running (lf_sweepers l ! i) \<Longrightarrow> goroutine_step l (l\<lparr>lf_main := Returned\<rparr>)"

text \<open>With the rest of the server: a gRPC handler that uses the session, and \<open>closeSession\<close>.\<close>

inductive life_step :: "life \<Rightarrow> life \<Rightarrow> bool" where
  own: "goroutine_step l l' \<Longrightarrow> life_step l l'"
| create: "SendPCInitiate now policy del (lf_session l) = Some (r, ss) \<Longrightarrow> life_step l (withSession ss l)"
| update: "SendPCUpdate now policy (lf_session l) = Some (r, ss) \<Longrightarrow> life_step l (withSession ss l)"
| close: "SendClose reason (lf_session l) = Some (r, ss) \<Longrightarrow> life_step l (withSession ss l)"
| shut: "life_step l (withSession (clearSRPolicyIntents (closeConn (lf_session l))) l)"

section \<open>What holds in every state\<close>

text \<open>There is a sweeper from the start of the loop to the end of the goroutine, and never a second one.\<close>

definition sweepers_ok :: "life \<Rightarrow> bool" where
  "sweepers_ok l = (case lf_main l of
     Looping \<Rightarrow> lf_sweep l = Some 0 \<and> lf_sweepers l = [\<lparr>sw_stop = False, sw_running = True\<rparr>]
   | Joining i \<Rightarrow> i = 0 \<and> lf_sweep l = None \<and> (\<exists>b. lf_sweepers l = [\<lparr>sw_stop = True, sw_running = b\<rparr>])
   | Returned \<Rightarrow> lf_sweep l = None \<and> (lf_sweepers l = [] \<or> lf_sweepers l = [\<lparr>sw_stop = True, sw_running = False\<rparr>])
   | _ \<Rightarrow> lf_sweep l = None \<and> lf_sweepers l = [])"

definition receiver_ok :: "life \<Rightarrow> bool" where
  "receiver_ok l \<longleftrightarrow> (lf_done l \<longrightarrow> lf_receiver l = Gone) \<and>
     (lf_main l \<in> {Opening, Greeting} \<longrightarrow> lf_receiver l = Unstarted) \<and>
     (lf_main l = Looping \<longrightarrow> lf_receiver l \<noteq> Unstarted \<and> (lf_receiver l = Gone \<longrightarrow> lf_done l))"

definition life_ok :: "life \<Rightarrow> bool" where
  "life_ok l \<longleftrightarrow> session_ok (lf_session l) \<and> sweepers_ok l \<and> receiver_ok l"

lemmas life_steps = afterOpen_def afterGreeting_def afterTurn_def afterKeepalive_def
  startIntentSweep_def stopIntentSweep_def sweepTick_def sweepReturn_def

lemma runs_ok: "runs m \<Longrightarrow> m ss = Some (r, ss') \<Longrightarrow> session_ok ss \<Longrightarrow> session_ok ss'"
  using runsD session_steps_ok by blast

text \<open>The state in which a turn hangs is reached by steps of the session.\<close>

lemma runs_readHeader: "runs readCommonHeader"
  unfolding readCommonHeader_def by (intro runs_intros)

lemma runs_readBody: "runs (readBody h)"
  unfolding readBody_def by (intro runs_intros)

lemma hangReports_steps: "session_step\<^sup>*\<^sup>* ss (hangReports env srs ss)"
  by (induction srs arbitrary: ss)
    (auto split: option.splits intro: rtranclp_trans dest: runsD [OF runs_StateReport])

lemma hangTurn_steps: "session_step\<^sup>*\<^sup>* ss (hangTurn env ss)"
  unfolding hangTurn_def
  by (auto split: option.splits sum.splits dest!: runsD [OF runs_readHeader] runsD [OF runs_readBody])
    (meson rtranclp_trans hangReports_steps)+

lemma hangTurn_ok: "session_ok ss \<Longrightarrow> session_ok (hangTurn env ss)"
  using session_steps_ok [OF hangTurn_steps] by blast

lemma goroutine_session_ok:
  assumes "goroutine_step l l'" "session_ok (lf_session l)"
  shows "session_ok (lf_session l')"
  using assms
  by cases (auto simp: life_steps session_sweep hangTurn_ok dest: runs_ok [OF runs_Open] runs_ok [OF runs_Keepalive] runs_ok [OF runs_turn]
      split: sum.splits option.splits)

lemma goroutine_sweepers_ok:
  assumes "goroutine_step l l'" "sweepers_ok l"
  shows "sweepers_ok l'"
  using assms
  by cases (auto simp: life_steps sweepers_ok_def split: sum.splits option.splits mainPhase.splits)

lemma goroutine_receiver_ok:
  assumes "goroutine_step l l'" "receiver_ok l"
  shows "receiver_ok l'"
  using assms
  by cases (auto simp: life_steps receiver_ok_def split: sum.splits option.splits bool.splits)

lemma life_ok_session: "life_ok l \<Longrightarrow> session_ok ss \<Longrightarrow> life_ok (withSession ss l)"
  by (simp add: life_ok_def sweepers_ok_def receiver_ok_def cong: mainPhase.case_cong)

lemma life_ok_goroutine: "goroutine_step l l' \<Longrightarrow> life_ok l \<Longrightarrow> life_ok l'"
  unfolding life_ok_def using goroutine_session_ok goroutine_sweepers_ok goroutine_receiver_ok by blast

lemma life_ok_step:
  assumes "life_step l l'" "life_ok l"
  shows "life_ok l'"
proof -
  have s: "session_ok (lf_session l)" using assms(2) by (simp add: life_ok_def)
  note ok = life_ok_session [OF assms(2)]
  from assms(1) show ?thesis
  proof cases
    case own
    then show ?thesis using life_ok_goroutine assms(2) by blast
  next
    case (create now policy del r ss)
    then show ?thesis using ok [OF runs_ok [OF runs_PCInitiate create(2) s]] by simp
  next
    case (update now policy r ss)
    then show ?thesis using ok [OF runs_ok [OF runs_PCUpdate update(2) s]] by simp
  next
    case (close reason r ss)
    then show ?thesis using ok [OF runs_ok [OF runs_Close close(2) s]] by simp
  next
    case shut
    then show ?thesis using ok [OF closed_ok [OF s]] by simp
  qed
qed

lemma life_ok_run:
  assumes "life_step\<^sup>*\<^sup>* (lifeStart (NewSession sid a conn ted asn)) l"
  shows "life_ok l"
  using assms
proof induction
  case base
  then show ?case by (simp add: lifeStart_def life_ok_def sweepers_ok_def receiver_ok_def session_new)
qed (rule life_ok_step)

definition runningSweepers :: "life \<Rightarrow> nat" where
  "runningSweepers l = length (filter sw_running (lf_sweepers l))"

text \<open>
  C20: However the goroutines of a session, the handlers of the gRPC server and the closing of the
  connection interleave, the state of the session stays well formed; exactly one sweeper runs while
  \<open>Established\<close> is in its loop, at most one before it has returned, and none afterwards; and the receiver
  never blocks at the send that reports its end.
\<close>

theorem session_life:
  assumes "life_step\<^sup>*\<^sup>* (lifeStart (NewSession sid a conn ted asn)) l"
  shows "session_ok (lf_session l) \<and> runningSweepers l \<le> 1 \<and>
    (lf_main l = Looping \<longrightarrow> runningSweepers l = 1) \<and> (lf_main l = Returned \<longrightarrow> runningSweepers l = 0) \<and>
    (lf_receiver l = Reporting \<longrightarrow> \<not> lf_done l) \<and> (lf_main l = Looping \<longrightarrow> lf_receiver l = Gone \<longrightarrow> lf_done l)"
proof -
  note ok = life_ok_run [OF assms]
  then have "runningSweepers l = (case lf_main l of Looping \<Rightarrow> 1 | Joining i \<Rightarrow> runningSweepers l | _ \<Rightarrow> 0)" "runningSweepers l \<le> 1"
    by (auto simp: life_ok_def sweepers_ok_def runningSweepers_def split: mainPhase.splits)
  then show ?thesis using ok by (auto simp: life_ok_def receiver_ok_def)
qed

section \<open>A closed connection ends the session\<close>

lemma closed_turn:
  assumes "tcp_closed (ss_tcpConn ss)"
  shows "\<exists>e. receiveTurn env ss = Some (Inl e, ss) \<and> e \<noteq> Panic"
  using assms by (simp add: receiveTurn_def readCommonHeader_def bindS_def connRead_def Let_def)

lemma closed_open:
  assumes "tcp_closed (ss_tcpConn ss)"
  shows "\<exists>e. Session_Open ss = Some (Inl e, ss) \<and> e \<noteq> Panic"
  using assms by (simp add: Session_Open_def ReceiveOpen_def parseOpenMessage_def bindS_def connRead_def Let_def)

lemma closed_keepalive:
  assumes "tcp_closed (ss_tcpConn ss)"
  shows "\<exists>e. SendKeepalive ss = Some (Inl e, ss) \<and> e \<noteq> Panic"
  using assms by (simp add: SendKeepalive_def sendPCEPMessage_def KeepaliveMessage_Serialize_def bindS_def connWrite_def Let_def)

text \<open>Every goroutine has returned; or every goroutine but a receiver that hangs in a turn.\<close>

definition ended :: "life \<Rightarrow> bool" where
  "ended l \<longleftrightarrow> lf_main l = Returned \<and> lf_receiver l \<in> {Unstarted, Gone} \<and> runningSweepers l = 0"

definition settled :: "life \<Rightarrow> bool" where
  "settled l \<longleftrightarrow> lf_main l = Returned \<and> lf_receiver l \<in> {Unstarted, Gone, Hanging} \<and> runningSweepers l = 0"

text \<open>How many more steps the goroutines take when none of them is a tick of the sweeper.\<close>

definition remaining :: "life \<Rightarrow> nat" where
  "remaining l =
     (case lf_main l of Opening \<Rightarrow> 1 | Greeting \<Rightarrow> 1 | Looping \<Rightarrow> 2 | Joining _ \<Rightarrow> 1 | Returned \<Rightarrow> 0) +
     (case lf_receiver l of Unstarted \<Rightarrow> 0 | Reading _ \<Rightarrow> 2 | Hanging \<Rightarrow> 0 | Reporting \<Rightarrow> 1 | Gone \<Rightarrow> 0) + runningSweepers l"

lemmas remaining_defs = life_steps remaining_def runningSweepers_def

lemma closed_step:
  assumes "goroutine_step l l'" "life_ok l" "tcp_closed (ss_tcpConn (lf_session l))"
  shows "tcp_closed (ss_tcpConn (lf_session l')) \<and> (remaining l' < remaining l \<or> (\<exists>now. l' = sweepTick now l)) \<and>
    (lf_receiver l' = Hanging \<longleftrightarrow> lf_receiver l = Hanging)"
  using assms(1)
proof cases
  case (open_session r ss)
  then show ?thesis using closed_open [OF assms(3)] assms(3) by (auto simp: remaining_defs)
next
  case (greet r ss)
  then show ?thesis using closed_keepalive [OF assms(3)] assms(3) by (auto simp: remaining_defs)
next
  case (turn k env r ss)
  then show ?thesis using closed_turn [OF assms(3), of env] assms(3) by (auto simp: remaining_defs)
next
  case (hang k env)
  then show ?thesis using closed_turn [OF assms(3), of env] by auto
next
  case (keepalive r ss)
  then show ?thesis using closed_keepalive [OF assms(3)] assms(2,3)
    by (auto simp: remaining_defs life_ok_def sweepers_ok_def)
next
  case finished
  then show ?thesis using assms(2,3) by (auto simp: remaining_defs life_ok_def sweepers_ok_def)
next
  case (halt i)
  then show ?thesis using assms(2,3) by (auto simp: remaining_defs life_ok_def sweepers_ok_def split: mainPhase.splits)
qed (use assms(3) in \<open>auto simp: sweepTick_def sweepExpiredSRPolicyIntents_def remaining_def runningSweepers_def\<close>)

lemma closed_enabled:
  assumes "life_ok l" "tcp_closed (ss_tcpConn (lf_session l))" "\<not> settled l"
  shows "\<exists>l'. goroutine_step l l' \<and> remaining l' < remaining l"
proof (cases "lf_main l")
  case Opening
  obtain e where "Session_Open (lf_session l) = Some (Inl e, lf_session l)" "e \<noteq> Panic" using closed_open [OF assms(2)] by blast
  from goroutine_step.open_session [OF Opening this(1)] this(2) show ?thesis using Opening
    by (intro exI conjI) (auto simp: remaining_defs)
next
  case Greeting
  obtain e where "SendKeepalive (lf_session l) = Some (Inl e, lf_session l)" "e \<noteq> Panic" using closed_keepalive [OF assms(2)] by blast
  from goroutine_step.greet [OF Greeting this(1)] this(2) show ?thesis using Greeting
    by (intro exI conjI) (auto simp: remaining_defs)
next
  case Looping
  obtain e where "SendKeepalive (lf_session l) = Some (Inl e, lf_session l)" "e \<noteq> Panic" using closed_keepalive [OF assms(2)] by blast
  from goroutine_step.keepalive [OF Looping this(1)] this(2) show ?thesis using Looping assms(1)
    by (intro exI conjI) (auto simp: remaining_defs life_ok_def sweepers_ok_def)
next
  case (Joining i)
  then obtain b where b: "i = 0" "lf_sweepers l = [\<lparr>sw_stop = True, sw_running = b\<rparr>]"
    using assms(1) by (auto simp: life_ok_def sweepers_ok_def)
  show ?thesis
  proof (cases b)
    case True
    then have "goroutine_step l (sweepReturn 0 l)" using b by (intro goroutine_step.halt) simp_all
    then show ?thesis using b True by (intro exI conjI) (auto simp: remaining_defs)
  next
    case False
    then have "goroutine_step l (l\<lparr>lf_main := Returned\<rparr>)" using b Joining by (intro goroutine_step.join [where i = i]) simp_all
    then show ?thesis using Joining by (intro exI conjI) (auto simp: remaining_defs)
  qed
next
  case Returned
  then have "runningSweepers l = 0" "lf_receiver l = Reporting \<Longrightarrow> \<not> lf_done l"
    using assms(1) by (auto simp: life_ok_def sweepers_ok_def receiver_ok_def runningSweepers_def)
  then show ?thesis
  proof (cases "lf_receiver l")
    case (Reading k)
    obtain e where "receiveTurn undefined (lf_session l) = Some (Inl e, lf_session l)" "e \<noteq> Panic"
      using closed_turn [OF assms(2)] by blast
    from goroutine_step.turn [OF Reading this(1)] this(2) show ?thesis using Reading
      by (intro exI conjI) (auto simp: remaining_defs)
  next
    case Reporting
    from goroutine_step.report [OF this] show ?thesis using Reporting \<open>lf_receiver l = Reporting \<Longrightarrow> \<not> lf_done l\<close>
      by (intro exI conjI) (auto simp: remaining_defs)
  qed (use assms(3) Returned in \<open>auto simp: settled_def\<close>)
qed

lemma closed_reaches_end:
  assumes "life_ok l" "tcp_closed (ss_tcpConn (lf_session l))"
  shows "\<exists>l'. goroutine_step\<^sup>*\<^sup>* l l' \<and> settled l'"
  using assms
proof (induction "remaining l" arbitrary: l rule: less_induct)
  case less
  show ?case
  proof (cases "settled l")
    case False
    then obtain l1 where l1: "goroutine_step l l1" "remaining l1 < remaining l" using closed_enabled less.prems by blast
    then obtain l' where "goroutine_step\<^sup>*\<^sup>* l1 l'" "settled l'"
      using less.hyps [OF l1(2)] life_ok_goroutine closed_step less.prems by blast
    then show ?thesis using l1(1) by (meson converse_rtranclp_into_rtranclp)
  qed blast
qed

text \<open>A closed connection stays closed, whatever the rest of the server does with the session.\<close>

lemma kept_conn:
  "ss_tcpConn (snd (RegisterSRPolicy sr ss)) = ss_tcpConn ss" "ss_tcpConn (DeleteSRPolicy sr ss) = ss_tcpConn ss"
  "ss_tcpConn (snd (allocateSRPID now t m ss)) = ss_tcpConn ss" "ss_tcpConn (forgetSRPolicyIntent x ss) = ss_tcpConn ss"
  "ss_tcpConn (sweepExpiredSRPolicyIntents now ss) = ss_tcpConn ss" "ss_tcpConn (clearSRPolicyIntents ss) = ss_tcpConn ss"
  "ss_tcpConn (handleFinishSynchronization ss) = ss_tcpConn ss"
  using register_reader [of ss sr] delete_reader [of ss sr]
  by (auto simp: sameReader_def allocateSRPID_def rememberSRPolicyIntent_def forgetSRPolicyIntent_def
      sweepExpiredSRPolicyIntents_def clearSRPolicyIntents_def handleFinishSynchronization_def split: sum.splits)

lemma session_step_closed: "session_step ss ss' \<Longrightarrow> tcp_closed (ss_tcpConn ss) \<Longrightarrow> tcp_closed (ss_tcpConn ss')"
  by (induction rule: session_step.induct)
    (auto simp: connRead_def connWrite_def Let_def kept_conn split: if_splits list.splits)

lemma session_steps_closed: "session_step\<^sup>*\<^sup>* ss ss' \<Longrightarrow> tcp_closed (ss_tcpConn ss) \<Longrightarrow> tcp_closed (ss_tcpConn ss')"
  by (induction rule: rtranclp_induct) (auto dest: session_step_closed)

lemma closed_life_step:
  assumes "life_step l l'" "life_ok l" "tcp_closed (ss_tcpConn (lf_session l))"
  shows "tcp_closed (ss_tcpConn (lf_session l')) \<and> (lf_receiver l' = Hanging \<longleftrightarrow> lf_receiver l = Hanging)"
  using assms(1)
proof cases
  case own
  then show ?thesis using closed_step assms(2,3) by blast
next
  case (create now policy del r ss)
  then show ?thesis using session_steps_closed [OF runsD [OF runs_PCInitiate create(2)] assms(3)] by simp
next
  case (update now policy r ss)
  then show ?thesis using session_steps_closed [OF runsD [OF runs_PCUpdate update(2)] assms(3)] by simp
next
  case (close reason r ss)
  then show ?thesis using session_steps_closed [OF runsD [OF runs_Close close(2)] assms(3)] by simp
qed (simp add: clearSRPolicyIntents_def closeConn_def)

lemma closed_stays:
  assumes "life_step\<^sup>*\<^sup>* l l'" "life_ok l" "tcp_closed (ss_tcpConn (lf_session l))"
  shows "life_ok l' \<and> tcp_closed (ss_tcpConn (lf_session l')) \<and> (lf_receiver l' = Hanging \<longleftrightarrow> lf_receiver l = Hanging)"
  using assms
proof induction
  case (step l1 l2)
  then show ?case using life_ok_step closed_life_step by blast
qed simp

lemma goroutine_life: "goroutine_step\<^sup>*\<^sup>* l l' \<Longrightarrow> life_step\<^sup>*\<^sup>* l l'"
  by (induction rule: rtranclp_induct) (auto intro: rtranclp.rtrancl_into_rtrancl life_step.own)

text \<open>
  C21: Once the connection is closed, the session ends, unless its receiver hangs. If no turn of the receiver
  hangs when the connection is closed, none ever will: all goroutines can return, with no sweeper left and
  nothing blocked. If the receiver hangs in a turn, \<open>Established\<close> and the sweeper can still return, but closing the
  connection does not free the receiver: it hangs in every later state. Until then the other goroutines are never stuck,
  and every step they take other than a tick of the sweeper brings the end nearer.
\<close>

theorem closed_session_ends:
  assumes "life_step\<^sup>*\<^sup>* (lifeStart (NewSession sid a conn ted asn)) l" "tcp_closed (ss_tcpConn (lf_session l))"
  shows "(\<exists>l'. goroutine_step\<^sup>*\<^sup>* l l' \<and> settled l' \<and> (lf_receiver l \<noteq> Hanging \<longrightarrow> ended l')) \<and>
    (\<forall>l'. life_step\<^sup>*\<^sup>* l l' \<longrightarrow> (lf_receiver l' = Hanging \<longleftrightarrow> lf_receiver l = Hanging) \<and>
      (\<not> settled l' \<longrightarrow> (\<exists>l''. goroutine_step l' l'' \<and> remaining l'' < remaining l')) \<and>
      (\<forall>l''. goroutine_step l' l'' \<longrightarrow> remaining l'' < remaining l' \<or> (\<exists>now. l'' = sweepTick now l')))"
proof -
  note stays = closed_stays [OF _ life_ok_run [OF assms(1)] assms(2)]
  obtain l' where l': "goroutine_step\<^sup>*\<^sup>* l l'" "settled l'"
    using closed_reaches_end [OF life_ok_run [OF assms(1)] assms(2)] by blast
  have "ended l'" if "lf_receiver l \<noteq> Hanging"
    using that stays [OF goroutine_life [OF l'(1)]] l'(2) by (auto simp: settled_def ended_def)
  then show ?thesis using l' stays closed_enabled closed_step by blast
qed

section \<open>Witnesses\<close>

text \<open>A session that opens, with a keepalive time of 30, and is closed in its loop.\<close>

definition openWithKeepalive :: bytes where
  "openWithKeepalive = [0x20, 1, 0, 12, 1, 0x10, 0, 8, 0x20, 30, 0, 5]"

abbreviation lifeConn :: TCPConn where
  "lifeConn \<equiv> openConn openWithKeepalive [] []"

lemma openWithKeepalive_decoded:
  "CommonHeader_DecodeFromBytes (take 4 openWithKeepalive) = Inr \<lparr>ch_Version = 1, ch_Flag = 0, ch_MessageType = 1, ch_MessageLength = 12\<rparr>"
  "OpenMessage_DecodeFromBytes (drop 4 openWithKeepalive) = Inr \<lparr>om_OpenObject = OpenObject_zero
     \<lparr>oo_ObjectType := 1, oo_Version := 1, oo_Keepalive := 30, oo_Sid := 5\<rparr>\<rparr>"
  by (simp_all add: openWithKeepalive_def CommonHeader_DecodeFromBytes_def OpenMessage_DecodeFromBytes_def OpenObject_zero_def
      OpenObject_DecodeFromBytes_def CommonObjectHeader_DecodeFromBytes_def beUint16_def DecodeTLVs_def decodeTLVSequence_unfold)

text \<open>After the Open, the peer sends what \<open>rest\<close> has.\<close>

lemma life_loops:
  "\<exists>l. life_step\<^sup>*\<^sup>* (lifeStart (NewSession 1 (Addr4 1) (openConn openWithKeepalive rest []) None 0)) l \<and> lf_main l = Looping \<and>
     lf_receiver l = Reading 0 \<and> tcp_in (ss_tcpConn (lf_session l)) = [] # rest \<and> \<not> tcp_closed (ss_tcpConn (lf_session l))"
proof -
  let ?l = "lifeStart (NewSession 1 (Addr4 1) (openConn openWithKeepalive rest []) None 0)"
  have l: "lf_session ?l = NewSession 1 (Addr4 1) (openConn openWithKeepalive rest []) None 0" "lf_main ?l = Opening"
    by (simp_all add: lifeStart_def)
  have "unat (12 :: u16) = length openWithKeepalive" by (simp add: openWithKeepalive_def)
  from Session_Open_whole [OF openWithKeepalive_decoded(1) _ _ _ openWithKeepalive_decoded(2),
      where sid = 1 and a = "Addr4 1" and rest = rest and ted = None and asn = 0] this
  obtain ss ss' where o: "Session_Open (lf_session ?l) = Some (Inr (), ss)" "SendKeepalive ss = Some (Inr (), ss')" "ss_keepAlive ss' = 30"
      "tcp_in (ss_tcpConn ss') = [] # rest" "\<not> tcp_closed (ss_tcpConn ss')"
    by (auto simp: OpenObject_zero_def lifeStart_def)
  let ?l1 = "afterOpen (Inr ()) (withSession ss ?l)"
  have 1: "life_step ?l ?l1" using life_step.own [OF goroutine_step.open_session [OF l(2) o(1)]] by simp
  have l1: "lf_main ?l1 = Greeting" "lf_session ?l1 = ss" by (simp_all add: afterOpen_def)
  let ?l2 = "afterGreeting (Inr ()) (withSession ss' ?l1)"
  have 2: "life_step ?l1 ?l2"
    using o(2,3) l1 by (intro life_step.own goroutine_step.greet) (simp_all add: NewTicker_def)
  have "lf_main ?l2 = Looping" "lf_receiver ?l2 = Reading 0" "lf_session ?l2 = ss'"
    by (simp_all add: afterGreeting_def startIntentSweep_def split: option.split)
  moreover have "life_step\<^sup>*\<^sup>* ?l ?l2" using 1 2 by (meson converse_rtranclp_into_rtranclp rtranclp.rtrancl_refl)
  ultimately show ?thesis using o(4,5) by (intro exI [where x = ?l2]) simp
qed

lemma session_life_witness:
  "\<exists>l. life_step\<^sup>*\<^sup>* (lifeStart (NewSession 1 (Addr4 1) lifeConn None 0)) l \<and> lf_main l = Looping \<and> runningSweepers l = 1"
  using life_loops [of "[]"] session_life by blast

text \<open>The peer sends a PCRpt message whose object has an unknown class and the length 0.\<close>

abbreviation hangConn :: TCPConn where
  "hangConn \<equiv> openConn openWithKeepalive [pcrptHeader 4, [0x63, 0x10, 0, 0]] []"

lemma zero_length_turn:
  assumes "tcp_in (ss_tcpConn ss) = [[], pcrptHeader 4, [0x63, 0x10, 0, 0]]" "\<not> tcp_closed (ss_tcpConn ss)"
  shows "receiveTurn env ss = None"
proof -
  let ?body = "[0x63, 0x10, 0, 0] :: bytes"
  let ?ss = "ss\<lparr>ss_tcpConn := (ss_tcpConn ss)\<lparr>tcp_in := [[], ?body]\<rparr>\<rparr>"
  have "length (pcrptHeader 4) = 4" by (simp add: pcrptHeader_def)
  then have "connRead 4 ss = Some (Inr (pcrptHeader 4), ?ss)"
    using connRead_chunk [of ss "[[]]" "pcrptHeader 4" "[?body]" 4] assms by force
  moreover have "CommonHeader_DecodeFromBytes (pcrptHeader 4) = Inr (NewCommonHeader MessageTypeReport 8)"
    using NewCommonHeader_read [of _ _ "[]"] by (simp add: pcrptHeader_def)
  ultimately have h: "readCommonHeader ss = Some (Inr (NewCommonHeader MessageTypeReport 8), ?ss)"
    by (simp add: readCommonHeader_def bindS_ok)
  obtain ss1 where b: "connRead 4 ?ss = Some (Inr ?body, ss1)"
    using connRead_chunk [of ?ss "[[]]" ?body "[]" 4] assms(2) by force
  have "PCRptMessage_DecodeFromBytes NewPCRptMessage ?body = None"
    using CommonObjectHeader_decode_bytes [of "0x63" "0x10" 0 "[]"]
    by (simp add: PCRptMessage_DecodeFromBytes_def NewPCRptMessage_def pcrptLoop_stalls be16_0 decodeFuncs_def)
  then have "handlePCRpt env 8 ?ss = None" using b by (simp add: handlePCRpt_def bindS_def)
  then show ?thesis using h by (simp add: receiveTurn_def bindS_def NewCommonHeader_def)
qed

abbreviation shutLife :: "life \<Rightarrow> life" where
  "shutLife l \<equiv> withSession (clearSRPolicyIntents (closeConn (lf_session l))) l"

lemma shut_closed: "tcp_closed (ss_tcpConn (lf_session (shutLife l)))"
  by (simp add: clearSRPolicyIntents_def closeConn_def)

text \<open>
  A session that is closed in its loop and ends, and one that is closed while its receiver hangs: the main
  goroutine and the sweeper return, the receiver does not.
\<close>

lemma closed_session_ends_witness:
  "(\<exists>l l'. life_step\<^sup>*\<^sup>* (lifeStart (NewSession 1 (Addr4 1) lifeConn None 0)) l \<and> lf_main l = Looping \<and> lf_receiver l = Reading 0 \<and>
      tcp_closed (ss_tcpConn (lf_session l)) \<and> goroutine_step\<^sup>*\<^sup>* l l' \<and> ended l') \<and>
   (\<exists>l l'. life_step\<^sup>*\<^sup>* (lifeStart (NewSession 1 (Addr4 1) hangConn None 0)) l \<and> lf_main l = Looping \<and>
      tcp_closed (ss_tcpConn (lf_session l)) \<and> goroutine_step\<^sup>*\<^sup>* l l' \<and> settled l' \<and> lf_receiver l' = Hanging \<and>
      (\<forall>l''. life_step\<^sup>*\<^sup>* l' l'' \<longrightarrow> lf_receiver l'' = Hanging))"
proof (intro conjI)
  obtain l where l: "life_step\<^sup>*\<^sup>* (lifeStart (NewSession 1 (Addr4 1) lifeConn None 0)) l" "lf_main l = Looping" "lf_receiver l = Reading 0"
    using life_loops [of "[]"] by blast
  have "life_step\<^sup>*\<^sup>* (lifeStart (NewSession 1 (Addr4 1) lifeConn None 0)) (shutLife l)"
    using l(1) life_step.shut by (rule rtranclp.rtrancl_into_rtrancl)
  from this closed_session_ends [OF this shut_closed] l(2,3) shut_closed [of l] obtain l' where
    "life_step\<^sup>*\<^sup>* (lifeStart (NewSession 1 (Addr4 1) lifeConn None 0)) (shutLife l)" "goroutine_step\<^sup>*\<^sup>* (shutLife l) l'" "ended l'"
    by auto
  then show "\<exists>l l'. life_step\<^sup>*\<^sup>* (lifeStart (NewSession 1 (Addr4 1) lifeConn None 0)) l \<and> lf_main l = Looping \<and> lf_receiver l = Reading 0 \<and>
      tcp_closed (ss_tcpConn (lf_session l)) \<and> goroutine_step\<^sup>*\<^sup>* l l' \<and> ended l'"
    using l(2,3) shut_closed [of l] by (intro exI [where x = "shutLife l"] exI [where x = l']) simp
next
  obtain l where l: "life_step\<^sup>*\<^sup>* (lifeStart (NewSession 1 (Addr4 1) hangConn None 0)) l" "lf_main l = Looping" "lf_receiver l = Reading 0"
      "receiveTurn undefined (lf_session l) = None"
    using life_loops [of "[pcrptHeader 4, [0x63, 0x10, 0, 0]]"] zero_length_turn by blast
  let ?h = "withSession (hangTurn undefined (lf_session l)) (l\<lparr>lf_receiver := Hanging\<rparr>)"
  have "life_step\<^sup>*\<^sup>* (lifeStart (NewSession 1 (Addr4 1) hangConn None 0)) ?h"
    using l(1) life_step.own [OF goroutine_step.hang [OF l(3,4)]] by (rule rtranclp.rtrancl_into_rtrancl)
  then have s: "life_step\<^sup>*\<^sup>* (lifeStart (NewSession 1 (Addr4 1) hangConn None 0)) (shutLife ?h)"
    using life_step.shut by (rule rtranclp.rtrancl_into_rtrancl)
  note ends = closed_session_ends [OF s shut_closed]
  obtain l' where l': "goroutine_step\<^sup>*\<^sup>* (shutLife ?h) l'" "settled l'" using ends by blast
  have "lf_receiver l'' = Hanging" if "life_step\<^sup>*\<^sup>* (shutLife ?h) l''" for l'' using ends that by simp
  then have "\<forall>l''. life_step\<^sup>*\<^sup>* l' l'' \<longrightarrow> lf_receiver l'' = Hanging" using goroutine_life [OF l'(1)] by (meson rtranclp_trans)
  then show "\<exists>l l'. life_step\<^sup>*\<^sup>* (lifeStart (NewSession 1 (Addr4 1) hangConn None 0)) l \<and> lf_main l = Looping \<and>
      tcp_closed (ss_tcpConn (lf_session l)) \<and> goroutine_step\<^sup>*\<^sup>* l l' \<and> settled l' \<and> lf_receiver l' = Hanging \<and>
      (\<forall>l''. life_step\<^sup>*\<^sup>* l' l'' \<longrightarrow> lf_receiver l'' = Hanging)"
    using s l(2) l' shut_closed [of ?h] by (intro exI [where x = "shutLife ?h"] exI [where x = l']) simp
qed

end
