(* ===== verification/Client_Sessions.thy ===== *)
theory Client_Sessions
  imports Client_Laws Session_Open
begin

text \<open>
  The sessions a client lists: every session of the server once, in the order of addresses, with its
  capabilities, of which the server leaves out repetitions. The client writes the capabilities itself:
  vendors, association types and unknown types as numbers, for which \<open>CapStrings\<close> of the server has names,
  path setup types in the order of the TLV and as often as it repeats them, where the server writes SR-TE
  before SRv6-TE and each once, and everything else with the texts of the server.
\<close>

section \<open>Advertised capabilities\<close>

lemma server_step_caps:
  "server_step sv sv' \<Longrightarrow> server_ok sv \<Longrightarrow> \<forall>p < length (pce_store sv). caps_ok (sessionAt sv p) \<Longrightarrow>
     \<forall>p < length (pce_store sv'). caps_ok (sessionAt sv' p)"
proof (induction rule: server_step.induct)
  case (session p sv ss)
  then show ?case using session_step_caps by (auto simp: sessionAt_update)
next
  case (accept a conn sv)
  then show ?case by (auto simp: acceptSession_def sessionAt_def nth_append less_Suc_eq Let_def)
next
  case (close p sv)
  have "pce_store (closeSession p sv) = (pce_store sv)[p := clearSRPolicyIntents (closeConn (sessionAt sv p))]"
    using closeSession_effect(2) [OF close(2)] close(1) by blast
  then show ?case using close(1,3)
    by (auto simp: sessionAt_def nth_list_update caps_ok_def clearSRPolicyIntents_def closeConn_def)
next
  case (ted h es sv sv')
  then show ?case by (auto simp: updateTED_def setTED_def sessionAt_def bindE_eq_Inr)
qed

lemma server_steps_caps:
  assumes "server_step\<^sup>*\<^sup>* (NewPCE opts) sv" "p < length (pce_store sv)"
  shows "caps_ok (sessionAt sv p)"
proof -
  have "server_ok sv \<and> (\<forall>p < length (pce_store sv). caps_ok (sessionAt sv p))"
    using assms(1)
  proof (induction rule: rtranclp_induct)
    case base
    have "pce_store (NewPCE opts) = []" by (simp add: NewPCE_def setTED_def Let_def)
    then show ?case using server_start by simp
  next
    case (step sv1 sv2)
    then show ?case using server_step_ok server_step_caps by blast
  qed
  with assms(2) show ?thesis by blast
qed

section \<open>Repetitions\<close>

definition firsts :: "'a list \<Rightarrow> 'a list" where
  "firsts xs = rev (remdups (rev xs))"

lemma firsts_simps [simp]: "firsts [] = []" "firsts (x # xs) = x # filter (\<lambda>y. y \<noteq> x) (firsts xs)"
proof -
  have r: "remdups (ys @ [x]) = filter (\<lambda>y. y \<noteq> x) (remdups ys) @ [x]" for ys
    by (induction ys) auto
  show "firsts (x # xs) = x # filter (\<lambda>y. y \<noteq> x) (firsts xs)" by (simp add: firsts_def r rev_filter)
qed (simp add: firsts_def)

text \<open>Two TLVs with the same bytes are the same.\<close>

lemma tlv_Serialize_inj:
  assumes "tlv_ok x" "tlv_ok y" "tlv_Serialize x = tlv_Serialize y"
  shows "x = y"
proof -
  have "\<exists>bs. tlv_Serialize z = Inr bs \<and> decodeTLVSequence decodeTLV bs = Inr [z]" if "tlv_ok z" for z
    using standard_space.sequence_roundtrip [of "[z]"] that by (auto simp: bindE_eq_Inr)
  with assms show ?thesis by (metis Inr_inject list.inject)
qed

definition capKey :: "tlv \<Rightarrow> u16 \<times> bytes" where
  "capKey cap = (tlv_Type cap, projr (tlv_Serialize cap))"

lemma buildCapabilities_run:
  assumes "list_all tlv_ok caps" "list_all tlv_ok old" "set seen = capKey ` set old"
  shows "buildCapabilities seen caps = Inr (map buildCapability (filter (\<lambda>c. c \<notin> set old) (firsts caps)))"
  using assms
proof (induction caps arbitrary: seen old)
  case (Cons c caps)
  obtain bs where bs: "tlv_Serialize c = Inr bs"
    using standard_space.sequence_roundtrip [of "[c]"] Cons.prems(1) by (auto simp: bindE_eq_Inr)
  have k: "(tlv_Type c, bs) = capKey c" by (simp add: capKey_def bs)
  have inj: "capKey c = capKey o' \<longleftrightarrow> c = o'" if o: "o' \<in> set old" for o'
  proof
    assume e: "capKey c = capKey o'"
    have ok: "tlv_ok o'" using o Cons.prems(2) by (simp add: list_all_iff)
    then obtain bs' where "tlv_Serialize o' = Inr bs'"
      using standard_space.sequence_roundtrip [of "[o']"] by (auto simp: bindE_eq_Inr)
    then show "c = o'" using e bs ok Cons.prems(1) by (intro tlv_Serialize_inj) (simp_all add: capKey_def)
  qed simp
  then have seen: "(tlv_Type c, bs) \<in> set seen \<longleftrightarrow> c \<in> set old"
    unfolding k Cons.prems(3) by auto
  show ?case
  proof (cases "c \<in> set old")
    case True
    have "filter (\<lambda>d. d \<notin> set old) (filter (\<lambda>y. y \<noteq> c) (firsts caps)) = filter (\<lambda>d. d \<notin> set old) (firsts caps)"
      using True by (auto simp: filter_filter intro: filter_cong)
    then show ?thesis using True seen bs Cons.IH [of old seen] Cons.prems by simp
  next
    case False
    have "buildCapabilities ((tlv_Type c, bs) # seen) caps =
        Inr (map buildCapability (filter (\<lambda>d. d \<notin> set (c # old)) (firsts caps)))"
      using Cons.prems k by (intro Cons.IH) simp_all
    moreover have "filter (\<lambda>d. d \<notin> set (c # old)) (firsts caps) =
        filter (\<lambda>d. d \<notin> set old) (filter (\<lambda>y. y \<noteq> c) (firsts caps))"
      by (auto simp: filter_filter intro: filter_cong)
    ultimately show ?thesis using False seen bs by simp
  qed
qed simp

section \<open>Texts\<close>

text \<open>What the client writes, written out where it differs from the server.\<close>

fun clientStrings :: "tlv \<Rightarrow> string list" where
  "clientStrings (TLV_VendorInformation tlv) = [''Vendor-Info('' @ string_of_nat (unat (vi_EnterpriseNumber tlv)) @ '')'']"
| "clientStrings (TLV_PathSetupTypeCapability tlv) =
     concat (map (\<lambda>t. if t = 1 then [''SR-TE''] else if t = 3 then [''SRv6-TE''] else []) (psc_PathSetupTypes tlv))"
| "clientStrings (TLV_AssocTypeList tlv) = map (\<lambda>t. ''AssocType:'' @ string_of_nat (unat t)) (atl_AssocTypes tlv)"
| "clientStrings (TLV_Unknown tlv) = [''unknown_type_'' @ string_of_nat (unat (unk_Typ tlv))]"
| "clientStrings cap = CapStrings cap"

text \<open>
  How the texts of the server follow from those of the client: not at all where the client writes numbers,
  as the set of the names for path setup types, and as they are for all others.
\<close>

fun writesNumbers :: "tlv \<Rightarrow> bool" where
  "writesNumbers (TLV_VendorInformation tlv) = True"
| "writesNumbers (TLV_AssocTypeList tlv) = True"
| "writesNumbers (TLV_Unknown tlv) = True"
| "writesNumbers cap = False"

fun writesTypes :: "tlv \<Rightarrow> bool" where
  "writesTypes (TLV_PathSetupTypeCapability tlv) = True"
| "writesTypes cap = False"

definition serverStrings :: "tlv \<Rightarrow> string list \<Rightarrow> string list" where
  "serverStrings cap texts =
     (if writesTypes cap then filter (\<lambda>name. name \<in> set texts) [''SR-TE'', ''SRv6-TE''] else texts)"

lemma CapStrings_server:
  assumes "tlv_ok cap" "\<not> writesNumbers cap"
  shows "CapStrings cap = serverStrings cap (clientStrings cap)"
  using assms
  by (cases cap)
    (auto simp: serverStrings_def CapStrings_defs flagString_def pstCount_def psc_ok_def Let_def
      split: if_splits)

lemma unat_ucast_u32 [simp]: "unat (ucast (x :: u8) :: u32) = unat x" "unat (ucast (y :: u16) :: u32) = unat y"
proof -
  have "unat x < 2 ^ 32" "unat y < 2 ^ 32"
    using unsigned_less [where ?'a = nat, of x] unsigned_less [where ?'a = nat, of y] by simp_all
  then show "unat (ucast x :: u32) = unat x" "unat (ucast y :: u32) = unat y"
    by (simp_all add: unsigned_ucast_eq take_bit_nat_eq_self)
qed

lemma ucast_u8_small [simp]: "(ucast (x :: u8) :: u32) = 1 \<longleftrightarrow> x = 1" "(ucast (x :: u8) :: u32) = 3 \<longleftrightarrow> x = 3"
  by (simp_all add: word_unat_eq_iff)

lemma client_strings:
  assumes "isCapability cap"
  shows "Capability_Strings (capabilityFromPB (buildCapability cap)) = clientStrings cap"
  using assms
  by (cases cap)
    (simp_all add: Capability_Strings_def capabilityFromPB_def buildCapability_def StatefulCapability_Strings_def
      SRCapability_Strings_def SRv6Capability_Strings_def PathSetupTypeCapability_Strings_def
      AssocTypeListCapability_Strings_def MultipathCapability_Strings_def decimal_def comp_def CapStrings_defs cong: if_cong)

section \<open>The list of sessions\<close>

definition session_wire_ok :: "Session \<Rightarrow> bool" where
  "session_wire_ok ss \<longleftrightarrow> caps_ok ss \<and> wire_addr (ss_peerAddr ss)"

definition sessionPB :: "Session \<Rightarrow> pbSession" where
  "sessionPB ss = \<lparr>bp_Addr = AsSlice (ss_peerAddr ss), bp_State = SESSION_STATE_UP,
     bp_Capabilities = map buildCapability (firsts (ss_advertisedCapabilities ss)), bp_IsSynced = ss_isSynced ss, bp_SrPolicies = []\<rparr>"

definition clientSession :: "Session \<Rightarrow> ClientSession" where
  "clientSession ss = \<lparr>cl_Addr = ss_peerAddr ss, cl_State = ''SESSION_STATE_UP'',
     cl_Capabilities = map (capabilityFromPB \<circ> buildCapability) (firsts (ss_advertisedCapabilities ss)), cl_IsSynced = ss_isSynced ss\<rparr>"

lemma buildSession_run: "session_wire_ok ss \<Longrightarrow> buildSession ss = Inr (sessionPB ss)"
  using buildCapabilities_run [of "ss_advertisedCapabilities ss" "[]" "[]"]
  by (simp add: session_wire_ok_def caps_ok_def buildSession_def sessionPB_def)

interpretation session_message: wire_message sessionPB sessionFromPB session_wire_ok clientSession
  by unfold_locales
    (simp add: session_wire_ok_def sessionPB_def sessionFromPB_def clientSession_def SessionState_String_def)

lemma clientSession_strings:
  assumes "session_wire_ok ss"
  shows "ClientSession_CapStrings (clientSession ss) = concat (map clientStrings (firsts (ss_advertisedCapabilities ss)))"
proof -
  have "isCapability c" if "c \<in> set (firsts (ss_advertisedCapabilities ss))" for c
    using that assms by (auto simp: session_wire_ok_def caps_ok_def firsts_def list_all_iff)
  then show ?thesis
    by (simp add: ClientSession_CapStrings_def clientSession_def comp_def client_strings cong: map_cong)
qed

text \<open>
  C14: The sessions a client lists are those of the server, in the order of addresses, each with its
  address, its state of synchronization, and the texts of every capability the PCE advertises to it, each
  capability once, in the order of advertisement. Vendors, association types and unknown types are
  written as numbers; path setup types are written in the order and with the repetitions of the TLV, and the server's
  own text names the same types, SR-TE first and each once; all others are written as the server writes them.
\<close>

theorem GetSessions_roundtrip:
  assumes "server_step\<^sup>*\<^sup>* (NewPCE opts) sv" "orders_ok env"
    and "\<And>p. p \<in> set (pce_sessionList sv) \<Longrightarrow> wire_addr (ss_peerAddr (sessionAt sv p))"
  shows "\<exists>ps ret. mset ps = mset (pce_sessionList sv) \<and> sorted (map (\<lambda>p. addr_key (ss_peerAddr (sessionAt sv p))) ps) \<and>
    GetSessions (GetSessionList env sv) = Inr ret \<and>
    list_all2 (\<lambda>p e. cl_Addr e = ss_peerAddr (sessionAt sv p) \<and> cl_State e = ''SESSION_STATE_UP'' \<and>
        cl_IsSynced e = ss_isSynced (sessionAt sv p) \<and>
        ClientSession_CapStrings e = concat (map clientStrings (firsts (ss_advertisedCapabilities (sessionAt sv p)))) \<and>
        (\<forall>cap \<in> set (ss_advertisedCapabilities (sessionAt sv p)).
           writesNumbers cap \<or> CapStrings cap = serverStrings cap (clientStrings cap))) ps ret"
proof -
  let ?key = "\<lambda>p. addr_key (ss_peerAddr (sessionAt sv p))"
  let ?ps = "SortFunc (qe_sessions env) ?key (Sessions sv)"
  have m: "mset ?ps = mset (pce_sessionList sv)" using assms(2) by (simp add: orders_ok_def Sessions_def)
  have ok: "server_ok sv" using server_steps_ok [OF assms(1) server_start] .
  have w: "session_wire_ok (sessionAt sv p)" if "p \<in> set ?ps" for p
    using that mset_eq_setD [OF m] ok server_steps_caps [OF assms(1)] assms(3) by (auto simp: session_wire_ok_def server_ok_def)
  have texts: "\<forall>cap \<in> set (ss_advertisedCapabilities (sessionAt sv p)).
      writesNumbers cap \<or> CapStrings cap = serverStrings cap (clientStrings cap)" if "p \<in> set ?ps" for p
    using w [OF that] CapStrings_server by (auto simp: session_wire_ok_def caps_ok_def list_all_iff)
  have "GetSessionList env sv = Inr (map (\<lambda>p. sessionPB (sessionAt sv p)) ?ps)"
    unfolding GetSessionList_def using w by (intro mapE_all_Inr buildSession_run)
  then have "GetSessions (GetSessionList env sv) = mapE sessionFromPB (map sessionPB (map (sessionAt sv) ?ps))"
    by (simp add: GetSessions_def comp_def)
  also have "\<dots> = Inr (map clientSession (map (sessionAt sv) ?ps))"
    using w by (intro session_message.read_list) (simp add: list_all_iff)
  finally have r: "GetSessions (GetSessionList env sv) = Inr (map (\<lambda>p. clientSession (sessionAt sv p)) ?ps)"
    by (simp add: comp_def)
  have "list_all2 (\<lambda>p e. cl_Addr e = ss_peerAddr (sessionAt sv p) \<and> cl_State e = ''SESSION_STATE_UP'' \<and>
        cl_IsSynced e = ss_isSynced (sessionAt sv p) \<and>
        ClientSession_CapStrings e = concat (map clientStrings (firsts (ss_advertisedCapabilities (sessionAt sv p)))) \<and>
        (\<forall>cap \<in> set (ss_advertisedCapabilities (sessionAt sv p)).
           writesNumbers cap \<or> CapStrings cap = serverStrings cap (clientStrings cap)))
      ?ps (map (\<lambda>p. clientSession (sessionAt sv p)) ?ps)"
    using w clientSession_strings texts by (simp add: list_all2_map2 list_all2_same) (simp add: clientSession_def)
  moreover have "sorted (map ?key ?ps)" by simp
  ultimately show ?thesis using m r by blast
qed

text \<open>A session that was told the same capability twice, and path setup types against their order.\<close>

definition sampleCap :: tlv where
  "sampleCap = TLV_SRv6PCECapability \<lparr>srv6p_IsNAISupported = True\<rparr>"

definition sampleTypes :: tlv where
  "sampleTypes = TLV_PathSetupTypeCapability (PathSetupTypeCapability [3, 1, 1] [])"

definition cappedServer :: Server where
  "cappedServer = updateSession 0 ((sessionAt sampleServer 0)\<lparr>ss_receivedPccCapabilities := [sampleCap, sampleCap, sampleTypes],
     ss_advertisedCapabilities := PolaCapability [sampleCap, sampleCap, sampleTypes],
     ss_pccType := DeterminePccType [sampleCap, sampleCap, sampleTypes], ss_keepAlive := 30\<rparr>) sampleServer"

lemma cappedServer_reached: "server_step\<^sup>*\<^sup>* (NewPCE sampleOptions) cappedServer"
proof (rule rtranclp.rtrancl_into_rtrancl [OF sampleServer_reached])
  show "server_step sampleServer cappedServer"
    unfolding cappedServer_def
    by (intro server_step.session session_step.capabilities)
      (simp_all add: sampleCap_def sampleTypes_def psc_ok_def max_value_def paddedLength_def pstCount_def
        PathSetupTypeCapability_Len_def paddedPSTLength_def tlvs_size_def SRv6PCECapability_Len_def tlv_consts sampleServer_def)
qed

lemma cappedServer_sessions:
  "pce_sessionList cappedServer = [0, 1]" "ss_peerAddr (sessionAt cappedServer 0) = Addr4 0x0A000001"
  "ss_peerAddr (sessionAt cappedServer 1) = Addr4 0x0A000002" "ss_advertisedCapabilities (sessionAt cappedServer 0) = [sampleCap, sampleCap, sampleTypes]"
  by (simp_all add: cappedServer_def sessionAt_def updateSession_def sampleServer_def acceptSession_def NewPCE_def setTED_def
      NewSession_def Let_def sampleCap_def sampleTypes_def)

lemma GetSessions_roundtrip_witness:
  "\<exists>ret. GetSessions (GetSessionList sampleQueryEnv cappedServer) = Inr ret \<and>
     (\<exists>e \<in> set ret. cl_Addr e = Addr4 0x0A000001 \<and> ClientSession_CapStrings e = [''SRv6'', ''SRv6-NAI-Supported'', ''SRv6-TE'', ''SR-TE'', ''SR-TE'']) \<and>
     CapStrings sampleTypes = [''SR-TE'', ''SRv6-TE'']"
proof -
  have o: "orders_ok sampleQueryEnv" by (simp add: orders_ok_def sampleQueryEnv_def)
  have w: "wire_addr (ss_peerAddr (sessionAt cappedServer p))" if "p \<in> set (pce_sessionList cappedServer)" for p
    using that by (auto simp: cappedServer_sessions cappedServer_sessions(3) [unfolded One_nat_def] wire_addr_def)
  let ?texts = "\<lambda>p. \<forall>cap \<in> set (ss_advertisedCapabilities (sessionAt cappedServer p)).
      writesNumbers cap \<or> CapStrings cap = serverStrings cap (clientStrings cap)"
  from GetSessions_roundtrip [OF cappedServer_reached o w] obtain ps ret where
    r: "mset ps = mset (pce_sessionList cappedServer)" "GetSessions (GetSessionList sampleQueryEnv cappedServer) = Inr ret"
      "list_all2 (\<lambda>p e. cl_Addr e = ss_peerAddr (sessionAt cappedServer p) \<and> cl_State e = ''SESSION_STATE_UP'' \<and>
        cl_IsSynced e = ss_isSynced (sessionAt cappedServer p) \<and>
        ClientSession_CapStrings e = concat (map clientStrings (firsts (ss_advertisedCapabilities (sessionAt cappedServer p)))) \<and> ?texts p) ps ret"
    by blast
  have "0 \<in> set ps" using mset_eq_setD [OF r(1)] by (simp add: cappedServer_sessions)
  then obtain i where i: "i < length ps" "ps ! i = 0" by (auto simp: in_set_conv_nth)
  then have e: "cl_Addr (ret ! i) = Addr4 0x0A000001 \<and>
      ClientSession_CapStrings (ret ! i) = concat (map clientStrings (firsts [sampleCap, sampleCap, sampleTypes]))" "?texts 0"
      "ret ! i \<in> set ret"
    using r(3) list_all2_nthD [OF r(3) i(1)] by (auto simp: cappedServer_sessions list_all2_lengthD)
  from e(2) have "writesNumbers sampleTypes \<or> CapStrings sampleTypes = serverStrings sampleTypes (clientStrings sampleTypes)"
    by (simp add: cappedServer_sessions)
  then have "CapStrings sampleTypes = [''SR-TE'', ''SRv6-TE'']"
    by (simp add: sampleTypes_def serverStrings_def del: CapStrings.simps)
  then show ?thesis using r(2) e(1,3) by (intro exI [where x = ret] conjI bexI [of _ "ret ! i"]) (simp_all add: sampleCap_def sampleTypes_def flagString_def CapStrings_defs del: CapStrings.simps(7))
qed

end
