(* ===== verification/Spec2Isabelle.thy ===== *)
theory Spec2Isabelle
  imports Object_Laws Requests Cspf_Loose Api_Laws Polad Tlv_Log Cli_Json Cli_Cmd
    Session_Bounds Session_Life Client_Sessions
begin

text \<open>
  Pola PCE: a stateful path computation element for segment routing, written in Go.

  The daemon \<open>polad\<close> accepts PCEP sessions from routers, learns the SR policies they report, computes
  paths over a traffic engineering database (TED) it imports from GoBGP, and creates, updates and deletes
  policies on the routers for the clients of a gRPC API. The command \<open>pola\<close> is such a client.

  \<^bold>\<open>The program's parts and the theories that model them\<close> (files below \<open>src/\<close>).

  \<^item> Go itself. Go_Prelude: integers as words that wrap, an error or a panic as the left value of a sum
    (\<open>result\<close>), checked slices and indices, byte buffers, big-endian conversions. Go_Strings, Netip,
    Netip_Text: the parts of \<open>strconv\<close>, \<open>strings\<close> and \<open>net/netip\<close> the code computes with, a string being
    its bytes. Netip_Roundtrip: what \<open>netip\<close> prints it reads back.
  \<^item> TLVs (\<open>pkg/packet/pcep/tlv.go\<close>, \<open>tlv_common.go\<close>, \<open>pcep_util.go\<close>, \<open>vendor.go\<close>). Wire holds the
    helpers, Tlv_Codec the interface \<open>tlv_codec\<close> of one TLV type with its laws, Tlv_Capability and Tlv_Path
    every type with its interpretation, Tlv_Seq the sum of all types and the decoders of sequences, proved
    once in the interface \<open>tlv_space\<close> for standard and vendor TLVs. Tlv_Text has the names and \<open>CapStrings\<close>,
    Tlv_Log the names with references and \<open>MarshalLogObject\<close>.
  \<^item> Objects (\<open>pkg/packet/pcep/object.go\<close>). Objects holds the common header and most objects, with the
    interface \<open>object_codec\<close> they are interpretations of; Ero and Ero_Roundtrip the explicit route with its
    subobjects; Assoc the association, endpoints and vendor objects; Object_Laws their laws one by one.
  \<^item> Messages (\<open>pkg/packet/pcep/message.go\<close>). Messages has the definitions; Message_Codec the laws of Open
    and PCErr, Open_Laws what a decoded Open holds and when decoding it panics; State_Reports how a PCRpt is
    cut into reports, for reports with any objects in any order (\<open>wireReport\<close>); Requests what a PCUpd and a
    PCInitiate carry.
  \<^item> Segments and policies (\<open>pkg/table/sr_policy.go\<close>): Segment.
  \<^item> TED (\<open>pkg/table/ted.go\<close>): Ted keeps nodes in a heap because links, prefixes and SIDs point to nodes
    that updates change in place; Ted_View abstracts from the pointers.
  \<^item> SID validation (\<open>pkg/table/sid_validate.go\<close>): Sid_Validate, Sid_Laws.
  \<^item> Path computation (\<open>pkg/cspf/cspf.go\<close>): Cspf, Cspf_Laws, Cspf_Loose.
  \<^item> PCEP session (\<open>pkg/server/session.go\<close>, \<open>pkg/packet/pcep/capability.go\<close>): Session_State has the record
    of a session and the operations on it, Session the handlers of messages and the senders as state
    passing; Session_Runs decomposes every handler into the atomic steps of \<open>session_step\<close>, which
    interleave with the steps of the other goroutines; Session_Open is the start of a session, Session_Life its
    goroutines from there to their end (\<open>goroutine_step\<close>: \<open>Established\<close>, its receiver and the sweeper of
    intents; a receiver that never returns from a turn is in the phase \<open>Hanging\<close>); Session_Laws, Session_Props, Session_Requests and Session_Bounds hold the properties.
  \<^item> Server (\<open>pkg/server/server.go\<close>): Server keeps sessions in a store, since lists and handlers share
    pointers to them, and \<open>Serve\<close> runs on the outcomes of its listener; Server_Laws has the transition system \<open>server_step\<close> and its invariant.
  \<^item> gRPC API (\<open>pkg/server/grpc_server.go\<close>): Api for the requests that change something, Api_View for the
    queries, Api_Laws for what the requests do.
  \<^item> gRPC client (\<open>cmd/pola/grpc/grpc_client.go\<close>): Client, with Client_Laws (policies),
    Client_Ted (TED) and Client_Sessions. The interface \<open>wire_message\<close> is the contract between the server
    that builds a message and the client that reads it.
  \<^item> Import of BGP-LS (\<open>internal/gobgp/interface.go\<close>): Bgp_Ls and Bgp_Laws; Debouncer is the debouncer as a
    step relation between goroutine, timer and triggers, Monitor the loop that receives events, with the
    debouncer's goroutine beside it.
  \<^item> Commands (\<open>cmd/pola\<close>): Cli for what is checked and sent, Cli_Laws for its effect on the server,
    Cli_Text for what is printed as lines, the validation of the configuration (\<open>internal/config/config.go\<close>) and the
    options \<open>cmd/polad/main.go\<close> derives from it; Cli_Json for what is printed as JSON, Cli_Cmd for the way from
    files and flags to the functions of Cli and to the start of the daemon.
  \<^item> The daemon (\<open>cmd/polad/main.go\<close>, \<open>NewPCE\<close>): Polad composes Monitor and Server over the channel between
    them.

  Messages of a peer reach \<open>ReceivePCEPMessage\<close>, which decodes them, updates the policies of its session
  and may answer; requests of a client run through Api, Cspf and Sid_Validate to a session, and back as a
  report. TED elements flow from Bgp_Ls through \<open>updateTED\<close> to \<open>GetTED\<close>, Client and the printer.

  \<^bold>\<open>What the lemmas show.\<close> Codecs: decoding after encoding gives the value, lengths in headers are true,
  decoders do not panic, or the inputs on which they do. PCRpt: the cut into reports, and the inputs on
  which decoding panics or never returns. Session: the opening; the policy database is the fold of the reports; requests
  are answered, fail without a trace, and get fresh SRP-IDs; its goroutines end when the connection is closed, all
  but a receiver that hangs in a turn. TED: an update is the abstract update of
  views. CSPF: it ends, finds a path whenever there is one, and a shortest one. Server: the invariant over
  all interleavings, and what closing removes. API and client: a request that succeeds has written one
  message on the session it names, one that fails has changed nothing; what a client lists is what the
  server holds. Import: well-formed, and what a client reads after it; what the server publishes is what
  was imported, in order, and where changes are lost. Commands: printed success implies
  the effect on the server; the TED is printed as lines that are written out over the view of it, and as a JSON value whose
  members give the fields of the view; the JSON list of policies can be read back.

  \<^bold>\<open>Parameters.\<close> Go ranges over maps in any order: \<open>goEnv\<close>, \<open>apiEnv\<close> and \<open>queryEnv\<close> hold functions
  that rearrange, and theorems hold for all of them. \<open>slices.SortFunc\<close> is not stable; the order of equal
  elements is a parameter, too. \<open>beyond\<close> is what lies behind a slice in its array, which Go's decoders can
  reach up to its capacity. A call over gRPC is a function from requests to results; \<open>faithful\<close> says that
  it reports success only when the handler of the server succeeded. Time is a parameter. A connection is
  the list of segments that arrive, and a read returns at most one of them.

  \<^bold>\<open>Bounds.\<close> Lengths on the wire are 16 bit, so round trips assume that an object fits \<open>max_object\<close>
  (65532 bytes), an ERO at most 1000 subobjects, a request at most 900 segments and a name of at most 1000
  bytes, far above what routers accept. Loops that may not end are \<open>partial_function\<close>s: not returning is
  \<open>None\<close>, and termination is a theorem of its own. \<open>fits\<close> says that the costs of a path do not wrap in 32
  bits; without it the computation can hang, which is proved.

  \<^bold>\<open>Not modelled.\<close> Calls of the logger and its set-up; the sockets that listen, and the clients of gRPC and
  GoBGP beyond their answers; the generated protobuf code and its transport, with the check of UTF-8; the
  decoder of YAML and the text of JSON (a value is the tree that is written); cobra's parsing of commands
  and flags; the texts of errors beyond their format string, and the sample inputs shown with them.
\<close>

end
